(* ===== verification/Py_Prelude.thy ===== *)
theory Py_Prelude
  imports Main "HOL-Library.AList" "HOL-Library.Sublist"
begin

text \<open>
  What every component shares: Python dictionaries as insertion-ordered association lists,
  loops that stop at the first exception, the few string methods the code calls, and the
  rounding of the built-in \<open>round\<close>.

  Conventions of the whole development. A Python \<open>dict\<close> is an association list with distinct
  keys whose order is the insertion order, so a store to an existing key keeps its place
  (\<open>AList.update\<close>). An exception is the \<open>Inl\<close> side of a sum. A Python \<open>set\<close> that is
  only tested for membership is a list or a HOL set; one that is iterated is a list in order of
  first insertion: the language leaves the order open, and no property here depends on it.
\<close>

named_theorems dict_simps \<open>lookups and key sets of dictionaries\<close>
named_theorems result_simps \<open>sequencing of computations that may raise\<close>

section \<open>Dictionaries\<close>

type_synonym ('k, 'v) dict = "('k \<times> 'v) list"

abbreviation dict_get :: "('k, 'v) dict \<Rightarrow> 'k \<Rightarrow> 'v option" where
  "dict_get d k \<equiv> map_of d k"

abbreviation dict_set :: "('k, 'v) dict \<Rightarrow> 'k \<Rightarrow> 'v \<Rightarrow> ('k, 'v) dict" where
  "dict_set d k v \<equiv> AList.update k v d"

abbreviation dict_keys :: "('k, 'v) dict \<Rightarrow> 'k list" where
  "dict_keys d \<equiv> map fst d"

abbreviation dict_values :: "('k, 'v) dict \<Rightarrow> 'v list" where
  "dict_values d \<equiv> map snd d"

definition dict_has :: "('k, 'v) dict \<Rightarrow> 'k \<Rightarrow> bool" where
  "dict_has d k \<longleftrightarrow> map_of d k \<noteq> None"

definition dict_update :: "('k, 'v) dict \<Rightarrow> ('k, 'v) dict \<Rightarrow> ('k, 'v) dict" where
  "dict_update d e = foldl (\<lambda>acc (k, v). dict_set acc k v) d e"

definition dict_of :: "('k \<times> 'v) list \<Rightarrow> ('k, 'v) dict" where
  \<comment> \<open>a dict comprehension: later pairs overwrite the values of earlier ones\<close>
  "dict_of ps = dict_update [] ps"

abbreviation wf_dict :: "('k, 'v) dict \<Rightarrow> bool" where
  "wf_dict d \<equiv> distinct (dict_keys d)"

lemma dict_has_iff [dict_simps]: "dict_has d k \<longleftrightarrow> k \<in> fst ` set d"
  by (auto simp: dict_has_def map_of_eq_None_iff)

lemma map_of_dict_set [dict_simps]: "map_of (dict_set d k v) = (map_of d)(k \<mapsto> v)"
  by (rule ext) (simp add: update_conv')

lemma keys_dict_set [dict_simps]: "fst ` set (dict_set d k v) = insert k (fst ` set d)"
  by (induction d) auto

lemma wf_dict_set: "wf_dict d \<Longrightarrow> wf_dict (dict_set d k v)"
  by (rule distinct_update)

lemma map_of_dict_update [dict_simps]: "map_of (dict_update d e) = map_of d ++ map_of (rev e)"
proof (induction e arbitrary: d)
  case Nil
  then show ?case by (simp add: dict_update_def)
next
  case (Cons p e)
  obtain k v where p: "p = (k, v)" by force
  have "dict_update d (p # e) = dict_update (dict_set d k v) e"
    by (simp add: dict_update_def p)
  then show ?case
    using Cons.IH [of "dict_set d k v"]
    by (simp add: p map_of_dict_set map_add_def fun_eq_iff split: option.splits)
qed

lemma wf_dict_update: "wf_dict d \<Longrightarrow> wf_dict (dict_update d e)"
  unfolding dict_update_def
  by (induction e arbitrary: d) (auto intro: wf_dict_set)

lemma map_of_dict_of [dict_simps]: "map_of (dict_of ps) = map_of (rev ps)"
  by (simp add: dict_of_def dict_simps)

lemma wf_dict_of [simp]: "wf_dict (dict_of ps)"
  by (simp add: dict_of_def wf_dict_update)

lemma keys_dict_of [dict_simps]: "fst ` set (dict_of ps) = fst ` set ps"
  by (metis dom_map_of_conv_image_fst map_of_dict_of set_rev)

lemma map_of_rev_distinct: "wf_dict ps \<Longrightarrow> map_of (rev ps) = map_of ps"
  by (rule map_of_eqI) (auto simp: rev_map [symmetric] map_of_eq_Some_iff)

lemma map_of_dict_of_distinct: "wf_dict ps \<Longrightarrow> map_of (dict_of ps) = map_of ps"
  by (simp add: dict_simps map_of_rev_distinct)

lemma dict_of_elem: "(k, v) \<in> set (dict_of ps) \<Longrightarrow> (k, v) \<in> set ps"
  by (metis map_of_SomeD map_of_dict_of map_of_is_SomeI set_rev wf_dict_of)

lemma dict_of_keyed_lookup:
  "distinct (map f xs) \<Longrightarrow> x \<in> set xs \<Longrightarrow> map_of (dict_of (map (\<lambda>x. (f x, x)) xs)) (f x) = Some x"
  by (subst map_of_dict_of_distinct) (auto simp: o_def intro!: map_of_is_SomeI)

lemma dict_of_keyed_mem:
  "map_of (dict_of (map (\<lambda>x. (f x, x)) xs)) k = Some v \<Longrightarrow> v \<in> set xs \<and> f v = k"
  by (drule map_of_SomeD, drule dict_of_elem) auto

lemma map_of_filter_keys:
  "map_of (filter (\<lambda>(k, v). P k) d) k = (if P k then map_of d k else None)"
  by (induction d) auto

lemma dict_set_elem: "(k', v') \<in> set (dict_set d k v) \<Longrightarrow> (k', v') \<in> set d \<or> (k' = k \<and> v' = v)"
  by (induction d) (auto split: if_splits)

lemma dict_set_self: "(k, v) \<in> set (dict_set d k v)"
  by (induction d) auto

lemma dict_update_elem: "p \<in> set (dict_update d e) \<Longrightarrow> p \<in> set d \<or> p \<in> set e"
  unfolding dict_update_def
proof (induction e arbitrary: d)
  case (Cons q e)
  obtain k v where q: "q = (k, v)" by force
  from Cons.IH [of "dict_set d k v"] Cons.prems show ?case
    by (cases p) (auto simp: q dest: dict_set_elem)
qed simp

section \<open>Computations that may raise\<close>

fun rbind :: "'e + 'a \<Rightarrow> ('a \<Rightarrow> 'e + 'b) \<Rightarrow> 'e + 'b" where
  "rbind (Inl e) f = Inl e"
| "rbind (Inr x) f = f x"

fun rmap :: "('a \<Rightarrow> 'e + 'b) \<Rightarrow> 'a list \<Rightarrow> 'e + 'b list" where
  "rmap f [] = Inr []"
| "rmap f (x # xs) = rbind (f x) (\<lambda>y. rbind (rmap f xs) (\<lambda>ys. Inr (y # ys)))"

fun rfold :: "('s \<Rightarrow> 'a \<Rightarrow> 'e + 's) \<Rightarrow> 's \<Rightarrow> 'a list \<Rightarrow> 'e + 's" where
  "rfold f s [] = Inr s"
| "rfold f s (x # xs) = rbind (f s x) (\<lambda>s'. rfold f s' xs)"

fun rall :: "('a \<Rightarrow> 'e + bool) \<Rightarrow> 'a list \<Rightarrow> 'e + bool" where
  \<comment> \<open>the built-in \<open>all\<close> over a generator: stops at the first \<open>False\<close>\<close>
  "rall f [] = Inr True"
| "rall f (x # xs) = rbind (f x) (\<lambda>b. if b then rall f xs else Inr False)"

definition guard_err :: "bool \<Rightarrow> 'e \<Rightarrow> 'e + unit" where
  "guard_err b e = (if b then Inl e else Inr ())"

definition of_opt :: "'e \<Rightarrow> 'a option \<Rightarrow> 'e + 'a" where
  "of_opt e x = (case x of None \<Rightarrow> Inl e | Some v \<Rightarrow> Inr v)"

lemma rbind_Inr_iff [result_simps]: "rbind r f = Inr y \<longleftrightarrow> (\<exists>x. r = Inr x \<and> f x = Inr y)"
  by (cases r) auto

lemma rbind_Inl_iff [result_simps]:
  "rbind r f = Inl e \<longleftrightarrow> r = Inl e \<or> (\<exists>x. r = Inr x \<and> f x = Inl e)"
  by (cases r) auto

lemma rbind_assoc: "rbind (rbind r f) g = rbind r (\<lambda>x. rbind (f x) g)"
  by (cases r) auto

lemma of_opt_Inr [result_simps]: "of_opt e x = Inr v \<longleftrightarrow> x = Some v"
  by (cases x) (auto simp: of_opt_def)

lemma of_opt_Inl [result_simps]: "of_opt e x = Inl e' \<longleftrightarrow> x = None \<and> e' = e"
  by (cases x) (auto simp: of_opt_def)

lemma guard_err_Inr [result_simps]: "guard_err b e = Inr u \<longleftrightarrow> \<not> b"
  by (simp add: guard_err_def)

lemma guard_err_Inl [result_simps]: "guard_err b e = Inl e' \<longleftrightarrow> b \<and> e' = e"
  by (auto simp: guard_err_def)

lemma rmap_Inr_list_all2: "rmap f xs = Inr ys \<longleftrightarrow> list_all2 (\<lambda>x y. f x = Inr y) xs ys"
proof (induction xs arbitrary: ys)
  case Nil
  then show ?case by auto
next
  case (Cons x xs)
  then show ?case by (cases ys) (auto simp: result_simps)
qed

lemma rmap_Inr_set:
  "rmap f xs = Inr ys \<Longrightarrow> y \<in> set ys \<Longrightarrow> \<exists>x \<in> set xs. f x = Inr y"
  by (induction xs arbitrary: ys) (auto simp: result_simps)

lemma rmap_Inr_elem:
  "rmap f xs = Inr ys \<Longrightarrow> x \<in> set xs \<Longrightarrow> \<exists>y \<in> set ys. f x = Inr y"
  by (induction xs arbitrary: ys) (auto simp: result_simps)

lemma rall_True_iff [result_simps]: "rall f xs = Inr True \<longleftrightarrow> (\<forall>x \<in> set xs. f x = Inr True)"
  by (induction xs) (auto simp: result_simps)

lemma rmap_all_Inr: "(\<And>x. x \<in> set xs \<Longrightarrow> f x = Inr (g x)) \<Longrightarrow> rmap f xs = Inr (map g xs)"
  by (induction xs) auto

lemma rfold_invariant:
  assumes "rfold f s xs = Inr s'" "P s" "\<And>s x s'. x \<in> set xs \<Longrightarrow> P s \<Longrightarrow> f s x = Inr s' \<Longrightarrow> P s'"
  shows "P s'"
  using assms
proof (induction xs arbitrary: s)
  case (Cons x xs)
  then obtain t where t: "f s x = Inr t" "rfold f t xs = Inr s'"
    by (auto simp: result_simps)
  show ?case
    by (rule Cons.IH [OF t(2)]) (use Cons.prems t(1) in \<open>auto intro: Cons.prems(3)\<close>)
qed simp

lemma rfold_establishes:
  assumes "rfold f s xs = Inr s'" "P s"
    and step: "\<And>s x t. x \<in> set xs \<Longrightarrow> P s \<Longrightarrow> f s x = Inr t \<Longrightarrow> P t \<and> Q x t \<and> (\<forall>y. Q y s \<longrightarrow> Q y t)"
  shows "P s' \<and> (\<forall>y. Q y s \<longrightarrow> Q y s') \<and> (\<forall>x \<in> set xs. Q x s')"
  using assms
proof (induction xs arbitrary: s)
  case (Cons x xs)
  then obtain t where t: "f s x = Inr t" "rfold f t xs = Inr s'"
    by (auto simp: result_simps)
  from Cons.prems(3) [OF _ Cons.prems(2) t(1)] have x: "P t" "Q x t" "\<And>y. Q y s \<Longrightarrow> Q y t" by auto
  have "P s' \<and> (\<forall>y. Q y t \<longrightarrow> Q y s') \<and> (\<forall>x \<in> set xs. Q x s')"
    by (rule Cons.IH [OF t(2) x(1)]) (use Cons.prems(3) in auto)
  with x show ?case by auto
qed simp

lemma rfold_cong [fundef_cong]:
  "xs = ys \<Longrightarrow> s = t \<Longrightarrow> (\<And>a x. x \<in> set ys \<Longrightarrow> f a x = g a x) \<Longrightarrow> rfold f s xs = rfold g t ys"
proof (induction xs arbitrary: ys s t)
  case (Cons x xs)
  then show ?case by (cases "g t x") auto
qed simp

lemma rmap_cong [fundef_cong]:
  "xs = ys \<Longrightarrow> (\<And>x. x \<in> set ys \<Longrightarrow> f x = g x) \<Longrightarrow> rmap f xs = rmap g ys"
  by (induction xs arbitrary: ys) auto

lemma rbind_cong [fundef_cong]:
  "r = q \<Longrightarrow> (\<And>x. q = Inr x \<Longrightarrow> f x = g x) \<Longrightarrow> rbind r f = rbind q g"
  by (cases q) auto

lemma rfold_append: "rfold f s (xs @ ys) = rbind (rfold f s xs) (\<lambda>s'. rfold f s' ys)"
proof (induction xs arbitrary: s)
  case (Cons x xs)
  then show ?case by (cases "f s x") auto
qed simp

lemma rmap_snoc: "rmap f (xs @ [x]) = rbind (rmap f xs) (\<lambda>ys. rbind (f x) (\<lambda>y. Inr (ys @ [y])))"
proof (induction xs)
  case (Cons a xs)
  then show ?case
    by (cases "f a"; cases "rmap f xs"; cases "f x") auto
qed (cases "f x"; simp)

lemma rall_snoc_True: "f x = Inr True \<Longrightarrow> rall f (xs @ [x]) = rall f xs"
proof (induction xs)
  case (Cons a xs)
  then show ?case by (cases "f a") auto
qed simp

definition add_if_absent :: "'a list \<Rightarrow> 'a \<Rightarrow> 'a list" where
  "add_if_absent xs x = (if x \<in> set xs then xs else xs @ [x])"

definition add_all :: "'a list \<Rightarrow> 'a list \<Rightarrow> 'a list" where
  \<comment> \<open>a set, kept as a list in order of first insertion, updated with a sequence\<close>
  "add_all xs ys = foldl add_if_absent xs ys"

lemma set_add_all [simp]: "set (add_all xs ys) = set xs \<union> set ys"
  unfolding add_all_def by (induction ys arbitrary: xs) (auto simp: add_if_absent_def)

lemma distinct_add_all: "distinct xs \<Longrightarrow> distinct (add_all xs ys)"
  unfolding add_all_def by (induction ys arbitrary: xs) (auto simp: add_if_absent_def)

definition get_or :: "('k, 'v) dict \<Rightarrow> 'k \<Rightarrow> 'v \<Rightarrow> 'v" where
  "get_or d k v = (case dict_get d k of None \<Rightarrow> v | Some x \<Rightarrow> x)"

lemma get_or_dict_set [dict_simps]:
  "get_or (dict_set d k v) k' x = (if k' = k then v else get_or d k' x)"
  by (simp add: get_or_def dict_simps)

section \<open>Strings\<close>

definition py_space :: "char \<Rightarrow> bool" where
  "py_space c \<longleftrightarrow> of_char c \<in> {9, 10, 11, 12, 13, 28, 29, 30, 31, 32 :: nat}"

definition py_strip :: "string \<Rightarrow> string" where
  "py_strip s = rev (dropWhile py_space (rev (dropWhile py_space s)))"

fun py_split :: "char \<Rightarrow> string \<Rightarrow> string list" where
  "py_split c [] = [[]]"
| "py_split c (x # xs) =
     (if x = c then [] # py_split c xs
      else (case py_split c xs of [] \<Rightarrow> [[x]] | y # ys \<Rightarrow> (x # y) # ys))"

fun join :: "string \<Rightarrow> string list \<Rightarrow> string" where
  "join sep [] = []"
| "join sep [s] = s"
| "join sep (s # ss) = s @ sep @ join sep ss"

lemma py_split_not_Nil [simp]: "py_split c s \<noteq> []"
  by (cases s) (auto split: list.splits)

definition truthy_str :: "string option \<Rightarrow> string option" where
  \<comment> \<open>an optional string that is also tested for emptiness\<close>
  "truthy_str s = (case s of None \<Rightarrow> None | Some x \<Rightarrow> if x = [] then None else Some x)"

lemma truthy_str_Some: "truthy_str s = Some v \<Longrightarrow> s = Some v"
  by (auto simp: truthy_str_def split: option.splits if_splits)

section \<open>Grouping\<close>

definition group_by :: "('a \<Rightarrow> 'k) \<Rightarrow> 'a list \<Rightarrow> ('k, 'a list) dict" where
  "group_by key xs =
     foldl (\<lambda>groups x. dict_set groups (key x)
              ((case dict_get groups (key x) of None \<Rightarrow> [] | Some g \<Rightarrow> g) @ [x])) [] xs"

section \<open>Arithmetic of the built-ins\<close>

fun show_digits :: "nat \<Rightarrow> string" where
  "show_digits n =
     (if n < 10 then [char_of (48 + n)] else show_digits (n div 10) @ [char_of (48 + n mod 10)])"

declare show_digits.simps [simp del]

definition py_str_int :: "int \<Rightarrow> string" where
  "py_str_int i = (if i < 0 then CHR ''-'' # show_digits (nat (- i)) else show_digits (nat i))"

definition round_half_even :: "int \<Rightarrow> int \<Rightarrow> int" where
  \<comment> \<open>\<open>round(n / d)\<close> for a positive \<open>d\<close>: to the nearest integer, ties to the even one\<close>
  "round_half_even n d =
     (let q = n div d; r = n mod d
      in if 2 * r < d then q else if d < 2 * r then q + 1
         else if even q then q else q + 1)"

lemma round_half_even_bounds:
  assumes "0 < d"
  shows "2 * n - d \<le> 2 * d * round_half_even n d \<and> 2 * d * round_half_even n d \<le> 2 * n + d"
proof -
  define q where "q = n div d"
  define r where "r = n mod d"
  have n: "n = d * q + r" unfolding q_def r_def by simp
  have r: "0 \<le> r" "r < d" using assms by (auto simp: r_def)
  have *: "2 * d * q = 2 * n - 2 * r" "2 * d * (q + 1) = 2 * n - 2 * r + 2 * d"
    using n by (simp_all add: algebra_simps)
  show ?thesis
    unfolding round_half_even_def Let_def q_def [symmetric] r_def [symmetric]
    using r * by (auto simp: algebra_simps split: if_splits)
qed

section \<open>Splitting what was joined\<close>

lemma py_split_plain: "c \<notin> set s \<Longrightarrow> py_split c s = [s]"
  by (induction s) auto

lemma py_split_append: "c \<notin> set s \<Longrightarrow> py_split c (s @ c # t) = s # py_split c t"
  by (induction s) auto

lemma py_split_join:
  "xs \<noteq> [] \<Longrightarrow> (\<And>x. x \<in> set xs \<Longrightarrow> c \<notin> set x) \<Longrightarrow> py_split c (join [c] xs) = xs"
  by (induction "[c]" xs rule: join.induct) (auto simp: py_split_plain py_split_append)

end
