(* ===== verification/Differ.thy ===== *)
theory Differ
  imports Py_Prelude
begin

text \<open>
  \<open>qontract_utils/qontract_utils/differ.py\<close>: the comparison of a current with a desired
  state that the reconcilers are built on. \<open>diff_mappings\<close> is the comparison by key,
  \<open>diff_any_iterables\<close> and \<open>diff_iterables\<close> index two lists first. The locale
  \<open>state_differ\<close> is the contract the reconcilers rely on; its lemmas say that acting on
  the difference turns the current state into the desired one.
\<close>

section \<open>The data\<close>

record ('c, 'd) diff_pair =
  dp_current :: 'c
  dp_desired :: 'd

record ('k, 'c, 'd) diff_result =
  dr_add :: "('k, 'd) dict"
  dr_delete :: "('k, 'c) dict"
  dr_change :: "('k, ('c, 'd) diff_pair) dict"
  dr_identical :: "('k, ('c, 'd) diff_pair) dict"

section \<open>The operations\<close>

definition common_pairs ::
  "('k, 'c) dict \<Rightarrow> ('k, 'd) dict \<Rightarrow> ('k, ('c, 'd) diff_pair) dict" where
  "common_pairs current desired =
     [(k, \<lparr>dp_current = c, dp_desired = the (dict_get desired k)\<rparr>).
        (k, c) \<leftarrow> current, dict_has desired k]"

definition diff_mappings ::
  "('k, 'c) dict \<Rightarrow> ('k, 'd) dict \<Rightarrow> ('c \<Rightarrow> 'd \<Rightarrow> bool) \<Rightarrow> ('k, 'c, 'd) diff_result" where
  "diff_mappings current desired equal =
     \<lparr>dr_add = filter (\<lambda>(k, _). \<not> dict_has current k) desired,
      dr_delete = filter (\<lambda>(k, _). \<not> dict_has desired k) current,
      dr_change =
        filter (\<lambda>(_, p). \<not> equal (dp_current p) (dp_desired p)) (common_pairs current desired),
      dr_identical =
        filter (\<lambda>(_, p). equal (dp_current p) (dp_desired p)) (common_pairs current desired)\<rparr>"

definition diff_any_iterables ::
  "'c list \<Rightarrow> 'd list \<Rightarrow> ('c \<Rightarrow> 'k) \<Rightarrow> ('d \<Rightarrow> 'k) \<Rightarrow> ('c \<Rightarrow> 'd \<Rightarrow> bool) \<Rightarrow>
   ('k, 'c, 'd) diff_result" where
  "diff_any_iterables current desired current_key desired_key equal =
     diff_mappings (dict_of (map (\<lambda>c. (current_key c, c)) current))
       (dict_of (map (\<lambda>d. (desired_key d, d)) desired)) equal"

definition diff_iterables ::
  "'a list \<Rightarrow> 'a list \<Rightarrow> ('a \<Rightarrow> 'k) \<Rightarrow> ('a \<Rightarrow> 'a \<Rightarrow> bool) \<Rightarrow> ('k, 'a, 'a) diff_result" where
  "diff_iterables current desired key equal = diff_any_iterables current desired key key equal"

section \<open>The contract\<close>

text \<open>
  A differ, seen through lookups. \<open>apply_diff\<close> is what a reconciler does with the result:
  delete, then create and overwrite.
\<close>

definition patch ::
  "('k, 'c, 'd) diff_result \<Rightarrow> ('c \<Rightarrow> 'd) \<Rightarrow> ('k \<Rightarrow> 'c option) \<Rightarrow> 'k \<Rightarrow> 'd option" where
  "patch r keep cur k =
     (case map_of (dr_add r) k of Some d \<Rightarrow> Some d
      | None \<Rightarrow> (case map_of (dr_change r) k of Some p \<Rightarrow> Some (dp_desired p)
      | None \<Rightarrow> if map_of (dr_delete r) k \<noteq> None then None else map_option keep (cur k)))"

locale state_differ =
  fixes differ :: "('k, 'c) dict \<Rightarrow> ('k, 'd) dict \<Rightarrow> ('c \<Rightarrow> 'd \<Rightarrow> bool) \<Rightarrow> ('k, 'c, 'd) diff_result"
  assumes add: "map_of (dr_add (differ c d eq)) k = (if map_of c k = None then map_of d k else None)"
    and delete: "map_of (dr_delete (differ c d eq)) k = (if map_of d k = None then map_of c k else None)"
    and change: "wf_dict c \<Longrightarrow> map_of (dr_change (differ c d eq)) k = Some p \<longleftrightarrow>
        map_of c k = Some (dp_current p) \<and> map_of d k = Some (dp_desired p) \<and>
        \<not> eq (dp_current p) (dp_desired p)"
    and identical: "wf_dict c \<Longrightarrow> map_of (dr_identical (differ c d eq)) k = Some p \<longleftrightarrow>
        map_of c k = Some (dp_current p) \<and> map_of d k = Some (dp_desired p) \<and>
        eq (dp_current p) (dp_desired p)"
begin

lemma change_None:
  assumes wf: "wf_dict c"
  shows "map_of (dr_change (differ c d eq)) k = None \<longleftrightarrow>
     (\<forall>x y. map_of c k = Some x \<longrightarrow> map_of d k = Some y \<longrightarrow> eq x y)"
proof
  assume n: "map_of (dr_change (differ c d eq)) k = None"
  show "\<forall>x y. map_of c k = Some x \<longrightarrow> map_of d k = Some y \<longrightarrow> eq x y"
  proof (intro allI impI, rule ccontr)
    fix x y
    assume "map_of c k = Some x" "map_of d k = Some y" "\<not> eq x y"
    then have "map_of (dr_change (differ c d eq)) k = Some \<lparr>dp_current = x, dp_desired = y\<rparr>"
      by (simp add: change wf)
    with n show False by simp
  qed
next
  assume "\<forall>x y. map_of c k = Some x \<longrightarrow> map_of d k = Some y \<longrightarrow> eq x y"
  then show "map_of (dr_change (differ c d eq)) k = None"
    by (cases "map_of (dr_change (differ c d eq)) k") (auto simp: change wf)
qed

lemma patch_desired:
  assumes wf: "wf_dict c"
    and keep: "\<And>k x y. map_of c k = Some x \<Longrightarrow> map_of d k = Some y \<Longrightarrow> eq x y \<Longrightarrow> keep x = y"
  shows "patch (differ c d eq) keep (map_of c) = map_of d"
proof
  fix k
  show "patch (differ c d eq) keep (map_of c) k = map_of d k"
  proof (cases "map_of (dr_change (differ c d eq)) k")
    case None
    then have "\<forall>x y. map_of c k = Some x \<longrightarrow> map_of d k = Some y \<longrightarrow> eq x y"
      by (simp add: change_None [OF wf])
    with None keep [of k] show ?thesis
      by (cases "map_of c k"; cases "map_of d k") (auto simp: patch_def add delete)
  next
    case (Some p)
    then have "map_of c k = Some (dp_current p)" "map_of d k = Some (dp_desired p)"
      by (simp_all add: change [OF wf])
    with Some show ?thesis
      by (simp add: patch_def add delete)
  qed
qed

lemma no_diff_iff:
  assumes wf: "wf_dict c"
  shows "dr_add (differ c d eq) = [] \<and> dr_delete (differ c d eq) = [] \<and> dr_change (differ c d eq) = [] \<longleftrightarrow>
     rel_fun (=) (rel_option eq) (map_of c) (map_of d)"
proof -
  have nil: "xs = [] \<longleftrightarrow> (\<forall>k. map_of xs k = None)" for xs :: "('a \<times> 'z) list"
    by (cases xs) (auto dest: spec [of _ "fst (hd xs)"] simp: fun_eq_iff split: if_splits)
  have "(\<forall>k. map_of (dr_add (differ c d eq)) k = None \<and> map_of (dr_delete (differ c d eq)) k = None \<and>
          map_of (dr_change (differ c d eq)) k = None) \<longleftrightarrow> (\<forall>k. rel_option eq (map_of c k) (map_of d k))"
  proof (rule iff_allI)
    fix k
    show "(map_of (dr_add (differ c d eq)) k = None \<and> map_of (dr_delete (differ c d eq)) k = None \<and>
        map_of (dr_change (differ c d eq)) k = None) \<longleftrightarrow> rel_option eq (map_of c k) (map_of d k)"
      by (cases "map_of c k"; cases "map_of d k") (auto simp: add delete change_None [OF wf])
  qed
  then show ?thesis unfolding nil rel_fun_def by blast
qed

end

section \<open>\<open>diff_mappings\<close> provides the contract\<close>

lemma map_of_common_pairs:
  "map_of (common_pairs current desired) k =
     (case map_of current k of None \<Rightarrow> None
      | Some c \<Rightarrow> map_option (\<lambda>d. \<lparr>dp_current = c, dp_desired = d\<rparr>) (map_of desired k))"
  by (induction current) (auto simp: common_pairs_def dict_has_def split: option.splits)

lemma wf_common_pairs: "wf_dict current \<Longrightarrow> wf_dict (common_pairs current desired)"
proof -
  have "map fst (common_pairs current desired) = filter (dict_has desired) (map fst current)"
    by (induction current) (auto simp: common_pairs_def)
  then show "wf_dict current \<Longrightarrow> ?thesis" by simp
qed

lemma map_of_filter_wf:
  "wf_dict d \<Longrightarrow> map_of (filter P d) k = Some v \<longleftrightarrow> map_of d k = Some v \<and> P (k, v)"
  by (auto simp: distinct_map_filter)

interpretation dm: state_differ diff_mappings
proof (unfold_locales, goal_cases)
  case (1 c d eq k)
  then show ?case
    using map_of_filter_keys [of "\<lambda>k. \<not> dict_has c k" d k]
    by (simp add: diff_mappings_def dict_has_def)
next
  case (2 c d eq k)
  then show ?case
    using map_of_filter_keys [of "\<lambda>k. \<not> dict_has d k" c k]
    by (simp add: diff_mappings_def dict_has_def)
next
  case (3 c d eq k p)
  then show ?case
    by (cases p) (auto simp: diff_mappings_def map_of_filter_wf [OF wf_common_pairs]
        map_of_common_pairs simp del: map_of_eq_Some_iff Some_eq_map_of_iff split: option.splits)
next
  case (4 c d eq k p)
  then show ?case
    by (cases p) (auto simp: diff_mappings_def map_of_filter_wf [OF wf_common_pairs]
        map_of_common_pairs simp del: map_of_eq_Some_iff Some_eq_map_of_iff split: option.splits)
qed

lemma wf_diff_mappings:
  assumes "wf_dict c" "wf_dict d"
  shows "wf_dict (dr_add (diff_mappings c d eq))" "wf_dict (dr_delete (diff_mappings c d eq))"
    "wf_dict (dr_change (diff_mappings c d eq))" "wf_dict (dr_identical (diff_mappings c d eq))"
  using assms by (auto simp: diff_mappings_def distinct_map_filter wf_common_pairs)

section \<open>The wrappers over lists\<close>

abbreviation index_by :: "('a \<Rightarrow> 'k) \<Rightarrow> 'a list \<Rightarrow> ('k, 'a) dict" where
  "index_by key xs \<equiv> dict_of (map (\<lambda>x. (key x, x)) xs)"

lemma diff_iterables_eq:
  "diff_iterables current desired key equal =
     diff_mappings (index_by key current) (index_by key desired) equal"
  by (simp add: diff_iterables_def diff_any_iterables_def)

lemma map_of_index_by_self [simp]:
  "map_of (index_by (\<lambda>x. x) xs) k = (if k \<in> set xs then Some k else None)"
proof (cases "k \<in> set xs")
  case True
  then obtain v where v: "map_of (index_by (\<lambda>x. x) xs) k = Some v"
    by (cases "map_of (index_by (\<lambda>x. x) xs) k") (auto simp: map_of_eq_None_iff dict_simps image_image)
  with dict_of_keyed_mem [OF v] True show ?thesis by simp
next
  case False
  then show ?thesis by (simp add: map_of_eq_None_iff dict_simps image_image)
qed

lemma index_by_None_iff: "map_of (index_by key xs) k = None \<longleftrightarrow> k \<notin> key ` set xs"
  by (simp add: map_of_eq_None_iff dict_simps image_image)

lemma index_by_keyed: "map_of (index_by key xs) k = Some x \<Longrightarrow> x \<in> set xs \<and> key x = k"
  by (rule dict_of_keyed_mem)

section \<open>Properties\<close>

text \<open>The comparison is a partition: a key is added, deleted, changed or identical exactly when it
  is only desired, only current, or in both with different or equal values, and the values reported are
  the ones of the two states.\<close>

theorem diff_mappings_partition:
  assumes "wf_dict current"
  shows "map_of (dr_add (diff_mappings current desired eq)) k =
      (if map_of current k = None then map_of desired k else None) \<and>
    map_of (dr_delete (diff_mappings current desired eq)) k =
      (if map_of desired k = None then map_of current k else None) \<and>
    (map_of (dr_change (diff_mappings current desired eq)) k = Some p \<longleftrightarrow>
      map_of current k = Some (dp_current p) \<and> map_of desired k = Some (dp_desired p) \<and>
      \<not> eq (dp_current p) (dp_desired p)) \<and>
    (map_of (dr_identical (diff_mappings current desired eq)) k = Some p \<longleftrightarrow>
      map_of current k = Some (dp_current p) \<and> map_of desired k = Some (dp_desired p) \<and>
      eq (dp_current p) (dp_desired p))"
  using assms by (intro conjI dm.add dm.delete dm.change dm.identical)

lemma diff_mappings_partition_witness:
  "map_of (dr_add (diff_mappings [(''i'', 1), (''c'', 2), (''d'', 3 :: int)]
      [(''i'', 1), (''c'', 20), (''a'', 30 :: int)] (=))) ''a'' = Some 30 \<and>
   map_of (dr_change (diff_mappings [(''i'', 1), (''c'', 2), (''d'', 3 :: int)]
      [(''i'', 1), (''c'', 20), (''a'', 30 :: int)] (=))) ''c'' = Some \<lparr>dp_current = 2, dp_desired = 20\<rparr>"
  using diff_mappings_partition [of "[(''i'', 1), (''c'', 2), (''d'', 3 :: int)]"
      "[(''i'', 1), (''c'', 20), (''a'', 30 :: int)]" "(=)" "''a''" undefined]
    diff_mappings_partition [of "[(''i'', 1), (''c'', 2), (''d'', 3 :: int)]"
      "[(''i'', 1), (''c'', 20), (''a'', 30 :: int)]" "(=)" "''c''" "\<lparr>dp_current = 2, dp_desired = 20\<rparr>"]
  by simp

text \<open>C37. Acting on the comparison converges: deleting what is to be deleted and storing what is to be
  added or changed turns the current state, listed in any order and indexed by a key, into the desired
  one; and there is nothing to do exactly when the two already agree.\<close>

theorem diff_iterables_converges:
  fixes key :: "'a \<Rightarrow> 'k"
  shows "patch (diff_iterables current desired key (=)) id (map_of (index_by key current)) =
      map_of (index_by key desired) \<and>
    (dr_add (diff_iterables current desired key (=)) = [] \<and>
      dr_delete (diff_iterables current desired key (=)) = [] \<and>
      dr_change (diff_iterables current desired key (=)) = [] \<longleftrightarrow>
      map_of (index_by key current) = map_of (index_by key desired))"
proof -
  have "rel_fun (=) (rel_option (=)) f g \<longleftrightarrow> f = g" for f g :: "'k \<Rightarrow> 'a option"
    by (simp add: option.rel_eq rel_fun_eq)
  then show ?thesis
    unfolding diff_iterables_eq by (simp add: dm.patch_desired dm.no_diff_iff)
qed

end
