(* ===== verification/Json_Path.thy ===== *)
theory Json_Path
  imports Py_Prelude "HOL-Library.List_Lexorder" "HOL-Library.Char_ord"
begin

text \<open>
  \<open>reconcile/utils/jsonpath.py\<close>: the structural helpers on parsed JSONPath expressions, and
  the JSON values they are about. The nodes are those of the \<open>jsonpath_ng\<close> syntax tree the
  helpers distinguish. The evaluation of a path on a document belongs to \<open>jsonpath_ng\<close> and is
  a parameter, the record \<open>jsonpath_lib\<close>.
\<close>

section \<open>JSON values and path expressions\<close>

datatype json =
  JNull | JBool bool | JInt int | JStr string | JList "json list" | JDict "(string \<times> json) list"

fun truthy :: "json \<Rightarrow> bool" where
  "truthy JNull = False"
| "truthy (JBool b) = b"
| "truthy (JInt i) = (i \<noteq> 0)"
| "truthy (JStr s) = (s \<noteq> [])"
| "truthy (JList xs) = (xs \<noteq> [])"
| "truthy (JDict kvs) = (kvs \<noteq> [])"

datatype jsonpath =
  Root | This
| Fields "string list"
| Index "int list"
| Slice "int option" "int option" "int option"
| Filter string
| Child (child_left: jsonpath) (child_right: jsonpath)

fun node_is_filter :: "jsonpath \<Rightarrow> bool" where
  "node_is_filter (Filter _) = True"
| "node_is_filter _ = False"

fun node_is_slice :: "jsonpath \<Rightarrow> bool" where
  "node_is_slice (Slice _ _ _) = True"
| "node_is_slice _ = False"

record jsonpath_lib =
  jl_parse :: "string \<Rightarrow> jsonpath option"
  jl_str :: "jsonpath \<Rightarrow> string"
  jl_find :: "jsonpath \<Rightarrow> json \<Rightarrow> json list"
  jl_full_paths :: "jsonpath \<Rightarrow> json \<Rightarrow> jsonpath list"
  jl_remove :: "jsonpath \<Rightarrow> json \<Rightarrow> json"
  jl_child :: "jsonpath \<Rightarrow> jsonpath \<Rightarrow> jsonpath"

section \<open>The structural helpers\<close>

fun jsonpath_parts_acc :: "bool \<Rightarrow> bool \<Rightarrow> jsonpath \<Rightarrow> jsonpath list \<Rightarrow> jsonpath list" where
  "jsonpath_parts_acc ignore_filter ignore_root (Child l r) parts =
     jsonpath_parts_acc ignore_filter ignore_root l
       (if node_is_filter r \<and> ignore_filter then parts else r # parts)"
| "jsonpath_parts_acc ignore_filter ignore_root path parts =
     (if path = Root \<and> ignore_root then parts else path # parts)"

definition jsonpath_parts :: "bool \<Rightarrow> bool \<Rightarrow> jsonpath \<Rightarrow> jsonpath list" where
  "jsonpath_parts ignore_filter ignore_root path =
     jsonpath_parts_acc ignore_filter ignore_root path []"

fun narrow_jsonpath_node :: "jsonpath \<Rightarrow> jsonpath \<Rightarrow> jsonpath option" where
  "narrow_jsonpath_node p1 p2 =
     (if p1 = p2 then Some p1
      else case (p1, p2) of
        (Fields f1, Fields f2) \<Rightarrow>
          if f1 = [''*''] then Some p2 else if f2 = [''*''] then Some p1 else None
      | (Index _, Slice _ _ _) \<Rightarrow> Some p1
      | (Index _, Filter _) \<Rightarrow> Some p1
      | (Slice _ _ _, Index _) \<Rightarrow> Some p2
      | (Filter _, Index _) \<Rightarrow> Some p2
      | (Filter _, Slice _ _ _) \<Rightarrow> Some p1
      | (Slice _ _ _, Filter _) \<Rightarrow> Some p2
      | _ \<Rightarrow> None)"

fun reduce_child :: "jsonpath_lib \<Rightarrow> jsonpath list \<Rightarrow> jsonpath option" where
  "reduce_child lib [] = None"
| "reduce_child lib (p # ps) = Some (foldl (jl_child lib) p ps)"

definition remove_prefix_from_path ::
  "jsonpath_lib \<Rightarrow> jsonpath \<Rightarrow> jsonpath \<Rightarrow> jsonpath option" where
  "remove_prefix_from_path lib path pre =
     (let path_parts = jsonpath_parts False True path;
          prefix_parts = jsonpath_parts False True pre
      in if length path_parts < length prefix_parts then None
         else if take (length prefix_parts) path_parts \<noteq> prefix_parts then None
         else reduce_child lib (drop (length prefix_parts) path_parts))"

definition is_prefix_of :: "jsonpath \<Rightarrow> jsonpath \<Rightarrow> bool" where
  "is_prefix_of pre path =
     (let prefix_parts = jsonpath_parts False True pre;
          path_parts = jsonpath_parts False True path
      in if length path_parts < length prefix_parts then False
         else take (length prefix_parts) path_parts = prefix_parts)"

fun apply_constraint_loop ::
  "jsonpath_lib \<Rightarrow> jsonpath list \<Rightarrow> jsonpath list \<Rightarrow> jsonpath \<Rightarrow> bool \<Rightarrow> nat \<Rightarrow> jsonpath \<times> nat" where
  "apply_constraint_loop lib [] [] acc common n = (acc, n)"
| "apply_constraint_loop lib (c # cs) [] acc common n = (acc, n)"
| "apply_constraint_loop lib [] (p # ps) acc common n =
     apply_constraint_loop lib [] ps (jl_child lib acc p) False n"
| "apply_constraint_loop lib (c # cs) (p # ps) acc common n =
     (case (if common then narrow_jsonpath_node c p else None) of
        Some m \<Rightarrow> apply_constraint_loop lib cs ps (jl_child lib acc m) True (Suc n)
      | None \<Rightarrow> apply_constraint_loop lib cs ps (jl_child lib acc p) False n)"

definition apply_constraint_to_path ::
  "jsonpath_lib \<Rightarrow> jsonpath \<Rightarrow> jsonpath \<Rightarrow> nat \<Rightarrow> jsonpath option" where
  \<comment> \<open>\<open>zip_longest\<close> pads with \<open>None\<close>, which narrows with no node; past the end of the path the
     loop breaks\<close>
  "apply_constraint_to_path lib path path_constraint min_common_prefix_length =
     (case apply_constraint_loop lib (jsonpath_parts False False path_constraint)
             (jsonpath_parts False False path) Root True 0 of
        (prefix_path, common_prefix_length) \<Rightarrow>
          if common_prefix_length < min_common_prefix_length then None else Some prefix_path)"

definition zfill :: "string \<Rightarrow> nat \<Rightarrow> string" where
  "zfill s w =
     (case s of
        c # cs \<Rightarrow> if c = CHR ''-'' \<or> c = CHR ''+'' then c # replicate (w - length s) CHR ''0'' @ cs
                 else replicate (w - length s) CHR ''0'' @ s
      | [] \<Rightarrow> replicate w CHR ''0'')"

fun sortable_part :: "nat \<Rightarrow> jsonpath \<Rightarrow> string list" where
  "sortable_part pad (Fields (f # _)) = [f]"
| "sortable_part pad (Index (i # _)) = [''['' @ zfill (py_str_int i) pad @ '']'']"
| "sortable_part pad (Slice _ _ _) = [''*'']"
| "sortable_part pad _ = []"

definition sortable_jsonpath_string_repr :: "jsonpath \<Rightarrow> nat \<Rightarrow> string" where
  "sortable_jsonpath_string_repr path index_padding =
     join ''.'' (concat (map (sortable_part index_padding) (jsonpath_parts True False path)))"

section \<open>Prefixes are an order on paths\<close>

lemma is_prefix_of_iff:
  "is_prefix_of pre path \<longleftrightarrow> prefix (jsonpath_parts False True pre) (jsonpath_parts False True path)"
  by (auto simp: is_prefix_of_def Let_def prefix_def take_is_prefix dest: prefix_length_le)
     (metis append_take_drop_id)+

lemma is_prefix_of_refl [simp]: "is_prefix_of p p"
  by (simp add: is_prefix_of_iff)

lemma is_prefix_of_trans: "is_prefix_of a b \<Longrightarrow> is_prefix_of b c \<Longrightarrow> is_prefix_of a c"
  by (auto simp: is_prefix_of_iff intro: prefix_order.trans)

lemma is_prefix_of_Root [simp]: "is_prefix_of Root p"
  by (simp add: is_prefix_of_iff jsonpath_parts_def)

lemma remove_prefix_None_iff:
  "remove_prefix_from_path lib path pre = None \<longleftrightarrow>
     \<not> is_prefix_of pre path \<or> jsonpath_parts False True pre = jsonpath_parts False True path"
proof -
  have reduce: "reduce_child lib xs = None \<longleftrightarrow> xs = []" for xs
    by (cases xs) auto
  show ?thesis
    by (auto simp: remove_prefix_from_path_def is_prefix_of_def Let_def reduce)
qed

lemma jsonpath_parts_acc_append:
  "jsonpath_parts_acc f r p (xs @ ys) = jsonpath_parts_acc f r p xs @ ys"
proof (induction p arbitrary: xs)
  case (Child l r')
  from Child.IH(1) [of xs] Child.IH(1) [of "r' # xs"] show ?case by (cases f) auto
qed auto

lemma jsonpath_parts_Child:
  "jsonpath_parts f r (Child p q) =
     jsonpath_parts f r p @ (if node_is_filter q \<and> f then [] else [q])"
  using jsonpath_parts_acc_append [of f r p "[]" "[q]"] by (simp add: jsonpath_parts_def)

end
