(* ===== verification/Change_Coverage.thy ===== *)
theory Change_Coverage
  imports Json_Path
begin

text \<open>
  \<open>reconcile/change_owners\<close>, the data model and the coverage tree: \<open>bundle.py\<close> (file
  references), \<open>approver.py\<close>, the parts of \<open>diff.py\<close> that do not call \<open>deepdiff\<close>, and
  \<open>change_types.py\<close> up to the change type processor (\<open>DiffCoverage\<close>, \<open>PathExpression\<close>,
  \<open>ChangeTypeProcessor\<close> as far as coverage reads it, \<open>ChangeTypeContext\<close>). A
  \<open>DiffCoverage\<close> object owns its splits, so the mutable tree with its parent links is a value
  of a nested datatype whose parent is the enclosing node.
\<close>

section \<open>Files, approvers, change types\<close>

datatype bundle_file_type = DATAFILE | RESOURCEFILE

record file_ref =
  fr_file_type :: bundle_file_type
  fr_path :: string
  fr_schema :: "string option"
  fr_json_path :: "string option"

record approver =
  org_username :: string
  tag_on_merge_requests :: "bool option"

datatype approver_reachability =
  SlackGroup (slack_group: string) (slack_workspace: string) (slack_channel: string)
| GitlabGroup (gitlab_group: string)

fun render_for_mr_report :: "approver_reachability \<Rightarrow> string" where
  "render_for_mr_report (SlackGroup g w c) =
     ''Slack group @'' @ g @ '' in channel #'' @ c @ '' (workspace '' @ w @ '')''"
| "render_for_mr_report (GitlabGroup g) = ''GitLab group '' @ g"

datatype change_type_priority = CRITICAL | URGENT | HIGH | PROGRESSIVE_DELIVERY | MEDIUM | LOW

text \<open>The declaration order of the enumeration is the order of decreasing priority.\<close>

definition change_type_priorities :: "change_type_priority list" where
  "change_type_priorities = [CRITICAL, URGENT, HIGH, PROGRESSIVE_DELIVERY, MEDIUM, LOW]"

fun priority_rank :: "change_type_priority \<Rightarrow> nat" where
  "priority_rank CRITICAL = 5"
| "priority_rank URGENT = 4"
| "priority_rank HIGH = 3"
| "priority_rank PROGRESSIVE_DELIVERY = 2"
| "priority_rank MEDIUM = 1"
| "priority_rank LOW = 0"

lemma priority_rank_inj: "priority_rank a = priority_rank b \<Longrightarrow> a = b"
  by (cases a; cases b) auto

instantiation change_type_priority :: linorder
begin

definition less_eq_change_type_priority :: "change_type_priority \<Rightarrow> change_type_priority \<Rightarrow> bool" where
  "less_eq_change_type_priority a b \<longleftrightarrow> priority_rank a \<le> priority_rank b"

definition less_change_type_priority :: "change_type_priority \<Rightarrow> change_type_priority \<Rightarrow> bool" where
  "less_change_type_priority a b \<longleftrightarrow> priority_rank a < priority_rank b"

instance
  by standard
    (auto simp: less_eq_change_type_priority_def less_change_type_priority_def intro: priority_rank_inj)

end

datatype path_expression = ParsedPath string jsonpath | PathTemplate string

record jinja_lib =
  jj_undeclared :: "string \<Rightarrow> string list"
  jj_render :: "string \<Rightarrow> (string \<times> string) list \<Rightarrow> string"

text \<open>Where the change type finds the context of a change: in the changed file itself, or in the
  files that refer to it.\<close>

datatype ownership_context =
  ForwardrefOwnershipContext (oc_selector: jsonpath) (oc_when: "string option")
| BackrefOwnershipContext (oc_selector: jsonpath) (oc_when: "string option")

record change_detector =
  cdet_context_schema :: "string option"
  cdet_change_schema :: "string option"
  cdet_context :: "ownership_context option"
  cdet_expressions :: "path_expression list"

record context_expansion =
  ce_context :: ownership_context
  ce_change_type :: string

datatype implicit_ownership =
  ImplicitJsonPath (io_selector: string)
| ImplicitOther (io_provider: string)

record change_type_processor =
  ctp_name :: string
  ctp_labels :: json
  ctp_priority :: change_type_priority
  ctp_context_type :: bundle_file_type
  ctp_context_schema :: "string option"
  ctp_disabled :: bool
  ctp_implicit_ownership :: "implicit_ownership list"
  ctp_restrictive :: bool
  ctp_expressions :: "(bundle_file_type \<times> string option, path_expression list) dict"
  ctp_detectors :: "change_detector list"
  ctp_expansions :: "context_expansion list"
  ctp_heritage :: "string list"

record change_type_context =
  ctx_processor :: change_type_processor
  ctx_context :: string
  ctx_origin :: string
  ctx_context_file :: file_ref
  ctx_approvers :: "approver list"
  ctx_reachability :: "approver_reachability list option"
  ctx_labels :: "string list option"

definition ctx_disabled :: "change_type_context \<Rightarrow> bool" where
  "ctx_disabled ctx = ctp_disabled (ctx_processor ctx)"

definition includes_approver :: "change_type_context \<Rightarrow> string \<Rightarrow> bool" where
  "includes_approver ctx approver_name =
     (List.find (\<lambda>a. org_username a = approver_name) (ctx_approvers ctx) \<noteq> None)"

lemma includes_approver_iff:
  "includes_approver ctx n \<longleftrightarrow> (\<exists>a \<in> set (ctx_approvers ctx). org_username a = n)"
  by (auto simp: includes_approver_def find_None_iff)

section \<open>Diffs\<close>

datatype diff_type = ADDED | REMOVED | CHANGED

record diff =
  d_path :: jsonpath
  d_type :: diff_type
  d_old :: json
  d_new :: json

fun join_for_display :: "jsonpath \<Rightarrow> jsonpath \<Rightarrow> jsonpath" where
  "join_for_display l r =
     (if l = This \<or> l = Root then r
      else if r = This then l
      else if r = Root then r
      else Child l r)"

definition normalize_for_display :: "jsonpath \<Rightarrow> jsonpath" where
  "normalize_for_display path =
     (case jsonpath_parts False False path of
        [] \<Rightarrow> path
      | p # ps \<Rightarrow> foldl join_for_display p ps)"

definition make_diff :: "jsonpath \<Rightarrow> diff_type \<Rightarrow> json \<Rightarrow> json \<Rightarrow> diff" where
  "make_diff path typ old new =
     \<lparr>d_path = normalize_for_display path, d_type = typ, d_old = old, d_new = new\<rparr>"

fun path_str :: "jsonpath_lib \<Rightarrow> jsonpath \<Rightarrow> string" where
  "path_str lib (Child l r) = path_str lib l @ ''.'' @ path_str lib r"
| "path_str lib p = jl_str lib p"

definition first_value :: "json list \<Rightarrow> json" where
  "first_value vs = (case vs of [] \<Rightarrow> JNull | v # _ \<Rightarrow> v)"

definition create_subdiff :: "jsonpath_lib \<Rightarrow> diff \<Rightarrow> jsonpath \<Rightarrow> string + diff" where
  "create_subdiff lib d sub_path =
     (if sub_path = d_path d then Inr d
      else
        rbind (if d_path d = Root then Inr sub_path
               else of_opt ''sub_path is not prefixed by the path'' (remove_prefix_from_path lib sub_path (d_path d)))
          (\<lambda>absolute_sub_path.
            Inr (make_diff sub_path (d_type d)
                  (first_value (jl_find lib absolute_sub_path (d_old d)))
                  (first_value (jl_find lib absolute_sub_path (d_new d))))))"

definition get_context_data_copy :: "diff \<Rightarrow> json" where
  "get_context_data_copy d =
     (case d_type d of ADDED \<Rightarrow> d_new d | CHANGED \<Rightarrow> d_new d | REMOVED \<Rightarrow> d_old d)"

section \<open>The coverage tree\<close>

datatype diff_coverage =
  DiffCoverage (dc_diff: diff) (dc_coverage: "change_type_context list") (dc_splits: "diff_coverage list")

definition changed_path_covered_by_path :: "diff_coverage \<Rightarrow> jsonpath \<Rightarrow> bool" where
  "changed_path_covered_by_path dc path = is_prefix_of path (d_path (dc_diff dc))"

definition path_under_changed_path :: "diff_coverage \<Rightarrow> jsonpath \<Rightarrow> bool" where
  "path_under_changed_path dc path =
     (is_prefix_of (d_path (dc_diff dc)) path \<and> path \<noteq> d_path (dc_diff dc))"

definition is_directly_covered :: "diff_coverage \<Rightarrow> bool" where
  "is_directly_covered dc = list_ex (\<lambda>ctx. \<not> ctx_disabled ctx) (dc_coverage dc)"

definition relative_path :: "jsonpath_lib \<Rightarrow> diff_coverage option \<Rightarrow> diff_coverage \<Rightarrow> string + jsonpath" where
  "relative_path lib parent dc =
     (case parent of
        None \<Rightarrow> Inr (d_path (dc_diff dc))
      | Some p \<Rightarrow> of_opt ''Diff split seems not to be under its parent change.''
                    (remove_prefix_from_path lib (d_path (dc_diff dc)) (d_path (dc_diff p))))"

fun remove_empty_parents :: "jsonpath_lib \<Rightarrow> jsonpath \<Rightarrow> json \<Rightarrow> json" where
  "remove_empty_parents lib (Child parent_path _) data =
     remove_empty_parents lib parent_path
       (foldl (\<lambda>d v. if truthy v then d else jl_remove lib parent_path d) data
          (jl_find lib parent_path data))"
| "remove_empty_parents lib _ data = data"

definition sorted_splits :: "diff_coverage \<Rightarrow> diff_coverage list" where
  \<comment> \<open>\<open>sorted(..., reverse=True)\<close> is stable on the original order\<close>
  "sorted_splits dc =
     rev (sort_key (\<lambda>s. sortable_jsonpath_string_repr (d_path (dc_diff s)) 5) (rev (dc_splits dc)))"

lemma set_sorted_splits [simp]: "set (sorted_splits dc) = set (dc_splits dc)"
  by (simp add: sorted_splits_def)

lemma size_split: "s \<in> set (dc_splits dc) \<Longrightarrow> size s < size dc"
  by (cases dc) (auto dest: size_list_estimation' [of _ _ _ size] simp: less_Suc_eq_le)

function is_covered_by_splits :: "jsonpath_lib \<Rightarrow> diff_coverage \<Rightarrow> string + bool" where
  "is_covered_by_splits lib dc =
     (case get_context_data_copy (dc_diff dc) of
        JDict (kv # kvs) \<Rightarrow>
          rbind (rfold (\<lambda>uncovered s.
                    rbind (if is_directly_covered s then Inr True else is_covered_by_splits lib s)
                      (\<lambda>covered.
                        if covered then
                          rbind (relative_path lib (Some dc) s)
                            (\<lambda>rp. Inr (remove_empty_parents lib rp (jl_remove lib rp uncovered)))
                        else Inr uncovered))
                  (JDict (kv # kvs)) (sorted_splits dc))
            (\<lambda>uncovered. Inr (uncovered = JDict []))
      | data \<Rightarrow> Inr (data = JDict []))"
  by pat_completeness auto
termination
  by (relation "measure (\<lambda>(lib, dc). size dc)") (auto dest: size_split)

declare is_covered_by_splits.simps [simp del]

definition is_covered :: "jsonpath_lib \<Rightarrow> diff_coverage \<Rightarrow> string + bool" where
  "is_covered lib dc =
     (if is_directly_covered dc then Inr True else is_covered_by_splits lib dc)"

primrec add_covering_context :: "change_type_context \<Rightarrow> diff_coverage \<Rightarrow> diff_coverage" where
  "add_covering_context ctx (DiffCoverage d cov splits) =
     DiffCoverage d (cov @ [ctx]) (map (add_covering_context ctx) splits)"

definition new_split ::
  "jsonpath_lib \<Rightarrow> diff_coverage \<Rightarrow> jsonpath \<Rightarrow> change_type_context \<Rightarrow>
   string + diff_coverage \<times> diff" where
  \<comment> \<open>the part of \<open>split\<close> that runs when no existing split takes the path\<close>
  "new_split lib dc path ctx =
     rbind (create_subdiff lib (dc_diff dc) path) (\<lambda>d.
       let under = (\<lambda>s. path_under_changed_path (DiffCoverage d [] []) (d_path (dc_diff s)));
           sub = add_covering_context ctx
                   (DiffCoverage d (dc_coverage dc) (filter under (dc_splits dc)))
       in Inr (DiffCoverage (dc_diff dc) (dc_coverage dc)
                 (sub # filter (\<lambda>s. \<not> under s) (dc_splits dc)), d))"

fun split_coverage ::
  "jsonpath_lib \<Rightarrow> jsonpath \<Rightarrow> change_type_context \<Rightarrow> diff_coverage \<Rightarrow>
   string + (diff_coverage \<times> diff) option"
and split_existing ::
  "jsonpath_lib \<Rightarrow> jsonpath \<Rightarrow> change_type_context \<Rightarrow> diff_coverage list \<Rightarrow>
   string + (diff_coverage list \<times> diff) option" where
  "split_coverage lib path ctx (DiffCoverage d cov splits) =
     (if path_under_changed_path (DiffCoverage d cov splits) path then
        rbind (split_existing lib path ctx splits) (\<lambda>r.
          case r of
            Some (splits', d') \<Rightarrow> Inr (Some (DiffCoverage d cov splits', d'))
          | None \<Rightarrow> rbind (new_split lib (DiffCoverage d cov splits) path ctx) (\<lambda>r'. Inr (Some r')))
      else if d_path d = path then
        Inr (Some (add_covering_context ctx (DiffCoverage d cov splits), d))
      else Inr None)"
| "split_existing lib path ctx [] = Inr None"
| "split_existing lib path ctx (s # ss) =
     rbind (split_coverage lib path ctx s) (\<lambda>r.
       case r of
         Some (s', d') \<Rightarrow> Inr (Some (s' # ss, d'))
       | None \<Rightarrow> rbind (split_existing lib path ctx ss)
                   (\<lambda>r'. Inr (map_option (\<lambda>(ss', d'). (s # ss', d')) r')))"

fun fine_grained_diff_coverages ::
  "jsonpath_lib \<Rightarrow> diff_coverage \<Rightarrow> string + (string, diff_coverage) dict" where
  "fine_grained_diff_coverages lib (DiffCoverage d cov splits) =
     rbind (rfold (\<lambda>acc s. rbind (fine_grained_diff_coverages lib s) (\<lambda>c. Inr (dict_update acc c)))
              [] splits)
       (\<lambda>coverages.
         rbind (if is_directly_covered (DiffCoverage d cov splits) then Inr False
                else is_covered_by_splits lib (DiffCoverage d cov splits))
           (\<lambda>discard.
             Inr (if discard then coverages
                  else dict_set coverages (path_str lib (d_path d)) (DiffCoverage d cov splits))))"

primrec change_owner_labels :: "diff_coverage \<Rightarrow> string set" where
  "change_owner_labels (DiffCoverage d cov splits) =
     (\<Union>c \<in> set cov. set (case ctx_labels c of None \<Rightarrow> [] | Some ls \<Rightarrow> ls)) \<union>
     (\<Union>l \<in> set (map change_owner_labels splits). l)"

end
