(* ===== verification/Bundle_Changes.thy ===== *)
theory Bundle_Changes
  imports Change_Coverage
begin

text \<open>
  \<open>reconcile/change_owners/changes.py\<close> and the diff extraction of \<open>diff.py\<close>: from the two
  versions of a file to its diffs, from the diffs to the coverage by a change type in a context,
  and the detection of moved files. \<open>deepdiff\<close> and \<open>anymarkup\<close> are parameters.
\<close>

section \<open>Diff extraction\<close>

record deep_diff =
  values_changed :: "(string \<times> json \<times> json) list"
  dictionary_item_added :: "string list"
  dictionary_item_removed :: "string list"
  iterable_item_added :: "(string \<times> json) list"
  iterable_item_removed :: "(string \<times> json) list"
  type_changes :: "(string \<times> json \<times> json) list"

record deepdiff_lib =
  dd_diff :: "json \<Rightarrow> json \<Rightarrow> deep_diff"
  dd_parse_path :: "string \<Rightarrow> (string + int) list"

definition extract_identifier_from_object :: "json \<Rightarrow> json" where
  "extract_identifier_from_object obj =
     (case obj of
        JDict kvs \<Rightarrow>
          (case map_of kvs ''__identifier'' of
             Some v \<Rightarrow> v
           | None \<Rightarrow> (case map_of kvs ''$ref'' of
               Some v \<Rightarrow> if length kvs = 1 then v else JNull
             | None \<Rightarrow> JNull))
      | _ \<Rightarrow> JNull)"

datatype cannot_compare = CannotCompare

definition compare_object_ctx_identifier :: "json \<Rightarrow> json \<Rightarrow> cannot_compare + bool" where
  "compare_object_ctx_identifier x y =
     (let x_id = extract_identifier_from_object x; y_id = extract_identifier_from_object y
      in if truthy x_id \<and> truthy y_id then Inr (x_id = y_id)
         else if truthy x_id \<or> truthy y_id then Inr False
         else Inl CannotCompare)"

fun build_jsonpath_part :: "string + int \<Rightarrow> jsonpath" where
  "build_jsonpath_part (Inr i) = Index [i]"
| "build_jsonpath_part (Inl s) = Fields [s]"

definition deepdiff_path_to_jsonpath ::
  "jsonpath_lib \<Rightarrow> deepdiff_lib \<Rightarrow> string \<Rightarrow> string + jsonpath" where
  "deepdiff_path_to_jsonpath lib dd deep_diff_path =
     (if \<not> prefix ''root'' deep_diff_path then Inl ''a deepdiff path must start with root''
      else case reduce_child lib (map build_jsonpath_part (dd_parse_path dd deep_diff_path)) of
             Some p \<Rightarrow> Inr p | None \<Rightarrow> Inr Root)"

definition extract_diffs ::
  "jsonpath_lib \<Rightarrow> deepdiff_lib \<Rightarrow> json \<Rightarrow> json \<Rightarrow> string + diff list" where
  "extract_diffs lib dd old new =
     (if truthy old \<and> truthy new then
        let deep = dd_diff dd old new; jp = deepdiff_path_to_jsonpath lib dd;
            changed = rmap (\<lambda>(path, o', n'). rbind (jp path) (\<lambda>p. Inr (make_diff p CHANGED o' n')))
        in rbind (changed (values_changed deep)) (\<lambda>ds1.
           rbind (rmap (\<lambda>path. rbind (jp path)
                    (\<lambda>p. Inr (make_diff p ADDED JNull (first_value (jl_find lib p new)))))
                  (dictionary_item_added deep)) (\<lambda>ds2.
           rbind (rmap (\<lambda>path. rbind (jp path)
                    (\<lambda>p. Inr (make_diff p REMOVED (first_value (jl_find lib p old)) JNull)))
                  (dictionary_item_removed deep)) (\<lambda>ds3.
           rbind (rmap (\<lambda>(path, v). rbind (jp path) (\<lambda>p. Inr (make_diff p ADDED JNull v)))
                  (iterable_item_added deep)) (\<lambda>ds4.
           rbind (rmap (\<lambda>(path, v). rbind (jp path) (\<lambda>p. Inr (make_diff p REMOVED v JNull)))
                  (iterable_item_removed deep)) (\<lambda>ds5.
           rbind (changed (type_changes deep)) (\<lambda>ds6.
             Inr (ds1 @ ds2 @ ds3 @ ds4 @ ds5 @ ds6)))))))
      else if truthy old then Inr [make_diff Root REMOVED old JNull]
      else if truthy new then Inr [make_diff Root ADDED JNull new]
      else Inr [])"

section \<open>Allowed paths of a change type\<close>

definition make_path_expression ::
  "jsonpath_lib \<Rightarrow> jinja_lib \<Rightarrow> string \<Rightarrow> string + path_expression" where
  "make_path_expression lib jj expr =
     (if sublist ''{{'' expr then
        if set (jj_undeclared jj expr) - {''ctx_file_path''} \<noteq> {}
        then Inl ''only the supported variables are allowed in path expressions''
        else Inr (PathTemplate expr)
      else rbind (of_opt ''unparsable JSONPath'' (jl_parse lib expr)) (\<lambda>p. Inr (ParsedPath expr p)))"

fun jsonpath_for_context ::
  "jsonpath_lib \<Rightarrow> jinja_lib \<Rightarrow> change_type_context \<Rightarrow> path_expression \<Rightarrow> string + jsonpath" where
  "jsonpath_for_context lib jj ctx (ParsedPath e p) = Inr p"
| "jsonpath_for_context lib jj ctx (PathTemplate t) =
     of_opt ''unparsable JSONPath''
       (jl_parse lib (jj_render jj t [(''ctx_file_path'', fr_path (ctx_context_file ctx))]))"

definition allowed_changed_paths_for_file_type_and_schema ::
  "jsonpath_lib \<Rightarrow> jinja_lib \<Rightarrow> change_type_processor \<Rightarrow> bundle_file_type \<Rightarrow> string option \<Rightarrow> json \<Rightarrow>
   change_type_context \<Rightarrow> string + jsonpath list" where
  "allowed_changed_paths_for_file_type_and_schema lib jj ctp file_type file_schema file_content ctx =
     (case dict_get (ctp_expressions ctp) (file_type, file_schema) of
        None \<Rightarrow> Inr []
      | Some exprs \<Rightarrow>
          rbind (rmap (\<lambda>e. rbind (jsonpath_for_context lib jj ctx e)
                    (\<lambda>p. Inr (jl_full_paths lib p file_content))) exprs)
            (\<lambda>pss. Inr (concat pss)))"

definition allowed_changed_paths ::
  "jsonpath_lib \<Rightarrow> jinja_lib \<Rightarrow> change_type_processor \<Rightarrow> file_ref \<Rightarrow> json \<Rightarrow> change_type_context \<Rightarrow>
   string + jsonpath list" where
  "allowed_changed_paths lib jj ctp fileref file_content ctx =
     rbind (allowed_changed_paths_for_file_type_and_schema lib jj ctp (fr_file_type fileref)
              (fr_schema fileref) file_content ctx) (\<lambda>paths.
     rbind (allowed_changed_paths_for_file_type_and_schema lib jj ctp (fr_file_type fileref)
              None file_content ctx) (\<lambda>more. Inr (add_all paths more)))"

section \<open>Changed files\<close>

record bundle_file_change =
  bfc_fileref :: file_ref
  bfc_old :: json
  bfc_new :: json
  bfc_old_sha :: string
  bfc_new_sha :: string
  bfc_diffs :: "diff list"
  bfc_old_backrefs :: "file_ref list"
  bfc_new_backrefs :: "file_ref list"
  bfc_metadata_only :: bool
  bfc_diff_coverage :: "(string, diff_coverage) dict"

definition make_bundle_file_change ::
  "jsonpath_lib \<Rightarrow> file_ref \<Rightarrow> json \<Rightarrow> json \<Rightarrow> string \<Rightarrow> string \<Rightarrow> diff list \<Rightarrow> file_ref list \<Rightarrow>
   file_ref list \<Rightarrow> bool \<Rightarrow> bundle_file_change" where
  "make_bundle_file_change lib fileref old new old_sha new_sha diffs old_backrefs new_backrefs meta =
     \<lparr>bfc_fileref = fileref, bfc_old = old, bfc_new = new, bfc_old_sha = old_sha,
      bfc_new_sha = new_sha, bfc_diffs = diffs, bfc_old_backrefs = remdups old_backrefs,
      bfc_new_backrefs = remdups new_backrefs, bfc_metadata_only = meta,
      bfc_diff_coverage =
        dict_of (map (\<lambda>d. (path_str lib (d_path d), DiffCoverage d [] [])) diffs)\<rparr>"

definition METADATA_CHANGE_PATH :: string where
  "METADATA_CHANGE_PATH = ''_metadata_''"

definition cover_metadata_only ::
  "jsonpath_lib \<Rightarrow> bundle_file_change \<Rightarrow> change_type_context \<Rightarrow> string + bundle_file_change" where
  "cover_metadata_only lib bfc ctx =
     (if \<not> bfc_metadata_only bfc then Inl ''not a metadata only change''
      else
        rbind (case dict_get (bfc_diff_coverage bfc) METADATA_CHANGE_PATH of
                 Some dc \<Rightarrow> Inr dc
               | None \<Rightarrow> rbind (of_opt ''unparsable JSONPath'' (jl_parse lib METADATA_CHANGE_PATH))
                   (\<lambda>p. Inr (DiffCoverage (make_diff p CHANGED JNull JNull) [] [])))
          (\<lambda>dc. Inr (bfc\<lparr>bfc_diff_coverage :=
             dict_set (bfc_diff_coverage bfc) METADATA_CHANGE_PATH
               (DiffCoverage (dc_diff dc) (dc_coverage dc @ [ctx]) (dc_splits dc))\<rparr>)))"

definition content_with_metadata :: "file_ref \<Rightarrow> json \<Rightarrow> json" where
  "content_with_metadata fileref content =
     (case content of
        JDict (kv # kvs) \<Rightarrow>
          if fr_file_type fileref = DATAFILE then
            JDict (dict_set (dict_set (kv # kvs) ''path'' (JStr (fr_path fileref))) ''$schema''
              (case fr_schema fileref of None \<Rightarrow> JNull | Some s \<Rightarrow> JStr s))
          else content
      | _ \<Rightarrow> content)"

definition is_file_deletion :: "bundle_file_change \<Rightarrow> bool" where
  "is_file_deletion bfc \<longleftrightarrow> bfc_old bfc \<noteq> JNull \<and> bfc_new bfc = JNull"

definition is_file_creation :: "bundle_file_change \<Rightarrow> bool" where
  "is_file_creation bfc \<longleftrightarrow> bfc_old bfc = JNull \<and> bfc_new bfc \<noteq> JNull"

definition cover_diff ::
  "jsonpath_lib \<Rightarrow> change_type_context \<Rightarrow> jsonpath \<Rightarrow> diff_coverage \<Rightarrow>
   string + diff_coverage \<times> (string \<times> diff) list" where
  \<comment> \<open>the body of the two nested loops of \<open>_cover_changes_for_diffs\<close>\<close>
  "cover_diff lib ctx allowed_path dc =
     (if changed_path_covered_by_path dc allowed_path then
        Inr (DiffCoverage (dc_diff dc) (dc_coverage dc @ [ctx]) (dc_splits dc),
             [(path_str lib (d_path (dc_diff dc)), dc_diff dc)])
      else if path_under_changed_path dc allowed_path then
        rbind (split_coverage lib allowed_path ctx dc) (\<lambda>r.
          case r of
            None \<Rightarrow> Inl ''unable to create a subdiff''
          | Some (dc', d) \<Rightarrow> Inr (dc', [(jl_str lib allowed_path, d)]))
      else Inr (dc, []))"

definition cover_changes_for_diffs ::
  "jsonpath_lib \<Rightarrow> jinja_lib \<Rightarrow> bundle_file_change \<Rightarrow> diff_type list \<Rightarrow> json \<Rightarrow> change_type_context \<Rightarrow>
   string + bundle_file_change \<times> (string, diff) dict" where
  "cover_changes_for_diffs lib jj bfc types file_content ctx =
     (if \<forall>dc \<in> set (dict_values (bfc_diff_coverage bfc)). d_type (dc_diff dc) \<notin> set types
      then Inr (bfc, [])
      else
        rbind (allowed_changed_paths lib jj (ctx_processor ctx) (bfc_fileref bfc) file_content ctx)
          (\<lambda>paths.
            rbind (rfold (\<lambda>(entries, covered) path.
                rbind (rmap (\<lambda>(k, dc).
                    if d_type (dc_diff dc) \<in> set types
                    then rbind (cover_diff lib ctx path dc) (\<lambda>(dc', c). Inr ((k, dc'), c))
                    else Inr ((k, dc), [])) entries)
                  (\<lambda>rs. Inr (map fst rs, dict_update covered (concat (map snd rs)))))
              (bfc_diff_coverage bfc, []) paths)
            (\<lambda>(entries, covered). Inr (bfc\<lparr>bfc_diff_coverage := entries\<rparr>, covered))))"

definition cover_changes ::
  "jsonpath_lib \<Rightarrow> jinja_lib \<Rightarrow> bundle_file_change \<Rightarrow> change_type_context \<Rightarrow>
   string + bundle_file_change \<times> (string, diff) dict" where
  "cover_changes lib jj bfc ctx =
     (if bfc_metadata_only bfc \<and> bfc_diffs bfc = [] then
        rbind (cover_metadata_only lib bfc ctx) (\<lambda>bfc'. Inr (bfc', []))
      else
        rbind (cover_changes_for_diffs lib jj bfc [ADDED, CHANGED] (bfc_new bfc) ctx) (\<lambda>(bfc1, c1).
        rbind (cover_changes_for_diffs lib jj bfc1 [REMOVED] (bfc_old bfc) ctx) (\<lambda>(bfc2, c2).
          Inr (bfc2, dict_update c1 c2))))"

definition bundle_diff_coverage :: "jsonpath_lib \<Rightarrow> bundle_file_change \<Rightarrow> string + diff_coverage list" where
  "bundle_diff_coverage lib bfc =
     rbind (rmap (fine_grained_diff_coverages lib) (dict_values (bfc_diff_coverage bfc)))
       (\<lambda>cs. Inr (concat (map dict_values cs)))"

definition all_changes_covered :: "jsonpath_lib \<Rightarrow> bundle_file_change \<Rightarrow> string + bool" where
  "all_changes_covered lib bfc = rbind (bundle_diff_coverage lib bfc) (rall (is_covered lib))"

definition raw_diff_count :: "bundle_file_change \<Rightarrow> nat" where
  "raw_diff_count bfc = length (bfc_diff_coverage bfc)"

definition involved_change_types ::
  "jsonpath_lib \<Rightarrow> bundle_file_change \<Rightarrow> string + change_type_processor list" where
  "involved_change_types lib bfc =
     rbind (bundle_diff_coverage lib bfc)
       (\<lambda>dcs. Inr [ctx_processor ctx. dc \<leftarrow> dcs, ctx \<leftarrow> dc_coverage dc])"

definition bundle_change_owner_labels :: "jsonpath_lib \<Rightarrow> bundle_file_change \<Rightarrow> string + string set" where
  "bundle_change_owner_labels lib bfc =
     rbind (bundle_diff_coverage lib bfc) (\<lambda>dcs. Inr (\<Union>dc \<in> set dcs. change_owner_labels dc))"

definition get_priority_for_changes ::
  "jsonpath_lib \<Rightarrow> bundle_file_change list \<Rightarrow> string + change_type_priority option" where
  "get_priority_for_changes lib changes =
     rbind (rmap (involved_change_types lib) changes) (\<lambda>ctss.
       let priorities = map ctp_priority (concat ctss)
       in Inr (List.find (\<lambda>p. p \<in> set priorities) (rev change_type_priorities)))"

section \<open>Building the changes\<close>

definition parse_resource_file_content :: "(string \<Rightarrow> json option) \<Rightarrow> json \<Rightarrow> json \<times> json" where
  "parse_resource_file_content anymarkup content =
     (case content of
        JStr s \<Rightarrow>
          if s = [] then (JNull, JNull)
          else (case anymarkup s of
                  Some (JDict kvs) \<Rightarrow>
                    (JDict kvs, case map_of kvs ''$schema'' of None \<Rightarrow> JNull | Some v \<Rightarrow> v)
                | _ \<Rightarrow> (content, JNull))
      | _ \<Rightarrow> if truthy content then (content, JNull) else (JNull, JNull))"

record change_libs =
  cl_jsonpath :: jsonpath_lib
  cl_deepdiff :: deepdiff_lib
  cl_anymarkup :: "string \<Rightarrow> json option"

definition create_bundle_file_change ::
  "change_libs \<Rightarrow> string \<Rightarrow> string option \<Rightarrow> bundle_file_type \<Rightarrow> json \<Rightarrow> json \<Rightarrow> string \<Rightarrow> string \<Rightarrow>
   string \<Rightarrow> string \<Rightarrow> file_ref list \<Rightarrow> file_ref list \<Rightarrow> string + bundle_file_change option" where
  "create_bundle_file_change libs path schema file_type old_content new_content old_sha new_sha
     old_path new_path old_backrefs new_backrefs =
     (let fileref = \<lparr>fr_file_type = file_type, fr_path = path, fr_schema = schema, fr_json_path = None\<rparr>;
          parse = (\<lambda>c. if file_type = RESOURCEFILE
                        then fst (parse_resource_file_content (cl_anymarkup libs) c) else c);
          old = parse old_content; new = parse new_content;
          make = (\<lambda>diffs meta. make_bundle_file_change (cl_jsonpath libs) fileref old new old_sha new_sha
                    diffs old_backrefs new_backrefs meta)
      in rbind (extract_diffs (cl_jsonpath libs) (cl_deepdiff libs) old new) (\<lambda>diffs.
           Inr (if diffs \<noteq> [] then Some (make diffs False)
                else if old_sha \<noteq> new_sha \<or> old_path \<noteq> new_path then Some (make [] True)
                else None)))"

record move_candidates =
  mc_creations :: "bundle_file_change list"
  mc_deletions :: "bundle_file_change list"

definition move_candidate_changes ::
  "change_libs \<Rightarrow> move_candidates \<Rightarrow> string + bundle_file_change list" where
  "move_candidate_changes libs mc =
     (case (mc_creations mc, mc_deletions mc) of
        ([creation], [deletion]) \<Rightarrow>
          if fr_file_type (bfc_fileref deletion) = fr_file_type (bfc_fileref creation) \<and>
             fr_path (bfc_fileref deletion) \<noteq> fr_path (bfc_fileref creation)
          then rbind (create_bundle_file_change libs (fr_path (bfc_fileref deletion))
                        (fr_schema (bfc_fileref deletion)) (fr_file_type (bfc_fileref deletion))
                        (bfc_new creation) (bfc_old deletion) (bfc_old_sha deletion)
                        (bfc_new_sha creation) (fr_path (bfc_fileref deletion))
                        (fr_path (bfc_fileref creation)) [] [])
                 (\<lambda>r. Inr (case r of Some c \<Rightarrow> [c] | None \<Rightarrow> mc_creations mc @ mc_deletions mc))
          else Inr (mc_creations mc @ mc_deletions mc)
      | _ \<Rightarrow> Inr (mc_creations mc @ mc_deletions mc))"

definition candidates_of :: "(string, move_candidates) dict \<Rightarrow> string \<Rightarrow> move_candidates" where
  "candidates_of d sha =
     (case dict_get d sha of None \<Rightarrow> \<lparr>mc_creations = [], mc_deletions = []\<rparr> | Some m \<Rightarrow> m)"

definition collect_move_candidate ::
  "(string, move_candidates) dict \<times> bundle_file_change list \<Rightarrow> bundle_file_change \<Rightarrow>
   (string, move_candidates) dict \<times> bundle_file_change list" where
  "collect_move_candidate st c =
     (case st of (cands, others) \<Rightarrow>
        if is_file_creation c then
          (dict_set cands (bfc_new_sha c)
             (let m = candidates_of cands (bfc_new_sha c) in m\<lparr>mc_creations := mc_creations m @ [c]\<rparr>),
           others)
        else if is_file_deletion c then
          (dict_set cands (bfc_old_sha c)
             (let m = candidates_of cands (bfc_old_sha c) in m\<lparr>mc_deletions := mc_deletions m @ [c]\<rparr>),
           others)
        else (cands, others @ [c]))"

definition aggregate_file_moves ::
  "change_libs \<Rightarrow> bundle_file_change list \<Rightarrow> string + bundle_file_change list" where
  "aggregate_file_moves libs bundle_changes =
     (case foldl collect_move_candidate ([], []) bundle_changes of
        (cands, others) \<Rightarrow>
          rbind (rmap (move_candidate_changes libs) (dict_values cands))
            (\<lambda>css. Inr (others @ concat css)))"

definition aggregate_resource_changes ::
  "jsonpath_lib \<Rightarrow> bundle_file_change list \<Rightarrow> (string, json) dict \<Rightarrow> string list \<Rightarrow>
   string + bundle_file_change list" where
  "aggregate_resource_changes lib bundle_changes content_store supported_schemas =
     rbind (rmap (\<lambda>(ref, content).
               rbind (of_opt ''unparsable JSONPath''
                        (case fr_json_path ref of None \<Rightarrow> None | Some jp \<Rightarrow> jl_parse lib jp))
                 (\<lambda>p. Inr (make_bundle_file_change lib ref content content [] []
                        [make_diff p CHANGED content content] [] [] False)))
             [(ref, the (dict_get content_store (fr_path ref))).
                change \<leftarrow> bundle_changes,
                ref \<leftarrow> add_all (bfc_old_backrefs change) (bfc_new_backrefs change),
                (case fr_schema ref of None \<Rightarrow> False | Some s \<Rightarrow> s \<in> set supported_schemas) \<and>
                (case dict_get content_store (fr_path ref) of None \<Rightarrow> False | Some c \<Rightarrow> truthy c)])
       (\<lambda>resource_changes. Inr (bundle_changes @ resource_changes))"

end
