(* ===== verification/Ownership.thy ===== *)
theory Ownership
  imports Bundle_Changes
begin

text \<open>
  \<open>reconcile/change_owners/change_types.py\<close>, the ownership half: how a change type finds the
  files that give a change its context, how a context expands over composed change types, and how
  the processors are built from their definitions (detectors, composition, inheritance). Processors
  refer to each other by name, the key of the dictionary that owns them. The file diff resolver and
  \<open>networkx\<close> are parameters.
\<close>

section \<open>Ownership contexts\<close>

record file_change =
  fc_file_ref :: file_ref
  fc_old :: json
  fc_new :: json
  fc_old_backrefs :: "file_ref list"
  fc_new_backrefs :: "file_ref list"

type_synonym file_diff_resolver = "file_ref \<Rightarrow> string + json \<times> json"

definition noop_file_diff_resolver :: file_diff_resolver where
  "noop_file_diff_resolver ref = Inl ''NoOpFileDiffResolver is not supposed to be used''"

fun selected_by_when :: "string option \<Rightarrow> 'a list \<Rightarrow> 'a list \<Rightarrow> 'a list" where
  "selected_by_when None old new = (if set old = set new then old else [])"
| "selected_by_when (Some w) old new =
     (if w = ''added'' then filter (\<lambda>x. x \<notin> set old) new
      else if w = ''removed'' then filter (\<lambda>x. x \<notin> set new) old
      else [])"

definition context_paths :: "jsonpath_lib \<Rightarrow> jsonpath \<Rightarrow> json \<Rightarrow> string + string list" where
  \<comment> \<open>the values at the selector as a set; the schemas make them strings\<close>
  "context_paths lib selector content =
     rbind (rmap (\<lambda>v. case v of JStr s \<Rightarrow> Inr s | _ \<Rightarrow> Inl ''not a path'') (jl_find lib selector content))
       (\<lambda>paths. Inr (add_all [] paths))"

fun find_ownership_context ::
  "jsonpath_lib \<Rightarrow> file_diff_resolver \<Rightarrow> ownership_context \<Rightarrow> string option \<Rightarrow> file_change \<Rightarrow>
   string + file_ref list" where
  "find_ownership_context lib resolver (ForwardrefOwnershipContext selector w) context_schema change =
     rbind (context_paths lib selector (fc_old change)) (\<lambda>old_contexts.
     rbind (context_paths lib selector (fc_new change)) (\<lambda>new_contexts.
       Inr (map (\<lambda>path. \<lparr>fr_file_type = DATAFILE, fr_path = path, fr_schema = context_schema,
                         fr_json_path = None\<rparr>)
              (selected_by_when w old_contexts new_contexts))))"
| "find_ownership_context lib resolver (BackrefOwnershipContext selector w) context_schema change =
     (let mentions = (\<lambda>content. JStr (fr_path (fc_file_ref change)) \<in> set (jl_find lib selector content))
      in rbind (rmap (\<lambda>ref. rbind (resolver ref) (\<lambda>d. Inr (ref, d)))
                 (add_all (fc_old_backrefs change) (fc_new_backrefs change))) (\<lambda>refs.
           Inr (selected_by_when w
                  (map fst (filter (\<lambda>(ref, d). mentions (fst d)) refs))
                  (map fst (filter (\<lambda>(ref, d). mentions (snd d)) refs)))))"

definition build_ownership_context ::
  "jsonpath \<Rightarrow> string option \<Rightarrow> string option \<Rightarrow> ownership_context" where
  "build_ownership_context selector w place =
     (if place = Some ''backrefs'' then BackrefOwnershipContext selector w
      else ForwardrefOwnershipContext selector w)"

section \<open>Resolution with expansion\<close>

record resolved_context =
  rc_owned_file_ref :: file_ref
  rc_context_file_ref :: file_ref
  rc_change_type :: string

datatype resolution_error = OutOfFuel | Raised string

fun lift_raised :: "string + 'a \<Rightarrow> resolution_error + 'a" where
  "lift_raised (Inl e) = Inl (Raised e)"
| "lift_raised (Inr x) = Inr x"

type_synonym trail = "(string \<times> file_ref) list"

record ownership_env =
  oe_lib :: jsonpath_lib
  oe_resolver :: file_diff_resolver
  oe_processors :: "(string, change_type_processor) dict"

type_synonym resolution =
  "change_type_processor \<Rightarrow> file_change \<Rightarrow> trail \<Rightarrow> resolution_error + resolved_context list"

definition resolve_file_change :: "ownership_env \<Rightarrow> file_ref \<Rightarrow> resolution_error + file_change" where
  "resolve_file_change env ref =
     rbind (lift_raised (oe_resolver env ref)) (\<lambda>(old, new).
       Inr \<lparr>fc_file_ref = ref, fc_old = old, fc_new = new, fc_old_backrefs = [], fc_new_backrefs = []\<rparr>)"

definition expand ::
  "ownership_env \<Rightarrow> resolution \<Rightarrow> context_expansion \<Rightarrow> file_change \<Rightarrow> trail \<Rightarrow>
   resolution_error + resolved_context list" where
  "expand env recurse ce change trail =
     rbind (lift_raised (of_opt ''KeyError'' (dict_get (oe_processors env) (ce_change_type ce)))) (\<lambda>ctp.
     rbind (lift_raised (find_ownership_context (oe_lib env) (oe_resolver env) (ce_context ce)
              (ctp_context_schema ctp) change)) (\<lambda>refs.
     rbind (rmap (\<lambda>ref. rbind (resolve_file_change env ref) (\<lambda>ch. recurse ctp ch trail)) refs)
       (\<lambda>rcs. Inr (concat rcs))))"

definition expand_from_file_ref ::
  "ownership_env \<Rightarrow> resolution \<Rightarrow> context_expansion \<Rightarrow> file_ref \<Rightarrow> trail \<Rightarrow>
   resolution_error + resolved_context list" where
  "expand_from_file_ref env recurse ce ref trail =
     rbind (resolve_file_change env ref) (\<lambda>change. expand env recurse ce change trail)"

definition detector_context_file_refs ::
  "ownership_env \<Rightarrow> change_detector \<Rightarrow> file_change \<Rightarrow> resolution_error + file_ref list" where
  "detector_context_file_refs env c change =
     (case cdet_context c of
        None \<Rightarrow> Inr []
      | Some oc \<Rightarrow> lift_raised (find_ownership_context (oe_lib env) (oe_resolver env) oc
                     (cdet_context_schema c) change))"

definition contexts_from ::
  "change_type_processor \<Rightarrow> file_ref \<Rightarrow> (context_expansion \<Rightarrow> resolution_error + resolved_context list) \<Rightarrow>
   resolution_error + resolved_context list" where
  \<comment> \<open>the context itself, then what the compositions of the change type make of it\<close>
  "contexts_from ctp ref expand_with =
     rbind (rmap expand_with (ctp_expansions ctp)) (\<lambda>ecs.
       Inr (\<lparr>rc_owned_file_ref = ref, rc_context_file_ref = ref, rc_change_type = ctp_name ctp\<rparr> #
            map (\<lambda>ec. ec\<lparr>rc_context_file_ref := ref\<rparr>) (concat ecs)))"

definition find_context_step :: "ownership_env \<Rightarrow> resolution \<Rightarrow> resolution" where
  "find_context_step env recurse ctp change trail =
     (if (ctp_name ctp, fc_file_ref change) \<in> set trail then Inr []
      else
        let trail' = (ctp_name ctp, fc_file_ref change) # trail
        in rbind (if ctp_context_schema ctp = None \<or> ctp_context_schema ctp = fr_schema (fc_file_ref change)
                  then contexts_from ctp (fc_file_ref change) (\<lambda>ce. expand env recurse ce change trail')
                  else Inr []) (\<lambda>direct.
           rbind (rmap (\<lambda>c.
               rbind (detector_context_file_refs env c change) (\<lambda>refs.
               rbind (rmap (\<lambda>ref. contexts_from ctp ref
                         (\<lambda>ce. expand_from_file_ref env recurse ce ref trail')) refs)
                 (\<lambda>rcs. Inr (concat rcs))))
               (filter (\<lambda>c. cdet_change_schema c = fr_schema (fc_file_ref change)) (ctp_detectors ctp)))
             (\<lambda>detected. Inr (direct @ concat detected))))"

fun find_context_file_refs :: "ownership_env \<Rightarrow> nat \<Rightarrow> resolution" where
  "find_context_file_refs env 0 ctp change trail = Inl OutOfFuel"
| "find_context_file_refs env (Suc fuel) ctp change trail =
     find_context_step env (find_context_file_refs env fuel) ctp change trail"

section \<open>Resolution ends\<close>

text \<open>The flat order on results: a result that did not run out of fuel is final.\<close>

definition final_in :: "resolution_error + 'a \<Rightarrow> resolution_error + 'a \<Rightarrow> bool" where
  "final_in r s \<longleftrightarrow> r \<noteq> Inl OutOfFuel \<longrightarrow> s = r"

lemma final_in_refl [simp, intro!]: "final_in r r"
  by (simp add: final_in_def)

lemma final_in_rbind [intro!]:
  "final_in r s \<Longrightarrow> (\<And>x. final_in (f x) (g x)) \<Longrightarrow> final_in (rbind r f) (rbind s g)"
  by (cases r) (auto simp: final_in_def)

lemma final_in_rmap [intro!]:
  "(\<And>x. final_in (f x) (g x)) \<Longrightarrow> final_in (rmap f xs) (rmap g xs)"
  by (induction xs) auto

lemma final_in_expand:
  "(\<And>p ch. final_in (f p ch trail) (g p ch trail)) \<Longrightarrow>
     final_in (expand env f ce change trail) (expand env g ce change trail)"
  by (auto simp: expand_def)

lemma final_in_expand_from_file_ref:
  "(\<And>p ch. final_in (f p ch trail) (g p ch trail)) \<Longrightarrow>
     final_in (expand_from_file_ref env f ce ref trail) (expand_from_file_ref env g ce ref trail)"
  by (auto simp: expand_from_file_ref_def intro!: final_in_rbind final_in_expand)

lemma final_in_contexts_from:
  "(\<And>ce. final_in (f ce) (g ce)) \<Longrightarrow> final_in (contexts_from ctp ref f) (contexts_from ctp ref g)"
  by (auto simp: contexts_from_def intro!: final_in_rbind final_in_rmap)

lemma final_in_step:
  "(\<And>p ch t. final_in (f p ch t) (g p ch t)) \<Longrightarrow>
     final_in (find_context_step env f ctp change trail) (find_context_step env g ctp change trail)"
  by (auto simp: find_context_step_def Let_def
      intro!: final_in_contexts_from final_in_expand final_in_expand_from_file_ref)

lemma find_context_file_refs_final:
  "final_in (find_context_file_refs env n ctp change trail) (find_context_file_refs env (Suc n) ctp change trail)"
proof (induction n arbitrary: ctp change trail)
  case 0
  then show ?case by (simp add: final_in_def)
next
  case (Suc n)
  then have "final_in (find_context_step env (find_context_file_refs env n) ctp change trail)
      (find_context_step env (find_context_file_refs env (Suc n)) ctp change trail)"
    by (rule final_in_step)
  then show ?case by (simp only: find_context_file_refs.simps)
qed

lemma find_context_file_refs_mono:
  assumes "find_context_file_refs env n ctp change trail \<noteq> Inl OutOfFuel" "n \<le> m"
  shows "find_context_file_refs env m ctp change trail = find_context_file_refs env n ctp change trail"
  using assms(2,1)
proof (induction m rule: dec_induct)
  case (step k)
  with find_context_file_refs_final [of env k ctp change trail] show ?case
    by (simp add: final_in_def)
qed simp

definition changes_seen :: "ownership_env \<Rightarrow> file_change \<Rightarrow> file_ref set \<Rightarrow> file_change set" where
  \<comment> \<open>the change the resolution starts with, and the looked up files of \<open>U\<close>\<close>
  "changes_seen env start U = insert start {ch. \<exists>ref \<in> U. resolve_file_change env ref = Inr ch}"

definition files_bounded :: "ownership_env \<Rightarrow> file_change \<Rightarrow> file_ref set \<Rightarrow> bool" where
  "files_bounded env start U \<longleftrightarrow> finite U \<and> fc_file_ref start \<in> U \<and>
     (\<forall>(k, p) \<in> set (oe_processors env). ctp_name p = k \<and> (\<forall>change \<in> changes_seen env start U.
        (\<forall>c \<in> set (ctp_detectors p). \<forall>refs.
           detector_context_file_refs env c change = Inr refs \<longrightarrow> set refs \<subseteq> U) \<and>
        (\<forall>ce \<in> set (ctp_expansions p). \<forall>q refs.
           dict_get (oe_processors env) (ce_change_type ce) = Some q \<longrightarrow>
           find_ownership_context (oe_lib env) (oe_resolver env) (ce_context ce) (ctp_context_schema q)
             change = Inr refs \<longrightarrow> set refs \<subseteq> U)))"

lemma files_boundedD:
  assumes "files_bounded env start U" "p \<in> snd ` set (oe_processors env)" "change \<in> changes_seen env start U"
  shows "c \<in> set (ctp_detectors p) \<Longrightarrow> detector_context_file_refs env c change = Inr refs \<Longrightarrow> set refs \<subseteq> U"
    and "ce \<in> set (ctp_expansions p) \<Longrightarrow> dict_get (oe_processors env) (ce_change_type ce) = Some q \<Longrightarrow>
      find_ownership_context (oe_lib env) (oe_resolver env) (ce_context ce) (ctp_context_schema q) change = Inr refs \<Longrightarrow>
      set refs \<subseteq> U"
proof -
  from assms(2) obtain k where "(k, p) \<in> set (oe_processors env)" by auto
  with assms(1,3) have *: "(\<forall>c \<in> set (ctp_detectors p). \<forall>refs.
           detector_context_file_refs env c change = Inr refs \<longrightarrow> set refs \<subseteq> U) \<and>
        (\<forall>ce \<in> set (ctp_expansions p). \<forall>q refs.
           dict_get (oe_processors env) (ce_change_type ce) = Some q \<longrightarrow>
           find_ownership_context (oe_lib env) (oe_resolver env) (ce_context ce) (ctp_context_schema q)
             change = Inr refs \<longrightarrow> set refs \<subseteq> U)"
    unfolding files_bounded_def by (drule_tac conjunct2, drule_tac conjunct2) (drule (1) bspec, simp)
  from * show "c \<in> set (ctp_detectors p) \<Longrightarrow> detector_context_file_refs env c change = Inr refs \<Longrightarrow> set refs \<subseteq> U"
    by (elim conjE) (drule (1) bspec, simp)
  from * show "ce \<in> set (ctp_expansions p) \<Longrightarrow> dict_get (oe_processors env) (ce_change_type ce) = Some q \<Longrightarrow>
      find_ownership_context (oe_lib env) (oe_resolver env) (ce_context ce) (ctp_context_schema q) change = Inr refs \<Longrightarrow>
      set refs \<subseteq> U"
    by (elim conjE, thin_tac "\<forall>c \<in> set (ctp_detectors p). _ c") simp
qed

lemma rmap_InlD: "rmap f xs = Inl e \<Longrightarrow> \<exists>x \<in> set xs. f x = Inl e"
  by (induction xs) (auto simp: result_simps)

lemma lift_raised_fuel [simp]: "lift_raised r \<noteq> Inl OutOfFuel"
  by (cases r) auto

lemma lift_raised_Inr [result_simps]: "lift_raised r = Inr x \<longleftrightarrow> r = Inr x"
  by (cases r) auto

lemma resolve_file_change_Inr:
  "resolve_file_change env ref = Inr ch \<Longrightarrow> fc_file_ref ch = ref"
  by (auto simp: resolve_file_change_def result_simps)

lemma resolve_file_change_fuel [simp]: "resolve_file_change env ref \<noteq> Inl OutOfFuel"
  by (auto simp: resolve_file_change_def result_simps)

lemma expand_out_of_fuel:
  assumes U: "files_bounded env start U" and seen: "change \<in> changes_seen env start U"
    and ce: "p \<in> snd ` set (oe_processors env)" "ce \<in> set (ctp_expansions p)"
    and out: "expand env recurse ce change trail = Inl OutOfFuel"
  shows "\<exists>q ch. q \<in> snd ` set (oe_processors env) \<and> ch \<in> changes_seen env start U \<and> recurse q ch trail = Inl OutOfFuel"
proof -
  from out obtain q refs ref where q: "map_of (oe_processors env) (ce_change_type ce) = Some q"
    and refs: "find_ownership_context (oe_lib env) (oe_resolver env) (ce_context ce) (ctp_context_schema q)
      change = Inr refs"
    and ref: "ref \<in> set refs" "rbind (resolve_file_change env ref) (\<lambda>ch. recurse q ch trail) = Inl OutOfFuel"
    by (auto simp: expand_def result_simps dest!: rmap_InlD)
  have "set refs \<subseteq> U" by (rule files_boundedD(2) [OF U ce(1) seen ce(2) q refs])
  moreover from ref(2) obtain ch where "resolve_file_change env ref = Inr ch" "recurse q ch trail = Inl OutOfFuel"
    by (auto simp: rbind_Inl_iff)
  moreover from q have "q \<in> snd ` set (oe_processors env)" by (force dest: map_of_SomeD)
  ultimately show ?thesis using ref(1) by (auto simp: changes_seen_def)
qed

lemma contexts_from_out_of_fuel:
  "contexts_from ctp ref f = Inl OutOfFuel \<Longrightarrow> \<exists>ce \<in> set (ctp_expansions ctp). f ce = Inl OutOfFuel"
  by (auto simp: contexts_from_def rbind_Inl_iff dest!: rmap_InlD)

lemma detector_fuel [simp]: "detector_context_file_refs env c change \<noteq> Inl OutOfFuel"
  by (auto simp: detector_context_file_refs_def split: option.splits)

lemma expand_from_out_of_fuel:
  "expand_from_file_ref env r ce ref t = Inl OutOfFuel \<Longrightarrow>
     \<exists>ch. resolve_file_change env ref = Inr ch \<and> expand env r ce ch t = Inl OutOfFuel"
  by (auto simp: expand_from_file_ref_def rbind_Inl_iff)

lemma step_out_of_fuel:
  assumes out: "find_context_step env r ctp change trail = Inl OutOfFuel"
    and U: "files_bounded env start U" and seen: "change \<in> changes_seen env start U"
    and ctp: "ctp \<in> snd ` set (oe_processors env)"
  shows "(ctp_name ctp, fc_file_ref change) \<notin> set trail"
    "\<exists>ce \<in> set (ctp_expansions ctp). \<exists>ch \<in> changes_seen env start U.
       expand env r ce ch ((ctp_name ctp, fc_file_ref change) # trail) = Inl OutOfFuel"
proof -
  let ?t = "(ctp_name ctp, fc_file_ref change) # trail"
  from out show "(ctp_name ctp, fc_file_ref change) \<notin> set trail"
    by (auto simp: find_context_step_def)
  with out consider
      (direct) "contexts_from ctp (fc_file_ref change) (\<lambda>ce. expand env r ce change ?t) = Inl OutOfFuel"
    | (detected) c refs ref where "c \<in> set (ctp_detectors ctp)" "detector_context_file_refs env c change = Inr refs"
        "ref \<in> set refs" "contexts_from ctp ref (\<lambda>ce. expand_from_file_ref env r ce ref ?t) = Inl OutOfFuel"
    by (auto simp: find_context_step_def Let_def rbind_Inl_iff split: if_splits dest!: rmap_InlD)
  then show "\<exists>ce \<in> set (ctp_expansions ctp). \<exists>ch \<in> changes_seen env start U. expand env r ce ch ?t = Inl OutOfFuel"
  proof cases
    case direct
    with seen show ?thesis by (blast dest: contexts_from_out_of_fuel)
  next
    case detected
    have "set refs \<subseteq> U" by (rule files_boundedD(1) [OF U ctp seen detected(1,2)])
    with detected(3,4) show ?thesis
      unfolding changes_seen_def by (blast dest: contexts_from_out_of_fuel expand_from_out_of_fuel)
  qed
qed

lemma find_context_out_of_fuel:
  assumes U: "files_bounded env start U"
  shows "ctp \<in> snd ` set (oe_processors env) \<Longrightarrow> change \<in> changes_seen env start U \<Longrightarrow>
    card (fst ` set (oe_processors env) \<times> U - set trail) < n \<Longrightarrow>
    find_context_file_refs env n ctp change trail \<noteq> Inl OutOfFuel"
proof (induction n arbitrary: ctp change trail)
  case (Suc n)
  let ?p = "(ctp_name ctp, fc_file_ref change)"
  let ?pairs = "fst ` set (oe_processors env) \<times> U"
  show ?case
  proof (rule notI)
    assume "find_context_file_refs env (Suc n) ctp change trail = Inl OutOfFuel"
    then have out: "find_context_step env (find_context_file_refs env n) ctp change trail = Inl OutOfFuel"
      by simp
    note step = step_out_of_fuel [OF out U Suc.prems(2,1)]
    from step(2) obtain ce ch where ce: "ce \<in> set (ctp_expansions ctp)" "ch \<in> changes_seen env start U"
      "expand env (find_context_file_refs env n) ce ch (?p # trail) = Inl OutOfFuel" by blast
    from expand_out_of_fuel [OF U ce(2) Suc.prems(1) ce(1,3)] obtain q ch' where
      q: "q \<in> snd ` set (oe_processors env)" "ch' \<in> changes_seen env start U"
        "find_context_file_refs env n q ch' (?p # trail) = Inl OutOfFuel" by blast
    from Suc.prems(1) obtain k where "(k, ctp) \<in> set (oe_processors env)" by auto
    then have "ctp_name ctp \<in> fst ` set (oe_processors env)"
      using U by (auto simp: files_bounded_def intro!: rev_image_eqI [of "(k, ctp)"])
    moreover have "fc_file_ref change \<in> U"
      using Suc.prems(2) U by (auto simp: changes_seen_def files_bounded_def dest: resolve_file_change_Inr)
    ultimately have "?p \<in> ?pairs - set trail" using step(1) by simp
    moreover have "finite (?pairs - set trail)" using U by (auto simp: files_bounded_def)
    ultimately have "card (?pairs - set (?p # trail)) < card (?pairs - set trail)"
      by (intro psubset_card_mono) auto
    with Suc.prems(3) have "card (?pairs - set (?p # trail)) < n" by simp
    with Suc.IH [OF q(1,2) this] q(3) show False by simp
  qed
qed simp

text \<open>Context resolution ends: where the ownership contexts of the change types only lead
  from the files of a finite set to files of that set, fuel for every pair of change type and file is enough, and
  more fuel changes nothing, however the compositions refer to each other.\<close>

theorem find_context_file_refs_terminates:
  assumes "files_bounded env change U" "ctp \<in> snd ` set (oe_processors env)"
    and fuel: "length (oe_processors env) * card U < fuel"
  shows "find_context_file_refs env fuel ctp change [] \<noteq> Inl OutOfFuel \<and>
    find_context_file_refs env (fuel + n) ctp change [] = find_context_file_refs env fuel ctp change []"
proof -
  have "card (fst ` set (oe_processors env)) \<le> length (oe_processors env)"
    by (metis card_image_le card_length le_trans List.finite_set)
  then have "card (fst ` set (oe_processors env)) * card U < fuel"
    using fuel by (meson le_less_trans mult_le_mono1)
  then have "card (fst ` set (oe_processors env) \<times> U - set []) < fuel"
    by (simp add: card_cartesian_product)
  then have "find_context_file_refs env fuel ctp change [] \<noteq> Inl OutOfFuel"
    by (intro find_context_out_of_fuel [OF assms(1,2)]) (simp_all add: changes_seen_def)
  then show ?thesis
    using find_context_file_refs_mono [of env fuel ctp change "[]" "fuel + n"] by simp
qed

end
