(* ===== verification/Change_Type_Init.thy ===== *)
theory Change_Type_Init
  imports Ownership
begin

text \<open>
  \<open>init_change_type_processors\<close> of \<open>reconcile/change_owners/change_types.py\<close>: processors
  from change type definitions, in the order of the code: raw processors, detectors and
  compositions, the check for inheritance cycles, the aggregation along inheritance.
  \<open>networkx\<close> is a parameter, the record \<open>graph_lib\<close>.
\<close>

section \<open>Definitions of change types\<close>

record context_selector_v1 =
  cs_selector :: string
  cs_when :: "string option"
  cs_where :: "string option"

datatype change_v1 =
  JsonPathProvider "string option" "string list" "context_selector_v1 option"
| ChangeTypeProvider "string list" context_selector_v1
| OtherProvider string

record change_type_v1 =
  ct_name :: string
  ct_labels :: json
  ct_priority :: string
  ct_context_type :: string
  ct_context_schema :: "string option"
  ct_disabled :: "bool option"
  ct_restrictive :: "bool option"
  ct_changes :: "change_v1 list"
  ct_implicit_ownership :: "implicit_ownership list option"
  ct_inherit :: "string list option"

record graph_lib =
  gr_cycles :: "string list \<Rightarrow> (string \<times> string) list \<Rightarrow> string list list"
  gr_descendants :: "string list \<Rightarrow> (string \<times> string) list \<Rightarrow> string \<Rightarrow> string list"

section \<open>Operations on processors\<close>

fun str_or :: "string option \<Rightarrow> string option \<Rightarrow> string option" where
  \<comment> \<open>\<open>a or b\<close> on optional strings: the empty string is false\<close>
  "str_or None b = b"
| "str_or (Some []) b = b"
| "str_or (Some s) b = Some s"

definition add_change_detector :: "change_type_processor \<Rightarrow> change_detector \<Rightarrow> change_type_processor" where
  "add_change_detector ctp det =
     (let key = (ctp_context_type ctp, str_or (cdet_change_schema det) (ctp_context_schema ctp));
          known = (case dict_get (ctp_expressions ctp) key of None \<Rightarrow> [] | Some es \<Rightarrow> es)
      in ctp\<lparr>ctp_detectors := ctp_detectors ctp @ [det],
             ctp_expressions := dict_set (ctp_expressions ctp) key (add_all known (cdet_expressions det))\<rparr>)"

definition add_context_expansion :: "change_type_processor \<Rightarrow> context_expansion \<Rightarrow> change_type_processor" where
  "add_context_expansion ctp ce = ctp\<lparr>ctp_expansions := ctp_expansions ctp @ [ce]\<rparr>"

definition lineage :: "change_type_processor \<Rightarrow> string list" where
  "lineage ctp = add_if_absent (ctp_heritage ctp) (ctp_name ctp)"

definition inherit_from ::
  "change_type_processor \<Rightarrow> change_type_processor \<Rightarrow> change_type_processor \<times> change_type_processor" where
  \<comment> \<open>the heir, and the change type it inherits from\<close>
  "inherit_from ctp other =
     (let ctp' = foldl add_change_detector ctp (ctp_detectors other)
      in (ctp', other\<lparr>ctp_heritage := add_all (lineage ctp') (ctp_heritage other)\<rparr>))"

section \<open>Building the processors\<close>

type_synonym processors = "(string, change_type_processor) dict"

definition priority_of_value :: "string \<Rightarrow> string + change_type_priority" where
  "priority_of_value v =
     (if v = ''critical'' then Inr CRITICAL
      else if v = ''urgent'' then Inr URGENT
      else if v = ''high'' then Inr HIGH
      else if v = ''progressive-delivery'' then Inr PROGRESSIVE_DELIVERY
      else if v = ''medium'' then Inr MEDIUM
      else if v = ''low'' then Inr LOW
      else Inl ''ValueError'')"

definition upper_char :: "char \<Rightarrow> char" where
  "upper_char c = (if 97 \<le> (of_char c :: nat) \<and> (of_char c :: nat) \<le> 122 then char_of (of_char c - 32 :: nat) else c)"

definition file_type_of_name :: "string \<Rightarrow> string + bundle_file_type" where
  "file_type_of_name n =
     (if n = ''DATAFILE'' then Inr DATAFILE else if n = ''RESOURCEFILE'' then Inr RESOURCEFILE
      else Inl ''KeyError'')"

definition raw_processor :: "change_type_v1 \<Rightarrow> string + change_type_processor" where
  "raw_processor ct =
     rbind (priority_of_value (ct_priority ct)) (\<lambda>priority.
     rbind (file_type_of_name (map upper_char (ct_context_type ct))) (\<lambda>file_type.
       Inr \<lparr>ctp_name = ct_name ct, ctp_labels = ct_labels ct, ctp_priority = priority,
            ctp_context_type = file_type, ctp_context_schema = ct_context_schema ct,
            ctp_disabled = (ct_disabled ct = Some True),
            ctp_implicit_ownership = (case ct_implicit_ownership ct of None \<Rightarrow> [] | Some ios \<Rightarrow> ios),
            ctp_restrictive = (ct_restrictive ct = Some True),
            ctp_expressions = [], ctp_detectors = [], ctp_expansions = [], ctp_heritage = []\<rparr>))"

definition inheritance_edges :: "change_type_v1 list \<Rightarrow> (string \<times> string) list" where
  "inheritance_edges cts =
     [(ct_name ct, i). ct \<leftarrow> cts, i \<leftarrow> (case ct_inherit ct of None \<Rightarrow> [] | Some is \<Rightarrow> is)]"

definition parse_context ::
  "jsonpath_lib \<Rightarrow> context_selector_v1 \<Rightarrow> string + ownership_context" where
  "parse_context lib cs =
     rbind (of_opt ''unparsable JSONPath'' (jl_parse lib (cs_selector cs))) (\<lambda>sel.
       Inr (build_ownership_context sel (cs_when cs) (cs_where cs)))"

fun register_change ::
  "jsonpath_lib \<Rightarrow> jinja_lib \<Rightarrow> string \<Rightarrow> processors \<Rightarrow> change_v1 \<Rightarrow> string + processors" where
  "register_change lib jj name ps (JsonPathProvider change_schema selectors cs) =
     rbind (of_opt ''KeyError'' (dict_get ps name)) (\<lambda>ctp.
     rbind (case cs of None \<Rightarrow> Inr None
            | Some c \<Rightarrow> rbind (parse_context lib c) (\<lambda>oc. Inr (Some oc))) (\<lambda>oc.
     rbind (rmap (make_path_expression lib jj) selectors) (\<lambda>exprs.
       Inr (dict_set ps name (add_change_detector ctp
         \<lparr>cdet_context_schema = ctp_context_schema ctp,
          cdet_change_schema = str_or change_schema (ctp_context_schema ctp),
          cdet_context = oc, cdet_expressions = exprs\<rparr>)))))"
| "register_change lib jj name ps (ChangeTypeProvider change_types cs) =
     rfold (\<lambda>ps ct.
         rbind (of_opt ''KeyError'' (dict_get ps ct)) (\<lambda>ctp.
         rbind (parse_context lib cs) (\<lambda>oc.
           Inr (dict_set ps ct (add_context_expansion ctp \<lparr>ce_context = oc, ce_change_type = name\<rparr>)))))
       ps change_types"
| "register_change lib jj name ps (OtherProvider _) = Inr ps"

definition register_changes ::
  "jsonpath_lib \<Rightarrow> jinja_lib \<Rightarrow> change_type_v1 list \<Rightarrow> processors \<Rightarrow> string + processors" where
  "register_changes lib jj cts ps =
     rfold (\<lambda>ps ct. rfold (register_change lib jj (ct_name ct)) ps (ct_changes ct)) ps cts"

definition aggregate_step :: "string \<Rightarrow> processors \<Rightarrow> string \<Rightarrow> string + processors" where
  "aggregate_step name ps d =
     rbind (of_opt ''KeyError'' (dict_get ps name)) (\<lambda>ctp.
     rbind (of_opt ''KeyError'' (dict_get ps d)) (\<lambda>other.
     rbind (guard_err (ctp_context_type ctp \<noteq> ctp_context_type other)
              ''ChangeTypeIncompatibleInheritanceError: context_type'') (\<lambda>_.
     rbind (guard_err (ctp_context_schema ctp \<noteq> ctp_context_schema other)
              ''ChangeTypeIncompatibleInheritanceError: context_schema'') (\<lambda>_.
       case inherit_from ctp other of (ctp', other') \<Rightarrow>
         Inr (dict_set (dict_set ps name ctp') d
                (foldl add_context_expansion other' (ctp_expansions ctp')))))))"

definition aggregate :: "(string \<Rightarrow> string list) \<Rightarrow> processors \<Rightarrow> string + processors" where
  "aggregate descendants ps =
     rfold (\<lambda>ps name. rfold (aggregate_step name) ps (descendants name)) ps (dict_keys ps)"

definition init_change_type_processors ::
  "jsonpath_lib \<Rightarrow> jinja_lib \<Rightarrow> graph_lib \<Rightarrow> change_type_v1 list \<Rightarrow> string + processors" where
  "init_change_type_processors lib jj gr cts =
     rbind (rmap raw_processor cts) (\<lambda>raws.
     let nodes = map ct_name cts; edges = inheritance_edges cts
     in rbind (register_changes lib jj cts (dict_of (map (\<lambda>p. (ctp_name p, p)) raws))) (\<lambda>ps.
        rbind (guard_err (gr_cycles gr nodes edges \<noteq> []) ''ChangeTypeCycleError'') (\<lambda>_.
          aggregate (gr_descendants gr nodes edges) ps)))"

section \<open>Inheritance is complete\<close>

definition detectors_of :: "processors \<Rightarrow> string \<Rightarrow> change_detector set" where
  "detectors_of ps n = (case map_of ps n of None \<Rightarrow> {} | Some p \<Rightarrow> set (ctp_detectors p))"

definition heritage_of :: "processors \<Rightarrow> string \<Rightarrow> string set" where
  "heritage_of ps n = (case map_of ps n of None \<Rightarrow> {} | Some p \<Rightarrow> set (ctp_heritage p))"

definition expansions_of :: "processors \<Rightarrow> string \<Rightarrow> context_expansion set" where
  "expansions_of ps n = (case map_of ps n of None \<Rightarrow> {} | Some p \<Rightarrow> set (ctp_expansions p))"

definition named_by_key :: "processors \<Rightarrow> bool" where
  "named_by_key ps \<longleftrightarrow> (\<forall>n p. map_of ps n = Some p \<longrightarrow> ctp_name p = n)"

lemmas view_defs = detectors_of_def heritage_of_def expansions_of_def

lemma fold_detectors:
  "ctp_detectors (foldl add_change_detector p ds) = ctp_detectors p @ ds"
  "ctp_heritage (foldl add_change_detector p ds) = ctp_heritage p"
  "ctp_expansions (foldl add_change_detector p ds) = ctp_expansions p"
  "ctp_name (foldl add_change_detector p ds) = ctp_name p"
  by (induction ds arbitrary: p) (auto simp: add_change_detector_def Let_def)

lemma fold_expansions:
  "ctp_expansions (foldl add_context_expansion p ces) = ctp_expansions p @ ces"
  "ctp_detectors (foldl add_context_expansion p ces) = ctp_detectors p"
  "ctp_heritage (foldl add_context_expansion p ces) = ctp_heritage p"
  "ctp_name (foldl add_context_expansion p ces) = ctp_name p"
  by (induction ces arbitrary: p) (auto simp: add_context_expansion_def)

lemma set_lineage: "set (lineage p) = insert (ctp_name p) (set (ctp_heritage p))"
  by (auto simp: lineage_def add_if_absent_def)

lemma aggregate_step_views:
  assumes step: "aggregate_step n ps d = Inr ps'" and "n \<noteq> d" and named: "named_by_key ps"
  shows "named_by_key ps'" and "dom (map_of ps') = dom (map_of ps)"
    and "detectors_of ps' = (detectors_of ps)(n := detectors_of ps n \<union> detectors_of ps d)"
    and "heritage_of ps' = (heritage_of ps)(d := insert n (heritage_of ps n) \<union> heritage_of ps d)"
    and "expansions_of ps' = (expansions_of ps)(d := expansions_of ps d \<union> expansions_of ps n)"
proof -
  from step obtain p q where pq: "map_of ps n = Some p" "map_of ps d = Some q"
    and ps': "ps' = dict_set (dict_set ps n (fst (inherit_from p q))) d
       (foldl add_context_expansion (snd (inherit_from p q)) (ctp_expansions (fst (inherit_from p q))))"
    by (auto simp: aggregate_step_def result_simps split_def)
  from named pq have nm: "ctp_name p = n" "ctp_name q = d" by (auto simp: named_by_key_def)
  note simps = ps' inherit_from_def Let_def fold_detectors fold_expansions set_lineage map_of_dict_set
  from named nm pq show "named_by_key ps'" by (auto simp: named_by_key_def simps)
  show "dom (map_of ps') = dom (map_of ps)" using pq by (auto simp: simps)
  show "detectors_of ps' = (detectors_of ps)(n := detectors_of ps n \<union> detectors_of ps d)"
    using pq \<open>n \<noteq> d\<close> by (auto simp: simps view_defs fun_eq_iff)
  show "heritage_of ps' = (heritage_of ps)(d := insert n (heritage_of ps n) \<union> heritage_of ps d)"
    using pq \<open>n \<noteq> d\<close> nm by (auto simp: simps view_defs fun_eq_iff)
  show "expansions_of ps' = (expansions_of ps)(d := expansions_of ps d \<union> expansions_of ps n)"
    using pq \<open>n \<noteq> d\<close> by (auto simp: simps view_defs fun_eq_iff)
qed

text \<open>What holds all along, and what one pair of heir and ancestor establishes for good.\<close>

definition within_inheritance :: "(string \<times> string) set \<Rightarrow> processors \<Rightarrow> processors \<Rightarrow> bool" where
  "within_inheritance E ps0 ps \<longleftrightarrow> named_by_key ps \<and> dom (map_of ps) = dom (map_of ps0) \<and>
     (\<forall>n. detectors_of ps0 n \<subseteq> detectors_of ps n \<and>
          detectors_of ps n \<subseteq> detectors_of ps0 n \<union> (\<Union>d \<in> {d. (n, d) \<in> E\<^sup>+}. detectors_of ps0 d) \<and>
          heritage_of ps0 n \<subseteq> heritage_of ps n \<and>
          heritage_of ps n \<subseteq> heritage_of ps0 n \<union> {a. (a, n) \<in> E\<^sup>+} \<and>
          expansions_of ps0 n \<subseteq> expansions_of ps n \<and>
          expansions_of ps n \<subseteq> expansions_of ps0 n \<union> (\<Union>a \<in> {a. (a, n) \<in> E\<^sup>+}. expansions_of ps0 a))"

definition inherited :: "processors \<Rightarrow> string \<Rightarrow> processors \<Rightarrow> string \<Rightarrow> bool" where
  "inherited ps0 n ps d \<longleftrightarrow> detectors_of ps0 d \<subseteq> detectors_of ps n \<and> n \<in> heritage_of ps d \<and>
     expansions_of ps0 n \<subseteq> expansions_of ps d"

lemma aggregate_step_inherits:
  assumes inv: "within_inheritance E ps0 ps" and empty: "\<And>n. heritage_of ps0 n = {}"
    and step: "aggregate_step n ps d = Inr ps'" and nd: "(n, d) \<in> E\<^sup>+" "n \<noteq> d"
  shows "within_inheritance E ps0 ps' \<and> inherited ps0 n ps' d \<and>
    (\<forall>a b. inherited ps0 a ps b \<longrightarrow> inherited ps0 a ps' b)"
proof -
  have named: "named_by_key ps" using inv by (simp add: within_inheritance_def)
  note views = aggregate_step_views [OF step nd(2) named]
  have upper: "detectors_of ps n \<subseteq> detectors_of ps0 n \<union> (\<Union>d \<in> {d. (n, d) \<in> E\<^sup>+}. detectors_of ps0 d)"
    "heritage_of ps n \<subseteq> {a. (a, n) \<in> E\<^sup>+}"
    "expansions_of ps n \<subseteq> expansions_of ps0 n \<union> (\<Union>a \<in> {a. (a, n) \<in> E\<^sup>+}. expansions_of ps0 a)" for n
    using inv by (simp_all add: within_inheritance_def empty)
  have low: "detectors_of ps0 n \<subseteq> detectors_of ps n" "expansions_of ps0 n \<subseteq> expansions_of ps n" for n
    using inv by (auto simp: within_inheritance_def)
  have "within_inheritance E ps0 ps'"
    unfolding within_inheritance_def
  proof (intro conjI allI)
    show "named_by_key ps'" "dom (map_of ps') = dom (map_of ps0)"
      using views(1,2) inv by (simp_all add: within_inheritance_def)
    fix m
    show "detectors_of ps0 m \<subseteq> detectors_of ps' m" "expansions_of ps0 m \<subseteq> expansions_of ps' m"
      "heritage_of ps0 m \<subseteq> heritage_of ps' m"
      using low [of m] by (auto simp: views empty)
    show "detectors_of ps' m \<subseteq> detectors_of ps0 m \<union> (\<Union>d \<in> {d. (m, d) \<in> E\<^sup>+}. detectors_of ps0 d)"
      using upper(1) [of m] upper(1) [of d] nd(1)
      by (cases "m = n") (simp_all add: views(3), blast intro: trancl_trans)
    show "heritage_of ps' m \<subseteq> heritage_of ps0 m \<union> {a. (a, m) \<in> E\<^sup>+}"
      using upper(2) [of m] upper(2) [of n] nd(1) by (auto simp: views(4) empty dest: trancl_trans)
    show "expansions_of ps' m \<subseteq> expansions_of ps0 m \<union> (\<Union>a \<in> {a. (a, m) \<in> E\<^sup>+}. expansions_of ps0 a)"
      using upper(3) [of m] upper(3) [of n] nd(1)
      by (cases "m = d") (simp_all add: views(5), blast intro: trancl_trans)
  qed
  moreover have "inherited ps0 n ps' d"
    using low nd(2) by (auto simp: inherited_def views)
  moreover have "\<forall>a b. inherited ps0 a ps b \<longrightarrow> inherited ps0 a ps' b"
    by (auto simp: inherited_def views)
  ultimately show ?thesis by blast
qed

lemma aggregate_inherits:
  assumes agg: "aggregate desc ps0 = Inr ps" and empty: "\<And>n. heritage_of ps0 n = {}"
    and named: "named_by_key ps0" and desc: "\<And>n. set (desc n) = {d. (n, d) \<in> E\<^sup>+}" and acyclic: "acyclic E"
  shows "within_inheritance E ps0 ps \<and>
    (\<forall>n \<in> dom (map_of ps0). \<forall>d. (n, d) \<in> E\<^sup>+ \<longrightarrow> inherited ps0 n ps d)"
proof -
  have start: "within_inheritance E ps0 ps0" by (simp add: within_inheritance_def named empty)
  have inner: "within_inheritance E ps0 t \<and> (\<forall>d \<in> set (desc n). inherited ps0 n t d) \<and>
      (\<forall>a b. inherited ps0 a s b \<longrightarrow> inherited ps0 a t b)"
    if "rfold (aggregate_step n) s (desc n) = Inr t" "within_inheritance E ps0 s" for n s t
  proof -
    let ?P = "\<lambda>u. within_inheritance E ps0 u \<and> (\<forall>a b. inherited ps0 a s b \<longrightarrow> inherited ps0 a u b)"
    have step: "?P v \<and> inherited ps0 n v d \<and> (\<forall>y. inherited ps0 n u y \<longrightarrow> inherited ps0 n v y)"
      if "d \<in> set (desc n)" "?P u" "aggregate_step n u d = Inr v" for u d v
    proof -
      from that(1) acyclic have "(n, d) \<in> E\<^sup>+" "n \<noteq> d" by (auto simp: desc acyclic_def)
      from aggregate_step_inherits [OF conjunct1 [OF that(2)] empty that(3) this] that(2)
      show ?thesis by blast
    qed
    have "?P s" using that(2) by blast
    from rfold_establishes [where P = ?P and Q = "\<lambda>d u. inherited ps0 n u d", OF that(1) this step]
    show ?thesis by blast
  qed
  have "within_inheritance E ps0 ps \<and>
      (\<forall>n. (\<forall>d \<in> set (desc n). inherited ps0 n ps0 d) \<longrightarrow> (\<forall>d \<in> set (desc n). inherited ps0 n ps d)) \<and>
      (\<forall>n \<in> set (dict_keys ps0). \<forall>d \<in> set (desc n). inherited ps0 n ps d)"
    by (rule rfold_establishes [where P = "within_inheritance E ps0" and
          Q = "\<lambda>n u. \<forall>d \<in> set (desc n). inherited ps0 n u d", OF agg [unfolded aggregate_def] start])
      (use inner in blast)
  then show ?thesis by (auto simp: desc dom_map_of_conv_image_fst)
qed

section \<open>The registered processors\<close>

lemma register_changes_frame:
  assumes "register_changes lib jj cts ps = Inr ps'"
  shows "dom (map_of ps') = dom (map_of ps)" "named_by_key ps \<Longrightarrow> named_by_key ps'"
    "heritage_of ps' = heritage_of ps"
proof -
  let ?F = "\<lambda>t. dom (map_of t) = dom (map_of ps) \<and> (named_by_key ps \<longrightarrow> named_by_key t) \<and>
      heritage_of t = heritage_of ps"
  have upd: "?F (dict_set t n q)"
    if "?F t" "map_of t n = Some p" "ctp_name q = ctp_name p" "ctp_heritage q = ctp_heritage p" for t n p q
  proof (intro conjI impI)
    have "heritage_of (dict_set t n q) = heritage_of t"
      by (rule ext) (simp add: map_of_dict_set heritage_of_def that(2,4))
    with that(1) show "heritage_of (dict_set t n q) = heritage_of ps" by simp
    have "dom (map_of (dict_set t n q)) = dom (map_of t)"
      using that(2) by (auto simp: map_of_dict_set)
    with that(1) show "dom (map_of (dict_set t n q)) = dom (map_of ps)" by simp
    assume "named_by_key ps"
    with that show "named_by_key (dict_set t n q)"
      unfolding named_by_key_def map_of_dict_set by (metis fun_upd_apply option.inject)
  qed
  have change: "?F v" if "?F u" "register_change lib jj n u c = Inr v" for n u v c
  proof (cases c)
    case (JsonPathProvider sch sels cs)
    with that(2) obtain p q where "map_of u n = Some p" "v = dict_set u n (add_change_detector p q)"
      by (auto simp: result_simps)
    then show ?thesis
      using upd [OF that(1), of n p "add_change_detector p q"] by (simp add: add_change_detector_def Let_def)
  next
    case (ChangeTypeProvider names cs)
    have one: "?F v" if F: "?F u" and st: "rbind (of_opt ''KeyError'' (dict_get u ct)) (\<lambda>ctp.
         rbind (parse_context lib cs) (\<lambda>oc.
           Inr (dict_set u ct (add_context_expansion ctp \<lparr>ce_context = oc, ce_change_type = n\<rparr>)))) = Inr v"
      for u v ct
    proof -
      from st obtain p ce where "map_of u ct = Some p" "v = dict_set u ct (add_context_expansion p ce)"
        by (auto simp: result_simps)
      then show ?thesis
        using upd [OF F, of ct p "add_context_expansion p ce"] by (simp add: add_context_expansion_def)
    qed
    from that(2) show ?thesis
      unfolding ChangeTypeProvider register_change.simps
      by (rule rfold_invariant [where P = ?F]) (use that(1) one in blast)+
  qed (use that in simp)
  have "?F ps'"
    by (rule rfold_invariant [where P = ?F, OF assms [unfolded register_changes_def]])
      (simp, rule rfold_invariant [where P = ?F], assumption, assumption, rule change)
  then show "dom (map_of ps') = dom (map_of ps)" "named_by_key ps \<Longrightarrow> named_by_key ps'"
    "heritage_of ps' = heritage_of ps" by auto
qed

lemma raw_processor_frame:
  assumes "rmap raw_processor cts = Inr raws"
  shows "map ctp_name raws = map ct_name cts" "p \<in> set raws \<Longrightarrow> ctp_heritage p = []"
proof -
  have raw: "ctp_name p = ct_name ct \<and> ctp_heritage p = []" if "raw_processor ct = Inr p" for ct p
    using that by (auto simp: raw_processor_def result_simps)
  from assms have all: "list_all2 (\<lambda>ct p. raw_processor ct = Inr p) cts raws"
    by (simp add: rmap_Inr_list_all2)
  then show "map ctp_name raws = map ct_name cts"
    by (induction rule: list_all2_induct) (auto dest: raw)
  from all show "p \<in> set raws \<Longrightarrow> ctp_heritage p = []"
    by (induction rule: list_all2_induct) (auto dest: raw)
qed

text \<open>What \<open>networkx\<close> documents of the two functions the code calls.\<close>

definition networkx_like :: "graph_lib \<Rightarrow> bool" where
  "networkx_like gr \<longleftrightarrow>
     (\<forall>nodes edges. gr_cycles gr nodes edges = [] \<longleftrightarrow> acyclic (set edges)) \<and>
     (\<forall>nodes edges n. set (gr_descendants gr nodes edges n) = {d. (n, d) \<in> (set edges)\<^sup>+} - {n})"

text \<open>C26. Inheritance is transitive and complete, whatever the order of the definitions: a change
  type ends up with exactly its own detectors and those of everything it inherits from, its lineage
  with exactly the change types that inherit from it, and it takes over exactly their compositions.\<close>

theorem init_inheritance_complete:
  assumes nx: "networkx_like gr"
    and init: "init_change_type_processors lib jj gr cts = Inr ps"
  shows "\<exists>raws regs. rmap raw_processor cts = Inr raws \<and>
    register_changes lib jj cts (dict_of (map (\<lambda>p. (ctp_name p, p)) raws)) = Inr regs \<and>
    (\<forall>n \<in> set (map ct_name cts).
       let above = {a. (a, n) \<in> (set (inheritance_edges cts))\<^sup>+};
           below = {d. (n, d) \<in> (set (inheritance_edges cts))\<^sup>+}
       in detectors_of ps n = detectors_of regs n \<union> (\<Union>d \<in> below. detectors_of regs d) \<and>
          heritage_of ps n = above \<and>
          expansions_of ps n = expansions_of regs n \<union> (\<Union>a \<in> above. expansions_of regs a))"
proof -
  let ?E = "set (inheritance_edges cts)"
  from init obtain raws regs where raws: "rmap raw_processor cts = Inr raws"
    and regs: "register_changes lib jj cts (dict_of (map (\<lambda>p. (ctp_name p, p)) raws)) = Inr regs"
    and nc: "gr_cycles gr (map ct_name cts) (inheritance_edges cts) = []"
    and agg: "aggregate (gr_descendants gr (map ct_name cts) (inheritance_edges cts)) regs = Inr ps"
    by (auto simp: init_change_type_processors_def result_simps Let_def)
  from nx nc have ac: "acyclic ?E" by (simp add: networkx_like_def)
  then have "(n, n) \<notin> ?E\<^sup>+" for n by (simp add: acyclic_def)
  then have desc: "set (gr_descendants gr (map ct_name cts) (inheritance_edges cts) n) = {d. (n, d) \<in> ?E\<^sup>+}" for n
    using nx by (auto simp: networkx_like_def)
  let ?raw = "dict_of (map (\<lambda>p. (ctp_name p, p)) raws)"
  have raw_mem: "map_of ?raw k = Some v \<Longrightarrow> v \<in> set raws \<and> ctp_name v = k" for k v
    by (rule dict_of_keyed_mem)
  have "named_by_key ?raw" using raw_mem by (auto simp: named_by_key_def)
  then have named: "named_by_key regs" by (rule register_changes_frame(2) [OF regs])
  have her: "heritage_of regs n = {}" for n
    unfolding register_changes_frame(3) [OF regs]
    using raw_mem [of n] raw_processor_frame(2) [OF raws] by (cases "map_of ?raw n") (auto simp: heritage_of_def)
  have "dom (map_of ?raw) = set (map ctp_name raws)"
    by (simp add: dom_map_of_conv_image_fst keys_dict_of image_image)
  then have dom: "dom (map_of regs) = set (map ct_name cts)"
    unfolding register_changes_frame(1) [OF regs] raw_processor_frame(1) [OF raws] .
  from aggregate_inherits [OF agg her named desc ac] have within: "within_inheritance ?E regs ps"
    and inh: "\<And>n d. n \<in> set (map ct_name cts) \<Longrightarrow> (n, d) \<in> ?E\<^sup>+ \<Longrightarrow> inherited regs n ps d"
    by (auto simp: dom)
  have above: "a \<in> set (map ct_name cts)" if "(a, n) \<in> ?E\<^sup>+" for a n
    using that by (rule converse_tranclE) (auto simp: inheritance_edges_def)
  have "detectors_of ps n = detectors_of regs n \<union> (\<Union>d \<in> {d. (n, d) \<in> ?E\<^sup>+}. detectors_of regs d) \<and>
      heritage_of ps n = {a. (a, n) \<in> ?E\<^sup>+} \<and>
      expansions_of ps n = expansions_of regs n \<union> (\<Union>a \<in> {a. (a, n) \<in> ?E\<^sup>+}. expansions_of regs a)"
    if n: "n \<in> set (map ct_name cts)" for n
  proof -
    from within have upper: "detectors_of regs n \<subseteq> detectors_of ps n"
        "detectors_of ps n \<subseteq> detectors_of regs n \<union> (\<Union>d \<in> {d. (n, d) \<in> ?E\<^sup>+}. detectors_of regs d)"
        "heritage_of ps n \<subseteq> {a. (a, n) \<in> ?E\<^sup>+}" "expansions_of regs n \<subseteq> expansions_of ps n"
        "expansions_of ps n \<subseteq> expansions_of regs n \<union> (\<Union>a \<in> {a. (a, n) \<in> ?E\<^sup>+}. expansions_of regs a)"
      by (simp_all add: within_inheritance_def her)
    have "d \<in> {d. (n, d) \<in> ?E\<^sup>+} \<Longrightarrow> detectors_of regs d \<subseteq> detectors_of ps n" for d
      using inh [OF n] by (auto simp: inherited_def)
    moreover have "a \<in> {a. (a, n) \<in> ?E\<^sup>+} \<Longrightarrow> a \<in> heritage_of ps n \<and> expansions_of regs a \<subseteq> expansions_of ps n" for a
      using inh [OF above] by (auto simp: inherited_def)
    ultimately show ?thesis using upper by blast
  qed
  with raws regs show ?thesis by (auto simp: Let_def)
qed

end
