(* ===== verification/Coverage_Laws.thy ===== *)
theory Coverage_Laws
  imports Bundle_Changes
begin

text \<open>
  What the coverage of a changed file means: a change type context only ever covers differences at
  or under a path the change type allows in that context, and a file counts as covered only if every
  difference of it is. The second half has a gap for changes without a difference.
\<close>

section \<open>Paths as the library returns them\<close>

fun plain_part :: "jsonpath \<Rightarrow> bool" where
  "plain_part Root = False"
| "plain_part This = False"
| "plain_part (Child _ _) = False"
| "plain_part _ = True"

definition plain_path :: "jsonpath \<Rightarrow> bool" where
  "plain_path p \<longleftrightarrow>
     (case jsonpath_parts False False p of [] \<Rightarrow> False | x # xs \<Rightarrow> x \<noteq> This \<and> list_all plain_part xs)"

text \<open>The full path of a match is built from the root by plain steps: \<open>jsonpath_ng\<close> drops
  \<open>$\<close> and \<open>this\<close> when it composes paths.\<close>

definition plain_full_paths :: "jsonpath_lib \<Rightarrow> bool" where
  "plain_full_paths lib \<longleftrightarrow> (\<forall>p content q. q \<in> set (jl_full_paths lib p content) \<longrightarrow> plain_path q)"

lemma jsonpath_parts_cases:
  obtains x xs where "jsonpath_parts False False p = x # xs"
    "jsonpath_parts False True p = (if x = Root then xs else x # xs)" "\<And>l r. x \<noteq> Child l r"
proof -
  have "\<exists>x xs. jsonpath_parts_acc False False p ys = x # xs \<and> (\<forall>l r. x \<noteq> Child l r) \<and>
      jsonpath_parts_acc False True p ys = (if x = Root then xs else x # xs)" for ys
    by (induction p arbitrary: ys) auto
  from this [of "[]"] show thesis using that unfolding jsonpath_parts_def by metis
qed

lemma parts_of_plain_part [simp]: "plain_part r \<Longrightarrow> jsonpath_parts False True r = [r]"
  by (cases r) (auto simp: jsonpath_parts_def)

lemma parts_join_for_display:
  assumes "list_all plain_part xs" "acc \<noteq> This"
  shows "jsonpath_parts False True (foldl join_for_display acc xs) = jsonpath_parts False True acc @ xs"
  using assms
proof (induction xs arbitrary: acc)
  case (Cons r xs)
  then have r: "r \<noteq> This" "r \<noteq> Root" "plain_part r" by auto
  have "jsonpath_parts False True (join_for_display acc r) = jsonpath_parts False True acc @ [r]"
    using r Cons.prems(2) by (auto simp: jsonpath_parts_Child) (simp add: jsonpath_parts_def)
  moreover have "join_for_display acc r \<noteq> This" using r Cons.prems(2) by auto
  ultimately show ?case using Cons by (simp del: join_for_display.simps)
qed simp

lemma parts_normalize:
  assumes "plain_path p"
  shows "jsonpath_parts False True (normalize_for_display p) = jsonpath_parts False True p"
proof -
  obtain x xs where x: "jsonpath_parts False False p = x # xs"
    "jsonpath_parts False True p = (if x = Root then xs else x # xs)" "\<And>l r. x \<noteq> Child l r"
    by (rule jsonpath_parts_cases [of p]) blast
  have "jsonpath_parts False True x = (if x = Root then [] else [x])"
    using x(3) by (cases x) (auto simp: jsonpath_parts_def)
  with assms x show ?thesis
    by (auto simp: normalize_for_display_def plain_path_def parts_join_for_display)
qed

lemma parts_eq_prefix: "jsonpath_parts False True p = jsonpath_parts False True q \<Longrightarrow> is_prefix_of p q"
  by (simp add: is_prefix_of_iff)

lemma create_subdiff_parts:
  assumes "create_subdiff lib d p = Inr d'" "plain_path p"
  shows "jsonpath_parts False True (d_path d') = jsonpath_parts False True p"
  using assms
  by (auto simp: create_subdiff_def make_diff_def result_simps parts_normalize split: if_splits)

section \<open>Justified coverage\<close>

fun justified :: "(change_type_context \<Rightarrow> jsonpath \<Rightarrow> bool) \<Rightarrow> diff_coverage \<Rightarrow> bool" where
  "justified J (DiffCoverage d cov splits) \<longleftrightarrow>
     (\<forall>c \<in> set cov. J c (d_path d)) \<and>
     (\<forall>s \<in> set splits. is_prefix_of (d_path d) (d_path (dc_diff s)) \<and> justified J s)"

definition closed_under :: "(change_type_context \<Rightarrow> jsonpath \<Rightarrow> bool) \<Rightarrow> bool" where
  "closed_under J \<longleftrightarrow> (\<forall>c p q. J c p \<longrightarrow> is_prefix_of p q \<longrightarrow> J c q)"

lemma closed_underD: "closed_under J \<Longrightarrow> J c p \<Longrightarrow> is_prefix_of p q \<Longrightarrow> J c q"
  by (auto simp: closed_under_def)

lemma dc_diff_add_covering [simp]: "dc_diff (add_covering_context ctx dc) = dc_diff dc"
  by (cases dc) simp

lemma justified_add_covering:
  assumes "closed_under J"
  shows "justified J dc \<Longrightarrow> J ctx (d_path (dc_diff dc)) \<Longrightarrow> justified J (add_covering_context ctx dc)"
proof (induction dc)
  case (DiffCoverage d cov splits)
  then show ?case by (auto intro: closed_underD [OF assms])
qed

lemma justified_new_split:
  assumes J: "closed_under J" and dc: "justified J dc" and p: "plain_path path" "J ctx path"
    and under: "path_under_changed_path dc path" and new: "new_split lib dc path ctx = Inr (dc', d')"
  shows "justified J dc' \<and> dc_diff dc' = dc_diff dc"
proof -
  obtain d cov splits where [simp]: "dc = DiffCoverage d cov splits" by (cases dc)
  let ?under = "\<lambda>s. path_under_changed_path (DiffCoverage d' [] []) (d_path (dc_diff s))"
  let ?sub = "DiffCoverage d' cov (filter ?under splits)"
  from new have sub: "create_subdiff lib d path = Inr d'"
    and dc': "dc' = DiffCoverage d cov (add_covering_context ctx ?sub # filter (\<lambda>s. \<not> ?under s) splits)"
    by (auto simp: new_split_def result_simps Let_def)
  have parts: "jsonpath_parts False True (d_path d') = jsonpath_parts False True path"
    by (rule create_subdiff_parts [OF sub p(1)])
  from under have pre: "is_prefix_of (d_path d) (d_path d')"
    by (simp add: path_under_changed_path_def is_prefix_of_iff parts)
  have "justified J ?sub"
    using dc by (auto simp: path_under_changed_path_def intro: closed_underD [OF J] pre)
  moreover have "J ctx (d_path d')"
    using p(2) parts_eq_prefix [OF parts [symmetric]] by (rule closed_underD [OF J])
  ultimately have "justified J (add_covering_context ctx ?sub)"
    by (intro justified_add_covering [OF J]) simp_all
  with dc pre show ?thesis by (auto simp: dc')
qed

lemma justified_split:
  assumes J: "closed_under J"
  shows "plain_path path \<Longrightarrow> J ctx path \<Longrightarrow> split_coverage lib path ctx dc = Inr (Some (dc', d')) \<Longrightarrow>
      justified J dc \<Longrightarrow> justified J dc' \<and> dc_diff dc' = dc_diff dc"
    and "plain_path path \<Longrightarrow> J ctx path \<Longrightarrow> split_existing lib path ctx ss = Inr (Some (ss', d')) \<Longrightarrow>
      (\<forall>s \<in> set ss. is_prefix_of b (d_path (dc_diff s)) \<and> justified J s) \<Longrightarrow>
      (\<forall>s \<in> set ss'. is_prefix_of b (d_path (dc_diff s)) \<and> justified J s)"
proof (induction lib path ctx dc and lib path ctx ss arbitrary: dc' d' and ss' d' b
    rule: split_coverage_split_existing.induct)
  case (1 lib path ctx d cov splits)
  show ?case
  proof (cases "path_under_changed_path (DiffCoverage d cov splits) path")
    case True
    with "1.prems" consider (new) "new_split lib (DiffCoverage d cov splits) path ctx = Inr (dc', d')"
      | (old) splits' where "split_existing lib path ctx splits = Inr (Some (splits', d'))"
          "dc' = DiffCoverage d cov splits'"
      by (auto simp: result_simps split: option.splits)
    then show ?thesis
    proof cases
      case new
      show ?thesis by (rule justified_new_split [OF J "1.prems"(4,1,2) True new])
    next
      case old
      from "1.IH" [OF True "1.prems"(1,2) old(1), where b = "d_path d"] "1.prems"(4) show ?thesis
        by (simp add: old(2))
    qed
  next
    case False
    with "1.prems" have "dc' = add_covering_context ctx (DiffCoverage d cov splits)" "d_path d = path"
      by (auto split: if_splits)
    with "1.prems" justified_add_covering [OF J, of "DiffCoverage d cov splits" ctx] show ?thesis
      by (simp del: add_covering_context.simps)
  qed
next
  case (2 lib path ctx)
  then show ?case by simp
next
  case (3 lib path ctx s ss)
  obtain r where r: "split_coverage lib path ctx s = Inr r"
    using "3.prems"(3) by (auto simp: rbind_Inr_iff simp del: split_coverage.simps)
  then consider (here) s' where "split_coverage lib path ctx s = Inr (Some (s', d'))" "ss' = s' # ss"
    | (later) ts where "split_coverage lib path ctx s = Inr None"
        "split_existing lib path ctx ss = Inr (Some (ts, d'))" "ss' = s # ts"
    using "3.prems"(3) by (cases r) (auto simp: rbind_Inr_iff simp del: split_coverage.simps)
  then show ?case
  proof cases
    case here
    from "3.IH"(1) [OF "3.prems"(1,2) here(1)] "3.prems"(4) show ?thesis by (simp add: here(2))
  next
    case later
    from "3.IH"(2) [OF later(1) refl "3.prems"(1,2) later(2), where b = b] "3.prems"(4) show ?thesis
      by (simp add: later(3))
  qed
qed

lemma justified_cover_diff:
  assumes J: "closed_under J" and p: "plain_path path" "J ctx path" and dc: "justified J dc"
    and cov: "cover_diff lib ctx path dc = Inr (dc', c)"
  shows "justified J dc'"
proof (cases "changed_path_covered_by_path dc path")
  case True
  obtain d cov splits where dc_eq: "dc = DiffCoverage d cov splits" by (cases dc)
  have "J ctx (d_path d)"
    using True p(2) closed_underD [OF J] by (simp add: changed_path_covered_by_path_def dc_eq)
  with True cov dc show ?thesis by (auto simp: cover_diff_def dc_eq)
next
  case False
  then consider "dc' = dc" | d' where "split_coverage lib path ctx dc = Inr (Some (dc', d'))"
    using cov by (auto simp: cover_diff_def result_simps split: if_splits option.splits)
  then show ?thesis
  proof cases
    case 2
    from justified_split(1) [OF J p 2 dc] show ?thesis ..
  qed (simp add: dc)
qed

definition same_file :: "bundle_file_change \<Rightarrow> bundle_file_change \<Rightarrow> bool" where
  "same_file b b' \<longleftrightarrow> bfc_fileref b' = bfc_fileref b \<and> bfc_old b' = bfc_old b \<and>
     bfc_new b' = bfc_new b \<and> bfc_diffs b' = bfc_diffs b"

definition all_justified :: "(change_type_context \<Rightarrow> jsonpath \<Rightarrow> bool) \<Rightarrow> (string, diff_coverage) dict \<Rightarrow> bool" where
  "all_justified J entries \<longleftrightarrow> (\<forall>(k, dc) \<in> set entries. justified J dc)"

lemma allowed_changed_paths_for_elem:
  assumes "allowed_changed_paths_for_file_type_and_schema lib jj ctp t sch content ctx = Inr ps" "p \<in> set ps"
  shows "\<exists>e. p \<in> set (jl_full_paths lib e content)"
proof (cases "dict_get (ctp_expressions ctp) (t, sch)")
  case (Some exprs)
  with assms obtain pss where "rmap (\<lambda>e. rbind (jsonpath_for_context lib jj ctx e)
      (\<lambda>p. Inr (jl_full_paths lib p content))) exprs = Inr pss" "ps = concat pss"
    by (auto simp: allowed_changed_paths_for_file_type_and_schema_def result_simps)
  with assms(2) show ?thesis by (auto simp: rbind_Inr_iff dest!: rmap_Inr_set)
qed (use assms in \<open>simp add: allowed_changed_paths_for_file_type_and_schema_def\<close>)

lemma allowed_changed_paths_elem:
  assumes "allowed_changed_paths lib jj ctp fileref content ctx = Inr ps" "p \<in> set ps"
  shows "\<exists>e. p \<in> set (jl_full_paths lib e content)"
  using assms allowed_changed_paths_for_elem
  by (fastforce simp: allowed_changed_paths_def rbind_Inr_iff)

lemma justified_cover_changes_for_diffs:
  assumes J: "closed_under J" and lib: "plain_full_paths lib"
    and allowed: "\<And>ps p. allowed_changed_paths lib jj (ctx_processor ctx) (bfc_fileref bfc) content ctx = Inr ps \<Longrightarrow>
        p \<in> set ps \<Longrightarrow> J ctx p"
    and ok: "all_justified J (bfc_diff_coverage bfc)"
    and cov: "cover_changes_for_diffs lib jj bfc types content ctx = Inr (bfc', c)"
  shows "all_justified J (bfc_diff_coverage bfc') \<and> same_file bfc bfc'"
proof (cases "\<forall>dc \<in> set (dict_values (bfc_diff_coverage bfc)). d_type (dc_diff dc) \<notin> set types")
  case True
  with cov ok show ?thesis by (simp add: cover_changes_for_diffs_def same_file_def)
next
  case False
  let ?step = "\<lambda>(entries, covered) path.
      rbind (rmap (\<lambda>(k, dc). if d_type (dc_diff dc) \<in> set types
                  then rbind (cover_diff lib ctx path dc) (\<lambda>(dc', c). Inr ((k, dc'), c))
                  else Inr ((k, dc), [])) entries)
        (\<lambda>rs. Inr (map fst rs, dict_update covered (concat (map snd rs))))"
  from False cov obtain ps entries where
    ps: "allowed_changed_paths lib jj (ctx_processor ctx) (bfc_fileref bfc) content ctx = Inr ps"
    and fold: "rfold ?step (bfc_diff_coverage bfc, []) ps = Inr (entries, c)"
    and bfc': "bfc' = bfc\<lparr>bfc_diff_coverage := entries\<rparr>"
    unfolding cover_changes_for_diffs_def if_not_P [OF False] by (auto simp: rbind_Inr_iff)
  have plain: "p \<in> set ps \<Longrightarrow> plain_path p" for p
    using lib allowed_changed_paths_elem [OF ps] unfolding plain_full_paths_def by blast
  have "all_justified J (fst (entries, c))"
  proof (rule rfold_invariant [OF fold])
    fix s p s'
    assume p: "p \<in> set ps" and s: "all_justified J (fst s)" and step: "?step s p = Inr s'"
    from step obtain rs where rs: "rmap (\<lambda>(k, dc). if d_type (dc_diff dc) \<in> set types
                  then rbind (cover_diff lib ctx p dc) (\<lambda>(dc', c). Inr ((k, dc'), c))
                  else Inr ((k, dc), [])) (fst s) = Inr rs" "fst s' = map fst rs"
      by (auto simp: result_simps split: prod.splits)
    show "all_justified J (fst s')"
      unfolding all_justified_def rs(2)
    proof (clarsimp)
      fix k dc' c'
      assume "((k, dc'), c') \<in> set rs"
      from rmap_Inr_set [OF rs(1) this] obtain k0 dc where "(k0, dc) \<in> set (fst s)"
        "dc' = dc \<or> cover_diff lib ctx p dc = Inr (dc', c')"
        by (auto simp: result_simps split: if_splits)
      then show "justified J dc'"
        using s justified_cover_diff [OF J plain [OF p] allowed [OF ps p]] by (auto simp: all_justified_def)
    qed
  qed (simp add: ok)
  then show ?thesis by (simp add: bfc' same_file_def)
qed

section \<open>A context covers what its change type allows\<close>

definition allowed_by ::
  "jsonpath_lib \<Rightarrow> jinja_lib \<Rightarrow> file_ref \<Rightarrow> json \<Rightarrow> json \<Rightarrow> change_type_context \<Rightarrow> jsonpath \<Rightarrow> bool" where
  "allowed_by lib jj fileref old new ctx p \<longleftrightarrow>
     (\<exists>content \<in> {old, new}. \<exists>ps. allowed_changed_paths lib jj (ctx_processor ctx) fileref content ctx = Inr ps \<and>
        (\<exists>a \<in> set ps. is_prefix_of a p))"

lemma closed_allowed_by: "closed_under (allowed_by lib jj fileref old new)"
  unfolding closed_under_def allowed_by_def by (blast intro: is_prefix_of_trans)

lemma justified_cover_changes:
  assumes lib: "plain_full_paths lib"
    and ok: "all_justified (allowed_by lib jj (bfc_fileref bfc) (bfc_old bfc) (bfc_new bfc)) (bfc_diff_coverage bfc)"
    and diffs: "bfc_diffs bfc \<noteq> []" and cov: "cover_changes lib jj bfc ctx = Inr (bfc', c)"
  shows "all_justified (allowed_by lib jj (bfc_fileref bfc) (bfc_old bfc) (bfc_new bfc)) (bfc_diff_coverage bfc') \<and>
    same_file bfc bfc'"
proof -
  let ?J = "allowed_by lib jj (bfc_fileref bfc) (bfc_old bfc) (bfc_new bfc)"
  have allowed: "?J ctx p"
    if "allowed_changed_paths lib jj (ctx_processor ctx) (bfc_fileref bfc) content ctx = Inr ps" "p \<in> set ps"
      "content \<in> {bfc_old bfc, bfc_new bfc}" for content ps p
    using that unfolding allowed_by_def by (blast intro: is_prefix_of_refl)
  from cov diffs obtain b1 c1 c2 where
    1: "cover_changes_for_diffs lib jj bfc [ADDED, CHANGED] (bfc_new bfc) ctx = Inr (b1, c1)" and
    2: "cover_changes_for_diffs lib jj b1 [REMOVED] (bfc_old bfc) ctx = Inr (bfc', c2)"
    by (auto simp: cover_changes_def result_simps)
  from justified_cover_changes_for_diffs [OF closed_allowed_by lib allowed ok 1]
  have b1: "all_justified ?J (bfc_diff_coverage b1)" "same_file bfc b1" by auto
  then have frame: "bfc_fileref b1 = bfc_fileref bfc" by (simp add: same_file_def)
  from justified_cover_changes_for_diffs [OF closed_allowed_by lib _ b1(1) 2] allowed
  have "all_justified ?J (bfc_diff_coverage bfc')" "same_file b1 bfc'"
    by (auto simp: frame)
  with b1(2) show ?thesis by (simp add: same_file_def)
qed

lemma justified_fine_grained:
  "fine_grained_diff_coverages lib dc = Inr cs \<Longrightarrow> justified J dc \<Longrightarrow>
     \<forall>(k, v) \<in> set cs. justified J v"
proof (induction dc arbitrary: cs)
  case (DiffCoverage d cov splits)
  from DiffCoverage.prems(1) obtain acc where
    acc: "rfold (\<lambda>acc s. rbind (fine_grained_diff_coverages lib s) (\<lambda>c. Inr (dict_update acc c))) [] splits = Inr acc"
    and cs: "cs = acc \<or> cs = dict_set acc (path_str lib (d_path d)) (DiffCoverage d cov splits)"
    by (auto simp: rbind_Inr_iff split: if_splits)
  have "\<forall>(k, v) \<in> set acc. justified J v"
  proof (rule rfold_invariant [OF acc])
    fix a s a'
    assume "s \<in> set splits" "\<forall>(k, v) \<in> set a. justified J v"
      "rbind (fine_grained_diff_coverages lib s) (\<lambda>c. Inr (dict_update a c)) = Inr a'"
    then show "\<forall>(k, v) \<in> set a'. justified J v"
      using DiffCoverage.IH [of s] DiffCoverage.prems(2) by (auto simp: rbind_Inr_iff dest!: dict_update_elem)
  qed simp
  with cs DiffCoverage.prems(2) show ?case by (auto dest!: dict_set_elem)
qed

definition cover_with_all ::
  "jsonpath_lib \<Rightarrow> jinja_lib \<Rightarrow> bundle_file_change \<Rightarrow> change_type_context list \<Rightarrow> string + bundle_file_change" where
  "cover_with_all lib jj bfc ctxs =
     rfold (\<lambda>b ctx. rbind (cover_changes lib jj b ctx) (\<lambda>(b', _). Inr b')) bfc ctxs"


section \<open>All changes covered\<close>

lemma fine_grained_root:
  assumes "fine_grained_diff_coverages lib dc = Inr cs"
  shows "is_covered lib dc = Inr True \<or> dc \<in> snd ` set cs"
proof (cases dc)
  case (DiffCoverage d cov splits)
  with assms show ?thesis
    by (auto simp: rbind_Inr_iff is_covered_def intro!: rev_image_eqI [OF dict_set_self] split: if_splits)
qed

text \<open>A file reported as covered has every one of its detected differences covered, as a whole or
  by its parts: the fine-grained view hides no uncovered difference.\<close>

theorem all_changes_covered_complete:
  assumes covered: "all_changes_covered lib bfc = Inr True" and dc: "(k, dc) \<in> set (bfc_diff_coverage bfc)"
  shows "is_covered lib dc = Inr True"
proof -
  from covered obtain css where css: "rmap (fine_grained_diff_coverages lib) (dict_values (bfc_diff_coverage bfc)) = Inr css"
    and all: "\<forall>cs \<in> set css. \<forall>x \<in> set cs. is_covered lib (snd x) = Inr True"
    by (auto simp: all_changes_covered_def bundle_diff_coverage_def rbind_Inr_iff rall_True_iff)
  from dc have "dc \<in> set (dict_values (bfc_diff_coverage bfc))" by force
  from rmap_Inr_elem [OF css this] obtain cs where cs: "cs \<in> set css" "fine_grained_diff_coverages lib dc = Inr cs"
    by blast
  from fine_grained_root [OF cs(2)] all cs(1) show ?thesis by auto
qed

text \<open>A change without differences, a moved file or one whose list items were reordered, counts
  as covered while no context covers it: it has no difference to ask about.\<close>

theorem uncovered_metadata_change_counts_as_covered:
  "all_changes_covered lib
     (make_bundle_file_change lib fileref old new old_sha new_sha [] old_refs new_refs True) = Inr True \<and>
   bundle_diff_coverage lib
     (make_bundle_file_change lib fileref old new old_sha new_sha [] old_refs new_refs True) = Inr []"
  by (simp add: all_changes_covered_def bundle_diff_coverage_def make_bundle_file_change_def
      dict_of_def dict_update_def)

end
