(* ===== verification/Role_Coverage.thy ===== *)
theory Role_Coverage
  imports Change_Type_Init Coverage_Laws
begin

text \<open>
  Where change type contexts come from: \<open>reconcile/change_owners/self_service_roles.py\<close> with
  \<open>reconcile/utils/expiration.py\<close> and the merging half of
  \<open>reconcile/utils/membershipsources/resolver.py\<close>, and
  \<open>reconcile/change_owners/implicit_ownership.py\<close>. The current date, the answers of the
  membership sources and the approver lookup are parameters.
\<close>

section \<open>Roles\<close>

record datafile_v1 =
  df_schema :: string
  df_path :: string

record self_service_v1 =
  ss_change_type :: string
  ss_context_schema :: "string option"
  ss_datafiles :: "datafile_v1 list option"
  ss_resources :: "string list option"

datatype role_member =
  RoleUser (rm_name: string) (rm_org_username: string) (rm_tag: "bool option")
| RoleBot (rm_name: string) (rm_bot_username: "string option")

datatype permission_v1 =
  PermissionSlackUsergroup (pm_handle: string) (pm_workspace: string) (pm_channels: "string list")
| PermissionGitlabGroupMembership (pm_group: string)
| PermissionOther

record member_source_v1 =
  ms_provider :: string
  ms_group :: string

record role_v1 =
  role_name :: string
  role_labels :: json
  role_self_service :: "self_service_v1 list option"
  role_users :: "role_member list"
  role_bots :: "role_member list"
  role_permissions :: "permission_v1 list option"
  role_member_sources :: "member_source_v1 list option"
  role_expiration_date :: "string option"

definition or_empty :: "'a list option \<Rightarrow> 'a list" where
  "or_empty xs = (case xs of None \<Rightarrow> [] | Some l \<Rightarrow> l)"

lemma or_empty_simps [simp]: "or_empty None = []" "or_empty (Some l) = l"
  by (simp_all add: or_empty_def)

section \<open>Expiration\<close>

type_synonym date = "nat \<times> nat \<times> nat"

definition digit_value :: "char \<Rightarrow> nat option" where
  "digit_value c = (let n = of_char c in if 48 \<le> n \<and> n \<le> 57 then Some (n - 48) else None)"

fun digits_value :: "nat \<Rightarrow> string \<Rightarrow> nat option" where
  "digits_value acc [] = Some acc"
| "digits_value acc (c # cs) =
     (case digit_value c of None \<Rightarrow> None | Some d \<Rightarrow> digits_value (10 * acc + d) cs)"

definition leap_year :: "nat \<Rightarrow> bool" where
  "leap_year y \<longleftrightarrow> y mod 4 = 0 \<and> (y mod 100 \<noteq> 0 \<or> y mod 400 = 0)"

definition days_of_month :: "nat \<Rightarrow> nat \<Rightarrow> nat" where
  "days_of_month y m =
     (if m = 2 then (if leap_year y then 29 else 28)
      else if m \<in> {4, 6, 9, 11} then 30 else 31)"

definition parse_date :: "string \<Rightarrow> date option" where
  \<comment> \<open>\<open>strptime\<close> with the format \<open>%Y-%m-%d\<close>: four digits, then one or two; a single
     digit of the day may follow a space\<close>
  "parse_date s =
     (case py_split (CHR ''-'') s of
        [y, m, d] \<Rightarrow>
          (case (if length y = 4 then digits_value 0 y else None,
                 if length m \<in> {1, 2} then digits_value 0 m else None,
                 if length d = 2 \<and> hd d = CHR '' '' then digits_value 0 (tl d)
                 else if length d \<in> {1, 2} then digits_value 0 d else None) of
             (Some y, Some m, Some d) \<Rightarrow>
               if 1 \<le> y \<and> 1 \<le> m \<and> m \<le> 12 \<and> 1 \<le> d \<and> d \<le> days_of_month y m
               then Some (y, m, d) else None
           | _ \<Rightarrow> None)
      | _ \<Rightarrow> None)"

fun date_le :: "date \<Rightarrow> date \<Rightarrow> bool" where
  "date_le (y, m, d) (y', m', d') \<longleftrightarrow> y < y' \<or> (y = y' \<and> (m < m' \<or> (m = m' \<and> d \<le> d')))"

definition date_expired :: "date \<Rightarrow> string \<Rightarrow> string + bool" where
  "date_expired today date =
     rbind (of_opt ''ValueError'' (parse_date date)) (\<lambda>exp_date. Inr (date_le exp_date today))"

definition filter_expired :: "date \<Rightarrow> role_v1 list \<Rightarrow> string + role_v1 list" where
  "filter_expired today roles =
     rbind (rmap (\<lambda>r. case role_expiration_date r of
               None \<Rightarrow> Inr [r]
             | Some date \<Rightarrow>
                 if date = [] then Inr [r]
                 else rbind (date_expired today date) (\<lambda>expired. Inr (if expired then [] else [r]))) roles)
       (\<lambda>rss. Inr (concat rss))"

section \<open>Self-service roles\<close>

definition validate_self_service_role :: "role_v1 \<Rightarrow> string + unit" where
  "validate_self_service_role role =
     rbind (guard_err (role_users role = [] \<and> role_bots role = [] \<and>
                       or_empty (role_member_sources role) = []) ''NoApproversInSelfServiceRoleError'')
       (\<lambda>_. rbind (rmap (\<lambda>ssc.
            guard_err ((case ss_context_schema ssc of None \<Rightarrow> False | Some s \<Rightarrow> s \<noteq> []) \<and>
                       filter (\<lambda>df. Some (df_schema df) \<noteq> ss_context_schema ssc)
                         (or_empty (ss_datafiles ssc)) \<noteq> [])
              ''DatafileIncompatibleWithChangeTypeError'') (or_empty (role_self_service role)))
          (\<lambda>_. Inr ()))"

definition fetch_self_service_roles :: "date \<Rightarrow> role_v1 list \<Rightarrow> string + role_v1 list" where
  "fetch_self_service_roles today roles =
     rbind (filter_expired today roles) (\<lambda>current.
       let self_service = filter (\<lambda>r. or_empty (role_self_service r) \<noteq> []) current
       in rbind (rmap validate_self_service_role self_service) (\<lambda>_. Inr self_service))"

section \<open>Members of roles\<close>

definition build_resolver_jobs :: "role_v1 list \<Rightarrow> (string \<times> string list) list" where
  "build_resolver_jobs roles =
     map (\<lambda>(provider, mss). (provider, add_all [] (map ms_group mss)))
       (group_by ms_provider (concat (map (\<lambda>r. or_empty (role_member_sources r)) roles)))"

type_synonym membership_resolver =
  "string \<times> string list \<Rightarrow> string + (string \<times> string, role_member list) dict"

definition is_named_bot :: "role_member \<Rightarrow> bool" where
  "is_named_bot b = (case b of RoleBot _ (Some u) \<Rightarrow> u \<noteq> [] | _ \<Rightarrow> False)"

definition resolve_role_members ::
  "membership_resolver \<Rightarrow> role_v1 list \<Rightarrow> string + (string, role_member list) dict" where
  "resolve_role_members resolver roles =
     rbind (rmap resolver (build_resolver_jobs roles)) (\<lambda>processed_jobs.
       let resolved_groups = dict_of (concat processed_jobs)
       in Inr (dict_of (map (\<lambda>r.
            (role_name r, role_users r @ filter is_named_bot (role_bots r) @
               concat (map (\<lambda>ms. or_empty (dict_get resolved_groups (ms_provider ms, ms_group ms)))
                         (or_empty (role_member_sources r))))) roles)))"

fun build_approver :: "role_member \<Rightarrow> approver option" where
  "build_approver (RoleUser n u tag) = Some \<lparr>org_username = u, tag_on_merge_requests = tag\<rparr>"
| "build_approver (RoleBot n (Some u)) =
     (if u = [] then None else Some \<lparr>org_username = u, tag_on_merge_requests = Some False\<rparr>)"
| "build_approver (RoleBot n None) = None"

definition change_type_labels_from_role :: "role_v1 \<Rightarrow> string + string list" where
  "change_type_labels_from_role role =
     (case role_labels role of
        JDict kvs \<Rightarrow>
          (case map_of kvs ''change-owners-labels'' of
             None \<Rightarrow> Inr []
           | Some v \<Rightarrow>
               if \<not> truthy v then Inr []
               else case v of
                 JStr s \<Rightarrow> Inr (add_all [] (map py_strip (py_split (CHR '','') s)))
               | _ \<Rightarrow> Inl ''AttributeError'')
      | JList vs \<Rightarrow> if JStr ''change-owners-labels'' \<in> set vs then Inl ''TypeError'' else Inr []
      | JStr s \<Rightarrow> if sublist ''change-owners-labels'' s then Inl ''TypeError'' else Inr []
      | v \<Rightarrow> if truthy v then Inl ''TypeError'' else Inr [])"

fun reachability_of_permission :: "permission_v1 \<Rightarrow> string + approver_reachability list" where
  "reachability_of_permission (PermissionSlackUsergroup handle workspace channels) =
     (case channels of
        [] \<Rightarrow> Inl ''IndexError''
      | c # _ \<Rightarrow> Inr [SlackGroup handle workspace c])"
| "reachability_of_permission (PermissionGitlabGroupMembership g) = Inr [GitlabGroup g]"
| "reachability_of_permission PermissionOther = Inr []"

definition approver_reachability_from_role :: "role_v1 \<Rightarrow> string + approver_reachability list" where
  "approver_reachability_from_role role =
     rbind (rmap reachability_of_permission (or_empty (role_permissions role))) (\<lambda>rs. Inr (concat rs))"

section \<open>Contexts of self-service roles\<close>

definition role_lookup_entries :: "role_v1 list \<Rightarrow> ((bundle_file_type \<times> string \<times> string) \<times> role_v1) list" where
  "role_lookup_entries roles =
     concat (map (\<lambda>r. concat (map (\<lambda>ss.
         map (\<lambda>df. ((DATAFILE, df_path df, ss_change_type ss), r)) (or_empty (ss_datafiles ss)) @
         map (\<lambda>res. ((RESOURCEFILE, res, ss_change_type ss), r)) (or_empty (ss_resources ss)))
       (or_empty (role_self_service r)))) roles)"

definition schema_role_lookup_entries :: "role_v1 list \<Rightarrow> ((string \<times> string) \<times> role_v1) list" where
  "schema_role_lookup_entries roles =
     concat (map (\<lambda>r. concat (map (\<lambda>ss.
         case ss_context_schema ss of
           Some schema \<Rightarrow>
             if schema \<noteq> [] \<and> or_empty (ss_datafiles ss) = [] \<and> or_empty (ss_resources ss) = []
             then [((schema, ss_change_type ss), r)] else []
         | None \<Rightarrow> [])
       (or_empty (role_self_service r)))) roles)"

definition looked_up :: "('k \<times> 'v) list \<Rightarrow> 'k \<Rightarrow> 'v list" where
  \<comment> \<open>a \<open>defaultdict(list)\<close> filled with the entries\<close>
  "looked_up entries k = map snd (filter (\<lambda>(k', _). k' = k) entries)"

definition owning_roles ::
  "role_v1 list \<Rightarrow> string list \<Rightarrow> resolved_context \<Rightarrow> (string, role_v1) dict" where
  "owning_roles roles lin ownership =
     (let owned = rc_owned_file_ref ownership;
          by_file = concat (map (\<lambda>ct. looked_up (role_lookup_entries roles)
                       (fr_file_type owned, fr_path owned, ct)) lin);
          by_schema = (case fr_schema owned of
              None \<Rightarrow> []
            | Some schema \<Rightarrow>
                if schema = [] then []
                else looked_up (schema_role_lookup_entries roles) (schema, rc_change_type ownership))
      in dict_of (map (\<lambda>r. (role_name r, r)) (by_file @ by_schema)))"

definition context_for_role ::
  "(string, role_member list) dict \<Rightarrow> change_type_processor \<Rightarrow> resolved_context \<Rightarrow> role_v1 \<Rightarrow>
   string + change_type_context" where
  "context_for_role resolved_approvers ctp ownership role =
     rbind (approver_reachability_from_role role) (\<lambda>reachability.
     rbind (change_type_labels_from_role role) (\<lambda>labels.
       Inr \<lparr>ctx_processor = ctp, ctx_context = ''RoleV1 - '' @ role_name role,
            ctx_origin = rc_change_type ownership,
            ctx_context_file = rc_context_file_ref ownership,
            ctx_approvers = List.map_filter build_approver
              (or_empty (dict_get resolved_approvers (role_name role))),
            ctx_reachability = Some reachability, ctx_labels = Some labels\<rparr>))"

definition file_change_of :: "bundle_file_change \<Rightarrow> file_change" where
  "file_change_of bc =
     \<lparr>fc_file_ref = bfc_fileref bc, fc_old = bfc_old bc, fc_new = bfc_new bc,
      fc_old_backrefs = bfc_old_backrefs bc, fc_new_backrefs = bfc_new_backrefs bc\<rparr>"

definition contexts_for_change ::
  "ownership_env \<Rightarrow> nat \<Rightarrow> role_v1 list \<Rightarrow> (string, role_member list) dict \<Rightarrow> (string, change_type_processor) dict \<Rightarrow>
   bundle_file_change \<Rightarrow> change_type_processor \<Rightarrow> resolution_error + change_type_context list" where
  "contexts_for_change env fuel roles resolved_approvers by_name bc ctp =
     rbind (find_context_file_refs env fuel ctp (file_change_of bc) []) (\<lambda>ownerships.
     rbind (rmap (\<lambda>ownership.
         rbind (lift_raised (of_opt ''KeyError'' (dict_get by_name (rc_change_type ownership)))) (\<lambda>p.
           lift_raised (rmap (context_for_role resolved_approvers ctp ownership)
             (dict_values (owning_roles roles (lineage p) ownership))))) ownerships)
       (\<lambda>ctxs. Inr (concat ctxs)))"

definition change_type_contexts_for_self_service_roles ::
  "ownership_env \<Rightarrow> nat \<Rightarrow> membership_resolver \<Rightarrow> role_v1 list \<Rightarrow> change_type_processor list \<Rightarrow>
   bundle_file_change list \<Rightarrow> resolution_error + change_type_context list list" where
  \<comment> \<open>one list of contexts for each bundle change, in the order of the changes\<close>
  "change_type_contexts_for_self_service_roles env fuel resolver roles ctps bundle_changes =
     rbind (lift_raised (resolve_role_members resolver
              (filter (\<lambda>r. or_empty (role_self_service r) \<noteq> []) roles))) (\<lambda>resolved_approvers.
       rmap (\<lambda>bc. rbind (rmap (contexts_for_change env fuel roles resolved_approvers
                                  (dict_of (map (\<lambda>p. (ctp_name p, p)) ctps)) bc) ctps)
                     (\<lambda>ctxss. Inr (concat ctxss))) bundle_changes)"

definition cover_each ::
  "jsonpath_lib \<Rightarrow> jinja_lib \<Rightarrow> bundle_file_change list \<Rightarrow> change_type_context list list \<Rightarrow>
   resolution_error + bundle_file_change list" where
  "cover_each lib jj bundle_changes ctxss =
     rmap (\<lambda>(bc, ctxs). lift_raised (cover_with_all lib jj bc ctxs)) (zip bundle_changes ctxss)"

definition cover_changes_with_self_service_roles ::
  "jinja_lib \<Rightarrow> ownership_env \<Rightarrow> nat \<Rightarrow> membership_resolver \<Rightarrow> role_v1 list \<Rightarrow> change_type_processor list \<Rightarrow>
   bundle_file_change list \<Rightarrow> resolution_error + bundle_file_change list" where
  "cover_changes_with_self_service_roles jj env fuel resolver roles ctps bundle_changes =
     rbind (change_type_contexts_for_self_service_roles env fuel resolver roles ctps bundle_changes)
       (cover_each (oe_lib env) jj bundle_changes)"

section \<open>Implicit ownership\<close>

definition find_approvers_with_implicit_ownership_jsonpath_selector ::
  "jsonpath_lib \<Rightarrow> bundle_file_change \<Rightarrow> string \<Rightarrow> string + string list" where
  "find_approvers_with_implicit_ownership_jsonpath_selector lib bc selector =
     (let old = content_with_metadata (bfc_fileref bc) (bfc_old bc);
          content = (if truthy old then old else content_with_metadata (bfc_fileref bc) (bfc_new bc))
      in if content = JNull then Inr []
         else rbind (of_opt ''unparsable JSONPath'' (jl_parse lib selector))
                (\<lambda>p. context_paths lib p content))"

definition implicit_context ::
  "jsonpath_lib \<Rightarrow> (string \<Rightarrow> approver option) \<Rightarrow> change_type_processor \<Rightarrow> bundle_file_change \<Rightarrow>
   resolved_context \<Rightarrow> implicit_ownership \<Rightarrow> string + change_type_context list" where
  "implicit_context lib lookup_approver ctp bc ownership io =
     (case io of
        ImplicitOther provider \<Rightarrow> Inl ''NotImplementedError''
      | ImplicitJsonPath selector \<Rightarrow>
          if rc_context_file_ref ownership \<noteq> bfc_fileref bc then Inr []
          else rbind (find_approvers_with_implicit_ownership_jsonpath_selector lib bc selector) (\<lambda>owners.
            let implicit_approvers = List.map_filter lookup_approver owners
            in Inr (if implicit_approvers = [] then []
                    else [\<lparr>ctx_processor = ctp,
                           ctx_context = ''implicit ownership - (via '' @ rc_change_type ownership @ '')'',
                           ctx_origin = rc_change_type ownership,
                           ctx_context_file = rc_context_file_ref ownership,
                           ctx_approvers = implicit_approvers,
                           ctx_reachability = None, ctx_labels = None\<rparr>])))"

definition implicit_contexts_for_change ::
  "ownership_env \<Rightarrow> nat \<Rightarrow> (string \<Rightarrow> approver option) \<Rightarrow> change_type_processor \<Rightarrow> bundle_file_change \<Rightarrow>
   resolution_error + change_type_context list" where
  "implicit_contexts_for_change env fuel lookup_approver ctp bc =
     rbind (find_context_file_refs env fuel ctp
              ((file_change_of bc)\<lparr>fc_old_backrefs := [], fc_new_backrefs := []\<rparr>) []) (\<lambda>ownerships.
     rbind (lift_raised (rmap (\<lambda>ownership.
              rbind (rmap (implicit_context (oe_lib env) lookup_approver ctp bc ownership)
                       (ctp_implicit_ownership ctp)) (\<lambda>cs. Inr (concat cs))) ownerships))
       (\<lambda>css. Inr (concat css)))"

definition change_type_contexts_for_implicit_ownership ::
  "ownership_env \<Rightarrow> nat \<Rightarrow> (string \<Rightarrow> approver option) \<Rightarrow> change_type_processor list \<Rightarrow>
   bundle_file_change list \<Rightarrow> resolution_error + (nat \<times> change_type_context) list" where
  \<comment> \<open>pairs of the position of the bundle change and a context for it\<close>
  "change_type_contexts_for_implicit_ownership env fuel lookup_approver ctps bundle_changes =
     rbind (rmap (\<lambda>ctp. rmap (\<lambda>(i, bc).
               rbind (implicit_contexts_for_change env fuel lookup_approver ctp bc)
                 (\<lambda>ctxs. Inr (map (Pair i) ctxs))) (enumerate 0 bundle_changes))
             (filter (\<lambda>ctp. ctp_implicit_ownership ctp \<noteq> []) ctps))
       (\<lambda>csss. Inr (concat (concat csss)))"

definition cover_changes_with_implicit_ownership ::
  "jinja_lib \<Rightarrow> ownership_env \<Rightarrow> nat \<Rightarrow> (string \<Rightarrow> approver option) \<Rightarrow> change_type_processor list \<Rightarrow>
   bundle_file_change list \<Rightarrow> resolution_error + bundle_file_change list" where
  "cover_changes_with_implicit_ownership jj env fuel lookup_approver ctps bundle_changes =
     rbind (change_type_contexts_for_implicit_ownership env fuel lookup_approver ctps bundle_changes)
       (\<lambda>ctxs. cover_each (oe_lib env) jj bundle_changes
          (map (\<lambda>i. map snd (filter (\<lambda>(j, _). j = i) ctxs)) [0..<length bundle_changes]))"

definition cover_all_changes ::
  "jinja_lib \<Rightarrow> ownership_env \<Rightarrow> nat \<Rightarrow> date \<Rightarrow> membership_resolver \<Rightarrow> role_v1 list \<Rightarrow>
   (string \<Rightarrow> approver option) \<Rightarrow> change_type_processor list \<Rightarrow> bundle_file_change list \<Rightarrow>
   resolution_error + bundle_file_change list" where
  \<comment> \<open>\<open>cover_changes\<close> of \<open>change_owners.py\<close>\<close>
  "cover_all_changes jj env fuel today resolver all_roles lookup_approver ctps bundle_changes =
     rbind (lift_raised (fetch_self_service_roles today all_roles)) (\<lambda>roles.
     rbind (cover_changes_with_self_service_roles jj env fuel resolver roles ctps bundle_changes) (\<lambda>covered.
       cover_changes_with_implicit_ownership jj env fuel lookup_approver
         (filter (\<lambda>ct. ctp_implicit_ownership ct \<noteq> []) ctps) covered))"

section \<open>Approvers are members of roles\<close>

definition member_of_role :: "membership_resolver \<Rightarrow> role_v1 \<Rightarrow> role_member \<Rightarrow> bool" where
  "member_of_role resolver role m \<longleftrightarrow>
     m \<in> set (role_users role) \<or> (m \<in> set (role_bots role) \<and> is_named_bot m) \<or>
     (\<exists>ms \<in> set (or_empty (role_member_sources role)). \<exists>job d members. resolver job = Inr d \<and>
        ((ms_provider ms, ms_group ms), members) \<in> set d \<and> m \<in> set members)"

lemma resolve_role_members_sound:
  assumes "resolve_role_members resolver roles = Inr d" "map_of d n = Some members" "m \<in> set members"
  shows "\<exists>role \<in> set roles. role_name role = n \<and> member_of_role resolver role m"
proof -
  from assms(1) obtain jobs where jobs: "rmap resolver (build_resolver_jobs roles) = Inr jobs"
    and d: "d = dict_of (map (\<lambda>r. (role_name r, role_users r @ filter is_named_bot (role_bots r) @
         concat (map (\<lambda>ms. or_empty (dict_get (dict_of (concat jobs)) (ms_provider ms, ms_group ms)))
           (or_empty (role_member_sources r))))) roles)"
    by (auto simp: resolve_role_members_def rbind_Inr_iff Let_def)
  from dict_of_elem [OF map_of_SomeD [OF assms(2) [unfolded d]]] obtain role where
    role: "role \<in> set roles" "n = role_name role"
    and mem: "members = role_users role @ filter is_named_bot (role_bots role) @
         concat (map (\<lambda>ms. or_empty (dict_get (dict_of (concat jobs)) (ms_provider ms, ms_group ms)))
           (or_empty (role_member_sources role)))" by auto
  have group: "\<exists>job d members. resolver job = Inr d \<and> (k, members) \<in> set d \<and> m \<in> set members"
    if "m \<in> set (or_empty (dict_get (dict_of (concat jobs)) k))" for k
  proof -
    from that obtain ms where ms: "map_of (dict_of (concat jobs)) k = Some ms" "m \<in> set ms"
      by (cases "map_of (dict_of (concat jobs)) k") auto
    from dict_of_elem [OF map_of_SomeD [OF ms(1)]] obtain j where "j \<in> set jobs" "(k, ms) \<in> set j" by auto
    with rmap_Inr_set [OF jobs] ms(2) show ?thesis by blast
  qed
  from assms(3) consider "m \<in> set (role_users role)" | "m \<in> set (role_bots role)" "is_named_bot m"
    | ms where "ms \<in> set (or_empty (role_member_sources role))"
        "m \<in> set (or_empty (dict_get (dict_of (concat jobs)) (ms_provider ms, ms_group ms)))"
    by (auto simp: mem)
  then have "member_of_role resolver role m"
    unfolding member_of_role_def by cases (use group in blast)+
  with role show ?thesis by blast
qed

lemma owning_roles_bound:
  assumes "(n, role) \<in> set (owning_roles roles lin ownership)"
  shows "role \<in> set roles \<and> (\<exists>ss \<in> set (or_empty (role_self_service role)).
    ss_change_type ss \<in> set lin \<or> ss_change_type ss = rc_change_type ownership)"
proof -
  from dict_of_elem [OF assms [unfolded owning_roles_def Let_def]] show ?thesis
    by (auto simp: looked_up_def role_lookup_entries_def schema_role_lookup_entries_def
        split: option.splits if_splits)
qed

text \<open>Self-service makes nobody an approver whom no role names: every context found for a
  change belongs to a self-service role that binds a change type of the lineage of the context's
  origin, and each of its approvers is a user, a named bot or a sourced member of a role of that name.\<close>

theorem self_service_approvers_are_members:
  assumes ctxs: "change_type_contexts_for_self_service_roles env fuel resolver roles ctps changes = Inr ctxss"
    and ctx: "ctx \<in> set (concat ctxss)"
  shows "\<exists>role \<in> set roles. ctx_context ctx = ''RoleV1 - '' @ role_name role \<and>
    (\<exists>p \<in> set ctps. ctp_name p = ctx_origin ctx \<and>
       (\<exists>ss \<in> set (or_empty (role_self_service role)). ss_change_type ss \<in> set (lineage p))) \<and>
    set (ctx_approvers ctx) \<subseteq> {a. \<exists>r \<in> set roles. role_name r = role_name role \<and>
       (\<exists>m. member_of_role resolver r m \<and> build_approver m = Some a)}"
proof -
  let ?by_name = "dict_of (map (\<lambda>p. (ctp_name p, p)) ctps)"
  from ctxs obtain res where
    res: "resolve_role_members resolver (filter (\<lambda>r. or_empty (role_self_service r) \<noteq> []) roles) = Inr res"
    and all: "rmap (\<lambda>bc. rbind (rmap (contexts_for_change env fuel roles res ?by_name bc) ctps)
                     (\<lambda>ctxss. Inr (concat ctxss))) changes = Inr ctxss"
    by (auto simp: change_type_contexts_for_self_service_roles_def result_simps)
  from ctx obtain cs where "cs \<in> set ctxss" "ctx \<in> set cs" by auto
  from rmap_Inr_set [OF all this(1)] this(2) obtain bc css ctp cs' where
    css: "rmap (contexts_for_change env fuel roles res ?by_name bc) ctps = Inr css" "cs' \<in> set css" "ctx \<in> set cs'"
    by (auto simp: rbind_Inr_iff)
  from rmap_Inr_set [OF css(1,2)] obtain ctp where "contexts_for_change env fuel roles res ?by_name bc ctp = Inr cs'"
    by blast
  then obtain os ds where os: "rmap (\<lambda>ownership.
         rbind (lift_raised (of_opt ''KeyError'' (dict_get ?by_name (rc_change_type ownership)))) (\<lambda>p.
           lift_raised (rmap (context_for_role res ctp ownership)
             (dict_values (owning_roles roles (lineage p) ownership))))) os = Inr ds" "cs' = concat ds"
    by (auto simp: contexts_for_change_def rbind_Inr_iff)
  from os(2) css(3) obtain d where d: "d \<in> set ds" "ctx \<in> set d" by auto
  from rmap_Inr_set [OF os(1) d(1)] obtain o' p where
    p: "map_of ?by_name (rc_change_type o') = Some p" and
    "rmap (context_for_role res ctp o') (dict_values (owning_roles roles (lineage p) o')) = Inr d"
    by (auto simp: result_simps)
  from rmap_Inr_set [OF this(2) d(2)] obtain n role where
    role: "(n, role) \<in> set (owning_roles roles (lineage p) o')" "context_for_role res ctp o' role = Inr ctx"
    by auto
  then have fields: "ctx_context ctx = ''RoleV1 - '' @ role_name role" "ctx_origin ctx = rc_change_type o'"
    "ctx_approvers ctx = List.map_filter build_approver (or_empty (dict_get res (role_name role)))"
    by (auto simp: context_for_role_def rbind_Inr_iff)
  from dict_of_keyed_mem [OF p] have pn: "p \<in> set ctps" "ctp_name p = ctx_origin ctx"
    by (simp_all add: fields)
  from owning_roles_bound [OF role(1)] pn(2)
  have bound: "role \<in> set roles" "\<exists>ss \<in> set (or_empty (role_self_service role)). ss_change_type ss \<in> set (lineage p)"
    by (auto simp: set_lineage fields(2))
  have "\<exists>r \<in> set roles. role_name r = role_name role \<and> (\<exists>m. member_of_role resolver r m \<and> build_approver m = Some a)"
    if "a \<in> set (ctx_approvers ctx)" for a
  proof -
    from that obtain members m where "map_of res (role_name role) = Some members" "m \<in> set members"
      "build_approver m = Some a"
      by (cases "map_of res (role_name role)") (auto simp: fields(3) map_filter_def)
    from resolve_role_members_sound [OF res this(1,2)] this(3) show ?thesis by auto
  qed
  with bound fields(1) pn show ?thesis by blast
qed

end
