(* ===== verification/Change_Decision.thy ===== *)
theory Change_Decision
  imports Coverage_Laws
begin

text \<open>
  \<open>reconcile/change_owners/decision.py\<close> and the decision part of \<open>change_owners.py\<close>: which
  comments are decisions, how they apply to the coverage tree of a diff, when a diff is approved
  or held, whether the author may make the change at all, and the labels of the merge request.
\<close>

section \<open>Decisions from comments\<close>

datatype decision_command = APPROVED | CANCEL_APPROVED | HOLD | CANCEL_HOLD | OK_TO_TEST

fun command_value :: "decision_command \<Rightarrow> string" where
  "command_value APPROVED = ''/lgtm''"
| "command_value CANCEL_APPROVED = ''/lgtm cancel''"
| "command_value HOLD = ''/hold''"
| "command_value CANCEL_HOLD = ''/hold cancel''"
| "command_value OK_TO_TEST = ''/ok-to-test''"

record decision =
  approver_name :: string
  command :: decision_command

record comment =
  cm_username :: string
  cm_body :: "string option"
  cm_created_at :: string

definition decision_of_line :: "string \<Rightarrow> string \<Rightarrow> decision list" where
  "decision_of_line commenter line =
     (let l = py_strip line in
      [\<lparr>approver_name = commenter, command = c\<rparr>.
         c \<leftarrow> [APPROVED, CANCEL_APPROVED, HOLD, CANCEL_HOLD], l = command_value c])"

definition get_approver_decisions_from_mr_comments :: "comment list \<Rightarrow> decision list" where
  "get_approver_decisions_from_mr_comments comments =
     concat (map (\<lambda>c. case cm_body c of
                 None \<Rightarrow> []
               | Some body \<Rightarrow>
                   if body = [] then []
                   else concat (map (decision_of_line (cm_username c)) (py_split (CHR 0x0A) body)))
       (sort_key cm_created_at comments))"

section \<open>The decision about one diff\<close>

record change_decision =
  cd_file :: file_ref
  cd_diff :: diff
  cd_coverage :: "change_type_context list"
  cd_coverable_by_fragments :: bool
  cd_approve :: "(string, bool) dict"
  cd_hold :: "(string, bool) dict"
  cd_auto :: "(string, bool) dict"

fun apply_context_decision :: "change_decision \<Rightarrow> string \<Rightarrow> decision_command \<Rightarrow> change_decision" where
  "apply_context_decision cd context APPROVED = cd\<lparr>cd_approve := dict_set (cd_approve cd) context True\<rparr>"
| "apply_context_decision cd context CANCEL_APPROVED = cd\<lparr>cd_approve := dict_set (cd_approve cd) context False\<rparr>"
| "apply_context_decision cd context HOLD = cd\<lparr>cd_hold := dict_set (cd_hold cd) context True\<rparr>"
| "apply_context_decision cd context CANCEL_HOLD = cd\<lparr>cd_hold := dict_set (cd_hold cd) context False\<rparr>"
| "apply_context_decision cd context OK_TO_TEST = cd"

definition apply_decision :: "change_decision \<Rightarrow> change_type_context \<Rightarrow> decision_command \<Rightarrow> change_decision" where
  "apply_decision cd ctx c = apply_context_decision cd (ctx_context ctx) c"

definition auto_approve :: "change_decision \<Rightarrow> change_type_context \<Rightarrow> bool \<Rightarrow> change_decision" where
  "auto_approve cd ctx b = cd\<lparr>cd_auto := dict_set (cd_auto cd) (ctx_context ctx) b\<rparr>"

definition is_approved :: "change_decision \<Rightarrow> bool" where
  "is_approved cd =
     (list_ex id (dict_values (cd_approve cd)) \<or>
      (0 < length (cd_auto cd) \<and> list_all id (dict_values (cd_auto cd))))"

definition is_held :: "change_decision \<Rightarrow> bool" where
  "is_held cd = list_ex id (dict_values (cd_hold cd))"

record responsible_party =
  cr_context :: string
  cr_approvers :: "approver list"
  cr_reachability :: "approver_reachability list option"

definition change_responsibles :: "change_decision \<Rightarrow> responsible_party list" where
  "change_responsibles cd =
     dict_values (foldl (\<lambda>acc ctx. if dict_has acc (ctx_context ctx) then acc
         else dict_set acc (ctx_context ctx)
           \<lparr>cr_context = ctx_context ctx, cr_approvers = ctx_approvers ctx,
            cr_reachability = ctx_reachability ctx\<rparr>) [] (cd_coverage cd))"

definition context_auto_approved ::
  "(string, decision_command) dict \<Rightarrow> string list \<Rightarrow> change_type_context \<Rightarrow> bool" where
  "context_auto_approved by_name auto_approver_usernames ctx =
     (case ctx_approvers ctx of
        [a] \<Rightarrow> org_username a \<in> set auto_approver_usernames \<and>
               dict_get by_name (org_username a) \<noteq> Some HOLD
      | _ \<Rightarrow> False)"

definition apply_context_decisions ::
  "change_type_context \<Rightarrow> decision list \<Rightarrow> change_decision \<Rightarrow> change_decision" where
  "apply_context_decisions ctx decisions cd =
     foldl (\<lambda>cd d. if includes_approver ctx (approver_name d)
                    then apply_decision cd ctx (command d) else cd) cd decisions"

definition apply_context ::
  "decision list \<Rightarrow> string list \<Rightarrow> change_decision \<Rightarrow> change_type_context \<Rightarrow> change_decision" where
  "apply_context decisions autos cd ctx =
     (if ctx_disabled ctx then cd
      else apply_context_decisions ctx decisions
             (auto_approve cd ctx
               (context_auto_approved
                 (dict_of (map (\<lambda>d. (approver_name d, command d)) decisions)) autos ctx)))"

definition is_enabled_approver :: "change_type_context list \<Rightarrow> string \<Rightarrow> bool" where
  "is_enabled_approver coverage name =
     list_ex (\<lambda>ctx. includes_approver ctx name) (filter (\<lambda>ctx. \<not> ctx_disabled ctx) coverage)"

definition author_hold_step ::
  "change_type_context list \<Rightarrow> string \<Rightarrow> change_decision \<Rightarrow> decision \<Rightarrow> change_decision" where
  "author_hold_step coverage mr_author cd d =
     (let is_author_hold = approver_name d = mr_author \<and> command d = HOLD;
          is_author_cancel = approver_name d = mr_author \<and> command d = CANCEL_HOLD;
          is_owner_cancel = command d = CANCEL_HOLD \<and> approver_name d \<noteq> mr_author \<and>
                            is_enabled_approver coverage (approver_name d)
      in if is_author_hold \<or> is_author_cancel \<or> is_owner_cancel
         then apply_context_decision cd ''mr-author'' (command d) else cd)"

definition apply_author_holds ::
  "change_type_context list \<Rightarrow> decision list \<Rightarrow> string \<Rightarrow> change_decision \<Rightarrow> change_decision" where
  "apply_author_holds coverage decisions mr_author cd =
     (if mr_author = [] \<or> is_enabled_approver coverage mr_author then cd
      else foldl (author_hold_step coverage mr_author) cd decisions)"

definition start_decision :: "file_ref \<Rightarrow> diff \<Rightarrow> change_type_context list \<Rightarrow> change_decision" where
  "start_decision file d coverage =
     \<lparr>cd_file = file, cd_diff = d, cd_coverage = coverage, cd_coverable_by_fragments = False,
      cd_approve = [], cd_hold = [], cd_auto = []\<rparr>"

definition apply_fragments :: "change_decision list \<Rightarrow> change_decision \<Rightarrow> change_decision" where
  "apply_fragments fragment_decisions cd =
     (let cd' = cd\<lparr>cd_coverable_by_fragments := True\<rparr>
      in if list_all (\<lambda>f. is_approved f \<and> \<not> is_held f) fragment_decisions
         then apply_context_decision cd' ''fragments'' APPROVED else cd')"

fun apply_decision_to_diff ::
  "jsonpath_lib \<Rightarrow> file_ref \<Rightarrow> decision list \<Rightarrow> string list \<Rightarrow> string \<Rightarrow> diff_coverage \<Rightarrow>
   string + change_decision" where
  "apply_decision_to_diff lib file decisions autos mr_author (DiffCoverage d coverage splits) =
     rbind (if splits = [] then Inr False
            else is_covered_by_splits lib (DiffCoverage d coverage splits)) (\<lambda>by_splits.
     rbind (if by_splits
            then rbind (rmap (apply_decision_to_diff lib file decisions autos mr_author) splits)
                   (\<lambda>frags. Inr (apply_fragments frags (start_decision file d coverage)))
            else Inr (start_decision file d coverage)) (\<lambda>cd.
       Inr (apply_author_holds coverage decisions mr_author
              (foldl (apply_context decisions autos) cd coverage))))"

definition apply_decisions_to_changes ::
  "jsonpath_lib \<Rightarrow> bundle_file_change list \<Rightarrow> decision list \<Rightarrow> string list \<Rightarrow> string \<Rightarrow>
   string + change_decision list" where
  "apply_decisions_to_changes lib changes decisions autos mr_author =
     rbind (rmap (\<lambda>c. rbind (bundle_diff_coverage lib c)
               (rmap (apply_decision_to_diff lib (bfc_fileref c) decisions autos mr_author))) changes)
       (\<lambda>css. Inr (concat css))"

section \<open>Admission and labels\<close>

definition is_coverage_admitted :: "change_type_context \<Rightarrow> string \<Rightarrow> string list \<Rightarrow> bool" where
  "is_coverage_admitted coverage mr_author ok_to_test_approvers =
     list_ex (\<lambda>a. org_username a = mr_author \<or> org_username a \<in> set ok_to_test_approvers)
       (ctx_approvers coverage)"

definition is_change_admitted ::
  "jsonpath_lib \<Rightarrow> bundle_file_change list \<Rightarrow> string \<Rightarrow> string list \<Rightarrow> string + bool" where
  "is_change_admitted lib changes mr_author ok_to_test_approvers =
     rbind (rmap (bundle_diff_coverage lib) changes) (\<lambda>dcss.
       let restrictive = [c. dc \<leftarrow> concat dcss, c \<leftarrow> dc_coverage dc, ctp_restrictive (ctx_processor c)];
           to_approve = set (map ctx_origin restrictive);
           approved = set (map ctx_origin
             (filter (\<lambda>c. is_coverage_admitted c mr_author ok_to_test_approvers) restrictive))
       in Inr (to_approve = approved))"

fun priority_value :: "change_type_priority \<Rightarrow> string" where
  "priority_value CRITICAL = ''critical''"
| "priority_value URGENT = ''urgent''"
| "priority_value HIGH = ''high''"
| "priority_value PROGRESSIVE_DELIVERY = ''progressive-delivery''"
| "priority_value MEDIUM = ''medium''"
| "priority_value LOW = ''low''"

definition prioritized_approval_label :: "string \<Rightarrow> string" where
  "prioritized_approval_label p = ''bot/approved: '' @ p"

definition change_owner_label :: "string \<Rightarrow> string" where
  "change_owner_label l = ''change-owner/'' @ l"

definition manage_conditional_label :: "string list \<Rightarrow> (string, bool) dict \<Rightarrow> bool \<Rightarrow> string list" where
  "manage_conditional_label current_labels conditional_labels dry_run =
     foldl (\<lambda>ls (label, condition).
         if condition \<and> label \<notin> set ls then (if dry_run then ls else ls @ [label])
         else if \<not> condition \<and> label \<in> set ls then (if dry_run then ls else remove1 label ls)
         else ls) current_labels conditional_labels"

definition conditional_labels ::
  "bool \<Rightarrow> bool \<Rightarrow> bool \<Rightarrow> bool \<Rightarrow> change_type_priority option \<Rightarrow> (string, bool) dict" where
  "conditional_labels self_serviceable hold approved change_admitted mr_priority =
     dict_update
       (dict_of [(''self-serviceable'', self_serviceable),
                 (''not-self-serviceable'', \<not> self_serviceable),
                 (''bot/hold'', hold), (''restricted'', \<not> change_admitted)])
       (map (\<lambda>p. (prioritized_approval_label (priority_value p),
                  self_serviceable \<and> approved \<and> mr_priority = Some p)) change_type_priorities)"

record mr_state =
  mr_comments :: "comment list"
  mr_decision_comments :: "comment list"
  mr_author :: string
  mr_bot_username :: string
  mr_labels :: "string list"

record mr_verdict =
  vd_self_serviceable :: bool
  vd_admitted :: bool
  vd_decisions :: "change_decision list"
  vd_hold :: bool
  vd_approved :: bool
  vd_labels :: "string set"

definition ok_to_test_approvers :: "comment list \<Rightarrow> string + string list" where
  "ok_to_test_approvers comments =
     rbind (rmap (\<lambda>c. rbind (of_opt ''AttributeError'' (cm_body c))
               (\<lambda>b. Inr (if py_strip b = command_value OK_TO_TEST then [cm_username c] else []))) comments)
       (\<lambda>uss. Inr (concat uss))"

definition evaluate_merge_request ::
  "jsonpath_lib \<Rightarrow> bundle_file_change list \<Rightarrow> bool \<Rightarrow> mr_state \<Rightarrow> string + mr_verdict" where
  "evaluate_merge_request lib changes authoritative mr =
     rbind (rall (all_changes_covered lib) changes) (\<lambda>covered.
     rbind (ok_to_test_approvers (mr_comments mr)) (\<lambda>ok_to_test.
     rbind (is_change_admitted lib changes (mr_author mr) ok_to_test) (\<lambda>admitted.
     rbind (apply_decisions_to_changes lib changes
              (get_approver_decisions_from_mr_comments (mr_decision_comments mr))
              [mr_bot_username mr, mr_author mr] (mr_author mr)) (\<lambda>decisions.
     rbind (get_priority_for_changes lib changes) (\<lambda>mr_priority.
     rbind (rmap (bundle_change_owner_labels lib) changes) (\<lambda>owner_labels.
       let self_serviceable = (0 < length changes \<and> covered \<and> authoritative);
           hold = list_ex is_held decisions;
           approved = list_all (\<lambda>d. is_approved d \<and> \<not> is_held d) decisions;
           labels = manage_conditional_label (mr_labels mr)
                      (conditional_labels self_serviceable hold approved admitted mr_priority) False
       in Inr \<lparr>vd_self_serviceable = self_serviceable, vd_admitted = admitted,
               vd_decisions = decisions, vd_hold = hold, vd_approved = approved,
               vd_labels = set (filter (\<lambda>l. \<not> prefix ''change-owner/'' l) labels) \<union>
                           (\<Union>ls \<in> set owner_labels. change_owner_label ` ls)\<rparr>))))))"

section \<open>Who can approve\<close>

text \<open>
  What it takes to approve a diff, without the bookkeeping: an \<open>/lgtm\<close> of an approver of an
  enabled change type that covers it, or auto-approval of every covering context, or the same for
  every fragment of a diff its fragments cover.
\<close>

inductive legitimate ::
  "jsonpath_lib \<Rightarrow> decision list \<Rightarrow> string list \<Rightarrow> diff_coverage \<Rightarrow> bool"
  for lib decisions autos where
  lgtm: "legitimate lib decisions autos (DiffCoverage d coverage splits)"
    if "ctx \<in> set coverage" "\<not> ctx_disabled ctx" "dcn \<in> set decisions"
      "includes_approver ctx (approver_name dcn)" "command dcn = APPROVED"
| auto_all: "legitimate lib decisions autos (DiffCoverage d coverage splits)"
    if "\<exists>ctx \<in> set coverage. \<not> ctx_disabled ctx"
      "\<And>ctx. ctx \<in> set coverage \<Longrightarrow> \<not> ctx_disabled ctx \<Longrightarrow>
         \<exists>ctx' \<in> set coverage. \<not> ctx_disabled ctx' \<and> ctx_context ctx' = ctx_context ctx \<and>
           context_auto_approved (dict_of (map (\<lambda>d. (approver_name d, command d)) decisions)) autos ctx'"
| fragments: "legitimate lib decisions autos (DiffCoverage d coverage splits)"
    if "splits \<noteq> []" "is_covered_by_splits lib (DiffCoverage d coverage splits) = Inr True"
      "\<And>s. s \<in> set splits \<Longrightarrow> legitimate lib decisions autos s"

lemma approve_dict_elem:
  "(k, b) \<in> set (cd_approve (apply_context_decision cd c cmd)) \<Longrightarrow>
     (k, b) \<in> set (cd_approve cd) \<or> (k = c \<and> b = (cmd = APPROVED) \<and> (cmd = APPROVED \<or> cmd = CANCEL_APPROVED))"
  by (cases cmd) (auto dest: dict_set_elem)

lemma auto_apply_context_decision [simp]: "cd_auto (apply_context_decision cd c cmd) = cd_auto cd"
  by (cases cmd) auto

lemma approve_auto_approve [simp]: "cd_approve (auto_approve cd ctx b) = cd_approve cd"
  "cd_hold (auto_approve cd ctx b) = cd_hold cd"
  by (simp_all add: auto_approve_def)

lemma apply_context_approve:
  "(k, True) \<in> set (cd_approve (apply_context decisions autos cd ctx)) \<Longrightarrow>
     (k, True) \<in> set (cd_approve cd) \<or>
     (\<not> ctx_disabled ctx \<and> (\<exists>d \<in> set decisions. includes_approver ctx (approver_name d) \<and> command d = APPROVED))"
proof -
  have fold: "(k, True) \<in> set (cd_approve (apply_context_decisions ctx ds cd)) \<Longrightarrow>
      (k, True) \<in> set (cd_approve cd) \<or>
      (\<exists>d \<in> set ds. includes_approver ctx (approver_name d) \<and> command d = APPROVED)" for cd ds
    unfolding apply_context_decisions_def
  proof (induction ds arbitrary: cd)
    case (Cons d ds)
    from Cons.IH [OF Cons.prems [simplified foldl_Cons]] show ?case
      by (auto simp: apply_decision_def dest: approve_dict_elem split: if_splits)
  qed simp
  show "(k, True) \<in> set (cd_approve (apply_context decisions autos cd ctx)) \<Longrightarrow> ?thesis"
    by (auto simp: apply_context_def dest!: fold split: if_splits)
qed

lemma fold_contexts_approve:
  "(k, True) \<in> set (cd_approve (foldl (apply_context decisions autos) cd coverage)) \<Longrightarrow>
     (k, True) \<in> set (cd_approve cd) \<or>
     (\<exists>ctx \<in> set coverage. \<not> ctx_disabled ctx \<and>
        (\<exists>d \<in> set decisions. includes_approver ctx (approver_name d) \<and> command d = APPROVED))"
proof (induction coverage arbitrary: cd)
  case (Cons ctx coverage)
  from Cons.IH [OF Cons.prems [simplified foldl_Cons]] show ?case
    by (auto dest: apply_context_approve)
qed simp

lemma apply_context_auto:
  "cd_auto (apply_context decisions autos cd ctx) =
     (if ctx_disabled ctx then cd_auto cd
      else dict_set (cd_auto cd) (ctx_context ctx)
        (context_auto_approved (dict_of (map (\<lambda>d. (approver_name d, command d)) decisions)) autos ctx))"
proof -
  have "cd_auto (apply_context_decisions ctx ds cd) = cd_auto cd" for cd ds
    unfolding apply_context_decisions_def
    by (induction ds arbitrary: cd) (auto simp: apply_decision_def)
  then show ?thesis by (simp add: apply_context_def) (simp add: auto_approve_def)
qed

lemma fold_contexts_auto:
  fixes decisions autos
  defines "aa \<equiv> context_auto_approved (dict_of (map (\<lambda>d. (approver_name d, command d)) decisions)) autos"
  defines "out \<equiv> \<lambda>cd coverage. cd_auto (foldl (apply_context decisions autos) cd coverage)"
  shows "(k, b) \<in> set (out cd coverage) \<Longrightarrow> (k, b) \<in> set (cd_auto cd) \<or>
      (\<exists>ctx \<in> set coverage. \<not> ctx_disabled ctx \<and> ctx_context ctx = k \<and> b = aa ctx)"
    and "fst ` set (out cd coverage) = fst ` set (cd_auto cd) \<union>
      ctx_context ` {ctx \<in> set coverage. \<not> ctx_disabled ctx}"
proof (induction coverage arbitrary: cd)
  case (Cons ctx coverage)
  { case 1
    from Cons.IH(1) [of "apply_context decisions autos cd ctx"] 1 show ?case
      by (auto simp: out_def aa_def apply_context_auto dest: dict_set_elem split: if_splits)
  next
    case 2
    have "{c \<in> set (ctx # coverage). \<not> ctx_disabled c} =
        (if ctx_disabled ctx then {} else {ctx}) \<union> {c \<in> set coverage. \<not> ctx_disabled c}"
      by auto
    with Cons.IH(2) [of "apply_context decisions autos cd ctx"] show ?case
      by (cases "ctx_disabled ctx") (simp_all add: out_def apply_context_auto keys_dict_set)
  }
qed (simp_all add: out_def)

lemma author_holds_frame [simp]:
  "cd_approve (apply_author_holds coverage decisions a cd) = cd_approve cd"
  "cd_auto (apply_author_holds coverage decisions a cd) = cd_auto cd"
proof -
  have "cd_approve (author_hold_step coverage a cd d) = cd_approve cd \<and>
      cd_auto (author_hold_step coverage a cd d) = cd_auto cd" for cd d
    by (cases "command d") (auto simp: author_hold_step_def)
  then have "cd_approve (foldl (author_hold_step coverage a) cd ds) = cd_approve cd \<and>
      cd_auto (foldl (author_hold_step coverage a) cd ds) = cd_auto cd" for cd ds
    by (induction ds arbitrary: cd) auto
  then show "cd_approve (apply_author_holds coverage decisions a cd) = cd_approve cd"
    "cd_auto (apply_author_holds coverage decisions a cd) = cd_auto cd"
    by (auto simp: apply_author_holds_def)
qed

lemma approved_legitimate_step:
  assumes appr: "is_approved (apply_author_holds coverage decisions a
              (foldl (apply_context decisions autos) cd coverage))"
    and auto: "cd_auto cd = []"
    and that: "\<And>k'. (k', True) \<in> set (cd_approve cd) \<Longrightarrow> k' = k"
  shows "(k, True) \<in> set (cd_approve cd) \<or> legitimate lib decisions autos (DiffCoverage d coverage splits)"
proof -
  let ?aa = "context_auto_approved (dict_of (map (\<lambda>d. (approver_name d, command d)) decisions)) autos"
  let ?cd = "foldl (apply_context decisions autos) cd coverage"
  from appr consider k' where "(k', True) \<in> set (cd_approve ?cd)"
    | "cd_auto ?cd \<noteq> []" "\<And>p. p \<in> set (cd_auto ?cd) \<Longrightarrow> snd p"
    by (auto simp: is_approved_def list_ex_iff list_all_iff)
  then show ?thesis
  proof cases
    case 1
    from fold_contexts_approve [OF 1] that show ?thesis
      by (blast intro: legitimate.lgtm)
  next
    case 2
    have keys: "fst ` set (cd_auto ?cd) = ctx_context ` {ctx \<in> set coverage. \<not> ctx_disabled ctx}"
      using fold_contexts_auto(2) [of decisions autos cd coverage] by (simp add: auto)
    have "\<exists>ctx' \<in> set coverage. \<not> ctx_disabled ctx' \<and> ctx_context ctx' = ctx_context ctx \<and> ?aa ctx'"
      if "ctx \<in> set coverage" "\<not> ctx_disabled ctx" for ctx
    proof -
      from that keys obtain b where b: "(ctx_context ctx, b) \<in> set (cd_auto ?cd)" by force
      from 2(2) [OF b] have "b" by simp
      with fold_contexts_auto(1) [OF b] show ?thesis by (auto simp: auto)
    qed
    note cover = this
    from 2(1) keys have "\<exists>ctx \<in> set coverage. \<not> ctx_disabled ctx"
      by (cases "cd_auto ?cd") auto
    from this cover show ?thesis by (rule disjI2 [OF legitimate.auto_all])
  qed
qed

lemma approved_only_legitimately_aux:
  assumes "apply_decision_to_diff lib file decisions autos author dc = Inr cd" and "is_approved cd"
  shows "legitimate lib decisions autos dc"
  using assms
proof (induction dc arbitrary: cd)
  case (DiffCoverage d coverage splits)
  let ?dc = "DiffCoverage d coverage splits"
  from DiffCoverage.prems obtain cd0 where
    cd: "cd = apply_author_holds coverage decisions author
              (foldl (apply_context decisions autos) cd0 coverage)"
    and cd0: "cd0 = start_decision file d coverage \<or>
       (splits \<noteq> [] \<and> is_covered_by_splits lib ?dc = Inr True \<and>
        (\<exists>frags. rmap (apply_decision_to_diff lib file decisions autos author) splits = Inr frags \<and>
           cd0 = apply_fragments frags (start_decision file d coverage)))"
    by (auto simp: result_simps split: if_splits)
  from cd0 show ?case
  proof (elim disjE conjE exE)
    assume "cd0 = start_decision file d coverage"
    with approved_legitimate_step [OF DiffCoverage.prems(2) [unfolded cd], of "[]" lib d splits]
    show ?case by (simp add: start_decision_def)
  next
    fix frags
    assume sp: "splits \<noteq> []" "is_covered_by_splits lib ?dc = Inr True"
      and frags: "rmap (apply_decision_to_diff lib file decisions autos author) splits = Inr frags"
      and ap: "cd0 = apply_fragments frags (start_decision file d coverage)"
    have "(''fragments'', True) \<in> set (cd_approve cd0) \<or> legitimate lib decisions autos ?dc"
      by (rule approved_legitimate_step [OF DiffCoverage.prems(2) [unfolded cd]])
        (auto simp: ap apply_fragments_def start_decision_def Let_def split: if_splits)
    moreover have "legitimate lib decisions autos ?dc" if "(''fragments'', True) \<in> set (cd_approve cd0)"
    proof (rule legitimate.fragments [OF sp])
      fix s
      assume s: "s \<in> set splits"
      from frags s obtain f where f: "f \<in> set frags"
        "apply_decision_to_diff lib file decisions autos author s = Inr f"
        by (blast dest: rmap_Inr_elem)
      from that have "list_all (\<lambda>f. is_approved f \<and> \<not> is_held f) frags"
        by (auto simp: ap apply_fragments_def start_decision_def Let_def split: if_splits)
      with f DiffCoverage.IH [OF s f(2)] show "legitimate lib decisions autos s"
        by (auto simp: list_all_iff)
    qed
    ultimately show ?case by blast
  qed
qed

text \<open>A difference is only ever approved legitimately: by an approver of an enabled change type
  that covers it, by the auto-approval of every enabled covering context, or through its fragments.\<close>

theorem approved_only_legitimately:
  assumes "apply_decision_to_diff lib file decisions autos author dc = Inr cd" and "is_approved cd"
  shows "legitimate lib decisions autos dc"
  using assms by (rule approved_only_legitimately_aux)

section \<open>The last decision of a party counts\<close>

definition last_word ::
  "decision_command \<Rightarrow> decision_command \<Rightarrow> change_type_context \<Rightarrow> decision list \<Rightarrow> bool option" where
  "last_word yes no ctx decisions =
     (case rev (filter (\<lambda>c. c = yes \<or> c = no)
             (map command (filter (\<lambda>d. includes_approver ctx (approver_name d)) decisions))) of
        [] \<Rightarrow> None
      | c # _ \<Rightarrow> Some (c = yes))"

lemma last_word_snoc:
  "last_word yes no ctx (ds @ [d]) =
     (if includes_approver ctx (approver_name d) \<and> (command d = yes \<or> command d = no)
      then Some (command d = yes) else last_word yes no ctx ds)"
  by (simp add: last_word_def)

lemma apply_context_decisions_lookup:
  "map_of (cd_approve (apply_context_decisions ctx ds cd)) k =
     (if k = ctx_context ctx \<and> last_word APPROVED CANCEL_APPROVED ctx ds \<noteq> None
      then last_word APPROVED CANCEL_APPROVED ctx ds else map_of (cd_approve cd) k)"
  "map_of (cd_hold (apply_context_decisions ctx ds cd)) k =
     (if k = ctx_context ctx \<and> last_word HOLD CANCEL_HOLD ctx ds \<noteq> None
      then last_word HOLD CANCEL_HOLD ctx ds else map_of (cd_hold cd) k)"
proof (induction ds rule: rev_induct)
  case Nil
  { case 1 show ?case by (simp add: apply_context_decisions_def last_word_def)
  next
    case 2 show ?case by (simp add: apply_context_decisions_def last_word_def) }
next
  case (snoc d ds)
  have step: "apply_context_decisions ctx (ds @ [d]) cd =
      (if includes_approver ctx (approver_name d)
       then apply_context_decision (apply_context_decisions ctx ds cd) (ctx_context ctx) (command d)
       else apply_context_decisions ctx ds cd)"
    by (simp add: apply_context_decisions_def apply_decision_def)
  { case 1
    from snoc.IH(1) show ?case
      by (cases "command d") (auto simp: step last_word_snoc map_of_dict_set)
  next
    case 2
    from snoc.IH(2) show ?case
      by (cases "command d") (auto simp: step last_word_snoc map_of_dict_set) }
qed

lemma apply_context_lookup:
  "map_of (cd_approve (apply_context decisions autos cd ctx)) k =
     (if \<not> ctx_disabled ctx \<and> k = ctx_context ctx \<and> last_word APPROVED CANCEL_APPROVED ctx decisions \<noteq> None
      then last_word APPROVED CANCEL_APPROVED ctx decisions else map_of (cd_approve cd) k)"
  "map_of (cd_hold (apply_context decisions autos cd ctx)) k =
     (if \<not> ctx_disabled ctx \<and> k = ctx_context ctx \<and> last_word HOLD CANCEL_HOLD ctx decisions \<noteq> None
      then last_word HOLD CANCEL_HOLD ctx decisions else map_of (cd_hold cd) k)"
  by (auto simp: apply_context_def apply_context_decisions_lookup)

lemma fold_contexts_other:
  assumes "\<And>ctx. ctx \<in> set coverage \<Longrightarrow> \<not> ctx_disabled ctx \<Longrightarrow> ctx_context ctx \<noteq> k"
  shows "map_of (cd_approve (foldl (apply_context decisions autos) cd coverage)) k = map_of (cd_approve cd) k"
    "map_of (cd_hold (foldl (apply_context decisions autos) cd coverage)) k = map_of (cd_hold cd) k"
  using assms by (induction coverage arbitrary: cd) (auto simp: apply_context_lookup)

lemma author_holds_other:
  assumes "k \<noteq> ''mr-author''"
  shows "map_of (cd_hold (apply_author_holds coverage decisions a cd)) k = map_of (cd_hold cd) k"
proof -
  have "map_of (cd_hold (author_hold_step coverage a cd d)) k = map_of (cd_hold cd) k" for cd d
    using assms by (cases "command d") (auto simp: author_hold_step_def map_of_dict_set)
  then have "map_of (cd_hold (foldl (author_hold_step coverage a) cd ds)) k = map_of (cd_hold cd) k" for cd ds
    by (induction ds arbitrary: cd) auto
  then show ?thesis by (simp add: apply_author_holds_def)
qed

lemma apply_decision_to_diff_cases:
  assumes "apply_decision_to_diff lib file decisions autos author (DiffCoverage d coverage splits) = Inr cd"
  obtains cd0 where
    "cd = apply_author_holds coverage decisions author (foldl (apply_context decisions autos) cd0 coverage)"
    "cd_hold cd0 = []" "cd_auto cd0 = []" "\<And>k. k \<noteq> ''fragments'' \<Longrightarrow> map_of (cd_approve cd0) k = None"
proof -
  from assms obtain cd0 where
    "cd = apply_author_holds coverage decisions author (foldl (apply_context decisions autos) cd0 coverage)"
    "cd0 = start_decision file d coverage \<or> (\<exists>frags. cd0 = apply_fragments frags (start_decision file d coverage))"
    by (auto simp: result_simps split: if_splits)
  then show thesis
    by (intro that) (auto simp: start_decision_def apply_fragments_def Let_def)
qed

text \<open>Where no other enabled context has the same name, a context's approval and hold are
  decided by the last relevant command of its approvers, whatever the others say.\<close>

theorem last_decision_counts:
  assumes dec: "apply_decision_to_diff lib file decisions autos author
      (DiffCoverage d (before @ ctx # after) splits) = Inr cd"
    and enabled: "\<not> ctx_disabled ctx"
    and unique: "\<And>c. c \<in> set before \<union> set after \<Longrightarrow> \<not> ctx_disabled c \<Longrightarrow> ctx_context c \<noteq> ctx_context ctx"
    and names: "ctx_context ctx \<noteq> ''fragments''" "ctx_context ctx \<noteq> ''mr-author''"
  shows "map_of (cd_approve cd) (ctx_context ctx) = last_word APPROVED CANCEL_APPROVED ctx decisions \<and>
    map_of (cd_hold cd) (ctx_context ctx) = last_word HOLD CANCEL_HOLD ctx decisions"
proof -
  from dec obtain cd0 where
    cd: "cd = apply_author_holds (before @ ctx # after) decisions author
           (foldl (apply_context decisions autos) cd0 (before @ ctx # after))"
    and cd0: "cd_hold cd0 = []" "\<And>k. k \<noteq> ''fragments'' \<Longrightarrow> map_of (cd_approve cd0) k = None"
    by (rule apply_decision_to_diff_cases) blast
  have "\<And>c. c \<in> set before \<Longrightarrow> \<not> ctx_disabled c \<Longrightarrow> ctx_context c \<noteq> ctx_context ctx"
    "\<And>c. c \<in> set after \<Longrightarrow> \<not> ctx_disabled c \<Longrightarrow> ctx_context c \<noteq> ctx_context ctx"
    using unique by auto
  from fold_contexts_other [OF this(1)] fold_contexts_other [OF this(2)] show ?thesis
    using names by (simp add: cd author_holds_other apply_context_lookup enabled cd0)
qed

text \<open>Contexts of the same name share one auto-approval entry, and the last of them decides
  it: an earlier party that has not auto-approved is forgotten.\<close>

theorem auto_approval_last_of_name:
  assumes dec: "apply_decision_to_diff lib file decisions autos author
      (DiffCoverage d (before @ ctx # after) splits) = Inr cd"
    and enabled: "\<not> ctx_disabled ctx"
    and last: "\<And>c. c \<in> set after \<Longrightarrow> \<not> ctx_disabled c \<Longrightarrow> ctx_context c \<noteq> ctx_context ctx"
  shows "map_of (cd_auto cd) (ctx_context ctx) =
    Some (context_auto_approved (dict_of (map (\<lambda>d. (approver_name d, command d)) decisions)) autos ctx)"
proof -
  have other: "map_of (cd_auto (foldl (apply_context decisions autos) cd cov)) k = map_of (cd_auto cd) k"
    if "\<And>c. c \<in> set cov \<Longrightarrow> \<not> ctx_disabled c \<Longrightarrow> ctx_context c \<noteq> k" for cd cov k
    using that by (induction cov arbitrary: cd) (auto simp: apply_context_auto map_of_dict_set)
  from dec obtain cd0 where
    cd: "cd = apply_author_holds (before @ ctx # after) decisions author
           (foldl (apply_context decisions autos) cd0 (before @ ctx # after))"
    by (rule apply_decision_to_diff_cases)
  show ?thesis
    using other [of after "ctx_context ctx", OF last]
    by (simp add: cd apply_context_auto enabled map_of_dict_set)
qed

section \<open>The author of the merge request\<close>

lemma map_of_rev_filter_key:
  "P k \<Longrightarrow> map_of (rev (map (\<lambda>d. (f d, g d)) (filter (\<lambda>d. P (f d)) ds))) k =
     map_of (rev (map (\<lambda>d. (f d, g d)) ds)) k"
  by (induction ds) (auto simp: map_add_def split: option.splits)

lemma apply_context_without:
  assumes "\<not> ctx_disabled ctx \<Longrightarrow> \<not> includes_approver ctx a"
  shows "apply_context (filter (\<lambda>d. approver_name d \<noteq> a) decisions) autos cd ctx =
    apply_context decisions autos cd ctx"
proof (cases "ctx_disabled ctx")
  case False
  with assms have no: "\<not> includes_approver ctx a" by blast
  have "apply_context_decisions ctx (filter (\<lambda>d. approver_name d \<noteq> a) ds) cd = apply_context_decisions ctx ds cd"
    for ds cd
    unfolding apply_context_decisions_def using no by (induction ds arbitrary: cd) auto
  moreover have "context_auto_approved
        (dict_of (map (\<lambda>d. (approver_name d, command d)) (filter (\<lambda>d. approver_name d \<noteq> a) decisions))) autos ctx =
      context_auto_approved (dict_of (map (\<lambda>d. (approver_name d, command d)) decisions)) autos ctx"
    using no by (auto simp: context_auto_approved_def dict_simps includes_approver_iff
        map_of_rev_filter_key [where P = "\<lambda>x. x \<noteq> a"] split: list.splits)
  ultimately show ?thesis by (simp add: apply_context_def)
qed (simp add: apply_context_def)

lemma fold_contexts_without:
  assumes "\<not> is_enabled_approver coverage a"
  shows "foldl (apply_context (filter (\<lambda>d. approver_name d \<noteq> a) decisions) autos) cd coverage =
    foldl (apply_context decisions autos) cd coverage"
  using assms
proof (induction coverage arbitrary: cd)
  case (Cons ctx coverage)
  then have "\<not> is_enabled_approver coverage a" "\<not> ctx_disabled ctx \<Longrightarrow> \<not> includes_approver ctx a"
    by (auto simp: is_enabled_approver_def split: if_splits)
  with Cons.IH show ?case by (simp add: apply_context_without)
qed simp

lemma fold_contexts_lookup_cong:
  assumes "\<And>k. k \<noteq> z \<Longrightarrow> map_of (cd_approve c1) k = map_of (cd_approve c2) k" "cd_hold c1 = cd_hold c2"
    "cd_auto c1 = cd_auto c2" "k \<noteq> z"
  shows "map_of (cd_approve (foldl (apply_context decisions autos) c1 coverage)) k =
      map_of (cd_approve (foldl (apply_context decisions autos) c2 coverage)) k \<and>
    map_of (cd_hold (foldl (apply_context decisions autos) c1 coverage)) k =
      map_of (cd_hold (foldl (apply_context decisions autos) c2 coverage)) k \<and>
    cd_auto (foldl (apply_context decisions autos) c1 coverage) =
      cd_auto (foldl (apply_context decisions autos) c2 coverage)"
proof -
  have "(\<forall>k. k \<noteq> z \<longrightarrow> map_of (cd_approve (foldl (apply_context decisions autos) c1 cov)) k =
        map_of (cd_approve (foldl (apply_context decisions autos) c2 cov)) k) \<and>
      (\<forall>k. map_of (cd_hold (foldl (apply_context decisions autos) c1 cov)) k =
        map_of (cd_hold (foldl (apply_context decisions autos) c2 cov)) k) \<and>
      cd_auto (foldl (apply_context decisions autos) c1 cov) =
        cd_auto (foldl (apply_context decisions autos) c2 cov)" for cov
    by (induction cov rule: rev_induct) (use assms in \<open>auto simp: apply_context_lookup apply_context_auto\<close>)
  with assms(4) show ?thesis by blast
qed

text \<open>The comments of an author who is no approver of the change reach nothing but the author's
  own hold: approvals, auto-approvals and holds of every party are as if the author had been silent.\<close>

theorem author_comments_isolated:
  assumes author: "\<not> is_enabled_approver coverage author"
    and dec: "apply_decision_to_diff lib file decisions autos author
      (DiffCoverage d coverage splits) = Inr cd"
    and silent: "apply_decision_to_diff lib file (filter (\<lambda>d. approver_name d \<noteq> author) decisions)
      autos author (DiffCoverage d coverage splits) = Inr cd'"
    and names: "k \<noteq> ''mr-author''" "k \<noteq> ''fragments''"
  shows "map_of (cd_approve cd) k = map_of (cd_approve cd') k \<and>
    map_of (cd_hold cd) k = map_of (cd_hold cd') k \<and> cd_auto cd = cd_auto cd'"
proof -
  from dec obtain c0 where c0:
    "cd = apply_author_holds coverage decisions author (foldl (apply_context decisions autos) c0 coverage)"
    "cd_hold c0 = []" "cd_auto c0 = []" "\<And>k. k \<noteq> ''fragments'' \<Longrightarrow> map_of (cd_approve c0) k = None"
    by (rule apply_decision_to_diff_cases) blast
  let ?ds = "filter (\<lambda>d. approver_name d \<noteq> author) decisions"
  from silent obtain c1 where c1:
    "cd' = apply_author_holds coverage ?ds author (foldl (apply_context ?ds autos) c1 coverage)"
    "cd_hold c1 = []" "cd_auto c1 = []" "\<And>k. k \<noteq> ''fragments'' \<Longrightarrow> map_of (cd_approve c1) k = None"
    by (rule apply_decision_to_diff_cases) blast
  have "\<And>k. k \<noteq> ''fragments'' \<Longrightarrow> map_of (cd_approve c0) k = map_of (cd_approve c1) k"
    by (simp add: c0(4) c1(4))
  from fold_contexts_lookup_cong [OF this, where k = k and decisions = decisions and autos = autos and coverage = coverage]
  show ?thesis
    using names by (simp add: c0(1-3) c1(1-3) author_holds_other fold_contexts_without [OF author])
qed

section \<open>The labels of the merge request\<close>

lemma manage_conditional_label_snoc:
  "manage_conditional_label cur (conds @ [(l, b)]) dry =
     (let ls = manage_conditional_label cur conds dry
      in if b \<and> l \<notin> set ls then (if dry then ls else ls @ [l])
         else if \<not> b \<and> l \<in> set ls then (if dry then ls else remove1 l ls) else ls)"
  by (simp add: manage_conditional_label_def Let_def)

lemma manage_conditional_label_spec_aux:
  assumes "distinct current" "distinct (map fst conds)"
  shows "set (manage_conditional_label current conds False) =
      {l. map_of conds l = Some True \<or> (map_of conds l = None \<and> l \<in> set current)} \<and>
    manage_conditional_label current conds True = current"
proof -
  have "set (manage_conditional_label current conds False) =
      {l. map_of conds l = Some True \<or> (map_of conds l = None \<and> l \<in> set current)} \<and>
    distinct (manage_conditional_label current conds False)"
    using assms(2)
  proof (induction conds rule: rev_induct)
    case Nil
    with assms(1) show ?case by (simp add: manage_conditional_label_def)
  next
    case (snoc p conds)
    obtain l b where p: "p = (l, b)" by force
    with snoc.prems have "map_of conds l = None" by (auto simp: map_of_eq_None_iff)
    with snoc show ?case
      by (cases b) (auto simp: p manage_conditional_label_snoc Let_def map_add_def
          simp del: map_of_eq_Some_iff Some_eq_map_of_iff split: option.splits if_splits)
  qed
  moreover have "manage_conditional_label current conds True = current"
    by (induction conds rule: rev_induct) (auto simp: manage_conditional_label_snoc manage_conditional_label_def)
  ultimately show ?thesis by blast
qed

text \<open>Conditional labels: outside a dry run exactly the labels whose condition holds are added and
  those whose condition fails are removed, every other label stays; in a dry run none changes.\<close>

theorem manage_conditional_label_spec:
  assumes "distinct current" "distinct (map fst conds)"
  shows "set (manage_conditional_label current conds False) =
      {l. map_of conds l = Some True \<or> (map_of conds l = None \<and> l \<in> set current)} \<and>
    manage_conditional_label current conds True = current"
  using assms by (rule manage_conditional_label_spec_aux)

lemma wf_conditional_labels: "wf_dict (conditional_labels s h a adm mp)"
  unfolding conditional_labels_def by (intro wf_dict_update wf_dict_of)

lemma conditional_labels_approval:
  "map_of (conditional_labels s h a adm mp) (prioritized_approval_label (priority_value p)) =
     Some (s \<and> a \<and> mp = Some p)"
  by (cases p) (simp_all add: conditional_labels_def dict_simps change_type_priorities_def
      prioritized_approval_label_def map_add_def)

lemma approval_label_safe_aux:
  assumes run: "evaluate_merge_request lib changes authoritative mr = Inr v"
    and labels: "distinct (mr_labels mr)"
    and approved: "prioritized_approval_label (priority_value p) \<in> vd_labels v"
  shows "changes \<noteq> [] \<and> authoritative \<and> get_priority_for_changes lib changes = Inr (Some p) \<and>
    (\<forall>c \<in> set changes. all_changes_covered lib c = Inr True \<and>
      (\<forall>dcs. bundle_diff_coverage lib c = Inr dcs \<longrightarrow> (\<forall>dc \<in> set dcs. \<exists>cd \<in> set (vd_decisions v).
         apply_decision_to_diff lib (bfc_fileref c)
           (get_approver_decisions_from_mr_comments (mr_decision_comments mr))
           [mr_bot_username mr, mr_author mr] (mr_author mr) dc = Inr cd \<and> \<not> is_held cd \<and>
         legitimate lib (get_approver_decisions_from_mr_comments (mr_decision_comments mr))
           [mr_bot_username mr, mr_author mr] dc)))"
proof -
  let ?ds = "get_approver_decisions_from_mr_comments (mr_decision_comments mr)"
  let ?autos = "[mr_bot_username mr, mr_author mr]"
  from run obtain covered ok adm decisions prio owners where
    cov: "rall (all_changes_covered lib) changes = Inr covered"
    and dec: "apply_decisions_to_changes lib changes ?ds ?autos (mr_author mr) = Inr decisions"
    and prio: "get_priority_for_changes lib changes = Inr prio"
    and v: "vd_decisions v = decisions"
      "vd_labels v = set (filter (\<lambda>l. \<not> prefix ''change-owner/'' l) (manage_conditional_label (mr_labels mr)
         (conditional_labels (0 < length changes \<and> covered \<and> authoritative) (list_ex is_held decisions)
           (list_all (\<lambda>d. is_approved d \<and> \<not> is_held d) decisions) adm prio) False)) \<union>
         (\<Union>ls \<in> set owners. change_owner_label ` ls)"
    by (auto simp: evaluate_merge_request_def rbind_Inr_iff Let_def)
  have "prioritized_approval_label (priority_value p) \<noteq> change_owner_label l" for l
    by (simp add: prioritized_approval_label_def change_owner_label_def)
  with approved have "prioritized_approval_label (priority_value p) \<in> set (manage_conditional_label (mr_labels mr)
         (conditional_labels (0 < length changes \<and> covered \<and> authoritative) (list_ex is_held decisions)
           (list_all (\<lambda>d. is_approved d \<and> \<not> is_held d) decisions) adm prio) False)"
    by (auto simp: v)
  then have all: "changes \<noteq> []" "covered" "authoritative" "prio = Some p"
    "list_all (\<lambda>d. is_approved d \<and> \<not> is_held d) decisions"
    by (simp_all add: conjunct1 [OF manage_conditional_label_spec_aux [OF labels wf_conditional_labels]]
        conditional_labels_approval)
  have "\<exists>cd \<in> set decisions. apply_decision_to_diff lib (bfc_fileref c) ?ds ?autos (mr_author mr) dc = Inr cd \<and>
      \<not> is_held cd \<and> legitimate lib ?ds ?autos dc"
    if c: "c \<in> set changes" and dcs: "bundle_diff_coverage lib c = Inr dcs" and dc: "dc \<in> set dcs" for c dcs dc
  proof -
    from dec obtain css where css: "rmap (\<lambda>c. rbind (bundle_diff_coverage lib c)
        (rmap (apply_decision_to_diff lib (bfc_fileref c) ?ds ?autos (mr_author mr)))) changes = Inr css"
      "decisions = concat css"
      by (auto simp: apply_decisions_to_changes_def rbind_Inr_iff)
    from rmap_Inr_elem [OF css(1) c] dcs obtain cs where "cs \<in> set css"
      "rmap (apply_decision_to_diff lib (bfc_fileref c) ?ds ?autos (mr_author mr)) dcs = Inr cs"
      by (auto simp: rbind_Inr_iff)
    with rmap_Inr_elem [OF this(2) dc] obtain cd where cd: "cd \<in> set decisions"
      "apply_decision_to_diff lib (bfc_fileref c) ?ds ?autos (mr_author mr) dc = Inr cd"
      by (auto simp: css(2))
    from cd(1) all(5) have "is_approved cd" "\<not> is_held cd" by (auto simp: list_all_iff)
    with cd approved_only_legitimately_aux [OF cd(2)] show ?thesis by blast
  qed
  with all cov prio show ?thesis by (auto simp: v(1) rall_True_iff)
qed

text \<open>C2. No approval label without approval, end to end: where the run sets a label that lets the
  merge request merge, there are changes, the run is authoritative, every changed file is covered, the
  label names the lowest priority involved, and every fine-grained difference of every file has been
  approved legitimately and is on hold by nobody.\<close>

theorem approval_label_safe:
  assumes run: "evaluate_merge_request lib changes authoritative mr = Inr v"
    and labels: "distinct (mr_labels mr)"
    and approved: "prioritized_approval_label (priority_value p) \<in> vd_labels v"
  shows "changes \<noteq> [] \<and> authoritative \<and> get_priority_for_changes lib changes = Inr (Some p) \<and>
    (\<forall>c \<in> set changes. all_changes_covered lib c = Inr True \<and>
      (\<forall>dcs. bundle_diff_coverage lib c = Inr dcs \<longrightarrow> (\<forall>dc \<in> set dcs. \<exists>cd \<in> set (vd_decisions v).
         apply_decision_to_diff lib (bfc_fileref c)
           (get_approver_decisions_from_mr_comments (mr_decision_comments mr))
           [mr_bot_username mr, mr_author mr] (mr_author mr) dc = Inr cd \<and> \<not> is_held cd \<and>
         legitimate lib (get_approver_decisions_from_mr_comments (mr_decision_comments mr))
           [mr_bot_username mr, mr_author mr] dc)))"
  using run labels approved by (rule approval_label_safe_aux)

text \<open>The gap: a change without differences that no context covers, a moved file for one, has no
  influence on the verdict about a merge request with other changes. It needs no approver.\<close>

theorem uncovered_metadata_change_is_ignored:
  assumes "changes \<noteq> []"
  shows "evaluate_merge_request lib
      (changes @ [make_bundle_file_change lib fileref old new old_sha new_sha [] old_refs new_refs True])
      authoritative mr = evaluate_merge_request lib changes authoritative mr"
proof -
  let ?b = "make_bundle_file_change lib fileref old new old_sha new_sha [] old_refs new_refs True"
  have cov: "bundle_diff_coverage lib ?b = Inr []" "all_changes_covered lib ?b = Inr True"
    by (simp_all add: all_changes_covered_def bundle_diff_coverage_def make_bundle_file_change_def
        dict_of_def dict_update_def)
  then have parts: "involved_change_types lib ?b = Inr []" "bundle_change_owner_labels lib ?b = Inr {}"
    by (simp_all add: involved_change_types_def bundle_change_owner_labels_def)
  have eqs: "rall (all_changes_covered lib) (changes @ [?b]) = rall (all_changes_covered lib) changes"
    "is_change_admitted lib (changes @ [?b]) a oks = is_change_admitted lib changes a oks"
    "apply_decisions_to_changes lib (changes @ [?b]) ds autos a = apply_decisions_to_changes lib changes ds autos a"
    "get_priority_for_changes lib (changes @ [?b]) = get_priority_for_changes lib changes" for a oks ds autos
    unfolding is_change_admitted_def apply_decisions_to_changes_def get_priority_for_changes_def
    by (simp_all add: rall_snoc_True cov parts rmap_snoc rbind_assoc)
  show ?thesis
    unfolding evaluate_merge_request_def eqs
    using assms by (simp add: rmap_snoc parts rbind_assoc Let_def cong: rbind_cong)
qed

end
