(* ===== verification/Change_Run.thy ===== *)
theory Change_Run
  imports Role_Coverage Change_Decision
begin

text \<open>
  The ends of the change-owners pipeline: the answer of the \<open>/diff\<close> endpoint
  (\<open>bundle.py\<close>) and its translation to bundle changes (\<open>changes.py\<close>), the rows of the
  coverage reports and the \<open>run\<close> function (\<open>change_owners.py\<close>), and the change log built
  from the same machinery (\<open>change_log_tracking.py\<close>).
\<close>

section \<open>The diff endpoint\<close>

record datafile_diff =
  dd_datafilepath :: string
  dd_datafileschema :: string
  dd_old :: "(string, json) dict option"
  dd_new :: "(string, json) dict option"

record resourcefile_backref =
  br_path :: string
  br_datafileschema :: string
  br_jsonpath :: string

record resourcefile_state =
  rs_path :: string
  rs_content :: string
  rs_schema :: "string option"
  rs_sha256sum :: string
  rs_backrefs :: "resourcefile_backref list option"

record resourcefile_diff =
  rd_resourcepath :: string
  rd_old :: "resourcefile_state option"
  rd_new :: "resourcefile_state option"

record qontract_server_diff =
  qd_datafiles :: "(string, datafile_diff) dict"
  qd_resources :: "(string, resourcefile_diff) dict"

definition clean_datafile_content :: "(string, json) dict option \<Rightarrow> json" where
  "clean_datafile_content content =
     (case content of
        None \<Rightarrow> JNull
      | Some kvs \<Rightarrow> JDict (filter (\<lambda>(k, _). k \<notin> {''$file_sha256sum'', ''path'', ''$schema''}) kvs))"

definition datafile_field :: "string \<Rightarrow> (string, json) dict option \<Rightarrow> string" where
  \<comment> \<open>\<open>self.old.get(field) if self.old else None\<close>, then \<open>or ""\<close>; the fields are strings\<close>
  "datafile_field name content =
     (case content of
        None \<Rightarrow> []
      | Some kvs \<Rightarrow> (case map_of kvs name of Some (JStr s) \<Rightarrow> s | _ \<Rightarrow> []))"

definition resourcefileschema :: "resourcefile_diff \<Rightarrow> string option" where
  "resourcefileschema rd =
     str_or (Option.bind (rd_new rd) rs_schema) (Option.bind (rd_old rd) rs_schema)"

definition resource_refs :: "resourcefile_state option \<Rightarrow> file_ref list" where
  "resource_refs st =
     map (\<lambda>br. \<lparr>fr_file_type = DATAFILE, fr_path = br_path br,
                fr_schema = Some (br_datafileschema br), fr_json_path = Some (br_jsonpath br)\<rparr>)
       (case st of None \<Rightarrow> [] | Some s \<Rightarrow> or_empty (rs_backrefs s))"

definition parse_bundle_changes :: "change_libs \<Rightarrow> qontract_server_diff \<Rightarrow> string + bundle_file_change list" where
  "parse_bundle_changes libs qd =
     rbind (rmap (\<lambda>df. create_bundle_file_change libs (dd_datafilepath df) (Some (dd_datafileschema df))
              DATAFILE (clean_datafile_content (dd_old df)) (clean_datafile_content (dd_new df))
              (datafile_field ''$file_sha256sum'' (dd_old df)) (datafile_field ''$file_sha256sum'' (dd_new df))
              (datafile_field ''path'' (dd_old df)) (datafile_field ''path'' (dd_new df)) [] [])
            (dict_values (qd_datafiles qd))) (\<lambda>datafiles.
     rbind (rmap (\<lambda>rf.
              let str_of = (\<lambda>f st. case st of None \<Rightarrow> [] | Some s \<Rightarrow> f s);
                  content = (\<lambda>st. case st of None \<Rightarrow> JNull | Some s \<Rightarrow> JStr (rs_content s))
              in create_bundle_file_change libs (rd_resourcepath rf) (resourcefileschema rf) RESOURCEFILE
                   (content (rd_old rf)) (content (rd_new rf))
                   (str_of rs_sha256sum (rd_old rf)) (str_of rs_sha256sum (rd_new rf))
                   (str_of rs_path (rd_old rf)) (str_of rs_path (rd_new rf))
                   (resource_refs (rd_old rf)) (resource_refs (rd_new rf)))
            (dict_values (qd_resources qd))) (\<lambda>resources.
       Inr (List.map_filter id (datafiles @ resources))))"

definition fetch_bundle_changes :: "change_libs \<Rightarrow> qontract_server_diff \<Rightarrow> string + bundle_file_change list" where
  "fetch_bundle_changes libs qd = rbind (parse_bundle_changes libs qd) (aggregate_file_moves libs)"

section \<open>Reports\<close>

definition format_change_responsible :: "responsible_party \<Rightarrow> string" where
  "format_change_responsible cr =
     (let usernames = map (\<lambda>a. if tag_on_merge_requests a = Some True \<or> length (cr_approvers cr) = 1
                                then ''@'' @ org_username a else org_username a) (cr_approvers cr)
      in ''<details><summary>'' @ cr_context cr @ ''</summary>'' @ join '' '' usernames @ ''</details>'')"

record report_row =
  rr_file :: string
  rr_schema :: "string option"
  rr_change :: jsonpath
  rr_status :: "string option"
  rr_approvers :: string

definition coverage_report_row :: "bool \<Rightarrow> change_decision \<Rightarrow> report_row" where
  "coverage_report_row change_admitted d =
     (let approvers = map format_change_responsible (change_responsibles d) @
            (if cd_coverable_by_fragments d
             then [''automatically approved if all sub-properties are approved''] else [])
      in \<lparr>rr_file = fr_path (cd_file d), rr_schema = fr_schema (cd_file d), rr_change = d_path (cd_diff d),
          rr_status =
            (if \<not> change_admitted then Some ''restricted''
             else if is_held d then Some ''hold''
             else if is_approved d then Some ''approved'' else None),
          rr_approvers =
            (if approvers = [] then ''[- not self-serviceable -]'' else concat approvers)\<rparr>)"

definition report_reachability :: "change_decision list \<Rightarrow> string list" where
  "report_reachability change_decisions =
     add_all [] (concat (map (\<lambda>d. concat (map (\<lambda>cr. map render_for_mr_report (or_empty (cr_reachability cr)))
       (change_responsibles d))) change_decisions))"

record stdout_row =
  sr_file :: string
  sr_path :: jsonpath
  sr_details :: "(string \<times> string \<times> string \<times> string \<times> bool) option"

definition stdout_rows :: "change_decision \<Rightarrow> stdout_row list" where
  \<comment> \<open>the details: change type, origin, context, reachability, disabled\<close>
  "stdout_rows d =
     (let row = (\<lambda>details. \<lparr>sr_file = fr_path (cd_file d), sr_path = d_path (cd_diff d), sr_details = details\<rparr>)
      in (if cd_coverable_by_fragments d
          then [row (Some (''...'', ''...'', ''coverable by fragments'', [], False))] else []) @
         (if cd_coverage d \<noteq> []
          then map (\<lambda>ctx. row (Some (ctp_name (ctx_processor ctx), ctx_origin ctx, ctx_context ctx,
                    join '', '' (map render_for_mr_report (or_empty (ctx_reachability ctx))),
                    ctx_disabled ctx))) (cd_coverage d)
          else [row None]))"

section \<open>The run\<close>

datatype label_update = SetLabels "string set" | RemoveSelfServiceable | LeaveLabels

datatype run_outcome =
  UnknownMode
| Exit1 string
| Crashed string
| LoggedError string
| NotAdmitted label_update
| Finished label_update

definition label_update :: "bool \<Rightarrow> mr_verdict \<Rightarrow> label_update" where
  "label_update mr_management_enabled v =
     (if mr_management_enabled then SetLabels (vd_labels v)
      else if ''self-serviceable'' \<in> vd_labels v then RemoveSelfServiceable
      else LeaveLabels)"

fun string_error :: "resolution_error + 'a \<Rightarrow> string + 'a" where
  "string_error (Inl OutOfFuel) = Inl ''out of fuel''"
| "string_error (Inl (Raised e)) = Inl e"
| "string_error (Inr x) = Inr x"

record run_world =
  rw_libs :: change_libs
  rw_jinja :: jinja_lib
  rw_graph :: graph_lib
  rw_resolver :: file_diff_resolver
  rw_membership :: membership_resolver
  rw_lookup_approver :: "string \<Rightarrow> approver option"
  rw_today :: date
  rw_current_change_types :: "change_type_v1 list"
  rw_current_roles :: "role_v1 list"
  rw_comparison_change_types :: "change_type_v1 list"
  rw_comparison_roles :: "role_v1 list"
  rw_diff :: qontract_server_diff
  rw_mr :: mr_state

definition covered_changes :: "run_world \<Rightarrow> nat \<Rightarrow> processors \<Rightarrow> string + bundle_file_change list" where
  "covered_changes w fuel ps =
     rbind (fetch_bundle_changes (rw_libs w) (rw_diff w)) (\<lambda>changes.
       string_error (cover_all_changes (rw_jinja w)
         \<lparr>oe_lib = cl_jsonpath (rw_libs w), oe_resolver = rw_resolver w, oe_processors = ps\<rparr> fuel
         (rw_today w) (rw_membership w) (rw_comparison_roles w) (rw_lookup_approver w) (dict_values ps) changes))"

definition run_change_owners :: "run_world \<Rightarrow> nat \<Rightarrow> string \<Rightarrow> bool \<Rightarrow> run_outcome" where
  "run_change_owners w fuel mode mr_management_enabled =
     (let lib = cl_jsonpath (rw_libs w);
          init = init_change_type_processors lib (rw_jinja w) (rw_graph w)
      in if mode \<noteq> ''limited'' \<and> mode \<noteq> ''authoritative'' then UnknownMode
         else case rbind (init (rw_current_change_types w))
                     (\<lambda>_. fetch_self_service_roles (rw_today w) (rw_current_roles w)) of
             Inl e \<Rightarrow> Exit1 e
           | Inr _ \<Rightarrow> (case init (rw_comparison_change_types w) of
               Inl e \<Rightarrow> Crashed e
             | Inr ps \<Rightarrow> (case rbind (covered_changes w fuel ps)
                     (\<lambda>changes. evaluate_merge_request lib changes (mode = ''authoritative'') (rw_mr w)) of
                 Inl e \<Rightarrow> LoggedError e
               | Inr v \<Rightarrow>
                   if vd_admitted v then Finished (label_update mr_management_enabled v)
                   else NotAdmitted (label_update mr_management_enabled v))))"

text \<open>A limited run, or one whose evaluation fails, never lets a merge request merge: the only
  run that can set an approval label is an authoritative one with label management that finished its
  evaluation.\<close>

theorem approval_label_only_authoritative:
  assumes run: "run_change_owners w fuel mode mgmt \<in> {Finished (SetLabels ls), NotAdmitted (SetLabels ls)}"
    and labels: "distinct (mr_labels (rw_mr w))" and label: "prioritized_approval_label (priority_value p) \<in> ls"
  shows "mode = ''authoritative'' \<and> mgmt"
proof -
  from run obtain changes v where
    ev: "evaluate_merge_request (cl_jsonpath (rw_libs w)) changes (mode = ''authoritative'') (rw_mr w) = Inr v"
    and "label_update mgmt v = SetLabels ls"
    by (auto simp: run_change_owners_def Let_def rbind_Inr_iff split: if_splits sum.splits)
  then have "ls = vd_labels v" "mgmt" by (auto simp: label_update_def split: if_splits)
  with approval_label_safe_aux [OF ev labels] label show ?thesis by auto
qed

end
