(* ===== verification/Change_Log.thy ===== *)
theory Change_Log
  imports Change_Run
begin

text \<open>
  \<open>reconcile/change_owners/change_log_tracking.py\<close>: the change log of merged bundles. Which
  applications and change types a commit touches is computed with the coverage machinery; the log is
  kept sorted and a truncated copy below a size limit is stored beside it. GitLab, the state buckets and
  the JSON encoder are parameters.
\<close>

section \<open>Items\<close>

record change_log_item =
  cl_commit :: string
  cl_merged_at :: string
  cl_change_types :: "string list"
  cl_error :: bool
  cl_apps :: "string list"
  cl_description :: string

definition line_break :: "char \<Rightarrow> bool" where
  "line_break c \<longleftrightarrow> of_char c \<in> {10, 11, 12, 13, 28, 29, 30, 133 :: nat}"

fun py_splitlines_acc :: "string \<Rightarrow> string \<Rightarrow> string list" where
  \<comment> \<open>the current line is kept reversed; a carriage return and a line feed are one break\<close>
  "py_splitlines_acc acc [] = (if acc = [] then [] else [rev acc])"
| "py_splitlines_acc acc [c] = (if line_break c then [rev acc] else [rev (c # acc)])"
| "py_splitlines_acc acc (c # d # cs) =
     (if c = CHR 0x0D \<and> d = CHR 0x0A then rev acc # py_splitlines_acc [] cs
      else if line_break c then rev acc # py_splitlines_acc [] (d # cs)
      else py_splitlines_acc (c # acc) (d # cs))"

definition DEFAULT_MERGE_COMMIT_PREFIX :: string where
  "DEFAULT_MERGE_COMMIT_PREFIX = ''Merge branch '' @ [CHR 0x27]"

definition get_description_from_commit :: "string \<Rightarrow> string" where
  "get_description_from_commit message =
     (case filter (\<lambda>l. l \<noteq> [] \<and> \<not> prefix DEFAULT_MERGE_COMMIT_PREFIX l)
             (map py_strip (py_splitlines_acc [] message)) of
        [] \<Rightarrow> []
      | l # _ \<Rightarrow> l)"

section \<open>Applications of a change\<close>

definition json_get :: "json \<Rightarrow> string \<Rightarrow> string + json" where
  "json_get v k =
     (case v of JDict kvs \<Rightarrow> of_opt ''KeyError'' (map_of kvs k) | _ \<Rightarrow> Inl ''TypeError'')"

definition json_str :: "json \<Rightarrow> string + string" where
  "json_str v = (case v of JStr s \<Rightarrow> Inr s | _ \<Rightarrow> Inl ''TypeError'')"

definition truthy_field :: "(string, json) dict \<Rightarrow> string \<Rightarrow> json option" where
  "truthy_field kvs k = (case map_of kvs k of Some v \<Rightarrow> if truthy v then Some v else None | None \<Rightarrow> None)"

definition app_for_path :: "(string, string) dict \<Rightarrow> string \<Rightarrow> string" where
  "app_for_path app_name_by_path path =
     (case dict_get app_name_by_path path of
        Some n \<Rightarrow> if n = [] then path else n
      | None \<Rightarrow> path)"

definition app_of_version :: "(string, string) dict \<Rightarrow> json \<Rightarrow> string + string" where
  "app_of_version app_name_by_path c =
     rbind (json_get c ''app'') (\<lambda>c_app.
       case c_app of
         JDict kvs \<Rightarrow>
           (case (truthy_field kvs ''name'', truthy_field kvs ''$ref'', truthy_field kvs ''path'') of
              (Some n, _, _) \<Rightarrow> json_str n
            | (None, Some r, _) \<Rightarrow> rbind (json_str r) (\<lambda>path. Inr (app_for_path app_name_by_path path))
            | (None, None, Some p) \<Rightarrow> rbind (json_str p) (\<lambda>path. Inr (app_for_path app_name_by_path path))
            | (None, None, None) \<Rightarrow> Inl ''KeyError'')
       | _ \<Rightarrow> Inl ''AttributeError'')"

definition app_reference_schemas :: "string list" where
  "app_reference_schemas =
     [''/app-sre/saas-file-2.yml'', ''/openshift/namespace-1.yml'', ''/dependencies/jenkins-config-1.yml'',
      ''/dependencies/status-page-component-1.yml'', ''/app-sre/app-changelog-1.yml'',
      ''/app-sre/slo-document-1.yml'', ''/app-sre/scorecard-2.yml'', ''/app-sre/sre-checkpoint-1.yml'']"

record app_indexes =
  ai_app_name_by_path :: "(string, string) dict"
  ai_app_names_by_cluster :: "(string, string list) dict"

definition apps_of_change :: "app_indexes \<Rightarrow> bundle_file_change \<Rightarrow> string + string list" where
  "apps_of_change ai change =
     (let change_versions = filter truthy [bfc_old change, bfc_new change]
      in case fr_schema (bfc_fileref change) of
           None \<Rightarrow> Inr []
         | Some schema \<Rightarrow>
             if schema = ''/app-sre/app-1.yml''
             then rmap (\<lambda>c. rbind (json_get c ''name'') json_str) change_versions
             else if schema \<in> set app_reference_schemas
             then rmap (app_of_version (ai_app_name_by_path ai)) change_versions
             else if schema = ''/openshift/cluster-1.yml''
             then rbind (rmap (\<lambda>c. rbind (json_get c ''name'') (\<lambda>n. rbind (json_str n) (\<lambda>name.
                      Inr (or_empty (dict_get (ai_app_names_by_cluster ai) name))))) change_versions)
                    (\<lambda>nss. Inr (concat nss))
             else Inr [])"

section \<open>One commit\<close>

definition log_context :: "change_type_processor \<Rightarrow> bundle_file_change \<Rightarrow> change_type_context" where
  "log_context ctp change =
     \<lparr>ctx_processor = ctp, ctx_context = [], ctx_origin = [], ctx_context_file = bfc_fileref change,
      ctx_approvers = [], ctx_reachability = None, ctx_labels = None\<rparr>"

definition log_change_type ::
  "jsonpath_lib \<Rightarrow> jinja_lib \<Rightarrow> bundle_file_change \<times> string list \<Rightarrow> change_type_processor \<Rightarrow>
   string + bundle_file_change \<times> string list" where
  "log_change_type lib jj st ctp =
     (case st of (change, types) \<Rightarrow>
        rbind (cover_changes lib jj change (log_context ctp change)) (\<lambda>(change', covered_diffs).
          Inr (change', if covered_diffs \<noteq> [] then add_if_absent types (ctp_name ctp) else types)))"

definition log_change ::
  "jsonpath_lib \<Rightarrow> jinja_lib \<Rightarrow> app_indexes \<Rightarrow> change_type_processor list \<Rightarrow> change_log_item \<Rightarrow>
   bundle_file_change \<Rightarrow> string + change_log_item" where
  "log_change lib jj ai ctps item change =
     rbind (apps_of_change ai change) (\<lambda>apps.
     rbind (rfold (log_change_type lib jj) (change, cl_change_types item) ctps) (\<lambda>(_, types).
       Inr (item\<lparr>cl_apps := add_all [] (cl_apps item @ apps), cl_change_types := types\<rparr>)))"

record gl_commit =
  gc_message :: string
  gc_committed_date :: string
  gc_diff :: "(string \<times> string) list"

definition log_commit ::
  "change_libs \<Rightarrow> jinja_lib \<Rightarrow> app_indexes \<Rightarrow> (string, json) dict \<Rightarrow> change_type_processor list \<Rightarrow>
   string \<Rightarrow> gl_commit \<Rightarrow> qontract_server_diff option \<Rightarrow> string + change_log_item" where
  "log_commit libs jj ai content_store ctps commit gl diff_obj =
     (let item = \<lparr>cl_commit = commit, cl_merged_at = gc_committed_date gl, cl_change_types = [],
                  cl_error = False, cl_apps = [],
                  cl_description = get_description_from_commit (gc_message gl)\<rparr>
      in case diff_obj of
           None \<Rightarrow> Inr (item\<lparr>cl_error := True\<rparr>)
         | Some qd \<Rightarrow>
             rbind (parse_bundle_changes libs qd) (\<lambda>parsed.
             rbind (aggregate_file_moves libs parsed) (\<lambda>moved.
             rbind (aggregate_resource_changes (cl_jsonpath libs) moved content_store
                      [''/openshift/namespace-1.yml'', ''/dependencies/jenkins-config-1.yml'']) (\<lambda>changes.
             rbind (rfold (log_change (cl_jsonpath libs) jj ai ctps) item changes) (\<lambda>item'.
               Inr (item'\<lparr>cl_change_types := cl_change_types item' @
                  filter (\<lambda>dir. \<exists>(old, new) \<in> set (gc_diff gl). prefix dir old \<or> prefix dir new)
                    [''docs'', ''hack'']\<rparr>))))))"

section \<open>The log\<close>

definition rstrip_chars :: "string \<Rightarrow> string \<Rightarrow> string" where
  "rstrip_chars chars s = rev (dropWhile (\<lambda>c. c \<in> set chars) (rev s))"

definition change_log_items ::
  "(string \<Rightarrow> string + change_log_item) \<Rightarrow> change_log_item list option \<Rightarrow> string option \<Rightarrow> string list \<Rightarrow>
   string + change_log_item list" where
  \<comment> \<open>the existing log is there unless existing commits are processed again\<close>
  "change_log_items process existing only_commit objects =
     rbind (rmap (\<lambda>obj.
         let commit = rstrip_chars ''.json'' (dropWhile (\<lambda>c. c = CHR ''/'') obj)
         in if (case only_commit of None \<Rightarrow> False | Some c \<Rightarrow> c \<noteq> [] \<and> c \<noteq> commit) then Inr []
            else case List.find (\<lambda>i. cl_commit i = commit) (or_empty existing) of
                Some i \<Rightarrow> Inr [i]
              | None \<Rightarrow> rbind (process commit) (\<lambda>i. Inr [i])) objects)
       (\<lambda>iss. Inr (rev (sort_key cl_merged_at (rev (concat iss)))))"

fun minimize_items :: "(change_log_item list \<Rightarrow> nat) \<Rightarrow> nat \<Rightarrow> change_log_item list \<Rightarrow> change_log_item list" where
  "minimize_items size_of limit items =
     (if items \<noteq> [] \<and> limit \<le> size_of items
      then minimize_items size_of limit (take (length items - 5) items) else items)"

declare minimize_items.simps [simp del]

definition MINIMIZED_BUNDLE_DIFFS_SIZE_LIMIT_BYTES :: nat where
  "MINIMIZED_BUNDLE_DIFFS_SIZE_LIMIT_BYTES = 990 * 1024"

definition change_log_writes ::
  "(change_log_item list \<Rightarrow> nat) \<Rightarrow> bool \<Rightarrow> change_log_item list \<Rightarrow> (string \<times> change_log_item list) list" where
  "change_log_writes size_of dry_run items =
     (if dry_run then []
      else [(''bundle-diffs.json'', items),
            (''minimized-bundle-diffs.json'',
             minimize_items size_of MINIMIZED_BUNDLE_DIFFS_SIZE_LIMIT_BYTES items)])"

section \<open>The minimized log\<close>

lemma minimize_items_spec:
  "\<exists>n. minimize_items size_of limit items = take (length items - 5 * n) items \<and>
     (minimize_items size_of limit items = [] \<or> size_of (minimize_items size_of limit items) < limit) \<and>
     (\<forall>m < n. limit \<le> size_of (take (length items - 5 * m) items))"
proof (induction size_of limit items rule: minimize_items.induct)
  case (1 size_of limit items)
  show ?case
  proof (cases "items \<noteq> [] \<and> limit \<le> size_of items")
    case True
    let ?rest = "take (length items - 5) items"
    from "1.IH" [OF True] obtain n where n: "minimize_items size_of limit ?rest = take (length ?rest - 5 * n) ?rest"
      "minimize_items size_of limit ?rest = [] \<or> size_of (minimize_items size_of limit ?rest) < limit"
      "\<forall>m < n. limit \<le> size_of (take (length ?rest - 5 * m) ?rest)" by blast
    have shift: "take (length ?rest - 5 * m) ?rest = take (length items - 5 * Suc m) items" for m
      by (simp add: min_def)
    have "\<forall>m < Suc n. limit \<le> size_of (take (length items - 5 * m) items)"
      using n(3) True unfolding shift by (auto simp: less_Suc_eq_0_disj)
    with n(1,2) True show ?thesis
      unfolding minimize_items.simps [of size_of limit items] shift by (intro exI [of _ "Suc n"]) simp
  next
    case False
    then show ?thesis
      by (subst (1 2 3) minimize_items.simps) (auto intro!: exI [of _ 0])
  qed
qed

text \<open>The minimized log is the longest beginning of the log, shortened in steps of five, that stays
  below the limit: the most recent items survive, and the loop that drops them ends.\<close>

theorem minimized_log_longest:
  "\<exists>n. minimize_items size_of limit items = take (length items - 5 * n) items \<and>
     (minimize_items size_of limit items = [] \<or> size_of (minimize_items size_of limit items) < limit) \<and>
     (\<forall>m < n. limit \<le> size_of (take (length items - 5 * m) items))"
  by (rule minimize_items_spec)

end
