(* ===== verification/Change_Examples.thy ===== *)
theory Change_Examples
  imports Change_Log
begin

text \<open>
  Concrete instances of the change-owners model: a small JSONPath library over field names, a change type
  in the context of a role, and the properties of the change-owners theories applied to them.
\<close>

section \<open>A small JSONPath library\<close>

fun demo_find :: "jsonpath \<Rightarrow> json \<Rightarrow> json list" where
  "demo_find (Fields [k]) (JDict kvs) = (case map_of kvs k of Some v \<Rightarrow> [v] | None \<Rightarrow> [])"
| "demo_find Root v = [v]"
| "demo_find (Child l r) v = concat (map (demo_find r) (demo_find l v))"
| "demo_find p v = []"

fun demo_remove :: "jsonpath \<Rightarrow> json \<Rightarrow> json" where
  "demo_remove (Fields [k]) (JDict kvs) = JDict (filter (\<lambda>(k', _). k' \<noteq> k) kvs)"
| "demo_remove p v = v"

fun demo_str :: "jsonpath \<Rightarrow> string" where
  "demo_str (Fields fs) = join '','' fs"
| "demo_str _ = ''$''"

definition demo_full_paths :: "jsonpath \<Rightarrow> json \<Rightarrow> jsonpath list" where
  "demo_full_paths p v = (if plain_path p \<and> demo_find p v \<noteq> [] then [p] else [])"

definition demo_lib :: jsonpath_lib where
  "demo_lib =
     \<lparr>jl_parse = (\<lambda>s. Some (if s = ''$'' then Root else Fields [s])), jl_str = demo_str, jl_find = demo_find,
      jl_full_paths = demo_full_paths, jl_remove = demo_remove, jl_child = Child\<rparr>"

definition demo_jinja :: jinja_lib where
  "demo_jinja = \<lparr>jj_undeclared = (\<lambda>_. []), jj_render = (\<lambda>t _. t)\<rparr>"

lemma demo_lib_simps [simp]:
  "jl_parse demo_lib s = Some (if s = ''$'' then Root else Fields [s])" "jl_str demo_lib = demo_str"
  "jl_find demo_lib = demo_find" "jl_full_paths demo_lib = demo_full_paths"
  "jl_remove demo_lib = demo_remove" "jl_child demo_lib = Child"
  by (simp_all add: demo_lib_def)

lemma plain_full_paths_demo: "plain_full_paths demo_lib"
  by (simp add: plain_full_paths_def demo_full_paths_def)

section \<open>A change type in the context of a role\<close>

definition demo_ref :: "string \<Rightarrow> file_ref" where
  "demo_ref path = \<lparr>fr_file_type = DATAFILE, fr_path = path, fr_schema = Some ''/app-1.yml'', fr_json_path = None\<rparr>"

definition demo_processor :: "string \<Rightarrow> string \<Rightarrow> change_type_processor" where
  "demo_processor name field =
     \<lparr>ctp_name = name, ctp_labels = JNull, ctp_priority = HIGH, ctp_context_type = DATAFILE,
      ctp_context_schema = Some ''/app-1.yml'', ctp_disabled = False, ctp_implicit_ownership = [],
      ctp_restrictive = False,
      ctp_expressions = [((DATAFILE, Some ''/app-1.yml''), [ParsedPath field (Fields [field])])],
      ctp_detectors =
        [\<lparr>cdet_context_schema = Some ''/app-1.yml'', cdet_change_schema = Some ''/app-1.yml'', cdet_context = None,
          cdet_expressions = [ParsedPath field (Fields [field])]\<rparr>],
      ctp_expansions = [], ctp_heritage = []\<rparr>"

definition demo_context :: "string \<Rightarrow> string \<Rightarrow> string list \<Rightarrow> change_type_context" where
  "demo_context role field users =
     \<lparr>ctx_processor = demo_processor ''edit'' field, ctx_context = ''RoleV1 - '' @ role, ctx_origin = ''edit'',
      ctx_context_file = demo_ref ''/app.yml'',
      ctx_approvers = map (\<lambda>u. \<lparr>org_username = u, tag_on_merge_requests = None\<rparr>) users,
      ctx_reachability = Some [], ctx_labels = Some []\<rparr>"

definition demo_diff :: diff where
  "demo_diff = \<lparr>d_path = Fields [''owner''], d_type = CHANGED, d_old = JStr ''a'', d_new = JStr ''b''\<rparr>"

abbreviation lgtm_of :: "string \<Rightarrow> decision" where
  "lgtm_of u \<equiv> \<lparr>approver_name = u, command = APPROVED\<rparr>"

abbreviation hold_of :: "string \<Rightarrow> decision" where
  "hold_of u \<equiv> \<lparr>approver_name = u, command = HOLD\<rparr>"

lemmas demo_defs = demo_context_def demo_processor_def demo_diff_def demo_ref_def demo_jinja_def

lemmas decision_defs = start_decision_def apply_author_holds_def is_enabled_approver_def apply_context_def
  apply_context_decisions_def apply_decision_def auto_approve_def context_auto_approved_def
  includes_approver_def ctx_disabled_def is_approved_def is_held_def author_hold_step_def dict_of_def
  dict_update_def last_word_def

lemma approved_only_legitimately_witness:
  "legitimate demo_lib [lgtm_of ''alice''] []
     (DiffCoverage demo_diff [demo_context ''owners'' ''owner'' [''alice'', ''bob'']] [])"
proof -
  let ?dc = "DiffCoverage demo_diff [demo_context ''owners'' ''owner'' [''alice'', ''bob'']] []"
  obtain cd where "apply_decision_to_diff demo_lib (demo_ref ''/app.yml'') [lgtm_of ''alice''] [] ''carol'' ?dc = Inr cd"
    "is_approved cd"
    by (simp add: demo_defs decision_defs)
  then show ?thesis by (rule approved_only_legitimately)
qed

lemma last_decision_counts_witness:
  "\<exists>cd. apply_decision_to_diff demo_lib (demo_ref ''/app.yml'') [lgtm_of ''alice'', hold_of ''bob'',
       \<lparr>approver_name = ''bob'', command = CANCEL_APPROVED\<rparr>] [] ''carol''
     (DiffCoverage demo_diff [demo_context ''owners'' ''owner'' [''alice'', ''bob'']] []) = Inr cd \<and>
   map_of (cd_approve cd) ''RoleV1 - owners'' = Some False \<and> map_of (cd_hold cd) ''RoleV1 - owners'' = Some True"
proof -
  let ?ctx = "demo_context ''owners'' ''owner'' [''alice'', ''bob'']"
  let ?ds = "[lgtm_of ''alice'', hold_of ''bob'', \<lparr>approver_name = ''bob'', command = CANCEL_APPROVED\<rparr>]"
  obtain cd where cd: "apply_decision_to_diff demo_lib (demo_ref ''/app.yml'') ?ds [] ''carol''
      (DiffCoverage demo_diff ([] @ ?ctx # []) []) = Inr cd"
    by (simp add: demo_defs decision_defs)
  have "map_of (cd_approve cd) (ctx_context ?ctx) = last_word APPROVED CANCEL_APPROVED ?ctx ?ds \<and>
      map_of (cd_hold cd) (ctx_context ?ctx) = last_word HOLD CANCEL_HOLD ?ctx ?ds"
    by (rule last_decision_counts [OF cd]) (simp_all add: demo_defs decision_defs)
  with cd show ?thesis by (simp add: demo_defs decision_defs)
qed

lemma auto_approval_last_of_name_witness:
  "\<exists>cd. apply_decision_to_diff demo_lib (demo_ref ''/app.yml'') [] [''bot''] ''carol''
     (DiffCoverage demo_diff [demo_context ''owners'' ''owner'' [''alice''], demo_context ''owners'' ''owner'' [''bot'']] [])
       = Inr cd \<and> map_of (cd_auto cd) ''RoleV1 - owners'' = Some True \<and> is_approved cd"
proof -
  let ?a = "demo_context ''owners'' ''owner'' [''alice'']"
  let ?b = "demo_context ''owners'' ''owner'' [''bot'']"
  obtain cd where cd: "apply_decision_to_diff demo_lib (demo_ref ''/app.yml'') [] [''bot''] ''carol''
      (DiffCoverage demo_diff ([?a] @ ?b # []) []) = Inr cd" "is_approved cd"
    by (simp add: demo_defs decision_defs)
  have "map_of (cd_auto cd) (ctx_context ?b) =
      Some (context_auto_approved (dict_of (map (\<lambda>d. (approver_name d, command d)) ([] :: decision list))) [''bot''] ?b)"
    by (rule auto_approval_last_of_name [OF cd(1)]) (simp_all add: demo_defs decision_defs)
  with cd show ?thesis by (simp add: demo_defs decision_defs)
qed

lemma author_comments_isolated_witness:
  "\<exists>cd. apply_decision_to_diff demo_lib (demo_ref ''/app.yml'') [lgtm_of ''carol'', hold_of ''carol''] [] ''carol''
     (DiffCoverage demo_diff [demo_context ''owners'' ''owner'' [''alice'']] []) = Inr cd \<and>
   map_of (cd_approve cd) ''RoleV1 - owners'' = None \<and> map_of (cd_hold cd) ''RoleV1 - owners'' = None \<and> is_held cd"
proof -
  let ?cov = "[demo_context ''owners'' ''owner'' [''alice'']]"
  obtain cd where cd: "apply_decision_to_diff demo_lib (demo_ref ''/app.yml'') [lgtm_of ''carol'', hold_of ''carol'']
      [] ''carol'' (DiffCoverage demo_diff ?cov []) = Inr cd" "is_held cd"
    by (simp add: demo_defs decision_defs)
  obtain cd' where cd': "apply_decision_to_diff demo_lib (demo_ref ''/app.yml'')
      (filter (\<lambda>d. approver_name d \<noteq> ''carol'') [lgtm_of ''carol'', hold_of ''carol'']) [] ''carol''
      (DiffCoverage demo_diff ?cov []) = Inr cd'" "cd_approve cd' = []" "cd_hold cd' = []"
    by (simp add: demo_defs decision_defs)
  have "map_of (cd_approve cd) ''RoleV1 - owners'' = map_of (cd_approve cd') ''RoleV1 - owners'' \<and>
      map_of (cd_hold cd) ''RoleV1 - owners'' = map_of (cd_hold cd') ''RoleV1 - owners'' \<and> cd_auto cd = cd_auto cd'"
    by (rule author_comments_isolated [OF _ cd(1) cd'(1)]) (simp_all add: demo_defs decision_defs)
  with cd cd' show ?thesis by simp
qed

lemma manage_conditional_label_spec_witness:
  "set (manage_conditional_label [''keep'', ''old''] [(''old'', False), (''new'', True)] False) = {''keep'', ''new''}"
  using manage_conditional_label_spec [of "[''keep'', ''old'']" "[(''old'', False), (''new'', True)]"] by auto

lemma minimized_log_longest_witness:
  "\<exists>n. minimize_items length 7 (replicate 12 undefined) = take (12 - 5 * n) (replicate 12 undefined) \<and>
     length (minimize_items length 7 (replicate 12 undefined)) < 7"
  using minimized_log_longest [of length 7 "replicate 12 undefined"] by auto

section \<open>A covered and approved change\<close>

definition demo_old :: json where
  "demo_old = JDict [(''owner'', JStr ''a''), (''name'', JStr ''x'')]"

definition demo_new :: json where
  "demo_new = JDict [(''owner'', JStr ''b''), (''name'', JStr ''x'')]"

abbreviation demo_change :: bundle_file_change where
  "demo_change \<equiv> make_bundle_file_change demo_lib (demo_ref ''/app.yml'') demo_old demo_new ''1'' ''2'' [demo_diff] [] [] False"

abbreviation demo_ctx :: change_type_context where
  "demo_ctx \<equiv> demo_context ''owners'' ''owner'' [''alice'', ''bob'']"

definition demo_covered :: bundle_file_change where
  "demo_covered = demo_change\<lparr>bfc_diff_coverage := [(''owner'', DiffCoverage demo_diff [demo_ctx] [])]\<rparr>"

lemmas coverage_defs = demo_old_def demo_new_def make_bundle_file_change_def cover_with_all_def cover_changes_def
  cover_changes_for_diffs_def allowed_changed_paths_def allowed_changed_paths_for_file_type_and_schema_def
  demo_full_paths_def plain_path_def jsonpath_parts_def cover_diff_def changed_path_covered_by_path_def
  is_prefix_of_def add_all_def bundle_diff_coverage_def is_directly_covered_def Let_def

lemma demo_covers: "cover_with_all demo_lib demo_jinja demo_change [demo_ctx] = Inr demo_covered"
  by (simp add: coverage_defs demo_defs decision_defs demo_covered_def)

lemma demo_coverage:
  "bundle_diff_coverage demo_lib demo_covered = Inr [DiffCoverage demo_diff [demo_ctx] []]"
  by (simp add: coverage_defs demo_defs decision_defs demo_covered_def)


lemma all_changes_covered_complete_witness:
  "is_covered demo_lib (DiffCoverage demo_diff [demo_ctx] []) = Inr True"
proof -
  have cov: "all_changes_covered demo_lib demo_covered = Inr True"
    by (simp add: all_changes_covered_def demo_coverage is_covered_def is_directly_covered_def demo_defs decision_defs)
  have "(''owner'', DiffCoverage demo_diff [demo_ctx] []) \<in> set (bfc_diff_coverage demo_covered)"
    by (simp add: demo_covered_def)
  with cov show ?thesis by (rule all_changes_covered_complete)
qed

definition demo_mr :: mr_state where
  "demo_mr =
     \<lparr>mr_comments = [\<lparr>cm_username = ''alice'', cm_body = Some ''/lgtm'', cm_created_at = ''1''\<rparr>],
      mr_decision_comments = [\<lparr>cm_username = ''alice'', cm_body = Some ''/lgtm'', cm_created_at = ''1''\<rparr>],
      mr_author = ''carol'', mr_bot_username = ''bot'', mr_labels = [''tenant-x'']\<rparr>"

lemma demo_decisions:
  "get_approver_decisions_from_mr_comments (mr_decision_comments demo_mr) = [lgtm_of ''alice'']"
  by (simp add: get_approver_decisions_from_mr_comments_def demo_mr_def decision_of_line_def py_strip_def
      py_space_def Let_def)

lemma demo_parts:
  "all_changes_covered demo_lib demo_covered = Inr True"
  "ok_to_test_approvers (mr_comments demo_mr) = Inr []"
  "is_change_admitted demo_lib [demo_covered] a oks = Inr True"
  "get_priority_for_changes demo_lib [demo_covered] = Inr (Some HIGH)"
  "bundle_change_owner_labels demo_lib demo_covered = Inr {}"
proof -
  show "all_changes_covered demo_lib demo_covered = Inr True"
    by (simp add: all_changes_covered_def demo_coverage is_covered_def is_directly_covered_def demo_defs decision_defs)
  show "ok_to_test_approvers (mr_comments demo_mr) = Inr []"
    by (simp add: ok_to_test_approvers_def demo_mr_def py_strip_def py_space_def of_opt_def)
  show "is_change_admitted demo_lib [demo_covered] a oks = Inr True"
    by (simp add: is_change_admitted_def demo_coverage demo_defs Let_def)
  show "get_priority_for_changes demo_lib [demo_covered] = Inr (Some HIGH)"
    by (simp add: get_priority_for_changes_def involved_change_types_def demo_coverage demo_defs
        change_type_priorities_def)
  show "bundle_change_owner_labels demo_lib demo_covered = Inr {}"
    by (simp add: bundle_change_owner_labels_def demo_coverage demo_defs)
qed

lemma demo_applied:
  "\<exists>cd. apply_decisions_to_changes demo_lib [demo_covered] [lgtm_of ''alice''] [''bot'', ''carol''] ''carol''
     = Inr [cd] \<and> is_approved cd \<and> \<not> is_held cd"
  by (simp add: apply_decisions_to_changes_def demo_coverage demo_defs decision_defs)

lemma demo_mr_fields:
  "mr_author demo_mr = ''carol''" "mr_bot_username demo_mr = ''bot''" "mr_labels demo_mr = [''tenant-x'']"
  by (simp_all add: demo_mr_def)

lemma demo_verdict:
  "\<exists>v. evaluate_merge_request demo_lib [demo_covered] True demo_mr = Inr v \<and>
     prioritized_approval_label (priority_value HIGH) \<in> vd_labels v"
proof -
  obtain cd where cd: "apply_decisions_to_changes demo_lib [demo_covered] [lgtm_of ''alice''] [''bot'', ''carol'']
      ''carol'' = Inr [cd]" "is_approved cd" "\<not> is_held cd"
    using demo_applied by blast
  have label: "prioritized_approval_label (priority_value HIGH) \<in> set (manage_conditional_label [''tenant-x'']
      (conditional_labels True False True True (Some HIGH)) False)"
    by (subst conjunct1 [OF manage_conditional_label_spec_aux [OF _ wf_conditional_labels]])
      (simp_all only: conditional_labels_approval mem_Collect_eq, simp_all)
  have "\<not> prefix ''change-owner/'' (prioritized_approval_label (priority_value HIGH))"
    by (simp add: prioritized_approval_label_def)
  with label show ?thesis
    by (simp add: evaluate_merge_request_def demo_parts demo_decisions demo_mr_fields cd del: priority_value.simps)
qed

lemma approval_label_safe_witness:
  "legitimate demo_lib [lgtm_of ''alice''] [''bot'', ''carol''] (DiffCoverage demo_diff [demo_ctx] [])"
proof -
  obtain v where v: "evaluate_merge_request demo_lib [demo_covered] True demo_mr = Inr v"
    "prioritized_approval_label (priority_value HIGH) \<in> vd_labels v"
    using demo_verdict by blast
  have "distinct (mr_labels demo_mr)" by (simp add: demo_mr_def)
  from approval_label_safe [OF v(1) this v(2)] demo_coverage show ?thesis
    unfolding demo_decisions by (auto simp: demo_mr_def)
qed

lemma uncovered_metadata_change_is_ignored_witness:
  "\<exists>v. evaluate_merge_request demo_lib
      ([demo_covered] @ [make_bundle_file_change demo_lib (demo_ref ''/admin.yml'') demo_old demo_old ''3'' ''3'' [] [] [] True])
      True demo_mr = Inr v \<and> prioritized_approval_label (priority_value HIGH) \<in> vd_labels v"
proof -
  have "[demo_covered] \<noteq> []" by simp
  from uncovered_metadata_change_is_ignored [OF this, of demo_lib "demo_ref ''/admin.yml''" demo_old demo_old
      "''3''" "''3''" "[]" "[]" True demo_mr] demo_verdict
  show ?thesis by simp
qed

section \<open>Contexts that refer to each other\<close>

definition cyclic_processor :: "string \<Rightarrow> string \<Rightarrow> change_type_processor" where
  "cyclic_processor name other =
     (demo_processor name ''owner'')\<lparr>ctp_expansions :=
        [\<lparr>ce_context = ForwardrefOwnershipContext (Fields [''ref'']) None, ce_change_type = other\<rparr>]\<rparr>"

definition cyclic_env :: ownership_env where
  "cyclic_env =
     \<lparr>oe_lib = demo_lib,
      oe_resolver = (\<lambda>ref. let v = JDict [(''ref'', JStr (if fr_path ref = ''/a'' then ''/b'' else ''/a''))] in Inr (v, v)),
      oe_processors = [(''p'', cyclic_processor ''p'' ''q''), (''q'', cyclic_processor ''q'' ''p'')]\<rparr>"

definition cyclic_change :: file_change where
  "cyclic_change =
     \<lparr>fc_file_ref = demo_ref ''/a'', fc_old = JDict [(''ref'', JStr ''/b'')], fc_new = JDict [(''ref'', JStr ''/b'')],
      fc_old_backrefs = [], fc_new_backrefs = []\<rparr>"

lemma cyclic_bounded: "files_bounded cyclic_env cyclic_change {demo_ref ''/a'', demo_ref ''/b''}"
  by (simp add: files_bounded_def changes_seen_def cyclic_env_def cyclic_change_def resolve_file_change_def
      cyclic_processor_def demo_defs detector_context_file_refs_def context_paths_def add_all_def
      add_if_absent_def Let_def)
    (auto simp: context_paths_def add_all_def add_if_absent_def)

lemma find_context_file_refs_terminates_witness:
  "find_context_file_refs cyclic_env 5 (cyclic_processor ''p'' ''q'') cyclic_change [] \<noteq> Inl OutOfFuel \<and>
   find_context_file_refs cyclic_env 500 (cyclic_processor ''p'' ''q'') cyclic_change [] =
     find_context_file_refs cyclic_env 5 (cyclic_processor ''p'' ''q'') cyclic_change []"
proof -
  have "cyclic_processor ''p'' ''q'' \<in> snd ` set (oe_processors cyclic_env)"
    "length (oe_processors cyclic_env) * card {demo_ref ''/a'', demo_ref ''/b''} < 5"
    by (simp_all add: cyclic_env_def demo_ref_def)
  from find_context_file_refs_terminates [OF cyclic_bounded this, of 495] show ?thesis by simp
qed

section \<open>Inheritance\<close>

definition demo_graph :: graph_lib where
  "demo_graph =
     \<lparr>gr_cycles = (\<lambda>nodes edges. if acyclic (set edges) then [] else [[]]),
      gr_descendants = (\<lambda>nodes edges n. filter (\<lambda>d. (n, d) \<in> (set edges)\<^sup>+ \<and> d \<noteq> n) (map snd edges))\<rparr>"

lemma networkx_like_demo_edges:
  "set (gr_descendants demo_graph nodes edges n) = {d. (n, d) \<in> (set edges)\<^sup>+} - {n}"
proof -
  have "d \<in> snd ` set edges" if "(n, d) \<in> (set edges)\<^sup>+" for d
    using that by cases force+
  then show ?thesis by (auto simp: demo_graph_def image_iff)
qed


lemma networkx_like_demo: "networkx_like demo_graph"
  unfolding networkx_like_def using networkx_like_demo_edges by (auto simp: demo_graph_def)

definition demo_change_type :: "string \<Rightarrow> string list \<Rightarrow> change_type_v1" where
  "demo_change_type name parents =
     \<lparr>ct_name = name, ct_labels = JNull, ct_priority = ''high'', ct_context_type = ''datafile'',
      ct_context_schema = Some ''/app-1.yml'', ct_disabled = None, ct_restrictive = None,
      ct_changes = [JsonPathProvider None [''owner''] None], ct_implicit_ownership = None, ct_inherit = Some parents\<rparr>"

lemma demo_change_type_name: "ct_name (demo_change_type n ps) = n"
  by (simp add: demo_change_type_def)

lemma demo_acyclic: "acyclic {(''edit'', ''base'')}"
  by (simp add: acyclic_insert acyclic_def [of "{}"])

lemma demo_upper: "map upper_char ''datafile'' = ''DATAFILE''"
  by code_simp

lemma demo_path_expression: "make_path_expression demo_lib demo_jinja ''owner'' = Inr (ParsedPath ''owner'' (Fields [''owner'']))"
proof -
  have "\<not> sublist ''{{'' ''owner''" by code_simp
  then show ?thesis by (simp add: make_path_expression_def of_opt_def)
qed

lemma demo_descendants:
  "gr_descendants demo_graph nodes [(''edit'', ''base'')] n = (if n = ''edit'' then [''base''] else [])"
  by (simp add: demo_graph_def trancl_insert)

lemma demo_init:
  "\<exists>ps. init_change_type_processors demo_lib demo_jinja demo_graph
     [demo_change_type ''edit'' [''base''], demo_change_type ''base'' []] = Inr ps"
  by (simp add: init_change_type_processors_def demo_change_type_def raw_processor_def priority_of_value_def
      file_type_of_name_def demo_upper [simplified] inheritance_edges_def dict_of_def dict_update_def register_changes_def
      of_opt_def demo_path_expression guard_err_def aggregate_def aggregate_step_def demo_descendants
      add_change_detector_def inherit_from_def add_context_expansion_def Let_def)
    (simp add: demo_graph_def demo_acyclic acyclic_def [of "{}"])

lemma init_inheritance_complete_witness:
  "\<exists>ps. init_change_type_processors demo_lib demo_jinja demo_graph
     [demo_change_type ''edit'' [''base''], demo_change_type ''base'' []] = Inr ps \<and>
   heritage_of ps ''base'' = {''edit''} \<and> heritage_of ps ''edit'' = {}"
proof -
  obtain ps where ps: "init_change_type_processors demo_lib demo_jinja demo_graph
     [demo_change_type ''edit'' [''base''], demo_change_type ''base'' []] = Inr ps"
    using demo_init by blast
  have edges: "set (inheritance_edges [demo_change_type ''edit'' [''base''], demo_change_type ''base'' []]) =
      {(''edit'', ''base'')}"
    by (simp add: inheritance_edges_def demo_change_type_def)
  have above: "{a. (a, ''base'') \<in> {(''edit'', ''base'')}\<^sup>+} = {''edit''}" "{a. (a, ''edit'') \<in> {(''edit'', ''base'')}\<^sup>+} = {}"
    by (auto simp: trancl_insert)
  have "heritage_of ps n = {a. (a, n) \<in> {(''edit'', ''base'')}\<^sup>+}" if "n \<in> {''edit'', ''base''}" for n
    using init_inheritance_complete [OF networkx_like_demo ps] that
    unfolding edges Let_def list.map demo_change_type_name list.set by blast
  with ps show ?thesis by (simp add: above)
qed

section \<open>From the diff endpoint to the label\<close>

definition demo_role :: role_v1 where
  "demo_role =
     \<lparr>role_name = ''owners'', role_labels = JNull,
      role_self_service = Some [\<lparr>ss_change_type = ''edit'', ss_context_schema = Some ''/app-1.yml'',
        ss_datafiles = Some [\<lparr>df_schema = ''/app-1.yml'', df_path = ''/app.yml''\<rparr>], ss_resources = None\<rparr>],
      role_users = [RoleUser ''Alice'' ''alice'' None, RoleUser ''Bob'' ''bob'' None], role_bots = [],
      role_permissions = None, role_member_sources = None, role_expiration_date = Some ''2030-01-31''\<rparr>"

definition demo_env :: ownership_env where
  "demo_env = \<lparr>oe_lib = demo_lib, oe_resolver = noop_file_diff_resolver,
     oe_processors = [(''edit'', demo_processor ''edit'' ''owner'')]\<rparr>"

definition demo_membership :: membership_resolver where
  "demo_membership job = Inr []"

lemmas ownership_defs = find_context_step_def contexts_from_def detector_context_file_refs_def
  expand_def file_change_of_def

lemma demo_contexts:
  "change_type_contexts_for_self_service_roles demo_env 3 demo_membership [demo_role]
     [demo_processor ''edit'' ''owner''] [demo_change] = Inr [[demo_ctx]]"
  by (simp add: change_type_contexts_for_self_service_roles_def resolve_role_members_def build_resolver_jobs_def
      group_by_def contexts_for_change_def numeral_3_eq_3 ownership_defs demo_env_def demo_role_def demo_defs
      make_bundle_file_change_def owning_roles_def looked_up_def role_lookup_entries_def
      schema_role_lookup_entries_def lineage_def add_if_absent_def dict_of_def dict_update_def of_opt_def
      context_for_role_def approver_reachability_from_role_def change_type_labels_from_role_def
      map_filter_def Let_def)

lemma self_service_approvers_are_members_witness:
  "set (ctx_approvers demo_ctx) \<subseteq> {a. \<exists>m. member_of_role demo_membership demo_role m \<and> build_approver m = Some a}"
proof -
  have "demo_ctx \<in> set (concat [[demo_ctx]])" by simp
  from self_service_approvers_are_members [OF demo_contexts this] show ?thesis by auto
qed

definition demo_libs :: change_libs where
  "demo_libs =
     \<lparr>cl_jsonpath = demo_lib,
      cl_deepdiff =
        \<lparr>dd_diff = (\<lambda>old new. \<lparr>values_changed = [(''root.owner'', JStr ''a'', JStr ''b'')], dictionary_item_added = [],
           dictionary_item_removed = [], iterable_item_added = [], iterable_item_removed = [], type_changes = []\<rparr>),
         dd_parse_path = (\<lambda>_. [Inl ''owner''])\<rparr>,
      cl_anymarkup = (\<lambda>_. None)\<rparr>"

definition demo_server_diff :: qontract_server_diff where
  "demo_server_diff =
     (let content = (\<lambda>owner sha. Some [(''owner'', JStr owner), (''name'', JStr ''x''),
            (''path'', JStr ''/app.yml''), (''$file_sha256sum'', JStr sha)])
      in \<lparr>qd_datafiles = [(''/app.yml'', \<lparr>dd_datafilepath = ''/app.yml'', dd_datafileschema = ''/app-1.yml'',
            dd_old = content ''a'' ''1'', dd_new = content ''b'' ''2''\<rparr>)], qd_resources = []\<rparr>)"

lemma demo_fetch: "fetch_bundle_changes demo_libs demo_server_diff = Inr [demo_change]"
  by (simp add: fetch_bundle_changes_def parse_bundle_changes_def demo_server_diff_def demo_libs_def
      clean_datafile_content_def datafile_field_def create_bundle_file_change_def extract_diffs_def
      deepdiff_path_to_jsonpath_def make_diff_def normalize_for_display_def demo_defs make_bundle_file_change_def
      aggregate_file_moves_def collect_move_candidate_def is_file_creation_def is_file_deletion_def
      map_filter_def jsonpath_parts_def demo_old_def demo_new_def Let_def)

definition demo_world :: run_world where
  "demo_world =
     \<lparr>rw_libs = demo_libs, rw_jinja = demo_jinja, rw_graph = demo_graph, rw_resolver = noop_file_diff_resolver,
      rw_membership = demo_membership, rw_lookup_approver = (\<lambda>_. None), rw_today = (2026, 1, 1),
      rw_current_change_types = [demo_change_type ''edit'' []], rw_current_roles = [],
      rw_comparison_change_types = [demo_change_type ''edit'' []], rw_comparison_roles = [demo_role],
      rw_diff = demo_server_diff, rw_mr = demo_mr\<rparr>"

lemma demo_processors:
  "init_change_type_processors demo_lib demo_jinja demo_graph [demo_change_type ''edit'' []] =
     Inr [(''edit'', demo_processor ''edit'' ''owner'')]"
  by (simp add: init_change_type_processors_def demo_change_type_def raw_processor_def priority_of_value_def
      file_type_of_name_def demo_upper [simplified] inheritance_edges_def dict_of_def dict_update_def
      register_changes_def of_opt_def demo_path_expression guard_err_def aggregate_def demo_graph_def
      add_change_detector_def demo_processor_def add_all_def add_if_absent_def Let_def acyclic_def [of "{}"])

lemma demo_roles: "fetch_self_service_roles (2026, 1, 1) [demo_role] = Inr [demo_role]"
proof -
  have "parse_date ''2030-01-31'' = Some (2030, 1, 31)" by code_simp
  then show ?thesis
    by (simp add: fetch_self_service_roles_def filter_expired_def date_expired_def demo_role_def of_opt_def
        validate_self_service_role_def guard_err_def Let_def)
qed

lemma demo_covered_changes:
  "covered_changes demo_world 3 [(''edit'', demo_processor ''edit'' ''owner'')] = Inr [demo_covered]"
proof -
  have lib: "cl_jsonpath demo_libs = demo_lib" by (simp add: demo_libs_def)
  have "ctp_implicit_ownership (demo_processor ''edit'' ''owner'') = []" by (simp add: demo_processor_def)
  then show ?thesis
    by (simp add: covered_changes_def demo_world_def demo_fetch cover_all_changes_def demo_roles [unfolded One_nat_def] lib
        cover_changes_with_self_service_roles_def demo_contexts [unfolded demo_env_def] cover_each_def demo_covers
        cover_changes_with_implicit_ownership_def change_type_contexts_for_implicit_ownership_def
        )
      (simp add: cover_with_all_def)
qed

lemma approval_label_only_authoritative_witness:
  "\<exists>ls. run_change_owners demo_world 3 ''authoritative'' True = Finished (SetLabels ls) \<and>
     prioritized_approval_label (priority_value HIGH) \<in> ls \<and> ''authoritative'' = ''authoritative'' \<and> True"
proof -
  obtain v where v: "evaluate_merge_request demo_lib [demo_covered] True demo_mr = Inr v"
    "prioritized_approval_label (priority_value HIGH) \<in> vd_labels v"
    using demo_verdict by blast
  have adm: "vd_admitted v"
    using v(1) demo_parts(3) by (auto simp: evaluate_merge_request_def rbind_Inr_iff Let_def)
  have "rw_libs demo_world = demo_libs" "cl_jsonpath demo_libs = demo_lib" "rw_mr demo_world = demo_mr"
    "rw_jinja demo_world = demo_jinja" "rw_graph demo_world = demo_graph" "rw_current_roles demo_world = []"
    "rw_today demo_world = (2026, 1, 1)"
    "rw_current_change_types demo_world = [demo_change_type ''edit'' []]"
    "rw_comparison_change_types demo_world = [demo_change_type ''edit'' []]"
    by (simp_all add: demo_world_def demo_libs_def)
  then have run: "run_change_owners demo_world 3 ''authoritative'' True = Finished (SetLabels (vd_labels v))"
    by (simp add: run_change_owners_def demo_processors demo_covered_changes v adm label_update_def
        fetch_self_service_roles_def filter_expired_def)
  have "distinct (mr_labels (rw_mr demo_world))" by (simp add: demo_world_def demo_mr_def)
  from approval_label_only_authoritative [OF _ this v(2)] run v(2) show ?thesis by auto
qed

end
