(* ===== verification/Aus_Models.thy ===== *)
theory Aus_Models
  imports Py_Prelude "HOL-Library.Product_Lexorder" "HOL-Library.List_Lexorder" "HOL-Library.Char_ord"
begin

text \<open>
  The data of the advanced upgrade service: \<open>reconcile/aus/models.py\<close>,
  \<open>reconcile/aus/healthchecks.py\<close>, \<open>reconcile/utils/semver_helper.py\<close> and the cluster of
  \<open>reconcile/utils/ocm/base.py\<close>. The \<open>semver\<close> package is a parameter: what the code uses of a
  parsed version is its precedence, its text and its two leading numbers. Matching a version against a
  pattern (\<open>re.search\<close>) is a parameter as well.
\<close>

section \<open>Semantic versions\<close>

record 'k semver_lib =
  sv_key :: "string \<Rightarrow> 'k option"
  sv_str :: "string \<Rightarrow> string"
  sv_major :: "string \<Rightarrow> string"
  sv_minor :: "string \<Rightarrow> string"

text \<open>A version is parsed where its precedence is asked for; \<open>sv_str\<close> prints the parsed version.
  The package prints what it has parsed.\<close>

definition semver_prints :: "('k::linorder) semver_lib \<Rightarrow> bool" where
  "semver_prints sv \<longleftrightarrow> (\<forall>v. sv_key sv v \<noteq> None \<longrightarrow> sv_str sv v = v)"

definition parse_semver :: "('k::linorder) semver_lib \<Rightarrow> string \<Rightarrow> string + 'k" where
  "parse_semver sv v = of_opt ''ValueError'' (sv_key sv v)"

definition optional_minor_and_patch :: "string \<Rightarrow> string" where
  "optional_minor_and_patch v =
     (if CHR ''.'' \<notin> set v then v @ ''.0.0''
      else if length (filter (\<lambda>c. c = CHR ''.'') v) = 1 then v @ ''.0'' else v)"

definition sort_versions :: "('k::linorder) semver_lib \<Rightarrow> string list \<Rightarrow> string + string list" where
  "sort_versions sv vs =
     rbind (rmap (\<lambda>v. rbind (parse_semver sv v) (\<lambda>k. Inr (k, v))) vs) (\<lambda>kvs.
       Inr (map (\<lambda>kv. sv_str sv (snd kv)) (sort_key fst kvs)))"

definition is_version_bumped :: "('k::linorder) semver_lib \<Rightarrow> string \<Rightarrow> string \<Rightarrow> string + bool" where
  "is_version_bumped sv current_version previous_version =
     rbind (parse_semver sv current_version) (\<lambda>c.
     rbind (parse_semver sv previous_version) (\<lambda>p. Inr (p < c)))"

definition get_version_prefix :: "('k::linorder) semver_lib \<Rightarrow> string \<Rightarrow> string + string" where
  "get_version_prefix sv v =
     rbind (parse_semver sv v) (\<lambda>_. Inr (sv_major sv v @ ''.'' @ sv_minor sv v))"

definition semver_less :: "('k::linorder) semver_lib \<Rightarrow> string \<Rightarrow> string \<Rightarrow> string + bool" where
  \<comment> \<open>\<open>parse_semver(a).match("<" + b)\<close>\<close>
  "semver_less sv a b = rbind (parse_semver sv a) (\<lambda>x. rbind (parse_semver sv b) (\<lambda>y. Inr (x < y)))"

definition min_version :: "('k::linorder) semver_lib \<Rightarrow> string list \<Rightarrow> string + string" where
  \<comment> \<open>\<open>min(versions, key=parse_semver)\<close>: the first of the smallest\<close>
  "min_version sv vs =
     (case vs of
        [] \<Rightarrow> Inl ''ValueError''
      | v # ws \<Rightarrow>
          rbind (parse_semver sv v) (\<lambda>k.
          rbind (rfold (\<lambda>(kb, b) w. rbind (parse_semver sv w) (\<lambda>kw.
                    Inr (if kw < kb then (kw, w) else (kb, b)))) (k, v) ws) (\<lambda>(_, b). Inr b)))"

lemma parse_semver_Inr [result_simps]: "parse_semver sv v = Inr k \<longleftrightarrow> sv_key sv v = Some k"
  by (simp add: parse_semver_def result_simps)

lemma min_version_Inr:
  assumes "min_version sv vs = Inr m"
  shows "m \<in> set vs \<and> (\<exists>km. sv_key sv m = Some km \<and> (\<forall>v \<in> set vs. \<exists>k. sv_key sv v = Some k \<and> km \<le> k))"
proof -
  obtain v ws where vs: "vs = v # ws"
    using assms by (auto simp: min_version_def split: list.splits)
  define step where "step = (\<lambda>(kb, b) w. rbind (parse_semver sv w) (\<lambda>kw.
                    Inr (if kw < kb then (kw, w) else (kb, b))) :: string + 'a \<times> string)"
  from assms obtain k kb where k: "sv_key sv v = Some k" and run: "rfold step (k, v) ws = Inr (kb, m)"
    by (auto simp: vs min_version_def step_def result_simps)
  define P where "P = (\<lambda>s. snd s \<in> set vs \<and> sv_key sv (snd s) = Some (fst s) \<and> fst s \<le> k)"
  define Q where "Q = (\<lambda>w (s :: 'a \<times> string). \<exists>kw. sv_key sv w = Some kw \<and> fst s \<le> kw)"
  have P0: "P (k, v)" using k by (simp add: P_def vs)
  have step: "P t \<and> Q w t \<and> (\<forall>y. Q y s \<longrightarrow> Q y t)" if w: "w \<in> set ws" "P s" "step s w = Inr t" for s w t
  proof -
    from w(3) obtain kw where kw: "sv_key sv w = Some kw" "t = (if kw < fst s then (kw, w) else s)"
      by (cases s) (auto simp: step_def result_simps)
    have w': "w \<in> set vs" using w(1) by (simp add: vs)
    show ?thesis
    proof (cases "kw < fst s")
      case True
      with kw w(2) w' show ?thesis by (fastforce simp: P_def Q_def)
    next
      case False
      with kw w(2) show ?thesis by (simp add: P_def Q_def)
    qed
  qed
  from rfold_establishes [where P = P and Q = Q, OF run P0 step]
  have "P (kb, m)" "\<forall>w \<in> set ws. Q w (kb, m)" by blast+
  then show ?thesis using k by (simp add: P_def Q_def vs)
qed

section \<open>Clusters\<close>

record ocm_cluster =
  oc_id :: string
  oc_external_id :: string
  oc_name :: string
  oc_subscription_id :: string
  oc_product :: string
  oc_hypershift :: bool
  oc_sts_enabled :: "bool option"
  oc_version_id :: string
  oc_version_raw_id :: string
  oc_available_upgrades :: "string list"
  oc_available_channels :: "string list"
  oc_channel :: string

definition is_rosa_classic :: "ocm_cluster \<Rightarrow> bool" where
  "is_rosa_classic c \<longleftrightarrow> oc_product c = ''rosa'' \<and> \<not> oc_hypershift c"

definition is_rosa_hypershift :: "ocm_cluster \<Rightarrow> bool" where
  "is_rosa_hypershift c \<longleftrightarrow> oc_product c = ''rosa'' \<and> oc_hypershift c"

definition is_sts :: "ocm_cluster \<Rightarrow> bool" where
  "is_sts c \<longleftrightarrow> oc_sts_enabled c = Some True"

definition minor_version :: "('k::linorder) semver_lib \<Rightarrow> ocm_cluster \<Rightarrow> string + string" where
  "minor_version sv c = get_version_prefix sv (oc_version_raw_id c)"

definition is_digit :: "char \<Rightarrow> bool" where
  "is_digit c \<longleftrightarrow> 48 \<le> (of_char c :: nat) \<and> (of_char c :: nat) \<le> 57"

definition is_numeral :: "string \<Rightarrow> bool" where
  "is_numeral s \<longleftrightarrow> s \<noteq> [] \<and> list_all is_digit s"

definition nat_of_digits :: "string \<Rightarrow> nat" where
  "nat_of_digits s = foldl (\<lambda>n c. 10 * n + (of_char c - 48)) 0 s"

definition rsplit_last :: "char \<Rightarrow> string \<Rightarrow> (string \<times> string) option" where
  \<comment> \<open>\<open>rsplit(c, 1)\<close> where it yields two parts\<close>
  "rsplit_last c s =
     (if c \<in> set s
      then Some (rev (tl (dropWhile (\<lambda>x. x \<noteq> c) (rev s))), rev (takeWhile (\<lambda>x. x \<noteq> c) (rev s)))
      else None)"

definition y_stream_parts :: "ocm_cluster \<Rightarrow> (string \<times> string \<times> string) option" where
  "y_stream_parts c =
     (case rsplit_last (CHR ''-'') (oc_channel c) of
        None \<Rightarrow> None
      | Some (pre, version_part) \<Rightarrow>
          (case py_split (CHR ''.'') version_part of
             [major, minor] \<Rightarrow> if is_numeral major \<and> is_numeral minor then Some (pre, major, minor) else None
           | _ \<Rightarrow> None))"

definition is_y_stream_channel :: "ocm_cluster \<Rightarrow> bool" where
  "is_y_stream_channel c \<longleftrightarrow> y_stream_parts c \<noteq> None"

definition target_y_stream_channel :: "ocm_cluster \<Rightarrow> string option" where
  "target_y_stream_channel c =
     (case y_stream_parts c of
        None \<Rightarrow> None
      | Some (pre, major, minor) \<Rightarrow>
          let next_minor = nat_of_digits minor + 1;
              next_minor = (if pre = ''eus'' \<and> odd next_minor then next_minor + 1 else next_minor)
          in Some (pre @ ''-'' @ major @ ''.'' @ show_digits next_minor))"

section \<open>Health\<close>

record aus_health_error =
  he_source :: string
  he_error :: string
  he_enforce :: bool

type_synonym aus_cluster_health = "(string, aus_health_error list) dict"

definition health_get_errors :: "bool \<Rightarrow> aus_cluster_health \<Rightarrow> aus_health_error list" where
  "health_get_errors only_enforced h =
     filter (\<lambda>e. \<not> only_enforced \<or> he_enforce e) (concat (dict_values h))"

definition has_health_errors :: "bool \<Rightarrow> aus_cluster_health \<Rightarrow> bool" where
  "has_health_errors only_enforced h \<longleftrightarrow> health_get_errors only_enforced h \<noteq> []"

definition health_errors_by_source ::
  "bool \<Rightarrow> aus_cluster_health \<Rightarrow> (string, aus_health_error list) dict" where
  "health_errors_by_source only_enforced h =
     map (\<lambda>(source, errors). (source, filter (\<lambda>e. \<not> only_enforced \<or> he_enforce e) errors)) h"

type_synonym health_provider = "string \<Rightarrow> string \<Rightarrow> string list option"

definition provider_health ::
  "(string, health_provider \<times> bool) dict \<Rightarrow> string \<Rightarrow> string \<Rightarrow> aus_cluster_health" where
  \<comment> \<open>\<open>AUSClusterHealthCheckProvider.cluster_health\<close>\<close>
  "provider_health providers external_id org_id =
     map (\<lambda>(name, provider, enforce). (name,
        map (\<lambda>e. \<lparr>he_source = name, he_error = e, he_enforce = enforce\<rparr>)
          (case provider external_id org_id of None \<Rightarrow> [] | Some es \<Rightarrow> es))) providers"

definition build_health_providers ::
  "(string \<times> bool) list option \<Rightarrow> (string, health_provider) dict \<Rightarrow>
   string + (string, health_provider \<times> bool) dict" where
  "build_health_providers checks providers =
     rfold (\<lambda>acc (name, enforced).
         rbind (of_opt ''unavailable health check provider'' (dict_get providers name)) (\<lambda>p.
           Inr (dict_set acc name (p, enforced)))) []
       (case checks of None \<Rightarrow> [] | Some cs \<Rightarrow> cs)"

section \<open>Upgrade specs\<close>

record upgrade_conditions =
  uc_mutexes :: "string list option"
  uc_soak_days :: "int option"
  uc_sector :: "string option"
  uc_blocked_versions :: "string list option"

record upgrade_policy_v1 =
  up_workloads :: "string list"
  up_schedule :: string
  up_conditions :: upgrade_conditions
  up_version_gate_approvals :: "string list option"

record sector_v1 =
  sec_name :: string
  sec_max_parallel_upgrades :: "string option"
  sec_dependencies :: "string list option"

record minimal_org =
  mo_name :: string
  mo_org_id :: string
  mo_env :: string
  mo_publish_version_data :: "string list option"

record aus_org =
  og_name :: string
  og_org_id :: string
  og_env :: string
  og_env_labels :: "(string, string) dict option"
  og_disabled_integrations :: "string list option"
  og_blocked_versions :: "string list option"
  og_addon_managed_upgrades :: "bool option"
  og_inherit_version_data :: "minimal_org list option"
  og_publish_version_data :: "string list option"
  og_sectors :: "sector_v1 list option"
  og_health_checks :: "(string \<times> bool) list option"
  og_upgrade_policy_clusters :: "(string \<times> upgrade_policy_v1) list option"

record node_pool_spec =
  np_id :: string
  np_version :: string

record addon_installation =
  ai_id :: string
  ai_version_id :: string
  ai_available_upgrades :: "string list"

record cluster_upgrade_spec =
  us_org :: aus_org
  us_cluster :: ocm_cluster
  us_labels :: "(string, string) dict option"
  us_policy :: upgrade_policy_v1
  us_health :: aus_cluster_health
  us_node_pools :: "node_pool_spec list"
  us_addon :: "addon_installation option"

definition opt_list :: "'a list option \<Rightarrow> 'a list" where
  "opt_list xs = (case xs of None \<Rightarrow> [] | Some l \<Rightarrow> l)"

lemma opt_list_simps [simp]: "opt_list None = []" "opt_list (Some l) = l"
  by (simp_all add: opt_list_def)

definition current_version :: "cluster_upgrade_spec \<Rightarrow> string" where
  "current_version spec =
     (case us_addon spec of
        None \<Rightarrow> oc_version_raw_id (us_cluster spec)
      | Some a \<Rightarrow> ai_version_id a)"

definition oldest_current_version :: "('k::linorder) semver_lib \<Rightarrow> cluster_upgrade_spec \<Rightarrow> string + string" where
  "oldest_current_version sv spec =
     min_version sv (map np_version (us_node_pools spec) @ [current_version spec])"

definition blocked_versions :: "cluster_upgrade_spec \<Rightarrow> string list" where
  "blocked_versions spec =
     add_all (add_all [] (opt_list (og_blocked_versions (us_org spec))))
       (opt_list (uc_blocked_versions (up_conditions (us_policy spec))))"

definition version_blocked :: "(string \<Rightarrow> string \<Rightarrow> bool) \<Rightarrow> cluster_upgrade_spec \<Rightarrow> string \<Rightarrow> bool" where
  "version_blocked re_search spec version =
     (case us_addon spec of
        None \<Rightarrow> list_ex (\<lambda>b. re_search b version) (blocked_versions spec)
      | Some a \<Rightarrow>
          list_ex (\<lambda>b. re_search b (ai_id a @ ''/'' @ version))
            (filter (\<lambda>b. prefix (ai_id a @ ''/'') b \<or> prefix (''^'' @ ai_id a @ ''/'') b) (blocked_versions spec)))"

definition get_available_upgrades :: "('k::linorder) semver_lib \<Rightarrow> cluster_upgrade_spec \<Rightarrow> string + string list" where
  "get_available_upgrades sv spec =
     (case us_addon spec of
        Some a \<Rightarrow> Inr (ai_available_upgrades a)
      | None \<Rightarrow>
          let available = oc_available_upgrades (us_cluster spec)
          in rbind (oldest_current_version sv spec) (\<lambda>oldest.
               Inr (if oldest \<noteq> current_version spec \<and> current_version spec \<notin> set available
                    then current_version spec # available else available)))"

definition effective_mutexes :: "cluster_upgrade_spec \<Rightarrow> string list" where
  "effective_mutexes spec =
     add_if_absent (add_all [] (opt_list (uc_mutexes (up_conditions (us_policy spec))))) (oc_id (us_cluster spec))"

end
