(* ===== verification/Aus_Sectors.thy ===== *)
theory Aus_Sectors
  imports Aus_Models
begin

text \<open>
  The organization of the advanced upgrade service and its sectors, \<open>OrganizationUpgradeSpec\<close> and
  \<open>Sector\<close> of \<open>reconcile/aus/models.py\<close>. A sector object is its name: the dictionary of the
  organization holds the one object of a name, and the dependencies of a sector point to it. The
  lemmas show that validating the dependencies ends and that it succeeds exactly on an acyclic graph.
\<close>

section \<open>Organizations and their sectors\<close>

record sector =
  st_name :: string
  st_max_parallel :: "string option"
  st_dependencies :: "string list"
  st_specs :: "(string, cluster_upgrade_spec) dict"

record org_upgrade_spec =
  ous_org :: aus_org
  ous_specs :: "cluster_upgrade_spec list"
  ous_cluster_errors :: "(string, string list) dict"
  ous_org_errors :: "string list"
  ous_sectors :: "(string, sector) dict"

definition sector_deps :: "(string, sector) dict \<Rightarrow> string \<Rightarrow> string list" where
  "sector_deps sectors n = (case dict_get sectors n of None \<Rightarrow> [] | Some s \<Rightarrow> st_dependencies s)"

text \<open>The recursive generator over the dependencies of a sector, read as the sectors it has yielded
  and how it stopped: a consumer sees what was yielded before the error. The fuel bounds the depth of
  the recursion; running out of it is an outcome of its own.\<close>

datatype dependency_outcome = Exhausted | DependencyLoop string | DepthExceeded

fun walk_dependencies ::
  "(string \<Rightarrow> string list \<times> dependency_outcome) \<Rightarrow> string \<Rightarrow> string list \<Rightarrow> string list \<times> dependency_outcome" where
  \<comment> \<open>the loop over \<open>self.dependencies\<close>, with the generator of a dependency\<close>
  "walk_dependencies below self [] = ([], Exhausted)"
| "walk_dependencies below self (dep # deps) =
     (if self = dep then ([], DependencyLoop self)
      else case below dep of (ds, outcome) \<Rightarrow>
        if self \<in> set ds then (dep # takeWhile (\<lambda>d. d \<noteq> self) ds, DependencyLoop self)
        else if outcome \<noteq> Exhausted then (dep # ds, outcome)
        else case walk_dependencies below self deps of (rest, outcome') \<Rightarrow> (dep # ds @ rest, outcome'))"

primrec iter_dependencies ::
  "(string \<Rightarrow> string list) \<Rightarrow> nat \<Rightarrow> string \<Rightarrow> string list \<times> dependency_outcome" where
  "iter_dependencies deps 0 = (\<lambda>self. ([], DepthExceeded))"
| "iter_dependencies deps (Suc fuel) =
     (\<lambda>self. walk_dependencies (iter_dependencies deps fuel) self (deps self))"

definition validate_dependencies :: "(string \<Rightarrow> string list) \<Rightarrow> nat \<Rightarrow> string \<Rightarrow> dependency_outcome + unit" where
  "validate_dependencies deps fuel s =
     (case snd (iter_dependencies deps fuel s) of Exhausted \<Rightarrow> Inr () | e \<Rightarrow> Inl e)"

definition init_sectors :: "sector_v1 list \<Rightarrow> string + (string, sector) dict" where
  "init_sectors sectors =
     (let raw = dict_of (map (\<lambda>s. (sec_name s,
                  \<lparr>st_name = sec_name s, st_max_parallel = sec_max_parallel_upgrades s,
                   st_dependencies = [], st_specs = []\<rparr>)) sectors)
      in rfold (\<lambda>acc s.
             rbind (rmap (\<lambda>d. rbind (of_opt ''KeyError'' (dict_get acc d)) (\<lambda>_. Inr d))
                      (opt_list (sec_dependencies s))) (\<lambda>ds.
             rbind (of_opt ''KeyError'' (dict_get acc (sec_name s))) (\<lambda>st.
               Inr (dict_set acc (sec_name s) (st\<lparr>st_dependencies := ds\<rparr>))))) raw sectors)"

definition upgrade_spec_sort_key ::
  "('k::linorder) semver_lib \<Rightarrow> cluster_upgrade_spec \<Rightarrow> string + 'k \<times> int" where
  "upgrade_spec_sort_key sv spec =
     rbind (parse_semver sv (current_version spec)) (\<lambda>k.
       Inr (k, case uc_soak_days (up_conditions (us_policy spec)) of None \<Rightarrow> 0 | Some d \<Rightarrow> d))"

definition sort_specs ::
  "('k::linorder) semver_lib \<Rightarrow> cluster_upgrade_spec list \<Rightarrow> string + cluster_upgrade_spec list" where
  "sort_specs sv specs =
     rbind (rmap (\<lambda>s. rbind (upgrade_spec_sort_key sv s) (\<lambda>k. Inr (k, s))) specs)
       (\<lambda>kss. Inr (map snd (sort_key fst kss)))"

definition add_cluster_error :: "string \<Rightarrow> string \<Rightarrow> org_upgrade_spec \<Rightarrow> org_upgrade_spec" where
  "add_cluster_error uuid message o' =
     o'\<lparr>ous_cluster_errors := dict_set (ous_cluster_errors o') uuid
          ((case dict_get (ous_cluster_errors o') uuid of None \<Rightarrow> [] | Some ms \<Rightarrow> ms) @ [message])\<rparr>"

definition add_organization_error :: "string \<Rightarrow> org_upgrade_spec \<Rightarrow> org_upgrade_spec" where
  "add_organization_error message o' = o'\<lparr>ous_org_errors := ous_org_errors o' @ [message]\<rparr>"

definition add_spec ::
  "('k::linorder) semver_lib \<Rightarrow> org_upgrade_spec \<Rightarrow> cluster_upgrade_spec \<Rightarrow> string + org_upgrade_spec" where
  "add_spec sv o' spec =
     (let register = (\<lambda>o'. rbind (sort_specs sv (ous_specs o' @ [spec])) (\<lambda>ss. Inr (o'\<lparr>ous_specs := ss\<rparr>)))
      in case uc_sector (up_conditions (us_policy spec)) of
           None \<Rightarrow> register o'
         | Some n \<Rightarrow>
             if n = [] then register o'
             else (case dict_get (ous_sectors o') n of
                 None \<Rightarrow> Inr (add_cluster_error (oc_external_id (us_cluster spec))
                   (''cluster '' @ oc_external_id (us_cluster spec) @ '' references unknown sector '' @ n)
                   (add_organization_error (''sector '' @ n @ '' not found in organization'') o'))
               | Some st \<Rightarrow> register (o'\<lparr>ous_sectors := dict_set (ous_sectors o') n
                     (st\<lparr>st_specs := dict_set (st_specs st) (oc_name (us_cluster spec)) spec\<rparr>)\<rparr>)))"

definition nr_of_validation_errors :: "org_upgrade_spec \<Rightarrow> nat" where
  "nr_of_validation_errors o' = length (ous_cluster_errors o') + length (ous_org_errors o')"

definition has_validation_errors :: "org_upgrade_spec \<Rightarrow> bool" where
  "has_validation_errors o' \<longleftrightarrow> 0 < nr_of_validation_errors o'"

definition make_org_upgrade_spec ::
  "('k::linorder) semver_lib \<Rightarrow> aus_org \<Rightarrow> cluster_upgrade_spec list \<Rightarrow> string + org_upgrade_spec" where
  \<comment> \<open>the recursion of the validation is not deeper than the number of sectors\<close>
  "make_org_upgrade_spec sv org specs =
     rbind (init_sectors (opt_list (og_sectors org))) (\<lambda>sectors.
     rbind (case rmap (validate_dependencies (sector_deps sectors) (length sectors)) (dict_keys sectors) of
              Inl _ \<Rightarrow> Inl ''SectorConfigError'' | Inr _ \<Rightarrow> Inr ()) (\<lambda>_.
       rfold (add_spec sv) \<lparr>ous_org = org, ous_specs = [], ous_cluster_errors = [], ous_org_errors = [],
                            ous_sectors = sectors\<rparr> specs))"

section \<open>The validation of the dependencies\<close>

definition depends_on :: "(string \<Rightarrow> string list) \<Rightarrow> (string \<times> string) set" where
  "depends_on deps = {(s, d). d \<in> set (deps s)}"

lemma walk_no_self: "self \<notin> set (fst (walk_dependencies below self ds))"
  by (induction ds) (auto split: prod.splits dest: set_takeWhileD)

lemma walk_exhausted:
  "walk_dependencies below self ds = (ys, Exhausted) \<Longrightarrow>
     (\<forall>d \<in> set ds. d \<noteq> self \<and> snd (below d) = Exhausted \<and> self \<notin> set (fst (below d))) \<and>
     set ys = (\<Union>d \<in> set ds. insert d (set (fst (below d))))"
proof (induction ds arbitrary: ys)
  case (Cons d ds)
  then show ?case
    by (cases "walk_dependencies below self ds") (auto split: prod.splits if_splits)
qed simp

lemma walk_depth:
  "walk_dependencies below self ds = (ys, DepthExceeded) \<Longrightarrow>
     \<exists>d \<in> set ds. d \<noteq> self \<and> snd (below d) = DepthExceeded \<and> insert d (set (fst (below d))) \<subseteq> set ys"
proof (induction ds arbitrary: ys)
  case (Cons d ds)
  obtain rest out where w: "walk_dependencies below self ds = (rest, out)" by force
  show ?case
  proof (cases "snd (below d) = DepthExceeded")
    case True
    with Cons.prems show ?thesis by (intro bexI [of _ d]) (auto split: prod.splits if_splits)
  next
    case False
    with Cons.prems w have "out = DepthExceeded" and sub: "set rest \<subseteq> set ys"
      by (auto split: prod.splits if_splits)
    with Cons.IH w sub show ?thesis by fastforce
  qed
qed simp

lemma walk_loop:
  "walk_dependencies below self ds = (ys, DependencyLoop y) \<Longrightarrow>
     y = self \<and> (\<exists>d \<in> set ds. d = self \<or> self \<in> set (fst (below d))) \<or>
     (\<exists>d \<in> set ds. snd (below d) = DependencyLoop y)"
proof (induction ds arbitrary: ys)
  case (Cons d ds)
  then show ?case
    by (cases "walk_dependencies below self ds") (auto split: prod.splits if_splits)
qed simp

lemma walk_yields:
  "set (fst (walk_dependencies below self ds)) \<subseteq> (\<Union>d \<in> set ds. insert d (set (fst (below d))))"
proof (induction ds)
  case (Cons d ds)
  then show ?case
    by (cases "walk_dependencies below self ds") (auto split: prod.splits dest!: set_takeWhileD)
qed simp

lemmas walk_facts = walk_no_self walk_exhausted walk_depth walk_loop walk_yields

lemma iter_yields_reachable:
  "y \<in> set (fst (iter_dependencies deps n x)) \<Longrightarrow> (x, y) \<in> (depends_on deps)\<^sup>+"
proof (induction n arbitrary: x y)
  case (Suc n)
  then obtain d where d: "d \<in> set (deps x)" "y = d \<or> y \<in> set (fst (iter_dependencies deps n d))"
    using walk_yields [of "iter_dependencies deps n" x "deps x"] by auto
  then have "(x, d) \<in> depends_on deps" by (simp add: depends_on_def)
  with d(2) Suc.IH show ?case by (auto intro: trancl_into_trancl2)
qed simp

lemma iter_loop_sound:
  "snd (iter_dependencies deps n x) = DependencyLoop y \<Longrightarrow> (y, y) \<in> (depends_on deps)\<^sup>+"
proof (induction n arbitrary: x y)
  case (Suc n)
  obtain ys where w: "walk_dependencies (iter_dependencies deps n) x (deps x) = (ys, DependencyLoop y)"
    using Suc.prems by (cases "walk_dependencies (iter_dependencies deps n) x (deps x)") auto
  from walk_loop [OF w] show ?case
  proof
    assume "\<exists>d \<in> set (deps x). snd (iter_dependencies deps n d) = DependencyLoop y"
    then show ?thesis using Suc.IH by blast
  next
    assume "y = x \<and> (\<exists>d \<in> set (deps x). d = x \<or> x \<in> set (fst (iter_dependencies deps n d)))"
    then obtain d where d: "y = x" "(x, d) \<in> depends_on deps" "d = x \<or> (d, x) \<in> (depends_on deps)\<^sup>+"
      using iter_yields_reachable by (auto simp: depends_on_def)
    then show ?thesis by (auto intro: trancl_into_trancl2)
  qed
qed simp

lemma iter_exhausted_complete:
  "snd (iter_dependencies deps n x) = Exhausted \<Longrightarrow> (x, y) \<in> (depends_on deps)\<^sup>+ \<Longrightarrow>
     y \<in> set (fst (iter_dependencies deps n x)) \<and> y \<noteq> x"
proof (induction n arbitrary: x y)
  case (Suc n)
  obtain ys where w: "walk_dependencies (iter_dependencies deps n) x (deps x) = (ys, Exhausted)"
    using Suc.prems by (cases "walk_dependencies (iter_dependencies deps n) x (deps x)") auto
  from Suc.prems(2) obtain d where d: "d \<in> set (deps x)" "y = d \<or> (d, y) \<in> (depends_on deps)\<^sup>+"
    by (auto simp: depends_on_def dest: tranclD)
      (metis (mono_tags, lifting) case_prodD mem_Collect_eq rtranclD tranclD)
  have "y \<in> set ys"
    using walk_exhausted [OF w] d Suc.IH by blast
  moreover have "x \<notin> set ys"
    using walk_no_self [of x "iter_dependencies deps n" "deps x"] w by simp
  ultimately show ?case using w by auto
qed simp

lemma iter_depth_path:
  "snd (iter_dependencies deps n x) = DepthExceeded \<Longrightarrow>
     \<exists>xs. length xs = n \<and> distinct (x # xs) \<and> set xs \<subseteq> set (fst (iter_dependencies deps n x))"
proof (induction n arbitrary: x)
  case (Suc n)
  obtain ys where w: "walk_dependencies (iter_dependencies deps n) x (deps x) = (ys, DepthExceeded)"
    using Suc.prems by (cases "walk_dependencies (iter_dependencies deps n) x (deps x)") auto
  obtain d where d: "snd (iter_dependencies deps n d) = DepthExceeded"
      "insert d (set (fst (iter_dependencies deps n d))) \<subseteq> set ys"
    using walk_depth [OF w] by blast
  from Suc.IH [OF d(1)] obtain xs where xs: "length xs = n" "distinct (d # xs)"
      "set xs \<subseteq> set (fst (iter_dependencies deps n d))" by blast
  have "x \<notin> set ys"
    using walk_no_self [of x "iter_dependencies deps n" "deps x"] w by simp
  with xs d(2) w show ?case by (intro exI [of _ "d # xs"]) auto
qed simp

lemma reachable_in_closed:
  "(x, y) \<in> (depends_on deps)\<^sup>+ \<Longrightarrow> (\<And>s. s \<in> S \<Longrightarrow> set (deps s) \<subseteq> S) \<Longrightarrow> x \<in> S \<Longrightarrow> y \<in> S"
  by (induction rule: trancl_induct) (auto simp: depends_on_def)

lemma iter_depth_enough:
  assumes "finite S" "\<And>s. s \<in> S \<Longrightarrow> set (deps s) \<subseteq> S" "x \<in> S" "card S \<le> n"
  shows "snd (iter_dependencies deps n x) \<noteq> DepthExceeded"
proof
  assume "snd (iter_dependencies deps n x) = DepthExceeded"
  from iter_depth_path [OF this] obtain xs where
    xs: "length xs = n" "distinct (x # xs)" "set xs \<subseteq> set (fst (iter_dependencies deps n x))" by blast
  have "set (x # xs) \<subseteq> S"
  proof
    fix y
    assume "y \<in> set (x # xs)"
    with xs(3) have "y = x \<or> (x, y) \<in> (depends_on deps)\<^sup>+"
      using iter_yields_reachable [of y deps n x] by auto
    then show "y \<in> S"
      using reachable_in_closed [where deps = deps and S = S and x = x and y = y] assms(2,3) by blast
  qed
  from card_mono [OF assms(1) this] distinct_card [OF xs(2)] xs(1) assms(4) show False by simp
qed

lemma validate_dependencies_iff:
  assumes "finite S" "\<And>s. s \<in> S \<Longrightarrow> set (deps s) \<subseteq> S" "x \<in> S" "card S \<le> n"
    and "acyclic (depends_on deps)"
  shows "validate_dependencies deps n x = Inr ()"
  using iter_depth_enough [OF assms(1-4)] iter_loop_sound [of deps n x] assms(5)
  by (cases "snd (iter_dependencies deps n x)") (auto simp: validate_dependencies_def acyclic_def)

lemma validate_dependencies_no_loop:
  "validate_dependencies deps n x = Inr u \<Longrightarrow> (x, x) \<notin> (depends_on deps)\<^sup>+"
  using iter_exhausted_complete [of deps n x x]
  by (auto simp: validate_dependencies_def split: dependency_outcome.splits)

section \<open>The sectors of an organization\<close>

lemma sector_deps_elem:
  "d \<in> set (sector_deps sectors n) \<longleftrightarrow>
     (\<exists>st. dict_get sectors n = Some st \<and> d \<in> set (st_dependencies st))"
  by (cases "dict_get sectors n") (auto simp: sector_deps_def)

lemma sector_deps_set:
  "sector_deps (dict_set acc m (st\<lparr>st_dependencies := ds\<rparr>)) n = (if n = m then ds else sector_deps acc n)"
  by (simp add: sector_deps_def dict_simps)

lemma card_dict_keys: "card (fst ` set d) \<le> length d"
  by (metis card_length length_map set_map)

lemma init_sectors_keys:
  assumes "init_sectors ss = Inr sectors"
  shows "wf_dict sectors" "fst ` set sectors = sec_name ` set ss"
    "\<And>n. set (sector_deps sectors n) \<subseteq> fst ` set sectors"
proof -
  define raw where "raw = dict_of (map (\<lambda>s. (sec_name s,
      \<lparr>st_name = sec_name s, st_max_parallel = sec_max_parallel_upgrades s,
       st_dependencies = [], st_specs = []\<rparr>)) ss)"
  define step where "step = (\<lambda>(acc :: (string, sector) dict) (s :: sector_v1).
      rbind (rmap (\<lambda>d. rbind (of_opt ''KeyError'' (dict_get acc d)) (\<lambda>_. Inr d))
               (opt_list (sec_dependencies s))) (\<lambda>ds.
      rbind (of_opt ''KeyError'' (dict_get acc (sec_name s))) (\<lambda>st.
        Inr (dict_set acc (sec_name s) (st\<lparr>st_dependencies := ds\<rparr>)))))"
  define P where "P = (\<lambda>acc :: (string, sector) dict. wf_dict acc \<and> fst ` set acc = sec_name ` set ss
      \<and> (\<forall>n. set (sector_deps acc n) \<subseteq> fst ` set acc))"
  have run: "rfold step raw ss = Inr sectors"
    using assms by (simp add: init_sectors_def raw_def step_def Let_def)
  have raw: "P raw"
    unfolding P_def raw_def
    by (auto simp: dict_simps sector_deps_elem image_image dest!: map_of_SomeD [where xs = "rev _"])
  have step: "P t" if "s \<in> set ss" "P acc" "step acc s = Inr t" for acc s t
  proof -
    from that(3) obtain ds st where ds: "rmap (\<lambda>d. rbind (of_opt ''KeyError'' (dict_get acc d)) (\<lambda>_. Inr d))
               (opt_list (sec_dependencies s)) = Inr ds"
      and st: "dict_get acc (sec_name s) = Some st"
      and t: "t = dict_set acc (sec_name s) (st\<lparr>st_dependencies := ds\<rparr>)"
      by (auto simp: step_def result_simps)
    have "set ds \<subseteq> fst ` set acc"
      using rmap_Inr_set [OF ds] by (auto simp: result_simps) (metis fst_conv image_iff map_of_SomeD)
    moreover have "sec_name s \<in> fst ` set acc"
      using st by (metis fst_conv image_eqI map_of_SomeD)
    ultimately show ?thesis
      using that(2) unfolding P_def t sector_deps_set
      by (simp add: dict_simps insert_absorb wf_dict_set) blast
  qed
  have "P sectors"
    by (rule rfold_invariant [where P = P, OF run raw]) (rule step)
  then show "wf_dict sectors" "fst ` set sectors = sec_name ` set ss"
    "\<And>n. set (sector_deps sectors n) \<subseteq> fst ` set sectors"
    unfolding P_def by blast+
qed

lemma validate_all_iff:
  assumes "init_sectors ss = Inr sectors"
  shows "(\<exists>us. rmap (validate_dependencies (sector_deps sectors) (length sectors)) (dict_keys sectors) = Inr us)
           \<longleftrightarrow> acyclic (depends_on (sector_deps sectors))"
proof
  note keys = init_sectors_keys [OF assms]
  assume "\<exists>us. rmap (validate_dependencies (sector_deps sectors) (length sectors)) (dict_keys sectors) = Inr us"
  then obtain us where us: "rmap (validate_dependencies (sector_deps sectors) (length sectors))
      (dict_keys sectors) = Inr us" by blast
  have "(n, n) \<notin> (depends_on (sector_deps sectors))\<^sup>+" for n
  proof
    assume loop: "(n, n) \<in> (depends_on (sector_deps sectors))\<^sup>+"
    then obtain d where "d \<in> set (sector_deps sectors n)" by (auto simp: depends_on_def dest: tranclD)
    then have "dict_get sectors n \<noteq> None" by (auto simp: sector_deps_elem)
    then have "n \<in> set (dict_keys sectors)" by (simp add: map_of_eq_None_iff)
    from rmap_Inr_elem [OF us this] loop validate_dependencies_no_loop show False by blast
  qed
  then show "acyclic (depends_on (sector_deps sectors))" by (simp add: acyclic_def)
next
  note keys = init_sectors_keys [OF assms]
  assume ac: "acyclic (depends_on (sector_deps sectors))"
  have "validate_dependencies (sector_deps sectors) (length sectors) n = Inr ()"
    if "n \<in> set (dict_keys sectors)" for n
    by (rule validate_dependencies_iff [where S = "set (dict_keys sectors)", OF _ _ that _ ac])
      (use keys(3) card_dict_keys [of sectors] in \<open>simp_all\<close>)
  then have "rmap (validate_dependencies (sector_deps sectors) (length sectors)) (dict_keys sectors)
      = Inr (map (\<lambda>_. ()) (dict_keys sectors))"
    by (intro rmap_all_Inr) blast
  then show "\<exists>us. rmap (validate_dependencies (sector_deps sectors) (length sectors)) (dict_keys sectors) = Inr us"
    by blast
qed

lemma parse_semver_error: "parse_semver sv v = Inl e \<Longrightarrow> e = ''ValueError''"
  by (simp add: parse_semver_def result_simps)

lemma rmap_error: "rmap f xs = Inl e \<Longrightarrow> \<exists>x \<in> set xs. f x = Inl e"
  by (induction xs) (auto simp: result_simps)

lemma rfold_error: "rfold f s xs = Inl e \<Longrightarrow> \<exists>s' x. x \<in> set xs \<and> f s' x = Inl e"
proof (induction xs arbitrary: s)
  case (Cons x xs)
  then show ?case by (cases "f s x") (auto, blast+)
qed simp

lemma sort_specs_error: "sort_specs sv specs = Inl e \<Longrightarrow> e = ''ValueError''"
  by (auto simp: sort_specs_def upgrade_spec_sort_key_def result_simps
      dest!: rmap_error parse_semver_error)

lemma add_spec_error: "add_spec sv o' spec = Inl e \<Longrightarrow> e = ''ValueError''"
  by (auto simp: add_spec_def Let_def result_simps split: option.splits if_splits dest!: sort_specs_error)

lemma sector_validation_iff_acyclic_aux:
  assumes "init_sectors (opt_list (og_sectors org)) = Inr sectors"
  shows "make_org_upgrade_spec sv org specs = Inl ''SectorConfigError'' \<longleftrightarrow>
           \<not> acyclic (depends_on (sector_deps sectors))"
    and "n \<in> fst ` set sectors \<Longrightarrow>
           snd (iter_dependencies (sector_deps sectors) (length sectors) n) \<noteq> DepthExceeded"
proof -
  show "make_org_upgrade_spec sv org specs = Inl ''SectorConfigError'' \<longleftrightarrow>
           \<not> acyclic (depends_on (sector_deps sectors))"
    unfolding validate_all_iff [OF assms, symmetric]
    by (auto simp: make_org_upgrade_spec_def assms result_simps split: sum.splits
        dest!: rfold_error add_spec_error)
  show "snd (iter_dependencies (sector_deps sectors) (length sectors) n) \<noteq> DepthExceeded"
    if "n \<in> fst ` set sectors"
    by (rule iter_depth_enough [OF _ _ that])
      (use init_sectors_keys(3) [OF assms] card_dict_keys [of sectors] in \<open>simp_all\<close>)
qed

text \<open>C33. Building the specification of an organization from sectors whose dependencies are all
  declared is refused with a configuration error exactly when the dependency graph has a cycle. The
  recursion of the code ends on every graph: the walk is cut short by the first sector that meets
  itself, so the number of sectors bounds its depth.\<close>
theorem sector_validation_iff_acyclic:
  assumes "init_sectors (opt_list (og_sectors org)) = Inr sectors"
  shows "(make_org_upgrade_spec sv org specs = Inl ''SectorConfigError'' \<longleftrightarrow>
           \<not> acyclic (depends_on (sector_deps sectors))) \<and>
         (\<forall>n \<in> fst ` set sectors.
           snd (iter_dependencies (sector_deps sectors) (length sectors) n) \<noteq> DepthExceeded)"
  using sector_validation_iff_acyclic_aux [OF assms] by blast

end
