(* ===== verification/Aus_Version_Data.thy ===== *)
theory Aus_Version_Data
  imports Aus_Sectors Complex_Main
begin

text \<open>
  The version history of an organization, \<open>reconcile/aus/cluster_version_data.py\<close>, and the functions
  of \<open>reconcile/aus/base.py\<close> that keep it: \<open>update_history\<close> and \<open>get_version_data_map\<close>. Soak days are
  rationals (the floats of the code, without their rounding), times are integers in microseconds. The
  remote state is a map from keys to the data stored there.
\<close>

record wl_history =
  wh_soak_days :: rat
  wh_reporting :: "string list"

type_synonym version_history = "(string, wl_history) dict"

datatype stats = Stats
  (st_min_version: string)
  (st_min_version_per_workload: "(string, string) dict")
  (st_inherited: "stats option")

record version_data =
  vd_check_in :: "int option"
  vd_versions :: "(string, version_history) dict"
  vd_stats :: "stats option"

definition empty_history :: wl_history where
  "empty_history = \<lparr>wh_soak_days = 0, wh_reporting = []\<rparr>"

definition empty_version_data :: version_data where
  "empty_version_data = \<lparr>vd_check_in = None, vd_versions = [], vd_stats = None\<rparr>"

definition workload_history :: "version_data \<Rightarrow> string \<Rightarrow> string \<Rightarrow> wl_history" where
  \<comment> \<open>the reading call, without a default\<close>
  "workload_history vd version workload =
     get_or (get_or (vd_versions vd) version []) workload empty_history"

definition change_workload_history ::
  "version_data \<Rightarrow> string \<Rightarrow> string \<Rightarrow> (wl_history \<Rightarrow> wl_history) \<Rightarrow> version_data" where
  \<comment> \<open>the call with a default, which inserts what is missing, and the change of the object it returns\<close>
  "change_workload_history vd version workload f =
     (let vh = get_or (vd_versions vd) version []
      in vd\<lparr>vd_versions := dict_set (vd_versions vd) version
             (dict_set vh workload (f (get_or vh workload empty_history)))\<rparr>)"

definition vd_workloads :: "version_data \<Rightarrow> string list" where
  "vd_workloads vd = foldl (\<lambda>acc vh. add_all acc (dict_keys vh)) [] (dict_values (vd_versions vd))"

section \<open>Statistics\<close>

definition lesser_version :: "('k::linorder) semver_lib \<Rightarrow> string \<Rightarrow> string \<Rightarrow> string + string" where
  \<comment> \<open>\<open>min(a, b, key=parse_semver)\<close>\<close>
  "lesser_version sv a b =
     rbind (parse_semver sv a) (\<lambda>x. rbind (parse_semver sv b) (\<lambda>y. Inr (if y < x then b else a)))"

definition stats_inherit :: "('k::linorder) semver_lib \<Rightarrow> stats \<Rightarrow> stats \<Rightarrow> string + stats" where
  "stats_inherit sv self added =
     (case st_inherited self of
        None \<Rightarrow> Inr (Stats (st_min_version self) (st_min_version_per_workload self) (Some added))
      | Some inh \<Rightarrow>
          rbind (lesser_version sv (st_min_version inh) (st_min_version added)) (\<lambda>mv.
          rbind (rfold (\<lambda>per (workload, added_version).
              rbind (lesser_version sv (get_or per workload added_version) added_version) (\<lambda>v.
                Inr (dict_set per workload v)))
              (st_min_version_per_workload inh) (st_min_version_per_workload added)) (\<lambda>per.
            Inr (Stats (st_min_version self) (st_min_version_per_workload self)
                   (Some (Stats mv per (st_inherited inh)))))))"

fun inherited_workloads_check ::
  "('k::linorder) semver_lib \<Rightarrow> 'k \<Rightarrow> (string, string) dict \<Rightarrow> string list \<Rightarrow> bool \<Rightarrow> string + bool \<times> bool" where
  \<comment> \<open>the loop over the workloads: whether all were found before it broke off, and whether those were ok\<close>
  "inherited_workloads_check sv semver per [] ok = Inr (True, ok)"
| "inherited_workloads_check sv semver per (w # ws) ok =
     (case dict_get per w of
        None \<Rightarrow> Inr (False, ok)
      | Some v \<Rightarrow> rbind (parse_semver sv v) (\<lambda>k.
          inherited_workloads_check sv semver per ws (ok \<and> \<not> k < semver)))"

definition stats_validate :: "('k::linorder) semver_lib \<Rightarrow> stats \<Rightarrow> string \<Rightarrow> string list \<Rightarrow> string + bool" where
  "stats_validate sv self version workloads =
     (case st_inherited self of
        None \<Rightarrow> Inr True
      | Some inh \<Rightarrow>
          rbind (parse_semver sv version) (\<lambda>semver.
          rbind (inherited_workloads_check sv semver (st_min_version_per_workload inh) workloads True)
            (\<lambda>(all_workloads_found, all_workload_ok).
              if all_workloads_found \<and> \<not> all_workload_ok then Inr False
              else if \<not> all_workloads_found then
                rbind (parse_semver sv (st_min_version inh)) (\<lambda>k. Inr (\<not> k < semver))
              else Inr True)))"

definition validate_against_inherited ::
  "('k::linorder) semver_lib \<Rightarrow> version_data \<Rightarrow> string \<Rightarrow> string list \<Rightarrow> string + bool" where
  "validate_against_inherited sv vd version workloads =
     (case vd_stats vd of None \<Rightarrow> Inr True | Some s \<Rightarrow> stats_validate sv s version workloads)"

definition note_min_version ::
  "('k::linorder) semver_lib \<Rightarrow> string \<Rightarrow> (string, string) dict \<Rightarrow> string \<Rightarrow> string + (string, string) dict" where
  "note_min_version sv version per w =
     (let min_ver = get_or per w version;
          per = (if dict_has per w then per else dict_set per w version)
      in rbind (semver_less sv version min_ver) (\<lambda>less.
           Inr (if less then dict_set per w version else per)))"

definition update_stats ::
  "('k::linorder) semver_lib \<Rightarrow> version_data \<Rightarrow> cluster_upgrade_spec list \<Rightarrow> string + version_data" where
  "update_stats sv vd specs =
     rbind (rfold (\<lambda>per spec. rfold (note_min_version sv (current_version spec)) per
              (up_workloads (us_policy spec))) [] specs) (\<lambda>per.
       if per = [] then Inr vd
       else rbind (min_version sv (dict_values per)) (\<lambda>mv. Inr (vd\<lparr>vd_stats := Some (Stats mv per None)\<rparr>)))"

section \<open>Aggregation of other organizations\<close>

definition join_history :: "string \<Rightarrow> wl_history \<Rightarrow> wl_history \<Rightarrow> wl_history" where
  "join_history added_scope data w =
     w\<lparr>wh_soak_days := wh_soak_days w + wh_soak_days data,
       wh_reporting := wh_reporting w @ map (\<lambda>c. added_scope @ ''/'' @ c) (wh_reporting data)\<rparr>"

definition aggregate_workload ::
  "string \<Rightarrow> string \<Rightarrow> string list \<Rightarrow> version_data \<Rightarrow> string \<times> wl_history \<Rightarrow> version_data" where
  "aggregate_workload added_scope version known vd = (\<lambda>(workload, data).
     if workload \<notin> set known then vd
     else change_workload_history vd version workload (join_history added_scope data))"

definition aggregate_versions :: "version_data \<Rightarrow> version_data \<Rightarrow> string \<Rightarrow> version_data" where
  "aggregate_versions vd added added_scope =
     (let known = vd_workloads vd
      in foldl (\<lambda>vd (version, vh). foldl (aggregate_workload added_scope version known) vd vh)
           vd (vd_versions added))"

definition vd_aggregate ::
  "('k::linorder) semver_lib \<Rightarrow> version_data \<Rightarrow> version_data \<Rightarrow> string \<Rightarrow> string + version_data" where
  "vd_aggregate sv vd added added_scope =
     (let vd' = aggregate_versions vd added added_scope
      in case (vd_stats vd', vd_stats added) of
           (Some s, Some a) \<Rightarrow> rbind (stats_inherit sv s a) (\<lambda>s'. Inr (vd'\<lparr>vd_stats := Some s'\<rparr>))
         | _ \<Rightarrow> Inr vd')"

section \<open>Keeping the history\<close>

definition report_workload :: "int \<Rightarrow> string \<Rightarrow> wl_history \<Rightarrow> wl_history" where
  "report_workload elapsed cluster h =
     (if cluster \<in> set (wh_reporting h)
      then h\<lparr>wh_soak_days := wh_soak_days h + of_int elapsed / (86400 * 1000000)\<rparr>
      else h\<lparr>wh_reporting := wh_reporting h @ [cluster]\<rparr>)"

definition report_spec :: "int \<Rightarrow> version_data \<Rightarrow> cluster_upgrade_spec \<Rightarrow> version_data" where
  "report_spec elapsed vd spec =
     (if has_health_errors True (us_health spec) then vd
      else foldl (\<lambda>vd w. change_workload_history vd (current_version spec) w
                    (report_workload elapsed (oc_name (us_cluster spec)))) vd (up_workloads (us_policy spec)))"

definition update_history ::
  "('k::linorder) semver_lib \<Rightarrow> int \<Rightarrow> version_data \<Rightarrow> cluster_upgrade_spec list \<Rightarrow> string + version_data" where
  "update_history sv now vd specs =
     (let check_in = (case vd_check_in vd of None \<Rightarrow> now | Some t \<Rightarrow> t);
          vd = foldl (report_spec (now - check_in)) vd specs
      in rbind (update_stats sv vd specs) (\<lambda>vd. Inr (vd\<lparr>vd_check_in := Some now\<rparr>)))"

definition version_data_state_key :: "string \<Rightarrow> string \<Rightarrow> string \<Rightarrow> string" where
  "version_data_state_key ocm_env org_id addon_id =
     (if addon_id \<noteq> [] then ocm_env @ ''/'' @ org_id @ ''/'' @ addon_id else ocm_env @ ''/'' @ org_id)"

type_synonym version_state = "string \<Rightarrow> version_data option"

definition get_version_data :: "version_state \<Rightarrow> string \<Rightarrow> version_data" where
  "get_version_data state key = (case state key of None \<Rightarrow> empty_version_data | Some vd \<Rightarrow> vd)"

definition inherit_org_data ::
  "('k::linorder) semver_lib \<Rightarrow> version_state \<Rightarrow> aus_org \<Rightarrow> string \<Rightarrow> version_data \<Rightarrow> minimal_org \<Rightarrow>
   string + version_data" where
  "inherit_org_data sv state org addon_id vd other =
     (if og_org_id org = mo_org_id other then Inl ''OCM organization inherits version data from itself''
      else if og_org_id org \<notin> set (opt_list (mo_publish_version_data other))
      then Inl ''this data is not published to it''
      else vd_aggregate sv vd
             (get_version_data state (version_data_state_key (mo_env other) (mo_org_id other) addon_id))
             (mo_env other @ ''/'' @ mo_org_id other))"

definition get_version_data_map ::
  "('k::linorder) semver_lib \<Rightarrow> int \<Rightarrow> bool \<Rightarrow> org_upgrade_spec \<Rightarrow> string \<Rightarrow> bool \<Rightarrow> version_state \<Rightarrow>
   version_state \<times> (string + version_data)" where
  \<comment> \<open>the state after the call, which is saved before other organizations are looked at, and the entry
     of the organization in the map that is returned\<close>
  "get_version_data_map sv now dry_run org_spec addon_id inherit state =
     (let org = ous_org org_spec;
          state_key = version_data_state_key (og_env org) (og_org_id org) addon_id
      in case update_history sv now (get_version_data state state_key) (ous_specs org_spec) of
           Inl e \<Rightarrow> (state, Inl e)
         | Inr vd \<Rightarrow>
             (let state' = (if dry_run then state else state(state_key \<mapsto> vd))
              in (state', if inherit
                    then rfold (inherit_org_data sv state' org addon_id) vd (opt_list (og_inherit_version_data org))
                    else Inr vd)))"

section \<open>A store of histories\<close>

text \<open>What keeping and aggregating the history need of \<open>VersionData.workload_history\<close>: an entry that
  was changed reads as changed, every other entry reads as before.\<close>

locale history_store =
  fixes lookup :: "'s \<Rightarrow> 'v \<Rightarrow> 'w \<Rightarrow> 'h"
    and change :: "'s \<Rightarrow> 'v \<Rightarrow> 'w \<Rightarrow> ('h \<Rightarrow> 'h) \<Rightarrow> 's"
  assumes lookup_change:
    "lookup (change s v w f) v' w' = (if v' = v \<and> w' = w then f (lookup s v w) else lookup s v' w')"
begin

lemma lookup_changes:
  "lookup (foldl (\<lambda>s (v, w, f). change s v w f) s cs) v w =
     foldl (\<lambda>h c. snd (snd c) h) (lookup s v w) (filter (\<lambda>c. fst c = v \<and> fst (snd c) = w) cs)"
  by (induction cs arbitrary: s) (auto simp: lookup_change split: if_splits)

end

interpretation history: history_store workload_history change_workload_history
  by unfold_locales
    (auto simp: workload_history_def change_workload_history_def Let_def dict_simps)

definition report_changes ::
  "int \<Rightarrow> cluster_upgrade_spec list \<Rightarrow> (string \<times> string \<times> (wl_history \<Rightarrow> wl_history)) list" where
  "report_changes elapsed specs = concat (map (\<lambda>spec.
     if has_health_errors True (us_health spec) then []
     else map (\<lambda>w. (current_version spec, w, report_workload elapsed (oc_name (us_cluster spec))))
            (up_workloads (us_policy spec))) specs)"

lemma report_specs_changes:
  "foldl (report_spec e) vd specs = foldl (\<lambda>s (v, w, f). change_workload_history s v w f) vd (report_changes e specs)"
  by (induction specs arbitrary: vd)
    (simp_all add: report_changes_def report_spec_def foldl_map)

definition runs_workload :: "string \<Rightarrow> string \<Rightarrow> cluster_upgrade_spec \<Rightarrow> bool" where
  \<comment> \<open>a cluster that contributes to the history of a version and workload\<close>
  "runs_workload v w spec \<longleftrightarrow> \<not> has_health_errors True (us_health spec) \<and> current_version spec = v \<and>
     w \<in> set (up_workloads (us_policy spec))"

lemma filter_eq_distinct: "distinct xs \<Longrightarrow> filter (\<lambda>x. x = a) xs = (if a \<in> set xs then [a] else [])"
  by (induction xs) auto

lemma report_changes_filter:
  assumes "\<And>s. s \<in> set specs \<Longrightarrow> distinct (up_workloads (us_policy s))"
  shows "filter (\<lambda>c. fst c = v \<and> fst (snd c) = w) (report_changes e specs) =
           map (\<lambda>s. (v, w, report_workload e (oc_name (us_cluster s)))) (filter (runs_workload v w) specs)"
  using assms
proof (induction specs)
  case (Cons s specs)
  have "filter (\<lambda>c. fst c = v \<and> fst (snd c) = w) (map (\<lambda>u. (current_version s, u, f)) (up_workloads (us_policy s)))
      = (if current_version s = v \<and> w \<in> set (up_workloads (us_policy s)) then [(v, w, f)] else [])"
    for f :: "wl_history \<Rightarrow> wl_history"
    using Cons.prems filter_eq_distinct [of "up_workloads (us_policy s)" w]
    by (cases "current_version s = v") (auto simp: filter_map o_def)
  with Cons show ?case by (auto simp: report_changes_def runs_workload_def)
qed (simp add: report_changes_def)

lemma reports_closed_form:
  assumes "distinct ns"
  shows "foldl (\<lambda>h n. report_workload e n h) h ns =
     \<lparr>wh_soak_days = wh_soak_days h +
        of_nat (length (filter (\<lambda>n. n \<in> set (wh_reporting h)) ns)) * (of_int e / (86400 * 1000000)),
      wh_reporting = wh_reporting h @ filter (\<lambda>n. n \<notin> set (wh_reporting h)) ns\<rparr>"
  using assms
proof (induction ns arbitrary: h)
  case (Cons n ns)
  have "filter (\<lambda>m. m \<notin> set (wh_reporting h) \<and> m \<noteq> n) ns = filter (\<lambda>m. m \<notin> set (wh_reporting h)) ns"
       "filter (\<lambda>m. m \<noteq> n \<and> m \<notin> set (wh_reporting h)) ns = filter (\<lambda>m. m \<notin> set (wh_reporting h)) ns"
       "filter (\<lambda>m. m = n \<or> m \<in> set (wh_reporting h)) ns = filter (\<lambda>m. m \<in> set (wh_reporting h)) ns"
    using Cons.prems by (auto intro: filter_cong)
  with Cons show ?case by (simp add: report_workload_def algebra_simps)
qed simp

lemma update_stats_versions [simp]: "update_stats sv vd specs = Inr vd' \<Longrightarrow> vd_versions vd' = vd_versions vd"
  by (auto simp: update_stats_def result_simps split: if_splits)

lemma workload_history_cong: "vd_versions a = vd_versions b \<Longrightarrow> workload_history a = workload_history b"
  by (intro ext) (simp add: workload_history_def)

text \<open>Soaking. After an update of the history, the soak days of a version and workload have grown by
  the time since the last check-in once for every healthy cluster that runs this version for this
  workload and had reported before; the other healthy clusters that run it are appended to the
  reporting ones and add nothing yet. Unhealthy clusters contribute to neither.\<close>
theorem update_history_soaks:
  assumes "update_history sv now vd specs = Inr vd'"
    and "distinct (map (\<lambda>s. oc_name (us_cluster s)) specs)"
    and "\<And>s. s \<in> set specs \<Longrightarrow> distinct (up_workloads (us_policy s))"
  shows "workload_history vd' v w =
     (let h = workload_history vd v w;
          elapsed = now - (case vd_check_in vd of None \<Rightarrow> now | Some t \<Rightarrow> t);
          names = map (\<lambda>s. oc_name (us_cluster s)) (filter (runs_workload v w) specs)
      in \<lparr>wh_soak_days = wh_soak_days h +
            of_nat (length (filter (\<lambda>n. n \<in> set (wh_reporting h)) names)) * (of_int elapsed / (86400 * 1000000)),
          wh_reporting = wh_reporting h @ filter (\<lambda>n. n \<notin> set (wh_reporting h)) names\<rparr>)"
proof -
  define e where "e = now - (case vd_check_in vd of None \<Rightarrow> now | Some t \<Rightarrow> t)"
  define names where "names = map (\<lambda>s. oc_name (us_cluster s)) (filter (runs_workload v w) specs)"
  have "distinct names"
    unfolding names_def using assms(2) by (rule distinct_map_filter)
  moreover have *: "vd_versions vd' = vd_versions (foldl (report_spec e) vd specs)"
    using assms(1) by (auto simp: update_history_def Let_def e_def result_simps)
  have filtered: "filter (\<lambda>c. fst c = v \<and> fst (snd c) = w) (report_changes e specs) =
      map (\<lambda>s. (v, w, report_workload e (oc_name (us_cluster s)))) (filter (runs_workload v w) specs)"
    by (rule report_changes_filter) (rule assms(3))
  have "workload_history vd' v w = foldl (\<lambda>h n. report_workload e n h) (workload_history vd v w) names"
    unfolding workload_history_cong [of vd', OF *] report_specs_changes history.lookup_changes filtered
    by (simp add: foldl_map names_def)
  ultimately show ?thesis
    by (simp add: reports_closed_form Let_def e_def names_def)
qed

section \<open>What aggregation adds\<close>

lemma set_vd_workloads: "set (vd_workloads vd) = (\<Union>p \<in> set (vd_versions vd). fst ` set (snd p))"
proof -
  have "set (foldl (\<lambda>acc vh. add_all acc (dict_keys vh)) acc vhs) = set acc \<union> (\<Union>vh \<in> set vhs. fst ` set vh)"
    for acc and vhs :: "version_history list"
    by (induction vhs arbitrary: acc) auto
  then show ?thesis by (auto simp: vd_workloads_def)
qed

lemma workloads_dict_set:
  "(\<Union>p \<in> set (dict_set d k (dict_set (get_or d k []) w x)). fst ` set (snd p)) =
     insert w (\<Union>p \<in> set d. fst ` set (snd p))"
  by (induction d) (auto simp: get_or_def keys_dict_set split: option.splits)

lemma workloads_change:
  "set (vd_workloads (change_workload_history vd v w f)) = insert w (set (vd_workloads vd))"
  by (simp add: set_vd_workloads change_workload_history_def Let_def workloads_dict_set)

definition aggregate_changes ::
  "string \<Rightarrow> string list \<Rightarrow> version_data \<Rightarrow> (string \<times> string \<times> (wl_history \<Rightarrow> wl_history)) list" where
  "aggregate_changes added_scope known added = concat (map (\<lambda>p.
     map (\<lambda>q. (fst p, fst q, join_history added_scope (snd q)))
       (filter (\<lambda>q. fst q \<in> set known) (snd p))) (vd_versions added))"

lemma aggregate_versions_changes:
  "aggregate_versions vd added scope =
     foldl (\<lambda>s (v, w, f). change_workload_history s v w f) vd
       (aggregate_changes scope (vd_workloads vd) added)"
proof -
  have inner: "foldl (aggregate_workload scope version known) s vh =
      foldl (\<lambda>s (v, w, f). change_workload_history s v w f) s
       (map (\<lambda>q. (version, fst q, join_history scope (snd q))) (filter (\<lambda>q. fst q \<in> set known) vh))" for version known s vh
    by (induction vh arbitrary: s) (auto simp: aggregate_workload_def split: prod.splits)
  have "foldl (\<lambda>vd (version, vh). foldl (aggregate_workload scope version known) vd vh) s vs =
      foldl (\<lambda>s (v, w, f). change_workload_history s v w f) s
        (aggregate_changes scope known (added\<lparr>vd_versions := vs\<rparr>))" for known s vs
    by (induction vs arbitrary: s) (auto simp: aggregate_changes_def inner split: prod.splits)
  from this [of "vd_workloads vd" vd "vd_versions added"] show ?thesis
    by (simp add: aggregate_versions_def Let_def)
qed

lemma aggregate_changes_known:
  "c \<in> set (aggregate_changes scope known added) \<Longrightarrow> fst (snd c) \<in> set known"
  by (auto simp: aggregate_changes_def)

lemma changes_workloads:
  "(\<And>c. c \<in> set cs \<Longrightarrow> fst (snd c) \<in> K) \<Longrightarrow> set (vd_workloads s) = K \<Longrightarrow>
     set (vd_workloads (foldl (\<lambda>s (v, w, f). change_workload_history s v w f) s cs)) = K"
proof (induction cs arbitrary: s)
  case (Cons c cs)
  obtain v w f where c: "c = (v, w, f)" by (cases c) auto
  have "w \<in> K" using Cons.prems(1) [of c] by (simp add: c)
  then have "set (vd_workloads (change_workload_history s v w f)) = K"
    using Cons.prems(2) by (auto simp: workloads_change)
  with Cons.IH Cons.prems(1) show ?case by (simp add: c)
qed simp

lemma map_of_wf_cases:
  assumes "wf_dict d"
  shows "dict_get d k = None \<and> k \<notin> fst ` set d \<or>
     (\<exists>v d1 d2. dict_get d k = Some v \<and> d = d1 @ (k, v) # d2 \<and> k \<notin> fst ` set d1 \<and> k \<notin> fst ` set d2)"
proof (cases "dict_get d k")
  case (Some v)
  then obtain d1 d2 where "d = d1 @ (k, v) # d2" by (meson map_of_SomeD split_list)
  with assms Some show ?thesis by auto
qed (simp add: map_of_eq_None_iff)

lemma concat_key_wf:
  assumes "wf_dict d" "\<And>p. p \<in> set d \<Longrightarrow> fst p \<noteq> k \<Longrightarrow> f p = []"
  shows "concat (map f d) = (case dict_get d k of None \<Rightarrow> [] | Some v \<Rightarrow> f (k, v))"
proof -
  have absent: "concat (map f e) = []" if "k \<notin> fst ` set e" "set e \<subseteq> set d" for e
    using that assms(2) by (auto simp: concat_eq_Nil_conv)
  from map_of_wf_cases [OF assms(1), of k] show ?thesis
  proof (elim disjE exE conjE)
    fix v d1 d2
    assume d: "dict_get d k = Some v" "d = d1 @ (k, v) # d2" "k \<notin> fst ` set d1" "k \<notin> fst ` set d2"
    then have "concat (map f d1) = []" "concat (map f d2) = []"
      by (rule_tac [!] absent) auto
    with d show ?thesis by (simp del: concat_eq_Nil_conv)
  qed (simp add: absent)
qed

lemma filter_key_wf:
  "wf_dict d \<Longrightarrow> filter (\<lambda>p. fst p = k) d = (case dict_get d k of None \<Rightarrow> [] | Some v \<Rightarrow> [(k, v)])"
proof -
  assume "wf_dict d"
  have "k \<notin> fst ` set e \<Longrightarrow> filter (\<lambda>p. fst p = k) e = []" for e :: "('a \<times> 'b) list"
    by (induction e) auto
  with map_of_wf_cases [OF \<open>wf_dict d\<close>, of k] show ?thesis by auto
qed

lemma aggregate_changes_filter:
  assumes "wf_dict (vd_versions added)" "\<And>v vh. (v, vh) \<in> set (vd_versions added) \<Longrightarrow> wf_dict vh"
  shows "foldl (\<lambda>h c. snd (snd c) h) h
           (filter (\<lambda>c. fst c = v \<and> fst (snd c) = w) (aggregate_changes scope known added)) =
         (if w \<in> set known then join_history scope (workload_history added v w) h else h)"
proof -
  define F where "F = (\<lambda>p :: string \<times> version_history. filter (\<lambda>c. fst c = v \<and> fst (snd c) = w)
     (map (\<lambda>q. (fst p, fst q, join_history scope (snd q))) (filter (\<lambda>q. fst q \<in> set known) (snd p))))"
  have "filter (\<lambda>c. fst c = v \<and> fst (snd c) = w) (aggregate_changes scope known added) =
      concat (map F (vd_versions added))"
    unfolding aggregate_changes_def F_def filter_concat map_map o_def ..
  also have "\<dots> = (case dict_get (vd_versions added) v of None \<Rightarrow> [] | Some vh \<Rightarrow> F (v, vh))"
    by (rule concat_key_wf [OF assms(1)]) (auto simp: F_def filter_map o_def)
  finally have f: "filter (\<lambda>c. fst c = v \<and> fst (snd c) = w) (aggregate_changes scope known added) =
      (case dict_get (vd_versions added) v of None \<Rightarrow> [] | Some vh \<Rightarrow> F (v, vh))" .
  have Fv: "F (v, vh) = (if w \<notin> set known then [] else case dict_get vh w of None \<Rightarrow> [] | Some data \<Rightarrow>
        [(v, w, join_history scope data)])" if "wf_dict vh" for vh
  proof -
    have "filter (\<lambda>q. fst q = w \<and> fst q \<in> set known) vh = (if w \<in> set known then filter (\<lambda>q. fst q = w) vh else [])"
      by (auto intro: filter_cong)
    with filter_key_wf [OF that, of w] show ?thesis
      by (auto simp: F_def filter_map o_def conj_commute split: option.splits)
  qed
  have [simp]: "join_history scope empty_history h = h" for h
    by (simp add: join_history_def empty_history_def)
  show ?thesis
    using Fv [OF assms(2) [OF map_of_SomeD]]
    by (cases "dict_get (vd_versions added) v") (auto simp: f workload_history_def get_or_def split: option.splits)
qed

lemma aggregate_adds_known_workloads_aux:
  assumes "vd_aggregate sv vd added scope = Inr vd'"
    and "wf_dict (vd_versions added)" "\<And>v vh. (v, vh) \<in> set (vd_versions added) \<Longrightarrow> wf_dict vh"
  shows "set (vd_workloads vd') = set (vd_workloads vd)"
    and "workload_history vd' v w =
      (let h = workload_history vd v w; a = workload_history added v w
       in if w \<in> set (vd_workloads vd)
          then \<lparr>wh_soak_days = wh_soak_days h + wh_soak_days a,
                wh_reporting = wh_reporting h @ map (\<lambda>c. scope @ ''/'' @ c) (wh_reporting a)\<rparr>
          else h)"
proof -
  have vs: "vd_versions vd' = vd_versions (aggregate_versions vd added scope)"
    using assms(1) by (auto simp: vd_aggregate_def Let_def result_simps split: option.splits)
  then have "set (vd_workloads vd') = set (vd_workloads (aggregate_versions vd added scope))"
    by (simp add: set_vd_workloads)
  then show "set (vd_workloads vd') = set (vd_workloads vd)"
    using changes_workloads [OF aggregate_changes_known]
    by (simp add: aggregate_versions_changes)
  have *: "foldl (\<lambda>h c. snd (snd c) h) h
      (filter (\<lambda>c. fst c = v \<and> fst (snd c) = w) (aggregate_changes scope (vd_workloads vd) added)) =
      (if w \<in> set (vd_workloads vd) then join_history scope (workload_history added v w) h else h)" for h
    by (rule aggregate_changes_filter) (use assms(2,3) in auto)
  show "workload_history vd' v w =
      (let h = workload_history vd v w; a = workload_history added v w
       in if w \<in> set (vd_workloads vd)
          then \<lparr>wh_soak_days = wh_soak_days h + wh_soak_days a,
                wh_reporting = wh_reporting h @ map (\<lambda>c. scope @ ''/'' @ c) (wh_reporting a)\<rparr>
          else h)"
    unfolding workload_history_cong [OF vs] aggregate_versions_changes history.lookup_changes *
    by (simp add: Let_def join_history_def)
qed

text \<open>Inheriting the history of another organization keeps the workloads that are known, and adds to
  the history of every version of a known workload exactly what the other organization has for it: its
  soak days and its reporting clusters, each prefixed with the scope. Histories of workloads the
  organization does not run itself are unchanged.\<close>
theorem aggregate_adds_known_workloads:
  assumes "vd_aggregate sv vd added scope = Inr vd'"
    and "wf_dict (vd_versions added)" "\<And>v vh. (v, vh) \<in> set (vd_versions added) \<Longrightarrow> wf_dict vh"
  shows "set (vd_workloads vd') = set (vd_workloads vd) \<and>
    workload_history vd' v w =
      (let h = workload_history vd v w; a = workload_history added v w
       in if w \<in> set (vd_workloads vd)
          then \<lparr>wh_soak_days = wh_soak_days h + wh_soak_days a,
                wh_reporting = wh_reporting h @ map (\<lambda>c. scope @ ''/'' @ c) (wh_reporting a)\<rparr>
          else h)"
  by (intro conjI aggregate_adds_known_workloads_aux [OF assms(1,2)]) (use assms(3) in auto)

section \<open>What inheritance promises\<close>

definition stats_consistent :: "('k::linorder) semver_lib \<Rightarrow> stats \<Rightarrow> bool" where
  \<comment> \<open>the minimum over the organization is at most the minimum of every workload\<close>
  "stats_consistent sv s \<longleftrightarrow> (\<exists>k. sv_key sv (st_min_version s) = Some k \<and>
     (\<forall>w m. dict_get (st_min_version_per_workload s) w = Some m \<longrightarrow> (\<exists>k'. sv_key sv m = Some k' \<and> k \<le> k')))"

definition stats_below :: "('k::linorder) semver_lib \<Rightarrow> stats \<Rightarrow> stats \<Rightarrow> bool" where
  "stats_below sv b a \<longleftrightarrow>
     (\<forall>k. sv_key sv (st_min_version a) = Some k \<longrightarrow> (\<exists>k'. sv_key sv (st_min_version b) = Some k' \<and> k' \<le> k)) \<and>
     (\<forall>w m k. dict_get (st_min_version_per_workload a) w = Some m \<longrightarrow> sv_key sv m = Some k \<longrightarrow>
        (\<exists>m' k'. dict_get (st_min_version_per_workload b) w = Some m' \<and> sv_key sv m' = Some k' \<and> k' \<le> k))"

lemma stats_below_refl: "stats_below sv a a"
  by (auto simp: stats_below_def)

lemma stats_below_trans: "stats_below sv c b \<Longrightarrow> stats_below sv b a \<Longrightarrow> stats_below sv c a"
  unfolding stats_below_def by (meson order_trans)

lemma lesser_version_Inr:
  "lesser_version sv a b = Inr c \<Longrightarrow>
     \<exists>x y z. sv_key sv a = Some x \<and> sv_key sv b = Some y \<and> sv_key sv c = Some z \<and> z \<le> x \<and> z \<le> y"
  by (auto simp: lesser_version_def parse_semver_def result_simps split: if_splits)

definition per_below :: "('k::linorder) semver_lib \<Rightarrow> (string, string) dict \<Rightarrow> string \<Rightarrow> string \<Rightarrow> bool" where
  "per_below sv per w m \<longleftrightarrow>
     (\<forall>k. sv_key sv m = Some k \<longrightarrow> (\<exists>m' k'. dict_get per w = Some m' \<and> sv_key sv m' = Some k' \<and> k' \<le> k))"

lemma inherit_per_below:
  assumes "rfold (\<lambda>per (workload, added_version).
      rbind (lesser_version sv (get_or per workload added_version) added_version) (\<lambda>v.
        Inr (dict_set per workload v))) per added = Inr per'"
  shows "(\<forall>w m. (w, m) \<in> set added \<longrightarrow> per_below sv per' w m) \<and>
         (\<forall>w m. per_below sv per w m \<longrightarrow> per_below sv per' w m)"
proof -
  have step: "True \<and> per_below sv t (fst q) (snd q) \<and>
      (\<forall>y. per_below sv s (fst y) (snd y) \<longrightarrow> per_below sv t (fst y) (snd y))"
    if q: "(case q of (workload, added_version) \<Rightarrow>
      rbind (lesser_version sv (get_or s workload added_version) added_version) (\<lambda>v.
        Inr (dict_set s workload v))) = Inr t" for s t and q :: "string \<times> string"
  proof -
    obtain w m where [simp]: "q = (w, m)" by force
    from q obtain v where v: "lesser_version sv (get_or s w m) m = Inr v" and t: "t = dict_set s w v"
      by (auto simp: result_simps)
    from lesser_version_Inr [OF v] obtain x y z where
      k: "sv_key sv (get_or s w m) = Some x" "sv_key sv m = Some y" "sv_key sv v = Some z" "z \<le> x" "z \<le> y"
      by blast
    have "per_below sv t w m" using k by (simp add: per_below_def t dict_simps)
    moreover have "per_below sv t w' m'" if "per_below sv s w' m'" for w' m'
      using that k unfolding per_below_def t
      by (auto simp: dict_simps get_or_def)
    ultimately show ?thesis by simp
  qed
  from rfold_establishes [where P = "\<lambda>_. True" and Q = "\<lambda>q per. per_below sv per (fst q) (snd q)",
      OF assms TrueI step]
  show ?thesis by force
qed

lemma stats_inherit_below:
  assumes "stats_inherit sv self added = Inr s'"
  shows "\<exists>inh'. st_inherited s' = Some inh' \<and> stats_below sv inh' added \<and>
     (\<forall>inh. st_inherited self = Some inh \<longrightarrow> stats_below sv inh' inh)"
proof (cases "st_inherited self")
  case None
  with assms show ?thesis by (auto simp: stats_inherit_def stats_below_refl)
next
  case (Some inh)
  with assms obtain mv per where
      mv: "lesser_version sv (st_min_version inh) (st_min_version added) = Inr mv" and
      per: "rfold (\<lambda>per (workload, added_version).
              rbind (lesser_version sv (get_or per workload added_version) added_version) (\<lambda>v.
                Inr (dict_set per workload v)))
              (st_min_version_per_workload inh) (st_min_version_per_workload added) = Inr per" and
      s': "st_inherited s' = Some (Stats mv per (st_inherited inh))"
    by (auto simp: stats_inherit_def result_simps)
  note b = inherit_per_below [OF per]
  have per_inh: "per_below sv per w m" if "dict_get (st_min_version_per_workload inh) w = Some m" for w m
  proof -
    have "per_below sv (st_min_version_per_workload inh) w m" using that by (simp add: per_below_def)
    with b show ?thesis by blast
  qed
  have per_added: "per_below sv per w m" if "dict_get (st_min_version_per_workload added) w = Some m" for w m
    using b that by (meson map_of_SomeD)
  from lesser_version_Inr [OF mv] show ?thesis
    using per_inh per_added Some by (auto simp: s' stats_below_def per_below_def)
qed

lemma inherited_workloads_check_all:
  "inherited_workloads_check sv semver per ws ok = Inr (True, ok') \<Longrightarrow>
     (ok' \<longrightarrow> ok) \<and> (\<forall>w \<in> set ws. \<exists>v k. dict_get per w = Some v \<and> sv_key sv v = Some k \<and> (ok' \<longrightarrow> semver \<le> k))"
  by (induction ws arbitrary: ok)
    (fastforce simp: result_simps parse_semver_def split: option.splits)+

lemma stats_validate_bound:
  assumes "stats_validate sv self version ws = Inr True" "st_inherited self = Some inh"
    and "stats_below sv inh a" "stats_consistent sv a"
    and "w \<in> set ws" "dict_get (st_min_version_per_workload a) w = Some m"
  shows "\<exists>k km. sv_key sv version = Some k \<and> sv_key sv m = Some km \<and> k \<le> km"
proof -
  from assms(4,6) obtain kmin km where
    ka: "sv_key sv (st_min_version a) = Some kmin" "sv_key sv m = Some km" "kmin \<le> km"
    unfolding stats_consistent_def by blast
  from assms(3) ka(1,2) assms(6) obtain k1 m2 k2 where
    ki: "sv_key sv (st_min_version inh) = Some k1" "k1 \<le> kmin"
      "dict_get (st_min_version_per_workload inh) w = Some m2" "sv_key sv m2 = Some k2" "k2 \<le> km"
    unfolding stats_below_def by blast
  from assms(1,2) obtain k found ok where
    v: "sv_key sv version = Some k"
    and c: "inherited_workloads_check sv k (st_min_version_per_workload inh) ws True = Inr (found, ok)"
    and r: "if found \<and> \<not> ok then False else if \<not> found then k \<le> k1 else True"
    by (auto simp: stats_validate_def parse_semver_def result_simps ki(1) not_less split: if_splits)
  have "k \<le> km"
  proof (cases found)
    case True
    with c r inherited_workloads_check_all [of sv k _ ws True ok] assms(5) have "k \<le> k2"
      using ki(3,4) by fastforce
    with ki(5) show ?thesis by simp
  next
    case False
    with r have "k \<le> k1" by (simp split: if_splits)
    with ki(2) ka(3) show ?thesis by simp
  qed
  with v ka(2) show ?thesis by blast
qed

lemma note_min_version_Inr:
  assumes "note_min_version sv version per w = Inr per'"
  shows "sv_key sv version \<noteq> None" "per_below sv per' w version"
    "per_below sv per w' m \<Longrightarrow> per_below sv per' w' m"
    "dict_get per' w' = Some m' \<Longrightarrow> dict_get per w' = Some m' \<or> w' = w \<and> m' = version"
proof -
  from assms obtain k mk where k: "sv_key sv version = Some k" "sv_key sv (get_or per w version) = Some mk"
    and per': "per' = (if k < mk then dict_set per w version
                       else if dict_has per w then per else dict_set per w version)"
    by (auto simp: note_min_version_def Let_def semver_less_def result_simps split: if_splits)
  have "map_of per' = (if k < mk \<or> dict_get per w = None then (map_of per)(w \<mapsto> version) else map_of per)"
    by (auto simp: per' map_of_dict_set dict_has_def)
  then have lookup: "dict_get per' u = (if u = w \<and> (k < mk \<or> dict_get per w = None) then Some version
      else dict_get per u)" for u by auto
  show "sv_key sv version \<noteq> None" using k by simp
  show "per_below sv per' w version"
    using k by (auto simp: per_below_def lookup get_or_def not_less split: option.splits)
  show "per_below sv per w' m \<Longrightarrow> per_below sv per' w' m"
    using k by (auto simp: per_below_def lookup get_or_def dest: less_imp_le order_trans split: option.splits)
  show "dict_get per' w' = Some m' \<Longrightarrow> dict_get per w' = Some m' \<or> w' = w \<and> m' = version"
    by (auto simp: lookup split: if_splits)
qed

lemma note_min_versions_Inr:
  assumes "rfold (note_min_version sv version) per ws = Inr per'"
  shows "(\<forall>w' m. per_below sv per w' m \<longrightarrow> per_below sv per' w' m)"
    "\<forall>w \<in> set ws. per_below sv per' w version \<and> sv_key sv version \<noteq> None"
    "\<forall>w' m. dict_get per' w' = Some m \<longrightarrow> dict_get per w' = Some m \<or> w' \<in> set ws \<and> m = version"
proof -
  define Q where "Q = (\<lambda>w per. per_below sv per w version \<and> sv_key sv version \<noteq> None)"
  define R where "R = (\<lambda>(q :: (string \<times> string)) per. per_below sv per (fst q) (snd q))"
  have "True \<and> Q w t \<and> (\<forall>y. Q y s \<longrightarrow> Q y t)" if "note_min_version sv version s w = Inr t" for s w t
    using note_min_version_Inr(1-3) [OF that] by (simp add: Q_def)
  from rfold_establishes [where P = "\<lambda>_. True" and Q = Q, OF assms TrueI this]
  show "\<forall>w \<in> set ws. per_below sv per' w version \<and> sv_key sv version \<noteq> None" by (simp add: Q_def)
  show "\<forall>w' m. per_below sv per w' m \<longrightarrow> per_below sv per' w' m"
    by (rule rfold_invariant [where P = "\<lambda>t. \<forall>w' m. per_below sv per w' m \<longrightarrow> per_below sv t w' m",
          OF assms]) (auto dest: note_min_version_Inr(3))
  show "\<forall>w' m. dict_get per' w' = Some m \<longrightarrow> dict_get per w' = Some m \<or> w' \<in> set ws \<and> m = version"
    by (rule rfold_invariant [where P = "\<lambda>t. \<forall>w' m. dict_get t w' = Some m \<longrightarrow>
          dict_get per w' = Some m \<or> w' \<in> set ws \<and> m = version", OF assms])
      (auto dest: note_min_version_Inr(4))
qed

text \<open>The statistics of an organization. For every workload a cluster runs, the minimal version that is
  recorded is the version of some cluster running the workload, and no cluster running it is on an older
  one; the minimum over the organization is at most each of these. This is the consistency that the
  inheritance of other organizations relies on.\<close>
theorem update_stats_minimal:
  assumes "update_stats sv vd specs = Inr vd'"
    and "spec \<in> set specs" "w \<in> set (up_workloads (us_policy spec))"
  shows "\<exists>s m k kc. vd_stats vd' = Some s \<and> stats_consistent sv s \<and>
     dict_get (st_min_version_per_workload s) w = Some m \<and> sv_key sv m = Some k \<and>
     sv_key sv (current_version spec) = Some kc \<and> k \<le> kc \<and>
     m \<in> current_version ` {s \<in> set specs. w \<in> set (up_workloads (us_policy s))}"
proof -
  from assms(1) obtain per where
    run: "rfold (\<lambda>per spec. rfold (note_min_version sv (current_version spec)) per
              (up_workloads (us_policy spec))) [] specs = Inr per"
    and vd': "(if per = [] then Inr vd else rbind (min_version sv (dict_values per)) (\<lambda>mv.
                Inr (vd\<lparr>vd_stats := Some (Stats mv per None)\<rparr>))) = Inr vd'"
    unfolding update_stats_def rbind_Inr_iff by blast
  define P where "P = (\<lambda>per :: (string, string) dict. \<forall>w m. dict_get per w = Some m \<longrightarrow>
     m \<in> current_version ` {s \<in> set specs. w \<in> set (up_workloads (us_policy s))})"
  define Q where "Q = (\<lambda>s per. \<forall>w \<in> set (up_workloads (us_policy s)).
     per_below sv per w (current_version s) \<and> sv_key sv (current_version s) \<noteq> None)"
  have P0: "P []" by (simp add: P_def)
  have step: "P t \<and> Q s t \<and> (\<forall>y. Q y per \<longrightarrow> Q y t)"
    if "s \<in> set specs" "P per" "rfold (note_min_version sv (current_version s)) per
              (up_workloads (us_policy s)) = Inr t" for per s t
    using that(1,2) note_min_versions_Inr [OF that(3)] unfolding P_def Q_def by blast
  from rfold_establishes [where P = P and Q = Q, OF run P0 step] assms(2)
  have per: "P per" "Q spec per" by blast+
  then obtain m k kc where m: "dict_get per w = Some m" "sv_key sv m = Some k"
      "sv_key sv (current_version spec) = Some kc" "k \<le> kc"
    using assms(3) unfolding Q_def per_below_def by blast
  then have "per \<noteq> []" by auto
  with vd' obtain mv where mv: "min_version sv (dict_values per) = Inr mv"
      "vd_stats vd' = Some (Stats mv per None)" by (auto simp: rbind_Inr_iff)
  from min_version_Inr [OF mv(1)] obtain km where km: "sv_key sv mv = Some km"
      "\<And>v. v \<in> set (dict_values per) \<Longrightarrow> \<exists>k. sv_key sv v = Some k \<and> km \<le> k" by blast
  have "stats_consistent sv (Stats mv per None)"
    unfolding stats_consistent_def
  proof (rule exI [of _ km], intro conjI allI impI)
    fix w' m'
    assume "dict_get (st_min_version_per_workload (Stats mv per None)) w' = Some m'"
    then have "m' \<in> set (dict_values per)" by (force dest: map_of_SomeD)
    then show "\<exists>k'. sv_key sv m' = Some k' \<and> km \<le> k'" by (rule km(2))
  qed (simp add: km(1))
  with m mv(2) per(1) show ?thesis unfolding P_def by fastforce
qed

definition inherited_below :: "('k::linorder) semver_lib \<Rightarrow> version_data \<Rightarrow> stats \<Rightarrow> bool" where
  "inherited_below sv vd a \<longleftrightarrow>
     (\<exists>s inh. vd_stats vd = Some s \<and> st_inherited s = Some inh \<and> stats_below sv inh a)"

definition other_org_data :: "version_state \<Rightarrow> string \<Rightarrow> minimal_org \<Rightarrow> version_data" where
  "other_org_data state addon_id other =
     get_version_data state (version_data_state_key (mo_env other) (mo_org_id other) addon_id)"

lemma aggregate_versions_stats [simp]: "vd_stats (aggregate_versions vd added scope) = vd_stats vd"
proof -
  have "vd_stats (foldl (\<lambda>s (v, w, f). change_workload_history s v w f) s cs) = vd_stats s" for s cs
    by (induction cs arbitrary: s) (auto simp: change_workload_history_def Let_def)
  then show ?thesis by (simp add: aggregate_versions_changes)
qed

lemma aggregate_below:
  assumes "vd_aggregate sv vd added scope = Inr vd'" "vd_stats vd \<noteq> None"
  shows "vd_stats vd' \<noteq> None" "\<And>a. vd_stats added = Some a \<Longrightarrow> inherited_below sv vd' a"
    "\<And>a. inherited_below sv vd a \<Longrightarrow> inherited_below sv vd' a"
proof -
  from assms(2) obtain s where s: "vd_stats vd = Some s" by blast
  have "vd_stats vd' \<noteq> None \<and> (\<forall>a. vd_stats added = Some a \<longrightarrow> inherited_below sv vd' a) \<and>
      (\<forall>a. inherited_below sv vd a \<longrightarrow> inherited_below sv vd' a)"
  proof (cases "vd_stats added")
    case None
    with assms(1) s show ?thesis by (auto simp: vd_aggregate_def Let_def inherited_below_def)
  next
    case (Some a)
    with assms(1) s obtain s' where s': "stats_inherit sv s a = Inr s'" "vd_stats vd' = Some s'"
      by (auto simp: vd_aggregate_def Let_def result_simps)
    from stats_inherit_below [OF s'(1)] s'(2) s Some show ?thesis
      by (auto simp: inherited_below_def intro: stats_below_trans)
  qed
  then show "vd_stats vd' \<noteq> None" "\<And>a. vd_stats added = Some a \<Longrightarrow> inherited_below sv vd' a"
    "\<And>a. inherited_below sv vd a \<Longrightarrow> inherited_below sv vd' a" by blast+
qed

lemma inherit_org_data_Inr:
  "inherit_org_data sv state org addon_id vd other = Inr vd' \<Longrightarrow>
     og_org_id org \<noteq> mo_org_id other \<and> og_org_id org \<in> set (opt_list (mo_publish_version_data other)) \<and>
     vd_aggregate sv vd (other_org_data state addon_id other) (mo_env other @ ''/'' @ mo_org_id other) = Inr vd'"
  by (auto simp: inherit_org_data_def other_org_data_def split: if_splits)

lemma aggregate_stats_None: "vd_aggregate sv vd added scope = Inr vd' \<Longrightarrow> vd_stats vd = None \<Longrightarrow> vd_stats vd' = None"
  by (auto simp: vd_aggregate_def Let_def)

lemma inherit_all_below:
  assumes "rfold (inherit_org_data sv state org addon_id) vd others = Inr vd'" "vd_stats vd' \<noteq> None"
    and "other \<in> set others" "vd_stats (other_org_data state addon_id other) = Some a"
  shows "inherited_below sv vd' a"
proof -
  have P: "vd_stats vd \<noteq> None"
  proof
    assume "vd_stats vd = None"
    from rfold_invariant [where P = "\<lambda>vd. vd_stats vd = None", OF assms(1) this] assms(2)
    show False by (meson aggregate_stats_None inherit_org_data_Inr)
  qed
  have "vd_stats t \<noteq> None \<and> (\<forall>a. vd_stats (other_org_data state addon_id y) = Some a \<longrightarrow> inherited_below sv t a) \<and>
      (\<forall>z. (\<forall>a. vd_stats (other_org_data state addon_id z) = Some a \<longrightarrow> inherited_below sv s a) \<longrightarrow>
           (\<forall>a. vd_stats (other_org_data state addon_id z) = Some a \<longrightarrow> inherited_below sv t a))"
    if "y \<in> set others" "vd_stats s \<noteq> None" "inherit_org_data sv state org addon_id s y = Inr t" for s y t
    using aggregate_below [OF conjunct2 [OF conjunct2 [OF inherit_org_data_Inr [OF that(3)]]] that(2)] by blast
  from rfold_establishes [where P = "\<lambda>vd. vd_stats vd \<noteq> None" and
      Q = "\<lambda>y vd. \<forall>a. vd_stats (other_org_data state addon_id y) = Some a \<longrightarrow> inherited_below sv vd a",
      OF assms(1) P this]
  show ?thesis using assms(3,4) by blast
qed

text \<open>C27. An organization never validates a version that is ahead of an organization it inherits from: when
  the data of the organization, with its inherited data, accepts a version for a list of workloads, then
  for every inherited organization with consistent statistics and each of these workloads it runs, the
  version is at most the minimal version of the workload there.\<close>
theorem inherited_versions_respected:
  assumes "get_version_data_map sv now dry_run org_spec addon_id True state = (state', Inr vd)"
    and "validate_against_inherited sv vd version ws = Inr True" "vd_stats vd \<noteq> None"
    and "other \<in> set (opt_list (og_inherit_version_data (ous_org org_spec)))"
    and "vd_stats (other_org_data state' addon_id other) = Some a" "stats_consistent sv a"
    and "w \<in> set ws" "dict_get (st_min_version_per_workload a) w = Some m"
  shows "\<exists>k km. sv_key sv version = Some k \<and> sv_key sv m = Some km \<and> k \<le> km"
proof -
  from assms(1) obtain own where
    "rfold (inherit_org_data sv state' (ous_org org_spec) addon_id) own
       (opt_list (og_inherit_version_data (ous_org org_spec))) = Inr vd"
    by (auto simp: get_version_data_map_def Let_def split: sum.splits)
  from inherit_all_below [OF this assms(3,4,5)] obtain s inh where
    s: "vd_stats vd = Some s" "st_inherited s = Some inh" "stats_below sv inh a"
    by (auto simp: inherited_below_def)
  from assms(2) s(1) have "stats_validate sv s version ws = Inr True"
    by (simp add: validate_against_inherited_def)
  from stats_validate_bound [OF this s(2,3) assms(6-8)] show ?thesis .
qed

lemma only_own_history_is_saved_aux:
  assumes "get_version_data_map sv now dry_run org_spec addon_id inherit state = (state', r)"
  defines "key \<equiv> version_data_state_key (og_env (ous_org org_spec)) (og_org_id (ous_org org_spec)) addon_id"
  shows "state' = state \<or>
         \<not> dry_run \<and> (\<exists>vd. update_history sv now (get_version_data state key) (ous_specs org_spec) = Inr vd \<and>
                        state' = state(key \<mapsto> vd))"
    and "r = Inr result \<Longrightarrow> inherit \<Longrightarrow> other \<in> set (opt_list (og_inherit_version_data (ous_org org_spec))) \<Longrightarrow>
           og_org_id (ous_org org_spec) \<noteq> mo_org_id other \<and>
           og_org_id (ous_org org_spec) \<in> set (opt_list (mo_publish_version_data other))"
proof -
  show "state' = state \<or>
         \<not> dry_run \<and> (\<exists>vd. update_history sv now (get_version_data state key) (ous_specs org_spec) = Inr vd \<and>
                        state' = state(key \<mapsto> vd))"
    using assms(1) unfolding key_def [symmetric]
    by (auto simp: get_version_data_map_def Let_def key_def split: sum.splits if_splits)
next
  assume "r = Inr result" inherit and other: "other \<in> set (opt_list (og_inherit_version_data (ous_org org_spec)))"
  with assms(1) obtain own where
    run: "rfold (inherit_org_data sv state' (ous_org org_spec) addon_id) own
       (opt_list (og_inherit_version_data (ous_org org_spec))) = Inr result"
    by (auto simp: get_version_data_map_def Let_def split: sum.splits)
  define Q where "Q = (\<lambda>(y :: minimal_org) (_ :: version_data). og_org_id (ous_org org_spec) \<noteq> mo_org_id y \<and>
    og_org_id (ous_org org_spec) \<in> set (opt_list (mo_publish_version_data y)))"
  from rfold_establishes [where P = "\<lambda>_. True" and Q = Q, OF run] inherit_org_data_Inr other
  show "og_org_id (ous_org org_spec) \<noteq> mo_org_id other \<and>
      og_org_id (ous_org org_spec) \<in> set (opt_list (mo_publish_version_data other))"
    unfolding Q_def by blast
qed

text \<open>What is saved never depends on other organizations: the call changes the remote state at most at
  the key of the organization, where it writes the updated history of the organization alone, and not at
  all in a dry run. A result that includes inherited data exists only when every inherited organization
  publishes its data to this one and none is the organization itself.\<close>
theorem only_own_history_is_saved:
  assumes "get_version_data_map sv now dry_run org_spec addon_id inherit state = (state', r)"
    and "key = version_data_state_key (og_env (ous_org org_spec)) (og_org_id (ous_org org_spec)) addon_id"
  shows "(state' = state \<or>
         \<not> dry_run \<and> (\<exists>vd. update_history sv now (get_version_data state key) (ous_specs org_spec) = Inr vd \<and>
                        state' = state(key \<mapsto> vd))) \<and>
    (inherit \<and> r \<in> range Inr \<longrightarrow> (\<forall>other \<in> set (opt_list (og_inherit_version_data (ous_org org_spec))).
           og_org_id (ous_org org_spec) \<noteq> mo_org_id other \<and>
           og_org_id (ous_org org_spec) \<in> set (opt_list (mo_publish_version_data other))))"
  using only_own_history_is_saved_aux [OF assms(1)] unfolding assms(2) by blast

end
