(* ===== verification/Aus_Examples.thy ===== *)
theory Aus_Examples
  imports Aus_Version_Data
begin

text \<open>
  A small organization for the advanced upgrade service: two sectors, two clusters, a history and
  another organization to inherit from, with a concrete parser of versions. The properties of the
  service are applied to it.
\<close>

definition demo_semver :: "nat list semver_lib" where
  "demo_semver = \<lparr>
     sv_key = (\<lambda>v. let ps = py_split (CHR ''.'') v
                   in if length ps = 3 \<and> list_all is_numeral ps then Some (map nat_of_digits ps) else None),
     sv_str = (\<lambda>v. v),
     sv_major = (\<lambda>v. hd (py_split (CHR ''.'') v)),
     sv_minor = (\<lambda>v. hd (tl (py_split (CHR ''.'') v)))\<rparr>"

definition demo_conditions :: upgrade_conditions where
  "demo_conditions = \<lparr>uc_mutexes = Some [''m1''], uc_soak_days = Some 1, uc_sector = Some ''prod'',
     uc_blocked_versions = None\<rparr>"

definition demo_policy :: upgrade_policy_v1 where
  "demo_policy = \<lparr>up_workloads = [''web''], up_schedule = ''* * * * *'', up_conditions = demo_conditions,
     up_version_gate_approvals = None\<rparr>"

definition demo_other_org :: minimal_org where
  "demo_other_org = \<lparr>mo_name = ''other'', mo_org_id = ''o2'', mo_env = ''env'',
     mo_publish_version_data = Some [''o1'']\<rparr>"

definition demo_aus_org :: aus_org where
  "demo_aus_org = \<lparr>og_name = ''org'', og_org_id = ''o1'', og_env = ''env'', og_env_labels = None,
     og_disabled_integrations = None, og_blocked_versions = None, og_addon_managed_upgrades = None,
     og_inherit_version_data = Some [demo_other_org], og_publish_version_data = None,
     og_sectors = Some [\<lparr>sec_name = ''stage'', sec_max_parallel_upgrades = None, sec_dependencies = None\<rparr>,
       \<lparr>sec_name = ''prod'', sec_max_parallel_upgrades = Some ''2'', sec_dependencies = Some [''stage'']\<rparr>],
     og_health_checks = None, og_upgrade_policy_clusters = None\<rparr>"

definition demo_cluster :: "string \<Rightarrow> string \<Rightarrow> ocm_cluster" where
  "demo_cluster n v = \<lparr>oc_id = ''id-'' @ n, oc_external_id = ''uuid-'' @ n, oc_name = n,
     oc_subscription_id = ''sub-'' @ n, oc_product = ''osd'',
     oc_hypershift = False, oc_sts_enabled = None, oc_version_id = v, oc_version_raw_id = v,
     oc_available_upgrades = [''4.12.2'', ''4.12.3''], oc_available_channels = [], oc_channel = ''stable''\<rparr>"

definition demo_spec :: "string \<Rightarrow> string \<Rightarrow> cluster_upgrade_spec" where
  "demo_spec n v = \<lparr>us_org = demo_aus_org, us_cluster = demo_cluster n v, us_labels = Some [],
     us_policy = demo_policy, us_health = [], us_node_pools = [], us_addon = None\<rparr>"

definition demo_specs :: "cluster_upgrade_spec list" where
  "demo_specs = [demo_spec ''a'' ''4.12.1'', demo_spec ''b'' ''4.12.1'']"

section \<open>Sectors\<close>

definition demo_aus_sectors :: "(string, sector) dict" where
  "demo_aus_sectors = [(''stage'', \<lparr>st_name = ''stage'', st_max_parallel = None, st_dependencies = [], st_specs = []\<rparr>),
     (''prod'', \<lparr>st_name = ''prod'', st_max_parallel = Some ''2'', st_dependencies = [''stage''], st_specs = []\<rparr>)]"

theorem sector_validation_iff_acyclic_witness:
  "init_sectors (opt_list (og_sectors demo_aus_org)) = Inr demo_aus_sectors \<and>
   make_org_upgrade_spec demo_semver demo_aus_org [] \<noteq> Inl ''SectorConfigError'' \<and>
   acyclic (depends_on (sector_deps demo_aus_sectors))"
proof -
  have i: "init_sectors (opt_list (og_sectors demo_aus_org)) = Inr demo_aus_sectors" by code_simp
  have m: "make_org_upgrade_spec demo_semver demo_aus_org [] \<noteq> Inl ''SectorConfigError''" by code_simp
  from sector_validation_iff_acyclic [OF i, of demo_semver "[]"] i m show ?thesis by blast
qed

section \<open>History\<close>

definition demo_history :: version_data where
  "demo_history = \<lparr>vd_check_in = Some 0,
     vd_versions = [(''4.12.1'', [(''web'', \<lparr>wh_soak_days = 1, wh_reporting = [''a'']\<rparr>)])], vd_stats = None\<rparr>"

definition demo_now :: int where "demo_now = 86400000000"

definition demo_updated :: version_data where
  "demo_updated = \<lparr>vd_check_in = Some demo_now,
     vd_versions = [(''4.12.1'', [(''web'', \<lparr>wh_soak_days = 2, wh_reporting = [''a'', ''b'']\<rparr>)])],
     vd_stats = Some (Stats ''4.12.1'' [(''web'', ''4.12.1'')] None)\<rparr>"

lemma demo_update: "update_history demo_semver demo_now demo_history demo_specs = Inr demo_updated"
  by code_simp

theorem update_history_soaks_witness:
  "update_history demo_semver demo_now demo_history demo_specs = Inr demo_updated \<and>
   workload_history demo_updated ''4.12.1'' ''web'' =
     (let h = workload_history demo_history ''4.12.1'' ''web'';
          elapsed = demo_now - (case vd_check_in demo_history of None \<Rightarrow> demo_now | Some t \<Rightarrow> t);
          names = map (\<lambda>s. oc_name (us_cluster s)) (filter (runs_workload ''4.12.1'' ''web'') demo_specs)
      in \<lparr>wh_soak_days = wh_soak_days h +
            of_nat (length (filter (\<lambda>n. n \<in> set (wh_reporting h)) names)) * (of_int elapsed / (86400 * 1000000)),
          wh_reporting = wh_reporting h @ filter (\<lambda>n. n \<notin> set (wh_reporting h)) names\<rparr>)"
proof (rule conjI [OF demo_update], rule update_history_soaks [OF demo_update])
  show "distinct (map (\<lambda>s. oc_name (us_cluster s)) demo_specs)" by code_simp
  show "distinct (up_workloads (us_policy s))" if "s \<in> set demo_specs" for s
    using that by (auto simp: demo_specs_def demo_spec_def demo_policy_def)
qed

definition demo_other_data :: version_data where
  "demo_other_data = \<lparr>vd_check_in = Some 0,
     vd_versions = [(''4.12.2'', [(''web'', \<lparr>wh_soak_days = 5, wh_reporting = [''z'']\<rparr>),
                                  (''db'', \<lparr>wh_soak_days = 7, wh_reporting = [''z'']\<rparr>)])],
     vd_stats = Some (Stats ''4.12.2'' [(''web'', ''4.12.2'')] None)\<rparr>"

definition demo_aggregated :: version_data where
  "demo_aggregated = \<lparr>vd_check_in = Some demo_now,
     vd_versions = [(''4.12.1'', [(''web'', \<lparr>wh_soak_days = 2, wh_reporting = [''a'', ''b'']\<rparr>)]),
                    (''4.12.2'', [(''web'', \<lparr>wh_soak_days = 5, wh_reporting = [''env/o2/z'']\<rparr>)])],
     vd_stats = Some (Stats ''4.12.1'' [(''web'', ''4.12.1'')]
       (Some (Stats ''4.12.2'' [(''web'', ''4.12.2'')] None)))\<rparr>"

lemma demo_aggregate: "vd_aggregate demo_semver demo_updated demo_other_data ''env/o2'' = Inr demo_aggregated"
  by code_simp

theorem aggregate_adds_known_workloads_witness:
  "vd_aggregate demo_semver demo_updated demo_other_data ''env/o2'' = Inr demo_aggregated \<and>
   set (vd_workloads demo_aggregated) = set (vd_workloads demo_updated)"
proof -
  have wf: "wf_dict (vd_versions demo_other_data)" "\<And>v vh. (v, vh) \<in> set (vd_versions demo_other_data) \<Longrightarrow> wf_dict vh"
    by (auto simp: demo_other_data_def)
  from aggregate_adds_known_workloads [OF demo_aggregate wf] demo_aggregate show ?thesis by simp
qed

theorem update_stats_minimal_witness:
  "\<exists>s m k kc. vd_stats demo_updated = Some s \<and> stats_consistent demo_semver s \<and>
     dict_get (st_min_version_per_workload s) ''web'' = Some m \<and> sv_key demo_semver m = Some k \<and>
     sv_key demo_semver (current_version (demo_spec ''a'' ''4.12.1'')) = Some kc \<and> k \<le> kc \<and>
     m \<in> current_version ` {s \<in> set demo_specs. ''web'' \<in> set (up_workloads (us_policy s))}"
proof (rule update_stats_minimal)
  show "update_stats demo_semver demo_updated demo_specs = Inr demo_updated" by code_simp
  show "demo_spec ''a'' ''4.12.1'' \<in> set demo_specs" by (simp add: demo_specs_def)
  show "''web'' \<in> set (up_workloads (us_policy (demo_spec ''a'' ''4.12.1'')))"
    by (simp add: demo_spec_def demo_policy_def)
qed

section \<open>The remote state\<close>

definition demo_version_state :: version_state where
  "demo_version_state k = (if k = ''env/o1'' then Some demo_history
     else if k = ''env/o2'' then Some demo_other_data else None)"

definition demo_org_spec :: org_upgrade_spec where
  "demo_org_spec = \<lparr>ous_org = demo_aus_org, ous_specs = demo_specs, ous_cluster_errors = [],
     ous_org_errors = [], ous_sectors = demo_aus_sectors\<rparr>"

lemma demo_map:
  "get_version_data_map demo_semver demo_now False demo_org_spec '''' True demo_version_state =
     (demo_version_state(''env/o1'' \<mapsto> demo_updated), Inr demo_aggregated)"
proof -
  have key: "version_data_state_key (og_env demo_aus_org) (og_org_id demo_aus_org) '''' = ''env/o1''" by code_simp
  have own: "get_version_data demo_version_state ''env/o1'' = demo_history"
    by (simp add: get_version_data_def demo_version_state_def)
  have inh: "opt_list (og_inherit_version_data demo_aus_org) = [demo_other_org]" by (simp add: demo_aus_org_def)
  have "inherit_org_data demo_semver (demo_version_state(''env/o1'' \<mapsto> demo_updated)) demo_aus_org '''' demo_updated
      demo_other_org = Inr demo_aggregated"
    using demo_aggregate
    by (simp add: inherit_org_data_def demo_aus_org_def demo_other_org_def get_version_data_def
        version_data_state_key_def demo_version_state_def)
  then show ?thesis
    by (simp add: get_version_data_map_def Let_def demo_org_spec_def key own inh demo_update)
qed

theorem inherited_versions_respected_witness:
  "\<exists>k km. sv_key demo_semver ''4.12.2'' = Some k \<and> sv_key demo_semver ''4.12.2'' = Some km \<and> k \<le> km"
proof (rule inherited_versions_respected [OF demo_map, where version = "''4.12.2''" and ws = "[''web'']" and w = "''web''"])
  show "validate_against_inherited demo_semver demo_aggregated ''4.12.2'' [''web''] = Inr True" by code_simp
  show "vd_stats demo_aggregated \<noteq> None" by (simp add: demo_aggregated_def)
  show "demo_other_org \<in> set (opt_list (og_inherit_version_data (ous_org demo_org_spec)))"
    by (simp add: demo_org_spec_def demo_aus_org_def)
  show "vd_stats (other_org_data (demo_version_state(''env/o1'' \<mapsto> demo_updated)) '''' demo_other_org) =
      Some (Stats ''4.12.2'' [(''web'', ''4.12.2'')] None)"
    by (simp add: other_org_data_def get_version_data_def version_data_state_key_def demo_other_org_def
        demo_version_state_def demo_other_data_def)
  have k: "sv_key demo_semver ''4.12.2'' = Some [4, 12, 2]" by code_simp
  show "stats_consistent demo_semver (Stats ''4.12.2'' [(''web'', ''4.12.2'')] None)"
    by (auto simp: stats_consistent_def k split: if_splits)
  show "''web'' \<in> set [''web'']" by simp
  show "dict_get (st_min_version_per_workload (Stats ''4.12.2'' [(''web'', ''4.12.2'')] None)) ''web'' = Some ''4.12.2''"
    by simp
qed

theorem only_own_history_is_saved_witness:
  "demo_version_state(''env/o1'' \<mapsto> demo_updated) = demo_version_state \<or>
     \<not> False \<and> (\<exists>vd. update_history demo_semver demo_now (get_version_data demo_version_state ''env/o1'')
        (ous_specs demo_org_spec) = Inr vd \<and>
        demo_version_state(''env/o1'' \<mapsto> demo_updated) = demo_version_state(''env/o1'' \<mapsto> vd))"
proof -
  have key: "''env/o1'' = version_data_state_key (og_env (ous_org demo_org_spec)) (og_org_id (ous_org demo_org_spec)) ''''"
    by code_simp
  from only_own_history_is_saved [OF demo_map key] show ?thesis by blast
qed

end
