(* ===== verification/Aus_Schedule.thy ===== *)
theory Aus_Schedule
  imports Aus_Version_Data
begin

text \<open>
  The scheduler of the advanced upgrade service: the conditions for a version, the gates, the guards
  of a cluster, and \<open>calculate_diff\<close> of \<open>reconcile/aus/base.py\<close>, which decides on the upgrade
  policies to create and the channels to switch. OCM, the cron expressions and the clock are
  parameters: \<open>upgrade_world\<close> collects what the code asks them.
\<close>

section \<open>Upgrade policies\<close>

datatype policy_kind =
    AddonPolicy (pk_addon_id: string)
  | ClusterPolicy string "(string, string) dict"
  | ControlPlanePolicy
  | NodePoolPolicy string

record upgrade_policy =
  pl_kind :: policy_kind
  pl_cluster :: ocm_cluster
  pl_id :: "string option"
  pl_next_run :: "string option"
  pl_schedule_type :: string
  pl_version :: string
  pl_state :: "string option"

record policy_handler =
  ph_action :: string
  ph_policy :: upgrade_policy

record channel_switch =
  cs_cluster :: ocm_cluster
  cs_from_channel :: string
  cs_to_channel :: string
  cs_org_id :: string

record version_gate =
  vg_id :: string
  vg_version_raw_id_prefix :: string
  vg_label :: string

text \<open>What the scheduler asks its surroundings. \<open>uw_next_schedule\<close> is the next time of a cron
  expression after a given one; \<open>uw_channels\<close> is the request for a cluster's channels, which may fail.\<close>

record 'k upgrade_world =
  uw_semver :: "'k semver_lib"
  uw_search :: "string \<Rightarrow> string \<Rightarrow> bool"
  uw_next_schedule :: "string \<Rightarrow> int \<Rightarrow> string + int"
  uw_iso_format :: "int \<Rightarrow> string"
  uw_gates :: "version_gate list"
  uw_agreements :: "string \<Rightarrow> string + string list"
  uw_channels :: "string \<Rightarrow> string list option"

section \<open>Conditions of a version\<close>

definition sector_specs :: "(string, sector) dict \<Rightarrow> string \<Rightarrow> cluster_upgrade_spec list" where
  "sector_specs sectors n = (case dict_get sectors n of None \<Rightarrow> [] | Some st \<Rightarrow> dict_values (st_specs st))"

definition workload_sector_versions ::
  "('k::linorder) semver_lib \<Rightarrow> (string, sector) dict \<Rightarrow> string \<Rightarrow> string \<Rightarrow> string + 'k list" where
  "workload_sector_versions sv sectors workload n =
     rmap (\<lambda>spec. parse_semver sv (oc_version_raw_id (us_cluster spec)))
       (filter (\<lambda>spec. workload \<in> set (up_workloads (us_policy spec))) (sector_specs sectors n))"

text \<open>The recursion goes down the dependencies; the fuel bounds its depth, as the interpreter does.\<close>

primrec workload_sector_dependencies ::
  "('k::linorder) semver_lib \<Rightarrow> (string, sector) dict \<Rightarrow> string \<Rightarrow> nat \<Rightarrow> string \<Rightarrow> string + string list" where
  "workload_sector_dependencies sv sectors workload 0 = (\<lambda>n. Inl ''RecursionError'')"
| "workload_sector_dependencies sv sectors workload (Suc fuel) = (\<lambda>n.
     rfold (\<lambda>deps dep. rbind (workload_sector_versions sv sectors workload dep) (\<lambda>vs.
         if vs \<noteq> [] then Inr (add_if_absent deps dep)
         else rbind (workload_sector_dependencies sv sectors workload fuel dep) (\<lambda>ds. Inr (add_all deps ds))))
       [] (sector_deps sectors n))"

definition dependency_runs_version ::
  "('k::linorder) semver_lib \<Rightarrow> (string, sector) dict \<Rightarrow> string \<Rightarrow> string \<Rightarrow> string \<Rightarrow> string + bool" where
  "dependency_runs_version sv sectors version workload dep =
     rbind (workload_sector_versions sv sectors workload dep) (\<lambda>vs.
       if vs = [] then Inr True
       else rbind (parse_semver sv version) (\<lambda>k. Inr (\<not> Min (set vs) < k)))"

definition sector_conditions_met ::
  "('k::linorder) semver_lib \<Rightarrow> (string, sector) dict \<Rightarrow> string \<Rightarrow> version_data \<Rightarrow> upgrade_policy_v1 \<Rightarrow>
   string \<Rightarrow> string + bool" where
  "sector_conditions_met sv sectors version vd policy sector =
     rbind (validate_against_inherited sv vd version (up_workloads policy)) (\<lambda>valid.
       if \<not> valid then Inr False
       else rall (\<lambda>w. rbind (workload_sector_dependencies sv sectors w (length sectors) sector) (\<lambda>deps.
              rall (dependency_runs_version sv sectors version w) deps)) (up_workloads policy))"

definition soaked :: "string \<Rightarrow> version_data \<Rightarrow> upgrade_policy_v1 \<Rightarrow> bool" where
  "soaked version vd policy =
     (case uc_soak_days (up_conditions policy) of
        None \<Rightarrow> True
      | Some d \<Rightarrow> list_all (\<lambda>w. \<not> wh_soak_days (workload_history vd version w) < of_int d) (up_workloads policy))"

definition version_conditions_met ::
  "('k::linorder) semver_lib \<Rightarrow> (string, sector) dict \<Rightarrow> string \<Rightarrow> version_data \<Rightarrow> upgrade_policy_v1 \<Rightarrow>
   string option \<Rightarrow> string + bool" where
  "version_conditions_met sv sectors version vd policy sector =
     rbind (case sector of None \<Rightarrow> Inr True
            | Some s \<Rightarrow> sector_conditions_met sv sectors version vd policy s) (\<lambda>ok.
       Inr (ok \<and> soaked version vd policy))"

fun first_upgradeable :: "(string \<Rightarrow> bool) \<Rightarrow> (string \<Rightarrow> string + bool) \<Rightarrow> string list \<Rightarrow> string + string option" where
  "first_upgradeable blocked met [] = Inr None"
| "first_upgradeable blocked met (v # vs) =
     (if blocked v then first_upgradeable blocked met vs
      else rbind (met v) (\<lambda>ok. if ok then Inr (Some v) else first_upgradeable blocked met vs))"

definition upgradeable_version ::
  "('k::linorder) upgrade_world \<Rightarrow> (string, sector) dict \<Rightarrow> cluster_upgrade_spec \<Rightarrow> version_data \<Rightarrow>
   string option \<Rightarrow> string + string option" where
  "upgradeable_version w sectors spec vd sector =
     rbind (get_available_upgrades (uw_semver w) spec) (\<lambda>upgrades.
     rbind (sort_versions (uw_semver w) upgrades) (\<lambda>ordered.
       first_upgradeable (version_blocked (uw_search w) spec)
         (\<lambda>v. version_conditions_met (uw_semver w) sectors v vd (us_policy spec) sector) (rev ordered)))"

section \<open>Version gates\<close>

definition gate_handlers :: "(string, ocm_cluster \<Rightarrow> bool) dict" where
  "gate_handlers = [(''api.openshift.com/gate-ocp'', \<lambda>_. True), (''api.openshift.com/gate-sts'', is_sts),
     (''api.openshift.com/gate-ingress'', \<lambda>_. True)]"

definition gates_for_minor_version :: "version_gate list \<Rightarrow> string \<Rightarrow> version_gate list" where
  "gates_for_minor_version gates target = filter (\<lambda>g. vg_version_raw_id_prefix g = target) gates"

definition is_gate_applicable_to_cluster ::
  "('k::linorder) semver_lib \<Rightarrow> version_gate \<Rightarrow> ocm_cluster \<Rightarrow> string + bool" where
  "is_gate_applicable_to_cluster sv gate c =
     rbind (rmap (get_version_prefix sv) (oc_available_upgrades c)) (\<lambda>paths.
       if vg_version_raw_id_prefix gate \<notin> set paths then Inr False
       else rbind (minor_version sv c) (\<lambda>minor.
            rbind (semver_less sv (minor @ ''.0'') (vg_version_raw_id_prefix gate @ ''.0'')) (\<lambda>later.
              if \<not> later then Inr False
              else Inr (case dict_get gate_handlers (vg_label gate) of
                          None \<Rightarrow> False | Some applicable \<Rightarrow> applicable c))))"

definition gates_to_agree ::
  "('k::linorder) semver_lib \<Rightarrow> version_gate list \<Rightarrow> ocm_cluster \<Rightarrow> string list \<Rightarrow> string + version_gate list" where
  "gates_to_agree sv gates c acked =
     rbind (rmap (\<lambda>g. rbind (is_gate_applicable_to_cluster sv g c) (\<lambda>a. Inr (g, a))) gates) (\<lambda>gas.
       Inr (filter (\<lambda>g. vg_id g \<notin> set acked) (map fst (filter snd gas))))"

section \<open>Guards of a cluster\<close>

definition MIN_DELTA_MINUTES :: int where "MIN_DELTA_MINUTES = 6"

definition minutes :: "int \<Rightarrow> int" where
  \<comment> \<open>a duration of minutes in microseconds\<close>
  "minutes n = n * 60000000"

definition verify_current_should_skip :: "upgrade_policy list \<Rightarrow> cluster_upgrade_spec \<Rightarrow> string + bool" where
  "verify_current_should_skip current spec =
     (let policies = filter (\<lambda>p. oc_id (pl_cluster p) = oc_id (us_cluster spec)) current
      in if policies = [] then Inr False
         else if length policies \<noteq> 1 then Inl ''ValueError'' else Inr True)"

definition verify_schedule_should_skip ::
  "('k::linorder) upgrade_world \<Rightarrow> cluster_upgrade_spec \<Rightarrow> int \<Rightarrow> string \<Rightarrow> string + string option" where
  "verify_schedule_should_skip w spec now addon_id =
     (let delay = (if addon_id \<noteq> [] then 1 else MIN_DELTA_MINUTES)
      in rbind (uw_next_schedule w (up_schedule (us_policy spec)) (now + minutes delay)) (\<lambda>next_schedule.
           let in_time = (if addon_id \<noteq> [] then next_schedule - now \<le> minutes 10
                         else next_schedule - now \<le> minutes 120)
           in Inr (if in_time then Some (uw_iso_format w next_schedule) else None)))"

definition py_int :: "string \<Rightarrow> int option" where
  \<comment> \<open>\<open>int(s)\<close>: spaces around, a sign, digits that may be grouped by single underscores\<close>
  "py_int s =
     (let t = py_strip s;
          sign = (if t \<noteq> [] \<and> hd t = CHR ''-'' then -1 else 1 :: int);
          digits = (if t \<noteq> [] \<and> (hd t = CHR ''-'' \<or> hd t = CHR ''+'') then tl t else t)
      in if list_all is_numeral (py_split (CHR ''_'') digits)
         then Some (sign * int (nat_of_digits (concat (py_split (CHR ''_'') digits)))) else None)"

definition max_parallel_upgrades :: "string \<Rightarrow> nat \<Rightarrow> string + int" where
  \<comment> \<open>the limit of a sector for a number of clusters, at least one\<close>
  "max_parallel_upgrades setting cluster_count =
     rbind (if suffix ''%'' setting
            then rbind (of_opt ''ValueError'' (py_int (butlast setting)))
                   (\<lambda>percent. Inr (round_half_even (int cluster_count * percent) 100))
            else of_opt ''ValueError'' (py_int setting)) (\<lambda>limit.
       Inr (if limit = 0 then 1 else limit))"

type_synonym mutex_upgrades = "(string \<times> string, string list) dict"

definition upgrades_of :: "mutex_upgrades \<Rightarrow> string \<Rightarrow> string \<Rightarrow> string list" where
  "upgrades_of smu sector_name mutex = get_or smu (sector_name, mutex) []"

definition verify_max_upgrades_should_skip ::
  "cluster_upgrade_spec \<Rightarrow> (string, string) dict \<Rightarrow> mutex_upgrades \<Rightarrow> sector option \<Rightarrow> string + bool" where
  "verify_max_upgrades_should_skip spec locked smu sector =
     (let mutexes = effective_mutexes spec in
      case sector of
        None \<Rightarrow> Inr (list_ex (dict_has locked) mutexes)
      | Some st \<Rightarrow> (case st_max_parallel st of
          None \<Rightarrow> Inr (list_ex (dict_has locked) mutexes)
        | Some setting \<Rightarrow>
            if sum_list (map (\<lambda>m. length (upgrades_of smu (st_name st) m)) mutexes) = 0 then Inr False
            else rbind (rall (\<lambda>m.
                rbind (max_parallel_upgrades setting
                         (length (filter (\<lambda>s. m \<in> set (effective_mutexes s)) (dict_values (st_specs st)))))
                  (\<lambda>limit. Inr (\<not> limit \<le> int (length (upgrades_of smu (st_name st) m))))) mutexes)
              (\<lambda>free. Inr (\<not> free))))"

section \<open>The difference\<close>

record diff_state =
  ds_locked :: "(string, string) dict"
  ds_sector_mutex :: mutex_upgrades
  ds_channels :: "(string, string list) dict"
  ds_diffs :: "policy_handler list"
  ds_switches :: "channel_switch list"

definition set_upgrading :: "string \<Rightarrow> string list \<Rightarrow> string option \<Rightarrow> diff_state \<Rightarrow> diff_state" where
  "set_upgrading cluster_id mutexes sector_name st =
     foldl (\<lambda>st m.
       let st = st\<lparr>ds_locked := dict_set (ds_locked st) m cluster_id\<rparr>
       in case truthy_str sector_name of
            None \<Rightarrow> st
          | Some n \<Rightarrow> st\<lparr>ds_sector_mutex := dict_set (ds_sector_mutex st) (n, m)
                (add_if_absent (upgrades_of (ds_sector_mutex st) n m) cluster_id)\<rparr>) st mutexes"

definition spec_upgrading :: "cluster_upgrade_spec \<Rightarrow> diff_state \<Rightarrow> diff_state" where
  "spec_upgrading spec =
     set_upgrading (oc_id (us_cluster spec)) (effective_mutexes spec) (uc_sector (up_conditions (us_policy spec)))"

definition create_upgrade_policy :: "string \<Rightarrow> cluster_upgrade_spec \<Rightarrow> string \<Rightarrow> string + upgrade_policy" where
  "create_upgrade_policy next_schedule spec version =
     (let policy = (\<lambda>kind. \<lparr>pl_kind = kind, pl_cluster = us_cluster spec, pl_id = None,
            pl_next_run = Some next_schedule, pl_schedule_type = ''manual'', pl_version = version, pl_state = None\<rparr>)
      in if is_rosa_hypershift (us_cluster spec) then Inr (policy ControlPlanePolicy)
         else rbind (of_opt ''ValidationError'' (us_labels spec)) (\<lambda>labels.
           Inr (policy (ClusterPolicy (og_org_id (us_org spec)) labels))))"

fun node_pool_diffs ::
  "('k::linorder) upgrade_world \<Rightarrow> cluster_upgrade_spec \<Rightarrow> int \<Rightarrow> node_pool_spec list \<Rightarrow>
   string + policy_handler option" where
  "node_pool_diffs w spec now [] = Inr None"
| "node_pool_diffs w spec now (pool # pools) =
     rbind (semver_less (uw_semver w) (np_version pool) (current_version spec)) (\<lambda>older.
       if older then Inr (Some \<lparr>ph_action = ''create'', ph_policy =
           \<lparr>pl_kind = NodePoolPolicy (np_id pool), pl_cluster = us_cluster spec, pl_id = None,
            pl_next_run = Some (uw_iso_format w (now + minutes MIN_DELTA_MINUTES)),
            pl_schedule_type = ''manual'', pl_version = current_version spec, pl_state = None\<rparr>\<rparr>)
       else node_pool_diffs w spec now pools)"

definition calculate_node_pool_diffs ::
  "('k::linorder) upgrade_world \<Rightarrow> cluster_upgrade_spec \<Rightarrow> int \<Rightarrow> string + policy_handler option" where
  "calculate_node_pool_diffs w spec now = node_pool_diffs w spec now (us_node_pools spec)"

definition get_available_channels ::
  "(string \<Rightarrow> string list option) \<Rightarrow> string \<Rightarrow> string \<Rightarrow> (string, string list) dict \<Rightarrow>
   (string, string list) dict \<times> string list" where
  "get_available_channels fetch cluster_id version_id cache =
     (case dict_get cache version_id of
        Some channels \<Rightarrow> (cache, channels)
      | None \<Rightarrow>
          let channels = (case fetch cluster_id of None \<Rightarrow> [] | Some cs \<Rightarrow> cs)
          in (dict_set cache version_id channels, channels))"

definition check_y_stream_channel_switch_needed ::
  "cluster_upgrade_spec \<Rightarrow> string list \<Rightarrow> channel_switch option" where
  "check_y_stream_channel_switch_needed spec available =
     (let c = us_cluster spec in
      if \<not> is_y_stream_channel c then None
      else case truthy_str (target_y_stream_channel c) of
        None \<Rightarrow> None
      | Some target \<Rightarrow>
          if oc_channel c = target then None
          else if target \<notin> set available then None
          else Some \<lparr>cs_cluster = c, cs_from_channel = oc_channel c, cs_to_channel = target,
                     cs_org_id = og_org_id (us_org spec)\<rparr>)"

definition try_channel_switch ::
  "('k::linorder) upgrade_world \<Rightarrow> cluster_upgrade_spec \<Rightarrow> string \<Rightarrow> diff_state \<Rightarrow> diff_state" where
  "try_channel_switch w spec addon_id st =
     (if addon_id \<noteq> [] then st
      else
        let (cache, available) =
              (if oc_available_channels (us_cluster spec) \<noteq> []
               then (ds_channels st, oc_available_channels (us_cluster spec))
               else get_available_channels (uw_channels w) (oc_id (us_cluster spec))
                      (oc_version_id (us_cluster spec)) (ds_channels st))
        in st\<lparr>ds_channels := cache,
              ds_switches := ds_switches st @
                (case check_y_stream_channel_switch_needed spec available of None \<Rightarrow> [] | Some s \<Rightarrow> [s])\<rparr>)"

definition addon_upgrade_policy :: "cluster_upgrade_spec \<Rightarrow> string \<Rightarrow> string \<Rightarrow> upgrade_policy" where
  "addon_upgrade_policy spec addon_id version =
     \<lparr>pl_kind = AddonPolicy addon_id, pl_cluster = us_cluster spec, pl_id = None, pl_next_run = None,
      pl_schedule_type = ''manual'', pl_version = version, pl_state = None\<rparr>"

definition emit :: "policy_handler \<Rightarrow> cluster_upgrade_spec \<Rightarrow> diff_state \<Rightarrow> diff_state" where
  "emit h spec st = spec_upgrading spec (st\<lparr>ds_diffs := ds_diffs st @ [h]\<rparr>)"

definition schedule_version ::
  "('k::linorder) upgrade_world \<Rightarrow> string \<Rightarrow> string \<Rightarrow> cluster_upgrade_spec \<Rightarrow> string \<Rightarrow> diff_state \<Rightarrow>
   string + diff_state" where
  \<comment> \<open>what the loop does with a version to upgrade to\<close>
  "schedule_version w addon_id next_schedule spec version st =
     (if addon_id \<noteq> [] then
        Inr (emit \<lparr>ph_action = ''create'', ph_policy = addon_upgrade_policy spec addon_id version\<rparr> spec st)
      else
        rbind (get_version_prefix (uw_semver w) version) (\<lambda>target.
        rbind (uw_agreements w (oc_id (us_cluster spec))) (\<lambda>acked.
        rbind (gates_to_agree (uw_semver w) (gates_for_minor_version (uw_gates w) target) (us_cluster spec) acked)
          (\<lambda>missing.
            if missing \<noteq> [] then Inr st
            else rbind (create_upgrade_policy next_schedule spec version) (\<lambda>policy.
              Inr (emit \<lparr>ph_action = ''create'', ph_policy = policy\<rparr> spec st))))))"

definition schedule_cluster ::
  "('k::linorder) upgrade_world \<Rightarrow> (string, sector) dict \<Rightarrow> upgrade_policy list \<Rightarrow> version_data \<Rightarrow> string \<Rightarrow> int \<Rightarrow>
   sector option \<Rightarrow> cluster_upgrade_spec \<Rightarrow> diff_state \<Rightarrow> string + diff_state" where
  \<comment> \<open>the rest of the loop body, after the node pools\<close>
  "schedule_cluster w sectors current vd addon_id now sector spec st =
     rbind (verify_current_should_skip current spec) (\<lambda>skip.
       if skip then Inr st
       else rbind (verify_schedule_should_skip w spec now addon_id) (\<lambda>schedule.
         case truthy_str schedule of
           None \<Rightarrow> Inr (try_channel_switch w spec addon_id st)
         | Some next_schedule \<Rightarrow>
             rbind (verify_max_upgrades_should_skip spec (ds_locked st) (ds_sector_mutex st) sector) (\<lambda>skip.
               if skip then Inr st
               else rbind (upgradeable_version w sectors spec vd (map_option st_name sector)) (\<lambda>version.
                 case truthy_str version of
                   None \<Rightarrow> Inr (try_channel_switch w spec addon_id st)
                 | Some v \<Rightarrow> schedule_version w addon_id next_schedule spec v st))))"

definition sector_of :: "(string, sector) dict \<Rightarrow> cluster_upgrade_spec \<Rightarrow> string + sector option" where
  "sector_of sectors spec =
     (case truthy_str (uc_sector (up_conditions (us_policy spec))) of
        None \<Rightarrow> Inr None
      | Some n \<Rightarrow> rbind (of_opt ''KeyError'' (dict_get sectors n)) (\<lambda>s. Inr (Some s)))"

definition calculate_step ::
  "('k::linorder) upgrade_world \<Rightarrow> (string, sector) dict \<Rightarrow> upgrade_policy list \<Rightarrow> version_data \<Rightarrow> string \<Rightarrow> int \<Rightarrow>
   diff_state \<Rightarrow> cluster_upgrade_spec \<Rightarrow> string + diff_state" where
  "calculate_step w sectors current vd addon_id now st spec =
     rbind (sector_of sectors spec) (\<lambda>sector.
       let go_on = schedule_cluster w sectors current vd addon_id now sector spec st
       in if \<not> is_rosa_hypershift (us_cluster spec) then go_on
          else rbind (verify_max_upgrades_should_skip spec (ds_locked st) (ds_sector_mutex st) sector) (\<lambda>skip.
            if skip then Inr st
            else rbind (calculate_node_pool_diffs w spec now) (\<lambda>update.
              case update of
                Some h \<Rightarrow> Inr (emit h spec st)
              | None \<Rightarrow> go_on)))"

definition init_addon_service_version :: "string \<Rightarrow> string + nat" where
  "init_addon_service_version v =
     (if v = ''v1'' then Inr 1 else if v = ''v2'' then Inr 2 else Inl ''ValueError'')"

definition init_addon_service :: "(string, string) dict option \<Rightarrow> string + nat" where
  "init_addon_service labels =
     (let labels = (case labels of None \<Rightarrow> [] | Some l \<Rightarrow> l);
          version = (case truthy_str (dict_get labels ''feature_flag_addon_service_version'') of
                       None \<Rightarrow> ''v2'' | Some v \<Rightarrow> v)
      in init_addon_service_version version)"

definition current_upgrades :: "upgrade_policy list \<Rightarrow> cluster_upgrade_spec list \<Rightarrow> diff_state" where
  "current_upgrades current specs =
     foldl (\<lambda>st spec. if oc_id (us_cluster spec) \<in> set (map (\<lambda>p. oc_id (pl_cluster p)) current)
                      then spec_upgrading spec st else st)
       \<lparr>ds_locked = [], ds_sector_mutex = [], ds_channels = [], ds_diffs = [], ds_switches = []\<rparr> specs"

definition calculate_diff ::
  "('k::linorder) upgrade_world \<Rightarrow> upgrade_policy list \<Rightarrow> org_upgrade_spec \<Rightarrow> version_data \<Rightarrow> string \<Rightarrow> int \<Rightarrow>
   string + diff_state" where
  "calculate_diff w current desired vd addon_id now =
     rbind (init_addon_service (og_env_labels (ous_org desired))) (\<lambda>_.
       rfold (calculate_step w (ous_sectors desired) current vd addon_id now)
         (current_upgrades current (ous_specs desired)) (ous_specs desired))"

end
