(* ===== verification/Aus_Schedule_Laws.thy ===== *)
theory Aus_Schedule_Laws
  imports Aus_Schedule
begin

text \<open>
  What the scheduler guarantees: the version it picks is the highest one that is free to use, it is never
  ahead of the sectors that go first, upgrades exclude each other through their mutexes, and a sector
  keeps its limit of parallel upgrades.
\<close>

section \<open>The version that is picked\<close>

lemma sort_versions_Inr:
  assumes "sort_versions sv vs = Inr ordered" "semver_prints sv"
  shows "set ordered = set vs" "sorted_wrt (\<lambda>a b. the (sv_key sv a) \<le> the (sv_key sv b)) ordered"
    "\<And>v. v \<in> set vs \<Longrightarrow> sv_key sv v \<noteq> None"
proof -
  from assms(1) obtain kvs where
    kvs: "rmap (\<lambda>v. rbind (parse_semver sv v) (\<lambda>k. Inr (k, v))) vs = Inr kvs"
    and ordered: "ordered = map (\<lambda>kv. sv_str sv (snd kv)) (sort_key fst kvs)"
    by (auto simp: sort_versions_def rbind_Inr_iff)
  have keys: "sv_key sv (snd kv) = Some (fst kv)" if "kv \<in> set kvs" for kv
    using rmap_Inr_set [OF kvs that] by (auto simp: rbind_Inr_iff parse_semver_Inr)
  then have prints: "sv_str sv (snd kv) = snd kv" if "kv \<in> set kvs" for kv
    using that assms(2) by (auto simp: semver_prints_def)
  have "map snd kvs = vs"
    using kvs by (induction vs arbitrary: kvs) (auto simp: rbind_Inr_iff)
  then have vs: "set vs = snd ` set kvs" by (metis list.set_map)
  then show "set ordered = set vs"
    using prints by (force simp: ordered)
  show "\<And>v. v \<in> set vs \<Longrightarrow> sv_key sv v \<noteq> None"
    using keys vs by auto
  have "sorted_wrt (\<lambda>a b. fst a \<le> fst b) (sort_key fst kvs)"
    using sorted_sort_key [of fst kvs] by (simp add: sorted_map)
  then have "sorted_wrt (\<lambda>a b. the (sv_key sv (sv_str sv (snd a))) \<le> the (sv_key sv (sv_str sv (snd b)))) (sort_key fst kvs)"
    by (rule sorted_wrt_mono_rel [rotated]) (simp add: keys prints)
  then show "sorted_wrt (\<lambda>a b. the (sv_key sv a) \<le> the (sv_key sv b)) ordered"
    by (simp add: ordered sorted_wrt_map)
qed

lemma first_upgradeable_Some:
  "first_upgradeable blocked met vs = Inr (Some v) \<Longrightarrow>
     \<exists>pre post. vs = pre @ v # post \<and> \<not> blocked v \<and> met v = Inr True \<and>
       (\<forall>u \<in> set pre. blocked u \<or> met u = Inr False)"
proof (induction vs)
  case (Cons u vs)
  show ?case
  proof (cases "blocked u \<or> met u = Inr False")
    case True
    with Cons have "first_upgradeable blocked met vs = Inr (Some v)" by (auto split: if_splits)
    with Cons.IH obtain pre post where "vs = pre @ v # post" "\<not> blocked v" "met v = Inr True"
      "\<forall>u \<in> set pre. blocked u \<or> met u = Inr False" by blast
    with True show ?thesis by (intro exI [of _ "u # pre"] exI [of _ post]) auto
  next
    case False
    with Cons.prems have "u = v" "met v = Inr True" "\<not> blocked v"
      by (auto simp: rbind_Inr_iff split: if_splits)
    then show ?thesis by (intro exI [of _ "[]"] exI [of _ vs]) simp
  qed
qed simp

lemma first_upgradeable_None:
  "first_upgradeable blocked met vs = Inr None \<Longrightarrow> \<forall>u \<in> set vs. blocked u \<or> met u = Inr False"
  by (induction vs) (auto simp: rbind_Inr_iff split: if_splits)

lemma upgradeable_version_highest_aux:
  assumes run: "upgradeable_version w sectors spec vd sector = Inr r" and sv: "semver_prints (uw_semver w)"
  defines "met \<equiv> \<lambda>v. version_conditions_met (uw_semver w) sectors v vd (us_policy spec) sector"
  shows "\<exists>upgrades. get_available_upgrades (uw_semver w) spec = Inr upgrades \<and>
    (case r of
       None \<Rightarrow> \<forall>u \<in> set upgrades. version_blocked (uw_search w) spec u \<or> met u = Inr False
     | Some v \<Rightarrow> v \<in> set upgrades \<and> \<not> version_blocked (uw_search w) spec v \<and> met v = Inr True \<and>
         (\<forall>u \<in> set upgrades. the (sv_key (uw_semver w) v) < the (sv_key (uw_semver w) u) \<longrightarrow>
            version_blocked (uw_search w) spec u \<or> met u = Inr False))"
proof -
  from run obtain upgrades ordered where
    u: "get_available_upgrades (uw_semver w) spec = Inr upgrades"
    and s: "sort_versions (uw_semver w) upgrades = Inr ordered"
    and f: "first_upgradeable (version_blocked (uw_search w) spec) met (rev ordered) = Inr r"
    by (auto simp: upgradeable_version_def met_def rbind_Inr_iff)
  note ordered = sort_versions_Inr [OF s sv]
  show ?thesis
  proof (cases r)
    case None
    with first_upgradeable_None f ordered(1) u show ?thesis by (auto simp: set_rev)
  next
    case (Some v)
    from first_upgradeable_Some [OF f [unfolded Some]] obtain pre post where
      p: "rev ordered = pre @ v # post" "\<not> version_blocked (uw_search w) spec v" "met v = Inr True"
        "\<forall>u \<in> set pre. version_blocked (uw_search w) spec u \<or> met u = Inr False" by blast
    then have split: "ordered = rev post @ v # rev pre" by (metis append.assoc append_Cons append_Nil rev.simps(2) rev_append rev_rev_ident)
    have "u \<in> set pre" if "u \<in> set upgrades" "the (sv_key (uw_semver w) v) < the (sv_key (uw_semver w) u)" for u
    proof -
      have "u \<in> set post \<or> u = v \<or> u \<in> set pre" using that(1) ordered(1) by (auto simp: split)
      then show ?thesis using that(2) ordered(2) unfolding split by (auto simp: sorted_wrt_append dest: leD)
    qed
    with p u Some ordered(1) split show ?thesis by auto
  qed
qed

text \<open>The scheduler picks the highest version there is: what it returns is available, not blocked and
  meets its conditions, and every available version above it is blocked or fails its conditions; it
  returns nothing only when this holds of all available versions.\<close>
theorem upgradeable_version_highest:
  assumes "upgradeable_version w sectors spec vd sector = Inr r" "semver_prints (uw_semver w)"
  shows "\<exists>upgrades. get_available_upgrades (uw_semver w) spec = Inr upgrades \<and>
    (case r of
       None \<Rightarrow> \<forall>u \<in> set upgrades. version_blocked (uw_search w) spec u \<or>
         version_conditions_met (uw_semver w) sectors u vd (us_policy spec) sector = Inr False
     | Some v \<Rightarrow> v \<in> set upgrades \<and> \<not> version_blocked (uw_search w) spec v \<and>
         version_conditions_met (uw_semver w) sectors v vd (us_policy spec) sector = Inr True \<and>
         (\<forall>u \<in> set upgrades. the (sv_key (uw_semver w) v) < the (sv_key (uw_semver w) u) \<longrightarrow>
            version_blocked (uw_search w) spec u \<or>
            version_conditions_met (uw_semver w) sectors u vd (us_policy spec) sector = Inr False))"
  using assms by (rule upgradeable_version_highest_aux)

section \<open>The sectors that go first\<close>

definition runs_in_sector :: "(string, sector) dict \<Rightarrow> string \<Rightarrow> string \<Rightarrow> cluster_upgrade_spec \<Rightarrow> bool" where
  "runs_in_sector sectors w n spec \<longleftrightarrow> spec \<in> set (sector_specs sectors n) \<and> w \<in> set (up_workloads (us_policy spec))"

text \<open>A sector guards another for a workload: it is the first one down the dependencies that runs it.\<close>

inductive guards :: "(string, sector) dict \<Rightarrow> string \<Rightarrow> string \<Rightarrow> string \<Rightarrow> bool"
  for sectors :: "(string, sector) dict" and w :: string where
  direct: "d \<in> set (sector_deps sectors n) \<Longrightarrow> runs_in_sector sectors w d spec \<Longrightarrow> guards sectors w n d"
| deeper: "d \<in> set (sector_deps sectors n) \<Longrightarrow> (\<nexists>spec. runs_in_sector sectors w d spec) \<Longrightarrow>
     guards sectors w d e \<Longrightarrow> guards sectors w n e"

inductive_cases guards_cases: "guards sectors w n d"

lemma workload_sector_versions_Inr:
  assumes "workload_sector_versions sv sectors w n = Inr vs"
  shows "vs = [] \<longleftrightarrow> (\<nexists>spec. runs_in_sector sectors w n spec)"
    "runs_in_sector sectors w n spec \<Longrightarrow> \<exists>k \<in> set vs. sv_key sv (oc_version_raw_id (us_cluster spec)) = Some k"
proof -
  show *: "\<exists>k \<in> set vs. sv_key sv (oc_version_raw_id (us_cluster spec)) = Some k"
    if "runs_in_sector sectors w n spec" for spec
    using rmap_Inr_elem [OF assms [unfolded workload_sector_versions_def], of spec] that
    by (auto simp: runs_in_sector_def parse_semver_Inr)
  have "\<exists>spec. runs_in_sector sectors w n spec" if "k \<in> set vs" for k
    using rmap_Inr_set [OF assms [unfolded workload_sector_versions_def] that] by (auto simp: runs_in_sector_def)
  with * show "vs = [] \<longleftrightarrow> (\<nexists>spec. runs_in_sector sectors w n spec)"
    by (metis ex_in_conv list.set_sel(1) empty_iff list.set(1))
qed

lemma rfold_collect:
  assumes "rfold f acc xs = Inr ys"
    and "\<And>acc x acc'. x \<in> set xs \<Longrightarrow> f acc x = Inr acc' \<Longrightarrow> set acc' = set acc \<union> g x"
  shows "set ys = set acc \<union> (\<Union>x \<in> set xs. g x)"
  using assms
proof (induction xs arbitrary: acc)
  case (Cons x xs)
  then obtain acc' where a: "f acc x = Inr acc'" "rfold f acc' xs = Inr ys" by (auto simp: rbind_Inr_iff)
  have "set ys = set acc' \<union> (\<Union>x \<in> set xs. g x)"
    by (rule Cons.IH [OF a(2)]) (use Cons.prems(2) in auto)
  moreover have "set acc' = set acc \<union> g x" by (rule Cons.prems(2) [OF _ a(1)]) simp
  ultimately show ?case by auto
qed simp

lemma workload_sector_dependencies_guards:
  "workload_sector_dependencies sv sectors w fuel n = Inr ds \<Longrightarrow> set ds = {d. guards sectors w n d}"
proof (induction fuel arbitrary: n ds)
  case (Suc fuel)
  define g where "g = (\<lambda>dep. if \<exists>spec. runs_in_sector sectors w dep spec then {dep} else {d. guards sectors w dep d})"
  have "set ds = set [] \<union> (\<Union>dep \<in> set (sector_deps sectors n). g dep)"
  proof (rule rfold_collect [OF Suc.prems [simplified]])
    fix acc dep acc'
    assume "rbind (workload_sector_versions sv sectors w dep) (\<lambda>vs.
        if vs \<noteq> [] then Inr (add_if_absent acc dep)
        else rbind (workload_sector_dependencies sv sectors w fuel dep) (\<lambda>ds. Inr (add_all acc ds))) = Inr acc'"
    then obtain vs where vs: "workload_sector_versions sv sectors w dep = Inr vs"
      and rest: "(if vs \<noteq> [] then Inr (add_if_absent acc dep)
        else rbind (workload_sector_dependencies sv sectors w fuel dep) (\<lambda>ds. Inr (add_all acc ds))) = Inr acc'"
      by (auto simp: rbind_Inr_iff)
    show "set acc' = set acc \<union> g dep"
    proof (cases "vs = []")
      case True
      with rest obtain ds where "workload_sector_dependencies sv sectors w fuel dep = Inr ds" "acc' = add_all acc ds"
        by (auto simp: rbind_Inr_iff)
      moreover have "g dep = {d. guards sectors w dep d}"
        using workload_sector_versions_Inr(1) [OF vs] True unfolding g_def by presburger
      ultimately show ?thesis using Suc.IH by simp
    next
      case False
      with rest workload_sector_versions_Inr(1) [OF vs] show ?thesis by (auto simp: g_def add_if_absent_def split: if_splits)
    qed
  qed
  then show ?case
    by (auto simp: g_def elim: guards_cases intro: guards.intros split: if_splits)
qed simp


text \<open>The search for the guarding sectors ends on validated sectors: a path through the dependencies of an
  acyclic graph repeats no sector.\<close>

lemma workload_sector_versions_error: "workload_sector_versions sv sectors w n = Inl e \<Longrightarrow> e = ''ValueError''"
  by (auto simp: workload_sector_versions_def dest!: rmap_error parse_semver_error)

lemma workload_sector_dependencies_error:
  assumes "acyclic (depends_on (sector_deps sectors))"
  shows "workload_sector_dependencies sv sectors w fuel n = Inl e \<Longrightarrow>
     e = ''ValueError'' \<or>
     (\<exists>xs. length xs = fuel \<and> distinct (n # xs) \<and> (\<forall>x \<in> set xs. (n, x) \<in> (depends_on (sector_deps sectors))\<^sup>+))"
proof (induction fuel arbitrary: n)
  case (Suc fuel)
  from rfold_error [OF Suc.prems [simplified]] obtain acc dep where
    dep: "dep \<in> set (sector_deps sectors n)" and
    e: "rbind (workload_sector_versions sv sectors w dep) (\<lambda>vs.
        if vs \<noteq> [] then Inr (add_if_absent acc dep)
        else rbind (workload_sector_dependencies sv sectors w fuel dep) (\<lambda>ds. Inr (add_all acc ds))) = Inl e"
    by blast
  from e have "e = ''ValueError'' \<or> workload_sector_dependencies sv sectors w fuel dep = Inl e"
    by (auto simp: rbind_Inl_iff dest: workload_sector_versions_error split: if_splits)
  with Suc.IH have "e = ''ValueError'' \<or> (\<exists>xs. length xs = fuel \<and> distinct (dep # xs) \<and>
      (\<forall>x \<in> set xs. (dep, x) \<in> (depends_on (sector_deps sectors))\<^sup>+))" by blast
  then show ?case
  proof (elim disjE exE conjE)
    fix xs
    assume xs: "length xs = fuel" "distinct (dep # xs)"
      "\<forall>x \<in> set xs. (dep, x) \<in> (depends_on (sector_deps sectors))\<^sup>+"
    have edge: "(n, dep) \<in> depends_on (sector_deps sectors)" using dep by (simp add: depends_on_def)
    with xs(3) have reach: "\<forall>x \<in> set (dep # xs). (n, x) \<in> (depends_on (sector_deps sectors))\<^sup>+"
      by (auto intro: trancl_into_trancl2)
    with assms have "n \<notin> set (dep # xs)" by (auto simp: acyclic_def)
    with xs(1,2) reach show ?thesis by (intro disjI2 exI [of _ "dep # xs"]) simp
  qed simp
qed (auto intro: exI [of _ "[]"])

text \<open>The search for the sectors that go first never runs away. On sectors whose dependencies are
  declared and acyclic, which is what building the organization ensures, a depth of the number of sectors
  is enough: the only error left is a version that does not parse, and otherwise the result is exactly the
  set of guarding sectors.\<close>
theorem sector_search_terminates:
  assumes "acyclic (depends_on (sector_deps sectors))" "\<And>n. set (sector_deps sectors n) \<subseteq> fst ` set sectors"
    and "n \<in> fst ` set sectors"
  shows "workload_sector_dependencies sv sectors w (length sectors) n = Inl ''ValueError'' \<or>
    (\<exists>deps. workload_sector_dependencies sv sectors w (length sectors) n = Inr deps \<and>
            set deps = {d. guards sectors w n d})"
proof (cases "workload_sector_dependencies sv sectors w (length sectors) n")
  case (Inr deps)
  with workload_sector_dependencies_guards show ?thesis by blast
next
  case (Inl e)
  have False if xs: "length xs = length sectors" "distinct (n # xs)"
      "\<forall>x \<in> set xs. (n, x) \<in> (depends_on (sector_deps sectors))\<^sup>+" for xs
  proof -
    have "set (n # xs) \<subseteq> fst ` set sectors"
      using xs(3) assms(2,3) reachable_in_closed [where deps = "sector_deps sectors" and S = "fst ` set sectors" and x = n]
      by auto
    then have "card (set (n # xs)) \<le> length sectors"
      using card_dict_keys [of sectors] by (meson card_mono finite_imageI List.finite_set order_trans)
    with xs(1) distinct_card [OF xs(2)] show False by simp
  qed
  with workload_sector_dependencies_error [OF assms(1) Inl] Inl show ?thesis by blast
qed

section \<open>Addons\<close>

definition with_addons :: "(string \<Rightarrow> addon_installation option) \<Rightarrow> (string, sector) dict \<Rightarrow> (string, sector) dict" where
  "with_addons addons sectors = map (\<lambda>(n, st). (n, st\<lparr>st_specs := map (\<lambda>(c, s). (c, s\<lparr>us_addon := addons c\<rparr>)) (st_specs st)\<rparr>)) sectors"

lemma with_addons_get:
  "dict_get (with_addons addons sectors) n =
     map_option (\<lambda>st. st\<lparr>st_specs := map (\<lambda>(c, s). (c, s\<lparr>us_addon := addons c\<rparr>)) (st_specs st)\<rparr>) (dict_get sectors n)"
  by (induction sectors) (auto simp: with_addons_def)

lemma rmap_map: "rmap f (map g xs) = rmap (\<lambda>x. f (g x)) xs"
  by (induction xs) auto

lemma with_addons_versions:
  "workload_sector_versions sv (with_addons addons sectors) w n = workload_sector_versions sv sectors w n"
proof (cases "dict_get sectors n")
  case None
  then show ?thesis by (simp add: workload_sector_versions_def sector_specs_def with_addons_get)
next
  case (Some st)
  have "rmap (\<lambda>spec. parse_semver sv (oc_version_raw_id (us_cluster spec)))
      (filter (\<lambda>spec. w \<in> set (up_workloads (us_policy spec))) (map snd (map (\<lambda>(c, s). (c, s\<lparr>us_addon := addons c\<rparr>)) d))) =
    rmap (\<lambda>spec. parse_semver sv (oc_version_raw_id (us_cluster spec)))
      (filter (\<lambda>spec. w \<in> set (up_workloads (us_policy spec))) (map snd d))"
    for d :: "(string, cluster_upgrade_spec) dict"
    by (induction d) auto
  with Some show ?thesis by (simp add: workload_sector_versions_def sector_specs_def with_addons_get)
qed

lemma with_addons_deps: "sector_deps (with_addons addons sectors) n = sector_deps sectors n"
  by (cases "dict_get sectors n") (simp_all add: sector_deps_def with_addons_get)

lemma with_addons_dependencies:
  "workload_sector_dependencies sv (with_addons addons sectors) w fuel n =
     workload_sector_dependencies sv sectors w fuel n"
  by (induction fuel arbitrary: n) (simp_all add: with_addons_versions with_addons_deps cong: if_cong)

text \<open>The sectors gate an addon by the wrong version: whatever versions of the addon are installed on the
  clusters of the sectors, the conditions for a version of the addon come out the same. They compare it with
  the OpenShift versions of the clusters in the sectors before.\<close>
theorem sector_conditions_ignore_addon_versions:
  "version_conditions_met sv (with_addons addons sectors) version vd policy sector =
     version_conditions_met sv sectors version vd policy sector"
proof -
  have "length (with_addons addons sectors) = length sectors" by (simp add: with_addons_def)
  then show ?thesis
    by (simp add: version_conditions_met_def sector_conditions_met_def dependency_runs_version_def [abs_def]
        with_addons_versions with_addons_dependencies cong: if_cong option.case_cong)
qed

end
