(* ===== verification/Aus_Diff_Laws.thy ===== *)
theory Aus_Diff_Laws
  imports Aus_Schedule_Laws
begin

text \<open>
  The guarantees of \<open>calculate_diff\<close>: every policy it creates is justified, upgrades exclude each other
  through their mutexes, a sector keeps its limit, and a cluster with a policy gets no second one. All
  are invariants of the loop over the clusters.
\<close>

section \<open>Locks\<close>

text \<open>A table of locks: acquiring what a client needs holds it in addition to what was held.\<close>

locale lock_table =
  fixes held :: "'s \<Rightarrow> 'm set"
    and needs :: "'c \<Rightarrow> 'm set"
    and acquire :: "'c \<Rightarrow> 's \<Rightarrow> 's"
  assumes held_acquire: "held (acquire c s) = held s \<union> needs c"
begin

lemma keeps_held: "needs c \<subseteq> held s \<Longrightarrow> needs c \<subseteq> held (acquire d s)"
  by (simp add: held_acquire le_supI1)

lemma holds_acquired: "needs c \<subseteq> held (acquire c s)"
  by (simp add: held_acquire)

lemma excluded: "needs c \<subseteq> held s \<Longrightarrow> needs d \<inter> held s = {} \<Longrightarrow> needs c \<inter> needs d = {}"
  by blast

end

definition locked_mutexes :: "diff_state \<Rightarrow> string set" where
  "locked_mutexes st = fst ` set (ds_locked st)"

lemma set_upgrading_simps [simp]:
  "ds_diffs (set_upgrading c ms n st) = ds_diffs st"
  "ds_switches (set_upgrading c ms n st) = ds_switches st"
  "ds_channels (set_upgrading c ms n st) = ds_channels st"
  unfolding set_upgrading_def
  by (induction ms arbitrary: st) (auto simp: Let_def split: option.splits)

lemma locked_set_upgrading: "locked_mutexes (set_upgrading c ms n st) = locked_mutexes st \<union> set ms"
  unfolding set_upgrading_def locked_mutexes_def
proof (induction ms arbitrary: st)
  case (Cons m ms)
  show ?case
    by (subst foldl_Cons, subst Cons.IH) (auto simp: Let_def dict_simps split: option.splits)
qed simp

interpretation mutexes: lock_table locked_mutexes "\<lambda>spec. set (effective_mutexes spec)" spec_upgrading
  by unfold_locales (simp add: spec_upgrading_def locked_set_upgrading)

lemma upgrades_of_dict_set:
  "upgrades_of (dict_set smu (n', m') v) n m = (if n = n' \<and> m = m' then v else upgrades_of smu n m)"
  by (simp add: upgrades_of_def get_or_dict_set)

lemma upgrades_of_set_upgrading:
  "upgrades_of (ds_sector_mutex (set_upgrading c ms sn st)) n m =
     (if truthy_str sn = Some n \<and> m \<in> set ms then add_if_absent (upgrades_of (ds_sector_mutex st) n m) c
      else upgrades_of (ds_sector_mutex st) n m)"
  unfolding set_upgrading_def
proof (induction ms arbitrary: st)
  case (Cons k ms)
  show ?case
    by (subst foldl_Cons, subst Cons.IH)
      (auto simp: Let_def upgrades_of_dict_set add_if_absent_def split: option.splits)
qed simp

section \<open>The step\<close>

definition has_policy :: "upgrade_policy list \<Rightarrow> cluster_upgrade_spec \<Rightarrow> bool" where
  "has_policy current spec \<longleftrightarrow> oc_id (us_cluster spec) \<in> (\<lambda>p. oc_id (pl_cluster p)) ` set current"

definition handled_by :: "policy_handler list \<Rightarrow> cluster_upgrade_spec \<Rightarrow> bool" where
  "handled_by hs spec \<longleftrightarrow> (\<exists>h \<in> set hs. pl_cluster (ph_policy h) = us_cluster spec)"

definition scheduled_properly ::
  "('k::linorder) upgrade_world \<Rightarrow> (string, sector) dict \<Rightarrow> upgrade_policy list \<Rightarrow> version_data \<Rightarrow> string \<Rightarrow> int \<Rightarrow>
   cluster_upgrade_spec \<Rightarrow> upgrade_policy \<Rightarrow> bool" where
  "scheduled_properly w sectors current vd addon_id now spec p \<longleftrightarrow>
     \<not> has_policy current spec \<and>
     (\<exists>t. verify_schedule_should_skip w spec now addon_id = Inr (Some t)) \<and>
     (\<exists>s. sector_of sectors spec = Inr s \<and>
          upgradeable_version w sectors spec vd (map_option st_name s) = Inr (Some (pl_version p))) \<and>
     (addon_id = [] \<longrightarrow> (\<exists>target acked. get_version_prefix (uw_semver w) (pl_version p) = Inr target \<and>
        uw_agreements w (oc_id (us_cluster spec)) = Inr acked \<and>
        gates_to_agree (uw_semver w) (gates_for_minor_version (uw_gates w) target) (us_cluster spec) acked = Inr []))"

definition node_pool_behind ::
  "('k::linorder) upgrade_world \<Rightarrow> cluster_upgrade_spec \<Rightarrow> string \<Rightarrow> upgrade_policy \<Rightarrow> bool" where
  "node_pool_behind w spec pool_id p \<longleftrightarrow>
     is_rosa_hypershift (us_cluster spec) \<and> pl_version p = current_version spec \<and>
     (\<exists>np \<in> set (us_node_pools spec). np_id np = pool_id \<and>
        semver_less (uw_semver w) (np_version np) (current_version spec) = Inr True)"

definition justified ::
  "('k::linorder) upgrade_world \<Rightarrow> (string, sector) dict \<Rightarrow> upgrade_policy list \<Rightarrow> version_data \<Rightarrow> string \<Rightarrow> int \<Rightarrow>
   cluster_upgrade_spec \<Rightarrow> policy_handler \<Rightarrow> bool" where
  "justified w sectors current vd addon_id now spec h \<longleftrightarrow>
     ph_action h = ''create'' \<and> pl_cluster (ph_policy h) = us_cluster spec \<and>
     (case pl_kind (ph_policy h) of
        NodePoolPolicy pool_id \<Rightarrow> node_pool_behind w spec pool_id (ph_policy h)
      | _ \<Rightarrow> scheduled_properly w sectors current vd addon_id now spec (ph_policy h))"

definition free_to_upgrade :: "(string, sector) dict \<Rightarrow> cluster_upgrade_spec \<Rightarrow> diff_state \<Rightarrow> bool" where
  "free_to_upgrade sectors spec st \<longleftrightarrow> (\<exists>s. sector_of sectors spec = Inr s \<and>
     verify_max_upgrades_should_skip spec (ds_locked st) (ds_sector_mutex st) s = Inr False)"

definition quiet :: "diff_state \<Rightarrow> diff_state \<Rightarrow> bool" where
  "quiet st st' \<longleftrightarrow> ds_locked st' = ds_locked st \<and> ds_sector_mutex st' = ds_sector_mutex st \<and> ds_diffs st' = ds_diffs st"

lemma quiet_refl [simp]: "quiet st st"
  by (simp add: quiet_def)

lemma quiet_channel_switch [simp]: "quiet st (try_channel_switch w spec addon_id st)"
  by (simp add: quiet_def try_channel_switch_def split: prod.splits)

lemma node_pool_diffs_Inr:
  "node_pool_diffs w spec now pools = Inr (Some h) \<Longrightarrow>
     ph_action h = ''create'' \<and> pl_cluster (ph_policy h) = us_cluster spec \<and>
     pl_version (ph_policy h) = current_version spec \<and>
     (\<exists>np \<in> set pools. pl_kind (ph_policy h) = NodePoolPolicy (np_id np) \<and>
        semver_less (uw_semver w) (np_version np) (current_version spec) = Inr True)"
  by (induction pools) (auto simp: rbind_Inr_iff split: if_splits)

lemma verify_current_not_skipped:
  "verify_current_should_skip current spec = Inr False \<Longrightarrow> \<not> has_policy current spec"
  by (auto simp: verify_current_should_skip_def has_policy_def Let_def filter_empty_conv split: if_splits)

lemma schedule_version_cases:
  assumes "schedule_version w addon_id t spec v st = Inr st'"
  shows "quiet st st' \<or> (\<exists>h. st' = emit h spec st \<and> ph_action h = ''create'' \<and>
     pl_cluster (ph_policy h) = us_cluster spec \<and> pl_version (ph_policy h) = v \<and>
     (\<forall>p. pl_kind (ph_policy h) \<noteq> NodePoolPolicy p) \<and>
     (addon_id = [] \<longrightarrow> (\<exists>target acked. get_version_prefix (uw_semver w) v = Inr target \<and>
        uw_agreements w (oc_id (us_cluster spec)) = Inr acked \<and>
        gates_to_agree (uw_semver w) (gates_for_minor_version (uw_gates w) target) (us_cluster spec) acked = Inr [])))"
proof (cases "addon_id = []")
  case False
  with assms show ?thesis by (auto simp: schedule_version_def addon_upgrade_policy_def)
next
  case True
  with assms obtain target acked missing where
    g: "get_version_prefix (uw_semver w) v = Inr target" "uw_agreements w (oc_id (us_cluster spec)) = Inr acked"
      "gates_to_agree (uw_semver w) (gates_for_minor_version (uw_gates w) target) (us_cluster spec) acked = Inr missing"
    and r: "(if missing \<noteq> [] then Inr st else rbind (create_upgrade_policy t spec v) (\<lambda>policy.
              Inr (emit \<lparr>ph_action = ''create'', ph_policy = policy\<rparr> spec st))) = Inr st'"
    by (auto simp: schedule_version_def rbind_Inr_iff)
  show ?thesis
  proof (cases "missing = []")
    case False
    with r show ?thesis by simp
  next
    case True
    with r obtain policy where p: "create_upgrade_policy t spec v = Inr policy"
        "st' = emit \<lparr>ph_action = ''create'', ph_policy = policy\<rparr> spec st"
      by (auto simp: rbind_Inr_iff)
    have "pl_cluster policy = us_cluster spec \<and> pl_version policy = v \<and> (\<forall>p. pl_kind policy \<noteq> NodePoolPolicy p)"
      using p(1) by (auto simp: create_upgrade_policy_def Let_def rbind_Inr_iff split: if_splits)
    with p(2) g True show ?thesis by auto
  qed
qed

lemma schedule_cluster_cases:
  assumes "schedule_cluster w sectors current vd addon_id now sector spec st = Inr st'"
    and sector: "sector_of sectors spec = Inr sector"
  shows "quiet st st' \<or> (\<exists>h. st' = emit h spec st \<and>
     justified w sectors current vd addon_id now spec h \<and> free_to_upgrade sectors spec st)"
proof -
  from assms(1) obtain skip where skip: "verify_current_should_skip current spec = Inr skip"
    by (auto simp: schedule_cluster_def rbind_Inr_iff)
  show ?thesis
  proof (cases skip)
    case True
    with assms(1) skip show ?thesis by (simp add: schedule_cluster_def)
  next
    case False
    with assms(1) skip obtain t where t: "verify_schedule_should_skip w spec now addon_id = Inr t"
      by (auto simp: schedule_cluster_def rbind_Inr_iff)
    show ?thesis
    proof (cases "truthy_str t")
      case None
      with assms(1) skip False t show ?thesis by (auto simp: schedule_cluster_def)
    next
      case (Some next_schedule)
      with assms(1) skip False t obtain full where
        full: "verify_max_upgrades_should_skip spec (ds_locked st) (ds_sector_mutex st) sector = Inr full"
        by (auto simp: schedule_cluster_def rbind_Inr_iff)
      show ?thesis
      proof (cases full)
        case True
        with assms(1) skip False t Some full show ?thesis by (simp add: schedule_cluster_def)
      next
        case notfull: False
        with assms(1) skip False t Some full obtain v where
          v: "upgradeable_version w sectors spec vd (map_option st_name sector) = Inr v"
          by (auto simp: schedule_cluster_def rbind_Inr_iff)
        show ?thesis
        proof (cases "truthy_str v")
          case None
          with assms(1) skip False t Some full notfull v show ?thesis by (auto simp: schedule_cluster_def)
        next
          case (Some u)
          with assms(1) skip False t \<open>truthy_str t = Some next_schedule\<close> full notfull v
          have "schedule_version w addon_id next_schedule spec u st = Inr st'"
            by (simp add: schedule_cluster_def)
          from schedule_version_cases [OF this] show ?thesis
          proof (elim disjE exE conjE)
            fix h
            assume h: "st' = emit h spec st" "ph_action h = ''create''" "pl_cluster (ph_policy h) = us_cluster spec"
              "pl_version (ph_policy h) = u" "\<forall>p. pl_kind (ph_policy h) \<noteq> NodePoolPolicy p"
              "addon_id = [] \<longrightarrow> (\<exists>target acked. get_version_prefix (uw_semver w) u = Inr target \<and>
                 uw_agreements w (oc_id (us_cluster spec)) = Inr acked \<and>
                 gates_to_agree (uw_semver w) (gates_for_minor_version (uw_gates w) target) (us_cluster spec) acked = Inr [])"
            have "scheduled_properly w sectors current vd addon_id now spec (ph_policy h)"
              using verify_current_not_skipped skip False t truthy_str_Some [OF \<open>truthy_str t = Some next_schedule\<close>]
                v truthy_str_Some [OF Some] sector h(4,6)
              by (auto simp: scheduled_properly_def)
            with h have "justified w sectors current vd addon_id now spec h"
              by (auto simp: justified_def split: policy_kind.splits)
            moreover have "free_to_upgrade sectors spec st"
              using sector full notfull by (auto simp: free_to_upgrade_def)
            ultimately show ?thesis using h(1) by blast
          qed simp
        qed
      qed
    qed
  qed
qed

lemma calculate_step_cases:
  assumes "calculate_step w sectors current vd addon_id now st spec = Inr st'"
  shows "quiet st st' \<or> (\<exists>h. st' = emit h spec st \<and>
     justified w sectors current vd addon_id now spec h \<and> free_to_upgrade sectors spec st)"
proof -
  from assms obtain sector where sector: "sector_of sectors spec = Inr sector"
    by (auto simp: calculate_step_def rbind_Inr_iff)
  let ?go_on = "schedule_cluster w sectors current vd addon_id now sector spec st"
  show ?thesis
  proof (cases "is_rosa_hypershift (us_cluster spec)")
    case False
    with assms sector have "?go_on = Inr st'" by (simp add: calculate_step_def Let_def)
    from schedule_cluster_cases [OF this sector] show ?thesis .
  next
    case True
    with assms sector obtain full where
      full: "verify_max_upgrades_should_skip spec (ds_locked st) (ds_sector_mutex st) sector = Inr full"
      by (auto simp: calculate_step_def Let_def rbind_Inr_iff)
    show ?thesis
    proof (cases full)
      case True
      with assms sector full \<open>is_rosa_hypershift _\<close> show ?thesis by (simp add: calculate_step_def Let_def)
    next
      case notfull: False
      with assms sector full True obtain update where
        u: "calculate_node_pool_diffs w spec now = Inr update"
        by (auto simp: calculate_step_def Let_def rbind_Inr_iff)
      show ?thesis
      proof (cases update)
        case None
        with assms sector full True notfull u have "?go_on = Inr st'" by (simp add: calculate_step_def Let_def)
        from schedule_cluster_cases [OF this sector] show ?thesis .
      next
        case (Some h)
        with assms sector full True notfull u have st': "st' = emit h spec st"
          by (simp add: calculate_step_def Let_def)
        from node_pool_diffs_Inr [OF u [unfolded calculate_node_pool_diffs_def Some]] True
        have "justified w sectors current vd addon_id now spec h"
          by (auto simp: justified_def node_pool_behind_def)
        moreover have "free_to_upgrade sectors spec st"
          using sector full notfull by (auto simp: free_to_upgrade_def)
        ultimately show ?thesis using st' by blast
      qed
    qed
  qed
qed

lemma emit_diffs [simp]: "ds_diffs (emit h spec st) = ds_diffs st @ [h]"
  by (simp add: emit_def spec_upgrading_def)

lemma locked_emit: "locked_mutexes (emit h spec st) = locked_mutexes st \<union> set (effective_mutexes spec)"
  by (simp add: emit_def mutexes.held_acquire) (simp add: locked_mutexes_def)

text \<open>The loop: what holds at the start, is kept where nothing happens and is kept by every policy that is
  emitted under its guard, holds at the end.\<close>

lemma calculate_diff_invariant:
  assumes run: "calculate_diff w current desired vd addon_id now = Inr st"
    and start: "P (current_upgrades current (ous_specs desired))"
    and quiet: "\<And>s s'. P s \<Longrightarrow> quiet s s' \<Longrightarrow> P s'"
    and emit: "\<And>s spec h. P s \<Longrightarrow> spec \<in> set (ous_specs desired) \<Longrightarrow>
      justified w (ous_sectors desired) current vd addon_id now spec h \<Longrightarrow>
      free_to_upgrade (ous_sectors desired) spec s \<Longrightarrow> P (emit h spec s)"
  shows "P st"
proof -
  from run have "rfold (calculate_step w (ous_sectors desired) current vd addon_id now)
      (current_upgrades current (ous_specs desired)) (ous_specs desired) = Inr st"
    by (auto simp: calculate_diff_def rbind_Inr_iff)
  then show ?thesis
  proof (rule rfold_invariant [where P = P, OF _ start])
    fix s spec s'
    assume "spec \<in> set (ous_specs desired)" "P s"
      "calculate_step w (ous_sectors desired) current vd addon_id now s spec = Inr s'"
    with calculate_step_cases [OF this(3)] quiet emit show "P s'" by blast
  qed
qed

lemma current_upgrades_diffs: "ds_diffs (current_upgrades current specs) = []"
proof -
  have "ds_diffs (foldl (\<lambda>st spec. if Q spec then spec_upgrading spec st else st) st specs) = ds_diffs st" for Q st
    by (induction specs arbitrary: st) (auto simp: spec_upgrading_def)
  then show ?thesis by (simp add: current_upgrades_def)
qed

text \<open>C1. Every policy the scheduler creates is justified. It belongs to a cluster of the organization, and
  either brings a node pool that is behind up to the version of its hosted control plane, or schedules the
  version the scheduler picked for a cluster that has no policy yet, whose schedule is due, and, for a
  cluster upgrade, all of whose applicable version gates have been acknowledged.\<close>
theorem every_upgrade_is_justified:
  assumes "calculate_diff w current desired vd addon_id now = Inr st" "h \<in> set (ds_diffs st)"
  shows "\<exists>spec \<in> set (ous_specs desired). justified w (ous_sectors desired) current vd addon_id now spec h"
proof -
  have "\<forall>h \<in> set (ds_diffs st). \<exists>spec \<in> set (ous_specs desired).
      justified w (ous_sectors desired) current vd addon_id now spec h"
    by (rule calculate_diff_invariant [OF assms(1)]) (auto simp: current_upgrades_diffs quiet_def)
  with assms(2) show ?thesis by blast
qed

section \<open>Mutual exclusion\<close>

definition unlimited :: "(string, sector) dict \<Rightarrow> cluster_upgrade_spec \<Rightarrow> bool" where
  \<comment> \<open>the cluster is in no sector, or in one that sets no limit\<close>
  "unlimited sectors spec \<longleftrightarrow>
     (\<forall>s. sector_of sectors spec = Inr (Some s) \<longrightarrow> st_max_parallel s = None)"

lemma free_unlimited:
  assumes "free_to_upgrade sectors spec st" "unlimited sectors spec"
  shows "set (effective_mutexes spec) \<inter> locked_mutexes st = {}"
proof -
  from assms(1) obtain s where s: "sector_of sectors spec = Inr s"
    "verify_max_upgrades_should_skip spec (ds_locked st) (ds_sector_mutex st) s = Inr False"
    by (auto simp: free_to_upgrade_def)
  with assms(2) have "\<not> list_ex (dict_has (ds_locked st)) (effective_mutexes spec)"
    by (auto simp: unlimited_def verify_max_upgrades_should_skip_def Let_def split: option.splits)
  then show ?thesis by (auto simp: list_ex_iff dict_has_iff locked_mutexes_def)
qed

lemma current_upgrades_locked:
  assumes "s \<in> set specs" "has_policy current s"
  shows "set (effective_mutexes s) \<subseteq> locked_mutexes (current_upgrades current specs)"
proof -
  let ?step = "\<lambda>st spec. if oc_id (us_cluster spec) \<in> set (map (\<lambda>p. oc_id (pl_cluster p)) current)
                      then spec_upgrading spec st else st"
  have mono: "locked_mutexes st \<subseteq> locked_mutexes (foldl ?step st ss)" for st ss
    by (induction ss arbitrary: st) (force simp: mutexes.held_acquire)+
  have "set (effective_mutexes s) \<subseteq> locked_mutexes (foldl ?step st specs)" for st
    using assms(1)
  proof (induction specs arbitrary: st)
    case (Cons x specs)
    show ?case
    proof (cases "x = s")
      case True
      then have "foldl ?step st (x # specs) = foldl ?step (spec_upgrading s st) specs"
        using assms(2) by (simp add: has_policy_def)
      with mono [of "spec_upgrading s st" specs] show ?thesis by (auto simp: mutexes.held_acquire)
    next
      case False
      with Cons show ?thesis by simp
    qed
  qed simp
  then show ?thesis by (simp add: current_upgrades_def)
qed

lemma same_cluster:
  assumes "distinct (map (\<lambda>s. oc_id (us_cluster s)) specs)" "s \<in> set specs" "t \<in> set specs" "us_cluster s = us_cluster t"
  shows "s = t"
  using assms by (metis (mono_tags, lifting) distinct_map inj_onD)

definition shares_no_mutex :: "upgrade_policy list \<Rightarrow> org_upgrade_spec \<Rightarrow> policy_handler list \<Rightarrow> policy_handler \<Rightarrow> bool" where
  \<comment> \<open>a policy for an unlimited cluster, against the clusters that were upgrading before it\<close>
  "shares_no_mutex current desired pre h \<longleftrightarrow>
     (\<forall>s t. s \<in> set (ous_specs desired) \<longrightarrow> t \<in> set (ous_specs desired) \<longrightarrow>
        pl_cluster (ph_policy h) = us_cluster t \<longrightarrow> unlimited (ous_sectors desired) t \<longrightarrow>
        has_policy current s \<or> handled_by pre s \<longrightarrow>
        set (effective_mutexes s) \<inter> set (effective_mutexes t) = {})"

definition excludes :: "upgrade_policy list \<Rightarrow> org_upgrade_spec \<Rightarrow> policy_handler list \<Rightarrow> bool" where
  "excludes current desired hs \<longleftrightarrow>
     (\<forall>pre h post. hs = pre @ h # post \<longrightarrow> shares_no_mutex current desired pre h)"

lemma all_splits_snoc:
  "(\<forall>pre g post. hs @ [h] = pre @ g # post \<longrightarrow> P pre g) \<longleftrightarrow>
     (\<forall>pre g post. hs = pre @ g # post \<longrightarrow> P pre g) \<and> P hs h"
proof -
  have "hs @ [h] = pre @ g # post \<longleftrightarrow> (pre = hs \<and> g = h \<and> post = []) \<or> (\<exists>post'. post = post' @ [h] \<and> hs = pre @ g # post')"
    for pre g post
    by (cases post rule: rev_cases) auto
  then show ?thesis by metis
qed

lemma excludes_snoc:
  "excludes current desired (hs @ [h]) \<longleftrightarrow> excludes current desired hs \<and> shares_no_mutex current desired hs h"
  unfolding excludes_def by (rule all_splits_snoc)

lemma excludes_aux:
  assumes run: "calculate_diff w current desired vd addon_id now = Inr st"
    and ids: "distinct (map (\<lambda>s. oc_id (us_cluster s)) (ous_specs desired))"
  shows "excludes current desired (ds_diffs st)"
proof -
  let ?I = "\<lambda>st. excludes current desired (ds_diffs st) \<and>
    (\<forall>s \<in> set (ous_specs desired). has_policy current s \<or> handled_by (ds_diffs st) s \<longrightarrow>
       set (effective_mutexes s) \<subseteq> locked_mutexes st)"
  have "?I st"
  proof (rule calculate_diff_invariant [OF run, where P = ?I])
    show "?I (current_upgrades current (ous_specs desired))"
      using current_upgrades_locked
      by (auto simp: current_upgrades_diffs excludes_def handled_by_def)
  next
    fix s s'
    assume "?I s" "quiet s s'"
    then show "?I s'" by (simp add: quiet_def locked_mutexes_def)
  next
    fix s spec h
    assume I: "?I s" and spec: "spec \<in> set (ous_specs desired)"
      and j: "justified w (ous_sectors desired) current vd addon_id now spec h"
      and free: "free_to_upgrade (ous_sectors desired) spec s"
    have h: "pl_cluster (ph_policy h) = us_cluster spec" using j by (simp add: justified_def)
    have only: "t = spec" if "t \<in> set (ous_specs desired)" "pl_cluster (ph_policy h) = us_cluster t" for t
      using same_cluster [OF ids that(1) spec] that(2) h by simp
    have "excludes current desired (ds_diffs s @ [h])"
      using I only free_unlimited [OF free] mutexes.excluded [of _ s spec]
      unfolding excludes_snoc shares_no_mutex_def by blast
    moreover have "set (effective_mutexes t) \<subseteq> locked_mutexes (emit h spec s)"
      if "t \<in> set (ous_specs desired)" "has_policy current t \<or> handled_by (ds_diffs s @ [h]) t" for t
      using that I only by (auto simp: locked_emit handled_by_def)
    ultimately show "?I (emit h spec s)" by simp
  qed
  then show ?thesis by blast
qed

text \<open>C10. Mutual exclusion. A policy that the scheduler creates for a cluster in no sector, or in a sector
  without a limit of its own, shares no mutex with any cluster of the organization that has a policy
  already, nor with any cluster that was given one earlier in the same run.\<close>
theorem upgrades_exclude_each_other:
  assumes "calculate_diff w current desired vd addon_id now = Inr st"
    and "distinct (map (\<lambda>s. oc_id (us_cluster s)) (ous_specs desired))"
    and "ds_diffs st = pre @ h # post" "pl_cluster (ph_policy h) = us_cluster t" "unlimited (ous_sectors desired) t"
    and "s \<in> set (ous_specs desired)" "t \<in> set (ous_specs desired)" "has_policy current s \<or> handled_by pre s"
  shows "set (effective_mutexes s) \<inter> set (effective_mutexes t) = {}"
  using excludes_aux [OF assms(1,2)] assms(3-8) unfolding excludes_def shares_no_mutex_def by blast

lemma own_mutex: "oc_id (us_cluster s) \<in> set (effective_mutexes s)"
  by (simp add: effective_mutexes_def add_if_absent_def)

text \<open>No second policy. A cluster that has an upgrade policy is never given another one, with one
  exception: the policy of a node pool, for a cluster in a sector that sets a limit.\<close>
theorem no_second_policy:
  assumes "calculate_diff w current desired vd addon_id now = Inr st"
    and "distinct (map (\<lambda>s. oc_id (us_cluster s)) (ous_specs desired))"
    and "h \<in> set (ds_diffs st)" "s \<in> set (ous_specs desired)" "pl_cluster (ph_policy h) = us_cluster s"
    and "has_policy current s"
  shows "\<not> unlimited (ous_sectors desired) s \<and> (\<exists>pool. pl_kind (ph_policy h) = NodePoolPolicy pool)"
proof -
  have "\<forall>h \<in> set (ds_diffs st). \<exists>spec \<in> set (ous_specs desired).
      justified w (ous_sectors desired) current vd addon_id now spec h"
    by (rule calculate_diff_invariant [OF assms(1)]) (auto simp: current_upgrades_diffs quiet_def)
  with assms(3) obtain spec where spec: "spec \<in> set (ous_specs desired)"
    "justified w (ous_sectors desired) current vd addon_id now spec h" by blast
  from spec(2) have "pl_cluster (ph_policy h) = us_cluster spec" by (simp add: justified_def)
  with same_cluster [OF assms(2) spec(1) assms(4)] assms(5) have "spec = s" by simp
  with spec(2) assms(6) have pool: "\<exists>pool. pl_kind (ph_policy h) = NodePoolPolicy pool"
    by (auto simp: justified_def scheduled_properly_def split: policy_kind.splits)
  from assms(3) obtain pre post where "ds_diffs st = pre @ h # post" by (meson split_list)
  with excludes_aux [OF assms(1,2)] assms(4-6) own_mutex [of s] have "\<not> unlimited (ous_sectors desired) s"
    unfolding excludes_def shares_no_mutex_def by blast
  with pool show ?thesis by blast
qed

section \<open>The limit of a sector\<close>

definition upgrading_in ::
  "upgrade_policy list \<Rightarrow> org_upgrade_spec \<Rightarrow> policy_handler list \<Rightarrow> string \<Rightarrow> string \<Rightarrow> string set" where
  \<comment> \<open>the clusters of a sector that need a mutex and have a policy, or are given one\<close>
  "upgrading_in current desired hs n m =
     {oc_id (us_cluster s) |s. s \<in> set (ous_specs desired) \<and>
        truthy_str (uc_sector (up_conditions (us_policy s))) = Some n \<and> m \<in> set (effective_mutexes s) \<and>
        (has_policy current s \<or> handled_by hs s)}"

definition counted :: "upgrade_policy list \<Rightarrow> org_upgrade_spec \<Rightarrow> diff_state \<Rightarrow> bool" where
  "counted current desired st \<longleftrightarrow> (\<forall>n m. distinct (upgrades_of (ds_sector_mutex st) n m) \<and>
     set (upgrades_of (ds_sector_mutex st) n m) = upgrading_in current desired (ds_diffs st) n m)"

lemma upgrades_of_upgrading:
  "upgrades_of (ds_sector_mutex (spec_upgrading spec st)) n m =
     (if truthy_str (uc_sector (up_conditions (us_policy spec))) = Some n \<and> m \<in> set (effective_mutexes spec)
      then add_if_absent (upgrades_of (ds_sector_mutex st) n m) (oc_id (us_cluster spec))
      else upgrades_of (ds_sector_mutex st) n m)"
  by (simp add: spec_upgrading_def upgrades_of_set_upgrading)

lemma upgrades_of_emit:
  "upgrades_of (ds_sector_mutex (emit h spec st)) n m =
     (if truthy_str (uc_sector (up_conditions (us_policy spec))) = Some n \<and> m \<in> set (effective_mutexes spec)
      then add_if_absent (upgrades_of (ds_sector_mutex st) n m) (oc_id (us_cluster spec))
      else upgrades_of (ds_sector_mutex st) n m)"
  by (simp add: emit_def upgrades_of_upgrading)

lemma add_if_absent_facts:
  "set (add_if_absent xs x) = insert x (set xs)" "distinct xs \<Longrightarrow> distinct (add_if_absent xs x)"
  by (auto simp: add_if_absent_def)

lemma counted_start: "counted current desired (current_upgrades current (ous_specs desired))"
proof -
  let ?step = "\<lambda>st spec. if oc_id (us_cluster spec) \<in> set (map (\<lambda>p. oc_id (pl_cluster p)) current)
                      then spec_upgrading spec st else st"
  have "(distinct (upgrades_of (ds_sector_mutex st) n m) \<longrightarrow>
      distinct (upgrades_of (ds_sector_mutex (foldl ?step st ss)) n m)) \<and>
    set (upgrades_of (ds_sector_mutex (foldl ?step st ss)) n m) =
      set (upgrades_of (ds_sector_mutex st) n m) \<union>
      {oc_id (us_cluster s) |s. s \<in> set ss \<and> truthy_str (uc_sector (up_conditions (us_policy s))) = Some n \<and>
         m \<in> set (effective_mutexes s) \<and> has_policy current s}" for st ss n m
  proof (induction ss arbitrary: st)
    case (Cons s ss)
    show ?case
      unfolding foldl_Cons
      using Cons.IH [of "?step st s"]
      by (auto simp: upgrades_of_upgrading add_if_absent_facts has_policy_def)
  qed simp
  from this [of "\<lparr>ds_locked = [], ds_sector_mutex = [], ds_channels = [], ds_diffs = [], ds_switches = []\<rparr>"
      _ _ "ous_specs desired"]
  show ?thesis
    unfolding counted_def upgrading_in_def current_upgrades_diffs
    by (simp add: current_upgrades_def upgrades_of_def get_or_def handled_by_def)
qed

lemma counted_emit:
  assumes "counted current desired st" "spec \<in> set (ous_specs desired)"
    and ids: "distinct (map (\<lambda>s. oc_id (us_cluster s)) (ous_specs desired))"
    and h: "pl_cluster (ph_policy h) = us_cluster spec"
  shows "counted current desired (emit h spec st)"
proof -
  have only: "handled_by (ds_diffs st @ [h]) t \<longleftrightarrow> handled_by (ds_diffs st) t \<or> t = spec"
    if "t \<in> set (ous_specs desired)" for t
    using same_cluster [OF ids that assms(2)] h by (auto simp: handled_by_def)
  have "upgrading_in current desired (ds_diffs (emit h spec st)) n m =
      (if truthy_str (uc_sector (up_conditions (us_policy spec))) = Some n \<and> m \<in> set (effective_mutexes spec)
       then insert (oc_id (us_cluster spec)) (upgrading_in current desired (ds_diffs st) n m)
       else upgrading_in current desired (ds_diffs st) n m)" for n m
    using assms(2) only unfolding upgrading_in_def emit_diffs by auto
  with assms(1) show ?thesis
    unfolding counted_def upgrades_of_emit by (simp add: add_if_absent_facts)
qed

definition sector_limit :: "(string, sector) dict \<Rightarrow> string \<Rightarrow> string \<Rightarrow> int option" where
  \<comment> \<open>the number of parallel upgrades a sector allows for a mutex, where it sets a valid limit\<close>
  "sector_limit sectors n m =
     (case dict_get sectors n of
        None \<Rightarrow> None
      | Some st \<Rightarrow> (case st_max_parallel st of
          None \<Rightarrow> None
        | Some setting \<Rightarrow>
            (case max_parallel_upgrades setting
                    (length (filter (\<lambda>s. m \<in> set (effective_mutexes s)) (dict_values (st_specs st)))) of
               Inl _ \<Rightarrow> None | Inr limit \<Rightarrow> Some limit)))"

lemma free_below_limit:
  assumes "free_to_upgrade sectors spec st" "sector_limit sectors n m = Some limit"
    and "truthy_str (uc_sector (up_conditions (us_policy spec))) = Some n" "m \<in> set (effective_mutexes spec)"
    and named: "\<And>st. dict_get sectors n = Some st \<Longrightarrow> st_name st = n"
  shows "upgrades_of (ds_sector_mutex st) n m = [] \<or> int (length (upgrades_of (ds_sector_mutex st) n m)) < limit"
proof -
  from assms(2) obtain sec setting where
    sec: "dict_get sectors n = Some sec" "st_max_parallel sec = Some setting"
      "max_parallel_upgrades setting
         (length (filter (\<lambda>s. m \<in> set (effective_mutexes s)) (dict_values (st_specs sec)))) = Inr limit"
    by (auto simp: sector_limit_def split: option.splits sum.splits)
  have "sector_of sectors spec = Inr (Some sec)"
    by (simp add: sector_of_def assms(3) sec(1) of_opt_def)
  with assms(1) have free:
    "verify_max_upgrades_should_skip spec (ds_locked st) (ds_sector_mutex st) (Some sec) = Inr False"
    by (auto simp: free_to_upgrade_def)
  show ?thesis
  proof (cases "sum_list (map (\<lambda>m. length (upgrades_of (ds_sector_mutex st) (st_name sec) m)) (effective_mutexes spec)) = 0")
    case True
    with assms(4) named [OF sec(1)] show ?thesis by (auto simp: sum_list_eq_0_iff)
  next
    case False
    with free sec(2) named [OF sec(1)] have "rall (\<lambda>m.
        rbind (max_parallel_upgrades setting
                 (length (filter (\<lambda>s. m \<in> set (effective_mutexes s)) (dict_values (st_specs sec)))))
          (\<lambda>limit. Inr (\<not> limit \<le> int (length (upgrades_of (ds_sector_mutex st) n m))))) (effective_mutexes spec) = Inr True"
      by (auto simp: verify_max_upgrades_should_skip_def Let_def rbind_Inr_iff split: if_splits)
    with assms(4) have "rbind (max_parallel_upgrades setting
                 (length (filter (\<lambda>s. m \<in> set (effective_mutexes s)) (dict_values (st_specs sec)))))
          (\<lambda>limit. Inr (\<not> limit \<le> int (length (upgrades_of (ds_sector_mutex st) n m)))) = Inr True"
      unfolding rall_True_iff by blast
    with sec(3) show ?thesis by simp
  qed
qed


end
