(* ===== verification/Aus_Act.thy ===== *)
theory Aus_Act
  imports Aus_Diff_Laws
begin

text \<open>
  Acting on the difference: the calls to OCM that the policies make (\<open>create\<close> and \<open>delete\<close> of the
  policy classes, \<open>act\<close>, \<open>act_channel_switches\<close> of \<open>reconcile/aus/base.py\<close>), and the schedulers
  that run the whole of it for an organization. A run is the list of calls it makes, in order, and how it
  ended; \<open>responds\<close> says which calls OCM answers without an HTTP error.
\<close>

section \<open>Calls\<close>

datatype ocm_call =
    CreateAddonUpgradePolicy string string string string
  | CreateUpgradePolicy string string "string option"
  | CreateControlPlaneUpgradePolicy string string "string option"
  | CreateNodePoolUpgradePolicy string string string "string option"
  | DeleteAddonUpgradePolicy string string
  | UpdateClusterChannel string string
  | UpgradeRosaRoles string string

datatype act_outcome = Acted | HttpFailed | Raised string

type_synonym act_run = "ocm_call list \<times> act_outcome"

definition call_ocm :: "(ocm_call \<Rightarrow> bool) \<Rightarrow> ocm_call \<Rightarrow> act_run" where
  "call_ocm responds c = ([c], if responds c then Acted else HttpFailed)"

definition AUS_VERSION_GATE_APPROVALS_LABEL :: string where
  "AUS_VERSION_GATE_APPROVALS_LABEL = ''sre-capabilities.aus.version-gate-approvals''"

definition STS_GATE_LABEL :: string where
  "STS_GATE_LABEL = ''api.openshift.com/gate-sts''"

definition should_upgrade_roles :: "(string, string) dict \<Rightarrow> ocm_cluster \<Rightarrow> bool" where
  "should_upgrade_roles labels c =
     (case truthy_str (dict_get labels AUS_VERSION_GATE_APPROVALS_LABEL) of
        None \<Rightarrow> False
      | Some handler_csv \<Rightarrow>
          is_sts c \<and> is_rosa_classic c \<and> STS_GATE_LABEL \<in> set (py_split (CHR '','') handler_csv))"

text \<open>What the code asks besides: whether it may upgrade roles at all, and the current time for addons.\<close>

record act_env =
  ae_responds :: "ocm_call \<Rightarrow> bool"
  ae_upgrade_roles :: bool
  ae_soonest_next_run :: string

definition policy_create :: "act_env \<Rightarrow> upgrade_policy \<Rightarrow> act_run" where
  "policy_create env p =
     (let cluster_id = oc_id (pl_cluster p) in
      case pl_kind p of
        AddonPolicy addon_id \<Rightarrow>
          call_ocm (ae_responds env) (CreateAddonUpgradePolicy cluster_id addon_id (pl_version p)
            (case truthy_str (pl_next_run p) of None \<Rightarrow> ae_soonest_next_run env | Some t \<Rightarrow> t))
      | ClusterPolicy org_id labels \<Rightarrow>
          let (calls, outcome) = call_ocm (ae_responds env) (CreateUpgradePolicy cluster_id (pl_version p) (pl_next_run p))
          in (if ae_upgrade_roles env \<and> should_upgrade_roles labels (pl_cluster p)
              then (UpgradeRosaRoles cluster_id (pl_version p) # calls, outcome)
              else (calls, outcome))
      | ControlPlanePolicy \<Rightarrow>
          call_ocm (ae_responds env) (CreateControlPlaneUpgradePolicy cluster_id (pl_version p) (pl_next_run p))
      | NodePoolPolicy pool \<Rightarrow>
          call_ocm (ae_responds env) (CreateNodePoolUpgradePolicy cluster_id pool (pl_version p) (pl_next_run p)))"

definition policy_delete :: "act_env \<Rightarrow> upgrade_policy \<Rightarrow> act_run" where
  "policy_delete env p =
     (case pl_kind p of
        AddonPolicy _ \<Rightarrow>
          (case truthy_str (pl_id p) of
             None \<Rightarrow> ([], Raised ''ValueError'')
           | Some i \<Rightarrow> call_ocm (ae_responds env) (DeleteAddonUpgradePolicy (oc_id (pl_cluster p)) i))
      | _ \<Rightarrow> ([], Raised ''NotImplementedError''))"

definition handler_act :: "act_env \<Rightarrow> bool \<Rightarrow> policy_handler \<Rightarrow> act_run" where
  "handler_act env dry_run h =
     (if dry_run then ([], Acted)
      else if ph_action h = ''delete'' then policy_delete env (ph_policy h)
      else if ph_action h = ''create'' then policy_create env (ph_policy h)
      else ([], Acted))"

definition sort_diffs :: "policy_handler \<Rightarrow> nat" where
  "sort_diffs h = (if ph_action h = ''delete'' then 1 else 2)"

definition other_addon :: "string \<Rightarrow> policy_handler \<Rightarrow> bool" where
  "other_addon addon_id h \<longleftrightarrow> addon_id \<noteq> [] \<and>
     (case pl_kind (ph_policy h) of AddonPolicy a \<Rightarrow> addon_id \<noteq> a | _ \<Rightarrow> False)"

fun act_loop :: "act_env \<Rightarrow> bool \<Rightarrow> string \<Rightarrow> policy_handler list \<Rightarrow> act_run" where
  \<comment> \<open>an HTTP error is logged and the loop goes on; any other exception ends it\<close>
  "act_loop env dry_run addon_id [] = ([], Acted)"
| "act_loop env dry_run addon_id (h # hs) =
     (if other_addon addon_id h then act_loop env dry_run addon_id hs
      else case handler_act env dry_run h of
        (calls, Raised e) \<Rightarrow> (calls, Raised e)
      | (calls, _) \<Rightarrow> (case act_loop env dry_run addon_id hs of (calls', outcome) \<Rightarrow> (calls @ calls', outcome)))"

definition act :: "act_env \<Rightarrow> bool \<Rightarrow> policy_handler list \<Rightarrow> string \<Rightarrow> act_run" where
  "act env dry_run hs addon_id = act_loop env dry_run addon_id (sort_key sort_diffs hs)"

definition switch_call :: "channel_switch \<Rightarrow> ocm_call" where
  "switch_call s = UpdateClusterChannel (oc_id (cs_cluster s)) (cs_to_channel s)"

definition act_channel_switches :: "act_env \<Rightarrow> bool \<Rightarrow> channel_switch list \<Rightarrow> act_run" where
  "act_channel_switches env dry_run switches =
     (let calls = (if dry_run then [] else map switch_call switches)
      in (calls, if list_ex (\<lambda>c. \<not> ae_responds env c) calls then Raised ''Channel switch errors'' else Acted))"

section \<open>What acting does\<close>

definition creation_calls :: "act_env \<Rightarrow> policy_handler \<Rightarrow> ocm_call list" where
  "creation_calls env h = fst (policy_create env (ph_policy h))"

lemma sort_key_const: "(\<And>x. x \<in> set xs \<Longrightarrow> f x = c) \<Longrightarrow> sort_key f xs = xs"
  by (induction xs) (auto simp: insort_is_Cons)

lemma policy_create_outcome: "snd (policy_create env p) \<noteq> Raised e"
  by (auto simp: policy_create_def call_ocm_def Let_def split: policy_kind.splits)

lemma act_loop_creates:
  "(\<And>h. h \<in> set hs \<Longrightarrow> ph_action h = ''create'' \<and> \<not> other_addon addon_id h) \<Longrightarrow>
     act_loop env False addon_id hs = (concat (map (creation_calls env) hs), Acted)"
proof (induction hs)
  case (Cons h hs)
  then have h: "ph_action h = ''create''" "\<not> other_addon addon_id h" by auto
  have "handler_act env False h = policy_create env (ph_policy h)" using h(1) by (simp add: handler_act_def)
  moreover have "snd (policy_create env (ph_policy h)) = Acted \<or> snd (policy_create env (ph_policy h)) = HttpFailed"
    using policy_create_outcome [of env "ph_policy h"] by (cases "snd (policy_create env (ph_policy h))") auto
  ultimately show ?case
    using h(2) Cons by (cases "policy_create env (ph_policy h)") (auto simp: creation_calls_def)
qed simp

lemma act_loop_dry: "act_loop env True addon_id hs = ([], Acted)"
  by (induction hs) (auto simp: handler_act_def)

lemma justified_create: "justified w sectors current vd addon_id now spec h \<Longrightarrow> ph_action h = ''create''"
  by (simp add: justified_def)


section \<open>Addons\<close>

definition addon_calculate_diff ::
  "('k::linorder) upgrade_world \<Rightarrow> upgrade_policy list \<Rightarrow> org_upgrade_spec \<Rightarrow> version_data \<Rightarrow> string \<Rightarrow> int \<Rightarrow>
   string + policy_handler list" where
  \<comment> \<open>\<open>calculate_diff\<close> of \<open>ocm_addons_upgrade_scheduler_org.py\<close>\<close>
  "addon_calculate_diff w current desired vd addon_id now =
     rbind (calculate_diff w current desired vd addon_id now) (\<lambda>st.
       Inr (ds_diffs st @
         map (\<lambda>c. \<lparr>ph_action = ''delete'', ph_policy =
              \<lparr>pl_kind = pl_kind c, pl_cluster = pl_cluster c, pl_id = pl_id c, pl_next_run = None,
               pl_schedule_type = pl_schedule_type c, pl_version = pl_schedule_type c, pl_state = None\<rparr>\<rparr>)
           (filter (\<lambda>c. pl_kind c = AddonPolicy addon_id \<and>
              (pl_schedule_type c = ''automatic'' \<or> pl_state c = Some ''completed'')) current)))"

section \<open>Current state\<close>

text \<open>A policy as OCM lists it.\<close>

record policy_payload =
  pp_id :: "string option"
  pp_next_run :: "string option"
  pp_schedule_type :: string
  pp_version :: string
  pp_state :: "string option"

record policy_source =
  ps_addon :: "string \<Rightarrow> string \<Rightarrow> policy_payload list"
  ps_control_plane :: "string \<Rightarrow> policy_payload list"
  ps_node_pool :: "string \<Rightarrow> string \<Rightarrow> policy_payload list"
  ps_cluster :: "string \<Rightarrow> policy_payload list"

definition policy_of_payload :: "policy_kind \<Rightarrow> ocm_cluster \<Rightarrow> policy_payload \<Rightarrow> upgrade_policy" where
  "policy_of_payload kind c p =
     \<lparr>pl_kind = kind, pl_cluster = c, pl_id = pp_id p, pl_next_run = pp_next_run p,
      pl_schedule_type = pp_schedule_type p, pl_version = pp_version p, pl_state = pp_state p\<rparr>"

definition fetch_spec_state :: "policy_source \<Rightarrow> bool \<Rightarrow> cluster_upgrade_spec \<Rightarrow> string + upgrade_policy list" where
  "fetch_spec_state src addons spec =
     (let c = us_cluster spec; cluster_id = oc_id c;
          others = (if is_rosa_hypershift c then
              Inr (map (policy_of_payload ControlPlanePolicy c) (ps_control_plane src cluster_id) @
                   concat (map (\<lambda>np. map (policy_of_payload (NodePoolPolicy (np_id np)) c)
                                       (ps_node_pool src cluster_id (np_id np))) (us_node_pools spec)))
            else rmap (\<lambda>p. rbind (of_opt ''ValidationError'' (us_labels spec)) (\<lambda>labels.
                   Inr (policy_of_payload (ClusterPolicy (og_org_id (us_org spec)) labels) c p)))
                   (ps_cluster src cluster_id))
      in case us_addon spec of
           Some a \<Rightarrow> if addons then Inr (map (policy_of_payload (AddonPolicy (ai_id a)) c) (ps_addon src cluster_id (ai_id a)))
                     else others
         | None \<Rightarrow> others)"

definition fetch_current_state ::
  "policy_source \<Rightarrow> org_upgrade_spec \<Rightarrow> bool \<Rightarrow> string + upgrade_policy list" where
  "fetch_current_state src desired addons =
     rbind (init_addon_service (og_env_labels (ous_org desired))) (\<lambda>_.
     rbind (rmap (fetch_spec_state src addons) (ous_specs desired)) (\<lambda>pss. Inr (concat pss)))"

end
