(* ===== verification/Aus_Run.thy ===== *)
theory Aus_Run
  imports Aus_Act
begin

text \<open>
  The runs of the upgrade schedulers: the metrics of the remaining soak days, the processing of one
  organization by the cluster scheduler (\<open>ocm_upgrade_scheduler.py\<close>) and by the addon scheduler
  (\<open>ocm_addons_upgrade_scheduler_org.py\<close>), the selection of the organizations, and the loop over
  environments and organizations that isolates their failures (\<open>base.py\<close>). The world of a run is the
  remote state of the version histories and the calls made to OCM.
\<close>

section \<open>Remaining soak days\<close>

definition round_rat :: "rat \<Rightarrow> int \<Rightarrow> rat" where
  \<comment> \<open>\<open>round(q, n)\<close> with \<open>d = 10 ^ n\<close>\<close>
  "round_rat q d = (case quotient_of (q * of_int d) of (a, b) \<Rightarrow> of_int (round_half_even a b) / of_int d)"

definition soaking_days :: "version_data \<Rightarrow> string list \<Rightarrow> string \<Rightarrow> (string, rat) dict" where
  \<comment> \<open>a version is always entered before the test for a missing one, so \<open>only_soaking\<close> has no effect\<close>
  "soaking_days vd upgrades workload =
     dict_of (map (\<lambda>v. (v, round_rat (wh_soak_days (workload_history vd v workload)) 100)) upgrades)"

definition soaked_versions :: "version_data \<Rightarrow> string list \<Rightarrow> string list \<Rightarrow> (string, rat) dict" where
  "soaked_versions vd upgrades workloads =
     foldl (\<lambda>acc w. foldl (\<lambda>acc (v, d). dict_set acc v (min d (get_or acc v d))) acc (soaking_days vd upgrades w))
       [] workloads"

definition UPGRADE_SCHEDULED_METRIC_VALUE :: rat where "UPGRADE_SCHEDULED_METRIC_VALUE = -1"
definition UPGRADE_STARTED_METRIC_VALUE :: rat where "UPGRADE_STARTED_METRIC_VALUE = -2"
definition UPGRADE_LONG_RUNNING_METRIC_VALUE :: rat where "UPGRADE_LONG_RUNNING_METRIC_VALUE = -3"
definition UPGRADE_BLOCKED_METRIC_VALUE :: rat where "UPGRADE_BLOCKED_METRIC_VALUE = -4"

definition soak_marker ::
  "(string \<Rightarrow> string \<Rightarrow> bool) \<Rightarrow> (string \<Rightarrow> int) \<Rightarrow> int \<Rightarrow> cluster_upgrade_spec \<Rightarrow> upgrade_policy option \<Rightarrow>
   string \<Rightarrow> rat \<Rightarrow> rat" where
  "soak_marker search from_iso now spec current version remaining =
     (case current of
        Some p \<Rightarrow>
          if pl_version p = version then
            (if pl_state p = Some ''scheduled'' then UPGRADE_SCHEDULED_METRIC_VALUE
             else if pl_state p = Some ''started'' \<or> pl_state p = Some ''delayed'' then
               (case truthy_str (pl_next_run p) of
                  None \<Rightarrow> UPGRADE_STARTED_METRIC_VALUE
                | Some t \<Rightarrow> if minutes 360 \<le> now - from_iso t then UPGRADE_LONG_RUNNING_METRIC_VALUE
                            else UPGRADE_STARTED_METRIC_VALUE)
             else remaining)
          else if version_blocked search spec version then UPGRADE_BLOCKED_METRIC_VALUE else remaining
      | None \<Rightarrow> if version_blocked search spec version then UPGRADE_BLOCKED_METRIC_VALUE else remaining)"

definition soak_metric_step ::
  "(string \<Rightarrow> string \<Rightarrow> bool) \<Rightarrow> (string \<Rightarrow> int) \<Rightarrow> int \<Rightarrow> cluster_upgrade_spec \<Rightarrow> upgrade_policy option \<Rightarrow>
   string list \<Rightarrow> rat list \<times> (string, rat) dict \<Rightarrow> nat \<Rightarrow> rat list \<times> (string, rat) dict" where
  "soak_metric_step search from_iso now spec current upgrades = (\<lambda>(remaining, version_metrics) idx.
     let r = soak_marker search from_iso now spec current (upgrades ! idx) (remaining ! idx);
         remaining = remaining[idx := r]
     in if 0 \<le> r \<and> list_ex (\<lambda>x. x = 0 \<or> x = UPGRADE_SCHEDULED_METRIC_VALUE \<or> x = UPGRADE_STARTED_METRIC_VALUE \<or>
                              x = UPGRADE_LONG_RUNNING_METRIC_VALUE) (drop (Suc idx) remaining)
        then (remaining, version_metrics)
        else (remaining, dict_set version_metrics (upgrades ! idx) r))"

definition remaining_soak_day_metric_values_for_cluster ::
  "('k::linorder) upgrade_world \<Rightarrow> (string \<Rightarrow> int) \<Rightarrow> int \<Rightarrow> cluster_upgrade_spec \<Rightarrow> (string, rat) dict \<Rightarrow>
   upgrade_policy option \<Rightarrow> string + (string, rat) dict" where
  "remaining_soak_day_metric_values_for_cluster w from_iso now spec soaked_vs current =
     rbind (get_available_upgrades (uw_semver w) spec) (\<lambda>upgrades.
       let soak_days = (case uc_soak_days (up_conditions (us_policy spec)) of None \<Rightarrow> 0 | Some d \<Rightarrow> d);
           remaining = map (\<lambda>v. max (of_int soak_days - get_or soaked_vs v 0) 0) upgrades
       in Inr (snd (foldl (soak_metric_step (uw_search w) from_iso now spec current upgrades)
                      (remaining, []) (rev [0..<length upgrades]))))"

definition remaining_soak_day_metrics ::
  "('k::linorder) upgrade_world \<Rightarrow> (string \<Rightarrow> int) \<Rightarrow> int \<Rightarrow> cluster_upgrade_spec list \<Rightarrow> version_data \<Rightarrow>
   upgrade_policy list \<Rightarrow> string + (string \<times> string \<times> rat) list" where
  \<comment> \<open>the gauges that \<open>expose_remaining_soak_day_metrics\<close> sets\<close>
  "remaining_soak_day_metrics w from_iso now specs vd current =
     (let by_cluster = dict_of (map (\<lambda>p. (oc_external_id (pl_cluster p), p)) current)
      in rbind (rmap (\<lambda>spec. rbind (get_available_upgrades (uw_semver w) spec) (\<lambda>upgrades.
             if upgrades = [] then Inr []
             else rbind (remaining_soak_day_metric_values_for_cluster w from_iso now spec
                    (soaked_versions vd upgrades (up_workloads (us_policy spec)))
                    (dict_get by_cluster (oc_external_id (us_cluster spec)))) (\<lambda>values.
               Inr (map (\<lambda>(v, x). (oc_external_id (us_cluster spec), v, x)) values)))) specs)
         (\<lambda>gauges. Inr (concat gauges)))"

section \<open>Organizations\<close>

definition integration_is_enabled :: "string \<Rightarrow> aus_org \<Rightarrow> bool" where
  "integration_is_enabled integration org \<longleftrightarrow> integration \<notin> set (opt_list (og_disabled_integrations org))"

definition get_orgs_for_environment ::
  "string \<Rightarrow> string \<Rightarrow> aus_org list option \<Rightarrow> string list option \<Rightarrow> string list option \<Rightarrow> bool \<Rightarrow> aus_org list" where
  "get_orgs_for_environment integration env_name orgs ids excluded only_addon_managed =
     filter (\<lambda>org. og_env org = env_name \<and> integration_is_enabled integration org \<and>
         (\<not> only_addon_managed \<or> og_addon_managed_upgrades org = Some True) \<and>
         (opt_list ids = [] \<or> og_org_id org \<in> set (opt_list ids)) \<and>
         (opt_list excluded = [] \<or> og_org_id org \<notin> set (opt_list excluded)))
       (opt_list orgs)"

section \<open>One organization\<close>

record 'k run_env =
  re_world :: "'k upgrade_world"
  re_source :: policy_source
  re_act :: act_env
  re_from_iso :: "string \<Rightarrow> int"

record run_state =
  rs_versions :: version_state
  rs_calls :: "ocm_call list"

definition outcome_result :: "act_outcome \<Rightarrow> string + unit" where
  "outcome_result o' = (case o' of Raised e \<Rightarrow> Inl e | _ \<Rightarrow> Inr ())"

definition process_cluster_upgrades ::
  "('k::linorder) run_env \<Rightarrow> bool \<Rightarrow> int \<Rightarrow> org_upgrade_spec \<Rightarrow> run_state \<Rightarrow> run_state \<times> (string + unit)" where
  \<comment> \<open>\<open>OCMClusterUpgradeSchedulerIntegration.process_upgrade_policies_in_org\<close>; the first histories
     are for the metrics alone\<close>
  "process_cluster_upgrades env dry_run now org_spec rs =
     (let w = re_world env in
      case fetch_current_state (re_source env) org_spec False of
        Inl e \<Rightarrow> (rs, Inl e)
      | Inr current \<Rightarrow>
      (case snd (get_version_data_map (uw_semver w) now True org_spec [] False (rs_versions rs)) of
        Inl e \<Rightarrow> (rs, Inl e)
      | Inr _ \<Rightarrow>
      (case get_version_data_map (uw_semver w) now dry_run org_spec [] True (rs_versions rs) of
        (versions, Inl e) \<Rightarrow> (rs\<lparr>rs_versions := versions\<rparr>, Inl e)
      | (versions, Inr vd) \<Rightarrow>
          let rs = rs\<lparr>rs_versions := versions\<rparr> in
          (case rbind (remaining_soak_day_metrics w (re_from_iso env) now (ous_specs org_spec) vd current)
                  (\<lambda>_. calculate_diff w current org_spec vd [] now) of
             Inl e \<Rightarrow> (rs, Inl e)
           | Inr st \<Rightarrow>
             (case act (re_act env) dry_run (ds_diffs st) [] of (calls, outcome) \<Rightarrow>
               let rs = rs\<lparr>rs_calls := rs_calls rs @ calls\<rparr> in
               (case outcome_result outcome of
                  Inl e \<Rightarrow> (rs, Inl e)
                | Inr _ \<Rightarrow>
                  (case act_channel_switches (re_act env) dry_run (ds_switches st) of (calls', outcome') \<Rightarrow>
                     (rs\<lparr>rs_calls := rs_calls rs @ calls'\<rparr>, outcome_result outcome'))))))))"

definition process_addon ::
  "('k::linorder) run_env \<Rightarrow> bool \<Rightarrow> int \<Rightarrow> org_upgrade_spec \<Rightarrow> upgrade_policy list \<Rightarrow> string \<Rightarrow> run_state \<Rightarrow>
   run_state \<times> (string + unit)" where
  \<comment> \<open>the body of the loop over the addons\<close>
  "process_addon env dry_run now org_spec current addon_id rs =
     (let w = re_world env;
          of_addon = filter (\<lambda>s. case us_addon s of None \<Rightarrow> False | Some a \<Rightarrow> ai_id a = addon_id) (ous_specs org_spec) in
      case make_org_upgrade_spec (uw_semver w) (ous_org org_spec) of_addon of
        Inl e \<Rightarrow> (rs, Inl e)
      | Inr addon_spec \<Rightarrow>
      (case get_version_data_map (uw_semver w) now dry_run addon_spec addon_id True (rs_versions rs) of
        (versions, Inl e) \<Rightarrow> (rs\<lparr>rs_versions := versions\<rparr>, Inl e)
      | (versions, Inr vd) \<Rightarrow>
          let rs = rs\<lparr>rs_versions := versions\<rparr>;
              addon_current = filter (\<lambda>p. pl_kind p = AddonPolicy addon_id) current in
          (case rbind (remaining_soak_day_metrics w (re_from_iso env) now (ous_specs addon_spec) vd addon_current)
                  (\<lambda>_. addon_calculate_diff w addon_current addon_spec vd addon_id now) of
             Inl e \<Rightarrow> (rs, Inl e)
           | Inr hs \<Rightarrow>
             (case act (re_act env) dry_run hs addon_id of (calls, outcome) \<Rightarrow>
               (rs\<lparr>rs_calls := rs_calls rs @ calls\<rparr>, outcome_result outcome)))))"

fun process_addons ::
  "('k::linorder) run_env \<Rightarrow> bool \<Rightarrow> int \<Rightarrow> org_upgrade_spec \<Rightarrow> upgrade_policy list \<Rightarrow> string list \<Rightarrow> run_state \<Rightarrow>
   run_state \<times> (string + unit)" where
  "process_addons env dry_run now org_spec current [] rs = (rs, Inr ())"
| "process_addons env dry_run now org_spec current (a # as) rs =
     (case process_addon env dry_run now org_spec current a rs of
        (rs, Inl e) \<Rightarrow> (rs, Inl e)
      | (rs, Inr _) \<Rightarrow> process_addons env dry_run now org_spec current as rs)"

definition spec_addon_ids :: "cluster_upgrade_spec list \<Rightarrow> string list" where
  "spec_addon_ids specs = add_all [] (concat (map (\<lambda>s. case us_addon s of None \<Rightarrow> [] | Some a \<Rightarrow> [ai_id a]) specs))"

definition process_addon_upgrades ::
  "('k::linorder) run_env \<Rightarrow> bool \<Rightarrow> int \<Rightarrow> org_upgrade_spec \<Rightarrow> run_state \<Rightarrow> run_state \<times> (string + unit)" where
  \<comment> \<open>\<open>OCMAddonsUpgradeSchedulerOrgIntegration.process_upgrade_policies_in_org\<close>\<close>
  "process_addon_upgrades env dry_run now org_spec rs =
     (case fetch_current_state (re_source env) org_spec True of
        Inl e \<Rightarrow> (rs, Inl e)
      | Inr current \<Rightarrow> process_addons env dry_run now org_spec current (spec_addon_ids (ous_specs org_spec)) rs)"

section \<open>All organizations\<close>

definition process_org ::
  "(org_upgrade_spec \<Rightarrow> run_state \<Rightarrow> run_state \<times> (string + unit)) \<Rightarrow> org_upgrade_spec \<Rightarrow> run_state \<Rightarrow>
   run_state \<times> (string + unit)" where
  "process_org process org_spec rs =
     (if has_validation_errors org_spec then (rs, Inr ())
      else if ous_specs org_spec \<noteq> [] then process org_spec rs
      else (rs, Inr ()))"

fun run_orgs ::
  "(org_upgrade_spec \<Rightarrow> run_state \<Rightarrow> run_state \<times> (string + unit)) \<Rightarrow> (org_upgrade_spec \<Rightarrow> string \<Rightarrow> bool) \<Rightarrow>
   (string \<times> org_upgrade_spec) list \<Rightarrow> run_state \<Rightarrow> run_state \<times> string list" where
  \<comment> \<open>\<open>handled\<close> is \<open>signal_reconcile_issues\<close>; the result carries the unhandled exceptions\<close>
  "run_orgs process handled [] rs = (rs, [])"
| "run_orgs process handled ((ocm_env, org_spec) # os) rs =
     (case process_org process org_spec rs of (rs, r) \<Rightarrow>
       case run_orgs process handled os rs of (rs', es) \<Rightarrow>
         (rs', (case r of Inr _ \<Rightarrow> []
                | Inl e \<Rightarrow> if handled org_spec e then []
                           else [ocm_env @ ''/'' @ og_name (ous_org org_spec) @ '': '' @ e]) @ es))"

definition run_scheduler ::
  "(org_upgrade_spec \<Rightarrow> run_state \<Rightarrow> run_state \<times> (string + unit)) \<Rightarrow> (org_upgrade_spec \<Rightarrow> string \<Rightarrow> bool) \<Rightarrow>
   (string \<times> (string + (string \<times> org_upgrade_spec) list)) list \<Rightarrow> run_state \<Rightarrow> run_state \<times> (string list + unit)" where
  \<comment> \<open>an environment whose specifications cannot be built is skipped; unhandled exceptions are
     raised together after all organizations were processed\<close>
  "run_scheduler process handled envs rs =
     (let os = concat (map (\<lambda>(ocm_env, specs). case specs of Inl _ \<Rightarrow> [] | Inr l \<Rightarrow> map (\<lambda>(_, o'). (ocm_env, o')) l) envs)
      in case run_orgs process handled os rs of
           (rs, es) \<Rightarrow> (rs, if es = [] then Inr () else Inl es))"

section \<open>What a run changes\<close>

text \<open>What every step keeps of the state of the run, the whole run keeps.\<close>

lemma run_orgs_invariant:
  assumes "P rs" "\<And>rs ocm_env o'. (ocm_env, o') \<in> set os \<Longrightarrow> P rs \<Longrightarrow> P (fst (process o' rs))"
  shows "P (fst (run_orgs process handled os rs))"
  using assms
proof (induction os arbitrary: rs)
  case (Cons x os)
  obtain ocm_env o' where x: "x = (ocm_env, o')" by force
  have "P (fst (process_org process o' rs))"
    using Cons.prems x by (auto simp: process_org_def)
  then have "P (fst (run_orgs process handled os (fst (process_org process o' rs))))"
    by (rule Cons.IH) (use Cons.prems(2) in auto)
  then show ?case by (auto simp: x split: prod.splits)
qed simp

definition orgs_of_run :: "(string \<times> (string + (string \<times> org_upgrade_spec) list)) list \<Rightarrow> org_upgrade_spec set" where
  "orgs_of_run envs = {o'. \<exists>ocm_env n l. (ocm_env, Inr l) \<in> set envs \<and> (n, o') \<in> set l}"

lemma run_scheduler_invariant:
  assumes "P rs" "\<And>rs o'. o' \<in> orgs_of_run envs \<Longrightarrow> P rs \<Longrightarrow> P (fst (process o' rs))"
  shows "P (fst (run_scheduler process handled envs rs))"
proof -
  define os where "os = concat (map (\<lambda>(ocm_env, specs). case specs of Inl _ \<Rightarrow> [] | Inr l \<Rightarrow> map (\<lambda>(_, o'). (ocm_env, o')) l) envs)"
  have os: "o' \<in> orgs_of_run envs" if "(ocm_env, o') \<in> set os" for ocm_env o'
  proof -
    from that obtain p where p: "p \<in> set envs" "(ocm_env, o') \<in> set
        (case p of (ocm_env, specs) \<Rightarrow> case specs of Inl _ \<Rightarrow> [] | Inr l \<Rightarrow> map (\<lambda>(_, o'). (ocm_env, o')) l)"
      unfolding os_def set_concat set_map by blast
    then show ?thesis by (cases p) (auto simp: orgs_of_run_def split: sum.splits)
  qed
  have "P (fst (run_orgs process handled os rs))"
    by (rule run_orgs_invariant [where P = P, OF assms(1)]) (rule assms(2) [OF os])
  moreover have "fst (run_scheduler process handled envs rs) = fst (run_orgs process handled os rs)"
    unfolding run_scheduler_def Let_def os_def [symmetric] by (simp add: case_prod_beta)
  ultimately show ?thesis by simp
qed

lemma get_version_data_map_dry [simp]: "fst (get_version_data_map sv now True org_spec addon_id inherit state) = state"
  by (simp add: get_version_data_map_def Let_def split: sum.splits)

lemma get_version_data_map_other:
  "k \<noteq> version_data_state_key (og_env (ous_org org_spec)) (og_org_id (ous_org org_spec)) addon_id \<Longrightarrow>
     fst (get_version_data_map sv now dry_run org_spec addon_id inherit state) k = state k"
  by (simp add: get_version_data_map_def Let_def split: sum.splits)

lemma act_dry [simp]: "act env True hs addon_id = ([], Acted)"
  by (simp add: act_def act_loop_dry)

lemma switches_dry [simp]: "act_channel_switches env True switches = ([], Acted)"
  by (simp add: act_channel_switches_def)

lemma process_cluster_upgrades_versions:
  "rs_versions (fst (process_cluster_upgrades env dry_run now o' rs)) = rs_versions rs \<or>
   rs_versions (fst (process_cluster_upgrades env dry_run now o' rs)) =
     fst (get_version_data_map (uw_semver (re_world env)) now dry_run o' [] True (rs_versions rs))"
  by (auto simp: process_cluster_upgrades_def Let_def split: sum.splits prod.splits)

lemma process_cluster_upgrades_dry: "fst (process_cluster_upgrades env True now o' rs) = rs"
proof -
  have "rs\<lparr>rs_versions := fst (get_version_data_map sv now True o' [] True (rs_versions rs))\<rparr> = rs" for sv :: "'a semver_lib"
    by simp
  then show ?thesis
    using get_version_data_map_dry [of "uw_semver (re_world env)" now o' "[]" True "rs_versions rs"]
    by (cases "get_version_data_map (uw_semver (re_world env)) now True o' [] True (rs_versions rs)")
      (auto simp: process_cluster_upgrades_def Let_def outcome_result_def split: sum.splits)
qed

lemma process_addon_dry: "fst (process_addon env True now o' current a rs) = rs"
proof (cases "make_org_upgrade_spec (uw_semver (re_world env)) (ous_org o')
    (filter (\<lambda>s. case us_addon s of None \<Rightarrow> False | Some x \<Rightarrow> ai_id x = a) (ous_specs o'))")
  case (Inr s)
  then show ?thesis
    using get_version_data_map_dry [of "uw_semver (re_world env)" now s a True "rs_versions rs"]
    by (cases "get_version_data_map (uw_semver (re_world env)) now True s a True (rs_versions rs)")
      (auto simp: process_addon_def Let_def outcome_result_def split: sum.splits)
qed (simp add: process_addon_def Let_def)

lemma process_addons_dry: "fst (process_addons env True now o' current addons rs) = rs"
proof (induction addons)
  case (Cons a addons)
  then show ?case using process_addon_dry [of env now o' current a rs] by (auto split: prod.splits sum.splits)
qed simp

text \<open>A dry run changes nothing, end to end: whatever the organizations, their state and the answers of
  OCM, a dry run of the cluster or of the addon scheduler makes no call to OCM and leaves the saved version
  histories as they were.\<close>
theorem dry_run_changes_nothing:
  "fst (run_scheduler (process_cluster_upgrades env True now) handled envs rs) = rs \<and>
   fst (run_scheduler (process_addon_upgrades env True now) handled envs rs) = rs"
proof
  show "fst (run_scheduler (process_cluster_upgrades env True now) handled envs rs) = rs"
    by (rule run_scheduler_invariant [where P = "\<lambda>s. s = rs"]) (simp_all add: process_cluster_upgrades_dry)
  show "fst (run_scheduler (process_addon_upgrades env True now) handled envs rs) = rs"
    by (rule run_scheduler_invariant [where P = "\<lambda>s. s = rs"])
      (auto simp: process_addon_upgrades_def process_addons_dry split: sum.splits)
qed

text \<open>A run of the cluster scheduler writes the history of no organization but those it processes: the
  saved data at any other key is what it was before the run.\<close>
theorem run_writes_only_processed_orgs:
  assumes "\<And>o'. o' \<in> orgs_of_run envs \<Longrightarrow>
    k \<noteq> version_data_state_key (og_env (ous_org o')) (og_org_id (ous_org o')) []"
  shows "rs_versions (fst (run_scheduler (process_cluster_upgrades env dry_run now) handled envs rs)) k = rs_versions rs k"
proof (rule run_scheduler_invariant [where P = "\<lambda>s. rs_versions s k = rs_versions rs k"])
  fix s :: run_state and o'
  assume "o' \<in> orgs_of_run envs" "rs_versions s k = rs_versions rs k"
  with assms get_version_data_map_other
  show "rs_versions (fst (process_cluster_upgrades env dry_run now o' s)) k = rs_versions rs k"
    using process_cluster_upgrades_versions [of env dry_run now o' s] by metis
qed simp

end
