(* ===== verification/Aus_Labels.thy ===== *)
theory Aus_Labels
  imports Aus_Sectors
begin

text \<open>
  The configuration of the advanced upgrade service as OCM labels. \<open>reconcile/aus/aus_label_source.py\<close>
  writes the policies of clusters and the settings of organizations into labels;
  \<open>reconcile/aus/advanced_upgrade_service.py\<close> reads them back. What pydantic and croniter decide (whether
  a text is an integer, whether it is a cron expression, and the wording of an error) is a parameter.
\<close>

section \<open>Labels\<close>

type_synonym labels = "(string, string) dict"

definition sre_capability_label_key :: "string \<Rightarrow> string option \<Rightarrow> string" where
  "sre_capability_label_key sre_capability config_atom =
     (case config_atom of
        None \<Rightarrow> ''sre-capabilities.'' @ sre_capability
      | Some a \<Rightarrow> ''sre-capabilities.'' @ sre_capability @ ''.'' @ a)"

definition aus_label_key :: "string \<Rightarrow> string" where
  "aus_label_key config_atom = sre_capability_label_key ''aus'' (Some config_atom)"

definition build_container_for_prefix :: "labels \<Rightarrow> string \<Rightarrow> bool \<Rightarrow> labels" where
  "build_container_for_prefix container key_prefix strip_key_prefix =
     dict_of (map (\<lambda>(k, v). (if strip_key_prefix then drop (length key_prefix) k else k, v))
       (filter (\<lambda>(k, v). prefix key_prefix k) container))"

definition build_label_container :: "(string \<times> string) list list \<Rightarrow> labels" where
  "build_label_container label_iterables = dict_of (concat label_iterables)"

record cluster_details =
  cd_cluster :: ocm_cluster
  cd_organization_id :: string
  cd_subscription_labels :: labels
  cd_organization_labels :: labels

definition cd_labels :: "cluster_details \<Rightarrow> labels" where
  "cd_labels c = build_label_container [cd_organization_labels c, cd_subscription_labels c]"

section \<open>Validation\<close>

datatype label_error = NotAnInteger | Negative | TooShort | NotAString | InvalidCron

record label_lib =
  ll_read_int :: "string \<Rightarrow> int option"
  ll_cron_ok :: "string \<Rightarrow> bool"
  ll_message :: "label_error \<Rightarrow> string"

definition csv_validate :: "string option \<Rightarrow> string list" where
  \<comment> \<open>\<open>CSV\<close> of \<open>utils/models.py\<close>\<close>
  "csv_validate value = (case value of None \<Rightarrow> [] | Some s \<Rightarrow> if s = [] then [] else py_split (CHR '','') s)"

definition csv_opt :: "string option \<Rightarrow> string list option" where
  "csv_opt value = map_option (\<lambda>s. csv_validate (Some s)) value"

definition validate_soak_days :: "int option \<Rightarrow> label_error + int" where
  "validate_soak_days value =
     (case value of None \<Rightarrow> Inl NotAnInteger | Some n \<Rightarrow> if 0 \<le> n then Inr n else Inl Negative)"

definition validate_workloads :: "string option \<Rightarrow> label_error + string list" where
  "validate_workloads value = (if csv_validate value = [] then Inl TooShort else Inr (csv_validate value))"

definition validate_schedule :: "label_lib \<Rightarrow> string option \<Rightarrow> label_error + string" where
  "validate_schedule lib value =
     (case value of None \<Rightarrow> Inl NotAString | Some s \<Rightarrow> if ll_cron_ok lib s then Inr s else Inl InvalidCron)"

section \<open>The labels of a cluster\<close>

record policy_label_set =
  pls_soak_days :: int
  pls_workloads :: "string list"
  pls_schedule :: string
  pls_mutexes :: "string list option"
  pls_sector :: "string option"
  pls_blocked_versions :: "string list option"
  pls_version_gate_approvals :: "string list option"

definition label_problem :: "string \<Rightarrow> label_error + 'a \<Rightarrow> (string \<times> label_error) list" where
  "label_problem atom r = (case r of Inl e \<Rightarrow> [(aus_label_key atom, e)] | Inr _ \<Rightarrow> [])"

definition make_policy_label_set ::
  "label_lib \<Rightarrow> int option \<Rightarrow> (string \<Rightarrow> string option) \<Rightarrow> (string \<times> label_error) list + policy_label_set" where
  \<comment> \<open>\<open>ClusterUpgradePolicyLabelSet(...)\<close>: all fields are validated, and the errors are raised together\<close>
  "make_policy_label_set lib soak_days raw =
     (let soak = validate_soak_days soak_days;
          workloads = validate_workloads (raw ''workloads'');
          schedule = validate_schedule lib (raw ''schedule'');
          errors = label_problem ''soak-days'' soak @ label_problem ''workloads'' workloads @
                   label_problem ''schedule'' schedule
      in if errors \<noteq> [] then Inl errors
         else Inr \<lparr>pls_soak_days = projr soak, pls_workloads = projr workloads, pls_schedule = projr schedule,
                   pls_mutexes = csv_opt (raw ''mutexes''), pls_sector = raw ''sector'',
                   pls_blocked_versions = csv_opt (raw ''blocked-versions''),
                   pls_version_gate_approvals = csv_opt (raw ''version-gate-approvals'')\<rparr>)"

definition dump_csv :: "string \<Rightarrow> string list option \<Rightarrow> labels" where
  "dump_csv atom value =
     (case value of None \<Rightarrow> [] | Some xs \<Rightarrow> [(aus_label_key atom, join '','' (sort xs))])"

definition build_labels_dict :: "policy_label_set \<Rightarrow> labels" where
  "build_labels_dict ls =
     dict_of ([(aus_label_key ''soak-days'', py_str_int (pls_soak_days ls))] @
       dump_csv ''workloads'' (Some (pls_workloads ls)) @
       [(aus_label_key ''schedule'', pls_schedule ls)] @
       dump_csv ''mutexes'' (pls_mutexes ls) @
       (case pls_sector ls of None \<Rightarrow> [] | Some s \<Rightarrow> [(aus_label_key ''sector'', s)]) @
       dump_csv ''blocked-versions'' (pls_blocked_versions ls) @
       dump_csv ''version-gate-approvals'' (pls_version_gate_approvals ls))"

definition csv_or_none :: "string list option \<Rightarrow> string option" where
  "csv_or_none xs = (if opt_list xs = [] then None else Some (join '','' (opt_list xs)))"

definition build_cluster_upgrade_policy_label_set ::
  "label_lib \<Rightarrow> string list \<Rightarrow> string \<Rightarrow> int \<Rightarrow> string list option \<Rightarrow> string option \<Rightarrow> string list option \<Rightarrow>
   string list option \<Rightarrow> (string \<times> label_error) list + policy_label_set" where
  "build_cluster_upgrade_policy_label_set lib workloads schedule soak_days mutexes sector blocked approvals =
     make_policy_label_set lib (Some soak_days) (\<lambda>atom.
       if atom = ''workloads'' then Some (join '','' workloads)
       else if atom = ''schedule'' then Some schedule
       else if atom = ''mutexes'' then csv_or_none mutexes
       else if atom = ''sector'' then sector
       else if atom = ''blocked-versions'' then csv_or_none blocked
       else if atom = ''version-gate-approvals'' then csv_or_none approvals
       else None)"

definition cluster_to_labels :: "label_lib \<Rightarrow> upgrade_policy_v1 \<Rightarrow> (string \<times> label_error) list + labels" where
  \<comment> \<open>\<open>AUSClusterUpgradePolicyLabelSource._cluster_to_labels\<close>\<close>
  "cluster_to_labels lib policy =
     (let c = up_conditions policy in
      case build_cluster_upgrade_policy_label_set lib (up_workloads policy) (up_schedule policy)
             (case uc_soak_days c of None \<Rightarrow> 0 | Some d \<Rightarrow> d) (uc_mutexes c) (uc_sector c) (uc_blocked_versions c)
             (up_version_gate_approvals policy) of
        Inl es \<Rightarrow> Inl es
      | Inr ls \<Rightarrow> Inr (build_labels_dict ls))"

definition build_policy_from_labels ::
  "label_lib \<Rightarrow> labels \<Rightarrow> (string \<times> label_error) list + upgrade_policy_v1" where
  "build_policy_from_labels lib labels =
     (let raw = (\<lambda>atom. dict_get labels (aus_label_key atom)) in
      case make_policy_label_set lib (Option.bind (raw ''soak-days'') (ll_read_int lib)) raw of
        Inl es \<Rightarrow> Inl es
      | Inr ls \<Rightarrow> Inr \<lparr>up_workloads = pls_workloads ls, up_schedule = pls_schedule ls,
          up_conditions = \<lparr>uc_mutexes = pls_mutexes ls, uc_soak_days = Some (pls_soak_days ls),
            uc_sector = pls_sector ls, uc_blocked_versions = pls_blocked_versions ls\<rparr>,
          up_version_gate_approvals = pls_version_gate_approvals ls\<rparr>)"

section \<open>Reading back what was written\<close>

lemma aus_label_key_inj [simp]: "aus_label_key a = aus_label_key b \<longleftrightarrow> a = b"
  by (simp add: aus_label_key_def sre_capability_label_key_def)

definition csv_safe :: "string list \<Rightarrow> bool" where
  \<comment> \<open>the lists that a comma separated text can hold\<close>
  "csv_safe xs \<longleftrightarrow> (\<forall>x \<in> set xs. CHR '','' \<notin> set x) \<and> xs \<noteq> [[]]"

lemma csv_safe_sort: "csv_safe xs \<Longrightarrow> csv_safe (sort xs)"
  by (auto simp: csv_safe_def) (metis length_sort length_Suc_conv length_0_conv set_sort list.set_intros(1)
      empty_iff empty_set list.set_cases list.inject set_ConsD)

lemma join_empty: "csv_safe xs \<Longrightarrow> join '','' xs = [] \<longleftrightarrow> xs = []"
  by (induction "'',''" xs rule: join.induct) (auto simp: csv_safe_def)

lemma csv_validate_join [simp]: "csv_safe xs \<Longrightarrow> csv_validate (Some (join '','' xs)) = xs"
  using join_empty [of xs] by (auto simp: csv_validate_def csv_safe_def py_split_join)

lemma dict_get_labels_dict:
  "dict_get (build_labels_dict ls) (aus_label_key atom) =
     (if atom = ''soak-days'' then Some (py_str_int (pls_soak_days ls))
      else if atom = ''workloads'' then Some (join '','' (sort (pls_workloads ls)))
      else if atom = ''schedule'' then Some (pls_schedule ls)
      else if atom = ''mutexes'' then map_option (\<lambda>xs. join '','' (sort xs)) (pls_mutexes ls)
      else if atom = ''sector'' then pls_sector ls
      else if atom = ''blocked-versions'' then map_option (\<lambda>xs. join '','' (sort xs)) (pls_blocked_versions ls)
      else if atom = ''version-gate-approvals''
           then map_option (\<lambda>xs. join '','' (sort xs)) (pls_version_gate_approvals ls)
      else None)"
  by (simp add: build_labels_dict_def map_of_dict_of dump_csv_def split: option.splits)

definition normal_csv :: "string list option \<Rightarrow> string list option" where
  "normal_csv xs = (if opt_list xs = [] then None else Some (sort (opt_list xs)))"

definition normal_policy :: "upgrade_policy_v1 \<Rightarrow> upgrade_policy_v1" where
  \<comment> \<open>the order of the lists and the difference between nothing and an empty list are not kept\<close>
  "normal_policy p =
     (let c = up_conditions p in
      \<lparr>up_workloads = sort (up_workloads p), up_schedule = up_schedule p,
       up_conditions = \<lparr>uc_mutexes = normal_csv (uc_mutexes c),
         uc_soak_days = Some (case uc_soak_days c of None \<Rightarrow> 0 | Some d \<Rightarrow> d), uc_sector = uc_sector c,
         uc_blocked_versions = normal_csv (uc_blocked_versions c)\<rparr>,
       up_version_gate_approvals = normal_csv (up_version_gate_approvals p)\<rparr>)"

definition labellable :: "label_lib \<Rightarrow> upgrade_policy_v1 \<Rightarrow> bool" where
  "labellable lib p \<longleftrightarrow>
     (let c = up_conditions p in
      up_workloads p \<noteq> [] \<and> list_all csv_safe [up_workloads p, opt_list (uc_mutexes c),
        opt_list (uc_blocked_versions c), opt_list (up_version_gate_approvals p)] \<and>
      ll_cron_ok lib (up_schedule p) \<and> (case uc_soak_days c of None \<Rightarrow> True | Some d \<Rightarrow> 0 \<le> d))"

definition reads_numbers :: "label_lib \<Rightarrow> bool" where
  "reads_numbers lib \<longleftrightarrow> (\<forall>n \<ge> 0. ll_read_int lib (py_str_int n) = Some n)"

lemma csv_opt_or_none:
  "csv_safe (opt_list xs) \<Longrightarrow> map_option sort (csv_opt (csv_or_none xs)) = normal_csv xs"
  by (simp add: csv_opt_def csv_or_none_def normal_csv_def)

lemma csv_opt_dump:
  "csv_safe (opt_list xs) \<Longrightarrow> csv_opt (map_option (\<lambda>xs. join '','' (sort xs)) (csv_opt (csv_or_none xs))) = normal_csv xs"
  by (simp add: csv_opt_def csv_or_none_def normal_csv_def csv_safe_sort)

lemma policy_labels_round_trip_aux:
  assumes "labellable lib p" "reads_numbers lib"
  shows "\<exists>labels. cluster_to_labels lib p = Inr labels \<and> build_policy_from_labels lib labels = Inr (normal_policy p)"
proof -
  let ?c = "up_conditions p"
  define d where "d = (case uc_soak_days ?c of None \<Rightarrow> 0 | Some d \<Rightarrow> d)"
  from assms(1) have p: "up_workloads p \<noteq> []" "csv_safe (up_workloads p)" "csv_safe (opt_list (uc_mutexes ?c))"
      "csv_safe (opt_list (uc_blocked_versions ?c))" "csv_safe (opt_list (up_version_gate_approvals p))"
      "ll_cron_ok lib (up_schedule p)" "0 \<le> d"
    by (auto simp: labellable_def Let_def d_def split: option.splits)
  have sorted: "sort (up_workloads p) \<noteq> []" using p(1) by (metis length_0_conv length_sort)
  have read: "ll_read_int lib (py_str_int d) = Some d" using assms(2) p(7) by (simp add: reads_numbers_def)
  define ls where "ls = \<lparr>pls_soak_days = d, pls_workloads = up_workloads p, pls_schedule = up_schedule p,
      pls_mutexes = csv_opt (csv_or_none (uc_mutexes ?c)), pls_sector = uc_sector ?c,
      pls_blocked_versions = csv_opt (csv_or_none (uc_blocked_versions ?c)),
      pls_version_gate_approvals = csv_opt (csv_or_none (up_version_gate_approvals p))\<rparr>"
  have "cluster_to_labels lib p = Inr (build_labels_dict ls)"
    using p by (simp add: cluster_to_labels_def build_cluster_upgrade_policy_label_set_def make_policy_label_set_def
        validate_soak_days_def validate_workloads_def validate_schedule_def label_problem_def ls_def
        Let_def d_def [symmetric])
  moreover have "build_policy_from_labels lib (build_labels_dict ls) = Inr (normal_policy p)"
    using p sorted read by (simp add: build_policy_from_labels_def make_policy_label_set_def dict_get_labels_dict
        validate_soak_days_def validate_workloads_def validate_schedule_def label_problem_def ls_def
        csv_safe_sort csv_opt_dump normal_policy_def Let_def d_def [symmetric])
  ultimately show ?thesis by blast
qed

text \<open>C32. What is written is read back. A policy that labels can hold (no commas in names, at least one
  workload, a valid schedule) is written into labels without an error, and reading these labels gives the
  policy again, with its lists in order.\<close>
theorem policy_labels_round_trip:
  assumes "labellable lib p" "reads_numbers lib"
  shows "\<exists>labels. cluster_to_labels lib p = Inr labels \<and> build_policy_from_labels lib labels = Inr (normal_policy p)"
  by (rule policy_labels_round_trip_aux [OF assms])

section \<open>What is refused\<close>

definition label_defects :: "label_lib \<Rightarrow> labels \<Rightarrow> string set" where
  \<comment> \<open>the labels of a cluster that keep it from having a policy\<close>
  "label_defects lib labels =
     {k. k = aus_label_key ''soak-days'' \<and> (\<forall>s n. dict_get labels k = Some s \<longrightarrow> ll_read_int lib s = Some n \<longrightarrow> n < 0)} \<union>
     {k. k = aus_label_key ''workloads'' \<and> (\<forall>s. dict_get labels k = Some s \<longrightarrow> s = [])} \<union>
     {k. k = aus_label_key ''schedule'' \<and> (\<forall>s. dict_get labels k = Some s \<longrightarrow> \<not> ll_cron_ok lib s)}"

lemma label_problem_keys:
  "fst ` set (label_problem atom r) = (if isl r then {aus_label_key atom} else {})"
  by (cases r) (simp_all add: label_problem_def)

lemma validate_isl:
  "isl (validate_soak_days v) \<longleftrightarrow> (\<forall>n. v = Some n \<longrightarrow> n < 0)"
  "isl (validate_workloads t) \<longleftrightarrow> (\<forall>s. t = Some s \<longrightarrow> s = [])"
  "isl (validate_schedule lib t) \<longleftrightarrow> (\<forall>s. t = Some s \<longrightarrow> \<not> ll_cron_ok lib s)"
  by (auto simp: validate_soak_days_def validate_workloads_def validate_schedule_def csv_validate_def split: option.splits)

lemma policy_labels_errors_aux:
  "case build_policy_from_labels lib labels of
     Inl errors \<Rightarrow> fst ` set errors = label_defects lib labels \<and> label_defects lib labels \<noteq> {}
   | Inr p \<Rightarrow> label_defects lib labels = {}"
proof -
  define raw where "raw = (\<lambda>atom. dict_get labels (aus_label_key atom))"
  define soak where "soak = validate_soak_days (Option.bind (raw ''soak-days'') (ll_read_int lib))"
  define es where "es = label_problem ''soak-days'' soak @
      label_problem ''workloads'' (validate_workloads (raw ''workloads'')) @
      label_problem ''schedule'' (validate_schedule lib (raw ''schedule''))"
  have keys: "fst ` set es = label_defects lib labels"
    by (auto simp: es_def soak_def raw_def image_Un label_problem_keys validate_isl label_defects_def
        split: if_splits bind_splits)
  have "(case build_policy_from_labels lib labels of Inl errors \<Rightarrow> errors = es \<and> es \<noteq> [] | Inr p \<Rightarrow> es = [])"
    by (simp add: build_policy_from_labels_def make_policy_label_set_def Let_def raw_def [symmetric]
        soak_def [symmetric] es_def)
  with keys show ?thesis by (auto split: sum.splits)
qed

text \<open>Bad labels are refused, each by name. Labels give a policy exactly when the soak days are a number
  that is not negative, there is a workload and the schedule is a cron expression; otherwise the errors
  name exactly the labels that are missing or wrong.\<close>
theorem policy_labels_errors:
  "case build_policy_from_labels lib labels of
     Inl errors \<Rightarrow> fst ` set errors = label_defects lib labels \<and> label_defects lib labels \<noteq> {}
   | Inr p \<Rightarrow> label_defects lib labels = {}"
  by (rule policy_labels_errors_aux)

end
