(* ===== verification/Aus_Gates.thy ===== *)
theory Aus_Gates
  imports Aus_Diff_Laws Aus_Labels
begin

text \<open>
  The approver of version gates, \<open>reconcile/aus/version_gate_approver.py\<close> with the handlers of
  \<open>reconcile/aus/version_gates/\<close>. The agreements that OCM keeps are the state: pairs of a cluster and
  a gate. \<open>posts\<close> says whether OCM accepts a new agreement; a refused one is an exception that ends
  the run.
\<close>

type_synonym gate_agreements = "(string \<times> string) list"

definition get_enabled_gate_handlers :: "(string, string) dict \<Rightarrow> string list" where
  "get_enabled_gate_handlers labels =
     (case truthy_str (dict_get labels (aus_label_key ''version-gate-approvals'')) of
        None \<Rightarrow> [''api.openshift.com/gate-ocp'']
      | Some handler_csv \<Rightarrow> add_all [] (py_split (CHR '','') handler_csv))"

definition handle_gate :: "string \<Rightarrow> string + bool" where
  \<comment> \<open>\<open>self.handlers[label].handle(...)\<close>: all three handlers acknowledge without an action of their own\<close>
  "handle_gate label = of_opt ''KeyError'' (map_option (\<lambda>_. True) (dict_get gate_handlers label))"

definition create_version_agreement ::
  "(string \<Rightarrow> string \<Rightarrow> bool) \<Rightarrow> string \<Rightarrow> string \<Rightarrow> gate_agreements \<Rightarrow> string + gate_agreements" where
  "create_version_agreement posts gate_id cluster_id agreements =
     (if posts cluster_id gate_id then Inr (agreements @ [(cluster_id, gate_id)]) else Inl ''HTTPError'')"

definition process_gate ::
  "(string \<Rightarrow> string \<Rightarrow> bool) \<Rightarrow> bool \<Rightarrow> ocm_cluster \<Rightarrow> string list \<Rightarrow> gate_agreements \<Rightarrow> version_gate \<Rightarrow>
   string + gate_agreements" where
  "process_gate posts dry_run c enabled agreements gate =
     (if dict_has gate_handlers (vg_label gate) \<and> vg_label gate \<notin> set enabled then Inr agreements
      else rbind (handle_gate (vg_label gate)) (\<lambda>success.
        if success \<and> \<not> dry_run then create_version_agreement posts (vg_id gate) (oc_id c) agreements
        else Inr agreements))"

definition process_cluster ::
  "(string \<Rightarrow> string \<Rightarrow> bool) \<Rightarrow> bool \<Rightarrow> ocm_cluster \<Rightarrow> string list \<Rightarrow> version_gate list \<Rightarrow> gate_agreements \<Rightarrow>
   string + gate_agreements" where
  "process_cluster posts dry_run c enabled gates agreements =
     rfold (process_gate posts dry_run c enabled) agreements gates"

definition agreed_gates :: "gate_agreements \<Rightarrow> string \<Rightarrow> string list" where
  "agreed_gates agreements cluster_id = map snd (filter (\<lambda>a. fst a = cluster_id) agreements)"

definition process_details ::
  "('k::linorder) semver_lib \<Rightarrow> (string \<Rightarrow> string \<Rightarrow> bool) \<Rightarrow> version_gate list \<Rightarrow> bool \<Rightarrow> gate_agreements \<Rightarrow>
   cluster_details \<Rightarrow> string + gate_agreements" where
  "process_details sv posts gates dry_run agreements d =
     rbind (gates_to_agree sv gates (cd_cluster d) (agreed_gates agreements (oc_id (cd_cluster d)))) (\<lambda>unacked.
       if unacked = [] then Inr agreements
       else process_cluster posts dry_run (cd_cluster d) (get_enabled_gate_handlers (cd_labels d)) unacked agreements)"

definition process_organization ::
  "('k::linorder) semver_lib \<Rightarrow> (string \<Rightarrow> string \<Rightarrow> bool) \<Rightarrow> cluster_details list \<Rightarrow> version_gate list \<Rightarrow> bool \<Rightarrow>
   gate_agreements \<Rightarrow> string + gate_agreements" where
  "process_organization sv posts clusters gates dry_run agreements =
     rfold (process_details sv posts gates dry_run) agreements clusters"

section \<open>What is agreed to\<close>

definition to_approve :: "('k::linorder) semver_lib \<Rightarrow> version_gate list \<Rightarrow> cluster_details \<Rightarrow> (string \<times> string) set" where
  "to_approve sv gates d = {(oc_id (cd_cluster d), vg_id g) |g. g \<in> set gates \<and>
     is_gate_applicable_to_cluster sv g (cd_cluster d) = Inr True \<and>
     vg_label g \<in> set (get_enabled_gate_handlers (cd_labels d))}"

lemma gates_to_agree_Inr:
  assumes "gates_to_agree sv gates c acked = Inr unacked"
  shows "set unacked = {g \<in> set gates. is_gate_applicable_to_cluster sv g c = Inr True \<and> vg_id g \<notin> set acked}"
proof -
  from assms obtain gas where
    gas: "rmap (\<lambda>g. rbind (is_gate_applicable_to_cluster sv g c) (\<lambda>a. Inr (g, a))) gates = Inr gas"
    and u: "unacked = filter (\<lambda>g. vg_id g \<notin> set acked) (map fst (filter snd gas))"
    by (auto simp: gates_to_agree_def rbind_Inr_iff)
  have "set gas = {(g, a). g \<in> set gates \<and> is_gate_applicable_to_cluster sv g c = Inr a}"
    using gas by (induction gates arbitrary: gas) (auto simp: rbind_Inr_iff)
  then show ?thesis by (force simp: u)
qed

lemma applicable_has_handler:
  "is_gate_applicable_to_cluster sv g c = Inr True \<Longrightarrow> dict_has gate_handlers (vg_label g)"
  by (auto simp: is_gate_applicable_to_cluster_def rbind_Inr_iff dict_has_def split: if_splits option.splits)

lemma process_gate_Inr:
  assumes "process_gate posts dry_run c enabled agreements g = Inr agreements'"
    and "dict_has gate_handlers (vg_label g)"
  shows "set agreements' = set agreements \<union>
    (if \<not> dry_run \<and> vg_label g \<in> set enabled then {(oc_id c, vg_id g)} else {})"
    "dry_run \<Longrightarrow> agreements' = agreements"
  using assms
  by (auto simp: process_gate_def rbind_Inr_iff create_version_agreement_def handle_gate_def of_opt_Inr split: if_splits)

lemma process_details_Inr:
  assumes "process_details sv posts gates dry_run agreements d = Inr agreements'"
  shows "set agreements' = set agreements \<union> (if dry_run then {} else to_approve sv gates d)"
proof -
  let ?enabled = "get_enabled_gate_handlers (cd_labels d)" and ?c = "cd_cluster d"
  from assms obtain unacked where
    u: "gates_to_agree sv gates ?c (agreed_gates agreements (oc_id ?c)) = Inr unacked"
    and r: "(if unacked = [] then Inr agreements
             else process_cluster posts dry_run ?c ?enabled unacked agreements) = Inr agreements'"
    by (auto simp: process_details_def rbind_Inr_iff)
  note unacked = gates_to_agree_Inr [OF u]
  from r have "rfold (process_gate posts dry_run ?c ?enabled) agreements unacked = Inr agreements'"
    by (auto simp: process_cluster_def split: if_splits)
  then have "set agreements' = set agreements \<union> (\<Union>g \<in> set unacked.
      if \<not> dry_run \<and> vg_label g \<in> set ?enabled then {(oc_id ?c, vg_id g)} else {})"
  proof (rule rfold_collect)
    fix acc g acc'
    assume "g \<in> set unacked" "process_gate posts dry_run ?c ?enabled acc g = Inr acc'"
    with unacked applicable_has_handler process_gate_Inr(1)
    show "set acc' = set acc \<union> (if \<not> dry_run \<and> vg_label g \<in> set ?enabled then {(oc_id ?c, vg_id g)} else {})"
      by blast
  qed
  moreover have "(oc_id ?c, i) \<in> set agreements \<longleftrightarrow> i \<in> set (agreed_gates agreements (oc_id ?c))" for i
    by (force simp: agreed_gates_def)
  ultimately show ?thesis
    using unacked by (auto simp: to_approve_def split: if_splits)
qed

text \<open>C30. The approver agrees to exactly the gates it may and must: after it has processed an organization,
  the agreements are the ones there were and, for every cluster, every gate that applies to the cluster and
  whose handler the labels of the cluster enable. A dry run agrees to nothing.\<close>
theorem approver_agrees_exactly:
  assumes "process_organization sv posts clusters gates dry_run agreements = Inr agreements'"
  shows "set agreements' = set agreements \<union> (if dry_run then {} else \<Union>d \<in> set clusters. to_approve sv gates d)"
proof -
  have "set agreements' = set agreements \<union> (\<Union>d \<in> set clusters. if dry_run then {} else to_approve sv gates d)"
    by (rule rfold_collect [OF assms [unfolded process_organization_def]]) (rule process_details_Inr)
  then show ?thesis by (cases dry_run) auto
qed

text \<open>The approver unblocks the scheduler. Once an organization has been processed, a cluster whose labels
  enable the handlers of all gates has no gate left to agree to, for any target version, and the scheduler
  no longer holds its upgrade back for one.\<close>
theorem approved_cluster_is_not_held_back:
  assumes "process_organization sv posts clusters gates False agreements = Inr agreements'"
    and "d \<in> set clusters" "\<And>g. g \<in> set gates \<Longrightarrow> vg_label g \<in> set (get_enabled_gate_handlers (cd_labels d))"
    and "gates_to_agree sv (gates_for_minor_version gates target) (cd_cluster d)
           (agreed_gates agreements' (oc_id (cd_cluster d))) = Inr missing"
  shows "missing = []"
proof -
  have "set agreements' = set agreements \<union> (\<Union>d \<in> set clusters. to_approve sv gates d)"
    by (rule rfold_collect [OF assms(1) [unfolded process_organization_def]]) (auto dest: process_details_Inr)
  then have sub: "to_approve sv gates d \<subseteq> set agreements'" using assms(2) by auto
  have "vg_id g \<in> set (agreed_gates agreements' (oc_id (cd_cluster d)))"
    if "g \<in> set gates" "is_gate_applicable_to_cluster sv g (cd_cluster d) = Inr True" for g
  proof -
    from that assms(3) sub have "(oc_id (cd_cluster d), vg_id g) \<in> set agreements'" by (auto simp: to_approve_def)
    then show ?thesis by (force simp: agreed_gates_def)
  qed
  then have "set missing = {}"
    unfolding gates_to_agree_Inr [OF assms(4)] by (auto simp: gates_for_minor_version_def)
  then show ?thesis by simp
qed

end
