(* ===== verification/Aus_Schedule_Examples.thy ===== *)
theory Aus_Schedule_Examples
  imports Aus_Examples Aus_Run Aus_Gates
begin

text \<open>
  The properties of the scheduler and of the gate approver, applied to the small organization of
  \<open>Aus_Examples\<close> with two more clusters, and a hypershift cluster that is scheduled twice.
\<close>

section \<open>An organization to schedule\<close>

definition demo_world :: "nat list upgrade_world" where
  "demo_world = \<lparr>uw_semver = demo_semver, uw_search = (\<lambda>_ _. False), uw_next_schedule = (\<lambda>_ t. Inr t),
     uw_iso_format = (\<lambda>_. ''soon''), uw_gates = [], uw_agreements = (\<lambda>_. Inr []), uw_channels = (\<lambda>_. None)\<rparr>"

definition demo_stage_spec :: cluster_upgrade_spec where
  "demo_stage_spec = \<lparr>us_org = demo_aus_org,
     us_cluster = (demo_cluster ''s'' ''4.12.2'')\<lparr>oc_available_upgrades := []\<rparr>, us_labels = Some [],
     us_policy = \<lparr>up_workloads = [''web''], up_schedule = ''* * * * *'', up_conditions =
       \<lparr>uc_mutexes = None, uc_soak_days = None, uc_sector = Some ''stage'', uc_blocked_versions = None\<rparr>, up_version_gate_approvals = None\<rparr>,
     us_health = [], us_node_pools = [], us_addon = None\<rparr>"

definition demo_free_spec :: cluster_upgrade_spec where
  "demo_free_spec = \<lparr>us_org = demo_aus_org, us_cluster = demo_cluster ''c'' ''4.12.1'', us_labels = Some [],
     us_policy = \<lparr>up_workloads = [''web''], up_schedule = ''* * * * *'', up_conditions =
       \<lparr>uc_mutexes = None, uc_soak_days = None, uc_sector = None, uc_blocked_versions = None\<rparr>, up_version_gate_approvals = None\<rparr>,
     us_health = [], us_node_pools = [], us_addon = None\<rparr>"

definition demo_scheduled_specs :: "cluster_upgrade_spec list" where
  "demo_scheduled_specs = demo_specs @ [demo_stage_spec, demo_free_spec]"

definition demo_scheduled_sectors :: "(string, sector) dict" where
  "demo_scheduled_sectors =
     [(''stage'', \<lparr>st_name = ''stage'', st_max_parallel = None, st_dependencies = [],
         st_specs = [(''s'', demo_stage_spec)]\<rparr>),
      (''prod'', \<lparr>st_name = ''prod'', st_max_parallel = Some ''2'', st_dependencies = [''stage''],
         st_specs = [(''a'', demo_spec ''a'' ''4.12.1''), (''b'', demo_spec ''b'' ''4.12.1'')]\<rparr>)]"

definition demo_scheduled_org :: org_upgrade_spec where
  "demo_scheduled_org = \<lparr>ous_org = demo_aus_org, ous_specs = demo_scheduled_specs, ous_cluster_errors = [],
     ous_org_errors = [], ous_sectors = demo_scheduled_sectors\<rparr>"

definition demo_upgrade :: "string \<Rightarrow> string \<Rightarrow> policy_handler" where
  "demo_upgrade n v = \<lparr>ph_action = ''create'', ph_policy = \<lparr>pl_kind = ClusterPolicy ''o1'' [],
     pl_cluster = demo_cluster n ''4.12.1'', pl_id = None, pl_next_run = Some ''soon'',
     pl_schedule_type = ''manual'', pl_version = v, pl_state = None\<rparr>\<rparr>"

definition demo_diff :: diff_state where
  "demo_diff = \<lparr>ds_locked = [(''m1'', ''id-b''), (''id-a'', ''id-a''), (''id-b'', ''id-b''), (''id-c'', ''id-c'')],
     ds_sector_mutex = [((''prod'', ''m1''), [''id-a'', ''id-b'']), ((''prod'', ''id-a''), [''id-a'']),
       ((''prod'', ''id-b''), [''id-b''])],
     ds_channels = [(''4.12.2'', [])],
     ds_diffs = [demo_upgrade ''a'' ''4.12.2'', demo_upgrade ''b'' ''4.12.2'', demo_upgrade ''c'' ''4.12.3''],
     ds_switches = []\<rparr>"

lemma demo_calculate: "calculate_diff demo_world [] demo_scheduled_org demo_aggregated [] demo_now = Inr demo_diff"
  by code_simp


lemma demo_ids: "distinct (map (\<lambda>s. oc_id (us_cluster s)) (ous_specs demo_scheduled_org))"
  by code_simp

section \<open>Conditions\<close>

lemma demo_prints: "semver_prints demo_semver"
  by (simp add: semver_prints_def demo_semver_def)

theorem upgradeable_version_highest_witness:
  "\<exists>upgrades. get_available_upgrades demo_semver (demo_spec ''a'' ''4.12.1'') = Inr upgrades \<and>
    ''4.12.2'' \<in> set upgrades \<and>
    version_conditions_met demo_semver demo_scheduled_sectors ''4.12.2'' demo_aggregated
      (us_policy (demo_spec ''a'' ''4.12.1'')) (Some ''prod'') = Inr True \<and>
    (\<forall>u \<in> set upgrades. the (sv_key demo_semver ''4.12.2'') < the (sv_key demo_semver u) \<longrightarrow>
       version_blocked (uw_search demo_world) (demo_spec ''a'' ''4.12.1'') u \<or>
       version_conditions_met demo_semver demo_scheduled_sectors u demo_aggregated
         (us_policy (demo_spec ''a'' ''4.12.1'')) (Some ''prod'') = Inr False)"
proof -
  have r: "upgradeable_version demo_world demo_scheduled_sectors (demo_spec ''a'' ''4.12.1'') demo_aggregated
      (Some ''prod'') = Inr (Some ''4.12.2'')" by code_simp
  have w: "uw_semver demo_world = demo_semver" by (simp add: demo_world_def)
  from upgradeable_version_highest [OF r] demo_prints show ?thesis by (auto simp: w)
qed


theorem sector_search_terminates_witness:
  "workload_sector_dependencies demo_semver demo_aus_sectors ''web'' (length demo_aus_sectors) ''prod'' =
       Inl ''ValueError'' \<or>
    (\<exists>deps. workload_sector_dependencies demo_semver demo_aus_sectors ''web'' (length demo_aus_sectors) ''prod'' = Inr deps \<and>
       set deps = {d. guards demo_aus_sectors ''web'' ''prod'' d})"
proof (rule sector_search_terminates)
  have edges: "depends_on (sector_deps demo_aus_sectors) = {(''prod'', ''stage'')}"
    by (auto simp: depends_on_def sector_deps_def demo_aus_sectors_def split: if_splits)
  show "acyclic (depends_on (sector_deps demo_aus_sectors))"
    unfolding edges by (rule acyclicI) (auto elim: tranclE dest: trancl.intros)
  show "set (sector_deps demo_aus_sectors n) \<subseteq> fst ` set demo_aus_sectors" for n
    by (auto simp: sector_deps_def demo_aus_sectors_def)
  show "''prod'' \<in> fst ` set demo_aus_sectors" by (simp add: demo_aus_sectors_def)
qed

section \<open>The difference\<close>

theorem every_upgrade_is_justified_witness:
  "\<exists>spec \<in> set (ous_specs demo_scheduled_org). justified demo_world (ous_sectors demo_scheduled_org) [] demo_aggregated []
     demo_now spec (demo_upgrade ''a'' ''4.12.2'')"
  by (rule every_upgrade_is_justified [OF demo_calculate]) (simp add: demo_diff_def)

theorem upgrades_exclude_each_other_witness:
  "set (effective_mutexes (demo_spec ''a'' ''4.12.1'')) \<inter> set (effective_mutexes demo_free_spec) = {}"
proof (rule upgrades_exclude_each_other [OF demo_calculate demo_ids])
  show "ds_diffs demo_diff = [demo_upgrade ''a'' ''4.12.2'', demo_upgrade ''b'' ''4.12.2''] @ demo_upgrade ''c'' ''4.12.3'' # []"
    by (simp add: demo_diff_def)
  show "pl_cluster (ph_policy (demo_upgrade ''c'' ''4.12.3'')) = us_cluster demo_free_spec"
    by (simp add: demo_upgrade_def demo_free_spec_def)
  show "unlimited (ous_sectors demo_scheduled_org) demo_free_spec"
    by (simp add: unlimited_def sector_of_def demo_free_spec_def truthy_str_def)
  show "demo_spec ''a'' ''4.12.1'' \<in> set (ous_specs demo_scheduled_org)" "demo_free_spec \<in> set (ous_specs demo_scheduled_org)"
    by (simp_all add: demo_scheduled_org_def demo_scheduled_specs_def demo_specs_def)
  show "has_policy [] (demo_spec ''a'' ''4.12.1'') \<or>
      handled_by [demo_upgrade ''a'' ''4.12.2'', demo_upgrade ''b'' ''4.12.2''] (demo_spec ''a'' ''4.12.1'')"
    by (simp add: handled_by_def demo_upgrade_def demo_spec_def)
qed


definition demo_act_env :: act_env where
  "demo_act_env = \<lparr>ae_responds = (\<lambda>_. False), ae_upgrade_roles = False, ae_soonest_next_run = ''now''\<rparr>"


theorem run_writes_only_processed_orgs_witness:
  "rs_versions (fst (run_scheduler (process_cluster_upgrades
       \<lparr>re_world = demo_world, re_source = \<lparr>ps_addon = \<lambda>_ _. [], ps_control_plane = \<lambda>_. [], ps_node_pool = \<lambda>_ _. [],
          ps_cluster = \<lambda>_. []\<rparr>, re_act = demo_act_env, re_from_iso = \<lambda>_. 0\<rparr> False demo_now)
       (\<lambda>_ _. True) [(''env'', Inr [(''org'', demo_scheduled_org)])]
       \<lparr>rs_versions = demo_version_state, rs_calls = []\<rparr>)) ''env/o2'' = demo_version_state ''env/o2''"
proof -
  have "''env/o2'' \<noteq> version_data_state_key (og_env (ous_org o')) (og_org_id (ous_org o')) []"
    if "o' \<in> orgs_of_run [(''env'', Inr [(''org'', demo_scheduled_org)])]" for o'
    using that by (simp add: orgs_of_run_def demo_scheduled_org_def demo_aus_org_def version_data_state_key_def)
  then show ?thesis by (subst run_writes_only_processed_orgs) auto
qed

section \<open>A policy that is created twice\<close>

text \<open>A hypershift cluster whose node pool is behind, in a sector that allows two parallel upgrades. OCM already
  has the policy that upgrades the node pool; the scheduler does not look at the existing policies before it
  decides on node pools, only at the locks, and in a sector with a limit the cluster's own upgrade does not
  reach the limit.\<close>

definition demo_pool_spec :: cluster_upgrade_spec where
  "demo_pool_spec = (demo_spec ''a'' ''4.12.1'')\<lparr>
     us_cluster := (demo_cluster ''a'' ''4.12.1'')\<lparr>oc_product := ''rosa'', oc_hypershift := True\<rparr>,
     us_node_pools := [\<lparr>np_id = ''pool'', np_version = ''4.11.9''\<rparr>]\<rparr>"

definition demo_pool_policy :: "string option \<Rightarrow> string option \<Rightarrow> upgrade_policy" where
  "demo_pool_policy i state = \<lparr>pl_kind = NodePoolPolicy ''pool'', pl_cluster = us_cluster demo_pool_spec, pl_id = i,
     pl_next_run = Some ''soon'', pl_schedule_type = ''manual'', pl_version = ''4.12.1'', pl_state = state\<rparr>"

definition demo_pool_org :: org_upgrade_spec where
  "demo_pool_org = \<lparr>ous_org = demo_aus_org, ous_specs = [demo_pool_spec], ous_cluster_errors = [],
     ous_org_errors = [], ous_sectors = [(''stage'', \<lparr>st_name = ''stage'', st_max_parallel = None, st_dependencies = [],
         st_specs = []\<rparr>), (''prod'', \<lparr>st_name = ''prod'', st_max_parallel = Some ''2'', st_dependencies = [''stage''],
         st_specs = [(''a'', demo_pool_spec)]\<rparr>)]\<rparr>"

definition demo_existing :: upgrade_policy where
  "demo_existing = demo_pool_policy (Some ''p1'') (Some ''scheduled'')"

definition demo_doubled :: policy_handler where
  "demo_doubled = \<lparr>ph_action = ''create'', ph_policy = demo_pool_policy None None\<rparr>"

definition demo_pool_diff :: diff_state where
  "demo_pool_diff = \<lparr>ds_locked = [(''m1'', ''id-a''), (''id-a'', ''id-a'')],
     ds_sector_mutex = [((''prod'', ''m1''), [''id-a'']), ((''prod'', ''id-a''), [''id-a''])], ds_channels = [],
     ds_diffs = [demo_doubled], ds_switches = []\<rparr>"

lemma node_pool_policy_doubled:
  "calculate_diff demo_world [demo_existing] demo_pool_org demo_aggregated [] demo_now = Inr demo_pool_diff"
  by code_simp

theorem no_second_policy_witness:
  "\<not> unlimited (ous_sectors demo_pool_org) demo_pool_spec \<and> (\<exists>pool. pl_kind (ph_policy demo_doubled) = NodePoolPolicy pool)"
proof (rule no_second_policy [OF node_pool_policy_doubled])
  show "distinct (map (\<lambda>s. oc_id (us_cluster s)) (ous_specs demo_pool_org))" by (simp add: demo_pool_org_def)
  show "demo_doubled \<in> set (ds_diffs demo_pool_diff)" by (simp add: demo_pool_diff_def)
  show "demo_pool_spec \<in> set (ous_specs demo_pool_org)" by (simp add: demo_pool_org_def)
  show "pl_cluster (ph_policy demo_doubled) = us_cluster demo_pool_spec"
    by (simp add: demo_doubled_def demo_pool_policy_def)
  show "has_policy [demo_existing] demo_pool_spec"
    by (simp add: has_policy_def demo_existing_def demo_pool_policy_def)
qed

section \<open>Version gates\<close>

definition demo_gate :: version_gate where
  "demo_gate = \<lparr>vg_id = ''g1'', vg_version_raw_id_prefix = ''4.13'', vg_label = ''api.openshift.com/gate-ocp''\<rparr>"

definition demo_gate_cluster :: cluster_details where
  "demo_gate_cluster = \<lparr>cd_cluster = (demo_cluster ''a'' ''4.12.1'')\<lparr>oc_available_upgrades := [''4.13.0'']\<rparr>,
     cd_organization_id = ''o1'', cd_subscription_labels = [], cd_organization_labels = []\<rparr>"

lemma demo_gates_processed:
  "process_organization demo_semver (\<lambda>_ _. True) [demo_gate_cluster] [demo_gate] False [] = Inr [(''id-a'', ''g1'')]"
  by code_simp

theorem approver_agrees_exactly_witness:
  "set [(''id-a'', ''g1'')] = set [] \<union>
     (if False then {} else \<Union>d \<in> set [demo_gate_cluster]. to_approve demo_semver [demo_gate] d)"
  by (rule approver_agrees_exactly [OF demo_gates_processed])

theorem approved_cluster_is_not_held_back_witness:
  "gates_to_agree demo_semver (gates_for_minor_version [demo_gate] ''4.13'') (cd_cluster demo_gate_cluster)
     (agreed_gates [(''id-a'', ''g1'')] (oc_id (cd_cluster demo_gate_cluster))) = Inr []"
proof -
  obtain missing where missing: "gates_to_agree demo_semver (gates_for_minor_version [demo_gate] ''4.13'')
      (cd_cluster demo_gate_cluster) (agreed_gates [(''id-a'', ''g1'')] (oc_id (cd_cluster demo_gate_cluster))) = Inr missing"
    by (rule that [of "[]"]) code_simp
  have "missing = []"
  proof (rule approved_cluster_is_not_held_back [OF demo_gates_processed _ _ missing])
    show "demo_gate_cluster \<in> set [demo_gate_cluster]" by simp
    show "vg_label g \<in> set (get_enabled_gate_handlers (cd_labels demo_gate_cluster))" if "g \<in> set [demo_gate]" for g
      using that by (simp add: demo_gate_def demo_gate_cluster_def get_enabled_gate_handlers_def truthy_str_def
          cd_labels_def build_label_container_def dict_of_def dict_update_def)
  qed
  with missing show ?thesis by simp
qed

end
