(* ===== verification/Aus_Org_Labels.thy ===== *)
theory Aus_Org_Labels
  imports Aus_Labels
begin

text \<open>
  The settings of an organization as labels: \<open>AUSOrganizationLabelSource\<close> of
  \<open>reconcile/aus/aus_label_source.py\<close> writes its blocked versions, sectors and the sharing of version
  data; \<open>OrganizationLabelSet\<close> and the version data network of
  \<open>reconcile/aus/advanced_upgrade_service.py\<close> read them.
\<close>

section \<open>Writing\<close>

definition sector_max_key :: "string \<Rightarrow> string" where
  "sector_max_key name = aus_label_key (''sector-max-parallel-upgrades.'' @ name)"

definition sector_deps_key :: "string \<Rightarrow> string" where
  "sector_deps_key name = aus_label_key (''sector-deps.'' @ name)"

definition sector_labels :: "labels \<Rightarrow> sector_v1 \<Rightarrow> labels" where
  "sector_labels labels s =
     (let labels = (case truthy_str (sec_max_parallel_upgrades s) of
                      None \<Rightarrow> labels
                    | Some m \<Rightarrow> dict_set labels (sector_max_key (sec_name s)) m)
      in case sec_dependencies s of
           None \<Rightarrow> labels
         | Some ds \<Rightarrow> dict_set labels (sector_deps_key (sec_name s)) (join '','' (sort ds)))"

definition csv_label :: "labels \<Rightarrow> string \<Rightarrow> string list \<Rightarrow> labels" where
  "csv_label labels atom xs = (if xs = [] then labels else dict_set labels (aus_label_key atom) (join '','' xs))"

definition organization_to_labels :: "aus_org \<Rightarrow> labels" where
  \<comment> \<open>\<open>AUSOrganizationLabelSource._organization_to_labels\<close>\<close>
  "organization_to_labels org =
     (let labels = csv_label [] ''blocked-versions'' (opt_list (og_blocked_versions org));
          labels = foldl sector_labels labels (opt_list (og_sectors org));
          labels = csv_label labels ''version-data.inherit''
                     (sort (map mo_org_id (opt_list (og_inherit_version_data org))))
      in csv_label labels ''version-data.publish'' (sort (opt_list (og_publish_version_data org))))"

section \<open>Reading\<close>

record org_label_set =
  ols_blocked_versions :: "string list option"
  ols_sector_max_parallel :: labels
  ols_sector_deps :: "(string, string list) dict"

definition build_org_label_set :: "labels \<Rightarrow> org_label_set" where
  \<comment> \<open>\<open>build_labelset(org_labels, OrganizationLabelSet)\<close>\<close>
  "build_org_label_set labels =
     \<lparr>ols_blocked_versions = csv_opt (dict_get labels (aus_label_key ''blocked-versions'')),
      ols_sector_max_parallel =
        build_container_for_prefix labels (aus_label_key ''sector-max-parallel-upgrades.'') True,
      ols_sector_deps = map (\<lambda>(s, v). (s, csv_validate (Some v)))
        (build_container_for_prefix labels (aus_label_key ''sector-deps.'') True)\<rparr>"

definition sector_dependencies :: "org_label_set \<Rightarrow> sector_v1 list" where
  "sector_dependencies ls =
     (let all_sectors = foldl (\<lambda>acc (s, deps). add_all (add_if_absent acc s) deps) [] (ols_sector_deps ls)
      in map (\<lambda>s. \<lparr>sec_name = s, sec_max_parallel_upgrades = dict_get (ols_sector_max_parallel ls) s,
                   sec_dependencies = Some (get_or (ols_sector_deps ls) s [])\<rparr>) all_sectors)"

section \<open>Sharing version data\<close>

record org_ref =
  rf_org_id :: string
  rf_env_name :: string

record version_data_labels =
  vdl_inherit :: "string list option"
  vdl_publish :: "string list option"

record version_data_inheritance =
  vdi_org_id :: string
  vdi_from :: "org_ref list"
  vdi_unverified :: "org_ref list"

definition build_version_data_labels :: "labels \<Rightarrow> version_data_labels" where
  "build_version_data_labels labels =
     \<lparr>vdl_inherit = csv_opt (dict_get labels (aus_label_key ''version-data.inherit'')),
      vdl_publish = csv_opt (dict_get labels (aus_label_key ''version-data.publish''))\<rparr>"

definition publishes_to :: "(org_ref, version_data_labels) dict \<Rightarrow> string \<Rightarrow> org_ref \<Rightarrow> bool" where
  "publishes_to label_sets org_id source =
     (case dict_get label_sets source of
        None \<Rightarrow> False | Some ls \<Rightarrow> org_id \<in> set (opt_list (vdl_publish ls)))"

definition build_version_data_inheritance ::
  "org_ref \<Rightarrow> version_data_labels \<Rightarrow> (string, org_ref) dict \<Rightarrow> (org_ref, version_data_labels) dict \<Rightarrow>
   version_data_inheritance" where
  "build_version_data_inheritance org_ref ls lookup label_sets =
     (let requested = add_all [] (opt_list (vdl_inherit ls));
          verified = filter (\<lambda>i. case dict_get lookup i of
                               None \<Rightarrow> False | Some source \<Rightarrow> publishes_to label_sets (rf_org_id org_ref) source) requested;
          unverified = filter (\<lambda>i. i \<notin> set verified) requested
      in \<lparr>vdi_org_id = rf_org_id org_ref,
          vdi_from = map (\<lambda>i. case dict_get lookup i of None \<Rightarrow> \<lparr>rf_org_id = i, rf_env_name = []\<rparr> | Some r \<Rightarrow> r) verified,
          vdi_unverified = map (\<lambda>i. case dict_get lookup i of
              None \<Rightarrow> \<lparr>rf_org_id = i, rf_env_name = ''unknown''\<rparr> | Some r \<Rightarrow> r) unverified\<rparr>)"

definition build_version_data_inheritance_network ::
  "(org_ref, labels) dict \<Rightarrow> (org_ref, version_data_inheritance) dict" where
  "build_version_data_inheritance_network labels_per_org =
     (let label_sets = map (\<lambda>(r, ls). (r, build_version_data_labels ls)) labels_per_org;
          lookup = dict_of (map (\<lambda>(r, _). (rf_org_id r, r)) labels_per_org)
      in map (\<lambda>(r, ls). (r, build_version_data_inheritance r ls lookup label_sets))
           (filter (\<lambda>(r, ls). opt_list (vdl_inherit ls) \<noteq> []) label_sets))"

section \<open>Sectors that are read back\<close>

lemma aus_label_key_append: "aus_label_key (a @ b) = aus_label_key a @ b"
  by (simp add: aus_label_key_def sre_capability_label_key_def)

lemma sector_keys_alt:
  "sector_deps_key n = aus_label_key ''sector-deps.'' @ n"
  "sector_max_key n = aus_label_key ''sector-max-parallel-upgrades.'' @ n"
  by (simp_all only: sector_deps_key_def sector_max_key_def aus_label_key_append)

lemma sector_keys [simp]:
  "sector_deps_key a = sector_deps_key b \<longleftrightarrow> a = b" "sector_max_key a = sector_max_key b \<longleftrightarrow> a = b"
  "sector_deps_key a \<noteq> sector_max_key b" "sector_max_key b \<noteq> sector_deps_key a"
  by (simp_all add: sector_deps_key_def sector_max_key_def)

lemma other_keys [simp]:
  "sector_deps_key n \<noteq> aus_label_key ''blocked-versions''" "sector_max_key n \<noteq> aus_label_key ''blocked-versions''"
  "sector_deps_key n \<noteq> aus_label_key ''version-data.inherit''" "sector_max_key n \<noteq> aus_label_key ''version-data.inherit''"
  "sector_deps_key n \<noteq> aus_label_key ''version-data.publish''" "sector_max_key n \<noteq> aus_label_key ''version-data.publish''"
  by (simp_all add: sector_deps_key_def sector_max_key_def)

lemmas other_keys_sym [simp] = other_keys [THEN not_sym]

lemma strip_prefix_lookup:
  "(\<And>k v. (k, v) \<in> set ps \<Longrightarrow> prefix p k) \<Longrightarrow> map_of (map (\<lambda>(k, v). (drop (length p) k, v)) ps) n = map_of ps (p @ n)"
  by (induction ps) (force simp: prefix_def)+

lemma strip_prefix_inj: "prefix p k \<Longrightarrow> prefix p k' \<Longrightarrow> drop (length p) k = drop (length p) k' \<longleftrightarrow> k = k'"
  by (auto simp: prefix_def)

lemma container_lookup:
  assumes "wf_dict c"
  shows "dict_get (build_container_for_prefix c p True) n = dict_get c (p @ n)"
proof -
  define ps where "ps = filter (\<lambda>(k, v). prefix p k) c"
  have ps: "wf_dict ps" "\<And>k v. (k, v) \<in> set ps \<Longrightarrow> prefix p k"
    using assms by (auto simp: ps_def distinct_map_filter)
  have "inj_on (drop (length p)) (fst ` set ps)"
  proof (rule inj_onI)
    fix k k' assume k: "k \<in> fst ` set ps" "k' \<in> fst ` set ps" "drop (length p) k = drop (length p) k'"
    then have "prefix p k" "prefix p k'" by (auto dest: ps(2))
    with k(3) show "k = k'" by (simp add: strip_prefix_inj)
  qed
  with ps(1) have "distinct (map (drop (length p)) (map fst ps))"
    by (simp only: distinct_map [of "drop (length p)"] set_map simp_thms)
  then have "wf_dict (map (\<lambda>(k, v). (drop (length p) k, v)) ps)"
    by (simp add: o_def case_prod_beta)
  then have "dict_get (build_container_for_prefix c p True) n = map_of (map (\<lambda>(k, v). (drop (length p) k, v)) ps) n"
    unfolding build_container_for_prefix_def ps_def [symmetric]
    by (simp add: map_of_dict_of_distinct)
  also have "\<dots> = map_of ps (p @ n)"
    using ps(2) by (rule strip_prefix_lookup)
  also have "\<dots> = map_of c (p @ n)"
    unfolding ps_def by (simp add: map_of_filter_keys)
  finally show ?thesis .
qed

definition declared_sector :: "sector_v1 list \<Rightarrow> string \<Rightarrow> sector_v1 option" where
  "declared_sector sectors n = find (\<lambda>s. sec_name s = n) sectors"

lemma declared_sector_Some: "declared_sector ss n = Some s \<Longrightarrow> s \<in> set ss \<and> sec_name s = n"
  by (auto simp: declared_sector_def find_Some_iff)

lemma declared_sector_None: "n \<notin> sec_name ` set ss \<Longrightarrow> declared_sector ss n = None"
  by (auto simp: declared_sector_def find_None_iff)

lemma wf_sector_labels: "wf_dict l \<Longrightarrow> wf_dict (foldl sector_labels l ss)"
  by (induction ss arbitrary: l) (auto simp: sector_labels_def Let_def intro!: wf_dict_set split: option.splits)

lemma wf_csv_label: "wf_dict l \<Longrightarrow> wf_dict (csv_label l a xs)"
  by (simp add: csv_label_def wf_dict_set)

lemma wf_organization_to_labels: "wf_dict (organization_to_labels org)"
  by (simp add: organization_to_labels_def Let_def wf_csv_label wf_sector_labels)

lemma csv_label_lookup:
  "dict_get (csv_label l a xs) (aus_label_key b) =
     (if a = b \<and> xs \<noteq> [] then Some (join '','' xs) else dict_get l (aus_label_key b))"
  by (simp add: csv_label_def map_of_dict_set)

lemma csv_label_sector_keys [simp]:
  "dict_get (csv_label l ''version-data.inherit'' xs) (sector_deps_key n) = dict_get l (sector_deps_key n)"
  "dict_get (csv_label l ''version-data.inherit'' xs) (sector_max_key n) = dict_get l (sector_max_key n)"
  "dict_get (csv_label l ''version-data.publish'' xs) (sector_deps_key n) = dict_get l (sector_deps_key n)"
  "dict_get (csv_label l ''version-data.publish'' xs) (sector_max_key n) = dict_get l (sector_max_key n)"
  "dict_get (csv_label l ''blocked-versions'' xs) (sector_deps_key n) = dict_get l (sector_deps_key n)"
  "dict_get (csv_label l ''blocked-versions'' xs) (sector_max_key n) = dict_get l (sector_max_key n)"
  by (simp_all add: csv_label_def map_of_dict_set)

lemma sector_labels_lookup:
  assumes "distinct (map sec_name ss)"
  shows "dict_get (foldl sector_labels l ss) (sector_deps_key n) =
      (case Option.bind (declared_sector ss n) sec_dependencies of
         None \<Rightarrow> dict_get l (sector_deps_key n) | Some ds \<Rightarrow> Some (join '','' (sort ds)))"
    and "dict_get (foldl sector_labels l ss) (sector_max_key n) =
      (case Option.bind (declared_sector ss n) (\<lambda>s. truthy_str (sec_max_parallel_upgrades s)) of
         None \<Rightarrow> dict_get l (sector_max_key n) | Some m \<Rightarrow> Some m)"
  using assms
proof (induction ss arbitrary: l)
  case (Cons s ss)
  { case 1 then show ?case using Cons.IH(1) [of "sector_labels l s"] declared_sector_None [of n ss]
      by (auto simp: sector_labels_def Let_def map_of_dict_set declared_sector_def split: option.splits) }
  { case 2 then show ?case using Cons.IH(2) [of "sector_labels l s"] declared_sector_None [of n ss]
      by (auto simp: sector_labels_def Let_def map_of_dict_set declared_sector_def split: option.splits) }
qed (simp_all add: declared_sector_def)

lemma organization_labels_lookup:
  assumes "distinct (map sec_name (opt_list (og_sectors org)))"
  shows "dict_get (organization_to_labels org) (sector_deps_key n) =
      map_option (\<lambda>ds. join '','' (sort ds)) (Option.bind (declared_sector (opt_list (og_sectors org)) n) sec_dependencies)"
    and "dict_get (organization_to_labels org) (sector_max_key n) =
      Option.bind (declared_sector (opt_list (og_sectors org)) n) (\<lambda>s. truthy_str (sec_max_parallel_upgrades s))"
    and "dict_get (organization_to_labels org) (aus_label_key ''blocked-versions'') =
      csv_or_none (og_blocked_versions org)"
proof -
  have blocked: "dict_get (foldl sector_labels l ss) (aus_label_key ''blocked-versions'') =
      dict_get l (aus_label_key ''blocked-versions'')" for l ss
    by (induction ss arbitrary: l) (auto simp: sector_labels_def Let_def map_of_dict_set split: option.splits)
  show "dict_get (organization_to_labels org) (sector_deps_key n) =
      map_option (\<lambda>ds. join '','' (sort ds)) (Option.bind (declared_sector (opt_list (og_sectors org)) n) sec_dependencies)"
    "dict_get (organization_to_labels org) (sector_max_key n) =
      Option.bind (declared_sector (opt_list (og_sectors org)) n) (\<lambda>s. truthy_str (sec_max_parallel_upgrades s))"
    "dict_get (organization_to_labels org) (aus_label_key ''blocked-versions'') = csv_or_none (og_blocked_versions org)"
    by (simp_all add: organization_to_labels_def Let_def csv_label_lookup sector_labels_lookup [OF assms] blocked
        csv_or_none_def split: option.splits)
qed

lemma deps_read_back:
  assumes "distinct (map sec_name (opt_list (og_sectors org)))"
    and "\<And>s. s \<in> set (opt_list (og_sectors org)) \<Longrightarrow> csv_safe (opt_list (sec_dependencies s))"
  shows "dict_get (ols_sector_deps (build_org_label_set (organization_to_labels org))) n =
      map_option sort (Option.bind (declared_sector (opt_list (og_sectors org)) n) sec_dependencies)"
proof -
  let ?d = "Option.bind (declared_sector (opt_list (og_sectors org)) n) sec_dependencies"
  have "csv_safe ds" if "?d = Some ds" for ds
    using that assms(2) declared_sector_Some by (fastforce split: bind_splits)
  then show ?thesis
    by (cases ?d) (simp_all add: build_org_label_set_def map_of_map case_prod_beta
        container_lookup [OF wf_organization_to_labels] sector_keys_alt [symmetric]
        organization_labels_lookup [OF assms(1)] csv_safe_sort)
qed

lemma max_read_back:
  assumes "distinct (map sec_name (opt_list (og_sectors org)))"
  shows "dict_get (ols_sector_max_parallel (build_org_label_set (organization_to_labels org))) n =
      Option.bind (declared_sector (opt_list (og_sectors org)) n) (\<lambda>s. truthy_str (sec_max_parallel_upgrades s))"
  by (simp add: build_org_label_set_def container_lookup [OF wf_organization_to_labels] sector_keys_alt [symmetric]
      organization_labels_lookup [OF assms])

lemma set_add_if_absent: "set (add_if_absent xs x) = insert x (set xs)"
  by (auto simp: add_if_absent_def)

lemma set_all_sectors:
  "set (foldl (\<lambda>acc (s, deps). add_all (add_if_absent acc s) deps) acc d) =
     set acc \<union> fst ` set d \<union> (\<Union>(s, deps) \<in> set d. set deps)"
  by (induction d arbitrary: acc) (auto simp: set_add_if_absent)

definition linked_sectors :: "sector_v1 list \<Rightarrow> string set" where
  \<comment> \<open>the sectors that set dependencies, or are one\<close>
  "linked_sectors ss = {n. \<exists>s \<in> set ss. \<exists>ds. sec_dependencies s = Some ds \<and> (n = sec_name s \<or> n \<in> set ds)}"

definition sector_as_read :: "sector_v1 list \<Rightarrow> string \<Rightarrow> sector_v1" where
  "sector_as_read ss n = \<lparr>sec_name = n,
     sec_max_parallel_upgrades = Option.bind (declared_sector ss n) (\<lambda>s. truthy_str (sec_max_parallel_upgrades s)),
     sec_dependencies = Some (sort (opt_list (Option.bind (declared_sector ss n) sec_dependencies)))\<rparr>"

text \<open>The sectors of an organization survive their labels up to one difference: read back are exactly the
  sectors that set dependencies or are a dependency, each with its limit and its dependencies. A sector that
  sets only a limit and that no other one depends on is not among them.\<close>
theorem org_sectors_read_back:
  assumes "distinct (map sec_name (opt_list (og_sectors org)))"
    and "\<And>s. s \<in> set (opt_list (og_sectors org)) \<Longrightarrow> csv_safe (opt_list (sec_dependencies s))"
  shows "set (sector_dependencies (build_org_label_set (organization_to_labels org))) =
    sector_as_read (opt_list (og_sectors org)) ` linked_sectors (opt_list (og_sectors org))"
proof -
  let ?ss = "opt_list (og_sectors org)" and ?ls = "build_org_label_set (organization_to_labels org)"
  let ?deps = "ols_sector_deps ?ls"
  have wf: "wf_dict ?deps"
    using wf_dict_of by (simp add: build_org_label_set_def build_container_for_prefix_def o_def case_prod_beta)
  have elem: "(n, ds) \<in> set ?deps \<longleftrightarrow>
      (\<exists>s es. declared_sector ?ss n = Some s \<and> sec_dependencies s = Some es \<and> ds = sort es)" for n ds
    by (simp add: map_of_eq_Some_iff [OF wf, symmetric] deps_read_back [OF assms])
      (auto split: bind_splits)
  have declared: "declared_sector ?ss n = Some s \<longleftrightarrow> s \<in> set ?ss \<and> sec_name s = n" for n s
  proof
    assume s: "s \<in> set ?ss \<and> sec_name s = n"
    then obtain t where t: "declared_sector ?ss n = Some t"
      by (cases "declared_sector ?ss n") (auto simp: declared_sector_def find_None_iff)
    then have "t \<in> set ?ss" "sec_name t = n" by (auto simp: declared_sector_def find_Some_iff)
    with s assms(1) have "t = s" by (auto simp: distinct_map dest: inj_onD)
    with t show "declared_sector ?ss n = Some s" by simp
  qed (auto simp: declared_sector_def find_Some_iff)
  have "fst ` set ?deps \<union> (\<Union>(s, deps) \<in> set ?deps. set deps) = linked_sectors ?ss"
    by (auto simp: linked_sectors_def elem declared image_iff Bex_def) (metis set_sort)+
  moreover have "get_or ?deps n [] = sort (opt_list (Option.bind (declared_sector ?ss n) sec_dependencies))" for n
    by (simp add: get_or_def deps_read_back [OF assms] split: option.splits)
  ultimately show ?thesis
    by (simp add: sector_dependencies_def Let_def set_all_sectors max_read_back [OF assms(1)] sector_as_read_def
        image_image [symmetric])
qed

section \<open>Inheritance takes two\<close>

definition requested_sources :: "labels \<Rightarrow> string set" where
  "requested_sources labels = set (opt_list (vdl_inherit (build_version_data_labels labels)))"

definition offered_to :: "labels \<Rightarrow> string set" where
  "offered_to labels = set (opt_list (vdl_publish (build_version_data_labels labels)))"

lemma network_lookup:
  assumes "distinct (map (\<lambda>p. rf_org_id (fst p)) labels_per_org)"
  shows "dict_get (dict_of (map (\<lambda>(r, _). (rf_org_id r, r)) labels_per_org)) i = Some r \<longleftrightarrow>
    (\<exists>ls. (r, ls) \<in> set labels_per_org) \<and> rf_org_id r = i"
proof -
  let ?ps = "map (\<lambda>(r, _). (rf_org_id r, r)) labels_per_org"
  have wf: "wf_dict ?ps" using assms by (simp add: o_def case_prod_beta)
  show ?thesis by (auto simp: map_of_dict_of_distinct [OF wf] map_of_eq_Some_iff [OF wf])
qed

text \<open>Version data is inherited only where both sides agree. An organization of the network inherits from
  exactly the organizations that it names and that publish to it; those it names and that do not are exactly
  the unverified ones.\<close>
theorem inheritance_needs_both_sides:
  assumes "dict_get (build_version_data_inheritance_network labels_per_org) org = Some v"
    and "distinct (map (\<lambda>p. rf_org_id (fst p)) labels_per_org)" "(org, labels) \<in> set labels_per_org"
  shows "set (vdi_from v) = {r. \<exists>ls. (r, ls) \<in> set labels_per_org \<and> rf_org_id r \<in> requested_sources labels \<and>
        rf_org_id org \<in> offered_to ls} \<and>
    rf_org_id ` set (vdi_unverified v) = {i \<in> requested_sources labels.
        \<nexists>r ls. (r, ls) \<in> set labels_per_org \<and> rf_org_id r = i \<and> rf_org_id org \<in> offered_to ls}"
proof -
  let ?sets = "map (\<lambda>(r, ls). (r, build_version_data_labels ls)) labels_per_org"
  let ?lookup = "dict_of (map (\<lambda>(r, _). (rf_org_id r, r)) labels_per_org)"
  let ?mk = "\<lambda>i. case dict_get ?lookup i of None \<Rightarrow> \<lparr>rf_org_id = i, rf_env_name = []\<rparr> | Some r \<Rightarrow> r"
  note lookup = network_lookup [OF assms(2)]
  have wf: "wf_dict labels_per_org"
    using assms(2) by (auto simp: distinct_map inj_on_def case_prod_beta)
  then have get: "dict_get labels_per_org r = Some ls \<longleftrightarrow> (r, ls) \<in> set labels_per_org" for r ls
    by (simp add: map_of_eq_Some_iff)
  have sets: "dict_get ?sets r = map_option build_version_data_labels (dict_get labels_per_org r)" for r
    by (simp add: map_of_map)
  have publishes: "publishes_to ?sets i r \<longleftrightarrow> (\<exists>ls. (r, ls) \<in> set labels_per_org \<and> i \<in> offered_to ls)" for i r
    by (auto simp: publishes_to_def sets offered_to_def get [symmetric] split: option.splits)
  have v: "v = build_version_data_inheritance org (build_version_data_labels labels) ?lookup ?sets"
  proof -
    have "(org, v) \<in> set (build_version_data_inheritance_network labels_per_org)"
      using assms(1) by (rule map_of_SomeD)
    then obtain q where q: "q \<in> set ?sets" "(org, v) = (case q of (r, ls) \<Rightarrow> (r, build_version_data_inheritance r ls ?lookup ?sets))"
      unfolding build_version_data_inheritance_network_def Let_def set_map set_filter by blast
    from q(1) obtain r ls where "(r, ls) \<in> set labels_per_org" "q = (r, build_version_data_labels ls)" by auto
    with q(2) have ls: "(org, ls) \<in> set labels_per_org"
        "v = build_version_data_inheritance org (build_version_data_labels ls) ?lookup ?sets" by simp_all
    from ls(1) assms(3) have "ls = labels" unfolding get [symmetric] by simp
    with ls(2) show ?thesis by simp
  qed
  define verified where "verified = {i \<in> requested_sources labels.
      \<exists>r ls. (r, ls) \<in> set labels_per_org \<and> rf_org_id r = i \<and> rf_org_id org \<in> offered_to ls}"
  have mem: "(case dict_get ?lookup i of None \<Rightarrow> False | Some source \<Rightarrow> publishes_to ?sets (rf_org_id org) source) \<longleftrightarrow>
      (\<exists>r ls. (r, ls) \<in> set labels_per_org \<and> rf_org_id r = i \<and> rf_org_id org \<in> offered_to ls)" for i
  proof -
    have "(case x of None \<Rightarrow> False | Some source \<Rightarrow> P source) \<longleftrightarrow> (\<exists>source. x = Some source \<and> P source)"
      for x and P :: "org_ref \<Rightarrow> bool" by (cases x) auto
    note this [of "publishes_to ?sets (rf_org_id org)" "dict_get ?lookup i"]
    also have "(\<exists>source. dict_get ?lookup i = Some source \<and> publishes_to ?sets (rf_org_id org) source) \<longleftrightarrow>
        (\<exists>r. ((\<exists>ls. (r, ls) \<in> set labels_per_org) \<and> rf_org_id r = i) \<and>
             (\<exists>ls. (r, ls) \<in> set labels_per_org \<and> rf_org_id org \<in> offered_to ls))"
      by (simp only: lookup publishes)
    also have "\<dots> \<longleftrightarrow> (\<exists>r ls. (r, ls) \<in> set labels_per_org \<and> rf_org_id r = i \<and> rf_org_id org \<in> offered_to ls)"
      by blast
    finally show ?thesis .
  qed
  have "set (vdi_from v) = ?mk ` verified"
    unfolding v build_version_data_inheritance_def Let_def mem version_data_inheritance.simps set_map
    by (rule arg_cong [where f = "image _"]) (auto simp: verified_def requested_sources_def)
  moreover have "rf_org_id ` set (vdi_unverified v) = requested_sources labels - verified"
  proof -
    have "rf_org_id (case dict_get ?lookup i of None \<Rightarrow> \<lparr>rf_org_id = i, rf_env_name = ''unknown''\<rparr> | Some r \<Rightarrow> r) = i" for i
      using lookup [of i] by (cases "dict_get ?lookup i") auto
    moreover have "set (vdi_unverified v) = (\<lambda>i. case dict_get ?lookup i of
        None \<Rightarrow> \<lparr>rf_org_id = i, rf_env_name = ''unknown''\<rparr> | Some r \<Rightarrow> r) ` (requested_sources labels - verified)"
      unfolding v build_version_data_inheritance_def Let_def mem version_data_inheritance.simps set_map
      by (rule arg_cong [where f = "image _"]) (auto simp: verified_def requested_sources_def)
    ultimately show ?thesis by (simp add: image_image)
  qed
  moreover have "?mk ` verified = {r. \<exists>ls. (r, ls) \<in> set labels_per_org \<and> rf_org_id r \<in> requested_sources labels \<and>
        rf_org_id org \<in> offered_to ls}" (is "_ = ?sources")
  proof (rule set_eqI, rule iffI)
    fix r assume "r \<in> ?mk ` verified"
    then obtain i r' ls where i: "r = ?mk i" "i \<in> requested_sources labels" "(r', ls) \<in> set labels_per_org"
        "rf_org_id r' = i" "rf_org_id org \<in> offered_to ls" by (auto simp: verified_def)
    then have "dict_get ?lookup i = Some r'" using lookup by blast
    with i show "r \<in> ?sources" by auto
  next
    fix r assume "r \<in> ?sources"
    then obtain ls where r: "(r, ls) \<in> set labels_per_org" "rf_org_id r \<in> requested_sources labels"
        "rf_org_id org \<in> offered_to ls" by blast
    then have "dict_get ?lookup (rf_org_id r) = Some r" using lookup by blast
    then have "r = ?mk (rf_org_id r)" by simp
    moreover have "rf_org_id r \<in> verified" using r by (auto simp: verified_def)
    ultimately show "r \<in> ?mk ` verified" by (rule image_eqI)
  qed
  ultimately show ?thesis by (auto simp: verified_def)
qed

end
