(* ===== verification/Aus_Config.thy ===== *)
theory Aus_Config
  imports Aus_Org_Labels Aus_Run "HOL-Library.Multiset"
begin

text \<open>
  How the upgrade specifications of an environment come about, in the three flavours of the scheduler: from
  the labels of OCM (\<open>advanced_upgrade_service.py\<close>), from the organization file for clusters
  (\<open>ocm_upgrade_scheduler_org.py\<close>) and for addons (\<open>ocm_addons_upgrade_scheduler_org.py\<close>). What OCM
  lists (clusters, labels, node pools, addons) is an argument.
\<close>

section \<open>Clusters\<close>

definition discover_clusters :: "cluster_details list \<Rightarrow> string list option \<Rightarrow> bool \<Rightarrow> (string, cluster_details list) dict" where
  "discover_clusters clusters org_ids ignore_sts_clusters =
     group_by cd_organization_id (filter (\<lambda>c.
       (opt_list org_ids = [] \<or> cd_organization_id c \<in> set (opt_list org_ids)) \<and>
       (\<not> ignore_sts_clusters \<or> oc_sts_enabled (cd_cluster c) \<noteq> Some True)) clusters)"

definition get_node_pool_specs_by_org_cluster ::
  "(string \<Rightarrow> node_pool_spec list) \<Rightarrow> (string, cluster_details list) dict \<Rightarrow>
   (string, (string, node_pool_spec list) dict) dict" where
  "get_node_pool_specs_by_org_cluster pools clusters_by_org =
     map (\<lambda>(org_id, clusters). (org_id, dict_of (map (\<lambda>c. (oc_id (cd_cluster c), pools (oc_id (cd_cluster c))))
       (filter (\<lambda>c. is_rosa_hypershift (cd_cluster c)) clusters)))) clusters_by_org"

section \<open>One organization from its labels\<close>

definition add_spec_failed :: "cluster_upgrade_spec \<Rightarrow> org_upgrade_spec \<Rightarrow> org_upgrade_spec" where
  \<comment> \<open>\<open>add_spec\<close> where the sort raises: the specification is already registered\<close>
  "add_spec_failed spec o' =
     (let o' = o'\<lparr>ous_specs := ous_specs o' @ [spec]\<rparr>
      in case truthy_str (uc_sector (up_conditions (us_policy spec))) of
           None \<Rightarrow> o'
         | Some n \<Rightarrow> (case dict_get (ous_sectors o') n of
             None \<Rightarrow> o'
           | Some st \<Rightarrow> o'\<lparr>ous_sectors := dict_set (ous_sectors o') n
               (st\<lparr>st_specs := dict_set (st_specs st) (oc_name (us_cluster spec)) spec\<rparr>)\<rparr>))"

definition label_cluster_spec ::
  "aus_org \<Rightarrow> (string, health_provider \<times> bool) dict \<Rightarrow> (string, node_pool_spec list) dict \<Rightarrow> cluster_details \<Rightarrow>
   upgrade_policy_v1 \<Rightarrow> cluster_upgrade_spec" where
  "label_cluster_spec org health pools c policy =
     \<lparr>us_org = org, us_cluster = cd_cluster c, us_labels = Some (cd_labels c), us_policy = policy,
      us_health = provider_health health (oc_external_id (cd_cluster c)) (og_org_id org),
      us_node_pools = get_or pools (oc_id (cd_cluster c)) [], us_addon = None\<rparr>"

definition add_labelled_cluster ::
  "label_lib \<Rightarrow> ('k::linorder) semver_lib \<Rightarrow> (string, health_provider \<times> bool) dict \<Rightarrow>
   (string, node_pool_spec list) dict \<Rightarrow> org_upgrade_spec \<Rightarrow> cluster_details \<Rightarrow> org_upgrade_spec" where
  \<comment> \<open>the loop body; every exception becomes an error of the cluster\<close>
  "add_labelled_cluster lib sv health pools o' c =
     (let uuid = oc_external_id (cd_cluster c) in
      case build_policy_from_labels lib (cd_labels c) of
        Inl errors \<Rightarrow> foldl (\<lambda>o' (loc, e). add_cluster_error uuid (''label '' @ loc @ '': '' @ ll_message lib e) o') o' errors
      | Inr policy \<Rightarrow>
          let spec = label_cluster_spec (ous_org o') health pools c policy
          in (case add_spec sv o' spec of
                Inr o'' \<Rightarrow> o''
              | Inl e \<Rightarrow> add_cluster_error uuid e (add_spec_failed spec o')))"

definition labelled_org :: "aus_org \<Rightarrow> labels \<Rightarrow> version_data_inheritance option \<Rightarrow> aus_org" where
  \<comment> \<open>the organization with what its labels set\<close>
  "labelled_org org org_labels inheritance =
     (let ls = build_org_label_set org_labels;
          sources = (case inheritance of None \<Rightarrow> [] | Some v \<Rightarrow> vdi_from v)
      in org\<lparr>og_blocked_versions := ols_blocked_versions ls, og_sectors := Some (sector_dependencies ls),
             og_inherit_version_data := (if sources = [] then None else Some (map (\<lambda>r.
               \<lparr>mo_name = rf_org_id r, mo_org_id = rf_org_id r, mo_env = rf_env_name r,
                mo_publish_version_data = Some [og_org_id org]\<rparr>) sources))\<rparr>)"

definition unverified_message :: "aus_org \<Rightarrow> string list \<Rightarrow> string" where
  "unverified_message org unverified =
     ''Version data inheritance from organizations '' @ join '', '' (sort unverified) @
     '' are unverified. Ask the owner of these organizations to publish version data to the organization ID '' @
     og_org_id org @ ''. See https://source.redhat.com/groups/public/sre/wiki/advanced_upgrade_service_aus''"

definition build_org_upgrade_spec ::
  "label_lib \<Rightarrow> ('k::linorder) semver_lib \<Rightarrow> aus_org \<Rightarrow> cluster_details list \<Rightarrow> labels \<Rightarrow>
   version_data_inheritance option \<Rightarrow> (string, health_provider \<times> bool) dict \<Rightarrow>
   (string, node_pool_spec list) dict \<Rightarrow> string + org_upgrade_spec" where
  "build_org_upgrade_spec lib sv org clusters org_labels inheritance health pools =
     rbind (make_org_upgrade_spec sv (labelled_org org org_labels inheritance) []) (\<lambda>o'.
       let o' = foldl (add_labelled_cluster lib sv health pools) o' clusters;
           unverified = (case inheritance of None \<Rightarrow> [] | Some v \<Rightarrow> map rf_org_id (vdi_unverified v))
       in Inr (if unverified = [] then o' else add_organization_error (unverified_message org unverified) o'))"

definition build_env_org_spec ::
  "label_lib \<Rightarrow> ('k::linorder) semver_lib \<Rightarrow> (string, aus_org) dict \<Rightarrow> (string, labels) dict \<Rightarrow>
   (string, version_data_inheritance) dict \<Rightarrow> (string, health_provider) dict \<Rightarrow>
   (string, (string, node_pool_spec list) dict) dict \<Rightarrow> string \<times> cluster_details list \<Rightarrow>
   string + string \<times> org_upgrade_spec" where
  "build_env_org_spec lib sv orgs labels_by_org network providers pools_by_org entry =
     (let (org_id, clusters) = entry in
      rbind (of_opt ''KeyError'' (dict_get orgs org_id)) (\<lambda>org.
      rbind (build_health_providers (og_health_checks org) providers) (\<lambda>health.
      rbind (build_org_upgrade_spec lib sv org clusters (get_or labels_by_org org_id [])
               (dict_get network org_id) health (get_or pools_by_org org_id [])) (\<lambda>o'.
        Inr (org_id, o')))))"

definition build_org_upgrade_specs_for_ocm_env ::
  "label_lib \<Rightarrow> ('k::linorder) semver_lib \<Rightarrow> (string, aus_org) dict \<Rightarrow> (string, cluster_details list) dict \<Rightarrow>
   (string, labels) dict \<Rightarrow> (string, version_data_inheritance) dict \<Rightarrow> (string, health_provider) dict \<Rightarrow>
   (string, (string, node_pool_spec list) dict) dict \<Rightarrow> string + (string \<times> org_upgrade_spec) list" where
  "build_org_upgrade_specs_for_ocm_env lib sv orgs clusters_by_org labels_by_org network providers pools_by_org =
     rmap (build_env_org_spec lib sv orgs labels_by_org network providers pools_by_org) clusters_by_org"

section \<open>Organizations that list their clusters\<close>

definition build_cluster_upgrade_specs ::
  "aus_org \<Rightarrow> (string, cluster_details) dict \<Rightarrow> (string, health_provider \<times> bool) dict \<Rightarrow>
   (string, node_pool_spec list) dict \<Rightarrow> cluster_upgrade_spec list" where
  \<comment> \<open>clusters that OCM does not list are left out\<close>
  "build_cluster_upgrade_specs org clusters_by_name health pools =
     concat (map (\<lambda>(name, policy). case dict_get clusters_by_name name of
         None \<Rightarrow> [] | Some c \<Rightarrow> [label_cluster_spec org health pools c policy])
       (opt_list (og_upgrade_policy_clusters org)))"

definition by_name :: "cluster_details list \<Rightarrow> (string, cluster_details) dict" where
  "by_name clusters = dict_of (map (\<lambda>c. (oc_name (cd_cluster c), c)) clusters)"

definition org_env_upgrade_specs ::
  "('k::linorder) semver_lib \<Rightarrow> aus_org list \<Rightarrow> cluster_details list \<Rightarrow> (string, health_provider) dict \<Rightarrow>
   (string \<Rightarrow> node_pool_spec list) \<Rightarrow> string + (string \<times> org_upgrade_spec) list" where
  \<comment> \<open>\<open>OCMClusterUpgradeSchedulerOrgIntegration.get_ocm_env_upgrade_specs\<close>\<close>
  "org_env_upgrade_specs sv orgs clusters providers pools =
     (let clusters_by_org = group_by cd_organization_id clusters;
          pools_by_org = get_node_pool_specs_by_org_cluster pools clusters_by_org
      in rbind (rmap (\<lambda>org.
           rbind (build_health_providers (og_health_checks org) providers) (\<lambda>health.
           rbind (make_org_upgrade_spec sv org (build_cluster_upgrade_specs org
                    (by_name (get_or clusters_by_org (og_org_id org) [])) health
                    (get_or pools_by_org (og_org_id org) []))) (\<lambda>o'. Inr (og_name org, o')))) orgs)
         (\<lambda>ps. Inr (dict_of ps)))"

definition build_addon_upgrade_spec ::
  "aus_org \<Rightarrow> (string, cluster_details) dict \<Rightarrow> (string, addon_installation list) dict \<Rightarrow>
   (string, health_provider \<times> bool) dict \<Rightarrow> cluster_upgrade_spec list" where
  "build_addon_upgrade_spec org clusters_by_name addons_per_cluster health =
     concat (map (\<lambda>(name, policy). case dict_get clusters_by_name name of
         None \<Rightarrow> []
       | Some c \<Rightarrow> map (\<lambda>a. \<lparr>us_org = org, us_cluster = cd_cluster c, us_labels = None, us_policy = policy,
             us_health = provider_health health (oc_external_id (cd_cluster c)) (og_org_id org),
             us_node_pools = [], us_addon = Some a\<rparr>) (get_or addons_per_cluster name []))
       (opt_list (og_upgrade_policy_clusters org)))"

definition addon_env_upgrade_specs ::
  "('k::linorder) semver_lib \<Rightarrow> (string, string) dict option \<Rightarrow> aus_org list \<Rightarrow> cluster_details list \<Rightarrow>
   (string \<Rightarrow> addon_installation list) \<Rightarrow> (string, health_provider) dict \<Rightarrow>
   string + (string \<times> org_upgrade_spec) list" where
  "addon_env_upgrade_specs sv env_labels orgs clusters addons providers =
     (if orgs = [] then Inr []
      else rbind (init_addon_service env_labels) (\<lambda>_.
        let addons_per_cluster = dict_of (map (\<lambda>c. (oc_name (cd_cluster c), addons (oc_id (cd_cluster c)))) clusters)
        in rbind (rmap (\<lambda>org.
             rbind (build_health_providers (og_health_checks org) providers) (\<lambda>health.
             rbind (make_org_upgrade_spec sv org (build_addon_upgrade_spec org
                      (by_name (filter (\<lambda>c. cd_organization_id c = og_org_id org) clusters)) addons_per_cluster health))
               (\<lambda>o'. Inr (og_name org, o')))) orgs) (\<lambda>ps. Inr (dict_of ps))))"

section \<open>What the labels of an organization give\<close>

lemma mset_sort_specs: "sort_specs sv specs = Inr ss \<Longrightarrow> mset ss = mset specs"
proof -
  assume "sort_specs sv specs = Inr ss"
  then obtain kss where r: "rmap (\<lambda>s. rbind (upgrade_spec_sort_key sv s) (\<lambda>k. Inr (k, s))) specs = Inr kss"
    and ss: "ss = map snd (sort_key fst kss)"
    by (auto simp: sort_specs_def rbind_Inr_iff)
  from r have "map snd kss = specs"
    unfolding rmap_Inr_list_all2 by (induction rule: list_all2_induct) (auto simp: rbind_Inr_iff)
  moreover have "mset (map snd (sort_key fst kss)) = mset (map snd kss)" by simp
  ultimately show ?thesis using ss by simp
qed

lemma add_cluster_error_fields [simp]:
  "ous_specs (add_cluster_error u m o') = ous_specs o'" "ous_org_errors (add_cluster_error u m o') = ous_org_errors o'"
  "ous_org (add_cluster_error u m o') = ous_org o'"
  by (simp_all add: add_cluster_error_def)

lemma add_cluster_error_has [simp]:
  "dict_has (ous_cluster_errors (add_cluster_error u m o')) v \<longleftrightarrow> v = u \<or> dict_has (ous_cluster_errors o') v"
  by (auto simp: add_cluster_error_def dict_has_def map_of_dict_set)

lemma has_errors_if: "dict_has (ous_cluster_errors o') u \<Longrightarrow> has_validation_errors o'"
  by (auto simp: has_validation_errors_def nr_of_validation_errors_def dict_has_def)

lemma add_cluster_errors_has:
  "dict_has (ous_cluster_errors (foldl (\<lambda>o' (l, e). add_cluster_error u (f l e) o') o' es)) v \<longleftrightarrow>
     (v = u \<and> es \<noteq> []) \<or> dict_has (ous_cluster_errors o') v"
proof (induction es arbitrary: o')
  case (Cons p es)
  obtain l e where p: "p = (l, e)" by (cases p)
  show ?case unfolding p foldl_Cons prod.case Cons.IH add_cluster_error_has by blast
qed simp

lemma add_cluster_errors_org: "ous_org (foldl (\<lambda>o' (l, e). add_cluster_error u (f l e) o') o' es) = ous_org o'"
  by (induction es arbitrary: o') auto

lemma add_spec_failed_fields [simp]:
  "ous_cluster_errors (add_spec_failed spec o') = ous_cluster_errors o'" "ous_org (add_spec_failed spec o') = ous_org o'"
  by (simp_all add: add_spec_failed_def Let_def split: option.splits)

lemma register_spec_cases:
  assumes "rbind (sort_specs sv (specs @ [spec])) (\<lambda>ss. Inr (p\<lparr>ous_specs := ss\<rparr>)) = Inr q"
  shows "ous_org q = ous_org p" "ous_cluster_errors q = ous_cluster_errors p"
    "mset (ous_specs q) = mset specs + {#spec#}"
proof -
  from assms obtain ss where ss: "sort_specs sv (specs @ [spec]) = Inr ss" "q = p\<lparr>ous_specs := ss\<rparr>"
    unfolding rbind_Inr_iff by blast
  with mset_sort_specs [OF ss(1)]
  show "ous_org q = ous_org p" "ous_cluster_errors q = ous_cluster_errors p" "mset (ous_specs q) = mset specs + {#spec#}"
    by simp_all
qed

lemma add_spec_cases:
  assumes "add_spec sv o' spec = Inr q"
  shows "ous_org q = ous_org o' \<and>
    (dict_has (ous_cluster_errors o') v \<longrightarrow> dict_has (ous_cluster_errors q) v) \<and>
    (has_validation_errors q \<or> mset (ous_specs q) = mset (ous_specs o') + {#spec#})"
proof (cases "uc_sector (up_conditions (us_policy spec))")
  case None
  with assms have "rbind (sort_specs sv (ous_specs o' @ [spec])) (\<lambda>ss. Inr (o'\<lparr>ous_specs := ss\<rparr>)) = Inr q"
    by (simp add: add_spec_def Let_def)
  from register_spec_cases [OF this] show ?thesis by simp
next
  case (Some n)
  show ?thesis
  proof (cases "n = [] \<or> dict_get (ous_sectors o') n \<noteq> None")
    case True
    with Some assms obtain p where p: "ous_org p = ous_org o'" "ous_cluster_errors p = ous_cluster_errors o'"
        "rbind (sort_specs sv (ous_specs o' @ [spec])) (\<lambda>ss. Inr (p\<lparr>ous_specs := ss\<rparr>)) = Inr q"
    proof (cases "n = []")
      case True
      with Some assms show ?thesis by (intro that [of o']) (auto simp: add_spec_def Let_def)
    next
      case False
      with \<open>n = [] \<or> _\<close> obtain y where y: "dict_get (ous_sectors o') n = Some y" by auto
      with False Some assms show ?thesis
        by (intro that [of "o'\<lparr>ous_sectors := dict_set (ous_sectors o') n
            (y\<lparr>st_specs := dict_set (st_specs y) (oc_name (us_cluster spec)) spec\<rparr>)\<rparr>"]) (auto simp: add_spec_def Let_def)
    qed
    from register_spec_cases [OF p(3)] p(1,2) show ?thesis by simp
  next
    case False
    with Some assms have "q = add_cluster_error (oc_external_id (us_cluster spec))
        (''cluster '' @ oc_external_id (us_cluster spec) @ '' references unknown sector '' @ n)
        (add_organization_error (''sector '' @ n @ '' not found in organization'') o')"
      by (simp add: add_spec_def Let_def)
    then show ?thesis
      by (auto simp: add_organization_error_def has_validation_errors_def nr_of_validation_errors_def)
  qed
qed

lemma add_labelled_cluster_cases:
  "ous_org (add_labelled_cluster lib sv health pools o' c) = ous_org o' \<and>
   (dict_has (ous_cluster_errors o') v \<longrightarrow>
      dict_has (ous_cluster_errors (add_labelled_cluster lib sv health pools o' c)) v) \<and>
   (label_defects lib (cd_labels c) \<noteq> {} \<longrightarrow>
      dict_has (ous_cluster_errors (add_labelled_cluster lib sv health pools o' c)) (oc_external_id (cd_cluster c))) \<and>
   (has_validation_errors (add_labelled_cluster lib sv health pools o' c) \<or>
    (\<exists>policy. build_policy_from_labels lib (cd_labels c) = Inr policy \<and>
       mset (ous_specs (add_labelled_cluster lib sv health pools o' c)) =
         mset (ous_specs o') + {#label_cluster_spec (ous_org o') health pools c policy#}))"
proof (cases "build_policy_from_labels lib (cd_labels c)")
  case (Inl errors)
  moreover have "errors \<noteq> []" "label_defects lib (cd_labels c) \<noteq> {}"
    using policy_labels_errors_aux [of lib "cd_labels c"] Inl by auto
  ultimately show ?thesis
    by (auto simp: add_labelled_cluster_def Let_def add_cluster_errors_has add_cluster_errors_org intro!: has_errors_if)
next
  case (Inr policy)
  then have none: "label_defects lib (cd_labels c) = {}"
    using policy_labels_errors_aux [of lib "cd_labels c"] by simp
  let ?spec = "label_cluster_spec (ous_org o') health pools c policy"
  show ?thesis
  proof (cases "add_spec sv o' ?spec")
    case (Inl e)
    with Inr none show ?thesis
      by (auto simp: add_labelled_cluster_def Let_def intro!: has_errors_if)
  next
    case q: (Inr q)
    from add_spec_cases [OF q] Inr none q show ?thesis
      by (auto simp: add_labelled_cluster_def Let_def)
  qed
qed

definition org_specs_of :: "label_lib \<Rightarrow> aus_org \<Rightarrow> (string, health_provider \<times> bool) dict \<Rightarrow>
    (string, node_pool_spec list) dict \<Rightarrow> cluster_details list \<Rightarrow> cluster_upgrade_spec list" where
  \<comment> \<open>one specification for each cluster, as its labels say\<close>
  "org_specs_of lib org health pools clusters =
     map (\<lambda>c. label_cluster_spec org health pools c (projr (build_policy_from_labels lib (cd_labels c)))) clusters"

lemma add_labelled_clusters:
  "ous_org (foldl (add_labelled_cluster lib sv health pools) o' cs) = ous_org o' \<and>
   (dict_has (ous_cluster_errors o') v \<longrightarrow>
      dict_has (ous_cluster_errors (foldl (add_labelled_cluster lib sv health pools) o' cs)) v) \<and>
   (\<forall>c \<in> set cs. label_defects lib (cd_labels c) \<noteq> {} \<longrightarrow>
      dict_has (ous_cluster_errors (foldl (add_labelled_cluster lib sv health pools) o' cs)) (oc_external_id (cd_cluster c)))"
proof (induction cs rule: rev_induct)
  case (snoc c cs)
  show ?case
    using snoc add_labelled_cluster_cases [of lib sv health pools "foldl (add_labelled_cluster lib sv health pools) o' cs" c]
    by auto
qed simp

lemma has_validation_errors_iff: "has_validation_errors o' \<longleftrightarrow> ous_cluster_errors o' \<noteq> [] \<or> ous_org_errors o' \<noteq> []"
  by (auto simp: has_validation_errors_def nr_of_validation_errors_def)

lemma add_labelled_cluster_org_errors:
  "ous_org_errors o' \<noteq> [] \<Longrightarrow> ous_org_errors (add_labelled_cluster lib sv health pools o' c) \<noteq> []"
proof -
  assume e: "ous_org_errors o' \<noteq> []"
  have spec: "ous_org_errors q \<noteq> []" if "add_spec sv o' spec = Inr q" for spec q
    using that e by (auto simp: add_spec_def Let_def rbind_Inr_iff add_organization_error_def split: option.splits if_splits)
  have failed: "ous_org_errors (add_spec_failed spec o') = ous_org_errors o'" for spec
    by (simp add: add_spec_failed_def Let_def split: option.splits)
  have errors: "ous_org_errors (foldl (\<lambda>o' (l, x). add_cluster_error u (f l x) o') p es) = ous_org_errors p" for u f p and es :: "(string \<times> label_error) list"
    by (induction es arbitrary: p) auto
  show ?thesis
    using e spec by (auto simp: add_labelled_cluster_def Let_def errors failed split: sum.splits)
qed

lemma add_labelled_cluster_errors_stay:
  "has_validation_errors o' \<Longrightarrow> has_validation_errors (add_labelled_cluster lib sv health pools o' c)"
proof -
  assume "has_validation_errors o'"
  then consider "ous_org_errors o' \<noteq> []" | v where "dict_has (ous_cluster_errors o') v"
    by (cases "ous_cluster_errors o'") (auto simp: has_validation_errors_iff dict_has_iff)
  then show ?thesis
  proof cases
    case 1 then show ?thesis
      using add_labelled_cluster_org_errors [of o' lib sv health pools c] by (simp add: has_validation_errors_iff)
  next
    case 2 then show ?thesis using add_labelled_cluster_cases has_errors_if by blast
  qed
qed

lemma add_labelled_clusters_specs:
  assumes "\<not> has_validation_errors (foldl (add_labelled_cluster lib sv health pools) o' cs)"
  shows "mset (ous_specs (foldl (add_labelled_cluster lib sv health pools) o' cs)) =
    mset (ous_specs o') + mset (org_specs_of lib (ous_org o') health pools cs)"
  using assms
proof (induction cs rule: rev_induct)
  case (snoc c cs)
  let ?o = "foldl (add_labelled_cluster lib sv health pools) o' cs"
  have "\<not> has_validation_errors (add_labelled_cluster lib sv health pools ?o c)" using snoc.prems by simp
  moreover have "ous_org ?o = ous_org o'" using add_labelled_clusters by blast
  ultimately obtain policy where "build_policy_from_labels lib (cd_labels c) = Inr policy"
      "mset (ous_specs (add_labelled_cluster lib sv health pools ?o c)) =
         mset (ous_specs ?o) + {#label_cluster_spec (ous_org o') health pools c policy#}"
    using add_labelled_cluster_cases [of lib sv health pools ?o c] by auto
  moreover have "\<not> has_validation_errors ?o"
    using snoc.prems add_labelled_cluster_errors_stay [of ?o lib sv health pools c] by auto
  ultimately show ?case using snoc.IH by (simp add: org_specs_of_def)
qed (simp add: org_specs_of_def)

lemma make_org_fresh:
  "make_org_upgrade_spec sv org [] = Inr o' \<Longrightarrow>
     ous_org o' = org \<and> ous_specs o' = [] \<and> ous_cluster_errors o' = [] \<and> ous_org_errors o' = []"
  by (auto simp: make_org_upgrade_spec_def rbind_Inr_iff)

lemma build_org_upgrade_spec_Inr:
  assumes "build_org_upgrade_spec lib sv org clusters org_labels inheritance health pools = Inr o'"
  shows "\<exists>start. make_org_upgrade_spec sv (labelled_org org org_labels inheritance) [] = Inr start \<and>
    (o' = foldl (add_labelled_cluster lib sv health pools) start clusters \<or>
     (\<exists>m. o' = add_organization_error m (foldl (add_labelled_cluster lib sv health pools) start clusters)))"
  using assms unfolding build_org_upgrade_spec_def rbind_Inr_iff Let_def by (auto split: if_splits)

text \<open>An organization without errors is scheduled completely and as its labels say: it has exactly one
  specification for each of its clusters, whose policy is the one in the labels of the cluster.\<close>
theorem error_free_org_is_complete:
  assumes "build_org_upgrade_spec lib sv org clusters org_labels inheritance health pools = Inr o'"
    and "\<not> has_validation_errors o'"
  shows "mset (ous_specs o') =
      mset (org_specs_of lib (labelled_org org org_labels inheritance) health pools clusters) \<and>
    (\<forall>c \<in> set clusters. \<exists>policy. build_policy_from_labels lib (cd_labels c) = Inr policy)"
proof -
  from build_org_upgrade_spec_Inr [OF assms(1)] assms(2) obtain start where
    start: "make_org_upgrade_spec sv (labelled_org org org_labels inheritance) [] = Inr start"
    and "o' = foldl (add_labelled_cluster lib sv health pools) start clusters"
    by (auto simp: has_validation_errors_iff add_organization_error_def)
  with assms(2) add_labelled_clusters_specs [of lib sv health pools start clusters]
    add_labelled_clusters [of lib sv health pools start clusters] make_org_fresh [OF start]
  have "mset (ous_specs o') = mset (org_specs_of lib (labelled_org org org_labels inheritance) health pools clusters)"
    and ok: "\<forall>c \<in> set clusters. label_defects lib (cd_labels c) = {}"
    using has_errors_if by auto
  moreover have "\<exists>policy. build_policy_from_labels lib (cd_labels c) = Inr policy" if "c \<in> set clusters" for c
    using ok that policy_labels_errors_aux [of lib "cd_labels c"] by (auto split: sum.splits)
  ultimately show ?thesis by blast
qed

text \<open>A cluster with bad labels stops its organization. It gets an error under its own id, and no upgrade
  of the organization is processed: the run of the organization changes nothing.\<close>
theorem bad_labels_stop_the_organization:
  assumes "build_org_upgrade_spec lib sv org clusters org_labels inheritance health pools = Inr o'"
    and "c \<in> set clusters" "label_defects lib (cd_labels c) \<noteq> {}"
  shows "dict_has (ous_cluster_errors o') (oc_external_id (cd_cluster c)) \<and> process_org process o' rs = (rs, Inr ())"
proof -
  have "dict_has (ous_cluster_errors o') (oc_external_id (cd_cluster c))"
  proof -
    from build_org_upgrade_spec_Inr [OF assms(1)] obtain start where
      "ous_cluster_errors o' = ous_cluster_errors (foldl (add_labelled_cluster lib sv health pools) start clusters)"
      by (auto simp: add_organization_error_def)
    with assms(2,3) add_labelled_clusters [of lib sv health pools start clusters] show ?thesis by simp
  qed
  then show ?thesis by (auto simp: process_org_def dest: has_errors_if)
qed

section \<open>Environments\<close>

lemma rmap_InlI: "x \<in> set xs \<Longrightarrow> f x = Inl e \<Longrightarrow> \<exists>e'. rmap f xs = Inl e'"
proof (induction xs)
  case (Cons y ys)
  then show ?case by (cases "f y"; cases "rmap f ys") auto
qed simp

text \<open>One organization blocks its environment. Where the sector labels of a single organization have a cycle,
  the specifications of the whole environment cannot be built, and the run does nothing for any of its
  organizations (and reports no error for them).\<close>
theorem cyclic_org_blocks_environment:
  assumes "(org_id, clusters) \<in> set clusters_by_org" "dict_get orgs org_id = Some org"
    and "init_sectors (sector_dependencies (build_org_label_set (get_or labels_by_org org_id []))) = Inr sectors"
    and "\<not> acyclic (depends_on (sector_deps sectors))"
  shows "run_scheduler process handled [(ocm_env,
      build_org_upgrade_specs_for_ocm_env lib sv orgs clusters_by_org labels_by_org network providers pools)] rs =
    (rs, Inr ())"
proof -
  let ?org = "labelled_org org (get_or labels_by_org org_id []) (dict_get network org_id)"
  have "og_sectors ?org = Some (sector_dependencies (build_org_label_set (get_or labels_by_org org_id [])))"
    by (simp add: labelled_org_def Let_def)
  then have "make_org_upgrade_spec sv ?org [] = Inl ''SectorConfigError''"
    using assms(3,4) sector_validation_iff_acyclic_aux(1) [of ?org sectors] by simp
  then have "build_org_upgrade_spec lib sv org clusters (get_or labels_by_org org_id []) (dict_get network org_id)
      health (get_or pools org_id []) = Inl ''SectorConfigError''" for health
    by (simp add: build_org_upgrade_spec_def)
  then have "\<exists>e. build_env_org_spec lib sv orgs labels_by_org network providers pools (org_id, clusters) = Inl e"
    using assms(2) by (cases "build_health_providers (og_health_checks org) providers")
      (simp_all add: build_env_org_spec_def of_opt_def)
  then obtain e where
    "build_org_upgrade_specs_for_ocm_env lib sv orgs clusters_by_org labels_by_org network providers pools = Inl e"
    unfolding build_org_upgrade_specs_for_ocm_env_def using rmap_InlI [OF assms(1)] by metis
  then show ?thesis by (simp add: run_scheduler_def)
qed

text \<open>An empty set of organizations is read as no restriction: clusters of unknown organizations are found.\<close>

lemma no_organizations_no_filter:
  "discover_clusters clusters (Some []) False = group_by cd_organization_id clusters"
  by (simp add: discover_clusters_def)

lemma unknown_organization_fails:
  "build_org_upgrade_specs_for_ocm_env lib sv [] ((org_id, clusters) # rest) labels_by_org network providers pools =
     Inl ''KeyError''"
  by (simp add: build_org_upgrade_specs_for_ocm_env_def build_env_org_spec_def of_opt_def)

end
