(* ===== verification/Ocm_Labels.thy ===== *)
theory Ocm_Labels
  imports Differ Aus_Org_Labels
begin

text \<open>
  The integration that keeps the labels of OCM organizations and subscriptions,
  \<open>reconcile/ocm_labels/integration.py\<close> with \<open>reconcile/utils/ocm/label_sources.py\<close>: the desired labels
  of several sources are merged, the current ones are read from OCM, and their difference is applied. OCM is a
  map from label containers (an environment and a path) to labels; a call that OCM answers with an error raises
  and ends the run.
\<close>

section \<open>Owners of labels\<close>

text \<open>Two references are equal when they name the same organization or cluster: the path of the label
  container and the name do not count.\<close>

datatype label_owner =
    OrgRef (lo_env: string) (lo_org_id: string)
  | ClusterRef (lo_env: string) (lo_org_id: string) (lo_cluster_id: string)

type_synonym desired_labels = "(label_owner, labels) dict"

record owned_labels =
  ol_href :: "string option"
  ol_labels :: labels

type_synonym label_state = "(label_owner, owned_labels) dict"

section \<open>Desired labels\<close>

datatype nested_labels = LabelNone | LabelText string | LabelGroup "(string \<times> nested_labels) list"

function flatten_under :: "string \<Rightarrow> (string \<times> nested_labels) list \<Rightarrow> (string \<times> string) list" where
  \<comment> \<open>\<open>flatten\<close> of \<open>utils/helpers.py\<close>, before the final \<open>dict\<close>\<close>
  "flatten_under parent [] = []"
| "flatten_under parent ((k, v) # rest) =
     (let new_key = (if parent = [] then k else parent @ ''.'' @ k) in
      (case v of LabelNone \<Rightarrow> [] | LabelText s \<Rightarrow> [(new_key, s)]
       | LabelGroup d \<Rightarrow> dict_of (flatten_under new_key d)) @ flatten_under parent rest)"
  by pat_completeness auto
termination
  by (relation "measure (\<lambda>(p, d). size_list (size_prod (\<lambda>_. 0) size) d)") auto

definition flatten :: "(string \<times> nested_labels) list \<Rightarrow> labels" where
  "flatten d = dict_of (flatten_under [] d)"

record labelled_cluster =
  lc_id :: "string option"
  lc_org :: "(string \<times> string) option"
  lc_labels :: "(string \<times> nested_labels) list option"
  lc_policy :: "upgrade_policy_v1 option"

definition cluster_ref :: "labelled_cluster \<Rightarrow> label_owner option" where
  \<comment> \<open>the cluster is in an organization (its id and environment) and has an id that is not empty\<close>
  "cluster_ref c =
     (case lc_org c of None \<Rightarrow> None | Some (org_id, env) \<Rightarrow> map_option (ClusterRef env org_id) (truthy_str (lc_id c)))"

definition subscription_label_source :: "labelled_cluster list \<Rightarrow> desired_labels" where
  \<comment> \<open>\<open>ClusterSubscriptionLabelSource.get_labels\<close>\<close>
  "subscription_label_source clusters =
     dict_of (concat (map (\<lambda>c. case cluster_ref c of
         None \<Rightarrow> [] | Some r \<Rightarrow> [(r, flatten (opt_list (lc_labels c)))]) clusters))"

definition aus_cluster_label_source ::
  "label_lib \<Rightarrow> labelled_cluster list \<Rightarrow> (string \<times> label_error) list + desired_labels" where
  \<comment> \<open>\<open>AUSClusterUpgradePolicyLabelSource.get_labels\<close>\<close>
  "aus_cluster_label_source lib clusters =
     rbind (rmap (\<lambda>(r, p). rbind (cluster_to_labels lib p) (\<lambda>ls. Inr (r, ls)))
              (concat (map (\<lambda>c. case (cluster_ref c, lc_policy c) of
                  (Some r, Some p) \<Rightarrow> [(r, p)] | _ \<Rightarrow> []) clusters)))
       (\<lambda>ps. Inr (dict_of ps))"

definition aus_org_label_source :: "aus_org list \<Rightarrow> desired_labels" where
  "aus_org_label_source orgs =
     dict_of (map (\<lambda>o'. (OrgRef (og_env o') (og_org_id o'), organization_to_labels o')) orgs)"

definition merge_label :: "label_owner \<Rightarrow> desired_labels \<Rightarrow> string \<times> string \<Rightarrow> string + desired_labels" where
  "merge_label owner states kv =
     (let ls = get_or states owner [] in
      if dict_has ls (fst kv) then Inl ''ManagedLabelConflictError''
      else Inr (dict_set states owner (dict_set ls (fst kv) (snd kv))))"

definition merge_owner :: "desired_labels \<Rightarrow> label_owner \<times> labels \<Rightarrow> string + desired_labels" where
  "merge_owner states ols =
     (let states = (if dict_has states (fst ols) then states else dict_set states (fst ols) [])
      in rfold (merge_label (fst ols)) states (snd ols))"

definition fetch_desired_state :: "desired_labels list \<Rightarrow> string + desired_labels" where
  "fetch_desired_state sources = rfold merge_owner [] (concat sources)"

section \<open>Current labels\<close>

type_synonym label_world = "string \<times> string \<Rightarrow> labels"

definition must_end_with_dot :: "string list \<Rightarrow> string list" where
  "must_end_with_dot v = map (\<lambda>p. if suffix ''.'' p then p else p @ ''.'') v"

definition starts_with_any :: "string list \<Rightarrow> string \<Rightarrow> bool" where
  "starts_with_any ps k \<longleftrightarrow> list_ex (\<lambda>p. prefix p k) ps"

definition build_organization_labels_href :: "string \<Rightarrow> string" where
  "build_organization_labels_href org_id = ''/api/accounts_mgmt/v1/organizations/'' @ org_id @ ''/labels''"

definition org_current_labels :: "label_world \<Rightarrow> string list \<Rightarrow> string \<Rightarrow> string \<Rightarrow> owned_labels" where
  \<comment> \<open>the search filter has one pattern for each prefix; without any it restricts nothing\<close>
  "org_current_labels world managed env org_id =
     \<lparr>ol_href = Some (build_organization_labels_href org_id),
      ol_labels = filter (\<lambda>(k, _). managed = [] \<or> starts_with_any managed k)
        (world (env, build_organization_labels_href org_id))\<rparr>"

definition fetch_organization_label_current_state ::
  "label_world \<Rightarrow> string list \<Rightarrow> (string \<times> string) list \<Rightarrow> string list \<Rightarrow> label_state" where
  \<comment> \<open>the organizations are pairs of an environment and an id\<close>
  "fetch_organization_label_current_state world envs orgs managed =
     dict_of (map (\<lambda>(env, org_id). (OrgRef env org_id,
       if env \<in> set envs then org_current_labels world managed env org_id
       else \<lparr>ol_href = Some (build_organization_labels_href org_id), ol_labels = []\<rparr>)) orgs)"

record discovered_cluster =
  dc_cluster_id :: string
  dc_org_id :: string
  dc_subscription_href :: string

definition fetch_subscription_label_current_state ::
  "label_world \<Rightarrow> string list \<Rightarrow> (string \<Rightarrow> string list \<Rightarrow> discovered_cluster list) \<Rightarrow> labelled_cluster list \<Rightarrow>
   string list \<Rightarrow> string list \<Rightarrow> label_state" where
  "fetch_subscription_label_current_state world envs discover clusters managed ignored =
     (let cluster_ids = concat (map (\<lambda>c. opt_list (map_option (\<lambda>i. [i]) (truthy_str (lc_id c)))) clusters)
      in dict_of (concat (map (\<lambda>env.
           map (\<lambda>d. (ClusterRef env (dc_org_id d) (dc_cluster_id d),
               \<lparr>ol_href = Some (dc_subscription_href d @ ''/labels''),
                ol_labels = filter (\<lambda>(k, _). starts_with_any managed k \<and> \<not> starts_with_any ignored k)
                  (world (env, dc_subscription_href d @ ''/labels''))\<rparr>))
             (filter (\<lambda>d. dc_cluster_id d \<in> set cluster_ids) (discover env
               (add_all [] (concat (map (\<lambda>c. case lc_org c of
                   None \<Rightarrow> [] | Some (org_id, e) \<Rightarrow> if e = env then [org_id] else []) clusters)))))) envs)))"

section \<open>Reconciling\<close>

datatype label_call =
    AddLabel "string \<times> string" string string
  | DeleteLabel "string \<times> string" string
  | UpdateLabel "string \<times> string" string string

fun apply_label_call :: "label_call \<Rightarrow> label_world \<Rightarrow> label_world" where
  "apply_label_call (AddLabel loc k v) world = world(loc := dict_set (world loc) k v)"
| "apply_label_call (DeleteLabel loc k) world = world(loc := filter (\<lambda>(l, _). l \<noteq> k) (world loc))"
| "apply_label_call (UpdateLabel loc k v) world = world(loc := dict_set (world loc) k v)"

definition label_calls :: "string \<times> string \<Rightarrow> labels \<Rightarrow> labels \<Rightarrow> label_call list" where
  \<comment> \<open>the calls for one owner, in their order\<close>
  "label_calls loc current desired =
     (let diff = diff_mappings current desired (=)
      in map (\<lambda>(k, v). AddLabel loc k v) (dr_add diff) @
         map (\<lambda>(k, _). DeleteLabel loc k) (dr_delete diff) @
         map (\<lambda>(k, p). UpdateLabel loc k (dp_desired p)) (dr_change diff))"

fun make_calls :: "(label_call \<Rightarrow> bool) \<Rightarrow> label_call list \<Rightarrow> label_world \<Rightarrow> label_world \<times> (string + unit)" where
  "make_calls responds [] world = (world, Inr ())"
| "make_calls responds (c # cs) world =
     (if responds c then make_calls responds cs (apply_label_call c world) else (world, Inl ''HTTPError''))"

definition reconcile_owner ::
  "(label_call \<Rightarrow> bool) \<Rightarrow> bool \<Rightarrow> desired_labels \<Rightarrow> label_owner \<times> owned_labels \<Rightarrow> label_world \<Rightarrow>
   label_world \<times> (string + unit)" where
  "reconcile_owner responds dry_run desired_state entry world =
     (let (owner, current) = entry; desired = get_or desired_state owner []
      in if set (ol_labels current) = set desired \<or> dry_run then (world, Inr ())
         else case ol_href current of
           None \<Rightarrow> (world, Inl ''ValueError'')
         | Some href \<Rightarrow> make_calls responds (label_calls (lo_env owner, href) (ol_labels current) desired) world)"

fun reconcile_labels ::
  "(label_call \<Rightarrow> bool) \<Rightarrow> bool \<Rightarrow> desired_labels \<Rightarrow> label_state \<Rightarrow> label_world \<Rightarrow> label_world \<times> (string + unit)" where
  \<comment> \<open>\<open>OcmLabelsIntegration.reconcile\<close>\<close>
  "reconcile_labels responds dry_run desired_state [] world = (world, Inr ())"
| "reconcile_labels responds dry_run desired_state (entry # current_state) world =
     (case reconcile_owner responds dry_run desired_state entry world of
        (world, Inl e) \<Rightarrow> (world, Inl e)
      | (world, Inr _) \<Rightarrow> reconcile_labels responds dry_run desired_state current_state world)"

section \<open>The effect of the calls\<close>

lemma make_calls_append:
  "make_calls responds (cs @ ds) world =
     (case make_calls responds cs world of (w, Inl e) \<Rightarrow> (w, Inl e) | (w, Inr _) \<Rightarrow> make_calls responds ds w)"
  by (induction cs arbitrary: world) auto

definition call_place :: "label_call \<Rightarrow> (string \<times> string) \<times> string" where
  \<comment> \<open>the label a call changes\<close>
  "call_place c = (case c of AddLabel loc k _ \<Rightarrow> (loc, k) | DeleteLabel loc k \<Rightarrow> (loc, k) | UpdateLabel loc k _ \<Rightarrow> (loc, k))"

lemma apply_label_call_other:
  "call_place c \<noteq> (loc, k) \<Longrightarrow> dict_get (apply_label_call c world loc) k = dict_get (world loc) k"
  by (cases c) (auto simp: call_place_def map_of_dict_set map_of_filter_keys)

lemma make_calls_other:
  "(\<And>c. c \<in> set cs \<Longrightarrow> call_place c \<noteq> (loc, k)) \<Longrightarrow>
     dict_get (fst (make_calls responds cs world) loc) k = dict_get (world loc) k"
  by (induction cs arbitrary: world) (auto simp: apply_label_call_other)

lemma make_calls_other_loc:
  "(\<And>c. c \<in> set cs \<Longrightarrow> fst (call_place c) \<noteq> loc) \<Longrightarrow> fst (make_calls responds cs world) loc = world loc"
proof (induction cs arbitrary: world)
  case (Cons c cs)
  have "apply_label_call c world loc = world loc"
    using Cons.prems [of c] by (cases c) (auto simp: call_place_def)
  with Cons show ?case by simp
qed simp

lemma label_calls_places:
  assumes "c \<in> set (label_calls loc current desired)"
  shows "fst (call_place c) = loc \<and> snd (call_place c) \<in> fst ` set current \<union> fst ` set desired"
  using assms
  by (auto simp: label_calls_def Let_def call_place_def diff_mappings_def common_pairs_def dict_has_iff split: if_splits)
    (force simp: image_iff)+

lemma make_calls_all: "(\<And>c. responds c) \<Longrightarrow> snd (make_calls responds cs world) = Inr ()"
  by (induction cs arbitrary: world) auto

lemma make_calls_append_all:
  assumes "\<And>c. responds c"
  shows "fst (make_calls responds (cs @ ds) world) = fst (make_calls responds ds (fst (make_calls responds cs world)))"
  using make_calls_all [of responds cs world] assms
  by (cases "make_calls responds cs world") (simp add: make_calls_append)

lemma adds_lookup:
  "(\<And>c. responds c) \<Longrightarrow> dict_get (fst (make_calls responds (map (\<lambda>(k, v). AddLabel loc k v) xs) world) loc) k =
     (case map_of (rev xs) k of Some v \<Rightarrow> Some v | None \<Rightarrow> dict_get (world loc) k)"
  by (induction xs arbitrary: world) (auto simp: map_of_dict_set map_add_def split: option.splits)

lemma updates_lookup:
  "(\<And>c. responds c) \<Longrightarrow> dict_get (fst (make_calls responds (map (\<lambda>(k, p). UpdateLabel loc k (f p)) xs) world) loc) k =
     (case map_of (rev xs) k of Some p \<Rightarrow> Some (f p) | None \<Rightarrow> dict_get (world loc) k)"
  by (induction xs arbitrary: world) (auto simp: map_of_dict_set map_add_def split: option.splits)

lemma deletes_lookup:
  "(\<And>c. responds c) \<Longrightarrow> dict_get (fst (make_calls responds (map (\<lambda>(k, v). DeleteLabel loc k) xs) world) loc) k =
     (if k \<in> fst ` set xs then None else dict_get (world loc) k)"
  by (induction xs arbitrary: world) (auto simp: map_of_filter_keys)

text \<open>The calls of one owner make its labels the desired ones, and leave the others as they are.\<close>

lemma label_calls_effect:
  assumes ok: "\<And>c. responds c" and wf: "wf_dict current" "wf_dict desired"
    and read: "map_of current \<subseteq>\<^sub>m map_of (world loc)"
  shows "dict_get (fst (make_calls responds (label_calls loc current desired) world) loc) k =
    (if k \<in> fst ` set current \<union> fst ` set desired then dict_get desired k else dict_get (world loc) k)"
proof -
  let ?d = "diff_mappings current desired (=)"
  have wfd: "wf_dict (dr_add ?d)" "wf_dict (dr_change ?d)" using wf by (simp_all add: wf_diff_mappings)
  have step: "dict_get (fst (make_calls responds (label_calls loc current desired) world) loc) k =
      (case map_of (dr_change ?d) k of Some p \<Rightarrow> Some (dp_desired p)
       | None \<Rightarrow> if k \<in> fst ` set (dr_delete ?d) then None
         else case map_of (dr_add ?d) k of Some v \<Rightarrow> Some v | None \<Rightarrow> dict_get (world loc) k)"
    using ok by (simp add: label_calls_def Let_def make_calls_append_all updates_lookup deletes_lookup
        adds_lookup map_of_rev_distinct [OF wfd(1)] map_of_rev_distinct [OF wfd(2)] cong: option.case_cong)
  have keys: "k \<in> fst ` set d \<longleftrightarrow> map_of d k \<noteq> None" for d :: labels
    by (simp add: map_of_eq_None_iff)
  have "map_of (world loc) k = map_of current k" if "map_of current k \<noteq> None"
    using read that by (auto simp: map_le_def dom_def)
  then show ?thesis
    unfolding step Un_iff keys dm.delete
    using dm.change_None [OF wf(1), where d = desired and eq = "(=)" and k = k]
    by (cases "map_of (dr_change ?d) k") (auto simp: dm.change [OF wf(1)] dm.add split: option.splits if_splits)
qed

section \<open>The effect of a run\<close>

definition place_of :: "label_owner \<times> owned_labels \<Rightarrow> string \<times> string" where
  "place_of entry = (lo_env (fst entry), opt_list (ol_href (snd entry)))"

definition labels_at :: "label_world \<Rightarrow> string \<times> string \<Rightarrow> string \<Rightarrow> string option" where
  "labels_at world loc = map_of (world loc)"

definition concerned :: "desired_labels \<Rightarrow> label_owner \<times> owned_labels \<Rightarrow> string set" where
  \<comment> \<open>the labels of an owner that are desired, or are managed and there\<close>
  "concerned desired entry = fst ` set (ol_labels (snd entry)) \<union> fst ` set (get_or desired (fst entry) [])"

lemma reconcile_owner_other:
  "place_of entry \<noteq> loc \<or> k \<notin> concerned desired entry \<Longrightarrow>
     labels_at (fst (reconcile_owner responds dry_run desired entry world)) loc k = labels_at world loc k"
proof (cases "set (ol_labels (snd entry)) = set (get_or desired (fst entry) []) \<or> dry_run \<or> ol_href (snd entry) = None")
  case True
  then show ?thesis by (cases entry) (auto simp: reconcile_owner_def Let_def split: option.splits)
next
  case False
  then obtain href where href: "ol_href (snd entry) = Some href" by auto
  let ?calls = "label_calls (lo_env (fst entry), href) (ol_labels (snd entry)) (get_or desired (fst entry) [])"
  assume other: "place_of entry \<noteq> loc \<or> k \<notin> concerned desired entry"
  have "call_place c \<noteq> (loc, k)" if "c \<in> set ?calls" for c
    using label_calls_places [OF that] other href by (cases "call_place c") (simp add: place_of_def concerned_def, metis)
  then have "dict_get (fst (make_calls responds ?calls world) loc) k = dict_get (world loc) k"
    by (rule make_calls_other)
  with False href show ?thesis by (cases entry) (simp add: reconcile_owner_def Let_def labels_at_def)
qed

text \<open>Nothing else is touched. Whatever fails, a label keeps its value (or stays absent) unless an owner of
  its container desires it, or it was read as managed by the integration.\<close>
theorem foreign_labels_untouched:
  assumes "\<And>entry. entry \<in> set current_state \<Longrightarrow> place_of entry = loc \<Longrightarrow> k \<notin> concerned desired entry"
  shows "labels_at (fst (reconcile_labels responds dry_run desired current_state world)) loc k = labels_at world loc k"
  using assms
proof (induction current_state arbitrary: world)
  case (Cons entry current_state)
  have step: "labels_at (fst (reconcile_owner responds dry_run desired entry world)) loc k = labels_at world loc k"
    by (rule reconcile_owner_other) (use Cons.prems in auto)
  show ?case
  proof (cases "reconcile_owner responds dry_run desired entry world")
    case (Pair w r)
    with step Cons show ?thesis by (cases r) simp_all
  qed
qed simp

lemma reconcile_labels_other_loc:
  "loc \<notin> place_of ` set current_state \<Longrightarrow>
     labels_at (fst (reconcile_labels responds dry_run desired current_state world)) loc = labels_at world loc"
proof (induction current_state arbitrary: world)
  case (Cons entry current_state)
  have "labels_at (fst (reconcile_owner responds dry_run desired entry world)) loc = labels_at world loc"
    by (rule ext, rule reconcile_owner_other) (use Cons.prems in auto)
  with Cons show ?case by (cases "reconcile_owner responds dry_run desired entry world"; cases "snd (reconcile_owner responds dry_run desired entry world)") auto
qed simp

definition readable_entry :: "desired_labels \<Rightarrow> label_world \<Rightarrow> label_owner \<times> owned_labels \<Rightarrow> bool" where
  \<comment> \<open>the labels read are there, and the container is known\<close>
  "readable_entry desired world entry \<longleftrightarrow>
     ol_href (snd entry) \<noteq> None \<and> wf_dict (ol_labels (snd entry)) \<and> wf_dict (get_or desired (fst entry) []) \<and>
     map_of (ol_labels (snd entry)) \<subseteq>\<^sub>m labels_at world (place_of entry)"

lemma reconcile_owner_effect:
  assumes "\<And>c. responds c" "readable_entry desired world entry"
  shows "snd (reconcile_owner responds False desired entry world) = Inr () \<and>
    labels_at (fst (reconcile_owner responds False desired entry world)) (place_of entry) k =
      (if k \<in> concerned desired entry then dict_get (get_or desired (fst entry) []) k
       else labels_at world (place_of entry) k)"
proof -
  let ?d = "get_or desired (fst entry) []" and ?c = "ol_labels (snd entry)"
  from assms(2) have e: "wf_dict ?c" "wf_dict ?d" "map_of ?c \<subseteq>\<^sub>m map_of (world (place_of entry))"
    "place_of entry = (lo_env (fst entry), the (ol_href (snd entry)))" "ol_href (snd entry) \<noteq> None"
    by (auto simp: readable_entry_def labels_at_def place_of_def)
  show ?thesis
  proof (cases "set ?c = set ?d")
    case True
    then have "map_of ?c k = Some v \<longleftrightarrow> map_of ?d k = Some v" for k v
      using e(1,2) by (simp add: map_of_eq_Some_iff)
    then have "map_of ?c k = map_of ?d k" for k by (metis not_None_eq)
    moreover have "map_of ?c k = labels_at world (place_of entry) k" if "k \<in> fst ` set ?c"
    proof -
      from that have "map_of ?c k \<noteq> None" by (simp add: map_of_eq_None_iff)
      with e(3) show ?thesis by (auto simp: map_le_def labels_at_def dom_def)
    qed
    ultimately show ?thesis
      using True by (cases entry) (auto simp: reconcile_owner_def Let_def concerned_def)
  next
    case False
    then have "reconcile_owner responds False desired entry world =
        make_calls responds (label_calls (place_of entry) ?c ?d) world"
      using e(4,5) by (cases entry) (auto simp: reconcile_owner_def Let_def)
    then show ?thesis
      using label_calls_effect [where responds = responds and world = world and loc = "place_of entry", OF assms(1) e(1-3), of k]
        make_calls_all [where responds = responds, OF assms(1)]
      unfolding concerned_def labels_at_def by simp
  qed
qed

lemma labels_converge_aux:
  assumes "\<And>c. responds c" "distinct (map place_of current_state)"
    and "\<And>entry. entry \<in> set current_state \<Longrightarrow> readable_entry desired world entry"
  shows "snd (reconcile_labels responds False desired current_state world) = Inr () \<and>
    (\<forall>entry \<in> set current_state. \<forall>k.
       labels_at (fst (reconcile_labels responds False desired current_state world)) (place_of entry) k =
         (if k \<in> concerned desired entry then dict_get (get_or desired (fst entry) []) k
          else labels_at world (place_of entry) k))"
  using assms(2,3)
proof (induction current_state arbitrary: world)
  case (Cons entry current_state)
  define w where "w = fst (reconcile_owner responds False desired entry world)"
  have head: "readable_entry desired world entry" using Cons.prems(2) by simp
  note effect = reconcile_owner_effect [where responds = responds, OF assms(1) head, folded w_def]
  then have run: "reconcile_labels responds False desired (entry # current_state) world =
      reconcile_labels responds False desired current_state w"
    by (cases "reconcile_owner responds False desired entry world") (simp add: w_def)
  have same: "labels_at w (place_of e) = labels_at world (place_of e)" if "e \<in> set current_state" for e
    unfolding w_def by (rule ext, rule reconcile_owner_other) (use Cons.prems(1) that in force)
  have "readable_entry desired w e" if "e \<in> set current_state" for e
    using Cons.prems(2) [of e] that same [OF that] by (simp add: readable_entry_def)
  with Cons.IH [of w] Cons.prems(1) have ih: "snd (reconcile_labels responds False desired current_state w) = Inr ()"
    "\<And>e k. e \<in> set current_state \<Longrightarrow>
       labels_at (fst (reconcile_labels responds False desired current_state w)) (place_of e) k =
         (if k \<in> concerned desired e then dict_get (get_or desired (fst e) []) k else labels_at w (place_of e) k)"
    by auto
  have "place_of entry \<notin> place_of ` set current_state" using Cons.prems(1) by auto
  from reconcile_labels_other_loc [OF this] effect
  have "labels_at (fst (reconcile_labels responds False desired current_state w)) (place_of entry) k =
      (if k \<in> concerned desired entry then dict_get (get_or desired (fst entry) []) k
       else labels_at world (place_of entry) k)" for k by metis
  with ih same show ?case unfolding run by (simp cong: if_cong)
qed simp

text \<open>C13. The labels converge. When OCM answers all calls, a run ends without an error, and every container of
  the current state then holds exactly the desired labels among those that are desired or managed; its other
  labels are as before.\<close>
theorem labels_converge:
  assumes "\<And>c. responds c" "distinct (map place_of current_state)"
    and "\<And>entry. entry \<in> set current_state \<Longrightarrow> readable_entry desired world entry"
  shows "snd (reconcile_labels responds False desired current_state world) = Inr () \<and>
    (\<forall>entry \<in> set current_state. \<forall>k.
       labels_at (fst (reconcile_labels responds False desired current_state world)) (place_of entry) k =
         (if k \<in> concerned desired entry then dict_get (get_or desired (fst entry) []) k
          else labels_at world (place_of entry) k))"
  by (rule labels_converge_aux [where responds = responds, OF assms])

section \<open>Merging the sources\<close>

definition desires :: "desired_labels \<Rightarrow> label_owner \<Rightarrow> string \<Rightarrow> string \<Rightarrow> bool" where
  "desires states owner k v \<longleftrightarrow> dict_get (get_or states owner []) k = Some v"

lemma desires_dict_set:
  "desires (dict_set states owner ls) owner' k v \<longleftrightarrow>
     (if owner' = owner then dict_get ls k = Some v else desires states owner' k v)"
  by (simp add: desires_def get_or_dict_set)

lemma merge_label_Inr:
  "merge_label owner states kv = Inr states' \<Longrightarrow>
     desires states' owner' k v \<longleftrightarrow> desires states owner' k v \<or> (owner' = owner \<and> kv = (k, v))"
  by (auto simp: merge_label_def Let_def get_or_dict_set map_of_dict_set dict_has_def desires_def split: if_splits)

lemma merge_labels_Inr:
  "rfold (merge_label owner) states kvs = Inr states' \<Longrightarrow>
     desires states' owner' k v \<longleftrightarrow> desires states owner' k v \<or> (owner' = owner \<and> (k, v) \<in> set kvs)"
proof (induction kvs arbitrary: states)
  case (Cons kv kvs)
  then obtain x where x: "merge_label owner states kv = Inr x" "rfold (merge_label owner) x kvs = Inr states'"
    by (auto simp: rbind_Inr_iff)
  show ?case unfolding Cons.IH [OF x(2)] merge_label_Inr [OF x(1)] by auto
qed simp

lemma merge_owner_Inr:
  assumes "merge_owner states ols = Inr states'"
  shows "desires states' owner k v \<longleftrightarrow> desires states owner k v \<or> (owner = fst ols \<and> (k, v) \<in> set (snd ols))"
proof -
  have "desires (if dict_has states (fst ols) then states else dict_set states (fst ols) []) owner k v = desires states owner k v"
    by (auto simp: get_or_dict_set dict_has_def desires_def) (auto simp: get_or_def)
  with assms merge_labels_Inr show ?thesis unfolding merge_owner_def Let_def by blast
qed

lemma fetch_desired_state_Inr_aux:
  assumes "fetch_desired_state sources = Inr d"
  shows "desires d owner k v \<longleftrightarrow> (\<exists>ls. (owner, ls) \<in> set (concat sources) \<and> (k, v) \<in> set ls)"
proof -
  have "desires d owner k v \<longleftrightarrow> desires s owner k v \<or> (\<exists>ls. (owner, ls) \<in> set xs \<and> (k, v) \<in> set ls)"
    if "rfold merge_owner s xs = Inr d" for s xs
    using that
  proof (induction xs arbitrary: s)
    case (Cons ols xs)
    then obtain x where x: "merge_owner s ols = Inr x" "rfold merge_owner x xs = Inr d"
      by (auto simp: rbind_Inr_iff)
    show ?case unfolding Cons.IH [OF x(2)] merge_owner_Inr [OF x(1)] by (cases ols) auto
  qed simp
  from this [OF assms [unfolded fetch_desired_state_def]] show ?thesis by (simp add: desires_def get_or_def)
qed

text \<open>The sources are united without loss. Where they are accepted, an owner's label is desired with a value
  exactly when some source gives it that value, so that no two sources compete for a label.\<close>
theorem desired_labels_united:
  assumes "fetch_desired_state sources = Inr d"
  shows "dict_get (get_or d owner []) k = Some v \<longleftrightarrow> (\<exists>ls. (owner, ls) \<in> set (concat sources) \<and> (k, v) \<in> set ls)"
  using fetch_desired_state_Inr_aux [OF assms, of owner k v] by (simp add: desires_def)

section \<open>From a policy to its schedule\<close>

lemma build_policy_cong:
  "(\<And>atom. dict_get l (aus_label_key atom) = dict_get m (aus_label_key atom)) \<Longrightarrow>
     build_policy_from_labels lib l = build_policy_from_labels lib m"
  by (simp add: build_policy_from_labels_def)

lemma wf_labels_of_policy: "cluster_to_labels lib p = Inr labels \<Longrightarrow> wf_dict labels"
  by (auto simp: cluster_to_labels_def Let_def build_labels_dict_def split: sum.splits)

text \<open>C6. From a policy to the scheduler, end to end. Let a cluster's policy be one that labels can hold, let no
  other source set labels of the upgrade service on the cluster, and let these labels be managed and not ignored.
  Then, after a run in which OCM answers all calls, what the upgrade service reads from the labels of the
  cluster is the policy again, whatever labels the subscription had before.\<close>
theorem published_policy_is_read_back:
  assumes policy: "cluster_to_labels lib p = Inr labels" "labellable lib p" "reads_numbers lib"
    and desired: "fetch_desired_state sources = Inr d" "(owner, labels) \<in> set (concat sources)"
      "\<And>ls atom v. (owner, ls) \<in> set (concat sources) \<Longrightarrow> (aus_label_key atom, v) \<in> set ls \<Longrightarrow>
         (aus_label_key atom, v) \<in> set labels"
    and managed: "\<And>atom. starts_with_any prefixes_managed (aus_label_key atom) \<and>
         \<not> starts_with_any prefixes_ignored (aus_label_key atom)"
    and current: "(owner, cur) \<in> set current_state"
      "ol_labels cur = filter (\<lambda>(k, _). starts_with_any prefixes_managed k \<and> \<not> starts_with_any prefixes_ignored k)
         (world (place_of (owner, cur)))"
    and run: "\<And>c. responds c" "distinct (map place_of current_state)"
      "\<And>entry. entry \<in> set current_state \<Longrightarrow> readable_entry d world entry"
  shows "build_policy_from_labels lib
      (fst (reconcile_labels responds False d current_state world) (place_of (owner, cur))) = Inr (normal_policy p)"
proof -
  let ?place = "place_of (owner, cur)"
  let ?after = "fst (reconcile_labels responds False d current_state world) ?place"
  have wf: "wf_dict labels" using wf_labels_of_policy [OF policy(1)] .
  have want: "dict_get (get_or d owner []) (aus_label_key atom) = dict_get labels (aus_label_key atom)" for atom
  proof -
    have "dict_get (get_or d owner []) (aus_label_key atom) = Some v \<longleftrightarrow> dict_get labels (aus_label_key atom) = Some v" for v
      using fetch_desired_state_Inr_aux [OF desired(1), of owner "aus_label_key atom" v] desired(2,3) wf
      by (auto simp: desires_def map_of_eq_Some_iff)
    then show ?thesis by (metis not_None_eq)
  qed
  have "dict_get ?after (aus_label_key atom) = dict_get labels (aus_label_key atom)" for atom
  proof -
    have "labels_at (fst (reconcile_labels responds False d current_state world)) ?place (aus_label_key atom) =
        (if aus_label_key atom \<in> concerned d (owner, cur) then dict_get (get_or d owner []) (aus_label_key atom)
         else labels_at world ?place (aus_label_key atom))"
      using labels_converge_aux [where responds = responds, OF run(1,2,3)] current(1) by fastforce
    moreover have "labels_at world ?place (aus_label_key atom) = dict_get (get_or d owner []) (aus_label_key atom)"
      if "aus_label_key atom \<notin> concerned d (owner, cur)"
    proof -
      have "dict_get (ol_labels cur) (aus_label_key atom) = labels_at world ?place (aus_label_key atom)"
        using managed [of atom] by (simp add: current(2) map_of_filter_keys labels_at_def)
      with that show ?thesis by (simp add: concerned_def map_of_eq_None_iff [symmetric])
    qed
    ultimately show ?thesis using want by (simp add: labels_at_def)
  qed
  then have "build_policy_from_labels lib ?after = build_policy_from_labels lib labels" by (rule build_policy_cong)
  with policy_labels_round_trip_aux [OF policy(2,3)] policy(1) show ?thesis by simp
qed

end
