(* ===== verification/Aus_Label_Examples.thy ===== *)
theory Aus_Label_Examples
  imports Aus_Config Ocm_Labels Aus_Examples
begin

text \<open>
  The configuration through labels, applied to the small organization: a policy that is written, reconciled
  with OCM and read back; an organization with a cluster whose labels are wrong; an organization with a cycle.
\<close>

section \<open>A reader of numbers\<close>

lemma nat_of_digits_append:
  "nat_of_digits (s @ [c]) = 10 * nat_of_digits s + (of_char c - 48)"
  by (simp add: nat_of_digits_def)

lemma digit_char: "n < 10 \<Longrightarrow> of_char (char_of (48 + n) :: char) = (48 + n :: nat)"
  by (simp add: of_char_of)

lemma nat_of_show_digits: "nat_of_digits (show_digits n) = n \<and> is_numeral (show_digits n)"
proof (induction n rule: show_digits.induct)
  case (1 n)
  have digit: "is_digit (char_of (48 + m) :: char)" if "m < 10" for m :: nat
    using digit_char [OF that] that by (simp add: is_digit_def)
  show ?case
  proof (cases "n < 10")
    case True
    then show ?thesis using digit [of n] by (simp add: show_digits.simps [of n] nat_of_digits_def is_numeral_def digit_char)
  next
    case False
    with 1 digit [of "n mod 10"] digit_char [of "n mod 10"] show ?thesis
      by (simp add: show_digits.simps [of n] nat_of_digits_append is_numeral_def)
  qed
qed

definition demo_label_lib :: label_lib where
  "demo_label_lib = \<lparr>ll_read_int = (\<lambda>s. if is_numeral s then Some (int (nat_of_digits s)) else None),
     ll_cron_ok = (\<lambda>s. s \<noteq> []), ll_message = (\<lambda>_. ''wrong'')\<rparr>"

lemma demo_reads_numbers: "reads_numbers demo_label_lib"
  using nat_of_show_digits by (simp add: reads_numbers_def demo_label_lib_def py_str_int_def)

section \<open>A policy through labels\<close>

lemma demo_labellable: "labellable demo_label_lib demo_policy"
  by code_simp

definition demo_policy_labels :: labels where
  "demo_policy_labels = [(''sre-capabilities.aus.soak-days'', ''1''), (''sre-capabilities.aus.workloads'', ''web''),
     (''sre-capabilities.aus.schedule'', ''* * * * *''), (''sre-capabilities.aus.mutexes'', ''m1''),
     (''sre-capabilities.aus.sector'', ''prod'')]"

lemma demo_written: "cluster_to_labels demo_label_lib demo_policy = Inr demo_policy_labels"
  by code_simp

theorem policy_labels_round_trip_witness:
  "build_policy_from_labels demo_label_lib demo_policy_labels = Inr (normal_policy demo_policy)"
  using policy_labels_round_trip [OF demo_labellable demo_reads_numbers] demo_written by simp

section \<open>An organization through labels\<close>

definition demo_sector_list :: "sector_v1 list" where
  "demo_sector_list = [\<lparr>sec_name = ''prod'', sec_max_parallel_upgrades = Some ''2'', sec_dependencies = Some [''stage'']\<rparr>,
     \<lparr>sec_name = ''lonely'', sec_max_parallel_upgrades = Some ''1'', sec_dependencies = None\<rparr>]"

definition demo_lonely_org :: aus_org where
  "demo_lonely_org = demo_aus_org\<lparr>og_sectors := Some demo_sector_list\<rparr>"

text \<open>The sector \<open>lonely\<close>, whose clusters are to be upgraded one at a time, is not read back.\<close>

theorem org_sectors_read_back_witness:
  "sec_name ` set (sector_dependencies (build_org_label_set (organization_to_labels demo_lonely_org))) =
     {''prod'', ''stage''}"
proof -
  have "linked_sectors (opt_list (og_sectors demo_lonely_org)) = {''prod'', ''stage''}"
    by (auto simp: linked_sectors_def demo_lonely_org_def demo_sector_list_def)
  moreover have "set (sector_dependencies (build_org_label_set (organization_to_labels demo_lonely_org))) =
      sector_as_read (opt_list (og_sectors demo_lonely_org)) ` linked_sectors (opt_list (og_sectors demo_lonely_org))"
    by (rule org_sectors_read_back) (auto simp: demo_lonely_org_def demo_sector_list_def csv_safe_def)
  ultimately show ?thesis by (simp add: image_image sector_as_read_def)
qed

definition demo_org_refs :: "(org_ref \<times> labels) list" where
  "demo_org_refs = [(\<lparr>rf_org_id = ''o1'', rf_env_name = ''env''\<rparr>, [(aus_label_key ''version-data.inherit'', ''o2,o3'')]),
     (\<lparr>rf_org_id = ''o2'', rf_env_name = ''env''\<rparr>, [(aus_label_key ''version-data.publish'', ''o1'')]),
     (\<lparr>rf_org_id = ''o3'', rf_env_name = ''env''\<rparr>, [])]"

definition demo_inheritance :: version_data_inheritance where
  "demo_inheritance = \<lparr>vdi_org_id = ''o1'', vdi_from = [\<lparr>rf_org_id = ''o2'', rf_env_name = ''env''\<rparr>],
     vdi_unverified = [\<lparr>rf_org_id = ''o3'', rf_env_name = ''env''\<rparr>]\<rparr>"

lemma demo_network:
  "build_version_data_inheritance_network demo_org_refs = [(\<lparr>rf_org_id = ''o1'', rf_env_name = ''env''\<rparr>, demo_inheritance)]"
  by code_simp

theorem inheritance_needs_both_sides_witness:
  "{r. \<exists>ls. (r, ls) \<in> set demo_org_refs \<and> rf_org_id r \<in> requested_sources [(aus_label_key ''version-data.inherit'', ''o2,o3'')] \<and>
        ''o1'' \<in> offered_to ls} = {\<lparr>rf_org_id = ''o2'', rf_env_name = ''env''\<rparr>}"
proof -
  have get: "dict_get (build_version_data_inheritance_network demo_org_refs) \<lparr>rf_org_id = ''o1'', rf_env_name = ''env''\<rparr> =
      Some demo_inheritance" by (simp add: demo_network)
  have "distinct (map (\<lambda>p. rf_org_id (fst p)) demo_org_refs)"
    "(\<lparr>rf_org_id = ''o1'', rf_env_name = ''env''\<rparr>, [(aus_label_key ''version-data.inherit'', ''o2,o3'')]) \<in> set demo_org_refs"
    by (simp_all add: demo_org_refs_def)
  from inheritance_needs_both_sides [OF get this] show ?thesis by (simp add: demo_inheritance_def)
qed

section \<open>The specifications of an organization\<close>

definition demo_details :: "string \<Rightarrow> labels \<Rightarrow> cluster_details" where
  "demo_details n ls = \<lparr>cd_cluster = demo_cluster n ''4.12.1'', cd_organization_id = ''o1'', cd_subscription_labels = ls,
     cd_organization_labels = []\<rparr>"

definition demo_org_labels :: labels where
  "demo_org_labels = [(''sre-capabilities.aus.sector-deps.prod'', ''stage'')]"

definition demo_labelled_clusters :: "cluster_details list" where
  "demo_labelled_clusters = [demo_details ''a'' demo_policy_labels, demo_details ''b'' demo_policy_labels]"

definition demo_labelled_spec :: "string + org_upgrade_spec" where
  "demo_labelled_spec =
     build_org_upgrade_spec demo_label_lib demo_semver demo_aus_org demo_labelled_clusters demo_org_labels None [] []"

lemma demo_labelled: "case demo_labelled_spec of Inl _ \<Rightarrow> False | Inr o' \<Rightarrow> \<not> has_validation_errors o' \<and> length (ous_specs o') = 2"
  by code_simp

theorem error_free_org_is_complete_witness:
  "\<exists>o'. demo_labelled_spec = Inr o' \<and> mset (ous_specs o') =
     mset (org_specs_of demo_label_lib (labelled_org demo_aus_org demo_org_labels None) [] [] demo_labelled_clusters)"
proof -
  obtain o' where o': "demo_labelled_spec = Inr o'" "\<not> has_validation_errors o'"
    using demo_labelled by (auto split: sum.splits)
  with error_free_org_is_complete [OF o'(1) [unfolded demo_labelled_spec_def] o'(2)] show ?thesis by blast
qed

definition demo_bad_clusters :: "cluster_details list" where
  "demo_bad_clusters = [demo_details ''a'' demo_policy_labels, demo_details ''b'' []]"

lemma demo_bad_spec:
  "\<exists>o'. build_org_upgrade_spec demo_label_lib demo_semver demo_aus_org demo_bad_clusters demo_org_labels None [] [] = Inr o'"
proof -
  have "\<not> isl (build_org_upgrade_spec demo_label_lib demo_semver demo_aus_org demo_bad_clusters demo_org_labels None [] [])"
    by code_simp
  then show ?thesis by (metis sum.collapse(2))
qed

theorem bad_labels_stop_the_organization_witness:
  "\<exists>o'. build_org_upgrade_spec demo_label_lib demo_semver demo_aus_org demo_bad_clusters demo_org_labels None [] [] = Inr o' \<and>
     dict_has (ous_cluster_errors o') ''uuid-b''"
proof -
  from demo_bad_spec obtain o' where
    o': "build_org_upgrade_spec demo_label_lib demo_semver demo_aus_org demo_bad_clusters demo_org_labels None [] [] = Inr o'" ..
  have c: "demo_details ''b'' [] \<in> set demo_bad_clusters" by (simp add: demo_bad_clusters_def)
  have "cd_labels (demo_details ''b'' []) = []" by code_simp
  then have "label_defects demo_label_lib (cd_labels (demo_details ''b'' [])) \<noteq> {}" by (auto simp: label_defects_def)
  from bad_labels_stop_the_organization [OF o' c this] o' show ?thesis
    by (auto simp: demo_details_def demo_cluster_def)
qed

definition demo_cyclic_labels :: labels where
  "demo_cyclic_labels = [(''sre-capabilities.aus.sector-deps.prod'', ''stage''), (''sre-capabilities.aus.sector-deps.stage'', ''prod'')]"

definition demo_cyclic_sectors :: "(string, sector) dict" where
  "demo_cyclic_sectors =
     [(''prod'', \<lparr>st_name = ''prod'', st_max_parallel = None, st_dependencies = [''stage''], st_specs = []\<rparr>),
      (''stage'', \<lparr>st_name = ''stage'', st_max_parallel = None, st_dependencies = [''prod''], st_specs = []\<rparr>)]"

definition demo_run_start :: run_state where
  "demo_run_start = \<lparr>rs_versions = demo_version_state, rs_calls = []\<rparr>"

theorem cyclic_org_blocks_environment_witness:
  "run_scheduler (\<lambda>_ rs. (rs, Inl ''not run'')) (\<lambda>_ _. False) [(''env'', build_org_upgrade_specs_for_ocm_env demo_label_lib demo_semver
     [(''o1'', demo_aus_org), (''o2'', demo_aus_org)] [(''o2'', demo_labelled_clusters), (''o1'', demo_labelled_clusters)]
     [(''o1'', demo_cyclic_labels), (''o2'', demo_org_labels)] [] [] [])] demo_run_start = (demo_run_start, Inr ())"
proof (rule cyclic_org_blocks_environment)
  show "(''o1'', demo_labelled_clusters) \<in> set [(''o2'', demo_labelled_clusters), (''o1'', demo_labelled_clusters)]" by simp
  show "dict_get [(''o1'', demo_aus_org), (''o2'', demo_aus_org)] ''o1'' = Some demo_aus_org" by simp
  show "init_sectors (sector_dependencies (build_org_label_set
      (get_or [(''o1'', demo_cyclic_labels), (''o2'', demo_org_labels)] ''o1'' []))) = Inr demo_cyclic_sectors" by code_simp
  have "(''prod'', ''stage'') \<in> depends_on (sector_deps demo_cyclic_sectors)"
    "(''stage'', ''prod'') \<in> depends_on (sector_deps demo_cyclic_sectors)"
    by (simp_all add: depends_on_def sector_deps_def demo_cyclic_sectors_def)
  then show "\<not> acyclic (depends_on (sector_deps demo_cyclic_sectors))"
    unfolding acyclic_def by (meson trancl.intros)
qed

section \<open>Labels in OCM\<close>

definition demo_owner :: label_owner where
  "demo_owner = ClusterRef ''env'' ''o1'' ''id-a''"

definition demo_place :: "string \<times> string" where
  "demo_place = (''env'', ''/sub/labels'')"

definition demo_label_world :: label_world where
  \<comment> \<open>a wrong schedule, a label nobody wants any more, and one of another capability\<close>
  "demo_label_world = (\<lambda>_. [])(demo_place := [(''sre-capabilities.aus.schedule'', ''0 0 * * *''),
     (''sre-capabilities.aus.blocked-versions'', ''4.13''), (''sre-capabilities.dtp'', ''x'')])"

definition demo_managed :: "string list" where "demo_managed = [''sre-capabilities.aus.'']"

definition demo_desired :: desired_labels where
  "demo_desired = [(demo_owner, demo_policy_labels)]"

lemma demo_united: "fetch_desired_state [[(demo_owner, demo_policy_labels)]] = Inr demo_desired"
  by code_simp

definition demo_owned :: owned_labels where
  "demo_owned = \<lparr>ol_href = Some ''/sub/labels'', ol_labels = [(''sre-capabilities.aus.schedule'', ''0 0 * * *''),
     (''sre-capabilities.aus.blocked-versions'', ''4.13'')]\<rparr>"

lemma demo_place_of [simp]: "place_of (demo_owner, demo_owned) = demo_place"
  by (simp add: place_of_def demo_owner_def demo_owned_def demo_place_def)

lemma demo_readable:
  assumes "entry \<in> set [(demo_owner, demo_owned)]"
  shows "readable_entry demo_desired demo_label_world entry"
proof -
  have "wf_dict (ol_labels demo_owned)" "wf_dict (get_or demo_desired demo_owner [])" by code_simp+
  moreover have "map_of (ol_labels demo_owned) \<subseteq>\<^sub>m labels_at demo_label_world demo_place"
    by (auto simp: map_le_def labels_at_def demo_label_world_def demo_owned_def)
  ultimately show ?thesis using assms by (auto simp: readable_entry_def demo_owned_def [THEN arg_cong, of ol_href])
qed

theorem desired_labels_united_witness:
  "dict_get (get_or demo_desired demo_owner []) ''sre-capabilities.aus.sector'' = Some ''prod'' \<longleftrightarrow>
     (\<exists>ls. (demo_owner, ls) \<in> set (concat [[(demo_owner, demo_policy_labels)]]) \<and>
        (''sre-capabilities.aus.sector'', ''prod'') \<in> set ls)"
  by (rule desired_labels_united [OF demo_united])

theorem foreign_labels_untouched_witness:
  "labels_at (fst (reconcile_labels (\<lambda>_. False) False demo_desired [(demo_owner, demo_owned)] demo_label_world))
     demo_place ''sre-capabilities.dtp'' = Some ''x''"
proof -
  have "''sre-capabilities.dtp'' \<notin> concerned demo_desired (demo_owner, demo_owned)" by code_simp
  then have "labels_at (fst (reconcile_labels (\<lambda>_. False) False demo_desired [(demo_owner, demo_owned)] demo_label_world))
      demo_place ''sre-capabilities.dtp'' = labels_at demo_label_world demo_place ''sre-capabilities.dtp''"
    by (intro foreign_labels_untouched) auto
  then show ?thesis by (simp add: labels_at_def demo_label_world_def)
qed

theorem labels_converge_witness:
  "labels_at (fst (reconcile_labels (\<lambda>_. True) False demo_desired [(demo_owner, demo_owned)] demo_label_world))
     demo_place ''sre-capabilities.aus.blocked-versions'' = None"
proof -
  have "''sre-capabilities.aus.blocked-versions'' \<in> concerned demo_desired (demo_owner, demo_owned)"
    "dict_get (get_or demo_desired demo_owner []) ''sre-capabilities.aus.blocked-versions'' = None" by code_simp+
  moreover have "labels_at (fst (reconcile_labels (\<lambda>_. True) False demo_desired [(demo_owner, demo_owned)] demo_label_world))
      (place_of (demo_owner, demo_owned)) k =
      (if k \<in> concerned demo_desired (demo_owner, demo_owned)
       then dict_get (get_or demo_desired (fst (demo_owner, demo_owned)) []) k
       else labels_at demo_label_world (place_of (demo_owner, demo_owned)) k)" for k
    by (rule spec [OF bspec [OF conjunct2 [OF labels_converge]]]) (simp_all add: demo_readable)
  ultimately show ?thesis by simp
qed

theorem published_policy_is_read_back_witness:
  "build_policy_from_labels demo_label_lib
     (fst (reconcile_labels (\<lambda>_. True) False demo_desired [(demo_owner, demo_owned)] demo_label_world)
       (place_of (demo_owner, demo_owned))) = Inr (normal_policy demo_policy)"
proof (rule published_policy_is_read_back [OF demo_written demo_labellable demo_reads_numbers demo_united])
  show "(demo_owner, demo_policy_labels) \<in> set (concat [[(demo_owner, demo_policy_labels)]])" by simp
  show "(aus_label_key atom, v) \<in> set demo_policy_labels"
    if "(demo_owner, ls) \<in> set (concat [[(demo_owner, demo_policy_labels)]])" "(aus_label_key atom, v) \<in> set ls" for ls atom v
    using that by simp
  show "starts_with_any demo_managed (aus_label_key atom) \<and> \<not> starts_with_any [] (aus_label_key atom)" for atom
    by (simp add: starts_with_any_def demo_managed_def aus_label_key_def sre_capability_label_key_def)
  show "(demo_owner, demo_owned) \<in> set [(demo_owner, demo_owned)]" by simp
  show "ol_labels demo_owned = filter (\<lambda>(k, _). starts_with_any demo_managed k \<and> \<not> starts_with_any [] k)
      (demo_label_world (place_of (demo_owner, demo_owned)))"
    unfolding demo_place_of by code_simp
  show "distinct (map place_of [(demo_owner, demo_owned)])" by simp
qed (simp_all add: demo_readable)

section \<open>Addons of clusters with the same name\<close>

text \<open>Two organizations have a cluster of the same name. The addons are looked up by the name of the cluster over
  all organizations, so that the first organization gets the addons of the cluster of the second one.\<close>

definition demo_twin :: "string \<Rightarrow> cluster_details" where
  "demo_twin org_id = \<lparr>cd_cluster = (demo_cluster ''a'' ''4.12.1'')\<lparr>oc_id := ''id-'' @ org_id\<rparr>, cd_organization_id = org_id,
     cd_subscription_labels = [], cd_organization_labels = []\<rparr>"

definition demo_addon_of :: "string \<Rightarrow> addon_installation list" where
  "demo_addon_of cluster_id =
     [\<lparr>ai_id = ''addon-of-'' @ cluster_id, ai_version_id = ''1.0.0'', ai_available_upgrades = []\<rparr>]"

definition demo_twin_org :: "string \<Rightarrow> aus_org" where
  "demo_twin_org org_id = demo_aus_org\<lparr>og_name := org_id, og_org_id := org_id,
     og_upgrade_policy_clusters := Some [(''a'', demo_policy\<lparr>up_conditions := demo_conditions\<lparr>uc_sector := None\<rparr>\<rparr>)]\<rparr>"

definition demo_addon_specs :: "string + (string \<times> org_upgrade_spec) list" where
  "demo_addon_specs = addon_env_upgrade_specs demo_semver None [demo_twin_org ''o1'', demo_twin_org ''o2'']
     [demo_twin ''o1'', demo_twin ''o2''] demo_addon_of []"

lemma addons_of_the_other_organization:
  "case demo_addon_specs of Inl _ \<Rightarrow> False | Inr orgs \<Rightarrow>
     map (\<lambda>s. (oc_id (us_cluster s), map_option ai_id (us_addon s))) (concat (map (ous_specs \<circ> snd) orgs)) =
       [(''id-o1'', Some ''addon-of-id-o2''), (''id-o2'', Some ''addon-of-id-o2'')]"
  by code_simp

end
