(* ===== verification/Ocm_Filter.thy ===== *)
theory Ocm_Filter
  imports Json_Path
begin

text \<open>
  The search filters of the OCM client, \<open>reconcile/utils/ocm/search_filters.py\<close>: conditions on the fields of
  the objects that OCM lists, how filters are combined and split, and their text in the search language of
  OCM. The \<open>dateparser\<close> package and the format of dates are parameters.
\<close>

section \<open>Filters\<close>

datatype filter_mode = AndMode | OrMode

datatype date_bound = DateTime int | DateText string

datatype filter_condition =
    EqCondition (fc_key: string) (fc_values: "string list")
  | LikeCondition (fc_key: string) (fc_values: "string list")
  | FilterObjectCondition (fc_key: string) (fc_filter: ocm_filter)
  | DateRangeCondition (fc_key: string) (fc_start: "date_bound option") (fc_end: "date_bound option")
and ocm_filter = Filter (ft_conditions: "filter_condition list") (ft_mode: filter_mode)

definition copy_and_merge :: "filter_condition \<Rightarrow> filter_condition \<Rightarrow> string + filter_condition" where
  "copy_and_merge c other =
     (case (c, other) of
        (EqCondition k vs, EqCondition _ ws) \<Rightarrow> Inr (EqCondition k (sort (remdups (vs @ ws))))
      | (LikeCondition k vs, LikeCondition _ ws) \<Rightarrow> Inr (LikeCondition k (sort (remdups (vs @ ws))))
      | _ \<Rightarrow> Inl ''InvalidFilterError'')"

definition condition_by_key :: "ocm_filter \<Rightarrow> string \<Rightarrow> filter_condition option" where
  "condition_by_key f key = find (\<lambda>c. fc_key c = key) (ft_conditions f)"

definition copy_and_override :: "ocm_filter \<Rightarrow> filter_condition \<Rightarrow> ocm_filter" where
  "copy_and_override f c = Filter (filter (\<lambda>d. fc_key d \<noteq> fc_key c) (ft_conditions f) @ [c]) (ft_mode f)"

definition add_condition :: "ocm_filter \<Rightarrow> filter_condition \<Rightarrow> string + ocm_filter" where
  "add_condition f c =
     (case condition_by_key f (fc_key c) of
        None \<Rightarrow> Inr (Filter (ft_conditions f @ [c]) (ft_mode f))
      | Some existing \<Rightarrow> rbind (copy_and_merge existing c) (\<lambda>merged. Inr (copy_and_override f merged)))"

definition is_in :: "ocm_filter \<Rightarrow> string \<Rightarrow> string list \<Rightarrow> string + ocm_filter" where
  "is_in f key values = (if values = [] then Inr f else add_condition f (EqCondition key (sort values)))"

definition filter_eq :: "ocm_filter \<Rightarrow> string \<Rightarrow> string option \<Rightarrow> string + ocm_filter" where
  "filter_eq f key value = (case truthy_str value of None \<Rightarrow> Inr f | Some v \<Rightarrow> is_in f key [v])"

definition filter_like :: "ocm_filter \<Rightarrow> string \<Rightarrow> string option \<Rightarrow> string + ocm_filter" where
  "filter_like f key value =
     (case truthy_str value of None \<Rightarrow> Inr f | Some v \<Rightarrow> add_condition f (LikeCondition key [v]))"

definition filter_between ::
  "ocm_filter \<Rightarrow> string \<Rightarrow> date_bound option \<Rightarrow> date_bound option \<Rightarrow> string + ocm_filter" where
  "filter_between f key start end' = add_condition f (DateRangeCondition key start end')"

definition truthy_date :: "date_bound option \<Rightarrow> date_bound option" where
  "truthy_date d = (case d of Some (DateText t) \<Rightarrow> if t = [] then None else d | _ \<Rightarrow> d)"

definition filter_before :: "ocm_filter \<Rightarrow> string \<Rightarrow> date_bound option \<Rightarrow> string + ocm_filter" where
  "filter_before f key date =
     (case truthy_date date of None \<Rightarrow> Inr f | Some d \<Rightarrow> add_condition f (DateRangeCondition key None (Some d)))"

definition filter_after :: "ocm_filter \<Rightarrow> string \<Rightarrow> date_bound option \<Rightarrow> string + ocm_filter" where
  "filter_after f key date =
     (case truthy_date date of None \<Rightarrow> Inr f | Some d \<Rightarrow> add_condition f (DateRangeCondition key (Some d) None))"

text \<open>A filter that becomes a condition gets the key \<open>str(id(...))\<close>: the identity of the object, an argument.\<close>

definition filter_and :: "string \<Rightarrow> ocm_filter \<Rightarrow> string \<Rightarrow> ocm_filter \<Rightarrow> string + ocm_filter" where
  "filter_and self_id f other_id g =
     (let self_conditions = (if ft_mode f \<noteq> AndMode then [FilterObjectCondition self_id f] else ft_conditions f);
          other_conditions = (if ft_mode g \<noteq> AndMode then [FilterObjectCondition other_id g] else ft_conditions g)
      in rfold add_condition (Filter [] AndMode) (self_conditions @ other_conditions))"

definition filter_or :: "string \<Rightarrow> ocm_filter \<Rightarrow> string \<Rightarrow> ocm_filter \<Rightarrow> ocm_filter" where
  "filter_or self_id f other_id g =
     (let self_conditions = (if ft_mode f \<noteq> OrMode \<and> 1 < length (ft_conditions f)
            then [FilterObjectCondition self_id f] else ft_conditions f);
          other_conditions = (if ft_mode g \<noteq> OrMode \<and> 1 < length (ft_conditions g)
            then [FilterObjectCondition other_id g] else ft_conditions g)
      in Filter (self_conditions @ other_conditions) OrMode)"

section \<open>Chunks\<close>

function slices :: "nat \<Rightarrow> 'a list \<Rightarrow> 'a list list" where
  "slices n xs = (if n = 0 \<or> xs = [] then [] else take n xs # slices n (drop n xs))"
  by pat_completeness auto
termination by (relation "measure (\<lambda>(n, xs). length xs)") auto

declare slices.simps [simp del]

definition with_values :: "filter_condition \<Rightarrow> string list \<Rightarrow> filter_condition" where
  "with_values c vs = (case c of EqCondition k _ \<Rightarrow> EqCondition k vs | LikeCondition k _ \<Rightarrow> LikeCondition k vs | _ \<Rightarrow> c)"

definition is_list_condition :: "filter_condition \<Rightarrow> bool" where
  "is_list_condition c = (case c of EqCondition _ _ \<Rightarrow> True | LikeCondition _ _ \<Rightarrow> True | _ \<Rightarrow> False)"

definition chunk_by :: "ocm_filter \<Rightarrow> string \<Rightarrow> int \<Rightarrow> bool \<Rightarrow> string + ocm_filter list" where
  \<comment> \<open>\<open>range\<close> refuses the step zero and is empty for a negative one\<close>
  "chunk_by f key chunk_size ignore_missing =
     (let missing = (if ignore_missing then Inr [f] else Inl ''InvalidChunkRequestError'') in
      case condition_by_key f key of
        None \<Rightarrow> missing
      | Some c \<Rightarrow>
          if \<not> is_list_condition c then missing
          else if chunk_size = 0 then Inl ''ValueError''
          else Inr (map (\<lambda>vs. copy_and_override f (with_values c vs)) (slices (nat chunk_size) (fc_values c))))"

section \<open>The text of a filter\<close>

record search_lib =
  sl_parse :: "string \<Rightarrow> int option"
  sl_iso :: "int \<Rightarrow> string"

definition resolve_date :: "search_lib \<Rightarrow> date_bound option \<Rightarrow> string + int option" where
  \<comment> \<open>\<open>resolve_start\<close> and \<open>resolve_end\<close>\<close>
  "resolve_date lib d =
     (case truthy_date d of
        None \<Rightarrow> Inr None
      | Some (DateTime t) \<Rightarrow> Inr (Some t)
      | Some (DateText s) \<Rightarrow> (case sl_parse lib s of None \<Rightarrow> Inl ''InvalidFilterError'' | Some t \<Rightarrow> Inr (Some t)))"

definition escape_value :: "string \<Rightarrow> string" where
  "escape_value v = concat (map (\<lambda>c. if c = CHR 39 then [CHR 39, CHR 39] else [c]) v)"

definition in_quotes :: "string \<Rightarrow> string" where
  "in_quotes s = CHR 39 # s @ [CHR 39]"

definition render_eq :: "string \<Rightarrow> string list \<Rightarrow> string" where
  "render_eq key values =
     (case values of
        [v] \<Rightarrow> key @ ''='' @ in_quotes (escape_value v)
      | _ \<Rightarrow> key @ '' in ('' @ join '','' (map (\<lambda>v. in_quotes (escape_value v)) values) @ '')'')"

definition render_like :: "string \<Rightarrow> string list \<Rightarrow> string" where
  "render_like key values =
     (let text = join '' or '' (map (\<lambda>v. key @ '' like '' @ in_quotes v) values)
      in if 1 < length values then ''('' @ text @ '')'' else text)"

definition render_range :: "search_lib \<Rightarrow> string \<Rightarrow> int option \<Rightarrow> int option \<Rightarrow> string + string" where
  "render_range lib key start end' =
     (case (start, end') of
        (None, None) \<Rightarrow> Inl ''InvalidFilterError''
      | (Some s, None) \<Rightarrow> Inr (key @ '' >= '' @ in_quotes (sl_iso lib s))
      | (None, Some e) \<Rightarrow> Inr (key @ '' <= '' @ in_quotes (sl_iso lib e))
      | (Some s, Some e) \<Rightarrow>
          if e < s then Inl ''InvalidFilterError''
          else Inr (key @ '' >= '' @ in_quotes (sl_iso lib s) @ '' and '' @ key @ '' <= '' @ in_quotes (sl_iso lib e)))"

lemma size_condition [termination_simp]:
  "c \<in> set cs \<Longrightarrow> size c < Suc (size_list size cs)"
  using size_list_estimation' [of c cs "size c" size] by simp

function (sequential) render_condition :: "search_lib \<Rightarrow> filter_condition \<Rightarrow> string + string"
and render :: "search_lib \<Rightarrow> ocm_filter \<Rightarrow> string + string" where
  "render_condition lib (EqCondition key values) = Inr (render_eq key values)"
| "render_condition lib (LikeCondition key values) = Inr (render_like key values)"
| "render_condition lib (FilterObjectCondition key f) = render lib f"
| "render_condition lib (DateRangeCondition key start end') =
     rbind (resolve_date lib start) (\<lambda>s. rbind (resolve_date lib end') (\<lambda>e. render_range lib key s e))"
| "render lib (Filter conditions mode) =
     (if conditions = [] then Inl ''InvalidFilterError''
      else rbind (rmap (render_condition lib) (sort_key fc_key conditions)) (\<lambda>rendered.
        Inr (case mode of
            AndMode \<Rightarrow> join '' and '' rendered
          | OrMode \<Rightarrow> if 1 < length rendered then ''('' @ join '' or '' rendered @ '')'' else join '' or '' rendered)))"
  by pat_completeness auto
termination
  by (relation "measure (\<lambda>x. case x of Inl (_, c) \<Rightarrow> size c | Inr (_, f) \<Rightarrow> size f)")
    (auto simp: size_condition)

end
