(* ===== verification/Ocm_Filter_Text.thy ===== *)
theory Ocm_Filter_Text
  imports Ocm_Filter
begin

text \<open>
  What the search filters mean, and that their text says so: a reader of the search language of OCM (comparisons,
  \<open>and\<close>, \<open>or\<close> and parentheses, with the usual precedence) that gives every text a meaning, and the proof that
  the text of a filter is read as the filter.
\<close>

section \<open>Meaning\<close>

record search_row =
  \<comment> \<open>what is true of an object: the value of a field, a pattern, a date\<close>
  sr_is :: "string \<Rightarrow> string \<Rightarrow> bool"
  sr_like :: "string \<Rightarrow> string \<Rightarrow> bool"
  sr_from :: "string \<Rightarrow> string \<Rightarrow> bool"
  sr_until :: "string \<Rightarrow> string \<Rightarrow> bool"

definition bound_holds :: "(string \<Rightarrow> bool) \<Rightarrow> search_lib \<Rightarrow> date_bound option \<Rightarrow> bool" where
  "bound_holds P lib d = (case resolve_date lib d of Inr (Some t) \<Rightarrow> P (sl_iso lib t) | _ \<Rightarrow> True)"

primrec condition_holds :: "search_lib \<Rightarrow> search_row \<Rightarrow> filter_condition \<Rightarrow> bool"
  and filter_holds :: "search_lib \<Rightarrow> search_row \<Rightarrow> ocm_filter \<Rightarrow> bool" where
  "condition_holds lib r (EqCondition key values) \<longleftrightarrow> list_ex (sr_is r key) values"
| "condition_holds lib r (LikeCondition key values) \<longleftrightarrow> list_ex (sr_like r key) values"
| "condition_holds lib r (FilterObjectCondition key f) \<longleftrightarrow> filter_holds lib r f"
| "condition_holds lib r (DateRangeCondition key start end') \<longleftrightarrow>
     bound_holds (sr_from r key) lib start \<and> bound_holds (sr_until r key) lib end'"
| "filter_holds lib r (Filter conditions mode) \<longleftrightarrow>
     (case mode of AndMode \<Rightarrow> list_all id (map (condition_holds lib r) conditions)
                 | OrMode \<Rightarrow> list_ex id (map (condition_holds lib r) conditions))"

section \<open>Reading\<close>

definition identifier_char :: "char \<Rightarrow> bool" where
  "identifier_char c \<longleftrightarrow> c \<noteq> CHR '' '' \<and> c \<noteq> CHR ''='' \<and> c \<noteq> CHR ''('' \<and> c \<noteq> CHR '')'' \<and> c \<noteq> CHR '','' \<and> c \<noteq> CHR 39"

definition strip_prefix :: "string \<Rightarrow> string \<Rightarrow> string option" where
  "strip_prefix p s = (if prefix p s then Some (drop (length p) s) else None)"

fun scan_quoted :: "string \<Rightarrow> (string \<times> string) option" where
  \<comment> \<open>after the opening quote; a quote within the text is doubled\<close>
  "scan_quoted [] = None"
| "scan_quoted (c # cs) =
     (if c \<noteq> CHR 39 then map_option (\<lambda>(v, rest). (c # v, rest)) (scan_quoted cs)
      else case cs of
        [] \<Rightarrow> Some ([], [])
      | d # ds \<Rightarrow> if d = CHR 39 then map_option (\<lambda>(v, rest). (c # v, rest)) (scan_quoted ds) else Some ([], cs))"

definition read_quoted :: "string \<Rightarrow> (string \<times> string) option" where
  "read_quoted s = Option.bind (strip_prefix [CHR 39] s) scan_quoted"

fun read_values :: "nat \<Rightarrow> string \<Rightarrow> (string list \<times> string) option" where
  "read_values 0 s = None"
| "read_values (Suc n) s =
     (case read_quoted s of
        None \<Rightarrow> None
      | Some (v, rest) \<Rightarrow>
          (case strip_prefix '','' rest of
             Some rest \<Rightarrow> map_option (\<lambda>(vs, rest). (v # vs, rest)) (read_values n rest)
           | None \<Rightarrow> map_option (\<lambda>rest. ([v], rest)) (strip_prefix '')'' rest)))"

definition read_comparison :: "nat \<Rightarrow> string \<Rightarrow> ((search_row \<Rightarrow> bool) \<times> string) option" where
  "read_comparison n s =
     (let key = takeWhile identifier_char s; rest = dropWhile identifier_char s;
          test = (\<lambda>op P. Option.bind (strip_prefix op rest) (\<lambda>t. map_option (\<lambda>(v, u). (\<lambda>r. P r key v, u)) (read_quoted t)))
      in if key = [] then None
         else case Option.bind (strip_prefix '' in ('' rest) (read_values n) of
           Some (vs, u) \<Rightarrow> Some (\<lambda>r. list_ex (sr_is r key) vs, u)
         | None \<Rightarrow> (case test ''='' sr_is of Some x \<Rightarrow> Some x
         | None \<Rightarrow> (case test '' like '' sr_like of Some x \<Rightarrow> Some x
         | None \<Rightarrow> (case test '' >= '' sr_from of Some x \<Rightarrow> Some x
         | None \<Rightarrow> test '' <= '' sr_until))))"

fun read_atom :: "nat \<Rightarrow> string \<Rightarrow> ((search_row \<Rightarrow> bool) \<times> string) option"
  and read_and :: "nat \<Rightarrow> string \<Rightarrow> ((search_row \<Rightarrow> bool) \<times> string) option"
  and read_or :: "nat \<Rightarrow> string \<Rightarrow> ((search_row \<Rightarrow> bool) \<times> string) option" where
  "read_atom 0 s = None"
| "read_atom (Suc n) s =
     (case strip_prefix ''('' s of
        None \<Rightarrow> read_comparison n s
      | Some t \<Rightarrow> Option.bind (read_or n t) (\<lambda>(m, u). map_option (\<lambda>rest. (m, rest)) (strip_prefix '')'' u)))"
| "read_and 0 s = None"
| "read_and (Suc n) s =
     Option.bind (read_atom n s) (\<lambda>(m, t).
       case strip_prefix '' and '' t of
         None \<Rightarrow> Some (m, t)
       | Some u \<Rightarrow> map_option (\<lambda>(m', rest). (\<lambda>r. m r \<and> m' r, rest)) (read_and n u))"
| "read_or 0 s = None"
| "read_or (Suc n) s =
     Option.bind (read_and n s) (\<lambda>(m, t).
       case strip_prefix '' or '' t of
         None \<Rightarrow> Some (m, t)
       | Some u \<Rightarrow> map_option (\<lambda>(m', rest). (\<lambda>r. m r \<or> m' r, rest)) (read_or n u))"

definition read_search :: "string \<Rightarrow> (search_row \<Rightarrow> bool) option" where
  "read_search s = (case read_or (2 * length s + 3) s of Some (m, []) \<Rightarrow> Some m | _ \<Rightarrow> None)"

section \<open>Reading what was written: comparisons\<close>

lemma strip_prefix_append [simp]: "strip_prefix p (p @ s) = Some s"
  by (simp add: strip_prefix_def)

lemma strip_prefix_Cons [simp]:
  "strip_prefix (c # p) (d # s) = (if c = d then strip_prefix p s else None)"
  "strip_prefix [] s = Some s" "strip_prefix (c # p) [] = None"
  by (auto simp: strip_prefix_def)

definition ends_text :: "string \<Rightarrow> bool" where
  \<comment> \<open>a quoted text can end before\<close>
  "ends_text rest \<longleftrightarrow> (case rest of [] \<Rightarrow> True | c # _ \<Rightarrow> c \<noteq> CHR 39)"

lemma scan_escaped: "ends_text rest \<Longrightarrow> scan_quoted (escape_value v @ CHR 39 # rest) = Some (v, rest)"
  by (induction v) (auto simp: escape_value_def ends_text_def split: list.splits)

lemma read_escaped [simp]:
  "ends_text rest \<Longrightarrow> read_quoted (in_quotes (escape_value v) @ rest) = Some (v, rest)"
  by (simp add: read_quoted_def in_quotes_def scan_escaped)

lemma escape_plain: "CHR 39 \<notin> set v \<Longrightarrow> escape_value v = v"
  by (induction v) (auto simp: escape_value_def)

lemma read_plain: "ends_text rest \<Longrightarrow> CHR 39 \<notin> set v \<Longrightarrow> read_quoted (in_quotes v @ rest) = Some (v, rest)"
  using read_escaped [of rest v] by (simp add: escape_plain)

lemma read_values_join:
  "vs \<noteq> [] \<Longrightarrow> length vs \<le> n \<Longrightarrow>
     read_values n (join '','' (map (\<lambda>v. in_quotes (escape_value v)) vs) @ '')'' @ rest) = Some (vs, rest)"
proof (induction vs arbitrary: n)
  case (Cons v vs)
  then obtain n' where n: "n = Suc n'" by (cases n) auto
  show ?case
  proof (cases vs)
    case Nil
    have "read_quoted (in_quotes (escape_value v) @ '')'' @ rest) = Some (v, '')'' @ rest)"
      by (rule read_escaped) (simp add: ends_text_def)
    with Nil n show ?thesis by simp
  next
    case (Cons w ws)
    let ?more = "join '','' (map (\<lambda>v. in_quotes (escape_value v)) vs) @ '')'' @ rest"
    have "read_quoted (in_quotes (escape_value v) @ '','' @ ?more) = Some (v, '','' @ ?more)"
      by (rule read_escaped) (simp add: ends_text_def)
    moreover have "read_values n' ?more = Some (vs, rest)" using Cons.IH [of n'] Cons.prems n Cons by simp
    ultimately show ?thesis using Cons n by simp
  qed
qed simp

definition plain_key :: "string \<Rightarrow> bool" where
  "plain_key key \<longleftrightarrow> key \<noteq> [] \<and> list_all identifier_char key"

lemma plain_key_take:
  "plain_key key \<Longrightarrow> \<not> identifier_char c \<Longrightarrow>
     takeWhile identifier_char (key @ c # s) = key \<and> dropWhile identifier_char (key @ c # s) = c # s"
  by (simp add: plain_key_def list_all_iff)

definition written_atom :: "string \<Rightarrow> (search_row \<Rightarrow> bool) \<Rightarrow> bool" where
  \<comment> \<open>the text, wherever it stands, is read as a unit with this meaning\<close>
  "written_atom t m \<longleftrightarrow>
     (\<forall>n rest. 2 * length t + 1 \<le> n \<longrightarrow> ends_text rest \<longrightarrow> read_atom n (t @ rest) = Some (m, rest))"

lemma written_comparison:
  assumes "\<And>n rest. length t \<le> n \<Longrightarrow> ends_text rest \<Longrightarrow> read_comparison n (t @ rest) = Some (m, rest)"
    and "t = key @ u" "plain_key key"
  shows "written_atom t m"
proof -
  have "strip_prefix ''('' (t @ rest) = None" for rest
    using assms(2,3) by (cases key) (auto simp: plain_key_def identifier_char_def)
  moreover have "\<exists>k. n = Suc k \<and> length t \<le> k" if "2 * length t + 1 \<le> n" for n
    using that by (cases n) auto
  ultimately show ?thesis
    unfolding written_atom_def using assms(1) by fastforce
qed

lemma written_equals:
  assumes "plain_key key"
  shows "written_atom (key @ ''='' @ in_quotes (escape_value v)) (\<lambda>r. sr_is r key v)"
proof -
  have take: "takeWhile identifier_char (key @ CHR ''='' # s) = key \<and>
      dropWhile identifier_char (key @ CHR ''='' # s) = CHR ''='' # s" for s
    using assms by (rule plain_key_take) (simp add: identifier_char_def)
  have ne: "key \<noteq> []" using assms by (simp add: plain_key_def)
  show ?thesis
    by (rule written_comparison [OF _ refl assms]) (simp add: read_comparison_def Let_def take ne)
qed

lemma written_test:
  assumes "plain_key key" "CHR 39 \<notin> set v"
  shows "written_atom (key @ '' like '' @ in_quotes v) (\<lambda>r. sr_like r key v)"
    and "written_atom (key @ '' >= '' @ in_quotes v) (\<lambda>r. sr_from r key v)"
    and "written_atom (key @ '' <= '' @ in_quotes v) (\<lambda>r. sr_until r key v)"
proof -
  have take: "takeWhile identifier_char (key @ CHR '' '' # s) = key \<and>
      dropWhile identifier_char (key @ CHR '' '' # s) = CHR '' '' # s" for s
    using assms(1) by (rule plain_key_take) (simp add: identifier_char_def)
  have ne: "key \<noteq> []" using assms(1) by (simp add: plain_key_def)
  show "written_atom (key @ '' like '' @ in_quotes v) (\<lambda>r. sr_like r key v)"
    by (rule written_comparison [OF _ refl assms(1)])
      (simp add: read_comparison_def Let_def take ne read_plain assms(2))
  show "written_atom (key @ '' >= '' @ in_quotes v) (\<lambda>r. sr_from r key v)"
    by (rule written_comparison [OF _ refl assms(1)])
      (simp add: read_comparison_def Let_def take ne read_plain assms(2))
  show "written_atom (key @ '' <= '' @ in_quotes v) (\<lambda>r. sr_until r key v)"
    by (rule written_comparison [OF _ refl assms(1)])
      (simp add: read_comparison_def Let_def take ne read_plain assms(2))
qed

lemma length_join: "(\<And>x. x \<in> set xs \<Longrightarrow> 1 \<le> length x) \<Longrightarrow> length xs \<le> length (join sep xs)"
proof (induction sep xs rule: join.induct)
  case (3 sep x y ys)
  have "1 \<le> length x" "length (y # ys) \<le> length (join sep (y # ys))" using "3.IH" "3.prems" by simp_all
  then show ?case by (simp del: join.simps(2,3) add: join.simps(3))
qed simp_all

lemma written_in:
  assumes "plain_key key" "vs \<noteq> []"
  shows "written_atom (key @ '' in ('' @ join '','' (map (\<lambda>v. in_quotes (escape_value v)) vs) @ '')'')
    (\<lambda>r. list_ex (sr_is r key) vs)"
proof -
  have take: "takeWhile identifier_char (key @ CHR '' '' # s) = key \<and>
      dropWhile identifier_char (key @ CHR '' '' # s) = CHR '' '' # s" for s
    using assms(1) by (rule plain_key_take) (simp add: identifier_char_def)
  have ne: "key \<noteq> []" using assms(1) by (simp add: plain_key_def)
  have len: "length vs \<le> length (join '','' (map (\<lambda>v. in_quotes (escape_value v)) vs))"
  proof -
    have "1 \<le> length x" if "x \<in> set (map (\<lambda>v. in_quotes (escape_value v)) vs)" for x
      using that by (auto simp: in_quotes_def)
    from length_join [of "map (\<lambda>v. in_quotes (escape_value v)) vs" "'',''", OF this] show ?thesis by simp
  qed
  show ?thesis
  proof (rule written_comparison [OF _ refl assms(1)])
    fix n rest
    assume "length (key @ '' in ('' @ join '','' (map (\<lambda>v. in_quotes (escape_value v)) vs) @ '')'') \<le> n"
    with len have "length vs \<le> n" by simp
    from read_values_join [OF assms(2) this]
    show "read_comparison n ((key @ '' in ('' @ join '','' (map (\<lambda>v. in_quotes (escape_value v)) vs) @ '')'') @ rest) =
        Some (\<lambda>r. list_ex (sr_is r key) vs, rest)"
      by (simp add: read_comparison_def Let_def take ne)
  qed
qed

section \<open>Reading what was written: and, or\<close>

definition written_and :: "string \<Rightarrow> (search_row \<Rightarrow> bool) \<Rightarrow> bool" where
  \<comment> \<open>a conjunction of units\<close>
  "written_and t m \<longleftrightarrow> (\<exists>ps. ps \<noteq> [] \<and> t = join '' and '' (map fst ps) \<and> (\<forall>(u, k) \<in> set ps. written_atom u k) \<and>
     m = (\<lambda>r. \<forall>(u, k) \<in> set ps. k r))"

lemma written_and_single: "written_atom t m \<Longrightarrow> written_and t m"
  unfolding written_and_def by (intro exI [of _ "[(t, m)]"]) simp

lemma join_Cons: "xs \<noteq> [] \<Longrightarrow> join sep (x # xs) = x @ sep @ join sep xs"
  by (cases xs) simp_all

lemma join_append: "xs \<noteq> [] \<Longrightarrow> ys \<noteq> [] \<Longrightarrow> join sep (xs @ ys) = join sep xs @ sep @ join sep ys"
proof (induction xs)
  case (Cons x xs)
  then show ?case by (cases "xs = []") (simp_all add: join_Cons)
qed simp

lemma written_and_append:
  assumes "written_and t m" "written_and u k"
  shows "written_and (t @ '' and '' @ u) (\<lambda>r. m r \<and> k r)"
proof -
  from assms obtain ps qs where "ps \<noteq> []" "t = join '' and '' (map fst ps)" "\<forall>(u, k) \<in> set ps. written_atom u k"
    "m = (\<lambda>r. \<forall>(u, k) \<in> set ps. k r)" "qs \<noteq> []" "u = join '' and '' (map fst qs)" "\<forall>(u, k) \<in> set qs. written_atom u k"
    "k = (\<lambda>r. \<forall>(u, k) \<in> set qs. k r)" unfolding written_and_def by blast
  then show ?thesis
    unfolding written_and_def by (intro exI [of _ "ps @ qs"]) (auto simp: join_append ball_Un)
qed

lemma written_and_join:
  "ps \<noteq> [] \<Longrightarrow> (\<And>u k. (u, k) \<in> set ps \<Longrightarrow> written_and u k) \<Longrightarrow>
     written_and (join '' and '' (map fst ps)) (\<lambda>r. \<forall>(u, k) \<in> set ps. k r)"
proof (induction ps)
  case (Cons p ps)
  obtain u k where p: "p = (u, k)" by (cases p)
  have head: "written_and u k" using Cons.prems(2) p by simp
  show ?case
  proof (cases "ps = []")
    case True
    with head p show ?thesis by simp
  next
    case False
    with Cons have "written_and (join '' and '' (map fst ps)) (\<lambda>r. \<forall>(u, k) \<in> set ps. k r)" by simp
    from written_and_append [OF head this] False p show ?thesis by (simp add: join_Cons)
  qed
qed simp

definition ends_and :: "string \<Rightarrow> bool" where
  "ends_and rest \<longleftrightarrow> ends_text rest \<and> strip_prefix '' and '' rest = None"

lemma ends_text_simps [simp]: "ends_text []" "ends_text (c # s) \<longleftrightarrow> c \<noteq> CHR 39"
  by (simp_all add: ends_text_def)

lemma read_written_and:
  assumes "ps \<noteq> []" "\<forall>(u, k) \<in> set ps. written_atom u k" "ends_and rest"
    and "2 * length (join '' and '' (map fst ps)) + 2 \<le> n"
  shows "read_and n (join '' and '' (map fst ps) @ rest) = Some (\<lambda>r. \<forall>(u, k) \<in> set ps. k r, rest)"
  using assms(1,2,4)
proof (induction ps arbitrary: n)
  case (Cons p ps)
  obtain u k where p: "p = (u, k)" by (cases p)
  from Cons.prems(3) obtain n' where n: "n = Suc n'" by (cases n) auto
  have u: "written_atom u k" using Cons.prems(2) p by simp
  show ?case
  proof (cases "ps = []")
    case True
    then have "read_atom n' (u @ rest) = Some (k, rest)"
      using u Cons.prems(3) assms(3) n p by (simp add: written_atom_def ends_and_def)
    with True p n assms(3) show ?thesis by (simp add: ends_and_def)
  next
    case False
    let ?more = "join '' and '' (map fst ps) @ rest"
    have whole: "join '' and '' (map fst (p # ps)) @ rest = u @ '' and '' @ ?more" using False p by (simp add: join_Cons)
    have "read_atom n' (u @ '' and '' @ ?more) = Some (k, '' and '' @ ?more)"
      using u Cons.prems(3) n p False unfolding written_atom_def by (simp add: join_Cons)
    moreover have "read_and n' ?more = Some (\<lambda>r. \<forall>(u, k) \<in> set ps. k r, rest)"
      using Cons.IH [of n'] Cons.prems n p False by (simp add: join_Cons)
    ultimately show ?thesis unfolding whole unfolding n read_and.simps p by simp
  qed
qed simp

definition ends_or :: "string \<Rightarrow> bool" where
  "ends_or rest \<longleftrightarrow> ends_and rest \<and> strip_prefix '' or '' rest = None"

lemma read_written_or:
  assumes "ps \<noteq> []" "\<forall>(u, k) \<in> set ps. written_and u k" "ends_or rest"
    and "2 * length (join '' or '' (map fst ps)) + 3 \<le> n"
  shows "read_or n (join '' or '' (map fst ps) @ rest) = Some (\<lambda>r. \<exists>(u, k) \<in> set ps. k r, rest)"
  using assms(1,2,4)
proof (induction ps arbitrary: n)
  case (Cons p ps)
  obtain u k where p: "p = (u, k)" by (cases p)
  from Cons.prems(3) obtain n' where n: "n = Suc n'" by (cases n) auto
  from Cons.prems(2) p obtain qs where u: "qs \<noteq> []" "u = join '' and '' (map fst qs)" "\<forall>(u, k) \<in> set qs. written_atom u k"
    "k = (\<lambda>r. \<forall>(u, k) \<in> set qs. k r)" by (auto simp: written_and_def)
  show ?case
  proof (cases "ps = []")
    case True
    then have "read_and n' (u @ rest) = Some (k, rest)"
      unfolding u(2,4) using u Cons.prems(3) assms(3) n p by (intro read_written_and) (simp_all add: ends_or_def)
    with True p n assms(3) show ?thesis by (simp add: ends_or_def)
  next
    case False
    let ?more = "join '' or '' (map fst ps) @ rest"
    have whole: "join '' or '' (map fst (p # ps)) @ rest = u @ '' or '' @ ?more" using False p by (simp add: join_Cons)
    have "read_and n' (u @ '' or '' @ ?more) = Some (k, '' or '' @ ?more)"
      unfolding u(2,4) using u Cons.prems(3) n p False
      by (intro read_written_and) (simp_all add: join_Cons ends_and_def)
    moreover have "read_or n' ?more = Some (\<lambda>r. \<exists>(u, k) \<in> set ps. k r, rest)"
      using Cons.IH [of n'] Cons.prems n p False by (simp add: join_Cons)
    ultimately show ?thesis unfolding whole unfolding n read_or.simps p by simp
  qed
qed simp

lemma written_group:
  assumes "ps \<noteq> []" "\<forall>(u, k) \<in> set ps. written_and u k"
  shows "written_atom (''('' @ join '' or '' (map fst ps) @ '')'') (\<lambda>r. \<exists>(u, k) \<in> set ps. k r)"
proof -
  have "read_or n (join '' or '' (map fst ps) @ '')'' @ rest) = Some (\<lambda>r. \<exists>(u, k) \<in> set ps. k r, '')'' @ rest)"
    if "2 * length (join '' or '' (map fst ps)) + 3 \<le> n" for n rest
    using assms that by (intro read_written_or) (simp_all add: ends_or_def ends_and_def)
  then have "read_atom (Suc n) ((''('' @ join '' or '' (map fst ps) @ '')'') @ rest) = Some (\<lambda>r. \<exists>(u, k) \<in> set ps. k r, rest)"
    if "2 * length (join '' or '' (map fst ps)) + 3 \<le> n" for n rest
    using that by simp
  moreover have "\<exists>k. n = Suc k \<and> 2 * length (join '' or '' (map fst ps)) + 3 \<le> k"
    if "2 * length (''('' @ join '' or '' (map fst ps) @ '')'') + 1 \<le> n" for n
    using that by (cases n) auto
  ultimately show ?thesis unfolding written_atom_def by blast
qed

section \<open>The text of a filter\<close>

primrec plain_condition :: "filter_condition \<Rightarrow> bool"
  and plain_filter :: "ocm_filter \<Rightarrow> bool" where
  \<comment> \<open>the keys are names of fields, no list of values is empty, and patterns have no quotes\<close>
  "plain_condition (EqCondition key values) \<longleftrightarrow> plain_key key \<and> values \<noteq> []"
| "plain_condition (LikeCondition key values) \<longleftrightarrow>
     plain_key key \<and> values \<noteq> [] \<and> list_all (\<lambda>v. CHR 39 \<notin> set v) values"
| "plain_condition (FilterObjectCondition key f) \<longleftrightarrow> plain_filter f"
| "plain_condition (DateRangeCondition key start end') \<longleftrightarrow> plain_key key"
| "plain_filter (Filter conditions mode) \<longleftrightarrow> list_all id (map plain_condition conditions)"

definition plain_dates :: "search_lib \<Rightarrow> bool" where
  "plain_dates lib \<longleftrightarrow> (\<forall>t. CHR 39 \<notin> set (sl_iso lib t))"

lemma written_eq_condition:
  assumes "plain_key key" "values \<noteq> []"
  shows "written_atom (render_eq key values) (\<lambda>r. list_ex (sr_is r key) values)"
proof (cases "values")
  case (Cons v vs)
  show ?thesis
  proof (cases vs)
    case Nil
    with Cons written_equals [OF assms(1), of v] show ?thesis by (simp add: render_eq_def)
  next
    case (Cons w ws)
    with \<open>values = v # vs\<close> written_in [OF assms(1), of "values"] show ?thesis by (simp add: render_eq_def)
  qed
qed (use assms in simp)

lemma written_like_condition:
  assumes "plain_key key" "values \<noteq> []" "list_all (\<lambda>v. CHR 39 \<notin> set v) values"
  shows "written_atom (render_like key values) (\<lambda>r. list_ex (sr_like r key) values)"
proof (cases "length values = 1")
  case True
  then obtain v where "values = [v]" by (auto simp: length_Suc_conv)
  with written_test(1) [OF assms(1), of v] assms(3) show ?thesis by (simp add: render_like_def)
next
  case False
  define ps :: "(string \<times> (search_row \<Rightarrow> bool)) list"
    where "ps = map (\<lambda>v. (key @ '' like '' @ in_quotes v, \<lambda>r. sr_like r key v)) values"
  have "ps \<noteq> []" "\<forall>(u, k) \<in> set ps. written_and u k"
    using assms written_test(1) [OF assms(1)] by (auto simp: ps_def list_all_iff intro!: written_and_single)
  from written_group [OF this]
  have "written_atom (''('' @ join '' or '' (map fst ps) @ '')'') (\<lambda>r. \<exists>(u, k) \<in> set ps. k r)" .
  moreover have "1 < length values" using False assms(2) by (cases "values") auto
  moreover have "(\<lambda>r. \<exists>(u, k) \<in> set ps. k r) = (\<lambda>r. list_ex (sr_like r key) values)"
    by (auto simp: ps_def list_ex_iff fun_eq_iff)
  ultimately show ?thesis by (simp add: render_like_def ps_def o_def)
qed

lemma written_range:
  assumes "plain_key key" "plain_dates lib" "resolve_date lib start = Inr s" "resolve_date lib end' = Inr e"
    and "render_range lib key s e = Inr t"
  shows "written_and t (\<lambda>r. bound_holds (sr_from r key) lib start \<and> bound_holds (sr_until r key) lib end')"
proof -
  have quotes: "CHR 39 \<notin> set (sl_iso lib x)" for x using assms(2) by (simp add: plain_dates_def)
  note from' = written_and_single [OF written_test(2) [OF assms(1) quotes]]
    and until = written_and_single [OF written_test(3) [OF assms(1) quotes]]
  show ?thesis
    using assms(3-5) from' until written_and_append [OF from' until]
    by (cases s; cases e) (auto simp: render_range_def bound_holds_def split: if_splits)
qed

lemma rmap_pairs:
  assumes "rmap f xs = Inr ys" "\<And>x y. x \<in> set xs \<Longrightarrow> f x = Inr y \<Longrightarrow> P y (g x)"
  shows "ys = map fst (zip ys (map g xs)) \<and> (\<forall>(y, k) \<in> set (zip ys (map g xs)). P y k) \<and>
    map snd (zip ys (map g xs)) = map g xs"
proof -
  from assms(1) have all: "list_all2 (\<lambda>x y. f x = Inr y) xs ys" by (simp add: rmap_Inr_list_all2)
  then have "length xs = length ys" by (rule list_all2_lengthD)
  moreover have "\<forall>(y, k) \<in> set (zip ys (map g xs)). P y k"
    using all assms(2) by (induction rule: list_all2_induct) auto
  ultimately show ?thesis by simp
qed

lemma written_filter_text:
  shows "render_condition lib c = Inr t \<Longrightarrow> plain_dates lib \<Longrightarrow> plain_condition c \<Longrightarrow>
      written_and t (\<lambda>r. condition_holds lib r c)"
    and "render lib f = Inr u \<Longrightarrow> plain_dates lib \<Longrightarrow> plain_filter f \<Longrightarrow> written_and u (\<lambda>r. filter_holds lib r f)"
proof (induction lib c and lib f arbitrary: t and u rule: render_condition_render.induct)
  case (5 lib conditions mode)
  define cs where "cs = sort_key fc_key conditions"
  from "5.prems"(1) obtain rendered where
    r: "conditions \<noteq> []" "rmap (render_condition lib) cs = Inr rendered" and
    u: "u = (case mode of AndMode \<Rightarrow> join '' and '' rendered
          | OrMode \<Rightarrow> if 1 < length rendered then ''('' @ join '' or '' rendered @ '')'' else join '' or '' rendered)"
    by (auto simp: rbind_Inr_iff cs_def split: if_splits)
  define holds :: "filter_condition \<Rightarrow> search_row \<Rightarrow> bool" where "holds c = (\<lambda>r. condition_holds lib r c)" for c
  define ps where "ps = zip rendered (map holds cs)"
  have all: "rendered = map fst ps \<and> (\<forall>(y, k) \<in> set ps. written_and y k) \<and>
      map snd ps = map holds cs"
    unfolding ps_def
  proof (rule rmap_pairs [OF r(2)])
    fix c t assume "c \<in> set cs" "render_condition lib c = Inr t"
    then show "written_and t (holds c)"
      using "5.IH" [of c t] r(1) "5.prems" by (simp add: cs_def list_all_iff holds_def)
  qed
  have len: "length rendered = length cs" "length ps = length cs" "cs \<noteq> []"
    using all r(1) by (auto simp: cs_def dest: arg_cong [of _ _ length])
  have "snd ` set ps = holds ` set conditions"
    using all by (metis cs_def list.set_map set_sort)
  then have "(\<forall>k \<in> snd ` set ps. k r) \<longleftrightarrow> (\<forall>k \<in> holds ` set conditions. k r)"
    "(\<exists>k \<in> snd ` set ps. k r) \<longleftrightarrow> (\<exists>k \<in> holds ` set conditions. k r)" for r by simp_all
  then have ks: "(\<forall>(u, k) \<in> set ps. k r) \<longleftrightarrow> (\<forall>c \<in> set conditions. condition_holds lib r c)"
    "(\<exists>(u, k) \<in> set ps. k r) \<longleftrightarrow> (\<exists>c \<in> set conditions. condition_holds lib r c)" for r
    by (simp_all add: case_prod_beta holds_def)
  have ne: "ps \<noteq> []" using len by auto
  show ?case
  proof (cases mode)
    case AndMode
    have "written_and (join '' and '' (map fst ps)) (\<lambda>r. \<forall>(u, k) \<in> set ps. k r)"
      by (rule written_and_join [OF ne]) (use all in auto)
    with AndMode u all ks(1) show ?thesis by (simp add: list_all_iff)
  next
    case OrMode
    show ?thesis
    proof (cases "1 < length rendered")
      case True
      from written_group [OF ne] all
      have "written_atom (''('' @ join '' or '' (map fst ps) @ '')'') (\<lambda>r. \<exists>(u, k) \<in> set ps. k r)" by blast
      from written_and_single [OF this] OrMode True u all ks(2)
      show ?thesis by (simp add: list_ex_iff)
    next
      case False
      with len ne have "length ps = 1" by (cases ps) auto
      then obtain p where p: "ps = [p]" by (auto simp: length_Suc_conv)
      then have "written_and (fst p) (snd p)" using all by auto
      moreover have "(\<lambda>r. \<exists>c \<in> set conditions. condition_holds lib r c) = snd p"
        using ks(2) p by (simp add: fun_eq_iff case_prod_beta)
      ultimately show ?thesis using OrMode False u all p by (simp add: list_ex_iff)
    qed
  qed
qed (auto simp: rbind_Inr_iff written_and_single written_eq_condition written_like_condition written_range)

text \<open>C38. The text of a filter says what the filter means: where rendering succeeds, reading the text with the
  precedence of the search language (and before or, quotes doubled in texts) gives the meaning of the filter,
  however deep it nests.\<close>
theorem rendered_filter_read_back:
  assumes "render lib f = Inr t" "plain_filter f" "plain_dates lib"
  shows "\<exists>m. read_search t = Some m \<and> (\<forall>r. m r \<longleftrightarrow> filter_holds lib r f)"
proof -
  from written_filter_text(2) [OF assms(1,3,2)] have "written_and t (\<lambda>r. filter_holds lib r f)" .
  with read_written_or [of "[(t, \<lambda>r. filter_holds lib r f)]" "[]" "2 * length t + 3"]
  have "read_or (2 * length t + 3) t = Some (\<lambda>r. filter_holds lib r f, [])"
    by (simp add: ends_or_def ends_and_def)
  then show ?thesis by (simp add: read_search_def)
qed

end
