(* ===== verification/Ocm_Filter_Laws.thy ===== *)
theory Ocm_Filter_Laws
  imports Ocm_Filter_Text
begin

text \<open>
  How filters combine: \<open>&\<close> and \<open>|\<close> as conjunction and disjunction, the conditions of the same field that are
  united, and the chunks that together are the filter.
\<close>

section \<open>Adding conditions\<close>

abbreviation filter_keys :: "ocm_filter \<Rightarrow> string list" where
  "filter_keys f \<equiv> map fc_key (ft_conditions f)"

lemma condition_by_key_None: "condition_by_key f k = None \<longleftrightarrow> k \<notin> set (filter_keys f)"
  by (auto simp: condition_by_key_def find_None_iff)

lemma condition_by_key_Some: "condition_by_key f k = Some c \<Longrightarrow> c \<in> set (ft_conditions f) \<and> fc_key c = k"
  by (auto simp: condition_by_key_def find_Some_iff)

lemma add_new_condition:
  "fc_key c \<notin> set (filter_keys f) \<Longrightarrow> add_condition f c = Inr (Filter (ft_conditions f @ [c]) (ft_mode f))"
  by (simp add: add_condition_def condition_by_key_None [THEN iffD2])

lemma add_new_conditions:
  "distinct (filter_keys f @ map fc_key cs) \<Longrightarrow>
     rfold add_condition f cs = Inr (Filter (ft_conditions f @ cs) (ft_mode f))"
proof (induction cs arbitrary: f)
  case (Cons c cs)
  from Cons.prems have "add_condition f c = Inr (Filter (ft_conditions f @ [c]) (ft_mode f))"
    by (intro add_new_condition) auto
  with Cons.IH [of "Filter (ft_conditions f @ [c]) (ft_mode f)"] Cons.prems show ?case by simp
qed (cases f, simp)

lemma merge_holds:
  "copy_and_merge c d = Inr e \<Longrightarrow> fc_key c = fc_key d \<Longrightarrow>
     fc_key e = fc_key c \<and> (condition_holds lib r e \<longleftrightarrow> condition_holds lib r c \<or> condition_holds lib r d)"
  by (auto simp: copy_and_merge_def list_ex_iff split: filter_condition.splits)

lemma merge_plain: "copy_and_merge c d = Inr e \<Longrightarrow> plain_condition c \<Longrightarrow> plain_condition d \<Longrightarrow> plain_condition e"
  by (auto simp: copy_and_merge_def list_all_iff split: filter_condition.splits dest!: arg_cong [of "sort _" "[]" set])

lemma plain_filter_iff: "plain_filter f \<longleftrightarrow> (\<forall>c \<in> set (ft_conditions f). plain_condition c)"
  by (cases f) (simp add: list_all_iff)

lemma filter_holds_iff:
  "filter_holds lib r f \<longleftrightarrow> (if ft_mode f = AndMode then \<forall>c \<in> set (ft_conditions f). condition_holds lib r c
     else \<exists>c \<in> set (ft_conditions f). condition_holds lib r c)"
  by (cases f; cases "ft_mode f") (auto simp: list_all_iff list_ex_iff)

lemma add_condition_plain:
  assumes "add_condition f c = Inr g" "plain_filter f" "plain_condition c"
  shows "plain_filter g"
proof (cases "condition_by_key f (fc_key c)")
  case (Some d)
  with assms(2) have "plain_condition d" by (auto simp: plain_filter_iff dest: condition_by_key_Some)
  with merge_plain [of d c] assms Some show ?thesis
    by (auto simp: add_condition_def plain_filter_iff copy_and_override_def rbind_Inr_iff)
qed (use assms in \<open>auto simp: add_condition_def plain_filter_iff\<close>)

lemma add_conditions_plain:
  "rfold add_condition f cs = Inr g \<Longrightarrow> plain_filter f \<Longrightarrow> \<forall>c \<in> set cs. plain_condition c \<Longrightarrow> plain_filter g"
  by (induction cs arbitrary: f) (auto simp: rbind_Inr_iff dest: add_condition_plain)

section \<open>And, or\<close>

definition as_conjuncts :: "string \<Rightarrow> ocm_filter \<Rightarrow> filter_condition list" where
  "as_conjuncts i f = (if ft_mode f \<noteq> AndMode then [FilterObjectCondition i f] else ft_conditions f)"

lemma as_conjuncts_hold: "(\<forall>c \<in> set (as_conjuncts i f). condition_holds lib r c) \<longleftrightarrow> filter_holds lib r f"
  by (simp add: as_conjuncts_def filter_holds_iff)

lemma filter_and_alt:
  "filter_and i f j g = rfold add_condition (Filter [] AndMode) (as_conjuncts i f @ as_conjuncts j g)"
  by (simp add: filter_and_def as_conjuncts_def)

lemma filter_and_plain: "filter_and i f j g = Inr h \<Longrightarrow> plain_filter f \<Longrightarrow> plain_filter g \<Longrightarrow> plain_filter h"
  unfolding filter_and_alt
  by (erule add_conditions_plain) (auto simp: plain_filter_iff as_conjuncts_def)

lemma filter_and_aux:
  assumes "distinct (map fc_key (as_conjuncts i f @ as_conjuncts j g))"
  shows "\<exists>h. filter_and i f j g = Inr h \<and> ft_mode h = AndMode \<and> ft_conditions h = as_conjuncts i f @ as_conjuncts j g \<and>
    (\<forall>lib r. filter_holds lib r h \<longleftrightarrow> filter_holds lib r f \<and> filter_holds lib r g)"
proof -
  from assms have "filter_and i f j g = Inr (Filter (as_conjuncts i f @ as_conjuncts j g) AndMode)"
    unfolding filter_and_alt by (subst add_new_conditions) simp_all
  moreover have "filter_holds lib r (Filter (as_conjuncts i f @ as_conjuncts j g) AndMode) \<longleftrightarrow>
      filter_holds lib r f \<and> filter_holds lib r g" for lib and r :: search_row
    using as_conjuncts_hold [of i f lib r] as_conjuncts_hold [of j g lib r] by (simp add: list_all_iff ball_Un)
  ultimately show ?thesis by auto
qed

definition operands_of_or :: "string \<Rightarrow> ocm_filter \<Rightarrow> filter_condition list" where
  "operands_of_or i f =
     (if ft_mode f \<noteq> OrMode \<and> 1 < length (ft_conditions f) then [FilterObjectCondition i f] else ft_conditions f)"

lemma operands_of_or_hold:
  "ft_conditions f \<noteq> [] \<Longrightarrow> (\<exists>c \<in> set (operands_of_or i f). condition_holds lib r c) \<longleftrightarrow> filter_holds lib r f"
  by (cases "ft_conditions f"; cases "ft_mode f") (auto simp: operands_of_or_def filter_holds_iff)

lemma filter_or_holds:
  assumes "ft_conditions f \<noteq> []" "ft_conditions g \<noteq> []"
  shows "filter_holds lib r (filter_or i f j g) \<longleftrightarrow> filter_holds lib r f \<or> filter_holds lib r g"
proof -
  have "filter_or i f j g = Filter (operands_of_or i f @ operands_of_or j g) OrMode"
    by (simp add: filter_or_def operands_of_or_def)
  then show ?thesis
    using operands_of_or_hold [OF assms(1), of i lib r] operands_of_or_hold [OF assms(2), of j lib r]
    by (simp add: list_ex_iff bex_Un)
qed

lemma filter_or_plain: "plain_filter f \<Longrightarrow> plain_filter g \<Longrightarrow> plain_filter (filter_or i f j g)"
  by (auto simp: filter_or_def Let_def plain_filter_iff)

text \<open>Filters combine as the operators say. Where no field has conditions on both sides, the conjunction of f and g succeeds and
  holds where both hold; the disjunction of filters with conditions holds where one of them holds.\<close>
theorem filters_combine:
  assumes "distinct (map fc_key (as_conjuncts i f @ as_conjuncts j g))" "ft_conditions f \<noteq> []" "ft_conditions g \<noteq> []"
  shows "(\<exists>h. filter_and i f j g = Inr h \<and>
      (\<forall>lib r. filter_holds lib r h \<longleftrightarrow> filter_holds lib r f \<and> filter_holds lib r g)) \<and>
    (\<forall>lib r. filter_holds lib r (filter_or i f j g) \<longleftrightarrow> filter_holds lib r f \<or> filter_holds lib r g)"
  using filter_and_aux [OF assms(1)] filter_or_holds [OF assms(2,3)] by blast

text \<open>Conditions on the same field are united, not intersected: the conjunction of two filters on one field
  holds where either does. And a filter made with \<open>|\<close> that has a field twice loses the second condition when
  a third one is added.\<close>

lemma and_unites_values:
  "filter_and i (Filter [EqCondition k [''a'']] AndMode) j (Filter [EqCondition k [''b'']] AndMode) =
     Inr (Filter [EqCondition k [''a'', ''b'']] AndMode)"
proof -
  have "sort (remdups [''a'', ''b'']) = [''a'', ''b'']" by code_simp
  then show ?thesis
    by (simp add: filter_and_def add_condition_def condition_by_key_def copy_and_merge_def copy_and_override_def)
qed

lemma or_loses_values:
  "filter_eq (filter_or i (Filter [EqCondition k [''a'']] AndMode) j (Filter [EqCondition k [''b'']] AndMode)) k (Some ''c'') =
     Inr (Filter [EqCondition k [''a'', ''c'']] OrMode)"
proof -
  have "sort (remdups [''a'', ''c'']) = [''a'', ''c'']" by code_simp
  then show ?thesis
    by (simp add: filter_or_def Let_def filter_eq_def truthy_str_def is_in_def add_condition_def condition_by_key_def
        copy_and_merge_def copy_and_override_def)
qed

section \<open>Chunks\<close>

lemma slices_Nil [simp]: "slices n [] = []" "slices 0 xs = []"
  by (subst slices.simps, simp)+

lemma concat_slices: "0 < n \<Longrightarrow> concat (slices n xs) = xs"
  by (induction n xs rule: slices.induct) (subst slices.simps, auto)

lemma length_slices: "vs \<in> set (slices n xs) \<Longrightarrow> vs \<noteq> [] \<and> length vs \<le> n"
proof (induction n xs rule: slices.induct)
  case (1 n xs)
  then show ?case by (subst (asm) (2) slices.simps) (auto split: if_splits)
qed

lemma set_slices: "0 < n \<Longrightarrow> (\<Union>vs \<in> set (slices n xs). set vs) = set xs"
  using concat_slices [of n xs] by (metis set_concat)

lemma with_values_holds:
  assumes "is_list_condition c"
  shows "fc_key (with_values c vs) = fc_key c" "fc_values (with_values c vs) = vs"
    and "\<exists>P. \<forall>vs. condition_holds lib r (with_values c vs) \<longleftrightarrow> (\<exists>v \<in> set vs. P v)"
    and "with_values c (fc_values c) = c"
  using assms by (auto simp: is_list_condition_def with_values_def list_ex_iff split: filter_condition.splits)

lemma distinct_key_split:
  assumes "distinct (filter_keys f)" "c \<in> set (ft_conditions f)"
  shows "set (ft_conditions f) = insert c (set (filter (\<lambda>d. fc_key d \<noteq> fc_key c) (ft_conditions f)))"
  using assms by (auto simp: distinct_map inj_on_def)

lemma chunks_cover_aux:
  assumes "chunk_by f key n missing = Inr fs" "0 < n" "distinct (filter_keys f)"
    and "condition_by_key f key = Some c" "is_list_condition c" "fc_values c \<noteq> []"
  shows "(filter_holds lib r f \<longleftrightarrow> (\<exists>g \<in> set fs. filter_holds lib r g)) \<and>
    concat (map (\<lambda>g. case condition_by_key g key of None \<Rightarrow> [] | Some d \<Rightarrow> fc_values d) fs) = fc_values c \<and>
    (\<forall>g \<in> set fs. ft_mode g = ft_mode f \<and> (\<exists>d. condition_by_key g key = Some d \<and> fc_values d \<noteq> [] \<and> int (length (fc_values d)) \<le> n))"
proof -
  have c: "c \<in> set (ft_conditions f)" "fc_key c = key" using condition_by_key_Some [OF assms(4)] by auto
  define rest where "rest = filter (\<lambda>d. fc_key d \<noteq> key) (ft_conditions f)"
  have fs: "fs = map (\<lambda>vs. Filter (rest @ [with_values c vs]) (ft_mode f)) (slices (nat n) (fc_values c))"
    using assms(1,2,4,5) c(2) by (auto simp: chunk_by_def Let_def copy_and_override_def with_values_holds(1) rest_def)
  have key: "condition_by_key (Filter (rest @ [with_values c vs]) m) key = Some (with_values c vs)" for vs m
  proof -
    have "find (\<lambda>d. fc_key d = key) rest = None" by (auto simp: find_None_iff rest_def)
    moreover have "find P (xs @ ys) = (case find P xs of None \<Rightarrow> find P ys | Some x \<Rightarrow> Some x)" for P :: "filter_condition \<Rightarrow> bool" and xs ys
      by (induction xs) auto
    ultimately show ?thesis using c(2) by (simp add: condition_by_key_def with_values_holds(1) [OF assms(5)])
  qed
  obtain P where P: "\<And>vs. condition_holds lib r (with_values c vs) \<longleftrightarrow> (\<exists>v \<in> set vs. P v)"
    using with_values_holds(3) [OF assms(5)] by blast
  have nonempty: "slices (nat n) (fc_values c) \<noteq> []" using assms(2,6) by (subst slices.simps) auto
  have "filter_holds lib r f \<longleftrightarrow> filter_holds lib r (Filter (rest @ [with_values c (fc_values c)]) (ft_mode f))"
  proof -
    have "set (ft_conditions f) = set (rest @ [c])"
      using distinct_key_split [OF assms(3) c(1)] c(2) by (simp add: rest_def)
    then show ?thesis by (simp only: filter_holds_iff ocm_filter.sel with_values_holds(4) [OF assms(5)])
  qed
  also have "\<dots> \<longleftrightarrow> (\<exists>vs \<in> set (slices (nat n) (fc_values c)). filter_holds lib r (Filter (rest @ [with_values c vs]) (ft_mode f)))"
  proof -
    have "filter_holds lib r (Filter (rest @ [with_values c vs]) (ft_mode f)) \<longleftrightarrow>
        (if ft_mode f = AndMode then (\<forall>d \<in> set rest. condition_holds lib r d) \<and> (\<exists>v \<in> set vs. P v)
         else (\<exists>d \<in> set rest. condition_holds lib r d) \<or> (\<exists>v \<in> set vs. P v))" for vs
      unfolding filter_holds_iff ocm_filter.sel by (simp add: P ball_Un bex_Un conj_commute disj_commute)
    moreover have "(\<exists>v \<in> set (fc_values c). P v) \<longleftrightarrow> (\<exists>vs \<in> set (slices (nat n) (fc_values c)). \<exists>v \<in> set vs. P v)"
      using set_slices [of "nat n" "fc_values c", symmetric] assms(2) by simp
    moreover have "(\<exists>vs \<in> S. A \<or> Q vs) \<longleftrightarrow> A \<or> (\<exists>vs \<in> S. Q vs)" if "S \<noteq> {}" for A and S :: "string list set" and Q
      using that by blast
    ultimately show ?thesis using nonempty by simp
  qed
  finally have "filter_holds lib r f \<longleftrightarrow> (\<exists>g \<in> set fs. filter_holds lib r g)" by (simp add: fs)
  moreover have "concat (map (\<lambda>g. case condition_by_key g key of None \<Rightarrow> [] | Some d \<Rightarrow> fc_values d) fs) = fc_values c"
    using concat_slices [of "nat n" "fc_values c"] assms(2) by (simp add: fs o_def key with_values_holds(2) [OF assms(5)])
  moreover have "\<exists>d. condition_by_key g key = Some d \<and> fc_values d \<noteq> [] \<and> int (length (fc_values d)) \<le> n" "ft_mode g = ft_mode f"
    if "g \<in> set fs" for g
    using that assms(2) by (auto simp: fs key with_values_holds(2) [OF assms(5)] le_nat_iff dest!: length_slices)
  ultimately show ?thesis by blast
qed

text \<open>Chunks lose nothing. The chunks of a filter by a field with a list of values hold together exactly
  where the filter holds; they share out the values in their order, with at most the chunk size for each.\<close>
theorem chunks_cover_filter:
  assumes "chunk_by f key n missing = Inr fs" "0 < n" "distinct (filter_keys f)"
    and "condition_by_key f key = Some c" "is_list_condition c" "fc_values c \<noteq> []"
  shows "(filter_holds lib r f \<longleftrightarrow> (\<exists>g \<in> set fs. filter_holds lib r g)) \<and>
    concat (map (\<lambda>g. case condition_by_key g key of None \<Rightarrow> [] | Some d \<Rightarrow> fc_values d) fs) = fc_values c \<and>
    (\<forall>g \<in> set fs. ft_mode g = ft_mode f \<and> (\<exists>d. condition_by_key g key = Some d \<and> fc_values d \<noteq> [] \<and> int (length (fc_values d)) \<le> n))"
  by (rule chunks_cover_aux [OF assms])

lemma chunk_plain:
  assumes "chunk_by f key n missing = Inr fs" "plain_filter f" "g \<in> set fs" "0 < n"
  shows "plain_filter g"
proof (cases "\<exists>c. condition_by_key f key = Some c \<and> is_list_condition c")
  case True
  then obtain c where c: "condition_by_key f key = Some c" "is_list_condition c" by blast
  with assms obtain vs where g: "g = copy_and_override f (with_values c vs)" "vs \<in> set (slices (nat n) (fc_values c))"
    by (auto simp: chunk_by_def Let_def)
  have "set vs \<subseteq> set (fc_values c)" "vs \<noteq> []"
    using set_slices [of "nat n" "fc_values c"] assms(4) g(2) length_slices [OF g(2)] by auto
  moreover have "plain_condition c" using assms(2) c(1) by (auto simp: plain_filter_iff dest: condition_by_key_Some)
  ultimately have "plain_condition (with_values c vs)"
    using c(2) by (auto simp: is_list_condition_def with_values_def list_all_iff split: filter_condition.splits)
  with assms(2) show ?thesis unfolding g(1) by (auto simp: plain_filter_iff copy_and_override_def)
next
  case False
  with assms(1,3) have "g = f" by (auto simp: chunk_by_def Let_def split: option.splits if_splits)
  with assms(2) show ?thesis by simp
qed

text \<open>Every operation keeps filters well formed: the keys of conditions are names of fields, no list of
  values is empty and patterns have no quotes, whatever values are asked for, and also in the chunks.\<close>
theorem built_filters_are_plain:
  assumes "plain_filter f" "plain_filter g" "plain_key key" "\<forall>v. pattern = Some v \<longrightarrow> CHR 39 \<notin> set v"
  shows "(\<forall>h. filter_eq f key value = Inr h \<longrightarrow> plain_filter h) \<and> (\<forall>h. is_in f key ids = Inr h \<longrightarrow> plain_filter h) \<and>
    (\<forall>h. filter_like f key pattern = Inr h \<longrightarrow> plain_filter h) \<and>
    (\<forall>h. filter_between f key start end' = Inr h \<longrightarrow> plain_filter h) \<and>
    (\<forall>h. filter_and i f j g = Inr h \<longrightarrow> plain_filter h) \<and> plain_filter (filter_or i f j g) \<and>
    (\<forall>hs n. 0 < n \<longrightarrow> chunk_by f key n missing = Inr hs \<longrightarrow> (\<forall>h \<in> set hs. plain_filter h))"
proof -
  have is_in: "plain_filter h" if "is_in f key ids = Inr h" for ids h
  proof (cases "ids = []")
    case False
    then have "sort ids \<noteq> []" by (metis length_0_conv length_sort)
    with False that assms(1,3) show ?thesis
      by (auto simp: is_in_def elim!: add_condition_plain)
  qed (use that assms(1) in \<open>simp add: is_in_def\<close>)
  then have "plain_filter h" if "filter_eq f key value = Inr h" for h
    using that assms(1) by (auto simp: filter_eq_def split: option.splits)
  moreover have "plain_filter h" if "filter_like f key pattern = Inr h" for h
    using that assms by (auto simp: filter_like_def truthy_str_def split: option.splits if_splits elim!: add_condition_plain)
  moreover have "plain_filter h" if "filter_between f key start end' = Inr h" for h
    using that assms(1,3) by (auto simp: filter_between_def elim!: add_condition_plain)
  ultimately show ?thesis
    using is_in filter_and_plain [OF _ assms(1,2)] filter_or_plain [OF assms(1,2)] chunk_plain [OF _ assms(1)] by blast
qed

end
