(* ===== verification/Ocm_Discovery.thy ===== *)
theory Ocm_Discovery
  imports Ocm_Filter_Laws Aus_Labels
begin

text \<open>
  Finding labels, subscriptions and clusters in OCM: \<open>reconcile/utils/ocm/labels.py\<close>,
  \<open>reconcile/utils/ocm/subscriptions.py\<close> and \<open>reconcile/utils/ocm/clusters.py\<close>. OCM is a parameter that
  answers search texts; the identities that \<open>id(...)\<close> gives the filter objects are an argument too.
\<close>

section \<open>What OCM lists\<close>

record raw_label =
  rl_type :: string
  rl_key :: string
  rl_value :: string
  rl_owner :: string

record subscription =
  sb_id :: string
  sb_organization_id :: string
  sb_managed :: bool
  sb_status :: string
  sb_labels :: labels

record ocm_api =
  \<comment> \<open>a subscription that lacks fields does not validate: \<open>None\<close>\<close>
  oa_labels :: "string \<Rightarrow> raw_label list"
  oa_subscriptions :: "string \<Rightarrow> subscription option list"
  oa_clusters :: "string \<Rightarrow> ocm_cluster list"

datatype ocm_label =
    SubscriptionLabel (ol_key: string) (ol_value: string) (ol_owner: string)
  | OrganizationLabel (ol_key: string) (ol_value: string) (ol_owner: string)
  | AccountLabel (ol_key: string) (ol_value: string) (ol_owner: string)

definition build_label_from_dict :: "raw_label \<Rightarrow> string + ocm_label" where
  "build_label_from_dict d =
     (if rl_type d = ''Subscription'' then Inr (SubscriptionLabel (rl_key d) (rl_value d) (rl_owner d))
      else if rl_type d = ''Organization'' then Inr (OrganizationLabel (rl_key d) (rl_value d) (rl_owner d))
      else if rl_type d = ''Account'' then Inr (AccountLabel (rl_key d) (rl_value d) (rl_owner d))
      else Inl ''ValueError'')"

abbreviation empty_filter :: ocm_filter where
  "empty_filter \<equiv> Filter [] AndMode"

section \<open>Labels\<close>

definition get_labels :: "search_lib \<Rightarrow> ocm_api \<Rightarrow> ocm_filter \<Rightarrow> string + ocm_label list" where
  "get_labels lib api f = rbind (render lib f) (\<lambda>t. rmap build_label_from_dict (oa_labels api t))"

definition organization_label_filter :: "string + ocm_filter" where
  "organization_label_filter = filter_eq empty_filter ''type'' (Some ''Organization'')"

definition subscription_label_filter :: "string + ocm_filter" where
  "subscription_label_filter = filter_eq empty_filter ''type'' (Some ''Subscription'')"

definition get_organization_labels ::
  "search_lib \<Rightarrow> (nat \<Rightarrow> string) \<Rightarrow> ocm_api \<Rightarrow> ocm_filter \<Rightarrow> string + ocm_label list" where
  "get_organization_labels lib ident api f =
     rbind organization_label_filter (\<lambda>g. rbind (filter_and (ident 0) f (ident 1) g) (\<lambda>h.
     rbind (get_labels lib api h) (\<lambda>ls. Inr (filter is_OrganizationLabel ls))))"

definition label_container_of :: "ocm_label list \<Rightarrow> labels" where
  "label_container_of ls = build_label_container [map (\<lambda>l. (ol_key l, ol_value l)) ls]"

definition get_org_labels ::
  "search_lib \<Rightarrow> (nat \<Rightarrow> string) \<Rightarrow> ocm_api \<Rightarrow> string list \<Rightarrow> ocm_filter option \<Rightarrow> string + (string, labels) dict" where
  "get_org_labels lib ident api org_ids label_filter =
     rbind (is_in empty_filter ''organization_id'' org_ids) (\<lambda>f.
     rbind (case label_filter of None \<Rightarrow> Inr f | Some g \<Rightarrow> filter_and (ident 2) f (ident 3) g) (\<lambda>f.
     rbind (get_organization_labels lib ident api f) (\<lambda>ls.
       Inr (map (\<lambda>(org_id, ls). (org_id, label_container_of ls)) (group_by ol_owner ls)))))"

section \<open>Subscriptions\<close>

definition keep_subscription :: "(string, subscription) dict \<Rightarrow> subscription option \<Rightarrow> (string, subscription) dict" where
  "keep_subscription subs s = (case s of None \<Rightarrow> subs | Some s \<Rightarrow> dict_set subs (sb_id s) s)"

definition get_subscriptions :: "search_lib \<Rightarrow> ocm_api \<Rightarrow> ocm_filter \<Rightarrow> string + (string, subscription) dict" where
  "get_subscriptions lib api f =
     rbind (chunk_by f ''id'' 100 True) (\<lambda>chunks.
       rfold (\<lambda>subs chunk. rbind (render lib chunk) (\<lambda>t.
         Inr (foldl keep_subscription subs (oa_subscriptions api t)))) [] chunks)"

definition build_subscription_filter :: "string list \<Rightarrow> bool \<Rightarrow> string + ocm_filter" where
  "build_subscription_filter states managed =
     rbind (is_in empty_filter ''status'' states) (\<lambda>f.
       filter_eq f ''managed'' (Some (if managed then ''true'' else ''false'')))"

section \<open>Clusters\<close>

definition cluster_ready_for_app_interface :: "string + ocm_filter" where
  "cluster_ready_for_app_interface =
     rbind (filter_eq empty_filter ''managed'' (Some ''true'')) (\<lambda>f.
     rbind (filter_eq f ''state'' (Some ''ready'')) (\<lambda>f. is_in f ''product.id'' [''osd'', ''rosa'']))"

definition organization_labels_of ::
  "search_lib \<Rightarrow> (nat \<Rightarrow> string) \<Rightarrow> ocm_api \<Rightarrow> bool \<Rightarrow> (string, subscription) dict \<Rightarrow> string + (string, ocm_label list) dict" where
  "organization_labels_of lib ident api init_labels subs =
     (if init_labels
      then rbind (is_in empty_filter ''organization_id'' (remdups (map sb_organization_id (dict_values subs)))) (\<lambda>f.
           rbind (get_organization_labels lib ident api f) (\<lambda>ls. Inr (group_by ol_owner ls)))
      else Inr [])"

definition cluster_details_of ::
  "(string, subscription) dict \<Rightarrow> (string, ocm_label list) dict \<Rightarrow> ocm_cluster \<Rightarrow> string + cluster_details" where
  "cluster_details_of subs org_labels c =
     rbind (of_opt ''KeyError'' (dict_get subs (oc_subscription_id c))) (\<lambda>s.
       Inr \<lparr>cd_cluster = c, cd_organization_id = sb_organization_id s,
            cd_subscription_labels = build_label_container [sb_labels s],
            cd_organization_labels = label_container_of (get_or org_labels (sb_organization_id s) [])\<rparr>)"

definition get_cluster_details_for_subscriptions ::
  "search_lib \<Rightarrow> (nat \<Rightarrow> string) \<Rightarrow> ocm_api \<Rightarrow> ocm_filter option \<Rightarrow> ocm_filter option \<Rightarrow> bool \<Rightarrow>
   string + cluster_details list" where
  "get_cluster_details_for_subscriptions lib ident api subscription_filter cluster_filter init_labels =
     rbind (build_subscription_filter [''Active'', ''Reserved''] True) (\<lambda>active.
     rbind (filter_and (ident 4) (case subscription_filter of None \<Rightarrow> empty_filter | Some f \<Rightarrow> f) (ident 5) active) (\<lambda>f.
     rbind (get_subscriptions lib api f) (\<lambda>subs.
       if subs = [] then Inr []
       else
         rbind (organization_labels_of lib ident api init_labels subs) (\<lambda>org_labels.
         rbind cluster_ready_for_app_interface (\<lambda>ready.
         rbind (case cluster_filter of None \<Rightarrow> Inr ready | Some g \<Rightarrow> filter_and (ident 6) ready (ident 7) g) (\<lambda>g.
         rbind (is_in g ''subscription.id'' (dict_keys subs)) (\<lambda>g.
         rbind (chunk_by g ''subscription.id'' 100 True) (\<lambda>chunks.
         rbind (rmap (\<lambda>chunk. rbind (render lib chunk) (\<lambda>t.
             rmap (cluster_details_of subs org_labels) (oa_clusters api t))) chunks) (\<lambda>css. Inr (concat css))))))))))"

definition discover_clusters_for_organizations ::
  "search_lib \<Rightarrow> (nat \<Rightarrow> string) \<Rightarrow> ocm_api \<Rightarrow> string list \<Rightarrow> ocm_filter option \<Rightarrow> string + cluster_details list" where
  "discover_clusters_for_organizations lib ident api organization_ids cluster_filter =
     (if organization_ids = [] then Inr []
      else rbind (is_in empty_filter ''organization_id'' organization_ids) (\<lambda>f.
        get_cluster_details_for_subscriptions lib ident api (Some f) cluster_filter False))"

definition discover_clusters_by_labels ::
  "search_lib \<Rightarrow> (nat \<Rightarrow> string) \<Rightarrow> ocm_api \<Rightarrow> ocm_filter \<Rightarrow> string + cluster_details list" where
  "discover_clusters_by_labels lib ident api label_filter =
     rbind (get_labels lib api label_filter) (\<lambda>ls.
       let subscription_labels = group_by ol_owner (filter is_SubscriptionLabel ls);
           organization_labels = group_by ol_owner (filter is_OrganizationLabel ls)
       in if subscription_labels = [] \<and> organization_labels = [] then Inr []
          else
            rbind (is_in empty_filter ''id'' (dict_keys subscription_labels)) (\<lambda>sub_id_filter.
            rbind (is_in empty_filter ''organization_id'' (dict_keys organization_labels)) (\<lambda>org_id_filter.
            rbind (get_cluster_details_for_subscriptions lib ident api
                     (Some (filter_or (ident 8) sub_id_filter (ident 9) org_id_filter)) None False) (\<lambda>clusters.
              Inr (map (\<lambda>c. c\<lparr>
                cd_subscription_labels := label_container_of (get_or subscription_labels (oc_subscription_id (cd_cluster c)) []),
                cd_organization_labels := label_container_of (get_or organization_labels (cd_organization_id c) [])\<rparr>) clusters)))))"

end
