(* ===== verification/Ocm_Discovery_Laws.thy ===== *)
theory Ocm_Discovery_Laws
  imports Ocm_Discovery
begin

text \<open>
  Discovery finds what it looks for. OCM is described by a database of rows and the assumption that it answers
  a search text with the rows for which the text, as the search language reads it, holds.
\<close>

section \<open>OCM as a database\<close>

record ocm_database =
  db_labels :: "(search_row \<times> raw_label) list"
  db_subscriptions :: "(search_row \<times> bool \<times> subscription) list"
  db_clusters :: "(search_row \<times> ocm_cluster) list"

definition select_rows :: "('a \<Rightarrow> bool) \<Rightarrow> ('a \<times> 'b) list \<Rightarrow> 'b list" where
  "select_rows m rows = map snd (filter (\<lambda>row. m (fst row)) rows)"

definition subscription_answer :: "bool \<times> subscription \<Rightarrow> subscription option" where
  "subscription_answer vs = (if fst vs then Some (snd vs) else None)"

definition answers :: "ocm_api \<Rightarrow> ocm_database \<Rightarrow> bool" where
  "answers api db \<longleftrightarrow> (\<forall>t m. read_search t = Some m \<longrightarrow>
     oa_labels api t = select_rows m (db_labels db) \<and>
     oa_subscriptions api t = map subscription_answer (select_rows m (db_subscriptions db)) \<and>
     oa_clusters api t = select_rows m (db_clusters db))"

definition has_field :: "search_row \<Rightarrow> string \<Rightarrow> string \<Rightarrow> bool" where
  "has_field r k v \<longleftrightarrow> (\<forall>x. sr_is r k x \<longleftrightarrow> x = v)"

definition consistent :: "ocm_database \<Rightarrow> bool" where
  \<comment> \<open>the fields that are searched are those of the objects, and ids of subscriptions are unique\<close>
  "consistent db \<longleftrightarrow>
     (\<forall>(r, v, s) \<in> set (db_subscriptions db). has_field r ''id'' (sb_id s) \<and>
        has_field r ''organization_id'' (sb_organization_id s) \<and> has_field r ''status'' (sb_status s) \<and>
        has_field r ''managed'' (if sb_managed s then ''true'' else ''false'')) \<and>
     (\<forall>(r, c) \<in> set (db_clusters db). has_field r ''subscription.id'' (oc_subscription_id c)) \<and>
     (\<forall>(r, v, s) \<in> set (db_subscriptions db). \<forall>(q, w, t) \<in> set (db_subscriptions db). sb_id s = sb_id t \<longrightarrow> s = t)"

definition active_subscription :: "ocm_database \<Rightarrow> search_row \<Rightarrow> subscription \<Rightarrow> bool" where
  "active_subscription db r s \<longleftrightarrow>
     (r, True, s) \<in> set (db_subscriptions db) \<and> sb_managed s \<and> sb_status s \<in> {''Active'', ''Reserved''}"

definition ready_cluster :: "ocm_database \<Rightarrow> ocm_cluster \<Rightarrow> bool" where
  "ready_cluster db c \<longleftrightarrow> (\<exists>r. (r, c) \<in> set (db_clusters db) \<and> sr_is r ''managed'' ''true'' \<and>
     sr_is r ''state'' ''ready'' \<and> (sr_is r ''product.id'' ''osd'' \<or> sr_is r ''product.id'' ''rosa''))"

section \<open>Filters that render\<close>

definition renders :: "search_lib \<Rightarrow> ocm_filter \<Rightarrow> bool" where
  "renders lib f \<longleftrightarrow> \<not> isl (render lib f)"

definition condition_renders :: "search_lib \<Rightarrow> filter_condition \<Rightarrow> bool" where
  "condition_renders lib c \<longleftrightarrow> \<not> isl (render_condition lib c)"

lemma rmap_not_isl: "\<not> isl (rmap f xs) \<longleftrightarrow> (\<forall>x \<in> set xs. \<not> isl (f x))"
proof (induction xs)
  case (Cons x xs)
  then show ?case by (cases "f x"; cases "rmap f xs") auto
qed simp

lemma renders_iff:
  "renders lib (Filter cs m) \<longleftrightarrow> cs \<noteq> [] \<and> (\<forall>c \<in> set cs. condition_renders lib c)"
proof -
  have "\<not> isl (rbind x (\<lambda>y. Inr (g y))) \<longleftrightarrow> \<not> isl x" for x :: "string + string list" and g :: "string list \<Rightarrow> string"
    by (cases x) auto
  then show ?thesis
    using rmap_not_isl [of "render_condition lib" "sort_key fc_key cs"]
    by (auto simp: renders_def condition_renders_def)
qed

lemma condition_renders_simps [simp]:
  "condition_renders lib (EqCondition k vs)" "condition_renders lib (LikeCondition k vs)"
  "condition_renders lib (FilterObjectCondition k f) \<longleftrightarrow> renders lib f"
  by (simp_all add: condition_renders_def renders_def)

lemma renders_alt:
  "renders lib f \<longleftrightarrow> ft_conditions f \<noteq> [] \<and> (\<forall>c \<in> set (ft_conditions f). condition_renders lib c)"
  by (cases f) (simp add: renders_iff)

definition searchable :: "search_lib \<Rightarrow> ocm_filter \<Rightarrow> bool" where
  \<comment> \<open>a filter whose text OCM can read\<close>
  "searchable lib f \<longleftrightarrow> renders lib f \<and> plain_filter f \<and> plain_dates lib"

lemma searchable_text:
  assumes "searchable lib f" "answers api db"
  obtains t where "render lib f = Inr t"
    and "oa_labels api t = select_rows (\<lambda>r. filter_holds lib r f) (db_labels db)"
    and "oa_subscriptions api t = map subscription_answer (select_rows (\<lambda>r. filter_holds lib r f) (db_subscriptions db))"
    and "oa_clusters api t = select_rows (\<lambda>r. filter_holds lib r f) (db_clusters db)"
proof -
  from assms(1) obtain t where t: "render lib f = Inr t"
    by (cases "render lib f") (auto simp: searchable_def renders_def)
  from written_filter_text(2) [OF t] assms(1) have "written_and t (\<lambda>r. filter_holds lib r f)"
    by (simp add: searchable_def)
  with read_written_or [of "[(t, \<lambda>r. filter_holds lib r f)]" "[]" "2 * length t + 3"]
  have "read_search t = Some (\<lambda>r. filter_holds lib r f)"
    by (simp add: ends_or_def ends_and_def read_search_def)
  with assms(2) t that show ?thesis unfolding answers_def by blast
qed

lemma set_select_rows: "set (select_rows m rows) = {x. \<exists>r. (r, x) \<in> set rows \<and> m r}"
  by (force simp: select_rows_def)

lemma chunk_searchable:
  assumes "chunk_by f key n missing = Inr fs" "searchable lib f" "g \<in> set fs" "0 < n"
  shows "searchable lib g"
proof (cases "\<exists>c. condition_by_key f key = Some c \<and> is_list_condition c")
  case True
  then obtain c where c: "condition_by_key f key = Some c" "is_list_condition c" by blast
  with assms obtain vs where g: "g = copy_and_override f (with_values c vs)" "vs \<in> set (slices (nat n) (fc_values c))"
    by (auto simp: chunk_by_def Let_def)
  have "set vs \<subseteq> set (fc_values c)" "vs \<noteq> []"
    using set_slices [of "nat n" "fc_values c"] assms(4) g(2) length_slices [OF g(2)] by auto
  moreover have "plain_condition c" using assms(2) c(1) by (auto simp: searchable_def plain_filter_iff dest: condition_by_key_Some)
  ultimately have "plain_condition (with_values c vs)" "condition_renders lib (with_values c vs)"
    using c(2) by (auto simp: is_list_condition_def with_values_def list_all_iff split: filter_condition.splits)
  with assms(2) show ?thesis
    unfolding g(1) by (auto simp: searchable_def renders_alt plain_filter_iff copy_and_override_def)
next
  case False
  with assms(1,3) have "g = f" by (auto simp: chunk_by_def Let_def split: option.splits if_splits)
  with assms(2) show ?thesis by simp
qed

lemma chunks_found:
  assumes "chunk_by f key n missing = Inr fs" "searchable lib f" "0 < n" "distinct (filter_keys f)"
  shows "filter_holds lib r f \<longleftrightarrow> (\<exists>g \<in> set fs. filter_holds lib r g)"
proof (cases "\<exists>c. condition_by_key f key = Some c \<and> is_list_condition c")
  case True
  then obtain c where c: "condition_by_key f key = Some c" "is_list_condition c" by blast
  have "plain_condition c" using assms(2) c(1) by (auto simp: searchable_def plain_filter_iff dest: condition_by_key_Some)
  then have "fc_values c \<noteq> []" using c(2) by (auto simp: is_list_condition_def split: filter_condition.splits)
  from chunks_cover_aux [OF assms(1,3,4) c this] show ?thesis by blast
next
  case False
  with assms(1) have "fs = [f]" by (auto simp: chunk_by_def Let_def split: option.splits if_splits)
  then show ?thesis by simp
qed

section \<open>Subscriptions\<close>

lemma keep_subscription_simps [simp]:
  "keep_subscription subs None = subs" "keep_subscription subs (Some s) = dict_set subs (sb_id s) s"
  by (simp_all add: keep_subscription_def)

lemma keep_subscriptions_lookup:
  assumes "\<And>s t. Some s \<in> set xs \<Longrightarrow> Some t \<in> set xs \<Longrightarrow> sb_id s = sb_id t \<Longrightarrow> s = t"
  shows "dict_get (foldl keep_subscription subs xs) i = Some s \<longleftrightarrow>
    (Some s \<in> set xs \<and> sb_id s = i) \<or> ((\<forall>t. Some t \<in> set xs \<longrightarrow> sb_id t \<noteq> i) \<and> dict_get subs i = Some s)"
  using assms
proof (induction xs rule: rev_induct)
  case (snoc x xs)
  have ih: "dict_get (foldl keep_subscription subs xs) i = Some s \<longleftrightarrow>
      (Some s \<in> set xs \<and> sb_id s = i) \<or> ((\<forall>t. Some t \<in> set xs \<longrightarrow> sb_id t \<noteq> i) \<and> dict_get subs i = Some s)"
    using snoc by auto
  show ?case
  proof (cases x)
    case None
    then show ?thesis using ih by simp
  next
    case (Some u)
    with snoc.prems [of _ u] have same: "s' = u" if "Some s' \<in> set xs" "sb_id s' = sb_id u" for s'
      using that by auto
    have "dict_get (foldl keep_subscription subs (xs @ [x])) i =
        (if i = sb_id u then Some u else dict_get (foldl keep_subscription subs xs) i)"
      by (simp add: Some dict_simps)
    moreover have "Some s \<in> set xs \<and> sb_id s = sb_id u \<Longrightarrow> s = u" using same by blast
    ultimately show ?thesis using ih Some by (cases "i = sb_id u") auto
  qed
qed simp

lemma wf_keep_subscriptions: "wf_dict subs \<Longrightarrow> wf_dict (foldl keep_subscription subs xs)"
  by (induction xs arbitrary: subs) (auto simp: keep_subscription_def wf_dict_set split: option.splits)

lemma subscription_chunks:
  assumes "answers api db" "\<And>g. g \<in> set gs \<Longrightarrow> searchable lib g"
  shows "rfold (\<lambda>subs chunk. rbind (render lib chunk) (\<lambda>t.
      Inr (foldl keep_subscription subs (oa_subscriptions api t)))) subs gs =
    Inr (foldl keep_subscription subs (concat (map (\<lambda>g.
      map subscription_answer (select_rows (\<lambda>r. filter_holds lib r g) (db_subscriptions db))) gs)))"
  using assms(2)
proof (induction gs arbitrary: subs)
  case (Cons g gs)
  from Cons.prems have "searchable lib g" by simp
  from searchable_text [OF this assms(1)] obtain t where "render lib g = Inr t"
    "oa_subscriptions api t = map subscription_answer (select_rows (\<lambda>r. filter_holds lib r g) (db_subscriptions db))" .
  with Cons show ?case by simp
qed simp

lemma chunk_by_ignoring: "n \<noteq> 0 \<Longrightarrow> \<exists>fs. chunk_by f key n True = Inr fs"
  by (auto simp: chunk_by_def Let_def split: option.splits)

lemma get_subscriptions_found:
  assumes "answers api db" "consistent db" "searchable lib f" "distinct (filter_keys f)"
  shows "\<exists>subs. get_subscriptions lib api f = Inr subs \<and> wf_dict subs \<and>
    (\<forall>i s. dict_get subs i = Some s \<longleftrightarrow>
       (\<exists>r. (r, True, s) \<in> set (db_subscriptions db) \<and> filter_holds lib r f \<and> sb_id s = i))"
proof -
  obtain gs where gs: "chunk_by f ''id'' 100 True = Inr gs" using chunk_by_ignoring [of 100 f "''id''"] by auto
  have searchable: "searchable lib g" if "g \<in> set gs" for g
    by (rule chunk_searchable [OF gs assms(3) that]) simp
  define xs where "xs = concat (map (\<lambda>g.
      map subscription_answer (select_rows (\<lambda>r. filter_holds lib r g) (db_subscriptions db))) gs)"
  have run: "get_subscriptions lib api f = Inr (foldl keep_subscription [] xs)"
    using subscription_chunks [OF assms(1) searchable, where subs = "[]" and gs = gs]
    by (simp add: get_subscriptions_def gs xs_def)
  have found: "filter_holds lib r f \<longleftrightarrow> (\<exists>g \<in> set gs. filter_holds lib r g)" for r :: search_row
    by (rule chunks_found [OF gs assms(3) _ assms(4)]) simp
  have xs: "Some s \<in> set xs \<longleftrightarrow> (\<exists>r. (r, True, s) \<in> set (db_subscriptions db) \<and> filter_holds lib r f)" for s
    unfolding found by (force simp: xs_def set_select_rows subscription_answer_def split: if_splits)
  have "s = t" if "Some s \<in> set xs" "Some t \<in> set xs" "sb_id s = sb_id t" for s t
    using assms(2) that unfolding xs consistent_def by blast
  then have "dict_get (foldl keep_subscription [] xs) i = Some s \<longleftrightarrow> Some s \<in> set xs \<and> sb_id s = i" for i s
    by (subst keep_subscriptions_lookup) auto
  then have "\<forall>i s. dict_get (foldl keep_subscription [] xs) i = Some s \<longleftrightarrow>
      (\<exists>r. (r, True, s) \<in> set (db_subscriptions db) \<and> filter_holds lib r f \<and> sb_id s = i)"
    unfolding xs by blast
  moreover have "wf_dict (foldl keep_subscription [] xs)" by (simp add: wf_keep_subscriptions)
  ultimately show ?thesis using run by blast
qed

section \<open>Clusters of subscriptions\<close>

definition plain_idents :: "(nat \<Rightarrow> string) \<Rightarrow> bool" where
  \<comment> \<open>the identity of an object, a number, is not the name of a field\<close>
  "plain_idents ident \<longleftrightarrow> (\<forall>n. ident n \<notin> {''id'', ''status'', ''managed'', ''subscription.id'', ''type'', ''organization_id''})"

definition active_conditions :: "filter_condition list" where
  "active_conditions = [EqCondition ''status'' [''Active'', ''Reserved''], EqCondition ''managed'' [''true'']]"

definition ready_conditions :: "filter_condition list" where
  "ready_conditions = [EqCondition ''managed'' [''true''], EqCondition ''state'' [''ready''],
     EqCondition ''product.id'' [''osd'', ''rosa'']]"

lemma active_filter: "build_subscription_filter [''Active'', ''Reserved''] True = Inr (Filter active_conditions AndMode)"
  by code_simp

lemma ready_filter: "cluster_ready_for_app_interface = Inr (Filter ready_conditions AndMode)"
  by code_simp

lemma plain_fields [simp]:
  "plain_key ''status''" "plain_key ''managed''" "plain_key ''state''" "plain_key ''product.id''"
  "plain_key ''subscription.id''" "plain_key ''organization_id''" "plain_key ''id''" "plain_key ''type''"
  by code_simp+

lemma sort_not_Nil [simp]: "sort xs = [] \<longleftrightarrow> xs = []"
  by (metis length_0_conv length_sort)

lemma plain_simps [simp]:
  "plain_filter (Filter cs m) \<longleftrightarrow> (\<forall>c \<in> set cs. plain_condition c)"
  by (simp add: list_all_iff)

lemma searchable_and:
  assumes "plain_filter f" "plain_dates lib" "ft_conditions f = [] \<or> renders lib f" "cs \<noteq> []"
    and "\<forall>c \<in> set cs. plain_condition c \<and> condition_renders lib c" "ft_mode f = AndMode \<or> ft_conditions f \<noteq> []"
  shows "searchable lib (Filter (as_conjuncts i f @ cs) AndMode)"
  using assms by (auto simp: searchable_def renders_iff renders_alt as_conjuncts_def plain_filter_iff)

lemma rmap_total:
  "(\<And>x. x \<in> set xs \<Longrightarrow> \<exists>y. f x = Inr y) \<Longrightarrow> \<exists>ys. rmap f xs = Inr ys \<and> set ys = {y. \<exists>x \<in> set xs. f x = Inr y}"
proof (induction xs)
  case (Cons x xs)
  then obtain y ys where "f x = Inr y" "rmap f xs = Inr ys" "set ys = {y. \<exists>x \<in> set xs. f x = Inr y}" by fastforce
  then show ?case by auto
qed simp

definition found_clusters :: "ocm_database \<Rightarrow> (search_row \<Rightarrow> bool) \<Rightarrow> (ocm_cluster \<times> string) set" where
  \<comment> \<open>the ready clusters of the active subscriptions that are looked for, with their organizations\<close>
  "found_clusters db P = {(c, sb_organization_id s) | c r s.
     ready_cluster db c \<and> active_subscription db r s \<and> P r \<and> sb_id s = oc_subscription_id c}"

lemma filter_holds_append:
  "filter_holds lib r (Filter (cs @ ds) AndMode) \<longleftrightarrow>
     (\<forall>c \<in> set cs. condition_holds lib r c) \<and> (\<forall>c \<in> set ds. condition_holds lib r c)"
  by (simp add: list_all_iff ball_Un)

lemma details_for_subscriptions:
  assumes db: "answers api db" "consistent db"
    and f: "plain_filter f" "plain_dates lib" "ft_conditions f = [] \<or> renders lib f" "ft_mode f = AndMode \<or> ft_conditions f \<noteq> []"
    and keys: "distinct (map fc_key (as_conjuncts (ident 4) f @ active_conditions))"
  shows "\<exists>cs. get_cluster_details_for_subscriptions lib ident api (Some f) None False = Inr cs \<and>
    (\<lambda>d. (cd_cluster d, cd_organization_id d)) ` set cs = found_clusters db (\<lambda>r. filter_holds lib r f)"
proof -
  let ?h = "Filter (as_conjuncts (ident 4) f @ active_conditions) AndMode"
  have and': "filter_and (ident 4) f (ident 5) (Filter active_conditions AndMode) = Inr ?h"
    using keys by (simp add: filter_and_alt as_conjuncts_def [of _ "Filter _ _"] add_new_conditions)
  have h: "searchable lib ?h"
    by (rule searchable_and [OF f(1-3)]) (use f(4) in \<open>auto simp: active_conditions_def\<close>)
  have h_holds: "filter_holds lib r ?h \<longleftrightarrow> filter_holds lib r f \<and> (sr_is r ''status'' ''Active'' \<or> sr_is r ''status'' ''Reserved'') \<and>
      sr_is r ''managed'' ''true''" for r :: search_row
    unfolding filter_holds_append as_conjuncts_hold by (simp add: active_conditions_def)
  from get_subscriptions_found [OF db h] keys obtain subs where
    subs: "get_subscriptions lib api ?h = Inr subs" "wf_dict subs"
    and lookup: "\<And>i s. dict_get subs i = Some s \<longleftrightarrow>
       (\<exists>r. (r, True, s) \<in> set (db_subscriptions db) \<and> filter_holds lib r ?h \<and> sb_id s = i)" by auto
  have active: "dict_get subs i = Some s \<longleftrightarrow> (\<exists>r. active_subscription db r s \<and> filter_holds lib r f \<and> sb_id s = i)" for i s
  proof -
    have "(sr_is r ''status'' ''Active'' \<or> sr_is r ''status'' ''Reserved'') \<and> sr_is r ''managed'' ''true'' \<longleftrightarrow>
        sb_managed s \<and> sb_status s \<in> {''Active'', ''Reserved''}" if "(r, True, s) \<in> set (db_subscriptions db)" for r
    proof -
      from db(2) that have "has_field r ''status'' (sb_status s)"
        "has_field r ''managed'' (if sb_managed s then ''true'' else ''false'')"
        unfolding consistent_def by blast+
      then show ?thesis by (auto simp: has_field_def)
    qed
    then show ?thesis unfolding lookup h_holds active_subscription_def by blast
  qed
  show ?thesis
  proof (cases "subs = []")
    case True
    with active have "found_clusters db (\<lambda>r. filter_holds lib r f) = {}"
      by (auto simp: found_clusters_def)
    with True and' subs(1) active_filter show ?thesis by (simp add: get_cluster_details_for_subscriptions_def)
  next
    case False
    let ?g = "Filter (ready_conditions @ [EqCondition ''subscription.id'' (sort (dict_keys subs))]) AndMode"
    have g: "is_in (Filter ready_conditions AndMode) ''subscription.id'' (dict_keys subs) = Inr ?g"
      using False by (simp add: is_in_def add_new_condition ready_conditions_def)
    have searchable_g: "searchable lib ?g"
      using f(2) False by (auto simp: searchable_def renders_iff ready_conditions_def)
    obtain gs where gs: "chunk_by ?g ''subscription.id'' 100 True = Inr gs"
      using chunk_by_ignoring [of 100 ?g "''subscription.id''"] by auto
    have searchable_gs: "searchable lib g" if "g \<in> set gs" for g
      by (rule chunk_searchable [OF gs searchable_g that]) simp
    have found: "filter_holds lib r ?g \<longleftrightarrow> (\<exists>g \<in> set gs. filter_holds lib r g)" for r :: search_row
      by (rule chunks_found [OF gs searchable_g]) (simp_all add: ready_conditions_def)
    have ready: "(\<exists>r. (r, c) \<in> set (db_clusters db) \<and> filter_holds lib r ?g) \<longleftrightarrow>
        ready_cluster db c \<and> dict_get subs (oc_subscription_id c) \<noteq> None" for c
    proof -
      have "sr_is r ''subscription.id'' x \<longleftrightarrow> x = oc_subscription_id c" if "(r, c) \<in> set (db_clusters db)" for r x
        using db(2) that by (auto simp: consistent_def has_field_def)
      then have "(\<exists>v \<in> set (dict_keys subs). sr_is r ''subscription.id'' v) \<longleftrightarrow> dict_get subs (oc_subscription_id c) \<noteq> None"
        if "(r, c) \<in> set (db_clusters db)" for r
        using that by (auto simp: map_of_eq_None_iff)
      then show ?thesis
        unfolding filter_holds_append ready_cluster_def
        by (auto simp: ready_conditions_def list_ex_iff)
    qed
    define details where "details c = \<lparr>cd_cluster = c,
        cd_organization_id = sb_organization_id (the (dict_get subs (oc_subscription_id c))),
        cd_subscription_labels = build_label_container [sb_labels (the (dict_get subs (oc_subscription_id c)))],
        cd_organization_labels = label_container_of []\<rparr>" for c
    have one: "\<exists>cs. rbind (render lib g) (\<lambda>t. rmap (cluster_details_of subs []) (oa_clusters api t)) = Inr cs \<and>
        set cs = {details c | c. \<exists>r. (r, c) \<in> set (db_clusters db) \<and> filter_holds lib r g}" if "g \<in> set gs" for g
    proof -
      have sg: "searchable lib g" using that by (rule searchable_gs)
      obtain t where t: "render lib g = Inr t" "oa_clusters api t = select_rows (\<lambda>r. filter_holds lib r g) (db_clusters db)"
        using searchable_text [OF sg db(1)] by blast
      have "cluster_details_of subs [] c = Inr (details c)" if "c \<in> set (oa_clusters api t)" for c
      proof -
        from that t(2) \<open>g \<in> set gs\<close> found ready [of c] obtain s where "dict_get subs (oc_subscription_id c) = Some s"
          by (auto simp: set_select_rows)
        then show ?thesis by (simp add: cluster_details_of_def of_opt_def details_def get_or_def)
      qed
      then have "rmap (cluster_details_of subs []) (oa_clusters api t) = Inr (map details (oa_clusters api t))"
        by (rule rmap_all_Inr)
      with t show ?thesis by (auto simp: set_select_rows)
    qed
    obtain css where css: "rmap (\<lambda>g. rbind (render lib g) (\<lambda>t. rmap (cluster_details_of subs []) (oa_clusters api t))) gs = Inr css"
      "set css = {cs. \<exists>g \<in> set gs. rbind (render lib g) (\<lambda>t. rmap (cluster_details_of subs []) (oa_clusters api t)) = Inr cs}"
      using rmap_total [of gs "\<lambda>g. rbind (render lib g) (\<lambda>t. rmap (cluster_details_of subs []) (oa_clusters api t))"] one by blast
    have "set (concat css) = {details c | c. \<exists>r. (r, c) \<in> set (db_clusters db) \<and> filter_holds lib r ?g}"
      unfolding found set_concat css(2) using one by fastforce
    also have "\<dots> = details ` {c. ready_cluster db c \<and> dict_get subs (oc_subscription_id c) \<noteq> None}"
      unfolding ready by auto
    finally have "(\<lambda>d. (cd_cluster d, cd_organization_id d)) ` set (concat css) =
        (\<lambda>c. (c, sb_organization_id (the (dict_get subs (oc_subscription_id c))))) `
          {c. ready_cluster db c \<and> dict_get subs (oc_subscription_id c) \<noteq> None}"
      by (simp add: image_image details_def)
    also have "\<dots> = {(c, sb_organization_id s) | c s. ready_cluster db c \<and> dict_get subs (oc_subscription_id c) = Some s}"
      by (auto simp: image_iff)
    also have "\<dots> = found_clusters db (\<lambda>r. filter_holds lib r f)"
      unfolding active found_clusters_def by blast
    finally have "(\<lambda>d. (cd_cluster d, cd_organization_id d)) ` set (concat css) = found_clusters db (\<lambda>r. filter_holds lib r f)" .
    moreover have "get_cluster_details_for_subscriptions lib ident api (Some f) None False = Inr (concat css)"
      using and' subs(1) False g gs css(1)
      by (simp add: get_cluster_details_for_subscriptions_def active_filter ready_filter organization_labels_of_def)
    ultimately show ?thesis by blast
  qed
qed

section \<open>Discovery\<close>

lemma keys_group_by: "set (dict_keys (group_by f xs)) = f ` set xs"
proof -
  have "fst ` set (foldl (\<lambda>groups x. dict_set groups (f x)
      ((case dict_get groups (f x) of None \<Rightarrow> [] | Some g \<Rightarrow> g) @ [x])) acc xs) = fst ` set acc \<union> f ` set xs" for acc
    by (induction xs arbitrary: acc) (auto simp: keys_dict_set)
  then show ?thesis by (simp add: group_by_def)
qed

lemma group_by_Nil_iff: "group_by f xs = [] \<longleftrightarrow> xs = []"
  using keys_group_by [of f xs] by (cases "group_by f xs"; cases xs) auto

lemma subscription_fields:
  assumes "consistent db" "active_subscription db r s"
  shows "sr_is r ''id'' x \<longleftrightarrow> x = sb_id s" "sr_is r ''organization_id'' x \<longleftrightarrow> x = sb_organization_id s"
proof -
  from assms have "has_field r ''id'' (sb_id s)" "has_field r ''organization_id'' (sb_organization_id s)"
    unfolding consistent_def active_subscription_def by blast+
  then show "sr_is r ''id'' x \<longleftrightarrow> x = sb_id s" "sr_is r ''organization_id'' x \<longleftrightarrow> x = sb_organization_id s"
    by (simp_all add: has_field_def)
qed

lemma found_clusters_cong:
  assumes "\<And>r s. active_subscription db r s \<Longrightarrow> P r \<longleftrightarrow> Q s"
  shows "found_clusters db P = {(c, sb_organization_id s) | c s.
    ready_cluster db c \<and> (\<exists>r. active_subscription db r s) \<and> sb_id s = oc_subscription_id c \<and> Q s}"
  using assms unfolding found_clusters_def by blast

text \<open>The clusters of organizations are all found: exactly the ready clusters with an active, managed
  subscription of one of the organizations, each with its organization, over any number of search chunks.\<close>
theorem organization_clusters_found:
  assumes "answers api db" "consistent db" "plain_dates lib" "organization_ids \<noteq> []"
  shows "\<exists>cs. discover_clusters_for_organizations lib ident api organization_ids None = Inr cs \<and>
    (\<lambda>d. (cd_cluster d, cd_organization_id d)) ` set cs = {(c, sb_organization_id s) | c s. ready_cluster db c \<and>
       (\<exists>r. active_subscription db r s) \<and> sb_id s = oc_subscription_id c \<and> sb_organization_id s \<in> set organization_ids}"
proof -
  let ?f = "Filter [EqCondition ''organization_id'' (sort organization_ids)] AndMode"
  have f: "is_in empty_filter ''organization_id'' organization_ids = Inr ?f"
    using assms(4) by (simp add: is_in_def add_new_condition)
  have "distinct (map fc_key (as_conjuncts (ident 4) ?f @ active_conditions))"
    by (simp add: as_conjuncts_def active_conditions_def)
  moreover have "filter_holds lib r ?f \<longleftrightarrow> sb_organization_id s \<in> set organization_ids"
    if "active_subscription db r s" for r s
    using subscription_fields(2) [OF assms(2) that] by (simp add: list_ex_iff)
  note found_clusters_cong [of db "\<lambda>r. filter_holds lib r ?f", OF this]
  ultimately show ?thesis
    using details_for_subscriptions [OF assms(1,2), of ?f lib ident] assms(3,4) f
    by (simp add: discover_clusters_for_organizations_def renders_iff del: filter_holds.simps)
qed

definition labelled_subscription :: "ocm_database \<Rightarrow> search_lib \<Rightarrow> ocm_filter \<Rightarrow> subscription \<Rightarrow> bool" where
  \<comment> \<open>a label that is looked for is on the subscription or on its organization\<close>
  "labelled_subscription db lib f s \<longleftrightarrow> (\<exists>r l. (r, l) \<in> set (db_labels db) \<and> filter_holds lib r f \<and>
     (rl_type l = ''Subscription'' \<and> rl_owner l = sb_id s \<or> rl_type l = ''Organization'' \<and> rl_owner l = sb_organization_id s))"

definition known_label :: "raw_label \<Rightarrow> bool" where
  "known_label l \<longleftrightarrow> rl_type l \<in> {''Subscription'', ''Organization'', ''Account''}"

lemma get_labels_found:
  assumes "answers api db" "searchable lib f"
    and "\<forall>(r, l) \<in> set (db_labels db). filter_holds lib r f \<longrightarrow> known_label l"
  shows "\<exists>ls. get_labels lib api f = Inr ls \<and>
    ol_owner ` set (filter is_SubscriptionLabel ls) =
      {rl_owner l | r l. (r, l) \<in> set (db_labels db) \<and> filter_holds lib r f \<and> rl_type l = ''Subscription''} \<and>
    ol_owner ` set (filter is_OrganizationLabel ls) =
      {rl_owner l | r l. (r, l) \<in> set (db_labels db) \<and> filter_holds lib r f \<and> rl_type l = ''Organization''}"
proof -
  obtain t where t: "render lib f = Inr t" "oa_labels api t = select_rows (\<lambda>r. filter_holds lib r f) (db_labels db)"
    using searchable_text [OF assms(2,1)] by blast
  define g :: "raw_label \<Rightarrow> ocm_label" where "g l = (if rl_type l = ''Subscription'' then SubscriptionLabel (rl_key l) (rl_value l) (rl_owner l)
      else if rl_type l = ''Organization'' then OrganizationLabel (rl_key l) (rl_value l) (rl_owner l)
      else AccountLabel (rl_key l) (rl_value l) (rl_owner l))" for l
  have kinds: "is_SubscriptionLabel (g l) \<longleftrightarrow> rl_type l = ''Subscription''"
    "is_OrganizationLabel (g l) \<longleftrightarrow> rl_type l = ''Organization''" "ol_owner (g l) = rl_owner l" for l
    by (auto simp: g_def)
  have "build_label_from_dict l = Inr (g l)" if "l \<in> set (oa_labels api t)" for l
    using assms(3) that t(2) by (auto simp: set_select_rows known_label_def build_label_from_dict_def g_def)
  then have "rmap build_label_from_dict (oa_labels api t) = Inr (map g (oa_labels api t))"
    by (rule rmap_all_Inr)
  moreover have "ol_owner ` set (filter is_SubscriptionLabel (map g (oa_labels api t))) =
      {rl_owner l | r l. (r, l) \<in> set (db_labels db) \<and> filter_holds lib r f \<and> rl_type l = ''Subscription''}"
    "ol_owner ` set (filter is_OrganizationLabel (map g (oa_labels api t))) =
      {rl_owner l | r l. (r, l) \<in> set (db_labels db) \<and> filter_holds lib r f \<and> rl_type l = ''Organization''}"
    by (auto simp: t(2) set_select_rows kinds image_iff filter_map o_def; blast)+
  ultimately show ?thesis using t(1) by (simp add: get_labels_def)
qed

definition id_conditions :: "string \<Rightarrow> string list \<Rightarrow> filter_condition list" where
  "id_conditions key ids = (if ids = [] then [] else [EqCondition key (sort ids)])"

lemma is_in_empty: "is_in empty_filter key ids = Inr (Filter (id_conditions key ids) AndMode)"
  by (simp add: is_in_def id_conditions_def add_new_condition)

lemma or_of_ids:
  "filter_or i (Filter (id_conditions k xs) AndMode) j (Filter (id_conditions l ys) AndMode) =
     Filter (id_conditions k xs @ id_conditions l ys) OrMode"
  by (simp add: filter_or_def id_conditions_def)

text \<open>C39. Discovery by labels is exact. It finds the ready clusters with an active, managed subscription such
  that a label that is looked for is on the subscription or on its organization, and no others.\<close>
theorem labelled_clusters_found:
  assumes "answers api db" "consistent db" "plain_idents ident" "searchable lib f"
    and "\<And>r l. (r, l) \<in> set (db_labels db) \<Longrightarrow> filter_holds lib r f \<Longrightarrow> known_label l"
  shows "\<exists>cs. discover_clusters_by_labels lib ident api f = Inr cs \<and>
    (\<lambda>d. (cd_cluster d, cd_organization_id d)) ` set cs = {(c, sb_organization_id s) | c s. ready_cluster db c \<and>
       (\<exists>r. active_subscription db r s) \<and> sb_id s = oc_subscription_id c \<and> labelled_subscription db lib f s}"
proof -
  have known: "\<forall>(r, l) \<in> set (db_labels db). filter_holds lib r f \<longrightarrow> known_label l" using assms(5) by blast
  obtain ls where ls: "get_labels lib api f = Inr ls"
    and subs: "ol_owner ` set (filter is_SubscriptionLabel ls) =
      {rl_owner l | r l. (r, l) \<in> set (db_labels db) \<and> filter_holds lib r f \<and> rl_type l = ''Subscription''}"
    and orgs: "ol_owner ` set (filter is_OrganizationLabel ls) =
      {rl_owner l | r l. (r, l) \<in> set (db_labels db) \<and> filter_holds lib r f \<and> rl_type l = ''Organization''}"
    using get_labels_found [OF assms(1,4) known] by blast
  define S where "S = group_by ol_owner (filter is_SubscriptionLabel ls)"
  define T where "T = group_by ol_owner (filter is_OrganizationLabel ls)"
  have labelled: "labelled_subscription db lib f s \<longleftrightarrow> sb_id s \<in> set (dict_keys S) \<or> sb_organization_id s \<in> set (dict_keys T)" for s
    unfolding S_def T_def keys_group_by subs orgs labelled_subscription_def by (auto; blast)
  show ?thesis
  proof (cases "S = [] \<and> T = []")
    case True
    with labelled have "\<not> labelled_subscription db lib f s" for s by simp
    then show ?thesis using True ls by (simp add: discover_clusters_by_labels_def S_def [symmetric] T_def [symmetric])
  next
    case False
    let ?h = "Filter (id_conditions ''id'' (dict_keys S) @ id_conditions ''organization_id'' (dict_keys T)) OrMode"
    have "distinct (map fc_key (as_conjuncts (ident 4) ?h @ active_conditions))"
      using assms(3) by (auto simp: as_conjuncts_def active_conditions_def plain_idents_def)
    moreover have "plain_filter ?h" "plain_dates lib" "renders lib ?h" "ft_conditions ?h \<noteq> []"
      using assms(4) False by (auto simp: id_conditions_def searchable_def renders_iff)
    ultimately obtain cs where
      cs: "get_cluster_details_for_subscriptions lib ident api (Some ?h) None False = Inr cs"
        "(\<lambda>d. (cd_cluster d, cd_organization_id d)) ` set cs = found_clusters db (\<lambda>r. filter_holds lib r ?h)"
      using details_for_subscriptions [OF assms(1,2), of ?h lib ident] by blast
    have "filter_holds lib r ?h \<longleftrightarrow> labelled_subscription db lib f s" if "active_subscription db r s" for r s
      using subscription_fields [OF assms(2) that] by (auto simp: list_ex_iff id_conditions_def labelled)
    note found_clusters_cong [of db "\<lambda>r. filter_holds lib r ?h", OF this]
    with cs(2) show ?thesis
      using ls cs(1)
      by (simp add: discover_clusters_by_labels_def S_def [symmetric] T_def [symmetric] is_in_empty or_of_ids
          image_image if_not_P [OF False] cong: if_cong)
  qed
qed

end
