(* ===== verification/Ocm_Examples.thy ===== *)
theory Ocm_Examples
  imports Ocm_Discovery_Laws Aus_Examples
begin

text \<open>
  A small OCM: two clusters of two organizations, one of them labelled. The properties of the search filters and
  of the discovery are applied to it.
\<close>

definition demo_search_lib :: search_lib where
  "demo_search_lib = \<lparr>sl_parse = (\<lambda>s. if s = ''now'' then Some 0 else None), sl_iso = (\<lambda>t. ''2026-01-01'')\<rparr>"

lemma demo_plain_dates: "plain_dates demo_search_lib"
  by (simp add: plain_dates_def demo_search_lib_def)

section \<open>Filters\<close>

definition demo_names :: ocm_filter where
  "demo_names = Filter [EqCondition ''id'' [''a'', ''b'', ''o'' @ [CHR 39] @ ''c''], DateRangeCondition ''created'' None (Some (DateText ''now''))] AndMode"

definition demo_pattern :: ocm_filter where
  "demo_pattern = Filter [LikeCondition ''key'' [''x.%'', ''y.%'']] OrMode"

definition demo_nested :: ocm_filter where
  "demo_nested = Filter [FilterObjectCondition ''7'' demo_names, LikeCondition ''key'' [''x.%'', ''y.%'']] OrMode"

lemma demo_nested_or: "filter_or ''7'' demo_names ''8'' demo_pattern = demo_nested"
  by code_simp

definition demo_text :: string where
  "demo_text = ''((key like '' @ in_quotes ''x.%'' @ '' or key like '' @ in_quotes ''y.%'' @ '') or created <= '' @
     in_quotes ''2026-01-01'' @ '' and id in ('' @ in_quotes ''a'' @ '','' @ in_quotes ''b'' @ '','' @
     in_quotes (''o'' @ [CHR 39, CHR 39] @ ''c'') @ ''))''"

lemma demo_rendered: "render demo_search_lib (Filter [LikeCondition ''key'' [''x.%'', ''y.%''], FilterObjectCondition ''zz'' demo_names] OrMode) =
    Inr demo_text"
  by code_simp

theorem rendered_filter_read_back_witness:
  "\<exists>m. read_search demo_text = Some m \<and> (\<forall>r. m r \<longleftrightarrow> filter_holds demo_search_lib r
     (Filter [LikeCondition ''key'' [''x.%'', ''y.%''], FilterObjectCondition ''zz'' demo_names] OrMode))"
  by (rule rendered_filter_read_back [OF demo_rendered _ demo_plain_dates]) code_simp

theorem filters_combine_witness:
  "\<exists>h. filter_and ''7'' demo_names ''8'' demo_pattern = Inr h \<and> (\<forall>lib r. filter_holds lib r h \<longleftrightarrow>
     filter_holds lib r demo_names \<and> filter_holds lib r demo_pattern)"
proof -
  have "distinct (map fc_key (as_conjuncts ''7'' demo_names @ as_conjuncts ''8'' demo_pattern))"
    "ft_conditions demo_names \<noteq> []" "ft_conditions demo_pattern \<noteq> []" by code_simp+
  from filters_combine [OF this] show ?thesis by blast
qed

definition demo_chunks :: "ocm_filter list" where
  "demo_chunks = map (\<lambda>vs. copy_and_override demo_names (EqCondition ''id'' vs)) [[''a'', ''b''], [''o'' @ [CHR 39] @ ''c'']]"

lemma demo_chunked: "chunk_by demo_names ''id'' 2 False = Inr demo_chunks"
  by code_simp

theorem chunks_cover_filter_witness:
  "\<forall>r. filter_holds demo_search_lib r demo_names \<longleftrightarrow> (\<exists>g \<in> set demo_chunks. filter_holds demo_search_lib r g)"
proof -
  have "distinct (filter_keys demo_names)" by code_simp
  moreover have "condition_by_key demo_names ''id'' = Some (EqCondition ''id'' [''a'', ''b'', ''o'' @ [CHR 39] @ ''c''])"
    by code_simp
  ultimately show ?thesis
    using chunks_cover_filter [OF demo_chunked, of _ demo_search_lib] by (simp add: is_list_condition_def)
qed

theorem built_filters_are_plain_witness:
  "plain_filter (filter_or ''7'' demo_pattern ''8'' demo_pattern)"
proof -
  have "plain_filter demo_pattern" "plain_key ''id''" by code_simp+
  from built_filters_are_plain [OF this(1,1,2), where pattern = "Some ''x.%''" and i = "''7''" and j = "''8''"] show ?thesis
    by (simp add: list_all_iff)
qed

section \<open>Discovery\<close>

definition memory_api :: "ocm_database \<Rightarrow> ocm_api" where
  \<comment> \<open>an OCM that evaluates the search language over its rows\<close>
  "memory_api db =
     \<lparr>oa_labels = (\<lambda>t. case read_search t of None \<Rightarrow> [] | Some m \<Rightarrow> select_rows m (db_labels db)),
          oa_subscriptions = (\<lambda>t. map subscription_answer
            (case read_search t of None \<Rightarrow> [] | Some m \<Rightarrow> select_rows m (db_subscriptions db))),
          oa_clusters = (\<lambda>t. case read_search t of None \<Rightarrow> [] | Some m \<Rightarrow> select_rows m (db_clusters db))\<rparr>"

lemma memory_answers: "answers (memory_api db) db"
  by (simp add: answers_def memory_api_def)

definition demo_row :: "(string \<times> string) list \<Rightarrow> search_row" where
  \<comment> \<open>patterns compare the text before the wildcard\<close>
  "demo_row fs = \<lparr>sr_is = (\<lambda>k v. map_of fs k = Some v),
     sr_like = (\<lambda>k p. case map_of fs k of None \<Rightarrow> False | Some v \<Rightarrow> prefix (takeWhile (\<lambda>c. c \<noteq> CHR ''%'') p) v),
     sr_from = (\<lambda>_ _. False), sr_until = (\<lambda>_ _. False)\<rparr>"

definition demo_subscription :: "string \<Rightarrow> string \<Rightarrow> subscription" where
  "demo_subscription n org_id = \<lparr>sb_id = ''sub-'' @ n, sb_organization_id = org_id, sb_managed = True,
     sb_status = ''Active'', sb_labels = []\<rparr>"

definition demo_subscription_row :: "subscription \<Rightarrow> search_row" where
  "demo_subscription_row s = demo_row [(''id'', sb_id s), (''organization_id'', sb_organization_id s),
     (''status'', sb_status s), (''managed'', if sb_managed s then ''true'' else ''false'')]"

definition demo_cluster_row :: "ocm_cluster \<Rightarrow> search_row" where
  "demo_cluster_row c = demo_row [(''managed'', ''true''), (''state'', ''ready''), (''product.id'', oc_product c),
     (''subscription.id'', oc_subscription_id c)]"

definition demo_label :: raw_label where
  "demo_label = \<lparr>rl_type = ''Organization'', rl_key = ''x.y'', rl_value = ''1'', rl_owner = ''o1''\<rparr>"

definition demo_ocm :: ocm_database where
  "demo_ocm = \<lparr>db_labels = [(demo_row [(''key'', ''x.y'')], demo_label)],
     db_subscriptions = map (\<lambda>s. (demo_subscription_row s, True, s)) [demo_subscription ''a'' ''o1'', demo_subscription ''b'' ''o2''],
     db_clusters = map (\<lambda>c. (demo_cluster_row c, c)) [demo_cluster ''a'' ''4.12.1'', demo_cluster ''b'' ''4.12.1'']\<rparr>"

lemma demo_consistent: "consistent demo_ocm"
  by (auto simp: consistent_def demo_ocm_def demo_subscription_row_def demo_cluster_row_def demo_row_def has_field_def
      demo_subscription_def)

theorem organization_clusters_found_witness:
  "\<exists>cs. discover_clusters_for_organizations demo_search_lib (\<lambda>n. show_digits n) (memory_api demo_ocm) [''o1''] None = Inr cs \<and>
    (\<lambda>d. (cd_cluster d, cd_organization_id d)) ` set cs = {(c, sb_organization_id s) | c s. ready_cluster demo_ocm c \<and>
       (\<exists>r. active_subscription demo_ocm r s) \<and> sb_id s = oc_subscription_id c \<and> sb_organization_id s \<in> set [''o1'']}"
  by (rule organization_clusters_found [OF memory_answers demo_consistent demo_plain_dates]) simp

definition demo_label_filter :: ocm_filter where
  "demo_label_filter = Filter [LikeCondition ''key'' [''x.%'']] AndMode"

lemma demo_idents: "plain_idents (\<lambda>n. show_digits n)"
proof -
  have "is_numeral (show_digits n)" for n
  proof (induction n rule: show_digits.induct)
    case (1 n)
    have "is_digit (char_of (48 + m) :: char)" if "m < 10" for m :: nat
      using that by (simp add: is_digit_def of_char_of)
    with 1 show ?case by (subst show_digits.simps) (simp add: is_numeral_def)
  qed
  moreover have "\<not> is_numeral f" if "f \<in> {''id'', ''status'', ''managed'', ''subscription.id'', ''type'', ''organization_id''}" for f
    using that by (auto simp: is_numeral_def is_digit_def)
  ultimately show ?thesis unfolding plain_idents_def by blast
qed

theorem labelled_clusters_found_witness:
  "\<exists>cs. discover_clusters_by_labels demo_search_lib (\<lambda>n. show_digits n) (memory_api demo_ocm) demo_label_filter = Inr cs \<and>
    (\<lambda>d. (cd_cluster d, cd_organization_id d)) ` set cs = {(c, sb_organization_id s) | c s. ready_cluster demo_ocm c \<and>
       (\<exists>r. active_subscription demo_ocm r s) \<and> sb_id s = oc_subscription_id c \<and>
       labelled_subscription demo_ocm demo_search_lib demo_label_filter s}"
proof (rule labelled_clusters_found [OF memory_answers demo_consistent demo_idents])
  have "plain_key ''key''" by code_simp
  then show "searchable demo_search_lib demo_label_filter"
    using demo_plain_dates by (simp add: searchable_def demo_label_filter_def renders_iff)
  show "known_label l" if "(r, l) \<in> set (db_labels demo_ocm)" for r l
    using that by (simp add: demo_ocm_def demo_label_def known_label_def)
qed

end
