(* ===== verification/Er_Model.thy ===== *)
theory Er_Model
  imports Json_Path
begin

text \<open>
  The data model of the external resources integration: \<open>reconcile/external_resources/model.py\<close> and the
  specification of a resource in \<open>reconcile/utils/external_resource_spec.py\<close>. The classes generated from the
  GraphQL schema are records with the fields the code reads.
\<close>

section \<open>Errors\<close>

datatype er_error =
  KeyMissing
| FetchResourceError
| ModuleConfigurationError string string string
| ValidationError
| ValueError
| TypeError
| AttributeError
| RecursionError
| ZeroDivisionError
| SecretIncomplete
| Orphaned "string list"
| DuplicatedOutputNames "(string \<times> string \<times> string) list"
| InvalidResource
| JobFailed string
| ReconciliationErrors

section \<open>Keys and specifications\<close>

record er_key =
  ek_provision_provider :: string
  ek_provisioner_name :: string
  ek_provider :: string
  ek_identifier :: string

definition state_path :: "er_key \<Rightarrow> string" where
  "state_path k = ek_provision_provider k @ ''/'' @ ek_provisioner_name k @ ''/'' @ ek_provider k @ ''/'' @ ek_identifier k"

record resources_spec =
  rs_cpu :: "string option"
  rs_memory :: "string option"

record er_resources =
  re_requests :: resources_spec
  re_limits :: resources_spec

record module_overrides =
  mo_channel :: "string option"
  mo_image :: "string option"
  mo_version :: "string option"
  mo_timeout :: "int option"
  mo_outputs_secret_image :: "string option"
  mo_outputs_secret_version :: "string option"
  mo_resources :: "er_resources option"

record er_provisioner =
  pv_name :: string
  pv_channel :: "string option"
  pv_default_region :: string
  pv_supported_regions :: "string list option"
  pv_api_credentials :: string

record er_namespace =
  ns_name :: string
  ns_cluster :: string
  ns_delete :: bool
  ns_managed :: bool
  ns_environment :: string
  ns_environment_type :: "string option"
  ns_service_phase :: "string option"
  ns_environment_cost_center :: "string option"
  ns_app :: string
  ns_app_code :: "string option"
  ns_app_cost_center :: "string option"

record er_spec =
  \<comment> \<open>the fields \<open>provider\<close> and \<open>identifier\<close> of the resource have a component of their own\<close>
  es_provision_provider :: string
  es_provisioner :: er_provisioner
  es_provider :: string
  es_identifier :: string
  es_resource :: "(string, json) dict"
  es_namespace :: er_namespace
  es_delete :: bool
  es_module_overrides :: "module_overrides option"
  es_secret :: "(string, string) dict"

abbreviation provisioner_name :: "er_spec \<Rightarrow> string" where
  "provisioner_name spec \<equiv> pv_name (es_provisioner spec)"

definition key_from_spec :: "er_spec \<Rightarrow> er_key" where
  "key_from_spec spec =
     \<lparr>ek_provision_provider = es_provision_provider spec, ek_provisioner_name = provisioner_name spec,
      ek_provider = es_provider spec, ek_identifier = es_identifier spec\<rparr>"

definition output_prefix :: "er_spec \<Rightarrow> string" where
  "output_prefix spec =
     es_identifier spec @ ''-'' @ map (\<lambda>c. if c = CHR ''_'' then CHR ''-'' else c) (es_provider spec)"

definition output_resource_name :: "er_spec \<Rightarrow> string" where
  "output_resource_name spec =
     (case dict_get (es_resource spec) ''output_resource_name'' of
        Some (JStr s) \<Rightarrow> if s = [] then output_prefix spec else s
      | _ \<Rightarrow> output_prefix spec)"

definition environment_type :: "er_spec \<Rightarrow> string" where
  "environment_type spec =
     (case ns_environment_type (es_namespace spec) of None \<Rightarrow> ''production'' | Some t \<Rightarrow> t)"

definition set_if :: "string \<Rightarrow> string option \<Rightarrow> (string, json) dict \<Rightarrow> (string, json) dict" where
  "set_if k v d = (case truthy_str v of None \<Rightarrow> d | Some v \<Rightarrow> dict_set d k (JStr v))"

definition tag_key :: "string \<Rightarrow> string" where
  "tag_key k =
     (if k = ''appCode'' then ''app-code'' else if k = ''costCenter'' then ''cost-center''
      else if k = ''servicePhase'' then ''service-phase'' else k)"

definition base_tags :: "string \<Rightarrow> er_spec \<Rightarrow> (string, json) dict" where
  "base_tags integration spec =
     (let ns = es_namespace spec in
      set_if ''cost-center'' (ns_environment_cost_center ns)
        (set_if ''service-phase'' (ns_service_phase ns)
          (set_if ''cost-center'' (ns_app_cost_center ns)
            (set_if ''app-code'' (ns_app_code ns)
              [(''managed_by_integration'', JStr integration), (''cluster'', JStr (ns_cluster ns)),
               (''namespace'', JStr (ns_name ns)), (''environment'', JStr (ns_environment ns)),
               (''app'', JStr (ns_app ns))]))))"

definition spec_tags :: "(string \<Rightarrow> json option) \<Rightarrow> string \<Rightarrow> er_spec \<Rightarrow> er_error + (string, json) dict" where
  "spec_tags json_loads integration spec =
     (case dict_get (es_resource spec) ''tags'' of
        Some (JStr s) \<Rightarrow>
          if s = [] then Inr (base_tags integration spec)
          else (case json_loads s of
              Some (JDict tags) \<Rightarrow>
                Inr (dict_update (base_tags integration spec) (dict_of (map (\<lambda>(k, v). (tag_key k, v)) tags)))
            | _ \<Rightarrow> Inl ValueError)
      | _ \<Rightarrow> Inr (base_tags integration spec))"

section \<open>The inventory\<close>

record resource_decl =
  rd_supported :: bool
  rd_managed_by_erv2 :: bool
  rd_delete :: bool
  rd_module_overrides :: "module_overrides option"
  rd_provider :: string
  rd_identifier :: string
  rd_resource :: "(string, json) dict"

record provider_decl =
  pd_supported :: bool
  pd_provider :: string
  pd_provisioner :: er_provisioner
  pd_resources :: "resource_decl list"

type_synonym namespace_decl = "er_namespace \<times> provider_decl list"

type_synonym er_inventory = "(er_key, er_spec) dict"

definition build_external_resource_spec :: "er_namespace \<Rightarrow> provider_decl \<Rightarrow> resource_decl \<Rightarrow> er_spec" where
  "build_external_resource_spec ns p r =
     \<lparr>es_provision_provider = pd_provider p, es_provisioner = pd_provisioner p, es_provider = rd_provider r,
      es_identifier = rd_identifier r, es_resource = rd_resource r, es_namespace = ns,
      es_delete = (rd_delete r \<or> ns_delete ns), es_module_overrides = rd_module_overrides r, es_secret = []\<rparr>"

definition desired_specs :: "namespace_decl list \<Rightarrow> er_spec list" where
  "desired_specs namespaces =
     concat (map (\<lambda>(ns, ps). concat (map (\<lambda>p.
         if pd_supported p \<and> pd_resources p \<noteq> [] \<and> ns_managed ns
         then map (build_external_resource_spec ns p)
                (filter (\<lambda>r. rd_supported r \<and> rd_managed_by_erv2 r) (pd_resources p))
         else []) ps)) namespaces)"

definition external_resources_inventory :: "namespace_decl list \<Rightarrow> er_inventory" where
  "external_resources_inventory namespaces =
     dict_of (map (\<lambda>s. (key_from_spec s, s)) (desired_specs namespaces))"

definition get_inventory_spec ::
  "er_inventory \<Rightarrow> string \<Rightarrow> string \<Rightarrow> string \<Rightarrow> string \<Rightarrow> er_error + er_spec" where
  "get_inventory_spec inven provision_provider provisioner provider ident =
     of_opt FetchResourceError (dict_get inven
       \<lparr>ek_provision_provider = provision_provider, ek_provisioner_name = provisioner,
        ek_provider = provider, ek_identifier = ident\<rparr>)"

section \<open>Modules and their configuration\<close>

record er_channel =
  ch_name :: string
  ch_image :: string
  ch_version :: string

record er_module =
  md_provision_provider :: string
  md_provider :: string
  md_module_type :: string
  md_drift_minutes :: int
  md_timeout_minutes :: int
  md_outputs_secret_sync :: bool
  md_outputs_secret_image :: "string option"
  md_outputs_secret_version :: "string option"
  md_resources :: "er_resources option"
  md_default_channel :: string
  md_channels :: "er_channel list"

record er_settings =
  st_tf_state_bucket :: "string option"
  st_tf_state_region :: "string option"
  st_vault_secrets_path :: string
  st_outputs_secret_image :: string
  st_outputs_secret_version :: string
  st_default_resources :: er_resources
  st_default_tags :: "(string, json) dict"

type_synonym module_inventory = "(string \<times> string, er_module) dict"

definition load_module_inventory :: "er_module list \<Rightarrow> module_inventory" where
  "load_module_inventory ms = dict_of (map (\<lambda>m. ((md_provision_provider m, md_provider m), m)) ms)"

definition module_from_spec :: "module_inventory \<Rightarrow> er_spec \<Rightarrow> er_error + er_module" where
  "module_from_spec inven spec = of_opt KeyMissing (dict_get inven (es_provision_provider spec, es_provider spec))"

record module_configuration =
  mc_image :: string
  mc_version :: string
  mc_drift_minutes :: int
  mc_timeout_minutes :: int
  mc_outputs_secret_sync :: bool
  mc_outputs_secret_image :: string
  mc_outputs_secret_version :: string
  mc_resources :: er_resources
  mc_overridden :: bool

definition no_resources :: er_resources where
  "no_resources = \<lparr>re_requests = \<lparr>rs_cpu = None, rs_memory = None\<rparr>, re_limits = \<lparr>rs_cpu = None, rs_memory = None\<rparr>\<rparr>"

definition default_configuration :: module_configuration where
  "default_configuration =
     \<lparr>mc_image = [], mc_version = [], mc_drift_minutes = 1440, mc_timeout_minutes = 1440,
      mc_outputs_secret_sync = False, mc_outputs_secret_image = [], mc_outputs_secret_version = [],
      mc_resources = no_resources, mc_overridden = False\<rparr>"

definition image_version :: "module_configuration \<Rightarrow> string" where
  "image_version m = mc_image m @ '':'' @ mc_version m"

definition outputs_secret_image_version :: "module_configuration \<Rightarrow> string" where
  "outputs_secret_image_version m = mc_outputs_secret_image m @ '':'' @ mc_outputs_secret_version m"

definition no_overrides :: module_overrides where
  "no_overrides = \<lparr>mo_channel = None, mo_image = None, mo_version = None, mo_timeout = None,
     mo_outputs_secret_image = None, mo_outputs_secret_version = None, mo_resources = None\<rparr>"

definition or_str :: "string option \<Rightarrow> string \<Rightarrow> string" where
  "or_str a b = (case truthy_str a of None \<Rightarrow> b | Some v \<Rightarrow> v)"

definition resolve_configuration ::
  "er_module \<Rightarrow> er_spec \<Rightarrow> er_settings \<Rightarrow> er_error + module_configuration" where
  "resolve_configuration m spec settings =
     (let mo = (case es_module_overrides spec of None \<Rightarrow> no_overrides | Some mo \<Rightarrow> mo);
          channel_name = or_str (mo_channel mo) (or_str (pv_channel (es_provisioner spec)) (md_default_channel m))
      in case find (\<lambda>c. ch_name c = channel_name) (md_channels m) of
           None \<Rightarrow> Inl (ModuleConfigurationError (md_provision_provider m) (md_provider m) channel_name)
         | Some c \<Rightarrow> Inr
             \<lparr>mc_image = or_str (mo_image mo) (ch_image c),
              mc_version = or_str (mo_version mo) (ch_version c),
              mc_drift_minutes = md_drift_minutes m,
              mc_timeout_minutes = (case mo_timeout mo of None \<Rightarrow> md_timeout_minutes m
                 | Some t \<Rightarrow> if t = 0 then md_timeout_minutes m else t),
              mc_outputs_secret_sync = md_outputs_secret_sync m,
              mc_outputs_secret_image =
                or_str (mo_outputs_secret_image mo) (or_str (md_outputs_secret_image m) (st_outputs_secret_image settings)),
              mc_outputs_secret_version =
                or_str (mo_outputs_secret_version mo) (or_str (md_outputs_secret_version m) (st_outputs_secret_version settings)),
              mc_resources = (case mo_resources mo of Some r \<Rightarrow> r
                 | None \<Rightarrow> (case md_resources m of Some r \<Rightarrow> r | None \<Rightarrow> st_default_resources settings)),
              mc_overridden = (es_module_overrides spec \<noteq> None)\<rparr>)"

section \<open>Reconciliations\<close>

datatype er_action = Destroy | Apply

datatype er_status =
  Created | Deleted | Abandoned | NotExists | InProgress | DeleteInProgress | ErrorStatus
| PendingSecretSync | ReconciliationRequested

definition is_in_progress :: "er_status \<Rightarrow> bool" where
  "is_in_progress st \<longleftrightarrow> st = InProgress \<or> st = DeleteInProgress"

definition does_not_exist :: "er_status \<Rightarrow> bool" where
  "does_not_exist st \<longleftrightarrow> st = NotExists"

definition needs_secret_sync :: "er_status \<Rightarrow> bool" where
  "needs_secret_sync st \<longleftrightarrow> st = PendingSecretSync"

definition has_errors :: "er_status \<Rightarrow> bool" where
  "has_errors st \<longleftrightarrow> st = ErrorStatus"

record reconciliation =
  rc_key :: er_key
  rc_resource_hash :: string
  rc_input :: string
  rc_action :: er_action
  rc_module_configuration :: module_configuration
  rc_linked_resources :: "er_key list option"

definition empty_reconciliation :: "er_key \<Rightarrow> reconciliation" where
  "empty_reconciliation k =
     \<lparr>rc_key = k, rc_resource_hash = [], rc_input = [], rc_action = Apply,
      rc_module_configuration = default_configuration, rc_linked_resources = None\<rparr>"

datatype reconcile_action =
  Noop | ApplyNotExists | ApplyError | ApplySpecChanged | ApplyDriftDetection | ApplyUserRequested
| ApplyModuleConfigOverridden | DestroyCreated | DestroyError

record reconciliation_status =
  rt_reconcile_time :: int
  rt_status :: er_status

record er_state =
  \<comment> \<open>of \<open>state.py\<close>; the time is in microseconds\<close>
  et_key :: er_key
  et_ts :: int
  et_status :: er_status
  et_reconciliation :: reconciliation

definition needs_state_update :: "er_state \<Rightarrow> reconciliation_status \<Rightarrow> bool" where
  "needs_state_update s r \<longleftrightarrow>
     (is_in_progress (et_status s) \<or> does_not_exist (et_status s)) \<and> \<not> is_in_progress (rt_status r)"

definition update_resource_status :: "int \<Rightarrow> reconciliation_status \<Rightarrow> er_state \<Rightarrow> er_state" where
  "update_resource_status now r s = (if needs_state_update s r then s\<lparr>et_ts := now, et_status := rt_status r\<rparr> else s)"

section \<open>Facts of the model\<close>

named_theorems er_status_simps \<open>what the status predicates say\<close>

lemmas [er_status_simps] = is_in_progress_def does_not_exist_def needs_secret_sync_def has_errors_def

lemma inventory_key: "dict_get (external_resources_inventory nss) k = Some s \<Longrightarrow> key_from_spec s = k \<and> s \<in> set (desired_specs nss)"
  unfolding external_resources_inventory_def using dict_of_keyed_mem by fast

lemma inventory_wf: "wf_dict (external_resources_inventory nss)"
  by (simp add: external_resources_inventory_def)

text \<open>The module configuration takes every value from the first source that has one: the override of the
  resource, the channel of the provisioner, the module, the settings. It fails exactly when the channel that this
  order selects is not one of the module.\<close>

lemma or_str_simps [simp]: "or_str None b = b" "or_str (Some (c # cs)) b = c # cs" "or_str (Some []) b = b"
  by (simp_all add: or_str_def truthy_str_def)

lemma find_SomeD: "find P xs = Some x \<Longrightarrow> x \<in> set xs \<and> P x"
  by (auto simp: find_Some_iff)

lemma find_None_image: "find (\<lambda>x. f x = v) xs = None \<longleftrightarrow> v \<notin> f ` set xs"
  by (auto simp: find_None_iff)

lemma resolve_configuration_Inl_iff:
  "resolve_configuration m spec settings = Inl e \<longleftrightarrow>
     (let ch = or_str (Option.bind (es_module_overrides spec) mo_channel)
                 (or_str (pv_channel (es_provisioner spec)) (md_default_channel m))
      in ch \<notin> ch_name ` set (md_channels m) \<and> e = ModuleConfigurationError (md_provision_provider m) (md_provider m) ch)"
proof -
  define ch where "ch = or_str (Option.bind (es_module_overrides spec) mo_channel)
                 (or_str (pv_channel (es_provisioner spec)) (md_default_channel m))"
  then have "ch = or_str (mo_channel (case es_module_overrides spec of None \<Rightarrow> no_overrides | Some mo \<Rightarrow> mo))
                 (or_str (pv_channel (es_provisioner spec)) (md_default_channel m))"
    by (cases "es_module_overrides spec") (simp_all add: no_overrides_def)
  then have "resolve_configuration m spec settings = Inl e \<longleftrightarrow>
      find (\<lambda>c. ch_name c = ch) (md_channels m) = None \<and>
      e = ModuleConfigurationError (md_provision_provider m) (md_provider m) ch"
    by (auto simp: resolve_configuration_def Let_def split: option.splits)
  then show ?thesis by (simp add: Let_def ch_def [symmetric] find_None_image)
qed

end
