(* ===== verification/Er_State.thy ===== *)
theory Er_State
  imports Er_Model
begin

text \<open>
  \<open>reconcile/external_resources/state.py\<close>: the state of a resource as an item of a DynamoDB table and back,
  and the operations on the table. Items are trees of attribute values; the table holds them by the value of
  its primary key. The text of a time, and the reading of numbers and times that \<open>pydantic\<close> does when a state is
  built from strings, are the parameter \<open>state_lib\<close>.
\<close>

section \<open>Items\<close>

datatype attribute_value = AvS string | AvN string | AvM "(string \<times> attribute_value) list"

type_synonym item = "(string, attribute_value) dict"

record state_lib =
  sl_show_time :: "int \<Rightarrow> string"
  sl_read_time :: "string \<Rightarrow> int option"
  sl_read_int :: "string \<Rightarrow> int option"

definition none_str :: string where "none_str = ''None''"

definition py_str_opt :: "string option \<Rightarrow> string" where
  "py_str_opt v = (case v of None \<Rightarrow> none_str | Some s \<Rightarrow> s)"

definition get_value_s :: "item \<Rightarrow> string \<Rightarrow> er_error + string option" where
  "get_value_s item k =
     (case dict_get item k of
        Some (AvS s) \<Rightarrow> Inr (if s = none_str then None else Some s)
      | _ \<Rightarrow> Inl KeyMissing)"

definition get_value_n :: "item \<Rightarrow> string \<Rightarrow> er_error + string option" where
  "get_value_n item k =
     (case dict_get item k of
        Some (AvN s) \<Rightarrow> Inr (if s = none_str then None else Some s)
      | _ \<Rightarrow> Inl KeyMissing)"

definition get_value_m :: "item \<Rightarrow> string \<Rightarrow> er_error + item" where
  "get_value_m item k = (case dict_get item k of Some (AvM m) \<Rightarrow> Inr m | _ \<Rightarrow> Inl KeyMissing)"

definition get_str :: "item \<Rightarrow> string \<Rightarrow> er_error + string" where
  \<comment> \<open>a value for a field of type \<open>str\<close>, which rejects \<open>None\<close>\<close>
  "get_str item k = rbind (get_value_s item k) (of_opt ValidationError)"

definition get_int :: "state_lib \<Rightarrow> item \<Rightarrow> string \<Rightarrow> er_error + int" where
  "get_int lib item k =
     rbind (get_value_n item k) (\<lambda>v. of_opt ValidationError (Option.bind v (sl_read_int lib)))"

definition action_value :: "er_action \<Rightarrow> string" where
  "action_value a = (case a of Destroy \<Rightarrow> ''Destroy'' | Apply \<Rightarrow> ''Apply'')"

definition status_value :: "er_status \<Rightarrow> string" where
  "status_value st =
     (case st of Created \<Rightarrow> ''CREATED'' | Deleted \<Rightarrow> ''DELETED'' | Abandoned \<Rightarrow> ''ABANDONED''
      | NotExists \<Rightarrow> ''NOT_EXISTS'' | InProgress \<Rightarrow> ''IN_PROGRESS'' | DeleteInProgress \<Rightarrow> ''DELETE_IN_PROGRESS''
      | ErrorStatus \<Rightarrow> ''ERROR'' | PendingSecretSync \<Rightarrow> ''PENDING_SECRET_SYNC''
      | ReconciliationRequested \<Rightarrow> ''RECONCILIATION_REQUESTED'')"

definition read_action :: "string \<Rightarrow> er_error + er_action" where
  "read_action s = of_opt ValidationError (find (\<lambda>a. action_value a = s) [Destroy, Apply])"

definition read_status :: "string \<Rightarrow> er_error + er_status" where
  "read_status s = of_opt ValidationError (find (\<lambda>st. status_value st = s)
     [Created, Deleted, Abandoned, NotExists, InProgress, DeleteInProgress, ErrorStatus, PendingSecretSync,
      ReconciliationRequested])"

section \<open>Reading an item\<close>

definition build_resources_spec :: "item \<Rightarrow> string \<Rightarrow> er_error + resources_spec" where
  "build_resources_spec item k =
     rbind (get_value_m item k) (\<lambda>m.
     rbind (get_value_s m ''cpu'') (\<lambda>cpu.
     rbind (get_value_s m ''memory'') (\<lambda>memory. Inr \<lparr>rs_cpu = cpu, rs_memory = memory\<rparr>)))"

definition build_resources :: "item \<Rightarrow> er_error + er_resources" where
  "build_resources modconf =
     (if \<not> dict_has modconf ''resources'' then Inr no_resources
      else rbind (get_value_m modconf ''resources'') (\<lambda>r.
           rbind (build_resources_spec r ''requests'') (\<lambda>requests.
           rbind (build_resources_spec r ''limits'') (\<lambda>limits.
             Inr \<lparr>re_requests = requests, re_limits = limits\<rparr>))))"

definition deserialize_key :: "item \<Rightarrow> er_error + er_key" where
  "deserialize_key item =
     rbind (get_value_m item ''external_resource_key'') (\<lambda>m.
     rbind (get_str m ''provision_provider'') (\<lambda>pp.
     rbind (get_str m ''provisioner_name'') (\<lambda>pn.
     rbind (get_str m ''provider'') (\<lambda>p.
     rbind (get_str m ''identifier'') (\<lambda>i.
       Inr \<lparr>ek_provision_provider = pp, ek_provisioner_name = pn, ek_provider = p, ek_identifier = i\<rparr>)))))"

definition deserialize_configuration :: "state_lib \<Rightarrow> item \<Rightarrow> er_error + module_configuration" where
  "deserialize_configuration lib m =
     rbind (get_str m ''image'') (\<lambda>image.
     rbind (get_str m ''version'') (\<lambda>version.
     rbind (get_int lib m ''drift_detection_minutes'') (\<lambda>drift.
     rbind (get_int lib m ''timeout_minutes'') (\<lambda>timeout.
     rbind (build_resources m) (\<lambda>resources.
       Inr (default_configuration\<lparr>mc_image := image, mc_version := version, mc_drift_minutes := drift,
              mc_timeout_minutes := timeout, mc_resources := resources\<rparr>))))))"

definition deserialize_reconciliation :: "state_lib \<Rightarrow> bool \<Rightarrow> er_key \<Rightarrow> item \<Rightarrow> er_error + reconciliation" where
  "deserialize_reconciliation lib partial_data k item =
     rbind (get_value_m item ''reconciliation'') (\<lambda>m.
       if partial_data
       then rbind (get_str m ''resource_hash'') (\<lambda>h. Inr ((empty_reconciliation k)\<lparr>rc_resource_hash := h\<rparr>))
       else rbind (get_value_m m ''module_configuration'') (\<lambda>mc.
            rbind (get_str m ''resource_hash'') (\<lambda>h.
            rbind (get_str m ''input'') (\<lambda>i.
            rbind (get_str m ''action'') (\<lambda>a.
            rbind (read_action a) (\<lambda>a.
            rbind (deserialize_configuration lib mc) (\<lambda>conf.
              Inr \<lparr>rc_key = k, rc_resource_hash = h, rc_input = i, rc_action = a,
                   rc_module_configuration = conf, rc_linked_resources = None\<rparr>)))))))"

definition deserialize :: "state_lib \<Rightarrow> bool \<Rightarrow> item \<Rightarrow> er_error + er_state" where
  "deserialize lib partial_data item =
     rbind (deserialize_key item) (\<lambda>k.
     rbind (deserialize_reconciliation lib partial_data k item) (\<lambda>r.
     rbind (get_str item ''time_stamp'') (\<lambda>t.
     rbind (get_str item ''resource_status'') (\<lambda>st.
     rbind (of_opt ValidationError (sl_read_time lib t)) (\<lambda>ts.
     rbind (read_status st) (\<lambda>st.
       Inr \<lparr>et_key = k, et_ts = ts, et_status = st, et_reconciliation = r\<rparr>))))))"

section \<open>Writing an item\<close>

definition serialize_resources_spec :: "resources_spec \<Rightarrow> attribute_value" where
  "serialize_resources_spec r = AvM [(''cpu'', AvS (py_str_opt (rs_cpu r))), (''memory'', AvS (py_str_opt (rs_memory r)))]"

definition serialize_configuration :: "module_configuration \<Rightarrow> attribute_value" where
  "serialize_configuration mc = AvM
     [(''image'', AvS (mc_image mc)), (''version'', AvS (mc_version mc)),
      (''drift_detection_minutes'', AvN (py_str_int (mc_drift_minutes mc))),
      (''timeout_minutes'', AvN (py_str_int (mc_timeout_minutes mc))),
      (''resources'', AvM [(''requests'', serialize_resources_spec (re_requests (mc_resources mc))),
                           (''limits'', serialize_resources_spec (re_limits (mc_resources mc)))])]"

definition serialize :: "state_lib \<Rightarrow> er_state \<Rightarrow> item" where
  "serialize lib s =
     [(''external_resource_key_hash'', AvS (state_path (et_key s))),
      (''time_stamp'', AvS (sl_show_time lib (et_ts s))),
      (''resource_status'', AvS (status_value (et_status s))),
      (''external_resource_key'', AvM
         [(''provision_provider'', AvS (ek_provision_provider (et_key s))),
          (''provisioner_name'', AvS (ek_provisioner_name (et_key s))),
          (''provider'', AvS (ek_provider (et_key s))), (''identifier'', AvS (ek_identifier (et_key s)))]),
      (''reconciliation'', AvM
         [(''resource_hash'', AvS (rc_resource_hash (et_reconciliation s))),
          (''action'', AvS (action_value (rc_action (et_reconciliation s)))),
          (''input'', AvS (rc_input (et_reconciliation s))),
          (''module_configuration'', serialize_configuration (rc_module_configuration (et_reconciliation s)))])]"

section \<open>The table\<close>

type_synonym er_table = "(string, item) dict"

definition not_existing_state :: "int \<Rightarrow> er_key \<Rightarrow> er_state" where
  "not_existing_state now k =
     \<lparr>et_key = k, et_ts = now, et_status = NotExists, et_reconciliation = empty_reconciliation k\<rparr>"

definition get_external_resource_state :: "state_lib \<Rightarrow> int \<Rightarrow> er_table \<Rightarrow> er_key \<Rightarrow> er_error + er_state" where
  "get_external_resource_state lib now table k =
     (case dict_get table (state_path k) of
        Some item \<Rightarrow> deserialize lib False item
      | None \<Rightarrow> Inr (not_existing_state now k))"

definition set_external_resource_state :: "state_lib \<Rightarrow> er_state \<Rightarrow> er_table \<Rightarrow> er_table" where
  "set_external_resource_state lib s table = dict_set table (state_path (et_key s)) (serialize lib s)"

definition del_external_resource_state :: "er_key \<Rightarrow> er_table \<Rightarrow> er_table" where
  "del_external_resource_state k table = filter (\<lambda>(p, _). p \<noteq> state_path k) table"

definition get_partial_resources :: "state_lib \<Rightarrow> er_table \<Rightarrow> er_error + (er_key, er_state) dict" where
  "get_partial_resources lib table =
     rfold (\<lambda>ps (_, item). rbind (deserialize lib True item) (\<lambda>s. Inr (dict_set ps (et_key s) s))) [] table"

definition get_keys_by_status :: "(er_key, er_state) dict \<Rightarrow> er_status \<Rightarrow> er_key list" where
  "get_keys_by_status ps st = dict_keys (filter (\<lambda>(_, s). et_status s = st) ps)"

definition table_update_resource_status :: "er_key \<Rightarrow> er_status \<Rightarrow> er_table \<Rightarrow> er_table" where
  \<comment> \<open>\<open>update_item\<close> creates an item that is not there, with the primary key alone\<close>
  "table_update_resource_status k st table =
     (let item = (case dict_get table (state_path k) of
          None \<Rightarrow> [(''external_resource_key_hash'', AvS (state_path k))] | Some item \<Rightarrow> item)
      in dict_set table (state_path k) (dict_set item ''resource_status'' (AvS (status_value st))))"

end
