(* ===== verification/Er_State_Laws.thy ===== *)
theory Er_State_Laws
  imports Er_State
begin

text \<open>
  What the adapter and the table operations of \<open>Er_State\<close> promise: what a state looks like when it is read back,
  and that the table behaves like a dictionary of states, the store the manager is written for.
\<close>

section \<open>What is kept\<close>

definition stored_configuration :: "module_configuration \<Rightarrow> module_configuration" where
  "stored_configuration mc = default_configuration\<lparr>mc_image := mc_image mc, mc_version := mc_version mc,
     mc_drift_minutes := mc_drift_minutes mc, mc_timeout_minutes := mc_timeout_minutes mc, mc_resources := mc_resources mc\<rparr>"

definition stored_reconciliation :: "er_key \<Rightarrow> reconciliation \<Rightarrow> reconciliation" where
  "stored_reconciliation k r = r\<lparr>rc_key := k, rc_linked_resources := None,
     rc_module_configuration := stored_configuration (rc_module_configuration r)\<rparr>"

definition stored :: "er_state \<Rightarrow> er_state" where
  "stored s = s\<lparr>et_reconciliation := stored_reconciliation (et_key s) (et_reconciliation s)\<rparr>"

definition strings_of_key :: "er_key \<Rightarrow> string list" where
  "strings_of_key k = [ek_provision_provider k, ek_provisioner_name k, ek_provider k, ek_identifier k]"

definition strings_of_resources :: "er_resources \<Rightarrow> string option list" where
  "strings_of_resources r = [rs_cpu (re_requests r), rs_memory (re_requests r), rs_cpu (re_limits r), rs_memory (re_limits r)]"

definition storable :: "er_state \<Rightarrow> bool" where
  \<comment> \<open>no text that is to be written is \<open>None\<close>, which is read as a missing value\<close>
  "storable s \<longleftrightarrow>
     none_str \<notin> set (strings_of_key (et_key s)) \<union>
       {rc_resource_hash (et_reconciliation s), rc_input (et_reconciliation s),
        mc_image (rc_module_configuration (et_reconciliation s)), mc_version (rc_module_configuration (et_reconciliation s))} \<and>
     Some none_str \<notin> set (strings_of_resources (mc_resources (rc_module_configuration (et_reconciliation s))))"

definition lib_ok :: "state_lib \<Rightarrow> bool" where
  \<comment> \<open>numbers and times are read back from their text\<close>
  "lib_ok lib \<longleftrightarrow> (\<forall>n. sl_read_int lib (py_str_int n) = Some n) \<and>
     (\<forall>t. sl_read_time lib (sl_show_time lib t) = Some t \<and> sl_show_time lib t \<noteq> none_str)"

lemma stored_stored [simp]: "stored (stored s) = stored s"
  by (simp add: stored_def stored_reconciliation_def stored_configuration_def)

lemma stored_simps [simp]:
  "et_key (stored s) = et_key s" "et_ts (stored s) = et_ts s" "et_status (stored s) = et_status s"
  "et_reconciliation (stored s) = stored_reconciliation (et_key s) (et_reconciliation s)"
  "stored (s\<lparr>et_status := st\<rparr>) = (stored s)\<lparr>et_status := st\<rparr>"
  "stored (s\<lparr>et_ts := now\<rparr>) = (stored s)\<lparr>et_ts := now\<rparr>"
  by (simp_all add: stored_def)

lemma stored_reconciliation_simps [simp]:
  "rc_key (stored_reconciliation k r) = k" "rc_resource_hash (stored_reconciliation k r) = rc_resource_hash r"
  "rc_input (stored_reconciliation k r) = rc_input r" "rc_action (stored_reconciliation k r) = rc_action r"
  "image_version (rc_module_configuration (stored_reconciliation k r)) = image_version (rc_module_configuration r)"
  by (simp_all add: stored_reconciliation_def stored_configuration_def image_version_def)

section \<open>Reading back\<close>

lemma read_action_value [simp]: "read_action (action_value a) = Inr a"
  by (cases a) (simp_all add: read_action_def action_value_def of_opt_def)

lemma read_status_value [simp]: "read_status (status_value st) = Inr st"
  by (cases st) (simp_all add: read_status_def status_value_def of_opt_def)

lemma action_value_not_none [simp]: "action_value a \<noteq> none_str"
  by (cases a) (simp_all add: action_value_def none_str_def)

lemma status_value_not_none [simp]: "status_value st \<noteq> none_str"
  by (cases st) (simp_all add: status_value_def none_str_def)

lemma show_digits_head: "\<exists>c cs. show_digits n = c # cs \<and> c \<noteq> CHR ''N''"
proof (induction n rule: show_digits.induct)
  case (1 n)
  show ?case
  proof (cases "n < 10")
    case True
    then have "n \<in> {0, 1, 2, 3, 4, 5, 6, 7, 8, 9}" by auto
    then show ?thesis by (auto simp: show_digits.simps [of n] char_of_def)
  next
    case False
    with 1 show ?thesis by (auto simp: show_digits.simps [of n])
  qed
qed

lemma py_str_int_not_none [simp]: "py_str_int n \<noteq> none_str"
  using show_digits_head [of "nat n"] by (auto simp: py_str_int_def none_str_def)

lemma py_str_opt_none: "v \<noteq> Some none_str \<Longrightarrow> (if py_str_opt v = none_str then None else Some (py_str_opt v)) = v"
  by (cases v) (auto simp: py_str_opt_def)

lemma build_resources_spec_serialized:
  assumes "dict_get m k = Some (serialize_resources_spec r)" "rs_cpu r \<noteq> Some none_str" "rs_memory r \<noteq> Some none_str"
  shows "build_resources_spec m k = Inr r"
  using assms by (simp add: build_resources_spec_def get_value_m_def get_value_s_def serialize_resources_spec_def
      py_str_opt_none del: if_split)

lemma deserialize_configuration_serialized:
  assumes "lib_ok lib" "mc_image mc \<noteq> none_str" "mc_version mc \<noteq> none_str"
    "Some none_str \<notin> set (strings_of_resources (mc_resources mc))" "serialize_configuration mc = AvM m"
  shows "deserialize_configuration lib m = Inr (stored_configuration mc)"
proof -
  have res: "build_resources m = Inr (mc_resources mc)"
    using assms(4,5) by (auto simp: build_resources_def dict_has_def get_value_m_def serialize_configuration_def
        build_resources_spec_serialized strings_of_resources_def)
  show ?thesis
    using assms by (auto simp: deserialize_configuration_def res get_str_def get_int_def get_value_s_def get_value_n_def
        serialize_configuration_def stored_configuration_def lib_ok_def of_opt_def)
qed

lemma deserialize_key_serialized:
  "none_str \<notin> set (strings_of_key (et_key s)) \<Longrightarrow> deserialize_key (serialize lib s) = Inr (et_key s)"
  by (auto simp: deserialize_key_def serialize_def get_value_m_def get_str_def get_value_s_def of_opt_def strings_of_key_def)

lemma deserialize_serialize_aux:
  assumes lib: "lib_ok lib" and ok: "storable s"
  shows "deserialize lib False (serialize lib s) = Inr (stored s)"
proof -
  obtain m where m: "serialize_configuration (rc_module_configuration (et_reconciliation s)) = AvM m"
    by (simp add: serialize_configuration_def)
  have conf: "deserialize_configuration lib m = Inr (stored_configuration (rc_module_configuration (et_reconciliation s)))"
    using ok by (intro deserialize_configuration_serialized [OF lib _ _ _ m]) (auto simp: storable_def)
  have "deserialize_reconciliation lib False (et_key s) (serialize lib s) =
      Inr (stored_reconciliation (et_key s) (et_reconciliation s))"
    using ok by (auto simp: deserialize_reconciliation_def serialize_def get_value_m_def get_str_def get_value_s_def
        of_opt_def m conf storable_def stored_reconciliation_def)
  moreover have "deserialize_key (serialize lib s) = Inr (et_key s)"
    using ok by (intro deserialize_key_serialized) (auto simp: storable_def)
  moreover have "get_str (serialize lib s) ''time_stamp'' = Inr (sl_show_time lib (et_ts s))"
    "get_str (serialize lib s) ''resource_status'' = Inr (status_value (et_status s))"
    using lib by (auto simp: get_str_def get_value_s_def serialize_def of_opt_def lib_ok_def)
  ultimately show ?thesis
    using lib by (simp add: deserialize_def lib_ok_def of_opt_def stored_def)
qed

text \<open>A state that is written to the table and read back has lost only what the table has no column for: the
  linked resources and the settings of the outputs secret of its reconciliation. It must not hold the text None, which is read as a missing value.\<close>

theorem state_reads_back:
  assumes "lib_ok lib" and "storable s"
  shows "deserialize lib False (serialize lib s) = Inr (stored s)"
  by (rule deserialize_serialize_aux [OF assms])

text \<open>A missing amount of memory or CPU is written as \<open>None\<close> and read back as missing, so an amount given as
  \<open>None\<close> is lost; a hash or an input that is \<open>None\<close> makes the item unreadable.\<close>

lemma none_input_unreadable:
  assumes "rc_input (et_reconciliation s) = none_str"
  shows "\<exists>e. deserialize lib False (serialize lib s) = Inl e"
proof (cases "deserialize_key (serialize lib s)")
  case (Inr k)
  have "\<nexists>r. deserialize_reconciliation lib False k (serialize lib s) = Inr r"
    using assms by (auto simp: deserialize_reconciliation_def serialize_def get_value_m_def get_str_def get_value_s_def
        of_opt_def serialize_configuration_def result_simps split: if_splits)
  then show ?thesis using Inr
    by (cases "deserialize_reconciliation lib False k (serialize lib s)") (auto simp: deserialize_def)
qed (simp add: deserialize_def)

section \<open>A store of states\<close>

type_synonym er_rows = "(string, er_state) dict"

definition row_of :: "er_rows \<Rightarrow> er_key \<Rightarrow> er_state option" where
  "row_of rows k = dict_get rows (state_path k)"

definition put_row :: "er_state \<Rightarrow> er_rows \<Rightarrow> er_rows" where
  "put_row s rows = dict_set rows (state_path (et_key s)) (stored s)"

definition remove_row :: "er_key \<Rightarrow> er_rows \<Rightarrow> er_rows" where
  "remove_row k rows = filter (\<lambda>(p, _). p \<noteq> state_path k) rows"

definition set_row_status :: "er_key \<Rightarrow> er_status \<Rightarrow> er_rows \<Rightarrow> er_rows" where
  "set_row_status k st rows =
     (case row_of rows k of None \<Rightarrow> rows | Some s \<Rightarrow> dict_set rows (state_path k) (s\<lparr>et_status := st\<rparr>))"

locale state_store =
  fixes get_state :: "'t \<Rightarrow> er_key \<Rightarrow> er_state option"
    and put_state :: "er_state \<Rightarrow> 't \<Rightarrow> 't"
    and remove_state :: "er_key \<Rightarrow> 't \<Rightarrow> 't"
    and set_status :: "er_key \<Rightarrow> er_status \<Rightarrow> 't \<Rightarrow> 't"
    and admissible :: "er_state \<Rightarrow> bool"
  assumes get_put: "admissible s \<Longrightarrow> get_state (put_state s t) k =
      (if state_path k = state_path (et_key s) then Some (stored s) else get_state t k)"
    and get_remove: "get_state (remove_state k' t) k = (if state_path k = state_path k' then None else get_state t k)"
    and get_set_status: "get_state t k' \<noteq> None \<Longrightarrow> get_state (set_status k' st t) k =
      (if state_path k = state_path k' then map_option (et_status_update (\<lambda>_. st)) (get_state t k') else get_state t k)"
begin

lemma put_own: "admissible s \<Longrightarrow> get_state (put_state s t) (et_key s) = Some (stored s)"
  by (simp add: get_put)

lemma put_other: "admissible s \<Longrightarrow> state_path k \<noteq> state_path (et_key s) \<Longrightarrow> get_state (put_state s t) k = get_state t k"
  by (simp add: get_put)

lemma put_again: "admissible s \<Longrightarrow> admissible s' \<Longrightarrow> et_key s = et_key s' \<Longrightarrow>
    get_state (put_state s' (put_state s t)) k = get_state (put_state s' t) k"
  by (simp add: get_put)

lemma put_set_status: "admissible s \<Longrightarrow>
    get_state (set_status (et_key s) st (put_state s t)) k =
      (if state_path k = state_path (et_key s) then Some ((stored s)\<lparr>et_status := st\<rparr>) else get_state t k)"
  by (simp add: get_set_status put_own put_other)

lemma put_remove: "admissible s \<Longrightarrow> get_state (remove_state (et_key s) (put_state s t)) k = get_state (remove_state (et_key s) t) k"
  by (simp add: get_remove put_other)

end

interpretation rows: state_store row_of put_row remove_row set_row_status "\<lambda>_. True"
  by unfold_locales
    (auto simp: row_of_def put_row_def remove_row_def set_row_status_def dict_simps map_of_filter_keys split: option.splits)

section \<open>The table is such a store\<close>

lemma deserialize_status:
  assumes "deserialize lib False item = Inr s"
  shows "deserialize lib False (dict_set item ''resource_status'' (AvS (status_value st))) = Inr (s\<lparr>et_status := st\<rparr>)"
proof -
  have *: "deserialize_key (dict_set item ''resource_status'' v) = deserialize_key item"
    "deserialize_reconciliation lib False k (dict_set item ''resource_status'' v) = deserialize_reconciliation lib False k item"
    "get_str (dict_set item ''resource_status'' v) ''time_stamp'' = get_str item ''time_stamp''" for v k
    by (simp_all add: deserialize_key_def deserialize_reconciliation_def get_value_m_def get_str_def get_value_s_def dict_simps)
  have "get_str (dict_set item ''resource_status'' (AvS (status_value st))) ''resource_status'' = Inr (status_value st)"
    by (simp add: get_str_def get_value_s_def dict_simps of_opt_def)
  then show ?thesis using assms by (auto simp: deserialize_def * result_simps)
qed

definition represents :: "state_lib \<Rightarrow> er_table \<Rightarrow> er_rows \<Rightarrow> bool" where
  "represents lib table rows \<longleftrightarrow>
     (\<forall>p. rel_option (\<lambda>item s. deserialize lib False item = Inr s) (dict_get table p) (dict_get rows p))"

lemma represents_get:
  assumes "represents lib table rows"
  shows "get_external_resource_state lib now table k =
    Inr (case row_of rows k of None \<Rightarrow> not_existing_state now k | Some s \<Rightarrow> s)"
proof -
  from assms have "rel_option (\<lambda>item s. deserialize lib False item = Inr s) (dict_get table (state_path k)) (row_of rows k)"
    by (simp add: represents_def row_of_def)
  then show ?thesis by (cases rule: option.rel_cases) (simp_all add: get_external_resource_state_def)
qed

lemma represents_set:
  "lib_ok lib \<Longrightarrow> storable s \<Longrightarrow> represents lib table rows \<Longrightarrow>
     represents lib (set_external_resource_state lib s table) (put_row s rows)"
  by (simp add: represents_def set_external_resource_state_def put_row_def dict_simps deserialize_serialize_aux)

lemma represents_del:
  "represents lib table rows \<Longrightarrow> represents lib (del_external_resource_state k table) (remove_row k rows)"
  by (simp add: represents_def del_external_resource_state_def remove_row_def map_of_filter_keys)

lemma represents_status:
  assumes "represents lib table rows" "row_of rows k = Some s"
  shows "represents lib (table_update_resource_status k st table) (set_row_status k st rows)"
proof -
  from assms(1) have "rel_option (\<lambda>item s. deserialize lib False item = Inr s) (dict_get table (state_path k))
      (dict_get rows (state_path k))" by (simp add: represents_def)
  with assms(2) obtain item where "dict_get table (state_path k) = Some item" "deserialize lib False item = Inr s"
    by (auto simp: row_of_def option_rel_Some2)
  with assms show ?thesis
    by (simp add: represents_def table_update_resource_status_def set_row_status_def dict_simps deserialize_status)
qed

text \<open>C28. The table of items implements the store of states: writing, removing and reading a state and setting
  its status commute with the reading of the items, as long as what is written can be read back.\<close>

theorem table_implements_store:
  assumes "lib_ok lib" and "represents lib table rows" and "storable s"
  shows "represents lib (set_external_resource_state lib s table) (put_row s rows) \<and>
    represents lib (del_external_resource_state k table) (remove_row k rows) \<and>
    get_external_resource_state lib now table k =
      Inr (case row_of rows k of None \<Rightarrow> not_existing_state now k | Some x \<Rightarrow> x) \<and>
    (row_of rows k \<noteq> None \<longrightarrow> represents lib (table_update_resource_status k st table) (set_row_status k st rows))"
  using represents_set [OF assms(1,3,2)] represents_del [OF assms(2)] represents_get [OF assms(2)]
    represents_status [OF assms(2)] by auto

locale state_adapter =
  fixes lib :: state_lib
  assumes reads_back: "lib_ok lib"
begin

definition valid_state :: "er_table \<Rightarrow> er_key \<Rightarrow> er_state option" where
  "valid_state table k = Option.bind (dict_get table (state_path k)) (\<lambda>i. case deserialize lib False i of Inl _ \<Rightarrow> None | Inr s \<Rightarrow> Some s)"

lemma valid_state_set: "storable s \<Longrightarrow> valid_state (set_external_resource_state lib s t) k =
    (if state_path k = state_path (et_key s) then Some (stored s) else valid_state t k)"
  by (simp add: valid_state_def set_external_resource_state_def dict_simps deserialize_serialize_aux [OF reads_back])

lemma valid_state_status:
  assumes "valid_state t k' \<noteq> None"
  shows "valid_state (table_update_resource_status k' st t) k =
    (if state_path k = state_path k' then map_option (et_status_update (\<lambda>_. st)) (valid_state t k') else valid_state t k)"
proof -
  from assms obtain item s where "dict_get t (state_path k') = Some item" "deserialize lib False item = Inr s"
    by (auto simp: valid_state_def split: bind_splits sum.splits)
  then show ?thesis
    by (simp add: valid_state_def table_update_resource_status_def dict_simps deserialize_status)
qed

end

sublocale state_adapter \<subseteq> dynamo: state_store valid_state "set_external_resource_state lib" del_external_resource_state
  table_update_resource_status storable
  by unfold_locales (simp add: valid_state_set, simp add: valid_state_def del_external_resource_state_def map_of_filter_keys,
    rule valid_state_status)

end
