(* ===== verification/Er_Factories.thy ===== *)
theory Er_Factories
  imports Er_Model
begin

text \<open>
  From the specification of a resource to the input of its module: \<open>ResourceValueResolver\<close> of
  \<open>reconcile/utils/external_resources.py\<close> and the factories of \<open>reconcile/external_resources/aws.py\<close>,
  \<open>cloudflare.py\<close> and \<open>factories.py\<close>. Resource files, secrets, the JSON reader and the digest are the parameter
  \<open>factory_lib\<close>.
\<close>

section \<open>Values\<close>

type_synonym data = "(string, json) dict"

record external_provision =
  ep_provision_provider :: string
  ep_provisioner :: string
  ep_provider :: string
  ep_identifier :: string
  ep_target_cluster :: string
  ep_target_namespace :: string
  ep_target_secret_name :: string
  ep_tf_state_bucket :: string
  ep_tf_state_region :: string
  ep_tf_state_key :: string

record external_resource =
  xr_data :: data
  xr_provision :: external_provision

record factory_lib =
  fl_resource :: "string \<Rightarrow> data option"
  fl_json_loads :: "string \<Rightarrow> json option"
  fl_read_secret :: "string \<Rightarrow> er_error + (string, string) dict"
  fl_str :: "json \<Rightarrow> string"
  fl_hash :: "data \<Rightarrow> string"
  fl_export :: "external_resource \<Rightarrow> string"

definition jget :: "json \<Rightarrow> string \<Rightarrow> er_error + json option" where
  \<comment> \<open>\<open>j.get(k)\<close>\<close>
  "jget j k = (case j of JDict d \<Rightarrow> Inr (dict_get d k) | _ \<Rightarrow> Inl AttributeError)"

definition jget_or :: "json \<Rightarrow> string \<Rightarrow> json \<Rightarrow> er_error + json" where
  "jget_or j k v = rbind (jget j k) (\<lambda>r. Inr (case r of None \<Rightarrow> v | Some x \<Rightarrow> x))"

definition jindex :: "json \<Rightarrow> string \<Rightarrow> er_error + json" where
  \<comment> \<open>\<open>j[k]\<close>\<close>
  "jindex j k = (case j of JDict d \<Rightarrow> of_opt KeyMissing (dict_get d k) | _ \<Rightarrow> Inl TypeError)"

definition dget :: "data \<Rightarrow> string \<Rightarrow> json" where
  \<comment> \<open>\<open>d.get(k)\<close>, where an absent value is as good as \<open>None\<close>\<close>
  "dget d k = (case dict_get d k of None \<Rightarrow> JNull | Some v \<Rightarrow> v)"

definition dpop :: "data \<Rightarrow> string \<Rightarrow> data" where
  "dpop d k = filter (\<lambda>(n, _). n \<noteq> k) d"

definition as_dict :: "json \<Rightarrow> er_error + data" where
  "as_dict j = (case j of JDict d \<Rightarrow> Inr d | _ \<Rightarrow> Inl AttributeError)"

definition as_list :: "json \<Rightarrow> er_error + json list" where
  "as_list j = (case j of JList xs \<Rightarrow> Inr xs | _ \<Rightarrow> Inl TypeError)"

definition json_text :: "factory_lib \<Rightarrow> json \<Rightarrow> string" where
  "json_text lib j = (case j of JStr s \<Rightarrow> s | _ \<Rightarrow> fl_str lib j)"

section \<open>Resolving the values of a resource\<close>

definition get_values :: "factory_lib \<Rightarrow> json \<Rightarrow> er_error + data" where
  "get_values lib path =
     (case path of
        JStr p \<Rightarrow> rbind (of_opt FetchResourceError (fl_resource lib p)) (\<lambda>d. Inr (dpop d ''$schema''))
      | _ \<Rightarrow> Inl FetchResourceError)"

definition aggregate_value :: "data \<Rightarrow> string \<times> json \<Rightarrow> er_error + data" where
  "aggregate_value ds = (\<lambda>(k, v).
     (case py_split (CHR ''.'') k of
        primary # secondary # _ \<Rightarrow>
          rbind (case dict_get ds primary of
                   None \<Rightarrow> Inr [] | Some (JDict d) \<Rightarrow> Inr d | Some _ \<Rightarrow> Inl TypeError) (\<lambda>d.
            Inr (dpop (dict_set ds primary (JDict (dict_set d secondary v))) k))
      | _ \<Rightarrow> Inr ds))"

definition aggregate_values :: "data \<Rightarrow> er_error + data" where
  "aggregate_values ds = rfold aggregate_value ds ds"

definition override_values :: "factory_lib \<Rightarrow> data \<Rightarrow> json \<Rightarrow> er_error + data" where
  "override_values lib ds overrides =
     (case overrides of
        JNull \<Rightarrow> Inr ds
      | JStr s \<Rightarrow> rbind (of_opt ValueError (fl_json_loads lib s)) (\<lambda>j. rbind (as_dict j) (\<lambda>d. Inr (dict_update ds d)))
      | _ \<Rightarrow> Inl TypeError)"

definition ignore_keys :: "string list" where
  "ignore_keys = [''identifier'', ''defaults'', ''overrides'', ''provider'']"

definition resolve_values :: "factory_lib \<Rightarrow> er_spec \<Rightarrow> er_error + data" where
  \<comment> \<open>\<open>resolve\<close> with the identifier as a value and no integration tag\<close>
  "resolve_values lib spec =
     (let resource = es_resource spec in
      rbind (if truthy (dget resource ''defaults'') then get_values lib (dget resource ''defaults'') else Inr []) (\<lambda>ds.
      rbind (aggregate_values ds) (\<lambda>ds.
      rbind (override_values lib ds (dget resource ''overrides'')) (\<lambda>ds.
        Inr (dict_update (dict_set ds ''identifier'' (JStr (es_identifier spec)))
               (filter (\<lambda>(k, v). k \<notin> set ignore_keys \<and> v \<noteq> JNull) resource))))))"

section \<open>Elasticache\<close>

definition elasticache_resolve :: "factory_lib \<Rightarrow> er_spec \<Rightarrow> er_error + data" where
  "elasticache_resolve lib spec =
     rbind (resolve_values lib spec) (\<lambda>d.
       let d = dict_set d ''output_prefix'' (JStr (output_prefix spec));
           d = (if dict_has d ''replication_group_id'' then d
                else dict_set d ''replication_group_id'' (JStr (es_identifier spec)));
           d = dict_set d ''environment'' (JStr (environment_type spec));
           mode = dget d ''cluster_mode'';
           d = dpop d ''cluster_mode''
       in rbind (if truthy mode then rbind (as_dict mode) (\<lambda>m. Inr (dict_update d m)) else Inr d) (\<lambda>d.
          case dict_get d ''parameter_group'' of
            None \<Rightarrow> Inr d
          | Some p \<Rightarrow> rbind (get_values lib p) (\<lambda>pg. Inr (dict_set d ''parameter_group'' (JDict pg)))))"

definition elasticache_validate :: "factory_lib \<Rightarrow> data \<Rightarrow> er_error + data" where
  "elasticache_validate lib d =
     (if \<not> truthy (dget d ''parameter_group'') then Inr d
      else rbind (as_dict (dget d ''parameter_group'')) (\<lambda>pg.
           rbind (of_opt KeyMissing (dict_get d ''replication_group_id'')) (\<lambda>rg.
             let name = json_text lib rg @ ''-'' @
                   (if truthy (dget pg ''name'') then json_text lib (dget pg ''name'') else ''pg'');
                 d = dict_set d ''parameter_group'' (JDict (dict_set pg ''name'' (JStr name)));
                 given = dget d ''parameter_group_name''
             in if truthy given \<and> JStr name \<noteq> given then Inl ValueError
                else if truthy given then Inr d
                else Inr (dict_set d ''parameter_group_name'' (JStr name)))))"

section \<open>RDS\<close>

definition ascii_letter :: "char \<Rightarrow> bool" where
  "ascii_letter c \<longleftrightarrow> (of_char c :: nat) \<in> {65..90} \<union> {97..122}"

definition get_region_from_az :: "json \<Rightarrow> er_error + string" where
  "get_region_from_az az =
     (case az of
        JStr s \<Rightarrow> if length s < 2 \<or> \<not> ascii_letter (last s) then Inl ValueError else Inr (butlast s)
      | _ \<Rightarrow> if truthy az then Inl TypeError else Inl ValueError)"

definition resolve_blue_green :: "factory_lib \<Rightarrow> data \<Rightarrow> er_error + data" where
  "resolve_blue_green lib d =
     (let bg = dget d ''blue_green_deployment'' in
      if \<not> truthy bg then Inr d
      else rbind (as_dict bg) (\<lambda>bgd.
        let target = dget bgd ''target'' in
        if \<not> truthy target then Inr d
        else rbind (as_dict target) (\<lambda>td.
          let pg = dget td ''parameter_group'' in
          if \<not> truthy pg then Inr d
          else rbind (get_values lib pg) (\<lambda>pgd.
            Inr (dict_set d ''blue_green_deployment''
              (JDict (dict_set bgd ''target'' (JDict (dict_set td ''parameter_group'' (JDict pgd))))))))))"

definition rds_base :: "factory_lib \<Rightarrow> er_spec \<Rightarrow> er_error + data" where
  \<comment> \<open>\<open>resolve\<close> up to the replica source\<close>
  "rds_base lib spec =
     rbind (resolve_values lib spec) (\<lambda>d.
       let d = dict_set d ''output_prefix'' (JStr (output_prefix spec)) in
       rbind (case dict_get d ''parameter_group'' of
                None \<Rightarrow> Inr d
              | Some p \<Rightarrow> rbind (get_values lib p) (\<lambda>pg. Inr (dict_set d ''parameter_group'' (JDict pg))))
         (resolve_blue_green lib))"

definition replica_source_value :: "er_spec \<Rightarrow> data \<Rightarrow> er_error + json" where
  "replica_source_value source d =
     rbind (of_opt KeyMissing (dict_get d ''identifier'')) (\<lambda>i.
       Inr (JDict
         [(''identifier'', i),
          (''region'', if truthy (dget d ''region'') then dget d ''region''
                       else JStr (pv_default_region (es_provisioner source))),
          (''blue_green_deployment'', dget d ''blue_green_deployment'')]))"

definition rds_timeouts :: "int \<Rightarrow> json" where
  "rds_timeouts minutes =
     (let t = JStr (py_str_int (minutes - 5) @ ''m'') in JDict [(''create'', t), (''update'', t), (''delete'', t)])"

definition resolve_kms_key :: "er_inventory \<Rightarrow> er_spec \<Rightarrow> data \<Rightarrow> er_error + data" where
  "resolve_kms_key inven spec d =
     (case dget d ''kms_key_id'' of
        JStr s \<Rightarrow>
          if s = [] \<or> take 4 s = ''arn:'' then Inr d
          else rbind (get_inventory_spec inven ''aws'' (provisioner_name spec) ''kms'' s) (\<lambda>k.
               Inr (dict_set d ''kms_key_id'' (JStr (es_identifier k))))
      | j \<Rightarrow> if truthy j then Inl AttributeError else Inr d)"

definition rds_finish :: "er_inventory \<Rightarrow> er_spec \<Rightarrow> module_configuration \<Rightarrow> data \<Rightarrow> er_error + data" where
  \<comment> \<open>\<open>resolve\<close> after the replica source\<close>
  "rds_finish inven spec mc d =
     rbind (if dict_has d ''availability_zone'' \<and> \<not> dict_has d ''region''
            then rbind (get_region_from_az (dget d ''availability_zone'')) (\<lambda>r. Inr (dict_set d ''region'' (JStr r)))
            else Inr d) (\<lambda>d.
     rbind (resolve_kms_key inven spec d) (\<lambda>d.
       Inr (if dict_has d ''timeouts'' then d else dict_set d ''timeouts'' (rds_timeouts (mc_timeout_minutes mc)))))"

definition rds_source_spec :: "er_inventory \<Rightarrow> er_spec \<Rightarrow> data \<Rightarrow> er_error + er_spec" where
  "rds_source_spec inven spec d =
     (case dget d ''replica_source'' of
        JStr i \<Rightarrow> get_inventory_spec inven ''aws'' (provisioner_name spec) ''rds'' i
      | _ \<Rightarrow> Inl ValidationError)"

partial_function (option) rds_resolve ::
  "factory_lib \<Rightarrow> er_inventory \<Rightarrow> module_configuration \<Rightarrow> er_spec \<Rightarrow> (er_error + data) option" where
  \<comment> \<open>\<open>None\<close>: the recursion along the replica sources does not end\<close>
  "rds_resolve lib inven mc spec =
     (case rds_base lib spec of
        Inl e \<Rightarrow> Some (Inl e)
      | Inr d \<Rightarrow>
          if dict_has d ''replica_source''
          then (case rds_source_spec inven spec d of
              Inl e \<Rightarrow> Some (Inl e)
            | Inr source \<Rightarrow> Option.bind (rds_resolve lib inven mc source) (\<lambda>r. Some (
                rbind r (\<lambda>sd. rbind (replica_source_value source sd) (\<lambda>v.
                  rds_finish inven spec mc (dict_set d ''replica_source'' v))))))
          else Some (rds_finish inven spec mc d))"

definition is_digit :: "char \<Rightarrow> bool" where
  "is_digit c \<longleftrightarrow> (of_char c :: nat) \<in> {48..57}"

definition digits_value :: "string \<Rightarrow> nat" where
  "digits_value s = foldl (\<lambda>n c. 10 * n + (of_char c - 48)) 0 s"

definition get_timeout_minutes :: "string \<Rightarrow> er_error + int" where
  \<comment> \<open>\<open>(?:(\d+)h)?\s*(?:(\d+)m)?\<close>, the whole text\<close>
  "get_timeout_minutes s =
     (let h = takeWhile is_digit s; r = dropWhile is_digit s;
          has_h = (h \<noteq> [] \<and> r \<noteq> [] \<and> hd r = CHR ''h'');
          r = dropWhile py_space (if has_h then tl r else s);
          m = takeWhile is_digit r;
          hours = (if has_h then int (digits_value h) else 0)
      in if r = [] then Inr (hours * 60)
         else if m \<noteq> [] \<and> dropWhile is_digit r = ''m'' then Inr (hours * 60 + int (digits_value m))
         else Inl ValueError)"

definition validate_timeouts :: "data \<Rightarrow> module_configuration \<Rightarrow> er_error + unit" where
  "validate_timeouts d mc =
     (let timeouts = dget d ''timeouts'' in
      if \<not> truthy timeouts then Inr ()
      else case timeouts of
        JDict ts \<Rightarrow>
          if \<not> set (dict_keys ts) \<subseteq> {''create'', ''update'', ''delete''} then Inl ValueError
          else rfold (\<lambda>_ (_, t). case t of
                 JStr s \<Rightarrow> rbind (get_timeout_minutes s) (\<lambda>m.
                   if mc_timeout_minutes mc \<le> m then Inl ValueError else Inr ())
               | _ \<Rightarrow> Inl TypeError) () ts
      | _ \<Rightarrow> Inl TypeError)"

definition rds_find_linked_resources :: "er_inventory \<Rightarrow> er_spec \<Rightarrow> er_key list" where
  "rds_find_linked_resources inven spec =
     dict_keys (filter (\<lambda>(_, s). es_provision_provider s = ''aws'' \<and> es_provider s = ''rds'' \<and>
       dget (es_resource s) ''replica_source'' = JStr (es_identifier spec) \<and> \<not> es_delete s) inven)"

section \<open>MSK, endpoints, MSK Connect, Cloudflare\<close>

definition json_of_secret :: "(string, string) dict \<Rightarrow> json" where
  "json_of_secret sec = JDict (map (\<lambda>(k, v). (k, JStr v)) sec)"

definition secret_path :: "json \<Rightarrow> er_error + string" where
  "secret_path j = rbind (jindex j ''path'') (\<lambda>p. case p of JStr s \<Rightarrow> Inr s | _ \<Rightarrow> Inl TypeError)"

definition scram_user :: "factory_lib \<Rightarrow> json \<Rightarrow> er_error + string \<times> json" where
  "scram_user lib user =
     rbind (jindex user ''name'') (\<lambda>n.
     rbind (jindex user ''secret'') (\<lambda>s.
     rbind (secret_path s) (\<lambda>p.
     rbind (fl_read_secret lib p) (\<lambda>sec. Inr (json_text lib n, json_of_secret sec)))))"

definition msk_resolve :: "factory_lib \<Rightarrow> er_spec \<Rightarrow> er_error + data" where
  "msk_resolve lib spec =
     rbind (resolve_values lib spec) (\<lambda>d.
       let d = dict_set d ''output_prefix'' (JStr (output_prefix spec)) in
       rbind (jget_or (JDict d) ''client_authentication'' (JDict [])) (\<lambda>auth.
       rbind (jget_or auth ''sasl'' (JDict [])) (\<lambda>sasl.
       rbind (jget_or sasl ''scram'' (JBool False)) (\<lambda>scram.
         let d = dict_set d ''scram_users'' (JDict []) in
         if \<not> truthy scram then Inr d
         else if \<not> truthy (dget d ''users'') then Inl ValueError
         else rbind (as_list (dget d ''users'')) (\<lambda>us.
              rbind (rmap (scram_user lib) us) (\<lambda>us.
                Inr (dpop (dict_set d ''scram_users'' (JDict (dict_of us))) ''users'')))))))"

definition py_int_of_json :: "json \<Rightarrow> er_error + int" where
  "py_int_of_json j = (case j of JInt i \<Rightarrow> Inr i | _ \<Rightarrow> Inl TypeError)"

definition msk_validate :: "data \<Rightarrow> er_error + unit" where
  "msk_validate d =
     rbind (of_opt KeyMissing (dict_get d ''number_of_broker_nodes'')) (\<lambda>n.
     rbind (py_int_of_json n) (\<lambda>n.
     rbind (of_opt KeyMissing (dict_get d ''broker_node_group_info'')) (\<lambda>info.
     rbind (jindex info ''client_subnets'') (\<lambda>subnets.
     rbind (as_list subnets) (\<lambda>subnets.
     rbind (guard_err (subnets = []) ZeroDivisionError) (\<lambda>_.
     rbind (guard_err (n mod int (length subnets) \<noteq> 0) ValueError) (\<lambda>_.
     rbind (of_opt KeyMissing (dict_get d ''scram_users'')) (\<lambda>users.
     rbind (as_dict users) (\<lambda>users.
       rfold (\<lambda>_ (_, sec). rbind (as_dict sec) (\<lambda>sd.
         guard_err (set (dict_keys sd) \<noteq> {''password'', ''username''}) ValueError)) () users)))))))))"

definition msk_find_linked_resources :: "er_inventory \<Rightarrow> er_spec \<Rightarrow> er_key list" where
  "msk_find_linked_resources inven spec =
     dict_keys (filter (\<lambda>(_, s). es_provision_provider s = ''aws'' \<and> es_provider s = ''msk-connect'' \<and>
       dget (es_resource s) ''msk_cluster'' = JStr (es_identifier spec) \<and> \<not> es_delete s) inven)"

definition build_arn :: "string \<Rightarrow> string \<Rightarrow> string" where
  "build_arn uid terraform_username = ''arn:aws:iam::'' @ uid @ '':user/'' @ terraform_username"

definition consumer_arn :: "factory_lib \<Rightarrow> json \<Rightarrow> er_error + json list" where
  \<comment> \<open>the element of the comprehension for a cluster: none or one\<close>
  "consumer_arn lib c =
     rbind (jget_or c ''spec'' (JDict [])) (\<lambda>sp.
     rbind (jget_or sp ''account'' JNull) (\<lambda>account.
       if \<not> truthy account then Inr []
       else rbind (jindex account ''uid'') (\<lambda>uid.
            rbind (jindex account ''terraformUsername'') (\<lambda>user.
              Inr [JStr (build_arn (json_text lib uid) (json_text lib user))]))))"

definition list_or_empty :: "json \<Rightarrow> er_error + json list" where
  "list_or_empty j = (if truthy j then as_list j else Inr [])"

definition vpc_endpoint_service_resolve :: "factory_lib \<Rightarrow> er_spec \<Rightarrow> er_error + data" where
  "vpc_endpoint_service_resolve lib spec =
     rbind (resolve_values lib spec) (\<lambda>d.
     rbind (list_or_empty (dget d ''allowed_consumer_clusters'')) (\<lambda>clusters.
     rbind (rmap (consumer_arn lib) clusters) (\<lambda>arns.
     rbind (list_or_empty (dget d ''allowed_principal_arns'')) (\<lambda>explicit.
       Inr (dict_set (dpop (dpop d ''allowed_consumer_clusters'') ''allowed_principal_arns'')
              ''allowed_principal_arns'' (JList (concat arns @ explicit)))))))"

definition private_subnet :: "json \<Rightarrow> er_error + json list" where
  "private_subnet s =
     rbind (jget s ''privacy'') (\<lambda>p.
       if p = Some (JStr ''private'') then rbind (jindex s ''id'') (\<lambda>i. Inr [i]) else Inr [])"

definition vpc_endpoint_resolve :: "factory_lib \<Rightarrow> er_spec \<Rightarrow> er_error + data" where
  "vpc_endpoint_resolve lib spec =
     rbind (resolve_values lib spec) (\<lambda>d.
     rbind (of_opt KeyMissing (dict_get d ''vpc'')) (\<lambda>vpc.
     rbind (jindex vpc ''vpc_id'') (\<lambda>vpc_id.
     rbind (jget_or vpc ''subnets'' (JList [])) (\<lambda>subnets.
     rbind (as_list subnets) (\<lambda>subnets.
     rbind (rmap private_subnet subnets) (\<lambda>ids.
     rbind (jget_or vpc ''region'' JNull) (\<lambda>region.
       let d = dict_set (dict_set (dpop d ''vpc'') ''vpc_id'' vpc_id) ''subnet_ids'' (JList (concat ids)) in
       Inr (if truthy region then dict_set d ''region'' region else d))))))))"

definition msk_cluster_output_secret :: "factory_lib \<Rightarrow> string \<Rightarrow> er_spec \<Rightarrow> er_error + (string, string) dict" where
  "msk_cluster_output_secret lib vault_secrets_path spec =
     fl_read_secret lib (vault_secrets_path @ ''/'' @ ns_cluster (es_namespace spec) @ ''/'' @
       ns_name (es_namespace spec) @ ''/'' @ output_resource_name spec)"

definition build_s3_bucket_arn :: "string \<Rightarrow> string" where
  "build_s3_bucket_arn bucket = ''arn:aws:s3:::'' @ bucket"

definition msk_connect_plugin :: "factory_lib \<Rightarrow> data \<Rightarrow> er_error + data" where
  "msk_connect_plugin lib d =
     rbind (of_opt KeyMissing (dict_get d ''custom_plugin'')) (\<lambda>plugin.
       if \<not> truthy plugin then Inr d
       else rbind (as_dict plugin) (\<lambda>p.
            rbind (of_opt KeyMissing (dict_get p ''s3_bucket'')) (\<lambda>b.
              Inr (dict_set d ''custom_plugin''
                (JDict (dict_set (dpop p ''s3_bucket'') ''s3_bucket_arn'' (JStr (build_s3_bucket_arn (json_text lib b)))))))))"

definition msk_connect_resolve ::
  "factory_lib \<Rightarrow> er_inventory \<Rightarrow> string \<Rightarrow> er_spec \<Rightarrow> er_error + data" where
  "msk_connect_resolve lib inven vault_secrets_path spec =
     rbind (resolve_values lib spec) (\<lambda>d.
       let d = dict_set d ''output_prefix'' (JStr (output_prefix spec)) in
       rbind (of_opt KeyMissing (dict_get d ''msk_cluster'')) (\<lambda>c.
       rbind (case c of JStr i \<Rightarrow> get_inventory_spec inven ''aws'' (provisioner_name spec) ''msk'' i
              | _ \<Rightarrow> Inl ValidationError) (\<lambda>cluster.
       rbind (msk_cluster_output_secret lib vault_secrets_path cluster) (\<lambda>sec.
         case truthy_str (dict_get sec ''bootstrap_brokers_sasl_iam'') of
           None \<Rightarrow> Inl ValueError
         | Some servers \<Rightarrow>
             let d = dict_set d ''kafka_cluster_bootstrap_servers'' (JStr servers) in
             rbind (resolve_values lib cluster) (\<lambda>md.
             rbind (of_opt KeyMissing (dict_get md ''broker_node_group_info'')) (\<lambda>info.
             rbind (jindex info ''client_subnets'') (\<lambda>subnets.
             rbind (jindex info ''security_groups'') (\<lambda>groups.
               msk_connect_plugin lib
                 (dict_set d ''vpc'' (JDict [(''subnets'', subnets), (''security_groups'', groups)]))))))))))"

definition msk_connect_validate :: "data \<Rightarrow> er_error + unit" where
  "msk_connect_validate d = guard_err (\<not> truthy (dget d ''connector_configuration'')) ValueError"

definition cloudflare_resolve :: "factory_lib \<Rightarrow> er_spec \<Rightarrow> er_error + data" where
  "cloudflare_resolve lib spec =
     rbind (fl_read_secret lib (pv_api_credentials (es_provisioner spec))) (\<lambda>creds.
     rbind (of_opt SecretIncomplete (truthy_str (dict_get creds ''account_id''))) (\<lambda>account.
     rbind (resolve_values lib spec) (\<lambda>d. Inr (dict_set d ''account_id'' (JStr account)))))"

section \<open>Building the resource\<close>

record factory_env =
  fe_lib :: factory_lib
  fe_inventory :: er_inventory
  fe_modules :: module_inventory
  fe_settings :: er_settings

definition aws_resolve :: "factory_env \<Rightarrow> er_spec \<Rightarrow> module_configuration \<Rightarrow> er_error + data" where
  "aws_resolve env spec mc =
     (let lib = fe_lib env; p = es_provider spec in
      if p = ''elasticache'' then elasticache_resolve lib spec
      else if p = ''rds'' then
        (case rds_resolve lib (fe_inventory env) mc spec of None \<Rightarrow> Inl RecursionError | Some r \<Rightarrow> r)
      else if p = ''msk'' then msk_resolve lib spec
      else if p = ''msk-connect'' then
        msk_connect_resolve lib (fe_inventory env) (st_vault_secrets_path (fe_settings env)) spec
      else if p = ''vpc-endpoint'' then vpc_endpoint_resolve lib spec
      else if p = ''vpc-endpoint-service'' then vpc_endpoint_service_resolve lib spec
      else resolve_values lib spec)"

definition aws_validate :: "factory_env \<Rightarrow> string \<Rightarrow> data \<Rightarrow> module_configuration \<Rightarrow> er_error + data" where
  \<comment> \<open>the validation of Elasticache also completes the data\<close>
  "aws_validate env p d mc =
     (if p = ''elasticache'' then elasticache_validate (fe_lib env) d
      else if p = ''rds'' then rbind (validate_timeouts d mc) (\<lambda>_. Inr d)
      else if p = ''msk'' then rbind (msk_validate d) (\<lambda>_. Inr d)
      else if p = ''msk-connect'' then rbind (msk_connect_validate d) (\<lambda>_. Inr d)
      else Inr d)"

definition aws_region :: "er_spec \<Rightarrow> data \<Rightarrow> er_error + data" where
  "aws_region spec d =
     (let region = dget d ''region'' in
      if truthy region
      then (case pv_supported_regions (es_provisioner spec) of
              None \<Rightarrow> Inl TypeError
            | Some regions \<Rightarrow> if region \<in> JStr ` set regions then Inr (dict_set d ''region'' region) else Inl ValueError)
      else Inr (dict_set d ''region'' (JStr (pv_default_region (es_provisioner spec)))))"

definition build_provision :: "factory_env \<Rightarrow> er_spec \<Rightarrow> er_error + external_provision" where
  "build_provision env spec =
     rbind (module_from_spec (fe_modules env) spec) (\<lambda>m.
     rbind (guard_err (md_module_type m \<noteq> ''terraform'') KeyMissing) (\<lambda>_.
     rbind (of_opt ValidationError (st_tf_state_bucket (fe_settings env))) (\<lambda>bucket.
     rbind (of_opt ValidationError (st_tf_state_region (fe_settings env))) (\<lambda>region.
       Inr \<lparr>ep_provision_provider = es_provision_provider spec, ep_provisioner = provisioner_name spec,
            ep_provider = es_provider spec, ep_identifier = es_identifier spec,
            ep_target_cluster = ns_cluster (es_namespace spec), ep_target_namespace = ns_name (es_namespace spec),
            ep_target_secret_name = output_resource_name spec, ep_tf_state_bucket = bucket,
            ep_tf_state_region = region,
            ep_tf_state_key = state_path (key_from_spec spec) @ ''/terraform.tfstate''\<rparr>))))"

definition build_external_resource :: "factory_env \<Rightarrow> er_spec \<Rightarrow> module_configuration \<Rightarrow> er_error + external_resource" where
  "build_external_resource env spec mc =
     (if es_provision_provider spec = ''aws'' then
        rbind (aws_resolve env spec mc) (\<lambda>d.
        rbind (spec_tags (fl_json_loads (fe_lib env)) ''external_resources'' spec) (\<lambda>tags.
        rbind (aws_region spec (dict_set d ''tags'' (JDict (dict_update (st_default_tags (fe_settings env)) tags)))) (\<lambda>d.
        rbind (build_provision env spec) (\<lambda>p.
        rbind (aws_validate env (es_provider spec) d mc) (\<lambda>d. Inr \<lparr>xr_data = d, xr_provision = p\<rparr>)))))
      else if es_provision_provider spec = ''cloudflare'' then
        rbind (cloudflare_resolve (fe_lib env) spec) (\<lambda>d.
        rbind (build_provision env spec) (\<lambda>p. Inr \<lparr>xr_data = d, xr_provision = p\<rparr>))
      else Inl KeyMissing)"

definition find_linked_resources :: "factory_env \<Rightarrow> er_spec \<Rightarrow> er_error + er_key list" where
  "find_linked_resources env spec =
     (if es_provision_provider spec = ''aws'' then
        Inr (if es_provider spec = ''rds'' then rds_find_linked_resources (fe_inventory env) spec
             else if es_provider spec = ''msk'' then msk_find_linked_resources (fe_inventory env) spec
             else [])
      else if es_provision_provider spec = ''cloudflare'' then Inr [] else Inl KeyMissing)"

end
