(* ===== verification/Job_Controller.thy ===== *)
theory Job_Controller
  imports Py_Prelude "HOL-Library.Word"
begin

text \<open>
  The controller of Kubernetes jobs, \<open>reconcile/utils/jobcontroller\<close>. The cluster is a dictionary of jobs; the
  clock is in whole seconds; while a caller sleeps, the jobs change as the argument \<open>je_jobs\<close> says and the
  clock may run on by \<open>je_delay\<close>.
\<close>

unbundle bit_operations_syntax

section \<open>Jobs\<close>

datatype job_status = JobSuccess | JobError | JobInProgress | JobNotExists

record job_resource =
  \<comment> \<open>of the body of a job: absent counters of the status are zero, \<open>backoffLimit\<close> may be absent\<close>
  jr_succeeded :: int
  jr_failed :: int
  jr_backoff_limit :: "int option"
  jr_start_time :: "int option"
  jr_completion_time :: "int option"
  jr_generation :: "string option"
  jr_uid :: "string option"

type_synonym job_cluster = "(string, job_resource) dict"

record k8s_job =
  \<comment> \<open>a unit of work: the prefix of its name and the digest of its identity\<close>
  kj_name_prefix :: string
  kj_digest :: string
  kj_ttl_seconds_after_finished :: "int option"
  kj_backoff_limit :: "int option"
  kj_generation :: string
  kj_secret_data :: "(string, string) dict"
  kj_scripts :: "(string, string) dict"

definition no_replace :: int where "no_replace = 1"
definition replace_failed :: int where "replace_failed = 2"
definition replace_in_progress :: int where "replace_in_progress = 4"
definition replace_finished :: int where "replace_finished = 8"

definition job_name :: "k8s_job \<Rightarrow> string" where
  "job_name job = take (63 - 10 - 1) (kj_name_prefix job) @ ''-'' @ take 10 (kj_digest job)"

section \<open>The controller\<close>

record job_secret =
  se_name :: string
  se_owner_uid :: string
  se_data :: "(string, string) dict"

record job_state =
  \<comment> \<open>what the cluster holds, and what the controller remembers of it\<close>
  js_jobs :: job_cluster
  js_secrets :: "(string, job_secret) dict"
  js_cache :: "job_cluster option"

definition update_cache :: "job_state \<Rightarrow> job_state" where
  "update_cache s = s\<lparr>js_cache := Some (js_jobs s)\<rparr>"

definition fill_cache :: "job_state \<Rightarrow> job_state" where
  \<comment> \<open>the property \<open>cache\<close>\<close>
  "fill_cache s = (case js_cache s of None \<Rightarrow> update_cache s | Some _ \<Rightarrow> s)"

definition cached_jobs :: "job_state \<Rightarrow> job_cluster" where
  "cached_jobs s = (case js_cache s of None \<Rightarrow> js_jobs s | Some c \<Rightarrow> c)"

definition job_status_of :: "job_resource option \<Rightarrow> job_status" where
  "job_status_of j =
     (case j of
        None \<Rightarrow> JobNotExists
      | Some j \<Rightarrow>
          if 0 < jr_succeeded j then JobSuccess
          else if (case jr_backoff_limit j of None \<Rightarrow> 6 | Some b \<Rightarrow> b) < jr_failed j then JobError
          else JobInProgress)"

definition get_job_status :: "job_state \<Rightarrow> string \<Rightarrow> job_status" where
  "get_job_status s name = job_status_of (dict_get (cached_jobs s) name)"

definition get_job_generation :: "job_state \<Rightarrow> string \<Rightarrow> string option" where
  "get_job_generation s name = Option.bind (dict_get (cached_jobs s) name) jr_generation"

definition get_success_job_duration :: "job_state \<Rightarrow> string \<Rightarrow> int option" where
  "get_success_job_duration s name =
     (if get_job_status s name \<noteq> JobSuccess then None
      else Option.bind (dict_get (cached_jobs s) name) (\<lambda>j.
        case (jr_start_time j, jr_completion_time j) of (Some a, Some b) \<Rightarrow> Some (b - a) | _ \<Rightarrow> None))"

section \<open>Creating and deleting\<close>

definition validate_job :: "k8s_job \<Rightarrow> string + unit" where
  \<comment> \<open>a time to live of zero counts as missing\<close>
  "validate_job job =
     (case kj_ttl_seconds_after_finished job of
        None \<Rightarrow> Inl ''JobValidationError''
      | Some t \<Rightarrow> if t = 0 then Inl ''JobValidationError'' else Inr ())"

definition lookup_job_uid :: "job_state \<Rightarrow> string \<Rightarrow> string option" where
  "lookup_job_uid s name = Option.bind (dict_get (js_jobs s) name) jr_uid"

definition build_job_secret :: "job_state \<Rightarrow> k8s_job \<Rightarrow> string + job_secret option" where
  "build_job_secret s job =
     (if set (dict_keys (kj_secret_data job)) \<inter> set (dict_keys (kj_scripts job)) \<noteq> {} then Inl ''JobValidationError''
      else
        let data = dict_update (kj_secret_data job) (kj_scripts job) in
        if data = [] then Inr None
        else case truthy_str (lookup_job_uid s (job_name job)) of
          None \<Rightarrow> Inl ''Exception''
        | Some uid \<Rightarrow> Inr (Some \<lparr>se_name = job_name job, se_owner_uid = uid, se_data = data\<rparr>))"

definition new_job_resource :: "(string \<Rightarrow> string) \<Rightarrow> k8s_job \<Rightarrow> job_resource" where
  "new_job_resource fresh_uid job =
     \<lparr>jr_succeeded = 0, jr_failed = 0, jr_backoff_limit = kj_backoff_limit job, jr_start_time = None,
      jr_completion_time = None, jr_generation = Some (kj_generation job), jr_uid = Some (fresh_uid (job_name job))\<rparr>"

definition apply_job :: "(string \<Rightarrow> string) \<Rightarrow> k8s_job \<Rightarrow> job_state \<Rightarrow> job_state" where
  \<comment> \<open>a server side apply: a job of this name that is there keeps its status\<close>
  "apply_job fresh_uid job s =
     (case dict_get (js_jobs s) (job_name job) of
        None \<Rightarrow> s\<lparr>js_jobs := dict_set (js_jobs s) (job_name job) (new_job_resource fresh_uid job)\<rparr>
      | Some j \<Rightarrow> s\<lparr>js_jobs := dict_set (js_jobs s) (job_name job) (j\<lparr>jr_generation := Some (kj_generation job)\<rparr>)\<rparr>)"

definition create_job :: "(string \<Rightarrow> string) \<Rightarrow> k8s_job \<Rightarrow> job_state \<Rightarrow> job_state \<times> (string + unit)" where
  "create_job fresh_uid job s =
     (case validate_job job of
        Inl e \<Rightarrow> (s, Inl e)
      | Inr _ \<Rightarrow>
          let s = apply_job fresh_uid job s in
          case build_job_secret s job of
            Inl e \<Rightarrow> (s, Inl e)
          | Inr None \<Rightarrow> (s, Inr ())
          | Inr (Some secret) \<Rightarrow> (s\<lparr>js_secrets := dict_set (js_secrets s) (job_name job) secret\<rparr>, Inr ()))"

definition delete_job :: "string \<Rightarrow> job_state \<Rightarrow> job_state" where
  \<comment> \<open>the secret that the job owns is left to the garbage collection of the cluster\<close>
  "delete_job name s =
     (if get_job_status s name = JobNotExists then fill_cache s
      else (fill_cache s)\<lparr>js_jobs := filter (\<lambda>(n, _). n \<noteq> name) (js_jobs s)\<rparr>)"

definition replaces :: "int \<Rightarrow> job_status \<Rightarrow> bool" where
  "replaces policy status =
     (case status of
        JobInProgress \<Rightarrow> policy AND replace_in_progress \<noteq> 0
      | JobError \<Rightarrow> policy AND replace_failed \<noteq> 0
      | JobSuccess \<Rightarrow> policy AND replace_finished \<noteq> 0
      | JobNotExists \<Rightarrow> False)"

definition enqueue_job ::
  "(string \<Rightarrow> string) \<Rightarrow> k8s_job \<Rightarrow> int \<Rightarrow> job_state \<Rightarrow> job_state \<times> (string + bool)" where
  "enqueue_job fresh_uid job policy s =
     (let status = get_job_status s (job_name job);
          s = fill_cache s;
          s' = (if replaces policy status then delete_job (job_name job) s else s)
      in if replaces policy status \<or> status = JobNotExists
         then case create_job fresh_uid job s' of
                (s', Inl e) \<Rightarrow> (s', Inl e) | (s', Inr _) \<Rightarrow> (s', Inr True)
         else (s', Inr False))"

section \<open>Waiting\<close>

record job_env =
  je_jobs :: "int \<Rightarrow> job_cluster"
  je_delay :: "int \<Rightarrow> int"

definition status_at :: "job_env \<Rightarrow> int \<Rightarrow> string \<Rightarrow> job_status" where
  \<comment> \<open>\<open>update_cache\<close> and \<open>get_job_status\<close> at a time\<close>
  "status_at env now name = job_status_of (dict_get (je_jobs env now) name)"

definition sleep_until_timeout :: "job_env \<Rightarrow> int \<Rightarrow> int \<Rightarrow> int \<Rightarrow> int \<Rightarrow> int" where
  \<comment> \<open>the time after \<open>_sleep_until_timeout\<close>\<close>
  "sleep_until_timeout env now elapsed timeout interval =
     (let s = (if 0 \<le> timeout then min interval (timeout - elapsed) else interval)
      in (if 0 < s then now + s else now) + je_delay env now)"

partial_function (option) wait_for_job_completion ::
  "job_env \<Rightarrow> string \<Rightarrow> int \<Rightarrow> int \<Rightarrow> int \<Rightarrow> int \<Rightarrow> (int \<times> (string + bool)) option" where
  \<comment> \<open>with the time of the call, the current time; the result has the time of the return\<close>
  "wait_for_job_completion env name interval timeout start now =
     (case status_at env now name of
        JobSuccess \<Rightarrow> Some (now, Inr True)
      | JobError \<Rightarrow> Some (now, Inr False)
      | _ \<Rightarrow>
          if 0 \<le> timeout \<and> timeout \<le> now - start then Some (now, Inl ''TimeoutError'')
          else wait_for_job_completion env name interval timeout start
                 (sleep_until_timeout env now (now - start) timeout interval))"

definition job_done :: "job_status \<Rightarrow> bool" where
  "job_done st \<longleftrightarrow> st = JobSuccess \<or> st = JobError"

definition check_jobs ::
  "job_env \<Rightarrow> int \<Rightarrow> string list \<Rightarrow> (string, job_status) dict \<Rightarrow> string list \<times> (string, job_status) dict" where
  "check_jobs env now jobs_left statuses =
     (filter (\<lambda>n. \<not> job_done (status_at env now n)) jobs_left,
      foldl (\<lambda>st n. dict_set st n (status_at env now n)) statuses jobs_left)"

partial_function (option) wait_for_jobs ::
  "job_env \<Rightarrow> int \<Rightarrow> int \<Rightarrow> int \<Rightarrow> string list \<Rightarrow> (string, job_status) dict \<Rightarrow> int \<Rightarrow>
   (int \<times> (string, job_status) dict) option" where
  "wait_for_jobs env interval timeout start jobs_left statuses now =
     (if jobs_left = [] then Some (now, statuses)
      else case check_jobs env now jobs_left statuses of (jobs_left, statuses) \<Rightarrow>
        if jobs_left \<noteq> [] \<and> 0 \<le> timeout \<and> timeout \<le> now - start then Some (now, statuses)
        else wait_for_jobs env interval timeout start jobs_left statuses
               (if jobs_left = [] then now else sleep_until_timeout env now (now - start) timeout interval))"

definition wait_for_job_list_completion ::
  "job_env \<Rightarrow> string list \<Rightarrow> int \<Rightarrow> int \<Rightarrow> int \<Rightarrow> (int \<times> (string, job_status) dict) option" where
  "wait_for_job_list_completion env names interval timeout now =
     wait_for_jobs env interval timeout now names (map (\<lambda>n. (n, JobNotExists)) names) now"

definition enqueue_job_and_wait_for_completion ::
  "job_env \<Rightarrow> (string \<Rightarrow> string) \<Rightarrow> k8s_job \<Rightarrow> int \<Rightarrow> int \<Rightarrow> int \<Rightarrow> int \<Rightarrow> job_state \<Rightarrow>
   (int \<times> (string + job_status)) option" where
  \<comment> \<open>\<open>env\<close> says how the jobs change once the job is there\<close>
  "enqueue_job_and_wait_for_completion env fresh_uid job interval timeout policy now s =
     (case snd (enqueue_job fresh_uid job policy s) of
        Inl e \<Rightarrow> Some (now, Inl e)
      | Inr _ \<Rightarrow> map_option (\<lambda>(t, r). (t, map_sum id (\<lambda>ok. if ok then JobSuccess else JobError) r))
          (wait_for_job_completion env (job_name job) interval timeout now now))"

section \<open>What the policy allows\<close>

lemma cached_fill [simp]: "cached_jobs (fill_cache s) = cached_jobs s" "js_jobs (fill_cache s) = js_jobs s"
  by (simp_all add: fill_cache_def cached_jobs_def update_cache_def split: option.splits)

lemma job_name_length: "length (job_name job) \<le> 63"
  by (simp add: job_name_def)

lemma create_job_jobs:
  "validate_job job = Inr () \<Longrightarrow>
     js_jobs (fst (create_job fresh_uid job s)) = js_jobs (apply_job fresh_uid job s)"
  by (simp add: create_job_def Let_def split: sum.splits option.splits)

lemma get_status_fill [simp]: "get_job_status (fill_cache s) n = get_job_status s n"
  by (simp add: get_job_status_def)

definition up_to_date :: "job_state \<Rightarrow> bool" where
  "up_to_date s \<longleftrightarrow> (case js_cache s of None \<Rightarrow> True | Some c \<Rightarrow> map_of c = map_of (js_jobs s))"

lemma up_to_date_cached: "up_to_date s \<Longrightarrow> dict_get (cached_jobs s) n = dict_get (js_jobs s) n"
  by (auto simp: up_to_date_def cached_jobs_def split: option.splits)

lemma enqueue_job_outcome_aux:
  assumes "up_to_date s" "validate_job job = Inr ()" "enqueue_job fresh_uid job policy s = (s', Inr scheduled)"
  shows "(scheduled \<longleftrightarrow> get_job_status s (job_name job) = JobNotExists \<or> replaces policy (get_job_status s (job_name job))) \<and>
    dict_get (js_jobs s') n = (if scheduled \<and> n = job_name job then Some (new_job_resource fresh_uid job)
      else dict_get (js_jobs s) n)"
proof -
  let ?st = "get_job_status s (job_name job)"
  have none: "?st = JobNotExists \<longleftrightarrow> dict_get (js_jobs s) (job_name job) = None"
    using up_to_date_cached [OF assms(1), of "job_name job"]
    by (auto simp: get_job_status_def job_status_of_def split: option.splits)
  show ?thesis
  proof (cases "?st = JobNotExists \<or> replaces policy ?st")
    case False
    with assms(3) show ?thesis by (auto simp: enqueue_job_def Let_def)
  next
    case True
    define t where "t = (if replaces policy ?st then delete_job (job_name job) (fill_cache s) else fill_cache s)"
    have "dict_get (js_jobs t) n = (if n = job_name job then None else dict_get (js_jobs s) n)" for n
      using True none by (cases "?st = JobNotExists")
        (auto simp: t_def delete_job_def map_of_filter_keys replaces_def)
    then have "dict_get (js_jobs (apply_job fresh_uid job t)) n =
        (if n = job_name job then Some (new_job_resource fresh_uid job) else dict_get (js_jobs s) n)"
      by (simp add: apply_job_def dict_simps)
    moreover have "scheduled" "s' = fst (create_job fresh_uid job t)"
      using True assms(3) by (auto simp: enqueue_job_def Let_def t_def [symmetric] split: prod.splits sum.splits)
    ultimately show ?thesis using True create_job_jobs [OF assms(2)] by simp
  qed
qed

section \<open>Waiting ends\<close>

lemma sleep_progress:
  assumes "0 < interval" "0 \<le> je_delay env now" "timeout < 0 \<or> elapsed < timeout"
  shows "now < sleep_until_timeout env now elapsed timeout interval"
  using assms by (auto simp: sleep_until_timeout_def Let_def)

text \<open>C40. Waiting for a job with a timeout ends: the call returns that the job succeeded or failed, as the
  cluster says at that time, or raises a timeout, and it does so only after the timeout has passed.\<close>
theorem wait_with_timeout_ends:
  assumes "0 \<le> timeout" "0 < interval" "\<And>t. 0 \<le> je_delay env t" "start \<le> now"
  shows "\<exists>t r. wait_for_job_completion env name interval timeout start now = Some (t, r) \<and> now \<le> t \<and>
    (case r of Inr ok \<Rightarrow> status_at env t name = (if ok then JobSuccess else JobError)
             | Inl e \<Rightarrow> e = ''TimeoutError'' \<and> timeout \<le> t - start \<and> \<not> job_done (status_at env t name))"
  using assms(4)
proof (induction "nat (timeout - (now - start))" arbitrary: now rule: less_induct)
  case less
  let ?next = "sleep_until_timeout env now (now - start) timeout interval"
  show ?case
  proof (cases "job_done (status_at env now name) \<or> timeout \<le> now - start")
    case True
    then show ?thesis
      using assms(1) by (subst wait_for_job_completion.simps) (auto simp: job_done_def split: job_status.splits)
  next
    case False
    then have later: "now < ?next" using assms(2,3) by (intro sleep_progress) auto
    with False have "nat (timeout - (?next - start)) < nat (timeout - (now - start))" by simp
    moreover from later less.prems have "start \<le> ?next" by simp
    ultimately obtain t r where ih: "wait_for_job_completion env name interval timeout start ?next = Some (t, r)"
        "?next \<le> t" "case r of Inr ok \<Rightarrow> status_at env t name = (if ok then JobSuccess else JobError)
             | Inl e \<Rightarrow> e = ''TimeoutError'' \<and> timeout \<le> t - start \<and> \<not> job_done (status_at env t name)"
      using less.hyps [of ?next] by blast
    have "wait_for_job_completion env name interval timeout start now = Some (t, r)"
      using False ih(1) assms(1) by (subst wait_for_job_completion.simps) (auto simp: job_done_def split: job_status.splits)
    with ih later show ?thesis by force
  qed
qed

lemma waiting_for_missing_job:
  assumes "wait_for_jobs env interval timeout start left statuses now = Some y"
  shows "name \<in> set left \<longrightarrow> timeout < 0 \<longrightarrow> (\<exists>t. status_at env t name \<noteq> JobNotExists)"
proof (rule wait_for_jobs.raw_induct [OF _ assms,
    where P = "\<lambda>env interval timeout start left statuses now y.
      name \<in> set left \<longrightarrow> timeout < 0 \<longrightarrow> (\<exists>t. status_at env t name \<noteq> JobNotExists)"], intro impI, rule ccontr)
  fix wait :: "job_env \<Rightarrow> int \<Rightarrow> int \<Rightarrow> int \<Rightarrow> string list \<Rightarrow> (string, job_status) dict \<Rightarrow> int \<Rightarrow>
      (int \<times> (string, job_status) dict) option"
    and env interval timeout start left statuses now y
  assume ih: "\<And>env interval timeout start left statuses now y. wait env interval timeout start left statuses now = Some y \<Longrightarrow>
        name \<in> set left \<longrightarrow> timeout < 0 \<longrightarrow> (\<exists>t. status_at env t name \<noteq> JobNotExists)"
    and run: "(if left = [] then Some (now, statuses)
      else case check_jobs env now left statuses of (jobs_left, statuses) \<Rightarrow>
        if jobs_left \<noteq> [] \<and> 0 \<le> timeout \<and> timeout \<le> now - start then Some (now, statuses)
        else wait env interval timeout start jobs_left statuses
               (if jobs_left = [] then now else sleep_until_timeout env now (now - start) timeout interval)) = Some y"
    and a: "name \<in> set left" "timeout < 0" "\<nexists>t. status_at env t name \<noteq> JobNotExists"
  obtain l st where l: "check_jobs env now left statuses = (l, st)" by force
  with a have "name \<in> set l" by (auto simp: check_jobs_def job_done_def)
  with run a l have "wait env interval timeout start l st (sleep_until_timeout env now (now - start) timeout interval) = Some y"
    by (auto split: if_splits)
  from ih [OF this] \<open>name \<in> set l\<close> a show False by blast
qed

text \<open>Waiting for a job that is not there, without a timeout, never ends: such a job is not counted as
  finished, although its status is reported as missing.\<close>
theorem missing_job_waits_forever:
  assumes "\<And>t. status_at env t name = JobNotExists" "name \<in> set names" "timeout < 0"
  shows "wait_for_job_list_completion env names interval timeout now = None"
proof (rule ccontr)
  assume "wait_for_job_list_completion env names interval timeout now \<noteq> None"
  then obtain y where "wait_for_jobs env interval timeout now names (map (\<lambda>n. (n, JobNotExists)) names) now = Some y"
    by (auto simp: wait_for_job_list_completion_def)
  from waiting_for_missing_job [OF this, of name] assms show False by simp
qed

section \<open>Examples\<close>

text \<open>A job is created, or replaced by a new one, exactly where there is none or the concurrency policy says
  so, judged by what the controller remembers of the cluster; every other job is left alone.\<close>

theorem enqueue_job_outcome:
  assumes "up_to_date s" "validate_job job = Inr ()" "enqueue_job fresh_uid job policy s = (s', Inr scheduled)"
  shows "(scheduled \<longleftrightarrow> get_job_status s (job_name job) = JobNotExists \<or> replaces policy (get_job_status s (job_name job))) \<and>
    dict_get (js_jobs s') n = (if scheduled \<and> n = job_name job then Some (new_job_resource fresh_uid job)
      else dict_get (js_jobs s) n)"
  by (rule enqueue_job_outcome_aux [OF assms])

definition demo_job :: k8s_job where
  "demo_job = \<lparr>kj_name_prefix = ''job'', kj_digest = ''0123456789'', kj_ttl_seconds_after_finished = Some 60,
     kj_backoff_limit = Some 0, kj_generation = ''g'', kj_secret_data = [], kj_scripts = [(''run'', ''x'')]\<rparr>"

definition demo_job_resource :: "int \<Rightarrow> int \<Rightarrow> job_resource" where
  "demo_job_resource ok bad = \<lparr>jr_succeeded = ok, jr_failed = bad, jr_backoff_limit = Some 0, jr_start_time = None,
     jr_completion_time = None, jr_generation = None, jr_uid = Some ''u''\<rparr>"

definition demo_job_state :: job_state where
  "demo_job_state = \<lparr>js_jobs = [(''job-0123456789'', demo_job_resource 0 1)], js_secrets = [], js_cache = None\<rparr>"

lemma enqueue_job_outcome_witness:
  "dict_get (js_jobs (fst (enqueue_job id demo_job replace_failed demo_job_state))) ''job-0123456789'' =
     Some (new_job_resource id demo_job)"
proof -
  have run: "enqueue_job id demo_job replace_failed demo_job_state =
      (fst (enqueue_job id demo_job replace_failed demo_job_state), Inr True)" by code_simp
  have "up_to_date demo_job_state" by (simp add: up_to_date_def demo_job_state_def)
  moreover have "validate_job demo_job = Inr ()" by code_simp
  moreover have "job_name demo_job = ''job-0123456789''" by code_simp
  ultimately show ?thesis using enqueue_job_outcome [OF _ _ run, of "''job-0123456789''"] by simp
qed

definition demo_job_env :: job_env where
  \<comment> \<open>the job succeeds after five seconds\<close>
  "demo_job_env = \<lparr>je_jobs = (\<lambda>t. [(''job'', demo_job_resource (if t < 5 then 0 else 1) 0)]), je_delay = (\<lambda>_. 0)\<rparr>"

lemma wait_with_timeout_ends_witness:
  "\<exists>t r. wait_for_job_completion demo_job_env ''job'' 3 10 0 0 = Some (t, r) \<and> 0 \<le> t \<and>
    (case r of Inr ok \<Rightarrow> status_at demo_job_env t ''job'' = (if ok then JobSuccess else JobError)
             | Inl e \<Rightarrow> e = ''TimeoutError'' \<and> 10 \<le> t - 0 \<and> \<not> job_done (status_at demo_job_env t ''job''))"
  by (rule wait_with_timeout_ends) (simp_all add: demo_job_env_def)

lemma missing_job_waits_forever_witness:
  "wait_for_job_list_completion \<lparr>je_jobs = (\<lambda>_. []), je_delay = (\<lambda>_. 1)\<rparr> [''job''] 10 (- 1) 0 = None"
  by (rule missing_job_waits_forever [of _ "''job''"]) (simp_all add: status_at_def job_status_of_def)

end
