(* ===== verification/Er_Manager.thy ===== *)
theory Er_Manager
  imports Er_State_Laws Er_Factories Job_Controller
begin

text \<open>
  The manager of external resources, \<open>reconcile/external_resources/manager.py\<close>, with the jobs of
  \<open>reconciler.py\<close>. A run works on the store of states (see \<open>Er_State_Laws\<close>) and on the jobs of the workers'
  cluster as the job controller knows them. The clock is read once, at the start of a run; the outcome of the
  secrets synchronisation, the digest of a key and the unique identifiers of new jobs are parameters.
\<close>

section \<open>The run\<close>

record er_env =
  en_factory :: factory_env
  en_digest :: "er_key \<Rightarrow> string"
  en_generation :: string
  en_fresh_uid :: "string \<Rightarrow> string"
  en_dry_run :: bool
  en_suffix :: string
  en_now :: int
  en_sync_errors :: "er_spec list \<Rightarrow> er_spec list"

record er_world =
  \<comment> \<open>with the reconciliations whose jobs were scheduled, in order\<close>
  ew_rows :: er_rows
  ew_jobs :: job_state
  ew_launched :: "reconciliation list"

abbreviation en_inventory :: "er_env \<Rightarrow> er_inventory" where
  "en_inventory env \<equiv> fe_inventory (en_factory env)"

definition get_state :: "er_env \<Rightarrow> er_rows \<Rightarrow> er_key \<Rightarrow> er_state" where
  "get_state env rows k = (case row_of rows k of None \<Rightarrow> not_existing_state (en_now env) k | Some s \<Rightarrow> s)"

section \<open>Jobs\<close>

definition reconciliation_job :: "er_env \<Rightarrow> bool \<Rightarrow> reconciliation \<Rightarrow> k8s_job" where
  "reconciliation_job env dry r =
     (let ident = ek_provider (rc_key r) @ ''-'' @ ek_identifier (rc_key r) in
      \<lparr>kj_name_prefix = (if dry then ''er-dry-run-mr-'' @ en_suffix env @ ''-'' @ ident else ''er-'' @ ident),
       kj_digest = en_digest env (rc_key r), kj_ttl_seconds_after_finished = Some 3600, kj_backoff_limit = Some 0,
       kj_generation = en_generation env, kj_secret_data = [], kj_scripts = [(''input.json'', rc_input r)]\<rparr>)"

definition get_resource_reconcile_status :: "er_env \<Rightarrow> er_world \<Rightarrow> reconciliation \<Rightarrow> job_status" where
  "get_resource_reconcile_status env w r = get_job_status (ew_jobs w) (job_name (reconciliation_job env False r))"

definition get_resource_reconcile_duration :: "er_env \<Rightarrow> er_world \<Rightarrow> reconciliation \<Rightarrow> int option" where
  "get_resource_reconcile_duration env w r =
     get_success_job_duration (ew_jobs w) (job_name (reconciliation_job env False r))"

definition reconcile_policy :: "bool \<Rightarrow> int" where
  "reconcile_policy dry =
     (if dry then replace_failed OR replace_finished OR replace_in_progress else replace_failed OR replace_finished)"

definition reconcile_resource :: "er_env \<Rightarrow> er_world \<Rightarrow> reconciliation \<Rightarrow> er_error + er_world" where
  \<comment> \<open>that a job could not be scheduled, because one is running, goes unnoticed\<close>
  "reconcile_resource env w r =
     (case enqueue_job (en_fresh_uid env) (reconciliation_job env (en_dry_run env) r)
             (reconcile_policy (en_dry_run env)) (ew_jobs w) of
        (_, Inl e) \<Rightarrow> Inl (JobFailed e)
      | (jobs, Inr scheduled) \<Rightarrow>
          Inr (w\<lparr>ew_jobs := jobs, ew_launched := (if scheduled then ew_launched w @ [r] else ew_launched w)\<rparr>))"

section \<open>What a resource needs\<close>

definition spec_changed :: "reconciliation \<Rightarrow> er_state \<Rightarrow> bool" where
  "spec_changed r s \<longleftrightarrow> rc_resource_hash r \<noteq> rc_resource_hash (et_reconciliation s)"

definition drift_ttl_expired :: "int \<Rightarrow> reconciliation \<Rightarrow> er_state \<Rightarrow> bool" where
  "drift_ttl_expired now r s \<longleftrightarrow> mc_drift_minutes (rc_module_configuration r) * 60 * 1000000 < now - et_ts s"

definition module_config_overridden :: "reconciliation \<Rightarrow> er_state \<Rightarrow> bool" where
  "module_config_overridden r s \<longleftrightarrow> mc_overridden (rc_module_configuration r) \<and>
     image_version (rc_module_configuration r) \<noteq> image_version (rc_module_configuration (et_reconciliation s))"

definition needs_dry_run_run :: "reconciliation \<Rightarrow> er_state \<Rightarrow> bool" where
  "needs_dry_run_run r s \<longleftrightarrow>
     (rc_action r = Apply \<and> (spec_changed r s \<or> module_config_overridden r s)) \<or>
     (rc_action r = Destroy \<and> \<not> is_in_progress (et_status s))"

definition get_reconcile_action :: "int \<Rightarrow> reconciliation \<Rightarrow> er_state \<Rightarrow> reconcile_action" where
  "get_reconcile_action now r s =
     (case rc_action r of
        Apply \<Rightarrow>
          (case et_status s of
             ReconciliationRequested \<Rightarrow> ApplyUserRequested
           | NotExists \<Rightarrow> ApplyNotExists
           | ErrorStatus \<Rightarrow> ApplyError
           | st \<Rightarrow>
               if st = Created \<or> st = PendingSecretSync then
                 (if spec_changed r s then ApplySpecChanged
                  else if drift_ttl_expired now r s then ApplyDriftDetection
                  else if module_config_overridden r s then ApplyModuleConfigOverridden else Noop)
               else Noop)
      | Destroy \<Rightarrow>
          (case et_status s of Created \<Rightarrow> DestroyCreated | ErrorStatus \<Rightarrow> DestroyError | _ \<Rightarrow> Noop))"

definition needs_reconciliation :: "int \<Rightarrow> reconciliation \<Rightarrow> er_state \<Rightarrow> bool" where
  "needs_reconciliation now r s \<longleftrightarrow> get_reconcile_action now r s \<noteq> Noop"

section \<open>The reconciliations\<close>

definition desired_reconciliation :: "er_env \<Rightarrow> er_key \<times> er_spec \<Rightarrow> er_error + reconciliation option" where
  \<comment> \<open>\<open>None\<close> where the resource is recorded among the errors and left out\<close>
  "desired_reconciliation env = (\<lambda>(k, spec).
     rbind (module_from_spec (fe_modules (en_factory env)) spec) (\<lambda>m.
     rbind (resolve_configuration m spec (fe_settings (en_factory env))) (\<lambda>mc.
       case build_external_resource (en_factory env) spec mc of
         Inl InvalidResource \<Rightarrow> Inr None
       | Inl e \<Rightarrow> Inl e
       | Inr x \<Rightarrow> rbind (find_linked_resources (en_factory env) spec) (\<lambda>linked.
           Inr (Some \<lparr>rc_key = k, rc_resource_hash = fl_hash (fe_lib (en_factory env)) (xr_data x),
                  rc_input = fl_export (fe_lib (en_factory env)) x, rc_action = Apply,
                  rc_module_configuration = mc, rc_linked_resources = Some linked\<rparr>)))))"

definition desired_reconciliations :: "er_env \<Rightarrow> er_error + reconciliation list" where
  "desired_reconciliations env =
     rbind (rmap (desired_reconciliation env) (filter (\<lambda>(_, spec). \<not> es_delete spec) (en_inventory env)))
       (\<lambda>rs. Inr (List.map_filter id rs))"

definition deleted_reconciliations :: "er_env \<Rightarrow> er_rows \<Rightarrow> reconciliation list" where
  "deleted_reconciliations env rows =
     List.map_filter (\<lambda>(k, spec).
       let s = get_state env rows k in
       if \<not> es_delete spec \<or> et_status s = NotExists then None
       else Some \<lparr>rc_key = k, rc_resource_hash = rc_resource_hash (et_reconciliation s),
              rc_input = rc_input (et_reconciliation s), rc_action = Destroy,
              rc_module_configuration = rc_module_configuration (et_reconciliation s), rc_linked_resources = None\<rparr>)
       (en_inventory env)"

definition get_all_reconciliations :: "er_env \<Rightarrow> er_rows \<Rightarrow> er_error + reconciliation list \<times> reconciliation list" where
  "get_all_reconciliations env rows = rbind (desired_reconciliations env) (\<lambda>d. Inr (d, deleted_reconciliations env rows))"

section \<open>Handling one resource\<close>

definition get_reconciliation_status :: "er_env \<Rightarrow> er_world \<Rightarrow> reconciliation \<Rightarrow> er_state \<Rightarrow> reconciliation_status" where
  "get_reconciliation_status env w r s =
     (let unchanged = \<lparr>rt_reconcile_time = 0, rt_status = et_status s\<rparr> in
      if \<not> is_in_progress (et_status s) then unchanged
      else case get_resource_reconcile_status env w (et_reconciliation s) of
        JobSuccess \<Rightarrow>
          \<lparr>rt_reconcile_time = (case get_resource_reconcile_duration env w r of None \<Rightarrow> 0 | Some d \<Rightarrow> d),
           rt_status = (case rc_action r of
              Apply \<Rightarrow> if mc_outputs_secret_sync (rc_module_configuration r) then PendingSecretSync else Created
            | Destroy \<Rightarrow> Deleted)\<rparr>
      | JobError \<Rightarrow> unchanged\<lparr>rt_status := ErrorStatus\<rparr>
      | JobNotExists \<Rightarrow> unchanged\<lparr>rt_status := ErrorStatus\<rparr>
      | JobInProgress \<Rightarrow> unchanged)"

definition request_reconciliation :: "er_env \<Rightarrow> er_rows \<Rightarrow> er_key \<Rightarrow> er_rows" where
  "request_reconciliation env rows k =
     (let s = get_state env rows k in
      if is_in_progress (et_status s) then rows else put_row (s\<lparr>et_status := ReconciliationRequested\<rparr>) rows)"

definition update_resource_state ::
  "er_env \<Rightarrow> reconciliation \<Rightarrow> reconciliation_status \<Rightarrow> er_state \<Rightarrow> er_rows \<Rightarrow> er_state \<times> er_rows" where
  "update_resource_state env r rs s rows =
     (if \<not> needs_state_update s rs then (s, rows)
      else if rt_status rs = Deleted then (s, remove_row (rc_key r) rows)
      else let s' = update_resource_status (en_now env) rs s
           in (s', foldl (request_reconciliation env) (put_row s' rows)
                 (case rc_linked_resources r of None \<Rightarrow> [] | Some ks \<Rightarrow> ks)))"

definition set_in_progress :: "er_env \<Rightarrow> reconciliation \<Rightarrow> er_state \<Rightarrow> er_rows \<Rightarrow> er_rows" where
  "set_in_progress env r s rows =
     put_row (s\<lparr>et_ts := en_now env, et_reconciliation := r,
       et_status := (case rc_action r of Apply \<Rightarrow> InProgress | Destroy \<Rightarrow> DeleteInProgress)\<rparr>) rows"

definition handle_resource ::
  "er_env \<Rightarrow> er_world \<times> er_key list \<Rightarrow> reconciliation \<Rightarrow> er_error + er_world \<times> er_key list" where
  \<comment> \<open>the body of the loop of \<open>handle_resources\<close>, with the keys whose secret is to be synchronised\<close>
  "handle_resource env = (\<lambda>(w, to_sync) r.
     let s = get_state env (ew_rows w) (rc_key r);
         rs = get_reconciliation_status env w r s;
         (s, rows) = update_resource_state env r rs s (ew_rows w);
         w = w\<lparr>ew_rows := rows\<rparr>;
         to_sync = (if needs_secret_sync (rt_status rs) then add_if_absent to_sync (rc_key r) else to_sync)
     in if needs_reconciliation (en_now env) r s
        then rbind (reconcile_resource env w r) (\<lambda>w.
               Inr (w\<lparr>ew_rows := set_in_progress env r s (ew_rows w)\<rparr>, to_sync))
        else Inr (w, to_sync))"

section \<open>The whole run\<close>

definition sync_secrets :: "er_env \<Rightarrow> er_key list \<Rightarrow> er_rows \<Rightarrow> er_rows" where
  "sync_secrets env ks rows =
     (let specs = List.map_filter (dict_get (en_inventory env)) ks;
          failed = map key_from_spec (en_sync_errors env specs)
      in foldl (\<lambda>rows k. if k \<in> set failed then rows else set_row_status k Created rows) rows ks)"

definition pending_keys :: "er_rows \<Rightarrow> er_key list" where
  \<comment> \<open>from the scan of the table when the run starts\<close>
  "pending_keys rows = map et_key (filter (\<lambda>s. et_status s = PendingSecretSync) (dict_values rows))"

definition handle_resources :: "er_env \<Rightarrow> er_world \<Rightarrow> er_error + er_world" where
  "handle_resources env w =
     rbind (desired_reconciliations env) (\<lambda>desired.
     rbind (rfold (handle_resource env) (w, []) (desired @ deleted_reconciliations env (ew_rows w))) (\<lambda>(w', to_sync).
       Inr (w'\<lparr>ew_rows := sync_secrets env (add_all to_sync (pending_keys (ew_rows w))) (ew_rows w')\<rparr>)))"

section \<open>The dry run\<close>

definition check_orphaned_objects :: "er_env \<Rightarrow> er_rows \<Rightarrow> er_error + unit" where
  "check_orphaned_objects env rows =
     (let orphans = filter (\<lambda>k. \<not> dict_has (en_inventory env) k) (map et_key (dict_values rows))
      in guard_err (orphans \<noteq> []) (Orphaned (map state_path orphans)))"

definition output_name_of :: "er_spec \<Rightarrow> string \<times> string \<times> string" where
  "output_name_of spec = (ns_cluster (es_namespace spec), ns_name (es_namespace spec), output_resource_name spec)"

definition check_output_resource_name_duplications :: "er_env \<Rightarrow> er_error + unit" where
  "check_output_resource_name_duplications env =
     (let names = map output_name_of (dict_values (en_inventory env));
          duplicates = filter (\<lambda>n. 1 < count_list names n) (add_all [] names)
      in guard_err (duplicates \<noteq> []) (DuplicatedOutputNames duplicates))"

definition validate_dry_run :: "er_env \<Rightarrow> er_rows \<Rightarrow> er_error + unit" where
  "validate_dry_run env rows =
     rbind (check_orphaned_objects env rows) (\<lambda>_. check_output_resource_name_duplications env)"

definition triggered_reconciliations :: "er_env \<Rightarrow> er_rows \<Rightarrow> er_error + reconciliation list" where
  "triggered_reconciliations env rows =
     rbind (desired_reconciliations env) (\<lambda>desired.
       Inr (filter (\<lambda>r. needs_dry_run_run r (get_state env rows (rc_key r)))
              (desired @ deleted_reconciliations env rows)))"

definition handle_dry_run_resources :: "er_env \<Rightarrow> job_env \<Rightarrow> int \<Rightarrow> er_world \<Rightarrow> (er_error + unit) option" where
  \<comment> \<open>\<open>jobs\<close> says how the jobs change once they are scheduled; \<open>None\<close>: the wait does not end\<close>
  "handle_dry_run_resources env jobs now w =
     (case rbind (validate_dry_run env (ew_rows w)) (\<lambda>_.
           rbind (triggered_reconciliations env (ew_rows w)) (\<lambda>rs.
           rbind (rfold (reconcile_resource env) w rs) (\<lambda>_. Inr rs))) of
        Inl e \<Rightarrow> Some (Inl e)
      | Inr rs \<Rightarrow>
          map_option (\<lambda>(_, statuses).
              guard_err (JobError \<in> set (dict_values statuses)) ReconciliationErrors)
            (wait_for_job_list_completion jobs
               (add_all [] (map (\<lambda>r. job_name (reconciliation_job env (en_dry_run env) r)) rs)) 10 (- 1) now))"

end
