(* ===== verification/Er_Laws.thy ===== *)
theory Er_Laws
  imports Er_Manager
begin

text \<open>
  What a run of the external resources manager does to the states: the table of transitions that handling a
  resource follows, what it leaves alone, and the invariants of the store.
\<close>

named_theorems er_rows_simps \<open>rows of the store after an operation\<close>

section \<open>The store\<close>

definition rows_ok :: "er_rows \<Rightarrow> bool" where
  "rows_ok rows \<longleftrightarrow> wf_dict rows \<and> (\<forall>p s. dict_get rows p = Some s \<longrightarrow> state_path (et_key s) = p)"

definition status_of :: "er_env \<Rightarrow> er_rows \<Rightarrow> er_key \<Rightarrow> er_status" where
  "status_of env rows k = et_status (get_state env rows k)"

lemma row_of_put [er_rows_simps]:
  "row_of (put_row s rows) k = (if state_path k = state_path (et_key s) then Some (stored s) else row_of rows k)"
  by (rule rows.get_put) simp

lemma row_of_remove [er_rows_simps]:
  "row_of (remove_row k' rows) k = (if state_path k = state_path k' then None else row_of rows k)"
  by (rule rows.get_remove)

lemma get_state_key: "rows_ok rows \<Longrightarrow> state_path (et_key (get_state env rows k)) = state_path k"
  by (auto simp: get_state_def rows_ok_def row_of_def not_existing_state_def split: option.splits)

lemma rows_ok_put [intro]: "rows_ok rows \<Longrightarrow> rows_ok (put_row s rows)"
  by (auto simp: rows_ok_def put_row_def dict_simps intro: wf_dict_set)

lemma rows_ok_remove [intro]: "rows_ok rows \<Longrightarrow> rows_ok (remove_row k rows)"
  by (auto simp: rows_ok_def remove_row_def map_of_filter_keys distinct_map_filter split: if_splits)

lemma rows_ok_set_status [intro]: "rows_ok rows \<Longrightarrow> rows_ok (set_row_status k st rows)"
  by (auto simp: rows_ok_def set_row_status_def row_of_def dict_simps intro: wf_dict_set split: option.splits)

lemma status_of_row: "status_of env rows k = (case row_of rows k of None \<Rightarrow> NotExists | Some s \<Rightarrow> et_status s)"
  by (simp add: status_of_def get_state_def not_existing_state_def split: option.splits)

section \<open>Requests for linked resources\<close>

definition requested :: "er_env \<Rightarrow> er_rows \<Rightarrow> er_rows \<Rightarrow> er_key \<Rightarrow> bool" where
  \<comment> \<open>the row is as it was, or it was not in progress and its reconciliation is requested now\<close>
  "requested env rows rows' k \<longleftrightarrow> row_of rows' k = row_of rows k \<or>
     (\<not> is_in_progress (status_of env rows k) \<and> status_of env rows' k = ReconciliationRequested)"

lemma requested_refl [simp]: "requested env rows rows k"
  by (simp add: requested_def)

lemma requested_trans: "requested env rows rows' k \<Longrightarrow> requested env rows' rows'' k \<Longrightarrow> requested env rows rows'' k"
  by (auto simp: requested_def status_of_row er_status_simps)

lemma request_row:
  assumes "rows_ok rows"
  shows "row_of (request_reconciliation env rows k') k =
    (if state_path k = state_path k' \<and> \<not> is_in_progress (status_of env rows k')
     then Some (stored ((get_state env rows k')\<lparr>et_status := ReconciliationRequested\<rparr>)) else row_of rows k)"
  using get_state_key [OF assms, of env k']
  by (simp add: request_reconciliation_def Let_def er_rows_simps status_of_def del: stored_simps)

lemma rows_ok_request [intro]: "rows_ok rows \<Longrightarrow> rows_ok (request_reconciliation env rows k)"
  by (auto simp: request_reconciliation_def Let_def)

lemma status_same_path: "state_path k = state_path k' \<Longrightarrow> status_of env rows k = status_of env rows k'"
  by (simp add: status_of_row row_of_def)

lemma request_requested:
  "rows_ok rows \<Longrightarrow> requested env rows (request_reconciliation env rows k') k"
  using status_same_path [of k k' env rows]
  by (auto simp: requested_def status_of_row [of env "request_reconciliation env rows k'"] request_row split: if_splits)

lemma requests_ok: "rows_ok rows \<Longrightarrow> rows_ok (foldl (request_reconciliation env) rows ks)"
  by (induction ks arbitrary: rows) auto

lemma requests_requested:
  "rows_ok rows \<Longrightarrow> requested env rows (foldl (request_reconciliation env) rows ks) k"
proof (induction ks arbitrary: rows)
  case (Cons k' ks)
  then show ?case
    using requested_trans [OF request_requested [OF Cons.prems, of env k' k] Cons.IH [OF rows_ok_request [OF Cons.prems]]]
    by simp
qed simp

lemma requests_other:
  "rows_ok rows \<Longrightarrow> state_path k \<notin> state_path ` set ks \<Longrightarrow>
     row_of (foldl (request_reconciliation env) rows ks) k = row_of rows k"
  by (induction ks arbitrary: rows) (auto simp: request_row rows_ok_request)

section \<open>Handling a resource\<close>

definition linked_of :: "reconciliation \<Rightarrow> er_key list" where
  "linked_of r = (case rc_linked_resources r of None \<Rightarrow> [] | Some ks \<Rightarrow> ks)"

lemma update_rows_ok: "rows_ok rows \<Longrightarrow> rows_ok (snd (update_resource_state env r rs s rows))"
  by (auto simp: update_resource_state_def Let_def intro: requests_ok)

lemma update_own_row:
  assumes "rows_ok rows" "s = get_state env rows (rc_key r)" "state_path (rc_key r) \<notin> state_path ` set (linked_of r)"
  shows "row_of (snd (update_resource_state env r rs s rows)) (rc_key r) =
    (if \<not> needs_state_update s rs then row_of rows (rc_key r)
     else if rt_status rs = Deleted then None
     else Some (stored (s\<lparr>et_ts := en_now env, et_status := rt_status rs\<rparr>)))"
  using assms get_state_key [OF assms(1), of env "rc_key r"]
  by (simp add: update_resource_state_def Let_def linked_of_def [symmetric] requests_other rows_ok_put er_rows_simps
      update_resource_status_def del: stored_simps)

lemma update_other_row:
  assumes "rows_ok rows" "s = get_state env rows (rc_key r)" "state_path k \<noteq> state_path (rc_key r)"
  shows "requested env rows (snd (update_resource_state env r rs s rows)) k"
proof (cases "needs_state_update s rs \<and> rt_status rs \<noteq> Deleted")
  case True
  let ?rows = "put_row (update_resource_status (en_now env) rs s) rows"
  have "row_of ?rows k = row_of rows k"
    using get_state_key [OF assms(1), of env "rc_key r"] assms(2,3)
    by (simp add: er_rows_simps update_resource_status_def)
  then have "requested env rows ?rows k" by (simp add: requested_def)
  moreover have "requested env ?rows (foldl (request_reconciliation env) ?rows (linked_of r)) k"
    using assms(1) by (intro requests_requested) auto
  ultimately show ?thesis
    using True by (simp add: update_resource_state_def Let_def linked_of_def [symmetric] requested_trans)
next
  case False
  then show ?thesis
    using assms(3) by (auto simp: update_resource_state_def requested_def er_rows_simps)
qed

definition observed_status :: "reconciliation \<Rightarrow> job_status \<Rightarrow> er_status \<Rightarrow> er_status" where
  \<comment> \<open>what the manager makes of the job of a resource that is in progress\<close>
  "observed_status r job st =
     (if \<not> is_in_progress st then st
      else case job of
        JobSuccess \<Rightarrow> (case rc_action r of
            Apply \<Rightarrow> if mc_outputs_secret_sync (rc_module_configuration r) then PendingSecretSync else Created
          | Destroy \<Rightarrow> NotExists)
      | JobInProgress \<Rightarrow> st
      | _ \<Rightarrow> ErrorStatus)"

definition launches :: "reconciliation \<Rightarrow> bool \<Rightarrow> er_status \<Rightarrow> bool" where
  "launches r stale st \<longleftrightarrow>
     (case rc_action r of
        Apply \<Rightarrow> st \<in> {ReconciliationRequested, NotExists, ErrorStatus} \<or> (st \<in> {Created, PendingSecretSync} \<and> stale)
      | Destroy \<Rightarrow> st \<in> {Created, ErrorStatus})"

definition next_status :: "reconciliation \<Rightarrow> bool \<Rightarrow> job_status \<Rightarrow> er_status \<Rightarrow> er_status" where
  \<comment> \<open>the table of transitions: the outcome of the job, then the start of the next one\<close>
  "next_status r stale job st =
     (let st = observed_status r job st in
      if launches r stale st then (case rc_action r of Apply \<Rightarrow> InProgress | Destroy \<Rightarrow> DeleteInProgress) else st)"

definition stale :: "int \<Rightarrow> reconciliation \<Rightarrow> er_state \<Rightarrow> bool" where
  \<comment> \<open>a state whose job has just finished is not too old\<close>
  "stale now r s \<longleftrightarrow> spec_changed r s \<or> module_config_overridden r s \<or>
     (\<not> is_in_progress (et_status s) \<and> drift_ttl_expired now r s)"

lemma needs_reconciliation_iff:
  "needs_reconciliation now r s \<longleftrightarrow>
     launches r (spec_changed r s \<or> module_config_overridden r s \<or> drift_ttl_expired now r s) (et_status s)"
  by (cases "rc_action r"; cases "et_status s")
    (simp_all add: needs_reconciliation_def get_reconcile_action_def launches_def)

lemma reconcile_resource_rows: "reconcile_resource env w r = Inr w' \<Longrightarrow> ew_rows w' = ew_rows w"
  by (auto simp: reconcile_resource_def split: prod.splits sum.splits)

lemma reconcile_resource_launched:
  "reconcile_resource env w r = Inr w' \<Longrightarrow> ew_launched w' = ew_launched w \<or> ew_launched w' = ew_launched w @ [r]"
  by (auto simp: reconcile_resource_def split: prod.splits sum.splits)

lemma handle_resource_cases:
  assumes "handle_resource env (w, ks) r = Inr (w', ks')"
  obtains s rs s' rows where
    "s = get_state env (ew_rows w) (rc_key r)" "rs = get_reconciliation_status env w r s"
    "update_resource_state env r rs s (ew_rows w) = (s', rows)"
    "ks' = (if needs_secret_sync (rt_status rs) then add_if_absent ks (rc_key r) else ks)"
    "\<not> needs_reconciliation (en_now env) r s' \<longrightarrow> w' = w\<lparr>ew_rows := rows\<rparr>"
    "needs_reconciliation (en_now env) r s' \<longrightarrow>
       ew_rows w' = set_in_progress env r s' rows \<and> (ew_launched w' = ew_launched w \<or> ew_launched w' = ew_launched w @ [r])"
proof -
  define s where "s = get_state env (ew_rows w) (rc_key r)"
  define rs where "rs = get_reconciliation_status env w r s"
  obtain s' rows where u: "update_resource_state env r rs s (ew_rows w) = (s', rows)" by force
  have h: "(if needs_reconciliation (en_now env) r s'
       then rbind (reconcile_resource env (w\<lparr>ew_rows := rows\<rparr>) r) (\<lambda>w. Inr (w\<lparr>ew_rows := set_in_progress env r s' (ew_rows w)\<rparr>,
          if needs_secret_sync (rt_status rs) then add_if_absent ks (rc_key r) else ks))
       else Inr (w\<lparr>ew_rows := rows\<rparr>, if needs_secret_sync (rt_status rs) then add_if_absent ks (rc_key r) else ks)) = Inr (w', ks')"
    using assms by (simp add: handle_resource_def Let_def s_def [symmetric] rs_def [symmetric] u cong: if_cong)
  show thesis
  proof (rule that [OF s_def rs_def u])
    show "ks' = (if needs_secret_sync (rt_status rs) then add_if_absent ks (rc_key r) else ks)"
      using h by (auto simp: result_simps split: if_splits)
    show "\<not> needs_reconciliation (en_now env) r s' \<longrightarrow> w' = w\<lparr>ew_rows := rows\<rparr>"
      using h by (auto split: if_splits)
    show "needs_reconciliation (en_now env) r s' \<longrightarrow> ew_rows w' = set_in_progress env r s' rows \<and>
        (ew_launched w' = ew_launched w \<or> ew_launched w' = ew_launched w @ [r])"
    proof
      assume n: "needs_reconciliation (en_now env) r s'"
      with h obtain w1 where "reconcile_resource env (w\<lparr>ew_rows := rows\<rparr>) r = Inr w1"
          "w' = w1\<lparr>ew_rows := set_in_progress env r s' (ew_rows w1)\<rparr>"
        by (auto simp: result_simps)
      with reconcile_resource_rows [OF this(1)] reconcile_resource_launched [OF this(1)]
      show "ew_rows w' = set_in_progress env r s' rows \<and> (ew_launched w' = ew_launched w \<or> ew_launched w' = ew_launched w @ [r])"
        by simp
    qed
  qed
qed

lemma status_observed:
  assumes "s = get_state env (ew_rows w) (rc_key r)"
    "rs = get_reconciliation_status env w r s"
  shows "rt_status rs = (let st = observed_status r (get_resource_reconcile_status env w (et_reconciliation s)) (et_status s)
      in if is_in_progress (et_status s) \<and> st = NotExists then Deleted else st)"
  unfolding assms(2)
  by (auto simp: get_reconciliation_status_def observed_status_def Let_def er_status_simps
      split: job_status.splits er_action.splits)

lemma updated_state:
  assumes "s = get_state env (ew_rows w) (rc_key r)" "rs = get_reconciliation_status env w r s"
    "update_resource_state env r rs s (ew_rows w) = (s', rows)" "rc_action r = Apply \<longrightarrow> 0 \<le> mc_drift_minutes (rc_module_configuration r)"
  shows "needs_reconciliation (en_now env) r s' \<longleftrightarrow>
      launches r (stale (en_now env) r s)
        (observed_status r (get_resource_reconcile_status env w (et_reconciliation s)) (et_status s))"
    "et_key s' = et_key s"
proof -
  let ?o = "observed_status r (get_resource_reconcile_status env w (et_reconciliation s)) (et_status s)"
  have s': "s' = (if needs_state_update s rs \<and> rt_status rs \<noteq> Deleted
      then s\<lparr>et_ts := en_now env, et_status := rt_status rs\<rparr> else s)"
    using assms(3) by (auto simp: update_resource_state_def Let_def update_resource_status_def split: if_splits)
  show "et_key s' = et_key s" by (simp add: s')
  note rs = status_observed [OF assms(1,2)]
  show "needs_reconciliation (en_now env) r s' \<longleftrightarrow> launches r (stale (en_now env) r s) ?o"
  proof (cases "needs_state_update s rs")
    case True
    show ?thesis
    proof (cases "rt_status rs = Deleted")
      case False
      with True have "s' = s\<lparr>et_ts := en_now env, et_status := rt_status rs\<rparr>" by (simp add: s')
      moreover from True False rs have "rt_status rs = ?o" by (simp add: Let_def split: if_splits)
      moreover from True have "is_in_progress (et_status s) \<or> et_status s = NotExists"
        by (simp add: needs_state_update_def does_not_exist_def)
      ultimately show ?thesis
        using assms(4)
        by (cases "rc_action r") (auto simp: needs_reconciliation_iff stale_def spec_changed_def module_config_overridden_def
            drift_ttl_expired_def launches_def observed_status_def er_status_simps split: er_action.splits)
    next
      case del: True
      with rs True have "is_in_progress (et_status s)" "?o = NotExists"
        by (auto simp: needs_state_update_def Let_def observed_status_def er_status_simps split: if_splits job_status.splits er_action.splits)
      moreover from this have "rc_action r = Destroy"
        by (auto simp: observed_status_def er_status_simps split: if_splits job_status.splits er_action.splits)
      ultimately show ?thesis
        using del by (auto simp: s' needs_reconciliation_iff launches_def er_status_simps)
    qed
  next
    case False
    then have same: "s' = s" by (simp add: s')
    have o: "?o = et_status s"
    proof (cases "is_in_progress (et_status s)")
      case True
      with False rs show ?thesis
        by (auto simp: needs_state_update_def Let_def observed_status_def er_status_simps
            split: if_splits job_status.splits er_action.splits)
    qed (simp add: observed_status_def)
    show ?thesis
      unfolding same o needs_reconciliation_iff stale_def launches_def
      by (cases "et_status s"; cases "rc_action r") (auto simp: er_status_simps)
  qed
qed

definition job_of :: "er_env \<Rightarrow> er_world \<Rightarrow> er_key \<Rightarrow> job_status" where
  \<comment> \<open>the status of the job that the state of a resource names\<close>
  "job_of env w k = get_resource_reconcile_status env w (et_reconciliation (get_state env (ew_rows w) k))"

definition own_next :: "er_env \<Rightarrow> er_world \<Rightarrow> reconciliation \<Rightarrow> er_status" where
  "own_next env w r = next_status r (stale (en_now env) r (get_state env (ew_rows w) (rc_key r)))
     (job_of env w (rc_key r)) (status_of env (ew_rows w) (rc_key r))"

definition own_launches :: "er_env \<Rightarrow> er_world \<Rightarrow> reconciliation \<Rightarrow> bool" where
  "own_launches env w r = launches r (stale (en_now env) r (get_state env (ew_rows w) (rc_key r)))
     (observed_status r (job_of env w (rc_key r)) (status_of env (ew_rows w) (rc_key r)))"

lemma row_of_set_in_progress:
  "state_path (et_key s) = state_path (rc_key r) \<Longrightarrow> row_of (set_in_progress env r s rows) k =
     (if state_path k = state_path (rc_key r)
      then Some (stored (s\<lparr>et_ts := en_now env, et_reconciliation := r,
             et_status := (case rc_action r of Apply \<Rightarrow> InProgress | Destroy \<Rightarrow> DeleteInProgress)\<rparr>))
      else row_of rows k)"
  by (simp add: set_in_progress_def er_rows_simps del: stored_simps)

lemma handle_resource_launch:
  assumes ok: "rows_ok (ew_rows w)" and drift: "rc_action r = Apply \<longrightarrow> 0 \<le> mc_drift_minutes (rc_module_configuration r)"
    and run: "handle_resource env (w, ks) r = Inr (w', ks')"
  shows "if own_launches env w r
    then \<exists>s. row_of (ew_rows w') (rc_key r) = Some s \<and> et_reconciliation s = stored_reconciliation (et_key s) r \<and>
           et_status s = (case rc_action r of Apply \<Rightarrow> InProgress | Destroy \<Rightarrow> DeleteInProgress)
    else ew_launched w' = ew_launched w"
proof -
  from run obtain s rs s' rows where s: "s = get_state env (ew_rows w) (rc_key r)"
    and rs: "rs = get_reconciliation_status env w r s"
    and u: "update_resource_state env r rs s (ew_rows w) = (s', rows)"
    and ks: "ks' = (if needs_secret_sync (rt_status rs) then add_if_absent ks (rc_key r) else ks)"
    and quiet: "\<not> needs_reconciliation (en_now env) r s' \<longrightarrow> w' = w\<lparr>ew_rows := rows\<rparr>"
    and start: "needs_reconciliation (en_now env) r s' \<longrightarrow> ew_rows w' = set_in_progress env r s' rows \<and>
        (ew_launched w' = ew_launched w \<or> ew_launched w' = ew_launched w @ [r])"
    by (rule handle_resource_cases)
  have l: "needs_reconciliation (en_now env) r s' \<longleftrightarrow> own_launches env w r"
    by (simp add: updated_state(1) [OF s rs u drift] own_launches_def job_of_def status_of_def s)
  have key: "state_path (et_key s') = state_path (rc_key r)"
    using updated_state(2) [OF s rs u drift] get_state_key [OF ok, of env "rc_key r"] s by simp
  show ?thesis using quiet start l row_of_set_in_progress [OF key, of env rows "rc_key r"] by auto
qed

lemma handle_resource_own_aux:
  assumes ok: "rows_ok (ew_rows w)" and drift: "rc_action r = Apply \<longrightarrow> 0 \<le> mc_drift_minutes (rc_module_configuration r)"
    and own: "state_path (rc_key r) \<notin> state_path ` set (linked_of r)"
    and run: "handle_resource env (w, ks) r = Inr (w', ks')"
  shows "status_of env (ew_rows w') (rc_key r) = own_next env w r \<and>
    (if own_launches env w r
     then \<exists>s. row_of (ew_rows w') (rc_key r) = Some s \<and> et_reconciliation s = stored_reconciliation (et_key s) r
     else ew_launched w' = ew_launched w)"
proof -
  from run obtain s rs s' rows where s: "s = get_state env (ew_rows w) (rc_key r)"
    and rs: "rs = get_reconciliation_status env w r s"
    and u: "update_resource_state env r rs s (ew_rows w) = (s', rows)"
    and ks: "ks' = (if needs_secret_sync (rt_status rs) then add_if_absent ks (rc_key r) else ks)"
    and quiet: "\<not> needs_reconciliation (en_now env) r s' \<longrightarrow> w' = w\<lparr>ew_rows := rows\<rparr>"
    and start: "needs_reconciliation (en_now env) r s' \<longrightarrow> ew_rows w' = set_in_progress env r s' rows \<and>
        (ew_launched w' = ew_launched w \<or> ew_launched w' = ew_launched w @ [r])"
    by (rule handle_resource_cases)
  note launch = updated_state(1) [OF s rs u drift]
  have l: "needs_reconciliation (en_now env) r s' \<longleftrightarrow> own_launches env w r"
    by (simp add: launch own_launches_def job_of_def status_of_def s)
  have key: "state_path (et_key s') = state_path (rc_key r)"
    using updated_state(2) [OF s rs u drift] get_state_key [OF ok, of env "rc_key r"] s by simp
  show ?thesis
  proof (cases "own_launches env w r")
    case True
    with start l have "ew_rows w' = set_in_progress env r s' rows" by simp
    with True row_of_set_in_progress [OF key, of env rows "rc_key r"] show ?thesis
      by (simp add: status_of_row own_next_def next_status_def own_launches_def Let_def)
  next
    case False
    with quiet l have w': "w' = w\<lparr>ew_rows := rows\<rparr>" by simp
    have "row_of rows (rc_key r) = (if \<not> needs_state_update s rs then row_of (ew_rows w) (rc_key r)
       else if rt_status rs = Deleted then None else Some (stored (s\<lparr>et_ts := en_now env, et_status := rt_status rs\<rparr>)))"
      using update_own_row [OF ok s own, of rs] u by simp
    moreover have "own_next env w r = observed_status r (job_of env w (rc_key r)) (et_status s)"
      using False by (simp add: own_next_def next_status_def own_launches_def Let_def status_of_def s)
    moreover have "et_status s = status_of env (ew_rows w) (rc_key r)" by (simp add: status_of_def s)
    ultimately have "status_of env rows (rc_key r) = own_next env w r"
      using status_observed [OF s rs]
      by (auto simp: status_of_row needs_state_update_def job_of_def s [symmetric] Let_def observed_status_def
          er_status_simps split: if_splits job_status.splits er_action.splits)
    with False w' show ?thesis by simp
  qed
qed

lemma removed_row:
  assumes ok: "rows_ok (ew_rows w)" and run: "handle_resource env (w, ks) r = Inr (w', ks')"
    and there: "row_of (ew_rows w) (rc_key r) \<noteq> None" and gone: "row_of (ew_rows w') (rc_key r) = None"
  shows "rc_action r = Destroy \<and> is_in_progress (status_of env (ew_rows w) (rc_key r)) \<and> job_of env w (rc_key r) = JobSuccess"
proof -
  from run obtain s rs s' rows where s: "s = get_state env (ew_rows w) (rc_key r)"
    and rs: "rs = get_reconciliation_status env w r s"
    and u: "update_resource_state env r rs s (ew_rows w) = (s', rows)"
    and ks: "ks' = (if needs_secret_sync (rt_status rs) then add_if_absent ks (rc_key r) else ks)"
    and quiet: "\<not> needs_reconciliation (en_now env) r s' \<longrightarrow> w' = w\<lparr>ew_rows := rows\<rparr>"
    and start: "needs_reconciliation (en_now env) r s' \<longrightarrow> ew_rows w' = set_in_progress env r s' rows \<and>
        (ew_launched w' = ew_launched w \<or> ew_launched w' = ew_launched w @ [r])"
    by (rule handle_resource_cases)
  have "s' = s \<or> s' = update_resource_status (en_now env) rs s"
    using u by (auto simp: update_resource_state_def Let_def split: if_splits)
  then have "state_path (et_key s') = state_path (rc_key r)"
    using get_state_key [OF ok, of env "rc_key r"] s by (auto simp: update_resource_status_def)
  from row_of_set_in_progress [OF this, of env rows "rc_key r"] start gone quiet
  have none: "row_of rows (rc_key r) = None" by (cases "needs_reconciliation (en_now env) r s'") auto
  have put: "row_of (put_row x (ew_rows w)) (rc_key r) \<noteq> None" for x using there by (simp add: er_rows_simps)
  have "requested env (put_row s' (ew_rows w)) (foldl (request_reconciliation env) (put_row s' (ew_rows w)) (linked_of r)) (rc_key r)"
    using ok by (intro requests_requested) auto
  with put [of s'] have "row_of (foldl (request_reconciliation env) (put_row s' (ew_rows w)) (linked_of r)) (rc_key r) \<noteq> None"
    by (auto simp: requested_def status_of_row split: option.splits)
  with none there u have "needs_state_update s rs" "rt_status rs = Deleted"
    by (auto simp: update_resource_state_def Let_def linked_of_def split: if_splits)
  with status_observed [OF s rs] show ?thesis
    by (auto simp: Let_def needs_state_update_def status_of_def job_of_def s [symmetric] observed_status_def er_status_simps
        split: if_splits job_status.splits er_action.splits)
qed

lemma handle_resource_other:
  assumes "rows_ok (ew_rows w)" "handle_resource env (w, ks) r = Inr (w', ks')" "state_path k \<noteq> state_path (rc_key r)"
  shows "requested env (ew_rows w) (ew_rows w') k"
proof -
  from assms(2) obtain s rs s' rows where s: "s = get_state env (ew_rows w) (rc_key r)"
    and rs: "rs = get_reconciliation_status env w r s"
    and u: "update_resource_state env r rs s (ew_rows w) = (s', rows)"
    and ks: "ks' = (if needs_secret_sync (rt_status rs) then add_if_absent ks (rc_key r) else ks)"
    and quiet: "\<not> needs_reconciliation (en_now env) r s' \<longrightarrow> w' = w\<lparr>ew_rows := rows\<rparr>"
    and start: "needs_reconciliation (en_now env) r s' \<longrightarrow> ew_rows w' = set_in_progress env r s' rows \<and>
        (ew_launched w' = ew_launched w \<or> ew_launched w' = ew_launched w @ [r])"
    by (rule handle_resource_cases)
  have "s' = s \<or> s' = update_resource_status (en_now env) rs s"
    using u by (auto simp: update_resource_state_def Let_def split: if_splits)
  then have "et_key s' = et_key s" by (auto simp: update_resource_status_def)
  with get_state_key [OF assms(1), of env "rc_key r"] s
  have key: "state_path (et_key s') = state_path (rc_key r)" by simp
  have "requested env (ew_rows w) rows k" using update_other_row [OF assms(1) s assms(3), of rs] u by simp
  moreover have "row_of (ew_rows w') k = row_of rows k"
    using quiet start row_of_set_in_progress [OF key] assms(3)
    by (cases "needs_reconciliation (en_now env) r s'") simp_all
  ultimately show ?thesis by (auto simp: requested_def status_of_row)
qed

lemma update_untouched:
  assumes "rows_ok rows" "s = get_state env rows (rc_key r)" "state_path k \<noteq> state_path (rc_key r)"
    "state_path k \<notin> state_path ` set (linked_of r)"
  shows "row_of (snd (update_resource_state env r rs s rows)) k = row_of rows k"
  using assms get_state_key [OF assms(1), of env "rc_key r"]
  by (simp add: update_resource_state_def Let_def linked_of_def [symmetric] requests_other rows_ok_put er_rows_simps
      update_resource_status_def)

lemma handle_resource_untouched:
  assumes "rows_ok (ew_rows w)" "handle_resource env (w, ks) r = Inr (w', ks')" "state_path k \<noteq> state_path (rc_key r)"
    "state_path k \<notin> state_path ` set (linked_of r)"
  shows "row_of (ew_rows w') k = row_of (ew_rows w) k"
proof -
  from assms(2) obtain s rs s' rows where s: "s = get_state env (ew_rows w) (rc_key r)"
    and rs: "rs = get_reconciliation_status env w r s"
    and u: "update_resource_state env r rs s (ew_rows w) = (s', rows)"
    and ks: "ks' = (if needs_secret_sync (rt_status rs) then add_if_absent ks (rc_key r) else ks)"
    and quiet: "\<not> needs_reconciliation (en_now env) r s' \<longrightarrow> w' = w\<lparr>ew_rows := rows\<rparr>"
    and start: "needs_reconciliation (en_now env) r s' \<longrightarrow> ew_rows w' = set_in_progress env r s' rows \<and>
        (ew_launched w' = ew_launched w \<or> ew_launched w' = ew_launched w @ [r])"
    by (rule handle_resource_cases)
  have "s' = s \<or> s' = update_resource_status (en_now env) rs s"
    using u by (auto simp: update_resource_state_def Let_def split: if_splits)
  then have "et_key s' = et_key s" by (auto simp: update_resource_status_def)
  with get_state_key [OF assms(1), of env "rc_key r"] s
  have key: "state_path (et_key s') = state_path (rc_key r)" by simp
  have "row_of rows k = row_of (ew_rows w) k" using update_untouched [OF assms(1) s assms(3,4), of rs] u by simp
  then show ?thesis
    using quiet start row_of_set_in_progress [OF key] assms(3)
    by (cases "needs_reconciliation (en_now env) r s'") simp_all
qed

lemma handle_resource_rows_ok:
  assumes "rows_ok (ew_rows w)" "handle_resource env (w, ks) r = Inr (w', ks')"
  shows "rows_ok (ew_rows w')"
proof -
  from assms(2) obtain s rs s' rows where s: "s = get_state env (ew_rows w) (rc_key r)"
    and rs: "rs = get_reconciliation_status env w r s"
    and u: "update_resource_state env r rs s (ew_rows w) = (s', rows)"
    and ks: "ks' = (if needs_secret_sync (rt_status rs) then add_if_absent ks (rc_key r) else ks)"
    and quiet: "\<not> needs_reconciliation (en_now env) r s' \<longrightarrow> w' = w\<lparr>ew_rows := rows\<rparr>"
    and start: "needs_reconciliation (en_now env) r s' \<longrightarrow> ew_rows w' = set_in_progress env r s' rows \<and>
        (ew_launched w' = ew_launched w \<or> ew_launched w' = ew_launched w @ [r])"
    by (rule handle_resource_cases)
  from update_rows_ok [OF assms(1), of env r rs s] u have "rows_ok rows" by simp
  then show ?thesis
    using quiet start by (cases "needs_reconciliation (en_now env) r s'") (auto simp: set_in_progress_def)
qed

lemma handle_resource_launched:
  assumes "handle_resource env (w, ks) r = Inr (w', ks')"
  shows "ew_launched w' = ew_launched w \<or> ew_launched w' = ew_launched w @ [r]"
proof -
  from assms obtain s rs s' rows where s: "s = get_state env (ew_rows w) (rc_key r)"
    and rs: "rs = get_reconciliation_status env w r s"
    and u: "update_resource_state env r rs s (ew_rows w) = (s', rows)"
    and ks: "ks' = (if needs_secret_sync (rt_status rs) then add_if_absent ks (rc_key r) else ks)"
    and quiet: "\<not> needs_reconciliation (en_now env) r s' \<longrightarrow> w' = w\<lparr>ew_rows := rows\<rparr>"
    and start: "needs_reconciliation (en_now env) r s' \<longrightarrow> ew_rows w' = set_in_progress env r s' rows \<and>
        (ew_launched w' = ew_launched w \<or> ew_launched w' = ew_launched w @ [r])"
    by (rule handle_resource_cases)
  then show ?thesis by (cases "needs_reconciliation (en_now env) r s'") simp_all
qed

end
