(* ===== verification/Er_Run_Laws.thy ===== *)
theory Er_Run_Laws
  imports Er_Laws
begin

text \<open>
  Whole runs of the manager: every resource is handled once, on what the job controller saw when the run began,
  and between the handling of two resources a row changes only by a request for its reconciliation.
\<close>

section \<open>The jobs seen during a run\<close>

definition same_jobs :: "er_world \<Rightarrow> er_world \<Rightarrow> bool" where
  "same_jobs w w' \<longleftrightarrow> cached_jobs (ew_jobs w') = cached_jobs (ew_jobs w)"

lemma cache_create: "js_cache (fst (create_job f job s)) = js_cache s"
  by (simp add: create_job_def apply_job_def Let_def split: sum.splits option.splits)

lemma cache_delete: "js_cache s = Some c \<Longrightarrow> js_cache (delete_job n s) = Some c"
  by (simp add: delete_job_def fill_cache_def)

lemma cache_fill: "js_cache (fill_cache s) = Some (cached_jobs s)"
  by (simp add: fill_cache_def cached_jobs_def update_cache_def split: option.splits)

lemma cached_enqueue: "cached_jobs (fst (enqueue_job f job p s)) = cached_jobs s"
proof -
  define t where "t = (if replaces p (get_job_status s (job_name job)) then delete_job (job_name job) (fill_cache s) else fill_cache s)"
  have "js_cache t = Some (cached_jobs s)" by (simp add: t_def cache_fill cache_delete)
  moreover have "fst (enqueue_job f job p s) = t \<or> fst (enqueue_job f job p s) = fst (create_job f job t)"
    by (auto simp: enqueue_job_def Let_def t_def split: prod.splits sum.splits)
  ultimately have "js_cache (fst (enqueue_job f job p s)) = Some (cached_jobs s)" by (auto simp: cache_create)
  then show ?thesis by (simp add: cached_jobs_def)
qed

lemma reconcile_same_jobs:
  assumes "reconcile_resource env w r = Inr w'"
  shows "same_jobs w w'"
proof -
  obtain jobs res where "enqueue_job (en_fresh_uid env) (reconciliation_job env (en_dry_run env) r)
      (reconcile_policy (en_dry_run env)) (ew_jobs w) = (jobs, res)" by force
  with assms cached_enqueue [of "en_fresh_uid env" "reconciliation_job env (en_dry_run env) r"
      "reconcile_policy (en_dry_run env)" "ew_jobs w"]
  show ?thesis by (auto simp: reconcile_resource_def same_jobs_def split: sum.splits)
qed

lemma handle_same_jobs:
  assumes "handle_resource env (w, ks) r = Inr (w', ks')"
  shows "same_jobs w w'"
proof -
  define s where "s = get_state env (ew_rows w) (rc_key r)"
  define rs where "rs = get_reconciliation_status env w r s"
  obtain s' rows where "update_resource_state env r rs s (ew_rows w) = (s', rows)" by force
  with assms reconcile_same_jobs [of env "w\<lparr>ew_rows := rows\<rparr>" r]
  show ?thesis
    by (auto simp: handle_resource_def Let_def s_def [symmetric] rs_def [symmetric] result_simps same_jobs_def split: if_splits)
qed

lemma same_jobs_status: "same_jobs w w' \<Longrightarrow> get_resource_reconcile_status env w' r = get_resource_reconcile_status env w r"
  by (simp add: same_jobs_def get_resource_reconcile_status_def get_job_status_def)

section \<open>Handling a list of reconciliations\<close>

abbreviation handle_all :: "er_env \<Rightarrow> er_world \<times> er_key list \<Rightarrow> reconciliation list \<Rightarrow> er_error + er_world \<times> er_key list" where
  "handle_all env \<equiv> rfold (handle_resource env)"

definition path_of :: "reconciliation \<Rightarrow> string" where
  "path_of r = state_path (rc_key r)"

definition linked_paths :: "reconciliation \<Rightarrow> string set" where
  "linked_paths r = state_path ` set (linked_of r)"

lemma handle_all_frame:
  assumes "handle_all env (w, ks) rs = Inr (w', ks')" "rows_ok (ew_rows w)"
  shows "rows_ok (ew_rows w') \<and> same_jobs w w' \<and> (\<exists>l. ew_launched w' = ew_launched w @ l \<and> set l \<subseteq> set rs) \<and>
    (state_path k \<notin> path_of ` set rs \<longrightarrow> requested env (ew_rows w) (ew_rows w') k) \<and>
    (state_path k \<notin> path_of ` set rs \<union> \<Union> (linked_paths ` set rs) \<longrightarrow> row_of (ew_rows w') k = row_of (ew_rows w) k)"
  using assms
proof (induction rs arbitrary: w ks)
  case Nil
  then show ?case by (auto simp: same_jobs_def)
next
  case (Cons r rs)
  then obtain w1 ks1 where one: "handle_resource env (w, ks) r = Inr (w1, ks1)"
    and rest: "handle_all env (w1, ks1) rs = Inr (w', ks')"
    by (auto simp: result_simps)
  note ok = handle_resource_rows_ok [OF Cons.prems(2) one]
  note ih = Cons.IH [OF rest ok]
  have jobs: "same_jobs w w'" using ih handle_same_jobs [OF one] by (simp add: same_jobs_def)
  from ih obtain l where l: "ew_launched w' = ew_launched w1 @ l" "set l \<subseteq> set rs" by blast
  then have launched: "\<exists>l. ew_launched w' = ew_launched w @ l \<and> set l \<subseteq> set (r # rs)"
    using handle_resource_launched [OF one] by (elim disjE) (auto intro: exI [of _ l] exI [of _ "r # l"])
  have req: "requested env (ew_rows w) (ew_rows w') k" if "state_path k \<notin> path_of ` set (r # rs)"
    using that ih handle_resource_other [OF Cons.prems(2) one, of k]
    by (auto simp: path_of_def intro: requested_trans)
  have "row_of (ew_rows w') k = row_of (ew_rows w) k"
    if "state_path k \<notin> path_of ` set (r # rs) \<union> \<Union> (linked_paths ` set (r # rs))"
    using that ih handle_resource_untouched [OF Cons.prems(2) one, of k] by (auto simp: path_of_def linked_paths_def)
  with ih jobs launched req show ?case by blast
qed

lemma handle_all_split:
  assumes run: "handle_all env (w, ks) rs = Inr (w', ks')" and ok: "rows_ok (ew_rows w)"
    and r: "r \<in> set rs" and dist: "distinct (map path_of rs)"
  obtains w1 ks1 w2 ks2 where "handle_resource env (w1, ks1) r = Inr (w2, ks2)"
    "rows_ok (ew_rows w1)" "rows_ok (ew_rows w2)" "same_jobs w w1"
    "requested env (ew_rows w) (ew_rows w1) (rc_key r)" "requested env (ew_rows w2) (ew_rows w') (rc_key r)"
    "path_of r \<notin> \<Union> (linked_paths ` set rs) \<longrightarrow> row_of (ew_rows w1) (rc_key r) = row_of (ew_rows w) (rc_key r) \<and>
       row_of (ew_rows w') (rc_key r) = row_of (ew_rows w2) (rc_key r)"
    "\<exists>l l'. ew_launched w1 = ew_launched w @ l \<and> ew_launched w' = ew_launched w2 @ l' \<and>
       (\<forall>x \<in> set l \<union> set l'. path_of x \<noteq> path_of r)"
proof -
  from r obtain xs ys where rs: "rs = xs @ r # ys" by (meson split_list)
  with run obtain w1 ks1 w2 ks2 where a: "handle_all env (w, ks) xs = Inr (w1, ks1)"
    and one: "handle_resource env (w1, ks1) r = Inr (w2, ks2)" and b: "handle_all env (w2, ks2) ys = Inr (w', ks')"
    by (auto simp: rfold_append result_simps)
  note fa = handle_all_frame [OF a ok, of "rc_key r"]
  then have ok1: "rows_ok (ew_rows w1)" by blast
  note ok2 = handle_resource_rows_ok [OF ok1 one]
  note fb = handle_all_frame [OF b ok2, of "rc_key r"]
  from dist rs have out: "path_of r \<notin> path_of ` set xs" "path_of r \<notin> path_of ` set ys" by auto
  from fa fb obtain l l' where "ew_launched w1 = ew_launched w @ l" "set l \<subseteq> set xs"
      "ew_launched w' = ew_launched w2 @ l'" "set l' \<subseteq> set ys" by blast
  with out have launched: "\<exists>l l'. ew_launched w1 = ew_launched w @ l \<and> ew_launched w' = ew_launched w2 @ l' \<and>
       (\<forall>x \<in> set l \<union> set l'. path_of x \<noteq> path_of r)"
    by (intro exI [of _ l] exI [of _ l']) (auto simp: subset_eq image_iff; metis)
  show thesis
    by (rule that [OF one ok1 ok2 _ _ _ _ launched]) (use fa fb out rs in \<open>auto simp: path_of_def\<close>)
qed

section \<open>The reconciliations of a run\<close>

definition env_ok :: "er_env \<Rightarrow> bool" where
  "env_ok env \<longleftrightarrow> distinct (map (state_path \<circ> fst) (en_inventory env)) \<and>
     (\<forall>m \<in> set (dict_values (fe_modules (en_factory env))). 0 \<le> md_drift_minutes m)"

lemma resolve_drift: "resolve_configuration m spec settings = Inr mc \<Longrightarrow> mc_drift_minutes mc = md_drift_minutes m"
  by (auto simp: resolve_configuration_def Let_def split: option.splits)

lemma linked_elem:
  assumes "find_linked_resources env spec = Inr linked" "k \<in> set linked"
  shows "\<exists>sp. (k, sp) \<in> set (fe_inventory env) \<and> \<not> es_delete sp"
  using assms by (fastforce simp: find_linked_resources_def rds_find_linked_resources_def msk_find_linked_resources_def
      split: if_splits)

lemma built_cases:
  "(case b of Inl InvalidResource \<Rightarrow> Inr None | Inl e \<Rightarrow> Inl e | Inr x \<Rightarrow> g x) = Inr (Some r) \<longleftrightarrow>
     (\<exists>x. b = Inr x \<and> g x = Inr (Some r))"
proof (cases b)
  case (Inl e)
  then show ?thesis by (cases e) simp_all
qed simp

lemma desired_elem:
  assumes "env_ok env" "desired_reconciliation env (k, spec) = Inr (Some r)"
  shows "rc_key r = k \<and> rc_action r = Apply \<and> 0 \<le> mc_drift_minutes (rc_module_configuration r) \<and>
    (\<forall>k' \<in> set (linked_of r). \<exists>sp. (k', sp) \<in> set (en_inventory env) \<and> \<not> es_delete sp)"
proof -
  from assms(2) obtain m mc x linked where m: "module_from_spec (fe_modules (en_factory env)) spec = Inr m"
    and mc: "resolve_configuration m spec (fe_settings (en_factory env)) = Inr mc"
    and linked: "find_linked_resources (en_factory env) spec = Inr linked"
    and r: "r = \<lparr>rc_key = k, rc_resource_hash = fl_hash (fe_lib (en_factory env)) (xr_data x),
                  rc_input = fl_export (fe_lib (en_factory env)) x, rc_action = Apply,
                  rc_module_configuration = mc, rc_linked_resources = Some linked\<rparr>"
    by (auto simp: desired_reconciliation_def result_simps built_cases)
  from m have "m \<in> set (dict_values (fe_modules (en_factory env)))"
    by (auto simp: module_from_spec_def result_simps dest!: map_of_SomeD intro: rev_image_eqI)
  with assms(1) resolve_drift [OF mc] have "0 \<le> mc_drift_minutes mc" by (auto simp: env_ok_def)
  with r linked_elem [OF linked] show ?thesis by (simp add: linked_of_def)
qed

lemma rmap_filter_paths:
  assumes "rmap f xs = Inr ys" "\<And>x r. x \<in> set xs \<Longrightarrow> f x = Inr (Some r) \<Longrightarrow> g r = h x" "distinct (map h xs)"
  shows "distinct (map g (List.map_filter (\<lambda>x. x) ys)) \<and> g ` set (List.map_filter (\<lambda>x. x) ys) \<subseteq> h ` set xs \<and>
    (\<forall>r \<in> set (List.map_filter (\<lambda>x. x) ys). \<exists>x \<in> set xs. f x = Inr (Some r))"
  using assms
proof (induction xs arbitrary: ys)
  case (Cons x xs)
  then obtain y zs where y: "f x = Inr y" "rmap f xs = Inr zs" "ys = y # zs" by (auto simp: result_simps)
  have "distinct (map g (List.map_filter (\<lambda>x. x) zs)) \<and> g ` set (List.map_filter (\<lambda>x. x) zs) \<subseteq> h ` set xs \<and>
      (\<forall>r \<in> set (List.map_filter (\<lambda>x. x) zs). \<exists>x \<in> set xs. f x = Inr (Some r))"
    using Cons.prems by (intro Cons.IH [OF y(2)]) auto
  moreover have "g r = h x" if "y = Some r" for r using Cons.prems(2) [of x r] y(1) that by simp
  ultimately show ?case
    using y Cons.prems(3) by (cases y) auto
qed (simp add: List.map_filter_def)

lemma desired_elems:
  assumes "env_ok env" "desired_reconciliations env = Inr ds"
  shows "distinct (map path_of ds) \<and> (\<forall>r \<in> set ds. \<exists>spec. (rc_key r, spec) \<in> set (en_inventory env) \<and> \<not> es_delete spec \<and>
      desired_reconciliation env (rc_key r, spec) = Inr (Some r))"
proof -
  let ?xs = "filter (\<lambda>(_, spec). \<not> es_delete spec) (en_inventory env)"
  from assms(2) obtain ys where ys: "rmap (desired_reconciliation env) ?xs = Inr ys" "ds = List.map_filter (\<lambda>x. x) ys"
    by (auto simp: desired_reconciliations_def result_simps id_def)
  have "distinct (map (state_path \<circ> fst) ?xs)"
    using assms(1) by (auto simp: env_ok_def intro: distinct_map_filter)
  with rmap_filter_paths [OF ys(1), of path_of "state_path \<circ> fst"] desired_elem [OF assms(1)]
  have *: "distinct (map path_of ds) \<and> (\<forall>r \<in> set ds. \<exists>x \<in> set ?xs. desired_reconciliation env x = Inr (Some r))"
    by (auto simp: ys(2) path_of_def)
  have "\<exists>spec. (rc_key r, spec) \<in> set (en_inventory env) \<and> \<not> es_delete spec \<and>
      desired_reconciliation env (rc_key r, spec) = Inr (Some r)" if r: "r \<in> set ds" for r
  proof -
    from * r obtain k spec where "(k, spec) \<in> set (en_inventory env)" "\<not> es_delete spec"
        "desired_reconciliation env (k, spec) = Inr (Some r)" by auto
    with desired_elem [OF assms(1) this(3)] show ?thesis by auto
  qed
  with * show ?thesis by blast
qed

lemma map_filter_keys:
  assumes "\<And>x r. f x = Some r \<Longrightarrow> g r = h x" "distinct (map h xs)"
  shows "distinct (map g (List.map_filter f xs)) \<and> g ` set (List.map_filter f xs) \<subseteq> h ` set xs"
  using assms(2)
proof (induction xs)
  case (Cons x xs)
  then show ?case using assms(1) [of x] by (cases "f x") auto
qed (simp add: List.map_filter_def)

lemma deleted_elems:
  assumes "env_ok env"
  shows "distinct (map path_of (deleted_reconciliations env rows)) \<and>
    (\<forall>r \<in> set (deleted_reconciliations env rows). \<exists>spec. (rc_key r, spec) \<in> set (en_inventory env) \<and> es_delete spec \<and>
      rc_action r = Destroy \<and> linked_of r = [] \<and> status_of env rows (rc_key r) \<noteq> NotExists \<and>
      rc_module_configuration r = rc_module_configuration (et_reconciliation (get_state env rows (rc_key r))))"
proof -
  define f where "f = (\<lambda>(k, spec :: er_spec). let s = get_state env rows k in
       if \<not> es_delete spec \<or> et_status s = NotExists then None
       else Some \<lparr>rc_key = k, rc_resource_hash = rc_resource_hash (et_reconciliation s),
              rc_input = rc_input (et_reconciliation s), rc_action = Destroy,
              rc_module_configuration = rc_module_configuration (et_reconciliation s), rc_linked_resources = None\<rparr>)"
  have key: "rc_key r = fst x" if "f x = Some r" for x r
    using that by (auto simp: f_def Let_def split: prod.splits if_splits)
  have "distinct (map path_of (List.map_filter f (en_inventory env)))"
    using map_filter_keys [of f path_of "state_path \<circ> fst" "en_inventory env"] key assms
    by (simp add: path_of_def env_ok_def)
  moreover have "deleted_reconciliations env rows = List.map_filter f (en_inventory env)"
    by (simp add: deleted_reconciliations_def f_def)
  moreover have "\<exists>spec. (rc_key r, spec) \<in> set (en_inventory env) \<and> es_delete spec \<and> rc_action r = Destroy \<and>
      linked_of r = [] \<and> status_of env rows (rc_key r) \<noteq> NotExists \<and>
      rc_module_configuration r = rc_module_configuration (et_reconciliation (get_state env rows (rc_key r)))"
    if r: "r \<in> set (List.map_filter f (en_inventory env))" for r
  proof -
    from r have "\<exists>x \<in> set (en_inventory env). f x = Some r" by (auto simp: List.map_filter_def)
    then obtain k spec where x: "(k, spec) \<in> set (en_inventory env)" "f (k, spec) = Some r" by auto
    then have "es_delete spec" "et_status (get_state env rows k) \<noteq> NotExists"
      by (auto simp: f_def Let_def split: if_splits)
    moreover from this x(2) have "r = \<lparr>rc_key = k, rc_resource_hash = rc_resource_hash (et_reconciliation (get_state env rows k)),
        rc_input = rc_input (et_reconciliation (get_state env rows k)), rc_action = Destroy,
        rc_module_configuration = rc_module_configuration (et_reconciliation (get_state env rows k)), rc_linked_resources = None\<rparr>"
      by (simp add: f_def Let_def)
    ultimately show ?thesis using x(1) by (auto simp: linked_of_def status_of_def)
  qed
  ultimately show ?thesis by simp
qed

lemma path_inj:
  assumes "env_ok env" "(k, sp) \<in> set (en_inventory env)" "(k', sp') \<in> set (en_inventory env)" "state_path k = state_path k'"
  shows "k = k' \<and> sp = sp'"
proof -
  have "inj_on (state_path \<circ> fst) (set (en_inventory env))" using assms(1) by (simp add: env_ok_def distinct_map)
  from inj_onD [OF this _ assms(2,3)] assms(4) show ?thesis by simp
qed

section \<open>The secrets\<close>

definition sync_failed :: "er_env \<Rightarrow> er_key list \<Rightarrow> er_key \<Rightarrow> bool" where
  "sync_failed env ks k \<longleftrightarrow>
     k \<in> key_from_spec ` set (en_sync_errors env (List.map_filter (dict_get (en_inventory env)) ks))"

lemma row_of_set_status:
  "row_of (set_row_status k' st rows) k =
     (if state_path k = state_path k' then map_option (et_status_update (\<lambda>_. st)) (row_of rows k) else row_of rows k)"
  by (auto simp: set_row_status_def row_of_def dict_simps split: option.splits)

lemma created_again:
  "map_option (et_status_update (\<lambda>_. Created)) (map_option (et_status_update (\<lambda>_. Created)) x) =
     map_option (et_status_update (\<lambda>_. Created)) x"
  by (cases x) simp_all

lemma row_of_sync:
  "row_of (sync_secrets env ks rows) k =
     (if \<exists>k' \<in> set ks. \<not> sync_failed env ks k' \<and> state_path k' = state_path k
      then map_option (et_status_update (\<lambda>_. Created)) (row_of rows k) else row_of rows k)"
proof -
  have "row_of (foldl (\<lambda>rows k. if F k then rows else set_row_status k Created rows) rows xs) k =
      (if \<exists>k' \<in> set xs. \<not> F k' \<and> state_path k' = state_path k
       then map_option (et_status_update (\<lambda>_. Created)) (row_of rows k) else row_of rows k)" for xs F
    by (induction xs arbitrary: rows) (auto simp: row_of_set_status created_again)
  from this [of "\<lambda>k. sync_failed env ks k" ks] show ?thesis
    by (simp add: sync_secrets_def Let_def sync_failed_def)
qed

lemma rows_ok_sync: "rows_ok rows \<Longrightarrow> rows_ok (sync_secrets env ks rows)"
proof -
  have "rows_ok rows \<Longrightarrow> rows_ok (foldl (\<lambda>rows k. if F k then rows else set_row_status k Created rows) rows xs)" for xs F
    by (induction xs arbitrary: rows) auto
  then show "rows_ok rows \<Longrightarrow> rows_ok (sync_secrets env ks rows)" by (simp add: sync_secrets_def Let_def)
qed

lemma pending_status:
  assumes "rows_ok rows" "k \<in> set (pending_keys rows)"
  shows "status_of env rows k = PendingSecretSync"
proof -
  from assms(2) obtain p s where s: "(p, s) \<in> set rows" "et_status s = PendingSecretSync" "k = et_key s"
    by (auto simp: pending_keys_def)
  with assms(1) have "dict_get rows p = Some s" "state_path (et_key s) = p" by (simp_all add: rows_ok_def)
  with s show ?thesis by (simp add: status_of_row row_of_def)
qed

lemma to_sync_elem:
  assumes "handle_all env (w, ks) rs = Inr (w', ks')" "rows_ok (ew_rows w)" "distinct (map path_of rs)" "k \<in> set ks'" "k \<notin> set ks"
  shows "\<exists>r \<in> set rs. rc_key r = k \<and> (status_of env (ew_rows w) k = PendingSecretSync \<or>
    is_in_progress (status_of env (ew_rows w) k) \<and>
    observed_status r (job_of env w k) (status_of env (ew_rows w) k) = PendingSecretSync)"
  using assms
proof (induction rs arbitrary: w' ks' rule: rev_induct)
  case (snoc r rs)
  then obtain w1 ks1 where a: "handle_all env (w, ks) rs = Inr (w1, ks1)"
    and one: "handle_resource env (w1, ks1) r = Inr (w', ks')"
    by (auto simp: rfold_append result_simps)
  show ?case
  proof (cases "k \<in> set ks1")
    case True
    then show ?thesis using snoc.IH [OF a] snoc.prems by auto
  next
    case False
    from one obtain s rs' s' rows where s: "s = get_state env (ew_rows w1) (rc_key r)"
      and rs': "rs' = get_reconciliation_status env w1 r s"
      and u: "update_resource_state env r rs' s (ew_rows w1) = (s', rows)"
      and ks': "ks' = (if needs_secret_sync (rt_status rs') then add_if_absent ks1 (rc_key r) else ks1)"
      and quiet: "\<not> needs_reconciliation (en_now env) r s' \<longrightarrow> w' = w1\<lparr>ew_rows := rows\<rparr>"
      and start: "needs_reconciliation (en_now env) r s' \<longrightarrow> ew_rows w' = set_in_progress env r s' rows \<and>
        (ew_launched w' = ew_launched w1 \<or> ew_launched w' = ew_launched w1 @ [r])"
      by (rule handle_resource_cases)
    from False snoc.prems(4) ks' have k: "rc_key r = k" and pend: "rt_status rs' = PendingSecretSync"
      by (auto simp: add_if_absent_def needs_secret_sync_def split: if_splits)
    have "path_of r \<notin> path_of ` set rs" using snoc.prems(3) by simp
    with handle_all_frame [OF a snoc.prems(2), of k] k
    have req: "requested env (ew_rows w) (ew_rows w1) k" and jobs: "same_jobs w w1" by (auto simp: path_of_def)
    have st: "et_status s = status_of env (ew_rows w1) k" by (simp add: s status_of_def k)
    have "status_of env (ew_rows w) k = PendingSecretSync \<or> (is_in_progress (status_of env (ew_rows w) k) \<and>
        observed_status r (job_of env w k) (status_of env (ew_rows w) k) = PendingSecretSync)"
    proof (cases "is_in_progress (et_status s)")
      case True
      with req st have same: "row_of (ew_rows w1) k = row_of (ew_rows w) k" by (auto simp: requested_def er_status_simps)
      then have "get_state env (ew_rows w1) k = get_state env (ew_rows w) k" by (simp add: get_state_def)
      with status_observed [OF s rs'] pend True k jobs same show ?thesis
        by (auto simp: Let_def job_of_def s status_of_def same_jobs_status split: if_splits)
    next
      case False
      with status_observed [OF s rs'] pend have "et_status s = PendingSecretSync"
        by (simp add: observed_status_def Let_def)
      with req st show ?thesis by (auto simp: requested_def status_of_row)
    qed
    with k show ?thesis by auto
  qed
qed simp

section \<open>Runs\<close>

lemma run_cases:
  assumes env: "env_ok env" and ok: "rows_ok (ew_rows w)" and run: "handle_resources env w = Inr w'"
  obtains ds rs w1 ks where "desired_reconciliations env = Inr ds" "rs = ds @ deleted_reconciliations env (ew_rows w)"
    "handle_all env (w, []) rs = Inr (w1, ks)" "distinct (map path_of rs)"
    "w' = w1\<lparr>ew_rows := sync_secrets env (add_all ks (pending_keys (ew_rows w))) (ew_rows w1)\<rparr>"
proof -
  from run obtain ds w1 ks where ds: "desired_reconciliations env = Inr ds"
    and all: "handle_all env (w, []) (ds @ deleted_reconciliations env (ew_rows w)) = Inr (w1, ks)"
    and w': "w' = w1\<lparr>ew_rows := sync_secrets env (add_all ks (pending_keys (ew_rows w))) (ew_rows w1)\<rparr>"
    by (auto simp: handle_resources_def result_simps)
  have "path_of ` set ds \<inter> path_of ` set (deleted_reconciliations env (ew_rows w)) = {}"
  proof (rule ccontr)
    assume "\<not> ?thesis"
    then obtain r r' where r: "r \<in> set ds" "r' \<in> set (deleted_reconciliations env (ew_rows w))" "path_of r = path_of r'"
      by auto
    with desired_elems [OF env ds] deleted_elems [OF env, of "ew_rows w"] obtain sp sp' where
      "(rc_key r, sp) \<in> set (en_inventory env)" "\<not> es_delete sp" "(rc_key r', sp') \<in> set (en_inventory env)" "es_delete sp'"
      by metis
    with path_inj [OF env this(1,3)] r(3) show False by (simp add: path_of_def)
  qed
  with desired_elems [OF env ds] deleted_elems [OF env, of "ew_rows w"]
  have "distinct (map path_of (ds @ deleted_reconciliations env (ew_rows w)))" by simp
  with that ds all w' show thesis by blast
qed

lemma run_elem:
  assumes "env_ok env" "desired_reconciliations env = Inr ds" "r \<in> set (ds @ deleted_reconciliations env rows)"
  shows "(\<exists>spec. (rc_key r, spec) \<in> set (en_inventory env) \<and> (rc_action r = Destroy \<longleftrightarrow> es_delete spec)) \<and>
    (rc_action r = Apply \<longrightarrow> 0 \<le> mc_drift_minutes (rc_module_configuration r)) \<and>
    (\<forall>k \<in> set (linked_of r). \<exists>sp. (k, sp) \<in> set (en_inventory env) \<and> \<not> es_delete sp)"
proof (cases "r \<in> set ds")
  case True
  then obtain spec where "(rc_key r, spec) \<in> set (en_inventory env)" "\<not> es_delete spec"
      "desired_reconciliation env (rc_key r, spec) = Inr (Some r)"
    using desired_elems [OF assms(1,2)] by blast
  with desired_elem [OF assms(1) this(3)] show ?thesis by auto
next
  case False
  with assms(3) deleted_elems [OF assms(1), of rows] obtain spec where "(rc_key r, spec) \<in> set (en_inventory env)"
      "es_delete spec" "rc_action r = Destroy" "linked_of r = []" by auto
  then show ?thesis by auto
qed

lemma own_same:
  assumes "same_jobs w w1" "row_of (ew_rows w1) (rc_key r) = row_of (ew_rows w) (rc_key r)"
  shows "own_next env w1 r = own_next env w r" "own_launches env w1 r = own_launches env w r"
  using assms by (simp_all add: own_next_def own_launches_def job_of_def status_of_def get_state_def same_jobs_status)

end
