(* ===== verification/Er_Theorems.thy ===== *)
theory Er_Theorems
  imports Er_Run_Laws
begin

text \<open>
  The properties of the external resources manager: which jobs a run starts, what it records of them, when the
  state of a resource is removed, and what becomes of resources that are marked for deletion at the wrong moment.
\<close>

section \<open>What a run does to one resource\<close>

lemma marked_not_linked:
  assumes "env_ok env" "desired_reconciliations env = Inr ds" "(k, spec) \<in> set (en_inventory env)" "es_delete spec"
    "r \<in> set (ds @ deleted_reconciliations env rows)"
  shows "state_path k \<notin> linked_paths r"
proof
  assume "state_path k \<in> linked_paths r"
  then obtain k' where k': "k' \<in> set (linked_of r)" "state_path k = state_path k'" by (auto simp: linked_paths_def)
  with run_elem [OF assms(1,2,5)] obtain sp where "(k', sp) \<in> set (en_inventory env)" "\<not> es_delete sp" by blast
  with path_inj [OF assms(1,3) this(1) k'(2)] assms(4) show False by simp
qed

definition may_sync :: "er_env \<Rightarrow> er_world \<Rightarrow> reconciliation \<Rightarrow> bool" where
  \<comment> \<open>the secret of the resource is due in this run\<close>
  "may_sync env w r \<longleftrightarrow> status_of env (ew_rows w) (rc_key r) = PendingSecretSync \<or>
    is_in_progress (status_of env (ew_rows w) (rc_key r)) \<and>
    observed_status r (job_of env w (rc_key r)) (status_of env (ew_rows w) (rc_key r)) = PendingSecretSync"

lemma sync_elem:
  assumes "handle_all env (w, []) rs = Inr (w1, ks)" "rows_ok (ew_rows w)" "distinct (map path_of rs)"
    "k' \<in> set (add_all ks (pending_keys (ew_rows w)))" "r \<in> set rs" "state_path k' = path_of r"
  shows "may_sync env w r"
proof (cases "k' \<in> set (pending_keys (ew_rows w))")
  case True
  with pending_status [OF assms(2), of k' env] status_same_path [of k' "rc_key r" env "ew_rows w"] assms(6) show ?thesis
    by (simp add: path_of_def may_sync_def)
next
  case False
  with assms(4) have "k' \<in> set ks" by simp
  from to_sync_elem [OF assms(1-3) this] obtain r' where r': "r' \<in> set rs" "rc_key r' = k'"
    "status_of env (ew_rows w) k' = PendingSecretSync \<or> (is_in_progress (status_of env (ew_rows w) k') \<and>
       observed_status r' (job_of env w k') (status_of env (ew_rows w) k') = PendingSecretSync)" by auto
  from assms(3,5,6) r' have "r' = r" by (auto simp: path_of_def distinct_map inj_on_def)
  with r' show ?thesis by (auto simp: may_sync_def)
qed

lemma run_own:
  assumes env: "env_ok env" and ok: "rows_ok (ew_rows w)" and run: "handle_resources env w = Inr w'"
    and ds: "desired_reconciliations env = Inr ds" and r: "r \<in> set (ds @ deleted_reconciliations env (ew_rows w))"
  shows "\<exists>w1 ks1 w2 ks2 rows new. handle_resource env (w1, ks1) r = Inr (w2, ks2) \<and> rows_ok (ew_rows w1) \<and>
    same_jobs w w1 \<and> requested env (ew_rows w) (ew_rows w1) (rc_key r) \<and> requested env (ew_rows w2) rows (rc_key r) \<and>
    (row_of (ew_rows w') (rc_key r) = row_of rows (rc_key r) \<or>
      may_sync env w r \<and> row_of (ew_rows w') (rc_key r) = map_option (et_status_update (\<lambda>_. Created)) (row_of rows (rc_key r))) \<and>
    (path_of r \<notin> \<Union> (linked_paths ` set (ds @ deleted_reconciliations env (ew_rows w))) \<longrightarrow>
      row_of (ew_rows w1) (rc_key r) = row_of (ew_rows w) (rc_key r) \<and> row_of rows (rc_key r) = row_of (ew_rows w2) (rc_key r)) \<and>
    ew_launched w' = ew_launched w @ new \<and> (r \<in> set new \<longrightarrow> ew_launched w2 = ew_launched w1 @ [r]) \<and>
    set new \<subseteq> set (ds @ deleted_reconciliations env (ew_rows w))"
proof -
  let ?rs = "ds @ deleted_reconciliations env (ew_rows w)"
  from run_cases [OF env ok run] ds obtain w3 ks where all: "handle_all env (w, []) ?rs = Inr (w3, ks)"
    and dist: "distinct (map path_of ?rs)"
    and w': "w' = w3\<lparr>ew_rows := sync_secrets env (add_all ks (pending_keys (ew_rows w))) (ew_rows w3)\<rparr>"
    by (metis Inr_inject)
  obtain w1 ks1 w2 ks2 where one: "handle_resource env (w1, ks1) r = Inr (w2, ks2)"
    and ok12: "rows_ok (ew_rows w1)" "rows_ok (ew_rows w2)" and jobs: "same_jobs w w1"
    and req: "requested env (ew_rows w) (ew_rows w1) (rc_key r)" "requested env (ew_rows w2) (ew_rows w3) (rc_key r)"
    and unl: "path_of r \<notin> \<Union> (linked_paths ` set ?rs) \<longrightarrow> row_of (ew_rows w1) (rc_key r) = row_of (ew_rows w) (rc_key r) \<and>
       row_of (ew_rows w3) (rc_key r) = row_of (ew_rows w2) (rc_key r)"
    and launched: "\<exists>l l'. ew_launched w1 = ew_launched w @ l \<and> ew_launched w3 = ew_launched w2 @ l' \<and>
       (\<forall>x \<in> set l \<union> set l'. path_of x \<noteq> path_of r)"
    by (rule handle_all_split [OF all ok r dist])
  from launched obtain l l' where l: "ew_launched w1 = ew_launched w @ l" "ew_launched w3 = ew_launched w2 @ l'"
      "\<forall>x \<in> set l \<union> set l'. path_of x \<noteq> path_of r" by blast
  from handle_all_frame [OF all ok] obtain new where new: "ew_launched w3 = ew_launched w @ new" "set new \<subseteq> set ?rs" by blast
  have own: "ew_launched w2 = ew_launched w1 @ [r]" if "r \<in> set new"
  proof (rule ccontr)
    assume "ew_launched w2 \<noteq> ew_launched w1 @ [r]"
    with handle_resource_launched [OF one] new(1) l have "new = l @ l'" by auto
    with that l(3) show False by auto
  qed
  have sync: "row_of (ew_rows w') (rc_key r) = row_of (ew_rows w3) (rc_key r) \<or> may_sync env w r \<and>
      row_of (ew_rows w') (rc_key r) = map_option (et_status_update (\<lambda>_. Created)) (row_of (ew_rows w3) (rc_key r))"
    using sync_elem [OF all ok dist _ r] by (auto simp: w' row_of_sync path_of_def)
  show ?thesis
    by (rule exI [of _ w1], rule exI [of _ ks1], rule exI [of _ w2], rule exI [of _ ks2], rule exI [of _ "ew_rows w3"],
        rule exI [of _ new])
      (use one ok12 jobs req unl own sync new w' in auto)
qed

lemma env_same_jobs: "same_jobs w w1 \<Longrightarrow> row_of (ew_rows w1) k = row_of (ew_rows w) k \<Longrightarrow> job_of env w1 k = job_of env w k"
  by (simp add: job_of_def get_state_def same_jobs_status)

lemma run_rows_ok:
  assumes "env_ok env" "rows_ok (ew_rows w)" "handle_resources env w = Inr w'"
  shows "rows_ok (ew_rows w')"
proof -
  from run_cases [OF assms] obtain rs w3 ks where all: "handle_all env (w, []) rs = Inr (w3, ks)"
    and w': "w' = w3\<lparr>ew_rows := sync_secrets env (add_all ks (pending_keys (ew_rows w))) (ew_rows w3)\<rparr>" by metis
  from handle_all_frame [OF all assms(2)] w' show ?thesis by (simp add: rows_ok_sync)
qed

lemma quiet_handle:
  assumes "handle_resource env (w, ks) r = Inr (w', ks')"
    "\<not> is_in_progress (status_of env (ew_rows w) (rc_key r))" "status_of env (ew_rows w) (rc_key r) \<noteq> NotExists"
    "\<not> own_launches env w r" "rc_action r = Apply \<longrightarrow> 0 \<le> mc_drift_minutes (rc_module_configuration r)"
  shows "w' = w"
proof -
  from assms(1) obtain s rs s' rows where s: "s = get_state env (ew_rows w) (rc_key r)"
    and rs: "rs = get_reconciliation_status env w r s"
    and u: "update_resource_state env r rs s (ew_rows w) = (s', rows)"
    and ks: "ks' = (if needs_secret_sync (rt_status rs) then add_if_absent ks (rc_key r) else ks)"
    and quiet: "\<not> needs_reconciliation (en_now env) r s' \<longrightarrow> w' = w\<lparr>ew_rows := rows\<rparr>"
    and start: "needs_reconciliation (en_now env) r s' \<longrightarrow> ew_rows w' = set_in_progress env r s' rows \<and>
        (ew_launched w' = ew_launched w \<or> ew_launched w' = ew_launched w @ [r])"
    by (rule handle_resource_cases)
  have "\<not> needs_reconciliation (en_now env) r s'"
    using assms(4) by (simp add: updated_state(1) [OF s rs u assms(5)] own_launches_def job_of_def status_of_def s)
  moreover have "rows = ew_rows w"
    using u assms(2,3) by (simp add: update_resource_state_def needs_state_update_def does_not_exist_def s status_of_def)
  ultimately show ?thesis using quiet by simp
qed

lemma in_progress_same:
  "requested env rows rows' k \<Longrightarrow> is_in_progress (status_of env rows k) \<Longrightarrow> row_of rows' k = row_of rows k"
  by (auto simp: requested_def)

lemma launches_are_justified_aux:
  assumes env: "env_ok env" and ok: "rows_ok (ew_rows w)" and run: "handle_resources env w = Inr w'"
  shows "\<exists>new. ew_launched w' = ew_launched w @ new \<and> (\<forall>r \<in> set new.
    (\<exists>spec. (rc_key r, spec) \<in> set (en_inventory env) \<and> (rc_action r = Destroy \<longleftrightarrow> es_delete spec)) \<and>
    \<not> (is_in_progress (status_of env (ew_rows w) (rc_key r)) \<and> job_of env w (rc_key r) = JobInProgress) \<and>
    (rc_action r = Destroy \<longrightarrow> status_of env (ew_rows w) (rc_key r) \<in> {Created, ErrorStatus} \<or>
       (is_in_progress (status_of env (ew_rows w) (rc_key r)) \<and> job_of env w (rc_key r) \<in> {JobError, JobNotExists})))"
proof -
  from run_cases [OF env ok run] obtain ds w3 ks where ds: "desired_reconciliations env = Inr ds"
    and all: "handle_all env (w, []) (ds @ deleted_reconciliations env (ew_rows w)) = Inr (w3, ks)"
    and w': "w' = w3\<lparr>ew_rows := sync_secrets env (add_all ks (pending_keys (ew_rows w))) (ew_rows w3)\<rparr>"
    by metis
  from handle_all_frame [OF all ok] w' obtain new where new: "ew_launched w' = ew_launched w @ new"
      "set new \<subseteq> set (ds @ deleted_reconciliations env (ew_rows w))" by auto
  have "\<not> (is_in_progress (status_of env (ew_rows w) (rc_key r)) \<and> job_of env w (rc_key r) = JobInProgress) \<and>
    (rc_action r = Destroy \<longrightarrow> status_of env (ew_rows w) (rc_key r) \<in> {Created, ErrorStatus} \<or>
       (is_in_progress (status_of env (ew_rows w) (rc_key r)) \<and> job_of env w (rc_key r) \<in> {JobError, JobNotExists}))"
    if "r \<in> set new" for r
  proof -
    from that new(2) have r: "r \<in> set (ds @ deleted_reconciliations env (ew_rows w))" by auto
    from run_own [OF env ok run ds r] new(1) that obtain w1 ks1 w2 ks2 where
      one: "handle_resource env (w1, ks1) r = Inr (w2, ks2)" and ok1: "rows_ok (ew_rows w1)" and jobs: "same_jobs w w1"
      and req: "requested env (ew_rows w) (ew_rows w1) (rc_key r)" and l: "ew_launched w2 = ew_launched w1 @ [r]"
      by auto
    have own: "own_launches env w1 r"
      using handle_resource_launch [OF ok1 _ one] l run_elem [OF env ds r] by (auto split: if_splits)
    show ?thesis
    proof (cases "is_in_progress (status_of env (ew_rows w) (rc_key r))")
      case True
      with in_progress_same [OF req] have "row_of (ew_rows w1) (rc_key r) = row_of (ew_rows w) (rc_key r)" by simp
      from own own_same [OF jobs this] True show ?thesis
        by (auto simp: own_launches_def observed_status_def launches_def er_status_simps
            split: if_splits job_status.splits er_action.splits)
    next
      case False
      with req have "status_of env (ew_rows w1) (rc_key r) = status_of env (ew_rows w) (rc_key r) \<or>
          status_of env (ew_rows w1) (rc_key r) = ReconciliationRequested"
        by (auto simp: requested_def status_of_row)
      with own False show ?thesis
        by (auto simp: own_launches_def observed_status_def launches_def er_status_simps split: if_splits er_action.splits)
    qed
  qed
  with new run_elem [OF env ds] show ?thesis by blast
qed

text \<open>C20. Every job that a run starts is recorded: after the run the state of its resource holds this reconciliation and is
  in progress, unless the secret of the resource was due in the same run, when the state may say created.\<close>

theorem launches_are_recorded:
  assumes env: "env_ok env" and ok: "rows_ok (ew_rows w)" and run: "handle_resources env w = Inr w'"
    and new: "ew_launched w' = ew_launched w @ new" and r: "r \<in> set new"
  shows "\<exists>s. row_of (ew_rows w') (rc_key r) = Some s \<and> et_reconciliation s = stored_reconciliation (et_key s) r \<and>
    (et_status s = (case rc_action r of Apply \<Rightarrow> InProgress | Destroy \<Rightarrow> DeleteInProgress) \<or>
     et_status s = Created \<and> may_sync env w r)"
proof -
  from run_cases [OF env ok run] obtain ds w3 ks where ds: "desired_reconciliations env = Inr ds"
    and all: "handle_all env (w, []) (ds @ deleted_reconciliations env (ew_rows w)) = Inr (w3, ks)"
    and w': "w' = w3\<lparr>ew_rows := sync_secrets env (add_all ks (pending_keys (ew_rows w))) (ew_rows w3)\<rparr>"
    by metis
  from handle_all_frame [OF all ok] w' new r have rs: "r \<in> set (ds @ deleted_reconciliations env (ew_rows w))" by auto
  from run_own [OF env ok run ds rs] obtain w1 ks1 w2 ks2 rows new' where
    one: "handle_resource env (w1, ks1) r = Inr (w2, ks2)" and ok1: "rows_ok (ew_rows w1)"
    and req: "requested env (ew_rows w2) rows (rc_key r)" and new': "ew_launched w' = ew_launched w @ new'" "r \<in> set new' \<longrightarrow> ew_launched w2 = ew_launched w1 @ [r]"
    and final: "row_of (ew_rows w') (rc_key r) = row_of rows (rc_key r) \<or> may_sync env w r \<and>
      row_of (ew_rows w') (rc_key r) = map_option (et_status_update (\<lambda>_. Created)) (row_of rows (rc_key r))"
    by blast
  from new' new r have l: "ew_launched w2 = ew_launched w1 @ [r]" by simp
  from handle_resource_launch [OF ok1 _ one] l run_elem [OF env ds rs] obtain s where
    s: "row_of (ew_rows w2) (rc_key r) = Some s" "et_reconciliation s = stored_reconciliation (et_key s) r"
      "et_status s = (case rc_action r of Apply \<Rightarrow> InProgress | Destroy \<Rightarrow> DeleteInProgress)"
    by (auto split: if_splits)
  then have "is_in_progress (status_of env (ew_rows w2) (rc_key r))"
    by (simp add: status_of_row er_status_simps split: er_action.splits)
  from in_progress_same [OF req this] s final show ?thesis by auto
qed

lemma run_follows_table_aux:
  assumes env: "env_ok env" and ok: "rows_ok (ew_rows w)" and run: "handle_resources env w = Inr w'"
    and ds: "desired_reconciliations env = Inr ds" and r: "r \<in> set (ds @ deleted_reconciliations env (ew_rows w))"
    and unlinked: "path_of r \<notin> \<Union> (linked_paths ` set (ds @ deleted_reconciliations env (ew_rows w)))"
  shows "status_of env (ew_rows w') (rc_key r) = own_next env w r \<or>
    status_of env (ew_rows w') (rc_key r) = Created \<and> may_sync env w r"
proof -
  from run_own [OF env ok run ds r] unlinked obtain w1 ks1 w2 ks2 rows where
    one: "handle_resource env (w1, ks1) r = Inr (w2, ks2)" and ok1: "rows_ok (ew_rows w1)" and jobs: "same_jobs w w1"
    and same: "row_of (ew_rows w1) (rc_key r) = row_of (ew_rows w) (rc_key r)"
      "row_of rows (rc_key r) = row_of (ew_rows w2) (rc_key r)"
    and final: "row_of (ew_rows w') (rc_key r) = row_of rows (rc_key r) \<or> may_sync env w r \<and>
      row_of (ew_rows w') (rc_key r) = map_option (et_status_update (\<lambda>_. Created)) (row_of rows (rc_key r))"
    by blast
  from unlinked r have "state_path (rc_key r) \<notin> state_path ` set (linked_of r)" by (auto simp: path_of_def linked_paths_def)
  from handle_resource_own_aux [OF ok1 _ this one] run_elem [OF env ds r]
  have own: "status_of env (ew_rows w2) (rc_key r) = own_next env w r"
    by (simp add: own_same(1) [OF jobs same(1)])
  show ?thesis
  proof (cases "row_of (ew_rows w') (rc_key r) = row_of rows (rc_key r)")
    case True
    with own same(2) show ?thesis by (simp add: status_of_row)
  next
    case False
    with final same(2) obtain s where "row_of (ew_rows w') (rc_key r) = Some (s\<lparr>et_status := Created\<rparr>)" "may_sync env w r"
      by (cases "row_of (ew_rows w2) (rc_key r)") auto
    then show ?thesis by (simp add: status_of_row)
  qed
qed

lemma run_untouched:
  assumes env: "env_ok env" and ok: "rows_ok (ew_rows w)" and run: "handle_resources env w = Inr w'"
    and ds: "desired_reconciliations env = Inr ds"
    and k: "state_path k \<notin> path_of ` set (ds @ deleted_reconciliations env (ew_rows w))"
  shows "row_of (ew_rows w) k \<noteq> None \<longrightarrow> row_of (ew_rows w') k \<noteq> None"
proof -
  from run_cases [OF env ok run] ds obtain w3 ks where
    all: "handle_all env (w, []) (ds @ deleted_reconciliations env (ew_rows w)) = Inr (w3, ks)"
    and w': "w' = w3\<lparr>ew_rows := sync_secrets env (add_all ks (pending_keys (ew_rows w))) (ew_rows w3)\<rparr>"
    by (metis Inr_inject)
  from handle_all_frame [OF all ok, of k] k have "requested env (ew_rows w) (ew_rows w3) k" by blast
  then have "row_of (ew_rows w) k \<noteq> None \<longrightarrow> row_of (ew_rows w3) k \<noteq> None"
    by (auto simp: requested_def status_of_row split: option.splits)
  then show ?thesis by (auto simp: w' row_of_sync)
qed

text \<open>C23. The state of a resource is removed only where the resource is marked for deletion and the job of its state
  has succeeded.\<close>

theorem states_removed_after_success:
  assumes env: "env_ok env" and ok: "rows_ok (ew_rows w)" and run: "handle_resources env w = Inr w'"
    and there: "row_of (ew_rows w) k = Some s" and gone: "row_of (ew_rows w') k = None"
  shows "\<exists>k' spec. (k', spec) \<in> set (en_inventory env) \<and> state_path k' = state_path k \<and> es_delete spec \<and>
    is_in_progress (et_status s) \<and> get_resource_reconcile_status env w (et_reconciliation s) = JobSuccess"
proof -
  from run_cases [OF env ok run] obtain ds where ds: "desired_reconciliations env = Inr ds" by metis
  from run_untouched [OF env ok run ds, of k] there gone
  have "state_path k \<in> path_of ` set (ds @ deleted_reconciliations env (ew_rows w))" by auto
  then obtain r where r: "r \<in> set (ds @ deleted_reconciliations env (ew_rows w))" "path_of r = state_path k"
    by (auto simp del: set_append)
  then have key: "row_of rows (rc_key r) = row_of rows k" for rows by (simp add: row_of_def path_of_def)
  from run_own [OF env ok run ds r(1)] obtain w1 ks1 w2 ks2 rows where
    one: "handle_resource env (w1, ks1) r = Inr (w2, ks2)" and ok1: "rows_ok (ew_rows w1)" and jobs: "same_jobs w w1"
    and req: "requested env (ew_rows w) (ew_rows w1) (rc_key r)" "requested env (ew_rows w2) rows (rc_key r)"
    and final: "row_of (ew_rows w') (rc_key r) = row_of rows (rc_key r) \<or> may_sync env w r \<and>
      row_of (ew_rows w') (rc_key r) = map_option (et_status_update (\<lambda>_. Created)) (row_of rows (rc_key r))"
    by blast
  from final gone key have "row_of rows (rc_key r) = None" by auto
  with req(2) have "row_of (ew_rows w2) (rc_key r) = None"
    by (auto simp: requested_def status_of_row split: option.splits)
  moreover have "row_of (ew_rows w1) (rc_key r) \<noteq> None"
    using req(1) there key by (auto simp: requested_def status_of_row split: option.splits)
  ultimately have del: "rc_action r = Destroy" "is_in_progress (status_of env (ew_rows w1) (rc_key r))"
      "job_of env w1 (rc_key r) = JobSuccess"
    using removed_row [OF ok1 one] by blast+
  have "row_of (ew_rows w1) (rc_key r) = row_of (ew_rows w) (rc_key r)"
    using req(1) del(2) by (auto simp: requested_def status_of_row er_status_simps)
  with del key there jobs have "is_in_progress (et_status s)" "get_resource_reconcile_status env w (et_reconciliation s) = JobSuccess"
    by (simp_all add: status_of_row env_same_jobs) (simp_all add: job_of_def get_state_def)
  with run_elem [OF env ds r(1)] del(1) r(2) show ?thesis by (auto simp: path_of_def)
qed

section \<open>Marked for deletion at the wrong moment\<close>

lemma deleted_mem:
  assumes "(k, spec) \<in> set (en_inventory env)" "es_delete spec" "status_of env rows k \<noteq> NotExists"
  obtains r where "r \<in> set (deleted_reconciliations env rows)" "rc_key r = k" "rc_action r = Destroy"
proof -
  define f where "f = (\<lambda>(k, spec :: er_spec). let s = get_state env rows k in
       if \<not> es_delete spec \<or> et_status s = NotExists then None
       else Some \<lparr>rc_key = k, rc_resource_hash = rc_resource_hash (et_reconciliation s),
              rc_input = rc_input (et_reconciliation s), rc_action = Destroy,
              rc_module_configuration = rc_module_configuration (et_reconciliation s), rc_linked_resources = None\<rparr>)"
  from assms(2,3) obtain r where r: "f (k, spec) = Some r" "rc_key r = k" "rc_action r = Destroy"
    by (simp add: f_def Let_def status_of_def)
  with assms(1) have "r \<in> set (List.map_filter f (en_inventory env))"
    unfolding List.map_filter_def by (auto intro!: rev_image_eqI [of "(k, spec)"])
  with r that show thesis by (simp add: deleted_reconciliations_def f_def)
qed

lemma marked_run:
  assumes env: "env_ok env" and ok: "rows_ok (ew_rows w)" and run: "handle_resources env w = Inr w'"
    and k: "(k, spec) \<in> set (en_inventory env)" "es_delete spec" "status_of env (ew_rows w) k \<noteq> NotExists"
  obtains ds r where "desired_reconciliations env = Inr ds" "r \<in> set (ds @ deleted_reconciliations env (ew_rows w))"
    "rc_key r = k" "rc_action r = Destroy"
    "path_of r \<notin> \<Union> (linked_paths ` set (ds @ deleted_reconciliations env (ew_rows w)))"
proof -
  from run_cases [OF env ok run] obtain ds where ds: "desired_reconciliations env = Inr ds" by metis
  from deleted_mem [OF k] obtain r where r: "r \<in> set (deleted_reconciliations env (ew_rows w))" "rc_key r = k" "rc_action r = Destroy" .
  from marked_not_linked [OF env ds k(1,2)] r(2)
  have "path_of r \<notin> \<Union> (linked_paths ` set (ds @ deleted_reconciliations env (ew_rows w)))" by (auto simp: path_of_def)
  with ds r that show thesis by auto
qed

text \<open>C15. What is removed is not always destroyed: a resource that is marked for deletion while a job of its state runs
  is recorded as gone when that job succeeds, whatever the action of the job, and no job is started for it.\<close>

theorem deleted_without_destroy:
  assumes env: "env_ok env" and ok: "rows_ok (ew_rows w)" and run: "handle_resources env w = Inr w'"
    and marked: "(k, spec) \<in> set (en_inventory env)" "es_delete spec"
    and running: "is_in_progress (status_of env (ew_rows w) k)" "job_of env w k = JobSuccess"
  shows "status_of env (ew_rows w') k = NotExists \<and>
    (\<exists>new. ew_launched w' = ew_launched w @ new \<and> (\<forall>r \<in> set new. rc_key r \<noteq> k))"
proof -
  from running(1) have there: "status_of env (ew_rows w) k \<noteq> NotExists" by (auto simp: er_status_simps)
  from marked_run [OF env ok run marked there] obtain ds r where ds: "desired_reconciliations env = Inr ds"
    and r: "r \<in> set (ds @ deleted_reconciliations env (ew_rows w))" "rc_key r = k" "rc_action r = Destroy"
    and unlinked: "path_of r \<notin> \<Union> (linked_paths ` set (ds @ deleted_reconciliations env (ew_rows w)))" .
  have obs: "observed_status r JobSuccess (status_of env (ew_rows w) k) = NotExists"
    using running(1) r(3) by (simp add: observed_status_def)
  with running r(2,3) have "\<not> may_sync env w r" "own_next env w r = NotExists"
    by (auto simp: may_sync_def own_next_def next_status_def launches_def er_status_simps)
  with run_follows_table_aux [OF env ok run ds r(1) unlinked] r(2) have "status_of env (ew_rows w') k = NotExists" by auto
  moreover from run_own [OF env ok run ds r(1)] obtain new where
    new: "ew_launched w' = ew_launched w @ new" "set new \<subseteq> set (ds @ deleted_reconciliations env (ew_rows w))" by blast
  have "rc_key r' \<noteq> k" if "r' \<in> set new" for r'
  proof
    assume "rc_key r' = k"
    with launches_are_justified_aux [OF env ok run] new(1) that
    have "rc_action r' = Destroy" "status_of env (ew_rows w) k \<in> {Created, ErrorStatus} \<or> job_of env w k \<in> {JobError, JobNotExists}"
      using path_inj [OF env marked(1)] marked(2) by fastforce+
    with running show False by (auto simp: er_status_simps)
  qed
  ultimately show ?thesis using new by blast
qed

inductive er_progress :: "er_key \<Rightarrow> er_world \<Rightarrow> er_world \<Rightarrow> bool" for k where
  a_run: "env_ok env \<Longrightarrow> (k, spec) \<in> set (en_inventory env) \<Longrightarrow> es_delete spec \<Longrightarrow> handle_resources env w = Inr w' \<Longrightarrow>
     er_progress k w w'"
| jobs_go_on: "er_progress k w (w\<lparr>ew_jobs := jobs\<rparr>)"

lemma requested_deletion_run:
  assumes env: "env_ok env" and ok: "rows_ok (ew_rows w)" and run: "handle_resources env w = Inr w'"
    and marked: "(k, spec) \<in> set (en_inventory env)" "es_delete spec"
    and row: "row_of (ew_rows w) k = Some s" "et_status s = ReconciliationRequested"
  shows "row_of (ew_rows w') k = Some s \<and> rows_ok (ew_rows w') \<and>
    (\<exists>new. ew_launched w' = ew_launched w @ new \<and> (\<forall>r \<in> set new. rc_key r \<noteq> k))"
proof -
  from row have there: "status_of env (ew_rows w) k = ReconciliationRequested" by (simp add: status_of_row)
  then have "status_of env (ew_rows w) k \<noteq> NotExists" by simp
  from marked_run [OF env ok run marked this] obtain ds r where ds: "desired_reconciliations env = Inr ds"
    and r: "r \<in> set (ds @ deleted_reconciliations env (ew_rows w))" "rc_key r = k" "rc_action r = Destroy"
    and unlinked: "path_of r \<notin> \<Union> (linked_paths ` set (ds @ deleted_reconciliations env (ew_rows w)))" .
  from run_own [OF env ok run ds r(1)] unlinked obtain w1 ks1 w2 ks2 rows where
    one: "handle_resource env (w1, ks1) r = Inr (w2, ks2)" and ok1: "rows_ok (ew_rows w1)" and jobs: "same_jobs w w1"
    and same: "row_of (ew_rows w1) (rc_key r) = row_of (ew_rows w) (rc_key r)"
      "row_of rows (rc_key r) = row_of (ew_rows w2) (rc_key r)"
    and final: "row_of (ew_rows w') (rc_key r) = row_of rows (rc_key r) \<or> may_sync env w r \<and>
      row_of (ew_rows w') (rc_key r) = map_option (et_status_update (\<lambda>_. Created)) (row_of rows (rc_key r))"
    by blast
  have quiet: "\<not> own_launches env w r" "\<not> may_sync env w r"
    using there r(2,3) by (simp_all add: own_launches_def observed_status_def launches_def may_sync_def er_status_simps)
  have "w2 = w1"
    by (rule quiet_handle [OF one]) (use same(1) there quiet own_same(2) [OF jobs same(1)] r in
        \<open>auto simp: status_of_row er_status_simps\<close>)
  with same final quiet(2) row r(2) have "row_of (ew_rows w') k = Some s" by simp
  moreover from run_own [OF env ok run ds r(1)] obtain new where
    new: "ew_launched w' = ew_launched w @ new" "set new \<subseteq> set (ds @ deleted_reconciliations env (ew_rows w))" by blast
  have "rc_key r' \<noteq> k" if "r' \<in> set new" for r'
  proof
    assume "rc_key r' = k"
    with launches_are_justified_aux [OF env ok run] new(1) that
    have "rc_action r' = Destroy" "status_of env (ew_rows w) k \<in> {Created, ErrorStatus} \<or> is_in_progress (status_of env (ew_rows w) k)"
      using path_inj [OF env marked(1)] marked(2) by fastforce+
    with there show False by (simp add: er_status_simps)
  qed
  moreover have "rows_ok (ew_rows w')" by (rule run_rows_ok [OF env ok run])
  ultimately show ?thesis using new by blast
qed

text \<open>A resource that is marked for deletion while its reconciliation is requested is never destroyed: as long as it is
  marked, no number of runs changes its state or starts a job for it, however the jobs of the cluster go on.\<close>

theorem requested_deletion_is_stuck:
  assumes "(er_progress k)\<^sup>*\<^sup>* w w'" and "rows_ok (ew_rows w)"
    and "row_of (ew_rows w) k = Some s" and "et_status s = ReconciliationRequested"
  shows "row_of (ew_rows w') k = Some s \<and>
    (\<exists>new. ew_launched w' = ew_launched w @ new \<and> (\<forall>r \<in> set new. rc_key r \<noteq> k))"
proof -
  from assms(1) have "rows_ok (ew_rows w') \<and> row_of (ew_rows w') k = Some s \<and>
    (\<exists>new. ew_launched w' = ew_launched w @ new \<and> (\<forall>r \<in> set new. rc_key r \<noteq> k))"
  proof (induction rule: rtranclp_induct)
    case base
    with assms show ?case by simp
  next
    case (step w1 w2)
    then obtain new where new: "ew_launched w1 = ew_launched w @ new" "\<forall>r \<in> set new. rc_key r \<noteq> k" by blast
    from step(2) show ?case
    proof cases
      case (a_run env spec)
      from requested_deletion_run [OF a_run(1) _ a_run(4,2,3) _ assms(4)] step.IH obtain new' where
        "rows_ok (ew_rows w2)" "row_of (ew_rows w2) k = Some s" "ew_launched w2 = ew_launched w1 @ new'"
        "\<forall>r \<in> set new'. rc_key r \<noteq> k" by blast
      with new show ?thesis by (auto intro!: exI [of _ "new @ new'"])
    next
      case (jobs_go_on jobs)
      with step.IH show ?thesis by simp
    qed
  qed
  then show ?thesis by blast
qed

section \<open>The secret hides the job\<close>

text \<open>A resource whose secret is still due and whose specification has changed is given a new job, and then marked
  as created because of its secret: the job that was just started is never looked at again.\<close>

theorem secret_sync_hides_job:
  assumes env: "env_ok env" and ok: "rows_ok (ew_rows w)" and run: "handle_resources env w = Inr w'"
    and ds: "desired_reconciliations env = Inr ds" and r: "r \<in> set ds"
    and unlinked: "path_of r \<notin> \<Union> (linked_paths ` set (ds @ deleted_reconciliations env (ew_rows w)))"
    and row: "row_of (ew_rows w) (rc_key r) = Some s" "et_status s = PendingSecretSync" "spec_changed r s"
    and synced: "en_sync_errors env = (\<lambda>_. [])"
  shows "\<exists>s'. row_of (ew_rows w') (rc_key r) = Some s' \<and> et_status s' = Created \<and>
    et_reconciliation s' = stored_reconciliation (et_key s') r"
proof -
  let ?rs = "ds @ deleted_reconciliations env (ew_rows w)"
  from run_cases [OF env ok run] ds obtain w3 ks where all: "handle_all env (w, []) ?rs = Inr (w3, ks)"
    and dist: "distinct (map path_of ?rs)"
    and w': "w' = w3\<lparr>ew_rows := sync_secrets env (add_all ks (pending_keys (ew_rows w))) (ew_rows w3)\<rparr>"
    by (metis Inr_inject)
  from r have r': "r \<in> set ?rs" by simp
  obtain w1 ks1 w2 ks2 where one: "handle_resource env (w1, ks1) r = Inr (w2, ks2)"
    and ok12: "rows_ok (ew_rows w1)" "rows_ok (ew_rows w2)" and jobs: "same_jobs w w1"
    and req: "requested env (ew_rows w) (ew_rows w1) (rc_key r)" "requested env (ew_rows w2) (ew_rows w3) (rc_key r)"
    and unl: "path_of r \<notin> \<Union> (linked_paths ` set ?rs) \<longrightarrow> row_of (ew_rows w1) (rc_key r) = row_of (ew_rows w) (rc_key r) \<and>
       row_of (ew_rows w3) (rc_key r) = row_of (ew_rows w2) (rc_key r)"
    and launched: "\<exists>l l'. ew_launched w1 = ew_launched w @ l \<and> ew_launched w3 = ew_launched w2 @ l' \<and>
       (\<forall>x \<in> set l \<union> set l'. path_of x \<noteq> path_of r)"
    by (rule handle_all_split [OF all ok r' dist])
  from desired_elems [OF env ds] r obtain spec where "desired_reconciliation env (rc_key r, spec) = Inr (Some r)" by blast
  from desired_elem [OF env this] have act: "rc_action r = Apply" by simp
  have "own_launches env w r"
    using row act by (simp add: own_launches_def launches_def observed_status_def status_of_row er_status_simps
        stale_def get_state_def)
  with own_same(2) [OF jobs] unl unlinked have "own_launches env w1 r" by simp
  with handle_resource_launch [OF ok12(1) _ one] run_elem [OF env ds r'] obtain s' where
    "row_of (ew_rows w2) (rc_key r) = Some s'" "et_reconciliation s' = stored_reconciliation (et_key s') r" by auto
  with unl unlinked have s': "row_of (ew_rows w3) (rc_key r) = Some s'" "et_reconciliation s' = stored_reconciliation (et_key s') r"
    by simp_all
  from row have "et_key s \<in> set (pending_keys (ew_rows w))"
    by (auto simp: pending_keys_def row_of_def dest!: map_of_SomeD intro!: rev_image_eqI)
  moreover have "state_path (et_key s) = state_path (rc_key r)"
    using ok row(1) by (simp add: rows_ok_def row_of_def)
  ultimately have "\<exists>k' \<in> set (add_all ks (pending_keys (ew_rows w))).
      \<not> sync_failed env (add_all ks (pending_keys (ew_rows w))) k' \<and> state_path k' = state_path (rc_key r)"
    by (auto simp: sync_failed_def synced)
  with s' show ?thesis by (simp add: w' row_of_sync)
qed

section \<open>A settled system\<close>

text \<open>A run changes nothing where every resource of the configuration is created, up to date and none is due or
  marked for deletion.\<close>

theorem settled_run_changes_nothing:
  assumes env: "env_ok env" and ds: "desired_reconciliations env = Inr ds"
    and none: "deleted_reconciliations env (ew_rows w) = []" "pending_keys (ew_rows w) = []"
    and settled: "\<And>r. r \<in> set ds \<Longrightarrow> \<exists>s. row_of (ew_rows w) (rc_key r) = Some s \<and> et_status s = Created \<and> \<not> stale (en_now env) r s"
  shows "handle_resources env w = Inr w"
proof -
  have quiet: "handle_resource env (w, []) r = Inr (w, [])" if "r \<in> set ds" for r
  proof -
    from settled [OF that] obtain s where s: "get_state env (ew_rows w) (rc_key r) = s" "et_status s = Created"
        "\<not> stale (en_now env) r s" by (auto simp: get_state_def)
    moreover from this have "get_reconciliation_status env w r s = \<lparr>rt_reconcile_time = 0, rt_status = Created\<rparr>"
      by (simp add: get_reconciliation_status_def er_status_simps)
    moreover from this s have "update_resource_state env r (get_reconciliation_status env w r s) s (ew_rows w) = (s, ew_rows w)"
      by (simp add: update_resource_state_def needs_state_update_def er_status_simps)
    moreover from desired_elems [OF env ds] that obtain spec where
      "desired_reconciliation env (rc_key r, spec) = Inr (Some r)" by blast
    from desired_elem [OF env this] s have "\<not> needs_reconciliation (en_now env) r s"
      by (simp add: needs_reconciliation_iff launches_def stale_def er_status_simps)
    ultimately show ?thesis by (simp add: handle_resource_def er_status_simps)
  qed
  have "handle_all env (w, []) rs = Inr (w, [])" if "set rs \<subseteq> set ds" for rs
    using that by (induction rs) (auto simp: quiet)
  then show ?thesis by (simp add: handle_resources_def ds none add_all_def sync_secrets_def)
qed

section \<open>The life of a resource\<close>

text \<open>C12. A job is started only for a resource of the configuration, with the action the configuration asks for:
  destruction exactly where the resource is marked for deletion. It is never started while the job of the state is
  running, and a destruction only for a resource that is there, or whose last job failed or is gone.\<close>

theorem launches_are_justified:
  assumes env: "env_ok env" and ok: "rows_ok (ew_rows w)" and run: "handle_resources env w = Inr w'"
  shows "\<exists>new. ew_launched w' = ew_launched w @ new \<and> (\<forall>r \<in> set new.
    (\<exists>spec. (rc_key r, spec) \<in> set (en_inventory env) \<and> (rc_action r = Destroy \<longleftrightarrow> es_delete spec)) \<and>
    \<not> (is_in_progress (status_of env (ew_rows w) (rc_key r)) \<and> job_of env w (rc_key r) = JobInProgress) \<and>
    (rc_action r = Destroy \<longrightarrow> status_of env (ew_rows w) (rc_key r) \<in> {Created, ErrorStatus} \<or>
       (is_in_progress (status_of env (ew_rows w) (rc_key r)) \<and> job_of env w (rc_key r) \<in> {JobError, JobNotExists})))"
  by (rule launches_are_justified_aux [OF assms])


section \<open>One invalid resource\<close>

lemma rmap_Inl: "x \<in> set xs \<Longrightarrow> f x = Inl e \<Longrightarrow> \<exists>e. rmap f xs = Inl e"
proof (induction xs)
  case (Cons y ys)
  show ?case
  proof (cases "f y")
    case (Inr v)
    with Cons.prems have "x \<in> set ys" by (cases "x = y") simp_all
    from Cons.IH [OF this Cons.prems(2)] obtain e' where "rmap f ys = Inl e'" ..
    with Inr show ?thesis by simp
  qed simp
qed simp

text \<open>One resource of the configuration that cannot be built, for any reason but the validation error that the
  manager expects, stops the run before it has handled any resource.\<close>

theorem invalid_resource_stops_the_run:
  assumes "(k, spec) \<in> set (en_inventory env)" and "\<not> es_delete spec"
    and "module_from_spec (fe_modules (en_factory env)) spec = Inr m"
    and "resolve_configuration m spec (fe_settings (en_factory env)) = Inr mc"
    and "build_external_resource (en_factory env) spec mc = Inl e" and "e \<noteq> InvalidResource"
  shows "\<exists>e'. handle_resources env w = Inl e'"
proof -
  have e: "desired_reconciliation env (k, spec) = Inl e"
    using assms(3-6) by (cases e) (simp_all add: desired_reconciliation_def)
  have "(k, spec) \<in> set (filter (\<lambda>(_, spec). \<not> es_delete spec) (en_inventory env))" using assms(1,2) by simp
  from rmap_Inl [of _ _ "desired_reconciliation env", OF this e] obtain e' where
    "rmap (desired_reconciliation env) (filter (\<lambda>(_, spec). \<not> es_delete spec) (en_inventory env)) = Inl e'" ..
  then show ?thesis by (simp add: handle_resources_def desired_reconciliations_def)
qed

end
