(* ===== verification/Er_Factory_Laws.thy ===== *)
theory Er_Factory_Laws
  imports Er_Factories
begin

text \<open>
  Properties of the factories: how the values of a resource take precedence, the timeouts of RDS instances, and when
  following the replica sources ends.
\<close>

section \<open>Where a value comes from\<close>

lemma dget_simps [simp]:
  "dget (dict_set d k v) k' = (if k' = k then v else dget d k')"
  by (simp add: dget_def dict_simps)

lemma resolved_value_aux:
  assumes "resolve_values lib spec = Inr d" "wf_dict (es_resource spec)"
    "dget (es_resource spec) k \<noteq> JNull" "k \<notin> set ignore_keys"
  shows "dict_get d k = dict_get (es_resource spec) k"
proof -
  from assms(1) obtain e where e: "d = dict_update (dict_set e ''identifier'' (JStr (es_identifier spec)))
      (filter (\<lambda>(k, v). k \<notin> set ignore_keys \<and> v \<noteq> JNull) (es_resource spec))"
    by (auto simp: resolve_values_def Let_def result_simps)
  obtain v where v: "(k, v) \<in> set (es_resource spec)" "v \<noteq> JNull" "dict_get (es_resource spec) k = Some v"
    using assms(3) by (auto simp: dget_def split: option.splits dest: map_of_SomeD)
  let ?f = "filter (\<lambda>(k, v). k \<notin> set ignore_keys \<and> v \<noteq> JNull) (es_resource spec)"
  have "wf_dict ?f" using assms(2) by (rule distinct_map_filter)
  moreover have "(k, v) \<in> set ?f" using v assms(4) by simp
  ultimately have "dict_get (rev ?f) k = Some v" by (simp add: map_of_rev_distinct)
  then show ?thesis by (simp add: e dict_simps v(3) map_add_def)
qed

section \<open>Timeouts\<close>

lemma is_digit_char: "d < 10 \<Longrightarrow> is_digit (char_of (48 + d)) \<and> (of_char (char_of (48 + d) :: char) :: nat) = 48 + d"
  by (simp add: is_digit_def)

lemma show_digits_spec:
  "list_all is_digit (show_digits n) \<and> show_digits n \<noteq> [] \<and> digits_value (show_digits n) = n"
proof (induction n rule: show_digits.induct)
  case (1 n)
  show ?case
  proof (cases "n < 10")
    case True
    then show ?thesis using is_digit_char [of n] by (simp add: show_digits.simps [of n] digits_value_def)
  next
    case False
    with 1 is_digit_char [of "n mod 10"] show ?thesis
      by (simp add: show_digits.simps [of n] digits_value_def)
  qed
qed

lemma digits_take_drop:
  "list_all is_digit ds \<Longrightarrow> \<not> is_digit c \<Longrightarrow> takeWhile is_digit (ds @ c # cs) = ds \<and> dropWhile is_digit (ds @ c # cs) = c # cs"
  by (induction ds) auto

lemma digit_not_space: "is_digit c \<Longrightarrow> \<not> py_space c"
  by (auto simp: is_digit_def py_space_def)

lemma drop_space_digits: "list_all is_digit ds \<Longrightarrow> ds \<noteq> [] \<Longrightarrow> dropWhile py_space (ds @ cs) = ds @ cs"
  by (cases ds) (auto simp: digit_not_space)

lemma minutes_read_back: "0 \<le> n \<Longrightarrow> get_timeout_minutes (py_str_int n @ ''m'') = Inr n"
proof -
  assume "0 \<le> n"
  then have n: "py_str_int n = show_digits (nat n)" "int (nat n) = n" by (simp_all add: py_str_int_def)
  note d = show_digits_spec [of "nat n"]
  have m: "\<not> is_digit (CHR ''m'')" "\<not> py_space (CHR ''m'')" by (simp_all add: is_digit_def py_space_def)
  note t = digits_take_drop [of "show_digits (nat n)" "CHR ''m''" "[]"]
  show ?thesis
    using d t m \<open>0 \<le> n\<close> drop_space_digits [of "show_digits (nat n)" "''m''"]
    by (simp add: get_timeout_minutes_def Let_def n)
qed

lemma negative_minutes_rejected: "n < 0 \<Longrightarrow> get_timeout_minutes (py_str_int n @ ''m'') = Inl ValueError"
  by (simp add: get_timeout_minutes_def py_str_int_def is_digit_def py_space_def)

lemma validate_timeouts_bounds_aux:
  assumes "validate_timeouts d mc = Inr ()" "truthy (dget d ''timeouts'')"
  shows "\<exists>ts. dget d ''timeouts'' = JDict ts \<and> (\<forall>(k, t) \<in> set ts. k \<in> {''create'', ''update'', ''delete''} \<and>
    (\<exists>s m. t = JStr s \<and> get_timeout_minutes s = Inr m \<and> m < mc_timeout_minutes mc))"
proof -
  from assms obtain ts where ts: "dget d ''timeouts'' = JDict ts" "set (dict_keys ts) \<subseteq> {''create'', ''update'', ''delete''}"
    and run: "rfold (\<lambda>_ (_, t). case t of
                 JStr s \<Rightarrow> rbind (get_timeout_minutes s) (\<lambda>m.
                   if mc_timeout_minutes mc \<le> m then Inl ValueError else Inr ())
               | _ \<Rightarrow> Inl TypeError) () ts = Inr ()"
    by (cases "dget d ''timeouts''") (auto simp: validate_timeouts_def Let_def split: if_splits)
  have "\<forall>p \<in> set ts. \<exists>s m. snd p = JStr s \<and> get_timeout_minutes s = Inr m \<and> m < mc_timeout_minutes mc"
    using rfold_establishes [OF run, of "\<lambda>_. True" "\<lambda>p _. \<exists>s m. snd p = JStr s \<and> get_timeout_minutes s = Inr m \<and> m < mc_timeout_minutes mc"]
    by (force simp: result_simps split: json.splits if_splits)
  with ts show ?thesis by fastforce
qed

text \<open>The timeouts that are filled in where a resource gives none pass the validation exactly where the module allows
  at least five minutes.\<close>

lemma default_timeouts_valid_aux:
  assumes "dget d ''timeouts'' = rds_timeouts (mc_timeout_minutes mc)"
  shows "validate_timeouts d mc = (if 5 \<le> mc_timeout_minutes mc then Inr () else Inl ValueError)"
  using assms minutes_read_back [of "mc_timeout_minutes mc - 5"] negative_minutes_rejected [of "mc_timeout_minutes mc - 5"]
  by (auto simp: validate_timeouts_def Let_def rds_timeouts_def)

section \<open>Replica sources\<close>

definition rds_source :: "factory_lib \<Rightarrow> er_inventory \<Rightarrow> er_spec \<Rightarrow> er_spec option" where
  "rds_source lib inven spec =
     (case rds_base lib spec of
        Inl _ \<Rightarrow> None
      | Inr d \<Rightarrow> if dict_has d ''replica_source''
                then (case rds_source_spec inven spec d of Inl _ \<Rightarrow> None | Inr s \<Rightarrow> Some s) else None)"

text \<open>Resolving an RDS instance ends where its replica sources do not go round in a circle.\<close>

lemma rds_resolve_returns_aux:
  assumes rank: "\<And>spec source. rds_source lib inven spec = Some source \<Longrightarrow> rank source < (rank spec :: nat)"
  shows "\<exists>r. rds_resolve lib inven mc spec = Some r"
proof (induction "rank spec" arbitrary: spec rule: less_induct)
  case less
  show ?case
  proof (cases "rds_source lib inven spec")
    case None
    then show ?thesis
      by (subst rds_resolve.simps) (auto simp: rds_source_def split: sum.splits if_splits)
  next
    case (Some source)
    with less rank obtain r where "rds_resolve lib inven mc source = Some r" by blast
    with Some show ?thesis
      by (subst rds_resolve.simps) (auto simp: rds_source_def split: sum.splits if_splits)
  qed
qed

text \<open>Where they do, it never ends, and neither do the runs that need it.\<close>

lemma replica_cycle_aux:
  assumes "rds_resolve lib inven mc spec = Some r"
  shows "spec \<in> C \<longrightarrow> (\<forall>sp \<in> C. \<exists>source \<in> C. rds_source lib inven sp = Some source) \<longrightarrow> False"
proof (rule rds_resolve.raw_induct [OF _ assms, where P = "\<lambda>lib inven mc spec r.
    spec \<in> C \<longrightarrow> (\<forall>sp \<in> C. \<exists>source \<in> C. rds_source lib inven sp = Some source) \<longrightarrow> False"], intro impI)
  fix rec lib inven mc spec r
  assume ih: "\<And>lib inven mc spec r. rec lib inven mc spec = Some r \<Longrightarrow>
      spec \<in> C \<longrightarrow> (\<forall>sp \<in> C. \<exists>source \<in> C. rds_source lib inven sp = Some source) \<longrightarrow> False"
    and body: "(case rds_base lib spec of
        Inl e \<Rightarrow> Some (Inl e)
      | Inr d \<Rightarrow>
          if dict_has d ''replica_source''
          then (case rds_source_spec inven spec d of
              Inl e \<Rightarrow> Some (Inl e)
            | Inr source \<Rightarrow> Option.bind (rec lib inven mc source) (\<lambda>r. Some (
                rbind r (\<lambda>sd. rbind (replica_source_value source sd) (\<lambda>v.
                  rds_finish inven spec mc (dict_set d ''replica_source'' v))))))
          else Some (rds_finish inven spec mc d)) = Some r"
    and C: "spec \<in> C" "\<forall>sp \<in> C. \<exists>source \<in> C. rds_source lib inven sp = Some source"
  from C obtain source where s: "source \<in> C" "rds_source lib inven spec = Some source" by blast
  with body obtain r' where "rec lib inven mc source = Some r'"
    by (auto simp: rds_source_def bind_eq_Some_conv split: sum.splits if_splits)
  from ih [OF this] s C show False by blast
qed

text \<open>An RDS instance whose replica sources go round in a circle is never resolved: Python gives up with a
  recursion error.\<close>

lemma replica_cycle_never_resolves:
  assumes "es_provider spec = ''rds''" and "spec \<in> C"
    and "\<And>sp. sp \<in> C \<Longrightarrow> \<exists>source \<in> C. rds_source (fe_lib env) (fe_inventory env) sp = Some source"
  shows "aws_resolve env spec mc = Inl RecursionError"
proof -
  have "rds_resolve (fe_lib env) (fe_inventory env) mc spec = None"
    using replica_cycle_aux [of "fe_lib env" "fe_inventory env" mc spec _ C] assms(2,3)
    by (cases "rds_resolve (fe_lib env) (fe_inventory env) mc spec") auto
  with assms(1) show ?thesis by (simp add: aws_resolve_def)
qed

end
