(* ===== verification/Er_Examples.thy ===== *)
theory Er_Examples
  imports Er_Theorems Er_Factory_Laws
begin

text \<open>
  The properties of the external resources, of their state table and of the job controller that need a theory of their
  own, with small systems on which they can be seen: one log group of one account, its module and its job.
\<close>

section \<open>A small system\<close>

definition demo_er_key :: er_key where
  "demo_er_key = \<lparr>ek_provision_provider = ''aws'', ek_provisioner_name = ''acc'', ek_provider = ''cloudwatch'', ek_identifier = ''logs''\<rparr>"

definition demo_er_namespace :: er_namespace where
  "demo_er_namespace = \<lparr>ns_name = ''ns'', ns_cluster = ''c'', ns_delete = False, ns_managed = True, ns_environment = ''prod'',
     ns_environment_type = None, ns_service_phase = None, ns_environment_cost_center = None, ns_app = ''app'',
     ns_app_code = None, ns_app_cost_center = None\<rparr>"

definition demo_er_spec :: "bool \<Rightarrow> er_spec" where
  "demo_er_spec delete = \<lparr>es_provision_provider = ''aws'',
     es_provisioner = \<lparr>pv_name = ''acc'', pv_channel = None, pv_default_region = ''us-east-1'', pv_supported_regions = None,
       pv_api_credentials = []\<rparr>,
     es_provider = ''cloudwatch'', es_identifier = ''logs'', es_resource = [], es_namespace = demo_er_namespace,
     es_delete = delete, es_module_overrides = None, es_secret = []\<rparr>"

definition demo_factory_lib :: factory_lib where
  "demo_factory_lib = \<lparr>fl_resource = (\<lambda>_. None), fl_json_loads = (\<lambda>_. None), fl_read_secret = (\<lambda>_. Inr []),
     fl_str = (\<lambda>_. []), fl_hash = (\<lambda>_. ''h''), fl_export = (\<lambda>_. ''{}'')\<rparr>"

definition demo_er_module :: er_module where
  "demo_er_module = \<lparr>md_provision_provider = ''aws'', md_provider = ''cloudwatch'', md_module_type = ''terraform'',
     md_drift_minutes = 60, md_timeout_minutes = 30, md_outputs_secret_sync = True, md_outputs_secret_image = None,
     md_outputs_secret_version = None, md_resources = None, md_default_channel = ''stable'',
     md_channels = [\<lparr>ch_name = ''stable'', ch_image = ''img'', ch_version = ''1''\<rparr>]\<rparr>"

definition demo_er_settings :: er_settings where
  "demo_er_settings = \<lparr>st_tf_state_bucket = Some ''b'', st_tf_state_region = Some ''us-east-1'', st_vault_secrets_path = ''v'',
     st_outputs_secret_image = ''o'', st_outputs_secret_version = ''1'', st_default_resources = no_resources,
     st_default_tags = []\<rparr>"

definition demo_er_env :: "bool \<Rightarrow> er_env" where
  "demo_er_env delete = \<lparr>en_factory = \<lparr>fe_lib = demo_factory_lib, fe_inventory = [(demo_er_key, demo_er_spec delete)],
       fe_modules = [((''aws'', ''cloudwatch''), demo_er_module)], fe_settings = demo_er_settings\<rparr>,
     en_digest = (\<lambda>_. ''d''), en_generation = ''g'', en_fresh_uid = (\<lambda>n. n), en_dry_run = False, en_suffix = [],
     en_now = 0, en_sync_errors = (\<lambda>_. [])\<rparr>"

definition demo_er_state :: "er_status \<Rightarrow> er_state" where
  "demo_er_state st = \<lparr>et_key = demo_er_key, et_ts = 0, et_status = st,
     et_reconciliation = empty_reconciliation demo_er_key\<rparr>"

definition demo_er_world :: "er_status \<Rightarrow> er_world" where
  \<comment> \<open>the job of the resource has succeeded\<close>
  "demo_er_world st = \<lparr>ew_rows = [(state_path demo_er_key, demo_er_state st)],
     ew_jobs = \<lparr>js_jobs = [(''er-cloudwatch-logs-d'', \<lparr>jr_succeeded = 1, jr_failed = 0, jr_backoff_limit = Some 0,
         jr_start_time = Some 0, jr_completion_time = Some 60, jr_generation = None, jr_uid = Some ''u''\<rparr>)],
       js_secrets = [], js_cache = None\<rparr>,
     ew_launched = []\<rparr>"

definition demo_er_run :: "bool \<Rightarrow> er_status \<Rightarrow> er_world" where
  "demo_er_run delete st =
     (case handle_resources (demo_er_env delete) (demo_er_world st) of Inl _ \<Rightarrow> demo_er_world st | Inr w \<Rightarrow> w)"

lemmas demo_er_defs = demo_er_key_def demo_er_namespace_def demo_er_spec_def demo_factory_lib_def demo_er_module_def
  demo_er_settings_def demo_er_env_def demo_er_state_def demo_er_world_def

lemma demo_env_ok: "env_ok (demo_er_env delete)"
  by (simp add: env_ok_def demo_er_defs)

lemma demo_rows_ok: "rows_ok (ew_rows (demo_er_world st))"
  by (simp add: rows_ok_def demo_er_defs)

lemma demo_run_destroy: "handle_resources (demo_er_env True) (demo_er_world Created) = Inr (demo_er_run True Created)"
  unfolding demo_er_run_def by code_simp

lemma demo_run_running: "handle_resources (demo_er_env True) (demo_er_world InProgress) = Inr (demo_er_run True InProgress)"
  unfolding demo_er_run_def by code_simp

lemma demo_run_pending: "handle_resources (demo_er_env False) (demo_er_world PendingSecretSync) = Inr (demo_er_run False PendingSecretSync)"
  unfolding demo_er_run_def by code_simp

lemma demo_status: "status_of (demo_er_env d) (ew_rows (demo_er_world st)) demo_er_key = st"
  by (simp add: status_of_row row_of_def demo_er_defs)

lemma demo_row: "row_of (ew_rows (demo_er_world st)) demo_er_key = Some (demo_er_state st)"
  by (simp add: row_of_def demo_er_defs)

lemma demo_job: "job_of (demo_er_env d) (demo_er_world st) demo_er_key = JobSuccess"
  unfolding job_of_def by (cases d; cases st; code_simp)

lemma demo_marked: "(demo_er_key, demo_er_spec True) \<in> set (en_inventory (demo_er_env True))"
  by (simp add: demo_er_env_def)

lemma launches_are_justified_witness:
  "\<exists>new. ew_launched (demo_er_run True Created) = [] @ new \<and> (\<forall>r \<in> set new.
     \<exists>spec. (rc_key r, spec) \<in> set (en_inventory (demo_er_env True)) \<and> (rc_action r = Destroy \<longleftrightarrow> es_delete spec))"
  using launches_are_justified [OF demo_env_ok demo_rows_ok demo_run_destroy] by (auto simp: demo_er_world_def)

definition demo_destroy :: reconciliation where
  "demo_destroy = (empty_reconciliation demo_er_key)\<lparr>rc_action := Destroy\<rparr>"

lemma demo_launched: "ew_launched (demo_er_run True Created) = ew_launched (demo_er_world Created) @ [demo_destroy]"
  by code_simp

lemma launches_are_recorded_witness:
  "\<exists>s. row_of (ew_rows (demo_er_run True Created)) (rc_key demo_destroy) = Some s \<and>
     et_status s = DeleteInProgress"
  using launches_are_recorded [OF demo_env_ok demo_rows_ok demo_run_destroy demo_launched, of demo_destroy]
  by (auto simp: demo_destroy_def empty_reconciliation_def may_sync_def demo_status er_status_simps)

lemma demo_nothing_desired: "desired_reconciliations (demo_er_env True) = Inr []"
  by code_simp

lemma demo_deleted: "deleted_reconciliations (demo_er_env True) (ew_rows (demo_er_world Created)) = [demo_destroy]"
  by code_simp


lemma states_removed_after_success_witness:
  "get_resource_reconcile_status (demo_er_env True) (demo_er_world InProgress) (empty_reconciliation demo_er_key) = JobSuccess"
proof -
  have "row_of (ew_rows (demo_er_run True InProgress)) demo_er_key = None" by code_simp
  from states_removed_after_success [OF demo_env_ok demo_rows_ok demo_run_running demo_row this]
  show ?thesis by (auto simp: demo_er_state_def)
qed

lemma deleted_without_destroy_witness:
  "rc_action (et_reconciliation (get_state (demo_er_env True) (ew_rows (demo_er_world InProgress)) demo_er_key)) = Apply \<and>
   status_of (demo_er_env True) (ew_rows (demo_er_run True InProgress)) demo_er_key = NotExists"
proof -
  have "es_delete (demo_er_spec True)" by (simp add: demo_er_spec_def)
  from deleted_without_destroy [OF demo_env_ok demo_rows_ok demo_run_running demo_marked this] demo_job demo_row
  show ?thesis
    by (simp add: demo_status er_status_simps get_state_def demo_er_state_def empty_reconciliation_def)
qed

definition demo_stuck_run :: er_world where
  "demo_stuck_run = demo_er_run True ReconciliationRequested"

lemma requested_deletion_is_stuck_witness:
  "row_of (ew_rows demo_stuck_run) demo_er_key = Some (demo_er_state ReconciliationRequested)"
proof -
  have run: "handle_resources (demo_er_env True) (demo_er_world ReconciliationRequested) = Inr demo_stuck_run"
    unfolding demo_stuck_run_def demo_er_run_def by code_simp
  have "es_delete (demo_er_spec True)" by (simp add: demo_er_spec_def)
  from er_progress.a_run [OF demo_env_ok demo_marked this run]
  have "(er_progress demo_er_key)\<^sup>*\<^sup>* (demo_er_world ReconciliationRequested) demo_stuck_run" by (rule r_into_rtranclp)
  from requested_deletion_is_stuck [OF this demo_rows_ok demo_row] show ?thesis by (simp add: demo_er_state_def)
qed

definition demo_apply :: reconciliation where
  "demo_apply = (case desired_reconciliations (demo_er_env False) of Inr (r # _) \<Rightarrow> r | _ \<Rightarrow> demo_destroy)"

lemma demo_desired: "desired_reconciliations (demo_er_env False) = Inr [demo_apply]"
  unfolding demo_apply_def by code_simp

lemma demo_apply_facts: "rc_key demo_apply = demo_er_key" "rc_resource_hash demo_apply = ''h''" "linked_of demo_apply = []"
  "rc_action demo_apply = Apply" "mc_drift_minutes (rc_module_configuration demo_apply) = 60"
  "mc_overridden (rc_module_configuration demo_apply) = False"
  by code_simp+

lemma demo_none_deleted: "deleted_reconciliations (demo_er_env False) rows = []"
  by (simp add: deleted_reconciliations_def demo_er_defs Let_def)

lemma secret_sync_hides_job_witness:
  "\<exists>s. row_of (ew_rows (demo_er_run False PendingSecretSync)) demo_er_key = Some s \<and> et_status s = Created"
proof -
  have "spec_changed demo_apply (demo_er_state PendingSecretSync)"
    by (simp add: spec_changed_def demo_apply_facts demo_er_state_def empty_reconciliation_def)
  moreover have "en_sync_errors (demo_er_env False) = (\<lambda>_. [])" by (simp add: demo_er_env_def)
  ultimately show ?thesis
    using secret_sync_hides_job [OF demo_env_ok demo_rows_ok demo_run_pending demo_desired, of demo_apply "demo_er_state PendingSecretSync"]
      demo_row [of PendingSecretSync]
    by (auto simp: demo_apply_facts demo_none_deleted linked_paths_def demo_er_state_def)
qed

definition demo_settled_world :: er_world where
  "demo_settled_world = (demo_er_world Created)\<lparr>ew_rows :=
     [(state_path demo_er_key, (demo_er_state Created)\<lparr>et_reconciliation := demo_apply\<rparr>)]\<rparr>"

lemma settled_run_changes_nothing_witness: "handle_resources (demo_er_env False) demo_settled_world = Inr demo_settled_world"
proof (rule settled_run_changes_nothing [OF demo_env_ok demo_desired])
  show "deleted_reconciliations (demo_er_env False) (ew_rows demo_settled_world) = []" by (rule demo_none_deleted)
  show "pending_keys (ew_rows demo_settled_world) = []"
    by (simp add: pending_keys_def demo_settled_world_def demo_er_state_def)
  show "\<exists>s. row_of (ew_rows demo_settled_world) (rc_key r) = Some s \<and> et_status s = Created \<and> \<not> stale (en_now (demo_er_env False)) r s"
    if "r \<in> set [demo_apply]" for r
    using that by (simp add: row_of_def demo_settled_world_def demo_apply_facts stale_def spec_changed_def
        module_config_overridden_def drift_ttl_expired_def demo_er_state_def demo_er_env_def)
qed

section \<open>A table\<close>

definition demo_read_int :: "string \<Rightarrow> int option" where
  "demo_read_int s =
     (case s of c # ds \<Rightarrow> if c = CHR ''-'' then Some (- int (digits_value ds)) else Some (int (digits_value s)) | [] \<Rightarrow> None)"

definition demo_state_lib :: state_lib where
  \<comment> \<open>times as numbers\<close>
  "demo_state_lib = \<lparr>sl_show_time = py_str_int, sl_read_time = demo_read_int, sl_read_int = demo_read_int\<rparr>"

lemma demo_reads_int: "demo_read_int (py_str_int n) = Some n"
proof (cases "n < 0")
  case True
  then show ?thesis using show_digits_spec [of "nat (- n)"] by (simp add: demo_read_int_def py_str_int_def)
next
  case False
  obtain c cs where c: "show_digits (nat n) = c # cs" "is_digit c"
    using show_digits_spec [of "nat n"] by (cases "show_digits (nat n)") auto
  then have "c \<noteq> CHR ''-''" by (auto simp: is_digit_def)
  with c False show_digits_spec [of "nat n"] show ?thesis by (simp add: demo_read_int_def py_str_int_def)
qed

lemma demo_lib_ok: "lib_ok demo_state_lib"
  by (simp add: lib_ok_def demo_state_lib_def demo_reads_int)

interpretation demo_adapter: state_adapter demo_state_lib
  by unfold_locales (rule demo_lib_ok)

lemma demo_storable: "storable (demo_er_state Created)"
  by (simp add: storable_def demo_er_state_def empty_reconciliation_def default_configuration_def no_resources_def
      strings_of_key_def strings_of_resources_def demo_er_key_def none_str_def)

lemma state_reads_back_witness:
  "deserialize demo_state_lib False (serialize demo_state_lib (demo_er_state Created)) = Inr (demo_er_state Created)"
  using state_reads_back [OF demo_lib_ok demo_storable]
  by (simp add: stored_def stored_reconciliation_def stored_configuration_def demo_er_state_def empty_reconciliation_def
      default_configuration_def)

lemma table_implements_store_witness:
  "represents demo_state_lib (set_external_resource_state demo_state_lib (demo_er_state Created) []) (put_row (demo_er_state Created) [])"
proof -
  have "represents demo_state_lib [] []" by (simp add: represents_def)
  from table_implements_store [OF demo_lib_ok this demo_storable] show ?thesis by blast
qed

lemma demo_table_after_writing:
  "demo_adapter.valid_state (set_external_resource_state demo_state_lib (demo_er_state Created) []) demo_er_key =
     Some (stored (demo_er_state Created))"
  using demo_adapter.dynamo.put_own [OF demo_storable, of "[]"] by (simp add: demo_er_state_def)

section \<open>A replica of itself\<close>

definition demo_replica :: er_spec where
  "demo_replica = (demo_er_spec False)\<lparr>es_provider := ''rds'', es_identifier := ''db'', es_resource := [(''replica_source'', JStr ''db'')]\<rparr>"

definition demo_replica_env :: er_env where
  "demo_replica_env = (demo_er_env False)\<lparr>en_factory := (en_factory (demo_er_env False))\<lparr>
     fe_inventory := [(key_from_spec demo_replica, demo_replica)], fe_modules := [((''aws'', ''rds''), demo_er_module)]\<rparr>\<rparr>"

lemma demo_replica_source:
  "rds_source (fe_lib (en_factory demo_replica_env)) (fe_inventory (en_factory demo_replica_env)) demo_replica = Some demo_replica"
  by code_simp

lemma demo_replica_unresolved: "aws_resolve (en_factory demo_replica_env) demo_replica mc = Inl RecursionError"
  using demo_replica_source
  by (intro replica_cycle_never_resolves [where C = "{demo_replica}"]) (simp_all add: demo_replica_def)

lemma invalid_resource_stops_the_run_witness: "\<exists>e. handle_resources demo_replica_env (demo_er_world Created) = Inl e"
proof -
  have "resolve_configuration demo_er_module demo_replica (fe_settings (en_factory demo_replica_env)) =
      Inr (case resolve_configuration demo_er_module demo_replica (fe_settings (en_factory demo_replica_env)) of Inr c \<Rightarrow> c
           | Inl _ \<Rightarrow> default_configuration)" by code_simp
  moreover have "module_from_spec (fe_modules (en_factory demo_replica_env)) demo_replica = Inr demo_er_module" by code_simp
  moreover have "build_external_resource (en_factory demo_replica_env) demo_replica mc = Inl RecursionError" for mc
    by (simp add: build_external_resource_def demo_replica_unresolved) (simp add: demo_replica_def demo_er_spec_def)
  moreover have "(key_from_spec demo_replica, demo_replica) \<in> set (en_inventory demo_replica_env)" "\<not> es_delete demo_replica"
    by (simp_all add: demo_replica_env_def demo_replica_def demo_er_spec_def)
  ultimately show ?thesis using invalid_resource_stops_the_run by blast
qed

end
