(* ===== verification/Er_Secrets.thy ===== *)
theory Er_Secrets
  imports Er_Model Differ
begin

text \<open>
  The synchronisation of output secrets, \<open>reconcile/external_resources/secrets_sync.py\<close>: from the secret that a
  module leaves in the workers' namespace to the namespace of the resource and to Vault. Base64, JSON, the digests,
  the rendering of a secret and the calls that may fail are the parameter \<open>secrets_lib\<close>.
\<close>

section \<open>Comparing secrets\<close>

definition updated_at :: string where "updated_at = ''external-resources/updated_at''"

record secret_resource =
  sr_name :: string
  sr_annotations :: "(string, string) dict"
  sr_data :: "(string, string) dict"

record secrets_lib =
  sc_b64decode :: "string \<Rightarrow> string option"
  sc_vault_ref :: "string \<Rightarrow> string option"
    \<comment> \<open>the value of the secret that a JSON reference names\<close>
  sc_json_annotations :: "json \<Rightarrow> (string, string) dict option"
  sc_spec_hash :: "string \<Rightarrow> string"
  sc_same_hash :: "secret_resource \<Rightarrow> secret_resource \<Rightarrow> bool"
    \<comment> \<open>\<open>three_way_diff_using_hash\<close>\<close>
  sc_build :: "er_spec \<Rightarrow> (string, string) dict \<Rightarrow> er_error + secret_resource"
    \<comment> \<open>\<open>build_oc_secret\<close> and \<open>annotate\<close>, from the annotations\<close>
  sc_apply_fails :: "string \<times> string \<Rightarrow> secret_resource \<Rightarrow> bool"
  sc_vault_fails :: "string \<Rightarrow> bool"
  sc_delete_fails :: "string \<Rightarrow> bool"
  sc_now :: string

definition get_comparable_secret :: "secret_resource \<Rightarrow> secret_resource" where
  "get_comparable_secret r = r\<lparr>sr_annotations := filter (\<lambda>(k, _). k \<noteq> updated_at) (sr_annotations r)\<rparr>"

definition is_newer :: "secret_resource \<Rightarrow> secret_resource \<Rightarrow> bool" where
  "is_newer a b =
     (case (dict_get (sr_annotations a) updated_at, dict_get (sr_annotations b) updated_at) of
        (Some x, Some y) \<Rightarrow> y < x
      | _ \<Rightarrow> False)"

definition compare_secrets :: "secrets_lib \<Rightarrow> secret_resource \<Rightarrow> secret_resource \<Rightarrow> bool" where
  "compare_secrets lib current desired =
     (if \<not> dict_has (sr_annotations current) updated_at then False
      else if is_newer current desired then True
      else sc_same_hash lib (get_comparable_secret current) (get_comparable_secret desired))"

section \<open>Formatting the outputs\<close>

fun split_once :: "string \<Rightarrow> string \<Rightarrow> string option" where
  \<comment> \<open>what follows the first occurrence of a separator\<close>
  "split_once sep [] = (if sep = [] then Some [] else None)"
| "split_once sep (c # cs) =
     (if take (length sep) (c # cs) = sep then Some (drop (length sep) (c # cs)) else split_once sep cs)"

definition format_key :: "string \<Rightarrow> string" where
  "format_key key =
     (let key = (case split_once ''__'' key of None \<Rightarrow> key | Some rest \<Rightarrow> rest)
      in if take 3 key = ''db_'' then ''db.'' @ drop 3 key else key)"

fun remove_all :: "string \<Rightarrow> string \<Rightarrow> nat \<Rightarrow> string" where
  \<comment> \<open>\<open>replace(sep, '')\<close>; the number is what is left of an occurrence\<close>
  "remove_all sep [] n = []"
| "remove_all sep (c # cs) (Suc n) = remove_all sep cs n"
| "remove_all sep (c # cs) 0 =
     (if take (length sep) (c # cs) = sep then remove_all sep cs (length sep - 1) else c # remove_all sep cs 0)"

definition vault_mark :: string where "vault_mark = ''__vault__:''"

definition format_value :: "secrets_lib \<Rightarrow> string \<Rightarrow> er_error + string" where
  "format_value lib v =
     rbind (of_opt ValueError (sc_b64decode lib v)) (\<lambda>d.
       if take (length vault_mark) d = vault_mark
       then of_opt ValueError (sc_vault_ref lib (remove_all vault_mark d 0)) else Inr d)"

definition format_outputs :: "secrets_lib \<Rightarrow> (string, string) dict \<Rightarrow> er_error + (string, string) dict" where
  "format_outputs lib outputs =
     rbind (rmap (\<lambda>(k, v). rbind (format_value lib v) (\<lambda>v. Inr (format_key k, v))) outputs) (\<lambda>ps. Inr (dict_of ps))"

section \<open>From the workers to the target\<close>

record secrets_world =
  sw_source :: "(string, (string, string) dict) dict"
    \<comment> \<open>in the workers' namespace\<close>
  sw_targets :: "(string \<times> string, (string, secret_resource) dict) dict"
    \<comment> \<open>by cluster and namespace\<close>
  sw_vault :: "(string, (string, string) dict) dict"

definition spec_hash :: "secrets_lib \<Rightarrow> er_spec \<Rightarrow> string" where
  "spec_hash lib spec = sc_spec_hash lib
     (es_provision_provider spec @ ''-'' @ provisioner_name spec @ ''-'' @ es_provider spec @ ''-'' @ es_identifier spec)"

definition outputs_secret_name :: "secrets_lib \<Rightarrow> er_spec \<Rightarrow> string" where
  "outputs_secret_name lib spec = ''external-resources-output-'' @ spec_hash lib spec"

definition populate_spec :: "secrets_lib \<Rightarrow> secrets_world \<Rightarrow> (string, er_spec) dict \<Rightarrow> er_spec \<Rightarrow> er_error + er_spec" where
  \<comment> \<open>a secret goes to the last of the specifications with its name\<close>
  "populate_spec lib w secrets_map spec =
     (let name = outputs_secret_name lib spec in
      case dict_get (sw_source w) name of
        None \<Rightarrow> Inr spec
      | Some outputs \<Rightarrow>
          if dict_get secrets_map name = Some spec
          then rbind (format_outputs lib outputs) (\<lambda>sec. Inr (spec\<lparr>es_secret := sec\<rparr>)) else Inr spec)"

definition populate_secret_data :: "secrets_lib \<Rightarrow> secrets_world \<Rightarrow> er_spec list \<Rightarrow> er_error + er_spec list" where
  "populate_secret_data lib w specs =
     rmap (populate_spec lib w (dict_of (map (\<lambda>s. (outputs_secret_name lib s, s)) specs))) specs"

definition secret_annotations :: "secrets_lib \<Rightarrow> er_spec \<Rightarrow> (string, string) dict" where
  "secret_annotations lib spec =
     (let annotations = (case dict_get (es_resource spec) ''annotations'' of
            None \<Rightarrow> [] | Some j \<Rightarrow> (case sc_json_annotations lib j of None \<Rightarrow> [] | Some a \<Rightarrow> a))
      in dict_update annotations
           [(''external-resources/provision_provider'', es_provision_provider spec),
            (''external-resources/provisioner_name'', provisioner_name spec),
            (''external-resources/provider'', es_provider spec),
            (''external-resources/identifier'', es_identifier spec), (updated_at, sc_now lib)])"

type_synonym desired_secrets = "(string \<times> string, (string, secret_resource) dict) dict"

definition target_of :: "er_spec \<Rightarrow> string \<times> string" where
  "target_of spec = (ns_cluster (es_namespace spec), ns_name (es_namespace spec))"

definition add_secret_to_ri :: "secrets_lib \<Rightarrow> desired_secrets \<Rightarrow> er_spec \<Rightarrow> er_error + desired_secrets" where
  "add_secret_to_ri lib ri spec =
     rbind (sc_build lib spec (secret_annotations lib spec)) (\<lambda>r.
       let desired = get_or ri (target_of spec) [] in
       if dict_has desired (output_resource_name spec) then Inl KeyMissing
       else Inr (dict_set ri (target_of spec) (dict_set desired (output_resource_name spec) r)))"

definition items_to_update ::
  "secrets_lib \<Rightarrow> (string, secret_resource) dict \<Rightarrow> (string, secret_resource) dict \<Rightarrow> secret_resource list" where
  "items_to_update lib current desired =
     (let diff = diff_mappings (filter (\<lambda>(n, _). dict_has desired n) current) desired (compare_secrets lib)
      in map dp_desired (dict_values (dr_change diff)) @ dict_values (dr_add diff))"

definition reconcile_target ::
  "secrets_lib \<Rightarrow> secrets_world \<times> bool \<Rightarrow> (string \<times> string) \<times> (string, secret_resource) dict \<Rightarrow> secrets_world \<times> bool" where
  "reconcile_target lib = (\<lambda>(w, failed) (target, desired).
     foldl (\<lambda>(w, failed) r.
         if sc_apply_fails lib target r then (w, True)
         else (w\<lparr>sw_targets := dict_set (sw_targets w) target (dict_set (get_or (sw_targets w) target []) (sr_name r) r)\<rparr>, failed))
       (w, failed) (items_to_update lib (get_or (sw_targets w) target []) desired))"

definition sync_to_clusters ::
  "secrets_lib \<Rightarrow> secrets_world \<Rightarrow> er_spec list \<Rightarrow> er_error + secrets_world \<times> bool \<times> er_spec list" where
  \<comment> \<open>with the populated specifications and whether an error was registered\<close>
  "sync_to_clusters lib w specs =
     rbind (populate_secret_data lib w specs) (\<lambda>specs.
     rbind (rfold (add_secret_to_ri lib) [] (filter (\<lambda>s. es_secret s \<noteq> []) specs)) (\<lambda>ri.
       case foldl (reconcile_target lib) (w, False) ri of (w, failed) \<Rightarrow> Inr (w, failed, specs)))"

definition secret_path :: "string \<Rightarrow> er_spec \<Rightarrow> string" where
  "secret_path vault_path spec =
     vault_path @ ''/'' @ ns_cluster (es_namespace spec) @ ''/'' @ ns_name (es_namespace spec) @ ''/'' @ output_resource_name spec"

definition write_and_delete ::
  "secrets_lib \<Rightarrow> string \<Rightarrow> secrets_world \<times> er_spec list \<Rightarrow> er_spec \<Rightarrow> secrets_world \<times> er_spec list" where
  "write_and_delete lib vault_path = (\<lambda>(w, errors) spec.
     let path = secret_path vault_path spec; name = outputs_secret_name lib spec in
     if sc_vault_fails lib path then (w, errors @ [spec])
     else let w = w\<lparr>sw_vault := dict_set (sw_vault w) path (dict_set (es_secret spec) updated_at (sc_now lib))\<rparr> in
       if sc_delete_fails lib name then (w, errors @ [spec])
       else (w\<lparr>sw_source := filter (\<lambda>(n, _). n \<noteq> name) (sw_source w)\<rparr>, errors))"

definition incluster_sync_secrets ::
  "secrets_lib \<Rightarrow> string \<Rightarrow> secrets_world \<Rightarrow> er_spec list \<Rightarrow> secrets_world \<times> er_spec list" where
  \<comment> \<open>an exception on the way leaves the effects so far in the clusters out of sight\<close>
  "incluster_sync_secrets lib vault_path w specs =
     (case sync_to_clusters lib w specs of
        Inl _ \<Rightarrow> (w, specs)
      | Inr (w, failed, specs) \<Rightarrow>
          foldl (write_and_delete lib vault_path) (w, if failed then specs else []) (filter (\<lambda>s. es_secret s \<noteq> []) specs))"

section \<open>What is reported\<close>

text \<open>A specification that has no outputs in the workers' namespace is left out and not reported as an error, so the
  manager takes its secret for synchronised.\<close>

lemma populate_without_outputs:
  assumes "\<And>s. s \<in> set specs \<Longrightarrow> dict_get (sw_source w) (outputs_secret_name lib s) = None"
  shows "populate_secret_data lib w specs = Inr specs"
  unfolding populate_secret_data_def
  using rmap_all_Inr [of specs "populate_spec lib w (dict_of (map (\<lambda>s. (outputs_secret_name lib s, s)) specs))" "\<lambda>s. s"] assms
  by (simp add: populate_spec_def Let_def)

lemma missing_outputs_go_unnoticed_aux:
  assumes "\<And>s. s \<in> set specs \<Longrightarrow> dict_get (sw_source w) (outputs_secret_name lib s) = None"
    and "\<And>s. s \<in> set specs \<Longrightarrow> es_secret s = []"
  shows "incluster_sync_secrets lib vault_path w specs = (w, [])"
proof -
  have none: "filter (\<lambda>s. es_secret s \<noteq> []) specs = []" using assms(2) by (auto simp: filter_empty_conv)
  have "populate_secret_data lib w specs = Inr specs" by (rule populate_without_outputs) (rule assms(1))
  then show ?thesis by (simp add: incluster_sync_secrets_def sync_to_clusters_def none)
qed

text \<open>The outputs of a module are deleted only after they are in Vault.\<close>

lemma write_and_delete_keeps:
  assumes "write_and_delete lib vp (w, errors) spec = (w', errors')"
    "dict_get (sw_source w) n = Some d" "dict_get (sw_source w') n = None"
  shows "n = outputs_secret_name lib spec \<and>
    dict_get (sw_vault w') (secret_path vp spec) = Some (dict_set (es_secret spec) updated_at (sc_now lib))"
  using assms by (auto simp: write_and_delete_def Let_def dict_simps map_of_filter_keys split: if_splits)

lemma items_to_update_new:
  "\<not> dict_has current n \<Longrightarrow> items_to_update lib current [(n, r)] = [r]"
  by (force simp: items_to_update_def diff_mappings_def common_pairs_def dict_has_def Let_def map_of_filter_keys
      concat_eq_Nil_conv filter_empty_conv map_of_eq_None_iff)

text \<open>A secret that could not be applied to its cluster is written to Vault and its outputs are deleted all
  the same; the resource is reported as failed in this run, but in the next one nothing is left to do for it and
  it counts as synchronised, while the secret is still missing in the cluster.\<close>

theorem failed_secret_sync_is_forgotten:
  assumes outputs: "dict_get (sw_source w) (outputs_secret_name lib spec) = Some outputs" "wf_dict (sw_source w)"
    and formatted: "format_outputs lib outputs = Inr sec" "sec \<noteq> []"
    and built: "\<And>sp ann. sc_build lib sp ann = Inr r"
    and missing: "es_secret spec = []" "\<not> dict_has (get_or (sw_targets w) (target_of spec) []) (output_resource_name spec)"
    and fails: "sc_apply_fails lib (target_of spec) r" "\<not> sc_vault_fails lib (secret_path vp spec)"
      "\<not> sc_delete_fails lib (outputs_secret_name lib spec)"
  shows "\<exists>w'. incluster_sync_secrets lib vp w [spec] = (w', [spec\<lparr>es_secret := sec\<rparr>]) \<and>
    sw_targets w' = sw_targets w \<and> incluster_sync_secrets lib vp w' [spec] = (w', [])"
proof -
  let ?spec = "spec\<lparr>es_secret := sec\<rparr>"
  have pre: "output_prefix ?spec = output_prefix spec" by (simp add: output_prefix_def)
  have name: "output_resource_name ?spec = output_resource_name spec" unfolding output_resource_name_def pre by simp
  have same: "target_of ?spec = target_of spec" "output_resource_name ?spec = output_resource_name spec"
    "secret_path vp ?spec = secret_path vp spec" "outputs_secret_name lib ?spec = outputs_secret_name lib spec"
    by (simp_all add: target_of_def name secret_path_def outputs_secret_name_def spec_hash_def)
  have pop: "populate_secret_data lib w [spec] = Inr [?spec]"
    using outputs formatted by (simp add: populate_secret_data_def populate_spec_def dict_of_def dict_update_def Let_def)
  have ri: "rfold (add_secret_to_ri lib) [] [?spec] = Inr [(target_of spec, [(output_resource_name spec, r)])]"
    by (simp add: add_secret_to_ri_def built same get_or_def dict_has_def)
  have "sync_to_clusters lib w [spec] = Inr (w, True, [?spec])"
    using formatted(2) ri fails(1) missing(2)
    by (simp add: sync_to_clusters_def pop reconcile_target_def items_to_update_new)
  then have run: "incluster_sync_secrets lib vp w [spec] =
      (w\<lparr>sw_vault := dict_set (sw_vault w) (secret_path vp spec) (dict_set sec updated_at (sc_now lib)),
         sw_source := filter (\<lambda>(n, _). n \<noteq> outputs_secret_name lib spec) (sw_source w)\<rparr>, [?spec])"
    using formatted(2) fails by (simp add: incluster_sync_secrets_def write_and_delete_def same Let_def)
  then show ?thesis
    using missing_outputs_go_unnoticed_aux [of "[spec]" _ lib vp] missing(1)
    by (intro exI [of _ "fst (incluster_sync_secrets lib vp w [spec])"]) (simp add: map_of_filter_keys)
qed

definition demo_secret :: secret_resource where
  "demo_secret = \<lparr>sr_name = ''logs-cloudwatch'', sr_annotations = [], sr_data = []\<rparr>"

definition demo_secrets_lib :: secrets_lib where
  "demo_secrets_lib = \<lparr>sc_b64decode = Some, sc_vault_ref = (\<lambda>_. None), sc_json_annotations = (\<lambda>_. None),
     sc_spec_hash = (\<lambda>s. s), sc_same_hash = (=), sc_build = (\<lambda>_ _. Inr demo_secret), sc_apply_fails = (\<lambda>_ _. True),
     sc_vault_fails = (\<lambda>_. False), sc_delete_fails = (\<lambda>_. False), sc_now = ''now''\<rparr>"

definition demo_secret_spec :: er_spec where
  "demo_secret_spec = \<lparr>es_provision_provider = ''aws'',
     es_provisioner = \<lparr>pv_name = ''acc'', pv_channel = None, pv_default_region = ''us-east-1'', pv_supported_regions = None,
       pv_api_credentials = []\<rparr>,
     es_provider = ''cloudwatch'', es_identifier = ''logs'', es_resource = [],
     es_namespace = \<lparr>ns_name = ''ns'', ns_cluster = ''c'', ns_delete = False, ns_managed = True, ns_environment = ''prod'',
       ns_environment_type = None, ns_service_phase = None, ns_environment_cost_center = None, ns_app = ''app'',
       ns_app_code = None, ns_app_cost_center = None\<rparr>,
     es_delete = False, es_module_overrides = None, es_secret = []\<rparr>"

definition demo_secrets_world :: secrets_world where
  "demo_secrets_world = \<lparr>sw_source = [(''external-resources-output-aws-acc-cloudwatch-logs'', [(''log__db_host'', ''h'')])],
     sw_targets = [], sw_vault = []\<rparr>"

lemma failed_secret_sync_is_forgotten_witness:
  "\<exists>w'. incluster_sync_secrets demo_secrets_lib ''v'' demo_secrets_world [demo_secret_spec] =
      (w', [demo_secret_spec\<lparr>es_secret := [(''db.host'', ''h'')]\<rparr>]) \<and>
    sw_targets w' = sw_targets demo_secrets_world \<and>
    incluster_sync_secrets demo_secrets_lib ''v'' w' [demo_secret_spec] = (w', [])"
proof (rule failed_secret_sync_is_forgotten [where outputs = "[(''log__db_host'', ''h'')]" and r = demo_secret])
  show "format_outputs demo_secrets_lib [(''log__db_host'', ''h'')] = Inr [(''db.host'', ''h'')]" by code_simp
  show "dict_get (sw_source demo_secrets_world) (outputs_secret_name demo_secrets_lib demo_secret_spec) = Some [(''log__db_host'', ''h'')]"
    by code_simp
qed (simp_all add: demo_secrets_lib_def demo_secrets_world_def demo_secret_spec_def dict_has_def get_or_def)

end
