(* ===== verification/Sapm_Slo.thy ===== *)
theory Sapm_Slo
  imports Py_Prelude Complex_Main
begin

text \<open>
  The check of service level objectives (\<open>reconcile/utils/slo_document_manager.py\<close>): for each namespace of a document
  the manager asks the Prometheus of the namespace for the current value of each objective. Prometheus, the template
  engine, the secret reader and the parsing of floating point numbers are parameters; a number is a rational.
\<close>

section \<open>Errors of the integration\<close>

datatype sapm_error =
  SaasFileInventoryError
| BadStateKey
| BadPromotionData
| BadTimestamp
| UnsupportedRepo string
| CommitNotFound
| SloTemplateError
| SloConnectionError
| SloRetrievalError
| NoAutomationToken string
| SecretNotFound string
| SloKeyError
| MissingSourceBranch
| GitlabGetError int
| YamlKeyError
| InvalidJsonpath string
| InvalidSelector
| UnknownContentHash
| NoPublisher
| DescriptionWithoutData
| MergeRequestProcessingError

section \<open>Objectives and documents\<close>

record slo =
  slo_name :: string
  slo_expr :: string
  slo_window :: string
  slo_target :: rat

record prometheus_access =
  pa_url :: string
  pa_username :: "string option"
  pa_password :: "string option"

record slo_namespace =
  sn_name :: string
  sn_app_name :: string
  sn_cluster_name :: string
  sn_automation_token :: "string option"
  sn_prometheus_url :: string
  sn_prometheus_access :: "prometheus_access option"

record slo_document =
  sd_name :: string
  sd_namespaces :: "slo_namespace list"
  sd_slos :: "slo list"

record namespace_slo_document =
  nd_name :: string
  nd_namespace :: slo_namespace
  nd_slos :: "slo list"

record slo_details =
  de_namespace_name :: string
  de_slo_document_name :: string
  de_cluster_name :: string
  de_slo :: slo
  de_service_name :: string
  de_current_slo_value :: rat

section \<open>The Prometheus client\<close>

datatype prom_auth = BasicAuth string string | BearerToken string | NoAuth

record prom_client =
  pc_host :: string
  pc_auth :: prom_auth

datatype py_float = NaN | Num rat

datatype prom_answer =
  ConnectionFailed
| RequestFailed
| Results "string list list"
  \<comment> \<open>of each result its value: the time and the number\<close>

record slo_lib =
  sl_render :: "string \<Rightarrow> string \<Rightarrow> string option"
  sl_query :: "prom_client \<Rightarrow> string \<Rightarrow> prom_answer"
  sl_float :: "string \<Rightarrow> py_float option"
  sl_read_secret :: "string \<Rightarrow> string option"

definition extract_current_slo_value :: "slo_lib \<Rightarrow> string list list \<Rightarrow> rat option" where
  \<comment> \<open>\<open>None\<close>: one of the exceptions, all of which the caller treats alike\<close>
  "extract_current_slo_value lib results =
     (case results of
        [] \<Rightarrow> None
      | (_ # number # _) # _ \<Rightarrow>
          (case sl_float lib number of None \<Rightarrow> None | Some NaN \<Rightarrow> None | Some (Num v) \<Rightarrow> Some v)
      | _ # _ \<Rightarrow> None)"

definition get_current_slo_value ::
  "slo_lib \<Rightarrow> prom_client \<Rightarrow> namespace_slo_document \<Rightarrow> slo \<Rightarrow> sapm_error + slo_details option" where
  "get_current_slo_value lib client doc s =
     rbind (of_opt SloTemplateError (sl_render lib (slo_expr s) (slo_window s))) (\<lambda>query.
     case sl_query lib client query of
       ConnectionFailed \<Rightarrow> Inl SloConnectionError
     | RequestFailed \<Rightarrow> Inr None
     | Results rs \<Rightarrow> Inr (map_option (\<lambda>v. \<lparr>de_namespace_name = sn_name (nd_namespace doc), de_slo_document_name = nd_name doc,
         de_cluster_name = sn_cluster_name (nd_namespace doc), de_slo = s,
         de_service_name = sn_app_name (nd_namespace doc), de_current_slo_value = v\<rparr>)
         (extract_current_slo_value lib rs)))"

definition get_host_url :: "slo_namespace \<Rightarrow> string" where
  "get_host_url n = (case sn_prometheus_access n of Some a \<Rightarrow> pa_url a | None \<Rightarrow> sn_prometheus_url n)"

definition read_slo_secret :: "slo_lib \<Rightarrow> string \<Rightarrow> sapm_error + string" where
  "read_slo_secret lib path = of_opt (SecretNotFound path) (sl_read_secret lib path)"

definition build_auth_for_prometheus_access :: "slo_lib \<Rightarrow> prometheus_access \<Rightarrow> sapm_error + prom_auth" where
  "build_auth_for_prometheus_access lib a =
     (case (pa_username a, pa_password a) of
        (Some u, Some p) \<Rightarrow>
          rbind (read_slo_secret lib u) (\<lambda>user. rbind (read_slo_secret lib p) (\<lambda>pw. Inr (BasicAuth user pw)))
      | _ \<Rightarrow> Inr NoAuth)"

definition build_prom_client_from_namespace :: "slo_lib \<Rightarrow> slo_namespace \<Rightarrow> sapm_error + prom_client" where
  "build_prom_client_from_namespace lib n =
     (case sn_prometheus_access n of
        Some a \<Rightarrow> rbind (build_auth_for_prometheus_access lib a) (\<lambda>auth. Inr \<lparr>pc_host = pa_url a, pc_auth = auth\<rparr>)
      | None \<Rightarrow> (case sn_automation_token n of
          None \<Rightarrow> Inl (NoAutomationToken (sn_cluster_name n))
        | Some t \<Rightarrow> rbind (read_slo_secret lib t) (\<lambda>token.
            Inr \<lparr>pc_host = sn_prometheus_url n, pc_auth = BearerToken token\<rparr>)))"

definition build_pc_map ::
  "slo_lib \<Rightarrow> namespace_slo_document list \<Rightarrow> sapm_error + (string, prom_client) dict" where
  "build_pc_map lib docs = rfold (\<lambda>m doc.
     let key = get_host_url (nd_namespace doc)
     in if dict_has m key then Inr m
        else rbind (build_prom_client_from_namespace lib (nd_namespace doc)) (\<lambda>c. Inr (dict_set m key c))) [] docs"

section \<open>The manager\<close>

definition build_namespace_slo_documents :: "slo_document list \<Rightarrow> namespace_slo_document list" where
  "build_namespace_slo_documents docs =
     concat (map (\<lambda>d. map (\<lambda>n. \<lparr>nd_name = sd_name d, nd_namespace = n, nd_slos = sd_slos d\<rparr>) (sd_namespaces d)) docs)"

definition get_current_slo_details_list ::
  "slo_lib \<Rightarrow> (string, prom_client) dict \<Rightarrow> namespace_slo_document \<Rightarrow> sapm_error + slo_details option list" where
  "get_current_slo_details_list lib pc_map doc =
     rbind (of_opt SloKeyError (dict_get pc_map (get_host_url (nd_namespace doc)))) (\<lambda>client.
       rmap (get_current_slo_value lib client doc) (nd_slos doc))"

definition get_current_slo_list :: "slo_lib \<Rightarrow> slo_document list \<Rightarrow> sapm_error + slo_details option list" where
  "get_current_slo_list lib docs =
     (let nds = build_namespace_slo_documents docs
      in rbind (build_pc_map lib nds) (\<lambda>pc_map.
         rbind (rmap (get_current_slo_details_list lib pc_map) nds) (\<lambda>ls. Inr (concat ls))))"

definition get_breached_slos :: "slo_lib \<Rightarrow> slo_document list \<Rightarrow> sapm_error + slo_details list" where
  "get_breached_slos lib docs =
     rbind (get_current_slo_list lib docs) (\<lambda>current.
       if None \<in> set current then Inl SloRetrievalError
       else Inr (filter (\<lambda>d. de_current_slo_value d < slo_target (de_slo d)) (List.map_filter id current)))"

section \<open>What the check promises\<close>

lemma breached_none_iff_aux:
  "get_breached_slos lib docs = Inr [] \<longleftrightarrow>
   (\<exists>current. get_current_slo_list lib docs = Inr current \<and>
     (\<forall>d \<in> set current. \<exists>v. d = Some v \<and> slo_target (de_slo v) \<le> de_current_slo_value v))"
proof (cases "get_current_slo_list lib docs")
  case (Inr current)
  have "set (List.map_filter id current) = {v. Some v \<in> set current}"
    by (force simp: map_filter_def)
  then have "filter (\<lambda>d. de_current_slo_value d < slo_target (de_slo d)) (List.map_filter id current) = [] \<longleftrightarrow>
      (\<forall>v. Some v \<in> set current \<longrightarrow> slo_target (de_slo v) \<le> de_current_slo_value v)"
    by (auto simp: filter_empty_conv not_less)
  moreover have "(\<forall>d \<in> set current. \<exists>v. d = Some v \<and> P v) \<longleftrightarrow>
      None \<notin> set current \<and> (\<forall>v. Some v \<in> set current \<longrightarrow> P v)" for P
    by (metis not_Some_eq option.inject)
  ultimately show ?thesis by (simp add: get_breached_slos_def Inr)
qed (simp add: get_breached_slos_def)

end
