(* ===== verification/Sapm_Inventory.thy ===== *)
theory Sapm_Inventory
  imports Sapm_Slo Json_Path
begin

text \<open>
  The SaaS files, the promotions recorded in S3, and the publishers, channels and subscribers that the saas auto
  promotions manager builds from them: \<open>utils/saas_files_inventory.py\<close>, \<open>publisher.py\<close>, \<open>s3_exporter.py\<close> of
  \<open>reconcile/saas_auto_promotions_manager/\<close>, \<open>reconcile/utils/promotion_state.py\<close> and the part of
  \<open>reconcile/utils/vcs.py\<close> that resolves a reference. A channel refers to its publishers by their position in the
  list of publishers, a subscriber to its channels by their name: the objects the code shares. The digests, the
  GitHub and GitLab clients, the pydantic validation of a stored promotion and the parsing of a time stamp are
  parameters. A time is a number of microseconds.
\<close>

section \<open>SaaS files\<close>

record saas_namespace =
  na_name :: string
  na_path :: string
  na_cluster_name :: string
  na_json :: json
  \<comment> \<open>its dump by alias, without the missing fields\<close>

datatype channel_data =
  ParentSaasPromotion "string option" "string option"
  \<comment> \<open>\<open>parent_saas\<close> and \<open>target_config_hash\<close>\<close>
| OtherChannelData

record promotion_channel =
  ch_channel :: "string option"
  ch_data :: "channel_data list"

record target_promotion =
  tp_auto :: bool
  tp_publish :: "string list"
  tp_subscribe :: "string list"
  tp_redeploy_on_publisher_config_change :: bool
  tp_soak_days :: "int option"
  tp_schedule :: "string option"
  tp_promotion_data :: "promotion_channel list"

record saas_target =
  tg_path :: "string option"
  tg_name :: "string option"
  tg_namespace :: saas_namespace
  tg_ref :: string
  tg_promotion :: "target_promotion option"
  tg_slos :: "slo_document list"
  tg_disable :: bool
  tg_delete :: bool

record resource_template =
  rt_name :: string
  rt_url :: string
  rt_targets :: "saas_target list"

record code_component =
  cc_url :: string
  cc_blocked_versions :: "string list"
  cc_hotfix_versions :: "string list"

record saas_file =
  sf_path :: string
  sf_name :: string
  sf_app_name :: string
  sf_code_components :: "code_component list"
  sf_auth_code :: "string option"
  sf_resource_templates :: "resource_template list"

record promotion_data =
  pd_success :: bool
  pd_target_config_hash :: "string option"
  pd_saas_file :: "string option"
  pd_check_in :: "string option"
  pd_has_succeeded_once :: "bool option"

record publisher_lib =
  pl_fips :: bool
  pl_sha256_hex :: "string \<Rightarrow> string"
  pl_blake2s_hex :: "string \<Rightarrow> string"
  pl_github_sha :: "string \<Rightarrow> string option \<Rightarrow> string \<Rightarrow> string option"
  pl_gitlab_sha :: "string \<Rightarrow> string \<Rightarrow> string option"
  pl_promotion_data :: "json \<Rightarrow> promotion_data option"
  pl_fromisoformat :: "string \<Rightarrow> int option"

definition or_default :: "string option \<Rightarrow> string \<Rightarrow> string" where
  "or_default s d = (case truthy_str s of None \<Rightarrow> d | Some x \<Rightarrow> x)"

definition target_uid :: "publisher_lib \<Rightarrow> string \<Rightarrow> string \<Rightarrow> saas_target \<Rightarrow> string" where
  "target_uid lib saas_name template_name t =
     (let data = join '':'' [saas_name, template_name, or_default (tg_name t) ''default'',
                             na_cluster_name (tg_namespace t), na_name (tg_namespace t)]
      in if pl_fips lib then take 40 (pl_sha256_hex lib data) else pl_blake2s_hex lib data)"

section \<open>The promotions recorded in S3\<close>

record promotion_state =
  ps_commits_by_channel :: "(string, string list) dict"
  ps_promotion_data_cache :: "(string, promotion_data option) dict"

type_synonym s3_state = "(string, json) dict"

definition new_promotion_state :: promotion_state where
  "new_promotion_state = \<lparr>ps_commits_by_channel = [], ps_promotion_data_cache = []\<rparr>"

definition target_key :: "string \<Rightarrow> string \<Rightarrow> string" where
  "target_key channel uid = channel @ ''/'' @ uid"

definition state_ls :: "s3_state \<Rightarrow> string list" where
  \<comment> \<open>the keys of the state, each with a leading slash\<close>
  "state_ls s3 = map (\<lambda>(k, _). CHR ''/'' # k) s3"

definition cache_commit :: "(string, string list) dict \<Rightarrow> string \<Rightarrow> sapm_error + (string, string list) dict" where
  "cache_commit commits key =
     (if \<not> prefix ''/promotions_v2/'' key then Inr commits
      else case py_split CHR ''/'' key of
        [_, _, channel, uid, sha] \<Rightarrow>
          (let k = target_key channel uid in Inr (dict_set commits k (add_if_absent (get_or commits k []) sha)))
      | _ \<Rightarrow> Inl BadStateKey)"

definition cache_commit_shas_from_s3 :: "s3_state \<Rightarrow> promotion_state \<Rightarrow> sapm_error + promotion_state" where
  "cache_commit_shas_from_s3 s3 ps =
     rbind (rfold cache_commit (ps_commits_by_channel ps) (state_ls s3)) (\<lambda>c.
       Inr (ps\<lparr>ps_commits_by_channel := c\<rparr>))"

definition promotion_path :: "string \<Rightarrow> string \<Rightarrow> string \<Rightarrow> string" where
  "promotion_path channel uid sha = ''promotions_v2/'' @ channel @ ''/'' @ uid @ ''/'' @ sha"

definition touch_commits :: "string \<Rightarrow> promotion_state \<Rightarrow> promotion_state" where
  \<comment> \<open>reading a \<open>defaultdict\<close> creates the entry\<close>
  "touch_commits k ps = (if dict_has (ps_commits_by_channel ps) k then ps
     else ps\<lparr>ps_commits_by_channel := dict_set (ps_commits_by_channel ps) k []\<rparr>)"

definition get_promotion_data ::
  "publisher_lib \<Rightarrow> s3_state \<Rightarrow> bool \<Rightarrow> bool \<Rightarrow> string \<Rightarrow> string \<Rightarrow> string \<Rightarrow> promotion_state \<Rightarrow>
   sapm_error + promotion_data option \<times> promotion_state" where
  "get_promotion_data lib s3 pre_check use_cache sha channel uid ps =
     (let key = target_key channel uid; path = promotion_path channel uid sha;
          ps1 = (if pre_check then touch_commits key ps else ps)
      in if pre_check \<and> sha \<notin> set (get_or (ps_commits_by_channel ps) key []) then Inr (None, ps1)
         else case (if use_cache then dict_get (ps_promotion_data_cache ps) path else None) of
           Some cached \<Rightarrow> Inr (cached, ps1)
         | None \<Rightarrow>
             (case dict_get s3 path of
                None \<Rightarrow> Inr (None, ps1)
              | Some v \<Rightarrow>
                  if \<not> truthy v then Inr (None, ps1)
                  else rbind (of_opt BadPromotionData (pl_promotion_data lib v)) (\<lambda>d.
                    Inr (Some d, ps1\<lparr>ps_promotion_data_cache := dict_set (ps_promotion_data_cache ps1) path (Some d)\<rparr>))))"

definition dump_promotion_data :: "promotion_data \<Rightarrow> json" where
  \<comment> \<open>\<open>model_dump\<close>\<close>
  "dump_promotion_data d =
     (let opt = (\<lambda>s. case s of None \<Rightarrow> JNull | Some x \<Rightarrow> JStr x)
      in JDict [(''success'', JBool (pd_success d)), (''target_config_hash'', opt (pd_target_config_hash d)),
                (''saas_file'', opt (pd_saas_file d)), (''check_in'', opt (pd_check_in d)),
                (''has_succeeded_once'', case pd_has_succeeded_once d of None \<Rightarrow> JNull | Some b \<Rightarrow> JBool b)])"

definition publish_promotion_data :: "string \<Rightarrow> string \<Rightarrow> string \<Rightarrow> promotion_data \<Rightarrow> s3_state \<Rightarrow> s3_state" where
  "publish_promotion_data sha channel uid d s3 = dict_set s3 (promotion_path channel uid sha) (dump_promotion_data d)"

section \<open>Resolving a reference\<close>

definition is_lower_hex :: "char \<Rightarrow> bool" where
  "is_lower_hex c \<longleftrightarrow> (CHR ''0'' \<le> c \<and> c \<le> CHR ''9'') \<or> (CHR ''a'' \<le> c \<and> c \<le> CHR ''f'')"

definition is_commit_sha :: "string \<Rightarrow> bool" where
  \<comment> \<open>\<open>^[0-9a-f]{40}$\<close>: the dollar also matches before a newline at the end\<close>
  "is_commit_sha s \<longleftrightarrow>
     (let body = (if s \<noteq> [] \<and> last s = CHR 0x0A then butlast s else s)
      in List.length body = 40 \<and> list_all is_lower_hex body)"

definition ascii_lower :: "char \<Rightarrow> char" where
  "ascii_lower c = (if CHR ''A'' \<le> c \<and> c \<le> CHR ''Z'' then char_of (of_char c + 32 :: nat) else c)"

definition is_ascii_alpha :: "char \<Rightarrow> bool" where
  "is_ascii_alpha c \<longleftrightarrow> CHR ''a'' \<le> ascii_lower c \<and> ascii_lower c \<le> CHR ''z''"

definition scheme_char :: "char \<Rightarrow> bool" where
  "scheme_char c \<longleftrightarrow> is_ascii_alpha c \<or> (CHR ''0'' \<le> c \<and> c \<le> CHR ''9'') \<or> c \<in> set ''+-.''"

definition after_scheme :: "string \<Rightarrow> string" where
  "after_scheme url =
     (let s = takeWhile (\<lambda>c. c \<noteq> CHR '':'') url
      in if s \<noteq> [] \<and> s \<noteq> url \<and> is_ascii_alpha (hd s) \<and> list_all scheme_char s
         then drop (List.length s + 1) url else url)"

definition url_hostname :: "string \<Rightarrow> string option" where
  \<comment> \<open>\<open>urlparse(url).hostname\<close>, bracketed IPv6 addresses aside\<close>
  "url_hostname url =
     (let rest = after_scheme url
      in if \<not> prefix ''//'' rest then None
         else let netloc = takeWhile (\<lambda>c. c \<notin> set ''/?#'') (drop 2 rest);
                  host = takeWhile (\<lambda>c. c \<noteq> CHR '':'') (rev (takeWhile (\<lambda>c. c \<noteq> CHR ''@'') (rev netloc)))
              in if host = [] then None else Some (map ascii_lower host))"

definition repo_platform :: "string \<Rightarrow> string option" where
  \<comment> \<open>of \<open>parse_repo_url\<close>\<close>
  "repo_platform url =
     (case url_hostname url of
        None \<Rightarrow> None
      | Some host \<Rightarrow> List.find (\<lambda>p. sublist p host) [''github'', ''gitlab''])"

definition get_commit_sha :: "publisher_lib \<Rightarrow> string \<Rightarrow> string \<Rightarrow> string option \<Rightarrow> sapm_error + string" where
  "get_commit_sha lib repo_url ref auth =
     (if is_commit_sha ref then Inr ref
      else case repo_platform repo_url of
        None \<Rightarrow> Inl (UnsupportedRepo repo_url)
      | Some p \<Rightarrow>
          if p = ''github'' then of_opt CommitNotFound (pl_github_sha lib repo_url auth ref)
          else of_opt CommitNotFound (pl_gitlab_sha lib repo_url ref))"

section \<open>Publishers\<close>

record deployment_info =
  di_success :: bool
  di_saas_file :: string
  di_target_config_hash :: string
  di_check_in :: "int option"

record publisher =
  pb_ref :: string
  pb_repo_url :: string
  pb_uid :: string
  pb_saas_name :: string
  pb_saas_file_path :: string
  pb_app_name :: string
  pb_namespace_name :: string
  pb_resource_template_name :: string
  pb_target_name :: string
  pb_cluster_name :: string
  pb_auth_code :: "string option"
  pb_redeploy_on_config_change :: bool
  pb_has_subscriber :: bool
  pb_channels :: "string list"
  pb_commit_sha :: string
  pb_deployment_info :: "(string, deployment_info option) dict"

definition deployment_of :: "publisher_lib \<Rightarrow> promotion_data option \<Rightarrow> sapm_error + deployment_info option" where
  "deployment_of lib data =
     (case data of
        None \<Rightarrow> Inr None
      | Some d \<Rightarrow>
          (case (truthy_str (pd_saas_file d), truthy_str (pd_target_config_hash d)) of
             (Some f, Some h) \<Rightarrow>
               rbind (case truthy_str (pd_check_in d) of None \<Rightarrow> Inr None
                      | Some t \<Rightarrow> rbind (of_opt BadTimestamp (pl_fromisoformat lib t)) (\<lambda>c. Inr (Some c)))
                 (\<lambda>c. Inr (Some \<lparr>di_success = pd_success d, di_saas_file = f, di_target_config_hash = h, di_check_in = c\<rparr>))
           | _ \<Rightarrow> Inr None))"

definition fetch_channel ::
  "publisher_lib \<Rightarrow> s3_state \<Rightarrow> publisher \<times> promotion_state \<Rightarrow> string \<Rightarrow> sapm_error + publisher \<times> promotion_state" where
  "fetch_channel lib s3 = (\<lambda>(p, ps) channel.
     rbind (get_promotion_data lib s3 True False (pb_commit_sha p) channel (pb_uid p) ps) (\<lambda>(data, ps').
     rbind (deployment_of lib data) (\<lambda>info.
       Inr (p\<lparr>pb_deployment_info := dict_set (pb_deployment_info p) channel info\<rparr>, ps'))))"

definition fetch_commit_shas_and_deployment_info ::
  "publisher_lib \<Rightarrow> s3_state \<Rightarrow> publisher \<Rightarrow> promotion_state \<Rightarrow> sapm_error + publisher \<times> promotion_state" where
  "fetch_commit_shas_and_deployment_info lib s3 p ps =
     rbind (get_commit_sha lib (pb_repo_url p) (pb_ref p) (pb_auth_code p)) (\<lambda>sha.
       rfold (fetch_channel lib s3) (p\<lparr>pb_commit_sha := sha\<rparr>, ps) (pb_channels p))"

definition fetch_publisher_states ::
  "publisher_lib \<Rightarrow> s3_state \<Rightarrow> publisher list \<Rightarrow> promotion_state \<Rightarrow> sapm_error + publisher list \<times> promotion_state" where
  \<comment> \<open>\<open>_fetch_publisher_real_world_states\<close>: the threads share only the caches\<close>
  "fetch_publisher_states lib s3 ps0 st =
     rfold (\<lambda>(done, st) p. rbind (fetch_commit_shas_and_deployment_info lib s3 p st) (\<lambda>(p', st'). Inr (done @ [p'], st')))
       ([], st) ps0"

datatype deployment_state = DeploySuccess | DeployFailed | DeployMissing

definition publisher_deployment_state :: "publisher \<Rightarrow> deployment_state" where
  "publisher_deployment_state p =
     (let infos = dict_values (pb_deployment_info p)
      in if \<exists>i \<in> set infos. case i of None \<Rightarrow> False | Some d \<Rightarrow> \<not> di_success d then DeployFailed
         else if None \<in> set infos then DeployMissing else DeploySuccess)"

fun deployment_state_value :: "deployment_state \<Rightarrow> string" where
  "deployment_state_value DeploySuccess = ''success''"
| "deployment_state_value DeployFailed = ''failed''"
| "deployment_state_value DeployMissing = ''missing''"

definition show_bool :: "bool \<Rightarrow> string" where
  "show_bool b = (if b then ''True'' else ''False'')"

definition export_key :: "publisher \<Rightarrow> string" where
  "export_key p = join ''/'' [pb_app_name p, pb_saas_name p, pb_resource_template_name p, pb_target_name p,
     pb_cluster_name p, pb_namespace_name p, show_bool (pb_redeploy_on_config_change p)]"

definition export_publisher_data :: "bool \<Rightarrow> publisher list \<Rightarrow> s3_state \<Rightarrow> s3_state" where
  "export_publisher_data dry_run ps s3 =
     (let data = dict_of (map (\<lambda>p. (export_key p, JDict [(''commit_sha'', JStr (pb_commit_sha p)),
                   (''deployment_state'', JStr (deployment_state_value (publisher_deployment_state p)))])) ps)
      in if dry_run then s3 else dict_set s3 ''publisher-data.json'' (JDict data))"

section \<open>Subscribers, channels and the inventory\<close>

record config_hash =
  co_channel :: string
  co_target_config_hash :: string
  co_parent_saas :: string

record subscriber =
  su_saas_name :: string
  su_template_name :: string
  su_ref :: string
  su_target_file_path :: string
  su_config_hashes_by_channel :: "(string, config_hash list) dict"
  su_channels :: "string list"
  su_desired_ref :: string
  su_desired_hashes :: "config_hash list"
  su_target_namespace :: saas_namespace
  su_uid :: string
  su_soak_days :: int
  su_schedule :: string
  su_use_target_config_hash :: bool
  su_blocked_versions :: "string list"
  su_hotfix_versions :: "string list"
  su_slo_documents :: "slo_document list option"

type_synonym channels = "(string, nat list) dict"

record saas_inventory =
  in_channels :: channels
  in_subscribers :: "subscriber list"
  in_publishers :: "publisher list"

definition versions_by_url :: "(code_component \<Rightarrow> string list) \<Rightarrow> saas_file \<Rightarrow> (string, string list) dict" where
  "versions_by_url f sf = foldl (\<lambda>m c. dict_set m (cc_url c) (add_all (get_or m (cc_url c) []) (f c)))
     [] (sf_code_components sf)"

definition add_config_hash :: "string \<Rightarrow> subscriber \<Rightarrow> channel_data \<Rightarrow> sapm_error + subscriber" where
  "add_config_hash channel s d =
     (case d of
        OtherChannelData \<Rightarrow> Inr s
      | ParentSaasPromotion parent h \<Rightarrow>
          (case (truthy_str h, truthy_str parent) of
             (Some h', Some p) \<Rightarrow>
               Inr (s\<lparr>su_config_hashes_by_channel := dict_set (su_config_hashes_by_channel s) channel
                 (get_or (su_config_hashes_by_channel s) channel [] @
                   [\<lparr>co_channel = channel, co_target_config_hash = h', co_parent_saas = p\<rparr>])\<rparr>)
           | _ \<Rightarrow> Inl SaasFileInventoryError))"

definition add_promotion_data :: "subscriber \<Rightarrow> promotion_channel \<Rightarrow> sapm_error + subscriber" where
  "add_promotion_data s c =
     (case truthy_str (ch_channel c) of
        None \<Rightarrow> Inr s
      | Some channel \<Rightarrow> rfold (add_config_hash channel) s (ch_data c))"

definition subscribed_target :: "saas_target \<Rightarrow> target_promotion option" where
  \<comment> \<open>the guards of the subscriber loop\<close>
  "subscribed_target t =
     (if tg_disable t \<or> tg_delete t then None
      else case tg_promotion t of None \<Rightarrow> None | Some p \<Rightarrow> if tp_auto p then Some p else None)"

definition new_subscriber ::
  "publisher_lib \<Rightarrow> saas_file \<Rightarrow> resource_template \<Rightarrow> saas_target \<Rightarrow> target_promotion \<Rightarrow> subscriber" where
  "new_subscriber lib sf rt t p =
     \<lparr>su_saas_name = sf_name sf, su_template_name = rt_name rt, su_ref = tg_ref t,
      su_target_file_path = or_default (tg_path t) (sf_path sf), su_config_hashes_by_channel = [], su_channels = [],
      su_desired_ref = [], su_desired_hashes = [], su_target_namespace = tg_namespace t,
      su_uid = target_uid lib (sf_name sf) (rt_name rt) t,
      su_soak_days = (case tp_soak_days p of None \<Rightarrow> 0 | Some n \<Rightarrow> n),
      su_schedule = or_default (tp_schedule p) ''* * * * *'',
      su_use_target_config_hash = tp_redeploy_on_publisher_config_change p,
      su_blocked_versions = get_or (versions_by_url cc_blocked_versions sf) (rt_url rt) [],
      su_hotfix_versions = get_or (versions_by_url cc_hotfix_versions sf) (rt_url rt) [],
      su_slo_documents = (if tg_slos t = [] then None else Some (tg_slos t))\<rparr>"

definition add_subscriber ::
  "publisher_lib \<Rightarrow> saas_inventory \<Rightarrow> saas_file \<times> resource_template \<times> saas_target \<Rightarrow> sapm_error + saas_inventory" where
  "add_subscriber lib iv = (\<lambda>(sf, rt, t).
     (case subscribed_target t of
        None \<Rightarrow> Inr iv
      | Some p \<Rightarrow>
          rbind (rfold add_promotion_data (new_subscriber lib sf rt t p) (tp_promotion_data p)) (\<lambda>s.
          Inr (iv\<lparr>in_subscribers := in_subscribers iv @ [s\<lparr>su_channels := tp_subscribe p\<rparr>],
                  in_channels := foldl (\<lambda>m c. if dict_has m c then m else dict_set m c [])
                    (in_channels iv) (tp_subscribe p)\<rparr>))))"

definition all_targets :: "saas_file list \<Rightarrow> (saas_file \<times> resource_template \<times> saas_target) list" where
  "all_targets sfs = concat (map (\<lambda>sf. concat (map (\<lambda>rt. map (\<lambda>t. (sf, rt, t)) (rt_targets rt)) (sf_resource_templates sf))) sfs)"

definition new_publisher ::
  "publisher_lib \<Rightarrow> saas_file \<Rightarrow> resource_template \<Rightarrow> saas_target \<Rightarrow> target_promotion \<Rightarrow> publisher" where
  "new_publisher lib sf rt t p =
     \<lparr>pb_ref = tg_ref t, pb_repo_url = rt_url rt, pb_uid = target_uid lib (sf_name sf) (rt_name rt) t,
      pb_saas_name = sf_name sf, pb_saas_file_path = sf_path sf, pb_app_name = sf_app_name sf,
      pb_namespace_name = na_name (tg_namespace t), pb_resource_template_name = rt_name rt,
      pb_target_name = or_default (tg_name t) ''None'', pb_cluster_name = na_cluster_name (tg_namespace t),
      pb_auth_code = sf_auth_code sf,
      pb_redeploy_on_config_change = tp_redeploy_on_publisher_config_change p,
      pb_has_subscriber = True, pb_channels = [], pb_commit_sha = [], pb_deployment_info = []\<rparr>"

definition published_target :: "saas_target \<Rightarrow> target_promotion option" where
  "published_target t = (if tg_disable t \<or> tg_delete t then None else tg_promotion t)"

definition add_publisher ::
  "publisher_lib \<Rightarrow> saas_inventory \<Rightarrow> saas_file \<times> resource_template \<times> saas_target \<Rightarrow> saas_inventory" where
  "add_publisher lib iv = (\<lambda>(sf, rt, t).
     (case published_target t of
        None \<Rightarrow> iv
      | Some p \<Rightarrow>
          (let here = List.length (in_publishers iv);
               known = filter (dict_has (in_channels iv)) (tp_publish p)
           in iv\<lparr>in_channels := foldl (\<lambda>m c. dict_set m c (get_or m c [] @ [here])) (in_channels iv) known,
                in_publishers := in_publishers iv @
                  [(new_publisher lib sf rt t p)\<lparr>pb_channels := add_all [] known, pb_has_subscriber := known \<noteq> []\<rparr>]\<rparr>)))"

definition remove_unsupported :: "saas_inventory \<Rightarrow> saas_inventory" where
  "remove_unsupported iv = iv\<lparr>in_subscribers :=
     filter (\<lambda>s. \<forall>c \<in> set (su_channels s). get_or (in_channels iv) c [] \<noteq> []) (in_subscribers iv)\<rparr>"

definition saas_files_inventory :: "publisher_lib \<Rightarrow> saas_file list \<Rightarrow> sapm_error + saas_inventory" where
  "saas_files_inventory lib sfs =
     rbind (rfold (add_subscriber lib) \<lparr>in_channels = [], in_subscribers = [], in_publishers = []\<rparr> (all_targets sfs)) (\<lambda>iv.
       Inr (remove_unsupported (foldl (add_publisher lib) iv (all_targets sfs))))"

definition publishers_of :: "saas_inventory \<Rightarrow> string \<Rightarrow> publisher list" where
  \<comment> \<open>the publishers of a channel\<close>
  "publishers_of iv c = map (\<lambda>i. in_publishers iv ! i) (get_or (in_channels iv) c [])"

end
