(* ===== verification/Sapm_Subscriber.thy ===== *)
theory Sapm_Subscriber
  imports Sapm_Inventory "HOL-Library.Multiset"
begin

text \<open>
  The desired state of a subscriber (\<open>reconcile/saas_auto_promotions_manager/subscriber.py\<close>): the reference and the
  configuration hashes it should be promoted to, its difference to the current state, and the content hash of a group
  of subscribers. The clock, croniter and SHA-256 are parameters.
\<close>

record subscriber_lib =
  sb_now :: int
  sb_cron_valid :: "string \<Rightarrow> bool"
  sb_cron_match :: "string \<Rightarrow> int \<Rightarrow> bool"
  sb_slo :: slo_lib
  sb_sha256_hex :: "string \<Rightarrow> string"

definition day :: int where "day = 86400 * 1000000"

section \<open>The gates of a promotion\<close>

definition validate_deployment :: "publisher \<Rightarrow> string \<Rightarrow> deployment_info option" where
  "validate_deployment p channel =
     (case dict_get (pb_deployment_info p) channel of
        Some (Some i) \<Rightarrow> if di_success i then Some i else None
      | _ \<Rightarrow> None)"

fun collect_channel_refs :: "string \<Rightarrow> publisher list \<Rightarrow> string list \<times> bool \<Rightarrow> string list \<times> bool" where
  \<comment> \<open>the inner loop: stops at the first publisher without a successful deployment\<close>
  "collect_channel_refs channel [] acc = acc"
| "collect_channel_refs channel (p # ps) (refs, bad) =
     (if validate_deployment p channel = None then (refs, True)
      else collect_channel_refs channel ps (add_if_absent refs (pb_commit_sha p), bad))"

definition collect_refs :: "saas_inventory \<Rightarrow> subscriber \<Rightarrow> string list \<times> bool" where
  "collect_refs iv s = foldl (\<lambda>acc c. collect_channel_refs c (publishers_of iv c) acc) ([], False) (su_channels s)"

definition subscribed_publishers :: "saas_inventory \<Rightarrow> subscriber \<Rightarrow> (string \<times> publisher) list" where
  "subscribed_publishers iv s = concat (map (\<lambda>c. map (\<lambda>p. (c, p)) (publishers_of iv c)) (su_channels s))"

fun soak_loop :: "int \<Rightarrow> (string \<times> publisher) list \<Rightarrow> int \<Rightarrow> int option" where
  \<comment> \<open>\<open>None\<close>: a publisher without a deployment ends the loop\<close>
  "soak_loop now [] delta = Some delta"
| "soak_loop now ((c, p) # ps) delta =
     (case dict_get (pb_deployment_info p) c of
        Some (Some i) \<Rightarrow> soak_loop now ps (case di_check_in i of None \<Rightarrow> delta | Some t \<Rightarrow> delta + (now - t))
      | _ \<Rightarrow> None)"

definition passed_accumulated_soak_days :: "subscriber_lib \<Rightarrow> saas_inventory \<Rightarrow> subscriber \<Rightarrow> bool" where
  "passed_accumulated_soak_days lib iv s =
     (case soak_loop (sb_now lib) (subscribed_publishers iv s) 0 of
        None \<Rightarrow> False | Some delta \<Rightarrow> su_soak_days s * day \<le> delta)"

definition is_valid_deployment_window :: "subscriber_lib \<Rightarrow> subscriber \<Rightarrow> bool" where
  "is_valid_deployment_window lib s \<longleftrightarrow>
     sb_cron_valid lib (su_schedule s) \<and> sb_cron_match lib (su_schedule s) (sb_now lib)"

definition has_breached_slos :: "subscriber_lib \<Rightarrow> subscriber \<Rightarrow> string \<Rightarrow> sapm_error + bool" where
  "has_breached_slos lib s desired_ref =
     (case su_slo_documents s of
        None \<Rightarrow> Inr False
      | Some docs \<Rightarrow>
          if desired_ref \<in> set (su_hotfix_versions s) then Inr False
          else rbind (get_breached_slos (sb_slo lib) docs) (\<lambda>breached. Inr (breached \<noteq> [])))"

definition compute_desired_ref :: "subscriber_lib \<Rightarrow> saas_inventory \<Rightarrow> subscriber \<Rightarrow> sapm_error + subscriber" where
  "compute_desired_ref lib iv s =
     (let (refs, bad) = collect_refs iv s; keep = s\<lparr>su_desired_ref := su_ref s\<rparr>
      in if bad then Inr keep
         else case refs of
           [desired] \<Rightarrow>
             (if \<not> passed_accumulated_soak_days lib iv s then Inr keep
              else if \<not> is_valid_deployment_window lib s then Inr keep
              else rbind (has_breached_slos lib s desired) (\<lambda>breached.
                if breached then Inr keep
                else if desired \<in> set (su_blocked_versions s) then Inr keep
                else Inr (s\<lparr>su_desired_ref := desired\<rparr>)))
         | _ \<Rightarrow> Inr keep)"

definition desired_hash :: "saas_inventory \<Rightarrow> subscriber \<Rightarrow> string \<Rightarrow> sapm_error + config_hash list" where
  "desired_hash iv s c =
     (case publishers_of iv c of
        [] \<Rightarrow> Inl NoPublisher
      | p # _ \<Rightarrow>
          (case validate_deployment p c of
             None \<Rightarrow> Inr (case get_or (su_config_hashes_by_channel s) c [] of [] \<Rightarrow> [] | h # _ \<Rightarrow> [h])
           | Some i \<Rightarrow> Inr [\<lparr>co_channel = c, co_target_config_hash = di_target_config_hash i, co_parent_saas = di_saas_file i\<rparr>]))"

definition compute_desired_config_hashes :: "saas_inventory \<Rightarrow> subscriber \<Rightarrow> sapm_error + subscriber" where
  "compute_desired_config_hashes iv s =
     (if \<not> su_use_target_config_hash s then Inr s
      else rbind (rmap (desired_hash iv s) (su_channels s)) (\<lambda>hs.
        Inr (s\<lparr>su_desired_hashes := su_desired_hashes s @ concat hs\<rparr>)))"

definition compute_desired_state :: "subscriber_lib \<Rightarrow> saas_inventory \<Rightarrow> subscriber \<Rightarrow> sapm_error + subscriber" where
  "compute_desired_state lib iv s = rbind (compute_desired_ref lib iv s) (compute_desired_config_hashes iv)"

definition has_diff :: "subscriber \<Rightarrow> bool" where
  "has_diff s \<longleftrightarrow>
     (let current = concat (dict_values (su_config_hashes_by_channel s))
      in \<not> (set (su_desired_hashes s) \<subseteq> set current \<and> su_desired_ref s = su_ref s))"

section \<open>The content hash\<close>

definition hex_digit :: "nat \<Rightarrow> char" where
  "hex_digit n = (if n < 10 then char_of (48 + n) else char_of (87 + n))"

definition repr_char :: "char \<Rightarrow> char \<Rightarrow> string" where
  "repr_char q c =
     (let n = of_char c :: nat
      in if c = q \<or> c = CHR 0x5C then [CHR 0x5C, c]
         else if n = 10 then [CHR 0x5C, CHR ''n''] else if n = 13 then [CHR 0x5C, CHR ''r'']
         else if n = 9 then [CHR 0x5C, CHR ''t'']
         else if n < 32 \<or> n = 127 then [CHR 0x5C, CHR ''x'', hex_digit (n div 16), hex_digit (n mod 16)]
         else [c])"

definition py_repr :: "string \<Rightarrow> string" where
  \<comment> \<open>\<open>repr\<close> of an ASCII string\<close>
  "py_repr s =
     (let q = (if CHR 0x27 \<in> set s \<and> CHR 0x22 \<notin> set s then CHR 0x22 else CHR 0x27)
      in [q] @ concat (map (repr_char q) s) @ [q])"

definition hash_key :: "config_hash \<Rightarrow> string list" where
  "hash_key h = [co_channel h, co_parent_saas h, co_target_config_hash h]"

definition repr_hash :: "config_hash \<Rightarrow> string" where
  "repr_hash h = ''('' @ join '', '' (map py_repr (hash_key h)) @ '')''"

definition margin :: string where
  "margin = CHR 0x0A # replicate 12 CHR '' ''"

definition content_message :: "subscriber \<Rightarrow> string" where
  "content_message s =
     margin @ ''target_file_path: '' @ su_target_file_path s @
     margin @ ''namespace_file_path: '' @ na_path (su_target_namespace s) @
     margin @ ''desired_ref: '' @ su_desired_ref s @
     margin @ ''desired_hashes: ['' @ join '', '' (map repr_hash (sort_key hash_key (su_desired_hashes s))) @ '']'' @ margin"

definition subscriber_key :: "subscriber \<Rightarrow> string list" where
  "subscriber_key s = [su_target_file_path s, su_template_name s, na_path (su_target_namespace s)]"

definition combined_message :: "subscriber list \<Rightarrow> string" where
  "combined_message ss = concat (map content_message (sort_key subscriber_key ss))"

definition combined_content_hash :: "subscriber_lib \<Rightarrow> subscriber list \<Rightarrow> string" where
  "combined_content_hash lib ss = take 32 (sb_sha256_hex lib (combined_message ss))"

section \<open>What the gates promise\<close>

lemma collect_channel_refs_bad: "collect_channel_refs c ps (refs, True) = (refs', b) \<Longrightarrow> b"
  by (induction ps arbitrary: refs) (auto split: if_splits)

lemma collect_channel_refs_good:
  "collect_channel_refs c ps (refs, bad) = (refs', False) \<Longrightarrow>
   \<not> bad \<and> set refs' = set refs \<union> pb_commit_sha ` set ps \<and> (\<forall>p \<in> set ps. validate_deployment p c \<noteq> None)"
  by (induction ps arbitrary: refs) (auto simp: add_if_absent_def split: if_splits)

lemma collect_refs_good:
  assumes "collect_refs iv s = (refs, False)"
  shows "set refs = pb_commit_sha ` snd ` set (subscribed_publishers iv s) \<and>
    (\<forall>(c, p) \<in> set (subscribed_publishers iv s). validate_deployment p c \<noteq> None)"
proof -
  have "foldl (\<lambda>acc c. collect_channel_refs c (publishers_of iv c) acc) (refs0, bad0) cs = (refs, False) \<Longrightarrow>
      \<not> bad0 \<and> set refs = set refs0 \<union> pb_commit_sha ` snd ` set (concat (map (\<lambda>c. map (\<lambda>p. (c, p)) (publishers_of iv c)) cs)) \<and>
      (\<forall>(c, p) \<in> set (concat (map (\<lambda>c. map (\<lambda>p. (c, p)) (publishers_of iv c)) cs)). validate_deployment p c \<noteq> None)" for cs refs0 bad0
  proof (induction cs arbitrary: refs0 bad0)
    case (Cons c cs)
    obtain r1 b1 where 1: "collect_channel_refs c (publishers_of iv c) (refs0, bad0) = (r1, b1)" by force
    from Cons.IH [of r1 b1] Cons.prems have 2: "\<not> b1"
      "set refs = set r1 \<union> pb_commit_sha ` snd ` set (concat (map (\<lambda>c. map (\<lambda>p. (c, p)) (publishers_of iv c)) cs))"
      "\<forall>(c, p) \<in> set (concat (map (\<lambda>c. map (\<lambda>p. (c, p)) (publishers_of iv c)) cs)). validate_deployment p c \<noteq> None"
      by (simp_all add: 1)
    from collect_channel_refs_good [of c "publishers_of iv c" refs0 bad0 r1] 1 2(1)
    have "\<not> bad0" "set r1 = set refs0 \<union> pb_commit_sha ` set (publishers_of iv c)"
      "\<forall>p \<in> set (publishers_of iv c). validate_deployment p c \<noteq> None" by simp_all
    with 2 show ?case by (auto simp: image_Un image_image)
  qed simp
  from this [of "[]" False "su_channels s"] assms show ?thesis
    by (simp add: collect_refs_def subscribed_publishers_def)
qed

lemma compute_desired_ref_only:
  "compute_desired_ref lib iv s = Inr s' \<Longrightarrow> s' = s\<lparr>su_desired_ref := su_desired_ref s'\<rparr>"
  by (auto simp: compute_desired_ref_def Let_def result_simps split: prod.splits if_splits list.splits)

lemma su_desired_ref_eq [simp]: "s\<lparr>su_desired_ref := a\<rparr> = s\<lparr>su_desired_ref := b\<rparr> \<longleftrightarrow> a = b"
  by (cases s) simp

lemma promotion_gates_aux:
  assumes "compute_desired_ref lib iv s = Inr s'" "su_desired_ref s' \<noteq> su_ref s"
  shows "(\<forall>(c, p) \<in> set (subscribed_publishers iv s). pb_commit_sha p = su_desired_ref s' \<and>
        (\<exists>i. dict_get (pb_deployment_info p) c = Some (Some i) \<and> di_success i)) \<and>
      subscribed_publishers iv s \<noteq> [] \<and>
      passed_accumulated_soak_days lib iv s \<and> is_valid_deployment_window lib s \<and>
      su_desired_ref s' \<notin> set (su_blocked_versions s) \<and>
      has_breached_slos lib s (su_desired_ref s') = Inr False"
proof -
  obtain refs bad where c: "collect_refs iv s = (refs, bad)" by force
  from assms c have good: "\<not> bad" "\<exists>d. refs = [d] \<and> su_desired_ref s' = d \<and> passed_accumulated_soak_days lib iv s \<and>
      is_valid_deployment_window lib s \<and> d \<notin> set (su_blocked_versions s) \<and> has_breached_slos lib s d = Inr False"
    by (auto simp: compute_desired_ref_def Let_def result_simps split: if_splits list.splits)
  then obtain d where d: "refs = [d]" "su_desired_ref s' = d" "passed_accumulated_soak_days lib iv s"
    "is_valid_deployment_window lib s" "d \<notin> set (su_blocked_versions s)" "has_breached_slos lib s d = Inr False" by blast
  from collect_refs_good [of iv s refs] c good(1) d(1)
  have set: "pb_commit_sha ` snd ` set (subscribed_publishers iv s) = {d}"
    and v: "\<forall>(c, p) \<in> set (subscribed_publishers iv s). validate_deployment p c \<noteq> None" by auto
  from set have "subscribed_publishers iv s \<noteq> []" by auto
  moreover have "\<forall>(c, p) \<in> set (subscribed_publishers iv s). pb_commit_sha p = d"
    using set by (force simp: image_image)
  moreover from v have "\<forall>(c, p) \<in> set (subscribed_publishers iv s).
      \<exists>i. dict_get (pb_deployment_info p) c = Some (Some i) \<and> di_success i"
    by (auto simp: validate_deployment_def split: option.splits if_splits) fastforce+
  ultimately show ?thesis using d by auto
qed

lemma hash_key_inj: "inj hash_key"
  by (rule injI) (simp add: hash_key_def)

lemma content_message_hashes:
  "mset (su_desired_hashes s) = mset (su_desired_hashes t) \<Longrightarrow> su_target_file_path s = su_target_file_path t \<Longrightarrow>
   na_path (su_target_namespace s) = na_path (su_target_namespace t) \<Longrightarrow> su_desired_ref s = su_desired_ref t \<Longrightarrow>
   content_message s = content_message t"
  using sort_key_inj_key_eq [of "su_desired_hashes s" "sort_key hash_key (su_desired_hashes t)" hash_key]
  by (simp add: content_message_def inj_on_subset [OF hash_key_inj])

lemma combined_message_order_aux:
  assumes "mset ss = mset ts" "inj_on subscriber_key (set ss)"
  shows "combined_message ss = combined_message ts"
  using sort_key_inj_key_eq [of ss "sort_key subscriber_key ts" subscriber_key] assms
  by (simp add: combined_message_def)

end
