(* ===== verification/Sapm_Text.thy ===== *)
theory Sapm_Text
  imports Sapm_Subscriber
begin

text \<open>
  The texts of the merge requests of the saas auto promotions manager
  (\<open>merge_request_manager/renderer.py\<close> and the reading of a description in \<open>merge_request_manager/mr_parser.py\<close>): the
  description that carries the state of a merge request, its title, and the new content of a SaaS file. Loading and
  dumping YAML and the evaluation of JSONPath expressions are parameters.
\<close>

section \<open>Descriptions\<close>

abbreviation newline :: char where "newline \<equiv> CHR 0x0A"

definition promotion_data_separator :: string where
  "promotion_data_separator = ''**SAPM Data - DO NOT MANUALLY CHANGE ANYTHING BELOW THIS LINE**''"

definition sapm_version :: string where "sapm_version = ''2.3.0''"
definition content_hashes_ref :: string where "content_hashes_ref = ''content_hashes''"
definition channels_ref :: string where "channels_ref = ''channels''"
definition is_batchable_ref :: string where "is_batchable_ref = ''is_batchable''"
definition version_ref :: string where "version_ref = ''sapm_version''"
definition mr_kind_ref :: string where "mr_kind_ref = ''kind''"

datatype mr_kind = Batcher | Scheduler

fun mr_kind_value :: "mr_kind \<Rightarrow> string" where
  "mr_kind_value Batcher = ''batcher''"
| "mr_kind_value Scheduler = ''scheduler''"

definition data_line :: "string \<Rightarrow> string \<Rightarrow> string" where
  "data_line key v = key @ '': '' @ v @ [newline, newline]"

definition promotion_data_text :: "string \<Rightarrow> string \<Rightarrow> bool \<Rightarrow> string" where
  \<comment> \<open>what follows the separator\<close>
  "promotion_data_text content_hashes channels batchable =
     [newline, newline] @ data_line channels_ref channels @ data_line content_hashes_ref content_hashes @
     data_line is_batchable_ref (show_bool batchable) @ data_line mr_kind_ref (mr_kind_value Batcher) @
     data_line version_ref sapm_version @ ''This MR is auto-approved'' @ [newline, newline] @ ''/lgtm'' @
     newline # replicate 8 CHR '' ''"

definition render_description :: "string \<Rightarrow> string \<Rightarrow> string \<Rightarrow> bool \<Rightarrow> string" where
  "render_description message content_hashes channels batchable =
     newline # message @ [newline, newline] @ promotion_data_separator @
     promotion_data_text content_hashes channels batchable"

definition render_title :: "(string \<Rightarrow> nat) \<Rightarrow> bool \<Rightarrow> bool \<Rightarrow> string \<Rightarrow> nat \<Rightarrow> string" where
  \<comment> \<open>the first argument: the SHA-256 digest of a text as a number\<close>
  "render_title sha is_draft canary channels batch_size =
     (let content = ''[SAPM'' @ (if canary then ''Canary'' else []) @ ''] auto-promotion ID '' @
            show_digits (sha channels mod 10 ^ 8) @ '' - batch size: '' @ show_digits batch_size
      in if is_draft then ''Draft: '' @ content else content)"

section \<open>Reading a description\<close>

fun split_str :: "string \<Rightarrow> nat \<Rightarrow> string \<Rightarrow> string list" where
  \<comment> \<open>\<open>s.split(sep)\<close> for a separator that is not empty; the number counts the characters of the separator left to skip\<close>
  "split_str sep k [] = [[]]"
| "split_str sep (Suc k) (x # xs) = split_str sep k xs"
| "split_str sep 0 (x # xs) =
     (if prefix sep (x # xs) then [] # split_str sep (List.length sep - 1) xs
      else case split_str sep 0 xs of [] \<Rightarrow> [[x]] | y # ys \<Rightarrow> (x # y) # ys)"

fun search_after :: "string \<Rightarrow> string \<Rightarrow> string option" where
  \<comment> \<open>\<open>re.search\<close> of a literal text followed by \<open>(.*)$\<close> in multi-line mode\<close>
  "search_after pat [] = (if pat = [] then Some [] else None)"
| "search_after pat (x # xs) =
     (if prefix pat (x # xs) then Some (takeWhile (\<lambda>c. c \<noteq> newline) (drop (List.length pat) (x # xs)))
      else search_after pat xs)"

definition apply_regex :: "string \<Rightarrow> string \<Rightarrow> string" where
  "apply_regex key text = (case search_after (key @ '': '') text of None \<Rightarrow> [] | Some v \<Rightarrow> v)"

datatype close_comment =
  BadSeparator | BadFormat string | OutdatedVersion string | MergeConflict | DuplicateMr

fun close_text :: "close_comment \<Rightarrow> string" where
  "close_text BadSeparator = ''Closing this MR because of bad data separator format.''"
| "close_text (BadFormat ref) = ''Closing this MR because of bad '' @ ref @ '' format.''"
| "close_text (OutdatedVersion v) = ''Closing this MR because it has an outdated SAPM version '' @ v @ ''.''"
| "close_text MergeConflict = ''Closing this MR because of a merge-conflict.''"
| "close_text DuplicateMr = ''Closing this MR because there is already another MR open with identical content.''"

definition promotion_data_of :: "string \<Rightarrow> string option" where
  "promotion_data_of desc =
     (case split_str promotion_data_separator 0 desc of [_, data] \<Rightarrow> Some data | _ \<Rightarrow> None)"

definition kind_of_description :: "string \<Rightarrow> close_comment + mr_kind" where
  \<comment> \<open>the checks of \<open>fetch_mrs\<close> on a description\<close>
  "kind_of_description desc =
     (case promotion_data_of desc of
        None \<Rightarrow> Inl BadSeparator
      | Some data \<Rightarrow>
          (let version = apply_regex version_ref data; kind = apply_regex mr_kind_ref data
           in if version = [] then Inl (BadFormat version_ref)
              else if version \<noteq> sapm_version then Inl (OutdatedVersion version)
              else if kind = mr_kind_value Batcher then Inr Batcher
              else if kind = mr_kind_value Scheduler then Inr Scheduler
              else Inl (BadFormat mr_kind_ref)))"

section \<open>The content of a SaaS file\<close>

record render_lib =
  rl_load :: "string \<Rightarrow> json"
  rl_dump :: "json \<Rightarrow> string"
  rl_find :: "string \<Rightarrow> json \<Rightarrow> bool option"
  \<comment> \<open>whether an expression finds something; \<open>None\<close>: it does not parse\<close>

definition jdict :: "json \<Rightarrow> sapm_error + (string, json) dict" where
  "jdict j = (case j of JDict d \<Rightarrow> Inr d | _ \<Rightarrow> Inl YamlKeyError)"

definition jlist :: "json \<Rightarrow> sapm_error + json list" where
  "jlist j = (case j of JList xs \<Rightarrow> Inr xs | _ \<Rightarrow> Inl YamlKeyError)"

definition jget :: "string \<Rightarrow> json \<Rightarrow> sapm_error + json" where
  \<comment> \<open>\<open>j[key]\<close>\<close>
  "jget key j = rbind (jdict j) (\<lambda>d. of_opt YamlKeyError (dict_get d key))"

definition jget_or :: "string \<Rightarrow> json \<Rightarrow> json \<Rightarrow> sapm_error + json" where
  \<comment> \<open>\<open>j.get(key, dflt)\<close>\<close>
  "jget_or key dflt j = rbind (jdict j) (\<lambda>d. Inr (get_or d key dflt))"

definition jset :: "string \<Rightarrow> json \<Rightarrow> json \<Rightarrow> sapm_error + json" where
  \<comment> \<open>\<open>j[key] = value\<close>\<close>
  "jset key v j = rbind (jdict j) (\<lambda>d. Inr (JDict (dict_set d key v)))"

fun json_string :: "json \<Rightarrow> sapm_error + string" where
  "json_string (JStr s) = Inr s"
| "json_string _ = Inl InvalidSelector"

definition json_strings :: "json \<Rightarrow> sapm_error + string list" where
  "json_strings j = (case j of JList xs \<Rightarrow> rmap json_string xs | _ \<Rightarrow> Inl InvalidSelector)"

definition validate_selector :: "json \<Rightarrow> sapm_error + string list \<times> string list" where
  \<comment> \<open>the pydantic model of the selector: no other keys, lists of strings\<close>
  "validate_selector selector =
     rbind (jget ''jsonPathSelectors'' selector) (\<lambda>paths.
     rbind (jdict selector) (\<lambda>sd. rbind (jdict paths) (\<lambda>d.
       if set (dict_keys sd) \<noteq> {''jsonPathSelectors''} \<or> \<not> set (dict_keys d) \<subseteq> {''include'', ''exclude''} then Inl InvalidSelector
       else rbind (of_opt InvalidSelector (dict_get d ''include'')) (\<lambda>i.
         rbind (json_strings i) (\<lambda>include.
         rbind (case dict_get d ''exclude'' of None \<Rightarrow> Inr [] | Some JNull \<Rightarrow> Inr [] | Some e \<Rightarrow> json_strings e) (\<lambda>exclude.
           Inr (include, exclude)))))))"

fun rany :: "('a \<Rightarrow> 'e + bool) \<Rightarrow> 'a list \<Rightarrow> 'e + bool" where
  "rany f [] = Inr False"
| "rany f (x # xs) = rbind (f x) (\<lambda>b. if b then Inr True else rany f xs)"

definition finds :: "render_lib \<Rightarrow> json \<Rightarrow> string \<Rightarrow> sapm_error + bool" where
  "finds lib doc expression = of_opt (InvalidJsonpath expression) (rl_find lib expression doc)"

definition is_namespace_addressed_by_selector ::
  "render_lib \<Rightarrow> saas_namespace \<Rightarrow> string list \<times> string list \<Rightarrow> sapm_error + bool" where
  "is_namespace_addressed_by_selector lib ns = (\<lambda>(include, exclude).
     (let doc = JDict [(''namespace'', JList [na_json ns])]
      in rbind (rany (finds lib doc) include) (\<lambda>do_include.
         rbind (rany (finds lib doc) exclude) (\<lambda>do_exclude.
           Inr (do_include \<and> \<not> do_exclude)))))"

definition is_wanted_target :: "render_lib \<Rightarrow> subscriber \<Rightarrow> json \<Rightarrow> sapm_error + bool" where
  "is_wanted_target lib s target =
     rbind (jget_or ''namespaceSelector'' JNull target) (\<lambda>selector.
       if truthy selector
       then rbind (validate_selector selector) (is_namespace_addressed_by_selector lib (su_target_namespace s))
       else rbind (jget ''namespace'' target) (\<lambda>ns. rbind (jget ''$ref'' ns) (\<lambda>r.
         Inr (r = JStr (na_path (su_target_namespace s))))))"

definition is_subscribed_target :: "render_lib \<Rightarrow> subscriber \<Rightarrow> json \<Rightarrow> sapm_error + bool" where
  \<comment> \<open>the body of the loop of \<open>_find_saas_file_targets\<close>\<close>
  "is_subscribed_target lib s target =
     rbind (is_wanted_target lib s target) (\<lambda>wanted.
       if \<not> wanted then Inr False
       else rbind (jget_or ''promotion'' JNull target) (\<lambda>promotion.
         if \<not> truthy promotion then Inr False
         else rbind (jget_or ''auto'' (JBool False) promotion) (\<lambda>auto.
           if \<not> truthy auto then Inr False
           else rbind (jget_or ''subscribe'' (JList []) promotion) (\<lambda>subscribe.
             rbind (jlist subscribe) (\<lambda>channels.
               Inr (JStr ` set (su_channels s) = set channels))))))"

fun update_data :: "config_hash \<Rightarrow> json list \<Rightarrow> sapm_error + json list \<times> bool" where
  \<comment> \<open>the entries of the parent SaaS file get the new hash\<close>
  "update_data h [] = Inr ([], False)"
| "update_data h (d # ds) =
     rbind (jget_or ''parent_saas'' JNull d) (\<lambda>parent.
     rbind (if parent = JStr (co_parent_saas h) then jset ''target_config_hash'' (JStr (co_target_config_hash h)) d else Inr d) (\<lambda>d'.
     rbind (update_data h ds) (\<lambda>(ds', applied).
       Inr (d' # ds', parent = JStr (co_parent_saas h) \<or> applied))))"

definition update_channel :: "config_hash \<Rightarrow> json \<Rightarrow> sapm_error + json \<times> bool" where
  "update_channel h c =
     rbind (jget ''channel'' c) (\<lambda>channel.
       if channel \<noteq> JStr (co_channel h) then Inr (c, False)
       else rbind (jdict c) (\<lambda>cd. case dict_get cd ''data'' of
         None \<Rightarrow> Inr (c, False)
       | Some data \<Rightarrow> rbind (jlist data) (\<lambda>ds. rbind (update_data h ds) (\<lambda>(ds', applied).
           rbind (jset ''data'' (JList ds') c) (\<lambda>c'. Inr (c', applied))))))"

fun update_channels :: "config_hash \<Rightarrow> json list \<Rightarrow> sapm_error + json list \<times> bool" where
  "update_channels h [] = Inr ([], False)"
| "update_channels h (c # cs) =
     rbind (update_channel h c) (\<lambda>(c', here).
     rbind (update_channels h cs) (\<lambda>(cs', applied). Inr (c' # cs', here \<or> applied)))"

definition new_channel_data :: "config_hash \<Rightarrow> json" where
  "new_channel_data h = JDict [(''channel'', JStr (co_channel h)),
     (''data'', JList [JDict [(''parent_saas'', JStr (co_parent_saas h)),
        (''target_config_hash'', JStr (co_target_config_hash h)), (''type'', JStr ''parent_saas_config'')]])]"

definition apply_config_hash :: "json list \<Rightarrow> config_hash \<Rightarrow> sapm_error + json list" where
  "apply_config_hash cur h =
     rbind (update_channels h cur) (\<lambda>(cur', applied). Inr (if applied then cur' else cur' @ [new_channel_data h]))"

definition render_target :: "subscriber \<Rightarrow> json \<Rightarrow> sapm_error + json" where
  "render_target s target =
     rbind (jset ''ref'' (JStr (su_desired_ref s)) target) (\<lambda>t.
     rbind (jget ''promotion'' t) (\<lambda>promotion.
     rbind (jget_or ''promotion_data'' (JList []) promotion) (\<lambda>cur.
     rbind (if su_desired_hashes s = [] then Inr cur
            else rbind (jlist cur) (\<lambda>xs. rbind (rfold apply_config_hash xs (su_desired_hashes s)) (\<lambda>ys. Inr (JList ys)))) (\<lambda>new.
       if truthy new then rbind (jset ''promotion_data'' new promotion) (\<lambda>p. jset ''promotion'' p t) else Inr t))))"

definition marked_targets :: "render_lib \<Rightarrow> subscriber \<Rightarrow> json \<Rightarrow> sapm_error + json \<times> (json \<times> bool) list" where
  \<comment> \<open>a resource template with its targets, each with whether it is one of the subscriber\<close>
  "marked_targets lib s rt =
     rbind (jget ''targets'' rt) (\<lambda>ts. rbind (jlist ts) (\<lambda>targets.
     rbind (rmap (\<lambda>t. rbind (is_subscribed_target lib s t) (\<lambda>b. Inr (t, b))) targets) (\<lambda>marks. Inr (rt, marks))))"

definition render_template :: "subscriber \<Rightarrow> json \<times> (json \<times> bool) list \<Rightarrow> sapm_error + json" where
  "render_template s = (\<lambda>(rt, marks).
     rbind (rmap (\<lambda>(t, b). if b then render_target s t else Inr t) marks) (\<lambda>ts. jset ''targets'' (JList ts) rt))"

definition render_content :: "render_lib \<Rightarrow> subscriber \<Rightarrow> json \<Rightarrow> sapm_error + json" where
  "render_content lib s content =
     rbind (jget ''$schema'' content) (\<lambda>schema.
       if schema = JStr ''/app-sre/saas-file-target-1.yml'' then render_target s content
       else rbind (jget ''resourceTemplates'' content) (\<lambda>j. rbind (jlist j) (\<lambda>rts.
         rbind (rmap (marked_targets lib s) rts) (\<lambda>marked.
         rbind (rmap (render_template s) marked) (\<lambda>rts'.
           jset ''resourceTemplates'' (JList rts') content)))))"

definition render_merge_request_content :: "render_lib \<Rightarrow> subscriber \<Rightarrow> string \<Rightarrow> sapm_error + string" where
  "render_merge_request_content lib s current =
     rbind (render_content lib s (rl_load lib current)) (\<lambda>content. Inr (''---'' @ newline # rl_dump lib content))"

end
