(* ===== verification/Sapm_Batcher.thy ===== *)
theory Sapm_Batcher
  imports Py_Prelude
begin

text \<open>
  The batcher of the saas auto promotions manager
  (\<open>reconcile/saas_auto_promotions_manager/merge_request_manager/batcher.py\<close>): from the desired promotions and
  the open merge requests it computes which merge requests to close and which to open. A set of content hashes is a
  list in order of first insertion. The merge request of the GitLab library that an open merge request carries is a
  type parameter: the batcher only passes it on.
\<close>

section \<open>Data\<close>

datatype close_reason = MissingUnbatching | OutdatedContent | NewBatch

record promotion =
  pr_content_hashes :: "string list"
  pr_channels :: "string list"

record 'raw open_batcher_mr =
  om_raw :: 'raw
  om_content_hashes :: "string list"
  om_channels :: "string list"
  om_failed_mr_check :: bool
  om_is_batchable :: bool

record 'raw mr_deletion =
  dl_mr :: "'raw open_batcher_mr"
  dl_reason :: close_reason

record mr_addition =
  ad_content_hashes :: "string list"
  ad_channels :: "string list"
  ad_batchable :: bool

record 'raw mr_diff =
  df_deletions :: "'raw mr_deletion list"
  df_additions :: "mr_addition list"

record 'raw batcher =
  bt_desired_promotions :: "promotion list"
  bt_open_mrs :: "'raw open_batcher_mr list"

definition delete_mr :: "'raw open_batcher_mr \<Rightarrow> close_reason \<Rightarrow> 'raw mr_diff \<Rightarrow> 'raw mr_diff" where
  "delete_mr mr reason d = d\<lparr>df_deletions := df_deletions d @ [\<lparr>dl_mr = mr, dl_reason = reason\<rparr>]\<rparr>"

definition add_mr :: "mr_addition \<Rightarrow> 'raw mr_diff \<Rightarrow> 'raw mr_diff" where
  "add_mr a d = d\<lparr>df_additions := df_additions d @ [a]\<rparr>"

definition issubset :: "string list \<Rightarrow> string list \<Rightarrow> bool" where
  "issubset xs ys \<longleftrightarrow> (\<forall>x \<in> set xs. x \<in> set ys)"

definition update_all :: "('a \<Rightarrow> string list) \<Rightarrow> 'a list \<Rightarrow> string list" where
  "update_all f xs = foldl (\<lambda>acc x. add_all acc (f x)) [] xs"

section \<open>The batcher\<close>

fun unbatch_mrs ::
  "'raw open_batcher_mr list \<Rightarrow> 'raw open_batcher_mr list \<times> string list \<times> string list \<times> 'raw mr_diff \<Rightarrow>
   'raw open_batcher_mr list \<times> string list \<times> string list \<times> 'raw mr_diff" where
  \<comment> \<open>the loop over the open merge requests: those that stay open, the unbatchable hashes, those falsely marked\<close>
  "unbatch_mrs [] acc = acc"
| "unbatch_mrs (mr # mrs) (stay, unbatchable, falsely, d) =
     unbatch_mrs mrs
       (if \<not> om_is_batchable mr then (stay @ [mr], add_all unbatchable (om_content_hashes mr), falsely, d)
        else if om_failed_mr_check mr
        then (stay, unbatchable, add_all falsely (om_content_hashes mr), delete_mr mr MissingUnbatching d)
        else (stay @ [mr], unbatchable, falsely, d))"

fun unbatch_promotions ::
  "string list \<Rightarrow> string list \<Rightarrow> promotion list \<Rightarrow> promotion list \<times> 'raw mr_diff \<Rightarrow> promotion list \<times> 'raw mr_diff" where
  "unbatch_promotions unbatchable falsely [] acc = acc"
| "unbatch_promotions unbatchable falsely (p # ps) (keep, d) =
     unbatch_promotions unbatchable falsely ps
       (if issubset (pr_content_hashes p) unbatchable then (keep @ [p], d)
        else if issubset (pr_content_hashes p) falsely
        then (keep, add_mr \<lparr>ad_content_hashes = pr_content_hashes p, ad_channels = pr_channels p, ad_batchable = False\<rparr> d)
        else (keep @ [p], d))"

definition unbatch :: "'raw batcher \<times> 'raw mr_diff \<Rightarrow> 'raw batcher \<times> 'raw mr_diff" where
  "unbatch = (\<lambda>(b, d).
     (case unbatch_mrs (bt_open_mrs b) ([], [], [], d) of (stay, unbatchable, falsely, d1) \<Rightarrow>
       (case unbatch_promotions unbatchable falsely (bt_desired_promotions b) ([], d1) of (keep, d2) \<Rightarrow>
         (\<lparr>bt_desired_promotions = keep, bt_open_mrs = stay\<rparr>, d2))))"

fun outdated_loop ::
  "string list \<Rightarrow> 'raw open_batcher_mr list \<Rightarrow> 'raw open_batcher_mr list \<times> 'raw mr_diff \<Rightarrow>
   'raw open_batcher_mr list \<times> 'raw mr_diff" where
  "outdated_loop desired [] acc = acc"
| "outdated_loop desired (mr # mrs) (stay, d) =
     outdated_loop desired mrs
       (if issubset (om_content_hashes mr) desired then (stay @ [mr], d)
        else (stay, delete_mr mr OutdatedContent d))"

definition remove_outdated :: "'raw batcher \<times> 'raw mr_diff \<Rightarrow> 'raw batcher \<times> 'raw mr_diff" where
  "remove_outdated = (\<lambda>(b, d).
     (case outdated_loop (update_all pr_content_hashes (bt_desired_promotions b)) (bt_open_mrs b) ([], d) of
        (stay, d1) \<Rightarrow> (b\<lparr>bt_open_mrs := stay\<rparr>, d1)))"

definition empty_batch :: mr_addition where
  "empty_batch = \<lparr>ad_content_hashes = [], ad_channels = [], ad_batchable = True\<rparr>"

fun batch_loop :: "nat \<Rightarrow> mr_addition \<Rightarrow> promotion list \<Rightarrow> 'raw mr_diff \<Rightarrow> 'raw mr_diff" where
  "batch_loop limit batched [] d = (if ad_content_hashes batched \<noteq> [] then add_mr batched d else d)"
| "batch_loop limit batched (p # ps) d =
     (let batched' = batched\<lparr>ad_content_hashes := add_all (ad_content_hashes batched) (pr_content_hashes p),
                             ad_channels := add_all (ad_channels batched) (pr_channels p)\<rparr>
      in if limit \<le> List.length (ad_content_hashes batched')
         then batch_loop limit empty_batch ps (add_mr batched' d)
         else batch_loop limit batched' ps d)"

definition has_capacity :: "nat \<Rightarrow> 'raw open_batcher_mr \<Rightarrow> bool" where
  "has_capacity limit mr \<longleftrightarrow> om_is_batchable mr \<and> List.length (om_content_hashes mr) < limit"

definition unsubmitted :: "'raw batcher \<Rightarrow> promotion list" where
  "unsubmitted b = filter (\<lambda>p. \<not> issubset (pr_content_hashes p) (update_all om_content_hashes (bt_open_mrs b)))
     (bt_desired_promotions b)"

definition batch_remaining_mrs :: "nat \<Rightarrow> 'raw batcher \<times> 'raw mr_diff \<Rightarrow> 'raw mr_diff" where
  "batch_remaining_mrs limit = (\<lambda>(b, d).
     (if unsubmitted b = [] then d
      else case List.find (has_capacity limit) (bt_open_mrs b) of
        None \<Rightarrow> batch_loop limit empty_batch (unsubmitted b) d
      | Some mr \<Rightarrow> batch_loop limit empty_batch
          (unsubmitted b @ [\<lparr>pr_content_hashes = om_content_hashes mr, pr_channels = om_channels mr\<rparr>])
          (delete_mr mr NewBatch d)))"

definition reconcile_batches ::
  "promotion list \<Rightarrow> 'raw open_batcher_mr list \<Rightarrow> nat \<Rightarrow> 'raw mr_diff" where
  "reconcile_batches desired open_mrs limit =
     batch_remaining_mrs limit (remove_outdated (unbatch
       (\<lparr>bt_desired_promotions = desired, bt_open_mrs = open_mrs\<rparr>, \<lparr>df_deletions = [], df_additions = []\<rparr>)))"

end
