(* ===== verification/Sapm_Manager.thy ===== *)
theory Sapm_Manager
  imports Sapm_Text Sapm_Batcher
begin

text \<open>
  The merge requests of the saas auto promotions manager: the parser of the open ones
  (\<open>merge_request_manager/mr_parser.py\<close>), the desired state (\<open>desired_state.py\<close>), the manager
  (\<open>merge_request_manager_v2.py\<close>) and the run of the integration (\<open>integration.py\<close>), over the operations on merge
  requests of \<open>reconcile/utils/vcs.py\<close> and \<open>reconcile/utils/mr/base.py\<close>. GitLab is the record \<open>git_world\<close>; what it
  refuses and the random names of branches are parameters. An action returns its result or the exception, and the
  world it leaves: what was done before an exception stays done.
\<close>

section \<open>GitLab\<close>

record gl_mr =
  gm_iid :: nat
  gm_title :: string
  gm_labels :: "string list"
  gm_description :: "string option"
  gm_has_conflicts :: bool
  gm_source_branch :: "string option"
  gm_pipelines :: "(int \<times> string) list"
  \<comment> \<open>the time of creation and the status\<close>

record git_world =
  gw_open_mrs :: "gl_mr list"
  gw_next_iid :: nat
  gw_branches :: "string list"
  gw_files :: "(string, string) dict"
  gw_comments :: "(nat \<times> string) list"

record vcs_config =
  vc_dry_run :: bool
  vc_allow_deleting_mrs :: bool
  vc_allow_opening_mrs :: bool

record gitlab_lib =
  gl_file_error :: "string \<Rightarrow> int option"
  gl_refuses_mr :: "string \<Rightarrow> bool"
  gl_branch :: "string \<Rightarrow> string"
  gl_sha_number :: "string \<Rightarrow> nat"

type_synonym 'a git_act = "git_world \<Rightarrow> (sapm_error + 'a) \<times> git_world"

definition vret :: "'a \<Rightarrow> 'a git_act" where
  "vret x w = (Inr x, w)"

definition vraise :: "sapm_error \<Rightarrow> 'a git_act" where
  "vraise e w = (Inl e, w)"

definition vbind :: "'a git_act \<Rightarrow> ('a \<Rightarrow> 'b git_act) \<Rightarrow> 'b git_act" where
  "vbind m f w = (case m w of (Inl e, w') \<Rightarrow> (Inl e, w') | (Inr x, w') \<Rightarrow> f x w')"

definition vlift :: "sapm_error + 'a \<Rightarrow> 'a git_act" where
  "vlift r w = (r, w)"

fun vfold :: "('s \<Rightarrow> 'a \<Rightarrow> 's git_act) \<Rightarrow> 's \<Rightarrow> 'a list \<Rightarrow> 's git_act" where
  "vfold f s [] = vret s"
| "vfold f s (x # xs) = vbind (f s x) (\<lambda>s'. vfold f s' xs)"

datatype mr_check_status = CheckNone | CheckSuccess | CheckFailed | CheckRunning

definition get_gitlab_mr_check_status :: "gl_mr \<Rightarrow> mr_check_status" where
  \<comment> \<open>the latest pipeline decides\<close>
  "get_gitlab_mr_check_status mr =
     (case sort_key (\<lambda>(t, _). - t) (gm_pipelines mr) of
        [] \<Rightarrow> CheckNone
      | (_, st) # _ \<Rightarrow>
          if st = ''success'' then CheckSuccess else if st = ''running'' then CheckRunning
          else if st = ''failed'' then CheckFailed else CheckNone)"

definition close_app_interface_mr :: "vcs_config \<Rightarrow> gl_mr \<Rightarrow> string \<Rightarrow> unit git_act" where
  "close_app_interface_mr cfg mr comment w =
     (if vc_dry_run cfg \<or> \<not> vc_allow_deleting_mrs cfg then (Inr (), w)
      else let w1 = w\<lparr>gw_comments := gw_comments w @ [(gm_iid mr, comment)]\<rparr>
           in case truthy_str (gm_source_branch mr) of
             None \<Rightarrow> (Inl MissingSourceBranch, w1)
           | Some branch \<Rightarrow> (Inr (), w1\<lparr>gw_open_mrs := filter (\<lambda>m. gm_iid m \<noteq> gm_iid mr) (gw_open_mrs w1),
                 gw_branches := filter (\<lambda>b. b \<noteq> branch) (gw_branches w1)\<rparr>))"

definition get_file_content_from_app_interface_ref :: "gitlab_lib \<Rightarrow> string \<Rightarrow> string git_act" where
  "get_file_content_from_app_interface_ref lib path w =
     (let p = (if prefix ''data'' path then path else ''data/'' @ dropWhile (\<lambda>c. c = CHR ''/'') path)
      in case gl_file_error lib p of
           Some code \<Rightarrow> (Inl (GitlabGetError code), w)
         | None \<Rightarrow> (of_opt (GitlabGetError 404) (dict_get (gw_files w) p), w))"

record sapm_mr =
  sm_labels :: "string list"
  sm_content_by_path :: "(string, string) dict"
  sm_title :: string
  sm_description :: string

definition created_mr :: "gitlab_lib \<Rightarrow> nat \<Rightarrow> sapm_mr \<Rightarrow> gl_mr" where
  "created_mr lib iid mr = \<lparr>gm_iid = iid, gm_title = sm_title mr, gm_labels = sm_labels mr,
     gm_description = Some (sm_description mr), gm_has_conflicts = False,
     gm_source_branch = Some (gl_branch lib (sm_title mr)), gm_pipelines = []\<rparr>"

definition submit_to_gitlab :: "gitlab_lib \<Rightarrow> sapm_mr \<Rightarrow> nat option git_act" where
  \<comment> \<open>a cancelled submission and a failed one leave no branch behind\<close>
  "submit_to_gitlab lib mr w =
     (if sm_title mr \<in> gm_title ` set (gw_open_mrs w) then (Inr None, w)
      else let files = map (\<lambda>(p, c). (''data'' @ p, c)) (sm_content_by_path mr)
           in if gl_refuses_mr lib (sm_title mr) \<or> (\<exists>(p, c) \<in> set files. \<not> dict_has (gw_files w) p)
              then (Inl MergeRequestProcessingError, w)
              else if \<forall>(p, c) \<in> set files. dict_get (gw_files w) p = Some c then (Inr None, w)
              else (Inr (Some (gw_next_iid w)),
                    w\<lparr>gw_open_mrs := created_mr lib (gw_next_iid w) mr # gw_open_mrs w,
                      gw_next_iid := gw_next_iid w + 1,
                      gw_branches := gl_branch lib (sm_title mr) # gw_branches w\<rparr>))"

definition open_app_interface_merge_request :: "gitlab_lib \<Rightarrow> vcs_config \<Rightarrow> sapm_mr \<Rightarrow> unit git_act" where
  "open_app_interface_merge_request lib cfg mr =
     (if vc_dry_run cfg \<or> \<not> vc_allow_opening_mrs cfg then vret ()
      else vbind (submit_to_gitlab lib mr) (\<lambda>_. vret ()))"

section \<open>The parser\<close>

definition mr_description :: "gl_mr \<Rightarrow> string" where
  "mr_description mr = (case gm_description mr of None \<Rightarrow> ''None'' | Some d \<Rightarrow> d)"

definition sort_mr ::
  "vcs_config \<Rightarrow> gl_mr list \<Rightarrow> gl_mr \<Rightarrow> gl_mr list git_act" where
  \<comment> \<open>the loop of \<open>fetch_mrs\<close>: collects the batcher merge requests, closes what it cannot read\<close>
  "sort_mr cfg acc mr =
     (case kind_of_description (mr_description mr) of
        Inl c \<Rightarrow> vbind (close_app_interface_mr cfg mr (close_text c)) (\<lambda>_. vret acc)
      | Inr Batcher \<Rightarrow> vret (acc @ [mr])
      | Inr Scheduler \<Rightarrow> vret acc)"

definition read_batcher_mr ::
  "(string \<times> string) list \<Rightarrow> gl_mr \<Rightarrow> (string \<times> string) list \<times> (close_comment + gl_mr open_batcher_mr)" where
  \<comment> \<open>one merge request of \<open>_handle_open_batcher_mrs\<close>, with the channels and hashes seen so far\<close>
  "read_batcher_mr seen mr =
     (let data = (case promotion_data_of (mr_description mr) of None \<Rightarrow> [] | Some d \<Rightarrow> d);
          content_hashes = apply_regex content_hashes_ref data; channels = apply_regex channels_ref data;
          batchable = apply_regex is_batchable_ref data
      in if gm_has_conflicts mr then (seen, Inl MergeConflict)
         else if content_hashes = [] then (seen, Inl (BadFormat content_hashes_ref))
         else if channels = [] then (seen, Inl (BadFormat channels_ref))
         else if (channels, content_hashes) \<in> set seen then (seen, Inl DuplicateMr)
         else let seen' = seen @ [(channels, content_hashes)]
              in if batchable \<notin> {''True'', ''False''} then (seen', Inl (BadFormat is_batchable_ref))
                 else (seen', Inr \<lparr>om_raw = mr, om_content_hashes = add_all [] (py_split CHR '','' content_hashes),
                         om_channels = add_all [] (py_split CHR '','' channels),
                         om_failed_mr_check = (get_gitlab_mr_check_status mr = CheckFailed),
                         om_is_batchable = (batchable = ''True'')\<rparr>))"

definition handle_batcher_mr ::
  "vcs_config \<Rightarrow> (string \<times> string) list \<times> gl_mr open_batcher_mr list \<Rightarrow> gl_mr \<Rightarrow>
   ((string \<times> string) list \<times> gl_mr open_batcher_mr list) git_act" where
  "handle_batcher_mr cfg = (\<lambda>(seen, out) mr.
     (case read_batcher_mr seen mr of
        (seen', Inl c) \<Rightarrow> vbind (close_app_interface_mr cfg mr (close_text c)) (\<lambda>_. vret (seen', out))
      | (seen', Inr found) \<Rightarrow> vret (seen', out @ [found])))"

definition fetch_mrs :: "vcs_config \<Rightarrow> string \<Rightarrow> gl_mr open_batcher_mr list git_act" where
  "fetch_mrs cfg label w =
     vbind (vfold (sort_mr cfg) [] (filter (\<lambda>mr. label \<in> set (gm_labels mr)) (gw_open_mrs w))) (\<lambda>mrs.
     vbind (vfold (handle_batcher_mr cfg) ([], []) mrs) (\<lambda>(_, out). vret out)) w"

section \<open>The desired state\<close>

record desired_state =
  ds_content_hash_to_subscriber :: "(string, subscriber list) dict"
  ds_promotions :: "promotion list"

definition channel_combo :: "subscriber \<Rightarrow> string" where
  "channel_combo s = join '','' (su_channels s)"

definition desired_promotions :: "subscriber_lib \<Rightarrow> subscriber list \<Rightarrow> desired_state" where
  "desired_promotions lib ss =
     foldl (\<lambda>d (combo, subs).
       let h = combined_content_hash lib subs
       in d\<lparr>ds_content_hash_to_subscriber := dict_set (ds_content_hash_to_subscriber d) h subs,
            ds_promotions := ds_promotions d @ [\<lparr>pr_content_hashes = [h], pr_channels = [combo]\<rparr>]\<rparr>)
       \<lparr>ds_content_hash_to_subscriber = [], ds_promotions = []\<rparr> (group_by channel_combo ss)"

section \<open>The manager\<close>

record manager_lib =
  mg_subscriber :: subscriber_lib
  mg_render :: render_lib
  mg_gitlab :: gitlab_lib
  mg_publisher :: publisher_lib

definition batch_size_limit :: nat where "batch_size_limit = 5"

definition sapm_label :: string where "sapm_label = ''SAPM''"

definition sapm_mr_labels :: "string list" where
  "sapm_mr_labels = [sapm_label, ''bot/approved: progressive-delivery'']"

definition mr_desc :: string where
  "mr_desc = newline #
     ''This is an auto-promotion triggered by app-interface'' @ [CHR 0x27] @
     ''s [saas-auto-promotions-manager](https://github.com/app-sre/qontract-reconcile/tree/master/reconcile/saas_auto_promotions_manager) (SAPM).'' @
     newline # ''This MR promotes all subscribers with auto-promotions for the channel(s) listed below.'' @
     [newline, newline] @
     ''Please **do not manually modify** this MR in any way, as it might result in blocking the auto-promotion.'' @
     [newline, newline] @ ''This description is used by SAPM to manage auto-promotions.'' @ [newline]"

definition load_content ::
  "manager_lib \<Rightarrow> (string, string) dict \<Rightarrow> subscriber \<Rightarrow> (string, string) dict option git_act" where
  \<comment> \<open>one subscriber of \<open>_render_mr\<close>; \<open>None\<close>: the file does not exist\<close>
  "load_content lib contents s w =
     (let path = su_target_file_path s; render = (\<lambda>cs cur.
            vlift (rbind (render_merge_request_content (mg_render lib) s cur) (\<lambda>new. Inr (Some (dict_set cs path new)))))
      in case dict_get contents path of
           Some cur \<Rightarrow> render contents cur w
         | None \<Rightarrow>
             (case get_file_content_from_app_interface_ref (mg_gitlab lib) path w of
                (Inl (GitlabGetError code), w') \<Rightarrow> if code = 404 then (Inr None, w') else (Inl (GitlabGetError code), w')
              | (Inl e, w') \<Rightarrow> (Inl e, w')
              | (Inr cur, w') \<Rightarrow> render contents cur w'))"

fun load_contents ::
  "manager_lib \<Rightarrow> (string, string) dict \<Rightarrow> subscriber list \<Rightarrow> (string, string) dict option git_act" where
  "load_contents lib contents [] = vret (Some contents)"
| "load_contents lib contents (s # ss) =
     vbind (load_content lib contents s) (\<lambda>r. case r of None \<Rightarrow> vret None | Some cs \<Rightarrow> load_contents lib cs ss)"

definition addition_description :: "mr_addition \<Rightarrow> string" where
  "addition_description a = render_description mr_desc (join '','' (ad_content_hashes a)) (join '','' (ad_channels a)) (ad_batchable a)"

definition addition_mr :: "manager_lib \<Rightarrow> (string, string) dict \<Rightarrow> mr_addition \<Rightarrow> sapm_mr" where
  "addition_mr lib contents a = \<lparr>sm_labels = sapm_mr_labels, sm_content_by_path = contents,
     sm_title = render_title (gl_sha_number (mg_gitlab lib)) False False (join '','' (ad_channels a))
       (List.length (ad_content_hashes a)),
     sm_description = addition_description a\<rparr>"

definition render_mr :: "manager_lib \<Rightarrow> desired_state \<Rightarrow> sapm_mr list \<Rightarrow> mr_addition \<Rightarrow> sapm_mr list git_act" where
  "render_mr lib ds mrs a =
     vbind (vlift (rmap (\<lambda>h. of_opt UnknownContentHash (dict_get (ds_content_hash_to_subscriber ds) h))
       (ad_content_hashes a))) (\<lambda>subs.
     vbind (load_contents lib [] (concat subs)) (\<lambda>r. case r of
       None \<Rightarrow> vret mrs
     | Some contents \<Rightarrow> vret (mrs @ [addition_mr lib contents a])))"

fun reason_text :: "close_reason \<Rightarrow> string" where
  "reason_text MissingUnbatching =
     ''Closing this MR because it failed MR check and isn'' @ [CHR 0x27] @ ''t marked as un-batchable yet.''"
| "reason_text OutdatedContent = ''Closing this MR because it has out-dated content.''"
| "reason_text NewBatch = ''Closing this MR in favor of a new batch MR.''"

definition reconcile_mrs :: "manager_lib \<Rightarrow> vcs_config \<Rightarrow> subscriber list \<Rightarrow> unit git_act" where
  "reconcile_mrs lib cfg subs =
     vbind (fetch_mrs cfg sapm_label) (\<lambda>current.
     (let ds = desired_promotions (mg_subscriber lib) subs;
          diff = reconcile_batches (ds_promotions ds) current batch_size_limit
      in vbind (vfold (\<lambda>_ d. close_app_interface_mr cfg (om_raw (dl_mr d)) (reason_text (dl_reason d))) () (df_deletions diff)) (\<lambda>_.
         vbind (vfold (render_mr lib ds) [] (df_additions diff)) (\<lambda>mrs.
         vfold (\<lambda>_ mr. open_app_interface_merge_request (mg_gitlab lib) cfg mr) () mrs))))"

section \<open>The run\<close>

record sapm_world =
  sw_git :: git_world
  sw_deploy_state :: s3_state
  sw_sapm_state :: s3_state

definition desired_subscribers ::
  "manager_lib \<Rightarrow> s3_state \<Rightarrow> saas_inventory \<Rightarrow> sapm_error + saas_inventory" where
  \<comment> \<open>the first half of \<open>reconcile\<close>: the state of the publishers, then the desired state of the subscribers\<close>
  "desired_subscribers lib s3 iv =
     rbind (cache_commit_shas_from_s3 s3 new_promotion_state) (\<lambda>ps.
     rbind (fetch_publisher_states (mg_publisher lib) s3 (in_publishers iv) ps) (\<lambda>(pubs, _).
     let iv' = iv\<lparr>in_publishers := pubs\<rparr>
     in rbind (rmap (compute_desired_state (mg_subscriber lib) iv') (in_subscribers iv)) (\<lambda>subs.
       Inr (iv'\<lparr>in_subscribers := subs\<rparr>))))"

definition run_sapm :: "manager_lib \<Rightarrow> vcs_config \<Rightarrow> saas_inventory \<Rightarrow> sapm_world \<Rightarrow> (sapm_error + unit) \<times> sapm_world" where
  "run_sapm lib cfg iv w =
     (case desired_subscribers lib (sw_deploy_state w) iv of
        Inl e \<Rightarrow> (Inl e, w)
      | Inr iv' \<Rightarrow>
          (case reconcile_mrs lib cfg (filter has_diff (in_subscribers iv')) (sw_git w) of
             (Inl e, g) \<Rightarrow> (Inl e, w\<lparr>sw_git := g\<rparr>)
           | (Inr _, g) \<Rightarrow> (Inr (), w\<lparr>sw_git := g,
               sw_sapm_state := export_publisher_data (vc_dry_run cfg) (in_publishers iv') (sw_sapm_state w)\<rparr>)))"

end
