(* ===== verification/Sapm_Text_Laws.thy ===== *)
theory Sapm_Text_Laws
  imports Sapm_Text
begin

text \<open>
  The texts are read back: the parser finds in a rendered description exactly what was written. And the new content
  of a SaaS file carries the desired reference and hashes.
\<close>

section \<open>Searching a text of lines\<close>

lemma takeWhile_line: "newline \<notin> set v \<Longrightarrow> takeWhile (\<lambda>c. c \<noteq> newline) (v @ newline # r) = v"
  by (induction v) auto

lemma search_after_hit:
  "pat \<noteq> [] \<Longrightarrow> newline \<notin> set v \<Longrightarrow> search_after pat (pat @ v @ newline # r) = Some v"
  by (cases pat) (auto simp: takeWhile_line)

lemma sublist_skip: "sublist xs ys \<Longrightarrow> sublist xs (y # ys)"
  by (simp add: sublist_Cons_right)

lemma prefix_before_newline:
  assumes "prefix pat (a @ newline # b)" "newline \<notin> set pat"
  shows "prefix pat a"
proof (rule ccontr)
  assume "\<not> prefix pat a"
  with assms(1) obtain c where "pat = a @ c" "prefix c (newline # b)" by (auto simp: prefix_append)
  moreover from this \<open>\<not> prefix pat a\<close> have "c \<noteq> []" by auto
  ultimately have "newline \<in> set pat" by (cases c) auto
  with assms(2) show False by simp
qed

lemma search_after_skip:
  "pat \<noteq> [] \<Longrightarrow> newline \<notin> set pat \<Longrightarrow> \<not> sublist pat a \<Longrightarrow> search_after pat (a @ newline # b) = search_after pat b"
proof (induction a)
  case Nil
  then show ?case by (cases pat) auto
next
  case (Cons x a)
  have "\<not> prefix pat ((x # a) @ newline # b)"
  proof
    assume "prefix pat ((x # a) @ newline # b)"
    from prefix_before_newline [OF this Cons.prems(2)] Cons.prems(3) show False
      using prefix_imp_sublist by blast
  qed
  moreover have "\<not> sublist pat a" using Cons.prems(3) sublist_skip by metis
  ultimately show ?case using Cons.IH [OF Cons.prems(1,2)] by simp
qed

lemma sublist_before_last:
  assumes sub: "sublist pat (k @ v)" and last: "pat \<noteq> []" "last pat \<notin> set v"
  shows "sublist pat k"
proof -
  from sub obtain u w where eq: "k @ v = u @ pat @ w" by (auto simp: sublist_def)
  have "List.length (u @ pat) \<le> List.length k"
  proof (rule ccontr)
    assume long: "\<not> List.length (u @ pat) \<le> List.length k"
    from eq have "(k @ v) ! (List.length (u @ pat) - 1) = (u @ pat) ! (List.length (u @ pat) - 1)"
      using last(1) by (metis (no_types, lifting) append.assoc append_is_Nil_conv diff_less length_greater_0_conv nth_append zero_less_one)
    also have "\<dots> = last pat"
      using last(1) by (metis append_is_Nil_conv last_append last_conv_nth)
    finally have "last pat = v ! (List.length (u @ pat) - 1 - List.length k)"
      using long by (simp add: nth_append split: if_splits)
    moreover have "List.length (u @ pat) - 1 - List.length k < List.length v"
      using long arg_cong [OF eq, of List.length] last(1) by (cases pat) auto
    ultimately show False using last(2) by (metis nth_mem)
  qed
  then have "prefix (u @ pat) k"
    using eq by (metis append.assoc prefixI prefix_length_prefix)
  then show ?thesis by (auto simp: prefix_def sublist_def)
qed

definition plain_text :: "string \<Rightarrow> bool" where
  \<comment> \<open>a text that fits in a data line\<close>
  "plain_text s \<longleftrightarrow> CHR '' '' \<notin> set s \<and> CHR ''*'' \<notin> set s \<and> newline \<notin> set s"

lemma skip_line:
  assumes "plain_text v" "last pat = CHR '' ''" "newline \<notin> set pat" "\<not> sublist pat (key @ '': '')"
  shows "search_after pat (data_line key v @ b) = search_after pat b"
proof -
  have ne: "pat \<noteq> []" using assms(4) by auto
  have "\<not> sublist pat ((key @ '': '') @ v)"
    using sublist_before_last [OF _ ne, of "key @ '': ''" v] assms(1,2,4) by (auto simp: plain_text_def)
  with search_after_skip [OF ne assms(3), of "(key @ '': '') @ v" "newline # b"] search_after_skip [OF ne assms(3), of "[]" b] ne
  show ?thesis by (simp add: data_line_def)
qed

lemma hit_line:
  assumes "plain_text v"
  shows "search_after (key @ '': '') (data_line key v @ b) = Some v"
  using search_after_hit [of "key @ '': ''" v "newline # b"] assms by (simp add: data_line_def plain_text_def)

lemma plain_constants [simp]:
  "plain_text (show_bool b)" "plain_text ''batcher''" "plain_text ''2.3.0''"
  by (simp_all add: plain_text_def show_bool_def)

lemmas data_constants = channels_ref_def content_hashes_ref_def is_batchable_ref_def version_ref_def mr_kind_ref_def
  sapm_version_def

lemma skip_start: "pat \<noteq> [] \<Longrightarrow> newline \<notin> set pat \<Longrightarrow> search_after pat (newline # newline # b) = search_after pat b"
  using search_after_skip [of pat "[]"] by simp

lemma data_read_back:
  assumes "plain_text hs" "plain_text cs"
  shows "apply_regex channels_ref (promotion_data_text hs cs b) = cs"
    "apply_regex content_hashes_ref (promotion_data_text hs cs b) = hs"
    "apply_regex is_batchable_ref (promotion_data_text hs cs b) = show_bool b"
    "apply_regex mr_kind_ref (promotion_data_text hs cs b) = ''batcher''"
    "apply_regex version_ref (promotion_data_text hs cs b) = sapm_version"
  using assms
  by (simp_all add: apply_regex_def promotion_data_text_def skip_start hit_line [of _ "''channels''", simplified]
      hit_line [of _ "''content_hashes''", simplified] hit_line [of _ "''is_batchable''", simplified]
      hit_line [of _ "''kind''", simplified] hit_line [of _ "''sapm_version''", simplified]
      skip_line sublist_code data_constants)

section \<open>Splitting at the separator\<close>

lemma split_str_absent: "\<not> sublist sep b \<Longrightarrow> split_str sep 0 b = [b]"
proof (induction b)
  case (Cons x b)
  then have "\<not> prefix sep (x # b)" "\<not> sublist sep b" using prefix_imp_sublist sublist_skip by metis+
  with Cons.IH show ?case by simp
qed simp

lemma split_str_skip: "split_str sep (List.length w) (w @ b) = split_str sep 0 b"
  by (induction w) auto

lemma split_str_found:
  "sep \<noteq> [] \<Longrightarrow> \<not> sublist sep (a @ butlast sep) \<Longrightarrow> split_str sep 0 (a @ sep @ b) = a # split_str sep 0 b"
proof (induction a)
  case Nil
  then show ?case using split_str_skip [of sep "tl sep" b] by (cases sep) auto
next
  case (Cons x a)
  have "\<not> prefix sep ((x # a) @ sep @ b)"
  proof
    assume p: "prefix sep ((x # a) @ sep @ b)"
    have "prefix ((x # a) @ butlast sep) ((x # a) @ sep @ b)"
      using Cons.prems(1) by (metis append.assoc append_butlast_last_id prefixI same_prefix_prefix)
    with p have "prefix sep ((x # a) @ butlast sep)"
      by (rule prefix_length_prefix) (use Cons.prems(1) in \<open>cases sep; simp\<close>)
    with Cons.prems(2) show False using prefix_imp_sublist by blast
  qed
  moreover have "\<not> sublist sep (a @ butlast sep)"
    using Cons.prems(2) sublist_skip by (metis append_Cons)
  ultimately show ?case using Cons.IH [OF Cons.prems(1)] by simp
qed

definition message_ok :: "string \<Rightarrow> bool" where
  \<comment> \<open>the separator does not begin in the text before it\<close>
  "message_ok message \<longleftrightarrow>
     \<not> sublist promotion_data_separator ((newline # message @ [newline, newline]) @ butlast promotion_data_separator)"

lemma star_not_in_data:
  assumes "plain_text hs" "plain_text cs"
  shows "\<not> sublist promotion_data_separator (promotion_data_text hs cs b)"
proof
  assume "sublist promotion_data_separator (promotion_data_text hs cs b)"
  then have "CHR ''*'' \<in> set (promotion_data_text hs cs b)"
    using set_mono_sublist [of promotion_data_separator] by (fastforce simp: promotion_data_separator_def)
  with assms show False
    by (auto simp: promotion_data_text_def data_line_def plain_text_def show_bool_def data_constants split: if_splits)
qed

lemma description_data:
  assumes "message_ok message" "plain_text hs" "plain_text cs"
  shows "promotion_data_of (render_description message hs cs b) = Some (promotion_data_text hs cs b)"
proof -
  let ?a = "newline # message @ [newline, newline]"
  have "split_str promotion_data_separator 0 (?a @ promotion_data_separator @ promotion_data_text hs cs b) =
      [?a, promotion_data_text hs cs b]"
    using split_str_found [of promotion_data_separator ?a] assms(1) split_str_absent [OF star_not_in_data [OF assms(2,3)]]
    by (simp add: message_ok_def promotion_data_separator_def del: split_str.simps)
  then show ?thesis by (simp add: promotion_data_of_def render_description_def)
qed

lemma description_kind:
  assumes "message_ok message" "plain_text hs" "plain_text cs"
  shows "kind_of_description (render_description message hs cs b) = Inr Batcher"
  using assms by (simp add: kind_of_description_def description_data data_read_back Let_def sapm_version_def)

section \<open>The rendered content\<close>

definition entry_has :: "config_hash \<Rightarrow> json \<Rightarrow> bool" where
  "entry_has h d \<longleftrightarrow> (\<exists>kvs. d = JDict kvs \<and> map_of kvs ''parent_saas'' = Some (JStr (co_parent_saas h)) \<and>
     map_of kvs ''target_config_hash'' = Some (JStr (co_target_config_hash h)))"

definition channel_has :: "config_hash \<Rightarrow> json \<Rightarrow> bool" where
  "channel_has h c \<longleftrightarrow> (\<exists>kvs ds. c = JDict kvs \<and> map_of kvs ''channel'' = Some (JStr (co_channel h)) \<and>
     map_of kvs ''data'' = Some (JList ds) \<and> (\<exists>d \<in> set ds. entry_has h d))"

lemmas json_access = jget_def jget_or_def jset_def jdict_def jlist_def result_simps

lemma jdict_iff [simp]: "jdict j = Inr d \<longleftrightarrow> j = JDict d"
  by (cases j) (auto simp: jdict_def)

lemma jlist_iff [simp]: "jlist j = Inr d \<longleftrightarrow> j = JList d"
  by (cases j) (auto simp: jlist_def)

lemma jget_iff: "jget key j = Inr v \<longleftrightarrow> (\<exists>d. j = JDict d \<and> map_of d key = Some v)"
  by (auto simp: jget_def result_simps)

lemma jget_or_iff: "jget_or key dflt j = Inr v \<longleftrightarrow> (\<exists>d. j = JDict d \<and> v = get_or d key dflt)"
  by (auto simp: jget_or_def result_simps)

lemma jset_iff: "jset key v j = Inr j' \<longleftrightarrow> (\<exists>d. j = JDict d \<and> j' = JDict (dict_set d key v))"
  by (auto simp: jset_def result_simps)

lemmas json_iffs = jget_iff jget_or_iff jset_iff

lemma update_data_applied:
  "update_data h ds = Inr (ds', True) \<Longrightarrow> \<exists>d \<in> set ds'. entry_has h d"
proof (induction ds arbitrary: ds')
  case (Cons d ds)
  then obtain kvs d' ds'' applied where d: "d = JDict kvs" "ds' = d' # ds''" "update_data h ds = Inr (ds'', applied)"
    and set: "get_or kvs ''parent_saas'' JNull = JStr (co_parent_saas h) \<longrightarrow>
      d' = JDict (dict_set kvs ''target_config_hash'' (JStr (co_target_config_hash h)))"
    and app: "get_or kvs ''parent_saas'' JNull = JStr (co_parent_saas h) \<or> applied"
    by (auto simp: result_simps json_iffs split: if_splits)
  show ?case
  proof (cases "get_or kvs ''parent_saas'' JNull = JStr (co_parent_saas h)")
    case True
    then have "map_of kvs ''parent_saas'' = Some (JStr (co_parent_saas h))"
      by (auto simp: get_or_def split: option.splits)
    with True set have "entry_has h d'" by (simp add: entry_has_def dict_simps)
    with d(2) show ?thesis by simp
  next
    case False
    with app Cons.IH [of ds''] d show ?thesis by auto
  qed
qed auto

lemma update_channel_has: "update_channel h c = Inr (c', True) \<Longrightarrow> channel_has h c'"
  unfolding update_channel_def
  by (auto simp: result_simps json_iffs channel_has_def dict_simps split: if_splits option.splits)
    (blast dest: update_data_applied)

lemma update_channel_other:
  "update_channel h c = Inr (c', b) \<Longrightarrow> co_channel h' \<noteq> co_channel h \<Longrightarrow> channel_has h' c \<Longrightarrow> c' = c"
  unfolding update_channel_def
  by (auto simp: result_simps json_iffs channel_has_def)

lemma update_channels_applied: "update_channels h cs = Inr (cs', True) \<Longrightarrow> \<exists>c \<in> set cs'. channel_has h c"
  by (induction cs arbitrary: cs') (auto simp: result_simps dest: update_channel_has)

lemma update_channels_other:
  "update_channels h cs = Inr (cs', applied) \<Longrightarrow> co_channel h' \<noteq> co_channel h \<Longrightarrow> c \<in> set cs \<Longrightarrow> channel_has h' c \<Longrightarrow>
   c \<in> set cs'"
  by (induction cs arbitrary: cs' applied) (auto simp: result_simps dest: update_channel_other)

lemma new_channel_has: "channel_has h (new_channel_data h)"
  by (simp add: channel_has_def new_channel_data_def entry_has_def)

lemma apply_config_hash_has:
  assumes "apply_config_hash cs h = Inr cs'"
  shows "\<exists>c \<in> set cs'. channel_has h c"
    "co_channel h' \<noteq> co_channel h \<Longrightarrow> c \<in> set cs \<Longrightarrow> channel_has h' c \<Longrightarrow> c \<in> set cs'"
  using assms update_channels_applied [of h cs] update_channels_other [of h cs _ _ h' c] new_channel_has [of h]
  by (auto simp: apply_config_hash_def result_simps split: if_splits)

lemma apply_config_hashes_has:
  "rfold apply_config_hash cs hs = Inr cs' \<Longrightarrow> distinct (map co_channel hs) \<Longrightarrow>
   (\<forall>h \<in> set hs. \<exists>c \<in> set cs'. channel_has h c) \<and>
   (\<forall>h c. co_channel h \<notin> co_channel ` set hs \<longrightarrow> c \<in> set cs \<longrightarrow> channel_has h c \<longrightarrow> c \<in> set cs')"
proof (induction hs arbitrary: cs)
  case (Cons h hs)
  then obtain mid where m: "apply_config_hash cs h = Inr mid" "rfold apply_config_hash mid hs = Inr cs'"
    by (auto simp: result_simps)
  from Cons.IH [OF m(2)] Cons.prems(2) have ih: "\<forall>h \<in> set hs. \<exists>c \<in> set cs'. channel_has h c"
    "\<And>h c. co_channel h \<notin> co_channel ` set hs \<Longrightarrow> c \<in> set mid \<Longrightarrow> channel_has h c \<Longrightarrow> c \<in> set cs'" by auto
  from apply_config_hash_has(1) [OF m(1)] obtain c where "c \<in> set mid" "channel_has h c" by blast
  with ih(2) Cons.prems(2) have "\<exists>c \<in> set cs'. channel_has h c" by auto
  moreover have "c \<in> set cs'" if "co_channel h' \<notin> co_channel ` set (h # hs)" "c \<in> set cs" "channel_has h' c" for h' c
    using that apply_config_hash_has(2) [OF m(1), of h' c] ih(2) by auto
  ultimately show ?case using ih(1) by auto
qed auto

lemma rendered_target_aux:
  assumes r: "render_target s target = Inr t" and d: "distinct (map co_channel (su_desired_hashes s))"
  shows "\<exists>kvs p. t = JDict kvs \<and> map_of kvs ''ref'' = Some (JStr (su_desired_ref s)) \<and>
    map_of kvs ''promotion'' = Some (JDict p) \<and>
    (\<forall>h \<in> set (su_desired_hashes s). \<exists>cs. map_of p ''promotion_data'' = Some (JList cs) \<and> (\<exists>c \<in> set cs. channel_has h c))"
proof -
  from r obtain kvs p new where t: "target = JDict kvs"
    "map_of (dict_set kvs ''ref'' (JStr (su_desired_ref s))) ''promotion'' = Some (JDict p)"
    and new: "(if su_desired_hashes s = [] then Inr (get_or p ''promotion_data'' (JList []))
            else rbind (jlist (get_or p ''promotion_data'' (JList []))) (\<lambda>xs. rbind (rfold apply_config_hash xs (su_desired_hashes s)) (\<lambda>ys. Inr (JList ys)))) = Inr new"
    and out: "(if truthy new then rbind (jset ''promotion_data'' new (JDict p)) (\<lambda>p'. jset ''promotion'' p' (JDict (dict_set kvs ''ref'' (JStr (su_desired_ref s)))))
       else Inr (JDict (dict_set kvs ''ref'' (JStr (su_desired_ref s))))) = Inr t"
    by (auto simp: render_target_def result_simps json_iffs)
  show ?thesis
  proof (cases "su_desired_hashes s = []")
    case True
    with t out show ?thesis
      by (cases "truthy new") (auto simp: json_iffs result_simps dict_simps)
  next
    case False
    with new obtain xs ys where y: "new = JList ys" "rfold apply_config_hash xs (su_desired_hashes s) = Inr ys"
      by (auto simp: result_simps)
    from apply_config_hashes_has [OF y(2) d] have has: "\<forall>h \<in> set (su_desired_hashes s). \<exists>c \<in> set ys. channel_has h c" by blast
    with False have "ys \<noteq> []" by (cases "su_desired_hashes s") auto
    with t out y(1) has show ?thesis by (auto simp: json_iffs result_simps dict_simps)
  qed
qed

end
