(* ===== verification/Sapm_Batcher_Laws.thy ===== *)
theory Sapm_Batcher_Laws
  imports Sapm_Batcher
begin

text \<open>
  What the batcher guarantees: closed forms of its three passes, what is closed, what is opened, that the desired
  content is covered, how large a batch gets, and that a second run on the result changes nothing.
\<close>

named_theorems batch_simps \<open>closed forms of the loops of the batcher\<close>

section \<open>Closed forms of the loops\<close>

definition failed_batch :: "'raw open_batcher_mr \<Rightarrow> bool" where
  "failed_batch mr \<longleftrightarrow> om_is_batchable mr \<and> om_failed_mr_check mr"

definition hashes_of :: "('a \<Rightarrow> string list) \<Rightarrow> 'a list \<Rightarrow> string set" where
  "hashes_of f xs = (\<Union>x \<in> set xs. set (f x))"

lemma hashes_of_simps [simp]:
  "hashes_of f [] = {}" "hashes_of f (x # xs) = set (f x) \<union> hashes_of f xs"
  "hashes_of f (xs @ ys) = hashes_of f xs \<union> hashes_of f ys"
  by (auto simp: hashes_of_def)

lemma hashes_of_mono: "set xs \<subseteq> set ys \<Longrightarrow> hashes_of f xs \<subseteq> hashes_of f ys"
  by (auto simp: hashes_of_def)

lemma issubset_iff [batch_simps]: "issubset xs ys \<longleftrightarrow> set xs \<subseteq> set ys"
  by (auto simp: issubset_def)

lemma set_update_all [batch_simps]: "set (update_all f xs) = hashes_of f xs"
proof -
  have "set (foldl (\<lambda>acc x. add_all acc (f x)) ys xs) = set ys \<union> hashes_of f xs" for ys
    by (induction xs arbitrary: ys) auto
  then show ?thesis by (simp add: update_all_def)
qed

lemma delete_mr_sel [simp]:
  "df_deletions (delete_mr mr r d) = df_deletions d @ [\<lparr>dl_mr = mr, dl_reason = r\<rparr>]"
  "df_additions (delete_mr mr r d) = df_additions d"
  by (simp_all add: delete_mr_def)

lemma add_mr_sel [simp]:
  "df_deletions (add_mr a d) = df_deletions d" "df_additions (add_mr a d) = df_additions d @ [a]"
  by (simp_all add: add_mr_def)

definition deletions_for :: "close_reason \<Rightarrow> 'raw open_batcher_mr list \<Rightarrow> 'raw mr_deletion list" where
  "deletions_for r mrs = map (\<lambda>mr. \<lparr>dl_mr = mr, dl_reason = r\<rparr>) mrs"

lemma deletions_for_simps [simp]:
  "deletions_for r [] = []" "deletions_for r (x # xs) = \<lparr>dl_mr = x, dl_reason = r\<rparr> # deletions_for r xs"
  "map dl_mr (deletions_for r xs) = xs" "dl_mr ` set (deletions_for r xs) = set xs"
  by (auto simp: deletions_for_def o_def image_image)

lemma unbatch_mrs_closed:
  assumes "unbatch_mrs mrs (stay, ub, fb, d) = (stay', ub', fb', d')"
  shows "stay' = stay @ filter (\<lambda>mr. \<not> failed_batch mr) mrs \<and>
    set ub' = set ub \<union> hashes_of om_content_hashes (filter (\<lambda>mr. \<not> om_is_batchable mr) mrs) \<and>
    set fb' = set fb \<union> hashes_of om_content_hashes (filter failed_batch mrs) \<and>
    df_deletions d' = df_deletions d @ deletions_for MissingUnbatching (filter failed_batch mrs) \<and>
    df_additions d' = df_additions d"
  using assms
proof (induction mrs arbitrary: stay ub fb d)
  case (Cons mr mrs)
  show ?case
  proof (cases "om_is_batchable mr")
    case False
    with Cons.prems Cons.IH [of "stay @ [mr]" "add_all ub (om_content_hashes mr)" fb d] show ?thesis
      by (simp add: failed_batch_def Un_assoc)
  next
    case batchable: True
    show ?thesis
    proof (cases "om_failed_mr_check mr")
      case True
      with batchable Cons.prems Cons.IH [of stay ub "add_all fb (om_content_hashes mr)" "delete_mr mr MissingUnbatching d"]
      show ?thesis by (simp add: failed_batch_def Un_assoc)
    next
      case False
      with batchable Cons.prems Cons.IH [of "stay @ [mr]" ub fb d] show ?thesis
        by (simp add: failed_batch_def)
    qed
  qed
qed auto

definition unbatched :: "string set \<Rightarrow> string set \<Rightarrow> promotion \<Rightarrow> bool" where
  \<comment> \<open>the promotion gets a merge request of its own\<close>
  "unbatched ub fb p \<longleftrightarrow> \<not> set (pr_content_hashes p) \<subseteq> ub \<and> set (pr_content_hashes p) \<subseteq> fb"

definition single_mr :: "promotion \<Rightarrow> mr_addition" where
  "single_mr p = \<lparr>ad_content_hashes = pr_content_hashes p, ad_channels = pr_channels p, ad_batchable = False\<rparr>"

lemma single_mr_sel [simp]:
  "ad_content_hashes (single_mr p) = pr_content_hashes p" "ad_batchable (single_mr p) = False"
  by (simp_all add: single_mr_def)

lemma unbatch_promotions_closed:
  assumes "unbatch_promotions ub fb ps (keep, d) = (keep', d')"
  shows "keep' = keep @ filter (\<lambda>p. \<not> unbatched (set ub) (set fb) p) ps \<and>
    df_deletions d' = df_deletions d \<and>
    df_additions d' = df_additions d @ map single_mr (filter (unbatched (set ub) (set fb)) ps)"
  using assms
proof (induction ps arbitrary: keep d)
  case (Cons p ps)
  then show ?case
    by (auto simp: unbatched_def batch_simps single_mr_def dest!: Cons.IH split: if_splits)
qed auto

lemma outdated_loop_closed:
  assumes "outdated_loop desired mrs (stay, d) = (stay', d')"
  shows "stay' = stay @ filter (\<lambda>mr. set (om_content_hashes mr) \<subseteq> set desired) mrs \<and>
    df_deletions d' = df_deletions d @
      deletions_for OutdatedContent (filter (\<lambda>mr. \<not> set (om_content_hashes mr) \<subseteq> set desired) mrs) \<and>
    df_additions d' = df_additions d"
  using assms
proof (induction mrs arbitrary: stay d)
  case (Cons mr mrs)
  then show ?case
    by (auto simp: batch_simps dest!: Cons.IH split: if_splits)
qed auto

section \<open>What a reconciliation closes and opens\<close>

abbreviation unbatchable_hashes :: "'raw open_batcher_mr list \<Rightarrow> string set" where
  "unbatchable_hashes mrs \<equiv> hashes_of om_content_hashes (filter (\<lambda>mr. \<not> om_is_batchable mr) mrs)"

abbreviation failed_hashes :: "'raw open_batcher_mr list \<Rightarrow> string set" where
  "failed_hashes mrs \<equiv> hashes_of om_content_hashes (filter failed_batch mrs)"

definition kept_promotions :: "promotion list \<Rightarrow> 'raw open_batcher_mr list \<Rightarrow> promotion list" where
  "kept_promotions desired mrs = filter (\<lambda>p. \<not> unbatched (unbatchable_hashes mrs) (failed_hashes mrs) p) desired"

definition valid_mr :: "promotion list \<Rightarrow> 'raw open_batcher_mr list \<Rightarrow> 'raw open_batcher_mr \<Rightarrow> bool" where
  \<comment> \<open>survives the first two passes\<close>
  "valid_mr desired mrs mr \<longleftrightarrow> \<not> failed_batch mr \<and>
     set (om_content_hashes mr) \<subseteq> hashes_of pr_content_hashes (kept_promotions desired mrs)"

definition missing_promotions :: "promotion list \<Rightarrow> 'raw open_batcher_mr list \<Rightarrow> promotion list" where
  "missing_promotions desired mrs =
     filter (\<lambda>p. \<not> set (pr_content_hashes p) \<subseteq> hashes_of om_content_hashes (filter (valid_mr desired mrs) mrs))
       (kept_promotions desired mrs)"

definition reopened_batch :: "promotion list \<Rightarrow> 'raw open_batcher_mr list \<Rightarrow> nat \<Rightarrow> 'raw open_batcher_mr option" where
  "reopened_batch desired mrs limit =
     (if missing_promotions desired mrs = [] then None
      else List.find (has_capacity limit) (filter (valid_mr desired mrs) mrs))"

definition promotion_of :: "'raw open_batcher_mr \<Rightarrow> promotion" where
  "promotion_of mr = \<lparr>pr_content_hashes = om_content_hashes mr, pr_channels = om_channels mr\<rparr>"

definition to_batch :: "promotion list \<Rightarrow> 'raw open_batcher_mr list \<Rightarrow> nat \<Rightarrow> promotion list" where
  "to_batch desired mrs limit = missing_promotions desired mrs @
     (case reopened_batch desired mrs limit of None \<Rightarrow> [] | Some mr \<Rightarrow> [promotion_of mr])"

fun batches :: "nat \<Rightarrow> mr_addition \<Rightarrow> promotion list \<Rightarrow> mr_addition list" where
  \<comment> \<open>the merge requests the batching loop opens\<close>
  "batches limit b [] = (if ad_content_hashes b \<noteq> [] then [b] else [])"
| "batches limit b (p # ps) =
     (let b' = b\<lparr>ad_content_hashes := add_all (ad_content_hashes b) (pr_content_hashes p),
                 ad_channels := add_all (ad_channels b) (pr_channels p)\<rparr>
      in if limit \<le> List.length (ad_content_hashes b') then b' # batches limit empty_batch ps
         else batches limit b' ps)"

lemma batch_loop_closed:
  "df_deletions (batch_loop limit b ps d) = df_deletions d \<and>
   df_additions (batch_loop limit b ps d) = df_additions d @ batches limit b ps"
  by (induction limit b ps d rule: batch_loop.induct) (auto simp: Let_def)

lemma reconcile_batches_closed:
  "df_deletions (reconcile_batches desired mrs limit) =
     deletions_for MissingUnbatching (filter failed_batch mrs) @
     deletions_for OutdatedContent (filter (\<lambda>mr. \<not> failed_batch mr \<and> \<not> valid_mr desired mrs mr) mrs) @
     (case reopened_batch desired mrs limit of None \<Rightarrow> [] | Some mr \<Rightarrow> deletions_for NewBatch [mr])"
  "df_additions (reconcile_batches desired mrs limit) =
     map single_mr (filter (unbatched (unbatchable_hashes mrs) (failed_hashes mrs)) desired) @
     (if missing_promotions desired mrs = [] then [] else batches limit empty_batch (to_batch desired mrs limit))"
proof -
  obtain stay ub fb d1 where u: "unbatch_mrs mrs ([], [], [], \<lparr>df_deletions = [], df_additions = []\<rparr>) = (stay, ub, fb, d1)"
    by (metis prod_cases4)
  obtain keep d2 where p: "unbatch_promotions ub fb desired ([], d1) = (keep, d2)" by force
  obtain stay' d3 where o: "outdated_loop (update_all pr_content_hashes keep) stay ([], d2) = (stay', d3)" by force
  from unbatch_mrs_closed [OF u] unbatch_promotions_closed [OF p] outdated_loop_closed [OF o]
  have k: "keep = kept_promotions desired mrs" and s: "stay' = filter (valid_mr desired mrs) mrs"
    and del: "df_deletions d3 = deletions_for MissingUnbatching (filter failed_batch mrs) @
      deletions_for OutdatedContent (filter (\<lambda>mr. \<not> failed_batch mr \<and> \<not> valid_mr desired mrs mr) mrs)"
    and add: "df_additions d3 = map single_mr (filter (unbatched (unbatchable_hashes mrs) (failed_hashes mrs)) desired)"
    by (auto simp: kept_promotions_def valid_mr_def batch_simps intro!: filter_cong arg_cong [of _ _ "deletions_for _"])
  let ?b = "\<lparr>bt_desired_promotions = keep, bt_open_mrs = filter (valid_mr desired mrs) mrs\<rparr>"
  have m: "unsubmitted ?b = missing_promotions desired mrs"
    by (simp add: unsubmitted_def missing_promotions_def k batch_simps)
  have r: "reconcile_batches desired mrs limit = batch_remaining_mrs limit (?b, d3)"
    by (simp add: reconcile_batches_def unbatch_def remove_outdated_def u p o s)
  show "df_deletions (reconcile_batches desired mrs limit) =
     deletions_for MissingUnbatching (filter failed_batch mrs) @
     deletions_for OutdatedContent (filter (\<lambda>mr. \<not> failed_batch mr \<and> \<not> valid_mr desired mrs mr) mrs) @
     (case reopened_batch desired mrs limit of None \<Rightarrow> [] | Some mr \<Rightarrow> deletions_for NewBatch [mr])"
    by (simp add: r batch_remaining_mrs_def m reopened_batch_def batch_loop_closed del split: option.split)
  show "df_additions (reconcile_batches desired mrs limit) =
     map single_mr (filter (unbatched (unbatchable_hashes mrs) (failed_hashes mrs)) desired) @
     (if missing_promotions desired mrs = [] then [] else batches limit empty_batch (to_batch desired mrs limit))"
    by (simp add: r batch_remaining_mrs_def m reopened_batch_def to_batch_def promotion_of_def batch_loop_closed add
        split: option.split)
qed

section \<open>The batching loop\<close>

lemma empty_batch_sel [simp]: "ad_content_hashes empty_batch = []" "ad_batchable empty_batch"
  by (simp_all add: empty_batch_def)

lemma batches_hashes:
  "hashes_of ad_content_hashes (batches limit b ps) = set (ad_content_hashes b) \<union> hashes_of pr_content_hashes ps"
  by (induction limit b ps rule: batches.induct) (auto simp: Let_def)

lemma batches_batchable: "ad_batchable b \<Longrightarrow> a \<in> set (batches limit b ps) \<Longrightarrow> ad_batchable a"
  by (induction limit b ps rule: batches.induct) (auto simp: Let_def split: if_splits)

lemma batches_not_empty:
  "\<forall>p \<in> set ps. pr_content_hashes p \<noteq> [] \<Longrightarrow> a \<in> set (batches limit b ps) \<Longrightarrow> ad_content_hashes a \<noteq> []"
proof (induction limit b ps rule: batches.induct)
  case (2 limit b p ps)
  have "add_all (ad_content_hashes b) (pr_content_hashes p) \<noteq> []"
    using 2(3) by (metis list.set_intros(1) set_add_all set_empty sup_eq_bot_iff)
  with 2 show ?case by (auto simp: Let_def split: if_splits)
qed (auto split: if_splits)

lemma length_add_all: "List.length (add_all xs ys) \<le> List.length xs + List.length ys"
proof (induction ys arbitrary: xs)
  case (Cons y ys)
  from Cons.IH [of "add_if_absent xs y"] show ?case
    by (auto simp: add_all_def add_if_absent_def split: if_splits)
qed (simp add: add_all_def)

lemma batches_bounded:
  assumes "0 < limit" "\<forall>p \<in> set ps. List.length (pr_content_hashes p) \<le> m" "List.length (ad_content_hashes b) < limit"
    "a \<in> set (batches limit b ps)"
  shows "List.length (ad_content_hashes a) \<le> limit - 1 + m"
  using assms
proof (induction limit b ps rule: batches.induct)
  case (2 limit b p ps)
  have "List.length (add_all (ad_content_hashes b) (pr_content_hashes p)) \<le> limit - 1 + m"
    using length_add_all [of "ad_content_hashes b" "pr_content_hashes p"] 2(3-6) by fastforce
  with 2 show ?case by (auto simp: Let_def split: if_splits)
qed (auto split: if_splits)

lemma batches_one_open:
  "List.length (filter (\<lambda>a. List.length (ad_content_hashes a) < limit) (batches limit b ps)) \<le> 1"
  by (induction limit b ps rule: batches.induct) (auto simp: Let_def)

lemma add_all_disjoint: "distinct (xs @ ys) \<Longrightarrow> add_all xs ys = xs @ ys"
proof (induction ys arbitrary: xs)
  case (Cons y ys)
  then have "add_all (xs @ [y]) ys = (xs @ [y]) @ ys" by (intro Cons.IH) auto
  with Cons.prems show ?case by (simp add: add_all_def add_if_absent_def)
qed (simp add: add_all_def)

lemma batches_concat:
  "distinct (ad_content_hashes b @ concat (map pr_content_hashes ps)) \<Longrightarrow>
   concat (map ad_content_hashes (batches limit b ps)) = ad_content_hashes b @ concat (map pr_content_hashes ps)"
proof (induction limit b ps rule: batches.induct)
  case (2 limit b p ps)
  then have "add_all (ad_content_hashes b) (pr_content_hashes p) = ad_content_hashes b @ pr_content_hashes p"
    by (intro add_all_disjoint) auto
  with 2 show ?case by (auto simp: Let_def)
qed auto

section \<open>The merge requests after a reconciliation\<close>

definition survivors :: "promotion list \<Rightarrow> 'raw open_batcher_mr list \<Rightarrow> nat \<Rightarrow> 'raw open_batcher_mr list" where
  "survivors desired mrs limit =
     filter (\<lambda>mr. mr \<notin> dl_mr ` set (df_deletions (reconcile_batches desired mrs limit))) mrs"

definition opened :: "(mr_addition \<Rightarrow> 'raw) \<Rightarrow> mr_addition \<Rightarrow> 'raw open_batcher_mr" where
  \<comment> \<open>the merge request made from an addition, before its first check\<close>
  "opened mk a = \<lparr>om_raw = mk a, om_content_hashes = ad_content_hashes a, om_channels = ad_channels a,
     om_failed_mr_check = False, om_is_batchable = ad_batchable a\<rparr>"

definition open_after ::
  "(mr_addition \<Rightarrow> 'raw) \<Rightarrow> promotion list \<Rightarrow> 'raw open_batcher_mr list \<Rightarrow> nat \<Rightarrow> 'raw open_batcher_mr list" where
  "open_after mk desired mrs limit = survivors desired mrs limit @
     map (opened mk) (df_additions (reconcile_batches desired mrs limit))"

lemma opened_sel [simp]:
  "om_content_hashes (opened mk a) = ad_content_hashes a" "om_is_batchable (opened mk a) = ad_batchable a"
  "om_failed_mr_check (opened mk a) = False"
  by (simp_all add: opened_def)

lemma hashes_of_opened [simp]: "hashes_of om_content_hashes (map (opened mk) as) = hashes_of ad_content_hashes as"
  by (simp add: hashes_of_def)

lemma closed_mrs:
  "dl_mr ` set (df_deletions (reconcile_batches desired mrs limit)) =
     {mr \<in> set mrs. \<not> valid_mr desired mrs mr} \<union> set_option (reopened_batch desired mrs limit)"
  by (auto simp: reconcile_batches_closed image_Un valid_mr_def split: option.split)

lemma survivors_filter:
  "survivors desired mrs limit =
     filter (\<lambda>mr. valid_mr desired mrs mr \<and> reopened_batch desired mrs limit \<noteq> Some mr) mrs"
  by (auto simp: survivors_def closed_mrs intro!: filter_cong)

lemma find_Some: "List.find P xs = Some x \<Longrightarrow> x \<in> set xs \<and> P x"
  by (induction xs) (auto split: if_splits)

lemma reopened_batch_valid:
  assumes "reopened_batch desired mrs limit = Some mr"
  shows "mr \<in> set mrs" "valid_mr desired mrs mr" "has_capacity limit mr" "missing_promotions desired mrs \<noteq> []"
  using assms by (auto simp: reopened_batch_def split: if_splits dest!: find_Some)

lemma survivors_desired:
  "hashes_of om_content_hashes (survivors desired mrs limit) \<subseteq> hashes_of pr_content_hashes (kept_promotions desired mrs)"
  by (auto simp: survivors_filter hashes_of_def valid_mr_def)

lemma to_batch_hashes:
  "hashes_of pr_content_hashes (to_batch desired mrs limit) \<subseteq> hashes_of pr_content_hashes (kept_promotions desired mrs)"
proof (cases "reopened_batch desired mrs limit")
  case None
  then show ?thesis by (auto simp: to_batch_def missing_promotions_def hashes_of_def)
next
  case (Some mr)
  from reopened_batch_valid(2) [OF Some] Some show ?thesis
    by (auto simp: to_batch_def promotion_of_def valid_mr_def missing_promotions_def) (auto simp: hashes_of_def)
qed

lemma kept_desired: "hashes_of pr_content_hashes (kept_promotions desired mrs) \<subseteq> hashes_of pr_content_hashes desired"
  by (auto simp: kept_promotions_def hashes_of_def)

lemma additions_desired:
  "hashes_of ad_content_hashes (df_additions (reconcile_batches desired mrs limit)) \<subseteq> hashes_of pr_content_hashes desired"
proof -
  have "hashes_of ad_content_hashes (map single_mr (filter P desired)) \<subseteq> hashes_of pr_content_hashes desired" for P
    by (auto simp: hashes_of_def)
  moreover have "hashes_of ad_content_hashes (batches limit empty_batch (to_batch desired mrs limit)) \<subseteq>
      hashes_of pr_content_hashes desired"
    using to_batch_hashes kept_desired by (fastforce simp: batches_hashes)
  ultimately show ?thesis by (auto simp: reconcile_batches_closed)
qed

lemma open_after_desired:
  "hashes_of om_content_hashes (open_after mk desired mrs limit) \<subseteq> hashes_of pr_content_hashes desired"
  using survivors_desired [of desired mrs limit] kept_desired [of desired mrs] additions_desired [of desired mrs limit]
  by (auto simp: open_after_def)

lemma valid_covered:
  assumes mr: "mr \<in> set mrs" "valid_mr desired mrs mr"
  shows "set (om_content_hashes mr) \<subseteq> hashes_of om_content_hashes (open_after mk desired mrs limit)"
proof (cases "reopened_batch desired mrs limit = Some mr")
  case True
  from reopened_batch_valid(4) [OF True] True show ?thesis
    by (auto simp: open_after_def reconcile_batches_closed batches_hashes to_batch_def promotion_of_def)
next
  case False
  with mr show ?thesis by (auto simp: open_after_def survivors_filter hashes_of_def)
qed

lemma open_after_covers:
  assumes p: "p \<in> set desired"
  shows "set (pr_content_hashes p) \<subseteq> hashes_of om_content_hashes (open_after mk desired mrs limit)"
proof -
  consider (single) "unbatched (unbatchable_hashes mrs) (failed_hashes mrs) p"
    | (missing) "p \<in> set (missing_promotions desired mrs)"
    | (there) "set (pr_content_hashes p) \<subseteq> hashes_of om_content_hashes (filter (valid_mr desired mrs) mrs)"
    using p by (auto simp: missing_promotions_def kept_promotions_def)
  then show ?thesis
  proof cases
    case single
    with p have "single_mr p \<in> set (df_additions (reconcile_batches desired mrs limit))"
      by (auto simp: reconcile_batches_closed)
    then show ?thesis by (auto simp: open_after_def) (force simp: hashes_of_def)
  next
    case missing
    then have "set (pr_content_hashes p) \<subseteq> hashes_of pr_content_hashes (to_batch desired mrs limit)"
      by (auto simp: to_batch_def hashes_of_def)
    with missing show ?thesis by (auto simp: open_after_def reconcile_batches_closed batches_hashes)
  next
    case there
    with valid_covered [of _ mrs desired mk limit] show ?thesis
      by (fastforce simp: hashes_of_def)
  qed
qed

lemma open_after_not_failed: "mr \<in> set (open_after mk desired mrs limit) \<Longrightarrow> \<not> failed_batch mr"
  by (auto simp: open_after_def survivors_filter valid_mr_def failed_batch_def)

lemma nothing_to_do:
  assumes nf: "\<forall>mr \<in> set mrs. \<not> failed_batch mr"
    and old: "hashes_of om_content_hashes mrs \<subseteq> hashes_of pr_content_hashes desired"
    and cov: "hashes_of pr_content_hashes desired \<subseteq> hashes_of om_content_hashes mrs"
  shows "reconcile_batches desired mrs limit = \<lparr>df_deletions = [], df_additions = []\<rparr>"
proof -
  have f: "filter failed_batch mrs = []" using nf by (simp add: filter_empty_conv)
  have u: "\<not> unbatched (unbatchable_hashes mrs) {} p" for p by (auto simp: unbatched_def)
  have k: "kept_promotions desired mrs = desired" by (simp add: kept_promotions_def f u)
  have v: "valid_mr desired mrs mr" if "mr \<in> set mrs" for mr
    using that nf old by (fastforce simp: valid_mr_def k hashes_of_def)
  then have fv: "filter (valid_mr desired mrs) mrs = mrs" by simp
  have m: "missing_promotions desired mrs = []"
    using cov by (fastforce simp: missing_promotions_def k fv filter_empty_conv hashes_of_def)
  have "df_deletions (reconcile_batches desired mrs limit) = []"
    using v by (simp add: reconcile_batches_closed f m reopened_batch_def filter_empty_conv)
  moreover have "df_additions (reconcile_batches desired mrs limit) = []"
    by (simp add: reconcile_batches_closed f m u)
  ultimately show ?thesis by simp
qed

lemma reconcile_settles:
  "reconcile_batches desired (open_after mk desired mrs limit) limit' = \<lparr>df_deletions = [], df_additions = []\<rparr>"
proof (rule nothing_to_do)
  show "hashes_of pr_content_hashes desired \<subseteq> hashes_of om_content_hashes (open_after mk desired mrs limit)"
    using open_after_covers [of _ desired mk mrs limit] by (fastforce simp: hashes_of_def)
qed (use open_after_not_failed open_after_desired in blast)+

section \<open>The invariant of the open merge requests\<close>

definition batch_bound :: "nat \<Rightarrow> nat" where
  "batch_bound limit = max limit (2 * limit - 2)"

definition mrs_ok :: "nat \<Rightarrow> 'raw open_batcher_mr list \<Rightarrow> bool" where
  \<comment> \<open>no content twice, no empty merge request, bounded batches, at most one that can grow\<close>
  "mrs_ok limit mrs \<longleftrightarrow> distinct (concat (map om_content_hashes mrs)) \<and>
     (\<forall>mr \<in> set mrs. om_content_hashes mr \<noteq> [] \<and> List.length (om_content_hashes mr) \<le> batch_bound limit) \<and>
     List.length (filter (has_capacity limit) mrs) \<le> 1"

definition single_hashes :: "promotion list \<Rightarrow> bool" where
  \<comment> \<open>what \<open>DesiredState\<close> builds: each promotion has one content hash, all of them different\<close>
  "single_hashes desired \<longleftrightarrow> (\<forall>p \<in> set desired. List.length (pr_content_hashes p) = 1) \<and>
     distinct (concat (map pr_content_hashes desired))"

lemma distinct_concat_filter: "distinct (concat (map f xs)) \<Longrightarrow> distinct (concat (map f (filter P xs)))"
  by (induction xs) auto

lemma distinct_concat_map_elem: "distinct (concat (map f xs)) \<Longrightarrow> x \<in> set xs \<Longrightarrow> distinct (f x)"
  by (induction xs) auto

lemma distinct_concat_mrs:
  "distinct (concat (map f xs)) \<Longrightarrow> \<forall>x \<in> set xs. f x \<noteq> [] \<Longrightarrow> distinct xs"
  by (induction xs) (auto simp: disjoint_iff, metis list.set_intros(1) list.exhaust)

lemma concat_hashes: "set (concat (map f xs)) = hashes_of f xs"
  by (simp add: hashes_of_def)

lemma single_hash_disjoint:
  assumes "single_hashes desired" "p \<in> set (missing_promotions desired mrs)"
  shows "set (pr_content_hashes p) \<inter> hashes_of om_content_hashes (filter (valid_mr desired mrs) mrs) = {}"
proof -
  from assms obtain h where "pr_content_hashes p = [h]"
    by (auto simp: single_hashes_def missing_promotions_def kept_promotions_def length_Suc_conv)
  with assms show ?thesis by (auto simp: missing_promotions_def)
qed

lemma distinct_concat_disjoint:
  "distinct (concat (map f xs)) \<Longrightarrow> x \<in> set xs \<Longrightarrow> y \<in> set xs \<Longrightarrow> x \<noteq> y \<Longrightarrow> set (f x) \<inter> set (f y) = {}"
  by (induction xs) auto

lemma singles_not_kept:
  assumes "single_hashes desired" "p \<in> set desired" "unbatched ub fb p" "q \<in> set desired" "\<not> unbatched ub fb q"
  shows "set (pr_content_hashes p) \<inter> set (pr_content_hashes q) = {}"
  using assms by (intro distinct_concat_disjoint [of pr_content_hashes desired]) (auto simp: single_hashes_def)

lemma to_batch_distinct:
  assumes d: "single_hashes desired" and ok: "distinct (concat (map om_content_hashes mrs))"
  shows "distinct (concat (map pr_content_hashes (to_batch desired mrs limit)))"
proof -
  have m: "distinct (concat (map pr_content_hashes (missing_promotions desired mrs)))"
    using d by (auto simp: missing_promotions_def kept_promotions_def single_hashes_def intro: distinct_concat_filter)
  show ?thesis
  proof (cases "reopened_batch desired mrs limit")
    case None
    with m show ?thesis by (simp add: to_batch_def)
  next
    case (Some mr)
    from reopened_batch_valid(1,2) [OF Some] have mr: "mr \<in> set (filter (valid_mr desired mrs) mrs)" by simp
    have "distinct (om_content_hashes mr)" using distinct_concat_map_elem [OF ok] mr by simp
    moreover have "set (pr_content_hashes p) \<inter> set (om_content_hashes mr) = {}"
      if "p \<in> set (missing_promotions desired mrs)" for p
      using single_hash_disjoint [OF d that] mr by (auto simp: hashes_of_def)
    ultimately show ?thesis using m Some by (auto simp: to_batch_def promotion_of_def)
  qed
qed

end
