(* ===== verification/Sapm_Batcher_System.thy ===== *)
theory Sapm_Batcher_System
  imports Sapm_Batcher_Laws "HOL-Library.Multiset"
begin

text \<open>
  The open merge requests as a system: the batcher closes and opens, everybody else merges or closes merge requests
  and the checks give their results. The invariant \<open>mrs_ok\<close> holds in every state the system reaches.
\<close>

section \<open>The invariant is kept by a reconciliation\<close>

lemma survivors_valid: "set (survivors desired mrs limit) \<subseteq> set (filter (valid_mr desired mrs) mrs)"
  by (auto simp: survivors_filter)

lemma batched_disjoint_survivors:
  assumes d: "single_hashes desired" and ok: "distinct (concat (map om_content_hashes mrs))"
  shows "hashes_of pr_content_hashes (to_batch desired mrs limit) \<inter>
    hashes_of om_content_hashes (survivors desired mrs limit) = {}"
proof -
  have "set (pr_content_hashes p) \<inter> hashes_of om_content_hashes (survivors desired mrs limit) = {}"
    if "p \<in> set (missing_promotions desired mrs)" for p
    using single_hash_disjoint [OF d that] hashes_of_mono [OF survivors_valid, of om_content_hashes desired mrs limit] by blast
  moreover have "set (om_content_hashes mr) \<inter> hashes_of om_content_hashes (survivors desired mrs limit) = {}"
    if "reopened_batch desired mrs limit = Some mr" for mr
  proof -
    have "set (om_content_hashes mr) \<inter> set (om_content_hashes x) = {}" if x: "x \<in> set (survivors desired mrs limit)" for x
      by (rule distinct_concat_disjoint [OF ok])
        (use x \<open>reopened_batch desired mrs limit = Some mr\<close> reopened_batch_valid(1) in \<open>auto simp: survivors_filter\<close>)
    then show ?thesis by (auto simp: hashes_of_def)
  qed
  ultimately show ?thesis
    by (cases "reopened_batch desired mrs limit") (fastforce simp: to_batch_def promotion_of_def hashes_of_def)+
qed

lemma singles_disjoint_kept:
  assumes d: "single_hashes desired"
  shows "hashes_of pr_content_hashes (filter (unbatched (unbatchable_hashes mrs) (failed_hashes mrs)) desired) \<inter>
    hashes_of pr_content_hashes (kept_promotions desired mrs) = {}"
  using singles_not_kept [OF d] by (fastforce simp: hashes_of_def kept_promotions_def)

lemma open_after_distinct:
  assumes d: "single_hashes desired" and ok: "distinct (concat (map om_content_hashes mrs))"
  shows "distinct (concat (map om_content_hashes (open_after mk desired mrs limit)))"
proof -
  let ?S = "filter (unbatched (unbatchable_hashes mrs) (failed_hashes mrs)) desired"
  let ?T = "to_batch desired mrs limit"
  have s: "distinct (concat (map pr_content_hashes ?S))"
    using d by (simp add: single_hashes_def distinct_concat_filter)
  have v: "distinct (concat (map om_content_hashes (survivors desired mrs limit)))"
    using ok by (simp add: survivors_filter distinct_concat_filter)
  have 1: "hashes_of om_content_hashes (survivors desired mrs limit) \<inter> hashes_of pr_content_hashes ?S = {}"
    using survivors_desired [of desired mrs limit] singles_disjoint_kept [OF d, of mrs] by blast
  have 2: "hashes_of pr_content_hashes ?S \<inter> hashes_of pr_content_hashes ?T = {}"
    using to_batch_hashes [of desired mrs limit] singles_disjoint_kept [OF d, of mrs] by blast
  have 3: "hashes_of om_content_hashes (survivors desired mrs limit) \<inter> hashes_of pr_content_hashes ?T = {}"
    using batched_disjoint_survivors [OF d ok, of limit] by blast
  have t: "concat (map ad_content_hashes (batches limit empty_batch ?T)) = concat (map pr_content_hashes ?T)"
    using to_batch_distinct [OF d ok, of limit] by (simp add: batches_concat)
  have "concat (map om_content_hashes (open_after mk desired mrs limit)) =
      concat (map om_content_hashes (survivors desired mrs limit)) @ concat (map pr_content_hashes ?S) @
      (if missing_promotions desired mrs = [] then [] else concat (map pr_content_hashes ?T))"
    by (simp add: open_after_def reconcile_batches_closed o_def t)
  moreover have "distinct (concat (map om_content_hashes (survivors desired mrs limit)) @
      concat (map pr_content_hashes ?S) @ concat (map pr_content_hashes ?T))"
    unfolding distinct_append set_append concat_hashes
    using s v to_batch_distinct [OF d ok, of limit] 1 2 3 by blast
  ultimately show ?thesis by auto
qed

lemma to_batch_lengths:
  assumes d: "single_hashes desired" and l: "0 < limit"
  shows "\<forall>p \<in> set (to_batch desired mrs limit). List.length (pr_content_hashes p) \<le> max 1 (limit - 1)"
proof -
  have "List.length (pr_content_hashes p) = 1" if "p \<in> set (missing_promotions desired mrs)" for p
    using d that by (auto simp: single_hashes_def missing_promotions_def kept_promotions_def)
  moreover have "List.length (om_content_hashes mr) \<le> limit - 1" if "reopened_batch desired mrs limit = Some mr" for mr
    using reopened_batch_valid(3) [OF that] by (auto simp: has_capacity_def)
  ultimately show ?thesis
    by (auto simp: to_batch_def promotion_of_def le_max_iff_disj split: option.split)
qed

lemma addition_cases:
  assumes "a \<in> set (df_additions (reconcile_batches desired mrs limit))"
  obtains (single) p where "p \<in> set desired" "a = single_mr p"
    | (batch) "a \<in> set (batches limit empty_batch (to_batch desired mrs limit))"
  using assms by (auto simp: reconcile_batches_closed split: if_splits)

lemma addition_not_empty:
  assumes d: "single_hashes desired" and ne: "\<forall>mr \<in> set mrs. om_content_hashes mr \<noteq> []"
    and a: "a \<in> set (df_additions (reconcile_batches desired mrs limit))"
  shows "ad_content_hashes a \<noteq> []"
  using a
proof (cases rule: addition_cases)
  case single
  with d show ?thesis by (auto simp: single_hashes_def)
next
  case batch
  have "\<forall>p \<in> set (missing_promotions desired mrs). pr_content_hashes p \<noteq> []"
    using d by (auto simp: missing_promotions_def kept_promotions_def single_hashes_def)
  then have "\<forall>p \<in> set (to_batch desired mrs limit). pr_content_hashes p \<noteq> []"
    using ne by (cases "reopened_batch desired mrs limit") (auto simp: to_batch_def promotion_of_def dest: reopened_batch_valid(1))
  with batches_not_empty batch show ?thesis by blast
qed

lemma addition_bounded:
  assumes d: "single_hashes desired" and l: "0 < limit"
    and a: "a \<in> set (df_additions (reconcile_batches desired mrs limit))"
  shows "List.length (ad_content_hashes a) \<le> batch_bound limit"
  using a
proof (cases rule: addition_cases)
  case single
  with d l show ?thesis by (auto simp: single_hashes_def batch_bound_def)
next
  case batch
  with batches_bounded [OF l to_batch_lengths [OF d l], of empty_batch a] l
  have "List.length (ad_content_hashes a) \<le> limit - 1 + max 1 (limit - 1)" by simp
  also have "\<dots> \<le> batch_bound limit" using l by (auto simp: batch_bound_def max_def)
  finally show ?thesis .
qed

lemma capacity_once:
  assumes ok: "List.length (filter (has_capacity limit) mrs) \<le> 1"
  shows "List.length (filter (has_capacity limit) (open_after mk desired mrs limit)) \<le> 1"
proof (cases "missing_promotions desired mrs = []")
  case True
  then have "filter (has_capacity limit) (open_after mk desired mrs limit) =
      filter (\<lambda>mr. valid_mr desired mrs mr) (filter (has_capacity limit) mrs)"
    by (auto simp: open_after_def survivors_filter reopened_batch_def reconcile_batches_closed filter_empty_conv
        has_capacity_def intro!: filter_cong)
  with ok show ?thesis using length_filter_le le_trans by metis
next
  case False
  have none: "filter (has_capacity limit) (survivors desired mrs limit) = []"
  proof (cases "reopened_batch desired mrs limit")
    case None
    with False show ?thesis
      by (auto simp: reopened_batch_def find_None_iff survivors_filter filter_empty_conv)
  next
    case (Some mr)
    from reopened_batch_valid [OF Some] have "mr \<in> set (filter (has_capacity limit) mrs)" by simp
    with ok have "filter (has_capacity limit) mrs = [mr]"
      by (cases "filter (has_capacity limit) mrs") auto
    then have "set (filter (has_capacity limit) mrs) = {mr}" by simp
    then have "x = mr" if "x \<in> set mrs" "has_capacity limit x" for x
      using that by (auto simp: set_eq_iff)
    then show ?thesis using Some by (auto simp: survivors_filter filter_empty_conv)
  qed
  have "filter (has_capacity limit) (map (opened mk) (map single_mr ps)) = []" for ps
    by (auto simp: filter_empty_conv has_capacity_def)
  moreover have "List.length (filter (has_capacity limit) (map (opened mk) as)) \<le>
      List.length (filter (\<lambda>a. List.length (ad_content_hashes a) < limit) as)" for as
    by (induction as) (auto simp: has_capacity_def)
  ultimately show ?thesis
    using none batches_one_open [of limit empty_batch "to_batch desired mrs limit"] False
    by (simp add: open_after_def reconcile_batches_closed) (metis (no_types, lifting) One_nat_def le_trans)
qed

lemma reconcile_keeps_ok:
  assumes ok: "mrs_ok limit mrs" and d: "single_hashes desired" and l: "0 < limit"
  shows "mrs_ok limit (open_after mk desired mrs limit)"
proof -
  have "om_content_hashes mr \<noteq> [] \<and> List.length (om_content_hashes mr) \<le> batch_bound limit"
    if mr: "mr \<in> set (open_after mk desired mrs limit)" for mr
  proof (cases "mr \<in> set mrs")
    case True
    with ok show ?thesis by (simp add: mrs_ok_def)
  next
    case False
    with mr obtain a where a: "a \<in> set (df_additions (reconcile_batches desired mrs limit))" "mr = opened mk a"
      by (auto simp: open_after_def survivors_filter)
    with addition_not_empty [OF d _ a(1)] addition_bounded [OF d l a(1)] ok show ?thesis by (simp add: mrs_ok_def)
  qed
  with ok open_after_distinct [OF d] capacity_once show ?thesis by (auto simp: mrs_ok_def)
qed

section \<open>The system\<close>

inductive mr_step :: "nat \<Rightarrow> 'raw open_batcher_mr list \<Rightarrow> 'raw open_batcher_mr list \<Rightarrow> bool" for limit where
  closed: "mr_step limit (mrs @ mr # mrs') (mrs @ mrs')"
| checked: "mr_step limit (mrs @ mr # mrs') (mrs @ mr\<lparr>om_failed_mr_check := b\<rparr> # mrs')"
| listed: "mset mrs' = mset mrs \<Longrightarrow> mr_step limit mrs mrs'"
| reconciled: "single_hashes desired \<Longrightarrow> mr_step limit mrs (open_after mk desired mrs limit)"

inductive reachable_mrs :: "nat \<Rightarrow> 'raw open_batcher_mr list \<Rightarrow> bool" for limit where
  start: "reachable_mrs limit []"
| step: "reachable_mrs limit mrs \<Longrightarrow> mr_step limit mrs mrs' \<Longrightarrow> reachable_mrs limit mrs'"

lemma mrs_ok_update:
  "om_content_hashes mr' = om_content_hashes mr \<Longrightarrow> om_is_batchable mr' = om_is_batchable mr \<Longrightarrow>
   mrs_ok limit (mrs @ mr # mrs') \<Longrightarrow> mrs_ok limit (mrs @ mr' # mrs')"
  by (auto simp: mrs_ok_def has_capacity_def split: if_splits)

lemma mrs_ok_remove: "mrs_ok limit (mrs @ mr # mrs') \<Longrightarrow> mrs_ok limit (mrs @ mrs')"
  by (auto simp: mrs_ok_def split: if_splits)

lemma mrs_ok_permute:
  assumes eq: "mset mrs' = mset mrs" and ok: "mrs_ok limit mrs"
  shows "mrs_ok limit mrs'"
proof -
  have "mset (concat (map om_content_hashes mrs')) = mset (concat (map om_content_hashes mrs))"
    using eq by (simp add: mset_concat) (metis mset_map sum_mset_sum_list)
  then have "distinct (concat (map om_content_hashes mrs')) = distinct (concat (map om_content_hashes mrs))"
    by (rule mset_eq_imp_distinct_iff)
  moreover have "List.length (filter (has_capacity limit) mrs') = List.length (filter (has_capacity limit) mrs)"
    using eq by (metis mset_filter size_mset)
  moreover have "set mrs' = set mrs" using eq by (rule mset_eq_setD)
  ultimately show ?thesis using ok by (simp add: mrs_ok_def)
qed

lemma mr_step_keeps_ok: "mr_step limit mrs mrs' \<Longrightarrow> 0 < limit \<Longrightarrow> mrs_ok limit mrs \<Longrightarrow> mrs_ok limit mrs'"
proof (induction rule: mr_step.induct)
  case (checked mrs mr mrs' b)
  then show ?case by (intro mrs_ok_update [of "mr\<lparr>om_failed_mr_check := b\<rparr>" mr]) auto
qed (simp_all add: mrs_ok_remove mrs_ok_permute reconcile_keeps_ok)

lemma reachable_mrs_ok_aux: "reachable_mrs limit mrs \<Longrightarrow> 0 < limit \<Longrightarrow> mrs_ok limit mrs"
proof (induction rule: reachable_mrs.induct)
  case start
  then show ?case by (simp add: mrs_ok_def)
qed (simp add: mr_step_keeps_ok)

end
