(* ===== verification/Sapm_Manager_Laws.thy ===== *)
theory Sapm_Manager_Laws
  imports Sapm_Manager Sapm_Text_Laws Sapm_Batcher_System
begin

text \<open>
  What a run of the manager does to the open merge requests: what fetching closes and returns, what closing, rendering
  and opening leave, and that a second run on the result is idle.
\<close>

named_theorems act_simps \<open>results of actions\<close>

section \<open>Actions\<close>

lemma vbind_Inr [act_simps]: "vbind m f w = (Inr y, w'') \<longleftrightarrow> (\<exists>x w'. m w = (Inr x, w') \<and> f x w' = (Inr y, w''))"
  by (auto simp: vbind_def split: prod.splits sum.splits)

lemma vret_iff [act_simps]: "vret x w = (Inr y, w') \<longleftrightarrow> y = x \<and> w' = w"
  by (auto simp: vret_def)

lemma vlift_Inr [act_simps]: "vlift r w = (Inr y, w') \<longleftrightarrow> r = Inr y \<and> w' = w"
  by (auto simp: vlift_def)

lemma vbind_step [simp]: "m w = (Inr x, w') \<Longrightarrow> vbind m f w = f x w'"
  by (simp add: vbind_def)

definition acts :: "vcs_config \<Rightarrow> bool" where
  "acts cfg \<longleftrightarrow> \<not> vc_dry_run cfg \<and> vc_allow_deleting_mrs cfg \<and> vc_allow_opening_mrs cfg"

definition without :: "nat set \<Rightarrow> gl_mr list \<Rightarrow> gl_mr list" where
  "without ids mrs = filter (\<lambda>m. gm_iid m \<notin> ids) mrs"

lemma without_simps [simp]:
  "without {} mrs = mrs" "without A (without B mrs) = without (A \<union> B) mrs"
  by (auto simp: without_def intro: filter_cong)

lemma close_mr_acts:
  assumes "close_app_interface_mr cfg mr c w = (Inr u, w')" "acts cfg"
  shows "gw_open_mrs w' = without {gm_iid mr} (gw_open_mrs w) \<and> gw_next_iid w' = gw_next_iid w \<and> gw_files w' = gw_files w"
  using assms by (auto simp: close_app_interface_mr_def acts_def without_def Let_def split: option.splits)

lemma close_all_acts:
  assumes "vfold (\<lambda>_ d. close_app_interface_mr cfg (f d) (g d)) () ds w = (Inr u, w')" "acts cfg"
  shows "gw_open_mrs w' = without (gm_iid ` f ` set ds) (gw_open_mrs w) \<and> gw_next_iid w' = gw_next_iid w"
  using assms(1)
proof (induction ds arbitrary: w)
  case (Cons d ds)
  then obtain w1 where 1: "close_app_interface_mr cfg (f d) (g d) w = (Inr (), w1)"
    "vfold (\<lambda>_ d. close_app_interface_mr cfg (f d) (g d)) () ds w1 = (Inr u, w')"
    by (auto simp: act_simps)
  from Cons.IH [OF 1(2)] close_mr_acts [OF 1(1) assms(2)] show ?case by simp
qed (simp add: act_simps)

section \<open>Fetching\<close>

abbreviation kind_of :: "gl_mr \<Rightarrow> close_comment + mr_kind" where
  "kind_of mr \<equiv> kind_of_description (mr_description mr)"

definition batcher_mrs :: "gl_mr list \<Rightarrow> gl_mr list" where
  "batcher_mrs mrs = filter (\<lambda>m. kind_of m = Inr Batcher) mrs"

definition unreadable :: "gl_mr \<Rightarrow> bool" where
  "unreadable m \<longleftrightarrow> (\<exists>c. kind_of m = Inl c)"

fun read_all ::
  "(string \<times> string) list \<Rightarrow> gl_mr list \<Rightarrow> gl_mr open_batcher_mr list \<times> gl_mr list" where
  \<comment> \<open>the merge requests read and those closed\<close>
  "read_all seen [] = ([], [])"
| "read_all seen (m # ms) =
     (case read_batcher_mr seen m of
        (seen', Inl c) \<Rightarrow> (fst (read_all seen' ms), m # snd (read_all seen' ms))
      | (seen', Inr r) \<Rightarrow> (r # fst (read_all seen' ms), snd (read_all seen' ms)))"

lemma sort_all_acts:
  assumes "vfold (sort_mr cfg) acc mrs w = (Inr out, w')" "acts cfg"
  shows "out = acc @ batcher_mrs mrs \<and> gw_next_iid w' = gw_next_iid w \<and>
    gw_open_mrs w' = without (gm_iid ` {m \<in> set mrs. unreadable m}) (gw_open_mrs w)"
  using assms(1)
proof (induction mrs arbitrary: acc w)
  case (Cons m mrs)
  show ?case
  proof (cases "kind_of m")
    case (Inl c)
    then have "sort_mr cfg acc m = vbind (close_app_interface_mr cfg m (close_text c)) (\<lambda>_. vret acc)"
      by (simp add: sort_mr_def)
    with Cons.prems obtain w1 where 1: "close_app_interface_mr cfg m (close_text c) w = (Inr (), w1)"
      "vfold (sort_mr cfg) acc mrs w1 = (Inr out, w')"
      by (auto simp: act_simps)
    have "{x \<in> set (m # mrs). unreadable x} = {m} \<union> {x \<in> set mrs. unreadable x}" using Inl by (auto simp: unreadable_def)
    with Cons.IH [OF 1(2)] close_mr_acts [OF 1(1) assms(2)] Inl show ?thesis
      by (simp add: batcher_mrs_def insert_commute)
  next
    case (Inr k)
    then have "{x \<in> set (m # mrs). unreadable x} = {x \<in> set mrs. unreadable x}" by (auto simp: unreadable_def)
    moreover from Inr have "sort_mr cfg acc m = vret (if k = Batcher then acc @ [m] else acc)"
      by (cases k) (simp_all add: sort_mr_def)
    ultimately show ?thesis
      using Inr Cons.prems Cons.IH [of "if k = Batcher then acc @ [m] else acc" w]
      by (cases k) (simp_all add: act_simps batcher_mrs_def)
  qed
qed (simp add: act_simps batcher_mrs_def)

lemma handle_all_acts:
  assumes "vfold (handle_batcher_mr cfg) (seen, out) mrs w = (Inr (seen', out'), w')" "acts cfg"
  shows "out' = out @ fst (read_all seen mrs) \<and> gw_next_iid w' = gw_next_iid w \<and>
    gw_open_mrs w' = without (gm_iid ` set (snd (read_all seen mrs))) (gw_open_mrs w)"
  using assms(1)
proof (induction mrs arbitrary: seen out w)
  case (Cons m mrs)
  obtain seen1 r where r: "read_batcher_mr seen m = (seen1, r)" by force
  show ?case
  proof (cases r)
    case (Inl c)
    then have "handle_batcher_mr cfg (seen, out) m =
        vbind (close_app_interface_mr cfg m (close_text c)) (\<lambda>_. vret (seen1, out))"
      by (simp add: handle_batcher_mr_def r)
    with Cons.prems obtain w1 where 1: "close_app_interface_mr cfg m (close_text c) w = (Inr (), w1)"
      "vfold (handle_batcher_mr cfg) (seen1, out) mrs w1 = (Inr (seen', out'), w')"
      by (auto simp: act_simps)
    from Cons.IH [OF 1(2)] close_mr_acts [OF 1(1) assms(2)] Inl r show ?thesis by (simp add: insert_commute)
  next
    case (Inr o1)
    then have "handle_batcher_mr cfg (seen, out) m = vret (seen1, out @ [o1])"
      by (simp add: handle_batcher_mr_def r)
    with Inr Cons.prems r Cons.IH [of seen1 "out @ [o1]" w] show ?thesis
      by (simp add: act_simps)
  qed
qed (auto simp: act_simps)

definition labelled :: "gl_mr list \<Rightarrow> gl_mr list" where
  "labelled mrs = filter (\<lambda>m. sapm_label \<in> set (gm_labels m)) mrs"

definition closed_unread :: "gl_mr list \<Rightarrow> gl_mr set" where
  \<comment> \<open>the merge requests that fetching closes\<close>
  "closed_unread mrs = {m \<in> set (labelled mrs). unreadable m} \<union> set (snd (read_all [] (batcher_mrs (labelled mrs))))"

definition current_mrs :: "gl_mr list \<Rightarrow> gl_mr open_batcher_mr list" where
  "current_mrs mrs = fst (read_all [] (batcher_mrs (labelled mrs)))"

lemma fetch_acts:
  assumes "fetch_mrs cfg sapm_label w = (Inr out, w')" "acts cfg"
  shows "out = current_mrs (gw_open_mrs w) \<and> gw_next_iid w' = gw_next_iid w \<and>
    gw_open_mrs w' = without (gm_iid ` closed_unread (gw_open_mrs w)) (gw_open_mrs w)"
proof -
  from assms(1) obtain mrs w1 seen where 1: "vfold (sort_mr cfg) [] (labelled (gw_open_mrs w)) w = (Inr mrs, w1)"
    "vfold (handle_batcher_mr cfg) ([], []) mrs w1 = (Inr (seen, out), w')"
    by (auto simp: fetch_mrs_def act_simps labelled_def)
  from sort_all_acts [OF 1(1) assms(2)] handle_all_acts [OF 1(2) assms(2)] show ?thesis
    by (simp add: current_mrs_def closed_unread_def image_Un Un_commute)
qed

lemma fetch_idle:
  assumes "closed_unread (gw_open_mrs w) = {}"
  shows "fetch_mrs cfg sapm_label w = (Inr (current_mrs (gw_open_mrs w)), w)"
proof -
  have "vfold (sort_mr cfg) acc mrs w = (Inr (acc @ batcher_mrs mrs), w)" if "\<forall>m \<in> set mrs. \<not> unreadable m" for acc mrs
    using that
  proof (induction mrs arbitrary: acc)
    case (Cons m mrs)
    then obtain k where k: "kind_of m = Inr k" by (cases "kind_of m") (auto simp: unreadable_def)
    with Cons show ?case
      by (cases k) (auto simp: sort_mr_def batcher_mrs_def vbind_def vret_def)
  qed (simp add: batcher_mrs_def vret_def)
  moreover have "\<exists>s. vfold (handle_batcher_mr cfg) (seen, out) mrs w = (Inr (s, out @ fst (read_all seen mrs)), w)"
    if "snd (read_all seen mrs) = []" for seen out mrs
    using that
  proof (induction mrs arbitrary: seen out)
    case (Cons m mrs)
    obtain seen1 r where r: "read_batcher_mr seen m = (seen1, r)" by force
    with Cons.prems obtain o1 where o1: "r = Inr o1" "snd (read_all seen1 mrs) = []" by (cases r) auto
    from Cons.IH [OF o1(2), of "out @ [o1]"] r o1(1) show ?case
      by (auto simp: handle_batcher_mr_def vbind_def vret_def)
  qed (simp add: vret_def)
  moreover have "\<forall>m \<in> set (labelled (gw_open_mrs w)). \<not> unreadable m"
    "snd (read_all [] (batcher_mrs (labelled (gw_open_mrs w)))) = []"
    using assms by (auto simp: closed_unread_def)
  ultimately have s: "vfold (sort_mr cfg) [] (labelled (gw_open_mrs w)) w = (Inr (batcher_mrs (labelled (gw_open_mrs w))), w)"
    and "\<exists>s. vfold (handle_batcher_mr cfg) ([], []) (batcher_mrs (labelled (gw_open_mrs w))) w = (Inr (s, current_mrs (gw_open_mrs w)), w)"
    unfolding current_mrs_def by (metis append_Nil)+
  then obtain s where h: "vfold (handle_batcher_mr cfg) ([], []) (batcher_mrs (labelled (gw_open_mrs w))) w = (Inr (s, current_mrs (gw_open_mrs w)), w)"
    by blast
  show ?thesis
    unfolding fetch_mrs_def labelled_def [symmetric] by (simp add: vbind_def s h) (simp add: vret_def)
qed

lemma reconcile_idle:
  assumes "closed_unread (gw_open_mrs w) = {}"
    and "reconcile_batches (ds_promotions (desired_promotions (mg_subscriber lib) subs)) (current_mrs (gw_open_mrs w)) batch_size_limit =
      \<lparr>df_deletions = [], df_additions = []\<rparr>"
  shows "reconcile_mrs lib cfg subs w = (Inr (), w)"
  using assms(2) by (simp add: reconcile_mrs_def fetch_idle [OF assms(1)] Let_def vret_def vbind_def)

section \<open>Rendering and opening\<close>

lemma load_contents_world: "load_contents lib cs ss w = (Inr r, w') \<Longrightarrow> w' = w"
proof (induction ss arbitrary: cs w)
  case (Cons s ss)
  from Cons.prems obtain r1 w1 where 1: "load_content lib cs s w = (Inr r1, w1)"
    "(case r1 of None \<Rightarrow> vret None | Some cs' \<Rightarrow> load_contents lib cs' ss) w1 = (Inr r, w')"
    by (auto simp: act_simps)
  have "w1 = w" using 1(1)
    by (auto simp: load_content_def get_file_content_from_app_interface_ref_def Let_def act_simps
        split: option.splits prod.splits sum.splits sapm_error.splits if_splits)
  with 1(2) Cons.IH show ?case by (auto simp: act_simps split: option.splits)
qed (simp add: act_simps)

lemma render_mr_result:
  assumes "render_mr lib ds mrs a w = (Inr mrs', w')"
  shows "w' = w \<and> (mrs' = mrs \<or> (\<exists>contents. mrs' = mrs @ [addition_mr lib contents a]))"
  using assms by (auto simp: render_mr_def act_simps split: option.splits dest: load_contents_world)

lemma render_all:
  assumes "vfold (render_mr lib ds) mrs as w = (Inr mrs', w')"
  shows "w' = w \<and> (\<exists>new. mrs' = mrs @ new \<and> List.length new \<le> List.length as \<and>
    (List.length new = List.length as \<longrightarrow> list_all2 (\<lambda>r a. \<exists>contents. r = addition_mr lib contents a) new as))"
  using assms
proof (induction as arbitrary: mrs w)
  case (Cons a as)
  then obtain mid w1 where 1: "render_mr lib ds mrs a w = (Inr mid, w1)" "vfold (render_mr lib ds) mid as w1 = (Inr mrs', w')"
    by (auto simp: act_simps)
  from Cons.IH [OF 1(2)] obtain new where new: "w' = w1" "mrs' = mid @ new" "List.length new \<le> List.length as"
    "List.length new = List.length as \<longrightarrow> list_all2 (\<lambda>r a. \<exists>contents. r = addition_mr lib contents a) new as" by blast
  from render_mr_result [OF 1(1)] consider "w1 = w" "mid = mrs"
    | contents where "w1 = w" "mid = mrs @ [addition_mr lib contents a]" by blast
  then show ?case
  proof cases
    case 1
    with new show ?thesis by auto
  next
    case 2
    with new show ?thesis by (intro conjI exI [of _ "addition_mr lib contents a # new"]) auto
  qed
qed (simp add: act_simps)

lemma open_one:
  assumes "open_app_interface_merge_request lib cfg mr w = (Inr u, w')"
  shows "w' = w \<or> (gw_open_mrs w' = created_mr lib (gw_next_iid w) mr # gw_open_mrs w \<and> gw_next_iid w' = gw_next_iid w + 1)"
  using assms by (auto simp: open_app_interface_merge_request_def submit_to_gitlab_def act_simps Let_def split: if_splits)

lemma open_all:
  assumes "vfold (\<lambda>_ mr. open_app_interface_merge_request lib cfg mr) () mrs w = (Inr u, w')"
  shows "\<exists>new. gw_open_mrs w' = rev new @ gw_open_mrs w \<and> gw_next_iid w' = gw_next_iid w + List.length new \<and>
    List.length new \<le> List.length mrs \<and> (\<forall>m \<in> set new. gw_next_iid w \<le> gm_iid m) \<and>
    (List.length new = List.length mrs \<longrightarrow> list_all2 (\<lambda>m r. \<exists>iid. m = created_mr lib iid r) new mrs)"
  using assms
proof (induction mrs arbitrary: w)
  case (Cons mr mrs)
  then obtain w1 where 1: "open_app_interface_merge_request lib cfg mr w = (Inr (), w1)"
    "vfold (\<lambda>_ mr. open_app_interface_merge_request lib cfg mr) () mrs w1 = (Inr u, w')"
    by (auto simp: act_simps)
  from Cons.IH [OF 1(2)] obtain new where new: "gw_open_mrs w' = rev new @ gw_open_mrs w1"
    "gw_next_iid w' = gw_next_iid w1 + List.length new" "List.length new \<le> List.length mrs"
    "\<forall>m \<in> set new. gw_next_iid w1 \<le> gm_iid m"
    "List.length new = List.length mrs \<longrightarrow> list_all2 (\<lambda>m r. \<exists>iid. m = created_mr lib iid r) new mrs" by blast
  from open_one [OF 1(1)] show ?case
  proof
    assume "w1 = w"
    with new show ?thesis by (intro exI [of _ new]) auto
  next
    assume "gw_open_mrs w1 = created_mr lib (gw_next_iid w) mr # gw_open_mrs w \<and> gw_next_iid w1 = gw_next_iid w + 1"
    with new show ?thesis
      by (intro exI [of _ "created_mr lib (gw_next_iid w) mr # new"]) (auto simp: created_mr_def)
  qed
qed (simp add: act_simps)

end
