(* ===== verification/Sapm_Settled.thy ===== *)
theory Sapm_Settled
  imports Sapm_Manager_Laws
begin

text \<open>
  A run of the manager settles: when everything it rendered has been opened, a second run with the same subscribers
  reads back its own merge requests, closes nothing and opens nothing.
\<close>

section \<open>Reading merge requests one by one\<close>

definition mr_key :: "gl_mr \<Rightarrow> string \<times> string" where
  "mr_key m = (let data = (case promotion_data_of (mr_description m) of None \<Rightarrow> [] | Some d \<Rightarrow> d)
    in (apply_regex channels_ref data, apply_regex content_hashes_ref data))"

definition read_alone :: "gl_mr \<Rightarrow> close_comment + gl_mr open_batcher_mr" where
  "read_alone m = snd (read_batcher_mr [] m)"

lemma read_batcher_mr_Inr:
  assumes "read_batcher_mr seen m = (seen', Inr r)"
  shows "read_alone m = Inr r" "om_raw r = m" "om_content_hashes r = add_all [] (py_split CHR '','' (snd (mr_key m)))"
  using assms by (auto simp: read_batcher_mr_def read_alone_def mr_key_def Let_def split: if_splits)

lemma read_batcher_mr_fresh:
  assumes "read_alone m = Inr r" "mr_key m \<notin> set seen"
  shows "read_batcher_mr seen m = (seen @ [mr_key m], Inr r)"
  using assms by (auto simp: read_batcher_mr_def read_alone_def mr_key_def Let_def split: if_splits)

lemma read_all_fresh:
  "list_all2 (\<lambda>m r. read_alone m = Inr r) ms rs \<Longrightarrow> distinct (map mr_key ms) \<Longrightarrow> set (map mr_key ms) \<inter> set seen = {} \<Longrightarrow>
   read_all seen ms = (rs, [])"
proof (induction ms rs arbitrary: seen rule: list_all2_induct)
  case (Cons m ms r rs)
  then have "read_all (seen @ [mr_key m]) ms = (rs, [])" by (intro Cons.IH) auto
  with Cons read_batcher_mr_fresh [of m r seen] show ?case by (simp add: read_all.simps)
qed simp

lemma read_all_cons:
  assumes "read_batcher_mr seen m = (seen', x)"
  shows "read_all seen (m # ms) = (case x of
    Inl c \<Rightarrow> (fst (read_all seen' ms), m # snd (read_all seen' ms))
  | Inr r \<Rightarrow> (r # fst (read_all seen' ms), snd (read_all seen' ms)))"
  using assms by (cases x) simp_all

declare read_all.simps(2) [simp del]

lemma read_all_elems: "r \<in> set (fst (read_all seen ms)) \<Longrightarrow> read_alone (om_raw r) = Inr r"
proof (induction ms arbitrary: seen)
  case (Cons m ms)
  obtain seen' x where x: "read_batcher_mr seen m = (seen', x)" by force
  show ?case
  proof (cases x)
    case (Inr r')
    with x read_batcher_mr_Inr [of seen m seen' r'] Cons show ?thesis by (auto simp: read_all_cons)
  qed (use x Cons in \<open>auto simp: read_all_cons\<close>)
qed simp

lemma read_all_parts: "om_raw ` set (fst (read_all seen ms)) \<union> set (snd (read_all seen ms)) = set ms"
proof (induction ms arbitrary: seen)
  case (Cons m ms)
  obtain seen' x where x: "read_batcher_mr seen m = (seen', x)" by force
  show ?case
  proof (cases x)
    case (Inr r')
    with x read_batcher_mr_Inr(2) [of seen m seen' r'] Cons [of seen'] show ?thesis by (auto simp: read_all_cons)
  qed (use x Cons [of seen'] in \<open>auto simp: read_all_cons\<close>)
qed simp

lemma read_all_raws:
  "distinct (map gm_iid ms) \<Longrightarrow> map om_raw (fst (read_all seen ms)) = without (gm_iid ` set (snd (read_all seen ms))) ms"
proof (induction ms arbitrary: seen)
  case (Cons m ms)
  obtain seen' x where x: "read_batcher_mr seen m = (seen', x)" by force
  have sub: "set (snd (read_all seen' ms)) \<subseteq> set ms" using read_all_parts [of seen' ms] by blast
  with Cons.prems have out: "gm_iid m \<notin> gm_iid ` set (snd (read_all seen' ms))" by auto
  have same: "without (insert (gm_iid m) A) ms = without A ms" for A
    using Cons.prems by (auto simp: without_def intro!: filter_cong) (metis imageI)
  have cons: "without A (m # ms) = (if gm_iid m \<in> A then without A ms else m # without A ms)" for A
    by (simp add: without_def)
  show ?case
  proof (cases x)
    case (Inl c)
    with x Cons.IH [of seen'] Cons.prems show ?thesis by (simp add: read_all_cons cons same)
  next
    case (Inr r')
    with x Cons.IH [of seen'] Cons.prems out read_batcher_mr_Inr(2) [of seen m seen' r'] show ?thesis
      by (simp add: read_all_cons cons)
  qed
qed (simp add: without_def)

lemma distinct_hashes_keys:
  assumes "list_all2 (\<lambda>m r. read_alone m = Inr r) ms rs"
    and d: "distinct (concat (map om_content_hashes rs))" and ne: "\<forall>r \<in> set rs. om_content_hashes r \<noteq> []"
  shows "distinct (map mr_key ms)"
proof -
  have "distinct (map om_content_hashes rs)"
    using d ne by (induction rs) (auto simp: disjoint_iff, metis image_eqI list.set_intros(1) neq_Nil_conv)
  moreover have "map om_content_hashes rs = map (\<lambda>k. add_all [] (py_split CHR '','' (snd k))) (map mr_key ms)"
    using assms(1)
  proof (induction ms rs rule: list_all2_induct)
    case (Cons m ms r rs)
    have "read_batcher_mr [] m = (fst (read_batcher_mr [] m), Inr r)"
      using Cons(1) by (metis prod.collapse read_alone_def)
    from read_batcher_mr_Inr(3) [OF this] Cons show ?case by simp
  qed simp
  ultimately show ?thesis by (metis distinct_map)
qed

section \<open>Reading back what was written\<close>

definition plain_hash :: "string \<Rightarrow> bool" where
  "plain_hash h \<longleftrightarrow> plain_text h \<and> CHR '','' \<notin> set h \<and> h \<noteq> []"

definition plain_addition :: "mr_addition \<Rightarrow> bool" where
  "plain_addition a \<longleftrightarrow> (\<forall>h \<in> set (ad_content_hashes a). plain_hash h) \<and> ad_content_hashes a \<noteq> [] \<and>
     distinct (ad_content_hashes a) \<and> (\<forall>c \<in> set (ad_channels a). plain_text c \<and> c \<noteq> []) \<and> ad_channels a \<noteq> []"

lemma set_join: "set (join sep xs) \<subseteq> \<Union> (set ` set xs) \<union> set sep"
  by (induction sep xs rule: join.induct) auto

lemma plain_join: "\<forall>x \<in> set xs. plain_text x \<Longrightarrow> plain_text (join '','' xs)"
  using set_join [of "'',''" xs] by (fastforce simp: plain_text_def)

lemma join_not_empty: "xs \<noteq> [] \<Longrightarrow> \<forall>x \<in> set xs. x \<noteq> [] \<Longrightarrow> join sep xs \<noteq> []"
  by (induction sep xs rule: join.induct) auto

lemma add_all_distinct: "distinct xs \<Longrightarrow> add_all [] xs = xs"
  using add_all_disjoint [of "[]" xs] by simp

lemma mr_desc_ok: "message_ok mr_desc"
  by code_simp

definition addition_read :: "gl_mr \<Rightarrow> mr_addition \<Rightarrow> gl_mr open_batcher_mr" where
  "addition_read m a = \<lparr>om_raw = m, om_content_hashes = ad_content_hashes a,
     om_channels = add_all [] (py_split CHR '','' (join '','' (ad_channels a))), om_failed_mr_check = False,
     om_is_batchable = ad_batchable a\<rparr>"

lemma addition_mr_sel [simp]:
  "sm_description (addition_mr lib contents a) = addition_description a" "sm_labels (addition_mr lib contents a) = sapm_mr_labels"
  by (simp_all add: addition_mr_def)

lemma created_mr_sel [simp]:
  "mr_description (created_mr lib iid r) = sm_description r" "gm_labels (created_mr lib iid r) = sm_labels r"
  "gm_has_conflicts (created_mr lib iid r) = False" "gm_pipelines (created_mr lib iid r) = []"
  by (simp_all add: created_mr_def mr_description_def)

lemma addition_read_back:
  assumes a: "plain_addition a" and m: "m = created_mr glib iid (addition_mr lib contents a)"
  shows "kind_of m = Inr Batcher" "read_alone m = Inr (addition_read m a)" "sapm_label \<in> set (gm_labels m)"
proof -
  have hs: "plain_text (join '','' (ad_content_hashes a))" "join '','' (ad_content_hashes a) \<noteq> []"
    "py_split CHR '','' (join '','' (ad_content_hashes a)) = ad_content_hashes a"
    using a plain_join [of "ad_content_hashes a"] join_not_empty [of "ad_content_hashes a"]
    by (auto simp: plain_addition_def plain_hash_def py_split_join)
  have cs: "plain_text (join '','' (ad_channels a))" "join '','' (ad_channels a) \<noteq> []"
    using a plain_join [of "ad_channels a"] join_not_empty [of "ad_channels a"] by (auto simp: plain_addition_def)
  note d = description_data [OF mr_desc_ok hs(1) cs(1)] data_read_back [OF hs(1) cs(1)]
  show "kind_of m = Inr Batcher"
    using description_kind [OF mr_desc_ok hs(1) cs(1)] by (simp add: m addition_description_def)
  show "sapm_label \<in> set (gm_labels m)" by (simp add: m sapm_mr_labels_def)
  have "distinct (ad_content_hashes a)" using a by (simp add: plain_addition_def)
  then show "read_alone m = Inr (addition_read m a)"
    by (simp add: read_alone_def read_batcher_mr_def m addition_description_def d hs cs Let_def addition_read_def
        add_all_distinct get_gitlab_mr_check_status_def) (simp add: show_bool_def)
qed

section \<open>Additions are plain\<close>

definition plain_promotion :: "promotion \<Rightarrow> bool" where
  "plain_promotion p \<longleftrightarrow> (\<forall>h \<in> set (pr_content_hashes p). plain_hash h) \<and> pr_content_hashes p \<noteq> [] \<and>
     (\<forall>c \<in> set (pr_channels p). plain_text c \<and> c \<noteq> []) \<and> pr_channels p \<noteq> []"

lemma add_all_empty_iff: "add_all xs ys = [] \<longleftrightarrow> xs = [] \<and> ys = []"
  using set_add_all [of xs ys] by (metis Un_empty set_empty)

lemma batches_plain:
  assumes "\<forall>p \<in> set ps. plain_promotion p"
    and "distinct (ad_content_hashes b)" "\<forall>h \<in> set (ad_content_hashes b). plain_hash h"
    "\<forall>c \<in> set (ad_channels b). plain_text c \<and> c \<noteq> []" "ad_content_hashes b \<noteq> [] \<longrightarrow> ad_channels b \<noteq> []"
    and "a \<in> set (batches limit b ps)"
  shows "plain_addition a"
  using assms
proof (induction limit b ps rule: batches.induct)
  case (2 limit b p ps)
  define b' where "b' = b\<lparr>ad_content_hashes := add_all (ad_content_hashes b) (pr_content_hashes p),
    ad_channels := add_all (ad_channels b) (pr_channels p)\<rparr>"
  from 2(3-7) have b': "distinct (ad_content_hashes b')" "\<forall>h \<in> set (ad_content_hashes b'). plain_hash h"
    "\<forall>c \<in> set (ad_channels b'). plain_text c \<and> c \<noteq> []" "ad_content_hashes b' \<noteq> []" "ad_channels b' \<noteq> []"
    by (auto simp: b'_def plain_promotion_def distinct_add_all add_all_empty_iff)
  show ?case
  proof (cases "limit \<le> List.length (ad_content_hashes b')")
    case True
    with 2(8) b' have "a = b' \<or> a \<in> set (batches limit empty_batch ps)"
      by (auto simp: b'_def Let_def split: if_splits)
    then show ?thesis
    proof
      assume "a = b'"
      with b' show ?thesis by (simp add: plain_addition_def)
    next
      assume "a \<in> set (batches limit empty_batch ps)"
      with 2(1) [OF b'_def] True 2(3) show ?thesis by (simp add: empty_batch_def)
    qed
  next
    case False
    with 2(8) have "a \<in> set (batches limit b' ps)" by (auto simp: b'_def Let_def split: if_splits)
    with 2(2) [OF b'_def] False 2(3) b' show ?thesis by simp
  qed
qed (auto simp: plain_addition_def split: if_splits)

lemma additions_plain:
  assumes d: "single_hashes desired" "\<forall>p \<in> set desired. plain_promotion p"
    and cur: "\<forall>mr \<in> set mrs. plain_promotion (promotion_of mr)"
    and a: "a \<in> set (df_additions (reconcile_batches desired mrs limit))"
  shows "plain_addition a"
  using a
proof (cases rule: addition_cases)
  case (single p)
  with d have "plain_promotion p" "List.length (pr_content_hashes p) = 1" by (auto simp: single_hashes_def)
  with single show ?thesis
    by (cases "pr_content_hashes p") (auto simp: plain_addition_def plain_promotion_def single_mr_def)
next
  case batch
  have "\<forall>p \<in> set (to_batch desired mrs limit). plain_promotion p"
    using d(2) cur by (cases "reopened_batch desired mrs limit")
      (auto simp: to_batch_def missing_promotions_def kept_promotions_def dest: reopened_batch_valid(1))
  with batch show ?thesis by (intro batches_plain [of _ empty_batch]) (auto simp: empty_batch_def)
qed

section \<open>The merge requests after a run\<close>

lemma labelled_without: "batcher_mrs (labelled (without A mrs)) = without A (batcher_mrs (labelled mrs))"
  by (simp add: batcher_mrs_def labelled_def without_def conj_commute conj_left_commute)

lemma labelled_append [simp]:
  "labelled (xs @ ys) = labelled xs @ labelled ys" "batcher_mrs (xs @ ys) = batcher_mrs xs @ batcher_mrs ys"
  by (simp_all add: labelled_def batcher_mrs_def)

lemma survivor_raws:
  fixes mrs :: "gl_mr list" and desired :: "promotion list" and limit :: nat
  assumes ids: "distinct (map gm_iid mrs)"
  defines "cur \<equiv> current_mrs mrs"
  defines "gone \<equiv> gm_iid ` closed_unread mrs \<union>
    gm_iid ` (\<lambda>d. om_raw (dl_mr d)) ` set (df_deletions (reconcile_batches desired cur limit))"
  shows "batcher_mrs (labelled (without gone mrs)) = map om_raw (survivors desired cur limit)"
proof -
  let ?B = "batcher_mrs (labelled mrs)" and ?dl = "dl_mr ` set (df_deletions (reconcile_batches desired cur limit))"
  let ?shut = "set (snd (read_all [] ?B))"
  have B: "set ?B \<subseteq> set mrs" by (auto simp: batcher_mrs_def labelled_def)
  have inj: "inj_on gm_iid (set mrs)" using ids by (simp add: distinct_map)
  have dB: "distinct (map gm_iid ?B)"
    using ids by (auto simp: batcher_mrs_def labelled_def distinct_map intro: inj_on_subset)
  have raws: "map om_raw cur = without (gm_iid ` ?shut) ?B"
    using read_all_raws [OF dB] by (simp add: cur_def current_mrs_def)
  have curB: "om_raw r \<in> set mrs" if "r \<in> set cur" for r
    using that raws B by (metis (no_types, lifting) filter_is_subset image_eqI list.set_map subset_iff without_def)
  have same: "r = r'" if "r \<in> set cur" "r' \<in> set cur" "gm_iid (om_raw r) = gm_iid (om_raw r')" for r r'
  proof -
    from inj_onD [OF inj that(3)] curB that have "om_raw r = om_raw r'" by blast
    with that(1,2) show ?thesis
      unfolding cur_def current_mrs_def by (metis read_all_elems sum.inject(2))
  qed
  have dl: "r \<in> ?dl \<longleftrightarrow> gm_iid (om_raw r) \<in> gm_iid ` om_raw ` ?dl" if "r \<in> set cur" for r
  proof -
    have "?dl \<subseteq> set cur" by (auto simp: closed_mrs dest: reopened_batch_valid(1))
    with same that show ?thesis by blast
  qed
  have "map om_raw (survivors desired cur limit) = without (gm_iid ` om_raw ` ?dl) (map om_raw cur)"
    using dl by (auto simp: survivors_def without_def filter_map o_def intro!: arg_cong [of _ _ "map om_raw"] filter_cong)
  also have "\<dots> = without (gm_iid ` om_raw ` ?dl \<union> gm_iid ` ?shut) ?B" by (simp add: raws)
  also have "\<dots> = without gone ?B"
  proof -
    have "gm_iid m \<notin> gm_iid ` {m \<in> set (labelled mrs). unreadable m}" if "m \<in> set ?B" for m
    proof
      assume "gm_iid m \<in> gm_iid ` {m \<in> set (labelled mrs). unreadable m}"
      then obtain m' where "m' \<in> set (labelled mrs)" "unreadable m'" "gm_iid m = gm_iid m'" by blast
      with that inj_onD [OF inj, of m m'] B have "unreadable m" by (auto simp: labelled_def)
      with that show False by (auto simp: unreadable_def batcher_mrs_def)
    qed
    then show ?thesis
      by (auto simp: without_def gone_def closed_unread_def image_Un image_image intro!: filter_cong)
  qed
  finally show ?thesis by (simp add: labelled_without)
qed

lemma list_all2_rev_append:
  "list_all2 P xs ys \<Longrightarrow> list_all2 P us vs \<Longrightarrow> list_all2 P (rev xs @ us) (rev ys @ vs)"
  by (intro list_all2_appendI) simp_all

lemma run_structure:
  fixes lib :: manager_lib and subs :: "subscriber list" and w :: git_world
  assumes run: "reconcile_mrs lib cfg subs w = (Inr (), w')" and acts: "acts cfg"
  defines "cur \<equiv> current_mrs (gw_open_mrs w)"
  defines "diff \<equiv> reconcile_batches (ds_promotions (desired_promotions (mg_subscriber lib) subs)) cur batch_size_limit"
  assumes created: "gw_next_iid w' = gw_next_iid w + List.length (df_additions diff)"
  shows "\<exists>new. gw_open_mrs w' = rev new @ without (gm_iid ` closed_unread (gw_open_mrs w) \<union>
      gm_iid ` (\<lambda>d. om_raw (dl_mr d)) ` set (df_deletions diff)) (gw_open_mrs w) \<and>
    list_all2 (\<lambda>m a. \<exists>iid contents. m = created_mr (mg_gitlab lib) iid (addition_mr lib contents a)) new (df_additions diff)"
proof -
  from run obtain cur0 w1 w2 mrs w3 where
    f: "fetch_mrs cfg sapm_label w = (Inr cur0, w1)"
    and c: "vfold (\<lambda>_ d. close_app_interface_mr cfg (om_raw (dl_mr d)) (reason_text (dl_reason d))) ()
      (df_deletions (reconcile_batches (ds_promotions (desired_promotions (mg_subscriber lib) subs)) cur0 batch_size_limit)) w1 = (Inr (), w2)"
    and r: "vfold (render_mr lib (desired_promotions (mg_subscriber lib) subs)) []
      (df_additions (reconcile_batches (ds_promotions (desired_promotions (mg_subscriber lib) subs)) cur0 batch_size_limit)) w2 = (Inr mrs, w3)"
    and o: "vfold (\<lambda>_ mr. open_app_interface_merge_request (mg_gitlab lib) cfg mr) () mrs w3 = (Inr (), w')"
    by (auto simp: reconcile_mrs_def act_simps Let_def)
  from fetch_acts [OF f acts] have f': "cur0 = cur" "gw_next_iid w1 = gw_next_iid w"
    "gw_open_mrs w1 = without (gm_iid ` closed_unread (gw_open_mrs w)) (gw_open_mrs w)" by (simp_all add: cur_def)
  note folded = c [unfolded f'(1), folded diff_def] r [unfolded f'(1), folded diff_def]
  from close_all_acts [OF folded(1) acts] have c': "gw_next_iid w2 = gw_next_iid w1"
    "gw_open_mrs w2 = without (gm_iid ` om_raw ` dl_mr ` set (df_deletions diff)) (gw_open_mrs w1)"
    by (simp_all add: image_image)
  from render_all [OF folded(2)] have r': "w3 = w2" "List.length mrs \<le> List.length (df_additions diff)"
    "List.length mrs = List.length (df_additions diff) \<longrightarrow>
      list_all2 (\<lambda>r a. \<exists>contents. r = addition_mr lib contents a) mrs (df_additions diff)" by auto
  from open_all [OF o] obtain new where new: "gw_open_mrs w' = rev new @ gw_open_mrs w3"
    "gw_next_iid w' = gw_next_iid w3 + List.length new" "List.length new \<le> List.length mrs"
    "List.length new = List.length mrs \<longrightarrow> list_all2 (\<lambda>m r. \<exists>iid. m = created_mr (mg_gitlab lib) iid r) new mrs" by blast
  from created new(2,3) r'(1,2) c'(1) f'(2) have len: "List.length new = List.length mrs" "List.length mrs = List.length (df_additions diff)"
    by simp_all
  with new(4) r'(3) have "list_all2 (\<lambda>m a. \<exists>iid contents. m = created_mr (mg_gitlab lib) iid (addition_mr lib contents a))
      new (df_additions diff)"
    by (intro list_all2_trans [of "\<lambda>m r. \<exists>iid. m = created_mr (mg_gitlab lib) iid r"
        "\<lambda>r a. \<exists>contents. r = addition_mr lib contents a"]) auto
  moreover have "gw_open_mrs w' = rev new @ without (gm_iid ` closed_unread (gw_open_mrs w) \<union>
      gm_iid ` (\<lambda>d. om_raw (dl_mr d)) ` set (df_deletions diff)) (gw_open_mrs w)"
    using new(1) r'(1) c'(2) f'(3) by (simp add: image_image Un_commute)
  ultimately show ?thesis by blast
qed

lemma mset_concat_rev: "mset (concat (rev xs)) = mset (concat xs)"
  by (induction xs) auto

lemma addition_described:
  assumes "plain_addition a"
  shows "kind_of_description (addition_description a) = Inr Batcher" "sapm_label \<in> set sapm_mr_labels"
  using addition_read_back(1,3) [OF assms refl] by simp_all

lemma fresh_read:
  assumes "list_all2 (\<lambda>m a. \<exists>iid contents. m = created_mr glib iid (addition_mr lib contents a)) new as"
    "\<forall>a \<in> set as. plain_addition a"
  shows "list_all2 (\<lambda>m r. read_alone m = Inr r) new (map2 addition_read new as)"
    "map om_content_hashes (map2 addition_read new as) = map ad_content_hashes as"
    "\<forall>m \<in> set new. kind_of m = Inr Batcher \<and> sapm_label \<in> set (gm_labels m)"
    "\<forall>r \<in> set (map2 addition_read new as). \<not> failed_batch r"
  using assms
  by (induction new as rule: list_all2_induct)
    (auto simp: addition_read_back addition_described addition_read_def failed_batch_def)

lemma run_settles_aux:
  fixes lib :: manager_lib and subs :: "subscriber list" and w :: git_world
  assumes run: "reconcile_mrs lib cfg subs w = (Inr (), w')" and acts: "acts cfg"
  defines "cur \<equiv> current_mrs (gw_open_mrs w)"
  defines "desired \<equiv> ds_promotions (desired_promotions (mg_subscriber lib) subs)"
  defines "diff \<equiv> reconcile_batches desired cur batch_size_limit"
  assumes ids: "distinct (map gm_iid (gw_open_mrs w))"
    and created: "gw_next_iid w' = gw_next_iid w + List.length (df_additions diff)"
    and d: "single_hashes desired" "\<forall>p \<in> set desired. plain_promotion p"
    and ok: "distinct (concat (map om_content_hashes cur))" "\<forall>mr \<in> set cur. plain_promotion (promotion_of mr)"
  shows "reconcile_mrs lib cfg subs w' = (Inr (), w')"
proof -
  let ?gone = "gm_iid ` closed_unread (gw_open_mrs w) \<union> gm_iid ` (\<lambda>d. om_raw (dl_mr d)) ` set (df_deletions diff)"
  let ?surv = "survivors desired cur batch_size_limit" and ?adds = "df_additions diff"
  obtain new where new: "gw_open_mrs w' = rev new @ without ?gone (gw_open_mrs w)"
    and all: "list_all2 (\<lambda>m a. \<exists>iid contents. m = created_mr (mg_gitlab lib) iid (addition_mr lib contents a)) new ?adds"
    using run_structure [OF run acts] created unfolding diff_def desired_def cur_def by blast
  define fresh where "fresh = map2 addition_read new ?adds"
  have plain: "\<forall>a \<in> set ?adds. plain_addition a"
    using additions_plain [OF d ok(2)] by (simp add: diff_def)
  note read = fresh_read [OF all plain, folded fresh_def]
  have raws: "batcher_mrs (labelled (without ?gone (gw_open_mrs w))) = map om_raw ?surv"
    using survivor_raws [OF ids, of desired batch_size_limit] by (simp add: cur_def diff_def)
  have newB: "labelled (rev new) = rev new" "batcher_mrs (rev new) = rev new"
    using read by (auto simp: labelled_def batcher_mrs_def filter_id_conv)
  have B: "batcher_mrs (labelled (gw_open_mrs w')) = rev new @ map om_raw ?surv"
    by (simp add: new newB raws)
  let ?os = "rev fresh @ ?surv"
  have "list_all2 (\<lambda>m r. read_alone m = Inr r) (map om_raw ?surv) ?surv"
    using read_all_elems by (auto simp: list_all2_map1 list_all2_same survivors_def cur_def current_mrs_def)
  with read have os: "list_all2 (\<lambda>m r. read_alone m = Inr r) (rev new @ map om_raw ?surv) ?os"
    by (intro list_all2_rev_append) simp_all
  let ?after = "open_after undefined desired cur batch_size_limit"
  have hs: "map om_content_hashes ?os = rev (map ad_content_hashes ?adds) @ map om_content_hashes ?surv"
    "map om_content_hashes ?after = map om_content_hashes ?surv @ map ad_content_hashes ?adds"
    using read by (simp_all add: rev_map [symmetric] open_after_def diff_def o_def)
  have dist: "distinct (concat (map om_content_hashes ?os))"
  proof -
    have "mset (concat (map om_content_hashes ?os)) = mset (concat (map om_content_hashes ?after))"
      unfolding hs by (simp add: mset_concat_rev)
    with open_after_distinct [OF d(1) ok(1)] show ?thesis by (metis mset_eq_imp_distinct_iff)
  qed
  have sets: "hashes_of om_content_hashes ?os = hashes_of om_content_hashes ?after"
    unfolding concat_hashes [symmetric] hs by auto
  have "om_content_hashes r \<noteq> []" if "r \<in> set ?os" for r
  proof -
    have "om_content_hashes r \<in> set (map om_content_hashes ?os)" using that by (metis image_eqI list.set_map)
    then consider "om_content_hashes r \<in> ad_content_hashes ` set ?adds" | "om_content_hashes r \<in> om_content_hashes ` set ?surv"
      unfolding hs by auto
    then show ?thesis
      using plain ok(2) by cases (auto simp: plain_addition_def plain_promotion_def promotion_of_def survivors_def)
  qed
  with read_all_fresh [OF os distinct_hashes_keys [OF os dist], of "[]"]
  have ra: "read_all [] (batcher_mrs (labelled (gw_open_mrs w'))) = (?os, [])" by (simp add: B)
  have "\<not> unreadable m" if "m \<in> set (labelled (gw_open_mrs w'))" for m
    using that read by (auto simp: new labelled_def without_def unreadable_def closed_unread_def image_Un)
  with ra have "closed_unread (gw_open_mrs w') = {}" by (simp add: closed_unread_def)
  moreover have "reconcile_batches desired ?os batch_size_limit = \<lparr>df_deletions = [], df_additions = []\<rparr>"
  proof (rule nothing_to_do)
    show "\<forall>mr \<in> set ?os. \<not> failed_batch mr"
      using read by (auto simp: survivors_filter valid_mr_def)
    show "hashes_of om_content_hashes ?os \<subseteq> hashes_of pr_content_hashes desired"
      unfolding sets by (rule open_after_desired)
    show "hashes_of pr_content_hashes desired \<subseteq> hashes_of om_content_hashes ?os"
      unfolding sets using open_after_covers [of _ desired] by (fastforce simp: hashes_of_def)
  qed
  ultimately show ?thesis
    by (intro reconcile_idle) (simp_all add: desired_def current_mrs_def ra)
qed

end
