(* ===== verification/Sapm_Inventory_Laws.thy ===== *)
theory Sapm_Inventory_Laws
  imports Sapm_Manager
begin

text \<open>
  What the inventory promises to the computation of the desired state: every channel of a subscriber has publishers,
  each of them publishes to that channel, so the first publisher of a channel can always be taken.
\<close>

definition channels_ok :: "saas_inventory \<Rightarrow> bool" where
  "channels_ok iv \<longleftrightarrow> (\<forall>c i. i \<in> set (get_or (in_channels iv) c []) \<longrightarrow>
     i < List.length (in_publishers iv) \<and> c \<in> set (pb_channels (in_publishers iv ! i)))"

definition supported :: "saas_inventory \<Rightarrow> bool" where
  "supported iv \<longleftrightarrow> (\<forall>s \<in> set (in_subscribers iv). \<forall>c \<in> set (su_channels s). get_or (in_channels iv) c [] \<noteq> [])"

lemma get_or_registered:
  "get_or (foldl (\<lambda>m c. if dict_has m c then m else dict_set m c []) m cs) c [] = get_or m c []"
proof (induction cs arbitrary: m)
  case (Cons x cs)
  have "get_or (if dict_has m x then m else dict_set m x []) c [] = get_or m c []"
    by (cases "c = x") (auto simp: get_or_def map_of_dict_set dict_has_def)
  with Cons show ?case by simp
qed simp

lemma add_subscriber_channels:
  "add_subscriber lib iv t = Inr iv' \<Longrightarrow> in_publishers iv' = in_publishers iv \<and>
   get_or (in_channels iv') c [] = get_or (in_channels iv) c []"
  by (auto simp: add_subscriber_def result_simps get_or_registered split: prod.splits option.splits)

lemma published_once:
  "i \<in> set (get_or (foldl (\<lambda>m c. dict_set m c (get_or m c [] @ [n])) m cs) c []) \<Longrightarrow>
   i \<in> set (get_or m c []) \<or> (i = n \<and> c \<in> set cs)"
proof (induction cs arbitrary: m)
  case (Cons x cs)
  then have "i \<in> set (get_or (dict_set m x (get_or m x [] @ [n])) c []) \<or> (i = n \<and> c \<in> set cs)" by simp
  then show ?case by (auto simp: get_or_dict_set split: if_splits)
qed simp

lemma add_publisher_ok:
  assumes "channels_ok iv"
  shows "channels_ok (add_publisher lib iv t)"
proof -
  obtain sf rt tg where t: "t = (sf, rt, tg)" by (cases t)
  show ?thesis
  proof (cases "published_target tg")
    case None
    with assms show ?thesis by (simp add: add_publisher_def t)
  next
    case (Some p)
    let ?known = "filter (dict_has (in_channels iv)) (tp_publish p)"
    have "i < Suc (List.length (in_publishers iv)) \<and>
        c \<in> set (pb_channels ((in_publishers iv @ [(new_publisher lib sf rt tg p)\<lparr>pb_channels := add_all [] ?known,
          pb_has_subscriber := ?known \<noteq> []\<rparr>]) ! i))"
      if "i \<in> set (get_or (foldl (\<lambda>m c. dict_set m c (get_or m c [] @ [List.length (in_publishers iv)])) (in_channels iv) ?known) c [])"
      for c i
      using published_once [OF that] assms by (auto simp: channels_ok_def nth_append)
    with Some show ?thesis by (simp add: add_publisher_def t channels_ok_def Let_def)
  qed
qed

lemma add_publishers_ok: "channels_ok iv \<Longrightarrow> channels_ok (foldl (add_publisher lib) iv ts)"
  by (induction ts arbitrary: iv) (simp_all add: add_publisher_ok)

lemma inventory_ok:
  assumes "saas_files_inventory lib sfs = Inr iv"
  shows "channels_ok iv \<and> supported iv"
proof -
  from assms obtain iv0 where 0: "rfold (add_subscriber lib) \<lparr>in_channels = [], in_subscribers = [], in_publishers = []\<rparr>
      (all_targets sfs) = Inr iv0"
    "iv = remove_unsupported (foldl (add_publisher lib) iv0 (all_targets sfs))"
    by (auto simp: saas_files_inventory_def result_simps)
  have "\<forall>c. get_or (in_channels iv0) c [] = []"
    by (rule rfold_invariant [OF 0(1)]) (auto simp: get_or_def dest: add_subscriber_channels)
  then have "channels_ok iv0" by (simp add: channels_ok_def)
  with add_publishers_ok 0(2) have "channels_ok iv" by (auto simp: remove_unsupported_def channels_ok_def)
  moreover have "supported iv" by (auto simp: 0(2) remove_unsupported_def supported_def)
  ultimately show ?thesis ..
qed

lemma fetch_keeps_length:
  assumes "fetch_publisher_states lib s3 ps st = Inr (ps', st')"
  shows "List.length ps' = List.length ps"
proof -
  have "rfold (\<lambda>(done, st) p. rbind (fetch_commit_shas_and_deployment_info lib s3 p st) (\<lambda>(p', st'). Inr (done @ [p'], st')))
      (done0, st0) ps = Inr (ps', st') \<Longrightarrow> List.length ps' = List.length done0 + List.length ps" for done0 st0
    by (induction ps arbitrary: done0 st0) (auto simp: result_simps)
  from this [of "[]" st] assms show ?thesis by (simp add: fetch_publisher_states_def)
qed

section \<open>Errors that do not occur\<close>

lemma avoids [intro]:
  "r \<noteq> Inl e \<Longrightarrow> (\<And>x. r = Inr x \<Longrightarrow> f x \<noteq> Inl e) \<Longrightarrow> rbind r f \<noteq> Inl e"
  "e' \<noteq> e \<Longrightarrow> of_opt e' v \<noteq> Inl e"
  by (cases r; simp) (cases v; simp add: of_opt_def)

lemma rfold_avoids: "(\<And>t x. x \<in> set xs \<Longrightarrow> f t x \<noteq> Inl e) \<Longrightarrow> rfold f s xs \<noteq> Inl e"
proof (induction xs arbitrary: s)
  case (Cons x xs)
  show ?case
    unfolding rfold.simps by (rule avoids(1)) (use Cons in auto)
qed simp

lemma rmap_avoids: "(\<And>x. x \<in> set xs \<Longrightarrow> f x \<noteq> Inl e) \<Longrightarrow> rmap f xs \<noteq> Inl e"
proof (induction xs)
  case (Cons x xs)
  show ?case
    unfolding rmap.simps by (intro avoids) (use Cons in auto)
qed simp

lemma get_promotion_data_avoids: "get_promotion_data lib s3 pre cached sha c u ps \<noteq> Inl NoPublisher"
  unfolding get_promotion_data_def Let_def
  by (auto simp: result_simps split: option.split)

lemma deployment_of_avoids: "deployment_of lib data \<noteq> Inl NoPublisher"
  by (auto simp: deployment_of_def result_simps split: option.splits)

lemma fetch_channel_avoids: "fetch_channel lib s3 x c \<noteq> Inl NoPublisher"
proof -
  obtain p ps where x: "x = (p, ps)" by force
  show ?thesis
    unfolding fetch_channel_def x prod.case
    by (auto simp: result_simps get_promotion_data_avoids deployment_of_avoids split: prod.split)
qed

lemma get_commit_sha_avoids: "get_commit_sha lib url ref auth \<noteq> Inl NoPublisher"
  by (auto simp: get_commit_sha_def result_simps split: option.splits if_splits)

lemma fetch_publisher_avoids: "fetch_commit_shas_and_deployment_info lib s3 p st \<noteq> Inl NoPublisher"
  unfolding fetch_commit_shas_and_deployment_info_def
  by (intro avoids rfold_avoids) (simp_all add: get_commit_sha_avoids fetch_channel_avoids)

lemma fetch_states_avoids: "fetch_publisher_states lib s3 ps st \<noteq> Inl NoPublisher"
  unfolding fetch_publisher_states_def
  by (intro rfold_avoids) (auto simp: result_simps fetch_publisher_avoids split: prod.splits)

lemma cache_avoids: "cache_commit_shas_from_s3 s3 ps \<noteq> Inl NoPublisher"
  unfolding cache_commit_shas_from_s3_def
  by (intro avoids rfold_avoids) (auto simp: cache_commit_def Let_def split: list.split)

lemma pc_map_avoids: "build_pc_map lib docs \<noteq> Inl NoPublisher"
proof -
  have "read_slo_secret lib p \<noteq> Inl NoPublisher" for p by (auto simp: read_slo_secret_def result_simps)
  then have "build_auth_for_prometheus_access lib a \<noteq> Inl NoPublisher" for a
    unfolding build_auth_for_prometheus_access_def by (auto simp: result_simps split: option.split)
  with \<open>\<And>p. read_slo_secret lib p \<noteq> Inl NoPublisher\<close> have "build_prom_client_from_namespace lib n \<noteq> Inl NoPublisher" for n
    unfolding build_prom_client_from_namespace_def by (auto simp: result_simps split: option.split)
  then show ?thesis
    unfolding build_pc_map_def Let_def by (intro rfold_avoids) (auto simp: result_simps)
qed

lemma slo_value_avoids: "get_current_slo_value lib client doc s \<noteq> Inl NoPublisher"
  by (auto simp: get_current_slo_value_def result_simps split: prom_answer.splits)

lemma slo_list_avoids: "get_current_slo_list lib docs \<noteq> Inl NoPublisher"
  unfolding get_current_slo_list_def Let_def get_current_slo_details_list_def
  by (intro avoids rmap_avoids) (auto simp: pc_map_avoids slo_value_avoids intro!: rmap_avoids)

lemma slo_avoids: "get_breached_slos lib docs \<noteq> Inl NoPublisher"
  unfolding get_breached_slos_def by (intro avoids) (auto simp: slo_list_avoids)

lemma desired_ref_avoids: "compute_desired_ref lib iv s \<noteq> Inl NoPublisher"
proof -
  have "has_breached_slos lib s d \<noteq> Inl NoPublisher" for d
    by (auto simp: has_breached_slos_def result_simps slo_avoids split: option.splits if_splits)
  then show ?thesis
    unfolding compute_desired_ref_def Let_def by (auto simp: result_simps split: prod.splits list.splits if_splits)
qed

lemma rmap_raises: "rmap f xs = Inl e \<Longrightarrow> \<exists>x \<in> set xs. f x = Inl e"
  using rmap_avoids by metis

lemma desired_state_errors:
  assumes "compute_desired_state lib iv s = Inl e" "\<forall>c \<in> set (su_channels s). publishers_of iv c \<noteq> []"
  shows "e \<noteq> NoPublisher"
proof (cases "compute_desired_ref lib iv s")
  case (Inl e')
  with assms(1) desired_ref_avoids [of lib iv s] show ?thesis by (auto simp: compute_desired_state_def)
next
  case (Inr s')
  from arg_cong [OF compute_desired_ref_only [OF this], of su_channels] have "su_channels s' = su_channels s" by simp
  moreover from Inr assms(1) have "compute_desired_config_hashes iv s' = Inl e" by (simp add: compute_desired_state_def)
  ultimately show ?thesis
    using assms(2) by (auto simp: compute_desired_config_hashes_def result_simps desired_hash_def
        dest!: rmap_raises split: if_splits list.splits option.splits)
qed

lemma inventory_never_lacks_publisher:
  assumes "saas_files_inventory plib sfs = Inr iv"
  shows "desired_subscribers lib s3 iv \<noteq> Inl NoPublisher"
proof
  assume a: "desired_subscribers lib s3 iv = Inl NoPublisher"
  from inventory_ok [OF assms] have ok: "supported iv" by simp
  from a obtain ps pubs st where f: "fetch_publisher_states (mg_publisher lib) s3 (in_publishers iv) ps = Inr (pubs, st)"
    and m: "rmap (compute_desired_state (mg_subscriber lib) (iv\<lparr>in_publishers := pubs\<rparr>)) (in_subscribers iv) = Inl NoPublisher"
    by (auto simp: desired_subscribers_def result_simps Let_def cache_avoids fetch_states_avoids)
  from rmap_raises [OF m] obtain s where s: "s \<in> set (in_subscribers iv)"
    "compute_desired_state (mg_subscriber lib) (iv\<lparr>in_publishers := pubs\<rparr>) s = Inl NoPublisher" by blast
  from ok s(1) have "\<forall>c \<in> set (su_channels s). publishers_of (iv\<lparr>in_publishers := pubs\<rparr>) c \<noteq> []"
    by (auto simp: supported_def publishers_of_def)
  with desired_state_errors [OF s(2)] show False by blast
qed

end
