(* ===== verification/Sapm_Theorems.thy ===== *)
theory Sapm_Theorems
  imports Sapm_Settled Sapm_Inventory_Laws
begin

text \<open>
  The properties of the saas auto promotions manager: when a reference is promoted, what the batcher keeps of the
  open merge requests, that a run settles, and what goes wrong when two channel groups have the same content.
\<close>

section \<open>Taking a failed batch apart\<close>

lemma failed_batch_is_taken_apart_aux:
  assumes d: "single_hashes desired" and ok: "distinct (concat (map om_content_hashes mrs))"
    and mr: "mr \<in> set mrs" "om_is_batchable mr" "om_failed_mr_check mr" "h \<in> set (om_content_hashes mr)"
    and p: "p \<in> set desired" "pr_content_hashes p = [h]"
  shows "\<exists>m \<in> set (open_after mk desired mrs limit). om_content_hashes m = [h] \<and> \<not> om_is_batchable m \<and>
    (\<forall>m' \<in> set (open_after mk desired mrs limit). h \<in> set (om_content_hashes m') \<longrightarrow> m' = m)"
proof -
  have "h \<notin> unbatchable_hashes mrs"
  proof
    assume "h \<in> unbatchable_hashes mrs"
    then obtain m where m: "m \<in> set mrs" "\<not> om_is_batchable m" "h \<in> set (om_content_hashes m)"
      by (auto simp: hashes_of_def)
    from distinct_concat_disjoint [OF ok mr(1) m(1)] m mr show False by auto
  qed
  moreover have "h \<in> failed_hashes mrs" using mr by (auto simp: hashes_of_def failed_batch_def)
  ultimately have "single_mr p \<in> set (df_additions (reconcile_batches desired mrs limit))"
    using p by (auto simp: reconcile_batches_closed unbatched_def)
  then have m: "opened mk (single_mr p) \<in> set (open_after mk desired mrs limit)" by (auto simp: open_after_def)
  have h: "h \<in> set (om_content_hashes (opened mk (single_mr p)))" by (simp add: p(2))
  have only: "m' = opened mk (single_mr p)"
    if m': "m' \<in> set (open_after mk desired mrs limit)" "h \<in> set (om_content_hashes m')" for m'
  proof (rule ccontr)
    assume "m' \<noteq> opened mk (single_mr p)"
    from distinct_concat_disjoint [OF open_after_distinct [OF d ok] m'(1) m this] m'(2) h show False by blast
  qed
  show ?thesis
  proof (intro bexI conjI ballI impI)
    show "om_content_hashes (opened mk (single_mr p)) = [h]" "\<not> om_is_batchable (opened mk (single_mr p))"
      by (simp_all add: p(2))
  qed (fact only, fact m)
qed

section \<open>Groups of subscribers with the same content\<close>

lemma colliding_content_aux:
  assumes "channel_combo s \<noteq> channel_combo t" "content_message s = content_message t"
  shows "desired_promotions lib [s, t] =
    \<lparr>ds_content_hash_to_subscriber = [(combined_content_hash lib [t], [t])],
     ds_promotions = [\<lparr>pr_content_hashes = [combined_content_hash lib [t]], pr_channels = [channel_combo s]\<rparr>,
                      \<lparr>pr_content_hashes = [combined_content_hash lib [t]], pr_channels = [channel_combo t]\<rparr>]\<rparr>"
proof -
  have "group_by channel_combo [s, t] = [(channel_combo s, [s]), (channel_combo t, [t])]"
    using assms(1) by (simp add: group_by_def)
  moreover have "combined_content_hash lib [s] = combined_content_hash lib [t]"
    using assms(2) by (simp add: combined_content_hash_def combined_message_def)
  ultimately show ?thesis by (simp add: desired_promotions_def Let_def)
qed

section \<open>Soaking\<close>

lemma soak_loop_sum:
  assumes "\<forall>(c, p) \<in> set ps. \<exists>i. dict_get (pb_deployment_info p) c = Some (Some i) \<and> di_check_in i = Some t"
  shows "soak_loop now ps delta = Some (delta + int (List.length ps) * (now - t))"
  using assms
proof (induction ps arbitrary: delta)
  case (Cons cp ps)
  obtain c p where "cp = (c, p)" by force
  with Cons show ?case by (fastforce simp: algebra_simps)
qed simp

section \<open>The properties\<close>

text \<open>C7. A subscriber is moved to another reference only when every publisher of every subscribed channel has
  successfully deployed exactly that reference, there is such a publisher, the accumulated soak time has passed, the
  deployment window is open, the reference is not blocked, and no objective is breached unless it is a hotfix.\<close>

theorem promotion_passes_gates:
  assumes "compute_desired_state lib iv s = Inr s'" "su_desired_ref s' \<noteq> su_ref s"
  shows "(\<forall>(c, p) \<in> set (subscribed_publishers iv s). pb_commit_sha p = su_desired_ref s' \<and>
        (\<exists>i. dict_get (pb_deployment_info p) c = Some (Some i) \<and> di_success i)) \<and>
      subscribed_publishers iv s \<noteq> [] \<and> passed_accumulated_soak_days lib iv s \<and> is_valid_deployment_window lib s \<and>
      su_desired_ref s' \<notin> set (su_blocked_versions s) \<and> has_breached_slos lib s (su_desired_ref s') = Inr False"
proof -
  from assms(1) obtain s1 where s1: "compute_desired_ref lib iv s = Inr s1" "compute_desired_config_hashes iv s1 = Inr s'"
    by (auto simp: compute_desired_state_def result_simps)
  then have "su_desired_ref s' = su_desired_ref s1"
    by (auto simp: compute_desired_config_hashes_def result_simps split: if_splits)
  with promotion_gates_aux [OF s1(1)] assms(2) show ?thesis by simp
qed

text \<open>C17. After a reconciliation the open merge requests hold exactly the desired content, no merge request that failed
  its check as a batch is left, and a second reconciliation with the same promotions closes and opens nothing.\<close>

theorem batcher_converges:
  "hashes_of om_content_hashes (open_after mk desired mrs limit) = hashes_of pr_content_hashes desired \<and>
   filter failed_batch (open_after mk desired mrs limit) = [] \<and>
   reconcile_batches desired (open_after mk desired mrs limit) limit = \<lparr>df_deletions = [], df_additions = []\<rparr>"
proof (intro conjI)
  show "hashes_of om_content_hashes (open_after mk desired mrs limit) = hashes_of pr_content_hashes desired"
    using open_after_desired [of mk desired mrs limit] open_after_covers [of _ desired mk mrs limit]
    by (fastforce simp: hashes_of_def)
  show "filter failed_batch (open_after mk desired mrs limit) = []"
    by (simp add: filter_empty_conv) (use open_after_not_failed in blast)
qed (rule reconcile_settles)


text \<open>C24. When a batch fails its check, each of its contents that is still desired ends in a merge request of its own that
  is never batched again, and in no other one.\<close>

theorem failed_batch_is_taken_apart:
  assumes "single_hashes desired" "distinct (concat (map om_content_hashes mrs))"
    and "mr \<in> set mrs" "om_is_batchable mr" "om_failed_mr_check mr" "h \<in> set (om_content_hashes mr)"
    and "p \<in> set desired" "pr_content_hashes p = [h]"
  shows "\<exists>m \<in> set (open_after mk desired mrs limit). om_content_hashes m = [h] \<and> \<not> om_is_batchable m \<and>
    (\<forall>m' \<in> set (open_after mk desired mrs limit). h \<in> set (om_content_hashes m') \<longrightarrow> m' = m)"
  by (rule failed_batch_is_taken_apart_aux [OF assms])


text \<open>C29. The parser reads in the description of an opened merge request the content hashes, the channels and the batching
  flag that the renderer wrote.\<close>

theorem description_reads_back:
  assumes "plain_addition a"
  shows "read_alone (created_mr glib iid (addition_mr lib contents a)) =
    Inr (addition_read (created_mr glib iid (addition_mr lib contents a)) a)"
  by (rule addition_read_back(2) [OF assms refl])

text \<open>A rendered target carries the desired reference and, for each desired configuration hash, an entry of its channel
  and its parent file with that hash.\<close>

theorem rendered_target_is_promoted:
  assumes "render_target s target = Inr t" "distinct (map co_channel (su_desired_hashes s))"
  shows "\<exists>kvs p. t = JDict kvs \<and> map_of kvs ''ref'' = Some (JStr (su_desired_ref s)) \<and>
    map_of kvs ''promotion'' = Some (JDict p) \<and>
    (\<forall>h \<in> set (su_desired_hashes s). \<exists>cs. map_of p ''promotion_data'' = Some (JList cs) \<and> (\<exists>c \<in> set cs. channel_has h c))"
  by (rule rendered_target_aux [OF assms])

text \<open>C31. Every channel of a subscriber that the inventory keeps has publishers, each is a publisher of the inventory that
  publishes to the channel, and the computation of the desired state never lacks a publisher.\<close>

theorem inventory_supports_subscribers:
  assumes "saas_files_inventory plib sfs = Inr iv"
  shows "(\<forall>s \<in> set (in_subscribers iv). \<forall>c \<in> set (su_channels s). publishers_of iv c \<noteq> [] \<and>
      (\<forall>p \<in> set (publishers_of iv c). p \<in> set (in_publishers iv) \<and> c \<in> set (pb_channels p))) \<and>
    desired_subscribers lib s3 iv \<noteq> Inl NoPublisher"
  using inventory_ok [OF assms] inventory_never_lacks_publisher [OF assms]
  by (auto simp: supported_def channels_ok_def publishers_of_def)

text \<open>The content hash of a group of subscribers does not depend on their order, as long as no two of them agree in
  file, template and namespace.\<close>

theorem content_hash_ignores_order:
  assumes "mset ss = mset ts" "inj_on subscriber_key (set ss)"
  shows "combined_content_hash lib ss = combined_content_hash lib ts"
  using combined_message_order_aux [OF assms] by (simp add: combined_content_hash_def)

text \<open>C35. When subscribers of different channels have the same content, their promotions share one hash and only the
  last group is kept for it: the merge request names the channels of both and changes only the files of one.\<close>

theorem colliding_content_is_lost:
  assumes "channel_combo s \<noteq> channel_combo t" "content_message s = content_message t"
  shows "ds_content_hash_to_subscriber (desired_promotions lib [s, t]) = [(combined_content_hash lib [t], [t])] \<and>
    df_additions (reconcile_batches (ds_promotions (desired_promotions lib [s, t])) [] batch_size_limit) =
      [\<lparr>ad_content_hashes = [combined_content_hash lib [t]], ad_channels = [channel_combo s, channel_combo t],
        ad_batchable = True\<rparr>]"
  using assms(1)
  by (simp add: colliding_content_aux [OF assms] reconcile_batches_def unbatch_def remove_outdated_def batch_remaining_mrs_def
      unsubmitted_def issubset_def update_all_def empty_batch_def add_all_def add_if_absent_def batch_size_limit_def add_mr_def)

text \<open>A publisher that is reached through several channels soaks once per channel.\<close>

lemma soak_counts_channels:
  assumes "\<forall>(c, p) \<in> set (subscribed_publishers iv s).
      \<exists>i. dict_get (pb_deployment_info p) c = Some (Some i) \<and> di_check_in i = Some t"
  shows "passed_accumulated_soak_days lib iv s \<longleftrightarrow>
    su_soak_days s * day \<le> int (List.length (subscribed_publishers iv s)) * (sb_now lib - t)"
  by (simp add: passed_accumulated_soak_days_def soak_loop_sum [OF assms])

end
