(* ===== verification/Sapm_Examples.thy ===== *)
theory Sapm_Examples
  imports Sapm_Theorems "HOL-Library.Code_Target_Nat"
begin

text \<open>
  A small installation of the saas auto promotions manager, on which each property is applied: two SaaS files with a
  publisher and a subscriber each, a stored promotion, and a merge request of an earlier run.
\<close>

section \<open>The installation\<close>

definition demo_slo :: slo_lib where
  "demo_slo = \<lparr>sl_render = (\<lambda>e w. Some (e @ w)), sl_query = (\<lambda>c q. Results [[''0'', q]]),
     sl_float = (\<lambda>s. if s = ''low5m'' then Some (Num 0) else Some (Num 1)), sl_read_secret = Some\<rparr>"

definition demo_hex :: "string \<Rightarrow> string" where
  "demo_hex m = (if sublist ''/b.yml'' m then ''b0'' else ''a0'')"

definition demo_sub_lib :: subscriber_lib where
  "demo_sub_lib = \<lparr>sb_now = 3 * day, sb_cron_valid = (\<lambda>_. True), sb_cron_match = (\<lambda>_ _. True), sb_slo = demo_slo,
     sb_sha256_hex = demo_hex\<rparr>"

definition demo_sha :: string where "demo_sha = replicate 40 CHR ''a''"

definition demo_pub_lib :: publisher_lib where
  "demo_pub_lib = \<lparr>pl_fips = False, pl_sha256_hex = (\<lambda>s. s), pl_blake2s_hex = (\<lambda>s. s),
     pl_github_sha = (\<lambda>_ _ r. Some r), pl_gitlab_sha = (\<lambda>_ r. Some r),
     pl_promotion_data = (\<lambda>_. Some \<lparr>pd_success = True, pd_target_config_hash = Some ''h1'', pd_saas_file = Some ''sf'',
        pd_check_in = Some ''day one'', pd_has_succeeded_once = None\<rparr>),
     pl_fromisoformat = (\<lambda>_. Some day)\<rparr>"

definition demo_namespace :: saas_namespace where
  "demo_namespace = \<lparr>na_name = ''ns'', na_path = ''/ns.yml'', na_cluster_name = ''cl'', na_json = JDict []\<rparr>"

definition demo_promotion :: "bool \<Rightarrow> string list \<Rightarrow> string list \<Rightarrow> target_promotion" where
  "demo_promotion auto pub sub = \<lparr>tp_auto = auto, tp_publish = pub, tp_subscribe = sub,
     tp_redeploy_on_publisher_config_change = False, tp_soak_days = Some 2, tp_schedule = None, tp_promotion_data = []\<rparr>"

definition demo_target :: "string \<Rightarrow> string \<Rightarrow> target_promotion \<Rightarrow> saas_target" where
  "demo_target name ref p = \<lparr>tg_path = None, tg_name = Some name, tg_namespace = demo_namespace, tg_ref = ref,
     tg_promotion = Some p, tg_slos = [], tg_disable = False, tg_delete = False\<rparr>"

definition demo_file :: "string \<Rightarrow> string \<Rightarrow> saas_file" where
  "demo_file path channel = \<lparr>sf_path = path, sf_name = ''sf'', sf_app_name = ''app'', sf_code_components = [],
     sf_auth_code = None, sf_resource_templates = [\<lparr>rt_name = ''rt'', rt_url = ''https://github.com/o/r'',
       rt_targets = [demo_target ''stage'' demo_sha (demo_promotion False [channel] []),
                     demo_target ''prod'' ''old'' (demo_promotion True [] [channel])]\<rparr>]\<rparr>"

definition demo_files :: "saas_file list" where
  "demo_files = [demo_file ''/a.yml'' ''c1'', demo_file ''/b.yml'' ''c2'']"

definition demo_s3 :: s3_state where
  "demo_s3 = map (\<lambda>c. (promotion_path c ''sf:rt:stage:cl:ns'' demo_sha, JInt 1)) [''c1'', ''c2'']"

definition demo_render :: render_lib where
  "demo_render = \<lparr>rl_load = (\<lambda>_. JDict [(''$schema'', JStr ''/app-sre/saas-file-target-1.yml''), (''ref'', JStr ''old''),
     (''promotion'', JDict [])]), rl_dump = (\<lambda>_. ''promoted''), rl_find = (\<lambda>_ _. None)\<rparr>"

definition demo_gitlab :: gitlab_lib where
  "demo_gitlab = \<lparr>gl_file_error = (\<lambda>_. None), gl_refuses_mr = (\<lambda>_. False), gl_branch = (\<lambda>t. t), gl_sha_number = List.length\<rparr>"

definition demo_lib :: manager_lib where
  "demo_lib = \<lparr>mg_subscriber = demo_sub_lib, mg_render = demo_render, mg_gitlab = demo_gitlab, mg_publisher = demo_pub_lib\<rparr>"

definition demo_cfg :: vcs_config where
  "demo_cfg = \<lparr>vc_dry_run = False, vc_allow_deleting_mrs = True, vc_allow_opening_mrs = True\<rparr>"

definition demo_old_mr :: gl_mr where
  "demo_old_mr = created_mr demo_gitlab 1 (addition_mr demo_lib []
     \<lparr>ad_content_hashes = [''a0''], ad_channels = [''c1''], ad_batchable = True\<rparr>)"

definition demo_git :: git_world where
  "demo_git = \<lparr>gw_open_mrs = [demo_old_mr], gw_next_iid = 2, gw_branches = [],
     gw_files = [(''data/a.yml'', ''old''), (''data/b.yml'', ''old'')], gw_comments = []\<rparr>"

definition demo_inventory :: saas_inventory where
  "demo_inventory = projr (saas_files_inventory demo_pub_lib demo_files)"

definition demo_fetched :: saas_inventory where
  "demo_fetched = projr (desired_subscribers demo_lib demo_s3 demo_inventory)"

definition demo_subs :: "subscriber list" where
  "demo_subs = in_subscribers demo_fetched"

definition demo_run :: "(sapm_error + unit) \<times> git_world" where
  "demo_run = reconcile_mrs demo_lib demo_cfg demo_subs demo_git"

lemma demo_inventory: "saas_files_inventory demo_pub_lib demo_files = Inr demo_inventory"
  by code_simp

lemma demo_promoted:
  "map (\<lambda>s. (su_channels s, su_ref s, su_desired_ref s)) demo_subs = [([''c1''], ''old'', demo_sha), ([''c2''], ''old'', demo_sha)]"
  by code_simp

lemma demo_wanted:
  "desired_promotions demo_sub_lib demo_subs =
     \<lparr>ds_content_hash_to_subscriber = [(''a0'', [hd demo_subs]), (''b0'', [last demo_subs])],
      ds_promotions = [\<lparr>pr_content_hashes = [''a0''], pr_channels = [''c1'']\<rparr>,
                       \<lparr>pr_content_hashes = [''b0''], pr_channels = [''c2'']\<rparr>]\<rparr>"
  by code_simp

lemma demo_new_text:
  "render_merge_request_content demo_render (hd demo_subs) cur = Inr (''---'' @ newline # ''promoted'')"
  "render_merge_request_content demo_render (last demo_subs) cur = Inr (''---'' @ newline # ''promoted'')"
  "su_target_file_path (hd demo_subs) = ''/a.yml''" "su_target_file_path (last demo_subs) = ''/b.yml''"
  by code_simp+

definition demo_first :: mr_addition where
  "demo_first = \<lparr>ad_content_hashes = [''a0''], ad_channels = [''c1''], ad_batchable = True\<rparr>"

definition demo_batch :: mr_addition where
  "demo_batch = \<lparr>ad_content_hashes = [''b0'', ''a0''], ad_channels = [''c2'', ''c1''], ad_batchable = True\<rparr>"

lemma demo_plain: "plain_addition demo_first" "plain_addition demo_batch"
  by code_simp+

lemma demo_old: "demo_old_mr = created_mr demo_gitlab 1 (addition_mr demo_lib [] demo_first)"
  by (simp add: demo_old_mr_def demo_first_def)

lemmas demo_old_read = addition_read_back [OF demo_plain(1) demo_old]

lemma demo_current:
  "current_mrs [demo_old_mr] = [addition_read demo_old_mr demo_first]" "closed_unread [demo_old_mr] = {}"
proof -
  have "batcher_mrs (labelled [demo_old_mr]) = [demo_old_mr]"
    using demo_old_read by (simp add: batcher_mrs_def labelled_def)
  moreover have "read_all [] [demo_old_mr] = ([addition_read demo_old_mr demo_first], [])"
    using demo_old_read(2) by (intro read_all_fresh) auto
  ultimately show "current_mrs [demo_old_mr] = [addition_read demo_old_mr demo_first]" "closed_unread [demo_old_mr] = {}"
    using demo_old_read(1) by (auto simp: current_mrs_def closed_unread_def unreadable_def labelled_def)
qed

lemma demo_diff:
  "reconcile_batches [\<lparr>pr_content_hashes = [''a0''], pr_channels = [''c1'']\<rparr>, \<lparr>pr_content_hashes = [''b0''], pr_channels = [''c2'']\<rparr>]
     [addition_read demo_old_mr demo_first] batch_size_limit =
   \<lparr>df_deletions = [\<lparr>dl_mr = addition_read demo_old_mr demo_first, dl_reason = NewBatch\<rparr>], df_additions = [demo_batch]\<rparr>"
  by (simp add: reconcile_batches_def unbatch_def remove_outdated_def batch_remaining_mrs_def unsubmitted_def issubset_def
      update_all_def empty_batch_def add_all_def add_if_absent_def batch_size_limit_def add_mr_def delete_mr_def
      has_capacity_def addition_read_def demo_first_def demo_batch_def)

definition demo_contents :: "(string, string) dict" where
  "demo_contents = [(''/b.yml'', ''---'' @ newline # ''promoted''), (''/a.yml'', ''---'' @ newline # ''promoted'')]"

lemma demo_render_mr:
  assumes "gw_files w = gw_files demo_git"
  shows "render_mr demo_lib (desired_promotions demo_sub_lib demo_subs) [] demo_batch w =
    (Inr [addition_mr demo_lib demo_contents demo_batch], w)"
  using assms
  by (simp add: render_mr_def demo_wanted demo_batch_def demo_lib_def vbind_def vlift_def vret_def of_opt_def load_content_def
      demo_new_text get_file_content_from_app_interface_ref_def demo_gitlab_def demo_git_def demo_contents_def Let_def)

lemma demo_run_result:
  "demo_run = (Inr (), demo_git\<lparr>gw_open_mrs := [created_mr demo_gitlab 2 (addition_mr demo_lib demo_contents demo_batch)],
     gw_next_iid := 3, gw_branches := [gl_branch demo_gitlab (sm_title (addition_mr demo_lib demo_contents demo_batch))],
     gw_comments := [(1, reason_text NewBatch)]\<rparr>)"
proof -
  define w1 where "w1 = demo_git\<lparr>gw_open_mrs := [], gw_comments := [(1, reason_text NewBatch)]\<rparr>"
  have f: "fetch_mrs demo_cfg sapm_label demo_git = (Inr [addition_read demo_old_mr demo_first], demo_git)"
    using fetch_idle [of demo_git demo_cfg] demo_current by (simp add: demo_git_def)
  have "gm_source_branch demo_old_mr = Some (gl_branch demo_gitlab (sm_title (addition_mr demo_lib [] demo_first)))" "gm_iid demo_old_mr = 1"
    by (simp_all add: demo_old created_mr_def)
  moreover have "sm_title (addition_mr demo_lib [] demo_first) \<noteq> []"
    by (simp add: addition_mr_def render_title_def Let_def)
  ultimately have c: "close_app_interface_mr demo_cfg demo_old_mr (reason_text NewBatch) demo_git = (Inr (), w1)"
    by (simp add: close_app_interface_mr_def demo_cfg_def demo_git_def truthy_str_def demo_gitlab_def w1_def)
  have o: "open_app_interface_merge_request demo_gitlab demo_cfg (addition_mr demo_lib demo_contents demo_batch) w1 =
      (Inr (), w1\<lparr>gw_open_mrs := [created_mr demo_gitlab 2 (addition_mr demo_lib demo_contents demo_batch)], gw_next_iid := 3,
        gw_branches := [gl_branch demo_gitlab (sm_title (addition_mr demo_lib demo_contents demo_batch))]\<rparr>)"
    by (simp add: open_app_interface_merge_request_def demo_cfg_def submit_to_gitlab_def w1_def demo_git_def demo_gitlab_def
        vbind_def vret_def Let_def dict_has_def demo_contents_def addition_mr_def)
  have lib: "mg_subscriber demo_lib = demo_sub_lib" "mg_gitlab demo_lib = demo_gitlab" by (simp_all add: demo_lib_def)
  have r: "render_mr demo_lib (desired_promotions demo_sub_lib demo_subs) [] demo_batch w1 =
      (Inr [addition_mr demo_lib demo_contents demo_batch], w1)"
    by (rule demo_render_mr) (simp add: w1_def)
  have raw: "om_raw (addition_read m a) = m" for m a by (simp add: addition_read_def)
  note d = arg_cong [OF demo_wanted, of ds_promotions, simplified]
  show ?thesis
    unfolding demo_run_def reconcile_mrs_def lib Let_def d
    by (simp add: vbind_def f demo_diff vret_def r o c raw del: reason_text.simps) (simp add: w1_def)
qed

section \<open>The properties applied\<close>

lemma demo_state:
  "map_sum id su_desired_ref (compute_desired_state demo_sub_lib demo_fetched (hd (in_subscribers demo_inventory))) = Inr demo_sha"
  "su_ref (hd (in_subscribers demo_inventory)) = ''old''"
  by code_simp+

theorem promotion_passes_gates_witness:
  "\<exists>s'. compute_desired_state demo_sub_lib demo_fetched (hd (in_subscribers demo_inventory)) = Inr s' \<and>
    passed_accumulated_soak_days demo_sub_lib demo_fetched (hd (in_subscribers demo_inventory)) \<and>
    subscribed_publishers demo_fetched (hd (in_subscribers demo_inventory)) \<noteq> []"
proof -
  obtain s' where s: "compute_desired_state demo_sub_lib demo_fetched (hd (in_subscribers demo_inventory)) = Inr s'"
    "su_desired_ref s' = demo_sha"
    using demo_state(1) by (cases "compute_desired_state demo_sub_lib demo_fetched (hd (in_subscribers demo_inventory))") auto
  have "su_desired_ref s' \<noteq> su_ref (hd (in_subscribers demo_inventory))"
    unfolding s(2) demo_state(2) by code_simp
  from promotion_passes_gates [OF s(1) this] s(1) show ?thesis by simp
qed

definition demo_promotions :: "promotion list" where
  "demo_promotions = [\<lparr>pr_content_hashes = [''a0''], pr_channels = [''c1'']\<rparr>, \<lparr>pr_content_hashes = [''b0''], pr_channels = [''c2'']\<rparr>]"

definition demo_failed :: "nat open_batcher_mr" where
  "demo_failed = \<lparr>om_raw = 1, om_content_hashes = [''a0'', ''b0''], om_channels = [''c1'', ''c2''], om_failed_mr_check = True,
     om_is_batchable = True\<rparr>"

lemma demo_single: "single_hashes demo_promotions"
  by (simp add: single_hashes_def demo_promotions_def)


theorem failed_batch_is_taken_apart_witness:
  "\<exists>m \<in> set (open_after (\<lambda>_. 2 :: nat) demo_promotions [demo_failed] 5). om_content_hashes m = [''a0''] \<and> \<not> om_is_batchable m"
  using failed_batch_is_taken_apart [OF demo_single, of "[demo_failed]" demo_failed "''a0''" "hd demo_promotions" "\<lambda>_. 2 :: nat" 5]
  by (auto simp: demo_failed_def demo_promotions_def)


theorem description_reads_back_witness:
  "read_alone (created_mr demo_gitlab 7 (addition_mr demo_lib [] demo_batch)) =
    Inr (addition_read (created_mr demo_gitlab 7 (addition_mr demo_lib [] demo_batch)) demo_batch)"
  by (rule description_reads_back [OF demo_plain(2)])

definition demo_hash :: config_hash where
  "demo_hash = \<lparr>co_channel = ''c1'', co_target_config_hash = ''h2'', co_parent_saas = ''sf''\<rparr>"

definition demo_yaml :: json where
  "demo_yaml = JDict [(''ref'', JStr ''old''), (''promotion'', JDict [(''promotion_data'', JList [JDict [(''channel'', JStr ''c1''),
     (''data'', JList [JDict [(''parent_saas'', JStr ''sf''), (''target_config_hash'', JStr ''h1'')]])]])])]"

theorem rendered_target_is_promoted_witness:
  "\<exists>t kvs. render_target ((hd demo_subs)\<lparr>su_desired_hashes := [demo_hash]\<rparr>) demo_yaml = Inr t \<and> t = JDict kvs \<and>
    map_of kvs ''ref'' = Some (JStr (su_desired_ref (hd demo_subs)))"
proof -
  have "\<exists>t. render_target ((hd demo_subs)\<lparr>su_desired_hashes := [demo_hash]\<rparr>) demo_yaml = Inr t"
    by (simp add: render_target_def demo_yaml_def demo_hash_def jset_def jget_def jget_or_def jdict_def jlist_def of_opt_def get_or_def
        apply_config_hash_def update_channel_def)
  then obtain t where t: "render_target ((hd demo_subs)\<lparr>su_desired_hashes := [demo_hash]\<rparr>) demo_yaml = Inr t" ..
  from rendered_target_is_promoted [OF t] t show ?thesis by auto
qed

theorem inventory_supports_subscribers_witness:
  "publishers_of demo_inventory ''c1'' \<noteq> [] \<and> desired_subscribers demo_lib demo_s3 demo_inventory \<noteq> Inl NoPublisher"
proof -
  have "map su_channels (in_subscribers demo_inventory) = [[''c1''], [''c2'']]" by code_simp
  then obtain s where "s \<in> set (in_subscribers demo_inventory)" "su_channels s = [''c1'']"
    by (cases "in_subscribers demo_inventory") auto
  with inventory_supports_subscribers [OF demo_inventory, of demo_lib demo_s3] show ?thesis by force
qed

theorem content_hash_ignores_order_witness:
  "List.length demo_subs = 2 \<and> combined_content_hash demo_sub_lib (rev demo_subs) = combined_content_hash demo_sub_lib demo_subs"
proof
  show "List.length demo_subs = 2" using arg_cong [OF demo_promoted, of List.length] by simp
  have "distinct (map subscriber_key demo_subs)" by code_simp
  then have "inj_on subscriber_key (set (rev demo_subs))" by (simp add: distinct_map)
  then show "combined_content_hash demo_sub_lib (rev demo_subs) = combined_content_hash demo_sub_lib demo_subs"
    by (intro content_hash_ignores_order) simp_all
qed

text \<open>Two subscribers that agree in file, template and namespace: here the order does matter.\<close>

lemma content_hash_order_counterexample:
  "\<exists>s t. subscriber_key s = subscriber_key t \<and> combined_message [s, t] \<noteq> combined_message [t, s]"
proof (intro exI conjI)
  let ?s = "(hd demo_subs)\<lparr>su_desired_ref := ''1''\<rparr>" and ?t = "(hd demo_subs)\<lparr>su_desired_ref := ''2''\<rparr>"
  show "subscriber_key ?s = subscriber_key ?t" by (simp add: subscriber_key_def)
  then show "combined_message [?s, ?t] \<noteq> combined_message [?t, ?s]"
    by (simp add: combined_message_def content_message_def)
qed

definition demo_twin :: subscriber where
  "demo_twin = (hd demo_subs)\<lparr>su_template_name := ''other'', su_channels := [''c9'']\<rparr>"

theorem colliding_content_is_lost_witness:
  "map fst (ds_content_hash_to_subscriber (desired_promotions demo_sub_lib [hd demo_subs, demo_twin])) =
      [combined_content_hash demo_sub_lib [demo_twin]] \<and>
   channel_combo (hd demo_subs) = ''c1''"
proof -
  have c: "channel_combo (hd demo_subs) = ''c1''" by code_simp
  have "channel_combo (hd demo_subs) \<noteq> channel_combo demo_twin" unfolding c by (simp add: channel_combo_def demo_twin_def)
  moreover have "content_message (hd demo_subs) = content_message demo_twin"
    by (simp add: content_message_def demo_twin_def)
  ultimately have l: "ds_content_hash_to_subscriber (desired_promotions demo_sub_lib [hd demo_subs, demo_twin]) =
      [(combined_content_hash demo_sub_lib [demo_twin], [demo_twin])]"
    using colliding_content_is_lost by blast
  show ?thesis unfolding l c by simp
qed

end
