(* ===== verification/Glh_Model.thy ===== *)
theory Glh_Model
  imports Py_Prelude
begin

text \<open>
  GitLab as \<open>reconcile/gitlab_housekeeping.py\<close> sees it: the data of merge requests, the client objects with
  the labels they carry, the calls of the python-gitlab library and the methods of \<open>GitLabApi\<close>
  (\<open>reconcile/utils/gitlab_api.py\<close>) built on them.

  The GitLab service is a parameter: a record of calls over an arbitrary type of worlds. Every call may change the
  world (other people and pipelines act between two calls) and every call may raise. An action takes the state of
  the run and returns its value or the exception it raises together with the state afterwards, so that the effects
  before an exception stay. The state holds the world, the client objects by address (labels and state are updated in
  place, and several names in the code refer to one object), the reload toggle and the trace of the calls the
  properties speak about. Points in time are microseconds: all time stamps of GitLab have one fixed-width UTC
  format, so their order as texts is their order in time.
\<close>

section \<open>Labels\<close>

definition APPROVED :: string where "APPROVED = ''bot/approved''"
definition AUTO_MERGE :: string where "AUTO_MERGE = ''bot/automerge''"
definition LGTM :: string where "LGTM = ''lgtm''"
definition MERGE_ERROR :: string where "MERGE_ERROR = ''merge-error''"
definition PIPELINE_ERROR :: string where "PIPELINE_ERROR = ''pipeline-error''"
definition REBASE_ERROR :: string where "REBASE_ERROR = ''rebase-error''"
definition SAAS_FILE_UPDATE :: string where "SAAS_FILE_UPDATE = ''saas-file-update''"
definition SELF_SERVICEABLE :: string where "SELF_SERVICEABLE = ''self-serviceable''"
definition OMM_PENDING :: string where "OMM_PENDING = ''omm-pending''"
definition OMM_GROUP_LEAD :: string where "OMM_GROUP_LEAD = ''omm-group-lead''"
definition TENANT_LABEL_PREFIX :: string where "TENANT_LABEL_PREFIX = ''tenant-''"

definition prioritized_approval_label :: "string \<Rightarrow> string" where
  "prioritized_approval_label priority = APPROVED @ '': '' @ priority"

definition priority_values :: "string list" where
  \<comment> \<open>the values of \<open>ChangeTypePriority\<close>, in decreasing priority\<close>
  "priority_values = [''critical'', ''urgent'', ''high'', ''progressive-delivery'', ''medium'', ''low'']"

definition MERGE_LABELS_PRIORITY :: "string list" where
  "MERGE_LABELS_PRIORITY = map prioritized_approval_label priority_values @ [APPROVED, AUTO_MERGE, LGTM]"

definition HOLD_LABELS :: "string list" where
  "HOLD_LABELS = [''awaiting-approval'', ''blocked/bot-access'', ''changes-requested'', ''bot/hold'',
     ''do-not-merge/hold'', ''do-not-merge/pending-review'', ''needs-rebase'']"

definition ERROR_LABELS :: "string list" where
  "ERROR_LABELS = [MERGE_ERROR, PIPELINE_ERROR, REBASE_ERROR]"

lemmas label_defs = APPROVED_def AUTO_MERGE_def LGTM_def MERGE_ERROR_def PIPELINE_ERROR_def REBASE_ERROR_def
  SAAS_FILE_UPDATE_def SELF_SERVICEABLE_def OMM_PENDING_def OMM_GROUP_LEAD_def TENANT_LABEL_PREFIX_def
  prioritized_approval_label_def priority_values_def MERGE_LABELS_PRIORITY_def HOLD_LABELS_def ERROR_LABELS_def

section \<open>The data of GitLab\<close>

datatype gl_mr_state = MrOpened | MrClosed | MrLocked | MrMerged

datatype mr_status = MsUnchecked | MsChecking | MsCanBeMerged | MsCannotBeMerged | MsCannotBeMergedRecheck

datatype pipeline_status =
  PlCreated | PlWaiting | PlPreparing | PlPending | PlRunning | PlSuccess | PlFailed | PlCanceled | PlSkipped
  | PlManual | PlScheduled

record gl_pipeline =
  pl_id :: int
  pl_status :: pipeline_status
  pl_source :: string
  pl_created_at :: int
  pl_updated_at :: int

record label_event =
  le_action :: string
  le_label :: "string option"
  le_user :: string
  le_created_at :: int

record gl_note =
  nt_id :: int
  nt_author :: string
  nt_body :: string
  nt_system :: bool
  nt_created_at :: int
  nt_updated_at :: int

record commit_data =
  cm_id :: string
  cm_web_url :: string

datatype item_kind = KIssue | KMergeRequest

record item_data =
  \<comment> \<open>what the service answers for an issue or a merge request; an issue has no merge status\<close>
  id_iid :: int
  id_state :: gl_mr_state
  id_labels :: "string list"
  id_draft :: bool
  id_merge_status :: "mr_status option"
  id_sha :: string
  id_target_branch :: string
  id_source_project_id :: int
  id_squash :: bool
  id_merge_error :: "string option"
  id_updated_at :: int
  id_merged_at :: "int option"
  id_merge_commit_sha :: "string option"
  id_squash_commit_sha :: "string option"

record gl_item =
  \<comment> \<open>a client object: its class, its address and the attributes that no operation of the code changes\<close>
  it_kind :: item_kind
  it_obj :: nat
  it_data :: item_data

definition it_iid :: "gl_item \<Rightarrow> int" where "it_iid x = id_iid (it_data x)"

record mr_query =
  \<comment> \<open>the filters of a listing; the most recently updated entry only where the code asks for one page of one entry\<close>
  qy_kind :: item_kind
  qy_state :: gl_mr_state
  qy_labels :: "string list"
  qy_target_branch :: "string option"
  qy_latest :: bool

section \<open>Exceptions, the service and the state of a run\<close>

datatype gl_exc =
  GetError int | MRRebaseError | MRClosedError | PipelineCancelError | InsistOnPipelineError
  | UnboundLocalError | ValueError | AttributeError | TypeError | OtherError string

datatype gl_event =
  Listed mr_query "int list"
  | LabelsRead item_kind int "string list"
  | LabelsChanged item_kind int "string list"
  | PipelinesRead int "gl_pipeline list"
  | RebaseChecked int bool
  | MergeTried int bool bool
  | RebaseTried int bool bool
  | PipelineCancelled int int bool
  | NoteAdded item_kind int string
  | NoteDeleted int int
  | ItemClosed item_kind int
  | TestsStored string "string list"

type_synonym ('w, 'a) service_call = "'w \<Rightarrow> (gl_exc + 'a) \<times> 'w"

record 'w gitlab =
  sv_user :: string
  sv_project_path :: string
  sv_squash_always :: bool
  sv_now :: "'w \<Rightarrow> int"
  sv_list :: "mr_query \<Rightarrow> ('w, item_data list) service_call"
  sv_get :: "item_kind \<Rightarrow> int \<Rightarrow> ('w, item_data) service_call"
  sv_save :: "item_kind \<Rightarrow> int \<Rightarrow> string list \<Rightarrow> ('w, string list) service_call"
  sv_close :: "item_kind \<Rightarrow> int \<Rightarrow> ('w, gl_mr_state) service_call"
  sv_commits :: "int \<Rightarrow> ('w, commit_data list) service_call"
  sv_label_events :: "int \<Rightarrow> ('w, label_event list) service_call"
  sv_notes :: "item_kind \<Rightarrow> int \<Rightarrow> ('w, gl_note list) service_call"
  sv_latest_notes :: "int \<Rightarrow> ('w, gl_note list) service_call"
  sv_add_note :: "item_kind \<Rightarrow> int \<Rightarrow> string \<Rightarrow> ('w, unit) service_call"
  sv_delete_note :: "int \<Rightarrow> int \<Rightarrow> ('w, unit) service_call"
  sv_pipelines :: "int \<Rightarrow> ('w, gl_pipeline list) service_call"
  sv_get_project :: "int \<Rightarrow> ('w, unit) service_call"
  sv_cancel :: "int \<Rightarrow> int \<Rightarrow> ('w, unit) service_call"
  sv_statuses :: "int \<Rightarrow> string \<Rightarrow> ('w, (string \<times> string) list) service_call"
  sv_head :: "string \<Rightarrow> ('w, string) service_call"
  sv_compare :: "string \<Rightarrow> string \<Rightarrow> ('w, nat) service_call"
  sv_branch_pipelines :: "string \<Rightarrow> ('w, gl_pipeline list) service_call"
  sv_merge :: "int \<Rightarrow> bool \<Rightarrow> ('w, string list) service_call"
  sv_rebase :: "int \<Rightarrow> bool \<Rightarrow> ('w, unit) service_call"
  sv_state_get :: "string \<Rightarrow> ('w, string list option) service_call"
  sv_state_add :: "string \<Rightarrow> string list \<Rightarrow> ('w, unit) service_call"

record object_attrs =
  oa_labels :: "string list"
  oa_state :: gl_mr_state

type_synonym object_key = "item_kind \<times> int \<times> nat"

record 'w gl_run =
  rn_world :: 'w
  rn_objects :: "object_key \<rightharpoonup> object_attrs"
  rn_next :: nat
  rn_reload :: bool
  rn_trace :: "gl_event list"

type_synonym ('w, 'a) action = "'w gl_run \<Rightarrow> (gl_exc + 'a) \<times> 'w gl_run"

section \<open>Sequencing\<close>

definition gret :: "'a \<Rightarrow> ('w, 'a) action" where
  "gret x = (\<lambda>s. (Inr x, s))"

definition graise :: "gl_exc \<Rightarrow> ('w, 'a) action" where
  "graise e = (\<lambda>s. (Inl e, s))"

definition gbind :: "('w, 'a) action \<Rightarrow> ('a \<Rightarrow> ('w, 'b) action) \<Rightarrow> ('w, 'b) action" where
  "gbind m f = (\<lambda>s. case m s of (Inl e, s') \<Rightarrow> (Inl e, s') | (Inr x, s') \<Rightarrow> f x s')"

definition gseq :: "('w, 'a) action \<Rightarrow> ('w, 'b) action \<Rightarrow> ('w, 'b) action" where
  "gseq m n = gbind m (\<lambda>_. n)"

definition gtry :: "('w, 'a) action \<Rightarrow> (gl_exc + 'a \<Rightarrow> ('w, 'b) action) \<Rightarrow> ('w, 'b) action" where
  \<comment> \<open>\<open>try\<close>: the continuation gets the exception or the value\<close>
  "gtry m f = (\<lambda>s. case m s of (r, s') \<Rightarrow> f r s')"

definition gwhen :: "bool \<Rightarrow> ('w, unit) action \<Rightarrow> ('w, unit) action" where
  "gwhen b m = (if b then m else gret ())"

fun gfold :: "('b \<Rightarrow> 'a \<Rightarrow> ('w, 'b) action) \<Rightarrow> 'b \<Rightarrow> 'a list \<Rightarrow> ('w, 'b) action" where
  \<comment> \<open>a \<open>for\<close> loop whose local variables are the accumulator\<close>
  "gfold f acc [] = gret acc"
| "gfold f acc (x # xs) = gbind (f acc x) (\<lambda>acc'. gfold f acc' xs)"

definition gfor :: "'a list \<Rightarrow> ('a \<Rightarrow> ('w, unit) action) \<Rightarrow> ('w, unit) action" where
  "gfor xs f = gfold (\<lambda>_ x. f x) () xs"

definition gread :: "('w gl_run \<Rightarrow> 'a) \<Rightarrow> ('w, 'a) action" where
  "gread f = (\<lambda>s. (Inr (f s), s))"

definition gemit :: "gl_event \<Rightarrow> ('w, unit) action" where
  "gemit ev = (\<lambda>s. (Inr (), s\<lparr>rn_trace := rn_trace s @ [ev]\<rparr>))"

definition gset_reload :: "bool \<Rightarrow> ('w, unit) action" where
  "gset_reload b = (\<lambda>s. (Inr (), s\<lparr>rn_reload := b\<rparr>))"

definition gcall :: "('w, 'a) service_call \<Rightarrow> ('w, 'a) action" where
  "gcall c = (\<lambda>s. case c (rn_world s) of (r, w) \<Rightarrow> (r, s\<lparr>rn_world := w\<rparr>))"

section \<open>Client objects\<close>

definition object_key :: "gl_item \<Rightarrow> object_key" where
  "object_key x = (it_kind x, it_iid x, it_obj x)"

definition new_object :: "item_kind \<Rightarrow> item_data \<Rightarrow> ('w, gl_item) action" where
  "new_object k d = (\<lambda>s. (Inr \<lparr>it_kind = k, it_obj = rn_next s, it_data = d\<rparr>,
     s\<lparr>rn_objects := (rn_objects s)((k, id_iid d, rn_next s) \<mapsto>
                       \<lparr>oa_labels = id_labels d, oa_state = id_state d\<rparr>),
       rn_next := Suc (rn_next s), rn_trace := rn_trace s @ [LabelsRead k (id_iid d) (id_labels d)]\<rparr>))"

definition attrs_of :: "gl_item \<Rightarrow> ('w, object_attrs) action" where
  \<comment> \<open>the client only holds objects it was given, so the exception does not arise\<close>
  "attrs_of x = (\<lambda>s. case rn_objects s (object_key x) of
     None \<Rightarrow> (Inl (OtherError ''no such object''), s) | Some oa \<Rightarrow> (Inr oa, s))"

definition labels_of :: "gl_item \<Rightarrow> ('w, string list) action" where
  "labels_of x = gbind (attrs_of x) (\<lambda>oa. gret (oa_labels oa))"

definition state_of :: "gl_item \<Rightarrow> ('w, gl_mr_state) action" where
  "state_of x = gbind (attrs_of x) (\<lambda>oa. gret (oa_state oa))"

definition update_object :: "(object_attrs \<Rightarrow> object_attrs) \<Rightarrow> gl_item \<Rightarrow> ('w, unit) action" where
  "update_object f x = (\<lambda>s. (Inr (), s\<lparr>rn_objects :=
     (rn_objects s)(object_key x := map_option f (rn_objects s (object_key x)))\<rparr>))"

definition set_labels :: "gl_item \<Rightarrow> string list \<Rightarrow> ('w, unit) action" where
  "set_labels x ls = update_object (\<lambda>oa. oa\<lparr>oa_labels := ls\<rparr>) x"

definition set_state :: "gl_item \<Rightarrow> gl_mr_state \<Rightarrow> ('w, unit) action" where
  "set_state x st = update_object (\<lambda>oa. oa\<lparr>oa_state := st\<rparr>) x"

definition answered_labels :: "gl_item \<Rightarrow> string list \<Rightarrow> ('w, unit) action" where
  \<comment> \<open>the object takes over the labels of an answer of the service\<close>
  "answered_labels x ls =
     gseq (gemit (LabelsRead (it_kind x) (it_iid x) ls)) (set_labels x ls)"

section \<open>The methods of GitLabApi\<close>

definition list_items :: "'w gitlab \<Rightarrow> mr_query \<Rightarrow> ('w, gl_item list) action" where
  "list_items gl q = gbind (gcall (sv_list gl q))
     (\<lambda>ds. gseq (gemit (Listed q (map id_iid ds)))
       (gfold (\<lambda>acc d. gbind (new_object (qy_kind q) d) (\<lambda>x. gret (acc @ [x]))) [] ds))"

definition opened_query :: "item_kind \<Rightarrow> mr_query" where
  "opened_query k = \<lparr>qy_kind = k, qy_state = MrOpened, qy_labels = [], qy_target_branch = None, qy_latest = False\<rparr>"

definition get_issues :: "'w gitlab \<Rightarrow> ('w, gl_item list) action" where
  "get_issues gl = list_items gl (opened_query KIssue)"

definition get_opened_merge_requests :: "'w gitlab \<Rightarrow> ('w, gl_item list) action" where
  "get_opened_merge_requests gl = list_items gl (opened_query KMergeRequest)"

definition get_merge_request :: "'w gitlab \<Rightarrow> int \<Rightarrow> ('w, gl_item) action" where
  \<comment> \<open>the answer is about the merge request that was asked for\<close>
  "get_merge_request gl iid =
     gbind (gcall (sv_get gl KMergeRequest iid)) (\<lambda>d. new_object KMergeRequest (d\<lparr>id_iid := iid\<rparr>))"

definition get_merge_request_label_events :: "'w gitlab \<Rightarrow> gl_item \<Rightarrow> ('w, label_event list) action" where
  "get_merge_request_label_events gl mr = gcall (sv_label_events gl (it_iid mr))"

definition newest_first :: "gl_pipeline list \<Rightarrow> gl_pipeline list" where
  "newest_first ps = sort_key (\<lambda>p. - pl_created_at p) ps"

definition get_merge_request_pipelines :: "'w gitlab \<Rightarrow> gl_item \<Rightarrow> ('w, gl_pipeline list) action" where
  "get_merge_request_pipelines gl mr =
     gbind (gcall (sv_pipelines gl (it_iid mr))) (\<lambda>ps.
     gseq (gemit (PipelinesRead (it_iid mr) (newest_first ps)))
     (gret (newest_first ps)))"

definition refresh_labels :: "'w gitlab \<Rightarrow> gl_item \<Rightarrow> ('w, unit) action" where
  "refresh_labels gl x =
     gbind (gcall (sv_get gl (it_kind x) (it_iid x))) (\<lambda>d. answered_labels x (id_labels d))"

definition save_labels :: "'w gitlab \<Rightarrow> gl_item \<Rightarrow> string list \<Rightarrow> ('w, unit) action" where
  \<comment> \<open>the object changes before the call that stores its labels\<close>
  "save_labels gl x ls =
     gseq (gemit (LabelsChanged (it_kind x) (it_iid x) ls))
     (gseq (set_labels x ls)
     (gbind (gcall (sv_save gl (it_kind x) (it_iid x) ls)) (answered_labels x)))"

definition add_label_to_merge_request :: "'w gitlab \<Rightarrow> gl_item \<Rightarrow> string \<Rightarrow> ('w, unit) action" where
  "add_label_to_merge_request gl mr label =
     gseq (refresh_labels gl mr) (gbind (labels_of mr) (\<lambda>labels.
       if label \<in> set labels then gret () else save_labels gl mr (labels @ [label])))"

definition remove_label :: "'w gitlab \<Rightarrow> gl_item \<Rightarrow> string \<Rightarrow> ('w, unit) action" where
  "remove_label gl x label =
     gseq (refresh_labels gl x) (gbind (labels_of x) (\<lambda>labels.
       if label \<notin> set labels then gret () else save_labels gl x (remove1 label labels)))"

definition remove_labels :: "'w gitlab \<Rightarrow> gl_item \<Rightarrow> string list \<Rightarrow> ('w, unit) action" where
  "remove_labels gl x ls =
     gseq (refresh_labels gl x) (gbind (labels_of x) (\<lambda>current.
       if set ls \<inter> set current = {} then gret ()
       else save_labels gl x (remdups (filter (\<lambda>l. l \<notin> set ls) current))))"

definition stale_note :: "string \<Rightarrow> string" where
  "stale_note label = ''item has been marked as '' @ label @ ''. to remove say `/'' @ label @ '' cancel`''"

definition add_note :: "'w gitlab \<Rightarrow> gl_item \<Rightarrow> string \<Rightarrow> ('w, unit) action" where
  "add_note gl x body =
     gseq (gcall (sv_add_note gl (it_kind x) (it_iid x) body))
          (gemit (NoteAdded (it_kind x) (it_iid x) body))"

definition add_label_with_note :: "'w gitlab \<Rightarrow> gl_item \<Rightarrow> string \<Rightarrow> ('w, unit) action" where
  "add_label_with_note gl x label =
     gseq (refresh_labels gl x) (gbind (labels_of x) (\<lambda>labels.
       if label \<in> set labels then gret ()
       else gseq (gemit (LabelsChanged (it_kind x) (it_iid x) (labels @ [label])))
            (gseq (set_labels x (labels @ [label]))
            (gseq (add_note gl x (stale_note label))
            (gbind (gcall (sv_save gl (it_kind x) (it_iid x) (labels @ [label]))) (answered_labels x))))))"

definition close_gl_item :: "'w gitlab \<Rightarrow> gl_item \<Rightarrow> ('w, unit) action" where
  "close_gl_item gl x =
     gseq (gemit (ItemClosed (it_kind x) (it_iid x)))
     (gbind (gcall (sv_close gl (it_kind x) (it_iid x))) (set_state x))"

definition delete_merge_request_comments :: "'w gitlab \<Rightarrow> gl_item \<Rightarrow> string \<Rightarrow> ('w, unit) action" where
  "delete_merge_request_comments gl mr start =
     gbind (gcall (sv_notes gl KMergeRequest (it_iid mr))) (\<lambda>notes.
     gfor (filter (\<lambda>n. \<not> nt_system n \<and> nt_author n = sv_user gl \<and> prefix start (nt_body n)) notes) (\<lambda>n.
       gseq (gcall (sv_delete_note gl (it_iid mr) (nt_id n))) (gemit (NoteDeleted (it_iid mr) (nt_id n)))))"

section \<open>Merging and rebasing\<close>

definition merge_call :: "'w gitlab \<Rightarrow> gl_item \<Rightarrow> ('w, unit) action" where
  \<comment> \<open>\<open>mr.merge(squash=squash)\<close>; the object takes over the answer\<close>
  "merge_call gl mr =
     (let squash = (sv_squash_always gl \<or> id_squash (it_data mr))
      in gtry (gcall (sv_merge gl (it_iid mr) squash)) (\<lambda>r.
           gseq (gemit (MergeTried (it_iid mr) squash (\<not> isl r)))
           (case r of Inl e \<Rightarrow> graise e | Inr labels \<Rightarrow> answered_labels mr labels)))"

definition rebase_call :: "'w gitlab \<Rightarrow> gl_item \<Rightarrow> bool \<Rightarrow> ('w, unit) action" where
  "rebase_call gl mr skip_ci =
     gtry (gcall (sv_rebase gl (it_iid mr) skip_ci)) (\<lambda>r.
       gseq (gemit (RebaseTried (it_iid mr) skip_ci (\<not> isl r)))
       (case r of Inl e \<Rightarrow> graise e | Inr _ \<Rightarrow> gret ()))"

end
