(* ===== verification/Glh_Queue.thy ===== *)
theory Glh_Queue
  imports Glh_Model
begin

text \<open>
  The queue of the GitLab housekeeping (\<open>reconcile/gitlab_housekeeping.py\<close>): pipelines and their health, the
  on-demand tests, stale items, and the preprocessing that selects the merge requests that may be merged and orders
  them.
\<close>

section \<open>Labels of tenants\<close>

definition get_tenant_labels :: "string list \<Rightarrow> string list" where
  "get_tenant_labels labels = filter (prefix TENANT_LABEL_PREFIX) labels"

definition is_eligible_for_optimistic_merge :: "string list \<Rightarrow> bool" where
  "is_eligible_for_optimistic_merge labels \<longleftrightarrow> get_tenant_labels labels \<noteq> []"

definition has_overlapping_labels :: "string list \<Rightarrow> string list \<Rightarrow> bool" where
  "has_overlapping_labels mr_labels merged_labels \<longleftrightarrow> set mr_labels \<inter> set merged_labels \<noteq> {}"

section \<open>Pipelines\<close>

definition microseconds :: "int \<Rightarrow> int" where "microseconds seconds = seconds * 1000000"

definition get_timed_out_pipelines :: "int \<Rightarrow> gl_pipeline list \<Rightarrow> int \<Rightarrow> gl_pipeline list" where
  "get_timed_out_pipelines now pipelines pipeline_timeout =
     filter (\<lambda>p. microseconds (pipeline_timeout * 60) < now - pl_updated_at p)
       (filter (\<lambda>p. pl_status p \<in> {PlPending, PlRunning}) pipelines)"

definition cancel_pipeline :: "'w gitlab \<Rightarrow> int \<Rightarrow> gl_pipeline \<Rightarrow> ('w, unit) action" where
  "cancel_pipeline gl project p =
     gtry (gcall (sv_cancel gl project (pl_id p))) (\<lambda>r.
       gseq (gemit (PipelineCancelled project (pl_id p) (\<not> isl r)))
       (case r of Inl PipelineCancelError \<Rightarrow> gret () | Inl e \<Rightarrow> graise e | Inr _ \<Rightarrow> gret ()))"

definition clean_pipelines :: "bool \<Rightarrow> 'w gitlab \<Rightarrow> int \<Rightarrow> gl_pipeline list \<Rightarrow> ('w, unit) action" where
  "clean_pipelines dry_run gl fork_project_id pipelines =
     gwhen (\<not> dry_run)
       (gseq (gcall (sv_get_project gl fork_project_id)) (gfor pipelines (cancel_pipeline gl fork_project_id)))"

definition cancel_timed_out_pipelines ::
  "bool \<Rightarrow> 'w gitlab \<Rightarrow> gl_item \<Rightarrow> gl_pipeline list \<Rightarrow> int option \<Rightarrow> ('w, unit) action" where
  "cancel_timed_out_pipelines dry_run gl mr pipelines pipeline_timeout =
     (case pipeline_timeout of
        None \<Rightarrow> gret ()
      | Some t \<Rightarrow> gbind (gread (\<lambda>s. get_timed_out_pipelines (sv_now gl (rn_world s)) pipelines t)) (\<lambda>timed_out.
          gwhen (timed_out \<noteq> [])
            (clean_pipelines dry_run gl (id_source_project_id (it_data mr)) timed_out)))"

definition without_skipped :: "gl_pipeline list \<Rightarrow> gl_pipeline list" where
  "without_skipped ps = filter (\<lambda>p. pl_status p \<noteq> PlSkipped) ps"

definition should_skip_for_running_pipeline :: "gl_pipeline list \<Rightarrow> bool \<Rightarrow> bool" where
  "should_skip_for_running_pipeline pipelines wait_for_pipeline \<longleftrightarrow>
     wait_for_pipeline \<and> (pipelines = [] \<or> (\<exists>p \<in> set pipelines. pl_status p = PlRunning))"

definition check_pipeline_health :: "gl_pipeline list \<Rightarrow> nat \<Rightarrow> bool" where
  "check_pipeline_health pipelines limit =
     (let failure_window = take limit pipelines
      in if length failure_window < limit then True
         else \<not> (\<forall>p \<in> set failure_window. pl_status p = PlFailed))"

definition is_rebased :: "'w gitlab \<Rightarrow> gl_item \<Rightarrow> ('w, bool) action" where
  "is_rebased gl mr =
     gbind (gcall (sv_head gl (id_target_branch (it_data mr)))) (\<lambda>head.
     gbind (gcall (sv_compare gl (id_sha (it_data mr)) head)) (\<lambda>commits.
     gseq (gemit (RebaseChecked (it_iid mr) (commits = 0)))
     (gret (commits = 0))))"

section \<open>On-demand tests\<close>

abbreviation line_break :: char where "line_break \<equiv> CHR 0x0A"

definition on_demand_prefix :: string where "on_demand_prefix = ''On-demand Tests:''"

definition pending_tests_report :: "string \<Rightarrow> string list \<Rightarrow> string" where
  "pending_tests_report web_url remaining =
     on_demand_prefix @ '' '' @ [line_break, line_break] @ '' For latest [commit]('' @ web_url @
     '') You will need to pass following test jobs to get this MR merged.'' @ [line_break, line_break] @
     ''Add a comment with `/test [test_name]` to trigger a test; multiple tests can be triggered from the same comment: repeat the `/test [test_name]` command separated by lines.'' @
     [line_break, line_break] @ ''* '' @ join '', '' remaining @ [line_break, line_break] @
     ''An update of the MR will reset the on-demand tests. Consider running them once the MR is REVIEWED and no more code changes are required.'' @
     [line_break, line_break]"

definition passed_tests_report :: "string \<Rightarrow> string" where
  "passed_tests_report web_url =
     on_demand_prefix @ '' '' @ [line_break, line_break] @ '' All necessary tests have passed for latest [commit]('' @
     web_url @ '')'' @ [line_break]"

definition tests_state_key :: "'w gitlab \<Rightarrow> gl_item \<Rightarrow> commit_data \<Rightarrow> string" where
  "tests_state_key gl mr commit = sv_project_path gl @ ''/'' @ py_str_int (it_iid mr) @ ''/'' @ cm_id commit"

definition report_tests :: "bool \<Rightarrow> 'w gitlab \<Rightarrow> gl_item \<Rightarrow> commit_data \<Rightarrow> string list \<Rightarrow> ('w, unit) action" where
  \<comment> \<open>the comment is only renewed when the remaining tests differ from the stored ones\<close>
  "report_tests dry_run gl mr commit remaining =
     (let key = tests_state_key gl mr commit
      in gbind (gcall (sv_state_get gl key)) (\<lambda>stored.
         gwhen (\<not> dry_run \<and> stored \<noteq> Some remaining)
           (gseq (delete_merge_request_comments gl mr on_demand_prefix)
           (gseq (add_note gl mr (if remaining \<noteq> [] then pending_tests_report (cm_web_url commit) remaining
                                   else passed_tests_report (cm_web_url commit)))
           (gseq (gcall (sv_state_add gl key remaining)) (gemit (TestsStored key remaining)))))))"

definition verify_commit ::
  "bool \<Rightarrow> gl_item \<Rightarrow> string list \<Rightarrow> 'w gitlab \<Rightarrow> commit_data \<Rightarrow> ('w, bool) action" where
  "verify_commit dry_run mr must_pass gl commit =
     gseq (gcall (sv_get_project gl (id_source_project_id (it_data mr))))
     (gbind (gcall (sv_statuses gl (id_source_project_id (it_data mr)) (cm_id commit))) (\<lambda>statuses.
      let test_state = dict_of statuses;
          remaining = filter (\<lambda>t. dict_get test_state t \<noteq> Some ''success'') must_pass
      in gseq (report_tests dry_run gl mr commit remaining) (gret (remaining = []))))"

definition verify_on_demand_tests :: "bool \<Rightarrow> gl_item \<Rightarrow> string list \<Rightarrow> 'w gitlab \<Rightarrow> ('w, bool) action" where
  "verify_on_demand_tests dry_run mr must_pass gl =
     gbind (get_merge_request_pipelines gl mr) (\<lambda>pipelines.
     if \<exists>p \<in> set pipelines. pl_status p = PlRunning then gret False
     else gbind (gcall (sv_commits gl (it_iid mr))) (\<lambda>commits.
       case commits of
         [] \<Rightarrow> graise (OtherError ''StopIteration'')
       | commit # _ \<Rightarrow> verify_commit dry_run mr must_pass gl commit))"

section \<open>Stale items\<close>

definition day_of :: "int \<Rightarrow> int" where "day_of t = t div microseconds 86400"

definition stale_label :: string where "stale_label = ''stale''"

definition close_item :: "bool \<Rightarrow> 'w gitlab \<Rightarrow> bool \<Rightarrow> gl_item \<Rightarrow> ('w, unit) action" where
  "close_item dry_run gl enable_closing x = gwhen (enable_closing \<and> \<not> dry_run) (close_gl_item gl x)"

definition recheck_auto_merge :: "bool \<Rightarrow> 'w gitlab \<Rightarrow> bool \<Rightarrow> gl_item \<Rightarrow> ('w, gl_item) action" where
  \<comment> \<open>an item to be merged automatically is closed when it cannot be merged; asking for it triggers a recheck\<close>
  "recheck_auto_merge dry_run gl enable_closing x =
     gbind (labels_of x) (\<lambda>labels.
     if AUTO_MERGE \<notin> set labels then gret x
     else case id_merge_status (it_data x) of
       None \<Rightarrow> graise AttributeError
     | Some st \<Rightarrow>
         gbind (if st = MsUnchecked then get_merge_request gl (it_iid x) else gret x) (\<lambda>y.
         gseq (gwhen (id_merge_status (it_data y) = Some MsCannotBeMerged) (close_item dry_run gl enable_closing y))
         (gret y)))"

definition cancel_body :: string where "cancel_body = ''/stale cancel''"

definition handle_stale_item :: "bool \<Rightarrow> 'w gitlab \<Rightarrow> int \<Rightarrow> bool \<Rightarrow> int \<Rightarrow> gl_item \<Rightarrow> ('w, unit) action" where
  "handle_stale_item dry_run gl days_interval enable_closing now x0 =
     gbind (recheck_auto_merge dry_run gl enable_closing x0) (\<lambda>x.
     gbind (labels_of x) (\<lambda>labels.
     if days_interval < day_of now - day_of (id_updated_at (it_data x)) then
       (if stale_label \<notin> set labels then gwhen (\<not> dry_run) (add_label_with_note gl x stale_label)
        else close_item dry_run gl enable_closing x)
     else if stale_label \<notin> set labels then gret ()
     else gbind (gcall (sv_notes gl (it_kind x) (it_iid x))) (\<lambda>notes.
       let cancel_notes = filter (\<lambda>n. nt_body n = cancel_body) notes
       in if cancel_notes = [] then gret ()
          else gwhen (day_of now - day_of (Max (set (map nt_updated_at cancel_notes))) \<le> days_interval \<and> \<not> dry_run)
                 (remove_label gl x stale_label))))"

definition handle_stale_items :: "bool \<Rightarrow> 'w gitlab \<Rightarrow> int \<Rightarrow> bool \<Rightarrow> gl_item list \<Rightarrow> ('w, unit) action" where
  "handle_stale_items dry_run gl days_interval enable_closing items =
     gbind (gread (\<lambda>s. sv_now gl (rn_world s))) (\<lambda>now.
     gfor items (handle_stale_item dry_run gl days_interval enable_closing now))"

section \<open>The preprocessing\<close>

definition is_good_to_merge :: "string list \<Rightarrow> bool" where
  "is_good_to_merge labels \<longleftrightarrow>
     (\<exists>m \<in> set labels. m \<in> set MERGE_LABELS_PRIORITY) \<and> \<not> (\<exists>b \<in> set labels. b \<in> set HOLD_LABELS)"

fun index_in :: "'a \<Rightarrow> 'a list \<Rightarrow> nat" where
  \<comment> \<open>\<open>list.index\<close>, used on members only\<close>
  "index_in x [] = 0"
| "index_in x (y # ys) = (if x = y then 0 else Suc (index_in x ys))"

definition label_priorities :: "string list \<Rightarrow> nat list" where
  "label_priorities labels =
     map (\<lambda>l. index_in l MERGE_LABELS_PRIORITY) (filter (\<lambda>l. l \<in> set labels) MERGE_LABELS_PRIORITY)"

record queue_item =
  qi_mr :: gl_item
  qi_label_priority :: nat
  qi_priority :: string
  qi_approved_at :: int
  qi_approved_by :: string
  qi_error :: bool

record label_scan =
  ls_approval :: "(int \<times> string) option"
  ls_unauthorized :: "string list"
  ls_authorized :: "string list"

definition may_label :: "string list option \<Rightarrow> string \<Rightarrow> string \<Rightarrow> bool" where
  \<comment> \<open>no restriction for an absent or empty set of users; the user of the integration itself may always label\<close>
  "may_label users_allowed own_user user \<longleftrightarrow>
     (case users_allowed of None \<Rightarrow> True | Some us \<Rightarrow> us = [] \<or> user \<in> set us \<or> user = own_user)"

definition scan_label_event :: "string list option \<Rightarrow> string \<Rightarrow> label_scan \<Rightarrow> label_event \<Rightarrow> label_scan" where
  "scan_label_event users_allowed own_user sc ev =
     (if le_action ev \<noteq> ''add'' then sc
      else case le_label ev of
        None \<Rightarrow> sc
      | Some name \<Rightarrow>
          if \<not> may_label users_allowed own_user (le_user ev)
          then sc\<lparr>ls_unauthorized := add_if_absent (ls_unauthorized sc) name\<rparr>
          else let sc' = sc\<lparr>ls_authorized := add_if_absent (ls_authorized sc) name\<rparr>
               in if name \<in> set MERGE_LABELS_PRIORITY \<and> ls_approval sc' = None
                  then sc'\<lparr>ls_approval := Some (le_created_at ev, le_user ev)\<rparr> else sc')"

definition scan_label_events :: "string list option \<Rightarrow> string \<Rightarrow> label_event list \<Rightarrow> label_scan" where
  "scan_label_events users_allowed own_user evs =
     foldl (scan_label_event users_allowed own_user)
       \<lparr>ls_approval = None, ls_unauthorized = [], ls_authorized = []\<rparr> (rev evs)"

definition approval_found :: "(int \<times> string) option \<Rightarrow> label_scan \<Rightarrow> (int \<times> string) option" where
  \<comment> \<open>\<open>approved_at\<close> and \<open>approved_by\<close> are variables of the function: without an approval they keep their values\<close>
  "approval_found previous sc = (case ls_approval sc of None \<Rightarrow> previous | Some a \<Rightarrow> Some a)"

definition queue_entry :: "gl_item \<Rightarrow> string list \<Rightarrow> int \<times> string \<Rightarrow> queue_item" where
  "queue_entry mr labels a =
     (let label_priority = Min (set (label_priorities labels))
      in \<lparr>qi_mr = mr, qi_label_priority = label_priority,
          qi_priority = py_str_int (int label_priority) @ '' - '' @ MERGE_LABELS_PRIORITY ! label_priority,
          qi_approved_at = fst a, qi_approved_by = snd a,
          qi_error = (\<exists>l \<in> set labels. l \<in> set ERROR_LABELS)\<rparr>)"

record preprocess_config =
  pc_dry_run :: bool
  pc_users_allowed :: "string list option"
  pc_must_pass :: "string list option"
  pc_skip_unmergeable :: bool

type_synonym preprocess_vars = "(int \<times> string) option \<times> queue_item list"

definition tests_verified :: "preprocess_config \<Rightarrow> 'w gitlab \<Rightarrow> gl_item \<Rightarrow> ('w, bool) action" where
  "tests_verified cfg gl mr =
     (case pc_must_pass cfg of
        None \<Rightarrow> gret True
      | Some must_pass \<Rightarrow> if must_pass = [] then gret True
                          else verify_on_demand_tests (pc_dry_run cfg) mr must_pass gl)"

definition queue_by_labels ::
  "preprocess_config \<Rightarrow> 'w gitlab \<Rightarrow> preprocess_vars \<Rightarrow> gl_item \<Rightarrow> ('w, preprocess_vars) action" where
  \<comment> \<open>the second half of the loop body: authorization of the labels and the entry of the queue\<close>
  "queue_by_labels cfg gl vars mr =
     gbind (get_merge_request_label_events gl mr) (\<lambda>evs.
     gbind (labels_of mr) (\<lambda>labels.
     let sc = scan_label_events (pc_users_allowed cfg) (sv_user gl) evs;
         approval = approval_found (fst vars) sc;
         bad = filter (\<lambda>l. l \<notin> set (ls_authorized sc) \<and> l \<in> set labels) (ls_unauthorized sc)
     in gseq (gwhen (bad \<noteq> [] \<and> \<not> pc_dry_run cfg) (remove_labels gl mr bad))
        (gbind (labels_of mr) (\<lambda>labels'.
         if \<not> is_good_to_merge labels' then gret (approval, snd vars)
         else case approval of
           None \<Rightarrow> graise UnboundLocalError
         | Some a \<Rightarrow> gret (approval, snd vars @ [queue_entry mr labels' a])))))"

definition preprocess_merge_request ::
  "preprocess_config \<Rightarrow> 'w gitlab \<Rightarrow> preprocess_vars \<Rightarrow> gl_item \<Rightarrow> ('w, preprocess_vars) action" where
  "preprocess_merge_request cfg gl vars mr =
     (if id_merge_status (it_data mr) \<in> {Some MsCannotBeMerged, Some MsCannotBeMergedRecheck} \<and> pc_skip_unmergeable cfg
      then gret vars
      else if id_draft (it_data mr) then gret vars
      else
      gbind (gcall (sv_commits gl (it_iid mr))) (\<lambda>commits.
      if commits = [] then gret vars
      else
      gbind (tests_verified cfg gl mr) (\<lambda>verified.
      if \<not> verified then gret vars
      else
      gbind (labels_of mr) (\<lambda>labels.
      if labels = [] then gret vars
      else if (SAAS_FILE_UPDATE \<in> set labels \<or> SELF_SERVICEABLE \<in> set labels) \<and> LGTM \<in> set labels
      then gseq (gwhen (\<not> pc_dry_run cfg) (remove_label gl mr LGTM)) (gret vars)
      else queue_by_labels cfg gl vars mr))))"

definition by_priority :: "queue_item list \<Rightarrow> queue_item list" where
  \<comment> \<open>a stable sort by label priority and then by approval, written as two stable sorts\<close>
  "by_priority items = sort_key qi_label_priority (sort_key qi_approved_at items)"

definition preprocess_merge_requests ::
  "preprocess_config \<Rightarrow> 'w gitlab \<Rightarrow> gl_item list \<Rightarrow> ('w, queue_item list) action" where
  "preprocess_merge_requests cfg gl mrs =
     gbind (gfold (preprocess_merge_request cfg gl) (None, []) mrs) (\<lambda>vars. gret (by_priority (snd vars)))"

definition get_merge_requests ::
  "bool \<Rightarrow> 'w gitlab \<Rightarrow> string list option \<Rightarrow> bool \<Rightarrow> ('w, queue_item list) action" where
  "get_merge_requests dry_run gl users_allowed skip_unmergeable =
     gbind (get_opened_merge_requests gl) (preprocess_merge_requests
       \<lparr>pc_dry_run = dry_run, pc_users_allowed = users_allowed, pc_must_pass = None,
        pc_skip_unmergeable = skip_unmergeable\<rparr> gl)"

end
