(* ===== verification/Glh_Omm.thy ===== *)
theory Glh_Omm
  imports Glh_Queue
begin

text \<open>
  Optimistic multi-merge groups of the GitLab housekeeping (\<open>reconcile/gitlab_housekeeping.py\<close>). A merged merge
  request with the label omm-group-lead leads a group; the opened ones with omm-pending are its members. This theory
  holds the forming and the clearing of a group, the processing of a member and of a whole group.
\<close>

section \<open>The group\<close>

definition lead_query :: mr_query where
  "lead_query = \<lparr>qy_kind = KMergeRequest, qy_state = MrMerged, qy_labels = [OMM_GROUP_LEAD],
     qy_target_branch = None, qy_latest = True\<rparr>"

definition pending_query :: "gl_mr_state \<Rightarrow> mr_query" where
  "pending_query st = \<lparr>qy_kind = KMergeRequest, qy_state = st, qy_labels = [OMM_PENDING],
     qy_target_branch = None, qy_latest = False\<rparr>"

definition get_omm_group_lead :: "'w gitlab \<Rightarrow> ('w, gl_item option) action" where
  "get_omm_group_lead gl = gbind (list_items gl lead_query)
     (\<lambda>mrs. gret (case mrs of [] \<Rightarrow> None | mr # _ \<Rightarrow> Some mr))"

definition get_omm_pending_mrs :: "'w gitlab \<Rightarrow> ('w, gl_item list) action" where
  "get_omm_pending_mrs gl = list_items gl (pending_query MrOpened)"

definition apply_omm_pending_mr ::
  "bool \<Rightarrow> 'w gitlab \<Rightarrow> gl_item list \<Rightarrow> gl_item \<Rightarrow> ('w, gl_item list) action" where
  "apply_omm_pending_mr dry_run gl retained mr =
     (if dry_run then gret (retained @ [mr])
      else gseq (add_label_to_merge_request gl mr OMM_PENDING)
        (gtry (rebase_call gl mr True) (\<lambda>r.
          case r of
            Inr _ \<Rightarrow> gret (retained @ [mr])
          | Inl MRRebaseError \<Rightarrow>
              gseq (remove_label gl mr OMM_PENDING)
              (gseq (add_label_to_merge_request gl mr REBASE_ERROR) (gret retained))
          | Inl e \<Rightarrow> graise e)))"

definition apply_omm_pending :: "bool \<Rightarrow> 'w gitlab \<Rightarrow> gl_item list \<Rightarrow> ('w, gl_item list) action" where
  "apply_omm_pending dry_run gl mrs = gfold (apply_omm_pending_mr dry_run gl) [] mrs"

definition apply_omm_group_lead :: "bool \<Rightarrow> 'w gitlab \<Rightarrow> gl_item \<Rightarrow> ('w, unit) action" where
  "apply_omm_group_lead dry_run gl mr = gwhen (\<not> dry_run) (add_label_to_merge_request gl mr OMM_GROUP_LEAD)"

definition clear_pending :: "bool \<Rightarrow> 'w gitlab \<Rightarrow> gl_item list \<Rightarrow> ('w, unit) action" where
  "clear_pending dry_run gl mrs = gfor mrs (\<lambda>mr. gwhen (\<not> dry_run) (remove_label gl mr OMM_PENDING))"

definition clear_omm_group ::
  "bool \<Rightarrow> 'w gitlab \<Rightarrow> gl_item option \<Rightarrow> gl_item list option \<Rightarrow> ('w, unit) action" where
  "clear_omm_group dry_run gl lead pending =
     gbind (case lead of None \<Rightarrow> get_omm_group_lead gl | Some l \<Rightarrow> gret (Some l)) (\<lambda>lead'.
     gseq (case lead' of None \<Rightarrow> gret () | Some l \<Rightarrow> gwhen (\<not> dry_run) (remove_label gl l OMM_GROUP_LEAD))
     (gbind (case pending of None \<Rightarrow> get_omm_pending_mrs gl | Some mrs \<Rightarrow> gret mrs) (\<lambda>mrs.
     gseq (clear_pending dry_run gl mrs)
     (gfor [MrClosed, MrMerged] (\<lambda>st.
        gbind (list_items gl (pending_query st)) (clear_pending dry_run gl))))))"

definition active_pipeline :: "gl_pipeline list \<Rightarrow> bool" where
  "active_pipeline ps \<longleftrightarrow> ps \<noteq> [] \<and> pl_status (hd ps) \<in> {PlRunning, PlPending, PlSuccess}"

definition form_step ::
  "'w gitlab \<Rightarrow> gl_item list \<times> string list \<Rightarrow> queue_item \<Rightarrow> ('w, gl_item list \<times> string list) action" where
  "form_step gl acc item =
     (let mr = qi_mr item in
      if qi_error item then gret acc
      else gbind (labels_of mr) (\<lambda>labels.
        if \<not> is_eligible_for_optimistic_merge labels then gret acc
        else if has_overlapping_labels (get_tenant_labels labels) (snd acc) then gret acc
        else gbind (get_merge_request_pipelines gl mr) (\<lambda>pipelines.
          if \<not> active_pipeline (without_skipped pipelines) then gret acc
          else gret (fst acc @ [mr], snd acc @ get_tenant_labels labels))))"

definition form_omm_group ::
  "'w gitlab \<Rightarrow> queue_item list \<Rightarrow> string list \<Rightarrow> ('w, gl_item list) action" where
  "form_omm_group gl items merged_labels =
     gbind (gfold (form_step gl) ([], merged_labels) items) (\<lambda>acc. gret (fst acc))"

section \<open>Checks of an active group\<close>

definition merged_time :: "gl_item \<Rightarrow> ('w, int) action" where
  "merged_time lead = (case id_merged_at (it_data lead) of None \<Rightarrow> graise TypeError | Some t \<Rightarrow> gret t)"

definition is_omm_window_open :: "'w gitlab \<Rightarrow> gl_item \<Rightarrow> int \<Rightarrow> ('w, bool) action" where
  "is_omm_window_open gl lead max_minutes =
     gbind (merged_time lead) (\<lambda>t. gread (\<lambda>s. sv_now gl (rn_world s) - t < microseconds (max_minutes * 60)))"

definition check_post_merge_ci :: "'w gitlab \<Rightarrow> gl_item \<Rightarrow> ('w, bool) action" where
  "check_post_merge_ci gl lead =
     gbind (merged_time lead) (\<lambda>t.
     gbind (gcall (sv_branch_pipelines gl (id_target_branch (it_data lead)))) (\<lambda>ps.
     gret (case ps of [] \<Rightarrow> True | p # _ \<Rightarrow> if pl_created_at p < t then True else pl_status p \<noteq> PlFailed)))"

definition truthy_sha :: "string option \<Rightarrow> string list" where
  "truthy_sha x = (case truthy_str x of None \<Rightarrow> [] | Some s \<Rightarrow> [s])"

definition merged_members_query :: "gl_item \<Rightarrow> mr_query" where
  "merged_members_query lead = (pending_query MrMerged)\<lparr>qy_target_branch := Some (id_target_branch (it_data lead))\<rparr>"

definition check_target_branch_integrity :: "'w gitlab \<Rightarrow> gl_item \<Rightarrow> string \<Rightarrow> ('w, bool) action" where
  "check_target_branch_integrity gl lead lead_sha =
     gbind (gcall (sv_head gl (id_target_branch (it_data lead)))) (\<lambda>current_head.
     if current_head = lead_sha then gret True
     else gbind (gcall (sv_compare gl current_head lead_sha)) (\<lambda>commits.
     if 0 < commits then gret False
     else gbind (list_items gl (merged_members_query lead)) (\<lambda>merged_omm.
     gbind (gfold (\<lambda>shas mr. gbind (get_merge_request gl (it_iid mr)) (\<lambda>fresh.
         gret (shas @ truthy_sha (id_merge_commit_sha (it_data fresh)) @
                      truthy_sha (id_squash_commit_sha (it_data fresh))))) [] merged_omm) (\<lambda>omm_shas.
     gret (current_head \<in> set omm_shas)))))"

section \<open>Members\<close>

record member_result =
  mb_merged :: bool
  mb_active :: bool

definition no_result :: member_result where "no_result = \<lparr>mb_merged = False, mb_active = False\<rparr>"
definition active_result :: "bool \<Rightarrow> member_result" where "active_result b = \<lparr>mb_merged = False, mb_active = b\<rparr>"

definition eject :: "bool \<Rightarrow> 'w gitlab \<Rightarrow> gl_item \<Rightarrow> ('w, member_result) action" where
  \<comment> \<open>the member leaves the group: the label is removed unless in a dry run\<close>
  "eject dry_run gl mr = gseq (gwhen (\<not> dry_run) (remove_label gl mr OMM_PENDING)) (gret no_result)"

definition get_approval_info :: "'w gitlab \<Rightarrow> gl_item \<Rightarrow> ('w, (nat \<times> int) option) action" where
  \<comment> \<open>the priority and time of the latest approval label; \<open>min\<close> raises when no approval label is left\<close>
  "get_approval_info gl mr =
     gbind (get_merge_request_label_events gl mr) (\<lambda>evs.
     gbind (labels_of mr) (\<lambda>labels.
     case List.find (\<lambda>ev. le_action ev = ''add'' \<and>
            (case le_label ev of None \<Rightarrow> False | Some n \<Rightarrow> n \<in> set MERGE_LABELS_PRIORITY)) (rev evs) of
       None \<Rightarrow> gret None
     | Some ev \<Rightarrow> if label_priorities labels = [] then graise ValueError
                  else gret (Some (Min (set (label_priorities labels)), le_created_at ev))))"

definition merge_member :: "bool \<Rightarrow> 'w gitlab \<Rightarrow> gl_item \<Rightarrow> ('w, member_result) action" where
  "merge_member dry_run gl mr =
     (if dry_run then gret \<lparr>mb_merged = True, mb_active = False\<rparr>
      else gtry (gseq (merge_call gl mr) (get_approval_info gl mr)) (\<lambda>r.
        case r of
          Inr _ \<Rightarrow> gret \<lparr>mb_merged = True, mb_active = False\<rparr>
        | Inl MRClosedError \<Rightarrow> gseq (add_label_to_merge_request gl mr MERGE_ERROR) (gret no_result)
        | Inl e \<Rightarrow> graise e))"

definition skip_ci_rebase_member :: "bool \<Rightarrow> 'w gitlab \<Rightarrow> gl_item \<Rightarrow> ('w, member_result) action" where
  "skip_ci_rebase_member dry_run gl mr =
     (if dry_run then gret (active_result True)
      else gtry (rebase_call gl mr True) (\<lambda>r.
        case r of
          Inr _ \<Rightarrow> gret (active_result True)
        | Inl MRRebaseError \<Rightarrow> gseq (remove_label gl mr OMM_PENDING) (gret no_result)
        | Inl e \<Rightarrow> graise e))"

definition ci_signal :: "gl_pipeline list \<Rightarrow> gl_pipeline list" where
  \<comment> \<open>skipped pipelines and the empty shells of pushes carry no signal\<close>
  "ci_signal ps = filter (\<lambda>p. \<not> (pl_status p = PlSkipped \<or> pl_source p = ''push'')) ps"

definition member_by_pipelines ::
  "bool \<Rightarrow> 'w gitlab \<Rightarrow> gl_item \<Rightarrow> gl_pipeline list \<Rightarrow> bool \<Rightarrow> ('w, member_result) action" where
  "member_by_pipelines dry_run gl mr pipelines rebased =
     (case pipelines of
        [] \<Rightarrow> gret (active_result rebased)
      | p # _ \<Rightarrow>
          if pl_status p \<in> {PlFailed, PlCanceled} then eject dry_run gl mr
          else if pl_status p \<in> {PlRunning, PlPending} then gret (active_result True)
          else if pl_status p \<noteq> PlSuccess then gret (active_result rebased)
          else if rebased then merge_member dry_run gl mr
          else skip_ci_rebase_member dry_run gl mr)"

definition process_omm_member ::
  "bool \<Rightarrow> 'w gitlab \<Rightarrow> int option \<Rightarrow> gl_item \<Rightarrow> ('w, member_result) action" where
  "process_omm_member dry_run gl pipeline_timeout mr =
     gbind (labels_of mr) (\<lambda>labels.
     if set ERROR_LABELS \<inter> set labels \<noteq> {} then eject dry_run gl mr
     else if set HOLD_LABELS \<inter> set labels \<noteq> {} then eject dry_run gl mr
     else
     gbind (get_merge_request_pipelines gl mr) (\<lambda>pipelines.
     gseq (gwhen (pipelines \<noteq> []) (cancel_timed_out_pipelines dry_run gl mr pipelines pipeline_timeout))
     (gbind (get_merge_request gl (it_iid mr)) (\<lambda>fresh_mr.
     gtry (is_rebased gl fresh_mr) (\<lambda>r.
     case r of
       Inl e \<Rightarrow> if e = GetError 404 then eject dry_run gl mr else graise e
     | Inr rebased \<Rightarrow> member_by_pipelines dry_run gl mr (ci_signal pipelines) rebased)))))"

section \<open>The group as a whole\<close>

definition eject_overlap_step ::
  "bool \<Rightarrow> 'w gitlab \<Rightarrow> gl_item list \<times> string list \<Rightarrow> gl_item \<Rightarrow> ('w, gl_item list \<times> string list) action" where
  "eject_overlap_step dry_run gl acc mr =
     gbind (labels_of mr) (\<lambda>labels.
     if has_overlapping_labels (get_tenant_labels labels) (snd acc)
     then gseq (gwhen (\<not> dry_run) (remove_label gl mr OMM_PENDING)) (gret acc)
     else gret (fst acc @ [mr], snd acc @ get_tenant_labels labels))"

definition eject_overlaps ::
  "bool \<Rightarrow> 'w gitlab \<Rightarrow> gl_item \<Rightarrow> gl_item list \<Rightarrow> ('w, gl_item list) action" where
  "eject_overlaps dry_run gl lead pending =
     gbind (labels_of lead) (\<lambda>labels.
     gbind (gfold (eject_overlap_step dry_run gl) ([], get_tenant_labels labels) pending) (\<lambda>acc. gret (fst acc)))"

fun process_members ::
  "bool \<Rightarrow> 'w gitlab \<Rightarrow> int option \<Rightarrow> nat \<Rightarrow> nat \<Rightarrow> bool \<Rightarrow> gl_item list \<Rightarrow> ('w, nat \<times> bool \<times> bool) action" where
  \<comment> \<open>merges, any active member, and whether the limit of merges was reached, which ends the loop\<close>
  "process_members dry_run gl pipeline_timeout merge_limit merges any_active [] = gret (merges, any_active, False)"
| "process_members dry_run gl pipeline_timeout merge_limit merges any_active (mr # mrs) =
     gbind (process_omm_member dry_run gl pipeline_timeout mr) (\<lambda>r.
     let merges' = (if mb_merged r then merges + 1 else merges)
     in if mb_merged r \<and> merge_limit \<le> merges' then gret (merges', any_active, True)
        else process_members dry_run gl pipeline_timeout merge_limit merges' (any_active \<or> mb_active r) mrs)"

definition group_labels_of :: "gl_item \<Rightarrow> gl_item list \<Rightarrow> ('w, string list) action" where
  "group_labels_of lead pending =
     gfold (\<lambda>acc mr. gbind (labels_of mr) (\<lambda>ls. gret (acc @ get_tenant_labels ls))) [] (lead # pending)"

definition expand_omm_group ::
  "bool \<Rightarrow> 'w gitlab \<Rightarrow> gl_item \<Rightarrow> gl_item list \<Rightarrow> queue_item list \<Rightarrow> ('w, gl_item list) action" where
  \<comment> \<open>new members from the queue; the retained ones\<close>
  "expand_omm_group dry_run gl lead pending queue =
     gbind (group_labels_of lead pending) (\<lambda>group_labels.
     gbind (form_omm_group gl (filter (\<lambda>m. it_iid (qi_mr m) \<notin> it_iid ` set pending) queue) group_labels)
       (\<lambda>candidates. if candidates = [] then gret [] else apply_omm_pending dry_run gl candidates))"

definition process_pending ::
  "bool \<Rightarrow> 'w gitlab \<Rightarrow> gl_item \<Rightarrow> int option \<Rightarrow> nat \<Rightarrow> queue_item list \<Rightarrow> gl_item list \<Rightarrow> ('w, nat) action" where
  \<comment> \<open>the part of \<open>_process_omm_group\<close> after the members are fetched\<close>
  "process_pending dry_run gl lead pipeline_timeout merge_limit queue pending0 =
     gbind (eject_overlaps dry_run gl lead pending0) (\<lambda>pending.
     gbind (process_members dry_run gl pipeline_timeout merge_limit 0 False pending) (\<lambda>(merges, any_active, limit_reached).
     if limit_reached then gseq (clear_omm_group dry_run gl (Some lead) (Some pending)) (gret merges)
     else
     gbind (expand_omm_group dry_run gl lead pending queue) (\<lambda>retained.
     gseq (gwhen (\<not> any_active \<and> retained = []) (clear_omm_group dry_run gl (Some lead) None)) (gret merges))))"

definition lead_sha_of :: "gl_item \<Rightarrow> string option" where
  "lead_sha_of lead = (case truthy_str (id_merge_commit_sha (it_data lead)) of
     Some s \<Rightarrow> Some s | None \<Rightarrow> truthy_str (id_squash_commit_sha (it_data lead)))"

definition process_omm_group ::
  "bool \<Rightarrow> 'w gitlab \<Rightarrow> gl_item \<Rightarrow> int \<Rightarrow> int option \<Rightarrow> nat \<Rightarrow> queue_item list \<Rightarrow> ('w, nat) action" where
  "process_omm_group dry_run gl lead max_minutes pipeline_timeout merge_limit queue =
     gbind (is_omm_window_open gl lead max_minutes) (\<lambda>window_open.
     if \<not> window_open then gseq (clear_omm_group dry_run gl (Some lead) None) (gret 0)
     else gbind (check_post_merge_ci gl lead) (\<lambda>ci_ok.
     if \<not> ci_ok then gseq (clear_omm_group dry_run gl (Some lead) None) (gret 0)
     else case lead_sha_of lead of
       None \<Rightarrow> gret 0
     | Some lead_sha \<Rightarrow>
     gbind (check_target_branch_integrity gl lead lead_sha) (\<lambda>intact.
     if \<not> intact then gseq (clear_omm_group dry_run gl (Some lead) None) (gret 0)
     else gbind (get_omm_pending_mrs gl) (\<lambda>pending.
     if pending = [] then gseq (clear_omm_group dry_run gl (Some lead) (Some pending)) (gret 0)
     else process_pending dry_run gl lead pipeline_timeout merge_limit queue pending))))"

end
