(* ===== verification/Glh_Merge.thy ===== *)
theory Glh_Merge
  imports Glh_Omm
begin

text \<open>
  Merging and rebasing of the GitLab housekeeping (\<open>reconcile/gitlab_housekeeping.py\<close>): the serial merge loop with
  the forming of a group, one attempt of \<open>merge_merge_requests\<close>, the two rebase strategies, the check of error labels
  and the housekeeping of one repository. The decorator that retries \<open>merge_merge_requests\<close> belongs to the sretoolbox
  package and is a parameter.
\<close>

section \<open>The serial merge loop\<close>

record merge_config =
  mc_dry_run :: bool
  mc_merge_limit :: nat
  mc_rebase :: bool
  mc_pipeline_timeout :: "int option"
  mc_insist :: bool
  mc_wait_for_pipeline :: bool
  mc_users_allowed :: "string list option"
  mc_must_pass :: "string list option"
  mc_multi_merge :: bool
  mc_omm_max_minutes :: int

definition pipelines_ready ::
  "merge_config \<Rightarrow> 'w gitlab \<Rightarrow> nat \<Rightarrow> gl_item \<Rightarrow> gl_pipeline list \<Rightarrow> ('w, bool) action" where
  \<comment> \<open>the checks of the pipelines; a running one raises while the run insists on the first merge\<close>
  "pipelines_ready cfg gl merges mr all_pipelines =
     (if all_pipelines = [] then gret False
      else
      gseq (cancel_timed_out_pipelines (mc_dry_run cfg) gl mr all_pipelines (mc_pipeline_timeout cfg))
      (let pipelines = without_skipped all_pipelines in
       if pipelines = [] then gret False
       else if mc_wait_for_pipeline cfg \<and> (\<exists>p \<in> set pipelines. pl_status p = PlRunning)
       then (if mc_insist cfg \<and> (merges = 0 \<or> \<not> mc_rebase cfg)
             then gseq (gset_reload True) (graise InsistOnPipelineError) else gret False)
       else gret (pl_status (hd pipelines) = PlSuccess)))"

definition ready_to_merge ::
  "merge_config \<Rightarrow> 'w gitlab \<Rightarrow> nat \<Rightarrow> queue_item \<Rightarrow> ('w, bool) action" where
  \<comment> \<open>the checks of one entry of the queue before it is merged\<close>
  "ready_to_merge cfg gl merges item =
     (if qi_error item then gret False
      else
      gbind (if mc_rebase cfg then is_rebased gl (qi_mr item) else gret True) (\<lambda>rebased.
      if \<not> rebased then gret False
      else gbind (get_merge_request_pipelines gl (qi_mr item)) (pipelines_ready cfg gl merges (qi_mr item))))"

definition try_merge :: "bool \<Rightarrow> 'w gitlab \<Rightarrow> gl_item \<Rightarrow> ('w, bool) action" where
  "try_merge dry_run gl mr =
     (if dry_run then gret True
      else gtry (merge_call gl mr) (\<lambda>r.
        case r of
          Inr _ \<Rightarrow> gret True
        | Inl MRClosedError \<Rightarrow> gseq (add_label_to_merge_request gl mr MERGE_ERROR) (gret False)
        | Inl e \<Rightarrow> graise e))"

definition start_group ::
  "merge_config \<Rightarrow> 'w gitlab \<Rightarrow> queue_item list \<Rightarrow> string list \<Rightarrow> gl_item \<Rightarrow> ('w, unit) action" where
  \<comment> \<open>after the first merge: the merged request leads a group of the entries that do not overlap\<close>
  "start_group cfg gl queue merged_labels mr =
     gbind (labels_of mr) (\<lambda>labels.
     if mc_multi_merge cfg \<and> is_eligible_for_optimistic_merge labels
     then gbind (form_omm_group gl queue merged_labels) (\<lambda>candidates.
       gwhen (candidates \<noteq> [])
         (gseq (apply_omm_group_lead (mc_dry_run cfg) gl mr)
         (gseq (apply_omm_pending (mc_dry_run cfg) gl candidates) (gret ()))))
     else gret ())"

fun serial_merges ::
  "merge_config \<Rightarrow> 'w gitlab \<Rightarrow> queue_item list \<Rightarrow> nat \<Rightarrow> string list \<Rightarrow> queue_item list \<Rightarrow> ('w, nat) action" where
  \<comment> \<open>the loop over the rest of the queue with its local variables \<open>merges\<close> and \<open>merged_labels\<close>\<close>
  "serial_merges cfg gl queue merges merged_labels [] = gret merges"
| "serial_merges cfg gl queue merges merged_labels (item # items) =
     gbind (ready_to_merge cfg gl merges item) (\<lambda>ready.
     if \<not> ready \<or> mc_merge_limit cfg \<le> merges then serial_merges cfg gl queue merges merged_labels items
     else
     gbind (try_merge (mc_dry_run cfg) gl (qi_mr item)) (\<lambda>merged.
     if \<not> merged then serial_merges cfg gl queue merges merged_labels items
     else
     gbind (labels_of (qi_mr item)) (\<lambda>labels.
     let merged_labels' = merged_labels @ get_tenant_labels labels
     in if mc_rebase cfg \<and> merges + 1 = 1
        then gseq (start_group cfg gl queue merged_labels' (qi_mr item)) (gret (merges + 1))
        else serial_merges cfg gl queue (merges + 1) merged_labels' items)))"

definition merge_queue :: "merge_config \<Rightarrow> 'w gitlab \<Rightarrow> queue_item list \<Rightarrow> ('w, nat) action" where
  \<comment> \<open>after the preprocessing: the number of merges of this attempt\<close>
  "merge_queue cfg gl queue =
     (if \<not> mc_rebase cfg then serial_merges cfg gl queue 0 [] queue
      else
      gbind (get_omm_group_lead gl) (\<lambda>lead.
      if \<not> mc_multi_merge cfg
      then gseq (case lead of None \<Rightarrow> gret () | Some l \<Rightarrow> clear_omm_group (mc_dry_run cfg) gl (Some l) None)
           (serial_merges cfg gl queue 0 [] queue)
      else case lead of
        Some l \<Rightarrow> process_omm_group (mc_dry_run cfg) gl l (mc_omm_max_minutes cfg) (mc_pipeline_timeout cfg)
                    (mc_merge_limit cfg) queue
      | None \<Rightarrow> gbind (get_omm_pending_mrs gl) (\<lambda>pending.
          gseq (gwhen (pending \<noteq> []) (clear_omm_group (mc_dry_run cfg) gl None (Some pending)))
          (serial_merges cfg gl queue 0 [] queue))))"

definition merge_preprocess_config :: "merge_config \<Rightarrow> preprocess_config" where
  "merge_preprocess_config cfg = \<lparr>pc_dry_run = mc_dry_run cfg, pc_users_allowed = mc_users_allowed cfg,
     pc_must_pass = mc_must_pass cfg, pc_skip_unmergeable = True\<rparr>"

definition merge_merge_requests :: "merge_config \<Rightarrow> 'w gitlab \<Rightarrow> gl_item list \<Rightarrow> ('w, unit) action" where
  \<comment> \<open>one attempt, without the decorator\<close>
  "merge_merge_requests cfg gl project_merge_requests =
     gbind (gread rn_reload) (\<lambda>reload.
     gbind (if reload then get_opened_merge_requests gl else gret project_merge_requests) (\<lambda>mrs.
     gbind (preprocess_merge_requests (merge_preprocess_config cfg) gl mrs) (\<lambda>queue.
     gseq (merge_queue cfg gl queue) (gret ()))))"

section \<open>Rebasing\<close>

datatype rebase_strategy = ActiveCap | ActiveCapMultiMerge | OldBurst

definition get_rebase_strategy :: "string \<Rightarrow> rebase_strategy" where
  "get_rebase_strategy variant =
     (if variant = ''active-cap'' then ActiveCap
      else if variant = ''active-cap-multi-merge'' then ActiveCapMultiMerge
      else OldBurst)"

definition get_omm_max_interval :: "int option \<Rightarrow> int" where
  \<comment> \<open>the minutes of the feature variant, \<open>None\<close> when its text is not an integer\<close>
  "get_omm_max_interval variant = (case variant of None \<Rightarrow> 5 | Some minutes \<Rightarrow> minutes)"

record rebase_config =
  rb_dry_run :: bool
  rb_limit :: nat
  rb_pipeline_timeout :: "int option"
  rb_wait_for_pipeline :: bool
  rb_users_allowed :: "string list option"

definition try_rebase :: "bool \<Rightarrow> 'w gitlab \<Rightarrow> gl_item \<Rightarrow> ('w, bool) action" where
  "try_rebase dry_run gl mr =
     (if dry_run then gret True
      else gtry (rebase_call gl mr False) (\<lambda>r.
        case r of Inr _ \<Rightarrow> gret True | Inl MRRebaseError \<Rightarrow> gret False | Inl e \<Rightarrow> graise e))"

definition rebase_queue :: "rebase_config \<Rightarrow> 'w gitlab \<Rightarrow> ('w, gl_item list) action" where
  "rebase_queue cfg gl =
     gbind (get_merge_requests (rb_dry_run cfg) gl (rb_users_allowed cfg) False)
       (\<lambda>items. gret (map qi_mr (filter (\<lambda>i. \<not> qi_error i) items)))"

definition classify_step ::
  "rebase_config \<Rightarrow> 'w gitlab \<Rightarrow> nat \<times> gl_item list \<Rightarrow> gl_item \<Rightarrow> ('w, nat \<times> gl_item list) action" where
  "classify_step cfg gl acc mr =
     gbind (get_merge_request_pipelines gl mr) (\<lambda>all_pipelines.
     let pipelines = without_skipped all_pipelines in
     gbind (get_merge_request gl (it_iid mr)) (\<lambda>fresh_mr.
     gbind (is_rebased gl fresh_mr) (\<lambda>rebased.
     if rebased then gret (if active_pipeline pipelines then (fst acc + 1, snd acc) else acc)
     else gbind (labels_of mr) (\<lambda>labels.
       if OMM_PENDING \<in> set labels then gret acc
       else gseq (cancel_timed_out_pipelines (rb_dry_run cfg) gl mr pipelines (rb_pipeline_timeout cfg))
         (gret (if should_skip_for_running_pipeline pipelines (rb_wait_for_pipeline cfg) then acc
                else (fst acc, snd acc @ [mr])))))))"

fun rebase_up_to :: "bool \<Rightarrow> 'w gitlab \<Rightarrow> nat \<Rightarrow> nat \<Rightarrow> gl_item list \<Rightarrow> ('w, nat) action" where
  \<comment> \<open>rebases until the budget is used up\<close>
  "rebase_up_to dry_run gl budget rebases [] = gret rebases"
| "rebase_up_to dry_run gl budget rebases (mr # mrs) =
     (if rebases < budget
      then gbind (try_rebase dry_run gl mr) (\<lambda>ok.
        rebase_up_to dry_run gl budget (if ok then rebases + 1 else rebases) mrs)
      else gret rebases)"

definition rebase_active_cap :: "rebase_config \<Rightarrow> 'w gitlab \<Rightarrow> ('w, unit) action" where
  "rebase_active_cap cfg gl =
     gbind (rebase_queue cfg gl) (\<lambda>mrs.
     gbind (gfold (classify_step cfg gl) (0, []) mrs) (\<lambda>(already_active, needs_rebase).
     gseq (rebase_up_to (rb_dry_run cfg) gl (rb_limit cfg - already_active) 0 needs_rebase) (gret ())))"

definition burst_step :: "rebase_config \<Rightarrow> 'w gitlab \<Rightarrow> nat \<Rightarrow> gl_item \<Rightarrow> ('w, nat) action" where
  "burst_step cfg gl rebases mr =
     gbind (get_merge_request gl (it_iid mr)) (\<lambda>fresh_mr.
     gbind (is_rebased gl fresh_mr) (\<lambda>rebased.
     if rebased then gret rebases
     else gbind (get_merge_request_pipelines gl mr) (\<lambda>pipelines.
       gseq (cancel_timed_out_pipelines (rb_dry_run cfg) gl mr pipelines (rb_pipeline_timeout cfg))
       (if should_skip_for_running_pipeline pipelines (rb_wait_for_pipeline cfg) then gret rebases
        else if rebases < rb_limit cfg
        then gbind (try_rebase (rb_dry_run cfg) gl mr) (\<lambda>ok. gret (if ok then rebases + 1 else rebases))
        else gret rebases))))"

definition rebase_old_burst :: "rebase_config \<Rightarrow> 'w gitlab \<Rightarrow> ('w, unit) action" where
  "rebase_old_burst cfg gl =
     gbind (rebase_queue cfg gl) (\<lambda>mrs. gseq (gfold (burst_step cfg gl) 0 mrs) (gret ()))"

definition rebase_merge_requests :: "rebase_strategy \<Rightarrow> rebase_config \<Rightarrow> 'w gitlab \<Rightarrow> ('w, unit) action" where
  "rebase_merge_requests strategy cfg gl =
     (case strategy of
        ActiveCap \<Rightarrow> rebase_active_cap cfg gl
      | ActiveCapMultiMerge \<Rightarrow> rebase_active_cap cfg gl
      | OldBurst \<Rightarrow> rebase_old_burst cfg gl)"

end
