(* ===== verification/Glh_Health.thy ===== *)
theory Glh_Health
  imports Glh_Merge
begin

text \<open>
  The check of the error labels and the housekeeping of one repository
  (\<open>reconcile/gitlab_housekeeping.py\<close>).
\<close>

section \<open>Error labels\<close>

fun is_infix :: "string \<Rightarrow> string \<Rightarrow> bool" where
  "is_infix needle [] \<longleftrightarrow> needle = []"
| "is_infix needle (c # cs) \<longleftrightarrow> prefix needle (c # cs) \<or> is_infix needle cs"

definition rebase_failure_text :: string where "rebase_failure_text = ''Rebase failed''"

definition rebase_failed_answer :: "bool \<Rightarrow> gl_exc + gl_item \<Rightarrow> gl_exc + bool" where
  \<comment> \<open>a failed call keeps the label as it is, any other exception is not handled\<close>
  "rebase_failed_answer has_rebase_error r =
     (case r of
        Inl (GetError c) \<Rightarrow> Inr has_rebase_error
      | Inl e \<Rightarrow> Inl e
      | Inr fresh \<Rightarrow> Inr (case id_merge_error (it_data fresh) of
          None \<Rightarrow> False | Some msg \<Rightarrow> is_infix rebase_failure_text msg))"

definition toggle_label :: "bool \<Rightarrow> 'w gitlab \<Rightarrow> gl_item \<Rightarrow> string \<Rightarrow> bool \<Rightarrow> bool \<Rightarrow> ('w, unit) action" where
  \<comment> \<open>add the label when it is wanted and absent, remove it when it is present and not wanted\<close>
  "toggle_label dry_run gl mr label wanted present =
     (if wanted \<and> \<not> present then gwhen (\<not> dry_run) (add_label_to_merge_request gl mr label)
      else if \<not> wanted \<and> present then gwhen (\<not> dry_run) (remove_label gl mr label)
      else gret ())"

definition terminal_pipelines :: "gl_pipeline list \<Rightarrow> gl_pipeline list" where
  "terminal_pipelines ps = filter (\<lambda>p. pl_status p \<in> {PlSuccess, PlFailed, PlCanceled, PlSkipped}) ps"

definition merge_error_added_at :: "label_event list \<Rightarrow> int option" where
  "merge_error_added_at evs = map_option le_created_at
     (List.find (\<lambda>ev. le_action ev = ''add'' \<and> le_label ev = Some MERGE_ERROR) (rev evs))"

definition check_merge_error :: "bool \<Rightarrow> 'w gitlab \<Rightarrow> gl_item \<Rightarrow> ('w, unit) action" where
  "check_merge_error dry_run gl mr =
     gbind (get_merge_request_label_events gl mr) (\<lambda>evs.
     case merge_error_added_at evs of
       None \<Rightarrow> gret ()
     | Some added \<Rightarrow> gbind (gcall (sv_latest_notes gl (it_iid mr))) (\<lambda>notes.
         if (\<exists>n \<in> set notes. added < nt_created_at n) then gwhen (\<not> dry_run) (remove_label gl mr MERGE_ERROR)
         else gret ()))"

definition check_pipeline_error ::
  "bool \<Rightarrow> 'w gitlab \<Rightarrow> nat \<Rightarrow> gl_item \<Rightarrow> string list \<Rightarrow> ('w, unit) action" where
  "check_pipeline_error dry_run gl limit mr labels =
     gbind (get_merge_request_pipelines gl mr) (\<lambda>pipelines.
     if terminal_pipelines pipelines = [] then gret ()
     else
     gseq (toggle_label dry_run gl mr PIPELINE_ERROR
             (\<not> check_pipeline_health (terminal_pipelines pipelines) limit) (PIPELINE_ERROR \<in> set labels))
     (if MERGE_ERROR \<in> set labels then check_merge_error dry_run gl mr else gret ()))"

definition error_healthcheck_mr :: "bool \<Rightarrow> 'w gitlab \<Rightarrow> nat \<Rightarrow> gl_item \<Rightarrow> ('w, unit) action" where
  "error_healthcheck_mr dry_run gl limit mr =
     (if id_draft (it_data mr) then gret ()
      else
      gbind (labels_of mr) (\<lambda>labels.
      if \<not> is_good_to_merge labels then gret ()
      else
      let has_rebase_error = (REBASE_ERROR \<in> set labels) in
      gtry (get_merge_request gl (it_iid mr)) (\<lambda>r.
      case rebase_failed_answer has_rebase_error r of
        Inl e \<Rightarrow> graise e
      | Inr rebase_failed \<Rightarrow>
          gseq (toggle_label dry_run gl mr REBASE_ERROR rebase_failed has_rebase_error)
          (if rebase_failed \<and> \<not> has_rebase_error then gret ()
           else check_pipeline_error dry_run gl limit mr labels))))"

definition run_error_healthcheck :: "bool \<Rightarrow> 'w gitlab \<Rightarrow> nat \<Rightarrow> gl_item list \<Rightarrow> ('w, unit) action" where
  "run_error_healthcheck dry_run gl limit mrs = gfor mrs (error_healthcheck_mr dry_run gl limit)"

section \<open>The housekeeping of one repository\<close>

record housekeeping =
  \<comment> \<open>the settings of the repository, absent ones as \<open>None\<close>\<close>
  hk_days_interval :: "int option"
  hk_enable_closing :: "bool option"
  hk_rebase_limit :: "nat option"
  hk_merge_limit :: "nat option"
  hk_consecutive_failure_limit :: "nat option"
  hk_pipeline_timeout :: "int option"
  hk_multi_merge :: bool
  hk_users_allowed :: "string list option"
  hk_rebase :: bool
  hk_must_pass :: "string list option"

definition or_number :: "'a::zero option \<Rightarrow> 'a \<Rightarrow> 'a" where
  \<comment> \<open>\<open>x or default\<close> of a number: zero is falsy\<close>
  "or_number x d = (case x of None \<Rightarrow> d | Some v \<Rightarrow> if v = 0 then d else v)"

definition rebase_limit_of :: "housekeeping \<Rightarrow> nat" where
  "rebase_limit_of hk = or_number (hk_rebase_limit hk) 8"

definition merge_limit_of :: "housekeeping \<Rightarrow> nat" where
  "merge_limit_of hk = or_number (hk_merge_limit hk) (rebase_limit_of hk)"

definition merge_config_of ::
  "bool \<Rightarrow> bool \<Rightarrow> rebase_strategy \<Rightarrow> int \<Rightarrow> housekeeping \<Rightarrow> bool \<Rightarrow> merge_config" where
  "merge_config_of dry_run wait_for_pipeline strategy max_minutes hk insist =
     \<lparr>mc_dry_run = dry_run, mc_merge_limit = merge_limit_of hk, mc_rebase = hk_rebase hk,
      mc_pipeline_timeout = hk_pipeline_timeout hk, mc_insist = insist, mc_wait_for_pipeline = wait_for_pipeline,
      mc_users_allowed = hk_users_allowed hk, mc_must_pass = hk_must_pass hk,
      mc_multi_merge = (strategy = ActiveCapMultiMerge \<and> hk_multi_merge hk), mc_omm_max_minutes = max_minutes\<rparr>"

definition rebase_config_of :: "bool \<Rightarrow> bool \<Rightarrow> housekeeping \<Rightarrow> rebase_config" where
  "rebase_config_of dry_run wait_for_pipeline hk =
     \<lparr>rb_dry_run = dry_run, rb_limit = rebase_limit_of hk, rb_pipeline_timeout = hk_pipeline_timeout hk,
      rb_wait_for_pipeline = wait_for_pipeline, rb_users_allowed = hk_users_allowed hk\<rparr>"

type_synonym 'w retry = "nat \<Rightarrow> ('w, unit) action \<Rightarrow> ('w, unit) action"

definition still_opened :: "gl_item list \<Rightarrow> ('w, gl_item list) action" where
  "still_opened mrs = gfold (\<lambda>acc mr. gbind (state_of mr)
     (\<lambda>st. gret (if st = MrOpened then acc @ [mr] else acc))) [] mrs"

definition merge_with_retries :: "'w retry \<Rightarrow> (bool \<Rightarrow> merge_config) \<Rightarrow> 'w gitlab \<Rightarrow> gl_item list \<Rightarrow> ('w, unit) action" where
  \<comment> \<open>the decorated function, and once more without insisting when all attempts failed\<close>
  "merge_with_retries retry cfg gl mrs =
     gseq (gset_reload False)
     (gtry (retry 10 (merge_merge_requests (cfg True) gl mrs)) (\<lambda>r.
       case r of Inr _ \<Rightarrow> gret () | Inl _ \<Rightarrow> retry 10 (merge_merge_requests (cfg False) gl mrs)))"

definition housekeep_repository ::
  "'w retry \<Rightarrow> bool \<Rightarrow> bool \<Rightarrow> rebase_strategy \<Rightarrow> int \<Rightarrow> housekeeping \<Rightarrow> 'w gitlab \<Rightarrow> ('w, unit) action" where
  \<comment> \<open>the body of the loop of \<open>run\<close> over the repositories\<close>
  "housekeep_repository retry dry_run wait_for_pipeline strategy max_minutes hk gl =
     (let days_interval = or_number (hk_days_interval hk) 15;
          enable_closing = (hk_enable_closing hk = Some True)
      in
      gbind (get_issues gl) (\<lambda>issues.
      gseq (handle_stale_items dry_run gl days_interval enable_closing issues)
      (gbind (get_opened_merge_requests gl) (\<lambda>opened.
      gseq (handle_stale_items dry_run gl days_interval enable_closing opened)
      (gbind (still_opened opened) (\<lambda>mrs.
      gseq (gtry (run_error_healthcheck dry_run gl (or_number (hk_consecutive_failure_limit hk) 3) mrs) (\<lambda>_. gret ()))
      (gseq (merge_with_retries retry (merge_config_of dry_run wait_for_pipeline strategy max_minutes hk) gl mrs)
      (gwhen (hk_rebase hk) (rebase_merge_requests strategy (rebase_config_of dry_run wait_for_pipeline hk) gl)))))))))"

end
