(* ===== verification/Glh_Laws.thy ===== *)
theory Glh_Laws
  imports Glh_Health
begin

text \<open>
  Reasoning about the actions of the GitLab housekeeping: Hoare triples for actions that may raise, the trace of a
  run, and the evidence a merge or a rebase needs in the trace before it. The locale of trace invariants states what
  a predicate on traces has to satisfy; inside it every operation of the housekeeping is shown to preserve it.
\<close>

section \<open>Triples\<close>

definition triple ::
  "('w gl_run \<Rightarrow> bool) \<Rightarrow> ('w, 'a) action \<Rightarrow> ('a \<Rightarrow> 'w gl_run \<Rightarrow> bool) \<Rightarrow> ('w gl_run \<Rightarrow> bool) \<Rightarrow> bool" where
  \<comment> \<open>precondition, action, postcondition of a value, postcondition of an exception\<close>
  "triple P m Q R \<longleftrightarrow> (\<forall>s. P s \<longrightarrow> (case m s of (Inr x, s') \<Rightarrow> Q x s' | (Inl e, s') \<Rightarrow> R s'))"

named_theorems triples \<open>introduction rules for triples\<close>

lemma tripleD_value: "triple P m Q R \<Longrightarrow> P s \<Longrightarrow> m s = (Inr x, s') \<Longrightarrow> Q x s'"
  by (force simp: triple_def)

lemma tripleD_raise: "triple P m Q R \<Longrightarrow> P s \<Longrightarrow> m s = (Inl e, s') \<Longrightarrow> R s'"
  by (force simp: triple_def)

lemma tripleI:
  assumes "\<And>s x s'. P s \<Longrightarrow> m s = (Inr x, s') \<Longrightarrow> Q x s'" "\<And>s e s'. P s \<Longrightarrow> m s = (Inl e, s') \<Longrightarrow> R s'"
  shows "triple P m Q R"
  unfolding triple_def
proof (intro allI impI)
  fix s assume s: "P s"
  show "case m s of (Inr x, s') \<Rightarrow> Q x s' | (Inl e, s') \<Rightarrow> R s'"
    by (cases "m s"; cases "fst (m s)") (auto intro: assms [OF s])
qed

lemma triple_conseq:
  assumes "triple P' m Q' R'" "\<And>s. P s \<Longrightarrow> P' s" "\<And>x s. Q' x s \<Longrightarrow> Q x s" "\<And>s. R' s \<Longrightarrow> R s"
  shows "triple P m Q R"
  using assms(2-4) tripleD_value [OF assms(1)] tripleD_raise [OF assms(1)] by (intro tripleI) blast+

lemma triple_gret: "(\<And>s. P s \<Longrightarrow> Q x s) \<Longrightarrow> triple P (gret x) Q R"
  by (simp add: triple_def gret_def)

lemma triple_graise: "(\<And>s. P s \<Longrightarrow> R s) \<Longrightarrow> triple P (graise e) Q R"
  by (simp add: triple_def graise_def)

lemma triple_gbind:
  "triple P m Q R \<Longrightarrow> (\<And>x. triple (Q x) (f x) S R) \<Longrightarrow> triple P (gbind m f) S R"
  by (fastforce simp: triple_def gbind_def split: prod.splits sum.splits)

lemma triple_gseq: "triple P m (\<lambda>_. Q) R \<Longrightarrow> triple Q n S R \<Longrightarrow> triple P (gseq m n) S R"
  unfolding gseq_def by (rule triple_gbind)

lemma triple_gtry:
  assumes "triple P m (\<lambda>x. Q (Inr x)) (\<lambda>s. \<forall>e. Q (Inl e) s)" "\<And>r. triple (Q r) (f r) S R"
  shows "triple P (gtry m f) S R"
  unfolding triple_def gtry_def
proof (intro allI impI)
  fix s assume s: "P s"
  obtain r s1 where m: "m s = (r, s1)" by force
  have "Q r s1"
    using assms(1) s m by (cases r) (force simp: triple_def)+
  then show "case (case m s of (r, x) \<Rightarrow> f r x) of (Inr x, s') \<Rightarrow> S x s' | (Inl e, s') \<Rightarrow> R s'"
    using assms(2) [of r] by (simp add: m triple_def)
qed

lemma triple_try_cases:
  assumes "triple P m (\<lambda>x. A x) B" "\<And>x. triple (A x) (f (Inr x)) S R" "\<And>e. triple B (f (Inl e)) S R"
  shows "triple P (gtry m f) S R"
proof (rule triple_gtry [where Q = "case_sum (\<lambda>_. B) A"])
  show "triple P m (\<lambda>x. case_sum (\<lambda>_. B) A (Inr x)) (\<lambda>s. \<forall>e. case_sum (\<lambda>_. B) A (Inl e) s)"
    using assms(1) by simp
  show "triple (case_sum (\<lambda>_. B) A r) (f r) S R" for r
    using assms(2,3) by (cases r) auto
qed

lemma triple_gwhen:
  "(b \<Longrightarrow> triple P m (\<lambda>_. Q) R) \<Longrightarrow> (\<And>s. P s \<Longrightarrow> \<not> b \<Longrightarrow> Q s) \<Longrightarrow> triple P (gwhen b m) (\<lambda>_. Q) R"
  by (auto simp: gwhen_def intro: triple_gret)

lemma triple_pure: "(C \<Longrightarrow> triple P m Q R) \<Longrightarrow> triple (\<lambda>s. P s \<and> C) m Q R"
  by (auto simp: triple_def)

lemma triple_gfold:
  assumes "\<And>acc x. x \<in> set xs \<Longrightarrow> triple (J acc) (f acc x) J R"
  shows "triple (J acc) (gfold f acc xs) J R"
  using assms
proof (induction xs arbitrary: acc)
  case Nil
  then show ?case by (simp add: triple_gret)
next
  case (Cons x xs)
  have first: "triple (J acc) (f acc x) J R" by (rule Cons.prems) simp
  have rest: "triple (J a) (gfold f a xs) J R" for a
    by (rule Cons.IH) (auto intro: Cons.prems)
  show ?case
    unfolding gfold.simps by (rule triple_gbind [OF first rest])
qed

lemma triple_gfor:
  "(\<And>x. x \<in> set xs \<Longrightarrow> triple P (f x) (\<lambda>_. P) R) \<Longrightarrow> triple P (gfor xs f) (\<lambda>_. P) R"
  unfolding gfor_def by (rule triple_gfold [where J = "\<lambda>_. P"])

section \<open>Traces\<close>

definition is_write :: "gl_event \<Rightarrow> bool" where
  "is_write ev = (case ev of
     LabelsChanged _ _ _ \<Rightarrow> True | MergeTried _ _ _ \<Rightarrow> True | RebaseTried _ _ _ \<Rightarrow> True
   | PipelineCancelled _ _ _ \<Rightarrow> True | NoteAdded _ _ _ \<Rightarrow> True | NoteDeleted _ _ \<Rightarrow> True | ItemClosed _ _ \<Rightarrow> True
   | TestsStored _ _ \<Rightarrow> True | _ \<Rightarrow> False)"

definition changes_queue :: "gl_event \<Rightarrow> bool" where
  \<comment> \<open>the writes after which an earlier look at a merge request is out of date\<close>
  "changes_queue ev = (case ev of
     LabelsChanged _ _ _ \<Rightarrow> True | MergeTried _ _ _ \<Rightarrow> True | RebaseTried _ _ _ \<Rightarrow> True | ItemClosed _ _ \<Rightarrow> True
   | _ \<Rightarrow> False)"

definition recent :: "gl_event list \<Rightarrow> gl_event list" where
  \<comment> \<open>the events since the last write to the queue\<close>
  "recent tr = takeWhile (\<lambda>ev. \<not> changes_queue ev) (rev tr)"

definition labels_known :: "gl_event set \<Rightarrow> item_kind \<Rightarrow> int \<Rightarrow> string list \<Rightarrow> bool" where
  \<comment> \<open>labels the service answered for the item, or that the run itself gave it\<close>
  "labels_known E k i ls \<longleftrightarrow> LabelsRead k i ls \<in> E \<or> LabelsChanged k i ls \<in> E"

definition unblocked :: "string list \<Rightarrow> bool" where
  "unblocked ls \<longleftrightarrow> set ls \<inter> set HOLD_LABELS = {} \<and> set ls \<inter> set ERROR_LABELS = {}"

definition first_success :: "gl_pipeline list \<Rightarrow> bool" where
  "first_success ps \<longleftrightarrow> ps \<noteq> [] \<and> pl_status (hd ps) = PlSuccess"

definition listed_pending :: "gl_event set \<Rightarrow> int \<Rightarrow> bool" where
  "listed_pending E i \<longleftrightarrow> (\<exists>is. Listed (pending_query MrOpened) is \<in> E \<and> i \<in> set is)"

definition merge_evidence :: "bool \<Rightarrow> gl_event list \<Rightarrow> int \<Rightarrow> bool" where
  "merge_evidence rb tr i \<longleftrightarrow> (\<exists>ls ps. labels_known (set tr) KMergeRequest i ls \<and> unblocked ls \<and>
     PipelinesRead i ps \<in> set (recent tr) \<and> (rb \<longrightarrow> RebaseChecked i True \<in> set (recent tr)) \<and>
     (is_good_to_merge ls \<and> first_success (without_skipped ps) \<or>
      rb \<and> listed_pending (set tr) i \<and> first_success (ci_signal ps)))"

definition rebase_evidence :: "gl_event list \<Rightarrow> int \<Rightarrow> bool \<Rightarrow> bool" where
  "rebase_evidence tr i skip_ci \<longleftrightarrow> (\<exists>ls. labels_known (set tr) KMergeRequest i ls \<and> unblocked ls \<and>
     (is_good_to_merge ls \<or> skip_ci \<and> listed_pending (set tr) i) \<and> (skip_ci \<or> RebaseChecked i False \<in> set tr))"

definition evidence :: "bool \<Rightarrow> gl_event list \<Rightarrow> gl_event \<Rightarrow> bool" where
  "evidence rb tr ev = (case ev of
     MergeTried i _ _ \<Rightarrow> merge_evidence rb tr i | RebaseTried i skip _ \<Rightarrow> rebase_evidence tr i skip | _ \<Rightarrow> True)"

definition objects_known :: "'w gl_run \<Rightarrow> bool" where
  "objects_known s \<longleftrightarrow> (\<forall>k i a oa. rn_objects s (k, i, a) = Some oa \<longrightarrow> labels_known (set (rn_trace s)) k i (oa_labels oa))"

definition inv_of ::
  "(gl_event list \<Rightarrow> bool) \<Rightarrow> gl_event set \<Rightarrow> gl_event set \<Rightarrow> 'w gl_run \<Rightarrow> bool" where
  \<comment> \<open>the invariant together with events that happened and events since the last write to the queue\<close>
  "inv_of I E F s \<longleftrightarrow> I (rn_trace s) \<and> objects_known s \<and> E \<subseteq> set (rn_trace s) \<and> F \<subseteq> set (recent (rn_trace s))"

lemma labels_known_mono: "labels_known E k i ls \<Longrightarrow> E \<subseteq> E' \<Longrightarrow> labels_known E' k i ls"
  by (auto simp: labels_known_def)

lemma listed_pending_mono: "listed_pending E i \<Longrightarrow> E \<subseteq> E' \<Longrightarrow> listed_pending E' i"
  by (auto simp: listed_pending_def)

lemma recent_snoc: "recent (tr @ [ev]) = (if changes_queue ev then [] else ev # recent tr)"
  by (simp add: recent_def)

lemma set_recent: "set (recent tr) \<subseteq> set tr"
  unfolding recent_def by (auto dest: set_takeWhileD)

lemma objects_known_emit:
  "objects_known s \<Longrightarrow> objects_known (s\<lparr>rn_trace := rn_trace s @ [ev]\<rparr>)"
  by (auto simp: objects_known_def labels_known_def)

section \<open>Trace invariants\<close>

locale trace_invariant =
  fixes I :: "gl_event list \<Rightarrow> bool" and dry :: bool and rb :: bool and ok :: "gl_event \<Rightarrow> bool"
  assumes emit: "I tr \<Longrightarrow> (is_write ev \<Longrightarrow> \<not> dry) \<Longrightarrow> ok ev \<Longrightarrow> evidence rb tr ev \<Longrightarrow> I (tr @ [ev])"
    and ok_plain: "(\<And>i sq b. ev \<noteq> MergeTried i sq b) \<Longrightarrow> (\<And>i sk b. ev \<noteq> RebaseTried i sk b) \<Longrightarrow> ok ev"
begin

abbreviation merges_ok :: bool where "merges_ok \<equiv> (\<forall>i sq b. ok (MergeTried i sq b))"

abbreviation rebases_ok :: bool where "rebases_ok \<equiv> (\<forall>i sk b. ok (RebaseTried i sk b))"

abbreviation inv :: "gl_event set \<Rightarrow> gl_event set \<Rightarrow> 'w gl_run \<Rightarrow> bool" where
  "inv \<equiv> inv_of I"

abbreviation base :: "'w gl_run \<Rightarrow> bool" where
  "base \<equiv> inv_of I {} {}"

lemma inv_weaken: "inv E F s \<Longrightarrow> E' \<subseteq> E \<Longrightarrow> F' \<subseteq> F \<Longrightarrow> inv E' F' s"
  by (auto simp: inv_of_def)

lemma inv_base: "inv E F s \<Longrightarrow> base s"
  by (rule inv_weaken) auto

lemma inv_emit:
  assumes "inv E F s" "is_write ev \<Longrightarrow> \<not> dry" "ok ev" "evidence rb (rn_trace s) ev"
  shows "inv (insert ev E) (if changes_queue ev then {} else insert ev F) (s\<lparr>rn_trace := rn_trace s @ [ev]\<rparr>)"
  using assms emit [of "rn_trace s" ev] objects_known_emit [of s ev]
  by (auto simp: inv_of_def recent_snoc)

lemma triple_emit:
  assumes "is_write ev \<Longrightarrow> \<not> dry" "ok ev" "\<And>s :: 'w gl_run. inv E F s \<Longrightarrow> evidence rb (rn_trace s) ev"
  shows "triple (inv E F :: 'w gl_run \<Rightarrow> bool) (gemit ev) (\<lambda>_. inv (insert ev E) (if changes_queue ev then {} else insert ev F)) base"
  unfolding triple_def gemit_def prod.case sum.case
  by (intro allI impI inv_emit) (use assms in auto)

lemma triple_read:
  "\<not> is_write ev \<Longrightarrow> triple (inv E F) (gemit ev) (\<lambda>_. inv (insert ev E) (insert ev F)) base"
  using triple_emit [of ev E F] ok_plain [of ev]
  by (auto simp: evidence_def is_write_def changes_queue_def split: gl_event.splits)

lemma triple_gcall: "triple (inv E F) (gcall c) (\<lambda>_. inv E F) base"
  by (auto simp: triple_def gcall_def inv_of_def objects_known_def split: prod.splits sum.splits)

lemma triple_gread: "triple (inv E F) (gread f) (\<lambda>_. inv E F) base"
  by (auto simp: triple_def gread_def)

lemma triple_attrs_of:
  "triple (inv E F) (attrs_of x)
     (\<lambda>oa s. inv E F s \<and> labels_known (set (rn_trace s)) (it_kind x) (it_iid x) (oa_labels oa)) base"
  by (auto simp: triple_def attrs_of_def inv_of_def objects_known_def object_key_def split: option.splits)

end

end
