(* ===== verification/Glh_Trace.thy ===== *)
theory Glh_Trace
  imports Glh_Laws
begin

text \<open>
  Every operation of the GitLab housekeeping preserves a trace invariant, up to the housekeeping of a repository. An
  operation that only reads also preserves what was seen since the last write to the queue.
\<close>

definition known_item :: "gl_event set \<Rightarrow> queue_item \<Rightarrow> bool" where
  \<comment> \<open>an entry was made from labels with which its merge request may be merged\<close>
  "known_item E item \<longleftrightarrow> it_kind (qi_mr item) = KMergeRequest \<and> \<not> id_draft (it_data (qi_mr item)) \<and>
     (\<exists>ls. labels_known E KMergeRequest (it_iid (qi_mr item)) ls \<and> is_good_to_merge ls \<and>
        qi_error item = (set ls \<inter> set ERROR_LABELS \<noteq> {}) \<and>
        qi_label_priority item = Min (set (label_priorities ls)))"

definition known_queue :: "gl_event set \<Rightarrow> queue_item list \<Rightarrow> bool" where
  "known_queue E items \<longleftrightarrow> (\<forall>item \<in> set items. known_item E item)"

definition merge_requests_only :: "gl_item list \<Rightarrow> bool" where
  "merge_requests_only xs \<longleftrightarrow> (\<forall>x \<in> set xs. it_kind x = KMergeRequest)"

lemma known_item_mono: "known_item E item \<Longrightarrow> E \<subseteq> E' \<Longrightarrow> known_item E' item"
  unfolding known_item_def by (blast intro: labels_known_mono)

lemma known_item_unblocked:
  assumes "known_item E item" "\<not> qi_error item"
  shows "\<exists>ls. labels_known E KMergeRequest (it_iid (qi_mr item)) ls \<and> is_good_to_merge ls \<and> unblocked ls"
  using assms by (auto simp: known_item_def unblocked_def is_good_to_merge_def)

lemma known_queue_mono: "known_queue E items \<Longrightarrow> E \<subseteq> E' \<Longrightarrow> known_queue E' items"
  unfolding known_queue_def by (blast intro: known_item_mono)

lemma triple_exE:
  assumes "\<And>y. triple (P y) m Q R"
  shows "triple (\<lambda>s. \<exists>y. P y s) m Q R"
  by (rule tripleI) (auto intro: tripleD_value [OF assms] tripleD_raise [OF assms])

context trace_invariant
begin

section \<open>Weakening\<close>

lemma weaken_pre: "triple (inv E' F') m Q R \<Longrightarrow> E' \<subseteq> E \<Longrightarrow> F' \<subseteq> F \<Longrightarrow> triple (inv E F) m Q R"
  by (erule triple_conseq) (auto intro: inv_weaken)

lemma weaken_post: "triple P m (\<lambda>_. inv E' F') R \<Longrightarrow> E \<subseteq> E' \<Longrightarrow> F \<subseteq> F' \<Longrightarrow> triple P m (\<lambda>_. inv E F) R"
  by (erule triple_conseq) (auto intro: inv_weaken)

lemma ret: "E' \<subseteq> E \<Longrightarrow> F' \<subseteq> F \<Longrightarrow> triple (inv E F) (gret x) (\<lambda>_. inv E' F') R"
  by (rule triple_gret) (rule inv_weaken)

lemma raise: "triple (inv E F) (graise e) Q base"
  by (rule triple_graise) (rule inv_base)

lemma call_then: "(\<And>x. triple (inv E F) (f x) Q base) \<Longrightarrow> triple (inv E F) (gbind (gcall c) f) Q base"
  by (rule triple_gbind [OF triple_gcall])

lemma read_then: "(\<And>x. triple (inv E F) (f x) Q base) \<Longrightarrow> triple (inv E F) (gbind (gread c) f) Q base"
  by (rule triple_gbind [OF triple_gread])

lemma bind_keep:
  "triple P m (\<lambda>_. inv E F) R \<Longrightarrow> (\<And>x. triple (inv E F) (f x) Q R) \<Longrightarrow> triple P (gbind m f) Q R"
  by (rule triple_gbind)

lemma try_call_then:
  "(\<And>r. triple (inv E F) (f r) Q base) \<Longrightarrow> triple (inv E F) (gtry (gcall c) f) Q base"
  by (rule triple_gtry [where Q = "\<lambda>_. inv E F"])
     (auto simp: triple_def gcall_def inv_of_def objects_known_def split: prod.splits sum.splits)

lemma try_then:
  assumes "triple P m (\<lambda>_. inv E F) base" "\<And>r. triple (inv E' F') (f r) Q base"
    "E' \<subseteq> E" "F' \<subseteq> F" "E' = {}" "F' = {}"
  shows "triple P (gtry m f) Q base"
proof (rule triple_gtry [where Q = "\<lambda>_. inv E' F'"])
  show "triple P m (\<lambda>_. inv E' F') (\<lambda>s. \<forall>e. inv E' F' s)"
    by (rule triple_conseq [OF assms(1)]) (use assms(3-6) in \<open>auto intro: inv_weaken\<close>)
qed (rule assms(2))

section \<open>Objects\<close>

lemma triple_labels_of:
  "triple (inv E F) (labels_of x)
     (\<lambda>ls s. \<exists>E'. inv E' F s \<and> (E \<subseteq> E' \<and> labels_known E' (it_kind x) (it_iid x) ls)) base"
  unfolding labels_of_def
proof (rule triple_gbind [OF triple_attrs_of], rule triple_gret)
  fix oa and s :: "'a gl_run"
  assume "inv E F s \<and> labels_known (set (rn_trace s)) (it_kind x) (it_iid x) (oa_labels oa)"
  then show "\<exists>E'. inv E' F s \<and> (E \<subseteq> E' \<and> labels_known E' (it_kind x) (it_iid x) (oa_labels oa))"
    by (intro exI [of _ "set (rn_trace s)"]) (auto simp: inv_of_def)
qed

lemma labels_then:
  assumes "\<And>ls E'. E \<subseteq> E' \<Longrightarrow> labels_known E' (it_kind x) (it_iid x) ls \<Longrightarrow> triple (inv E' F) (f ls) Q base"
  shows "triple (inv E F) (gbind (labels_of x) f) Q base"
  by (rule triple_gbind [OF triple_labels_of], rule triple_exE, rule triple_pure, elim conjE, rule assms)

lemma state_then: "(\<And>st. triple (inv E F) (f st) Q base) \<Longrightarrow> triple (inv E F) (gbind (state_of x) f) Q base"
  unfolding state_of_def
  by (rule triple_gbind [where Q = "\<lambda>_. inv E F"], rule triple_gbind [OF triple_attrs_of])
    (auto intro!: triple_gret)

lemma triple_set_labels:
  assumes "labels_known E (it_kind x) (it_iid x) ls"
  shows "triple (inv E F) (set_labels x ls) (\<lambda>_. inv E F) base"
  using labels_known_mono [OF assms]
  by (auto simp: triple_def set_labels_def update_object_def inv_of_def objects_known_def object_key_def)

lemma triple_set_state: "triple (inv E F) (set_state x st) (\<lambda>_. inv E F) base"
  by (auto simp: triple_def set_state_def update_object_def inv_of_def objects_known_def object_key_def
      split: if_splits)

lemma triple_answered_labels: "triple (inv E F) (answered_labels x ls) (\<lambda>_. inv E F) base"
  unfolding answered_labels_def
  by (rule triple_gseq [OF triple_read], simp add: is_write_def, rule weaken_post, rule triple_set_labels)
    (auto simp: labels_known_def)

lemma triple_new_object:
  "triple (inv E F) (new_object k d) (\<lambda>x s. inv E F s \<and> (it_kind x = k \<and> it_data x = d)) base"
proof -
  have "inv E F (s\<lparr>rn_objects := (rn_objects s)((k, id_iid d, rn_next s) \<mapsto>
                       \<lparr>oa_labels = id_labels d, oa_state = id_state d\<rparr>),
       rn_next := Suc (rn_next s), rn_trace := rn_trace s @ [LabelsRead k (id_iid d) (id_labels d)]\<rparr>)"
    if s: "inv E F s" for s
  proof -
    from s have "inv E F (s\<lparr>rn_trace := rn_trace s @ [LabelsRead k (id_iid d) (id_labels d)]\<rparr>)"
      using inv_emit [OF s, of "LabelsRead k (id_iid d) (id_labels d)"] ok_plain
      by (auto simp: is_write_def changes_queue_def evidence_def elim: inv_weaken)
    then show ?thesis
      by (auto simp: inv_of_def objects_known_def labels_known_def)
  qed
  then show ?thesis by (auto simp: triple_def new_object_def)
qed

section \<open>The methods of GitLabApi\<close>

lemma emit_plain:
  assumes "\<not> dry" "\<And>i sq ok. ev \<noteq> MergeTried i sq ok" "\<And>i sk ok. ev \<noteq> RebaseTried i sk ok"
  shows "triple (inv E F) (gemit ev) (\<lambda>_. inv (insert ev E) {}) base"
  by (rule triple_conseq [OF triple_emit])
    (use assms ok_plain [of ev] in \<open>auto simp: evidence_def split: gl_event.splits if_splits elim: inv_weaken\<close>)

lemma emit_aside:
  assumes "\<not> dry" "\<not> changes_queue ev"
  shows "triple (inv E F) (gemit ev) (\<lambda>_. inv E F) base"
  by (rule triple_conseq [OF triple_emit])
    (use assms ok_plain [of ev] in \<open>auto simp: evidence_def changes_queue_def split: gl_event.splits elim: inv_weaken\<close>)

lemma forget: "triple (inv E F) m (\<lambda>_. inv E F) base \<Longrightarrow> triple (inv E F) m (\<lambda>_. inv E {}) base"
  by (erule weaken_post) auto

lemma keep_refresh_labels: "triple (inv E F) (refresh_labels gl x) (\<lambda>_. inv E F) base"
  unfolding refresh_labels_def by (intro call_then triple_answered_labels)

lemma write_save_labels:
  assumes "\<not> dry"
  shows "triple (inv E F) (save_labels gl x ls) (\<lambda>_. inv E {}) base"
  unfolding save_labels_def
proof (rule triple_gseq, rule_tac [2] triple_gseq)
  let ?ev = "LabelsChanged (it_kind x) (it_iid x) ls"
  show "triple (inv E F) (gemit ?ev) (\<lambda>_. inv (insert ?ev E) {}) base"
    by (rule emit_plain) (use assms in auto)
  show "triple (inv (insert ?ev E) {}) (set_labels x ls) (\<lambda>_. inv E {}) base"
    by (rule weaken_post [OF triple_set_labels]) (auto simp: labels_known_def)
qed (rule call_then, rule triple_answered_labels)

lemma write_add_label:
  assumes "\<not> dry"
  shows "triple (inv E F) (add_label_to_merge_request gl mr label) (\<lambda>_. inv E {}) base"
  unfolding add_label_to_merge_request_def
  by (rule triple_gseq [OF keep_refresh_labels], rule labels_then)
    (auto intro!: ret weaken_post [OF write_save_labels [OF assms]])

lemma write_remove_label:
  assumes "\<not> dry"
  shows "triple (inv E F) (remove_label gl mr label) (\<lambda>_. inv E {}) base"
  unfolding remove_label_def
  by (rule triple_gseq [OF keep_refresh_labels], rule labels_then)
    (auto intro!: ret weaken_post [OF write_save_labels [OF assms]])

lemma write_remove_labels:
  assumes "\<not> dry"
  shows "triple (inv E F) (remove_labels gl mr labels) (\<lambda>_. inv E {}) base"
  unfolding remove_labels_def
  by (rule triple_gseq [OF keep_refresh_labels], rule labels_then)
    (auto intro!: ret weaken_post [OF write_save_labels [OF assms]])

lemma aside_add_note:
  assumes "\<not> dry"
  shows "triple (inv E F) (add_note gl x body) (\<lambda>_. inv E F) base"
  unfolding add_note_def
  by (rule triple_gseq [OF triple_gcall emit_aside]) (use assms in \<open>auto simp: changes_queue_def\<close>)

lemma write_add_label_with_note:
  assumes "\<not> dry"
  shows "triple (inv E F) (add_label_with_note gl x label) (\<lambda>_. inv E {}) base"
proof -
  have "triple (inv E' F) (gseq (gemit (LabelsChanged (it_kind x) (it_iid x) (ls @ [label])))
            (gseq (set_labels x (ls @ [label]))
            (gseq (add_note gl x (stale_note label))
            (gbind (gcall (sv_save gl (it_kind x) (it_iid x) (ls @ [label]))) (answered_labels x)))))
          (\<lambda>_. inv E {}) base" if E: "E \<subseteq> E'" for E' ls
  proof (rule triple_gseq, rule_tac [2] triple_gseq, rule_tac [3] triple_gseq)
    let ?ev = "LabelsChanged (it_kind x) (it_iid x) (ls @ [label])"
    show "triple (inv E' F) (gemit ?ev) (\<lambda>_. inv (insert ?ev E') {}) base"
      by (rule emit_plain) (use assms in auto)
    show "triple (inv (insert ?ev E') {}) (set_labels x (ls @ [label])) (\<lambda>_. inv E {}) base"
      by (rule weaken_post [OF triple_set_labels]) (use E in \<open>auto simp: labels_known_def\<close>)
  qed (rule aside_add_note [OF assms], rule call_then, rule triple_answered_labels)
  note step = this
  show ?thesis
    unfolding add_label_with_note_def
    by (rule triple_gseq [OF keep_refresh_labels], rule labels_then) (auto intro!: ret step)
qed

lemma write_close_gl_item:
  assumes "\<not> dry"
  shows "triple (inv E F) (close_gl_item gl x) (\<lambda>_. inv E {}) base"
  unfolding close_gl_item_def
  by (rule triple_gseq [OF emit_plain], use assms in auto)
    (rule call_then, rule weaken_post [OF triple_set_state], auto)

lemma aside_delete_comments:
  assumes "\<not> dry"
  shows "triple (inv E F) (delete_merge_request_comments gl mr start) (\<lambda>_. inv E F) base"
  unfolding delete_merge_request_comments_def
  by (rule call_then, rule triple_gfor, rule triple_gseq [OF triple_gcall], rule emit_aside [OF assms])
    (simp add: changes_queue_def)

lemma keep_new_objects:
  assumes "\<forall>x \<in> set acc. it_kind x = k"
  shows "triple (inv E F :: 'w gl_run \<Rightarrow> bool) (gfold (\<lambda>acc d. gbind (new_object k d) (\<lambda>x. gret (acc @ [x]))) acc ds)
     (\<lambda>xs s. inv E F s \<and> (map it_iid xs = map it_iid acc @ map id_iid ds \<and> (\<forall>x \<in> set xs. it_kind x = k))) base"
  using assms
proof (induction ds arbitrary: acc)
  case Nil
  then show ?case by (auto intro: triple_gret)
next
  case (Cons d ds)
  have first: "triple (inv E F :: 'w gl_run \<Rightarrow> bool) (gbind (new_object k d) (\<lambda>x. gret (acc @ [x])))
      (\<lambda>acc' s. \<exists>x. inv E F s \<and> (acc' = acc @ [x] \<and> it_kind x = k \<and> it_data x = d)) base"
    by (rule triple_gbind [OF triple_new_object triple_gret]) auto
  have rest: "triple (inv E F :: 'w gl_run \<Rightarrow> bool) (gfold (\<lambda>acc d. gbind (new_object k d) (\<lambda>x. gret (acc @ [x]))) (acc @ [x]) ds)
      (\<lambda>xs s. inv E F s \<and> (map it_iid xs = map it_iid acc @ map id_iid (d # ds) \<and> (\<forall>x \<in> set xs. it_kind x = k))) base"
    if "it_kind x = k" "it_data x = d" for x
    by (rule triple_conseq [OF Cons.IH]) (use that Cons.prems in \<open>auto simp: it_iid_def [abs_def]\<close>)
  show ?case
    unfolding gfold.simps
    by (rule triple_gbind [OF first], rule triple_exE, rule triple_pure, elim conjE, simp only:, rule rest)
qed

lemma keep_list_items:
  "triple (inv E F) (list_items gl q)
     (\<lambda>xs s. inv (insert (Listed q (map it_iid xs)) E) F s \<and> (\<forall>x \<in> set xs. it_kind x = qy_kind q)) base"
  unfolding list_items_def
  by (rule call_then, rule triple_gseq [OF triple_read], simp add: is_write_def,
      rule triple_conseq [OF keep_new_objects]) (auto elim: inv_weaken)

lemma list_then:
  assumes "\<And>xs. \<forall>x \<in> set xs. it_kind x = qy_kind q \<Longrightarrow>
    triple (inv (insert (Listed q (map it_iid xs)) E) F) (f xs) Q base"
  shows "triple (inv E F) (gbind (list_items gl q) f) Q base"
  by (rule triple_gbind [OF keep_list_items], rule triple_pure, rule assms)

lemma get_then:
  assumes "\<And>x. it_kind x = KMergeRequest \<Longrightarrow> it_iid x = i \<Longrightarrow> triple (inv E F) (f x) Q base"
  shows "triple (inv E F) (gbind (get_merge_request gl i) f) Q base"
proof -
  have "triple (inv E F) (get_merge_request gl i)
      (\<lambda>x s. inv E F s \<and> (it_kind x = KMergeRequest \<and> it_iid x = i)) base"
    unfolding get_merge_request_def
    by (rule call_then, rule triple_conseq [OF triple_new_object]) (auto simp: it_iid_def)
  then show ?thesis
    by (rule triple_gbind) (rule triple_pure, elim conjE, rule assms)
qed

lemma keep_get: "triple (inv E F) (get_merge_request gl i) (\<lambda>_. inv E F) base"
  unfolding get_merge_request_def
  by (rule call_then, rule triple_conseq [OF triple_new_object]) auto

lemma pipelines_then:
  assumes "\<And>ps. triple (inv (insert (PipelinesRead (it_iid mr) ps) E) (insert (PipelinesRead (it_iid mr) ps) F)) (f ps) Q base"
  shows "triple (inv E F) (gbind (get_merge_request_pipelines gl mr) f) Q base"
proof -
  have "triple (inv E F) (get_merge_request_pipelines gl mr)
     (\<lambda>ps. inv (insert (PipelinesRead (it_iid mr) ps) E) (insert (PipelinesRead (it_iid mr) ps) F)) base"
    unfolding get_merge_request_pipelines_def
    by (rule call_then, rule triple_gseq [OF triple_read], simp add: is_write_def, rule triple_gret)
  then show ?thesis by (rule triple_gbind) (rule assms)
qed

lemma keep_pipelines: "triple (inv E F) (get_merge_request_pipelines gl mr) (\<lambda>_. inv E F) base"
  unfolding get_merge_request_pipelines_def
  by (rule call_then, rule triple_gseq [OF triple_read], simp add: is_write_def, rule ret) auto

lemma triple_is_rebased:
  "triple (inv E F) (is_rebased gl mr)
     (\<lambda>b. inv (insert (RebaseChecked (it_iid mr) b) E) (insert (RebaseChecked (it_iid mr) b) F)) base"
  unfolding is_rebased_def
  by (rule call_then, rule call_then, rule triple_gseq [OF triple_read], simp add: is_write_def, rule triple_gret)

lemma rebased_then:
  assumes "\<And>b. triple (inv (insert (RebaseChecked (it_iid mr) b) E) (insert (RebaseChecked (it_iid mr) b) F)) (f b) Q base"
  shows "triple (inv E F) (gbind (is_rebased gl mr) f) Q base"
  by (rule triple_gbind [OF triple_is_rebased]) (rule assms)

section \<open>Merging and rebasing\<close>

lemma write_rebase_call:
  assumes "\<not> dry" "rebases_ok" "\<And>s :: 'w gl_run. inv E F s \<Longrightarrow> rebase_evidence (rn_trace s) (it_iid mr) skip_ci"
  shows "triple (inv E F :: 'w gl_run \<Rightarrow> bool) (rebase_call gl mr skip_ci) (\<lambda>_. inv E {}) (inv E {})"
proof -
  have emit: "triple (inv E F :: 'w gl_run \<Rightarrow> bool) (gemit (RebaseTried (it_iid mr) skip_ci ok)) (\<lambda>_. inv E {}) base" for ok
    by (rule triple_conseq [OF triple_emit])
      (use assms in \<open>auto simp: evidence_def changes_queue_def elim: inv_weaken\<close>)
  have emit': "triple (inv E F :: 'w gl_run \<Rightarrow> bool) (gemit (RebaseTried (it_iid mr) skip_ci ok)) (\<lambda>_. inv E {}) (inv E {})" for ok
    using emit by (auto simp: triple_def gemit_def)
  have call: "triple (inv E F :: 'w gl_run \<Rightarrow> bool) (gcall c) (\<lambda>_. inv E F) (inv E F)" for c
    by (auto simp: triple_def gcall_def inv_of_def objects_known_def split: prod.splits sum.splits)
  show ?thesis
    unfolding rebase_call_def
    by (rule triple_gtry [where Q = "\<lambda>_. inv E F"], rule triple_conseq [OF call], simp_all,
        rule triple_gseq [OF emit']) (auto split: sum.splits intro: triple_gret triple_graise)
qed

end

end
