(* ===== verification/Glh_Trace_Run.thy ===== *)
theory Glh_Trace_Run
  imports Glh_Trace
begin

text \<open>
  The queue, the groups and the runs of the GitLab housekeeping preserve every trace invariant: merges and rebases
  happen only with the evidence the locale asks for, and the other writes only outside a dry run.
\<close>

lemma queue_entry_known:
  assumes "labels_known E KMergeRequest (it_iid mr) ls" "is_good_to_merge ls" "it_kind mr = KMergeRequest"
    "\<not> id_draft (it_data mr)"
  shows "known_item E (queue_entry mr ls a)"
  using assms by (auto simp: known_item_def queue_entry_def Let_def intro!: exI [of _ ls])

lemma set_by_priority [simp]: "set (by_priority items) = set items"
  by (simp add: by_priority_def)

definition known_mrs :: "gl_event set \<Rightarrow> gl_item list \<Rightarrow> bool" where
  \<comment> \<open>merge requests that were seen with labels with which they may be merged\<close>
  "known_mrs E mrs \<longleftrightarrow> (\<forall>mr \<in> set mrs. it_kind mr = KMergeRequest \<and>
     (\<exists>ls. labels_known E KMergeRequest (it_iid mr) ls \<and> is_good_to_merge ls \<and> unblocked ls))"

lemma known_mrs_mono: "known_mrs E mrs \<Longrightarrow> E \<subseteq> E' \<Longrightarrow> known_mrs E' mrs"
  unfolding known_mrs_def by (blast intro: labels_known_mono)

definition pending_members :: "gl_event set \<Rightarrow> gl_item list \<Rightarrow> bool" where
  "pending_members E mrs \<longleftrightarrow> (\<forall>mr \<in> set mrs. it_kind mr = KMergeRequest \<and> listed_pending E (it_iid mr))"

lemma pending_members_mono: "pending_members E mrs \<Longrightarrow> E \<subseteq> E' \<Longrightarrow> pending_members E' mrs"
  unfolding pending_members_def by (blast intro: listed_pending_mono)

lemma triple_gemit_any: "triple P (gemit ev) Q R \<Longrightarrow> triple P (gemit ev) Q R'"
  by (auto simp: triple_def gemit_def)

context trace_invariant
begin

section \<open>The queue\<close>

lemma aside_clean_pipelines:
  assumes "dry \<longrightarrow> dry_run"
  shows "triple (inv E F) (clean_pipelines dry_run gl project ps) (\<lambda>_. inv E F) base"
proof -
  have cancel: "triple (inv E F) (cancel_pipeline gl project p) (\<lambda>_. inv E F) base" if "\<not> dry_run" for p
    unfolding cancel_pipeline_def
    by (rule try_call_then, rule triple_gseq [OF emit_aside])
      (use that assms in \<open>auto simp: changes_queue_def split: sum.splits gl_exc.splits intro: ret raise\<close>)
  show ?thesis
    unfolding clean_pipelines_def
    by (rule triple_gwhen, rule triple_gseq [OF triple_gcall], rule triple_gfor, rule cancel) auto
qed

lemma aside_cancel_timed_out:
  assumes "dry \<longrightarrow> dry_run"
  shows "triple (inv E F) (cancel_timed_out_pipelines dry_run gl mr ps t) (\<lambda>_. inv E F) base"
  unfolding cancel_timed_out_pipelines_def
  by (cases t) (auto intro!: ret read_then triple_gwhen aside_clean_pipelines assms)

lemma report_tests_keeps:
  assumes "dry \<longrightarrow> dry_run"
  shows "triple (inv E F) (report_tests dry_run gl mr commit remaining) (\<lambda>_. inv E {}) base"
proof -
  have notdry: "\<not> dry" if "\<not> dry_run" using that assms by blast
  show ?thesis
    unfolding report_tests_def Let_def
    by (rule call_then, rule triple_gwhen, rule triple_gseq [OF aside_delete_comments],
        use notdry in simp, rule triple_gseq [OF aside_add_note], use notdry in simp,
        rule triple_gseq [OF triple_gcall], rule weaken_post [OF emit_plain])
      (use notdry in \<open>auto elim: inv_weaken\<close>)
qed

lemma verify_keeps:
  assumes "dry \<longrightarrow> dry_run"
  shows "triple (inv E F) (verify_on_demand_tests dry_run mr must_pass gl) (\<lambda>_. inv E {}) base"
proof -
  have commit: "triple (inv E' F') (verify_commit dry_run mr must_pass gl commit) (\<lambda>_. inv E {}) base"
    if "E \<subseteq> E'" for E' F' commit
    unfolding verify_commit_def Let_def
    by (rule triple_gseq [OF triple_gcall], rule call_then, rule triple_gseq [OF report_tests_keeps [OF assms]])
      (use that in \<open>auto intro: ret\<close>)
  show ?thesis
    unfolding verify_on_demand_tests_def
    by (rule pipelines_then) (auto intro!: ret raise call_then commit split: list.splits)
qed

lemma tests_verified_keeps:
  assumes "dry \<longrightarrow> pc_dry_run cfg"
  shows "triple (inv E F) (tests_verified cfg gl mr) (\<lambda>_. inv E {}) base"
  unfolding tests_verified_def by (auto split: option.splits intro!: ret verify_keeps assms)

lemma queue_ret:
  assumes "known_queue E' items" "E \<subseteq> E'"
  shows "triple (inv E' F) (gret (a, items))
     (\<lambda>vars s. \<exists>E'. inv E' {} s \<and> (E \<subseteq> E' \<and> known_queue E' (snd vars))) base"
  by (rule triple_gret) (use assms in \<open>auto intro: inv_weaken\<close>)

lemma queue_by_labels_keeps:
  assumes "dry \<longrightarrow> pc_dry_run cfg" "known_queue E0 (snd vars)" "E \<subseteq> E0" "it_kind mr = KMergeRequest"
    "\<not> id_draft (it_data mr)"
  shows "triple (inv E0 F) (queue_by_labels cfg gl vars mr)
     (\<lambda>vars s. \<exists>E'. inv E' {} s \<and> (E \<subseteq> E' \<and> known_queue E' (snd vars))) base"
proof -
  have notdry: "\<not> dry" if "\<not> pc_dry_run cfg" using that assms(1) by blast
  have step: "triple (inv E' {}) (if \<not> is_good_to_merge ls then gret (approval, snd vars)
         else case approval of None \<Rightarrow> graise UnboundLocalError
              | Some a \<Rightarrow> gret (approval, snd vars @ [queue_entry mr ls a]))
      (\<lambda>vars s. \<exists>E'. inv E' {} s \<and> (E \<subseteq> E' \<and> known_queue E' (snd vars))) base"
    if E': "E0 \<subseteq> E'" "labels_known E' (it_kind mr) (it_iid mr) ls" for E' ls approval
  proof -
    have old: "known_queue E' (snd vars)" by (rule known_queue_mono [OF assms(2) E'(1)])
    have new: "known_queue E' (snd vars @ [queue_entry mr ls a])" if "is_good_to_merge ls" for a
      using old queue_entry_known [OF _ that assms(4,5)] E'(2) assms(4) by (simp add: known_queue_def ball_Un)
    show ?thesis
      using old new E'(1) assms(3) by (auto intro!: queue_ret raise split: option.splits)
  qed
  show ?thesis
    unfolding queue_by_labels_def get_merge_request_label_events_def Let_def
    by (rule call_then, rule labels_then, rule triple_gseq, rule triple_gwhen,
        rule weaken_post [OF write_remove_labels], use notdry in blast, rule order_refl, rule order_refl,
        rule inv_weaken, assumption, rule order_refl, simp, rule labels_then, rule step) auto
qed

lemma preprocess_step_keeps:
  assumes "dry \<longrightarrow> pc_dry_run cfg" "known_queue E0 (snd vars)" "E \<subseteq> E0" "it_kind mr = KMergeRequest"
  shows "triple (inv E0 F) (preprocess_merge_request cfg gl vars mr)
     (\<lambda>vars s. \<exists>E'. inv E' {} s \<and> (E \<subseteq> E' \<and> known_queue E' (snd vars))) base"
proof -
  have notdry: "\<not> dry" if "\<not> pc_dry_run cfg" using that assms(1) by blast
  have skip: "triple (inv E' F') (gret vars)
     (\<lambda>vars s. \<exists>E'. inv E' {} s \<and> (E \<subseteq> E' \<and> known_queue E' (snd vars))) base" if "E0 \<subseteq> E'" for E' F'
    using queue_ret [of E' "snd vars" E F' "fst vars"] known_queue_mono [OF assms(2) that] assms(3) that by auto
  have lgtm: "triple (inv E' F') (gseq (gwhen (\<not> pc_dry_run cfg) (remove_label gl mr LGTM)) (gret vars))
     (\<lambda>vars s. \<exists>E'. inv E' {} s \<and> (E \<subseteq> E' \<and> known_queue E' (snd vars))) base" if "E0 \<subseteq> E'" for E' F'
    by (rule triple_gseq, rule triple_gwhen, rule write_remove_label, use notdry in blast,
        rule inv_weaken, assumption, rule order_refl, simp, rule skip, rule that)
  have labels: "triple (inv E' F') (queue_by_labels cfg gl vars mr)
     (\<lambda>vars s. \<exists>E'. inv E' {} s \<and> (E \<subseteq> E' \<and> known_queue E' (snd vars))) base" if "E0 \<subseteq> E'" "\<not> id_draft (it_data mr)" for E' F'
    by (rule queue_by_labels_keeps [OF assms(1)]) (use that assms known_queue_mono [OF assms(2) that(1)] in auto)
  show ?thesis
    unfolding preprocess_merge_request_def
    by (auto intro!: skip call_then triple_gbind [OF tests_verified_keeps [OF assms(1)]] labels_then lgtm labels)
qed

lemma preprocess_keeps:
  assumes "dry \<longrightarrow> pc_dry_run cfg" "\<forall>mr \<in> set mrs. it_kind mr = KMergeRequest"
  shows "triple (inv E F) (preprocess_merge_requests cfg gl mrs)
     (\<lambda>queue s. \<exists>E'. inv E' {} s \<and> (E \<subseteq> E' \<and> known_queue E' queue)) base"
proof -
  let ?J = "\<lambda>vars s. \<exists>E'. inv E' {} s \<and> (E \<subseteq> E' \<and> known_queue E' (snd vars))"
  have "triple (?J vars) (preprocess_merge_request cfg gl vars mr) ?J base" if "mr \<in> set mrs" for vars mr
    by (rule triple_exE, rule triple_pure) (use that assms in \<open>auto intro!: preprocess_step_keeps\<close>)
  note loop = triple_gfold [where J = ?J and xs = mrs, OF this]
  show ?thesis
    unfolding preprocess_merge_requests_def
  proof (rule triple_gbind)
    show "triple (inv E F) (gfold (preprocess_merge_request cfg gl) (None, []) mrs) ?J base"
      by (rule triple_conseq [OF loop])
        (auto simp: known_queue_def elim!: inv_weaken intro!: exI [of _ E])
  qed (auto simp: known_queue_def intro!: triple_gret)
qed

section \<open>Forming and clearing a group\<close>

lemma inv_forget: "inv E F s \<Longrightarrow> inv E {} s"
  by (erule inv_weaken) auto

lemma call_sharp: "triple (inv E F) (gcall c) (\<lambda>_. inv E F) (inv E F)"
  by (auto simp: triple_def gcall_def inv_of_def objects_known_def split: prod.splits sum.splits)

lemma clear_pending_writes:
  assumes "dry \<longrightarrow> dry_run"
  shows "triple (inv E {}) (clear_pending dry_run gl mrs) (\<lambda>_. inv E {}) base"
  unfolding clear_pending_def
  by (rule triple_gfor, rule triple_gwhen, rule write_remove_label) (use assms in auto)

lemma lead_then:
  assumes "\<And>lead E'. E \<subseteq> E' \<Longrightarrow> triple (inv E' F) (f lead) Q base"
  shows "triple (inv E F) (gbind (get_omm_group_lead gl) f) Q base"
proof -
  have "triple (inv E F) (get_omm_group_lead gl) (\<lambda>_ s. inv E F s) base"
    unfolding get_omm_group_lead_def by (rule list_then) (auto intro: ret)
  then show ?thesis by (rule triple_gbind) (rule assms, simp)
qed

lemma pending_then:
  assumes "\<And>mrs E'. E \<subseteq> E' \<Longrightarrow> pending_members E' mrs \<Longrightarrow> triple (inv E' F) (f mrs) Q base"
  shows "triple (inv E F) (gbind (get_omm_pending_mrs gl) f) Q base"
  unfolding get_omm_pending_mrs_def
  by (rule list_then, rule assms)
    (auto simp: pending_members_def listed_pending_def pending_query_def)

lemma clear_omm_group_writes:
  assumes d: "dry \<longrightarrow> dry_run"
  shows "triple (inv E F) (clear_omm_group dry_run gl lead pending) (\<lambda>_. inv E {}) base"
proof -
  have lead: "triple (inv E F') (case lead of None \<Rightarrow> get_omm_group_lead gl | Some l \<Rightarrow> gret (Some l)) (\<lambda>_. inv E F') base" for F'
    by (auto split: option.splits simp: get_omm_group_lead_def intro!: ret list_then)
  have drop_lead: "triple (inv E F') (case l of None \<Rightarrow> gret () | Some l \<Rightarrow> gwhen (\<not> dry_run) (remove_label gl l OMM_GROUP_LEAD))
      (\<lambda>_. inv E {}) base" for l F'
    by (auto split: option.splits intro!: ret triple_gwhen write_remove_label intro: inv_forget dest: d [THEN mp])
  have mrs: "triple (inv E F') (case pending of None \<Rightarrow> get_omm_pending_mrs gl | Some mrs \<Rightarrow> gret mrs) (\<lambda>_. inv E F') base" for F'
    by (auto split: option.splits simp: get_omm_pending_mrs_def intro!: ret triple_conseq [OF keep_list_items]
        elim: inv_weaken)
  have stale: "triple (inv E {}) (gfor [MrClosed, MrMerged] (\<lambda>st.
        gbind (list_items gl (pending_query st)) (clear_pending dry_run gl))) (\<lambda>_. inv E {}) base"
    by (rule triple_gfor, rule list_then, rule weaken_post [OF clear_pending_writes [OF d]]) auto
  show ?thesis
    unfolding clear_omm_group_def
    by (rule triple_gbind [OF lead], rule triple_gseq [OF drop_lead], rule triple_gbind [OF mrs],
        rule triple_gseq [OF clear_pending_writes [OF d]], rule stale)
qed

lemma form_omm_group_keeps:
  assumes "known_queue E items"
  shows "triple (inv E F) (form_omm_group gl items labels) (\<lambda>mrs s. inv E F s \<and> known_mrs E mrs) base"
proof -
  have step: "triple (\<lambda>s. inv E F s \<and> known_mrs E (fst acc)) (form_step gl acc item)
      (\<lambda>acc s. inv E F s \<and> known_mrs E (fst acc)) base" if item: "item \<in> set items" for acc item
  proof (rule triple_pure)
    assume acc: "known_mrs E (fst acc)"
    have old: "triple (inv E' F') (gret acc) (\<lambda>acc s. inv E F s \<and> known_mrs E (fst acc)) base"
      if "E \<subseteq> E'" "F \<subseteq> F'" for E' F'
      by (rule triple_gret) (use that acc in \<open>auto elim: inv_weaken\<close>)
    have new: "triple (inv E' F') (gret (fst acc @ [qi_mr item], ls)) (\<lambda>acc s. inv E F s \<and> known_mrs E (fst acc)) base"
      if "E \<subseteq> E'" "F \<subseteq> F'" "\<not> qi_error item" for E' F' ls
    proof -
      have "known_item E item" using assms item by (simp add: known_queue_def)
      then have "known_mrs E (fst acc @ [qi_mr item])"
        using acc known_item_unblocked [OF _ that(3)] by (auto simp: known_mrs_def) (simp add: known_item_def)
      then show ?thesis
        by (intro triple_gret) (use that in \<open>auto elim: inv_weaken\<close>)
    qed
    show "triple (inv E F) (form_step gl acc item) (\<lambda>acc s. inv E F s \<and> known_mrs E (fst acc)) base"
      unfolding form_step_def Let_def
      by (auto intro!: old new labels_then pipelines_then) (blast+)
  qed
  show ?thesis
    unfolding form_omm_group_def
    by (rule triple_gbind [where Q = "\<lambda>acc s. inv E F s \<and> known_mrs E (fst acc)"],
        rule triple_conseq [OF triple_gfold [where J = "\<lambda>acc s. inv E F s \<and> known_mrs E (fst acc)", OF step]])
      (auto simp: known_mrs_def intro!: triple_gret)
qed

lemma rebase_evidence_known:
  assumes "known_mrs E mrs" "mr \<in> set mrs" "inv E F s"
  shows "rebase_evidence (rn_trace s) (it_iid mr) True"
proof -
  from assms(1,2) obtain ls where ls: "labels_known E KMergeRequest (it_iid mr) ls" "is_good_to_merge ls" "unblocked ls"
    by (auto simp: known_mrs_def)
  have "E \<subseteq> set (rn_trace s)" using assms(3) by (simp add: inv_of_def)
  with ls show ?thesis
    by (auto simp: rebase_evidence_def intro: labels_known_mono)
qed

lemma apply_omm_pending_writes:
  assumes d: "dry \<longrightarrow> dry_run" and rs: rebases_ok and known: "known_mrs E mrs"
  shows "triple (inv E F :: 'w gl_run \<Rightarrow> bool) (apply_omm_pending dry_run gl mrs) (\<lambda>_. inv E {}) base"
proof -
  have step: "triple (inv E {} :: 'w gl_run \<Rightarrow> bool) (apply_omm_pending_mr dry_run gl retained mr) (\<lambda>_. inv E {}) base"
    if mr: "mr \<in> set mrs" for retained mr
  proof (cases dry_run)
    case True
    then show ?thesis by (auto simp: apply_omm_pending_mr_def intro: ret)
  next
    case False
    then have nd: "\<not> dry" using d by blast
    have rebase: "triple (inv E {} :: 'w gl_run \<Rightarrow> bool) (gtry (rebase_call gl mr True) f) (\<lambda>_. inv E {}) base"
      if "\<And>r. triple (inv E {}) (f r) (\<lambda>_. inv E {}) base" for f :: "gl_exc + unit \<Rightarrow> ('w, gl_item list) action"
      by (rule triple_gtry [where Q = "\<lambda>_. inv E {}"],
          rule triple_conseq [OF write_rebase_call [OF nd rs rebase_evidence_known [OF known mr]]])
        (auto intro: that)
    have failed: "triple (inv E {} :: 'w gl_run \<Rightarrow> bool) (gseq (remove_label gl mr OMM_PENDING)
        (gseq (add_label_to_merge_request gl mr REBASE_ERROR) (gret retained))) (\<lambda>_. inv E {}) base"
      by (rule triple_gseq [OF write_remove_label [OF nd]], rule triple_gseq [OF write_add_label [OF nd]], rule ret) auto
    show ?thesis
      unfolding apply_omm_pending_mr_def using False
      by (simp, intro triple_gseq [OF write_add_label [OF nd]] rebase)
        (auto split: sum.splits gl_exc.splits intro!: ret raise failed)
  qed
  show ?thesis
    unfolding apply_omm_pending_def
    by (rule triple_conseq [OF triple_gfold [where J = "\<lambda>_. inv E {}", OF step]]) (auto elim: inv_weaken)
qed

section \<open>Members and groups\<close>

lemma is_rebased_sharp:
  "triple (inv E F) (is_rebased gl mr)
     (\<lambda>b. inv (insert (RebaseChecked (it_iid mr) b) E) (insert (RebaseChecked (it_iid mr) b) F)) (inv E F)"
  unfolding is_rebased_def
  by (rule triple_gbind [OF call_sharp], rule triple_gbind [OF call_sharp],
      rule triple_gseq [OF triple_gemit_any [OF triple_read]], simp add: is_write_def, rule triple_gret)

lemma labels_of_sharp: "triple (inv E F) (labels_of x) (\<lambda>_. inv E F) (inv E F)"
  by (auto simp: triple_def labels_of_def attrs_of_def gbind_def gret_def split: option.splits)

lemma approval_info_sharp: "triple (inv E F) (get_approval_info gl mr) (\<lambda>_. inv E F) (inv E F)"
  unfolding get_approval_info_def get_merge_request_label_events_def
  by (rule triple_gbind [OF call_sharp], rule triple_gbind [OF labels_of_sharp])
    (auto split: option.splits intro: triple_gret triple_graise)

lemma merge_call_sharp:
  assumes "\<not> dry" merges_ok "\<And>s :: 'w gl_run. inv E F s \<Longrightarrow> merge_evidence rb (rn_trace s) (it_iid mr)"
  shows "triple (inv E F :: 'w gl_run \<Rightarrow> bool) (merge_call gl mr) (\<lambda>_. inv E {}) (inv E {})"
proof -
  have emit: "triple (inv E F :: 'w gl_run \<Rightarrow> bool) (gemit (MergeTried (it_iid mr) sq ok)) (\<lambda>_. inv E {}) R" for sq ok R
    by (rule triple_gemit_any [OF triple_conseq [OF triple_emit]])
      (use assms in \<open>auto simp: evidence_def changes_queue_def elim: inv_weaken\<close>)
  have answered: "triple (inv E {} :: 'w gl_run \<Rightarrow> bool) (answered_labels mr ls) (\<lambda>_. inv E {}) (inv E {})" for ls
    using triple_answered_labels [of E "{}" mr ls]
    by (auto simp: triple_def answered_labels_def gseq_def gbind_def gemit_def set_labels_def update_object_def)
  show ?thesis
    unfolding merge_call_def Let_def
    by (rule triple_gtry [where Q = "\<lambda>_. inv E F"], rule triple_conseq [OF call_sharp], simp_all,
        rule triple_gseq [OF emit]) (auto split: sum.splits intro: triple_graise answered)
qed

lemma eject_writes:
  assumes "dry \<longrightarrow> dry_run"
  shows "triple (inv E F) (eject dry_run gl mr) (\<lambda>_. inv E {}) base"
  unfolding eject_def
  by (rule triple_gseq, rule triple_gwhen, rule write_remove_label)
    (use assms in \<open>auto intro: inv_forget ret\<close>)

lemma try_merge_call_writes:
  assumes "triple (inv E F) m (\<lambda>_. inv E {}) (inv E {})" "\<And>r. triple (inv E {}) (f r) (\<lambda>_. inv E {}) base"
  shows "triple (inv E F) (gtry m f) (\<lambda>_. inv E {}) base"
  by (rule triple_gtry [where Q = "\<lambda>_. inv E {}"], rule triple_conseq [OF assms(1)]) (auto intro: assms(2))

lemma merge_member_writes:
  assumes d: "dry \<longrightarrow> dry_run" and mg: merges_ok
    and ev: "\<not> dry \<Longrightarrow> (\<And>s :: 'w gl_run. inv E F s \<Longrightarrow> merge_evidence rb (rn_trace s) (it_iid mr))"
  shows "triple (inv E F :: 'w gl_run \<Rightarrow> bool) (merge_member dry_run gl mr) (\<lambda>_. inv E {}) base"
proof (cases dry_run)
  case True
  then show ?thesis by (auto simp: merge_member_def intro: ret)
next
  case False
  then have nd: "\<not> dry" using d by blast
  have attempt: "triple (inv E F :: 'w gl_run \<Rightarrow> bool) (gseq (merge_call gl mr) (get_approval_info gl mr))
      (\<lambda>_. inv E {}) (inv E {})"
    by (rule triple_gseq [OF merge_call_sharp [OF nd mg ev [OF nd]] approval_info_sharp])
  have refused: "triple (inv E {} :: 'w gl_run \<Rightarrow> bool)
      (gseq (add_label_to_merge_request gl mr MERGE_ERROR) (gret no_result)) (\<lambda>_. inv E {}) base"
    by (rule triple_gseq [OF write_add_label [OF nd]], rule ret) auto
  show ?thesis
    unfolding merge_member_def using False
    by (simp, intro try_merge_call_writes [OF attempt])
      (auto split: sum.splits gl_exc.splits intro!: ret raise refused)
qed

lemma skip_ci_rebase_member_writes:
  assumes d: "dry \<longrightarrow> dry_run" and rs: rebases_ok
    and ev: "\<not> dry \<Longrightarrow> (\<And>s :: 'w gl_run. inv E F s \<Longrightarrow> rebase_evidence (rn_trace s) (it_iid mr) True)"
  shows "triple (inv E F :: 'w gl_run \<Rightarrow> bool) (skip_ci_rebase_member dry_run gl mr) (\<lambda>_. inv E {}) base"
proof (cases dry_run)
  case True
  then show ?thesis by (auto simp: skip_ci_rebase_member_def intro: ret)
next
  case False
  then have nd: "\<not> dry" using d by blast
  have refused: "triple (inv E {} :: 'w gl_run \<Rightarrow> bool)
      (gseq (remove_label gl mr OMM_PENDING) (gret no_result)) (\<lambda>_. inv E {}) base"
    by (rule triple_gseq [OF write_remove_label [OF nd]], rule ret) auto
  show ?thesis
    unfolding skip_ci_rebase_member_def using False
    by (simp, intro try_merge_call_writes [OF write_rebase_call [OF nd rs ev [OF nd]]])
      (auto split: sum.splits gl_exc.splits intro!: ret raise refused)
qed

lemma member_evidence:
  assumes "inv E F s" "labels_known E KMergeRequest i ls" "unblocked ls" "listed_pending E i" "rb"
    "PipelinesRead i ps \<in> F" "RebaseChecked i True \<in> F" "first_success (ci_signal ps)"
  shows "merge_evidence rb (rn_trace s) i"
proof -
  have "labels_known (set (rn_trace s)) KMergeRequest i ls" "listed_pending (set (rn_trace s)) i"
    using assms(1,2,4) by (auto simp: inv_of_def intro: labels_known_mono listed_pending_mono)
  then show ?thesis
    using assms unfolding merge_evidence_def inv_of_def by blast
qed

lemma member_by_pipelines_writes:
  assumes d: "dry \<longrightarrow> dry_run" and mg: merges_ok and rs: rebases_ok and rb: rb
    and known: "labels_known E KMergeRequest (it_iid mr) ls" "unblocked ls" "listed_pending E (it_iid mr)"
    and seen: "PipelinesRead (it_iid mr) ps \<in> F" "RebaseChecked (it_iid mr) rebased \<in> F"
  shows "triple (inv E F :: 'w gl_run \<Rightarrow> bool) (member_by_pipelines dry_run gl mr (ci_signal ps) rebased) (\<lambda>_. inv E {}) base"
proof (cases "ci_signal ps")
  case Nil
  then show ?thesis by (auto simp: member_by_pipelines_def intro: ret)
next
  case (Cons p rest)
  have merge: "triple (inv E F :: 'w gl_run \<Rightarrow> bool) (merge_member dry_run gl mr) (\<lambda>_. inv E {}) base"
    if "pl_status p = PlSuccess" "rebased"
    by (rule merge_member_writes [OF d mg], rule member_evidence [OF _ known rb])
      (use that Cons seen in \<open>auto simp: first_success_def\<close>)
  have "rebase_evidence (rn_trace s) (it_iid mr) True" if "inv E F s" for s :: "'w gl_run"
    using that known by (auto simp: rebase_evidence_def inv_of_def intro!: exI [of _ ls] intro: labels_known_mono listed_pending_mono)
  then have rebase: "triple (inv E F :: 'w gl_run \<Rightarrow> bool) (skip_ci_rebase_member dry_run gl mr) (\<lambda>_. inv E {}) base"
    by (rule skip_ci_rebase_member_writes [OF d rs])
  show ?thesis
    using merge rebase by (auto simp: member_by_pipelines_def Cons intro!: ret eject_writes [OF d])
qed

lemma process_omm_member_writes:
  assumes d: "dry \<longrightarrow> dry_run" and mg: merges_ok and rs: rebases_ok and rb: rb
    and known: "it_kind mr = KMergeRequest" "listed_pending E (it_iid mr)"
  shows "triple (inv E F :: 'w gl_run \<Rightarrow> bool) (process_omm_member dry_run gl timeout mr) (\<lambda>_. inv E {}) base"
proof -
  have checked: "triple (inv E2 F2 :: 'w gl_run \<Rightarrow> bool) (gtry (is_rebased gl fresh) (\<lambda>r. case r of
       Inl e \<Rightarrow> if e = GetError 404 then eject dry_run gl mr else graise e
     | Inr rebased \<Rightarrow> member_by_pipelines dry_run gl mr (ci_signal ps) rebased)) (\<lambda>_. inv E {}) base"
    if E2: "E \<subseteq> E2" "labels_known E2 KMergeRequest (it_iid mr) ls" "unblocked ls"
      "PipelinesRead (it_iid mr) ps \<in> F2" and fresh: "it_iid fresh = it_iid mr" for E2 F2 ls ps fresh
  proof (rule triple_gtry [where Q = "\<lambda>r.
        inv (E2 \<union> {RebaseChecked (it_iid mr) b | b. r = Inr b}) (F2 \<union> {RebaseChecked (it_iid mr) b | b. r = Inr b})"])
    show "triple (inv E2 F2 :: 'w gl_run \<Rightarrow> bool) (is_rebased gl fresh)
      (\<lambda>x. inv (E2 \<union> {RebaseChecked (it_iid mr) b | b. Inr x = Inr b}) (F2 \<union> {RebaseChecked (it_iid mr) b | b. Inr x = Inr b}))
      (\<lambda>s. \<forall>e. inv (E2 \<union> {RebaseChecked (it_iid mr) b | b. Inl e = Inr b}) (F2 \<union> {RebaseChecked (it_iid mr) b | b. Inl e = Inr b}) s)"
      by (rule triple_conseq [OF is_rebased_sharp]) (simp_all add: fresh)
    have E3: "E \<subseteq> E2 \<union> X" "labels_known (E2 \<union> X) KMergeRequest (it_iid mr) ls" "listed_pending (E2 \<union> X) (it_iid mr)" for X
      using E2(1,2) known(2) by (auto intro: labels_known_mono listed_pending_mono)
    fix r
    show "triple (inv (E2 \<union> {RebaseChecked (it_iid mr) b | b. r = Inr b}) (F2 \<union> {RebaseChecked (it_iid mr) b | b. r = Inr b}) :: 'w gl_run \<Rightarrow> bool)
        (case r of Inl e \<Rightarrow> if e = GetError 404 then eject dry_run gl mr else graise e
        | Inr rebased \<Rightarrow> member_by_pipelines dry_run gl mr (ci_signal ps) rebased) (\<lambda>_. inv E {}) base"
    proof (cases r)
      case (Inl e)
      then show ?thesis
        using E2(1) by (auto intro!: raise weaken_post [OF eject_writes [OF d]])
    next
      case (Inr b)
      show ?thesis
        unfolding Inr sum.case
        by (rule weaken_post [OF member_by_pipelines_writes [OF d mg rs rb E3(2) E2(3) E3(3)]]) (use E2(1,4) in auto)
    qed
  qed
  have fetched: "triple (inv E2 F2 :: 'w gl_run \<Rightarrow> bool)
      (gseq (gwhen b (cancel_timed_out_pipelines dry_run gl mr ps timeout))
       (gbind (get_merge_request gl (it_iid mr)) (\<lambda>fresh_mr. gtry (is_rebased gl fresh_mr) (\<lambda>r. case r of
         Inl e \<Rightarrow> if e = GetError 404 then eject dry_run gl mr else graise e
       | Inr rebased \<Rightarrow> member_by_pipelines dry_run gl mr (ci_signal ps) rebased)))) (\<lambda>_. inv E {}) base"
    if "E \<subseteq> E2" "labels_known E2 KMergeRequest (it_iid mr) ls" "unblocked ls"
      "PipelinesRead (it_iid mr) ps \<in> F2" for E2 F2 ls ps b
    by (rule triple_gseq, rule triple_gwhen, rule aside_cancel_timed_out [OF d], assumption,
        rule get_then, rule checked [OF that])
  have looked: "triple (inv E' F :: 'w gl_run \<Rightarrow> bool) (gbind (get_merge_request_pipelines gl mr) (\<lambda>ps.
      gseq (gwhen (ps \<noteq> []) (cancel_timed_out_pipelines dry_run gl mr ps timeout))
       (gbind (get_merge_request gl (it_iid mr)) (\<lambda>fresh_mr. gtry (is_rebased gl fresh_mr) (\<lambda>r. case r of
         Inl e \<Rightarrow> if e = GetError 404 then eject dry_run gl mr else graise e
       | Inr rebased \<Rightarrow> member_by_pipelines dry_run gl mr (ci_signal ps) rebased))))) (\<lambda>_. inv E {}) base"
    if "E \<subseteq> E'" "labels_known E' KMergeRequest (it_iid mr) ls" "unblocked ls" for E' ls
    by (rule pipelines_then, rule fetched) (use that in \<open>auto intro: labels_known_mono\<close>)
  show ?thesis
    unfolding process_omm_member_def
  proof (rule labels_then)
    fix ls E' assume E': "E \<subseteq> E'" and ls: "labels_known E' (it_kind mr) (it_iid mr) ls"
    have out: "triple (inv E' F :: 'w gl_run \<Rightarrow> bool) (eject dry_run gl mr) (\<lambda>_. inv E {}) base"
      by (rule weaken_post [OF eject_writes [OF d]]) (use E' in auto)
    show "triple (inv E' F :: 'w gl_run \<Rightarrow> bool) (if set ERROR_LABELS \<inter> set ls \<noteq> {} then eject dry_run gl mr
        else if set HOLD_LABELS \<inter> set ls \<noteq> {} then eject dry_run gl mr
        else gbind (get_merge_request_pipelines gl mr) (\<lambda>ps.
          gseq (gwhen (ps \<noteq> []) (cancel_timed_out_pipelines dry_run gl mr ps timeout))
           (gbind (get_merge_request gl (it_iid mr)) (\<lambda>fresh_mr. gtry (is_rebased gl fresh_mr) (\<lambda>r. case r of
             Inl e \<Rightarrow> if e = GetError 404 then eject dry_run gl mr else graise e
           | Inr rebased \<Rightarrow> member_by_pipelines dry_run gl mr (ci_signal ps) rebased))))) (\<lambda>_. inv E {}) base"
    proof (cases "unblocked ls")
      case True
      then have "set ERROR_LABELS \<inter> set ls = {}" "set HOLD_LABELS \<inter> set ls = {}"
        by (auto simp: unblocked_def)
      then show ?thesis using looked [OF E' ls [unfolded known(1)] True] by simp
    next
      case False
      then show ?thesis using out by (auto simp: unblocked_def)
    qed
  qed
qed

lemma process_members_writes:
  assumes d: "dry \<longrightarrow> dry_run" and mg: merges_ok and rs: rebases_ok and rb: rb and p: "pending_members E mrs"
  shows "triple (inv E {} :: 'w gl_run \<Rightarrow> bool) (process_members dry_run gl timeout limit n any mrs) (\<lambda>_. inv E {}) base"
  using p
proof (induction mrs arbitrary: n any)
  case Nil
  then show ?case by (auto intro: ret)
next
  case (Cons mr mrs)
  then have mr: "it_kind mr = KMergeRequest" "listed_pending E (it_iid mr)" and rest: "pending_members E mrs"
    by (auto simp: pending_members_def)
  show ?case
    unfolding process_members.simps Let_def
    by (rule triple_gbind [OF process_omm_member_writes [OF d mg rs rb mr]])
      (auto intro!: ret Cons.IH rest)
qed

lemma eject_overlaps_writes:
  assumes d: "dry \<longrightarrow> dry_run" and p: "pending_members E mrs"
  shows "triple (inv E {} :: 'w gl_run \<Rightarrow> bool) (eject_overlaps dry_run gl lead mrs)
     (\<lambda>kept s. inv E {} s \<and> pending_members E kept) base"
proof -
  let ?J = "\<lambda>acc (s :: 'w gl_run). inv E {} s \<and> pending_members E (fst acc)"
  have step: "triple (?J acc) (eject_overlap_step dry_run gl acc mr) ?J base" if mr: "mr \<in> set mrs" for acc mr
  proof (rule triple_pure)
    assume acc: "pending_members E (fst acc)"
    have nd: "\<not> dry" if "\<not> dry_run" using that d by blast
    have keep: "triple (inv E' {} :: 'w gl_run \<Rightarrow> bool) (gret acc) ?J base" if "E \<subseteq> E'" for E'
      by (rule triple_gret) (use that acc in \<open>auto elim: inv_weaken\<close>)
    have drop: "triple (inv E' {} :: 'w gl_run \<Rightarrow> bool) (gseq (gwhen (\<not> dry_run) (remove_label gl mr OMM_PENDING)) (gret acc)) ?J base"
      if "E \<subseteq> E'" for E'
      by (rule triple_gseq, rule triple_gwhen, rule write_remove_label, rule nd, assumption, assumption, rule keep, rule that)
    have new: "triple (inv E' {} :: 'w gl_run \<Rightarrow> bool) (gret (fst acc @ [mr], ls)) ?J base" if "E \<subseteq> E'" for E' ls
      by (rule triple_gret) (use that acc p mr in \<open>auto simp: pending_members_def elim: inv_weaken\<close>)
    show "triple (inv E {} :: 'w gl_run \<Rightarrow> bool) (eject_overlap_step dry_run gl acc mr) ?J base"
      unfolding eject_overlap_step_def by (auto intro!: labels_then drop new)
  qed
  show ?thesis
    unfolding eject_overlaps_def
    by (rule labels_then, rule triple_gbind [where Q = ?J], rule triple_conseq [OF triple_gfold [where J = ?J, OF step]])
      (auto simp: pending_members_def intro!: triple_gret elim: inv_weaken)
qed

lemma expand_omm_group_writes:
  assumes d: "dry \<longrightarrow> dry_run" and rs: rebases_ok and q: "known_queue E queue"
  shows "triple (inv E {} :: 'w gl_run \<Rightarrow> bool) (expand_omm_group dry_run gl lead pending queue) (\<lambda>_. inv E {}) base"
proof -
  have known: "known_queue E (filter P queue)" for P
    using q by (auto simp: known_queue_def)
  have labels: "triple (inv E {} :: 'w gl_run \<Rightarrow> bool) (group_labels_of lead pending) (\<lambda>_. inv E {}) base"
    unfolding group_labels_of_def
    by (rule triple_gfold [where J = "\<lambda>_. inv E {}"], rule labels_then, rule ret) auto
  show ?thesis
    unfolding expand_omm_group_def
    by (rule triple_gbind [OF labels], rule triple_gbind [OF form_omm_group_keeps [OF known]], rule triple_pure)
      (auto intro!: ret apply_omm_pending_writes [OF d rs])
qed

lemma process_pending_writes:
  assumes d: "dry \<longrightarrow> dry_run" and mg: merges_ok and rs: rebases_ok and rb: rb and q: "known_queue E queue" and p: "pending_members E mrs"
  shows "triple (inv E {} :: 'w gl_run \<Rightarrow> bool) (process_pending dry_run gl lead timeout limit queue mrs) (\<lambda>_. inv E {}) base"
proof -
  have rest: "triple (inv E {} :: 'w gl_run \<Rightarrow> bool)
      (if reached then gseq (clear_omm_group dry_run gl (Some lead) (Some kept)) (gret merges)
       else gbind (expand_omm_group dry_run gl lead kept queue) (\<lambda>retained.
         gseq (gwhen (\<not> any \<and> retained = []) (clear_omm_group dry_run gl (Some lead) None)) (gret merges)))
      (\<lambda>_. inv E {}) base" for reached kept merges any
    by (auto intro!: triple_gseq [OF clear_omm_group_writes [OF d]] ret triple_gbind [OF expand_omm_group_writes [OF d rs q]]
        triple_gseq triple_gwhen clear_omm_group_writes [OF d])
  show ?thesis
    unfolding process_pending_def
    by (rule triple_gbind [OF eject_overlaps_writes [OF d p]], rule triple_pure,
        rule triple_gbind [OF process_members_writes [OF d mg rs rb]], assumption, clarify, rule rest)
qed

lemma process_omm_group_writes:
  assumes d: "dry \<longrightarrow> dry_run" and mg: merges_ok and rs: rebases_ok and rb: rb and q: "known_queue E queue"
  shows "triple (inv E {} :: 'w gl_run \<Rightarrow> bool) (process_omm_group dry_run gl lead minutes timeout limit queue) (\<lambda>_. inv E {}) base"
proof -
  have clear: "triple (inv E' {} :: 'w gl_run \<Rightarrow> bool) (gseq (clear_omm_group dry_run gl l p) (gret x)) (\<lambda>_. inv E {}) base"
    if "E \<subseteq> E'" for E' l p x
    by (rule triple_gseq [OF clear_omm_group_writes [OF d]], rule ret) (use that in auto)
  have members: "triple (inv E' {} :: 'w gl_run \<Rightarrow> bool) (gbind (get_omm_pending_mrs gl) (\<lambda>pending.
     if pending = [] then gseq (clear_omm_group dry_run gl (Some lead) (Some pending)) (gret 0)
     else process_pending dry_run gl lead timeout limit queue pending)) (\<lambda>_. inv E {}) base" if "E \<subseteq> E'" for E'
  proof (rule pending_then)
    fix mrs E2 assume E2: "E' \<subseteq> E2" and p: "pending_members E2 mrs"
    with that have E: "E \<subseteq> E2" by blast
    show "triple (inv E2 {} :: 'w gl_run \<Rightarrow> bool) (if mrs = [] then gseq (clear_omm_group dry_run gl (Some lead) (Some mrs)) (gret 0)
       else process_pending dry_run gl lead timeout limit queue mrs) (\<lambda>_. inv E {}) base"
      using clear [OF E] weaken_post [OF process_pending_writes [OF d mg rs rb known_queue_mono [OF q E] p] E order_refl] by auto
  qed
  have time: "triple (inv E {} :: 'w gl_run \<Rightarrow> bool) (merged_time lead) (\<lambda>_. inv E {}) base"
    unfolding merged_time_def by (auto split: option.splits intro: ret raise)
  have window: "triple (inv E {} :: 'w gl_run \<Rightarrow> bool) (is_omm_window_open gl lead minutes) (\<lambda>_. inv E {}) base"
    unfolding is_omm_window_open_def by (rule triple_gbind [OF time triple_gread])
  have ci: "triple (inv E {} :: 'w gl_run \<Rightarrow> bool) (check_post_merge_ci gl lead) (\<lambda>_. inv E {}) base"
    unfolding check_post_merge_ci_def by (rule triple_gbind [OF time]) (auto intro!: call_then ret)
  have shas: "triple (inv E' {} :: 'w gl_run \<Rightarrow> bool) (gfold (\<lambda>shas mr. gbind (get_merge_request gl (it_iid mr)) (\<lambda>fresh.
         gret (shas @ truthy_sha (id_merge_commit_sha (it_data fresh)) @
                      truthy_sha (id_squash_commit_sha (it_data fresh))))) [] xs) (\<lambda>_. inv E' {}) base" for E' xs
    by (rule triple_gfold [where J = "\<lambda>_. inv E' {}"], rule get_then, rule ret) auto
  have intact: "triple (inv E {} :: 'w gl_run \<Rightarrow> bool) (check_target_branch_integrity gl lead sha) (\<lambda>_. inv E {}) base" for sha
    unfolding check_target_branch_integrity_def
    by (auto intro!: call_then ret list_then triple_gbind [OF shas])
  show ?thesis
    unfolding process_omm_group_def
    by (rule triple_gbind [OF window])
      (auto intro!: clear triple_gbind [OF ci] ret triple_gbind [OF intact] members split: option.splits)
qed

end

end
