(* ===== verification/Glh_Trace_Repo.thy ===== *)
theory Glh_Trace_Repo
  imports Glh_Trace_Run
begin

text \<open>
  The serial merges, the rebases, the error labels, the stale items and the housekeeping of a whole repository preserve
  every trace invariant.
\<close>

inductive attempts ::
  "('w, unit) action \<Rightarrow> nat \<Rightarrow> 'w gl_run \<Rightarrow> (gl_exc + unit) \<times> 'w gl_run \<Rightarrow> bool" for m where
  \<comment> \<open>at most so many attempts, another one only after an exception\<close>
  last_attempt: "attempts m (Suc n) s (m s)"
| next_attempt: "m s = (Inl e, s') \<Longrightarrow> attempts m n s' r \<Longrightarrow> attempts m (Suc n) s r"

definition retries_attempts :: "'w retry \<Rightarrow> bool" where
  \<comment> \<open>what the code relies on of the decorator of sretoolbox\<close>
  "retries_attempts retry \<longleftrightarrow> (\<forall>n m s. 0 < n \<longrightarrow> attempts m n s (retry n m s))"

lemma attempts_keep:
  assumes "attempts m n s r" "triple P m (\<lambda>_. Q) P" "P s"
  shows "case r of (Inr _, s') \<Rightarrow> Q s' | (Inl _, s') \<Rightarrow> P s'"
  using assms
proof induction
  case (last_attempt n s)
  then show ?case by (auto simp: triple_def)
next
  case (next_attempt s e s' n r)
  then show ?case using tripleD_raise [OF next_attempt.prems(1)] by blast
qed

lemma triple_retry:
  assumes "retries_attempts retry" "0 < n" "triple P m (\<lambda>_. Q) P"
  shows "triple P (retry n m) (\<lambda>_. Q) P"
proof -
  have "case retry n m s of (Inr _, s') \<Rightarrow> Q s' | (Inl _, s') \<Rightarrow> P s'" if "P s" for s
    using attempts_keep [OF _ assms(3) that, of n "retry n m s"] assms(1,2) by (simp add: retries_attempts_def)
  then show ?thesis by (simp add: triple_def)
qed

definition not_rebased :: "gl_event set \<Rightarrow> gl_item list \<Rightarrow> bool" where
  "not_rebased E mrs \<longleftrightarrow> (\<forall>mr \<in> set mrs. RebaseChecked (it_iid mr) False \<in> E)"

context trace_invariant
begin

section \<open>Serial merges\<close>

lemma pipelines_ready_keeps:
  assumes d: "dry \<longrightarrow> mc_dry_run cfg"
    and no: "\<And>s. inv E F s \<Longrightarrow> Q False s"
    and yes: "\<And>s. inv E F s \<Longrightarrow> first_success (without_skipped ps) \<Longrightarrow> Q True s"
  shows "triple (inv E F) (pipelines_ready cfg gl n mr ps) Q base"
proof -
  have answer: "triple (inv E F) (gret b) Q base" if "b \<Longrightarrow> first_success (without_skipped ps)" for b
    using no yes that by (cases b) (auto intro: triple_gret)
  have insist: "triple (inv E F) (gseq (gset_reload True) (graise InsistOnPipelineError)) Q base"
    by (auto simp: triple_def gseq_def gbind_def gset_reload_def graise_def inv_of_def objects_known_def)
  show ?thesis
    unfolding pipelines_ready_def Let_def
    by (auto intro!: answer insist triple_gseq [OF aside_cancel_timed_out [OF d]] simp: first_success_def)
qed

lemma ready_to_merge_keeps:
  assumes d: "dry \<longrightarrow> mc_dry_run cfg"
    and no: "\<And>s. inv E {} s \<Longrightarrow> Q False s"
    and yes: "\<And>ps s. inv E (insert (PipelinesRead (it_iid (qi_mr item)) ps)
          (if mc_rebase cfg then {RebaseChecked (it_iid (qi_mr item)) True} else {})) s \<Longrightarrow>
        first_success (without_skipped ps) \<Longrightarrow> \<not> qi_error item \<Longrightarrow> Q True s"
  shows "triple (inv E {}) (ready_to_merge cfg gl n item) Q base"
proof (cases "qi_error item")
  case True
  then show ?thesis using no by (auto simp: ready_to_merge_def intro: triple_gret)
next
  case False
  let ?F = "if mc_rebase cfg then {RebaseChecked (it_iid (qi_mr item)) True} else {}"
  have check: "triple (inv E {}) (if mc_rebase cfg then is_rebased gl (qi_mr item) else gret True)
      (\<lambda>b. inv E (if b then ?F else {})) base"
    by (auto intro!: triple_gret triple_conseq [OF triple_is_rebased] elim: inv_weaken split: if_splits)
  have pipes: "triple (inv E ?F) (gbind (get_merge_request_pipelines gl (qi_mr item))
      (pipelines_ready cfg gl n (qi_mr item))) Q base"
    by (rule pipelines_then, rule pipelines_ready_keeps [OF d])
      (auto intro: no yes [OF _ _ False] elim: inv_weaken)
  have stop: "triple (inv E {}) (gret False) Q base"
    by (rule triple_gret) (rule no)
  show ?thesis
    unfolding ready_to_merge_def using False
    by (simp only: if_False, intro triple_gbind [OF check]) (use pipes stop in \<open>simp split: if_splits\<close>)
qed

lemma serial_evidence:
  assumes "inv E (insert (PipelinesRead (it_iid (qi_mr item)) ps)
          (if rb then {RebaseChecked (it_iid (qi_mr item)) True} else {})) s"
    "known_item E item" "\<not> qi_error item" "first_success (without_skipped ps)"
  shows "merge_evidence rb (rn_trace s) (it_iid (qi_mr item))"
proof -
  obtain ls where ls: "labels_known E KMergeRequest (it_iid (qi_mr item)) ls" "is_good_to_merge ls" "unblocked ls"
    using known_item_unblocked [OF assms(2,3)] by blast
  have "labels_known (set (rn_trace s)) KMergeRequest (it_iid (qi_mr item)) ls"
    using ls(1) assms(1) by (auto simp: inv_of_def intro: labels_known_mono)
  then show ?thesis
    using assms(1,4) ls(2,3) unfolding merge_evidence_def inv_of_def
    by (intro exI [of _ ls] exI [of _ ps]) auto
qed

lemma try_merge_writes:
  assumes d: "dry \<longrightarrow> dry_run" and mg: merges_ok
    and ev: "\<not> dry \<Longrightarrow> (\<And>s :: 'w gl_run. inv E F s \<Longrightarrow> merge_evidence rb (rn_trace s) (it_iid mr))"
  shows "triple (inv E F :: 'w gl_run \<Rightarrow> bool) (try_merge dry_run gl mr) (\<lambda>_. inv E {}) base"
proof (cases dry_run)
  case True
  then show ?thesis by (auto simp: try_merge_def intro: ret)
next
  case False
  then have nd: "\<not> dry" using d by blast
  have refused: "triple (inv E {} :: 'w gl_run \<Rightarrow> bool)
      (gseq (add_label_to_merge_request gl mr MERGE_ERROR) (gret False)) (\<lambda>_. inv E {}) base"
    by (rule triple_gseq [OF write_add_label [OF nd]], rule ret) auto
  show ?thesis
    unfolding try_merge_def using False
    by (simp, intro try_merge_call_writes [OF merge_call_sharp [OF nd mg ev [OF nd]]])
      (auto split: sum.splits gl_exc.splits intro!: ret raise refused)
qed

lemma start_group_writes:
  assumes d: "dry \<longrightarrow> mc_dry_run cfg" and rs: rebases_ok and q: "known_queue E queue"
  shows "triple (inv E {} :: 'w gl_run \<Rightarrow> bool) (start_group cfg gl queue merged mr) (\<lambda>_. inv E {}) base"
proof -
  have group: "triple (inv E' {} :: 'w gl_run \<Rightarrow> bool) (gwhen b (gseq (apply_omm_group_lead (mc_dry_run cfg) gl mr)
         (gseq (apply_omm_pending (mc_dry_run cfg) gl candidates) (gret ())))) (\<lambda>_. inv E {}) base"
    if "E \<subseteq> E'" "known_mrs E' candidates" for E' b candidates
    unfolding apply_omm_group_lead_def
    by (rule triple_gwhen, rule triple_gseq, rule triple_gwhen, rule write_add_label, use d in blast, assumption,
        rule triple_gseq [OF apply_omm_pending_writes [OF d rs that(2)]], rule ret) (use that in \<open>auto elim: inv_weaken\<close>)
  have form: "triple (inv E' {} :: 'w gl_run \<Rightarrow> bool) (gbind (form_omm_group gl queue merged) (\<lambda>candidates.
       gwhen (candidates \<noteq> [])
         (gseq (apply_omm_group_lead (mc_dry_run cfg) gl mr)
         (gseq (apply_omm_pending (mc_dry_run cfg) gl candidates) (gret ()))))) (\<lambda>_. inv E {}) base" if "E \<subseteq> E'" for E'
    by (rule triple_gbind [OF form_omm_group_keeps [OF known_queue_mono [OF q that]]], rule triple_pure, rule group [OF that])
  show ?thesis
    unfolding start_group_def by (rule labels_then) (auto intro!: form ret)
qed

lemma serial_merges_writes:
  assumes d: "dry \<longrightarrow> mc_dry_run cfg" and mg: merges_ok and rs: rebases_ok and rbc: "rb = mc_rebase cfg" and q: "known_queue E queue" and i: "known_queue E items"
  shows "triple (inv E {} :: 'w gl_run \<Rightarrow> bool) (serial_merges cfg gl queue n merged items) (\<lambda>_. inv E {}) base"
  using i
proof (induction items arbitrary: n merged)
  case Nil
  then show ?case by (auto intro: ret)
next
  case (Cons item items)
  then have item: "known_item E item" and rest: "known_queue E items" by (auto simp: known_queue_def)
  let ?F = "\<lambda>ps. insert (PipelinesRead (it_iid (qi_mr item)) ps)
          (if mc_rebase cfg then {RebaseChecked (it_iid (qi_mr item)) True} else {})"
  let ?seen = "\<lambda>s :: 'w gl_run. \<exists>ps. inv E (?F ps) s \<and> (first_success (without_skipped ps) \<and> \<not> qi_error item)"
  have again: "triple (inv E' {} :: 'w gl_run \<Rightarrow> bool) (serial_merges cfg gl queue m ls items) (\<lambda>_. inv E {}) base"
    if "E \<subseteq> E'" for E' m ls
    by (rule weaken_pre [OF Cons.IH [OF rest] that]) simp
  have merged_then: "triple (inv E {} :: 'w gl_run \<Rightarrow> bool) (gbind (labels_of (qi_mr item)) (\<lambda>labels.
     let merged_labels' = merged @ get_tenant_labels labels
     in if mc_rebase cfg \<and> n + 1 = 1
        then gseq (start_group cfg gl queue merged_labels' (qi_mr item)) (gret (n + 1))
        else serial_merges cfg gl queue (n + 1) merged_labels' items)) (\<lambda>_. inv E {}) base"
  proof (rule labels_then, unfold Let_def)
    fix ls E' assume E': "E \<subseteq> E'"
    show "triple (inv E' {} :: 'w gl_run \<Rightarrow> bool) (if mc_rebase cfg \<and> n + 1 = 1
        then gseq (start_group cfg gl queue (merged @ get_tenant_labels ls) (qi_mr item)) (gret (n + 1))
        else serial_merges cfg gl queue (n + 1) (merged @ get_tenant_labels ls) items) (\<lambda>_. inv E {}) base"
      using again [OF E']
      by (auto intro!: triple_gseq [OF start_group_writes [OF d rs known_queue_mono [OF q E']]] ret E')
  qed
  have attempt: "triple ?seen (try_merge (mc_dry_run cfg) gl (qi_mr item)) (\<lambda>_. inv E {}) base"
    by (rule triple_exE, rule triple_pure, rule try_merge_writes [OF d mg], rule serial_evidence [OF _ item])
      (use rbc in auto)
  have stop: "triple (inv E {} :: 'w gl_run \<Rightarrow> bool) (serial_merges cfg gl queue m ls items) (\<lambda>_. inv E {}) base" for m ls
    by (rule again) simp
  show ?case
    unfolding serial_merges.simps
  proof (rule triple_gbind)
    show "triple (inv E {} :: 'w gl_run \<Rightarrow> bool) (ready_to_merge cfg gl n item)
        (\<lambda>ready s. if ready then ?seen s else inv E {} s) base"
      by (rule ready_to_merge_keeps [OF d]) (simp only: if_False, simp only: if_True, blast)
    fix ready
    show "triple (\<lambda>s :: 'w gl_run. if ready then ?seen s else inv E {} s)
      (if \<not> ready \<or> mc_merge_limit cfg \<le> n then serial_merges cfg gl queue n merged items
       else gbind (try_merge (mc_dry_run cfg) gl (qi_mr item)) (\<lambda>m.
         if \<not> m then serial_merges cfg gl queue n merged items
         else gbind (labels_of (qi_mr item)) (\<lambda>labels.
           let merged_labels' = merged @ get_tenant_labels labels
           in if mc_rebase cfg \<and> n + 1 = 1
              then gseq (start_group cfg gl queue merged_labels' (qi_mr item)) (gret (n + 1))
              else serial_merges cfg gl queue (n + 1) merged_labels' items))) (\<lambda>_. inv E {}) base"
    proof (cases ready)
      case False
      then show ?thesis using stop by simp
    next
      case True
      have merge: "triple ?seen (gbind (try_merge (mc_dry_run cfg) gl (qi_mr item)) (\<lambda>m.
         if \<not> m then serial_merges cfg gl queue n merged items
         else gbind (labels_of (qi_mr item)) (\<lambda>labels.
           let merged_labels' = merged @ get_tenant_labels labels
           in if mc_rebase cfg \<and> n + 1 = 1
              then gseq (start_group cfg gl queue merged_labels' (qi_mr item)) (gret (n + 1))
              else serial_merges cfg gl queue (n + 1) merged_labels' items))) (\<lambda>_. inv E {}) base"
        by (rule triple_gbind [OF attempt]) (use stop merged_then in simp)
      have full: "triple ?seen (serial_merges cfg gl queue n merged items) (\<lambda>_. inv E {}) base"
        by (rule triple_exE, rule triple_pure, rule weaken_pre [OF stop]) auto
      show ?thesis using True merge full by simp
    qed
  qed
qed

lemma merge_queue_writes:
  assumes d: "dry \<longrightarrow> mc_dry_run cfg" and mg: merges_ok and rs: rebases_ok and rbc: "rb = mc_rebase cfg" and q: "known_queue E queue"
  shows "triple (inv E {} :: 'w gl_run \<Rightarrow> bool) (merge_queue cfg gl queue) (\<lambda>_. inv E {}) base"
proof -
  have serial: "triple (inv E' {} :: 'w gl_run \<Rightarrow> bool) (serial_merges cfg gl queue 0 [] queue) (\<lambda>_. inv E {}) base"
    if "E \<subseteq> E'" for E'
    by (rule weaken_pre [OF serial_merges_writes [OF d mg rs rbc q q] that]) simp
  have cleared: "triple (inv E' {} :: 'w gl_run \<Rightarrow> bool) (gseq (case l of None \<Rightarrow> gret () | Some l \<Rightarrow>
      clear_omm_group (mc_dry_run cfg) gl (Some l) None) (serial_merges cfg gl queue 0 [] queue)) (\<lambda>_. inv E {}) base"
    if "E \<subseteq> E'" for E' l
    by (rule triple_gseq [where Q = "inv E' {}"], cases l)
      (auto intro!: ret clear_omm_group_writes [OF d] serial that)
  have orphans: "triple (inv E' {} :: 'w gl_run \<Rightarrow> bool) (gbind (get_omm_pending_mrs gl) (\<lambda>pending.
          gseq (gwhen (pending \<noteq> []) (clear_omm_group (mc_dry_run cfg) gl None (Some pending)))
          (serial_merges cfg gl queue 0 [] queue))) (\<lambda>_. inv E {}) base" if "E \<subseteq> E'" for E'
  proof (rule pending_then)
    fix mrs E2 assume "E' \<subseteq> E2"
    then have "E \<subseteq> E2" using that by blast
    then show "triple (inv E2 {} :: 'w gl_run \<Rightarrow> bool) (gseq (gwhen (mrs \<noteq> []) (clear_omm_group (mc_dry_run cfg) gl None (Some mrs)))
          (serial_merges cfg gl queue 0 [] queue)) (\<lambda>_. inv E {}) base"
      by (intro triple_gseq [where Q = "inv E2 {}"] triple_gwhen clear_omm_group_writes [OF d] serial) auto
  qed
  have group: "triple (inv E' {} :: 'w gl_run \<Rightarrow> bool) (process_omm_group (mc_dry_run cfg) gl l (mc_omm_max_minutes cfg)
      (mc_pipeline_timeout cfg) (mc_merge_limit cfg) queue) (\<lambda>_. inv E {}) base" if "E \<subseteq> E'" "mc_rebase cfg" for E' l
    by (rule weaken_pre [OF process_omm_group_writes [OF d mg rs _ q] that(1)]) (use that rbc in auto)
  show ?thesis
    unfolding merge_queue_def
    by (auto intro!: serial lead_then cleared [of _ None, unfolded option.case]
        cleared [of _ "Some l" for l, unfolded option.case] orphans group split: option.splits)
qed

lemma merge_attempt_keeps:
  assumes d: "dry \<longrightarrow> mc_dry_run cfg" and mg: merges_ok and rs: rebases_ok and rbc: "rb = mc_rebase cfg"
    and mrs: "\<forall>mr \<in> set mrs. it_kind mr = KMergeRequest"
  shows "triple (base :: 'w gl_run \<Rightarrow> bool) (merge_merge_requests cfg gl mrs) (\<lambda>_. base) base"
proof -
  have opened: "triple (base :: 'w gl_run \<Rightarrow> bool) (if reload then get_opened_merge_requests gl else gret mrs)
      (\<lambda>xs s. base s \<and> (\<forall>mr \<in> set xs. it_kind mr = KMergeRequest)) base" for reload
    using mrs
    by (auto simp: get_opened_merge_requests_def opened_query_def intro!: triple_gret triple_conseq [OF keep_list_items]
        elim: inv_weaken)
  have queue: "triple (inv E {} :: 'w gl_run \<Rightarrow> bool) (gseq (merge_queue cfg gl q) (gret ())) (\<lambda>_. base) base"
    if "known_queue E q" for E q
    by (rule triple_gseq [OF merge_queue_writes [OF d mg rs rbc that]], rule ret) auto
  show ?thesis
    unfolding merge_merge_requests_def
    by (rule read_then, rule triple_gbind [OF opened], rule triple_pure, rule triple_gbind [OF preprocess_keeps],
        use d in \<open>simp add: merge_preprocess_config_def\<close>, assumption, rule triple_exE, rule triple_pure, elim conjE, rule queue)
qed

section \<open>Rebases\<close>

lemma try_rebase_writes:
  assumes d: "dry \<longrightarrow> dry_run" and rs: rebases_ok
    and ev: "\<not> dry \<Longrightarrow> (\<And>s :: 'w gl_run. inv E F s \<Longrightarrow> rebase_evidence (rn_trace s) (it_iid mr) False)"
  shows "triple (inv E F :: 'w gl_run \<Rightarrow> bool) (try_rebase dry_run gl mr) (\<lambda>_. inv E {}) base"
proof (cases dry_run)
  case True
  then show ?thesis by (auto simp: try_rebase_def intro: ret)
next
  case False
  then have nd: "\<not> dry" using d by blast
  show ?thesis
    unfolding try_rebase_def using False
    by (simp, intro try_merge_call_writes [OF write_rebase_call [OF nd rs ev [OF nd]]])
      (auto split: sum.splits gl_exc.splits intro!: ret raise)
qed

lemma rebase_queue_keeps:
  assumes d: "dry \<longrightarrow> rb_dry_run cfg"
  shows "triple (inv E F :: 'w gl_run \<Rightarrow> bool) (rebase_queue cfg gl)
     (\<lambda>mrs s. \<exists>E'. inv E' {} s \<and> (E \<subseteq> E' \<and> known_mrs E' mrs)) base"
proof -
  have preprocessed: "triple (inv E F :: 'w gl_run \<Rightarrow> bool) (get_merge_requests (rb_dry_run cfg) gl users skip)
     (\<lambda>queue s. \<exists>E'. inv E' {} s \<and> (E \<subseteq> E' \<and> known_queue E' queue)) base" for users skip
    unfolding get_merge_requests_def get_opened_merge_requests_def
  proof (rule list_then)
    fix xs :: "gl_item list"
    let ?E = "insert (Listed (opened_query KMergeRequest) (map it_iid xs)) E"
    assume "\<forall>x \<in> set xs. it_kind x = qy_kind (opened_query KMergeRequest)"
    then have xs: "\<forall>x \<in> set xs. it_kind x = KMergeRequest" by (simp add: opened_query_def)
    show "triple (inv ?E F :: 'w gl_run \<Rightarrow> bool) (preprocess_merge_requests \<lparr>pc_dry_run = rb_dry_run cfg, pc_users_allowed = users,
        pc_must_pass = None, pc_skip_unmergeable = skip\<rparr> gl xs) (\<lambda>queue s. \<exists>E'. inv E' {} s \<and> (E \<subseteq> E' \<and> known_queue E' queue)) base"
      by (rule triple_conseq [OF preprocess_keeps [OF _ xs, where E = E and F = F]]) (use d in \<open>auto elim: inv_weaken\<close>)
  qed
  show ?thesis
    unfolding rebase_queue_def
  proof (rule triple_gbind [OF preprocessed], rule triple_exE, rule triple_pure, rule triple_gret)
    fix items E' and s :: "'w gl_run" assume "E \<subseteq> E' \<and> known_queue E' items" "inv E' {} s"
    then have "inv E' {} s" "E \<subseteq> E'" "known_mrs E' (map qi_mr (filter (\<lambda>i. \<not> qi_error i) items))"
      using known_item_unblocked by (auto simp: known_queue_def known_mrs_def) (auto simp: known_item_def)
    then show "\<exists>E'. inv E' {} s \<and> (E \<subseteq> E' \<and> known_mrs E' (map qi_mr (filter (\<lambda>i. \<not> qi_error i) items)))"
      by blast
  qed
qed

lemma rebase_evidence_checked:
  assumes "known_mrs E mrs" "mr \<in> set mrs" "RebaseChecked (it_iid mr) False \<in> E" "inv E F s"
  shows "rebase_evidence (rn_trace s) (it_iid mr) False"
proof -
  obtain ls where ls: "labels_known E KMergeRequest (it_iid mr) ls" "is_good_to_merge ls" "unblocked ls"
    using assms(1,2) by (auto simp: known_mrs_def)
  have "E \<subseteq> set (rn_trace s)" using assms(4) by (simp add: inv_of_def)
  with ls assms(3) show ?thesis
    unfolding rebase_evidence_def by (intro exI [of _ ls]) (auto intro: labels_known_mono)
qed

lemma rebase_up_to_writes:
  assumes d: "dry \<longrightarrow> dry_run" and rs: rebases_ok and known: "known_mrs E mrs" "not_rebased E mrs"
  shows "triple (inv E {} :: 'w gl_run \<Rightarrow> bool) (rebase_up_to dry_run gl budget n mrs) (\<lambda>_. inv E {}) base"
  using known
proof (induction mrs arbitrary: n)
  case Nil
  then show ?case by (auto intro: ret)
next
  case (Cons mr mrs)
  have ev: "rebase_evidence (rn_trace s) (it_iid mr) False" if "inv E {} s" for s :: "'w gl_run"
    by (rule rebase_evidence_checked [OF Cons.prems(1) _ _ that]) (use Cons.prems(2) in \<open>auto simp: not_rebased_def\<close>)
  have rest: "known_mrs E mrs" "not_rebased E mrs" using Cons.prems by (auto simp: known_mrs_def not_rebased_def)
  show ?case
    by (auto intro!: triple_gbind [OF try_rebase_writes [OF d rs ev]] Cons.IH rest ret)
qed

lemma classify_step_keeps:
  assumes d: "dry \<longrightarrow> rb_dry_run cfg" and mr: "mr \<in> set mrs"
  shows "triple (\<lambda>s :: 'w gl_run. \<exists>E'. inv E' {} s \<and> (E \<subseteq> E' \<and> not_rebased E' (snd acc) \<and> set (snd acc) \<subseteq> set mrs))
      (classify_step cfg gl acc mr)
      (\<lambda>acc s. \<exists>E'. inv E' {} s \<and> (E \<subseteq> E' \<and> not_rebased E' (snd acc) \<and> set (snd acc) \<subseteq> set mrs)) base"
    (is "triple (?J acc) _ ?J base")
proof (rule triple_exE, rule triple_pure)
  fix E1 assume acc: "E \<subseteq> E1 \<and> not_rebased E1 (snd acc) \<and> set (snd acc) \<subseteq> set mrs"
  have old: "triple (inv E2 F :: 'w gl_run \<Rightarrow> bool) (gret (n, snd acc)) ?J base" if "E1 \<subseteq> E2" for E2 F n
    using acc that by (intro triple_gret exI [of _ E2]) (auto simp: not_rebased_def elim: inv_weaken)
  have old': "triple (inv E2 F :: 'w gl_run \<Rightarrow> bool) (gret acc) ?J base" if "E1 \<subseteq> E2" for E2 F
    using old [OF that, of F "fst acc"] by simp
  have new: "triple (inv E2 F :: 'w gl_run \<Rightarrow> bool) (gret (n, snd acc @ [mr])) ?J base"
    if "E1 \<subseteq> E2" "RebaseChecked (it_iid mr) False \<in> E2" for E2 F n
    using acc that mr by (intro triple_gret exI [of _ E2]) (auto simp: not_rebased_def elim: inv_weaken)
  have behind: "triple (inv E2 F :: 'w gl_run \<Rightarrow> bool) (gbind (labels_of mr) (\<lambda>labels.
     if OMM_PENDING \<in> set labels then gret acc
     else gseq (cancel_timed_out_pipelines (rb_dry_run cfg) gl mr ps (rb_pipeline_timeout cfg))
       (gret (if should_skip_for_running_pipeline ps (rb_wait_for_pipeline cfg) then acc
              else (fst acc, snd acc @ [mr]))))) ?J base"
    if "E1 \<subseteq> E2" "RebaseChecked (it_iid mr) False \<in> E2" for E2 F ps
  proof (rule labels_then)
    fix ls E3 assume "E2 \<subseteq> E3"
    then have E3: "E1 \<subseteq> E3" "RebaseChecked (it_iid mr) False \<in> E3" using that by auto
    show "triple (inv E3 F :: 'w gl_run \<Rightarrow> bool) (if OMM_PENDING \<in> set ls then gret acc
     else gseq (cancel_timed_out_pipelines (rb_dry_run cfg) gl mr ps (rb_pipeline_timeout cfg))
       (gret (if should_skip_for_running_pipeline ps (rb_wait_for_pipeline cfg) then acc
              else (fst acc, snd acc @ [mr])))) ?J base"
      using old' [OF E3(1)] new [OF E3] by (auto intro!: triple_gseq [OF aside_cancel_timed_out [OF d]])
  qed
  show "triple (inv E1 {} :: 'w gl_run \<Rightarrow> bool) (classify_step cfg gl acc mr) ?J base"
    unfolding classify_step_def Let_def
  proof (rule pipelines_then, rule get_then, rule rebased_then)
    fix ps x b assume x: "it_iid x = it_iid mr"
    let ?P = "PipelinesRead (it_iid mr) ps" and ?C = "RebaseChecked (it_iid x) b"
    have sub: "E1 \<subseteq> insert ?C (insert ?P E1)" by auto
    show "triple (inv (insert ?C (insert ?P E1)) (insert ?C (insert ?P {})) :: 'w gl_run \<Rightarrow> bool)
      (if b then gret (if active_pipeline (without_skipped ps) then (fst acc + 1, snd acc) else acc)
       else gbind (labels_of mr) (\<lambda>labels. if OMM_PENDING \<in> set labels then gret acc
         else gseq (cancel_timed_out_pipelines (rb_dry_run cfg) gl mr (without_skipped ps) (rb_pipeline_timeout cfg))
           (gret (if should_skip_for_running_pipeline (without_skipped ps) (rb_wait_for_pipeline cfg) then acc
                  else (fst acc, snd acc @ [mr]))))) ?J base"
      using old [OF sub] old' [OF sub] behind [OF sub] x by (cases b) auto
  qed
qed

lemma classify_keeps:
  assumes d: "dry \<longrightarrow> rb_dry_run cfg"
  shows "triple (inv E {} :: 'w gl_run \<Rightarrow> bool) (gfold (classify_step cfg gl) (0, []) mrs)
     (\<lambda>acc s. \<exists>E'. inv E' {} s \<and> (E \<subseteq> E' \<and> not_rebased E' (snd acc) \<and> set (snd acc) \<subseteq> set mrs)) base"
proof -
  let ?J = "\<lambda>acc (s :: 'w gl_run). \<exists>E'. inv E' {} s \<and> (E \<subseteq> E' \<and> not_rebased E' (snd acc) \<and> set (snd acc) \<subseteq> set mrs)"
  show ?thesis
    by (rule triple_conseq [OF triple_gfold [where J = ?J, OF classify_step_keeps [OF d]]])
      (auto simp: not_rebased_def intro!: exI [of _ E])
qed

lemma rebase_active_cap_writes:
  assumes d: "dry \<longrightarrow> rb_dry_run cfg" and rs: rebases_ok
  shows "triple (base :: 'w gl_run \<Rightarrow> bool) (rebase_active_cap cfg gl) (\<lambda>_. base) base"
proof -
  have rebases: "triple (inv E {} :: 'w gl_run \<Rightarrow> bool) (gbind (gfold (classify_step cfg gl) (0, []) mrs) (\<lambda>(already_active, needs_rebase).
     gseq (rebase_up_to (rb_dry_run cfg) gl (rb_limit cfg - already_active) 0 needs_rebase) (gret ()))) (\<lambda>_. base) base"
    if known: "known_mrs E mrs" for E mrs
  proof (rule triple_gbind)
    let ?J = "\<lambda>acc (s :: 'w gl_run). \<exists>E'. inv E' {} s \<and> (E \<subseteq> E' \<and> not_rebased E' (snd acc) \<and> set (snd acc) \<subseteq> set mrs)"
    show "triple (inv E {} :: 'w gl_run \<Rightarrow> bool) (gfold (classify_step cfg gl) (0, []) mrs) ?J base"
      by (rule classify_keeps [OF d])
    fix acc
    show "triple (?J acc) (case acc of (already_active, needs_rebase) \<Rightarrow>
       gseq (rebase_up_to (rb_dry_run cfg) gl (rb_limit cfg - already_active) 0 needs_rebase) (gret ())) (\<lambda>_. base) base"
    proof (rule triple_exE, rule triple_pure)
      fix E1 assume E1: "E \<subseteq> E1 \<and> not_rebased E1 (snd acc) \<and> set (snd acc) \<subseteq> set mrs"
      have "known_mrs E1 (snd acc)"
        using known_mrs_mono [OF known] E1 by (auto simp: known_mrs_def)
      then show "triple (inv E1 {} :: 'w gl_run \<Rightarrow> bool) (case acc of (already_active, needs_rebase) \<Rightarrow>
         gseq (rebase_up_to (rb_dry_run cfg) gl (rb_limit cfg - already_active) 0 needs_rebase) (gret ())) (\<lambda>_. base) base"
        using E1 by (cases acc) (auto intro!: triple_gseq [OF rebase_up_to_writes [OF d rs]] ret)
    qed
  qed
  show ?thesis
    unfolding rebase_active_cap_def
    by (rule triple_gbind [OF rebase_queue_keeps [OF d]], rule triple_exE, rule triple_pure, elim conjE, rule rebases)
qed

lemma rebase_old_burst_writes:
  assumes d: "dry \<longrightarrow> rb_dry_run cfg" and rs: rebases_ok
  shows "triple (base :: 'w gl_run \<Rightarrow> bool) (rebase_old_burst cfg gl) (\<lambda>_. base) base"
proof -
  have step: "triple (inv E {} :: 'w gl_run \<Rightarrow> bool) (burst_step cfg gl n mr) (\<lambda>_. inv E {}) base"
    if known: "known_mrs E mrs" and mr: "mr \<in> set mrs" for E n mr mrs
  proof -
    have rebase: "triple (inv E' F :: 'w gl_run \<Rightarrow> bool) (gbind (try_rebase (rb_dry_run cfg) gl mr)
        (\<lambda>ok. gret (if ok then n + 1 else n))) (\<lambda>_. inv E {}) base"
      if "E \<subseteq> E'" "RebaseChecked (it_iid mr) False \<in> E'" for E' F
    proof (rule triple_gbind [OF try_rebase_writes [OF d rs]])
      fix s :: "'w gl_run" assume "inv E' F s"
      then show "rebase_evidence (rn_trace s) (it_iid mr) False"
        by (rule rebase_evidence_checked [OF known_mrs_mono [OF known that(1)] mr that(2)])
    qed (rule ret, use that in auto)
    show ?thesis
      unfolding burst_step_def
    proof (rule get_then, rule rebased_then)
      fix x b assume x: "it_iid x = it_iid mr"
      let ?C = "RebaseChecked (it_iid x) b"
      show "triple (inv (insert ?C E) (insert ?C {}) :: 'w gl_run \<Rightarrow> bool) (if b then gret n
        else gbind (get_merge_request_pipelines gl mr) (\<lambda>pipelines.
          gseq (cancel_timed_out_pipelines (rb_dry_run cfg) gl mr pipelines (rb_pipeline_timeout cfg))
          (if should_skip_for_running_pipeline pipelines (rb_wait_for_pipeline cfg) then gret n
           else if n < rb_limit cfg
           then gbind (try_rebase (rb_dry_run cfg) gl mr) (\<lambda>ok. gret (if ok then n + 1 else n))
           else gret n))) (\<lambda>_. inv E {}) base"
      proof (cases b)
        case True
        then show ?thesis by (auto intro: ret)
      next
        case False
        have out: "triple (inv E' F :: 'w gl_run \<Rightarrow> bool) (gret n) (\<lambda>_. inv E {}) base" if "E \<subseteq> E'" for E' F
          by (rule ret) (use that in auto)
        show ?thesis
          using False x
          by (auto intro!: pipelines_then triple_gseq [OF aside_cancel_timed_out [OF d]] out rebase)
      qed
    qed
  qed
  have burst: "triple (inv E {} :: 'w gl_run \<Rightarrow> bool) (gseq (gfold (burst_step cfg gl) 0 mrs) (gret ())) (\<lambda>_. base) base"
    if "known_mrs E mrs" for E mrs
    by (rule triple_gseq [OF triple_gfold [where J = "\<lambda>_. inv E {}", OF step [OF that]]], assumption, rule ret) auto
  show ?thesis
    unfolding rebase_old_burst_def
    by (rule triple_gbind [OF rebase_queue_keeps [OF d]], rule triple_exE, rule triple_pure, elim conjE, rule burst)
qed

lemma rebase_merge_requests_writes:
  "dry \<longrightarrow> rb_dry_run cfg \<Longrightarrow> rebases_ok \<Longrightarrow> triple (base :: 'w gl_run \<Rightarrow> bool) (rebase_merge_requests strategy cfg gl) (\<lambda>_. base) base"
  unfolding rebase_merge_requests_def
  by (cases strategy) (auto intro: rebase_active_cap_writes rebase_old_burst_writes)

section \<open>Stale items and error labels\<close>

lemma recheck_writes:
  assumes d: "dry \<longrightarrow> dry_run"
  shows "triple (inv E {} :: 'w gl_run \<Rightarrow> bool) (recheck_auto_merge dry_run gl closing x) (\<lambda>_. inv E {}) base"
proof -
  have close: "triple (inv E' F :: 'w gl_run \<Rightarrow> bool)
      (gseq (gwhen b (close_item dry_run gl closing y)) (gret y)) (\<lambda>_. inv E {}) base" if "E \<subseteq> E'" for b y E' F
    unfolding close_item_def
    by (rule triple_gseq, rule triple_gwhen, rule triple_gwhen, rule write_close_gl_item, use d in blast,
        rule inv_forget, assumption, rule inv_forget, assumption, rule ret) (use that in auto)
  have one: "triple (inv E' {} :: 'w gl_run \<Rightarrow> bool) (gbind m (\<lambda>y. gseq
      (gwhen (id_merge_status (it_data y) = Some MsCannotBeMerged) (close_item dry_run gl closing y)) (gret y))) (\<lambda>_. inv E {}) base"
    if "E \<subseteq> E'" "triple (inv E' {} :: 'w gl_run \<Rightarrow> bool) m (\<lambda>_. inv E' {}) base" for E' m
    by (rule triple_gbind [OF that(2) close [OF that(1)]])
  show ?thesis
    unfolding recheck_auto_merge_def
    by (rule labels_then) (auto intro!: ret raise one keep_get split: option.splits)
qed

lemma handle_stale_item_writes:
  assumes d: "dry \<longrightarrow> dry_run"
  shows "triple (base :: 'w gl_run \<Rightarrow> bool) (handle_stale_item dry_run gl days closing now x) (\<lambda>_. base) base"
proof -
  have close: "triple (inv E F :: 'w gl_run \<Rightarrow> bool) (close_item dry_run gl closing y) (\<lambda>_. base) base" for y E F
    unfolding close_item_def
    by (rule triple_gwhen, rule weaken_post [OF write_close_gl_item], use d in blast) (auto intro: inv_base)
  have mark: "triple (inv E F :: 'w gl_run \<Rightarrow> bool) (gwhen (\<not> dry_run) (add_label_with_note gl y stale_label)) (\<lambda>_. base) base" for y E F
    by (rule triple_gwhen, rule weaken_post [OF write_add_label_with_note], use d in blast) (auto intro: inv_base)
  have unmark: "triple (inv E F :: 'w gl_run \<Rightarrow> bool) (gwhen (b \<and> \<not> dry_run) (remove_label gl y stale_label)) (\<lambda>_. base) base" for b y E F
    by (rule triple_gwhen, rule weaken_post [OF write_remove_label], use d in blast) (auto intro: inv_base)
  show ?thesis
    unfolding handle_stale_item_def Let_def
    by (rule triple_gbind [OF recheck_writes [OF d]], rule labels_then)
      (auto intro!: mark close unmark ret call_then simp del: Max_less_iff)
qed

lemma handle_stale_items_writes:
  assumes d: "dry \<longrightarrow> dry_run"
  shows "triple (base :: 'w gl_run \<Rightarrow> bool) (handle_stale_items dry_run gl days closing xs) (\<lambda>_. base) base"
  unfolding handle_stale_items_def
  by (rule read_then, rule triple_gfor, rule handle_stale_item_writes [OF d])

lemma toggle_label_writes:
  assumes d: "dry \<longrightarrow> dry_run"
  shows "triple (inv E F :: 'w gl_run \<Rightarrow> bool) (toggle_label dry_run gl mr label wanted present) (\<lambda>_. base) base"
proof -
  have add: "triple (inv E F :: 'w gl_run \<Rightarrow> bool) (gwhen (\<not> dry_run) (add_label_to_merge_request gl mr label)) (\<lambda>_. base) base"
    by (rule triple_gwhen, rule weaken_post [OF write_add_label], use d in blast) (auto intro: inv_base)
  have remove: "triple (inv E F :: 'w gl_run \<Rightarrow> bool) (gwhen (\<not> dry_run) (remove_label gl mr label)) (\<lambda>_. base) base"
    by (rule triple_gwhen, rule weaken_post [OF write_remove_label], use d in blast) (auto intro: inv_base)
  show ?thesis
    unfolding toggle_label_def by (auto intro!: add remove ret)
qed

lemma error_healthcheck_mr_writes:
  assumes d: "dry \<longrightarrow> dry_run"
  shows "triple (base :: 'w gl_run \<Rightarrow> bool) (error_healthcheck_mr dry_run gl limit mr) (\<lambda>_. base) base"
proof -
  have merge_error: "triple (base :: 'w gl_run \<Rightarrow> bool) (check_merge_error dry_run gl mr) (\<lambda>_. base) base"
  proof -
    have unmark: "triple (base :: 'w gl_run \<Rightarrow> bool) (gwhen (\<not> dry_run) (remove_label gl mr MERGE_ERROR)) (\<lambda>_. base) base"
      by (rule triple_gwhen, rule write_remove_label) (use d in auto)
    show ?thesis
      unfolding check_merge_error_def get_merge_request_label_events_def
      by (auto intro!: call_then ret unmark split: option.splits)
  qed
  have pipes: "triple (base :: 'w gl_run \<Rightarrow> bool) (check_pipeline_error dry_run gl limit mr ls) (\<lambda>_. base) base" for ls
    unfolding check_pipeline_error_def
    by (rule pipelines_then) (auto intro!: ret triple_gseq [OF toggle_label_writes [OF d]] merge_error)
  have fetched: "triple (inv E F :: 'w gl_run \<Rightarrow> bool) (case rebase_failed_answer has r of
        Inl e \<Rightarrow> graise e
      | Inr rebase_failed \<Rightarrow>
          gseq (toggle_label dry_run gl mr REBASE_ERROR rebase_failed has)
          (if rebase_failed \<and> \<not> has then gret () else check_pipeline_error dry_run gl limit mr ls)) (\<lambda>_. base) base"
    for E F has r ls
    by (auto split: sum.splits intro!: raise triple_gseq [OF toggle_label_writes [OF d]] ret pipes)
  have get: "triple (inv E {} :: 'w gl_run \<Rightarrow> bool) (gtry (get_merge_request gl i) f) (\<lambda>_. base) base"
    if "\<And>r. triple (base :: 'w gl_run \<Rightarrow> bool) (f r) (\<lambda>_. base) base" for E i f
    by (rule triple_gtry [where Q = "\<lambda>_. base"], rule triple_conseq [OF keep_get], assumption, rule inv_base, assumption)
      (auto intro: that)
  show ?thesis
    unfolding error_healthcheck_mr_def Let_def
    by (auto intro!: ret labels_then get fetched)
qed

lemma run_error_healthcheck_writes:
  "dry \<longrightarrow> dry_run \<Longrightarrow> triple (base :: 'w gl_run \<Rightarrow> bool) (run_error_healthcheck dry_run gl limit mrs) (\<lambda>_. base) base"
  unfolding run_error_healthcheck_def by (rule triple_gfor, rule error_healthcheck_mr_writes)

section \<open>A repository\<close>

lemma still_opened_keeps:
  assumes "\<forall>mr \<in> set mrs. it_kind mr = KMergeRequest"
  shows "triple (base :: 'w gl_run \<Rightarrow> bool) (still_opened mrs) (\<lambda>xs s. base s \<and> (\<forall>mr \<in> set xs. it_kind mr = KMergeRequest)) base"
  unfolding still_opened_def
  by (rule triple_conseq [OF triple_gfold [where J = "\<lambda>xs s. base s \<and> (\<forall>mr \<in> set xs. it_kind mr = KMergeRequest)"]])
    (use assms in \<open>auto intro!: triple_pure state_then triple_gret split: if_splits\<close>)

lemma merge_with_retries_writes:
  assumes d: "dry \<longrightarrow> dry_run" and mg: merges_ok and rs: rebases_ok and rt: "retries_attempts retry"
    and cfg: "\<And>b. mc_dry_run (cfg b) = dry_run" "\<And>b. mc_rebase (cfg b) = rb"
    and mrs: "\<forall>mr \<in> set mrs. it_kind mr = KMergeRequest"
  shows "triple (base :: 'w gl_run \<Rightarrow> bool) (merge_with_retries retry cfg gl mrs) (\<lambda>_. base) base"
proof -
  have once: "triple (base :: 'w gl_run \<Rightarrow> bool) (retry 10 (merge_merge_requests (cfg b) gl mrs)) (\<lambda>_. base) base" for b
    by (rule triple_retry [OF rt _ merge_attempt_keeps]) (use d mg rs cfg mrs in auto)
  have set: "triple (base :: 'w gl_run \<Rightarrow> bool) (gset_reload False) (\<lambda>_. base) base"
    by (auto simp: triple_def gset_reload_def inv_of_def objects_known_def)
  show ?thesis
    unfolding merge_with_retries_def
    by (rule triple_gseq [OF set], rule triple_gtry [where Q = "\<lambda>_. base"], rule triple_conseq [OF once])
      (auto split: sum.splits intro!: ret once)
qed

lemma housekeep_repository_keeps:
  assumes d: "dry \<longrightarrow> dry_run" and mg: merges_ok and rs: rebases_ok and rt: "retries_attempts retry" and rbc: "rb = hk_rebase hk"
  shows "triple (base :: 'w gl_run \<Rightarrow> bool) (housekeep_repository retry dry_run wait strategy minutes hk gl) (\<lambda>_. base) base"
proof -
  have merges: "triple (base :: 'w gl_run \<Rightarrow> bool)
      (merge_with_retries retry (merge_config_of dry_run wait strategy minutes hk) gl mrs) (\<lambda>_. base) base"
    if "\<forall>mr \<in> set mrs. it_kind mr = KMergeRequest" for mrs
    by (rule merge_with_retries_writes [OF d mg rs rt _ _ that]) (auto simp: merge_config_of_def rbc)
  have rebases: "triple (base :: 'w gl_run \<Rightarrow> bool) (gwhen b
      (rebase_merge_requests strategy (rebase_config_of dry_run wait hk) gl)) (\<lambda>_. base) base" for b
    by (rule triple_gwhen, rule rebase_merge_requests_writes) (use d rs in \<open>auto simp: rebase_config_of_def\<close>)
  have health: "triple (base :: 'w gl_run \<Rightarrow> bool) (gtry (run_error_healthcheck dry_run gl limit mrs) (\<lambda>_. gret ())) (\<lambda>_. base) base" for limit mrs
    by (rule triple_gtry [where Q = "\<lambda>_. base"], rule triple_conseq [OF run_error_healthcheck_writes [OF d]])
      (auto intro: ret)
  have rest: "triple (base :: 'w gl_run \<Rightarrow> bool) (gbind (still_opened opened) (\<lambda>mrs.
      gseq (gtry (run_error_healthcheck dry_run gl limit mrs) (\<lambda>_. gret ()))
      (gseq (merge_with_retries retry (merge_config_of dry_run wait strategy minutes hk) gl mrs)
      (gwhen (hk_rebase hk) (rebase_merge_requests strategy (rebase_config_of dry_run wait hk) gl))))) (\<lambda>_. base) base"
    if "\<forall>mr \<in> set opened. it_kind mr = KMergeRequest" for opened limit
    by (rule triple_gbind [OF still_opened_keeps [OF that]], rule triple_pure, rule triple_gseq [OF health],
        rule triple_gseq [OF merges], assumption, rule rebases)
  have opened: "triple (base :: 'w gl_run \<Rightarrow> bool) (get_opened_merge_requests gl)
      (\<lambda>xs s. base s \<and> (\<forall>mr \<in> set xs. it_kind mr = KMergeRequest)) base"
    unfolding get_opened_merge_requests_def
    by (rule triple_conseq [OF keep_list_items]) (auto simp: opened_query_def elim: inv_weaken)
  have issues: "triple (base :: 'w gl_run \<Rightarrow> bool) (get_issues gl) (\<lambda>_. base) base"
    unfolding get_issues_def by (rule triple_conseq [OF keep_list_items]) (auto elim: inv_weaken)
  show ?thesis
    unfolding housekeep_repository_def Let_def
    by (rule triple_gbind [OF issues], rule triple_gseq [OF handle_stale_items_writes [OF d]],
        rule triple_gbind [OF opened], rule triple_pure, rule triple_gseq [OF handle_stale_items_writes [OF d]], rule rest)
qed

end

section \<open>The invariants\<close>

definition justified :: "bool \<Rightarrow> gl_event list \<Rightarrow> bool" where
  \<comment> \<open>every merge and every rebase had its evidence\<close>
  "justified rb tr \<longleftrightarrow> (\<forall>pre ev post. tr = pre @ ev # post \<longrightarrow> evidence rb pre ev)"

definition reads_only :: "gl_event list \<Rightarrow> bool" where
  "reads_only tr \<longleftrightarrow> (\<forall>ev \<in> set tr. \<not> is_write ev)"

lemma justified_snoc: "justified rb tr \<Longrightarrow> evidence rb tr ev \<Longrightarrow> justified rb (tr @ [ev])"
  unfolding justified_def
proof (intro allI impI)
  fix pre e post
  assume tr: "\<forall>pre ev post. tr = pre @ ev # post \<longrightarrow> evidence rb pre ev" and ev: "evidence rb tr ev"
    and split: "tr @ [ev] = pre @ e # post"
  show "evidence rb pre e"
  proof (cases post rule: rev_cases)
    case Nil
    then show ?thesis using split ev by simp
  next
    case (snoc ys y)
    then have "tr = pre @ e # ys" using split by simp
    then show ?thesis using tr by blast
  qed
qed

interpretation justified_trace: trace_invariant "justified rb" False rb "\<lambda>_. True" for rb
  by unfold_locales (auto intro: justified_snoc)

interpretation silent_trace: trace_invariant reads_only True rb "\<lambda>_. True" for rb
  by unfold_locales (auto simp: reads_only_def)

section \<open>Fresh runs\<close>

definition fresh_run :: "'w \<Rightarrow> 'w gl_run" where
  "fresh_run w = \<lparr>rn_world = w, rn_objects = Map.empty, rn_next = 0, rn_reload = False, rn_trace = []\<rparr>"

lemma fresh_run_inv: "I [] \<Longrightarrow> inv_of I {} {} (fresh_run w)"
  by (simp add: inv_of_def fresh_run_def objects_known_def)

lemma triple_same:
  assumes "triple P m (\<lambda>_. Q) Q" "P s" "m s = (r, s')"
  shows "Q s'"
  using assms(1) [unfolded triple_def, rule_format, OF assms(2)] assms(3) by (simp split: sum.splits)

lemma housekeep_trace_justified:
  assumes "retries_attempts retry" "housekeep_repository retry dry_run wait strategy minutes hk gl (fresh_run w) = (r, s')"
  shows "justified (hk_rebase hk) (rn_trace s')"
proof -
  have "inv_of (justified (hk_rebase hk)) {} {} s'"
    by (rule triple_same [OF justified_trace.housekeep_repository_keeps [OF _ _ _ assms(1) refl] _ assms(2)])
      (auto simp: justified_def intro: fresh_run_inv)
  then show ?thesis by (simp add: inv_of_def)
qed

lemma housekeep_dry_run_reads_only:
  assumes "retries_attempts retry" "housekeep_repository retry True wait strategy minutes hk gl (fresh_run w) = (r, s')"
  shows "reads_only (rn_trace s')"
proof -
  have "inv_of reads_only {} {} s'"
    by (rule triple_same [OF silent_trace.housekeep_repository_keeps [OF _ _ _ assms(1) refl] _ assms(2)])
      (auto simp: reads_only_def intro: fresh_run_inv)
  then show ?thesis by (simp add: inv_of_def)
qed

end
