(* ===== verification/Glh_Bounds.thy ===== *)
theory Glh_Bounds
  imports Glh_Trace_Repo
begin

text \<open>
  How much one run of the GitLab housekeeping does: the number of merges of one attempt and the number of rebases of
  both strategies are bounded by the configured limits, and the members of a group share no tenant label.
\<close>

section \<open>Counting\<close>

definition is_merged :: "gl_event \<Rightarrow> bool" where
  "is_merged ev = (case ev of MergeTried _ _ b \<Rightarrow> b | _ \<Rightarrow> False)"

definition is_ci_rebase :: "gl_event \<Rightarrow> bool" where
  \<comment> \<open>a rebase that starts a pipeline\<close>
  "is_ci_rebase ev = (case ev of RebaseTried _ skip b \<Rightarrow> \<not> skip \<and> b | _ \<Rightarrow> False)"

definition merges_in :: "gl_event list \<Rightarrow> nat" where "merges_in tr = length (filter is_merged tr)"
definition rebases_in :: "gl_event list \<Rightarrow> nat" where "rebases_in tr = length (filter is_ci_rebase tr)"

interpretation merge_count: trace_invariant "\<lambda>tr. merges_in tr \<le> k" False rb "\<lambda>ev. \<not> is_merged ev" for k rb
  by unfold_locales (auto simp: merges_in_def is_merged_def split: gl_event.splits)

interpretation rebase_count: trace_invariant "\<lambda>tr. rebases_in tr \<le> k" False rb "\<lambda>ev. \<not> is_ci_rebase ev" for k rb
  by unfold_locales (auto simp: rebases_in_def is_ci_rebase_def split: gl_event.splits)

abbreviation merged_upto :: "nat \<Rightarrow> gl_event set \<Rightarrow> 'w gl_run \<Rightarrow> bool" where
  "merged_upto k E \<equiv> inv_of (\<lambda>tr. merges_in tr \<le> k) E {}"

abbreviation rebased_upto :: "nat \<Rightarrow> gl_event set \<Rightarrow> 'w gl_run \<Rightarrow> bool" where
  "rebased_upto k E \<equiv> inv_of (\<lambda>tr. rebases_in tr \<le> k) E {}"

lemma merged_upto_mono: "merged_upto k E s \<Longrightarrow> k \<le> k' \<Longrightarrow> E' \<subseteq> E \<Longrightarrow> merged_upto k' E' s"
  by (auto simp: inv_of_def)

lemma rebased_upto_mono: "rebased_upto k E s \<Longrightarrow> k \<le> k' \<Longrightarrow> E' \<subseteq> E \<Longrightarrow> rebased_upto k' E' s"
  by (auto simp: inv_of_def)

lemma merges_in_snoc [simp]: "merges_in (tr @ [ev]) = merges_in tr + (if is_merged ev then 1 else 0)"
  by (simp add: merges_in_def)

lemma rebases_in_snoc [simp]: "rebases_in (tr @ [ev]) = rebases_in tr + (if is_ci_rebase ev then 1 else 0)"
  by (simp add: rebases_in_def)

lemma rebases_not_merged [simp]: "\<not> is_merged (RebaseTried i sk b)" "\<not> is_ci_rebase (MergeTried i sq b)"
  by (simp_all add: is_merged_def is_ci_rebase_def)

section \<open>Merges\<close>

lemma merge_call_counts:
  "triple (merged_upto k E) (merge_call gl mr) (\<lambda>_. merged_upto (Suc k) E) (merged_upto k E)"
proof -
  have emit: "triple (merged_upto k E) (gemit (MergeTried i sq b)) (\<lambda>_. merged_upto (if b then Suc k else k) E) (merged_upto k E)" for i sq b
    by (auto simp: triple_def gemit_def inv_of_def is_merged_def objects_known_def labels_known_def)
  have answered: "triple (merged_upto (Suc k) E) (answered_labels mr ls) (\<lambda>_. merged_upto (Suc k) E) (merged_upto k E)" for ls
    using merge_count.triple_answered_labels [of "Suc k" E "{}" mr ls]
    by (auto simp: triple_def answered_labels_def gseq_def gbind_def gemit_def set_labels_def update_object_def)
  have call: "triple (merged_upto k E) (gcall c) (\<lambda>_. merged_upto k E) (merged_upto k E)" for c
    by (rule merge_count.call_sharp)
  have accepted: "triple (merged_upto k E) (gseq (gemit (MergeTried i sq True)) (answered_labels mr ls))
      (\<lambda>_. merged_upto (Suc k) E) (merged_upto k E)" for i sq ls
    using emit [of i sq True] by (simp only: if_True) (rule triple_gseq, assumption, rule answered)
  have refused: "triple (merged_upto k E) (gseq (gemit (MergeTried i sq False)) (graise e))
      (\<lambda>_. merged_upto (Suc k) E) (merged_upto k E)" for i sq e
    using emit [of i sq False] by (simp only: if_False) (rule triple_gseq, assumption, rule triple_graise)
  show ?thesis
    unfolding merge_call_def Let_def
    by (rule triple_try_cases [OF call]) (simp_all only: isl_def sum.case sum.simps accepted refused simp_thms)
qed

lemma try_merge_counts:
  "triple (merged_upto k E) (try_merge dry_run gl mr) (\<lambda>b. merged_upto (if b then Suc k else k) E) (merged_upto k {})"
proof (cases dry_run)
  case True
  then show ?thesis
    by (simp add: try_merge_def) (rule triple_gret, erule merged_upto_mono, simp_all)
next
  case False
  have refused: "triple (merged_upto k E) (gseq (add_label_to_merge_request gl mr MERGE_ERROR) (gret False))
      (\<lambda>b. merged_upto (if b then Suc k else k) E) (merged_upto k {})"
    by (rule triple_gseq [OF merge_count.write_add_label]) (auto intro: triple_gret)
  have raised: "triple (merged_upto k E) (case Inl e of Inr _ \<Rightarrow> gret True
      | Inl MRClosedError \<Rightarrow> gseq (add_label_to_merge_request gl mr MERGE_ERROR) (gret False) | Inl e \<Rightarrow> graise e)
      (\<lambda>b. merged_upto (if b then Suc k else k) E) (merged_upto k {})" for e
    using refused by (cases e) (auto intro!: triple_graise elim: merged_upto_mono)
  show ?thesis
    unfolding try_merge_def using False
    by (simp only: if_False) (rule triple_try_cases [OF merge_call_counts], simp add: triple_gret, rule raised)
qed

lemma serial_merges_counts:
  assumes "m \<le> bound" "bound = (if mc_rebase cfg then 1 else mc_merge_limit cfg)" "mc_rebase cfg \<longrightarrow> m = 0"
    and q: "known_queue E queue" and i: "known_queue E items"
  shows "triple (merged_upto (n + m) E :: 'w gl_run \<Rightarrow> bool) (serial_merges cfg gl queue m merged items)
     (\<lambda>_. merged_upto (n + bound) {}) (merged_upto (n + bound) {})"
  using i assms(1,3)
proof (induction items arbitrary: m merged)
  case Nil
  then show ?case by (auto intro!: triple_gret elim: merged_upto_mono)
next
  case (Cons item items)
  then have rest: "known_queue E items" by (auto simp: known_queue_def)
  let ?R = "merged_upto (n + bound) {} :: 'w gl_run \<Rightarrow> bool"
  have up: "triple P c (\<lambda>_. Q) ?R" if "triple P c (\<lambda>_. Q) (merged_upto k {})" "k \<le> n + bound"
    for P :: "'w gl_run \<Rightarrow> bool" and c :: "('w, 'c) action" and Q k
    by (rule triple_conseq [OF that(1)]) (use that(2) in \<open>auto elim: merged_upto_mono\<close>)
  have stop: "triple (merged_upto (n + m) E :: 'w gl_run \<Rightarrow> bool) (serial_merges cfg gl queue m ls items) (\<lambda>_. ?R) ?R" for ls
    by (rule Cons.IH [OF rest Cons.prems(2,3)])
  have ready: "triple (merged_upto (n + m) E :: 'w gl_run \<Rightarrow> bool) (ready_to_merge cfg gl m item) (\<lambda>_. merged_upto (n + m) E) ?R"
    by (rule up [OF merge_count.ready_to_merge_keeps]) (use Cons.prems(2) in \<open>auto elim: merged_upto_mono simp: inv_of_def\<close>)
  have merged_then: "triple (merged_upto (Suc (n + m)) E :: 'w gl_run \<Rightarrow> bool) (gbind (labels_of (qi_mr item)) (\<lambda>labels.
     let merged_labels' = merged @ get_tenant_labels labels
     in if mc_rebase cfg \<and> m + 1 = 1
        then gseq (start_group cfg gl queue merged_labels' (qi_mr item)) (gret (m + 1))
        else serial_merges cfg gl queue (m + 1) merged_labels' items)) (\<lambda>_. ?R) ?R" if lt: "m < bound"
  proof (rule triple_gbind [where Q = "\<lambda>_. merged_upto (Suc (n + m)) E"], unfold Let_def)
    show "triple (merged_upto (Suc (n + m)) E :: 'w gl_run \<Rightarrow> bool) (labels_of (qi_mr item)) (\<lambda>_. merged_upto (Suc (n + m)) E) ?R"
      by (rule triple_conseq [OF merge_count.labels_of_sharp [where k = "Suc (n + m)" and E = E and F = "{}"]]) (use lt in \<open>auto elim: merged_upto_mono\<close>)
    fix ls
    show "triple (merged_upto (Suc (n + m)) E :: 'w gl_run \<Rightarrow> bool) (if mc_rebase cfg \<and> m + 1 = 1
        then gseq (start_group cfg gl queue (merged @ get_tenant_labels ls) (qi_mr item)) (gret (m + 1))
        else serial_merges cfg gl queue (m + 1) (merged @ get_tenant_labels ls) items) (\<lambda>_. ?R) ?R"
    proof (cases "mc_rebase cfg \<and> m + 1 = 1")
      case True
      have "triple (merged_upto (Suc (n + m)) E :: 'w gl_run \<Rightarrow> bool)
          (gseq (start_group cfg gl queue (merged @ get_tenant_labels ls) (qi_mr item)) (gret (m + 1))) (\<lambda>_. ?R) ?R"
        by (rule triple_gseq [OF up [OF merge_count.start_group_writes [OF _ _ q]]])
          (use lt in \<open>auto intro!: triple_gret elim: merged_upto_mono\<close>)
      then show ?thesis using True by simp
    next
      case False
      then have "\<not> mc_rebase cfg" using Cons.prems(3) by simp
      then have again: "triple (merged_upto (n + (m + 1)) E :: 'w gl_run \<Rightarrow> bool)
          (serial_merges cfg gl queue (m + 1) (merged @ get_tenant_labels ls) items) (\<lambda>_. ?R) ?R"
        by (intro Cons.IH [OF rest]) (use lt in auto)
      show ?thesis unfolding if_not_P [OF False] using again by simp
    qed
  qed
  show ?case
    unfolding serial_merges.simps
  proof (rule triple_gbind [OF ready])
    fix b
    have lt: "m < bound" if "\<not> mc_merge_limit cfg \<le> m"
      using that Cons.prems assms(2) by (auto split: if_splits)
    show "triple (merged_upto (n + m) E :: 'w gl_run \<Rightarrow> bool) (if \<not> b \<or> mc_merge_limit cfg \<le> m then serial_merges cfg gl queue m merged items
       else gbind (try_merge (mc_dry_run cfg) gl (qi_mr item)) (\<lambda>ok.
         if \<not> ok then serial_merges cfg gl queue m merged items
         else gbind (labels_of (qi_mr item)) (\<lambda>labels.
           let merged_labels' = merged @ get_tenant_labels labels
           in if mc_rebase cfg \<and> m + 1 = 1
              then gseq (start_group cfg gl queue merged_labels' (qi_mr item)) (gret (m + 1))
              else serial_merges cfg gl queue (m + 1) merged_labels' items))) (\<lambda>_. ?R) ?R"
    proof (cases "\<not> b \<or> mc_merge_limit cfg \<le> m")
      case True
      then show ?thesis using stop by simp
    next
      case False
      have "triple (merged_upto (n + m) E :: 'w gl_run \<Rightarrow> bool) (try_merge (mc_dry_run cfg) gl (qi_mr item))
          (\<lambda>ok. merged_upto (if ok then Suc (n + m) else n + m) E) ?R"
        by (rule triple_conseq [OF try_merge_counts [where k = "n + m" and E = E]]) (use Cons.prems(2) in \<open>auto elim: merged_upto_mono\<close>)
      then show ?thesis
        using False stop merged_then lt by (simp only: if_False) (erule triple_gbind, simp)
    qed
  qed
qed


definition events_never_closed :: "'w gitlab \<Rightarrow> bool" where
  \<comment> \<open>only a merge is answered with the exception for closed merge requests\<close>
  "events_never_closed gl \<longleftrightarrow> (\<forall>i w. fst (sv_label_events gl i w) \<noteq> Inl MRClosedError)"

lemma approval_info_not_closed:
  "events_never_closed gl \<Longrightarrow> get_approval_info gl mr s \<noteq> (Inl MRClosedError, s')"
  by (auto simp: get_approval_info_def get_merge_request_label_events_def gbind_def gcall_def labels_of_def attrs_of_def
      gret_def graise_def events_never_closed_def split: prod.splits sum.splits option.splits if_splits)
    (metis fst_conv)+

lemma gtry_gseq: "gtry (gseq m n) f = gtry m (\<lambda>r. case r of Inl e \<Rightarrow> f (Inl e) | Inr _ \<Rightarrow> gtry n f)"
  by (rule ext) (auto simp: gtry_def gseq_def gbind_def split: prod.splits sum.splits)

lemma merge_member_counts:
  assumes "events_never_closed gl"
  shows "triple (merged_upto k E :: 'w gl_run \<Rightarrow> bool) (merge_member dry_run gl mr)
     (\<lambda>r. merged_upto (if mb_merged r then Suc k else k) E) (merged_upto (Suc k) {})"
proof (cases dry_run)
  case True
  then show ?thesis
    by (simp add: merge_member_def) (rule triple_gret, erule merged_upto_mono, simp_all)
next
  case False
  let ?Q = "\<lambda>r. merged_upto (if mb_merged r then Suc k else k) E :: 'w gl_run \<Rightarrow> bool"
  let ?f = "\<lambda>r :: gl_exc + (nat \<times> int) option. case r of
          Inr _ \<Rightarrow> gret \<lparr>mb_merged = True, mb_active = False\<rparr>
        | Inl MRClosedError \<Rightarrow> gseq (add_label_to_merge_request gl mr MERGE_ERROR) (gret no_result)
        | Inl e \<Rightarrow> graise e"
  have refused: "triple (merged_upto k E :: 'w gl_run \<Rightarrow> bool) (?f (Inl e)) ?Q (merged_upto (Suc k) {})" for e
  proof -
    have add: "triple (merged_upto k E :: 'w gl_run \<Rightarrow> bool) (add_label_to_merge_request gl mr MERGE_ERROR) (\<lambda>_. merged_upto k E) (merged_upto (Suc k) {})"
      by (rule triple_conseq [OF merge_count.write_add_label [where k = k and E = E and F = "{}"]])
        (auto elim: merged_upto_mono)
    have "triple (merged_upto k E :: 'w gl_run \<Rightarrow> bool) (gseq (add_label_to_merge_request gl mr MERGE_ERROR) (gret no_result)) ?Q (merged_upto (Suc k) {})"
      by (rule triple_gseq [OF add]) (auto simp: no_result_def intro!: triple_gret)
    then show ?thesis
      by (cases e) (auto intro!: triple_graise elim: merged_upto_mono)
  qed
  have info: "triple (merged_upto (Suc k) E :: 'w gl_run \<Rightarrow> bool) (gtry (get_approval_info gl mr) ?f) ?Q (merged_upto (Suc k) {})"
  proof (rule tripleI)
    have sharp: "triple (merged_upto (Suc k) E :: 'w gl_run \<Rightarrow> bool) (get_approval_info gl mr) (\<lambda>_. merged_upto (Suc k) E) (merged_upto (Suc k) E)"
      by (rule merge_count.approval_info_sharp)
    fix s s' :: "'w gl_run" and x e assume s: "merged_upto (Suc k) E s"
    obtain r s1 where r: "get_approval_info gl mr s = (r, s1)" by force
    have s1: "merged_upto (Suc k) E s1"
      using triple_same [OF sharp s r] .
    have not_closed: "r \<noteq> Inl MRClosedError" using approval_info_not_closed [OF assms] r by metis
    {
      assume "gtry (get_approval_info gl mr) ?f s = (Inr x, s')"
      then show "?Q x s'"
        using s1 not_closed by (cases r) (auto simp: gtry_def r gret_def graise_def split: gl_exc.splits)
    }
    {
      assume "gtry (get_approval_info gl mr) ?f s = (Inl e, s')"
      then show "merged_upto (Suc k) {} s'"
        using s1 not_closed
        by (cases r) (auto simp: gtry_def r gret_def graise_def split: gl_exc.splits elim: merged_upto_mono)
    }
  qed
  have both: "triple (merged_upto k E :: 'w gl_run \<Rightarrow> bool) (gtry (gseq (merge_call gl mr) (get_approval_info gl mr)) f) ?Q (merged_upto (Suc k) {})"
    if "\<And>e. triple (merged_upto k E :: 'w gl_run \<Rightarrow> bool) (f (Inl e)) ?Q (merged_upto (Suc k) {})"
      "triple (merged_upto (Suc k) E :: 'w gl_run \<Rightarrow> bool) (gtry (get_approval_info gl mr) f) ?Q (merged_upto (Suc k) {})" for f
    unfolding gtry_gseq by (rule triple_try_cases [OF merge_call_counts]) (simp_all add: that)
  have "triple (merged_upto k E :: 'w gl_run \<Rightarrow> bool) (gtry (gseq (merge_call gl mr) (get_approval_info gl mr)) ?f) ?Q (merged_upto (Suc k) {})"
    by (rule both [OF refused info])
  then show ?thesis
    unfolding merge_member_def using False by simp
qed

lemma unmerged:
  assumes "triple (merged_upto k E) m (\<lambda>_. merged_upto k E) (merged_upto k {})"
  shows "triple (merged_upto k E) m (\<lambda>_. merged_upto k E) (merged_upto (Suc k) {})"
  by (rule triple_conseq [OF assms]) (auto elim: merged_upto_mono)

abbreviation member_upto :: "nat \<Rightarrow> gl_event set \<Rightarrow> member_result \<Rightarrow> 'w gl_run \<Rightarrow> bool" where
  "member_upto k E r \<equiv> merged_upto (if mb_merged r then Suc k else k) E"

lemma unmerged_result:
  "\<not> mb_merged r \<Longrightarrow> triple (merged_upto k E) (gret r) (member_upto k E) (merged_upto (Suc k) {})"
  by (auto intro: triple_gret)

lemma raised_result: "triple (merged_upto k E) (graise e) Q (merged_upto (Suc k) {})"
  by (rule triple_graise) (erule merged_upto_mono, auto)

lemma eject_counts: "triple (merged_upto k E) (eject dry_run gl mr) (member_upto k E) (merged_upto (Suc k) {})"
  unfolding eject_def
  by (rule triple_gseq, rule triple_gwhen, rule unmerged, rule merge_count.write_remove_label, simp, assumption,
      rule unmerged_result) (simp add: no_result_def)

lemma skip_ci_rebase_member_counts:
  "triple (merged_upto k E) (skip_ci_rebase_member dry_run gl mr) (member_upto k E) (merged_upto (Suc k) {})"
proof -
  have call: "triple (merged_upto k E) (rebase_call gl mr True) (\<lambda>_. merged_upto k E) (merged_upto k E)"
    by (auto simp: triple_def rebase_call_def gtry_def gcall_def gseq_def gbind_def gemit_def gret_def graise_def
        inv_of_def objects_known_def labels_known_def split: prod.splits sum.splits)
  have refused: "triple (merged_upto k E) (gseq (remove_label gl mr OMM_PENDING) (gret no_result)) (member_upto k E) (merged_upto (Suc k) {})"
    by (rule triple_gseq, rule unmerged, rule merge_count.write_remove_label, simp, rule unmerged_result)
      (simp add: no_result_def)
  have raised: "triple (merged_upto k E) (case Inl e of Inr _ \<Rightarrow> gret (active_result True)
      | Inl MRRebaseError \<Rightarrow> gseq (remove_label gl mr OMM_PENDING) (gret no_result) | Inl e \<Rightarrow> graise e)
      (member_upto k E) (merged_upto (Suc k) {})" for e
    using refused by (cases e) (auto intro: raised_result)
  have attempt: "triple (merged_upto k E) (gtry (rebase_call gl mr True) (\<lambda>r. case r of Inr _ \<Rightarrow> gret (active_result True)
      | Inl MRRebaseError \<Rightarrow> gseq (remove_label gl mr OMM_PENDING) (gret no_result) | Inl e \<Rightarrow> graise e))
      (member_upto k E) (merged_upto (Suc k) {})"
    by (rule triple_try_cases [OF call], simp only: sum.case, rule unmerged_result, simp add: active_result_def, rule raised)
  show ?thesis
    using attempt unmerged_result [of "active_result True" k E]
    by (auto simp: skip_ci_rebase_member_def active_result_def)
qed

lemma member_by_pipelines_counts:
  assumes "events_never_closed gl"
  shows "triple (merged_upto k E) (member_by_pipelines dry_run gl mr ps rebased) (member_upto k E) (merged_upto (Suc k) {})"
  unfolding member_by_pipelines_def
  by (cases ps) (auto simp: active_result_def intro!: unmerged_result eject_counts merge_member_counts [OF assms]
      skip_ci_rebase_member_counts)

lemma process_omm_member_counts:
  assumes ev: "events_never_closed gl"
  shows "triple (merged_upto k E :: 'w gl_run \<Rightarrow> bool) (process_omm_member dry_run gl timeout mr)
     (member_upto k E) (merged_upto (Suc k) {})"
proof -
  let ?P = "merged_upto k E :: 'w gl_run \<Rightarrow> bool" and ?R = "merged_upto (Suc k) {} :: 'w gl_run \<Rightarrow> bool"
  have labels: "triple ?P (labels_of mr) (\<lambda>_. ?P) ?R"
    by (rule triple_conseq [OF merge_count.labels_of_sharp [where k = k and E = E and F = "{}"]]) (auto elim: merged_upto_mono)
  have pipes: "triple ?P (get_merge_request_pipelines gl mr) (\<lambda>_. ?P) ?R"
    by (rule unmerged, rule merge_count.keep_pipelines)
  have cancel: "triple ?P (gwhen b (cancel_timed_out_pipelines dry_run gl mr ps timeout)) (\<lambda>_. ?P) ?R" for b ps
    by (rule triple_gwhen, rule unmerged, rule merge_count.aside_cancel_timed_out) auto
  have fresh: "triple ?P (get_merge_request gl i) (\<lambda>_. ?P) ?R" for i
    by (rule unmerged, rule merge_count.keep_get)
  have rebased: "triple ?P (is_rebased gl x) (\<lambda>_. ?P) ?P" for x
    by (rule triple_conseq [OF merge_count.is_rebased_sharp [where k = k and E = E and F = "{}"]]) (auto simp: inv_of_def)
  have checked: "triple ?P (gtry (is_rebased gl x) (\<lambda>r. case r of
       Inl e \<Rightarrow> if e = GetError 404 then eject dry_run gl mr else graise e
     | Inr rebased \<Rightarrow> member_by_pipelines dry_run gl mr ps rebased)) (member_upto k E) ?R" for x ps
    by (rule triple_try_cases [OF rebased]) (auto intro: member_by_pipelines_counts [OF ev] eject_counts raised_result)
  show ?thesis
    unfolding process_omm_member_def
    by (rule triple_gbind [OF labels])
      (auto intro!: eject_counts triple_gbind [OF pipes] triple_gseq [OF cancel] triple_gbind [OF fresh] checked)
qed

lemma process_members_counts:
  assumes ev: "events_never_closed gl" and "m < bound" "bound = max limit 1"
  shows "triple (merged_upto (n + m) E :: 'w gl_run \<Rightarrow> bool) (process_members dry_run gl timeout limit m any mrs)
     (\<lambda>_. merged_upto (n + bound) E) (merged_upto (n + bound) {})"
  using assms(2)
proof (induction mrs arbitrary: m any)
  case Nil
  then show ?case by (auto intro!: triple_gret elim: merged_upto_mono)
next
  case (Cons mr mrs)
  have one: "triple (merged_upto (n + m) E :: 'w gl_run \<Rightarrow> bool) (process_omm_member dry_run gl timeout mr)
      (\<lambda>r. merged_upto (n + (if mb_merged r then m + 1 else m)) E) (merged_upto (n + bound) {})"
    by (rule triple_conseq [OF process_omm_member_counts [OF ev]]) (use Cons.prems in \<open>auto elim: merged_upto_mono split: if_splits\<close>)
  show ?case
    unfolding process_members.simps
  proof (rule triple_gbind [OF one])
    fix r
    show "triple (merged_upto (n + (if mb_merged r then m + 1 else m)) E :: 'w gl_run \<Rightarrow> bool)
      (let merges' = (if mb_merged r then m + 1 else m)
       in if mb_merged r \<and> limit \<le> merges' then gret (merges', any, True)
          else process_members dry_run gl timeout limit merges' (any \<or> mb_active r) mrs)
      (\<lambda>_. merged_upto (n + bound) E) (merged_upto (n + bound) {})"
    proof (cases "mb_merged r \<and> limit \<le> m + 1")
      case True
      then show ?thesis
        using Cons.prems by (auto intro!: triple_gret elim: merged_upto_mono)
    next
      case False
      then have "(if mb_merged r then m + 1 else m) < bound"
        using Cons.prems assms(3) by (auto simp: max_def split: if_splits)
      from Cons.IH [OF this] show ?thesis
        using False by (auto simp: Let_def split: if_splits)
    qed
  qed
qed

lemma stays_upto:
  assumes "triple (merged_upto j E) m (\<lambda>_. merged_upto j E') (merged_upto j {})" "j \<le> k"
  shows "triple (merged_upto j E) m (\<lambda>_. merged_upto k E') (merged_upto k {})"
  by (rule triple_conseq [OF assms(1)]) (use assms(2) in \<open>auto elim: merged_upto_mono\<close>)

lemma process_pending_counts:
  assumes ev: "events_never_closed gl" and bound: "bound = max limit 1" and q: "known_queue E queue" and p: "pending_members E mrs"
  shows "triple (merged_upto n E :: 'w gl_run \<Rightarrow> bool) (process_pending dry_run gl lead timeout limit queue mrs)
     (\<lambda>_. merged_upto (n + bound) {}) (merged_upto (n + bound) {})"
proof -
  let ?B = "n + bound"
  let ?R = "merged_upto ?B {} :: 'w gl_run \<Rightarrow> bool"
  have ejected: "triple (merged_upto n E :: 'w gl_run \<Rightarrow> bool) (eject_overlaps dry_run gl lead mrs) (\<lambda>_. merged_upto n E) ?R"
    by (rule triple_conseq [OF merge_count.eject_overlaps_writes [OF _ p, where k = n]]) (auto elim: merged_upto_mono)
  have members: "triple (merged_upto n E :: 'w gl_run \<Rightarrow> bool) (process_members dry_run gl timeout limit 0 False kept)
      (\<lambda>_. merged_upto ?B E) ?R" for kept
    using process_members_counts [OF ev _ bound, of 0 n E dry_run timeout False kept] bound by simp
  have clear: "triple (merged_upto ?B E :: 'w gl_run \<Rightarrow> bool) (clear_omm_group dry_run gl l p) (\<lambda>_. ?R) ?R" for l p
    by (rule triple_conseq [OF merge_count.clear_omm_group_writes [where k = ?B and E = E and F = "{}"]]) (auto elim: merged_upto_mono)
  have expand: "triple (merged_upto ?B E :: 'w gl_run \<Rightarrow> bool) (expand_omm_group dry_run gl lead kept queue) (\<lambda>_. merged_upto ?B E) ?R" for kept
    by (rule triple_conseq [OF merge_count.expand_omm_group_writes [OF _ _ q, where k = ?B]]) auto
  have rest: "triple (merged_upto ?B E :: 'w gl_run \<Rightarrow> bool)
      (if reached then gseq (clear_omm_group dry_run gl (Some lead) (Some kept)) (gret merges)
       else gbind (expand_omm_group dry_run gl lead kept queue) (\<lambda>retained.
         gseq (gwhen (\<not> any \<and> retained = []) (clear_omm_group dry_run gl (Some lead) None)) (gret merges)))
      (\<lambda>_. ?R) ?R" for reached kept merges any
  proof (cases reached)
    case True
    then show ?thesis by (simp, intro triple_gseq [OF clear]) (rule triple_gret)
  next
    case False
    have "triple (merged_upto ?B E :: 'w gl_run \<Rightarrow> bool)
        (gseq (gwhen b (clear_omm_group dry_run gl (Some lead) None)) (gret merges)) (\<lambda>_. ?R) ?R" for b
      by (rule triple_gseq, rule triple_gwhen, rule clear, erule merged_upto_mono, simp, simp, rule triple_gret)
    then show ?thesis using False by (simp, intro triple_gbind [OF expand])
  qed
  show ?thesis
    unfolding process_pending_def
    by (rule triple_gbind [OF ejected], rule triple_gbind [OF members], clarify, rule rest)
qed

lemma process_omm_group_counts:
  assumes ev: "events_never_closed gl" and bound: "bound = max limit 1" and q: "known_queue E queue"
  shows "triple (merged_upto n E :: 'w gl_run \<Rightarrow> bool) (process_omm_group dry_run gl lead minutes timeout limit queue)
     (\<lambda>_. merged_upto (n + bound) {}) (merged_upto (n + bound) {})"
proof -
  let ?R = "merged_upto (n + bound) {} :: 'w gl_run \<Rightarrow> bool"
  have clear: "triple (merged_upto n E' :: 'w gl_run \<Rightarrow> bool) (gseq (clear_omm_group dry_run gl l p) (gret x)) (\<lambda>_. ?R) ?R" for E' l p x
    by (rule triple_gseq [OF stays_upto [OF merge_count.clear_omm_group_writes]]) (auto intro!: triple_gret elim: merged_upto_mono)
  have members: "triple (merged_upto n E :: 'w gl_run \<Rightarrow> bool) (gbind (get_omm_pending_mrs gl) (\<lambda>pending.
     if pending = [] then gseq (clear_omm_group dry_run gl (Some lead) (Some pending)) (gret 0)
     else process_pending dry_run gl lead timeout limit queue pending)) (\<lambda>_. ?R) ?R"
  proof (rule triple_gbind [where Q = "\<lambda>mrs s. \<exists>E'. merged_upto n E' s \<and> (E \<subseteq> E' \<and> pending_members E' mrs)"])
    have "triple (merged_upto n E :: 'w gl_run \<Rightarrow> bool) (gbind (get_omm_pending_mrs gl) gret)
        (\<lambda>mrs s. \<exists>E'. merged_upto n E' s \<and> (E \<subseteq> E' \<and> pending_members E' mrs)) (merged_upto n {})"
      by (rule merge_count.pending_then) (auto intro!: triple_gret)
    then have "triple (merged_upto n E :: 'w gl_run \<Rightarrow> bool) (get_omm_pending_mrs gl)
        (\<lambda>mrs s. \<exists>E'. merged_upto n E' s \<and> (E \<subseteq> E' \<and> pending_members E' mrs)) (merged_upto n {})"
      by (simp add: gbind_def gret_def triple_def split_def sum.case_distrib cong: sum.case_cong)
    then show "triple (merged_upto n E :: 'w gl_run \<Rightarrow> bool) (get_omm_pending_mrs gl)
        (\<lambda>mrs s. \<exists>E'. merged_upto n E' s \<and> (E \<subseteq> E' \<and> pending_members E' mrs)) ?R"
      by (rule triple_conseq) (auto elim: merged_upto_mono)
    fix mrs
    show "triple (\<lambda>s :: 'w gl_run. \<exists>E'. merged_upto n E' s \<and> (E \<subseteq> E' \<and> pending_members E' mrs))
       (if mrs = [] then gseq (clear_omm_group dry_run gl (Some lead) (Some mrs)) (gret 0)
        else process_pending dry_run gl lead timeout limit queue mrs) (\<lambda>_. ?R) ?R"
      by (rule triple_exE, rule triple_pure) (auto intro!: clear process_pending_counts [OF ev bound] known_queue_mono [OF q])
  qed
  have time: "triple (merged_upto n E :: 'w gl_run \<Rightarrow> bool) (merged_time lead) (\<lambda>_. merged_upto n E) ?R"
    unfolding merged_time_def by (auto split: option.splits intro!: triple_gret triple_graise elim: merged_upto_mono)
  have window: "triple (merged_upto n E :: 'w gl_run \<Rightarrow> bool) (is_omm_window_open gl lead minutes) (\<lambda>_. merged_upto n E) ?R"
    unfolding is_omm_window_open_def by (rule triple_gbind [OF time]) (auto simp: triple_def gread_def)
  have call: "triple (merged_upto n E :: 'w gl_run \<Rightarrow> bool) (gcall c) (\<lambda>_. merged_upto n E) ?R" for c
    by (rule triple_conseq [OF merge_count.triple_gcall [where k = n]]) (auto elim: merged_upto_mono)
  have ci: "triple (merged_upto n E :: 'w gl_run \<Rightarrow> bool) (check_post_merge_ci gl lead) (\<lambda>_. merged_upto n E) ?R"
    unfolding check_post_merge_ci_def by (rule triple_gbind [OF time], rule triple_gbind [OF call], rule triple_gret)
  have intact: "triple (merged_upto n E :: 'w gl_run \<Rightarrow> bool) (check_target_branch_integrity gl lead sha) (\<lambda>_. merged_upto n E) ?R" for sha
  proof -
    have shas: "triple (merged_upto n E' :: 'w gl_run \<Rightarrow> bool) (gfold (\<lambda>shas mr. gbind (get_merge_request gl (it_iid mr)) (\<lambda>fresh.
         gret (shas @ truthy_sha (id_merge_commit_sha (it_data fresh)) @
                      truthy_sha (id_squash_commit_sha (it_data fresh))))) [] xs) (\<lambda>_. merged_upto n E') (merged_upto n {})" for E' xs
      by (rule triple_gfold [where J = "\<lambda>_. merged_upto n E'"], rule merge_count.get_then, rule triple_gret)
    have "triple (merged_upto n E :: 'w gl_run \<Rightarrow> bool) (check_target_branch_integrity gl lead sha) (\<lambda>_. merged_upto n E) (merged_upto n {})"
      unfolding check_target_branch_integrity_def
      by (auto intro!: merge_count.call_then merge_count.ret merge_count.list_then triple_gbind [OF shas])
    then show ?thesis by (rule triple_conseq) (auto elim: merged_upto_mono)
  qed
  have zero: "triple (merged_upto n E :: 'w gl_run \<Rightarrow> bool) (gret x) (\<lambda>_. ?R) ?R" for x
    by (rule triple_gret, erule merged_upto_mono) auto
  show ?thesis
    unfolding process_omm_group_def
    by (rule triple_gbind [OF window])
      (auto intro!: clear triple_gbind [OF ci] zero triple_gbind [OF intact] members split: option.splits)
qed

lemma merge_queue_counts:
  assumes ev: "events_never_closed gl" and bound: "bound = max (mc_merge_limit cfg) 1" and q: "known_queue E queue"
  shows "triple (merged_upto n E :: 'w gl_run \<Rightarrow> bool) (merge_queue cfg gl queue)
     (\<lambda>_. merged_upto (n + bound) {}) (merged_upto (n + bound) {})"
proof -
  let ?R = "merged_upto (n + bound) {} :: 'w gl_run \<Rightarrow> bool"
  have serial: "triple (merged_upto n E' :: 'w gl_run \<Rightarrow> bool) (serial_merges cfg gl queue 0 [] queue) (\<lambda>_. ?R) ?R"
    if "E \<subseteq> E'" for E'
    by (rule triple_conseq [OF serial_merges_counts [OF _ refl _ known_queue_mono [OF q that] known_queue_mono [OF q that], where n = n and m = 0]])
      (use bound in \<open>auto elim: merged_upto_mono split: if_splits\<close>)
  have cleared: "triple (merged_upto n E' :: 'w gl_run \<Rightarrow> bool) (clear_omm_group (mc_dry_run cfg) gl l p) (\<lambda>_. merged_upto n E') ?R" for E' l p
    by (rule triple_conseq [OF merge_count.clear_omm_group_writes [where k = n and E = E' and F = "{}"]]) (auto elim: merged_upto_mono)
  have lead: "triple (merged_upto n E :: 'w gl_run \<Rightarrow> bool) (get_omm_group_lead gl) (\<lambda>_. merged_upto n E) ?R"
  proof -
    have "triple (merged_upto n E :: 'w gl_run \<Rightarrow> bool) (get_omm_group_lead gl) (\<lambda>_. merged_upto n E) (merged_upto n {})"
      unfolding get_omm_group_lead_def by (rule merge_count.list_then) (auto intro: merge_count.ret)
    then show ?thesis by (rule triple_conseq) (auto elim: merged_upto_mono)
  qed
  have pending: "triple (merged_upto n E :: 'w gl_run \<Rightarrow> bool) (get_omm_pending_mrs gl) (\<lambda>_. merged_upto n E) ?R"
    unfolding get_omm_pending_mrs_def
    by (rule triple_conseq [OF merge_count.keep_list_items [where k = n and E = E and F = "{}"]]) (auto elim: merged_upto_mono)
  have switched_off: "triple (merged_upto n E :: 'w gl_run \<Rightarrow> bool) (gseq (case l of None \<Rightarrow> gret () | Some l \<Rightarrow>
      clear_omm_group (mc_dry_run cfg) gl (Some l) None) (serial_merges cfg gl queue 0 [] queue)) (\<lambda>_. ?R) ?R" for l
    by (rule triple_gseq [where Q = "merged_upto n E"], cases l) (auto intro!: triple_gret cleared serial)
  have orphans: "triple (merged_upto n E :: 'w gl_run \<Rightarrow> bool) (gbind (get_omm_pending_mrs gl) (\<lambda>pending.
          gseq (gwhen (pending \<noteq> []) (clear_omm_group (mc_dry_run cfg) gl None (Some pending)))
          (serial_merges cfg gl queue 0 [] queue))) (\<lambda>_. ?R) ?R"
    by (rule triple_gbind [OF pending], rule triple_gseq, rule triple_gwhen, rule cleared, assumption, rule serial) simp
  show ?thesis
    unfolding merge_queue_def
    by (auto intro!: serial triple_gbind [OF lead] switched_off [of None, unfolded option.case]
        switched_off [of "Some l" for l, unfolded option.case] orphans process_omm_group_counts [OF ev bound q] split: option.splits)
qed

lemma attempt_counts:
  assumes ev: "events_never_closed gl" and bound: "bound = max (mc_merge_limit cfg) 1"
    and mrs: "\<forall>mr \<in> set mrs. it_kind mr = KMergeRequest"
  shows "triple (merged_upto n {} :: 'w gl_run \<Rightarrow> bool) (merge_merge_requests cfg gl mrs)
     (\<lambda>_. merged_upto (n + bound) {}) (merged_upto (n + bound) {})"
proof -
  let ?R = "merged_upto (n + bound) {} :: 'w gl_run \<Rightarrow> bool"
  have reload: "triple (merged_upto n {} :: 'w gl_run \<Rightarrow> bool) (gread rn_reload) (\<lambda>_. merged_upto n {}) ?R"
    by (auto simp: triple_def gread_def)
  have opened: "triple (merged_upto n {} :: 'w gl_run \<Rightarrow> bool) (if b then get_opened_merge_requests gl else gret mrs)
      (\<lambda>xs s. merged_upto n {} s \<and> (\<forall>mr \<in> set xs. it_kind mr = KMergeRequest)) ?R" for b
    using mrs
    by (auto simp: get_opened_merge_requests_def opened_query_def intro!: triple_gret
        triple_conseq [OF merge_count.keep_list_items [where k = n and E = "{}" and F = "{}"]] elim: merged_upto_mono)
  have queue: "triple (merged_upto n E :: 'w gl_run \<Rightarrow> bool) (gseq (merge_queue cfg gl q) (gret ())) (\<lambda>_. ?R) ?R"
    if "known_queue E q" for E q
    by (rule triple_gseq [OF merge_queue_counts [OF ev bound that]], rule triple_gret)
  have preprocessed: "triple (merged_upto n {} :: 'w gl_run \<Rightarrow> bool) (preprocess_merge_requests (merge_preprocess_config cfg) gl xs)
      (\<lambda>q s. \<exists>E'. merged_upto n E' s \<and> ({} \<subseteq> E' \<and> known_queue E' q)) ?R"
    if "\<forall>mr \<in> set xs. it_kind mr = KMergeRequest" for xs
    by (rule triple_conseq [OF merge_count.preprocess_keeps [OF _ that, where k = n and E = "{}" and F = "{}"]])
      (auto elim: merged_upto_mono)
  show ?thesis
    unfolding merge_merge_requests_def
    by (rule triple_gbind [OF reload], rule triple_gbind [OF opened], rule triple_pure, rule triple_gbind [OF preprocessed],
        assumption, rule triple_exE, rule triple_pure, elim conjE, rule queue)
qed

section \<open>Rebases\<close>

lemma try_rebase_counts:
  "triple (rebased_upto k E) (try_rebase dry_run gl mr) (\<lambda>b. rebased_upto (if b then Suc k else k) E) (rebased_upto k {})"
proof -
  have "triple (rebased_upto k E) (rebase_call gl mr False) (\<lambda>_. rebased_upto (Suc k) E) (rebased_upto k E)"
    by (auto simp: triple_def rebase_call_def gtry_def gcall_def gseq_def gbind_def gemit_def gret_def graise_def
        inv_of_def objects_known_def labels_known_def is_ci_rebase_def split: prod.splits sum.splits)
  note call = this
  have "triple (rebased_upto k E) (gtry (rebase_call gl mr False) (\<lambda>r.
        case r of Inr _ \<Rightarrow> gret True | Inl MRRebaseError \<Rightarrow> gret False | Inl e \<Rightarrow> graise e))
      (\<lambda>b. rebased_upto (if b then Suc k else k) E) (rebased_upto k {})"
  proof (rule triple_try_cases [OF call])
    show "triple (rebased_upto k E) (case Inl e of Inr _ \<Rightarrow> gret True | Inl MRRebaseError \<Rightarrow> gret False | Inl e \<Rightarrow> graise e)
      (\<lambda>b. rebased_upto (if b then Suc k else k) E) (rebased_upto k {})" for e
      by (cases e) (auto intro!: triple_gret triple_graise elim: rebased_upto_mono)
  qed (auto intro: triple_gret)
  moreover have "triple (rebased_upto k E) (gret True) (\<lambda>b. rebased_upto (if b then Suc k else k) E) (rebased_upto k {})"
    by (rule triple_gret) (auto elim: rebased_upto_mono)
  ultimately show ?thesis by (auto simp: try_rebase_def)
qed

lemma rebase_up_to_counts:
  assumes "m \<le> budget"
  shows "triple (rebased_upto (n + m) E) (rebase_up_to dry_run gl budget m mrs)
     (\<lambda>_. rebased_upto (n + budget) {}) (rebased_upto (n + budget) {})"
  using assms
proof (induction mrs arbitrary: m)
  case Nil
  then show ?case by (auto intro!: triple_gret elim: rebased_upto_mono)
next
  case (Cons mr mrs)
  show ?case
  proof (cases "m < budget")
    case True
    have one: "triple (rebased_upto (n + m) E) (try_rebase dry_run gl mr)
        (\<lambda>b. rebased_upto (n + (if b then m + 1 else m)) E) (rebased_upto (n + budget) {})"
      by (rule triple_conseq [OF try_rebase_counts [where k = "n + m" and E = E]])
        (use Cons.prems in \<open>auto elim: rebased_upto_mono split: if_splits\<close>)
    have rest: "triple (rebased_upto (n + (if b then m + 1 else m)) E)
        (rebase_up_to dry_run gl budget (if b then m + 1 else m) mrs) (\<lambda>_. rebased_upto (n + budget) {}) (rebased_upto (n + budget) {})" for b
      by (rule Cons.IH) (use True in auto)
    show ?thesis using True by (simp only: rebase_up_to.simps if_True) (rule triple_gbind [OF one rest])
  next
    case False
    then show ?thesis using Cons.prems by (auto intro!: triple_gret elim: rebased_upto_mono)
  qed
qed

lemma active_cap_counts:
  assumes s: "objects_known s" and queue: "rebase_queue cfg gl s = (Inr mrs, s1)"
    and classified: "gfold (classify_step cfg gl) (0, []) mrs s1 = (Inr (active, waiting), s2)"
    and run: "rebase_active_cap cfg gl s = (r, s')"
  shows "rebases_in (rn_trace s') \<le> rebases_in (rn_trace s) + (rb_limit cfg - active)"
proof -
  let ?n = "rebases_in (rn_trace s)"
  have "rebased_upto ?n {} s" using s by (simp add: inv_of_def)
  then obtain E where E: "rebased_upto ?n E s1"
    using tripleD_value [OF rebase_count.rebase_queue_keeps [where k = ?n and E = "{}" and F = "{}"] _ queue] by auto
  then obtain E' where E': "rebased_upto ?n E' s2"
    using tripleD_value [OF rebase_count.classify_keeps [where k = ?n and E = E] _ classified] by auto
  then have "rebased_upto (?n + 0) E' s2" by simp
  moreover obtain r' where "rebase_up_to (rb_dry_run cfg) gl (rb_limit cfg - active) 0 waiting s2 = (r', s')"
    using run queue classified
    by (auto simp: rebase_active_cap_def gbind_def gseq_def gret_def split: prod.splits sum.splits)
  ultimately have "rebased_upto (?n + (rb_limit cfg - active)) {} s'"
    by (intro triple_same [OF rebase_up_to_counts [where n = ?n and m = 0]]) auto
  then show ?thesis by (simp add: inv_of_def)
qed

lemma burst_counts:
  "triple (\<lambda>s. rebased_upto (n + m) E s \<and> m \<le> rb_limit cfg) (burst_step cfg gl m mr)
     (\<lambda>m' s. rebased_upto (n + m') E s \<and> m' \<le> rb_limit cfg) (rebased_upto (n + rb_limit cfg) {})"
proof (rule triple_pure)
  assume m: "m \<le> rb_limit cfg"
  let ?R = "rebased_upto (n + rb_limit cfg) {}"
  let ?Q = "\<lambda>m' s. rebased_upto (n + m') E s \<and> m' \<le> rb_limit cfg"
  have up: "triple P c Q (rebased_upto (n + m) {}) \<Longrightarrow> triple P c Q ?R" for P c Q
    by (erule triple_conseq) (use m in \<open>auto elim: rebased_upto_mono\<close>)
  have same: "triple (rebased_upto (n + m) E) (gret m) ?Q ?R"
    by (rule triple_gret) (use m in auto)
  have rebase: "triple (rebased_upto (n + m) E) (gbind (try_rebase (rb_dry_run cfg) gl mr) (\<lambda>ok. gret (if ok then m + 1 else m))) ?Q ?R"
    if "m < rb_limit cfg"
    by (rule triple_gbind [OF up [OF try_rebase_counts]], rule triple_gret) (use that in auto)
  have fresh: "triple (rebased_upto (n + m) E) (get_merge_request gl i) (\<lambda>_. rebased_upto (n + m) E) ?R" for i
    by (rule up, rule rebase_count.keep_get)
  have rebased: "triple (rebased_upto (n + m) E) (is_rebased gl x) (\<lambda>_. rebased_upto (n + m) E) ?R" for x
    by (rule up, rule triple_conseq [OF rebase_count.is_rebased_sharp [where k = "n + m" and E = E and F = "{}"]])
      (auto simp: inv_of_def)
  have pipes: "triple (rebased_upto (n + m) E) (get_merge_request_pipelines gl mr) (\<lambda>_. rebased_upto (n + m) E) ?R"
    by (rule up, rule rebase_count.keep_pipelines)
  have cancel: "triple (rebased_upto (n + m) E) (cancel_timed_out_pipelines (rb_dry_run cfg) gl mr ps t) (\<lambda>_. rebased_upto (n + m) E) ?R" for ps t
    by (rule up, rule rebase_count.aside_cancel_timed_out) simp
  show "triple (rebased_upto (n + m) E) (burst_step cfg gl m mr) ?Q ?R"
    unfolding burst_step_def
    by (rule triple_gbind [OF fresh], rule triple_gbind [OF rebased])
      (auto intro!: same triple_gbind [OF pipes] triple_gseq [OF cancel] rebase)
qed

lemma old_burst_counts:
  assumes s: "objects_known s" and run: "rebase_old_burst cfg gl s = (r, s')"
  shows "rebases_in (rn_trace s') \<le> rebases_in (rn_trace s) + rb_limit cfg"
proof -
  let ?n = "rebases_in (rn_trace s)"
  have start: "rebased_upto ?n {} s" using s by (simp add: inv_of_def)
  have "triple (rebased_upto ?n {}) (rebase_old_burst cfg gl) (\<lambda>_. rebased_upto (?n + rb_limit cfg) {}) (rebased_upto (?n + rb_limit cfg) {})"
  proof -
    let ?R = "rebased_upto (?n + rb_limit cfg) {}"
    let ?J = "\<lambda>E m s. rebased_upto (?n + m) E s \<and> m \<le> rb_limit cfg"
    have queue: "triple (rebased_upto ?n {}) (rebase_queue cfg gl)
        (\<lambda>mrs s. \<exists>E'. rebased_upto ?n E' s \<and> ({} \<subseteq> E' \<and> known_mrs E' mrs)) ?R"
      by (rule triple_conseq [OF rebase_count.rebase_queue_keeps [where k = ?n and E = "{}" and F = "{}"]])
        (auto elim: rebased_upto_mono)
    have burst: "triple (rebased_upto ?n E) (gseq (gfold (burst_step cfg gl) 0 mrs) (gret ())) (\<lambda>_. ?R) ?R" for E mrs
    proof (unfold gseq_def, rule triple_gbind)
      show "triple (rebased_upto ?n E) (gfold (burst_step cfg gl) 0 mrs) (?J E) ?R"
        by (rule triple_conseq [OF triple_gfold [where J = "?J E", OF burst_counts]]) auto
      show "triple (?J E m) (gret ()) (\<lambda>_. ?R) ?R" for m
        by (rule triple_gret) (auto elim: rebased_upto_mono)
    qed
    show ?thesis
      unfolding rebase_old_burst_def
      by (rule triple_gbind [OF queue], rule triple_exE, rule triple_pure, rule burst)
  qed
  from triple_same [OF this start run] show ?thesis by (simp add: inv_of_def)
qed

lemma active_cap_limit:
  assumes s: "objects_known s" and run: "rebase_active_cap cfg gl s = (r, s')"
  shows "rebases_in (rn_trace s') \<le> rebases_in (rn_trace s) + rb_limit cfg"
proof -
  let ?n = "rebases_in (rn_trace s)"
  let ?R = "rebased_upto (?n + rb_limit cfg) {}"
  have queue: "triple (rebased_upto ?n {}) (rebase_queue cfg gl)
      (\<lambda>mrs s. \<exists>E'. rebased_upto ?n E' s \<and> ({} \<subseteq> E' \<and> known_mrs E' mrs)) ?R"
    by (rule triple_conseq [OF rebase_count.rebase_queue_keeps [where k = ?n and E = "{}" and F = "{}"]])
      (auto elim: rebased_upto_mono)
  have rebases: "triple (rebased_upto (?n + 0) {}) (gseq (rebase_up_to (rb_dry_run cfg) gl (rb_limit cfg - active) 0 waiting) (gret ()))
      (\<lambda>_. ?R) ?R" for active waiting
  proof (rule triple_gseq)
    show "triple (rebased_upto (?n + 0) {}) (rebase_up_to (rb_dry_run cfg) gl (rb_limit cfg - active) 0 waiting) (\<lambda>_. ?R) ?R"
      by (rule triple_conseq [OF rebase_up_to_counts [where n = ?n and m = 0]]) (auto elim: rebased_upto_mono)
  qed (rule triple_gret)
  have classified: "triple (rebased_upto ?n E) (gfold (classify_step cfg gl) (0, []) mrs) (\<lambda>_. rebased_upto (?n + 0) {}) ?R" for E mrs
    by (rule triple_conseq [OF rebase_count.classify_keeps [where k = ?n and E = E]]) (auto elim: rebased_upto_mono)
  have "triple (rebased_upto ?n {}) (rebase_active_cap cfg gl) (\<lambda>_. ?R) ?R"
    unfolding rebase_active_cap_def
    by (rule triple_gbind [OF queue], rule triple_exE, rule triple_pure, rule triple_gbind [OF classified])
      (auto simp: case_prod_beta intro: rebases [simplified])
  moreover have "rebased_upto ?n {} s" using s by (simp add: inv_of_def)
  ultimately have "?R s'" using run by (rule triple_same)
  then show ?thesis by (simp add: inv_of_def)
qed

end
