(* ===== verification/Glh_Groups.thy ===== *)
theory Glh_Groups
  imports Glh_Laws
begin

text \<open>
  Optimistic multi-merge groups: the candidates that are put together touch different tenants, and which of them
  entered the queue and in which order.
\<close>

section \<open>Groups\<close>

definition labels_in :: "'w gl_run \<Rightarrow> gl_item \<Rightarrow> string list" where
  "labels_in s x = (case rn_objects s (object_key x) of None \<Rightarrow> [] | Some oa \<Rightarrow> oa_labels oa)"

definition tenants_in :: "'w gl_run \<Rightarrow> gl_item \<Rightarrow> string set" where
  "tenants_in s x = set (get_tenant_labels (labels_in s x))"

definition separate :: "'w gl_run \<Rightarrow> gl_item list \<Rightarrow> bool" where
  \<comment> \<open>every member has a tenant, and no two members share one\<close>
  "separate s mrs \<longleftrightarrow> (\<forall>mr \<in> set mrs. tenants_in s mr \<noteq> {}) \<and>
     sorted_wrt (\<lambda>a b. tenants_in s a \<inter> tenants_in s b = {}) mrs"

lemma labels_of_value:
  "labels_of x s = (r, s') \<Longrightarrow> s' = s \<and> (\<forall>ls. r = Inr ls \<longrightarrow> ls = labels_in s x)"
  by (auto simp: labels_of_def attrs_of_def gbind_def gret_def labels_in_def split: option.splits)

lemma triple_labels_in:
  "triple (\<lambda>s. P s) (labels_of x) (\<lambda>ls s. P s \<and> ls = labels_in s x) (\<lambda>_. True)"
  by (rule tripleI) (auto dest: labels_of_value)

lemma triple_pipelines_objects:
  "triple (\<lambda>s. rn_objects s = ob) (get_merge_request_pipelines gl mr) (\<lambda>_ s. rn_objects s = ob) (\<lambda>_. True)"
  by (auto simp: triple_def get_merge_request_pipelines_def gbind_def gseq_def gcall_def gemit_def gret_def
      split: prod.splits sum.splits)

lemma separate_objects: "rn_objects s = rn_objects s' \<Longrightarrow> separate s mrs = separate s' mrs"
  by (simp add: separate_def tenants_in_def labels_in_def)

lemma form_omm_group_separate:
  assumes "form_omm_group gl items merged s = (Inr mrs, s')"
  shows "rn_objects s' = rn_objects s \<and> separate s mrs \<and> (\<forall>mr \<in> set mrs. tenants_in s mr \<inter> set merged = {})"
proof -
  let ?ob = "rn_objects s"
  let ?G = "\<lambda>acc. separate s (fst acc) \<and> set (snd acc) = set merged \<union> (\<Union>mr \<in> set (fst acc). tenants_in s mr) \<and>
      (\<forall>mr \<in> set (fst acc). tenants_in s mr \<inter> set merged = {})"
  let ?J = "\<lambda>acc s1. rn_objects s1 = ?ob \<and> ?G acc"
  have step: "triple (?J acc) (form_step gl acc item) ?J (\<lambda>_. True)" for acc item
  proof (rule triple_pure)
    assume acc: "?G acc"
    have keep: "triple (\<lambda>s1. rn_objects s1 = ?ob) (gret acc) ?J (\<lambda>_. True)"
      by (rule triple_gret) (use acc in simp)
    have add: "triple (\<lambda>s1. rn_objects s1 = ?ob) (gret (fst acc @ [qi_mr item], snd acc @ get_tenant_labels ls)) ?J (\<lambda>_. True)"
      if "ls = labels_in s (qi_mr item)" "is_eligible_for_optimistic_merge ls"
        "\<not> has_overlapping_labels (get_tenant_labels ls) (snd acc)" for ls
    proof (rule triple_gret, intro conjI)
      have new: "tenants_in s (qi_mr item) = set (get_tenant_labels ls)"
        using that(1) by (simp add: tenants_in_def)
      moreover have "set (get_tenant_labels ls) \<inter> set (snd acc) = {}"
        using that(3) by (simp add: has_overlapping_labels_def)
      moreover have "set (get_tenant_labels ls) \<noteq> {}"
        using that(2) by (simp add: is_eligible_for_optimistic_merge_def)
      ultimately show "separate s (fst (fst acc @ [qi_mr item], snd acc @ get_tenant_labels ls))"
        "set (snd (fst acc @ [qi_mr item], snd acc @ get_tenant_labels ls)) =
          set merged \<union> (\<Union>mr \<in> set (fst (fst acc @ [qi_mr item], snd acc @ get_tenant_labels ls)). tenants_in s mr)"
        "\<forall>mr \<in> set (fst (fst acc @ [qi_mr item], snd acc @ get_tenant_labels ls)). tenants_in s mr \<inter> set merged = {}"
        using acc by (auto simp: separate_def sorted_wrt_append)
    qed
    have labels: "triple (\<lambda>s1. rn_objects s1 = ?ob) (labels_of x) (\<lambda>ls s1. rn_objects s1 = ?ob \<and> ls = labels_in s x) (\<lambda>_. True)" for x
      by (rule triple_conseq [OF triple_labels_in [where P = "\<lambda>s1. rn_objects s1 = ?ob"]]) (auto simp: labels_in_def)
    show "triple (\<lambda>s1. rn_objects s1 = ?ob) (form_step gl acc item) ?J (\<lambda>_. True)"
      unfolding form_step_def Let_def
      by (auto intro!: keep triple_gbind [OF labels] triple_pure triple_gbind [OF triple_pipelines_objects] add)
  qed
  have loop: "triple (?J ([], merged)) (gfold (form_step gl) ([], merged) items) ?J (\<lambda>_. True)"
    by (rule triple_gfold [where J = ?J]) (rule step)
  obtain acc where acc: "gfold (form_step gl) ([], merged) items s = (Inr acc, s')" and mrs: "mrs = fst acc"
    using assms by (auto simp: form_omm_group_def gbind_def gret_def split: prod.splits sum.splits)
  have "?J acc s'"
    by (rule tripleD_value [OF loop _ acc]) (simp add: separate_def)
  then show ?thesis by (simp add: mrs)
qed

section \<open>The queue\<close>

definition queue_order :: "queue_item \<Rightarrow> queue_item \<Rightarrow> bool" where
  \<comment> \<open>the better label priority, then the earlier approval\<close>
  "queue_order a b \<longleftrightarrow> qi_label_priority a < qi_label_priority b \<or>
     qi_label_priority a = qi_label_priority b \<and> qi_approved_at a \<le> qi_approved_at b"

lemma insort_queue_order:
  assumes "sorted_wrt queue_order zs" "\<forall>z \<in> set zs. qi_approved_at y \<le> qi_approved_at z"
  shows "sorted_wrt queue_order (insort_key qi_label_priority y zs)"
  using assms
proof (induction zs)
  case (Cons z zs)
  then show ?case
    by (auto simp: queue_order_def set_insort_key)
qed simp

lemma by_priority_sorted: "sorted_wrt queue_order (by_priority items)"
proof -
  have "sorted_wrt queue_order (sort_key qi_label_priority ys)" if "sorted (map qi_approved_at ys)" for ys
    using that
  proof (induction ys)
    case (Cons y ys)
    then show ?case by (simp add: insort_queue_order)
  qed simp
  then show ?thesis by (simp add: by_priority_def)
qed

end
