(* ===== verification/Glh_Theorems.thy ===== *)
theory Glh_Theorems
  imports Glh_Bounds Glh_Groups
begin

text \<open>
  The properties of the GitLab housekeeping: the evidence for merges and rebases, dry runs, bounds, groups, the queue
  and its authorization, and the two ways in which an approval that is gone still has an effect.
\<close>

section \<open>Labels and their authors\<close>

definition added_by_allowed :: "string list option \<Rightarrow> string \<Rightarrow> label_event list \<Rightarrow> string \<Rightarrow> bool" where
  "added_by_allowed users_allowed own_user evs name \<longleftrightarrow> (\<exists>ev \<in> set evs. le_action ev = ''add'' \<and> le_label ev = Some name \<and>
     may_label users_allowed own_user (le_user ev))"

definition added_by_anyone :: "label_event list \<Rightarrow> string \<Rightarrow> bool" where
  "added_by_anyone evs name \<longleftrightarrow> (\<exists>ev \<in> set evs. le_action ev = ''add'' \<and> le_label ev = Some name)"

definition saves_as_told :: "'w gitlab \<Rightarrow> bool" where
  \<comment> \<open>the service answers a save with the labels it was given\<close>
  "saves_as_told gl \<longleftrightarrow> (\<forall>k i ls w ls' w'. sv_save gl k i ls w = (Inr ls', w') \<longrightarrow> ls' = ls)"

lemma set_after_add: "set (add_if_absent xs x) = insert x (set xs)"
  by (auto simp: add_if_absent_def)

lemma scan_sets:
  "set (ls_authorized (foldl (scan_label_event users own) sc evs)) =
     set (ls_authorized sc) \<union> {n. added_by_allowed users own evs n}"
  "set (ls_unauthorized (foldl (scan_label_event users own) sc evs)) =
     set (ls_unauthorized sc) \<union> {n. \<exists>ev \<in> set evs. le_action ev = ''add'' \<and> le_label ev = Some n \<and> \<not> may_label users own (le_user ev)}"
  by (induction evs arbitrary: sc)
    (auto simp: added_by_allowed_def scan_label_event_def set_after_add Let_def split: option.splits)

lemma scan_authorized: "n \<in> set (ls_authorized (scan_label_events users own evs)) \<longleftrightarrow> added_by_allowed users own evs n"
  by (simp add: scan_label_events_def scan_sets added_by_allowed_def)

lemma scan_unauthorized:
  "n \<in> set (ls_unauthorized (scan_label_events users own evs)) \<longleftrightarrow>
     (\<exists>ev \<in> set evs. le_action ev = ''add'' \<and> le_label ev = Some n \<and> \<not> may_label users own (le_user ev))"
  by (simp add: scan_label_events_def scan_sets)

lemma answered_labels_in:
  "answered_labels x ls s = (Inr u, s') \<Longrightarrow> set (labels_in s' x) \<subseteq> set ls"
  by (cases "rn_objects s (object_key x)")
    (auto simp: answered_labels_def gseq_def gbind_def gemit_def set_labels_def update_object_def labels_in_def)

lemma save_labels_in:
  assumes "saves_as_told gl" "save_labels gl x ls s = (Inr u, s')"
  shows "set (labels_in s' x) \<subseteq> set ls"
proof -
  obtain ls' s1 w w' where "sv_save gl (it_kind x) (it_iid x) ls w = (Inr ls', w')" "answered_labels x ls' s1 = (Inr u, s')"
    using assms(2)
    by (auto simp: save_labels_def gseq_def gbind_def gcall_def gemit_def set_labels_def update_object_def
        split: prod.splits sum.splits)
  moreover from this have "ls' = ls" using assms(1) unfolding saves_as_told_def by blast
  ultimately show ?thesis using answered_labels_in by blast
qed

lemma remove_labels_in:
  assumes "saves_as_told gl" "remove_labels gl x ls s = (Inr u, s')"
  shows "set (labels_in s' x) \<inter> set ls = {}"
proof -
  obtain s1 where run: "(if set ls \<inter> set (labels_in s1 x) = {} then gret ()
      else save_labels gl x (remdups (filter (\<lambda>l. l \<notin> set ls) (labels_in s1 x)))) s1 = (Inr u, s')"
    using assms(2)
    by (auto simp: remove_labels_def gseq_def gbind_def dest!: labels_of_value split: prod.splits sum.splits)
  show ?thesis
  proof (cases "set ls \<inter> set (labels_in s1 x) = {}")
    case True
    then show ?thesis using run by (auto simp: gret_def)
  next
    case False
    then have "save_labels gl x (remdups (filter (\<lambda>l. l \<notin> set ls) (labels_in s1 x))) s1 = (Inr u, s')" using run by simp
    from save_labels_in [OF assms(1) this] show ?thesis by auto
  qed
qed


lemma gbind_value: "gbind m f s = (Inr y, s') \<Longrightarrow> \<exists>x s1. m s = (Inr x, s1) \<and> f x s1 = (Inr y, s')"
  by (auto simp: gbind_def split: prod.splits sum.splits)

lemma gbind_at: "m s = (Inr x, s1) \<Longrightarrow> gbind m f s = f x s1"
  by (simp add: gbind_def)

lemma labels_of_eq: "labels_of x s = (Inr ls, s') \<Longrightarrow> ls = labels_in s x \<and> s' = s"
  by (drule labels_of_value) simp

lemma queue_by_labels_run:
  assumes "queue_by_labels cfg gl vars mr s = (Inr (a, queue), s')" "length (snd vars) < length queue"
    and "sv_label_events gl (it_iid mr) (rn_world s) = (Inr evs, w)"
  defines "sc \<equiv> scan_label_events (pc_users_allowed cfg) (sv_user gl) evs"
  defines "bad \<equiv> filter (\<lambda>l. l \<notin> set (ls_authorized sc) \<and> l \<in> set (labels_in s mr)) (ls_unauthorized sc)"
  shows "is_good_to_merge (labels_in s' mr)"
    "\<exists>u. gwhen (bad \<noteq> [] \<and> \<not> pc_dry_run cfg) (remove_labels gl mr bad) (s\<lparr>rn_world := w\<rparr>) = (Inr u, s')"
proof -
  let ?s = "s\<lparr>rn_world := w\<rparr>"
  have "labels_in ?s mr = labels_in s mr" by (simp add: labels_in_def)
  moreover obtain ls s1 where "labels_of mr ?s = (Inr ls, s1)"
    using assms(1,3) unfolding queue_by_labels_def get_merge_request_label_events_def
    by (auto simp: gcall_def dest!: gbind_value)
  ultimately have lab: "labels_of mr ?s = (Inr (labels_in s mr), ?s)"
    using labels_of_eq by metis
  have ev: "gcall (sv_label_events gl (it_iid mr)) s = (Inr evs, ?s)"
    by (simp add: gcall_def assms(3))
  have "queue_by_labels cfg gl vars mr s = gseq (gwhen (bad \<noteq> [] \<and> \<not> pc_dry_run cfg) (remove_labels gl mr bad))
        (gbind (labels_of mr) (\<lambda>labels'.
         if \<not> is_good_to_merge labels' then gret (approval_found (fst vars) sc, snd vars)
         else case approval_found (fst vars) sc of
           None \<Rightarrow> graise UnboundLocalError
         | Some a \<Rightarrow> gret (approval_found (fst vars) sc, snd vars @ [queue_entry mr labels' a]))) ?s"
    (is "_ = gseq ?remove (gbind _ ?add) ?s")
    unfolding queue_by_labels_def get_merge_request_label_events_def bad_def sc_def Let_def
    by (simp add: gbind_at [of "gcall (sv_label_events gl (it_iid mr))" s evs ?s, OF ev]
        gbind_at [of "labels_of mr" ?s "labels_in s mr" ?s, OF lab])
  then have "gbind ?remove (\<lambda>_. gbind (labels_of mr) ?add) ?s = (Inr (a, queue), s')"
    using assms(1) by (simp only: gseq_def)
  from gbind_value [OF this] obtain u s2 where rem: "?remove ?s = (Inr u, s2)"
    and rest: "gbind (labels_of mr) ?add s2 = (Inr (a, queue), s')" by blast
  from gbind_value [OF rest] obtain ls s3 where l3: "labels_of mr s2 = (Inr ls, s3)"
    and add3: "?add ls s3 = (Inr (a, queue), s')" by blast
  have ls: "ls = labels_in s2 mr" and add: "?add ls s2 = (Inr (a, queue), s')"
    using labels_of_eq [OF l3] add3 by blast+
  have "s' = s2" "is_good_to_merge ls"
    using add assms(2) by (auto simp: gret_def graise_def split: if_splits option.splits)
  then show "is_good_to_merge (labels_in s' mr)"
    "\<exists>u. gwhen (bad \<noteq> [] \<and> \<not> pc_dry_run cfg) (remove_labels gl mr bad) (s\<lparr>rn_world := w\<rparr>) = (Inr u, s')"
    using rem ls by auto
qed

section \<open>Safety\<close>

text \<open>C3. Merges and rebases are justified: whatever GitLab answers and whenever calls fail, a run of the housekeeping
  of a repository asks for a merge only when before it the labels of the merge request were read with an approval label
  and without hold and error labels, its newest pipeline that counts was read as successful and, in a repository that
  rebases, it was found rebased, the last two since the last write to any label or merge request. A member of a group
  needs its place in the listing of members instead of an approval label. Rebases need labels in the same way, and a
  rebase that starts a pipeline needs the merge request to have been found behind its branch.\<close>
theorem merges_are_justified:
  assumes "retries_attempts retry"
    and "housekeep_repository retry dry_run wait strategy minutes hk gl (fresh_run w) = (r, s')"
    and "n < length (rn_trace s')"
  shows "evidence (hk_rebase hk) (take n (rn_trace s')) (rn_trace s' ! n)"
proof -
  have "rn_trace s' = take n (rn_trace s') @ rn_trace s' ! n # drop (Suc n) (rn_trace s')"
    using assms(3) by (rule id_take_nth_drop)
  then show ?thesis
    using housekeep_trace_justified [OF assms(1,2)] unfolding justified_def by blast
qed

text \<open>C14. A dry run only reads: it changes no label, merges, rebases, cancels and closes nothing, writes no comment and
  stores no state, in any repository and with any settings.\<close>
theorem dry_run_reads_only:
  assumes "retries_attempts retry"
    and "housekeep_repository retry True wait strategy minutes hk gl (fresh_run w) = (r, s')"
    and "ev \<in> set (rn_trace s')"
  shows "\<not> is_write ev"
  using housekeep_dry_run_reads_only [OF assms(1,2)] assms(3) by (simp add: reads_only_def)

text \<open>C8. Unauthorized labels do not count: a merge request that enters the queue outside a dry run carries an approval
  label and no hold label, and every label it had and still has, if anyone added it, was added by an allowed user or by
  the integration itself.\<close>
theorem unauthorized_labels_do_not_count:
  assumes "queue_by_labels cfg gl vars mr s = (Inr (a, queue), s')" "\<not> pc_dry_run cfg" "saves_as_told gl"
    and "length (snd vars) < length queue" "sv_label_events gl (it_iid mr) (rn_world s) = (Inr evs, w)"
  shows "is_good_to_merge (labels_in s' mr) \<and>
    (\<forall>l \<in> set (labels_in s mr) \<inter> set (labels_in s' mr). added_by_anyone evs l \<longrightarrow>
       added_by_allowed (pc_users_allowed cfg) (sv_user gl) evs l)"
proof -
  let ?sc = "scan_label_events (pc_users_allowed cfg) (sv_user gl) evs"
  let ?bad = "filter (\<lambda>l. l \<notin> set (ls_authorized ?sc) \<and> l \<in> set (labels_in s mr)) (ls_unauthorized ?sc)"
  note run = queue_by_labels_run [OF assms(1,4,5)]
  have clean: "?bad = [] \<or> set (labels_in s' mr) \<inter> set ?bad = {}"
  proof (cases "?bad = []")
    case False
    then have "\<exists>u. remove_labels gl mr ?bad (s\<lparr>rn_world := w\<rparr>) = (Inr u, s')"
      using run(2) assms(2) by (simp add: gwhen_def)
    then show ?thesis using remove_labels_in [OF assms(3)] by blast
  qed simp
  have bad: "l \<in> set ?bad" if "l \<in> set (labels_in s mr)" "added_by_anyone evs l"
      "\<not> added_by_allowed (pc_users_allowed cfg) (sv_user gl) evs l" for l
    using that by (auto simp: scan_authorized scan_unauthorized added_by_anyone_def) (auto simp: added_by_allowed_def)
  show ?thesis
  proof (intro conjI ballI impI run(1), rule ccontr)
    fix l assume l: "l \<in> set (labels_in s mr) \<inter> set (labels_in s' mr)" "added_by_anyone evs l"
      "\<not> added_by_allowed (pc_users_allowed cfg) (sv_user gl) evs l"
    then have "l \<in> set ?bad" by (intro bad) auto
    then have "?bad \<noteq> []" "l \<in> set (labels_in s' mr) \<inter> set ?bad" using l(1) by (metis empty_iff empty_set, blast)
    then show False using clean by blast
  qed
qed

text \<open>C18. Groups are separate: every member of a group that is formed touches a tenant, no two members touch the same
  tenant, and none touches a tenant of what was merged before.\<close>
theorem groups_are_separate:
  assumes "form_omm_group gl items merged_labels s = (Inr mrs, s')"
  shows "(\<forall>mr \<in> set mrs. tenants_in s mr \<noteq> {} \<and> tenants_in s mr \<inter> set merged_labels = {}) \<and>
    sorted_wrt (\<lambda>a b. tenants_in s a \<inter> tenants_in s b = {}) mrs"
  using form_omm_group_separate [OF assms] by (simp add: separate_def)

section \<open>Bounds\<close>

text \<open>C11. One attempt of the merging merges at most as many merge requests as the limit of the repository, or one where
  the limit is zero, whatever happens in between and also when it raises.\<close>
theorem attempt_merges_bounded:
  assumes "events_never_closed gl" "objects_known s" "\<forall>mr \<in> set mrs. it_kind mr = KMergeRequest"
    and "merge_merge_requests cfg gl mrs s = (r, s')"
  shows "merges_in (rn_trace s') \<le> merges_in (rn_trace s) + max (mc_merge_limit cfg) 1"
proof -
  have "merged_upto (merges_in (rn_trace s) + max (mc_merge_limit cfg) 1) {} s'"
    by (rule triple_same [OF attempt_counts [OF assms(1) refl assms(3)] _ assms(4)])
      (use assms(2) in \<open>simp add: inv_of_def\<close>)
  then show ?thesis by (simp add: inv_of_def)
qed

text \<open>C22. Rebasing respects the limit: with any strategy at most as many rebases that start pipelines succeed as the
  limit says, and with the strategies with an active cap the merge requests that are rebased already and have an active
  pipeline count against it.\<close>
theorem rebases_bounded:
  assumes "objects_known s" "rebase_merge_requests strategy cfg gl s = (r, s')"
  shows "rebases_in (rn_trace s') \<le> rebases_in (rn_trace s) + rb_limit cfg \<and>
    (strategy \<noteq> OldBurst \<longrightarrow> (\<forall>mrs s1 active waiting s2. rebase_queue cfg gl s = (Inr mrs, s1) \<longrightarrow>
       gfold (classify_step cfg gl) (0, []) mrs s1 = (Inr (active, waiting), s2) \<longrightarrow>
       rebases_in (rn_trace s') \<le> rebases_in (rn_trace s) + (rb_limit cfg - active)))"
proof (cases "strategy = OldBurst")
  case True
  then show ?thesis using old_burst_counts [OF assms(1)] assms(2) by (simp add: rebase_merge_requests_def)
next
  case False
  then have run: "rebase_active_cap cfg gl s = (r, s')"
    using assms(2) by (cases strategy) (simp_all add: rebase_merge_requests_def)
  then show ?thesis
    using active_cap_counts [OF assms(1) _ _ run] active_cap_limit [OF assms(1) run] False by blast
qed

section \<open>Approvals that are gone\<close>

lemma scan_keeps_none:
  assumes "\<forall>name \<in> set MERGE_LABELS_PRIORITY. \<not> added_by_allowed users own evs name" "ls_approval sc = None"
  shows "ls_approval (foldl (scan_label_event users own) sc evs) = None"
  using assms
proof (induction evs arbitrary: sc)
  case (Cons ev evs)
  have "ls_approval (scan_label_event users own sc ev) = None"
    using Cons.prems by (auto simp: scan_label_event_def added_by_allowed_def Let_def split: option.splits)
  then show ?case using Cons by (auto simp: added_by_allowed_def)
qed simp

lemma no_approval_scanned:
  "\<forall>name \<in> set MERGE_LABELS_PRIORITY. \<not> added_by_allowed users own evs name \<Longrightarrow>
     ls_approval (scan_label_events users own evs) = None"
  unfolding scan_label_events_def by (rule scan_keeps_none) (auto simp: added_by_allowed_def)

lemma objects_kept_by_checks:
  assumes "get_merge_request_pipelines gl mr s = (Inr ps, s1)" "get_merge_request gl i s1 = (Inr fresh, s2)"
    "is_rebased gl fresh s2 = (Inr b, s3)" "rn_objects s (object_key mr) = Some oa" "it_obj mr < rn_next s"
  shows "rn_objects s3 (object_key mr) = Some oa"
proof -
  have "rn_objects s1 = rn_objects s" "rn_next s1 = rn_next s"
    using assms(1) by (auto simp: get_merge_request_pipelines_def gbind_def gseq_def gcall_def gemit_def gret_def
        split: prod.splits sum.splits)
  moreover have "rn_objects s2 (object_key mr) = rn_objects s1 (object_key mr)" if "it_obj mr < rn_next s1"
    using assms(2) that by (auto simp: get_merge_request_def gbind_def gcall_def new_object_def object_key_def
        split: prod.splits sum.splits)
  moreover have "rn_objects s3 = rn_objects s2"
    using assms(3) by (auto simp: is_rebased_def gbind_def gseq_def gcall_def gemit_def gret_def
        split: prod.splits sum.splits)
  ultimately show ?thesis using assms(4,5) by simp
qed

lemma merge_without_approval:
  assumes obj: "rn_objects s (object_key mr) = Some oa" and labels: "set MERGE_LABELS_PRIORITY \<inter> set (oa_labels oa) = {}"
    and merge: "sv_merge gl (it_iid mr) (sv_squash_always gl \<or> id_squash (it_data mr)) (rn_world s) = (Inr (oa_labels oa), w)"
    and evs: "sv_label_events gl (it_iid mr) w = (Inr evs, w')"
    and ev: "ev \<in> set evs" "le_action ev = ''add''" "le_label ev = Some name" "name \<in> set MERGE_LABELS_PRIORITY"
  shows "\<exists>s'. merge_member False gl mr s = (Inl ValueError, s') \<and>
    MergeTried (it_iid mr) (sv_squash_always gl \<or> id_squash (it_data mr)) True \<in> set (rn_trace s')"
proof -
  have none: "label_priorities (oa_labels oa) = []"
    using labels by (auto simp: label_priorities_def filter_empty_conv)
  have "List.find (\<lambda>ev. le_action ev = ''add'' \<and> (case le_label ev of None \<Rightarrow> False | Some n \<Rightarrow> n \<in> set MERGE_LABELS_PRIORITY)) (rev evs) \<noteq> None"
    using ev by (auto simp: find_None_iff)
  then show ?thesis
    using obj merge evs none
    by (auto simp: merge_member_def merge_call_def get_approval_info_def get_merge_request_label_events_def gtry_def
        gseq_def gbind_def gcall_def gemit_def gret_def graise_def answered_labels_def set_labels_def update_object_def
        labels_of_def attrs_of_def Let_def)
qed


text \<open>C16. A withdrawn approval does not stop a merge: a member of a group whose labels hold no approval label any more,
  but neither a hold nor an error label, is merged once it is rebased and its pipeline succeeded. The run then fails
  when it looks for the priority of the merge among the labels.\<close>
theorem withdrawn_approval_is_merged:
  assumes "rn_objects s (object_key mr) = Some oa" "it_obj mr < rn_next s" "unblocked (oa_labels oa)"
    and "set MERGE_LABELS_PRIORITY \<inter> set (oa_labels oa) = {}"
    and "get_merge_request_pipelines gl mr s = (Inr ps, s1)" "first_success (ci_signal ps)"
    and "get_merge_request gl (it_iid mr) s1 = (Inr fresh, s2)" "is_rebased gl fresh s2 = (Inr True, s3)"
    and "sv_merge gl (it_iid mr) (sv_squash_always gl \<or> id_squash (it_data mr)) (rn_world s3) = (Inr (oa_labels oa), w4)"
    and "sv_label_events gl (it_iid mr) w4 = (Inr evs, w5)"
    and "ev \<in> set evs" "le_action ev = ''add''" "le_label ev = Some name" "name \<in> set MERGE_LABELS_PRIORITY"
  shows "\<exists>s'. process_omm_member False gl None mr s = (Inl ValueError, s') \<and>
    MergeTried (it_iid mr) (sv_squash_always gl \<or> id_squash (it_data mr)) True \<in> set (rn_trace s')"
proof -
  have "rn_objects s3 (object_key mr) = Some oa"
    using objects_kept_by_checks [OF assms(5,7,8,1,2)] .
  from merge_without_approval [OF this assms(4,9-14)] obtain s' where merge: "merge_member False gl mr s3 = (Inl ValueError, s')"
      "MergeTried (it_iid mr) (sv_squash_always gl \<or> id_squash (it_data mr)) True \<in> set (rn_trace s')"
    by blast
  obtain p rest where ps: "ci_signal ps = p # rest" "pl_status p = PlSuccess"
    using assms(6) by (cases "ci_signal ps") (auto simp: first_success_def)
  then have "ps \<noteq> []" by (auto simp: ci_signal_def)
  moreover have "labels_of mr s = (Inr (oa_labels oa), s)"
    using assms(1) by (simp add: labels_of_def attrs_of_def gbind_def gret_def)
  ultimately have "process_omm_member False gl None mr s = merge_member False gl mr s3"
    using assms(3,5,7,8) ps
    by (simp add: process_omm_member_def gbind_def gseq_def gtry_def gwhen_def gret_def cancel_timed_out_pipelines_def
        member_by_pipelines_def unblocked_def Int_commute)
  then show ?thesis using merge by simp
qed

end
