(* ===== verification/Glh_Demo.thy ===== *)
theory Glh_Demo
  imports Glh_Bounds Glh_Groups
begin

text \<open>
  A small GitLab in which the housekeeping can be run: merge requests with their labels, pipelines and label events, a
  branch whose commits have ancestors, and a clock that stands still. It is an instance of the parameter of the model
  and serves the concrete examples only.
\<close>

lemma update_object_code [code]:
  \<comment> \<open>the entry is looked up before the update, so that evaluation does not repeat the lookup\<close>
  "update_object f x = (\<lambda>s. case rn_objects s (object_key x) of
     None \<Rightarrow> (Inr (), s)
   | Some oa \<Rightarrow> (Inr (), s\<lparr>rn_objects := (rn_objects s)(object_key x \<mapsto> f oa)\<rparr>))"
  by (rule ext) (auto simp: update_object_def fun_upd_idem split: option.splits)

record demo =
  dm_mrs :: "item_data list"
  dm_pipelines :: "(int \<times> gl_pipeline list) list"
  dm_events :: "(int \<times> label_event list) list"
  dm_head :: string
  dm_ancestors :: "(string \<times> string) list"
  dm_now :: int

definition demo_matches :: "mr_query \<Rightarrow> item_data \<Rightarrow> bool" where
  "demo_matches q d \<longleftrightarrow> qy_kind q = KMergeRequest \<and> id_state d = qy_state q \<and>
     list_all (\<lambda>l. l \<in> set (id_labels d)) (qy_labels q) \<and>
     (case qy_target_branch q of None \<Rightarrow> True | Some b \<Rightarrow> id_target_branch d = b)"

definition demo_list :: "mr_query \<Rightarrow> (demo, item_data list) service_call" where
  "demo_list q w = (let ds = filter (demo_matches q) (dm_mrs w) in (Inr (if qy_latest q then take 1 ds else ds), w))"

definition demo_get :: "item_kind \<Rightarrow> int \<Rightarrow> (demo, item_data) service_call" where
  "demo_get k i w = (case List.find (\<lambda>d. id_iid d = i) (dm_mrs w) of
     None \<Rightarrow> (Inl (GetError 404), w) | Some d \<Rightarrow> (Inr d, w))"

definition demo_update :: "int \<Rightarrow> (item_data \<Rightarrow> item_data) \<Rightarrow> demo \<Rightarrow> demo" where
  "demo_update i f w = w\<lparr>dm_mrs := map (\<lambda>d. if id_iid d = i then f d else d) (dm_mrs w)\<rparr>"

definition demo_save :: "item_kind \<Rightarrow> int \<Rightarrow> string list \<Rightarrow> (demo, string list) service_call" where
  "demo_save k i ls w = (Inr ls, demo_update i (\<lambda>d. d\<lparr>id_labels := ls\<rparr>) w)"

definition demo_close :: "item_kind \<Rightarrow> int \<Rightarrow> (demo, gl_mr_state) service_call" where
  "demo_close k i w = (Inr MrClosed, demo_update i (\<lambda>d. d\<lparr>id_state := MrClosed\<rparr>) w)"

definition ancestors_of :: "string \<Rightarrow> demo \<Rightarrow> (string \<times> string) list" where
  "ancestors_of a w = filter (\<lambda>p. fst p = a) (dm_ancestors w)"

definition grow :: "string \<Rightarrow> string \<Rightarrow> demo \<Rightarrow> demo" where
  \<comment> \<open>a new commit on top of another one\<close>
  "grow new old w = w\<lparr>dm_ancestors := dm_ancestors w @ (new, old) # map (\<lambda>p. (new, snd p)) (ancestors_of old w)\<rparr>"

definition demo_merge :: "int \<Rightarrow> bool \<Rightarrow> (demo, string list) service_call" where
  "demo_merge i squash w = (case List.find (\<lambda>d. id_iid d = i \<and> id_state d = MrOpened) (dm_mrs w) of
     None \<Rightarrow> (Inl MRClosedError, w)
   | Some d \<Rightarrow>
       let sha = CHR ''M'' # id_sha d in
       (Inr (id_labels d), (demo_update i (\<lambda>d. d\<lparr>id_state := MrMerged, id_merged_at := Some (dm_now w),
            id_merge_commit_sha := Some sha\<rparr>) (grow sha (dm_head w) w))\<lparr>dm_head := sha\<rparr>))"

definition demo_rebase :: "int \<Rightarrow> bool \<Rightarrow> (demo, unit) service_call" where
  "demo_rebase i skip w = (case List.find (\<lambda>d. id_iid d = i) (dm_mrs w) of
     None \<Rightarrow> (Inl MRRebaseError, w)
   | Some d \<Rightarrow> let sha = CHR ''R'' # id_sha d in
       (Inr (), demo_update i (\<lambda>d. d\<lparr>id_sha := sha\<rparr>) (grow sha (dm_head w) w)))"

definition demo_compare :: "string \<Rightarrow> string \<Rightarrow> (demo, nat) service_call" where
  "demo_compare a b w = (Inr (if a = b \<or> (a, b) \<in> set (dm_ancestors w) then 0 else 1), w)"

definition demo_lookup :: "(int \<times> 'a list) list \<Rightarrow> int \<Rightarrow> 'a list" where
  "demo_lookup xs i = (case map_of xs i of None \<Rightarrow> [] | Some ys \<Rightarrow> ys)"

definition demo_gitlab :: "demo gitlab" where
  "demo_gitlab = \<lparr>sv_user = ''bot'', sv_project_path = ''group/project'', sv_squash_always = False, sv_now = dm_now,
     sv_list = demo_list, sv_get = demo_get, sv_save = demo_save, sv_close = demo_close,
     sv_commits = (\<lambda>i w. (Inr [\<lparr>cm_id = ''c'', cm_web_url = ''url''\<rparr>], w)),
     sv_label_events = (\<lambda>i w. (Inr (demo_lookup (dm_events w) i), w)),
     sv_notes = (\<lambda>k i w. (Inr [], w)), sv_latest_notes = (\<lambda>i w. (Inr [], w)),
     sv_add_note = (\<lambda>k i b w. (Inr (), w)), sv_delete_note = (\<lambda>i n w. (Inr (), w)),
     sv_pipelines = (\<lambda>i w. (Inr (demo_lookup (dm_pipelines w) i), w)),
     sv_get_project = (\<lambda>i w. (Inr (), w)), sv_cancel = (\<lambda>p i w. (Inr (), w)),
     sv_statuses = (\<lambda>p c w. (Inr [], w)), sv_head = (\<lambda>b w. (Inr (dm_head w), w)),
     sv_compare = demo_compare, sv_branch_pipelines = (\<lambda>b w. (Inr [], w)),
     sv_merge = demo_merge, sv_rebase = demo_rebase,
     sv_state_get = (\<lambda>k w. (Inr None, w)), sv_state_add = (\<lambda>k v w. (Inr (), w))\<rparr>"

fun try_again :: "'w retry" where
  "try_again 0 m = m"
| "try_again (Suc n) m = (\<lambda>s. case m s of
     (Inl e, s') \<Rightarrow> if n = 0 then (Inl e, s') else try_again n m s' | (Inr x, s') \<Rightarrow> (Inr x, s'))"

lemma try_again_attempts: "0 < n \<Longrightarrow> attempts m n s (try_again n m s)"
proof (induction n arbitrary: s)
  case (Suc n)
  obtain r s' where m: "m s = (r, s')" by force
  show ?case
  proof (cases "isl r \<and> n \<noteq> 0")
    case True
    then obtain e where "r = Inl e" by (auto simp: isl_def)
    then have "try_again (Suc n) m s = try_again n m s'" using m True by simp
    moreover have "attempts m n s' (try_again n m s')" by (rule Suc.IH) (use True in simp)
    ultimately show ?thesis using next_attempt [of m s e s' n] m \<open>r = Inl e\<close> by simp
  next
    case False
    then have "try_again (Suc n) m s = m s" using m by (cases r) auto
    then show ?thesis by (metis last_attempt)
  qed
qed simp

lemma try_again_retries: "retries_attempts try_again"
  by (simp add: retries_attempts_def try_again_attempts)

section \<open>A project\<close>

definition demo_mr :: "int \<Rightarrow> string list \<Rightarrow> string \<Rightarrow> item_data" where
  "demo_mr i labels sha = \<lparr>id_iid = i, id_state = MrOpened, id_labels = labels, id_draft = False,
     id_merge_status = Some MsCanBeMerged, id_sha = sha, id_target_branch = ''master'', id_source_project_id = 7,
     id_squash = False, id_merge_error = None, id_updated_at = 0, id_merged_at = None, id_merge_commit_sha = None,
     id_squash_commit_sha = None\<rparr>"

definition demo_pipeline :: "int \<Rightarrow> pipeline_status \<Rightarrow> gl_pipeline" where
  "demo_pipeline i st = \<lparr>pl_id = i, pl_status = st, pl_source = ''external'', pl_created_at = i, pl_updated_at = 0\<rparr>"

definition demo_label :: "string \<Rightarrow> string \<Rightarrow> int \<Rightarrow> label_event" where
  "demo_label name user t = \<lparr>le_action = ''add'', le_label = Some name, le_user = user, le_created_at = t\<rparr>"

definition demo_housekeeping :: housekeeping where
  "demo_housekeeping = \<lparr>hk_days_interval = None, hk_enable_closing = None, hk_rebase_limit = Some 2,
     hk_merge_limit = Some 2, hk_consecutive_failure_limit = None, hk_pipeline_timeout = None, hk_multi_merge = True,
     hk_users_allowed = Some [''alice''], hk_rebase = True, hk_must_pass = None\<rparr>"

definition demo_world :: demo where
  \<comment> \<open>three approved merge requests of two tenants: 1 and 3 share one, and 3 is not rebased\<close>
  "demo_world = \<lparr>dm_mrs = [demo_mr 1 [''lgtm'', ''tenant-a''] ''s1'', demo_mr 2 [''lgtm'', ''tenant-b''] ''s2'',
       demo_mr 3 [''lgtm'', ''tenant-a''] ''s3''],
     dm_pipelines = [(1, [demo_pipeline 1 PlSuccess]), (2, [demo_pipeline 2 PlSuccess]), (3, [demo_pipeline 3 PlSuccess])],
     dm_events = [(1, [demo_label ''lgtm'' ''alice'' 10]), (2, [demo_label ''lgtm'' ''alice'' 20]),
       (3, [demo_label ''lgtm'' ''alice'' 30])],
     dm_head = ''h0'', dm_ancestors = [(''s1'', ''h0''), (''s2'', ''h0'')], dm_now = 1000\<rparr>"

definition demo_run :: "bool \<Rightarrow> demo \<Rightarrow> (gl_exc + unit) \<times> demo gl_run" where
  "demo_run dry_run w = housekeep_repository try_again dry_run True ActiveCapMultiMerge 5 demo_housekeeping demo_gitlab
     (fresh_run w)"

end
