(* ===== verification/Glh_Examples.thy ===== *)
theory Glh_Examples
  imports Glh_Theorems Glh_Demo
begin

text \<open>
  The properties of the GitLab housekeeping applied to concrete runs against the small GitLab.
\<close>

section \<open>Whole runs\<close>

definition demo_trace :: "bool \<Rightarrow> gl_event list" where
  "demo_trace dry_run = rn_trace (snd (demo_run dry_run demo_world))"

lemma demo_repository_result:
  "housekeep_repository try_again dry_run True ActiveCapMultiMerge 5 demo_housekeeping demo_gitlab (fresh_run demo_world) =
     (fst (demo_run dry_run demo_world), snd (demo_run dry_run demo_world))"
  by (simp add: demo_run_def)

lemma merges_are_justified_witness:
  "demo_trace False ! 15 = MergeTried 1 False True \<and> evidence True (take 15 (demo_trace False)) (demo_trace False ! 15)"
proof
  show "demo_trace False ! 15 = MergeTried 1 False True" by code_simp
  have "15 < length (demo_trace False)" by code_simp
  then show "evidence True (take 15 (demo_trace False)) (demo_trace False ! 15)"
    using merges_are_justified [OF try_again_retries demo_repository_result, of 15 False]
    by (simp add: demo_trace_def demo_housekeeping_def)
qed

definition demo_without_rebases :: housekeeping where
  "demo_without_rebases = demo_housekeeping\<lparr>hk_rebase := False\<rparr>"

definition demo_merge_run :: "bool \<Rightarrow> (gl_exc + unit) \<times> demo gl_run" where
  "demo_merge_run dry_run = housekeep_repository try_again dry_run True ActiveCapMultiMerge 5 demo_without_rebases demo_gitlab
     (fresh_run demo_world)"

lemma dry_run_reads_only_witness:
  "filter is_write (rn_trace (snd (demo_merge_run False))) = [MergeTried 1 False True, MergeTried 2 False True] \<and>
   \<not> is_write (rn_trace (snd (demo_merge_run True)) ! 12)"
proof
  show "filter is_write (rn_trace (snd (demo_merge_run False))) = [MergeTried 1 False True, MergeTried 2 False True]"
    by code_simp
  have "12 < length (rn_trace (snd (demo_merge_run True)))" by code_simp
  then have ev: "rn_trace (snd (demo_merge_run True)) ! 12 \<in> set (rn_trace (snd (demo_merge_run True)))" by simp
  have "housekeep_repository try_again True True ActiveCapMultiMerge 5 demo_without_rebases demo_gitlab (fresh_run demo_world) =
      (fst (demo_merge_run True), snd (demo_merge_run True))"
    by (simp add: demo_merge_run_def)
  from dry_run_reads_only [OF try_again_retries this ev]
  show "\<not> is_write (rn_trace (snd (demo_merge_run True)) ! 12)" .
qed

definition demo_merge_config :: merge_config where
  "demo_merge_config = merge_config_of False True ActiveCapMultiMerge 5 demo_housekeeping True"

definition demo_opened :: "demo gl_run" where
  "demo_opened = (fresh_run demo_world)\<lparr>rn_reload := True\<rparr>"

lemma attempt_merges_bounded_witness:
  "merges_in (rn_trace (snd (merge_merge_requests demo_merge_config demo_gitlab [] demo_opened))) = 1 \<and>
   merges_in (rn_trace (snd (merge_merge_requests demo_merge_config demo_gitlab [] demo_opened))) \<le> 2"
proof
  show "merges_in (rn_trace (snd (merge_merge_requests demo_merge_config demo_gitlab [] demo_opened))) = 1" by code_simp
  have "mc_merge_limit demo_merge_config = 2" "merges_in (rn_trace demo_opened) = 0" by code_simp+
  moreover have "events_never_closed demo_gitlab" by (simp add: events_never_closed_def demo_gitlab_def)
  moreover have "objects_known demo_opened" by (simp add: objects_known_def demo_opened_def fresh_run_def)
  ultimately show "merges_in (rn_trace (snd (merge_merge_requests demo_merge_config demo_gitlab [] demo_opened))) \<le> 2"
    using attempt_merges_bounded [of demo_gitlab demo_opened "[]" demo_merge_config] by (metis (no_types, lifting)
      add_0 empty_iff empty_set max.absorb1 one_le_numeral prod.collapse)
qed

definition demo_rebase_config :: rebase_config where
  "demo_rebase_config = rebase_config_of False True (demo_housekeeping\<lparr>hk_rebase_limit := Some 3\<rparr>)"

definition demo_rebase_queue :: "(gl_exc + gl_item list) \<times> demo gl_run" where
  "demo_rebase_queue = rebase_queue demo_rebase_config demo_gitlab (fresh_run demo_world)"

lemma rebases_bounded_witness:
  "rebases_in (rn_trace (snd (rebase_merge_requests ActiveCap demo_rebase_config demo_gitlab (fresh_run demo_world)))) = 1 \<and>
   rebases_in (rn_trace (snd (rebase_merge_requests ActiveCap demo_rebase_config demo_gitlab (fresh_run demo_world)))) \<le> 3"
proof
  show "rebases_in (rn_trace (snd (rebase_merge_requests ActiveCap demo_rebase_config demo_gitlab (fresh_run demo_world)))) = 1"
    by code_simp
  have "rb_limit demo_rebase_config = 3" "rebases_in (rn_trace (fresh_run demo_world)) = 0" by code_simp+
  moreover have "objects_known (fresh_run demo_world)" by (simp add: objects_known_def fresh_run_def)
  ultimately show "rebases_in (rn_trace (snd (rebase_merge_requests ActiveCap demo_rebase_config demo_gitlab (fresh_run demo_world)))) \<le> 3"
    using rebases_bounded [of "fresh_run demo_world" ActiveCap demo_rebase_config demo_gitlab] by (metis add_0 prod.collapse)
qed

section \<open>The queue and the group\<close>

definition demo_object :: "int \<Rightarrow> nat \<Rightarrow> string list \<Rightarrow> gl_item" where
  "demo_object i addr labels = \<lparr>it_kind = KMergeRequest, it_obj = addr, it_data = demo_mr i labels ''s1''\<rparr>"

definition demo_state :: "demo \<Rightarrow> gl_item list \<Rightarrow> demo gl_run" where
  "demo_state w xs = (fresh_run w)\<lparr>rn_next := 10,
     rn_objects := map_of (map (\<lambda>x. (object_key x, \<lparr>oa_labels = id_labels (it_data x), oa_state = MrOpened\<rparr>)) xs)\<rparr>"

definition demo_item :: "gl_item \<Rightarrow> queue_item" where
  "demo_item x = queue_entry x (id_labels (it_data x)) (10, ''alice'')"

lemma groups_are_separate_witness:
  "let xs = [demo_object 2 0 [''lgtm'', ''tenant-b''], demo_object 3 1 [''lgtm'', ''tenant-a''], demo_object 1 2 [''lgtm'', ''tenant-b'', ''tenant-c'']];
       s = demo_state demo_world xs
   in (\<forall>mr \<in> set [demo_object 2 0 [''lgtm'', ''tenant-b'']]. tenants_in s mr \<noteq> {} \<and> tenants_in s mr \<inter> set [''tenant-a''] = {})"
proof -
  let ?xs = "[demo_object 2 0 [''lgtm'', ''tenant-b''], demo_object 3 1 [''lgtm'', ''tenant-a''], demo_object 1 2 [''lgtm'', ''tenant-b'', ''tenant-c'']]"
  let ?run = "form_omm_group demo_gitlab (map demo_item ?xs) [''tenant-a''] (demo_state demo_world ?xs)"
  have "fst ?run = Inr [demo_object 2 0 [''lgtm'', ''tenant-b'']]" by code_simp
  then have "?run = (Inr [demo_object 2 0 [''lgtm'', ''tenant-b'']], snd ?run)" by (metis prod.collapse)
  from groups_are_separate [OF this] show ?thesis unfolding Let_def by blast
qed

definition demo_preprocess :: "bool \<Rightarrow> preprocess_config" where
  "demo_preprocess dry_run = \<lparr>pc_dry_run = dry_run, pc_users_allowed = Some [''alice''], pc_must_pass = None, pc_skip_unmergeable = True\<rparr>"

definition mixed_labels :: demo where
  \<comment> \<open>a label by a user that is allowed and one by a user that is not\<close>
  "mixed_labels = demo_world\<lparr>dm_mrs := [demo_mr 1 [''lgtm'', ''bot/automerge''] ''s1''], dm_events := [(1, [demo_label ''lgtm'' ''alice'' 10, demo_label ''bot/automerge'' ''mallory'' 20])]\<rparr>"

definition mixed_mr :: gl_item where "mixed_mr = demo_object 1 0 [''lgtm'', ''bot/automerge'']"

lemma demo_saves_as_told: "saves_as_told demo_gitlab"
  by (simp add: saves_as_told_def demo_gitlab_def demo_save_def)

lemma unauthorized_labels_do_not_count_witness:
  "labels_in (snd (queue_by_labels (demo_preprocess False) demo_gitlab (None, []) mixed_mr (demo_state mixed_labels [mixed_mr]))) mixed_mr = [''lgtm''] \<and>
   is_good_to_merge (labels_in (snd (queue_by_labels (demo_preprocess False) demo_gitlab (None, []) mixed_mr (demo_state mixed_labels [mixed_mr]))) mixed_mr)"
proof
  let ?run = "queue_by_labels (demo_preprocess False) demo_gitlab (None, []) mixed_mr (demo_state mixed_labels [mixed_mr])"
  show "labels_in (snd ?run) mixed_mr = [''lgtm'']" by code_simp
  have "fst ?run = Inr (Some (10, ''alice''), [queue_entry mixed_mr [''lgtm''] (10, ''alice'')])" by code_simp
  then have run: "?run = (Inr (Some (10, ''alice''), [queue_entry mixed_mr [''lgtm''] (10, ''alice'')]), snd ?run)"
    by (metis prod.collapse)
  have "\<not> pc_dry_run (demo_preprocess False)" by code_simp
  from unauthorized_labels_do_not_count [OF run this demo_saves_as_told]
  show "is_good_to_merge (labels_in (snd ?run) mixed_mr)" by (simp add: demo_gitlab_def)
qed

section \<open>Approvals that are gone\<close>

definition unapproved_world :: demo where
  "unapproved_world = demo_world\<lparr>dm_events := [(1, [demo_label ''lgtm'' ''mallory'' 30])]\<rparr>"

definition unapproved_mr :: gl_item where "unapproved_mr = demo_object 1 0 [''lgtm'']"


definition withdrawn_world :: demo where
  \<comment> \<open>a member of a group whose approval label was removed after it joined\<close>
  "withdrawn_world = demo_world\<lparr>dm_mrs := [demo_mr 2 [''tenant-b'', ''omm-pending''] ''s2'']\<rparr>"

definition withdrawn_mr :: gl_item where "withdrawn_mr = demo_object 2 0 [''tenant-b'', ''omm-pending'']"

definition withdrawn_state :: "demo gl_run" where "withdrawn_state = demo_state withdrawn_world [withdrawn_mr]"

lemma withdrawn_approval_is_merged_witness:
  "\<exists>s'. process_omm_member False demo_gitlab None withdrawn_mr withdrawn_state = (Inl ValueError, s') \<and>
     MergeTried 2 False True \<in> set (rn_trace s')"
proof -
  let ?oa = "\<lparr>oa_labels = [''tenant-b'', ''omm-pending''], oa_state = MrOpened\<rparr>"
  let ?ps = "[demo_pipeline 2 PlSuccess]"
  let ?r1 = "get_merge_request_pipelines demo_gitlab withdrawn_mr withdrawn_state"
  let ?r2 = "get_merge_request demo_gitlab 2 (snd ?r1)"
  let ?fresh = "\<lparr>it_kind = KMergeRequest, it_obj = 10, it_data = demo_mr 2 [''tenant-b'', ''omm-pending''] ''s2''\<rparr>"
  let ?r3 = "is_rebased demo_gitlab ?fresh (snd ?r2)"
  let ?r4 = "sv_merge demo_gitlab 2 (sv_squash_always demo_gitlab \<or> id_squash (it_data withdrawn_mr)) (rn_world (snd ?r3))"
  have iid: "it_iid withdrawn_mr = 2" by code_simp
  have "fst ?r1 = Inr ?ps" "fst ?r2 = Inr ?fresh" "fst ?r3 = Inr True" "fst ?r4 = Inr (oa_labels ?oa)"
    by code_simp+
  then have runs: "?r1 = (Inr ?ps, snd ?r1)" "?r2 = (Inr ?fresh, snd ?r2)" "?r3 = (Inr True, snd ?r3)"
      "?r4 = (Inr (oa_labels ?oa), snd ?r4)"
    by (metis prod.collapse)+
  have obj: "rn_objects withdrawn_state (object_key withdrawn_mr) = Some ?oa" "it_obj withdrawn_mr < rn_next withdrawn_state"
    by code_simp+
  have labels: "unblocked (oa_labels ?oa)" "set MERGE_LABELS_PRIORITY \<inter> set (oa_labels ?oa) = {}" "first_success (ci_signal ?ps)"
    by code_simp+
  have w4: "demo_lookup (dm_events (snd ?r4)) 2 = [demo_label ''lgtm'' ''alice'' 20]" by code_simp
  have evs: "sv_label_events demo_gitlab 2 (snd ?r4) = (Inr [demo_label ''lgtm'' ''alice'' 20], snd ?r4)"
    using w4 by (simp add: demo_gitlab_def)
  have name: "''lgtm'' \<in> set MERGE_LABELS_PRIORITY" "\<not> (sv_squash_always demo_gitlab \<or> id_squash (it_data withdrawn_mr))"
    by code_simp+
  show ?thesis
    using withdrawn_approval_is_merged [OF obj labels(1,2) runs(1) labels(3), unfolded iid, OF runs(2,3,4) evs, where ev = "demo_label ''lgtm'' ''alice'' 20" and name = "''lgtm''"] name
    by (simp add: demo_label_def)
qed

section \<open>A group in a later run\<close>

definition later_world :: demo where
  \<comment> \<open>1 leads a group, its member 2 is merged, its member 3 is still running, and 4 shares a tenant with 2\<close>
  "later_world = demo_world\<lparr>dm_mrs := [
       (demo_mr 1 [''lgtm'', ''tenant-a'', ''omm-group-lead''] ''s1'')\<lparr>id_state := MrMerged\<rparr>,
       (demo_mr 2 [''lgtm'', ''tenant-b'', ''omm-pending''] ''s2'')\<lparr>id_state := MrMerged\<rparr>,
       demo_mr 3 [''lgtm'', ''tenant-c'', ''omm-pending''] ''s3'', demo_mr 4 [''lgtm'', ''tenant-b''] ''s4''],
     dm_pipelines := [(3, [demo_pipeline 3 PlRunning]), (4, [demo_pipeline 4 PlSuccess])]\<rparr>"

lemma merged_member_is_forgotten:
  \<comment> \<open>4 joins the group and is rebased without a pipeline, although the group has merged 2, which touches its tenant\<close>
  "let lead = demo_object 1 0 [''lgtm'', ''tenant-a'', ''omm-group-lead''];
       member = demo_object 3 1 [''lgtm'', ''tenant-c'', ''omm-pending''];
       new = demo_object 4 2 [''lgtm'', ''tenant-b''];
       (r, s') = expand_omm_group False demo_gitlab lead [member] [demo_item new] (demo_state later_world [lead, member, new])
   in r = Inr [new] \<and> RebaseTried 4 True True \<in> set (rn_trace s')"
  by code_simp

end
