(* ===== verification/Spec2Isabelle.thy ===== *)
theory Spec2Isabelle
  imports Differ Change_Examples Aus_Schedule_Examples Aus_Label_Examples Ocm_Examples
    Er_Examples Er_Secrets Sapm_Examples Glh_Examples
begin

text \<open>
  Verification of qontract-reconcile. The repository is a set of reconcilers: each reads a desired state
  from a data bundle, compares it with the state of a service and acts on the difference. Two of its
  parts decide on their own what may happen, and these are modelled first: the change-owners subsystem,
  which decides who may approve which change of the bundle and whether a merge request may merge, and the
  advanced upgrade service, which decides which cluster upgrades to which version and when.

  Theories, and the code they model (paths below \<open>src/\<close>):

  \<open>Py_Prelude\<close>: dictionaries as association lists in insertion order, computations that may raise,
  the string methods and the rounding of Python.

  \<open>Differ\<close> (\<open>qontract_utils/qontract_utils/differ.py\<close>): the comparison of two states that the
  reconcilers share; its contract is the locale \<open>state_differ\<close>. It is a partition, and acting on it converges.

  Change owners (\<open>reconcile/change_owners/\<close>, \<open>reconcile/utils/jsonpath.py\<close>,
  \<open>reconcile/utils/membershipsources/\<close>). \<open>Json_Path\<close>: prefixes, order and constraints of paths;
  \<open>Change_Coverage\<close>: files, contexts, and the coverage of a difference with its splits (\<open>diff.py\<close>);
  \<open>Bundle_Changes\<close>: changes of files and how contexts cover them (\<open>changes.py\<close>,
  \<open>bundle.py\<close>); \<open>Coverage_Laws\<close>: coverage is sound and complete; \<open>Ownership\<close>: the files in
  the context of a change (\<open>change_types.py\<close>), with fuel for the mutual recursion of
  \<open>find_context_file_refs\<close> and a bound that is enough; \<open>Change_Type_Init\<close>: change-type processors
  and their inheritance; \<open>Role_Coverage\<close>: self-service roles, implicit ownership and group members;
  \<open>Change_Decision\<close>: comments, decisions, labels (\<open>decision.py\<close>, \<open>change_owners.py\<close>);
  \<open>Change_Run\<close>: the run of the integration; \<open>Change_Log\<close>: the change log. \<open>Change_Examples\<close>
  applies the properties to a concrete change.

  Advanced upgrade service (\<open>reconcile/aus/\<close>). \<open>Aus_Models\<close>: versions, clusters, health and upgrade
  specifications; \<open>Aus_Sectors\<close>: organizations and their sectors, whose dependencies are validated by
  a recursion bounded by the number of sectors; \<open>Aus_Version_Data\<close>: the history of versions, soak days
  and what is inherited from other organizations, over the locale \<open>history_store\<close>. \<open>Aus_Schedule\<close>:
  the conditions for a version, version gates, the guards of a cluster and \<open>calculate_diff\<close> (\<open>base.py\<close>), whose
  state are the locks, the upgrades per sector and mutex, and the decisions so far; the recursion down the sector
  dependencies has the number of sectors as fuel, which is enough for every validated organization
  (\<open>sector_search_terminates\<close>). \<open>Aus_Schedule_Laws\<close>: which version is selected, and what guards it;
  \<open>Aus_Diff_Laws\<close>: every decision is justified, and upgrades exclude each other, over the locale
  \<open>lock_table\<close>; \<open>Aus_Act\<close>: the calls a decision makes; \<open>Aus_Run\<close>: the schedulers for clusters
  and addons and their run over all organizations; \<open>Aus_Gates\<close>: the approver of version gates
  (\<open>version_gate_approver.py\<close>). \<open>Aus_Labels\<close> and \<open>Aus_Org_Labels\<close>: the settings of clusters and organizations as
  labels, written by \<open>aus_label_source.py\<close> and read by \<open>advanced_upgrade_service.py\<close>; \<open>Aus_Config\<close>: the
  specifications of an environment in the three flavours of the scheduler. \<open>Aus_Examples\<close>,
  \<open>Aus_Schedule_Examples\<close> and \<open>Aus_Label_Examples\<close> apply the properties to a small organization.

  The labels of OCM (\<open>reconcile/ocm_labels\<close>, \<open>reconcile/utils/ocm\<close>): \<open>Ocm_Labels\<close> merges the desired labels
  of several sources, reads the current ones from a map of label containers and applies the difference, each
  call of OCM possibly failing. It closes the circle from a policy over its labels in OCM back to the policy
  that the scheduler reads (\<open>published_policy_is_read_back\<close>).

  Searching OCM (\<open>reconcile/utils/ocm\<close>): \<open>Ocm_Filter\<close> has the filters of \<open>search_filters.py\<close> and their text,
  \<open>Ocm_Filter_Text\<close> a reader of the search language that reads the text of a filter as the filter,
  \<open>Ocm_Filter_Laws\<close> the laws of their combination and chunks; \<open>Ocm_Discovery\<close> and \<open>Ocm_Discovery_Laws\<close> the
  discovery of labels, subscriptions and clusters (\<open>labels.py\<close>, \<open>subscriptions.py\<close>, \<open>clusters.py\<close>) over an
  OCM that answers search texts from a database; \<open>Ocm_Examples\<close> is a small one. The reader has fuel, twice
  the length of the text, which every text of a filter is read with.

  External resources (\<open>reconcile/external_resources\<close>, \<open>reconcile/utils/external_resource_spec.py\<close>): cloud resources
  that Kubernetes jobs create and destroy. \<open>Er_Model\<close>: keys, specifications, the inventory and the configuration of
  modules (\<open>model.py\<close>); \<open>Er_State\<close>: the items of the DynamoDB table (\<open>state.py\<close>); \<open>Er_State_Laws\<close>: what is read
  back, and that the table implements the locale \<open>state_store\<close>, the store that the manager is written for;
  \<open>Er_Factories\<close>: the input of a module from its specification (\<open>aws.py\<close>, \<open>factories.py\<close>), where the chain of
  replica sources may not end, with its laws in \<open>Er_Factory_Laws\<close>; \<open>Job_Controller\<close>: the jobs and the wait for
  them (\<open>utils/jobcontroller\<close>), which may not end either; \<open>Er_Manager\<close>: a run (\<open>manager.py\<close>, \<open>reconciler.py\<close>),
  which handles the reconciliations in turn, with the state, the jobs as the cache of the controller shows them,
  and the jobs it scheduled. \<open>Er_Laws\<close> handles one resource, against a table of transitions, \<open>Er_Run_Laws\<close> all of
  them, \<open>Er_Theorems\<close> has the properties of runs, and \<open>Er_Examples\<close> small systems. \<open>Er_Secrets\<close>: the outputs on their way to
  clusters and Vault (\<open>secrets_sync.py\<close>).

  Saas auto promotions manager (\<open>reconcile/saas_auto_promotions_manager\<close>): it promotes the targets of SaaS files by
  merge requests whose state it keeps in their descriptions. \<open>Sapm_Slo\<close>: the check of objectives
  (\<open>utils/slo_document_manager.py\<close>) and the errors of the integration; \<open>Sapm_Inventory\<close>: publishers, channels and
  subscribers from the SaaS files, and the promotions stored in S3; \<open>Sapm_Subscriber\<close>: the gates of a promotion
  and the content hash; \<open>Sapm_Text\<close>: descriptions, titles and the rendered files, which \<open>Sapm_Text_Laws\<close> reads back;
  \<open>Sapm_Batcher\<close>: the difference between desired promotions and open merge requests, with closed forms of its
  loops in \<open>Sapm_Batcher_Laws\<close> and the system of open merge requests, a step relation with its invariant, in
  \<open>Sapm_Batcher_System\<close>; \<open>Sapm_Manager\<close>: the parser, GitLab as a record of open merge requests that actions change
  before they may raise, and the run, whose effect is in \<open>Sapm_Manager_Laws\<close> and whose second run is idle by
  \<open>Sapm_Settled\<close>. \<open>Sapm_Inventory_Laws\<close>: no channel lacks a publisher; \<open>Sapm_Theorems\<close> has the properties and
  \<open>Sapm_Examples\<close> an installation with two channels.

  GitLab housekeeping (\<open>reconcile/gitlab_housekeeping.py\<close>, \<open>reconcile/utils/gitlab_api.py\<close>): it keeps the queue of
  merge requests of a repository, merges and rebases them. \<open>Glh_Model\<close>: GitLab as a record of calls that change a
  world and may raise, the client objects whose labels change in place, actions that keep their effects when they
  raise, and the trace of what a run reads and writes; \<open>Glh_Queue\<close>: stale items, on-demand tests, pipelines and the
  preprocessing of the queue; \<open>Glh_Omm\<close>: optimistic multi-merge groups; \<open>Glh_Merge\<close>: an attempt of the merging and the
  rebase strategies; \<open>Glh_Health\<close>: error labels and the housekeeping of one repository, with the retry decorator as
  a parameter that makes attempts. \<open>Glh_Laws\<close> has triples over actions and the locale \<open>trace_invariant\<close>, inside which
  \<open>Glh_Trace\<close>, \<open>Glh_Trace_Run\<close> and \<open>Glh_Trace_Repo\<close> show that every operation keeps a predicate on traces; it is
  interpreted for the evidence of merges, for dry runs and, in \<open>Glh_Bounds\<close>, for the numbers of merges and rebases.
  \<open>Glh_Groups\<close>: groups and the order of the queue; \<open>Glh_Theorems\<close> has the properties, \<open>Glh_Demo\<close> a small GitLab that
  is an instance of the parameter, and \<open>Glh_Examples\<close> runs against it. The loop over the repositories, the feature
  toggles, the expiry of tokens and the metrics are left out.

  Parameters of the model are the packages and services the code calls: the jsonpath and jinja packages,
  the graph package, the semver package, the qontract-server, GitLab, OCM, the secret store, and base64 and digests. What is assumed of them
  is a named hypothesis of the theorem that needs it (\<open>plain_full_paths\<close>, \<open>networkx_like\<close>,
  \<open>reads_numbers\<close>, \<open>answers\<close>, \<open>lib_ok\<close>, \<open>retries_attempts\<close>, \<open>events_never_closed\<close>, \<open>saves_as_told\<close>).

  Numbers: Python integers are HOL integers, the floats of the soak days are rationals without rounding,
  and times are integers in microseconds. Sets that the code iterates are lists in order of first
  insertion.

  Not modelled: logging and metrics, the HTTP clients, command lines, generated GraphQL classes apart
  from the fields the models use, and the integrations that only translate between two APIs.
\<close>

end
